(* ===== verification/Chaos_Prelude.thy ===== *)
theory Chaos_Prelude
  imports Main "HOL-Library.Word"
begin

text \<open>
  Shared ground of the development: the exception type every component throws, the three ways a
  C++ call can end (it returns, it throws, it runs into undefined behaviour), the collections of
  simplification rules the component theories extend, and the generic lemmas on lists and maps
  they share.
\<close>

section \<open>Exceptions and outcomes\<close>

text \<open>
  The class \<open>CException\<close> of \<open>chaos/common/exception/CException.h\<close>: an error code, a message and
  a domain. The formatted text behind \<open>what()\<close> is a function of the three and is left out.
\<close>

datatype cexception = CException (errorCode: int) (errorMessage: string) (errorDomain: string)

text \<open>
  The outcome of a call: a value, a \<open>CException\<close> that leaves the call, or a fault (the call reads
  through a null pointer or outside an array, which C++ leaves undefined).
\<close>

datatype 'a outcome = Ret 'a | Throw cexception | Fault

text \<open>Calls one after the other: exceptions and faults are passed on.\<close>

fun obind :: "'a outcome \<Rightarrow> ('a \<Rightarrow> 'b outcome) \<Rightarrow> 'b outcome" where
  "obind (Ret a) f = f a"
| "obind (Throw e) f = Throw e"
| "obind Fault f = Fault"

lemma obind_RetE:
  assumes "obind x f = Ret y"
  obtains a where "x = Ret a" "f a = Ret y"
  using assms by (cases x) auto

type_synonym u8 = "8 word"
type_synonym u16 = "16 word"
type_synonym u32 = "32 word"
type_synonym u64 = "64 word"

section \<open>Collections\<close>

named_theorems chaos_defs "operations a component proof unfolds"
named_theorems chaos_inv "invariant preservation facts"

section \<open>Numbers as text\<close>

text \<open>An unsigned number as \<open>boost::lexical_cast\<close> and \<open>boost::format\<close> print it.\<close>

fun decimal :: "nat \<Rightarrow> string" where
  "decimal n = (if n < 10 then [char_of (48 + n)] else decimal (n div 10) @ [char_of (48 + n mod 10)])"

declare decimal.simps [simp del]

section \<open>Lists\<close>

lemma find_keys_distinct:
  assumes "distinct (map f xs)" and "x \<in> set xs"
  shows "find (\<lambda>y. f y = f x) xs = Some x"
  using assms by (induction xs) (auto intro: rev_image_eqI)

lemma find_key_None: "find (\<lambda>y. f y = k) xs = None \<longleftrightarrow> k \<notin> f ` set xs"
  by (auto simp: find_None_iff)

lemma length_filter_list_update:
  assumes "i < length xs"
  shows "length (filter P (xs[i := y])) + (if P (xs ! i) then 1 else 0)
       = length (filter P xs) + (if P y then 1 else 0)"
proof -
  have xs: "length (filter P xs) = length (filter P (take i xs @ xs ! i # drop (Suc i) xs))"
    using id_take_nth_drop [OF assms] by simp
  show ?thesis unfolding xs by (simp add: upd_conv_take_nth_drop [OF assms])
qed

lemma sum_list_update_less:
  fixes f :: "'a \<Rightarrow> nat"
  assumes "i < length xs" and "f y < f (xs ! i)"
  shows "sum_list (map f (xs[i := y])) < sum_list (map f xs)"
proof -
  have xs: "sum_list (map f xs) = sum_list (map f (take i xs @ xs ! i # drop (Suc i) xs))"
    using id_take_nth_drop [OF assms(1)] by simp
  show ?thesis unfolding xs using assms(2) by (simp add: upd_conv_take_nth_drop [OF assms(1)])
qed

lemma last_take_nth:
  assumes "0 < n" and "n \<le> length xs"
  shows "last (take n xs) = xs ! (n - 1)"
proof -
  from assms have "take n xs \<noteq> []" by auto
  then show ?thesis using assms by (simp add: last_conv_nth)
qed

lemma unat_add_u64: "unat a + unat b < 2 ^ 64 \<Longrightarrow> unat (a + b :: u64) = unat a + unat b"
  using unat_add_lem [of a b] by simp

end
