(* ===== verification/Service_Lifecycle.thy ===== *)
theory Service_Lifecycle
  imports Chaos_Prelude
begin

text \<open>
  The life cycle every long-lived object of the framework goes through
  (\<open>chaos/common/utility/InizializableService.*\<close>, \<open>StartableService.*\<close> and
  \<open>SetupStateManager.h\<close>). The two transition tables are data of the source; the engine that runs
  them is Boost.MSM, which is not part of the repository, so its \<open>process_event\<close> and its numbering
  of states are parameters. The locale \<open>msm_backend\<close> states what the code relies on.
\<close>

section \<open>States, events and transition tables\<close>

datatype ss_state = Deinitilized | Initialized | Started | Stopped

datatype ss_event = Ev_initialize | Ev_deinitialize | Ev_start | Ev_stop

type_synonym ss_row = "ss_state \<times> ss_event \<times> ss_state"

definition id_transition_table :: "ss_row list" where
  "id_transition_table =
     [(Deinitilized, Ev_initialize, Initialized),
      (Initialized, Ev_deinitialize, Deinitilized)]"

definition ss_transition_table :: "ss_row list" where
  "ss_transition_table =
     [(Deinitilized, Ev_initialize, Initialized),
      (Initialized, Ev_deinitialize, Deinitilized),
      (Initialized, Ev_start, Started),
      (Started, Ev_stop, Stopped),
      (Stopped, Ev_start, Started),
      (Stopped, Ev_deinitialize, Deinitilized)]"

text \<open>
  A back end of the state machine: \<open>process_event\<close> takes the table, the current state and an
  event, and gives the state afterwards and whether the event was handled
  (\<open>HANDLED_TRUE\<close>). In a table without two rows for the same source and event, the row of the
  current state and the event decides; without such a row the state is kept
  (\<open>no_transition\<close> of both tables does nothing).
\<close>

type_synonym msm = "ss_row list \<Rightarrow> ss_state \<Rightarrow> ss_event \<Rightarrow> ss_state \<times> bool"

definition row_key :: "ss_row \<Rightarrow> ss_state \<times> ss_event" where
  "row_key r = (fst r, fst (snd r))"

locale msm_backend =
  fixes process_event :: msm
  assumes fires: "distinct (map row_key T) \<Longrightarrow> (s, e, t) \<in> set T \<Longrightarrow>
      process_event T s e = (t, True)"
    and no_transition: "(s, e) \<notin> row_key ` set T \<Longrightarrow> process_event T s e = (s, False)"

section \<open>A service object\<close>

text \<open>
  A startable service carries two machines: the one of its base class
  \<open>InizializableService\<close> and its own, which hides it. \<open>serviceState\<close> is the byte both classes
  write, \<open>impl_data\<close> whatever the concrete subclass keeps.
\<close>

record 'u service =
  base_fsm :: ss_state
  ss_fsm :: ss_state
  serviceState :: u8
  impl_data :: 'u

text \<open>
  The virtual functions a subclass overrides. Each may change the subclass's data and may throw
  after changing it.
\<close>

record ('i, 'u) service_hooks =
  init_hook :: "'i \<Rightarrow> 'u \<Rightarrow> 'u \<times> cexception option"
  deinit_hook :: "'u \<Rightarrow> 'u \<times> cexception option"
  start_hook :: "'u \<Rightarrow> 'u \<times> cexception option"
  stop_hook :: "'u \<Rightarrow> 'u \<times> cexception option"

definition new_service :: "'u \<Rightarrow> 'u service" where
  "new_service u = \<lparr>base_fsm = Deinitilized, ss_fsm = Deinitilized, serviceState = 0, impl_data = u\<rparr>"

definition null_exception :: "string \<Rightarrow> cexception" where
  "null_exception domainString = CException 0 ''Implementation is null'' domainString"

definition IS_initImplementation ::
  "msm \<Rightarrow> (ss_state \<Rightarrow> u8) \<Rightarrow> ('i, 'u) service_hooks \<Rightarrow> 'u service option \<Rightarrow> 'i \<Rightarrow> string
   \<Rightarrow> bool outcome \<times> 'u service option" where
  "IS_initImplementation pe state_id h impl initData domainString =
     (case impl of
        None \<Rightarrow> (Fault, None)
      | Some s \<Rightarrow>
          (case pe id_transition_table (base_fsm s) Ev_initialize of
             (st, True) \<Rightarrow>
               (case init_hook h initData (impl_data s) of
                  (u, None) \<Rightarrow>
                    (Ret True, Some (s\<lparr>base_fsm := st, impl_data := u, serviceState := state_id st\<rparr>))
                | (u, Some ex) \<Rightarrow>
                    (let st1 = fst (pe id_transition_table st Ev_deinitialize);
                         st2 = fst (pe id_transition_table st1 Ev_deinitialize)
                     in (Throw ex, Some (s\<lparr>base_fsm := st2, impl_data := u\<rparr>))))
           | (st, False) \<Rightarrow>
               (Throw (CException 0 ''Service cant be initialized'' domainString),
                Some (s\<lparr>base_fsm := fst (pe id_transition_table st Ev_deinitialize)\<rparr>))))"

definition IS_deinitImplementation ::
  "msm \<Rightarrow> (ss_state \<Rightarrow> u8) \<Rightarrow> ('i, 'u) service_hooks \<Rightarrow> 'u service option \<Rightarrow> string
   \<Rightarrow> bool outcome \<times> 'u service option" where
  "IS_deinitImplementation pe state_id h impl domainString =
     (case impl of
        None \<Rightarrow> (Throw (null_exception domainString), None)
      | Some s \<Rightarrow>
          (case pe id_transition_table (base_fsm s) Ev_deinitialize of
             (st, True) \<Rightarrow>
               (case deinit_hook h (impl_data s) of
                  (u, None) \<Rightarrow>
                    (Ret True, Some (s\<lparr>base_fsm := st, impl_data := u, serviceState := state_id st\<rparr>))
                | (u, Some ex) \<Rightarrow> (Throw ex, Some (s\<lparr>base_fsm := st, impl_data := u\<rparr>)))
           | (st, False) \<Rightarrow>
               (Throw (CException 0 ''Service cant be started'' domainString),
                Some (s\<lparr>base_fsm := st\<rparr>))))"

definition initImplementation ::
  "msm \<Rightarrow> (ss_state \<Rightarrow> u8) \<Rightarrow> ('i, 'u) service_hooks \<Rightarrow> 'u service option \<Rightarrow> 'i \<Rightarrow> string
   \<Rightarrow> bool outcome \<times> 'u service option" where
  "initImplementation pe state_id h impl initData domainString =
     (case impl of
        None \<Rightarrow> (Throw (null_exception domainString), None)
      | Some s \<Rightarrow>
          (case pe ss_transition_table (ss_fsm s) Ev_initialize of
             (st, True) \<Rightarrow>
               (case init_hook h initData (impl_data s) of
                  (u, None) \<Rightarrow>
                    (Ret True, Some (s\<lparr>ss_fsm := st, impl_data := u, serviceState := state_id st\<rparr>))
                | (u, Some ex) \<Rightarrow>
                    (Throw ex,
                     Some (s\<lparr>ss_fsm := fst (pe ss_transition_table st Ev_deinitialize), impl_data := u\<rparr>)))
           | (st, False) \<Rightarrow>
               (Throw (CException 0 ''Service cant be initialized'' domainString),
                Some (s\<lparr>ss_fsm := st\<rparr>))))"

definition deinitImplementation ::
  "msm \<Rightarrow> (ss_state \<Rightarrow> u8) \<Rightarrow> ('i, 'u) service_hooks \<Rightarrow> 'u service option \<Rightarrow> string
   \<Rightarrow> bool outcome \<times> 'u service option" where
  "deinitImplementation pe state_id h impl domainString =
     (case impl of
        None \<Rightarrow> (Throw (null_exception domainString), None)
      | Some s \<Rightarrow>
          (case pe ss_transition_table (ss_fsm s) Ev_deinitialize of
             (st, True) \<Rightarrow>
               (case deinit_hook h (impl_data s) of
                  (u, None) \<Rightarrow>
                    (Ret True, Some (s\<lparr>ss_fsm := st, impl_data := u, serviceState := state_id st\<rparr>))
                | (u, Some ex) \<Rightarrow> (Throw ex, Some (s\<lparr>ss_fsm := st, impl_data := u\<rparr>)))
           | (st, False) \<Rightarrow>
               (Throw (CException 0 ''Service cant be deinitialize'' domainString),
                Some (s\<lparr>ss_fsm := st\<rparr>))))"

definition startImplementation ::
  "msm \<Rightarrow> (ss_state \<Rightarrow> u8) \<Rightarrow> ('i, 'u) service_hooks \<Rightarrow> 'u service option \<Rightarrow> string
   \<Rightarrow> bool outcome \<times> 'u service option" where
  "startImplementation pe state_id h impl domainString =
     (case impl of
        None \<Rightarrow> (Throw (null_exception domainString), None)
      | Some s \<Rightarrow>
          (case pe ss_transition_table (ss_fsm s) Ev_start of
             (st, True) \<Rightarrow>
               (case start_hook h (impl_data s) of
                  (u, None) \<Rightarrow>
                    (Ret True, Some (s\<lparr>ss_fsm := st, impl_data := u, serviceState := state_id st\<rparr>))
                | (u, Some ex) \<Rightarrow>
                    (Throw ex,
                     Some (s\<lparr>ss_fsm := fst (pe ss_transition_table st Ev_initialize), impl_data := u\<rparr>)))
           | (st, False) \<Rightarrow>
               (Throw (CException 0 ''Service cant be started'' domainString),
                Some (s\<lparr>ss_fsm := st\<rparr>))))"

definition stopImplementation ::
  "msm \<Rightarrow> (ss_state \<Rightarrow> u8) \<Rightarrow> ('i, 'u) service_hooks \<Rightarrow> 'u service option \<Rightarrow> string
   \<Rightarrow> bool outcome \<times> 'u service option" where
  "stopImplementation pe state_id h impl domainString =
     (case impl of
        None \<Rightarrow> (Throw (null_exception domainString), None)
      | Some s \<Rightarrow>
          (case pe ss_transition_table (ss_fsm s) Ev_stop of
             (st, True) \<Rightarrow>
               (case stop_hook h (impl_data s) of
                  (u, None) \<Rightarrow>
                    (Ret True, Some (s\<lparr>ss_fsm := st, impl_data := u, serviceState := state_id st\<rparr>))
                | (u, Some ex) \<Rightarrow>
                    (Throw ex,
                     Some (s\<lparr>ss_fsm := fst (pe ss_transition_table st Ev_start), impl_data := u\<rparr>)))
           | (st, False) \<Rightarrow>
               (Throw (CException 0 ''Service cant be stopped'' domainString),
                Some (s\<lparr>ss_fsm := st\<rparr>))))"

declare IS_initImplementation_def [chaos_defs] IS_deinitImplementation_def [chaos_defs]
  initImplementation_def [chaos_defs] deinitImplementation_def [chaos_defs]
  startImplementation_def [chaos_defs] stopImplementation_def [chaos_defs]

section \<open>Setup levels\<close>

text \<open>
  \<open>SetupStateManager\<close>: an integer level that only moves one step at a time, from the level the
  caller believes it to be at.
\<close>

definition levelUpFrom :: "int \<Rightarrow> string \<Rightarrow> int \<Rightarrow> unit outcome \<times> int" where
  "levelUpFrom currentStateID errorMessageText currentState =
     (if currentStateID \<noteq> currentState
      then (Throw (CException currentStateID errorMessageText ''SetupStateManager::levelUp''), currentState)
      else (Ret (), currentState + 1))"

definition levelDownFrom :: "int \<Rightarrow> string \<Rightarrow> int \<Rightarrow> unit outcome \<times> int" where
  "levelDownFrom currentStateID errorMessageText currentState =
     (if currentStateID \<noteq> currentState
      then (Throw (CException currentStateID errorMessageText ''SetupStateManager::levelDown''), currentState)
      else (Ret (), currentState - 1))"

section \<open>What the tables give\<close>

context msm_backend
begin

lemma id_rows:
  "process_event id_transition_table Deinitilized Ev_initialize = (Initialized, True)"
  "process_event id_transition_table Initialized Ev_deinitialize = (Deinitilized, True)"
  by (auto simp: id_transition_table_def row_key_def intro!: fires)

lemma id_no_rows:
  "s \<noteq> Deinitilized \<Longrightarrow> process_event id_transition_table s Ev_initialize = (s, False)"
  "s \<noteq> Initialized \<Longrightarrow> process_event id_transition_table s Ev_deinitialize = (s, False)"
  by (auto simp: id_transition_table_def row_key_def intro!: no_transition)

lemma ss_rows:
  "process_event ss_transition_table Deinitilized Ev_initialize = (Initialized, True)"
  "process_event ss_transition_table Initialized Ev_deinitialize = (Deinitilized, True)"
  "process_event ss_transition_table Initialized Ev_start = (Started, True)"
  "process_event ss_transition_table Started Ev_stop = (Stopped, True)"
  "process_event ss_transition_table Stopped Ev_start = (Started, True)"
  "process_event ss_transition_table Stopped Ev_deinitialize = (Deinitilized, True)"
  by (auto simp: ss_transition_table_def row_key_def intro!: fires)

lemma ss_no_rows:
  "s \<noteq> Deinitilized \<Longrightarrow> process_event ss_transition_table s Ev_initialize = (s, False)"
  "s \<noteq> Initialized \<Longrightarrow> s \<noteq> Stopped \<Longrightarrow> process_event ss_transition_table s Ev_deinitialize = (s, False)"
  "s \<noteq> Initialized \<Longrightarrow> s \<noteq> Stopped \<Longrightarrow> process_event ss_transition_table s Ev_start = (s, False)"
  "s \<noteq> Started \<Longrightarrow> process_event ss_transition_table s Ev_stop = (s, False)"
  by (auto simp: ss_transition_table_def row_key_def intro!: no_transition)

lemmas table_steps = id_rows id_no_rows ss_rows ss_no_rows

end

text \<open>
  A concrete back end, the plain table look-up. It shows that the contract can be met.
\<close>

definition table_process_event :: msm where
  "table_process_event T s e =
     (case find (\<lambda>r. row_key r = (s, e)) T of
        None \<Rightarrow> (s, False)
      | Some r \<Rightarrow> (snd (snd r), True))"

interpretation table_msm: msm_backend table_process_event
proof
  fix T :: "ss_row list" and s e t
  assume d: "distinct (map row_key T)" and m: "(s, e, t) \<in> set T"
  have "find (\<lambda>r. row_key r = row_key (s, e, t)) T = Some (s, e, t)"
    by (rule find_keys_distinct [OF d m])
  then show "table_process_event T s e = (t, True)"
    by (simp add: table_process_event_def row_key_def)
next
  fix T :: "ss_row list" and s e
  assume "(s, e) \<notin> row_key ` set T"
  then show "table_process_event T s e = (s, False)"
    by (simp add: table_process_event_def find_key_None [symmetric])
qed

section \<open>Runs of a service and the hooks they call\<close>

datatype 'i ss_op = Op_init 'i | Op_deinit | Op_start | Op_stop

fun ss_apply :: "msm \<Rightarrow> (ss_state \<Rightarrow> u8) \<Rightarrow> ('i, 'u) service_hooks \<Rightarrow> string \<Rightarrow> 'u service \<Rightarrow> 'i ss_op
  \<Rightarrow> 'u service" where
  "ss_apply pe sid h d s (Op_init i) = the (snd (initImplementation pe sid h (Some s) i d))"
| "ss_apply pe sid h d s Op_deinit = the (snd (deinitImplementation pe sid h (Some s) d))"
| "ss_apply pe sid h d s Op_start = the (snd (startImplementation pe sid h (Some s) d))"
| "ss_apply pe sid h d s Op_stop = the (snd (stopImplementation pe sid h (Some s) d))"

definition ss_run :: "msm \<Rightarrow> (ss_state \<Rightarrow> u8) \<Rightarrow> ('i, 'u) service_hooks \<Rightarrow> string \<Rightarrow> 'u service
  \<Rightarrow> 'i ss_op list \<Rightarrow> 'u service" where
  "ss_run pe sid h d s ops = foldl (ss_apply pe sid h d) s ops"

text \<open>
  A specification automaton over hook calls: which hook may be called next and where its success
  or failure leads. A \<open>start\<close> that fails still leads to \<open>Started\<close>.
\<close>

datatype hook = H_init | H_deinit | H_start | H_stop

fun hook_step :: "ss_state \<Rightarrow> hook \<times> bool \<Rightarrow> ss_state option" where
  "hook_step Deinitilized (H_init, ok) = Some (if ok then Initialized else Deinitilized)"
| "hook_step Initialized (H_deinit, ok) = Some Deinitilized"
| "hook_step Stopped (H_deinit, ok) = Some Deinitilized"
| "hook_step Initialized (H_start, ok) = Some Started"
| "hook_step Stopped (H_start, ok) = Some Started"
| "hook_step Started (H_stop, ok) = Some (if ok then Stopped else Started)"
| "hook_step s c = None"

fun hook_run :: "ss_state \<Rightarrow> (hook \<times> bool) list \<Rightarrow> ss_state option" where
  "hook_run s [] = Some s"
| "hook_run s (c # cs) = (case hook_step s c of None \<Rightarrow> None | Some t \<Rightarrow> hook_run t cs)"

lemma hook_run_append:
  "hook_run s (xs @ ys) = (case hook_run s xs of None \<Rightarrow> None | Some t \<Rightarrow> hook_run t ys)"
  by (induction xs arbitrary: s) (auto split: option.split)

text \<open>
  Hooks that record each call and whether it succeeded. Which calls fail is an arbitrary function
  of the hook, and of everything called before.
\<close>

definition logging_hooks ::
  "(hook \<Rightarrow> (hook \<times> bool) list \<Rightarrow> cexception option) \<Rightarrow> ('i, (hook \<times> bool) list) service_hooks" where
  "logging_hooks f =
     (let call = (\<lambda>k u. (u @ [(k, f k u = None)], f k u))
      in \<lparr>init_hook = (\<lambda>_. call H_init), deinit_hook = call H_deinit,
          start_hook = call H_start, stop_hook = call H_stop\<rparr>)"

lemma logging_hooks_sel [simp]:
  "init_hook (logging_hooks f) i u = (u @ [(H_init, f H_init u = None)], f H_init u)"
  "deinit_hook (logging_hooks f) u = (u @ [(H_deinit, f H_deinit u = None)], f H_deinit u)"
  "start_hook (logging_hooks f) u = (u @ [(H_start, f H_start u = None)], f H_start u)"
  "stop_hook (logging_hooks f) u = (u @ [(H_stop, f H_stop u = None)], f H_stop u)"
  by (simp_all add: logging_hooks_def Let_def)

context msm_backend
begin

lemma ss_apply_log:
  assumes "hook_run Deinitilized (impl_data s) = Some (ss_fsm s)"
  shows "hook_run Deinitilized (impl_data (ss_apply process_event sid (logging_hooks f) d s op))
       = Some (ss_fsm (ss_apply process_event sid (logging_hooks f) d s op))"
  using assms
  by (cases op; cases "ss_fsm s")
     (auto simp: chaos_defs table_steps hook_run_append split: option.split)

lemma ss_run_log:
  assumes "hook_run Deinitilized (impl_data s) = Some (ss_fsm s)"
  shows "hook_run Deinitilized (impl_data (ss_run process_event sid (logging_hooks f) d s ops))
       = Some (ss_fsm (ss_run process_event sid (logging_hooks f) d s ops))"
  using assms
  by (induction ops arbitrary: s) (simp_all add: ss_run_def ss_apply_log)

lemma start_failure_sticks:
  assumes "ss_fsm s = Initialized \<or> ss_fsm s = Stopped" and "start_hook h (impl_data s) = (u, Some ex)"
  shows "startImplementation process_event sid h (Some s) d
           = (Throw ex, Some (s\<lparr>ss_fsm := Started, impl_data := u\<rparr>))"
  using assms by (auto simp: chaos_defs table_steps)

lemma start_refused_when_started:
  assumes "ss_fsm s = Started"
  shows "startImplementation process_event sid h (Some s) d
           = (Throw (CException 0 ''Service cant be started'' d), Some s)"
  using assms by (simp add: chaos_defs table_steps)

lemma init_failure_rolls_back:
  assumes "ss_fsm s = Deinitilized" and "init_hook h i (impl_data s) = (u, Some ex)"
  shows "initImplementation process_event sid h (Some s) i d
           = (Throw ex, Some (s\<lparr>impl_data := u\<rparr>))"
  using assms by (cases s) (simp add: chaos_defs table_steps)

lemma stop_failure_rolls_back:
  assumes "ss_fsm s = Started" and "stop_hook h (impl_data s) = (u, Some ex)"
  shows "stopImplementation process_event sid h (Some s) d
           = (Throw ex, Some (s\<lparr>impl_data := u\<rparr>))"
  using assms by (cases s) (simp add: chaos_defs table_steps)

lemma base_deinit_refused:
  assumes "base_fsm s = Deinitilized"
  shows "IS_deinitImplementation process_event sid h (Some s) d
           = (Throw (CException 0 ''Service cant be started'' d), Some s)"
  using assms by (cases s) (simp add: chaos_defs table_steps)

lemma base_reinit_drops:
  assumes "base_fsm s = Initialized"
  shows "IS_initImplementation process_event sid h (Some s) i d
           = (Throw (CException 0 ''Service cant be initialized'' d), Some (s\<lparr>base_fsm := Deinitilized\<rparr>))"
  using assms by (simp add: chaos_defs table_steps)

end

section \<open>Properties\<close>

text \<open>
  C20. Whatever operations are applied to a startable service, and whichever hooks fail, the hooks
  of the subclass are called in a legal order only: the recorded calls are accepted by the
  specification automaton and lead it to the state of the service's machine.
\<close>

theorem service_hooks_legal_order:
  assumes "msm_backend pe"
  shows "hook_run Deinitilized (impl_data (ss_run pe sid (logging_hooks f) d (new_service []) ops))
       = Some (ss_fsm (ss_run pe sid (logging_hooks f) d (new_service []) ops))"
  by (rule msm_backend.ss_run_log [OF assms]) (simp add: new_service_def)

theorem service_hooks_legal_order_witness:
  "hook_run Deinitilized
     (impl_data (ss_run table_process_event (\<lambda>_. 0) (logging_hooks (\<lambda>_ _. None)) ''cu'' (new_service [])
        [Op_init (), Op_start, Op_start, Op_stop, Op_deinit])) = Some Deinitilized"
  using service_hooks_legal_order [OF table_msm.msm_backend_axioms,
      of "\<lambda>_. 0" "\<lambda>_ _. None" "''cu''" "[Op_init (), Op_start, Op_start, Op_stop, Op_deinit]"]
  by (simp add: ss_run_def new_service_def chaos_defs table_msm.table_steps)

text \<open>
  A \<open>start\<close> hook that throws is not rolled back: the event \<open>initialize\<close> the handler fires has
  no row out of \<open>Started\<close>, so the machine stays in \<open>Started\<close>, and the next attempt to start the
  service is refused without calling the hook.
\<close>

theorem failed_start_not_rolled_back:
  assumes "msm_backend pe" and "ss_fsm s = Initialized \<or> ss_fsm s = Stopped"
    and "start_hook h (impl_data s) = (u, Some ex)"
  shows "\<exists>s'. startImplementation pe sid h (Some s) d = (Throw ex, Some s') \<and> ss_fsm s' = Started
         \<and> startImplementation pe sid h (Some s') d
             = (Throw (CException 0 ''Service cant be started'' d), Some s')"
  using msm_backend.start_failure_sticks [OF assms(1), of s h u ex]
    msm_backend.start_refused_when_started [OF assms(1), of "s\<lparr>ss_fsm := Started, impl_data := u\<rparr>" sid h d]
    assms(2,3)
  by auto

theorem failed_start_not_rolled_back_witness:
  "\<exists>s'. startImplementation table_process_event (\<lambda>_. 0) (logging_hooks (\<lambda>_ _. Some (CException 1 ''e'' ''d'')) :: (unit, _) service_hooks)
          (Some ((new_service [])\<lparr>ss_fsm := Initialized\<rparr>)) ''cu'' = (Throw (CException 1 ''e'' ''d''), Some s')
        \<and> ss_fsm s' = Started
        \<and> startImplementation table_process_event (\<lambda>_. 0) (logging_hooks (\<lambda>_ _. Some (CException 1 ''e'' ''d'')) :: (unit, _) service_hooks)
            (Some s') ''cu'' = (Throw (CException 0 ''Service cant be started'' ''cu''), Some s')"
  by (rule failed_start_not_rolled_back [OF table_msm.msm_backend_axioms])
     (simp_all add: new_service_def logging_hooks_def)

text \<open>
  \<open>InizializableService::initImplementation\<close> on a service that is already initialized throws,
  and its outer handler still sends \<open>deinitialize\<close>: the machine goes back to \<open>Deinitilized\<close> while
  the subclass's \<open>deinit\<close> is never called, so a following \<open>deinitImplementation\<close> is refused and
  the resources of the first initialization stay.
\<close>

theorem reinit_drops_initialized:
  assumes "msm_backend pe" and "base_fsm s = Initialized"
  shows "\<exists>s'. IS_initImplementation pe sid h (Some s) i d
               = (Throw (CException 0 ''Service cant be initialized'' d), Some s')
         \<and> base_fsm s' = Deinitilized \<and> impl_data s' = impl_data s
         \<and> IS_deinitImplementation pe sid h (Some s') d
             = (Throw (CException 0 ''Service cant be started'' d), Some s')"
  using msm_backend.base_reinit_drops [OF assms, of sid h i d]
    msm_backend.base_deinit_refused [OF assms(1), of "s\<lparr>base_fsm := Deinitilized\<rparr>" sid h d]
  by auto

theorem reinit_drops_initialized_witness:
  "\<exists>s'. IS_initImplementation table_process_event (\<lambda>_. 0) (logging_hooks (\<lambda>_ _. None))
          (Some ((new_service [])\<lparr>base_fsm := Initialized\<rparr>)) () ''cu''
          = (Throw (CException 0 ''Service cant be initialized'' ''cu''), Some s')
        \<and> base_fsm s' = Deinitilized \<and> impl_data s' = impl_data ((new_service [])\<lparr>base_fsm := Initialized\<rparr>)
        \<and> IS_deinitImplementation table_process_event (\<lambda>_. 0) (logging_hooks (\<lambda>_ _. None) :: (unit, _) service_hooks)
            (Some s') ''cu'' = (Throw (CException 0 ''Service cant be started'' ''cu''), Some s')"
  by (rule reinit_drops_initialized [OF table_msm.msm_backend_axioms]) simp

end
