(* ===== verification/Processing_Queue.thy ===== *)
theory Processing_Queue
  imports Chaos_Prelude "HOL-Library.Multiset"
begin

text \<open>
  The processing queues of \<open>chaos/common/pqueue\<close> and \<open>chaos/common/thread/TemplatedConcurrentQueue.h\<close>:
  the bounded FIFO with its pool of worker threads, the priority queue and the concurrent priority
  queue. A block that holds \<open>qMutex\<close> is one atomic operation; a thread that waits on a condition
  variable is blocked and may be woken at any time (the library allows spurious wake-ups), after
  which it takes the lock again and tests its condition again.
\<close>

section \<open>The FIFO: operations under the lock\<close>

definition MAX_ELEMENT_IN_QUEUE :: nat where
  "MAX_ELEMENT_IN_QUEUE = 1000"

record 'a cqueue =
  bufferQueue :: "'a list"
  in_deinit :: bool

definition cq_new :: "'a cqueue" where
  "cq_new = \<lparr>bufferQueue = [], in_deinit = False\<rparr>"

definition cq_push :: "'a \<Rightarrow> 'a cqueue \<Rightarrow> bool \<times> 'a cqueue" where
  "cq_push data q =
     (if in_deinit q \<or> length (bufferQueue q) > MAX_ELEMENT_IN_QUEUE then (False, q)
      else (True, q\<lparr>bufferQueue := bufferQueue q @ [data]\<rparr>))"

text \<open>
  One pass of \<open>waitAndPop\<close> with the lock held: it blocks, or it returns the oldest element, or
  \<open>NULL\<close> (here \<open>None\<close>).
\<close>

datatype 'a pop_result = Pop_blocks | Pop_returns "'a option"

definition cq_waitAndPop :: "'a cqueue \<Rightarrow> 'a pop_result \<times> 'a cqueue" where
  "cq_waitAndPop q =
     (if bufferQueue q = [] \<and> \<not> in_deinit q then (Pop_blocks, q)
      else case bufferQueue q of
             [] \<Rightarrow> (Pop_returns None, q)
           | oldestElement # rest \<Rightarrow> (Pop_returns (Some oldestElement), q\<lparr>bufferQueue := rest\<rparr>))"

definition cq_isEmpty :: "'a cqueue \<Rightarrow> bool" where
  "cq_isEmpty q = (bufferQueue q = [])"

definition cq_clear :: "'a cqueue \<Rightarrow> 'a cqueue" where
  "cq_clear q = q\<lparr>bufferQueue := []\<rparr>"

definition cq_elementInLiveBuffer :: "'a cqueue \<Rightarrow> nat" where
  "cq_elementInLiveBuffer q = length (bufferQueue q)"

section \<open>What a worker does with one element\<close>

text \<open>
  The listener may veto the processing and may veto the deletion. The processing function reports
  whether it detached the element and whether it threw.
\<close>

record 'a queue_listener =
  elementWillBeProcessed :: "'a \<Rightarrow> bool"
  elementWillBeDiscarded :: "'a \<Rightarrow> bool"

datatype elem_fate = Deleted | Detached | Kept

datatype loop_next = Next_iteration | Thread_returns

definition cq_execute_element ::
  "'a queue_listener option \<Rightarrow> ('a \<Rightarrow> bool \<times> bool) \<Rightarrow> 'a \<Rightarrow> elem_fate \<times> loop_next" where
  "cq_execute_element listener process dataRow =
     (if (case listener of None \<Rightarrow> False | Some l \<Rightarrow> \<not> elementWillBeProcessed l dataRow)
      then (Deleted, Next_iteration)
      else case process dataRow of
        (detached, threw) \<Rightarrow>
          if \<not> threw \<and> detached then (Detached, Next_iteration)
          else if (case listener of None \<Rightarrow> False | Some l \<Rightarrow> \<not> elementWillBeDiscarded l dataRow)
               then (Kept, Thread_returns)
               else (Deleted, Next_iteration))"

section \<open>The queue with its threads\<close>

text \<open>
  A worker is about to test \<open>while(!in_deinit)\<close>, inside \<open>waitAndPop\<close> and about to hold the lock,
  blocked on \<open>liveThreadConditionLock\<close>, processing an element, or ended. The thread that called
  \<open>deinit\<close> is blocked on \<open>emptyQueueConditionLock\<close>, joining the workers, or has returned.
  \<open>accepted\<close> and \<open>taken\<close> record the elements \<open>push\<close> accepted and the workers took, in order.
\<close>

datatype 'a worker_pc = W_check | W_lock | W_blocked | W_proc 'a | W_end

datatype deinit_pc = D_idle | D_waiting | D_joining | D_done

record 'a qsystem =
  sys_queue :: "'a cqueue"
  workers :: "'a worker_pc list"
  deinit_at :: deinit_pc
  accepted :: "'a list"
  taken :: "'a list"

definition qs_init :: "nat \<Rightarrow> 'a qsystem" where
  "qs_init threadNumber =
     \<lparr>sys_queue = cq_new, workers = replicate threadNumber W_check, deinit_at = D_idle,
      accepted = [], taken = []\<rparr>"

text \<open>The locked part of \<open>deinit\<close>: it sets the flag, then waits only if asked to.\<close>

definition cq_deinit_enter :: "bool \<Rightarrow> 'a cqueue \<Rightarrow> deinit_pc \<times> 'a cqueue" where
  "cq_deinit_enter waithForEmptyQueue q =
     (if waithForEmptyQueue \<and> bufferQueue q \<noteq> [] then D_waiting else D_joining, q\<lparr>in_deinit := True\<rparr>)"

definition cq_deinit_retest :: "'a cqueue \<Rightarrow> deinit_pc" where
  "cq_deinit_retest q = (if bufferQueue q \<noteq> [] then D_waiting else D_joining)"

inductive qs_step :: "'a queue_listener option \<Rightarrow> ('a \<Rightarrow> bool \<times> bool) \<Rightarrow> 'a qsystem \<Rightarrow> 'a qsystem \<Rightarrow> bool"
  for lst proc where
  push: "cq_push x (sys_queue s) = (ok, q) \<Longrightarrow>
    qs_step lst proc s (s\<lparr>sys_queue := q, accepted := accepted s @ (if ok then [x] else [])\<rparr>)"
| check: "i < length (workers s) \<Longrightarrow> workers s ! i = W_check \<Longrightarrow>
    qs_step lst proc s
      (s\<lparr>workers := (workers s)[i := (if in_deinit (sys_queue s) then W_end else W_lock)]\<rparr>)"
| pop_blocks: "i < length (workers s) \<Longrightarrow> workers s ! i = W_lock \<Longrightarrow>
    cq_waitAndPop (sys_queue s) = (Pop_blocks, q) \<Longrightarrow>
    qs_step lst proc s (s\<lparr>sys_queue := q, workers := (workers s)[i := W_blocked]\<rparr>)"
| pop_null: "i < length (workers s) \<Longrightarrow> workers s ! i = W_lock \<Longrightarrow>
    cq_waitAndPop (sys_queue s) = (Pop_returns None, q) \<Longrightarrow>
    qs_step lst proc s (s\<lparr>sys_queue := q, workers := (workers s)[i := W_check]\<rparr>)"
| pop_some: "i < length (workers s) \<Longrightarrow> workers s ! i = W_lock \<Longrightarrow>
    cq_waitAndPop (sys_queue s) = (Pop_returns (Some x), q) \<Longrightarrow>
    qs_step lst proc s
      (s\<lparr>sys_queue := q, workers := (workers s)[i := W_proc x], taken := taken s @ [x]\<rparr>)"
| wake: "i < length (workers s) \<Longrightarrow> workers s ! i = W_blocked \<Longrightarrow>
    qs_step lst proc s (s\<lparr>workers := (workers s)[i := W_lock]\<rparr>)"
| process: "i < length (workers s) \<Longrightarrow> workers s ! i = W_proc x \<Longrightarrow>
    cq_execute_element lst proc x = (fate, nxt) \<Longrightarrow>
    qs_step lst proc s
      (s\<lparr>workers := (workers s)[i := (case nxt of Next_iteration \<Rightarrow> W_check | Thread_returns \<Rightarrow> W_end)]\<rparr>)"
| deinit: "deinit_at s = D_idle \<Longrightarrow> cq_deinit_enter w (sys_queue s) = (d, q) \<Longrightarrow>
    qs_step lst proc s (s\<lparr>sys_queue := q, deinit_at := d\<rparr>)"
| deinit_wake: "deinit_at s = D_waiting \<Longrightarrow> cq_deinit_retest (sys_queue s) = d \<Longrightarrow>
    qs_step lst proc s (s\<lparr>deinit_at := d\<rparr>)"
| join: "deinit_at s = D_joining \<Longrightarrow> (\<forall>w \<in> set (workers s). w = W_end) \<Longrightarrow>
    qs_step lst proc s (s\<lparr>deinit_at := D_done\<rparr>)"

inductive qs_steps :: "'a queue_listener option \<Rightarrow> ('a \<Rightarrow> bool \<times> bool) \<Rightarrow> 'a qsystem \<Rightarrow> 'a qsystem \<Rightarrow> bool"
  for lst proc where
  refl: "qs_steps lst proc s s"
| step: "qs_steps lst proc s t \<Longrightarrow> qs_step lst proc t u \<Longrightarrow> qs_steps lst proc s u"

declare cq_push_def [chaos_defs] cq_waitAndPop_def [chaos_defs] cq_deinit_enter_def [chaos_defs]
  cq_deinit_retest_def [chaos_defs]

section \<open>The priority queues\<close>

text \<open>
  An element of the heap. The constructor stores an \<open>unsigned int\<close> priority in an \<open>int\<close>, so the
  priority is kept at its width and compared as a signed value.
\<close>

record 'a prio_elem =
  element :: 'a
  priority :: u32
  disposeOnDestroy :: bool

definition prio_less :: "'a prio_elem \<Rightarrow> 'b prio_elem \<Rightarrow> bool" where
  "prio_less a b = (sint (priority a) < sint (priority b))"

text \<open>
  \<open>std::priority_queue\<close> and \<open>boost::heap::priority_queue\<close> promise of \<open>top\<close> that it is an element no
  other is greater than; which of several is not said. \<open>htop\<close> is therefore a parameter, and
  \<open>heap_top\<close> its contract.
\<close>

locale heap_top =
  fixes htop :: "'a prio_elem list \<Rightarrow> 'a prio_elem"
  assumes htop_in: "q \<noteq> [] \<Longrightarrow> htop q \<in> set q"
    and htop_max: "x \<in> set q \<Longrightarrow> \<not> prio_less (htop q) x"

record 'a prio_queue =
  heap :: "'a prio_elem list"
  inDeinit :: bool

definition pq_push :: "'a \<Rightarrow> u32 \<Rightarrow> bool \<Rightarrow> 'a prio_queue \<Rightarrow> bool \<times> 'a prio_queue" where
  "pq_push elementToPush prio dispose q =
     (if inDeinit q then (False, q)
      else (True, q\<lparr>heap := \<lparr>element = elementToPush, priority = prio, disposeOnDestroy = dispose\<rparr> # heap q\<rparr>))"

definition pq_waitAndPop ::
  "('a prio_elem list \<Rightarrow> 'a prio_elem) \<Rightarrow> 'a prio_queue \<Rightarrow> 'a prio_elem pop_result \<times> 'a prio_queue" where
  "pq_waitAndPop htop q =
     (if heap q = [] \<and> \<not> inDeinit q then (Pop_blocks, q)
      else if heap q = [] then (Pop_returns None, q)
      else (Pop_returns (Some (htop (heap q))), q\<lparr>heap := remove1 (htop (heap q)) (heap q)\<rparr>))"

definition pq_clear :: "'a prio_queue \<Rightarrow> 'a prio_queue" where
  "pq_clear q = q\<lparr>heap := []\<rparr>"

text \<open>
  The worker of the priority queue: the element is freed with its wrapper unless the processing
  detached it; a listener that vetoes the deletion leaks the wrapper but not the thread.
\<close>

definition pq_execute_element ::
  "'a queue_listener option \<Rightarrow> ('a \<Rightarrow> bool \<times> bool) \<Rightarrow> 'a prio_elem \<Rightarrow> elem_fate \<times> loop_next" where
  "pq_execute_element listener process dataRow =
     (let destroy = (\<lambda>row. if disposeOnDestroy row then Deleted else Detached) in
      if (case listener of None \<Rightarrow> False | Some l \<Rightarrow> \<not> elementWillBeProcessed l (element dataRow))
      then (destroy dataRow, Next_iteration)
      else case process (element dataRow) of
        (detached, threw) \<Rightarrow>
          let row = (if threw then dataRow else dataRow\<lparr>disposeOnDestroy := \<not> detached\<rparr>) in
          if (case listener of None \<Rightarrow> False | Some l \<Rightarrow> \<not> elementWillBeDiscarded l (element row))
          then (Kept, Next_iteration)
          else (destroy row, Next_iteration))"

text \<open>\<open>TemplatedConcurrentQueue\<close>: the same heap without workers and without a shutdown flag.\<close>

definition tcq_push :: "'a \<Rightarrow> u32 \<Rightarrow> 'a prio_elem list \<Rightarrow> 'a prio_elem list" where
  "tcq_push data prio q = \<lparr>element = data, priority = prio, disposeOnDestroy = False\<rparr> # q"

definition tcq_try_pop ::
  "('a prio_elem list \<Rightarrow> 'a prio_elem) \<Rightarrow> 'a prio_elem list \<Rightarrow> 'a option \<times> 'a prio_elem list" where
  "tcq_try_pop htop q =
     (if q = [] then (None, q) else (Some (element (htop q)), remove1 (htop q) q))"

definition tcq_wait_and_pop ::
  "('a prio_elem list \<Rightarrow> 'a prio_elem) \<Rightarrow> 'a prio_elem list \<Rightarrow> 'a pop_result \<times> 'a prio_elem list" where
  "tcq_wait_and_pop htop q =
     (if q = [] then (Pop_blocks, q)
      else (Pop_returns (Some (element (htop q))), remove1 (htop q) q))"

section \<open>Invariants of the FIFO system\<close>

definition qs_inv :: "'a qsystem \<Rightarrow> bool" where
  "qs_inv s \<longleftrightarrow> accepted s = taken s @ bufferQueue (sys_queue s)
     \<and> length (bufferQueue (sys_queue s)) \<le> Suc MAX_ELEMENT_IN_QUEUE
     \<and> (deinit_at s \<noteq> D_idle \<longrightarrow> in_deinit (sys_queue s))"

lemma qs_inv_init: "qs_inv (qs_init n)"
  by (simp add: qs_inv_def qs_init_def cq_new_def)

lemma qs_inv_step: "qs_step lst proc s t \<Longrightarrow> qs_inv s \<Longrightarrow> qs_inv t"
  by (induction rule: qs_step.induct)
     (auto simp: qs_inv_def chaos_defs split: if_splits list.splits)

lemma qs_inv_steps: "qs_steps lst proc s t \<Longrightarrow> qs_inv s \<Longrightarrow> qs_inv t"
  by (induction rule: qs_steps.induct) (auto intro: qs_inv_step)

text \<open>
  A worker inside \<open>waitAndPop\<close> can still take one element after \<open>in_deinit\<close> is set, any other
  worker takes none.
\<close>

fun inside_pop :: "'a worker_pc \<Rightarrow> bool" where
  "inside_pop W_lock = True"
| "inside_pop W_blocked = True"
| "inside_pop _ = False"

definition may_pop :: "'a qsystem \<Rightarrow> nat" where
  "may_pop s = length (filter inside_pop (workers s))"

lemma may_pop_update:
  assumes "i < length ws"
  shows "length (filter inside_pop (ws[i := w])) + (if inside_pop (ws ! i) then 1 else 0)
       = length (filter inside_pop ws) + (if inside_pop w then 1 else 0)"
  by (rule length_filter_list_update [OF assms])

definition deinit_starved :: "'a qsystem \<Rightarrow> bool" where
  "deinit_starved s \<longleftrightarrow> deinit_at s = D_waiting \<and> in_deinit (sys_queue s)
     \<and> may_pop s < length (bufferQueue (sys_queue s))"

lemma deinit_starved_step: "qs_step lst proc s t \<Longrightarrow> deinit_starved s \<Longrightarrow> deinit_starved t"
proof (induction rule: qs_step.induct)
  case (check i s)
  then show ?case
    using may_pop_update [of i "workers s" W_end] by (simp add: deinit_starved_def may_pop_def)
next
  case (pop_null i s q)
  then show ?case by (auto simp: deinit_starved_def may_pop_def chaos_defs split: if_splits list.splits)
next
  case (pop_some i s x q)
  then show ?case
    using may_pop_update [of i "workers s" "W_proc x"]
    by (auto simp: deinit_starved_def may_pop_def chaos_defs split: if_splits list.splits)
next
  case (wake i s)
  then show ?case
    using may_pop_update [of i "workers s" W_lock] by (simp add: deinit_starved_def may_pop_def)
next
  case (process i s x fate nxt)
  then show ?case
    using may_pop_update [of i "workers s" W_check] may_pop_update [of i "workers s" W_end]
    by (cases nxt) (simp_all add: deinit_starved_def may_pop_def)
qed (auto simp: deinit_starved_def may_pop_def chaos_defs split: if_splits list.splits)

lemma deinit_starved_steps: "qs_steps lst proc s t \<Longrightarrow> deinit_starved s \<Longrightarrow> deinit_starved t"
  by (induction rule: qs_steps.induct) (auto intro: deinit_starved_step)

section \<open>A shutdown that does not wait can finish\<close>

fun pc_weight :: "'a worker_pc \<Rightarrow> nat" where
  "pc_weight W_end = 0"
| "pc_weight W_check = 1"
| "pc_weight (W_proc x) = 2"
| "pc_weight W_lock = 3"
| "pc_weight W_blocked = 4"

definition work_left :: "'a qsystem \<Rightarrow> nat" where
  "work_left s = sum_list (map pc_weight (workers s))"

definition joining :: "'a qsystem \<Rightarrow> bool" where
  "joining s \<longleftrightarrow> deinit_at s = D_joining \<and> in_deinit (sys_queue s)"

lemma worker_progress:
  assumes "joining s" and "i < length (workers s)" and "workers s ! i \<noteq> W_end"
  shows "\<exists>t. qs_step lst proc s t \<and> joining t \<and> work_left t < work_left s"
proof -
  have upd: "work_left (s\<lparr>sys_queue := q, workers := (workers s)[i := w]\<rparr>) < work_left s"
    if "pc_weight w < pc_weight (workers s ! i)" for q w
    using sum_list_update_less [OF assms(2), of pc_weight w] that by (simp add: work_left_def)
  show ?thesis
  proof (cases "workers s ! i")
    case W_check
    then show ?thesis
      using qs_step.check [OF assms(2) W_check, of lst proc] upd [of W_end "sys_queue s"] assms(1)
      by (intro exI conjI) (assumption, auto simp: joining_def work_left_def)
  next
    case W_lock
    show ?thesis
    proof (cases "bufferQueue (sys_queue s)")
      case Nil
      with assms(1) have "cq_waitAndPop (sys_queue s) = (Pop_returns None, sys_queue s)"
        by (simp add: joining_def chaos_defs)
      from qs_step.pop_null [OF assms(2) W_lock this, of lst proc] show ?thesis
        using upd [of W_check "sys_queue s"] W_lock assms(1)
        by (intro exI conjI) (assumption, auto simp: joining_def)
    next
      case (Cons x xs)
      let ?q = "sys_queue s\<lparr>bufferQueue := xs\<rparr>"
      from Cons have "cq_waitAndPop (sys_queue s) = (Pop_returns (Some x), ?q)"
        by (simp add: chaos_defs)
      from qs_step.pop_some [OF assms(2) W_lock this, of lst proc] show ?thesis
        using upd [of "W_proc x" ?q] W_lock assms(1)
        by (intro exI conjI) (assumption, auto simp: joining_def work_left_def)
    qed
  next
    case W_blocked
    then show ?thesis
      using qs_step.wake [OF assms(2) W_blocked, of lst proc] upd [of W_lock "sys_queue s"] assms(1)
      by (intro exI conjI) (assumption, auto simp: joining_def work_left_def)
  next
    case (W_proc x)
    obtain fate nxt where e: "cq_execute_element lst proc x = (fate, nxt)"
      by fastforce
    from qs_step.process [OF assms(2) W_proc e] show ?thesis
      using upd [of W_check "sys_queue s"] upd [of W_end "sys_queue s"] W_proc assms(1)
      by (intro exI conjI) (assumption, auto simp: joining_def work_left_def split: loop_next.split)
  next
    case W_end
    with assms(3) show ?thesis by simp
  qed
qed

lemma qs_steps_trans:
  "qs_steps lst proc t u \<Longrightarrow> qs_steps lst proc s t \<Longrightarrow> qs_steps lst proc s u"
  by (induction rule: qs_steps.induct) (auto intro: qs_steps.step)

lemma joining_can_finish:
  "joining s \<Longrightarrow> \<exists>t. qs_steps lst proc s t \<and> deinit_at t = D_done"
proof (induction "work_left s" arbitrary: s rule: less_induct)
  case less
  show ?case
  proof (cases "\<forall>w \<in> set (workers s). w = W_end")
    case True
    with less.prems have "qs_step lst proc s (s\<lparr>deinit_at := D_done\<rparr>)"
      by (auto simp: joining_def intro: qs_step.join)
    then have "qs_steps lst proc s (s\<lparr>deinit_at := D_done\<rparr>)"
      by (rule qs_steps.step [OF qs_steps.refl])
    then show ?thesis by (intro exI [of _ "s\<lparr>deinit_at := D_done\<rparr>"]) simp
  next
    case False
    then obtain i where "i < length (workers s)" "workers s ! i \<noteq> W_end"
      by (auto simp: in_set_conv_nth)
    with worker_progress [OF less.prems] obtain t where
      t: "qs_step lst proc s t" "joining t" "work_left t < work_left s" by blast
    from less.hyps [OF t(3,2)] obtain u where "qs_steps lst proc t u" "deinit_at u = D_done"
      by blast
    moreover have "qs_steps lst proc s t"
      by (rule qs_steps.step [OF qs_steps.refl t(1)])
    ultimately show ?thesis by (blast intro: qs_steps_trans)
  qed
qed

section \<open>The concurrent priority queue\<close>

text \<open>What its users do with a \<open>TemplatedConcurrentQueue\<close>, and what the pops return.\<close>

datatype 'a tcq_op = Op_push 'a u32 | Op_try_pop

fun tcq_run ::
  "('a prio_elem list \<Rightarrow> 'a prio_elem) \<Rightarrow> 'a tcq_op list \<Rightarrow> 'a prio_elem list \<Rightarrow> 'a option list \<times> 'a prio_elem list" where
  "tcq_run htop [] q = ([], q)"
| "tcq_run htop (Op_push x prio # ops) q = tcq_run htop ops (tcq_push x prio q)"
| "tcq_run htop (Op_try_pop # ops) q =
     (let (r, q1) = tcq_try_pop htop q; (rs, q2) = tcq_run htop ops q1 in (r # rs, q2))"

text \<open>
  The specification: a multiset of values with their priorities. A pop returns nothing exactly when the
  multiset is empty, and otherwise one of the values of the largest signed priority, which it takes out.
\<close>

inductive bag_run :: "'a tcq_op list \<Rightarrow> 'a option list \<Rightarrow> ('a \<times> u32) multiset \<Rightarrow> ('a \<times> u32) multiset \<Rightarrow> bool" where
  bag_stop: "bag_run [] [] B B"
| bag_push: "bag_run ops rs (add_mset (x, prio) B) B' \<Longrightarrow> bag_run (Op_push x prio # ops) rs B B'"
| bag_empty: "bag_run ops rs {#} B' \<Longrightarrow> bag_run (Op_try_pop # ops) (None # rs) {#} B'"
| bag_pop: "\<lbrakk>(x, prio) \<in># B; \<forall>(y, p) \<in># B. sint p \<le> sint prio; bag_run ops rs (B - {#(x, prio)#}) B'\<rbrakk>
     \<Longrightarrow> bag_run (Op_try_pop # ops) (Some x # rs) B B'"

definition bag :: "'a prio_elem list \<Rightarrow> ('a \<times> u32) multiset" where
  "bag q = image_mset (\<lambda>e. (element e, priority e)) (mset q)"

lemma bag_simps [simp]:
  "bag [] = {#}" "bag (tcq_push x prio q) = add_mset (x, prio) (bag q)"
  "e \<in> set q \<Longrightarrow> bag (remove1 e q) = bag q - {#(element e, priority e)#}"
  by (simp_all add: bag_def tcq_push_def image_mset_Diff)

context heap_top
begin

lemma tcq_run_refines: "case tcq_run htop ops q of (rs, q') \<Rightarrow> bag_run ops rs (bag q) (bag q')"
proof (induction ops arbitrary: q)
  case (Cons op ops)
  show ?case
  proof (cases op)
    case (Op_push x prio)
    then show ?thesis using Cons [of "tcq_push x prio q"] by (auto intro: bag_run.intros split: prod.splits)
  next
    case Op_try_pop
    show ?thesis
    proof (cases "q = []")
      case True
      then show ?thesis using Cons [of "[]"] Op_try_pop by (auto simp: tcq_try_pop_def intro: bag_run.intros split: prod.splits)
    next
      case False
      let ?e = "htop q"
      have e: "?e \<in> set q" by (rule htop_in [OF False])
      then have "(element ?e, priority ?e) \<in># bag q" by (auto simp: bag_def)
      moreover have "\<forall>(y, p) \<in># bag q. sint p \<le> sint (priority ?e)"
        using htop_max by (auto simp: bag_def prio_less_def not_less)
      ultimately show ?thesis using Cons [of "remove1 ?e q"] Op_try_pop False e
        by (auto simp: tcq_try_pop_def intro: bag_run.bag_pop split: prod.splits)
    qed
  qed
qed (simp add: bag_stop)

end

abbreviation prio_ge :: "'a prio_elem \<Rightarrow> 'a prio_elem \<Rightarrow> bool" where
  "prio_ge a b \<equiv> \<not> prio_less a b"

text \<open>The left-most maximal element, one of the choices the contract allows.\<close>

fun first_max :: "'a prio_elem list \<Rightarrow> 'a prio_elem" where
  "first_max [] = undefined"
| "first_max [x] = x"
| "first_max (x # y # ys) = (let m = first_max (y # ys) in if prio_less x m then m else x)"

lemma first_max_in: "q \<noteq> [] \<Longrightarrow> first_max q \<in> set q"
  by (induction q rule: first_max.induct) (auto simp: Let_def)

lemma first_max_max: "x \<in> set q \<Longrightarrow> prio_ge (first_max q) x"
  by (induction q arbitrary: x rule: first_max.induct)
     (auto simp: Let_def prio_less_def not_less, fastforce+)

interpretation fm: heap_top first_max
  by unfold_locales (simp_all add: first_max_in first_max_max)

section \<open>Properties\<close>

text \<open>
  C13. Exactly-once, in-order delivery: in every state the queue and its worker threads can reach
  under any interleaving, the elements \<open>push\<close> accepted are exactly those the workers took,
  in the order they were pushed, followed by those still queued; and the queue never holds more
  than 1001 elements, one more than \<open>CObjectProcessingQueue_MAX_ELEMENT_IN_QUEUE\<close>.
\<close>

theorem cq_fifo_exactly_once:
  assumes "qs_steps lst proc (qs_init n) s"
  shows "accepted s = taken s @ bufferQueue (sys_queue s)
         \<and> length (bufferQueue (sys_queue s)) \<le> 1001"
  using qs_inv_steps [OF assms qs_inv_init] by (simp add: qs_inv_def MAX_ELEMENT_IN_QUEUE_def)

lemma example_two_pushes:
  "qs_steps None (\<lambda>_. (False, False)) (qs_init 1)
     \<lparr>sys_queue = \<lparr>bufferQueue = [7, 8 :: nat], in_deinit = False\<rparr>, workers = [W_check],
      deinit_at = D_idle, accepted = [7, 8], taken = []\<rparr>" (is "qs_steps _ _ _ ?s2")
proof -
  let ?s1 = "\<lparr>sys_queue = \<lparr>bufferQueue = [7 :: nat], in_deinit = False\<rparr>, workers = [W_check],
      deinit_at = D_idle, accepted = [7], taken = []\<rparr>"
  have "qs_step None (\<lambda>_. (False, False)) (qs_init 1) ?s1"
    using qs_step.push [where x = 7 and s = "qs_init 1" and ok = True and q = "sys_queue ?s1" and lst = None
        and proc = "\<lambda>_. (False, False)"]
    by (simp add: qs_init_def cq_new_def chaos_defs)
  moreover have "qs_step None (\<lambda>_. (False, False)) ?s1 ?s2"
    using qs_step.push [where x = 8 and s = ?s1 and ok = True and q = "sys_queue ?s2" and lst = None
        and proc = "\<lambda>_. (False, False)"]
    by (simp add: chaos_defs MAX_ELEMENT_IN_QUEUE_def)
  ultimately show ?thesis by (blast intro: qs_steps.intros)
qed

theorem cq_fifo_exactly_once_witness:
  "\<exists>s. qs_steps None (\<lambda>_. (False, False)) (qs_init 1) (s :: nat qsystem) \<and> accepted s = [7, 8]
       \<and> accepted s = taken s @ bufferQueue (sys_queue s) \<and> length (bufferQueue (sys_queue s)) \<le> 1001"
  using cq_fifo_exactly_once [OF example_two_pushes] example_two_pushes by fastforce

text \<open>
  \<open>deinit(true)\<close> can hang: if it starts to wait while more elements are queued than workers are
  inside \<open>waitAndPop\<close> (in particular, more than there are workers), then in no later state, under
  any scheduling and any wake-ups, does it get past the wait: a worker that finishes its element
  sees \<open>in_deinit\<close> and ends instead of draining the queue.
\<close>

theorem deinit_waiting_hangs:
  assumes "qs_steps lst proc (qs_init n) s" and "deinit_at s = D_waiting"
    and "may_pop s < length (bufferQueue (sys_queue s))"
    and "qs_steps lst proc s t"
  shows "deinit_at t = D_waiting \<and> bufferQueue (sys_queue t) \<noteq> []"
proof -
  from assms(1,2) have "in_deinit (sys_queue s)"
    using qs_inv_steps [OF assms(1) qs_inv_init] by (simp add: qs_inv_def)
  with assms(2,3) have "deinit_starved s" by (simp add: deinit_starved_def)
  from deinit_starved_steps [OF assms(4) this] show ?thesis
    by (auto simp: deinit_starved_def)
qed

theorem deinit_waiting_hangs_witness:
  "\<exists>s. qs_steps None (\<lambda>_. (False, False)) (qs_init 1) (s :: nat qsystem) \<and> deinit_at s = D_waiting
       \<and> (\<nexists>t. qs_steps None (\<lambda>_. (False, False)) s t \<and> deinit_at t \<noteq> D_waiting)"
proof -
  let ?s2 = "\<lparr>sys_queue = \<lparr>bufferQueue = [7, 8 :: nat], in_deinit = False\<rparr>, workers = [W_check],
      deinit_at = D_idle, accepted = [7, 8], taken = []\<rparr>"
  let ?s3 = "?s2\<lparr>sys_queue := \<lparr>bufferQueue = [7, 8], in_deinit = True\<rparr>, deinit_at := D_waiting\<rparr>"
  have "qs_step None (\<lambda>_. (False, False)) ?s2 ?s3"
    by (rule qs_step.deinit [where w = True]) (simp_all add: chaos_defs)
  with example_two_pushes have r: "qs_steps None (\<lambda>_. (False, False)) (qs_init 1) ?s3"
    by (rule qs_steps.step)
  have "deinit_at t = D_waiting" if "qs_steps None (\<lambda>_. (False, False)) ?s3 t" for t
    using deinit_waiting_hangs [OF r _ _ that] by (simp add: may_pop_def)
  with r show ?thesis by (intro exI [of _ ?s3]) auto
qed

text \<open>
  A shutdown that does not wait, or that finds the queue empty, can always finish: once
  \<open>deinit\<close> is joining the workers, from every state the system can be in there is a schedule in
  which all workers end and \<open>deinit\<close> returns.
\<close>

theorem deinit_joining_can_finish:
  assumes "qs_steps lst proc (qs_init n) s" and "deinit_at s = D_joining"
  shows "\<exists>t. qs_steps lst proc s t \<and> deinit_at t = D_done"
proof (rule joining_can_finish)
  show "joining s"
    using qs_inv_steps [OF assms(1) qs_inv_init] assms(2) by (simp add: qs_inv_def joining_def)
qed

theorem deinit_joining_can_finish_witness:
  "\<exists>s. qs_steps None (\<lambda>_. (False, False)) (qs_init 3) (s :: nat qsystem) \<and> deinit_at s = D_joining
       \<and> (\<exists>t. qs_steps None (\<lambda>_. (False, False)) s t \<and> deinit_at t = D_done)"
proof -
  let ?s = "(qs_init 3)\<lparr>sys_queue := \<lparr>bufferQueue = [] :: nat list, in_deinit = True\<rparr>, deinit_at := D_joining\<rparr>"
  have "qs_step None (\<lambda>_. (False, False)) (qs_init 3) ?s"
    by (rule qs_step.deinit [where w = True]) (simp_all add: chaos_defs qs_init_def cq_new_def)
  then have r: "qs_steps None (\<lambda>_. (False, False)) (qs_init 3) ?s"
    by (rule qs_steps.step [OF qs_steps.refl])
  moreover have "deinit_at ?s = D_joining" by simp
  ultimately show ?thesis using deinit_joining_can_finish [OF r] by blast
qed

text \<open>
  C32. The concurrent priority queue is a bag ordered by priority: for every sequence of pushes and
  \<open>try_pop\<close>s on it, the values the pops return are those of the specification, each pop the value of
  an element of the largest priority, read as a signed 32-bit integer, among those pushed and not yet
  popped, and nothing only when there is none. The heap is any that meets its contract.
\<close>

theorem tcq_pops_by_priority:
  assumes "heap_top htop"
  shows "case tcq_run htop ops q of (rs, q') \<Rightarrow> bag_run ops rs (bag q) (bag q')"
  by (rule heap_top.tcq_run_refines [OF assms])

theorem tcq_pops_by_priority_witness:
  "let ops = [Op_push CHR ''a'' 0, Op_push CHR ''b'' 50, Op_try_pop, Op_push CHR ''c'' 0x80000000, Op_try_pop, Op_try_pop, Op_try_pop];
       rs = [Some CHR ''b'', Some CHR ''a'', Some CHR ''c'', None]
   in tcq_run first_max ops [] = (rs, []) \<and> bag_run ops rs {#} {#}"
  using tcq_pops_by_priority [OF fm.heap_top_axioms,
      of "[Op_push CHR ''a'' 0, Op_push CHR ''b'' 50, Op_try_pop, Op_push CHR ''c'' 0x80000000, Op_try_pop, Op_try_pop, Op_try_pop]" "[]"]
  by (simp add: tcq_push_def tcq_try_pop_def prio_less_def)

end
