(* ===== verification/Wait_Semaphore.thy ===== *)
theory Wait_Semaphore
  imports Chaos_Prelude
begin

text \<open>
  The semaphores of \<open>chaos/common/thread\<close> on which threads wait for an answer:
  \<open>WaitSemaphore.h\<close>, \<open>ObjectWaitSemaphore.h\<close> and \<open>MultiKeyObjectWaitSemaphore.h\<close>. A wait is an
  entry under the lock followed by any number of wake-ups; each of the two either blocks (again)
  or returns. A wake-up of a timed wait says whether the time ran out.
\<close>

datatype 'r wait_result = Wait_blocks | Wait_returns 'r

section \<open>WaitSemaphore\<close>

record wsem =
  inWait :: bool
  answered :: bool

definition ws_new :: wsem where
  "ws_new = \<lparr>inWait = False, answered = False\<rparr>"

definition ws_leave :: "wsem \<Rightarrow> unit wait_result \<times> wsem" where
  "ws_leave s = (Wait_returns (), s\<lparr>inWait := False, answered := False\<rparr>)"

definition ws_wait :: "wsem \<Rightarrow> unit wait_result \<times> wsem" where
  "ws_wait s =
     (if inWait s then (Wait_returns (), s)
      else if \<not> answered s then (Wait_blocks, s\<lparr>inWait := True\<rparr>)
      else ws_leave (s\<lparr>inWait := True\<rparr>))"

definition ws_wake :: "wsem \<Rightarrow> unit wait_result \<times> wsem" where
  "ws_wake s = (if \<not> answered s then (Wait_blocks, s) else ws_leave s)"

definition ws_wait_timed :: "wsem \<Rightarrow> unit wait_result \<times> wsem" where
  "ws_wait_timed s =
     (if inWait s then (Wait_returns (), s) else (Wait_blocks, s\<lparr>inWait := True\<rparr>))"

definition ws_waitUSec :: "wsem \<Rightarrow> unit wait_result \<times> wsem" where
  "ws_waitUSec s =
     (if inWait s then (Wait_returns (), s) else (Wait_blocks, s\<lparr>inWait := True\<rparr>))"

definition ws_wake_timed :: "bool \<Rightarrow> wsem \<Rightarrow> unit wait_result \<times> wsem" where
  "ws_wake_timed timedOut s =
     (if \<not> timedOut \<and> \<not> answered s then (Wait_blocks, s) else ws_leave s)"

definition ws_unlock :: "wsem \<Rightarrow> wsem" where
  "ws_unlock s = s\<lparr>answered := True\<rparr>"

section \<open>ObjectWaitSemaphore\<close>

text \<open>The waited object is a pointer: \<open>None\<close> is \<open>NULL\<close>.\<close>

record 'a osem =
  o_inWait :: bool
  o_answered :: bool
  objecForWait :: "'a option"

definition os_new :: "'a osem" where
  "os_new = \<lparr>o_inWait = False, o_answered = False, objecForWait = None\<rparr>"

definition os_setWaithedObject :: "'a \<Rightarrow> 'a osem \<Rightarrow> 'a osem" where
  "os_setWaithedObject a s = s\<lparr>objecForWait := Some a\<rparr>"

definition os_unlock :: "'a osem \<Rightarrow> 'a osem" where
  "os_unlock s = s\<lparr>o_answered := True\<rparr>"

definition os_leave :: "'a osem \<Rightarrow> 'a option wait_result \<times> 'a osem" where
  "os_leave s =
     (Wait_returns (objecForWait s), s\<lparr>o_inWait := False, o_answered := False, objecForWait := None\<rparr>)"

text \<open>Both entries clear \<open>answered\<close>, so both block whenever the semaphore is not in use.\<close>

definition os_wait :: "'a osem \<Rightarrow> 'a option wait_result \<times> 'a osem" where
  "os_wait s =
     (if o_inWait s then (Wait_returns None, s)
      else (Wait_blocks, s\<lparr>o_inWait := True, o_answered := False\<rparr>))"

definition os_wake :: "'a osem \<Rightarrow> 'a option wait_result \<times> 'a osem" where
  "os_wake s = (if \<not> o_answered s then (Wait_blocks, s) else os_leave s)"

definition os_wake_timed :: "bool \<Rightarrow> 'a osem \<Rightarrow> 'a option wait_result \<times> 'a osem" where
  "os_wake_timed timedOut s =
     (if \<not> timedOut \<and> \<not> o_answered s then (Wait_blocks, s) else os_leave s)"

section \<open>MultiKeyObjectWaitSemaphore\<close>

text \<open>
  The map of semaphores by key. An entry may hold a null pointer: \<open>operator[]\<close> of the map inserts
  one for a key that is not there.
\<close>

type_synonym ('k, 'a) key_sems = "'k \<rightharpoonup> 'a osem option"

definition mk_initKey :: "'k \<Rightarrow> ('k, 'a) key_sems \<Rightarrow> ('k, 'a) key_sems" where
  "mk_initKey k m = (if m k \<noteq> None then m else m(k \<mapsto> Some os_new))"

definition mk_setWaithedObjectForKey :: "'k \<Rightarrow> 'a \<Rightarrow> ('k, 'a) key_sems \<Rightarrow> bool \<times> ('k, 'a) key_sems" where
  "mk_setWaithedObjectForKey k obj m =
     (case m k of
        None \<Rightarrow> (False, m)
      | Some None \<Rightarrow> (False, m)
      | Some (Some ks) \<Rightarrow> (True, m(k \<mapsto> Some (os_unlock (os_setWaithedObject obj ks)))))"

text \<open>\<open>operator[]\<close> of \<open>std::map\<close>.\<close>

definition mk_at :: "'k \<Rightarrow> ('k, 'a) key_sems \<Rightarrow> 'a osem option \<times> ('k, 'a) key_sems" where
  "mk_at k m = (case m k of None \<Rightarrow> (None, m(k \<mapsto> None)) | Some p \<Rightarrow> (p, m))"

text \<open>
  The end of a wait: the entry is erased. The untimed wait erases it without looking; the timed
  wait looks first, which gives the same map.
\<close>

definition mk_finish :: "'k \<Rightarrow> 'a option wait_result \<times> 'a osem \<Rightarrow> ('k, 'a) key_sems
  \<Rightarrow> 'a option wait_result \<times> ('k, 'a) key_sems" where
  "mk_finish k r m =
     (case r of
        (Wait_blocks, ks) \<Rightarrow> (Wait_blocks, m(k \<mapsto> Some ks))
      | (Wait_returns res, ks) \<Rightarrow> (Wait_returns res, m(k := None)))"

definition mk_wait :: "'k \<Rightarrow> ('k, 'a) key_sems \<Rightarrow> 'a option wait_result \<times> ('k, 'a) key_sems" where
  "mk_wait k m =
     (case mk_at k m of
        (None, m') \<Rightarrow> (Wait_returns None, m')
      | (Some ks, m') \<Rightarrow> mk_finish k (os_wait ks) m')"

definition mk_wake :: "'k \<Rightarrow> ('k, 'a) key_sems \<Rightarrow> 'a option wait_result \<times> ('k, 'a) key_sems" where
  "mk_wake k m =
     (case m k of Some (Some ks) \<Rightarrow> mk_finish k (os_wake ks) m | _ \<Rightarrow> (Wait_returns None, m))"

definition mk_wake_timed :: "'k \<Rightarrow> bool \<Rightarrow> ('k, 'a) key_sems \<Rightarrow> 'a option wait_result \<times> ('k, 'a) key_sems" where
  "mk_wake_timed k timedOut m =
     (case m k of Some (Some ks) \<Rightarrow> mk_finish k (os_wake_timed timedOut ks) m | _ \<Rightarrow> (Wait_returns None, m))"

lemmas os_defs = os_new_def os_setWaithedObject_def os_unlock_def os_leave_def os_wait_def
  os_wake_def os_wake_timed_def

lemmas mk_defs = mk_initKey_def mk_setWaithedObjectForKey_def mk_at_def mk_finish_def mk_wait_def
  mk_wake_def mk_wake_timed_def

lemmas ws_defs = ws_new_def ws_leave_def ws_wait_def ws_wake_def ws_wait_timed_def ws_waitUSec_def
  ws_wake_timed_def ws_unlock_def

section \<open>Any number of wake-ups\<close>

fun mk_wakes :: "nat \<Rightarrow> 'k \<Rightarrow> ('k, 'a) key_sems \<Rightarrow> 'a option wait_result \<times> ('k, 'a) key_sems" where
  "mk_wakes 0 k m = (Wait_blocks, m)"
| "mk_wakes (Suc n) k m =
     (case mk_wake k m of (Wait_blocks, m') \<Rightarrow> mk_wakes n k m' | r \<Rightarrow> r)"

lemma mk_wake_unanswered:
  "m k = Some (Some ks) \<Longrightarrow> \<not> o_answered ks \<Longrightarrow> mk_wake k m = (Wait_blocks, m)"
  by (auto simp: mk_defs os_defs)

lemma mk_wakes_unanswered:
  assumes "m k = Some (Some ks)" and "\<not> o_answered ks"
  shows "mk_wakes n k m = (Wait_blocks, m)"
  using mk_wake_unanswered [of m k ks, OF assms] by (induction n) simp_all

section \<open>Properties\<close>

text \<open>
  An answer that arrives between \<open>initKey\<close> and \<open>wait\<close> is lost by the untimed wait: it is
  accepted (\<open>setWaithedObjectForKey\<close> returns true), but the wait clears \<open>answered\<close> on entry and
  no number of wake-ups makes it return; a timed wait hands the object over only once its time
  runs out.
\<close>

theorem answer_before_wait_is_lost:
  assumes "m k = None"
  shows "\<exists>m1 m2. mk_setWaithedObjectForKey k a (mk_initKey k m) = (True, m1)
           \<and> mk_wait k m1 = (Wait_blocks, m2)
           \<and> (\<forall>n. mk_wakes n k m2 = (Wait_blocks, m2))
           \<and> mk_wake_timed k False m2 = (Wait_blocks, m2)
           \<and> fst (mk_wake_timed k True m2) = Wait_returns (Some a)"
proof -
  let ?ks = "\<lparr>o_inWait = False, o_answered = True, objecForWait = Some a\<rparr>"
  let ?kw = "\<lparr>o_inWait = True, o_answered = False, objecForWait = Some a\<rparr>"
  have "mk_setWaithedObjectForKey k a (mk_initKey k m) = (True, m(k \<mapsto> Some ?ks))"
    using assms by (simp add: mk_defs os_defs)
  moreover have "mk_wait k (m(k \<mapsto> Some ?ks)) = (Wait_blocks, m(k \<mapsto> Some ?kw))"
    by (simp add: mk_defs os_defs)
  moreover have "mk_wakes n k (m(k \<mapsto> Some ?kw)) = (Wait_blocks, m(k \<mapsto> Some ?kw))" for n
    by (rule mk_wakes_unanswered [where ks = ?kw]) simp_all
  ultimately show ?thesis by (simp add: mk_defs os_defs)
qed

theorem answer_before_wait_is_lost_witness:
  "\<exists>m1 m2. mk_setWaithedObjectForKey (5 :: nat) ''pong'' (mk_initKey 5 Map.empty) = (True, m1)
     \<and> mk_wait 5 m1 = (Wait_blocks, m2)
     \<and> (\<forall>n. mk_wakes n 5 m2 = (Wait_blocks, m2))
     \<and> mk_wake_timed 5 False m2 = (Wait_blocks, m2)
     \<and> fst (mk_wake_timed 5 True m2) = Wait_returns (Some ''pong'')"
  by (rule answer_before_wait_is_lost) simp

text \<open>
  Waiting on a key that was not initialized returns \<open>NULL\<close> at once and poisons the key: the
  look-up leaves a null entry, after which \<open>initKey\<close> does nothing, every answer for the key is
  refused and every wait on it returns \<open>NULL\<close>.
\<close>

theorem wait_on_unknown_key_poisons:
  assumes "m k = None"
  shows "\<exists>m'. mk_wait k m = (Wait_returns None, m') \<and> mk_initKey k m' = m'
           \<and> mk_setWaithedObjectForKey k a m' = (False, m') \<and> mk_wait k m' = (Wait_returns None, m')"
  using assms by (simp add: mk_defs)

theorem wait_on_unknown_key_poisons_witness:
  "\<exists>m'. mk_wait (3 :: nat) Map.empty = (Wait_returns None, m') \<and> mk_initKey 3 m' = m'
     \<and> mk_setWaithedObjectForKey 3 ''late'' m' = (False, m') \<and> mk_wait 3 m' = (Wait_returns None, m')"
  by (rule wait_on_unknown_key_poisons) simp

text \<open>
  The plain \<open>WaitSemaphore\<close> keeps an early \<open>unlock\<close>: a wait that starts after it returns
  without blocking and consumes it, so a second wait blocks; the timed waits do block after an
  early \<open>unlock\<close>, and end at the next wake-up whether or not their time ran out.
\<close>

theorem wait_semaphore_keeps_unlock:
  assumes "\<not> inWait s"
  shows "ws_wait (ws_unlock s) = (Wait_returns (), ws_new) \<and> fst (ws_wait ws_new) = Wait_blocks
         \<and> (\<forall>s'. ws_wait_timed (ws_unlock s) = (Wait_blocks, s')
                 \<longrightarrow> ws_wake_timed timedOut s' = (Wait_returns (), ws_new))"
  using assms by (cases s) (simp add: ws_defs)

theorem wait_semaphore_keeps_unlock_witness:
  "ws_wait (ws_unlock ws_new) = (Wait_returns (), ws_new) \<and> fst (ws_wait ws_new) = Wait_blocks"
  using wait_semaphore_keeps_unlock [of ws_new True] by (simp add: ws_new_def)

end
