(* ===== verification/Circular_Buffer.thy ===== *)
theory Circular_Buffer
  imports Chaos_Prelude "HOL-Library.Signed_Division"
begin

text \<open>
  \<open>chaos/common/utility/SingleBufferCircularBuffer.h\<close>: the circular buffer whose memory a reader
  copies in two pieces, and the shared buffer of bytes.
\<close>

section \<open>SingleBufferCircularBuffer\<close>

text \<open>
  \<open>memory\<close> is the block of \<open>dim\<close> values behind \<open>basePointer\<close>; \<open>writePointer\<close> is always
  \<open>basePointer + currentPostion\<close> and is kept as an offset.
\<close>

record 'a circ =
  currentPostion :: int
  bufferDimension :: int
  memory :: "'a list"
  writeOffset :: int

definition circ_new :: "'a::zero \<Rightarrow> int \<Rightarrow> 'a circ" where
  "circ_new z dim =
     \<lparr>currentPostion = 0, bufferDimension = dim, memory = replicate (nat dim) z, writeOffset = 0\<rparr>"

text \<open>
  A write outside the block, or a remainder by zero, is a fault. The C++ remainder truncates
  (\<open>smod\<close>).
\<close>

definition addValue :: "'a \<Rightarrow> 'a circ \<Rightarrow> 'a circ outcome" where
  "addValue newValue b =
     (if \<not> (0 \<le> writeOffset b \<and> nat (writeOffset b) < length (memory b)) \<or> bufferDimension b = 0 then Fault
      else (let mem = (memory b)[nat (writeOffset b) := newValue];
                pos = (currentPostion b + 1) smod bufferDimension b
            in Ret (b\<lparr>memory := mem, currentPostion := pos, writeOffset := pos\<rparr>)))"

definition getWriteBufferPosition :: "'a circ \<Rightarrow> int" where
  "getWriteBufferPosition b = currentPostion b"

definition getDimension :: "'a circ \<Rightarrow> int" where
  "getDimension b = bufferDimension b"

definition getLastValue :: "'a circ \<Rightarrow> 'a outcome" where
  "getLastValue b =
     (let i = (currentPostion b - 1) smod bufferDimension b
      in if bufferDimension b = 0 \<or> \<not> (0 \<le> i \<and> nat i < length (memory b)) then Fault
         else Ret (memory b ! nat i))"

fun addValues :: "'a list \<Rightarrow> 'a circ \<Rightarrow> 'a circ outcome" where
  "addValues [] b = Ret b"
| "addValues (x # xs) b =
     (case addValue x b of Ret b' \<Rightarrow> addValues xs b' | Throw e \<Rightarrow> Throw e | Fault \<Rightarrow> Fault)"

text \<open>
  What a reader copies: the history from the write pointer to the end of the block, then the
  recent values from the base pointer.
\<close>

definition circ_history :: "'a circ \<Rightarrow> 'a list" where
  "circ_history b = drop (nat (writeOffset b)) (memory b) @ take (nat (writeOffset b)) (memory b)"

section \<open>PointerBuffer\<close>

text \<open>The block behind the shared pointer, \<open>None\<close> while there is none; \<open>srcPtr\<close> is \<open>None\<close> for \<open>NULL\<close>.\<close>

record pointer_buffer =
  pb_ptr :: "u8 list option"
  pb_bufferDimension :: int

definition pb_new :: pointer_buffer where
  "pb_new = \<lparr>pb_ptr = None, pb_bufferDimension = 0\<rparr>"

definition updateData :: "u8 list option \<Rightarrow> int \<Rightarrow> pointer_buffer \<Rightarrow> pointer_buffer outcome" where
  "updateData srcPtr srcDataLen pb =
     (case srcPtr of
        None \<Rightarrow> Ret pb
      | Some src \<Rightarrow>
          if srcDataLen \<le> 0 then Ret pb
          else if length src < nat srcDataLen then Fault
          else Ret \<lparr>pb_ptr = Some (take (nat srcDataLen) src), pb_bufferDimension = srcDataLen\<rparr>)"

definition pb_getPtr :: "pointer_buffer \<Rightarrow> u8 list option \<times> int" where
  "pb_getPtr pb = (pb_ptr pb, pb_bufferDimension pb)"

section \<open>Invariant\<close>

definition circ_inv :: "'a circ \<Rightarrow> bool" where
  "circ_inv b \<longleftrightarrow> 0 \<le> currentPostion b \<and> currentPostion b < bufferDimension b
     \<and> writeOffset b = currentPostion b \<and> length (memory b) = nat (bufferDimension b)"

lemma circ_inv_new: "0 < dim \<Longrightarrow> circ_inv (circ_new z dim)"
  by (simp add: circ_inv_def circ_new_def)

lemma smod_nonneg: "0 \<le> (x::int) \<Longrightarrow> 0 < d \<Longrightarrow> x smod d = x mod d"
  by (simp add: signed_modulo_int_def signed_divide_int_def sgn_if minus_div_mult_eq_mod)

lemma addValue_inv:
  assumes "circ_inv b"
  shows "addValue x b = Ret (b\<lparr>memory := (memory b)[nat (currentPostion b) := x],
           currentPostion := (currentPostion b + 1) mod bufferDimension b,
           writeOffset := (currentPostion b + 1) mod bufferDimension b\<rparr>)"
    and "circ_inv (b\<lparr>memory := (memory b)[nat (currentPostion b) := x],
           currentPostion := (currentPostion b + 1) mod bufferDimension b,
           writeOffset := (currentPostion b + 1) mod bufferDimension b\<rparr>)"
  using assms by (auto simp: addValue_def circ_inv_def smod_nonneg Let_def)

lemma take_list_update_append:
  "n < length xs \<Longrightarrow> take (Suc n) (xs[n := x]) = take n xs @ [x]"
  by (simp add: take_Suc_conv_app_nth)

text \<open>Adding a value drops the oldest of the history and appends the new one.\<close>

lemma addValue_history:
  assumes "circ_inv b" and "addValue x b = Ret b'"
  shows "circ_inv b' \<and> bufferDimension b' = bufferDimension b \<and> circ_history b' = tl (circ_history b) @ [x]"
proof -
  let ?p = "currentPostion b" and ?d = "bufferDimension b" and ?n = "nat (currentPostion b)"
  from assms(1) have p: "0 \<le> ?p" "?p < ?d" "writeOffset b = ?p" and n: "?n < length (memory b)"
    by (auto simp: circ_inv_def)
  note b' = addValue_inv [OF assms(1), of x]
  have hist: "circ_history b' = tl (circ_history b) @ [x]"
  proof (cases "?p + 1 = ?d")
    case True
    then have "Suc ?n = length (memory b)" using assms(1) by (auto simp: circ_inv_def)
    then have "(memory b)[?n := x] = take ?n (memory b) @ [x]"
      using take_list_update_append [OF n, of x] by simp
    moreover have "circ_history b' = (memory b)[?n := x]"
      using assms(2) b'(1) True by (auto simp: circ_history_def)
    moreover have "drop ?n (memory b) = [memory b ! ?n]"
      using n \<open>Suc ?n = length (memory b)\<close> by (simp add: Cons_nth_drop_Suc [symmetric])
    ultimately show ?thesis
      using p by (simp add: circ_history_def)
  next
    case False
    with p have m: "(?p + 1) mod ?d = ?p + 1" by (simp add: mod_pos_pos_trivial)
    then have "circ_history b' = drop (Suc ?n) (memory b) @ take (Suc ?n) ((memory b)[?n := x])"
      using assms(2) b'(1) p by (auto simp: circ_history_def nat_add_distrib)
    then show ?thesis
      using n p by (simp add: take_list_update_append circ_history_def Cons_nth_drop_Suc [symmetric])
  qed
  with b' assms(2) show ?thesis by auto
qed

lemma addValues_history:
  "circ_inv b \<Longrightarrow> \<exists>b'. addValues xs b = Ret b' \<and> circ_inv b' \<and> bufferDimension b' = bufferDimension b
     \<and> circ_history b' = drop (length xs) (circ_history b @ xs)"
proof (induction xs arbitrary: b)
  case Nil
  then show ?case by simp
next
  case (Cons x xs)
  obtain b1 where b1: "addValue x b = Ret b1"
    using addValue_inv(1) [OF Cons.prems] by blast
  note h = addValue_history [OF Cons.prems b1]
  have ne: "circ_history b \<noteq> []"
    using Cons.prems by (auto simp: circ_history_def circ_inv_def)
  from Cons.IH [of b1] h obtain b' where b': "addValues xs b1 = Ret b'" "circ_inv b'"
    "bufferDimension b' = bufferDimension b" "circ_history b' = drop (length xs) (tl (circ_history b) @ [x] @ xs)"
    by auto
  from ne have "drop (length xs) (tl (circ_history b) @ [x] @ xs) = drop (length (x # xs)) (circ_history b @ x # xs)"
    by (cases "circ_history b") auto
  with b1 b' show ?case by auto
qed

lemma addValues_position:
  "circ_inv b \<Longrightarrow> addValues xs b = Ret b' \<Longrightarrow>
     currentPostion b' = (currentPostion b + int (length xs)) mod bufferDimension b"
proof (induction xs arbitrary: b)
  case Nil
  then show ?case by (simp add: circ_inv_def)
next
  case (Cons x xs)
  note b1 = addValue_inv [OF Cons.prems(1), of x]
  have "currentPostion b' = ((currentPostion b + 1) mod bufferDimension b + int (length xs)) mod bufferDimension b"
    using Cons.IH [OF b1(2)] Cons.prems(2) b1(1) by simp
  then show ?case by (simp add: mod_simps add.assoc)
qed

section \<open>Properties\<close>

text \<open>
  C34. The circular buffer keeps the last \<open>dim\<close> values: after any values \<open>xs\<close> were added to a new
  buffer of positive dimension, no write left the block, and reading from the write pointer to the
  end and then from the base pointer gives the last \<open>dim\<close> of the initial zeros followed by \<open>xs\<close>,
  oldest first.
\<close>

theorem circ_keeps_last_values:
  assumes "0 < dim"
  shows "\<exists>b. addValues xs (circ_new z dim) = Ret b
           \<and> circ_history b = drop (length xs) (replicate (nat dim) z @ xs)
           \<and> getWriteBufferPosition b = int (length xs) mod dim"
proof -
  from addValues_history [OF circ_inv_new [OF assms], of xs z] obtain b where
    b: "addValues xs (circ_new z dim) = Ret b"
      "circ_history b = drop (length xs) (circ_history (circ_new z dim) @ xs)" by blast
  with addValues_position [OF circ_inv_new [OF assms] b(1)] show ?thesis
    by (simp add: circ_new_def circ_history_def getWriteBufferPosition_def)
qed

theorem circ_keeps_last_values_witness:
  "\<exists>b. addValues [1, 2, 3, 4, 5 :: int] (circ_new 0 3) = Ret b \<and> circ_history b = [3, 4, 5]
     \<and> getWriteBufferPosition b = 2"
  using circ_keeps_last_values [of 3 "[1, 2, 3, 4, 5 :: int]" 0] by (simp add: numeral_3_eq_3)

text \<open>
  \<open>getLastValue\<close> returns the value added last, except when the write position has just come
  back to the start of the block: then \<open>(0 - 1) % dim\<close> is \<open>-1\<close> in C++ and it reads in front of
  the block.
\<close>

theorem circ_getLastValue:
  assumes "1 < dim" and "xs \<noteq> []" and "addValues xs (circ_new z dim) = Ret b"
  shows "getLastValue b = (if int (length xs) mod dim = 0 then Fault else Ret (last xs))"
proof -
  have d: "0 < dim" using assms(1) by simp
  from addValues_history [OF circ_inv_new [OF d], of xs z] assms(3)
  have inv: "circ_inv b" and dim: "bufferDimension b = dim"
    and h: "circ_history b = drop (length xs) (circ_history (circ_new z dim) @ xs)"
    by (auto simp: circ_new_def)
  have pos: "currentPostion b = int (length xs) mod dim"
    using addValues_position [OF circ_inv_new [OF d] assms(3)] by (simp add: circ_new_def)
  show ?thesis
  proof (cases "currentPostion b = 0")
    case True
    then show ?thesis
      using pos dim assms(1)
      by (simp add: getLastValue_def signed_modulo_int_def signed_divide_int_def)
  next
    case False
    with inv have p: "0 < currentPostion b" "currentPostion b < dim" by (auto simp: circ_inv_def dim)
    then have "take (nat (currentPostion b)) (memory b) \<noteq> []"
      and "last (take (nat (currentPostion b)) (memory b)) = memory b ! nat (currentPostion b - 1)"
      using inv dim by (auto simp: circ_inv_def last_take_nth nat_diff_distrib)
    then have "last (circ_history b) = memory b ! nat (currentPostion b - 1)"
      using inv by (simp add: circ_history_def circ_inv_def last_append)
    moreover have "last (circ_history b) = last xs"
      unfolding h using assms(2) d by (subst last_drop) (simp_all add: circ_history_def circ_new_def)
    ultimately have "memory b ! nat (currentPostion b - 1) = last xs" by simp
    then show ?thesis
      using p inv dim pos by (simp add: getLastValue_def smod_nonneg circ_inv_def)
  qed
qed

theorem circ_getLastValue_witness:
  "\<exists>b c. addValues [4, 5, 6 :: int] (circ_new 0 2) = Ret b \<and> getLastValue b = Ret 6
       \<and> addValues [4, 5 :: int] (circ_new 0 2) = Ret c \<and> getLastValue c = Fault"
proof -
  obtain b where b: "addValues [4, 5, 6 :: int] (circ_new 0 2) = Ret b"
    using addValues_history [OF circ_inv_new, of 2 "[4, 5, 6 :: int]" 0] by auto
  obtain c where c: "addValues [4, 5 :: int] (circ_new 0 2) = Ret c"
    using addValues_history [OF circ_inv_new, of 2 "[4, 5 :: int]" 0] by auto
  show ?thesis
    using b c circ_getLastValue [OF _ _ b] circ_getLastValue [OF _ _ c] by auto
qed

end
