(* ===== verification/Common_Buffer.thy ===== *)
theory Common_Buffer
  imports Chaos_Prelude
begin

text \<open>
  The queue of the caching system (\<open>chaos/common/caching_system/common_buffer\<close>): a linked list of
  elements that one writer extends at \<open>head\<close>, readers walk from \<open>pivot\<close>, and one garbage collector
  frees from \<open>tail\<close>. Elements live in an explicit store, so that freed memory is memory that is no
  longer there; an access through a null pointer or to freed memory is a fault. Each operation is
  one atomic step; the allocator's choice of a free address is an argument of \<open>enqueue\<close>.
\<close>

section \<open>Elements\<close>

type_synonym addr = nat

text \<open>\<open>DataElement\<close>: a payload with its time stamp.\<close>

record 'a data_element =
  timeStamp :: u64
  payload :: 'a

record 'a element =
  nextp :: "addr option"
  readerCount :: u32
  referenceCount :: u32
  data :: "'a data_element option"
  timedOut :: u64

definition new_element :: "'a element" where
  "new_element = \<lparr>nextp = None, readerCount = 0, referenceCount = 0, data = None, timedOut = 0\<rparr>"

definition increment :: "'a element \<Rightarrow> 'a element" where
  "increment e = e\<lparr>readerCount := readerCount e + 1\<rparr>"

definition decrementCounter :: "'a element \<Rightarrow> 'a element" where
  "decrementCounter e = e\<lparr>readerCount := readerCount e - 1\<rparr>"

definition incrementReferenceCount :: "'a element \<Rightarrow> 'a element" where
  "incrementReferenceCount e = e\<lparr>referenceCount := referenceCount e + 1\<rparr>"

definition decrementReferenceCount :: "'a element \<Rightarrow> 'a element" where
  "decrementReferenceCount e = e\<lparr>referenceCount := referenceCount e - 1\<rparr>"

definition setData :: "'a data_element \<Rightarrow> u64 \<Rightarrow> 'a element \<Rightarrow> 'a element" where
  "setData d timeout e = e\<lparr>data := Some d, timedOut := timeout\<rparr>"

text \<open>The clock is read by the caller; the comparison is between unsigned 64-bit values.\<close>

definition isValid :: "u64 \<Rightarrow> 'a element \<Rightarrow> bool" where
  "isValid actualTime e = (\<not> (data e \<noteq> None \<and> timedOut e < actualTime))"

section \<open>The buffer\<close>

record 'a cbuf =
  store :: "addr \<rightharpoonup> 'a element"
  head :: addr
  tail :: addr
  last_elem :: "addr option"
  pivot :: addr
  validita :: u64
  elementiInCodaValidi :: u32
  elementiInCodaValidiCorrenti :: u32
  elementiInGarbage :: u32
  elementiInCodaCorrenti :: u32
  elementiInCoda :: u32
  elementiInEliminati :: u32
  numeroOsservazioni :: u32

definition cb_new :: "addr \<Rightarrow> u64 \<Rightarrow> 'a cbuf" where
  "cb_new a validity =
     \<lparr>store = [a \<mapsto> new_element], head = a, tail = a, last_elem = None, pivot = a,
      validita = (if validity < 1 then 1 else validity),
      elementiInCodaValidi = 0, elementiInCodaValidiCorrenti = 0, elementiInGarbage = 0,
      elementiInCodaCorrenti = 0, elementiInCoda = 0, elementiInEliminati = 0, numeroOsservazioni = 0\<rparr>"

definition setValidity :: "u64 \<Rightarrow> 'a cbuf \<Rightarrow> 'a cbuf" where
  "setValidity validity b = b\<lparr>validita := (if validity < 1 then 1 else validity)\<rparr>"

text \<open>Apply a function to the element at an address; \<open>None\<close> is the fault.\<close>

definition at_elem :: "addr \<Rightarrow> ('a element \<Rightarrow> 'a element) \<Rightarrow> 'a cbuf \<Rightarrow> 'a cbuf option" where
  "at_elem a f b =
     (case store b a of None \<Rightarrow> None | Some e \<Rightarrow> Some (b\<lparr>store := (store b)(a \<mapsto> f e)\<rparr>))"

definition allocNode :: "addr \<Rightarrow> 'a cbuf \<Rightarrow> 'a cbuf" where
  "allocNode a b =
     b\<lparr>elementiInCodaCorrenti := elementiInCodaCorrenti b + 1, store := (store b)(a \<mapsto> new_element)\<rparr>"

definition deAllocNode :: "addr \<Rightarrow> 'a cbuf \<Rightarrow> 'a cbuf" where
  "deAllocNode a b =
     b\<lparr>elementiInCodaCorrenti := elementiInCodaCorrenti b - 1, store := (store b)(a := None)\<rparr>"

text \<open>
  \<open>enqueue\<close> fills the element at \<open>head\<close> and links a new empty one behind it. The result is the
  element the smart pointer refers to, if one was asked for.
\<close>

definition enqueue :: "addr \<Rightarrow> 'a data_element \<Rightarrow> bool \<Rightarrow> 'a cbuf \<Rightarrow> (addr option \<times> 'a cbuf) option" where
  "enqueue node d smartPointer b =
     (let b1 = allocNode node b;
          testa = head b1;
          timeout = timeStamp d + validita b1
      in case at_elem testa (setData d timeout) b1 of
           None \<Rightarrow> None
         | Some b2 \<Rightarrow>
             (let b3 = b2\<lparr>last_elem := Some testa\<rparr>
              in case (if smartPointer then at_elem testa incrementReferenceCount b3 else Some b3) of
                   None \<Rightarrow> None
                 | Some b4 \<Rightarrow>
                     (case at_elem testa (\<lambda>e. e\<lparr>nextp := Some node\<rparr>) b4 of
                        None \<Rightarrow> None
                      | Some b5 \<Rightarrow> Some (if smartPointer then Some testa else None, b5\<lparr>head := node\<rparr>))))"

text \<open>
  \<open>dequeue\<close> cuts the tail. A tail without successor would become a null pointer, which is counted
  as the fault its next use would be.
\<close>

definition dequeue :: "'a cbuf \<Rightarrow> (bool \<times> 'a cbuf) option" where
  "dequeue b =
     (let temp = tail b in
      if temp = pivot b \<or> temp = head b then Some (False, b)
      else case store b temp of
             None \<Rightarrow> None
           | Some e \<Rightarrow>
               (case nextp e of
                  None \<Rightarrow> None
                | Some n \<Rightarrow> Some (True, deAllocNode temp (b\<lparr>tail := n\<rparr>))))"

section \<open>Garbage collection\<close>

text \<open>
  The loop of \<open>clearUnusedData\<close> with its local variables: \<open>cursor\<close>, \<open>prev\<close>, the two counters.
  Its fuel bounds the number of iterations; running out of it and faulting are told apart.
\<close>

datatype 'r run = Done 'r | Faulted | Out_of_fuel

fun clear_loop :: "nat \<Rightarrow> addr \<Rightarrow> addr \<Rightarrow> addr option \<Rightarrow> addr option \<Rightarrow> nat \<Rightarrow> nat \<Rightarrow> 'a cbuf
  \<Rightarrow> (nat \<times> nat \<times> 'a cbuf) run" where
  "clear_loop 0 endp testa cursor prev totali eliminati b = Out_of_fuel"
| "clear_loop (Suc fuel) endp testa cursor prev totali eliminati b =
     (case cursor of
        None \<Rightarrow> Done (totali, eliminati, b)
      | Some c \<Rightarrow>
          if c = endp \<or> c = testa then Done (totali, eliminati, b)
          else case store b c of
            None \<Rightarrow> Faulted
          | Some e \<Rightarrow>
              if referenceCount e \<le> 0 then
                if c = tail b then
                  (case dequeue b of
                     None \<Rightarrow> Faulted
                   | Some (_, b') \<Rightarrow>
                       clear_loop fuel endp testa (Some (tail b')) None (totali + 1) (eliminati + 1) b')
                else
                  (case prev of
                     None \<Rightarrow> Faulted
                   | Some p \<Rightarrow>
                       (case at_elem p (\<lambda>pe. pe\<lparr>nextp := nextp e\<rparr>) b of
                          None \<Rightarrow> Faulted
                        | Some b1 \<Rightarrow>
                            (let b' = deAllocNode c b1 in
                             case nextp e of
                               None \<Rightarrow> Done (totali, eliminati, b')
                             | Some s \<Rightarrow>
                                 clear_loop fuel endp testa (Some s) prev (totali + 1) (eliminati + 1) b')))
              else
                (case nextp e of
                   None \<Rightarrow> Done (totali, eliminati, b)
                 | Some s \<Rightarrow> clear_loop fuel endp testa (Some s) (Some c) (totali + 1) eliminati b))"

definition clearUnusedData :: "nat \<Rightarrow> 'a cbuf \<Rightarrow> 'a cbuf run" where
  "clearUnusedData fuel b =
     (case clear_loop fuel (pivot b) (head b) (Some (tail b)) None 0 0 b of
        Done (totali, eliminati, b') \<Rightarrow>
          (let validiCorrenti = elementiInCodaCorrenti b' - of_nat totali in
           Done (b'\<lparr>elementiInGarbage := elementiInGarbage b' + of_nat totali,
                   elementiInCoda := elementiInCoda b' + elementiInCodaCorrenti b',
                   elementiInCodaValidiCorrenti := validiCorrenti,
                   elementiInCodaValidi := elementiInCodaValidi b' + validiCorrenti,
                   elementiInEliminati := elementiInEliminati b' + of_nat eliminati,
                   numeroOsservazioni := numeroOsservazioni b' + 1\<rparr>))
      | Faulted \<Rightarrow> Faulted
      | Out_of_fuel \<Rightarrow> Out_of_fuel)"

text \<open>The garbage collector's iterator.\<close>

record garbage_iter =
  g_current :: addr
  lastDiv :: "addr option"

definition getIteratorGarbage :: "'a cbuf \<Rightarrow> (garbage_iter \<times> 'a cbuf) option" where
  "getIteratorGarbage b =
     (case at_elem (pivot b) increment b of
        None \<Rightarrow> None
      | Some b' \<Rightarrow> Some (\<lparr>g_current = pivot b', lastDiv = None\<rparr>, b'))"

text \<open>
  \<open>markOldData\<close> moves the pivot past an element that is out of date, once no reader holds it. The
  collector's own hold is moved to the next element first, once for each pivot.
\<close>

definition markOldData :: "u64 \<Rightarrow> garbage_iter \<Rightarrow> 'a cbuf \<Rightarrow> (bool \<times> garbage_iter \<times> 'a cbuf) option" where
  "markOldData now g b =
     (let tempDiv = pivot b in
      case store b tempDiv of
        None \<Rightarrow> None
      | Some e \<Rightarrow>
          (case nextp e of
             None \<Rightarrow> Some (False, g, b)
           | Some n \<Rightarrow>
               if \<not> isValid now e \<and> tempDiv \<noteq> head b \<and> n \<noteq> head b then
                 (case (if lastDiv g \<noteq> Some tempDiv
                        then (case at_elem n increment b of
                                None \<Rightarrow> None
                              | Some b1 \<Rightarrow>
                                  (case at_elem tempDiv decrementCounter b1 of
                                     None \<Rightarrow> None
                                   | Some b2 \<Rightarrow> Some (\<lparr>g_current = n, lastDiv = Some tempDiv\<rparr>, b2)))
                        else Some (g, b)) of
                    None \<Rightarrow> None
                  | Some (g', b') \<Rightarrow>
                      (case store b' tempDiv of
                         None \<Rightarrow> None
                       | Some e' \<Rightarrow>
                           if readerCount e' \<le> 0 then Some (True, g', b'\<lparr>pivot := n\<rparr>)
                           else Some (False, g', b')))
               else Some (False, g, b)))"

fun mark_loop :: "nat \<Rightarrow> (nat \<Rightarrow> u64) \<Rightarrow> garbage_iter \<Rightarrow> 'a cbuf \<Rightarrow> (garbage_iter \<times> 'a cbuf) run" where
  "mark_loop 0 clock g b = Out_of_fuel"
| "mark_loop (Suc fuel) clock g b =
     (case markOldData (clock 0) g b of
        None \<Rightarrow> Faulted
      | Some (True, g', b') \<Rightarrow> mark_loop fuel (\<lambda>i. clock (Suc i)) g' b'
      | Some (False, g', b') \<Rightarrow> Done (g', b'))"

definition g_isReady :: "garbage_iter \<Rightarrow> 'a cbuf \<Rightarrow> bool option" where
  "g_isReady g b =
     map_option (\<lambda>e. \<not> (nextp e = None \<or> g_current g = head b \<or> data e = None)) (store b (g_current g))"

definition clearQueue :: "nat \<Rightarrow> (nat \<Rightarrow> u64) \<Rightarrow> garbage_iter \<Rightarrow> 'a cbuf \<Rightarrow> (garbage_iter \<times> 'a cbuf) run" where
  "clearQueue fuel clock g b =
     (case clearUnusedData fuel b of
        Faulted \<Rightarrow> Faulted
      | Out_of_fuel \<Rightarrow> Out_of_fuel
      | Done b' \<Rightarrow>
          (case g_isReady g b' of
             None \<Rightarrow> Faulted
           | Some False \<Rightarrow> Done (g, b')
           | Some True \<Rightarrow> mark_loop fuel clock g b'))"

section \<open>The shape of the list\<close>

text \<open>
  \<open>linked st L\<close>: the addresses of \<open>L\<close> are linked in this order; every element but the last has
  data, the last one has none and no successor.
\<close>

fun linked :: "(addr \<rightharpoonup> 'a element) \<Rightarrow> addr list \<Rightarrow> bool" where
  "linked st [] = False"
| "linked st [a] = (\<exists>e. st a = Some e \<and> nextp e = None \<and> data e = None)"
| "linked st (a # b # l) =
     (\<exists>e. st a = Some e \<and> nextp e = Some b \<and> data e \<noteq> None \<and> linked st (b # l))"

fun seg :: "(addr \<rightharpoonup> 'a element) \<Rightarrow> addr list \<Rightarrow> addr \<Rightarrow> bool" where
  "seg st [] a = True"
| "seg st (k # ks) a =
     (\<exists>e. st k = Some e \<and> nextp e = Some (hd (ks @ [a])) \<and> data e \<noteq> None \<and> seg st ks a)"

lemma linked_append: "linked st (K @ a # M) \<longleftrightarrow> seg st K a \<and> linked st (a # M)"
proof (induction K)
  case Nil
  then show ?case by simp
next
  case (Cons k K)
  then show ?case by (cases K) auto
qed

lemma linked_Cons: "M \<noteq> [] \<Longrightarrow>
  linked st (a # M) \<longleftrightarrow> (\<exists>e. st a = Some e \<and> nextp e = Some (hd M) \<and> data e \<noteq> None \<and> linked st M)"
  by (cases M) auto

lemma seg_cong: "(\<And>x. x \<in> set K \<Longrightarrow> st' x = st x) \<Longrightarrow> seg st' K a = seg st K a"
  by (induction K) auto

lemma linked_cong: "(\<And>x. x \<in> set L \<Longrightarrow> st' x = st x) \<Longrightarrow> linked st' L = linked st L"
  by (induction L rule: linked.induct) auto

lemma linked_in_store: "linked st L \<Longrightarrow> a \<in> set L \<Longrightarrow> \<exists>e. st a = Some e"
  by (induction L rule: linked.induct) auto

text \<open>Changing counters of an element keeps the shape.\<close>

lemma linked_same_shape:
  assumes "st a = Some e" and "nextp e' = nextp e" and "data e' = data e"
  shows "linked (st(a \<mapsto> e')) L = linked st L"
  using assms by (induction L rule: linked.induct) auto

text \<open>Taking an element out from behind its predecessor.\<close>

lemma linked_bypass:
  assumes "linked st (K @ p # r # M)" and "M \<noteq> []" and "distinct (K @ p # r # M)" and "st p = Some pe"
  shows "linked (st(p \<mapsto> pe\<lparr>nextp := Some (hd M)\<rparr>, r := None)) (K @ p # M)"
proof -
  let ?st = "st(p \<mapsto> pe\<lparr>nextp := Some (hd M)\<rparr>, r := None)"
  from assms(1) have s: "seg st K p" and l: "linked st (p # r # M)" by (auto simp: linked_append)
  have "seg ?st K p = seg st K p" by (rule seg_cong) (use assms(3) in auto)
  with s have "seg ?st K p" by simp
  moreover from l assms(2) have "linked st M" by (auto simp: linked_Cons)
  moreover have "linked ?st M = linked st M" by (rule linked_cong) (use assms(3) in auto)
  ultimately have "seg ?st K p" and "linked ?st M" by simp_all
  moreover from l assms(4) have "data pe \<noteq> None" by auto
  moreover have "?st p = Some (pe\<lparr>nextp := Some (hd M)\<rparr>)" using assms(3) by auto
  ultimately show ?thesis using assms(2) by (simp add: linked_append linked_Cons)
qed

text \<open>
  The invariant: the garbage \<open>xs\<close> from \<open>tail\<close> up to the pivot, the readable elements \<open>ys\<close> from the
  pivot on, and the empty element at \<open>head\<close>.
\<close>

definition cb_inv :: "'a cbuf \<Rightarrow> addr list \<Rightarrow> addr list \<Rightarrow> bool" where
  "cb_inv b xs ys \<longleftrightarrow> linked (store b) (xs @ ys @ [head b]) \<and> distinct (xs @ ys @ [head b])
     \<and> tail b = hd (xs @ ys @ [head b]) \<and> pivot b = hd (ys @ [head b])"

lemma cb_inv_new: "cb_inv (cb_new a v) [] []"
  by (simp add: cb_inv_def cb_new_def new_element_def)

lemma enqueue_inv:
  assumes "cb_inv b xs ys" and "store b node = None"
  shows "\<exists>e b'. store b (head b) = Some e
    \<and> enqueue node d sp b = Some (if sp then Some (head b) else None, b')
    \<and> cb_inv b' xs (ys @ [head b]) \<and> head b' = node
    \<and> store b' = (store b)(node \<mapsto> new_element,
         head b \<mapsto> e\<lparr>data := Some d, timedOut := timeStamp d + validita b, nextp := Some node,
                     referenceCount := referenceCount e + (if sp then 1 else 0)\<rparr>)
    \<and> elementiInCodaCorrenti b' = elementiInCodaCorrenti b + 1"
proof -
  let ?h = "head b"
  from assms(1) have l: "linked (store b) ((xs @ ys) @ ?h # [])" and d: "distinct (xs @ ys @ [?h])"
    by (simp_all add: cb_inv_def)
  then obtain e where e: "store b ?h = Some e" "nextp e = None" "data e = None" and s: "seg (store b) (xs @ ys) ?h"
    by (auto simp only: linked_append linked.simps)
  have nh: "node \<noteq> ?h" using e(1) assms(2) by auto
  have nin: "node \<notin> set (xs @ ys)"
    using linked_in_store [OF l, of node] assms(2) by auto
  let ?e = "e\<lparr>data := Some d, timedOut := timeStamp d + validita b, nextp := Some node,
               referenceCount := referenceCount e + (if sp then 1 else 0)\<rparr>"
  let ?st = "(store b)(node \<mapsto> new_element, ?h \<mapsto> ?e)"
  let ?b = "b\<lparr>store := ?st, last_elem := Some ?h, head := node,
              elementiInCodaCorrenti := elementiInCodaCorrenti b + 1\<rparr>"
  have eq: "enqueue node d sp b = Some (if sp then Some ?h else None, ?b)"
    using e(1) nh
    by (cases b) (auto simp: enqueue_def allocNode_def at_elem_def setData_def incrementReferenceCount_def Let_def)
  have "seg ?st (xs @ ys) ?h = seg (store b) (xs @ ys) ?h"
    by (rule seg_cong) (use d nin in auto)
  with s have "seg ?st (xs @ ys) ?h" by simp
  moreover have "linked ?st (?h # [node])" using nh by (simp add: new_element_def)
  ultimately have "linked ?st ((xs @ ys) @ ?h # [node])" by (simp only: linked_append)
  then have "cb_inv ?b xs (ys @ [?h])"
    using assms(1) nh nin by (auto simp: cb_inv_def hd_append)
  with eq e(1) show ?thesis by (intro exI [of _ e] exI [of _ ?b]) simp
qed

section \<open>Correctness of the collector\<close>

abbreviation ref_of :: "'a cbuf \<Rightarrow> addr \<Rightarrow> u32" where
  "ref_of b a \<equiv> referenceCount (the (store b a))"

text \<open>Two stores that agree up to the links.\<close>

definition same_up_to_links :: "(addr \<rightharpoonup> 'a element) \<Rightarrow> (addr \<rightharpoonup> 'a element) \<Rightarrow> addr set \<Rightarrow> bool" where
  "same_up_to_links st' st D \<longleftrightarrow>
     (\<forall>a. if a \<in> D then st' a = None
          else map_option (\<lambda>e. e\<lparr>nextp := None\<rparr>) (st' a) = map_option (\<lambda>e. e\<lparr>nextp := None\<rparr>) (st a))"

lemma same_up_to_links_refl: "same_up_to_links st st {}"
  by (simp add: same_up_to_links_def)

lemma same_up_to_links_trans:
  "same_up_to_links st2 st1 D2 \<Longrightarrow> same_up_to_links st1 st D1 \<Longrightarrow> same_up_to_links st2 st (D1 \<union> D2)"
  unfolding same_up_to_links_def by (smt (verit) Un_iff option.map(1) option.map_disc_iff)

lemma same_up_to_links_ref:
  assumes "same_up_to_links st' st D" and "a \<notin> D"
  shows "map_option referenceCount (st' a) = map_option referenceCount (st a)"
proof -
  have "map_option referenceCount (map_option (\<lambda>e. e\<lparr>nextp := None\<rparr>) (st' a))
      = map_option referenceCount (map_option (\<lambda>e. e\<lparr>nextp := None\<rparr>) (st a))"
    using assms by (auto simp: same_up_to_links_def)
  then show ?thesis by (simp add: option.map_comp comp_def)
qed

lemma same_up_to_links_ref_of: "same_up_to_links (store b') (store b) D \<Longrightarrow> a \<notin> D \<Longrightarrow> store b a \<noteq> None
    \<Longrightarrow> ref_of b' a = ref_of b a"
  by (drule (1) same_up_to_links_ref) auto

lemma same_up_to_links_delete: "same_up_to_links (st(r := None)) st {r}"
  by (simp add: same_up_to_links_def)

lemma same_up_to_links_bypass:
  "st p = Some pe \<Longrightarrow> p \<noteq> r \<Longrightarrow> same_up_to_links (st(p \<mapsto> pe\<lparr>nextp := n\<rparr>, r := None)) st {r}"
  by (auto simp: same_up_to_links_def)

text \<open>One iteration on a dead element: whichever branch runs, the element is cut out and freed.\<close>

lemma clear_step_dead:
  assumes l: "linked (store b) (K @ r # M)" and d: "distinct (K @ r # M)" and M: "M \<noteq> []"
    and t: "tail b = hd (K @ r # M)" and r: "r \<noteq> pivot b" "r \<noteq> head b" and dead: "ref_of b r = 0"
  shows "\<exists>b'. clear_loop (Suc fuel) (pivot b) (head b) (Some r) (if K = [] then None else Some (last K)) tot eli b
           = clear_loop fuel (pivot b') (head b') (Some (hd M)) (if K = [] then None else Some (last K))
               (tot + 1) (eli + 1) b'
         \<and> linked (store b') (K @ M) \<and> tail b' = hd (K @ M)
         \<and> same_up_to_links (store b') (store b) {r}
         \<and> b' = b\<lparr>store := store b', tail := tail b', elementiInCodaCorrenti := elementiInCodaCorrenti b - 1\<rparr>"
proof -
  from l M obtain e where e: "store b r = Some e" "nextp e = Some (hd M)" and lM: "linked (store b) M"
    by (auto simp: linked_append linked_Cons)
  show ?thesis
  proof (cases K rule: rev_cases)
    case Nil
    let ?b = "deAllocNode r (b\<lparr>tail := hd M\<rparr>)"
    have dq: "dequeue b = Some (True, ?b)"
      using t Nil r e by (auto simp: dequeue_def)
    have "linked (store ?b) M = linked (store b) M"
      by (rule linked_cong) (use d Nil in \<open>auto simp: deAllocNode_def\<close>)
    with lM show ?thesis
      using e dq r t dead Nil same_up_to_links_delete [of "store b" r]
      by (intro exI [of _ ?b]) (cases b, simp add: deAllocNode_def)
  next
    case (snoc K' p)
    from l snoc obtain pe where p: "store b p = Some pe"
      using linked_in_store [OF l, of p] by auto
    let ?b1 = "b\<lparr>store := (store b)(p \<mapsto> pe\<lparr>nextp := Some (hd M)\<rparr>)\<rparr>"
    let ?b = "deAllocNode r ?b1"
    have "linked ((store b)(p \<mapsto> pe\<lparr>nextp := Some (hd M)\<rparr>, r := None)) (K' @ p # M)"
      using linked_bypass [of "store b" K' p r M pe] l d M p snoc by simp
    moreover have "r \<noteq> tail b" using t d snoc by (cases K') auto
    moreover have "p \<noteq> r" using d snoc by auto
    moreover have "tail b = hd (K' @ p # M)" using t snoc by (cases K') auto
    ultimately show ?thesis
      using e p r dead snoc same_up_to_links_bypass [of "store b" p pe r "Some (hd M)"]
      by (intro exI [of _ ?b]) (cases b, simp add: deAllocNode_def at_elem_def)
  qed
qed

lemma clear_step_alive:
  assumes "linked (store b) (K @ r # M)" and "M \<noteq> []" and "r \<noteq> pivot b" and "r \<noteq> head b" and "ref_of b r \<noteq> 0"
  shows "clear_loop (Suc fuel) (pivot b) (head b) (Some r) prv tot eli b
       = clear_loop fuel (pivot b) (head b) (Some (hd M)) (Some r) (tot + 1) eli b"
  using assms by (auto simp: linked_append linked_Cons)

lemma clear_loop_correct:
  assumes "linked (store b) (K @ R @ Z)" and "distinct (K @ R @ Z)" and "Z \<noteq> []"
    and "tail b = hd (K @ R @ Z)" and "pivot b = hd Z" and "head b = last Z" and "length R < fuel"
  shows "\<exists>b'. clear_loop fuel (pivot b) (head b) (Some (hd (R @ Z))) (if K = [] then None else Some (last K)) tot eli b
           = Done (tot + length R, eli + length (filter (\<lambda>a. ref_of b a = 0) R), b')
         \<and> linked (store b') (K @ filter (\<lambda>a. ref_of b a \<noteq> 0) R @ Z)
         \<and> tail b' = hd (K @ filter (\<lambda>a. ref_of b a \<noteq> 0) R @ Z)
         \<and> same_up_to_links (store b') (store b) (set (filter (\<lambda>a. ref_of b a = 0) R))
         \<and> b' = b\<lparr>store := store b', tail := tail b',
                  elementiInCodaCorrenti := elementiInCodaCorrenti b - of_nat (length (filter (\<lambda>a. ref_of b a = 0) R))\<rparr>"
  using assms
proof (induction R arbitrary: K b fuel tot eli)
  case Nil
  then obtain n where "fuel = Suc n" by (cases fuel) auto
  with Nil show ?case by (intro exI [of _ b]) (simp add: same_up_to_links_refl)
next
  case (Cons r R)
  from Cons.prems(7) obtain n where n: "fuel = Suc n" "length R < n" by (cases fuel) auto
  have r: "r \<noteq> pivot b" "r \<noteq> head b"
    using Cons.prems(2,3,5,6) by (auto simp: in_set_conv_decomp dest: hd_in_set last_in_set)
  have ins: "store b a \<noteq> None" if "a \<in> set (K @ (r # R) @ Z)" for a
    using linked_in_store [OF Cons.prems(1) that] by auto
  show ?case
  proof (cases "ref_of b r = 0")
    case True
    have pre: "linked (store b) (K @ r # R @ Z)" "distinct (K @ r # R @ Z)" "R @ Z \<noteq> []" "tail b = hd (K @ r # R @ Z)"
      using Cons.prems by simp_all
    from clear_step_dead [OF pre r True, of n tot eli] obtain b1 where
      step: "clear_loop (Suc n) (pivot b) (head b) (Some r) (if K = [] then None else Some (last K)) tot eli b
           = clear_loop n (pivot b1) (head b1) (Some (hd (R @ Z))) (if K = [] then None else Some (last K)) (tot + 1) (eli + 1) b1"
      and l1: "linked (store b1) (K @ R @ Z)" and t1: "tail b1 = hd (K @ R @ Z)"
      and s1: "same_up_to_links (store b1) (store b) {r}"
      and b1: "b1 = b\<lparr>store := store b1, tail := tail b1, elementiInCodaCorrenti := elementiInCodaCorrenti b - 1\<rparr>"
      by blast
    have pv: "pivot b1 = pivot b" "head b1 = head b"
      "elementiInCodaCorrenti b1 = elementiInCodaCorrenti b - 1" by (subst b1, simp)+
    have refs: "ref_of b1 a = ref_of b a" if "a \<in> set R" for a
      using same_up_to_links_ref_of [OF s1, of a] ins [of a] that Cons.prems(2) by auto
    then have f: "filter (\<lambda>a. ref_of b1 a = 0) R = filter (\<lambda>a. ref_of b a = 0) R"
      "filter (\<lambda>a. ref_of b1 a \<noteq> 0) R = filter (\<lambda>a. ref_of b a \<noteq> 0) R"
      by (auto intro: filter_cong)
    have "distinct (K @ R @ Z)" "pivot b1 = hd Z" "head b1 = last Z"
      using Cons.prems(2,5,6) pv by simp_all
    from Cons.IH [OF l1 this(1) Cons.prems(3) t1 this(2,3) n(2), of "tot + 1" "eli + 1"] obtain b' where
      run: "clear_loop n (pivot b1) (head b1) (Some (hd (R @ Z))) (if K = [] then None else Some (last K)) (tot + 1) (eli + 1) b1
         = Done (tot + 1 + length R, eli + 1 + length (filter (\<lambda>a. ref_of b1 a = 0) R), b')"
      and l2: "linked (store b') (K @ filter (\<lambda>a. ref_of b1 a \<noteq> 0) R @ Z)"
      and t2: "tail b' = hd (K @ filter (\<lambda>a. ref_of b1 a \<noteq> 0) R @ Z)"
      and s2: "same_up_to_links (store b') (store b1) (set (filter (\<lambda>a. ref_of b1 a = 0) R))"
      and b': "b' = b1\<lparr>store := store b', tail := tail b',
              elementiInCodaCorrenti := elementiInCodaCorrenti b1 - of_nat (length (filter (\<lambda>a. ref_of b1 a = 0) R))\<rparr>"
      by blast
    have "b' = b\<lparr>store := store b', tail := tail b',
       elementiInCodaCorrenti := elementiInCodaCorrenti b - of_nat (length (filter (\<lambda>a. ref_of b a = 0) (r # R)))\<rparr>"
      using True f pv by (subst b', subst b1) (simp add: algebra_simps)
    moreover have "same_up_to_links (store b') (store b) (set (filter (\<lambda>a. ref_of b a = 0) (r # R)))"
      using same_up_to_links_trans [OF s2 s1] True f by simp
    ultimately show ?thesis
      using step run l2 t2 n True f by (intro exI [of _ b']) (simp del: clear_loop.simps)
  next
    case False
    have "K @ (r # R) @ Z = (K @ [r]) @ R @ Z" by simp
    with Cons.IH [of b "K @ [r]" n "tot + 1" eli] Cons.prems n(2)
      clear_step_alive [of b K r "R @ Z" n "if K = [] then None else Some (last K)" tot eli, OF _ _ r False]
    show ?thesis using n False by (simp del: clear_loop.simps)
  qed
qed

lemma clearUnusedData_correct:
  assumes "cb_inv b xs ys" and "length xs < fuel"
  shows "\<exists>b'. clearUnusedData fuel b = Done b'
         \<and> cb_inv b' (filter (\<lambda>a. ref_of b a \<noteq> 0) xs) ys
         \<and> head b' = head b \<and> pivot b' = pivot b
         \<and> same_up_to_links (store b') (store b) (set (filter (\<lambda>a. ref_of b a = 0) xs))
         \<and> elementiInCodaCorrenti b' = elementiInCodaCorrenti b - of_nat (length (filter (\<lambda>a. ref_of b a = 0) xs))
         \<and> elementiInCodaValidiCorrenti b' = elementiInCodaCorrenti b' - of_nat (length xs)"
proof -
  let ?Z = "ys @ [head b]" and ?dead = "filter (\<lambda>a. ref_of b a = 0) xs" and ?live = "filter (\<lambda>a. ref_of b a \<noteq> 0) xs"
  from assms(1) have pre: "linked (store b) ([] @ xs @ ?Z)" "distinct ([] @ xs @ ?Z)" "?Z \<noteq> []"
    "tail b = hd ([] @ xs @ ?Z)" "pivot b = hd ?Z" "head b = last ?Z"
    by (simp_all add: cb_inv_def)
  from clear_loop_correct [OF pre assms(2), of 0 0] obtain b1 where
    loop: "clear_loop fuel (pivot b) (head b) (Some (tail b)) None 0 0 b = Done (length xs, length ?dead, b1)"
    and l1: "linked (store b1) (?live @ ?Z)" and t1: "tail b1 = hd (?live @ ?Z)"
    and s1: "same_up_to_links (store b1) (store b) (set ?dead)"
    and b1: "b1 = b\<lparr>store := store b1, tail := tail b1,
               elementiInCodaCorrenti := elementiInCodaCorrenti b - of_nat (length ?dead)\<rparr>"
    using pre(4) by auto
  have f1: "head b1 = head b" "pivot b1 = pivot b"
    "elementiInCodaCorrenti b1 = elementiInCodaCorrenti b - of_nat (length ?dead)" by (subst b1, simp)+
  have "distinct (?live @ ?Z)" using pre(2) by auto
  with l1 t1 f1 pre(5) loop s1 show ?thesis
    by (simp add: clearUnusedData_def cb_inv_def Let_def)
qed

end
