(* ===== verification/Buffer_Reader.thy ===== *)
theory Buffer_Reader
  imports Common_Buffer
begin

text \<open>
  The readers of the common buffer (\<open>IteratorBase.h\<close>, \<open>IteratorReader.h\<close>) and the collector's pivot
  (\<open>IteratorGarbage.h\<close>): what a call of \<open>bufferedReader\<close> returns, and that it gives back every hold
  it takes on an element. A hold is one unit of \<open>readerCount\<close>; a smart pointer is one unit of
  \<open>referenceCount\<close>.
\<close>

section \<open>The iterator\<close>

record reader =
  r_current :: "addr option"
  stopAndResume :: "addr option"

definition new_reader :: reader where
  "new_reader = \<lparr>r_current = None, stopAndResume = None\<rparr>"

definition isReady :: "addr \<Rightarrow> 'a cbuf \<Rightarrow> bool option" where
  "isReady current b =
     map_option (\<lambda>e. \<not> (nextp e = None \<or> current = head b \<or> data e = None)) (store b current)"

definition updateIterator :: "addr \<Rightarrow> 'a cbuf \<Rightarrow> (addr \<times> 'a cbuf) option" where
  "updateIterator current b =
     (case store b current of
        None \<Rightarrow> None
      | Some e \<Rightarrow>
          (case nextp e of
             None \<Rightarrow> None
           | Some n \<Rightarrow>
               (case at_elem n increment b of
                  None \<Rightarrow> None
                | Some b1 \<Rightarrow>
                    map_option (\<lambda>b2. (n, b2))
                      (at_elem current (\<lambda>c. if readerCount c > 0 then decrementCounter c else c) b1))))"

definition leaveStream :: "addr \<Rightarrow> 'a cbuf \<Rightarrow> 'a cbuf option" where
  "leaveStream current b = at_elem current (\<lambda>c. if readerCount c > 0 then decrementCounter c else c) b"

text \<open>Replace the smart pointer of a reader by one to its current element.\<close>

definition del_smart :: "addr option \<Rightarrow> 'a cbuf \<Rightarrow> 'a cbuf option" where
  "del_smart sp b = (case sp of None \<Rightarrow> Some b | Some a \<Rightarrow> at_elem a decrementReferenceCount b)"

definition stop_here :: "addr \<Rightarrow> addr option \<Rightarrow> 'a cbuf \<Rightarrow> 'a cbuf option" where
  "stop_here current sar b =
     (case del_smart sar b of
        None \<Rightarrow> None
      | Some b1 \<Rightarrow>
          (case at_elem current incrementReferenceCount b1 of
             None \<Rightarrow> None
           | Some b2 \<Rightarrow> leaveStream current b2))"

fun jump_loop :: "nat \<Rightarrow> (nat \<Rightarrow> u64) \<Rightarrow> addr \<Rightarrow> addr \<Rightarrow> addr option \<Rightarrow> 'a cbuf
  \<Rightarrow> (bool \<times> addr \<times> addr option \<times> 'a cbuf) run" where
  "jump_loop 0 clock testa current sar b = Out_of_fuel"
| "jump_loop (Suc fuel) clock testa current sar b =
     (case isReady current b of
        None \<Rightarrow> Faulted
      | Some False \<Rightarrow>
          (case stop_here current sar b of
             None \<Rightarrow> Faulted
           | Some b' \<Rightarrow> Done (False, current, Some current, b'))
      | Some True \<Rightarrow>
          (case updateIterator current b of
             None \<Rightarrow> Faulted
           | Some (c, b') \<Rightarrow>
               (case store b' c of
                  None \<Rightarrow> Faulted
                | Some e \<Rightarrow>
                    if \<not> isValid (clock 0) e \<and> c \<noteq> testa
                    then jump_loop fuel (\<lambda>i. clock (Suc i)) testa c sar b'
                    else Done (True, c, sar, b'))))"

definition jumpToNextValidElement :: "nat \<Rightarrow> (nat \<Rightarrow> u64) \<Rightarrow> addr \<Rightarrow> addr option \<Rightarrow> 'a cbuf
  \<Rightarrow> (bool \<times> addr \<times> addr option \<times> 'a cbuf) run" where
  "jumpToNextValidElement fuel clock current sar b =
     (let testa = head b in
      case at_elem current (\<lambda>c. if readerCount c = 0 then increment c else c) b of
        None \<Rightarrow> Faulted
      | Some b1 \<Rightarrow>
          (case isReady current b1 of
             None \<Rightarrow> Faulted
           | Some True \<Rightarrow>
               (case store b1 current of
                  None \<Rightarrow> Faulted
                | Some e \<Rightarrow>
                    if \<not> isValid (clock 0) e then jump_loop fuel (\<lambda>i. clock (Suc i)) testa current sar b1
                    else Done (True, current, sar, b1))
           | Some False \<Rightarrow>
               (case stop_here current sar b1 of
                  None \<Rightarrow> Faulted
                | Some b' \<Rightarrow> Done (False, current, Some current, b'))))"

text \<open>
  The loop of \<open>lockPivot\<close> and \<open>attachStream\<close> takes no lock: it reads the pivot, counts itself on the
  element read, reads the pivot again and takes the count back when it has moved. \<open>lock_step\<close> is one access
  to the shared memory, from where the thread is in the loop; an access to an element that is no longer
  there is the fault.
\<close>

datatype lock_pc = Lock_read | Lock_increment addr | Lock_check addr | Lock_decrement addr | Lock_held addr

fun lock_step :: "lock_pc \<Rightarrow> 'a cbuf \<Rightarrow> (lock_pc \<times> 'a cbuf) option" where
  "lock_step Lock_read b = Some (Lock_increment (pivot b), b)"
| "lock_step (Lock_increment inizio) b = map_option (\<lambda>b'. (Lock_check inizio, b')) (at_elem inizio increment b)"
| "lock_step (Lock_check inizio) b = Some (if inizio = pivot b then Lock_held inizio else Lock_decrement inizio, b)"
| "lock_step (Lock_decrement inizio) b = map_option (\<lambda>b'. (Lock_read, b')) (at_elem inizio decrementCounter b)"
| "lock_step (Lock_held inizio) b = Some (Lock_held inizio, b)"

text \<open>
  With nobody moving the pivot in between, the first pass of the loop succeeds; the readers below take it
  as one step.
\<close>

definition attachStream :: "'a cbuf \<Rightarrow> (addr \<times> 'a cbuf) option" where
  "attachStream b = map_option (\<lambda>b'. (pivot b, b')) (at_elem (pivot b) increment b)"

lemma lock_run_alone:
  "Option.bind (lock_step Lock_read b) (\<lambda>(pc, b). Option.bind (lock_step pc b) (\<lambda>(pc, b). lock_step pc b))
     = map_option (\<lambda>(a, b'). (Lock_held a, b')) (attachStream b)"
  by (cases "store b (pivot b)") (simp_all add: attachStream_def at_elem_def)

text \<open>A new start at the pivot, for a reader that has fallen behind.\<close>

definition restart_at_pivot :: "nat \<Rightarrow> (nat \<Rightarrow> u64) \<Rightarrow> addr \<Rightarrow> addr option \<Rightarrow> 'a cbuf
  \<Rightarrow> (bool \<times> reader \<times> 'a cbuf) run" where
  "restart_at_pivot fuel clock current sar b =
     (case leaveStream current b of
        None \<Rightarrow> Faulted
      | Some b1 \<Rightarrow>
          (case del_smart sar b1 of
             None \<Rightarrow> Faulted
           | Some b2 \<Rightarrow>
               (case attachStream b2 of
                  None \<Rightarrow> Faulted
                | Some (c, b3) \<Rightarrow>
                    (case jumpToNextValidElement fuel clock c None b3 of
                       Done (True, c', sar', b4) \<Rightarrow> Done (True, \<lparr>r_current = Some c', stopAndResume = None\<rparr>, b4)
                     | Done (False, c', sar', b4) \<Rightarrow> Done (False, \<lparr>r_current = Some c', stopAndResume = sar'\<rparr>, b4)
                     | Faulted \<Rightarrow> Faulted
                     | Out_of_fuel \<Rightarrow> Out_of_fuel))))"

definition chooseCurrent :: "nat \<Rightarrow> (nat \<Rightarrow> u64) \<Rightarrow> reader \<Rightarrow> 'a cbuf \<Rightarrow> (bool \<times> reader \<times> 'a cbuf) run" where
  "chooseCurrent fuel clock r b =
     (let testa = head b in
      case stopAndResume r of
        None \<Rightarrow>
          (case r_current r of
             None \<Rightarrow>
               (case attachStream b of
                  None \<Rightarrow> Faulted
                | Some (c, b') \<Rightarrow> Done (True, \<lparr>r_current = Some c, stopAndResume = None\<rparr>, b'))
           | Some _ \<Rightarrow> Done (True, r, b))
      | Some s \<Rightarrow>
          (case r_current r of
             None \<Rightarrow> Faulted
           | Some c \<Rightarrow>
               (case store b c of
                  None \<Rightarrow> Faulted
                | Some e \<Rightarrow>
                    if isValid (clock 0) e then
                      (case at_elem c increment b of
                         None \<Rightarrow> Faulted
                       | Some b1 \<Rightarrow>
                           (case del_smart (Some s) b1 of
                              None \<Rightarrow> Faulted
                            | Some b2 \<Rightarrow> Done (True, r\<lparr>stopAndResume := None\<rparr>, b2)))
                    else if nextp e = None \<or> c = testa then
                      (case del_smart (Some s) b of
                         None \<Rightarrow> Faulted
                       | Some b1 \<Rightarrow>
                           (case at_elem c incrementReferenceCount b1 of
                              None \<Rightarrow> Faulted
                            | Some b2 \<Rightarrow> Done (False, r\<lparr>stopAndResume := Some c\<rparr>, b2)))
                    else
                      (case at_elem c increment b of
                         None \<Rightarrow> Faulted
                       | Some b1 \<Rightarrow>
                           (case store b1 (pivot b1) of
                              None \<Rightarrow> Faulted
                            | Some pe \<Rightarrow>
                                if pivot b1 \<noteq> testa \<and> timedOut e > timedOut pe then
                                  (case jumpToNextValidElement fuel (\<lambda>i. clock (Suc i)) c (Some s) b1 of
                                     Done (False, c', sar', b2) \<Rightarrow>
                                       Done (False, \<lparr>r_current = Some c', stopAndResume = sar'\<rparr>, b2)
                                   | Done (True, c', sar', b2) \<Rightarrow>
                                       (case del_smart sar' b2 of
                                          None \<Rightarrow> Faulted
                                        | Some b3 \<Rightarrow> Done (True, \<lparr>r_current = Some c', stopAndResume = None\<rparr>, b3))
                                   | Faulted \<Rightarrow> Faulted
                                   | Out_of_fuel \<Rightarrow> Out_of_fuel)
                                else restart_at_pivot fuel (\<lambda>i. clock (Suc i)) c (Some s) b1)))))"

text \<open>
  The reading loop: a smart pointer to each element, in order, until the limit or the element that
  was at \<open>head\<close> when the loop began.
\<close>

fun read_loop :: "nat \<Rightarrow> addr \<Rightarrow> nat \<Rightarrow> addr \<Rightarrow> addr list \<Rightarrow> 'a cbuf \<Rightarrow> (addr list \<times> addr \<times> 'a cbuf) run" where
  "read_loop 0 testa limit current buffer b = Out_of_fuel"
| "read_loop (Suc fuel) testa limit current buffer b =
     (if length buffer < limit then
        (case isReady current b of
           None \<Rightarrow> Faulted
         | Some ready \<Rightarrow>
             if ready \<and> current \<noteq> testa then
               (case at_elem current incrementReferenceCount b of
                  None \<Rightarrow> Faulted
                | Some b1 \<Rightarrow>
                    (case updateIterator current b1 of
                       None \<Rightarrow> Faulted
                     | Some (c, b2) \<Rightarrow> read_loop fuel testa limit c (buffer @ [current]) b2))
             else Done (buffer, current, b))
      else Done (buffer, current, b))"

definition INT_MAX :: int where
  "INT_MAX = 2147483647"

text \<open>
  \<open>bufferedReader\<close>. The result is the returned count, the smart pointers pushed, the reader and
  the buffer. Where \<open>chooseCurrent\<close> fails it returns \<open>false\<close>, which is 0.
\<close>

definition bufferedReader :: "nat \<Rightarrow> (nat \<Rightarrow> u64) \<Rightarrow> int \<Rightarrow> reader \<Rightarrow> 'a cbuf
  \<Rightarrow> (int \<times> addr list \<times> reader \<times> 'a cbuf) run" where
  "bufferedReader fuel clock limit r b =
     (let lim = nat (if limit < 0 then INT_MAX else limit); tempPivot = pivot b in
      case at_elem tempPivot increment b of
        None \<Rightarrow> Faulted
      | Some b1 \<Rightarrow>
          (case chooseCurrent fuel clock r b1 of
             Faulted \<Rightarrow> Faulted
           | Out_of_fuel \<Rightarrow> Out_of_fuel
           | Done (False, r', b2) \<Rightarrow>
               (case at_elem tempPivot decrementCounter b2 of
                  None \<Rightarrow> Faulted
                | Some b3 \<Rightarrow> Done (0, [], r', b3))
           | Done (True, r', b2) \<Rightarrow>
               (case at_elem tempPivot decrementCounter b2 of
                  None \<Rightarrow> Faulted
                | Some b3 \<Rightarrow>
                    (case r_current r' of
                       None \<Rightarrow> Faulted
                     | Some c \<Rightarrow>
                         (case read_loop fuel (head b3) lim c [] b3 of
                            Faulted \<Rightarrow> Faulted
                          | Out_of_fuel \<Rightarrow> Out_of_fuel
                          | Done (buffer, c', b4) \<Rightarrow>
                              (case stop_here c' (stopAndResume r') b4 of
                                 None \<Rightarrow> Faulted
                               | Some b5 \<Rightarrow>
                                   Done (int (length buffer), buffer,
                                         \<lparr>r_current = Some c', stopAndResume = Some c'\<rparr>, b5)))))))"

section \<open>Holds and references as changes of the store\<close>

definition chg :: "addr \<Rightarrow> ('a element \<Rightarrow> 'a element) \<Rightarrow> (addr \<rightharpoonup> 'a element) \<Rightarrow> (addr \<rightharpoonup> 'a element)" where
  "chg a f st = st(a := map_option f (st a))"

abbreviation hold :: "addr \<Rightarrow> (addr \<rightharpoonup> 'a element) \<Rightarrow> (addr \<rightharpoonup> 'a element)" where
  "hold a \<equiv> chg a increment"

abbreviation addref :: "addr \<Rightarrow> (addr \<rightharpoonup> 'a element) \<Rightarrow> (addr \<rightharpoonup> 'a element)" where
  "addref a \<equiv> chg a incrementReferenceCount"

definition delref :: "addr option \<Rightarrow> (addr \<rightharpoonup> 'a element) \<Rightarrow> (addr \<rightharpoonup> 'a element)" where
  "delref sp st = (case sp of None \<Rightarrow> st | Some a \<Rightarrow> chg a decrementReferenceCount st)"

text \<open>A change of a counter: links, data and time-out stay.\<close>

definition keeps :: "('a element \<Rightarrow> 'a element) \<Rightarrow> bool" where
  "keeps f \<longleftrightarrow> (\<forall>e. nextp (f e) = nextp e \<and> data (f e) = data e \<and> timedOut (f e) = timedOut e)"

lemma keeps_counters [simp]:
  "keeps increment" "keeps decrementCounter" "keeps incrementReferenceCount" "keeps decrementReferenceCount"
  by (simp_all add: keeps_def increment_def decrementCounter_def incrementReferenceCount_def
      decrementReferenceCount_def)

lemma dec_inc [simp]: "decrementCounter (increment e) = e"
  by (cases e) (simp add: decrementCounter_def increment_def)

lemma ref_reader_commute:
  "incrementReferenceCount (increment e) = increment (incrementReferenceCount e)"
  "decrementReferenceCount (increment e) = increment (decrementReferenceCount e)"
  by (simp_all add: incrementReferenceCount_def increment_def decrementReferenceCount_def)

lemma at_elem_chg: "store b a \<noteq> None \<Longrightarrow> at_elem a f b = Some (b\<lparr>store := chg a f (store b)\<rparr>)"
  by (auto simp: at_elem_def chg_def)

lemma chg_same: "chg a f (chg a g st) = chg a (\<lambda>e. f (g e)) st"
  by (auto simp: chg_def option.map_comp comp_def)

lemma chg_commute: "a \<noteq> c \<Longrightarrow> chg a f (chg c g st) = chg c g (chg a f st)"
  by (auto simp: chg_def fun_eq_iff)

lemma chg_id: "chg a (\<lambda>e. e) st = st"
  by (auto simp: chg_def fun_eq_iff option.map_id0 [unfolded id_def])

lemma chg_None [simp]: "(chg a f st c = None) = (st c = None)"
  by (simp add: chg_def)

lemma delref_None [simp]: "(delref sp st c = None) = (st c = None)"
  by (simp add: delref_def split: option.split)

lemma chg_other [simp]: "a \<noteq> c \<Longrightarrow> chg a f st c = st c"
  by (simp add: chg_def)

lemma chg_this: "chg a f st a = map_option f (st a)"
  by (simp add: chg_def)

text \<open>What is the same up to counters.\<close>

definition same_frame :: "(addr \<rightharpoonup> 'a element) \<Rightarrow> (addr \<rightharpoonup> 'a element) \<Rightarrow> bool" where
  "same_frame st' st \<longleftrightarrow> (\<forall>a. map_option (\<lambda>e. (nextp e, data e, timedOut e)) (st' a)
                           = map_option (\<lambda>e. (nextp e, data e, timedOut e)) (st a))"

lemma same_frame_refl [simp]: "same_frame st st"
  by (simp add: same_frame_def)

lemma same_frame_chg [simp]: "keeps f \<Longrightarrow> same_frame (chg a f st') st = same_frame st' st"
  by (auto simp: same_frame_def chg_def keeps_def option.map_comp comp_def)

lemma same_frame_delref [simp]: "same_frame (delref sp st') st = same_frame st' st"
  by (simp add: delref_def split: option.split)

lemma same_frame_elem:
  assumes "same_frame st' st" and "st a = Some e"
  shows "\<exists>e'. st' a = Some e' \<and> nextp e' = nextp e \<and> data e' = data e \<and> timedOut e' = timedOut e"
proof -
  from assms(1) have "map_option (\<lambda>e. (nextp e, data e, timedOut e)) (st' a)
      = map_option (\<lambda>e. (nextp e, data e, timedOut e)) (st a)" by (simp add: same_frame_def)
  with assms(2) show ?thesis by auto
qed

lemma same_frame_linked: "same_frame st' st \<Longrightarrow> linked st L \<Longrightarrow> linked st' L"
proof (induction st L rule: linked.induct)
  case (2 st a)
  then show ?case using same_frame_elem [OF 2(1)] by fastforce
next
  case (3 st a b l)
  from 3(3) obtain e where e: "st a = Some e" "nextp e = Some b" "data e \<noteq> None" "linked st (b # l)" by auto
  with 3 have "linked st' (b # l)" by simp
  with same_frame_elem [OF 3(2) e(1)] e show ?case by auto
qed simp

lemma same_frame_valid:
  assumes "same_frame st' st" and "st a = Some e" and "st' a = Some e'"
  shows "isValid now e' = isValid now e"
  using same_frame_elem [OF assms(1,2)] assms(3) by (auto simp: isValid_def)

text \<open>No reader counter is at its largest value.\<close>

definition below :: "nat \<Rightarrow> (addr \<rightharpoonup> 'a element) \<Rightarrow> bool" where
  "below k st \<longleftrightarrow> (\<forall>a e. st a = Some e \<longrightarrow> unat (readerCount e) + k < 2 ^ 32)"

lemma below_hold: "below (Suc k) st \<Longrightarrow> below k (hold a st)"
  unfolding below_def chg_def
proof (intro allI impI)
  fix c e
  assume b: "\<forall>a e. st a = Some e \<longrightarrow> unat (readerCount e) + Suc k < 2 ^ 32"
    and e: "(st(a := map_option increment (st a))) c = Some e"
  show "unat (readerCount e) + k < 2 ^ 32"
  proof (cases "c = a")
    case True
    with e obtain e0 where e0: "st a = Some e0" "e = increment e0" by auto
    have "unat (readerCount e0 + 1) \<le> unat (readerCount e0) + 1"
      by (simp add: unat_word_ariths)
    with b e0 show ?thesis by (fastforce simp: increment_def)
  next
    case False
    with b e have "unat (readerCount e) + Suc k < 2 ^ 32" by auto
    then show ?thesis by simp
  qed
qed

lemma below_mono: "below k st \<Longrightarrow> j \<le> k \<Longrightarrow> below j st"
  unfolding below_def by (meson add_left_mono le_less_trans)

lemma below_ref:
  "below k (addref a st) = below k st" "below k (delref sp st) = below k st"
  by (auto simp: below_def chg_def delref_def incrementReferenceCount_def decrementReferenceCount_def
      split: option.split)

definition rdec :: "'a element \<Rightarrow> 'a element" where
  "rdec c = (if readerCount c > 0 then decrementCounter c else c)"

lemma rdec_increment: "unat (readerCount e) + 1 < 2 ^ 32 \<Longrightarrow> rdec (increment e) = e"
proof -
  assume "unat (readerCount e) + 1 < 2 ^ 32"
  then have "unat (readerCount e + 1) = unat (readerCount e) + 1"
    by (simp add: unat_word_ariths)
  then have "0 < readerCount e + 1" by (simp add: word_less_nat_alt)
  then show ?thesis by (simp add: rdec_def) (simp add: increment_def)
qed

text \<open>Giving a hold back restores the store, whatever references were taken meanwhile.\<close>

lemma rdec_hold: "below 1 st \<Longrightarrow> chg a rdec (hold a st) = st"
  by (cases "st a") (auto simp: chg_def fun_eq_iff below_def rdec_increment)

lemma hold_release [simp]: "chg a decrementCounter (hold a st) = st"
  by (simp add: chg_same chg_id)

lemma hold_commute: "hold a (hold c st) = hold c (hold a st)"
  by (cases "a = c") (simp_all add: chg_commute)

lemma addref_hold: "addref a (hold c st) = hold c (addref a st)"
  by (cases "a = c") (simp_all add: chg_commute chg_same ref_reader_commute)

lemma delref_hold: "delref sp (hold c st) = hold c (delref sp st)"
proof (cases sp)
  case (Some a)
  then show ?thesis by (cases "a = c") (simp_all add: delref_def chg_commute chg_same ref_reader_commute)
qed (simp add: delref_def)

lemma leaveStream_rdec: "leaveStream c b = at_elem c rdec b"
  by (simp add: leaveStream_def rdec_def [abs_def])

lemma del_smart_eq:
  "(\<And>a. sp = Some a \<Longrightarrow> store b a \<noteq> None) \<Longrightarrow> del_smart sp b = Some (b\<lparr>store := delref sp (store b)\<rparr>)"
  by (simp add: del_smart_def delref_def at_elem_chg split: option.split)

lemma del_smart_hold:
  assumes "st c \<noteq> None"
  shows "del_smart (Some c) (b\<lparr>store := hold a st\<rparr>) = Some (b\<lparr>store := hold a (delref (Some c) st)\<rparr>)"
  using assms delref_hold [of "Some c" a st] by (simp add: del_smart_def delref_def at_elem_chg)

section \<open>The operations of a reader that holds its element\<close>

lemma updateIterator_hold:
  assumes "store b = hold c st" and "linked st (c # M)" and "M \<noteq> []" and "c \<notin> set M" and "below 1 st"
  shows "updateIterator c b = Some (hd M, b\<lparr>store := hold (hd M) st\<rparr>)"
proof -
  from assms(2,3) obtain e where e: "st c = Some e" "nextp e = Some (hd M)" and l: "linked st M"
    by (auto simp: linked_Cons)
  from linked_in_store [OF l, of "hd M"] assms(3) have n: "st (hd M) \<noteq> None" by auto
  have ne: "hd M \<noteq> c" using assms(3,4) by auto
  have "chg c rdec (hold (hd M) (hold c st)) = hold (hd M) st"
    using ne assms(5) by (simp add: chg_commute [of c "hd M"] rdec_hold)
  then show ?thesis
    using assms(1) e n ne
    by (simp add: updateIterator_def chg_this at_elem_chg increment_def [abs_def] rdec_def [abs_def, symmetric])
qed

lemma stop_here_hold:
  assumes "store b = hold c st" and "st c \<noteq> None" and "below 1 st" and "\<And>a. sar = Some a \<Longrightarrow> st a \<noteq> None"
  shows "stop_here c sar b = Some (b\<lparr>store := addref c (delref sar st)\<rparr>)"
  using assms
  by (simp add: stop_here_def del_smart_eq at_elem_chg leaveStream_rdec delref_hold addref_hold rdec_hold below_ref)

lemma isReady_hold:
  assumes "store b = hold c st" and "linked st (c # M)" and "last (c # M) = head b" and "distinct (c # M)"
  shows "isReady c b = Some (M \<noteq> [])"
proof (cases M)
  case Nil
  with assms show ?thesis by (auto simp: isReady_def chg_this)
next
  case (Cons n M')
  with assms(2) obtain e where "st c = Some e" "nextp e = Some n" "data e \<noteq> None" by auto
  moreover have "c \<noteq> head b" using assms(3,4) Cons by (auto split: if_splits dest: last_in_set)
  ultimately show ?thesis using assms(1) Cons by (auto simp: isReady_def chg_this increment_def)
qed

text \<open>
  Skipping: the hold moves to a later element, which is valid at the time it was looked at, or to
  the empty element at the head.
\<close>

lemma jump_loop_hold:
  assumes "store b = hold c st" and "linked st (c # M)" and "last (c # M) = head b" and "distinct (c # M)"
    and "M \<noteq> []" and "below 1 st" and "length M \<le> fuel"
  shows "\<exists>K c' M' i. jump_loop fuel clock (head b) c sar b = Done (True, c', sar, b\<lparr>store := hold c' st\<rparr>)
         \<and> M = K @ c' # M' \<and> (c' = head b \<or> isValid (clock i) (the (st c')))"
  using assms
proof (induction fuel arbitrary: c M b clock)
  case 0
  then show ?case by simp
next
  case (Suc fuel)
  from Suc.prems(5) obtain n M' where M: "M = n # M'" by (cases M) auto
  have rdy: "isReady c b = Some True" using isReady_hold [OF Suc.prems(1-4)] Suc.prems(5) by simp
  let ?b = "b\<lparr>store := hold n st\<rparr>"
  have upd: "updateIterator c b = Some (n, ?b)"
    using updateIterator_hold [OF Suc.prems(1,2,5) _ Suc.prems(6)] Suc.prems(4) M by simp
  from Suc.prems(2) M have ln: "linked st (n # M')" by auto
  then obtain e where e: "st n = Some e" using linked_in_store [OF ln, of n] by auto
  have v: "isValid (clock 0) (increment e) = isValid (clock 0) e"
    by (simp add: isValid_def increment_def)
  show ?case
  proof (cases "\<not> isValid (clock 0) e \<and> n \<noteq> head b")
    case True
    then have "M' \<noteq> []" using Suc.prems(3) M by auto
    with Suc.IH [of ?b n M' "\<lambda>i. clock (Suc i)"] Suc.prems ln M obtain K c' M'' i where
      "jump_loop fuel (\<lambda>i. clock (Suc i)) (head b) n sar ?b = Done (True, c', sar, b\<lparr>store := hold c' st\<rparr>)"
      "M' = K @ c' # M''" "c' = head b \<or> isValid (clock (Suc i)) (the (st c'))" by auto
    then show ?thesis
      using rdy upd True e v M
      by (intro exI [of _ "n # K"] exI [of _ c'] exI [of _ M''] exI [of _ "Suc i"]) (simp add: chg_this)
  next
    case False
    then show ?thesis
      using rdy upd e v M
      by (intro exI [of _ "[]"] exI [of _ n] exI [of _ M'] exI [of _ 0]) (auto simp: chg_this)
  qed
qed

lemma jump_hold:
  assumes "store b = hold c st" and "linked st (c # M)" and "last (c # M) = head b" and "distinct (c # M)"
    and "below 1 st" and "length M \<le> fuel" and "\<And>a. sar = Some a \<Longrightarrow> st a \<noteq> None"
  shows "if M = []
         then jumpToNextValidElement fuel clock c sar b = Done (False, c, Some c, b\<lparr>store := addref c (delref sar st)\<rparr>)
         else \<exists>K c' M' i. jumpToNextValidElement fuel clock c sar b = Done (True, c', sar, b\<lparr>store := hold c' st\<rparr>)
              \<and> c # M = K @ c' # M' \<and> (c' = head b \<or> isValid (clock i) (the (st c')))"
proof -
  from linked_in_store [OF assms(2), of c] obtain e where e: "st c = Some e" by auto
  from assms(5) e have "unat (readerCount e) + 1 < 2 ^ 32" by (auto simp: below_def)
  then have "unat (readerCount e + 1) = unat (readerCount e) + 1" by (simp add: unat_word_ariths)
  then have nz: "readerCount (increment e) \<noteq> 0" by (auto simp: increment_def)
  then have id: "at_elem c (\<lambda>c. if readerCount c = 0 then increment c else c) b = Some b"
    using assms(1) e by (cases b) (auto simp: at_elem_def chg_def fun_eq_iff)
  have rdy: "isReady c b = Some (M \<noteq> [])" by (rule isReady_hold [OF assms(1-4)])
  have v: "isValid (clock 0) (increment e) = isValid (clock 0) e"
    by (simp add: isValid_def increment_def)
  have se: "store b c = Some (increment e)" using assms(1) e by (simp add: chg_this)
  show ?thesis
  proof (cases "M = []")
    case True
    then show ?thesis
      using id rdy stop_here_hold [OF assms(1) _ assms(5,7)] e by (simp add: jumpToNextValidElement_def)
  next
    case False
    show ?thesis
    proof (cases "isValid (clock 0) e")
      case True
      have "jumpToNextValidElement fuel clock c sar b = Done (True, c, sar, b\<lparr>store := hold c st\<rparr>)"
        using id rdy se v True False assms(1) by (cases b) (simp add: jumpToNextValidElement_def)
      then show ?thesis unfolding if_not_P [OF False]
        using True e by (intro exI [of _ "[]"] exI [of _ c] exI [of _ M] exI [of _ 0]) simp
    next
      case inv: False
      from jump_loop_hold [OF assms(1-4) False assms(5,6), of "\<lambda>i. clock (Suc i)" sar] obtain K c' M' i where
        "jump_loop fuel (\<lambda>i. clock (Suc i)) (head b) c sar b = Done (True, c', sar, b\<lparr>store := hold c' st\<rparr>)"
        "M = K @ c' # M'" "c' = head b \<or> isValid (clock (Suc i)) (the (st c'))" by blast
      then show ?thesis unfolding if_not_P [OF False]
        using id rdy se v inv False
        by (intro exI [of _ "c # K"] exI [of _ c'] exI [of _ M'] exI [of _ "Suc i"])
           (simp add: jumpToNextValidElement_def)
    qed
  qed
qed

definition addrefs :: "addr list \<Rightarrow> (addr \<rightharpoonup> 'a element) \<Rightarrow> (addr \<rightharpoonup> 'a element)" where
  "addrefs R st = fold addref R st"

lemma addrefs_simps [simp]: "addrefs [] st = st" "addrefs (a # R) st = addrefs R (addref a st)"
  by (simp_all add: addrefs_def)

lemma addrefs_None [simp]: "(addrefs R st c = None) = (st c = None)"
  by (induction R arbitrary: st) simp_all

lemma addrefs_frame [simp]: "same_frame (addrefs R st') st = same_frame st' st"
  by (induction R arbitrary: st') simp_all

lemma below_addrefs [simp]: "below k (addrefs R st) = below k st"
  by (induction R arbitrary: st) (simp_all add: below_ref)

lemma linked_counter [simp]:
  "linked st L \<Longrightarrow> linked (addref a st) L" "linked st L \<Longrightarrow> linked (delref sp st) L"
  "linked st L \<Longrightarrow> linked (hold a st) L" "linked st L \<Longrightarrow> linked (addrefs R st) L"
  by (auto intro: same_frame_linked [of _ st])

lemma read_loop_hold:
  assumes "store b = hold c st" and "linked st (c # M)" and "last (c # M) = head b" and "distinct (c # M)"
    and "below 1 st" and "length M < fuel"
  shows "\<exists>R c' M'. read_loop fuel (head b) lim c buf b = Done (buf @ R, c', b\<lparr>store := hold c' (addrefs R st)\<rparr>)
         \<and> c # M = R @ c' # M' \<and> (R = [] \<or> length (buf @ R) \<le> lim)
         \<and> (lim \<le> length (buf @ R) \<or> c' = head b)"
  using assms
proof (induction fuel arbitrary: c M b st buf)
  case 0
  then show ?case by simp
next
  case (Suc fuel)
  have same: "b\<lparr>store := hold c st\<rparr> = b" using Suc.prems(1) by (cases b) simp
  have rdy: "isReady c b = Some (M \<noteq> [])" by (rule isReady_hold [OF Suc.prems(1-4)])
  show ?case
  proof (cases "length buf < lim \<and> M \<noteq> []")
    case False
    then have "read_loop (Suc fuel) (head b) lim c buf b = Done (buf, c, b\<lparr>store := hold c st\<rparr>)"
      and "lim \<le> length buf \<or> c = head b"
      using rdy same Suc.prems(3) by auto
    then show ?thesis by (intro exI [of _ "[]"] exI [of _ c] exI [of _ M]) simp
  next
    case True
    then obtain n M' where M: "M = n # M'" by (cases M) auto
    let ?st = "addref c st"
    have "st c \<noteq> None" using linked_in_store [OF Suc.prems(2), of c] by auto
    then have ref: "at_elem c incrementReferenceCount b = Some (b\<lparr>store := hold c ?st\<rparr>)"
      using Suc.prems(1) by (simp add: at_elem_chg addref_hold)
    have lst: "linked ?st (c # M)" using Suc.prems(2) by simp
    have upd: "updateIterator c (b\<lparr>store := hold c ?st\<rparr>) = Some (n, b\<lparr>store := hold n ?st\<rparr>)"
      using updateIterator_hold [of "b\<lparr>store := hold c ?st\<rparr>" c ?st M] lst Suc.prems(4,5) M
      by (simp add: below_ref)
    have ne: "c \<noteq> head b" using Suc.prems(3,4) M by (auto split: if_splits dest: last_in_set)
    from lst M have "linked ?st (n # M')" by auto
    with Suc.IH [of "b\<lparr>store := hold n ?st\<rparr>" n ?st M' "buf @ [c]"] Suc.prems M obtain R c' M'' where
      "read_loop fuel (head b) lim n (buf @ [c]) (b\<lparr>store := hold n ?st\<rparr>)
         = Done ((buf @ [c]) @ R, c', b\<lparr>store := hold c' (addrefs R ?st)\<rparr>)"
      "n # M' = R @ c' # M''" "R = [] \<or> length ((buf @ [c]) @ R) \<le> lim"
      "lim \<le> length ((buf @ [c]) @ R) \<or> c' = head b" by (auto simp: below_ref)
    then show ?thesis
      using True rdy ref upd ne M
      by (intro exI [of _ "c # R"] exI [of _ c'] exI [of _ M'']) auto
  qed
qed

section \<open>Choosing where to read\<close>

lemma chooseCurrent_fresh:
  assumes "store b (pivot b) \<noteq> None"
  shows "chooseCurrent fuel clock new_reader b
       = Done (True, \<lparr>r_current = Some (pivot b), stopAndResume = None\<rparr>, b\<lparr>store := hold (pivot b) (store b)\<rparr>)"
  using assms by (simp add: chooseCurrent_def new_reader_def attachStream_def at_elem_chg)

lemma restart_hold:
  assumes "store b = hold c st" and "linked st L" and "L = xs @ ys @ [head b]" and "distinct L"
    and "pivot b = hd (ys @ [head b])" and "c \<in> set L" and "below 1 st" and "length L \<le> fuel"
  shows "\<exists>ok K c' M'. restart_at_pivot fuel clock c (Some c) b
           = Done (ok, \<lparr>r_current = Some c', stopAndResume = (if ok then None else Some c')\<rparr>,
                   b\<lparr>store := (if ok then hold c' (delref (Some c) st) else addref c' (delref (Some c) st))\<rparr>)
         \<and> L = K @ c' # M' \<and> (ok \<or> c' = head b)
         \<and> (c' = head b \<or> (\<exists>i. isValid (clock i) (the (st c'))))"
proof -
  let ?st = "delref (Some c) st"
  have sc: "st c \<noteq> None" using linked_in_store [OF assms(2,6)] by auto
  have lv: "leaveStream c b = Some (b\<lparr>store := st\<rparr>)"
    using assms(1,7) sc by (simp add: leaveStream_rdec at_elem_chg rdec_hold)
  have ds: "del_smart (Some c) (b\<lparr>store := st\<rparr>) = Some (b\<lparr>store := ?st\<rparr>)"
    using sc by (simp add: del_smart_def delref_def at_elem_chg)
  obtain p M where pM: "ys @ [head b] = p # M" by (cases "ys @ [head b]") auto
  have p: "pivot b = p" using assms(5) pM by simp
  have lst: "linked ?st (p # M)"
    using linked_counter(2) [OF assms(2), of "Some c"] assms(3) pM by (simp add: linked_append)
  have lastp: "last (p # M) = head b" by (metis pM last_snoc)
  have d: "distinct (p # M)" using assms(3,4) pM by auto
  have len: "length M \<le> fuel" using assms(3,8) pM by (metis length_append length_Cons le_add2 le_trans le_SucI Suc_leD)
  let ?b = "b\<lparr>store := hold p ?st\<rparr>"
  have att: "attachStream (b\<lparr>store := ?st\<rparr>) = Some (p, ?b)"
    using linked_in_store [OF lst, of p] p by (auto simp: attachStream_def at_elem_chg)
  have "below 1 ?st" using assms(7) by (simp add: below_ref)
  note j = jump_hold [of ?b p ?st M fuel None clock, simplified, OF lst _ _ this [simplified] len]
  have valid: "isValid now (the (?st a)) = isValid now (the (st a))" if "a \<in> set L" for now a
  proof -
    from linked_in_store [OF assms(2) that] obtain e where "st a = Some e" by auto
    with same_frame_elem [of ?st st a e] show ?thesis by (auto simp: isValid_def)
  qed
  show ?thesis
  proof (cases "M = []")
    case True
    then have ph: "p = head b" using lastp by simp
    with j True lastp d have "jumpToNextValidElement fuel clock p None ?b
        = Done (False, p, Some p, b\<lparr>store := addref p (delref None ?st)\<rparr>)" by simp
    then show ?thesis
      using lv ds att ph assms(3) pM
      by (intro exI [of _ False] exI [of _ "xs @ ys"] exI [of _ "head b"] exI [of _ "[]"])
         (simp add: restart_at_pivot_def delref_def)
  next
    case False
    with j lastp d obtain K c' M' i where
      jr: "jumpToNextValidElement fuel clock p None ?b = Done (True, c', None, b\<lparr>store := hold c' ?st\<rparr>)"
      and dec: "p # M = K @ c' # M'" and v: "c' = head b \<or> isValid (clock i) (the (?st c'))" by auto
    have L: "L = (xs @ K) @ c' # M'" using assms(3) pM dec by simp
    then have "c' \<in> set L" by simp
    with v valid have "c' = head b \<or> (\<exists>i. isValid (clock i) (the (st c')))" by blast
    with L jr show ?thesis
      using lv ds att
      by (intro exI [of _ True] exI [of _ "xs @ K"] exI [of _ c'] exI [of _ M'])
         (simp add: restart_at_pivot_def)
  qed
qed

lemma chooseCurrent_resume:
  assumes "store b = st" and "linked st L" and "L = xs @ ys @ [head b]" and "distinct L"
    and "pivot b = hd (ys @ [head b])" and "c \<in> set L" and "below 1 st" and "length L \<le> fuel"
  shows "\<exists>ok K c' M'. chooseCurrent fuel clock \<lparr>r_current = Some c, stopAndResume = Some c\<rparr> b
           = Done (ok, \<lparr>r_current = Some c', stopAndResume = (if ok then None else Some c')\<rparr>,
                   b\<lparr>store := (if ok then hold c' (delref (Some c) st) else addref c' (delref (Some c) st))\<rparr>)
         \<and> L = K @ c' # M' \<and> (ok \<or> c' = head b)
         \<and> (if isValid (clock 0) (the (st c)) then ok \<and> c' = c
            else c' = head b \<or> (\<exists>i. isValid (clock (Suc i)) (the (st c'))))"
proof -
  let ?r = "\<lparr>r_current = Some c, stopAndResume = Some c\<rparr>"
  from linked_in_store [OF assms(2,6)] obtain e where e: "st c = Some e" by auto
  obtain K0 M0 where L: "L = K0 @ c # M0" using assms(6) by (auto simp: in_set_conv_decomp)
  have lc: "linked st (c # M0)" using assms(2) L by (simp add: linked_append)
  have lasth: "last (c # M0) = head b" using assms(3) L by (metis last_appendR last_snoc append_assoc list.distinct(1))
  have dc: "distinct (c # M0)" using assms(4) L by simp
  have len: "length M0 \<le> fuel" using assms(8) L by simp
  have hc: "at_elem c increment b = Some (b\<lparr>store := hold c st\<rparr>)"
    using assms(1) e by (simp add: at_elem_chg)
  show ?thesis
  proof (cases "isValid (clock 0) e")
    case True
    have "del_smart (Some c) (b\<lparr>store := hold c st\<rparr>) = Some (b\<lparr>store := hold c (delref (Some c) st)\<rparr>)"
      using e by (simp add: del_smart_hold)
    then have "chooseCurrent fuel clock ?r b
        = Done (True, \<lparr>r_current = Some c, stopAndResume = None\<rparr>, b\<lparr>store := hold c (delref (Some c) st)\<rparr>)"
      using assms(1) e True hc by (simp add: chooseCurrent_def)
    then show ?thesis
      using L e True by (intro exI [of _ True] exI [of _ K0] exI [of _ c] exI [of _ M0]) simp
  next
    case False
    then have "data e \<noteq> None" by (auto simp: isValid_def)
    with lc e have M0: "M0 \<noteq> []" and ne: "nextp e \<noteq> None" by (auto simp: neq_Nil_conv split: if_splits) (cases M0; auto)+
    have ch: "c \<noteq> head b" using lasth dc M0 by (auto dest: last_in_set)
    have "pivot b \<in> set L" using assms(3,5) by (cases ys) auto
    then obtain pe where pe: "st (pivot b) = Some pe" using linked_in_store [OF assms(2)] by blast
    obtain pe' where pe': "hold c st (pivot b) = Some pe'" using pe by (cases "pivot b = c") (auto simp: chg_this)
    define st1 where "st1 = hold c st"
    have hc1: "at_elem c increment b = Some (b\<lparr>store := st1\<rparr>)" and pe1: "st1 (pivot b) = Some pe'"
      using hc pe' by (simp_all add: st1_def)
    have choose: "chooseCurrent fuel clock ?r b =
       (if pivot b \<noteq> head b \<and> timedOut e > timedOut pe' then
          (case jumpToNextValidElement fuel (\<lambda>i. clock (Suc i)) c (Some c) (b\<lparr>store := hold c st\<rparr>) of
             Done (False, c', sar', b2) \<Rightarrow> Done (False, \<lparr>r_current = Some c', stopAndResume = sar'\<rparr>, b2)
           | Done (True, c', sar', b2) \<Rightarrow>
               (case del_smart sar' b2 of None \<Rightarrow> Faulted
                | Some b3 \<Rightarrow> Done (True, \<lparr>r_current = Some c', stopAndResume = None\<rparr>, b3))
           | Faulted \<Rightarrow> Faulted | Out_of_fuel \<Rightarrow> Out_of_fuel)
        else restart_at_pivot fuel (\<lambda>i. clock (Suc i)) c (Some c) (b\<lparr>store := hold c st\<rparr>))"
      unfolding st1_def [symmetric] using assms(1) e False ne ch hc1 pe1
      by (cases "nextp e"; cases "pivot b = head b") (simp_all add: chooseCurrent_def)
    show ?thesis
    proof (cases "pivot b \<noteq> head b \<and> timedOut e > timedOut pe'")
      case True
      from jump_hold [of "b\<lparr>store := hold c st\<rparr>" c st M0 fuel "Some c" "\<lambda>i. clock (Suc i)"] lc lasth dc assms(7) len e M0
      obtain K c' M' i where
        j: "jumpToNextValidElement fuel (\<lambda>i. clock (Suc i)) c (Some c) (b\<lparr>store := hold c st\<rparr>)
             = Done (True, c', Some c, b\<lparr>store := hold c' st\<rparr>)"
        and dec: "c # M0 = K @ c' # M'" and v: "c' = head b \<or> isValid (clock (Suc i)) (the (st c'))"
        by auto
      have "del_smart (Some c) (b\<lparr>store := hold c' st\<rparr>) = Some (b\<lparr>store := hold c' (delref (Some c) st)\<rparr>)"
        using e by (simp add: del_smart_hold)
      then show ?thesis
        unfolding choose using True j dec v L False e
        by (intro exI [of _ True] exI [of _ "K0 @ K"] exI [of _ c'] exI [of _ M']) auto
    next
      case nj: False
      from restart_hold [of "b\<lparr>store := hold c st\<rparr>" c st L xs ys fuel "\<lambda>i. clock (Suc i)"] assms(2-8)
      show ?thesis unfolding choose if_not_P [OF nj] using False e by simp
    qed
  qed
qed

section \<open>A call of bufferedReader\<close>

text \<open>
  A reader between two calls: it has not read yet, or it stands at an element of the list and
  keeps it alive with its smart pointer.
\<close>

definition reader_ok :: "reader \<Rightarrow> addr set \<Rightarrow> bool" where
  "reader_ok r A \<longleftrightarrow> r = new_reader \<or> (\<exists>c \<in> A. r = \<lparr>r_current = Some c, stopAndResume = Some c\<rparr>)"

text \<open>Where a call starts to read.\<close>

definition start_ok :: "(nat \<Rightarrow> u64) \<Rightarrow> reader \<Rightarrow> 'a cbuf \<Rightarrow> addr \<Rightarrow> bool" where
  "start_ok clock r b c0 \<longleftrightarrow>
     (case r_current r of
        None \<Rightarrow> c0 = pivot b
      | Some c \<Rightarrow> if isValid (clock 0) (the (store b c)) then c0 = c
                 else c0 = head b \<or> (\<exists>i. isValid (clock (Suc i)) (the (store b c0))))"

lemma choose_run:
  assumes "cb_inv b xs ys" and "reader_ok r (set (xs @ ys @ [head b]))" and "below 1 (store b)"
    and "length (xs @ ys @ [head b]) \<le> fuel"
  shows "\<exists>ok K c M. chooseCurrent fuel clock r b
           = Done (ok, \<lparr>r_current = Some c, stopAndResume = (if ok then None else Some c)\<rparr>,
               b\<lparr>store := (if ok then hold c (delref (stopAndResume r) (store b))
                             else addref c (delref (stopAndResume r) (store b)))\<rparr>)
         \<and> xs @ ys @ [head b] = K @ c # M \<and> (ok \<or> c = head b) \<and> start_ok clock r b c"
proof (cases "r = new_reader")
  case True
  have l: "linked (store b) (xs @ ys @ [head b])" and p: "pivot b = hd (ys @ [head b])"
    using assms(1) by (simp_all add: cb_inv_def)
  obtain M where M: "ys @ [head b] = pivot b # M" using p by (cases ys) auto
  have "store b (pivot b) \<noteq> None" using linked_in_store [OF l, of "pivot b"] M by auto
  from chooseCurrent_fresh [OF this] M True show ?thesis
    by (intro exI [of _ True] exI [of _ xs] exI [of _ "pivot b"] exI [of _ M])
       (simp add: new_reader_def delref_def start_ok_def)
next
  case False
  with assms(2) obtain c where c: "c \<in> set (xs @ ys @ [head b])" and r: "r = \<lparr>r_current = Some c, stopAndResume = Some c\<rparr>"
    by (auto simp: reader_ok_def)
  have inv: "linked (store b) (xs @ ys @ [head b])" "distinct (xs @ ys @ [head b])" "pivot b = hd (ys @ [head b])"
    using assms(1) by (simp_all add: cb_inv_def)
  from chooseCurrent_resume [OF refl inv(1) refl inv(2,3) c assms(3,4), of clock] obtain ok K c' M where
    run: "chooseCurrent fuel clock \<lparr>r_current = Some c, stopAndResume = Some c\<rparr> b
       = Done (ok, \<lparr>r_current = Some c', stopAndResume = (if ok then None else Some c')\<rparr>,
           b\<lparr>store := (if ok then hold c' (delref (Some c) (store b)) else addref c' (delref (Some c) (store b)))\<rparr>)"
    and L: "xs @ ys @ [head b] = K @ c' # M" and h: "ok \<or> c' = head b"
    and v: "if isValid (clock 0) (the (store b c)) then ok \<and> c' = c
            else c' = head b \<or> (\<exists>i. isValid (clock (Suc i)) (the (store b c')))"
    by blast
  have "start_ok clock r b c'" using v by (simp add: start_ok_def r split: if_splits)
  with run L h show ?thesis
    unfolding r by (intro exI [of _ ok] exI [of _ K] exI [of _ c'] exI [of _ M]) simp
qed

lemma bufferedReader_run:
  assumes inv: "cb_inv b xs ys" and rd: "reader_ok r (set (xs @ ys @ [head b]))" and room: "below 2 (store b)"
    and fuel: "length (xs @ ys @ [head b]) \<le> fuel"
  shows "\<exists>K R c M. bufferedReader fuel clock limit r b
           = Done (int (length R), R, \<lparr>r_current = Some c, stopAndResume = Some c\<rparr>,
               b\<lparr>store := addref c (addrefs R (delref (stopAndResume r) (store b)))\<rparr>)
         \<and> xs @ ys @ [head b] = K @ R @ c # M
         \<and> length R \<le> nat (if limit < 0 then INT_MAX else limit)
         \<and> (length R = nat (if limit < 0 then INT_MAX else limit) \<or> c = head b)
         \<and> start_ok clock r b (hd (R @ [c]))"
proof -
  let ?p = "pivot b" and ?st = "hold (pivot b) (store b)" and ?lim = "nat (if limit < 0 then INT_MAX else limit)"
  let ?b1 = "b\<lparr>store := ?st\<rparr>" and ?dr = "delref (stopAndResume r) (store b)"
  from inv have l: "linked (store b) (xs @ ys @ [head b])" and p: "?p = hd (ys @ [head b])"
    and d: "distinct (xs @ ys @ [head b])" by (simp_all add: cb_inv_def)
  have sp: "store b ?p \<noteq> None" using linked_in_store [OF l, of ?p] p by (cases ys) auto
  have lock: "at_elem ?p increment b = Some ?b1" using sp by (simp add: at_elem_chg)
  have inv1: "cb_inv ?b1 xs ys" using inv by (simp add: cb_inv_def)
  have b1: "below 1 (store ?b1)" using below_hold [of 1 "store b" ?p] room by (simp add: numeral_2_eq_2)
  have b1': "below 1 ?dr" using below_mono [OF room, of 1] by (simp add: below_ref)
  have rd1: "reader_ok r (set (xs @ ys @ [head ?b1]))" and fuel1: "length (xs @ ys @ [head ?b1]) \<le> fuel"
    using rd fuel by simp_all
  from choose_run [OF inv1 rd1 b1 fuel1, of clock] obtain ok K c M where
    ch1: "chooseCurrent fuel clock r ?b1
           = Done (ok, \<lparr>r_current = Some c, stopAndResume = (if ok then None else Some c)\<rparr>,
               ?b1\<lparr>store := (if ok then hold c (delref (stopAndResume r) (store ?b1))
                              else addref c (delref (stopAndResume r) (store ?b1)))\<rparr>)"
    and L1: "xs @ ys @ [head ?b1] = K @ c # M" and hd1: "ok \<or> c = head ?b1" and st1: "start_ok clock r ?b1 c"
    by blast
  have ch: "chooseCurrent fuel clock r ?b1
           = Done (ok, \<lparr>r_current = Some c, stopAndResume = (if ok then None else Some c)\<rparr>,
               b\<lparr>store := (if ok then hold c (delref (stopAndResume r) ?st) else addref c (delref (stopAndResume r) ?st))\<rparr>)"
    and L: "xs @ ys @ [head b] = K @ c # M" and hd: "ok \<or> c = head b"
    using ch1 L1 hd1 by simp_all
  have sc: "store b c \<noteq> None" using linked_in_store [OF l, of c] L by auto
  have va: "isValid now (the (?st a)) = isValid now (the (store b a))" for now a
    by (cases "a = pivot b"; cases "store b a") (simp_all add: chg_def isValid_def increment_def)
  have st0: "start_ok clock r b c"
    using st1 by (cases "r_current r") (simp_all add: start_ok_def va split: if_splits)
  have lc: "linked ?dr (c # M)" using linked_counter(2) [OF l, of "stopAndResume r"] L by (simp add: linked_append)
  have lastc: "last (c # M) = head b" by (metis L append_assoc last_appendR last_snoc list.distinct(1))
  have dc: "distinct (c # M)" using d L by simp
  show ?thesis
  proof (cases ok)
    case False
    have unlock: "at_elem ?p decrementCounter (b\<lparr>store := addref c (hold ?p ?dr)\<rparr>) = Some (b\<lparr>store := addref c ?dr\<rparr>)"
      using sp by (simp add: at_elem_chg addref_hold)
    have "M = []" using hd False lastc dc by (cases M) (auto split: if_splits dest: last_in_set)
    then show ?thesis
      using lock ch False unlock L hd st0
      by (intro exI [of _ K] exI [of _ "[]"] exI [of _ c] exI [of _ M])
         (simp add: bufferedReader_def Let_def delref_hold)
  next
    case True
    let ?b3 = "b\<lparr>store := hold c ?dr\<rparr>"
    have unlock: "at_elem ?p decrementCounter (b\<lparr>store := hold c (hold ?p ?dr)\<rparr>) = Some ?b3"
      using sp by (simp add: at_elem_chg hold_commute [of c ?p])
    have "length M < fuel" using fuel unfolding L by simp
    from read_loop_hold [of ?b3 c ?dr M fuel ?lim "[]", simplified, OF lc _ _ b1' [simplified] this] lastc dc
    obtain R c' M' where
      rl: "read_loop fuel (head b) ?lim c [] ?b3 = Done (R, c', b\<lparr>store := hold c' (addrefs R ?dr)\<rparr>)"
      and RM: "c # M = R @ c' # M'" and bnd: "R = [] \<or> length R \<le> ?lim" "?lim \<le> length R \<or> c' = head b"
      by auto
    have "store b c' \<noteq> None" using linked_in_store [OF l, of c'] L RM by auto
    then have "addrefs R ?dr c' \<noteq> None" by simp
    then have "stop_here c' None (b\<lparr>store := hold c' (addrefs R ?dr)\<rparr>) = Some (b\<lparr>store := addref c' (addrefs R ?dr)\<rparr>)"
      using stop_here_hold [of "b\<lparr>store := hold c' (addrefs R ?dr)\<rparr>" c' "addrefs R ?dr" None] b1'
      by (simp add: delref_def)
    moreover have "hd (R @ [c']) = c" using RM by (cases R) auto
    ultimately show ?thesis
      using lock ch True unlock rl L RM bnd st0
      by (intro exI [of _ K] exI [of _ R] exI [of _ c'] exI [of _ M'])
         (auto simp: bufferedReader_def Let_def delref_hold)
  qed
qed

end
