(* ===== verification/Buffer_Collector.thy ===== *)
theory Buffer_Collector
  imports Buffer_Reader
begin

text \<open>
  The garbage collector of the common buffer: what a pass of \<open>clearQueue\<close> (\<open>IteratorGarbage.h\<close>)
  frees, how far it moves the pivot, and what the destructor of the queue gives back.
\<close>

section \<open>The destructor of the queue\<close>

text \<open>
  \<open>~CommonBuffer\<close> walks from \<open>tail\<close> to the element without successor and frees what it leaves, then
  frees \<open>head\<close>. Freeing an address that holds no element (a double free) is a fault.
\<close>

definition free_elem :: "addr \<Rightarrow> (addr \<rightharpoonup> 'a element) \<Rightarrow> (addr \<rightharpoonup> 'a element) option" where
  "free_elem a st = (if st a = None then None else Some (st(a := None)))"

fun destroy_loop :: "nat \<Rightarrow> addr \<Rightarrow> (addr \<rightharpoonup> 'a element) \<Rightarrow> (addr \<rightharpoonup> 'a element) run" where
  "destroy_loop 0 toDelete st = Out_of_fuel"
| "destroy_loop (Suc fuel) toDelete st =
     (case st toDelete of
        None \<Rightarrow> Faulted
      | Some e \<Rightarrow>
          (case nextp e of
             None \<Rightarrow> Done st
           | Some n \<Rightarrow>
               (case free_elem toDelete st of
                  None \<Rightarrow> Faulted
                | Some st' \<Rightarrow> destroy_loop fuel n st')))"

definition destroy_buffer :: "nat \<Rightarrow> 'a cbuf \<Rightarrow> (addr \<rightharpoonup> 'a element) run" where
  "destroy_buffer fuel b =
     (case destroy_loop fuel (tail b) (store b) of
        Done st \<Rightarrow> (case free_elem (head b) st of None \<Rightarrow> Faulted | Some st' \<Rightarrow> Done st')
      | Faulted \<Rightarrow> Faulted
      | Out_of_fuel \<Rightarrow> Out_of_fuel)"

lemma destroy_loop_run:
  assumes "linked st (L @ [h])" and "distinct (L @ [h])" and "length L < fuel"
  shows "destroy_loop fuel (hd (L @ [h])) st = Done (st |` (- set L))"
  using assms
proof (induction L arbitrary: st fuel)
  case Nil
  then obtain n where "fuel = Suc n" by (cases fuel) auto
  with Nil show ?case by (auto simp: restrict_map_def)
next
  case (Cons a L)
  from Cons.prems(3) obtain n where n: "fuel = Suc n" "length L < n" by (cases fuel) auto
  from Cons.prems(1) obtain e where e: "st a = Some e" "nextp e = Some (hd (L @ [h]))" "linked st (L @ [h])"
    by (auto simp: linked_Cons)
  have "linked (st(a := None)) (L @ [h]) = linked st (L @ [h])"
    by (rule linked_cong) (use Cons.prems(2) in auto)
  with e(3) have l2: "linked (st(a := None)) (L @ [h])" by simp
  have "destroy_loop n (hd (L @ [h])) (st(a := None)) = Done ((st(a := None)) |` (- set L))"
    by (rule Cons.IH [OF l2 _ n(2)]) (use Cons.prems(2) in simp)
  moreover have "(st(a := None)) |` (- set L) = st |` (- set (a # L))"
    by (auto simp: restrict_map_def fun_eq_iff)
  ultimately show ?case using n e by (simp add: free_elem_def)
qed

lemma destroy_buffer_run:
  assumes "cb_inv b xs ys" and "length (xs @ ys) < fuel"
  shows "destroy_buffer fuel b = Done (store b |` (- set (xs @ ys @ [head b])))"
proof -
  from assms(1) have l: "linked (store b) ((xs @ ys) @ [head b])" and d: "distinct ((xs @ ys) @ [head b])"
    and t: "tail b = hd ((xs @ ys) @ [head b])" by (simp_all add: cb_inv_def)
  have "(store b |` (- set (xs @ ys))) (head b) \<noteq> None"
    using linked_in_store [OF l, of "head b"] d by (auto simp: restrict_map_def)
  moreover have "(store b |` (- set (xs @ ys)))(head b := None) = store b |` (- set (xs @ ys @ [head b]))"
    by (auto simp: restrict_map_def fun_eq_iff)
  ultimately show ?thesis
    using destroy_loop_run [OF l d assms(2)] t by (simp add: destroy_buffer_def free_elem_def)
qed

section \<open>The collector's hold\<close>

text \<open>
  The collector holds one element: the pivot, or its successor once it has stepped off a pivot that
  some reader still holds (\<open>lastDiv\<close> remembers that pivot).
\<close>

definition gc_ok :: "garbage_iter \<Rightarrow> 'a cbuf \<Rightarrow> addr list \<Rightarrow> bool" where
  "gc_ok g b ys \<longleftrightarrow> (if lastDiv g = Some (pivot b) then (\<exists>q. ys = pivot b # g_current g # q)
                     else g_current g = pivot b)"

definition held_by_readers :: "garbage_iter \<Rightarrow> 'a cbuf \<Rightarrow> addr \<Rightarrow> u32" where
  "held_by_readers g b a = readerCount (the (store b a)) - (if a = g_current g then 1 else 0)"

lemma getIteratorGarbage_run:
  assumes "cb_inv b xs ys"
  shows "\<exists>b'. getIteratorGarbage b = Some (\<lparr>g_current = pivot b, lastDiv = None\<rparr>, b')
    \<and> cb_inv b' xs ys \<and> gc_ok \<lparr>g_current = pivot b, lastDiv = None\<rparr> b' ys \<and> b' = b\<lparr>store := hold (pivot b) (store b)\<rparr>"
proof -
  have "store b (pivot b) \<noteq> None"
    using assms linked_in_store [of "store b" "xs @ ys @ [head b]" "pivot b"] by (cases ys) (auto simp: cb_inv_def)
  then show ?thesis
    using assms by (simp add: getIteratorGarbage_def at_elem_chg gc_ok_def cb_inv_def)
qed

text \<open>A store with the collector's hold on \<open>c\<close> taken away.\<close>

lemma inc_dec [simp]: "increment (decrementCounter e) = e"
  by (cases e) (simp add: decrementCounter_def increment_def)

lemma hold_dec: "hold c (chg c decrementCounter st) = st"
  by (simp add: chg_same chg_id)

lemma held_by_readers_chg:
  "st a \<noteq> None \<Longrightarrow> store b = hold (g_current g) st \<Longrightarrow> held_by_readers g b a = readerCount (the (st a))"
  by (cases "a = g_current g") (auto simp: held_by_readers_def chg_this increment_def)

text \<open>One call of \<open>markOldData\<close> with the pivot at \<open>p\<close> and a successor that is not \<open>head\<close>.\<close>

lemma markOldData_run:
  assumes inv: "cb_inv b xs (p # n # ys)" and g: "gc_ok g b (p # n # ys)" and st: "store b = hold (g_current g) st0"
    and old: "\<not> isValid now (the (st0 p))"
  shows "markOldData now g b =
     (let b' = b\<lparr>store := hold n st0\<rparr>; g' = \<lparr>g_current = n, lastDiv = Some p\<rparr>
      in if readerCount (the (st0 p)) = 0 then Some (True, g', b'\<lparr>pivot := n\<rparr>) else Some (False, g', b'))"
proof -
  from inv have l: "linked (store b) (xs @ p # n # (ys @ [head b]))" and d: "distinct (xs @ p # n # (ys @ [head b]))"
    and pv: "pivot b = p" by (simp_all add: cb_inv_def)
  from l obtain e0 where e0: "store b p = Some e0" "nextp e0 = Some n" and ln: "linked (store b) (n # ys @ [head b])"
    by (auto simp: linked_append linked_Cons)
  obtain ep where ep: "st0 p = Some ep" using e0 st chg_None [of "g_current g" increment st0 p] by fastforce
  have "store b n \<noteq> None" using linked_in_store [OF ln, of n] by auto
  then have n0: "st0 n \<noteq> None" by (simp add: st)
  have ne: "p \<noteq> n" "p \<noteq> head b" "n \<noteq> head b" using d by auto
  have v: "isValid now e0 = isValid now (the (st0 p))"
    using e0 ep st by (cases "p = g_current g") (auto simp: chg_this isValid_def increment_def)
  have fin: "(hold n st0) p = Some ep" using ne ep by simp
  show ?thesis
  proof (cases "lastDiv g = Some p")
    case True
    then have gc: "g_current g = n" using g pv by (simp add: gc_ok_def)
    then have "\<lparr>g_current = n, lastDiv = Some p\<rparr> = g" "b\<lparr>store := hold n st0\<rparr> = b" "store b p = Some ep"
      using True st fin by simp_all
    then show ?thesis
      using e0 old v ne True pv ep by (simp add: markOldData_def Let_def)
  next
    case False
    then have gc: "g_current g = p" using g pv by (simp add: gc_ok_def)
    have a1: "at_elem n increment b = Some (b\<lparr>store := hold n (hold p st0)\<rparr>)"
      using \<open>store b n \<noteq> None\<close> st gc by (simp add: at_elem_chg)
    have a2: "at_elem p decrementCounter (b\<lparr>store := hold n (hold p st0)\<rparr>) = Some (b\<lparr>store := hold n st0\<rparr>)"
      using ep ne by (simp add: at_elem_chg chg_commute [of n p] chg_same chg_id)
    show ?thesis
      using e0 old v ne False pv fin ep a1 a2 by (simp add: markOldData_def Let_def)
  qed
qed

lemma markOldData_stays:
  assumes inv: "cb_inv b xs ys"
    and stay: "length ys \<le> 1 \<or> isValid now (the (store b (pivot b)))"
  shows "markOldData now g b = Some (False, g, b)"
proof -
  let ?L = "ys @ [head b]"
  from inv have l: "linked (store b) (xs @ ?L)" and pv: "pivot b = hd ?L" by (simp_all add: cb_inv_def)
  show ?thesis
  proof (cases ys)
    case Nil
    then show ?thesis using l pv by (auto simp: linked_append markOldData_def Let_def)
  next
    case (Cons p q)
    then show ?thesis
      using l pv stay by (cases q) (auto simp: linked_append linked_Cons markOldData_def Let_def)
  qed
qed

section \<open>Moving the pivot\<close>

lemma mark_loop_correct:
  assumes "cb_inv b xs ys" and "gc_ok g b ys" and "store b = hold (g_current g) st0" and "length ys < fuel"
  shows "\<exists>zs ws g' b'. mark_loop fuel clock g b = Done (g', b') \<and> ys = zs @ ws \<and> (ys \<noteq> [] \<longrightarrow> ws \<noteq> [])
    \<and> cb_inv b' (xs @ zs) ws \<and> gc_ok g' b' ws
    \<and> b' = b\<lparr>store := hold (g_current g') st0, pivot := pivot b'\<rparr>
    \<and> (\<forall>i<length zs. \<not> isValid (clock i) (the (st0 (zs ! i))) \<and> readerCount (the (st0 (zs ! i))) = 0)
    \<and> (length ws \<le> 1 \<or> isValid (clock (length zs)) (the (st0 (hd ws))) \<or> readerCount (the (st0 (hd ws))) \<noteq> 0)"
  using assms
proof (induction ys arbitrary: xs g b clock fuel)
  case Nil
  then obtain m where "fuel = Suc m" by (cases fuel) auto
  with Nil show ?case
    using markOldData_stays [OF Nil.prems(1), of "clock 0" g]
    by (intro exI [of _ "[]"] exI [of _ g] exI [of _ b]) auto
next
  case (Cons p ys)
  from Cons.prems(4) obtain m where m: "fuel = Suc m" "length ys < m" by (cases fuel) auto
  have pv: "pivot b = p" using Cons.prems(1) by (simp add: cb_inv_def)
  have "store b p \<noteq> None"
    using linked_in_store [of "store b" "xs @ (p # ys) @ [head b]" p] Cons.prems(1) by (auto simp: cb_inv_def)
  then have sp: "st0 p \<noteq> None" by (simp add: Cons.prems(3))
  have v: "isValid now (the (store b p)) = isValid now (the (st0 p))" for now
    using sp Cons.prems(3) by (cases "p = g_current g") (auto simp: chg_this isValid_def increment_def)
  show ?case
  proof (cases "ys = [] \<or> isValid (clock 0) (the (st0 p))")
    case True
    then have "length (p # ys) \<le> 1 \<or> isValid (clock 0) (the (store b (pivot b)))" by (auto simp: v pv)
    from markOldData_stays [OF Cons.prems(1) this, of g] m True Cons.prems show ?thesis
      by (intro exI [of _ "[]"] exI [of _ "p # ys"] exI [of _ g] exI [of _ b]) auto
  next
    case False
    then obtain n q where q: "ys = n # q" by (cases ys) auto
    let ?g = "\<lparr>g_current = n, lastDiv = Some p\<rparr>" and ?b = "b\<lparr>store := hold n st0\<rparr>"
    have inv: "cb_inv b xs (p # n # q)" and g: "gc_ok g b (p # n # q)" using Cons.prems q by simp_all
    have old: "\<not> isValid (clock 0) (the (st0 p))" using False by simp
    note step = markOldData_run [OF inv g Cons.prems(3) old]
    have f: "same_frame (hold n st0) (store b)"
      using Cons.prems(3) by (metis keeps_counters(1) same_frame_chg same_frame_refl)
    have l': "linked (hold n st0) (xs @ (p # n # q) @ [head b])"
      using same_frame_linked [OF f] inv by (simp add: cb_inv_def)
    show ?thesis
    proof (cases "readerCount (the (st0 p)) = 0")
      case True
      let ?b' = "?b\<lparr>pivot := n\<rparr>"
      have "n \<noteq> p" using inv by (auto simp: cb_inv_def)
      moreover have inv': "cb_inv ?b' (xs @ [p]) ys" using inv l' q by (cases xs) (auto simp: cb_inv_def)
      ultimately have "gc_ok ?g ?b' ys" "store ?b' = hold (g_current ?g) st0" by (auto simp: gc_ok_def)
      from Cons.IH [OF inv' this m(2), of "\<lambda>i. clock (Suc i)"] obtain zs ws g' b' where
        run: "mark_loop m (\<lambda>i. clock (Suc i)) ?g ?b' = Done (g', b')" and ys: "ys = zs @ ws" "ys \<noteq> [] \<longrightarrow> ws \<noteq> []"
        and i': "cb_inv b' ((xs @ [p]) @ zs) ws" "gc_ok g' b' ws"
        and b': "b' = ?b'\<lparr>store := hold (g_current g') st0, pivot := pivot b'\<rparr>"
        and old': "\<forall>i<length zs. \<not> isValid (clock (Suc i)) (the (st0 (zs ! i))) \<and> readerCount (the (st0 (zs ! i))) = 0"
        and e: "length ws \<le> 1 \<or> isValid (clock (Suc (length zs))) (the (st0 (hd ws))) \<or> readerCount (the (st0 (hd ws))) \<noteq> 0"
        by blast
      have "\<forall>i<length (p # zs). \<not> isValid (clock i) (the (st0 ((p # zs) ! i))) \<and> readerCount (the (st0 ((p # zs) ! i))) = 0"
        using old' old True by (auto simp: less_Suc_eq_0_disj)
      moreover have "b' = b\<lparr>store := hold (g_current g') st0, pivot := pivot b'\<rparr>" by (subst b') simp
      moreover have "mark_loop fuel clock g b = Done (g', b')" using step True m run by (simp add: Let_def)
      ultimately show ?thesis
        using ys i' e q
        by (intro exI [of _ "p # zs"] exI [of _ ws] exI [of _ g'] exI [of _ b']) auto
    next
      case nz: False
      have "cb_inv ?b xs (p # ys)" "gc_ok ?g ?b (p # ys)" using inv l' q pv by (simp_all add: cb_inv_def gc_ok_def)
      moreover have "mark_loop fuel clock g b = Done (?g, ?b)" using step nz m by (simp add: Let_def)
      ultimately show ?thesis
        using nz by (intro exI [of _ "[]"] exI [of _ "p # ys"] exI [of _ ?g] exI [of _ ?b]) simp
    qed
  qed
qed

section \<open>A pass of the collector\<close>

lemma same_up_to_links_elem:
  assumes "same_up_to_links st' st D" and "a \<notin> D" and "st a = Some e"
  shows "\<exists>n. st' a = Some (e\<lparr>nextp := n\<rparr>)"
proof -
  from assms have "map_option (\<lambda>e. e\<lparr>nextp := None\<rparr>) (st' a) = Some (e\<lparr>nextp := None\<rparr>)"
    by (simp add: same_up_to_links_def)
  then obtain e' where e': "st' a = Some e'" "e'\<lparr>nextp := None\<rparr> = e\<lparr>nextp := None\<rparr>" by auto
  have "e' = e\<lparr>nextp := nextp e'\<rparr>" using e'(2) by (cases e, cases e') simp
  with e'(1) show ?thesis by auto
qed

lemma clearQueue_correct:
  assumes inv: "cb_inv b xs ys" and g: "gc_ok g b ys" and fuel: "length xs < fuel" "length ys < fuel"
  shows "\<exists>zs ws g' b' st1. clearQueue fuel clock g b = Done (g', b')
    \<and> ys = zs @ ws \<and> (ys \<noteq> [] \<longrightarrow> ws \<noteq> [])
    \<and> cb_inv b' (filter (\<lambda>a. ref_of b a \<noteq> 0) xs @ zs) ws \<and> gc_ok g' b' ws \<and> head b' = head b
    \<and> same_up_to_links st1 (store b) (set (filter (\<lambda>a. ref_of b a = 0) xs))
    \<and> store b' = hold (g_current g') (chg (g_current g) decrementCounter st1)
    \<and> (\<forall>i<length zs. \<not> isValid (clock i) (the (store b (zs ! i))) \<and> held_by_readers g b (zs ! i) = 0)
    \<and> (length ws \<le> 1 \<or> isValid (clock (length zs)) (the (store b (hd ws))) \<or> held_by_readers g b (hd ws) \<noteq> 0)"
proof -
  let ?live = "filter (\<lambda>a. ref_of b a \<noteq> 0) xs" and ?dead = "set (filter (\<lambda>a. ref_of b a = 0) xs)" and ?c = "g_current g"
  from clearUnusedData_correct [OF inv fuel(1)] obtain b1 where
    cl: "clearUnusedData fuel b = Done b1" and i1: "cb_inv b1 ?live ys" and h1: "head b1 = head b" and p1: "pivot b1 = pivot b"
    and s1: "same_up_to_links (store b1) (store b) ?dead" by blast
  let ?st = "chg ?c decrementCounter (store b1)"
  have st: "store b1 = hold ?c ?st" by (simp add: hold_dec)
  have g1: "gc_ok g b1 ys" using g p1 by (simp add: gc_ok_def)
  have alive: "\<exists>n. store b1 a = Some ((the (store b a))\<lparr>nextp := n\<rparr>)" if "a \<in> set (ys @ [head b])" for a
  proof -
    have "a \<notin> ?dead" "\<exists>e. store b a = Some e"
      using that inv linked_in_store [of "store b" "xs @ ys @ [head b]" a] by (auto simp: cb_inv_def)
    then show ?thesis using same_up_to_links_elem [OF s1, of a] by auto
  qed
  have val: "isValid now (the (?st a)) = isValid now (the (store b a))"
    and rdr: "readerCount (the (?st a)) = held_by_readers g b a" if "a \<in> set ys" for now a
    using alive [of a] that
    by (cases "a = ?c"; auto simp: chg_this isValid_def decrementCounter_def held_by_readers_def)+
  have rdy: "g_isReady g b1 = Some (ys \<noteq> [])"
  proof (cases ys)
    case Nil
    then show ?thesis using i1 g1 by (auto simp: g_isReady_def gc_ok_def cb_inv_def linked_append split: if_splits)
  next
    case (Cons p q)
    then have "?c \<in> set ys" using g1 i1 by (auto simp: gc_ok_def cb_inv_def split: if_splits)
    then obtain A B where AB: "ys = A @ ?c # B" by (meson split_list)
    then have "linked (store b1) ((?live @ A) @ ?c # (B @ [head b1]))" and "?c \<noteq> head b1" using i1 by (auto simp: cb_inv_def)
    then show ?thesis using Cons by (simp only: linked_append) (auto simp: linked_Cons g_isReady_def)
  qed
  show ?thesis
  proof (cases "ys = []")
    case True
    with cl rdy i1 g1 h1 s1 st show ?thesis
      by (intro exI [of _ "[]"] exI [of _ g] exI [of _ b1] exI [of _ "store b1"]) (simp add: clearQueue_def)
  next
    case False
    from mark_loop_correct [OF i1 g1 st fuel(2), of clock] obtain zs ws g' b' where
      run: "mark_loop fuel clock g b1 = Done (g', b')" and ys: "ys = zs @ ws" "ys \<noteq> [] \<longrightarrow> ws \<noteq> []"
      and i2: "cb_inv b' (?live @ zs) ws" "gc_ok g' b' ws" and b': "b' = b1\<lparr>store := hold (g_current g') ?st, pivot := pivot b'\<rparr>"
      and old: "\<forall>i<length zs. \<not> isValid (clock i) (the (?st (zs ! i))) \<and> readerCount (the (?st (zs ! i))) = 0"
      and e: "length ws \<le> 1 \<or> isValid (clock (length zs)) (the (?st (hd ws))) \<or> readerCount (the (?st (hd ws))) \<noteq> 0"
      by blast
    have f: "head b' = head b" "store b' = hold (g_current g') ?st" by (subst b', simp add: h1)+
    have "hd ws \<in> set ys" using ys False by auto
    with e have e2: "length ws \<le> 1 \<or> isValid (clock (length zs)) (the (store b (hd ws))) \<or> held_by_readers g b (hd ws) \<noteq> 0"
      by (simp only: val rdr)
    have "\<not> isValid (clock i) (the (store b (zs ! i))) \<and> held_by_readers g b (zs ! i) = 0" if "i < length zs" for i
    proof -
      have "zs ! i \<in> set ys" using ys that by simp
      with old that show ?thesis by (metis val rdr)
    qed
    with cl rdy False run ys i2 f s1 e2 show ?thesis
      by (intro exI [of _ zs] exI [of _ ws] exI [of _ g'] exI [of _ b'] exI [of _ "store b1"]) (simp add: clearQueue_def)
  qed
qed

end
