(* ===== verification/Buffer_System.thy ===== *)
theory Buffer_System
  imports Buffer_Collector
begin

text \<open>
  A cache at work: one writer, one collector and any number of readers around a common buffer, with
  the smart pointers the readers and the writer have handed out (\<open>SmartPointer.h\<close>). Its steps are
  the calls of the operations, in any order; the invariant accounts for every reference and every
  hold, from which it follows that no step touches freed memory and that the data behind a live
  smart pointer stay what they were.
\<close>

section \<open>The system\<close>

text \<open>
  \<open>cs_ptrs\<close> lists the smart pointers that are alive, each with the data it was created for.
\<close>

record 'a csys =
  cs_buf :: "'a cbuf"
  cs_gc :: garbage_iter
  cs_readers :: "reader list"
  cs_ptrs :: "(addr \<times> 'a data_element) list"

definition cs_start :: "addr \<Rightarrow> u64 \<Rightarrow> 'a csys option" where
  "cs_start a validity =
     map_option (\<lambda>(g, b). \<lparr>cs_buf = b, cs_gc = g, cs_readers = [], cs_ptrs = []\<rparr>) (getIteratorGarbage (cb_new a validity))"

text \<open>The destructor of a smart pointer, and of an iterator (\<open>~IteratorBase\<close>).\<close>

definition delete_pointer :: "addr \<Rightarrow> 'a cbuf \<Rightarrow> 'a cbuf option" where
  "delete_pointer a b = at_elem a decrementReferenceCount b"

definition delete_reader :: "reader \<Rightarrow> 'a cbuf \<Rightarrow> 'a cbuf option" where
  "delete_reader r b = del_smart (stopAndResume r) b"

text \<open>\<open>SmartPointer::getData\<close>: two dereferences.\<close>

definition ptr_getData :: "addr \<Rightarrow> 'a cbuf \<Rightarrow> 'a option" where
  "ptr_getData a b = Option.bind (store b a) (\<lambda>e. map_option payload (data e))"

datatype 'a op =
    Write addr "'a data_element" bool
  | Attach
  | Read nat int "nat \<Rightarrow> u64"
  | Detach nat
  | Release nat
  | Collect "nat \<Rightarrow> u64"

text \<open>What a step needs of the outside: an address the allocator may hand out, an index in range.\<close>

fun op_ok :: "'a op \<Rightarrow> 'a csys \<Rightarrow> bool" where
  "op_ok (Write node d sp) s = (store (cs_buf s) node = None)"
| "op_ok (Read i limit clock) s = (i < length (cs_readers s))"
| "op_ok (Detach i) s = (i < length (cs_readers s))"
| "op_ok (Release k) s = (k < length (cs_ptrs s))"
| "op_ok _ s = True"

definition lift_opt :: "'r option \<Rightarrow> 'r run" where
  "lift_opt x = (case x of None \<Rightarrow> Faulted | Some y \<Rightarrow> Done y)"

fun exec :: "nat \<Rightarrow> 'a op \<Rightarrow> 'a csys \<Rightarrow> 'a csys run" where
  "exec fuel (Write node d sp) s =
     lift_opt (map_option (\<lambda>(p, b). s\<lparr>cs_buf := b,
        cs_ptrs := (case p of None \<Rightarrow> cs_ptrs s | Some a \<Rightarrow> cs_ptrs s @ [(a, d)])\<rparr>) (enqueue node d sp (cs_buf s)))"
| "exec fuel Attach s = Done (s\<lparr>cs_readers := cs_readers s @ [new_reader]\<rparr>)"
| "exec fuel (Read i limit clock) s =
     (case bufferedReader fuel clock limit (cs_readers s ! i) (cs_buf s) of
        Done (n, R, r, b) \<Rightarrow>
          Done (s\<lparr>cs_buf := b, cs_readers := (cs_readers s)[i := r],
                 cs_ptrs := cs_ptrs s @ map (\<lambda>a. (a, the (data (the (store b a))))) R\<rparr>)
      | Faulted \<Rightarrow> Faulted
      | Out_of_fuel \<Rightarrow> Out_of_fuel)"
| "exec fuel (Detach i) s =
     lift_opt (map_option (\<lambda>b. s\<lparr>cs_buf := b, cs_readers := take i (cs_readers s) @ drop (Suc i) (cs_readers s)\<rparr>)
       (delete_reader (cs_readers s ! i) (cs_buf s)))"
| "exec fuel (Release k) s =
     lift_opt (map_option (\<lambda>b. s\<lparr>cs_buf := b, cs_ptrs := take k (cs_ptrs s) @ drop (Suc k) (cs_ptrs s)\<rparr>)
       (delete_pointer (fst (cs_ptrs s ! k)) (cs_buf s)))"
| "exec fuel (Collect clock) s =
     (case clearQueue fuel clock (cs_gc s) (cs_buf s) of
        Done (g, b) \<Rightarrow> Done (s\<lparr>cs_buf := b, cs_gc := g\<rparr>)
      | Faulted \<Rightarrow> Faulted
      | Out_of_fuel \<Rightarrow> Out_of_fuel)"

section \<open>Counting references\<close>

definition sar_at :: "addr \<Rightarrow> reader \<Rightarrow> nat" where
  "sar_at a r = (if stopAndResume r = Some a then 1 else 0)"

definition refs :: "'a csys \<Rightarrow> addr \<Rightarrow> nat" where
  "refs s a = count_list (map fst (cs_ptrs s)) a + sum_list (map (sar_at a) (cs_readers s))"

definition live_refs :: "'a csys \<Rightarrow> nat" where
  "live_refs s = length (cs_ptrs s) + length (cs_readers s)"

text \<open>A store whose reference counts have changed by \<open>k\<close>.\<close>

definition shifted :: "(addr \<Rightarrow> u32) \<Rightarrow> (addr \<rightharpoonup> 'a element) \<Rightarrow> (addr \<rightharpoonup> 'a element)" where
  "shifted k st = (\<lambda>a. map_option (\<lambda>e. e\<lparr>referenceCount := referenceCount e + k a\<rparr>) (st a))"

abbreviation one_at :: "addr \<Rightarrow> addr \<Rightarrow> u32" where
  "one_at c a \<equiv> (if a = c then 1 else 0)"

lemma shifted_addref: "addref c (shifted k st) = shifted (\<lambda>a. k a + one_at c a) st"
  by (auto simp: shifted_def chg_def incrementReferenceCount_def fun_eq_iff option.map_comp comp_def add.assoc)

lemma shifted_delref: "delref sp st = shifted (\<lambda>a. - (if sp = Some a then 1 else 0)) st"
  by (cases sp) (auto simp: delref_def shifted_def chg_def decrementReferenceCount_def [abs_def] fun_eq_iff option.map_comp
      comp_def option.map_ident)

lemma shifted_addrefs: "addrefs R (shifted k st) = shifted (\<lambda>a. k a + of_nat (count_list R a)) st"
proof (induction R arbitrary: k)
  case (Cons c R)
  have "(\<lambda>a. k a + one_at c a + of_nat (count_list R a)) = (\<lambda>a. k a + of_nat (count_list (c # R) a))"
    by (auto simp: fun_eq_iff)
  then show ?case by (simp add: shifted_addref Cons.IH del: count_list.simps)
qed simp

lemma shifted_frame [simp]: "same_frame (shifted k st) st"
  by (auto simp: same_frame_def shifted_def option.map_comp comp_def)

lemma shifted_elem: "shifted k st a = Some e' \<Longrightarrow>
    \<exists>e. st a = Some e \<and> e' = e\<lparr>referenceCount := referenceCount e + k a\<rparr>"
  by (auto simp: shifted_def)

section \<open>The invariant\<close>

definition counts_ok :: "'a csys \<Rightarrow> (addr \<rightharpoonup> 'a element) \<Rightarrow> bool" where
  "counts_ok s st \<longleftrightarrow> (\<forall>a e. st a = Some e \<longrightarrow>
      readerCount e = (if a = g_current (cs_gc s) then 1 else 0) \<and> referenceCount e = of_nat (refs s a))"

definition ptrs_ok :: "'a csys \<Rightarrow> (addr \<rightharpoonup> 'a element) \<Rightarrow> bool" where
  "ptrs_ok s st \<longleftrightarrow> (\<forall>(a, d) \<in> set (cs_ptrs s). \<exists>e. st a = Some e \<and> data e = Some d)"

definition sys_inv :: "'a csys \<Rightarrow> addr list \<Rightarrow> addr list \<Rightarrow> bool" where
  "sys_inv s xs ys \<longleftrightarrow> cb_inv (cs_buf s) xs ys \<and> gc_ok (cs_gc s) (cs_buf s) ys
     \<and> dom (store (cs_buf s)) = set (xs @ ys @ [head (cs_buf s)])
     \<and> (\<forall>r \<in> set (cs_readers s). reader_ok r (set (xs @ ys @ [head (cs_buf s)])))
     \<and> counts_ok s (store (cs_buf s)) \<and> ptrs_ok s (store (cs_buf s))"

lemma sys_inv_start: "\<exists>s. cs_start a v = Some s \<and> sys_inv s [] [] \<and> live_refs s = 0"
proof -
  have g: "getIteratorGarbage (cb_new a v) = Some (\<lparr>g_current = a, lastDiv = None\<rparr>, (cb_new a v)\<lparr>store := [a \<mapsto> increment new_element]\<rparr>)"
    by (simp add: getIteratorGarbage_def cb_new_def at_elem_def)
  let ?s = "\<lparr>cs_buf = (cb_new a v)\<lparr>store := [a \<mapsto> increment new_element]\<rparr>, cs_gc = \<lparr>g_current = a, lastDiv = None\<rparr>,
             cs_readers = [], cs_ptrs = []\<rparr>"
  have "sys_inv ?s [] []"
    by (auto simp: sys_inv_def cb_inv_def gc_ok_def counts_ok_def ptrs_ok_def refs_def cb_new_def increment_def new_element_def)
  with g show ?thesis by (intro exI [of _ ?s]) (simp add: cs_start_def live_refs_def)
qed

lemma refs_bound: "refs s a \<le> live_refs s"
proof -
  have "sum_list (map (sar_at a) rs) \<le> length rs" for rs by (induction rs) (auto simp: sar_at_def)
  moreover have "count_list (map fst (cs_ptrs s)) a \<le> length (cs_ptrs s)" by (metis count_le_length length_map)
  ultimately show ?thesis unfolding refs_def live_refs_def using add_mono by blast
qed

lemma ref_zero:
  assumes "counts_ok s st" and "live_refs s < 2 ^ 32" and "st a = Some e" and "referenceCount e = 0"
  shows "refs s a = 0"
proof -
  have "of_nat (refs s a) = (0 :: u32)" using assms by (simp add: counts_ok_def)
  moreover have "refs s a < 2 ^ 32" using refs_bound [of s a] assms(2) by linarith
  ultimately show ?thesis by (simp add: word_of_nat_eq_0_iff dvd_imp_le flip: neq0_conv) (meson dvd_imp_le leD not_gr0)
qed

section \<open>Every operation keeps the invariant\<close>

lemma reader_ok_mono: "reader_ok r A \<Longrightarrow> A \<subseteq> B \<Longrightarrow> reader_ok r B"
  by (auto simp: reader_ok_def)

lemma refs_outside:
  assumes "sys_inv s xs ys" and "store (cs_buf s) a = None"
  shows "refs s a = 0"
proof -
  have ptrs: "a \<notin> set (map fst (cs_ptrs s))" using assms by (auto simp: sys_inv_def ptrs_ok_def)
  have "a \<notin> set (xs @ ys @ [head (cs_buf s)])" using assms by (auto simp: sys_inv_def)
  moreover have "\<forall>r \<in> set (cs_readers s). reader_ok r (set (xs @ ys @ [head (cs_buf s)]))"
    using assms(1) by (simp add: sys_inv_def)
  ultimately have "sar_at a r = 0" if "r \<in> set (cs_readers s)" for r
    using that unfolding reader_ok_def sar_at_def new_reader_def by fastforce
  then have "sum_list (map (sar_at a) (cs_readers s)) = 0" by (auto simp: sum_list_eq_0_iff)
  with ptrs show ?thesis by (simp add: refs_def count_list_0_iff)
qed

lemma head_empty: "cb_inv b xs ys \<Longrightarrow> store b (head b) = Some e \<Longrightarrow> data e = None"
  using linked_append [of "store b" "xs @ ys" "head b" "[]"] by (simp add: cb_inv_def)

lemma write_inv:
  assumes inv: "sys_inv s xs ys" and ok: "store (cs_buf s) node = None"
  shows "\<exists>s'. exec fuel (Write node d sp) s = Done s' \<and> sys_inv s' xs (ys @ [head (cs_buf s)])"
proof -
  let ?b = "cs_buf s" and ?h = "head (cs_buf s)"
  from inv have ci: "cb_inv ?b xs ys" and gi: "gc_ok (cs_gc s) ?b ys" and di: "dom (store ?b) = set (xs @ ys @ [?h])"
    and ri: "\<forall>r \<in> set (cs_readers s). reader_ok r (set (xs @ ys @ [?h]))"
    and co: "counts_ok s (store ?b)" and po: "ptrs_ok s (store ?b)" by (simp_all add: sys_inv_def)
  from enqueue_inv [OF ci ok, of d sp] obtain e b' where
    e: "store ?b ?h = Some e" and en: "enqueue node d sp ?b = Some (if sp then Some ?h else None, b')"
    and ci': "cb_inv b' xs (ys @ [?h])" and h': "head b' = node"
    and st: "store b' = (store ?b)(node \<mapsto> new_element,
         ?h \<mapsto> e\<lparr>data := Some d, timedOut := timeStamp d + validita ?b, nextp := Some node,
                     referenceCount := referenceCount e + (if sp then 1 else 0)\<rparr>)" by blast
  let ?s = "s\<lparr>cs_buf := b', cs_ptrs := cs_ptrs s @ (if sp then [(?h, d)] else [])\<rparr>"
  have hn: "?h \<noteq> node" using e ok by auto
  have pv: "pivot b' = pivot ?b" using ci ci' by (cases ys) (simp_all add: cb_inv_def)
  have cur: "node \<noteq> g_current (cs_gc s)"
    using gi ci ok linked_in_store [of "store ?b" "xs @ ys @ [?h]" "g_current (cs_gc s)"]
    by (cases ys) (auto simp: gc_ok_def cb_inv_def split: if_splits)
  have rf: "refs ?s a = refs s a + (if sp \<and> a = ?h then 1 else 0)" for a by (simp add: refs_def)
  have "counts_ok ?s (store b')"
    unfolding counts_ok_def
  proof (intro allI impI)
    fix a e' assume se: "store b' a = Some e'"
    show "readerCount e' = (if a = g_current (cs_gc ?s) then 1 else 0) \<and> referenceCount e' = of_nat (refs ?s a)"
    proof (cases "a = ?h")
      case True
      with se have "readerCount e' = readerCount e" "referenceCount e' = referenceCount e + (if sp then 1 else 0)"
        by (auto simp: st)
      then show ?thesis using co e True by (simp add: counts_ok_def rf)
    next
      case False
      show ?thesis
      proof (cases "a = node")
        case True
        with se hn have "e' = new_element" by (simp add: st)
        then show ?thesis using True cur hn refs_outside [OF inv ok] by (simp add: rf new_element_def)
      next
        case nn: False
        with False se have "store ?b a = Some e'" by (simp add: st)
        then show ?thesis using co False by (simp add: counts_ok_def rf)
      qed
    qed
  qed
  moreover have keep: "\<exists>e. store b' a = Some e \<and> data e = Some c" if ac: "(a, c) \<in> set (cs_ptrs s)" for a c
  proof -
    obtain e' where e': "store ?b a = Some e'" "data e' = Some c" using po ac by (auto simp: ptrs_ok_def)
    then have "a \<noteq> ?h" using head_empty [OF ci, of e'] by force
    moreover have "a \<noteq> node" using e'(1) ok by force
    ultimately show ?thesis using e' by (simp add: st)
  qed
  have "\<exists>e. store b' ?h = Some e \<and> data e = Some d" by (simp add: st)
  with keep have "ptrs_ok ?s (store b')" by (auto simp: ptrs_ok_def)
  moreover have "dom (store b') = set (xs @ (ys @ [?h]) @ [head b'])" using di h' st by auto
  moreover have "gc_ok (cs_gc s) b' (ys @ [?h])" using gi pv by (auto simp: gc_ok_def)
  ultimately have "sys_inv ?s xs (ys @ [?h])"
    using ci' ri h' by (auto simp: sys_inv_def intro: reader_ok_mono)
  moreover have "exec fuel (Write node d sp) s = Done ?s" using en by (simp add: lift_opt_def)
  ultimately show ?thesis by blast
qed

text \<open>A change of reference counts that matches a change of the pointers keeps the invariant.\<close>

lemma shift_inv:
  assumes inv: "sys_inv s xs ys" and b: "b' = (cs_buf s)\<lparr>store := shifted k (store (cs_buf s))\<rparr>"
    and s': "cs_buf s' = b'" "cs_gc s' = cs_gc s"
    and k: "\<And>a. store (cs_buf s) a \<noteq> None \<Longrightarrow> of_nat (refs s' a) = of_nat (refs s a) + k a"
    and r: "\<And>r. r \<in> set (cs_readers s') \<Longrightarrow> reader_ok r (set (xs @ ys @ [head (cs_buf s)]))"
    and p: "\<And>a d. (a, d) \<in> set (cs_ptrs s') \<Longrightarrow> \<exists>e. store (cs_buf s) a = Some e \<and> data e = Some d"
  shows "sys_inv s' xs ys"
proof -
  let ?st = "store (cs_buf s)"
  from inv have ci: "cb_inv (cs_buf s) xs ys" and gi: "gc_ok (cs_gc s) (cs_buf s) ys"
    and di: "dom ?st = set (xs @ ys @ [head (cs_buf s)])" and co: "counts_ok s ?st" by (simp_all add: sys_inv_def)
  have "cb_inv b' xs ys" using ci b same_frame_linked [OF shifted_frame [of k ?st], of "xs @ ys @ [head (cs_buf s)]"] by (simp add: cb_inv_def)
  moreover have "gc_ok (cs_gc s) b' ys" using gi b by (simp add: gc_ok_def)
  moreover have "dom (shifted k ?st) = dom ?st" by (auto simp: shifted_def)
  moreover have "counts_ok s' (shifted k ?st)"
    using co s' k by (fastforce simp: counts_ok_def dest!: shifted_elem)
  moreover have "ptrs_ok s' (shifted k ?st)" using p by (fastforce simp: ptrs_ok_def shifted_def)
  ultimately show ?thesis using di r s' b by (simp add: sys_inv_def)
qed

lemma sar_update:
  "i < length rs \<Longrightarrow> sum_list (map f (rs[i := r])) + f (rs ! i) = sum_list (map f rs) + (f r :: nat)"
  by (induction rs arbitrary: i) (auto split: nat.splits)

lemma sar_remove:
  "i < length rs \<Longrightarrow> sum_list (map f (take i rs @ drop (Suc i) rs)) + (f (rs ! i) :: nat) = sum_list (map f rs)"
  by (induction rs arbitrary: i) (auto simp: nth_Cons take_Cons drop_Cons add.assoc split: nat.splits)

lemma count_remove:
  "i < length ps \<Longrightarrow> count_list (take i ps @ drop (Suc i) ps) a + (if ps ! i = a then 1 else 0) = count_list ps a"
proof -
  assume i: "i < length ps"
  have "count_list ps a = count_list (take i ps @ ps ! i # drop (Suc i) ps) a"
    by (simp only: id_take_nth_drop [OF i, symmetric])
  then show ?thesis by (simp del: append_take_drop_id)
qed

lemma of_nat_moved: "x + c = y + d \<Longrightarrow> (of_nat x :: u32) = of_nat y + (of_nat d - of_nat c)"
  by (metis (no_types, lifting) add_diff_cancel_right' add_diff_eq of_nat_add)

lemma read_inv:
  assumes inv: "sys_inv s xs ys" and i: "i < length (cs_readers s)" and fuel: "length (xs @ ys @ [head (cs_buf s)]) \<le> fuel"
  shows "\<exists>s'. exec fuel (Read i limit clock) s = Done s' \<and> sys_inv s' xs ys"
proof -
  let ?b = "cs_buf s" and ?r = "cs_readers s ! i"
  from inv have ci: "cb_inv ?b xs ys" and rd: "reader_ok ?r (set (xs @ ys @ [head ?b]))" and co: "counts_ok s (store ?b)"
    and po: "ptrs_ok s (store ?b)" using i by (simp_all add: sys_inv_def)
  have "below 2 (store ?b)" using co by (fastforce simp: below_def counts_ok_def)
  from bufferedReader_run [OF ci rd this fuel, of clock limit] obtain K R c M where
    run: "bufferedReader fuel clock limit ?r ?b = Done (int (length R), R, \<lparr>r_current = Some c, stopAndResume = Some c\<rparr>,
            ?b\<lparr>store := addref c (addrefs R (delref (stopAndResume ?r) (store ?b)))\<rparr>)"
    and L: "xs @ ys @ [head ?b] = K @ R @ c # M" by blast
  let ?k = "\<lambda>a. - (if stopAndResume ?r = Some a then 1 else 0) + of_nat (count_list R a) + one_at c a"
  have st: "addref c (addrefs R (delref (stopAndResume ?r) (store ?b))) = shifted ?k (store ?b)"
    by (simp only: shifted_delref shifted_addrefs shifted_addref)
  let ?b' = "?b\<lparr>store := shifted ?k (store ?b)\<rparr>" and ?r' = "\<lparr>r_current = Some c, stopAndResume = Some c\<rparr>"
  let ?s = "s\<lparr>cs_buf := ?b', cs_readers := (cs_readers s)[i := ?r'],
              cs_ptrs := cs_ptrs s @ map (\<lambda>a. (a, the (data (the (store ?b' a))))) R\<rparr>"
  have ls: "linked (store ?b) (K @ R @ c # M)" using ci L by (simp add: cb_inv_def)
  have dR: "\<exists>e d. store ?b a = Some e \<and> data e = Some d" if aR: "a \<in> set R" for a
  proof -
    obtain A B where "R = A @ a # B" using aR by (meson split_list)
    with ls have "linked (store ?b) ((K @ A) @ a # (B @ c # M))" by simp
    then show ?thesis by (simp only: linked_append) (auto simp: linked_Cons)
  qed
  have "sys_inv ?s xs ys"
  proof (rule shift_inv [OF inv refl])
    fix a assume "store ?b a \<noteq> None"
    have "refs ?s a + sar_at a ?r = refs s a + (count_list R a + sar_at a ?r')"
      using sar_update [OF i, of "sar_at a" ?r'] by (simp add: refs_def comp_def)
    from of_nat_moved [OF this] show "of_nat (refs ?s a) = of_nat (refs s a) + ?k a"
      by (auto simp: sar_at_def)
  next
    fix r assume "r \<in> set (cs_readers ?s)"
    then have "r \<in> insert ?r' (set (cs_readers s))" using set_update_subset_insert by fastforce
    then show "reader_ok r (set (xs @ ys @ [head ?b]))" using inv L by (auto simp: sys_inv_def reader_ok_def)
  next
    fix a d assume "(a, d) \<in> set (cs_ptrs ?s)"
    then show "\<exists>e. store ?b a = Some e \<and> data e = Some d"
      using po dR by (fastforce simp: ptrs_ok_def shifted_def)
  qed simp_all
  moreover have "exec fuel (Read i limit clock) s = Done ?s" using run st by simp
  ultimately show ?thesis by blast
qed

lemma release_inv:
  assumes inv: "sys_inv s xs ys" and k: "k < length (cs_ptrs s)"
  shows "\<exists>s'. exec fuel (Release k) s = Done s' \<and> sys_inv s' xs ys"
proof -
  let ?b = "cs_buf s" and ?p = "fst (cs_ptrs s ! k)"
  let ?b' = "?b\<lparr>store := delref (Some ?p) (store ?b)\<rparr>" and ?k = "\<lambda>a. - (if Some ?p = Some a then 1 else 0) :: u32"
  let ?s = "s\<lparr>cs_buf := ?b', cs_ptrs := take k (cs_ptrs s) @ drop (Suc k) (cs_ptrs s)\<rparr>"
  have po: "ptrs_ok s (store ?b)" using inv by (simp add: sys_inv_def)
  have "store ?b ?p \<noteq> None" using po nth_mem [OF k] by (cases "cs_ptrs s ! k") (auto simp: ptrs_ok_def)
  then have "delete_pointer ?p ?b = Some ?b'"
    by (simp add: delete_pointer_def at_elem_chg delref_def)
  moreover have "sys_inv ?s xs ys"
  proof (rule shift_inv [OF inv, where k = ?k])
    show "?b' = ?b\<lparr>store := shifted ?k (store ?b)\<rparr>" by (simp only: shifted_delref)
  next
    fix a
    have "refs ?s a + (if ?p = a then 1 else 0) = refs s a + 0"
      using count_remove [of k "map fst (cs_ptrs s)" a] k by (simp add: refs_def take_map drop_map)
    from of_nat_moved [OF this] show "of_nat (refs ?s a) = of_nat (refs s a) + ?k a"
      by auto
  next
    fix a d assume "(a, d) \<in> set (cs_ptrs ?s)"
    then have "(a, d) \<in> set (cs_ptrs s)" by (auto dest: in_set_takeD in_set_dropD)
    with po show "\<exists>e. store ?b a = Some e \<and> data e = Some d" by (auto simp: ptrs_ok_def)
  qed (use inv in \<open>simp_all add: sys_inv_def\<close>)
  ultimately show ?thesis by (intro exI [of _ ?s]) (simp add: lift_opt_def)
qed

lemma detach_inv:
  assumes inv: "sys_inv s xs ys" and i: "i < length (cs_readers s)"
  shows "\<exists>s'. exec fuel (Detach i) s = Done s' \<and> sys_inv s' xs ys"
proof -
  let ?b = "cs_buf s" and ?p = "stopAndResume (cs_readers s ! i)"
  let ?b' = "?b\<lparr>store := delref ?p (store ?b)\<rparr>" and ?k = "\<lambda>a. - (if ?p = Some a then 1 else 0) :: u32"
  let ?s = "s\<lparr>cs_buf := ?b', cs_readers := take i (cs_readers s) @ drop (Suc i) (cs_readers s)\<rparr>"
  have "reader_ok (cs_readers s ! i) (set (xs @ ys @ [head ?b]))" using inv i by (simp add: sys_inv_def)
  moreover have "dom (store ?b) = set (xs @ ys @ [head ?b])" using inv by (simp add: sys_inv_def)
  ultimately have "\<forall>a. ?p = Some a \<longrightarrow> store ?b a \<noteq> None" by (auto simp: reader_ok_def new_reader_def)
  then have "delete_reader (cs_readers s ! i) ?b = Some ?b'"
    by (cases ?p) (simp_all add: delete_reader_def del_smart_def at_elem_chg delref_def)
  moreover have "sys_inv ?s xs ys"
  proof (rule shift_inv [OF inv, where k = ?k])
    show "?b' = ?b\<lparr>store := shifted ?k (store ?b)\<rparr>" by (simp only: shifted_delref)
  next
    fix a
    have "refs ?s a + sar_at a (cs_readers s ! i) = refs s a + 0"
      using sar_remove [OF i, of "sar_at a"] by (simp add: refs_def)
    from of_nat_moved [OF this] show "of_nat (refs ?s a) = of_nat (refs s a) + ?k a"
      by (auto simp: sar_at_def)
  next
    fix r assume "r \<in> set (cs_readers ?s)"
    then have "r \<in> set (cs_readers s)" by (auto dest: in_set_takeD in_set_dropD)
    with inv show "reader_ok r (set (xs @ ys @ [head ?b]))" by (simp add: sys_inv_def)
  next
    fix a d assume "(a, d) \<in> set (cs_ptrs ?s)"
    with inv show "\<exists>e. store ?b a = Some e \<and> data e = Some d" by (auto simp: sys_inv_def ptrs_ok_def)
  qed simp_all
  ultimately show ?thesis by (intro exI [of _ ?s]) (simp add: lift_opt_def)
qed

lemma attach_inv:
  assumes "sys_inv s xs ys"
  shows "\<exists>s'. exec fuel Attach s = Done s' \<and> sys_inv s' xs ys"
proof -
  let ?s = "s\<lparr>cs_readers := cs_readers s @ [new_reader]\<rparr>"
  have rf: "refs ?s a = refs s a" for a by (simp add: refs_def sar_at_def new_reader_def)
  have "counts_ok ?s st = counts_ok s st" "ptrs_ok ?s st = ptrs_ok s st" for st
    by (simp_all add: counts_ok_def ptrs_ok_def rf)
  moreover have "reader_ok new_reader A" for A by (simp add: reader_ok_def)
  ultimately show ?thesis using assms by (intro exI [of _ ?s]) (auto simp: sys_inv_def)
qed

text \<open>What a pass of the collector leaves of an element.\<close>

lemma collected_elem:
  assumes s1: "same_up_to_links st1 st D" and st': "st' = hold g' (chg g decrementCounter st1)" and e: "st' a = Some e'"
  shows "a \<notin> D \<and> (\<exists>e. st a = Some e \<and> data e' = data e \<and> referenceCount e' = referenceCount e
           \<and> readerCount e' = readerCount e - one_at g a + one_at g' a)"
proof -
  have "st1 a \<noteq> None" using e st' by (metis chg_None option.distinct(1))
  then obtain e1 where e1: "st1 a = Some e1" by auto
  then have aD: "a \<notin> D" using s1 by (auto simp: same_up_to_links_def)
  then have "map_option (\<lambda>e. e\<lparr>nextp := None\<rparr>) (st1 a) = map_option (\<lambda>e. e\<lparr>nextp := None\<rparr>) (st a)"
    using s1 by (simp add: same_up_to_links_def)
  with e1 obtain e0 where e0: "st a = Some e0" by (cases "st a") auto
  with same_up_to_links_elem [OF s1 aD] e1 obtain n where "e1 = e0\<lparr>nextp := n\<rparr>" by auto
  with e st' e1 e0 aD show ?thesis
    by (cases "a = g"; cases "a = g'") (auto simp: chg_def increment_def decrementCounter_def)
qed

lemma collect_run:
  assumes inv: "sys_inv s xs ys" and room: "live_refs s < 2 ^ 32" and fuel: "length (xs @ ys) < fuel"
  shows "\<exists>g' b' zs ws. exec fuel (Collect clock) s = Done (s\<lparr>cs_buf := b', cs_gc := g'\<rparr>) \<and> ys = zs @ ws \<and> head b' = head (cs_buf s)
    \<and> sys_inv (s\<lparr>cs_buf := b', cs_gc := g'\<rparr>) (filter (\<lambda>a. ref_of (cs_buf s) a \<noteq> 0) xs @ zs) ws
    \<and> (length ws \<le> 1 \<or> isValid (clock (length zs)) (the (store (cs_buf s) (hd ws))) \<or> held_by_readers (cs_gc s) (cs_buf s) (hd ws) \<noteq> 0)"
proof -
  let ?b = "cs_buf s" and ?g = "cs_gc s"
  from inv have ci: "cb_inv ?b xs ys" and gi: "gc_ok ?g ?b ys" and di: "dom (store ?b) = set (xs @ ys @ [head ?b])"
    and ri: "\<forall>r \<in> set (cs_readers s). reader_ok r (set (xs @ ys @ [head ?b]))"
    and co: "counts_ok s (store ?b)" and po: "ptrs_ok s (store ?b)" by (simp_all add: sys_inv_def)
  let ?dead = "set (filter (\<lambda>a. ref_of ?b a = 0) xs)" and ?live = "filter (\<lambda>a. ref_of ?b a \<noteq> 0) xs"
  have fl: "length xs < fuel" "length ys < fuel" using fuel by simp_all
  from clearQueue_correct [OF ci gi fl, of clock] obtain zs ws g' b' st1 where
    run: "clearQueue fuel clock ?g ?b = Done (g', b')" and ys: "ys = zs @ ws"
    and ci': "cb_inv b' (?live @ zs) ws" and gi': "gc_ok g' b' ws" and h': "head b' = head ?b"
    and s1: "same_up_to_links st1 (store ?b) ?dead" and st': "store b' = hold (g_current g') (chg (g_current ?g) decrementCounter st1)"
    and stop: "length ws \<le> 1 \<or> isValid (clock (length zs)) (the (store ?b (hd ws))) \<or> held_by_readers ?g ?b (hd ws) \<noteq> 0"
    by blast
  note el = collected_elem [OF s1 st']
  let ?s = "s\<lparr>cs_buf := b', cs_gc := g'\<rparr>" and ?L = "(?live @ zs) @ ws @ [head b']"
  have L: "set ?L = set (xs @ ys @ [head ?b]) - ?dead"
    using ys h' ci by (auto simp: cb_inv_def)
  have unref: "refs s a = 0" if "a \<in> ?dead" for a
  proof -
    have "a \<in> dom (store ?b)" using that unfolding di by simp
    then obtain e where "store ?b a = Some e" by blast
    with that ref_zero [OF co room this] show ?thesis by simp
  qed
  have kept: "\<exists>e. store b' a = Some e" if "a \<notin> ?dead" "store ?b a \<noteq> None" for a
    using same_up_to_links_elem [OF s1 that(1)] that(2) chg_None [of _ _ "chg (g_current ?g) decrementCounter st1" a]
    by (fastforce simp: st')
  have "dom (store b') = dom (store ?b) - ?dead"
    using el kept by (fastforce simp: dom_def)
  then have "dom (store b') = set ?L" using L di by simp
  moreover have "refs ?s a = refs s a" for a by (simp add: refs_def)
  then have "counts_ok ?s (store b')" using el co by (fastforce simp: counts_ok_def)
  moreover have "ptrs_ok ?s (store b')"
    unfolding ptrs_ok_def
  proof clarsimp
    fix a d assume ad: "(a, d) \<in> set (cs_ptrs s)"
    then have "0 < refs s a" by (force simp: refs_def count_list_0_iff intro: gr0I)
    then have "a \<notin> ?dead" using unref by fastforce
    moreover obtain e where e: "store ?b a = Some e" "data e = Some d" using po ad by (auto simp: ptrs_ok_def)
    ultimately show "\<exists>e. store b' a = Some e \<and> data e = Some d" using kept [of a] el [of a] by fastforce
  qed
  moreover have "reader_ok r (set ?L)" if r: "r \<in> set (cs_readers s)" for r
  proof (cases "r = new_reader")
    case False
    with ri r obtain c where c: "c \<in> set (xs @ ys @ [head ?b])" "r = \<lparr>r_current = Some c, stopAndResume = Some c\<rparr>"
      by (auto simp: reader_ok_def)
    then have "sar_at c r = 1" by (simp add: sar_at_def)
    then have nz: "refs s c \<noteq> 0" using r by (force simp: refs_def sum_list_eq_0_iff)
    have "c \<notin> ?dead" by (rule notI, drule unref) (use nz in simp)
    with c L show ?thesis unfolding reader_ok_def by blast
  qed (simp add: reader_ok_def)
  ultimately have "sys_inv ?s (?live @ zs) ws" using ci' gi' by (simp add: sys_inv_def)
  moreover have "exec fuel (Collect clock) s = Done ?s" using run by simp
  ultimately show ?thesis using ys h' stop by (intro exI [of _ g'] exI [of _ b'] exI [of _ zs] exI [of _ ws] conjI)
qed

lemma collect_inv:
  assumes "sys_inv s xs ys" and "live_refs s < 2 ^ 32" and "length (xs @ ys) < fuel"
  shows "\<exists>s' xs' ys'. exec fuel (Collect clock) s = Done s' \<and> sys_inv s' xs' ys'"
  using collect_run [OF assms, of clock] by blast

lemma exec_inv:
  assumes "sys_inv s xs ys" and "live_refs s < 2 ^ 32" and "op_ok op s" and "card (dom (store (cs_buf s))) < fuel"
  shows "\<exists>s' xs' ys'. exec fuel op s = Done s' \<and> sys_inv s' xs' ys'"
proof -
  have "card (dom (store (cs_buf s))) = length (xs @ ys @ [head (cs_buf s)])"
    using assms(1) distinct_card [of "xs @ ys @ [head (cs_buf s)]"] by (simp add: sys_inv_def cb_inv_def)
  then have f: "length (xs @ ys @ [head (cs_buf s)]) \<le> fuel" "length (xs @ ys) < fuel" using assms(4) by simp_all
  show ?thesis
  proof (cases op)
    case (Write node d sp)
    then show ?thesis using write_inv [OF assms(1), of node fuel d sp] assms(3) by auto
  next
    case Attach
    then show ?thesis using attach_inv [OF assms(1), of fuel] by blast
  next
    case (Read i limit clock)
    then show ?thesis using read_inv [OF assms(1) _ f(1), of i limit clock] assms(3) by auto
  next
    case (Detach i)
    then show ?thesis using detach_inv [OF assms(1), of i fuel] assms(3) by auto
  next
    case (Release k)
    then show ?thesis using release_inv [OF assms(1), of k fuel] assms(3) by auto
  next
    case (Collect clock)
    then show ?thesis using collect_inv [OF assms(1,2) f(2), of clock] by blast
  qed
qed

section \<open>Properties\<close>

inductive reach :: "'a csys \<Rightarrow> bool" where
  reach_start: "cs_start a v = Some s \<Longrightarrow> reach s"
| reach_step: "reach s \<Longrightarrow> live_refs s < 2 ^ 32 \<Longrightarrow> op_ok op s \<Longrightarrow> card (dom (store (cs_buf s))) < fuel
    \<Longrightarrow> exec fuel op s = Done s' \<Longrightarrow> reach s'"

lemma reach_inv: "reach s \<Longrightarrow> \<exists>xs ys. sys_inv s xs ys"
proof (induction rule: reach.induct)
  case (reach_start a v s)
  obtain s1 :: "'a csys" where "cs_start a v = Some s1" "sys_inv s1 [] []" using sys_inv_start by blast
  with reach_start show ?case by auto
next
  case (reach_step s op fuel s')
  then show ?case using exec_inv [OF _ reach_step(2-4)] by fastforce
qed



section \<open>The loop without a lock\<close>

text \<open>
  The states of the cache with one thread inside the loop of \<open>attachStream\<close>: its accesses are interleaved
  with whole operations of the other threads.
\<close>

inductive lock_reach :: "'a csys \<Rightarrow> lock_pc \<Rightarrow> bool" where
  lock_reach_start: "reach s \<Longrightarrow> lock_reach s Lock_read"
| lock_reach_access: "lock_reach s pc \<Longrightarrow> lock_step pc (cs_buf s) = Some (pc', b) \<Longrightarrow> lock_reach (s\<lparr>cs_buf := b\<rparr>) pc'"
| lock_reach_other: "lock_reach s pc \<Longrightarrow> live_refs s < 2 ^ 32 \<Longrightarrow> op_ok op s \<Longrightarrow> exec fuel op s = Done s' \<Longrightarrow> lock_reach s' pc"

text \<open>A pivot out of date without references becomes garbage in one pass of the collector and is freed in the next.\<close>

lemma stale_pivot_passed:
  assumes inv: "sys_inv s xs ys" and room: "live_refs s < 2 ^ 32" and fuel: "length (xs @ ys) < fuel"
    and e: "store (cs_buf s) (pivot (cs_buf s)) = Some e" "nextp e = Some n" "n \<noteq> head (cs_buf s)" "\<not> isValid (clock 0) e"
  shows "\<exists>g' b' xs' ws. exec fuel (Collect clock) s = Done (s\<lparr>cs_buf := b', cs_gc := g'\<rparr>)
    \<and> sys_inv (s\<lparr>cs_buf := b', cs_gc := g'\<rparr>) xs' ws \<and> pivot (cs_buf s) \<in> set xs' \<and> length (xs' @ ws) \<le> length (xs @ ys)"
proof -
  let ?b = "cs_buf s" and ?p = "pivot (cs_buf s)"
  from inv have ci: "cb_inv ?b xs ys" and co: "counts_ok s (store ?b)" by (simp_all add: sys_inv_def)
  from collect_run [OF inv room fuel, of clock] obtain g' b' zs ws where
    run: "exec fuel (Collect clock) s = Done (s\<lparr>cs_buf := b', cs_gc := g'\<rparr>)" and ys: "ys = zs @ ws"
    and inv': "sys_inv (s\<lparr>cs_buf := b', cs_gc := g'\<rparr>) (filter (\<lambda>a. ref_of ?b a \<noteq> 0) xs @ zs) ws"
    and stop: "length ws \<le> 1 \<or> isValid (clock (length zs)) (the (store ?b (hd ws))) \<or> held_by_readers (cs_gc s) ?b (hd ws) \<noteq> 0"
    by blast
  have lk: "linked (store ?b) (ys @ [head ?b])" and p: "?p = hd (ys @ [head ?b])"
    using ci linked_append [of "store ?b" xs] by (cases ys; auto simp: cb_inv_def)+
  obtain y ys' where y: "ys = ?p # y # ys'"
    using lk p e(1,2,3) by (cases ys rule: linked.cases [of "(undefined, ys)" for ys, simplified]) auto
  have "held_by_readers (cs_gc s) ?b ?p = 0" using co e(1) by (simp add: counts_ok_def held_by_readers_def)
  then have "zs \<noteq> []" using stop ys y e(1,4) by (cases zs) auto
  then have "?p \<in> set (filter (\<lambda>a. ref_of ?b a \<noteq> 0) xs @ zs)" using ys y by (cases zs) auto
  moreover have "length ((filter (\<lambda>a. ref_of ?b a \<noteq> 0) xs @ zs) @ ws) \<le> length (xs @ ys)" using ys by simp
  ultimately show ?thesis using run inv' by blast
qed

lemma unreferenced_garbage_freed:
  assumes inv: "sys_inv s xs ys" and room: "live_refs s < 2 ^ 32" and fuel: "length (xs @ ys) < fuel"
    and a: "a \<in> set xs" "refs s a = 0"
  shows "\<exists>s'. exec fuel (Collect clock) s = Done s' \<and> store (cs_buf s') a = None"
proof -
  let ?b = "cs_buf s"
  from inv have ci: "cb_inv ?b xs ys" and co: "counts_ok s (store ?b)" and di: "dom (store ?b) = set (xs @ ys @ [head ?b])"
    by (simp_all add: sys_inv_def)
  from collect_run [OF inv room fuel, of clock] obtain g' b' zs ws where
    run: "exec fuel (Collect clock) s = Done (s\<lparr>cs_buf := b', cs_gc := g'\<rparr>)" and ys: "ys = zs @ ws" "head b' = head ?b"
    and inv': "sys_inv (s\<lparr>cs_buf := b', cs_gc := g'\<rparr>) (filter (\<lambda>a. ref_of ?b a \<noteq> 0) xs @ zs) ws" by blast
  have "a \<in> dom (store ?b)" unfolding di using a(1) by simp
  then obtain e where "store ?b a = Some e" by blast
  then have "ref_of ?b a = 0" using co a(2) by (auto simp: counts_ok_def)
  moreover have "a \<notin> set (ys @ [head ?b])" using ci a(1) by (auto simp: cb_inv_def)
  moreover have "dom (store b') = set ((filter (\<lambda>a. ref_of ?b a \<noteq> 0) xs @ zs) @ ws @ [head b'])" using inv' by (simp add: sys_inv_def)
  ultimately have "a \<notin> dom (store b')" using ys by auto
  then show ?thesis using run by (intro exI [of _ "s\<lparr>cs_buf := b', cs_gc := g'\<rparr>"]) (simp add: domIff)
qed

text \<open>
  C1. The loop of \<open>attachStream\<close> and \<open>lockPivot\<close> does not protect the element it counts itself on. In every
  reachable state of the cache whose pivot is out of date, is not referred to by a smart pointer and is not
  followed by the empty element at \<open>head\<close>, the thread that has read the pivot can be overtaken by two passes
  of the collector: the first moves the pivot on, the second frees the element, and the next access of the
  thread, the increment of the counter of readers, goes to freed memory.
\<close>

theorem reader_increments_freed_pivot:
  assumes "reach s" and "live_refs s < 2 ^ 32" and "card (dom (store (cs_buf s))) < fuel"
    and "store (cs_buf s) (pivot (cs_buf s)) = Some e" and "nextp e = Some n" and "n \<noteq> head (cs_buf s)"
    and "\<not> isValid now e" and "refs s (pivot (cs_buf s)) = 0"
  shows "\<exists>s1 s2. lock_step Lock_read (cs_buf s) = Some (Lock_increment (pivot (cs_buf s)), cs_buf s)
    \<and> exec fuel (Collect (\<lambda>_. now)) s = Done s1 \<and> exec fuel (Collect (\<lambda>_. now)) s1 = Done s2
    \<and> lock_reach s2 (Lock_increment (pivot (cs_buf s)))
    \<and> lock_step (Lock_increment (pivot (cs_buf s))) (cs_buf s2) = None"
proof -
  let ?p = "pivot (cs_buf s)" and ?c = "\<lambda>_ :: nat. now"
  obtain xs ys where inv: "sys_inv s xs ys" using reach_inv [OF assms(1)] by blast
  have fuel: "length (xs @ ys) < fuel"
    using inv assms(3) distinct_card [of "xs @ ys @ [head (cs_buf s)]"] by (simp add: sys_inv_def cb_inv_def)
  from stale_pivot_passed [OF inv assms(2) fuel assms(4-6), of ?c] assms(7) obtain g b xs' ws where
    r1: "exec fuel (Collect ?c) s = Done (s\<lparr>cs_buf := b, cs_gc := g\<rparr>)" and inv1: "sys_inv (s\<lparr>cs_buf := b, cs_gc := g\<rparr>) xs' ws"
    and p1: "?p \<in> set xs'" and f1: "length (xs' @ ws) \<le> length (xs @ ys)" by blast
  let ?s1 = "s\<lparr>cs_buf := b, cs_gc := g\<rparr>"
  have room: "live_refs ?s1 < 2 ^ 32" and "refs ?s1 ?p = 0" using assms(2,8) by (simp_all add: live_refs_def refs_def)
  from unreferenced_garbage_freed [OF inv1 room _ p1 this(2), of fuel ?c] f1 fuel obtain s2 where
    r2: "exec fuel (Collect ?c) ?s1 = Done s2" and gone: "store (cs_buf s2) ?p = None" by (meson le_less_trans)
  have read: "lock_step Lock_read (cs_buf s) = Some (Lock_increment ?p, cs_buf s)" by simp
  have "lock_reach (s\<lparr>cs_buf := cs_buf s\<rparr>) (Lock_increment ?p)" by (rule lock_reach_access [OF lock_reach_start [OF assms(1)] read])
  then have "lock_reach s (Lock_increment ?p)" by simp
  from lock_reach_other [OF this assms(2) _ r1] have "lock_reach ?s1 (Lock_increment ?p)" by simp
  from lock_reach_other [OF this room _ r2] have "lock_reach s2 (Lock_increment ?p)" by simp
  with read r1 r2 gone show ?thesis by (auto simp: at_elem_def)
qed

text \<open>A cache after two writes, with the empty element at address 2.\<close>

definition stale_buffer :: "addr \<Rightarrow> u32 \<Rightarrow> addr option \<Rightarrow> (addr \<rightharpoonup> string element) \<Rightarrow> string cbuf" where
  "stale_buffer h n l st =
     \<lparr>store = st, head = h, tail = 0, last_elem = l, pivot = 0, validita = 5, elementiInCodaValidi = 0,
      elementiInCodaValidiCorrenti = 0, elementiInGarbage = 0, elementiInCodaCorrenti = n, elementiInCoda = 0,
      elementiInEliminati = 0, numeroOsservazioni = 0\<rparr>"

definition stale_cache :: "string cbuf \<Rightarrow> string csys" where
  "stale_cache b = \<lparr>cs_buf = b, cs_gc = \<lparr>g_current = 0, lastDiv = None\<rparr>, cs_readers = [], cs_ptrs = []\<rparr>"

abbreviation written :: "addr \<Rightarrow> u32 \<Rightarrow> u64 \<Rightarrow> string \<Rightarrow> string element" where
  "written nxt r t p \<equiv> \<lparr>nextp = Some nxt, readerCount = r, referenceCount = 0, data = Some \<lparr>timeStamp = t, payload = p\<rparr>, timedOut = t + 5\<rparr>"

definition one_write :: "string cbuf" where
  "one_write = stale_buffer 1 1 (Some 0) [0 \<mapsto> written 1 1 3 ''x'', 1 \<mapsto> new_element]"

definition two_writes :: "string cbuf" where
  "two_writes = stale_buffer 2 2 (Some 1) [0 \<mapsto> written 1 1 3 ''x'', 1 \<mapsto> written 2 0 4 ''y'', 2 \<mapsto> new_element]"

lemma one_write_enqueue: "enqueue 1 \<lparr>timeStamp = 3, payload = ''x''\<rparr> False (stale_buffer 0 0 None [0 \<mapsto> increment new_element]) = Some (None, one_write)"
  by (simp add: one_write_def stale_buffer_def enqueue_def allocNode_def at_elem_def setData_def new_element_def increment_def Let_def)
     (simp add: fun_eq_iff)

lemma two_writes_enqueue: "enqueue 2 \<lparr>timeStamp = 4, payload = ''y''\<rparr> False one_write = Some (None, two_writes)"
  by (simp add: one_write_def two_writes_def stale_buffer_def enqueue_def allocNode_def at_elem_def setData_def new_element_def Let_def)
     (simp add: fun_eq_iff)

lemma stale_cache_reach: "reach (stale_cache two_writes)"
proof -
  let ?d = "\<lambda>t p. \<lparr>timeStamp = t, payload = p\<rparr>" and ?b = "stale_buffer 0 0 None [0 \<mapsto> increment new_element]"
  have "cs_start 0 5 = Some (stale_cache ?b)"
    by (simp add: cs_start_def getIteratorGarbage_def cb_new_def at_elem_def stale_cache_def stale_buffer_def)
  then have r: "reach (stale_cache ?b)" by (rule reach_start)
  have "reach (stale_cache one_write)"
    by (rule reach_step [OF r, of "Write 1 (?d 3 ''x'') False" 2])
       (simp_all add: one_write_enqueue [unfolded One_nat_def] stale_cache_def live_refs_def lift_opt_def, simp_all add: stale_buffer_def)
  then show ?thesis
    by (rule reach_step [of _ "Write 2 (?d 4 ''y'') False" 3])
       (simp_all add: two_writes_enqueue stale_cache_def live_refs_def lift_opt_def, simp_all add: one_write_def stale_buffer_def)
qed

theorem reader_increments_freed_pivot_witness:
  "\<exists>s1 s2. exec 4 (Collect (\<lambda>_. 100)) (stale_cache two_writes) = Done s1 \<and> exec 4 (Collect (\<lambda>_. 100)) s1 = Done s2
     \<and> lock_reach s2 (Lock_increment 0) \<and> lock_step (Lock_increment 0) (cs_buf s2) = None"
proof -
  have p: "pivot (cs_buf (stale_cache two_writes)) = 0" by (simp add: stale_cache_def two_writes_def stale_buffer_def)
  obtain e where e: "store (cs_buf (stale_cache two_writes)) 0 = Some e" "nextp e = Some 1" "\<not> isValid 100 e"
    by (simp add: stale_cache_def two_writes_def stale_buffer_def isValid_def)
  have h: "1 \<noteq> head (cs_buf (stale_cache two_writes))" "refs (stale_cache two_writes) 0 = 0" "live_refs (stale_cache two_writes) < 2 ^ 32"
    "card (dom (store (cs_buf (stale_cache two_writes)))) < 4" by (simp_all add: stale_cache_def two_writes_def stale_buffer_def refs_def live_refs_def)
  show ?thesis
    using reader_increments_freed_pivot [OF stale_cache_reach h(3,4), unfolded p, OF e(1,2) h(1) e(3) h(2)] by blast
qed



text \<open>
  C30. A call of \<open>bufferedReader\<close> on a well-formed queue ends without a fault and returns a run of
  consecutive elements in the order they were written, never more than the limit, and it stops
  early only at the empty element at \<open>head\<close>. A new reader starts at the pivot, a resuming one at the
  element where it stopped while that is in date, and otherwise at an element in date. Every hold
  it took is given back; the only counters that change are the reference counts: one up for every
  smart pointer returned and for the new resume point, one down for the old resume point.
\<close>

theorem bufferedReader_reads_a_run:
  assumes "cb_inv b xs ys" and "reader_ok r (set (xs @ ys @ [head b]))" and "below 2 (store b)"
    and "length (xs @ ys @ [head b]) \<le> fuel"
  shows "\<exists>K R c M. bufferedReader fuel clock limit r b
           = Done (int (length R), R, \<lparr>r_current = Some c, stopAndResume = Some c\<rparr>,
               b\<lparr>store := addref c (addrefs R (delref (stopAndResume r) (store b)))\<rparr>)
         \<and> xs @ ys @ [head b] = K @ R @ c # M
         \<and> length R \<le> nat (if limit < 0 then INT_MAX else limit)
         \<and> (length R = nat (if limit < 0 then INT_MAX else limit) \<or> c = head b)
         \<and> start_ok clock r b (hd (R @ [c]))"
  using assms by (rule bufferedReader_run)

theorem bufferedReader_reads_a_run_witness:
  "\<exists>b :: string cbuf. cb_inv b [] [0] \<and>
     (\<exists>K R c M n R' r' b'. bufferedReader 2 (\<lambda>_. 4) (- 1) new_reader b = Done (n, R', r', b') \<and> [0, head b] = K @ R @ c # M)"
proof -
  let ?b = "snd (the (enqueue 1 \<lparr>timeStamp = 3, payload = ''x''\<rparr> False (cb_new 0 5)))"
  have st: "store ?b = [0 \<mapsto> \<lparr>nextp = Some 1, readerCount = 0, referenceCount = 0,
      data = Some \<lparr>timeStamp = 3, payload = ''x''\<rparr>, timedOut = 8\<rparr>, 1 \<mapsto> new_element]" and h: "head ?b = 1"
    by (auto simp: enqueue_def cb_new_def allocNode_def at_elem_def setData_def Let_def new_element_def)
  have inv: "cb_inv ?b [] [0]"
    by (simp add: cb_inv_def enqueue_def cb_new_def allocNode_def at_elem_def setData_def Let_def new_element_def)
  have "below 2 (store ?b)" unfolding st by (auto simp: below_def new_element_def split: if_splits)
  moreover have "reader_ok new_reader A" for A by (simp add: reader_ok_def)
  ultimately show ?thesis
    using inv bufferedReader_reads_a_run [OF inv, of new_reader 2 "\<lambda>_. 4" "- 1"] h by fastforce
qed

text \<open>
  A pass of the collector (\<open>clearQueue\<close>) on a well-formed queue ends without a fault. It frees
  exactly the garbage that no smart pointer refers to; it then moves the pivot over a run of
  elements, each out of date and held by no reader, and stops at the first that is in date or held;
  the newest element is never passed. The collector keeps exactly one hold, on its new position.
\<close>

theorem collector_pass:
  assumes "cb_inv b xs ys" and "gc_ok g b ys" and "length xs < fuel" and "length ys < fuel"
  shows "\<exists>zs ws g' b' st1. clearQueue fuel clock g b = Done (g', b')
    \<and> ys = zs @ ws \<and> (ys \<noteq> [] \<longrightarrow> ws \<noteq> [])
    \<and> cb_inv b' (filter (\<lambda>a. ref_of b a \<noteq> 0) xs @ zs) ws \<and> gc_ok g' b' ws \<and> head b' = head b
    \<and> same_up_to_links st1 (store b) (set (filter (\<lambda>a. ref_of b a = 0) xs))
    \<and> store b' = hold (g_current g') (chg (g_current g) decrementCounter st1)
    \<and> (\<forall>i<length zs. \<not> isValid (clock i) (the (store b (zs ! i))) \<and> held_by_readers g b (zs ! i) = 0)
    \<and> (length ws \<le> 1 \<or> isValid (clock (length zs)) (the (store b (hd ws))) \<or> held_by_readers g b (hd ws) \<noteq> 0)"
  using assms by (rule clearQueue_correct)

theorem collector_pass_witness:
  "\<exists>(b :: string cbuf) g zs ws g' b'. cb_inv b [] [0] \<and> clearQueue 2 (\<lambda>_. 9) g b = Done (g', b') \<and> [0] = zs @ ws \<and> ws \<noteq> []
     \<and> cb_inv b' zs ws"
proof -
  let ?b = "snd (the (enqueue 1 \<lparr>timeStamp = 3, payload = ''x''\<rparr> False (cb_new 0 5)))"
  have inv: "cb_inv ?b [] [0]"
    by (simp add: cb_inv_def enqueue_def cb_new_def allocNode_def at_elem_def setData_def Let_def new_element_def)
  have "gc_ok \<lparr>g_current = 0, lastDiv = None\<rparr> ?b [0]"
    by (simp add: gc_ok_def enqueue_def cb_new_def allocNode_def at_elem_def setData_def Let_def)
  from inv collector_pass [OF inv this, of 2 "\<lambda>_. 9"] show ?thesis
    by (metis (no_types, lifting) append_Nil filter.simps(1) length_Cons lessI list.distinct(1) list.size(3) numeral_2_eq_2 zero_less_Suc)
qed

text \<open>
  \<open>getElementInValidity\<close> is wrong after a pass that frees something. The counter of elements in
  the queue already lacks the freed ones when \<open>clearUnusedData\<close> subtracts all garbage it saw from
  it, so the freed elements are subtracted twice: of a queue that holds \<open>length ys\<close> readable elements
  it reports that number less the number of elements it freed.
\<close>

theorem valid_counter_undercounts:
  assumes "cb_inv b xs ys" and "length xs < fuel" and "elementiInCodaCorrenti b = of_nat (length (xs @ ys))"
  shows "\<exists>b'. clearUnusedData fuel b = Done b'
    \<and> elementiInCodaValidiCorrenti b' = of_nat (length ys) - of_nat (length (filter (\<lambda>a. ref_of b a = 0) xs))"
proof -
  from clearUnusedData_correct [OF assms(1,2)] obtain b' where "clearUnusedData fuel b = Done b'"
    "elementiInCodaCorrenti b' = elementiInCodaCorrenti b - of_nat (length (filter (\<lambda>a. ref_of b a = 0) xs))"
    "elementiInCodaValidiCorrenti b' = elementiInCodaCorrenti b' - of_nat (length xs)" by blast
  with assms(3) show ?thesis by (intro exI [of _ b']) simp
qed

theorem valid_counter_undercounts_witness:
  "\<exists>b b' :: string cbuf. cb_inv b [0] [1] \<and> clearUnusedData 2 b = Done b' \<and> elementiInCodaValidiCorrenti b' = 0"
proof -
  let ?d = "\<lparr>timeStamp = 3, payload = ''x''\<rparr>"
  let ?b = "(snd (the (enqueue 2 ?d False (snd (the (enqueue 1 ?d False (cb_new 0 5)))))))\<lparr>pivot := 1\<rparr>"
  have inv: "cb_inv ?b [0] [1]" and n: "elementiInCodaCorrenti ?b = of_nat (length ([0] @ [1 :: addr]))" and z: "ref_of ?b 0 = 0"
    by (simp_all add: cb_inv_def enqueue_def cb_new_def allocNode_def at_elem_def setData_def Let_def new_element_def)
  from inv z valid_counter_undercounts [OF inv _ n, of 2] show ?thesis by auto
qed

text \<open>
  Destroying the queue frees every element of it, and none twice, whatever garbage the
  collector had left.
\<close>

theorem destructor_frees_all:
  assumes "cb_inv b xs ys" and "length (xs @ ys) < fuel" and "dom (store b) = set (xs @ ys @ [head b])"
  shows "destroy_buffer fuel b = Done Map.empty"
proof -
  have "store b |` (- set (xs @ ys @ [head b])) = Map.empty"
    unfolding assms(3) [symmetric] by (auto simp: restrict_map_def fun_eq_iff)
  with destroy_buffer_run [OF assms(1,2)] show ?thesis by simp
qed

theorem destructor_frees_all_witness:
  "destroy_buffer 2 (snd (the (enqueue 1 \<lparr>timeStamp = 3, payload = ''x''\<rparr> False (cb_new 0 5)))) = Done Map.empty"
proof (rule destructor_frees_all [of _ "[]" "[0]"])
  let ?b = "snd (the (enqueue 1 \<lparr>timeStamp = 3, payload = ''x''\<rparr> False (cb_new 0 5)))"
  show "cb_inv ?b [] [0]"
    by (simp add: cb_inv_def enqueue_def cb_new_def allocNode_def at_elem_def setData_def Let_def new_element_def)
  show "dom (store ?b) = set ([] @ [0] @ [head ?b])"
    by (auto simp: enqueue_def cb_new_def allocNode_def at_elem_def setData_def Let_def)
qed simp

end
