(* ===== verification/Cache_Tracker.thy ===== *)
theory Cache_Tracker
  imports Buffer_System "HOL-Library.AList"
begin

text \<open>
  The tracker of a device (\<open>caching_thread\<close>: \<open>BufferTracker.h\<close>, \<open>GarbageThread.h\<close>,
  \<open>trackers/AbstractDeviceTracker.h\<close>, \<open>trackers/FetcherDeviceTracker.h\<close>,
  \<open>trackers/TransformTracker.h\<close>): one queue at full resolution and any number of sub-buffers at a
  lower one, opened and closed by clients. Elements of a sub-buffer are \<open>SmartData\<close>: references to
  elements of the full queue. Buffer trackers live in a store, so that a deleted one is gone; a use
  of a deleted object or of the end of a map is a fault.
\<close>

section \<open>A sub-buffer\<close>

text \<open>An iterator as the trackers keep it: its id and its state.\<close>

type_synonym iterator = "u32 \<times> reader"

record btracker =
  controlledBuffer :: "addr cbuf"
  numberOfReader :: u32
  discretization :: u64
  iteratorGarbage :: "u32 \<times> garbage_iter"
  relatedIterators :: "iterator list"
  nextTimeout :: u64

text \<open>\<open>getNewId\<close>: the counter is a static variable of the file.\<close>

definition getNewId :: "u32 \<Rightarrow> u32 \<times> u32" where
  "getNewId lastNumber = (lastNumber, lastNumber + 1)"

text \<open>
  The constructor leaves \<open>numberOfReader\<close> as it finds it in memory: \<open>junk\<close>.
\<close>

definition new_btracker :: "u32 \<Rightarrow> addr cbuf \<Rightarrow> u64 \<Rightarrow> u32 \<Rightarrow> (btracker \<times> u32) option" where
  "new_btracker junk buf disc lastNumber =
     (case getIteratorGarbage buf of
        None \<Rightarrow> None
      | Some (g, buf') \<Rightarrow>
          (let (i, lastNumber') = getNewId lastNumber in
           Some (\<lparr>controlledBuffer = buf', numberOfReader = junk, discretization = disc,
                  iteratorGarbage = (i, g), relatedIterators = [], nextTimeout = 0\<rparr>, lastNumber')))"

definition bt_getIterator :: "u32 \<Rightarrow> btracker \<Rightarrow> u32 \<times> btracker \<times> u32" where
  "bt_getIterator lastNumber t =
     (let (i, lastNumber') = getNewId lastNumber in
      (i, t\<lparr>numberOfReader := numberOfReader t + 1, relatedIterators := relatedIterators t @ [(i, new_reader)]\<rparr>,
       lastNumber'))"

text \<open>
  The loop of \<open>deleteIterator\<close>: erasing shifts the rest down and the index still moves on.
\<close>

fun erase_loop :: "u32 \<Rightarrow> iterator list \<Rightarrow> iterator list" where
  "erase_loop i [] = []"
| "erase_loop i ((j, r) # rs) =
     (if i = j then (case rs of [] \<Rightarrow> [] | k # rs' \<Rightarrow> k # erase_loop i rs')
      else (j, r) # erase_loop i rs)"

definition deleteIterator :: "iterator \<Rightarrow> btracker \<Rightarrow> btracker option" where
  "deleteIterator it t =
     map_option (\<lambda>b. t\<lparr>controlledBuffer := b, numberOfReader := numberOfReader t - 1,
                       relatedIterators := erase_loop (fst it) (relatedIterators t)\<rparr>)
       (delete_reader (snd it) (controlledBuffer t))"

definition needNextData :: "u64 \<Rightarrow> btracker \<Rightarrow> bool \<times> btracker" where
  "needNextData timestamp t =
     (if timestamp \<ge> nextTimeout t then (True, t\<lparr>nextTimeout := discretization t + timestamp\<rparr>) else (False, t))"

text \<open>
  The destructor deletes the iterators by index while each call of \<open>deleteIterator\<close> takes one out of
  the same vector; the result is the iterators it never deletes.
\<close>

fun destroy_iterators :: "nat \<Rightarrow> nat \<Rightarrow> btracker \<Rightarrow> btracker run" where
  "destroy_iterators 0 i t = Out_of_fuel"
| "destroy_iterators (Suc fuel) i t =
     (if i < length (relatedIterators t) then
        (case deleteIterator (relatedIterators t ! i) t of
           None \<Rightarrow> Faulted
         | Some t' \<Rightarrow> destroy_iterators fuel (Suc i) t')
      else Done t)"

section \<open>The tracker\<close>

text \<open>
  The two \<open>std::map\<close>s are association lists; \<open>operator[]\<close> on a missing key makes an entry, which
  \<open>openBuffer\<close> fills and \<open>closeBuffer\<close> takes out again. The order of a walk over \<open>lowResQueues\<close> is
  that of the list; each step of the walk changes another sub-buffer.
\<close>

datatype queue_id = High | Low nat

record 'a tracker =
  highResQueue :: "'a cbuf"
  highResIterator :: "iterator list"
  iteratorIdToBufferTracker :: "(u32 \<times> nat) list"
  lowResQueues :: "(string \<times> nat) list"
  btrackers :: "nat \<rightharpoonup> btracker"
  gc_queues :: "(u32 \<times> queue_id) list"
  gc_high :: "garbage_iter option"
  gc_interrupted :: bool
  lastNumber :: u32

definition new_tracker :: "addr \<Rightarrow> u64 \<Rightarrow> 'a tracker" where
  "new_tracker a validity =
     \<lparr>highResQueue = cb_new a validity, highResIterator = [], iteratorIdToBufferTracker = [],
      lowResQueues = [], btrackers = Map.empty, gc_queues = [], gc_high = None, gc_interrupted = False,
      lastNumber = 0\<rparr>"

text \<open>The key of a sub-buffer: the two numbers in decimal, a colon between them.\<close>

definition buffer_key :: "u64 \<Rightarrow> u64 \<Rightarrow> string" where
  "buffer_key validity disc = decimal (unat validity) @ '':'' @ decimal (unat disc)"

definition putQueueToGarbage :: "u32 \<times> queue_id \<Rightarrow> 'a tracker \<Rightarrow> 'a tracker" where
  "putQueueToGarbage q t = t\<lparr>gc_queues := gc_queues t @ [q]\<rparr>"

fun remove_first :: "u32 \<Rightarrow> (u32 \<times> queue_id) list \<Rightarrow> (u32 \<times> queue_id) list" where
  "remove_first i [] = []"
| "remove_first i ((j, q) # qs) = (if j = i then qs else (j, q) # remove_first i qs)"

definition removeQueueToGarbage :: "u32 \<Rightarrow> 'a tracker \<Rightarrow> 'a tracker" where
  "removeQueueToGarbage i t = t\<lparr>gc_queues := remove_first i (gc_queues t)\<rparr>"

text \<open>The iterator that \<open>startGarbaging\<close> makes for the full queue gets no id: \<open>junk\<close> again.\<close>

definition startGarbaging :: "u32 \<Rightarrow> 'a tracker \<Rightarrow> 'a tracker option" where
  "startGarbaging junk t =
     map_option (\<lambda>(g, b). putQueueToGarbage (junk, High) (t\<lparr>highResQueue := b, gc_high := Some g\<rparr>))
       (getIteratorGarbage (highResQueue t))"

definition stopGarbaging :: "'a tracker \<Rightarrow> 'a tracker" where
  "stopGarbaging t = t\<lparr>gc_interrupted := True\<rparr>"

definition openMaxResBuffer :: "'a tracker \<Rightarrow> u32 \<times> 'a tracker" where
  "openMaxResBuffer t =
     (let (i, n) = getNewId (lastNumber t) in
      (i, t\<lparr>highResIterator := highResIterator t @ [(i, new_reader)], lastNumber := n\<rparr>))"

text \<open>
  \<open>openBuffer\<close>; \<open>bt\<close> is the address of the buffer tracker it may create, \<open>a\<close> that of the first
  element of its queue.
\<close>

definition openBuffer :: "u32 \<Rightarrow> nat \<Rightarrow> addr \<Rightarrow> u64 \<Rightarrow> u64 \<Rightarrow> 'a tracker \<Rightarrow> (u32 \<times> 'a tracker) option" where
  "openBuffer junk bt a validity disc t =
     (let key = buffer_key validity disc in
      case map_of (lowResQueues t) key of
        None \<Rightarrow>
          (case new_btracker junk (cb_new a validity) disc (lastNumber t) of
             None \<Rightarrow> None
           | Some (buffer, n) \<Rightarrow>
               (let (i, buffer', n') = bt_getIterator n buffer;
                    t1 = t\<lparr>lowResQueues := AList.update key bt (lowResQueues t), btrackers := (btrackers t)(bt \<mapsto> buffer'),
                           iteratorIdToBufferTracker := AList.update i bt (iteratorIdToBufferTracker t), lastNumber := n'\<rparr>
                in Some (i, putQueueToGarbage (fst (iteratorGarbage buffer'), Low bt) t1)))
      | Some p \<Rightarrow>
          (case btrackers t p of
             None \<Rightarrow> None
           | Some buffer \<Rightarrow>
               (let (i, buffer', n') = bt_getIterator (lastNumber t) buffer
                in Some (i, t\<lparr>btrackers := (btrackers t)(p \<mapsto> buffer'),
                             iteratorIdToBufferTracker := AList.update i p (iteratorIdToBufferTracker t), lastNumber := n'\<rparr>))))"

text \<open>
  The loop of \<open>closeBuffer\<close> over the iterators of the full queue. It deletes the iterator at the
  entry it finds and goes on comparing with the id of the deleted one: \<open>gone\<close> says that it is deleted.
\<close>

fun close_high_loop :: "u32 \<Rightarrow> bool \<Rightarrow> iterator list \<Rightarrow> iterator list option" where
  "close_high_loop i gone [] = Some []"
| "close_high_loop i gone ((j, r) # rs) =
     (if gone then None
      else if i = j then (case rs of [] \<Rightarrow> Some [] | k # rs' \<Rightarrow> map_option (Cons k) (close_high_loop i True rs'))
      else map_option (Cons (j, r)) (close_high_loop i gone rs))"

definition closeBuffer :: "iterator \<Rightarrow> 'a tracker \<Rightarrow> 'a tracker option" where
  "closeBuffer it t =
     (let i = fst it in
      case map_of (iteratorIdToBufferTracker t) i of
        None \<Rightarrow>
          (case close_high_loop i False (highResIterator t) of
             None \<Rightarrow> None
           | Some its \<Rightarrow>
               (if i \<in> fst ` set (highResIterator t) then
                  map_option (\<lambda>b. t\<lparr>highResQueue := b, highResIterator := its\<rparr>) (delete_reader (snd it) (highResQueue t))
                else Some (t\<lparr>highResIterator := its\<rparr>)))
      | Some p \<Rightarrow>
          (case btrackers t p of
             None \<Rightarrow> None
           | Some buffer \<Rightarrow>
               (let key = buffer_key (validita (controlledBuffer buffer)) (discretization buffer) in
                case deleteIterator it buffer of
                  None \<Rightarrow> None
                | Some buffer' \<Rightarrow>
                    (if numberOfReader buffer' = 0 then
                       (let t1 = removeQueueToGarbage (fst (iteratorGarbage buffer')) t;
                            t2 = t1\<lparr>btrackers := (btrackers t1)(p := None)\<rparr>
                        in if map_of (lowResQueues t2) key = None then None
                           else Some (t2\<lparr>lowResQueues := AList.delete key (lowResQueues t2),
                                  iteratorIdToBufferTracker := AList.delete i (iteratorIdToBufferTracker t2)\<rparr>))
                     else Some (t\<lparr>btrackers := (btrackers t)(p \<mapsto> buffer'),
                                 iteratorIdToBufferTracker := AList.delete i (iteratorIdToBufferTracker t)\<rparr>)))))"

definition tryInterruptTracking :: "'a tracker \<Rightarrow> bool" where
  "tryInterruptTracking t = (iteratorIdToBufferTracker t = [])"

section \<open>Tracking\<close>

text \<open>
  \<open>insertInSubBuffers\<close>: each sub-buffer whose time has come gets a \<open>SmartData\<close>, which holds a
  reference to the new element \<open>e\<close> of the full queue. \<open>allocate\<close> is the allocator of the queues.
\<close>

fun insertInSubBuffers :: "((addr \<rightharpoonup> addr element) \<Rightarrow> addr) \<Rightarrow> addr \<Rightarrow> u64 \<Rightarrow> (string \<times> nat) list \<Rightarrow> 'a tracker
  \<Rightarrow> 'a tracker option" where
  "insertInSubBuffers allocate e ts [] t = Some t"
| "insertInSubBuffers allocate e ts ((k, p) # qs) t =
     (case btrackers t p of
        None \<Rightarrow> None
      | Some sub \<Rightarrow>
          (case needNextData ts sub of
             (False, sub') \<Rightarrow> insertInSubBuffers allocate e ts qs (t\<lparr>btrackers := (btrackers t)(p \<mapsto> sub')\<rparr>)
           | (True, sub') \<Rightarrow>
               (case at_elem e incrementReferenceCount (highResQueue t) of
                  None \<Rightarrow> None
                | Some hq \<Rightarrow>
                    (case enqueue (allocate (store (controlledBuffer sub'))) \<lparr>timeStamp = ts, payload = e\<rparr> False
                            (controlledBuffer sub') of
                       None \<Rightarrow> None
                     | Some (_, cb) \<Rightarrow>
                         insertInSubBuffers allocate e ts qs
                           (t\<lparr>highResQueue := hq, btrackers := (btrackers t)(p \<mapsto> sub'\<lparr>controlledBuffer := cb\<rparr>)\<rparr>)))))"

text \<open>What the listeners are told, one call each.\<close>

definition insertInListener :: "nat \<Rightarrow> addr \<Rightarrow> u64 \<Rightarrow> (addr \<times> u64) list" where
  "insertInListener listeners e ts = replicate listeners (e, ts)"

definition doTracking :: "((addr \<rightharpoonup> addr element) \<Rightarrow> addr) \<Rightarrow> nat \<Rightarrow> addr \<Rightarrow> 'a data_element \<Rightarrow> 'a tracker
  \<Rightarrow> ((addr \<times> u64) list \<times> 'a tracker) option" where
  "doTracking allocate listeners node d t =
     (case enqueue node d True (highResQueue t) of
        Some (Some e, hq) \<Rightarrow>
          (case insertInSubBuffers allocate e (timeStamp d) (lowResQueues t) (t\<lparr>highResQueue := hq\<rparr>) of
             None \<Rightarrow> None
           | Some t1 \<Rightarrow>
               map_option (\<lambda>hq'. (insertInListener listeners e (timeStamp d), t1\<lparr>highResQueue := hq'\<rparr>))
                 (delete_pointer e (highResQueue t1)))
      | _ \<Rightarrow> None)"

text \<open>
  \<open>TransformTracker::addedNewelement\<close>: the handler of a listener, with the filter that the client
  implements as an argument.
\<close>

definition addedNewelement :: "((addr \<rightharpoonup> addr element) \<Rightarrow> addr) \<Rightarrow> ('a \<Rightarrow> 'b) \<Rightarrow> nat \<Rightarrow> addr \<Rightarrow> addr \<Rightarrow> u64 \<Rightarrow> 'a cbuf \<Rightarrow> 'b tracker
  \<Rightarrow> ((addr \<times> u64) list \<times> 'b tracker) option" where
  "addedNewelement allocate trasformData listeners node n ts source t =
     (case ptr_getData n source of
        None \<Rightarrow> None
      | Some v \<Rightarrow> doTracking allocate listeners node \<lparr>timeStamp = ts, payload = trasformData v\<rparr> t)"

text \<open>One turn of the loop of \<open>FetcherDeviceTracker::track\<close> (\<open>_getData\<close> wraps what the fetcher delivers).\<close>

definition fetch_turn :: "((addr \<rightharpoonup> addr element) \<Rightarrow> addr) \<Rightarrow> nat \<Rightarrow> addr \<Rightarrow> 'a \<times> u64 \<Rightarrow> 'a tracker
  \<Rightarrow> ((addr \<times> u64) list \<times> 'a tracker) option" where
  "fetch_turn allocate listeners node fetched t =
     doTracking allocate listeners node \<lparr>timeStamp = snd fetched, payload = fst fetched\<rparr> t"

section \<open>One pass of the garbage thread\<close>

text \<open>
  Freeing an element of a sub-buffer destroys its \<open>SmartData\<close> and with it the reference to the full
  queue. \<open>chain\<close> lists the addresses from \<open>tail\<close> on.
\<close>

fun chain :: "nat \<Rightarrow> addr \<Rightarrow> (addr \<rightharpoonup> 'a element) \<Rightarrow> addr list" where
  "chain 0 a st = []"
| "chain (Suc n) a st =
     (case st a of None \<Rightarrow> [] | Some e \<Rightarrow> a # (case nextp e of None \<Rightarrow> [] | Some c \<Rightarrow> chain n c st))"

definition freed_payloads :: "nat \<Rightarrow> 'a cbuf \<Rightarrow> 'a cbuf \<Rightarrow> 'a list" where
  "freed_payloads fuel b b' =
     List.map_filter (\<lambda>a. if store b' a = None then map_option payload (Option.bind (store b a) data) else None)
       (chain fuel (tail b) (store b))"

fun release_all :: "addr list \<Rightarrow> 'a cbuf \<Rightarrow> 'a cbuf option" where
  "release_all [] b = Some b"
| "release_all (a # as) b = (case delete_pointer a b of None \<Rightarrow> None | Some b' \<Rightarrow> release_all as b')"

definition clear_one :: "nat \<Rightarrow> (nat \<Rightarrow> u64) \<Rightarrow> queue_id \<Rightarrow> 'a tracker \<Rightarrow> 'a tracker run" where
  "clear_one fuel clock q t =
     (case q of
        High \<Rightarrow>
          (case gc_high t of
             None \<Rightarrow> Faulted
           | Some g \<Rightarrow>
               (case clearQueue fuel clock g (highResQueue t) of
                  Done (g', b) \<Rightarrow> Done (t\<lparr>highResQueue := b, gc_high := Some g'\<rparr>)
                | Faulted \<Rightarrow> Faulted
                | Out_of_fuel \<Rightarrow> Out_of_fuel))
      | Low p \<Rightarrow>
          (case btrackers t p of
             None \<Rightarrow> Faulted
           | Some sub \<Rightarrow>
               (case clearQueue fuel clock (snd (iteratorGarbage sub)) (controlledBuffer sub) of
                  Done (g', b) \<Rightarrow>
                    lift_opt (map_option (\<lambda>hq. t\<lparr>highResQueue := hq,
                        btrackers := (btrackers t)(p \<mapsto> sub\<lparr>controlledBuffer := b,
                          iteratorGarbage := (fst (iteratorGarbage sub), g')\<rparr>)\<rparr>)
                      (release_all (freed_payloads fuel (controlledBuffer sub) b) (highResQueue t)))
                | Faulted \<Rightarrow> Faulted
                | Out_of_fuel \<Rightarrow> Out_of_fuel)))"

fun gc_pass :: "nat \<Rightarrow> (nat \<Rightarrow> nat \<Rightarrow> u64) \<Rightarrow> (u32 \<times> queue_id) list \<Rightarrow> 'a tracker \<Rightarrow> 'a tracker run" where
  "gc_pass fuel clocks [] t = Done t"
| "gc_pass fuel clocks ((i, q) # qs) t =
     (case clear_one fuel (clocks 0) q t of
        Done t' \<Rightarrow> gc_pass fuel (\<lambda>j. clocks (Suc j)) qs t'
      | Faulted \<Rightarrow> Faulted
      | Out_of_fuel \<Rightarrow> Out_of_fuel)"

section \<open>Sampling\<close>

text \<open>The time stamps of a stream that a sub-buffer takes.\<close>

fun samples :: "u64 list \<Rightarrow> btracker \<Rightarrow> u64 list" where
  "samples [] t = []"
| "samples (ts # rest) t =
     (case needNextData ts t of (True, t') \<Rightarrow> ts # samples rest t' | (False, t') \<Rightarrow> samples rest t')"

lemma samples_later:
  assumes "\<forall>x \<in> set ts. unat x + unat (discretization t) < 2 ^ 64" and "x \<in> set (samples ts t)"
  shows "x \<in> set ts \<and> unat (nextTimeout t) \<le> unat x"
  using assms
proof (induction ts arbitrary: t)
  case (Cons y ts)
  show ?case
  proof (cases "nextTimeout t \<le> y")
    case True
    let ?t = "t\<lparr>nextTimeout := discretization t + y\<rparr>"
    have d: "unat (discretization t + y) = unat (discretization t) + unat y"
      using Cons.prems(1) by (intro unat_add_u64) (simp add: add.commute)
    from True Cons.prems(2) consider "x = y" | "x \<in> set (samples ts ?t)" by (auto simp: needNextData_def)
    then show ?thesis
    proof cases
      case 2
      with Cons.IH [of ?t] Cons.prems(1) d True show ?thesis by (auto simp: word_le_nat_alt)
    qed (use True in \<open>auto simp: word_le_nat_alt\<close>)
  next
    case False
    with Cons show ?thesis by (auto simp: needNextData_def)
  qed
qed simp

lemma samples_spaced:
  assumes "\<forall>x \<in> set ts. unat x + unat (discretization t) < 2 ^ 64"
  shows "sorted_wrt (\<lambda>x y. unat x + unat (discretization t) \<le> unat y) (samples ts t)"
  using assms
proof (induction ts arbitrary: t)
  case (Cons y ts)
  let ?t = "t\<lparr>nextTimeout := discretization t + y\<rparr>"
  have d: "unat (discretization t + y) = unat (discretization t) + unat y"
    using Cons.prems(1) by (intro unat_add_u64) (simp add: add.commute)
  have "unat y + unat (discretization t) \<le> unat x" if "x \<in> set (samples ts ?t)" for x
    using samples_later [of ts ?t x] that Cons.prems d by simp
  with Cons.IH [of ?t] Cons.IH [of t] Cons.prems show ?case by (simp add: needNextData_def)
qed simp

text \<open>And none is left out without a reason.\<close>

lemma samples_dense:
  assumes "\<forall>x \<in> set ts. unat x + unat (discretization t) < 2 ^ 64" and "sorted ts" and "x \<in> set ts"
  shows "x \<in> set (samples ts t) \<or> x < nextTimeout t
       \<or> (\<exists>s \<in> set (samples ts t). s \<le> x \<and> unat x < unat s + unat (discretization t))"
  using assms
proof (induction ts arbitrary: t)
  case (Cons y ts)
  let ?t = "t\<lparr>nextTimeout := discretization t + y\<rparr>"
  have d: "unat (discretization t + y) = unat (discretization t) + unat y"
    using Cons.prems(1) by (intro unat_add_u64) (simp add: add.commute)
  show ?case
  proof (cases "nextTimeout t \<le> y")
    case True
    then have s: "samples (y # ts) t = y # samples ts ?t" by (simp add: needNextData_def)
    show ?thesis
    proof (cases "x = y")
      case False
      with Cons.prems have x: "x \<in> set ts" "y \<le> x" by auto
      with Cons.IH [of ?t] Cons.prems consider "x \<in> set (samples ts ?t)" | "x < discretization t + y"
        | s where "s \<in> set (samples ts ?t)" "s \<le> x" "unat x < unat s + unat (discretization t)" by auto
      then show ?thesis using x d s by cases (auto simp: word_less_nat_alt)
    qed (simp add: s del: samples.simps)
  next
    case False
    then have "samples (y # ts) t = samples ts t" by (simp add: needNextData_def)
    with Cons.IH [of t] Cons.prems False show ?thesis by auto
  qed
qed simp

section \<open>The key of a sub-buffer\<close>

lemma decimal_digits: "c \<in> set (decimal n) \<Longrightarrow> c \<noteq> CHR '':''"
proof (induction n rule: decimal.induct)
  case (1 n)
  have d: "char_of (48 + k) \<noteq> CHR '':''" if "k < 10" for k :: nat
  proof
    assume "char_of (48 + k) = CHR '':''"
    then have "of_char (char_of (48 + k) :: char) = (of_char CHR '':'' :: nat)" by simp
    with that show False by simp
  qed
  show ?case
    using 1 d [of n] d [of "n mod 10"] by (subst (asm) (2) decimal.simps) (auto split: if_splits)
qed

definition undecimal :: "string \<Rightarrow> nat" where
  "undecimal s = foldl (\<lambda>n c. 10 * n + (of_char c - 48)) 0 s"

lemma undecimal_decimal: "undecimal (decimal n) = n"
proof (induction n rule: decimal.induct)
  case (1 n)
  then show ?case
    by (subst decimal.simps) (auto simp: undecimal_def)
qed

lemma buffer_key_inj: "buffer_key v d = buffer_key v' d' \<longleftrightarrow> v = v' \<and> d = d'"
proof
  assume eq: "buffer_key v d = buffer_key v' d'"
  have tw: "takeWhile (\<lambda>c. c \<noteq> CHR '':'') (buffer_key a b) = decimal (unat a)" for a b
    unfolding buffer_key_def by (subst takeWhile_append2) (auto dest: decimal_digits)
  from eq tw have v: "decimal (unat v) = decimal (unat v')" by metis
  with eq have "decimal (unat d) = decimal (unat d')" by (simp add: buffer_key_def)
  with v show "v = v' \<and> d = d'" by (metis undecimal_decimal word_unat_eq_iff)
qed simp

section \<open>Opening and closing\<close>

lemma cb_new_collector: "getIteratorGarbage (cb_new a v)
    = Some (\<lparr>g_current = a, lastDiv = None\<rparr>, (cb_new a v)\<lparr>store := [a \<mapsto> increment new_element]\<rparr>)"
  by (simp add: getIteratorGarbage_def cb_new_def at_elem_def)

lemma openBuffer_new:
  assumes "map_of (lowResQueues t) (buffer_key v d) = None"
  shows "openBuffer junk bt a v d t = Some (lastNumber t + 1,
     putQueueToGarbage (lastNumber t, Low bt)
       (t\<lparr>lowResQueues := lowResQueues t @ [(buffer_key v d, bt)],
         btrackers := (btrackers t)(bt \<mapsto>
           \<lparr>controlledBuffer = (cb_new a v)\<lparr>store := [a \<mapsto> increment new_element]\<rparr>, numberOfReader = junk + 1,
            discretization = d, iteratorGarbage = (lastNumber t, \<lparr>g_current = a, lastDiv = None\<rparr>),
            relatedIterators = [(lastNumber t + 1, new_reader)], nextTimeout = 0\<rparr>),
         iteratorIdToBufferTracker := AList.update (lastNumber t + 1) bt (iteratorIdToBufferTracker t),
         lastNumber := 2 + lastNumber t\<rparr>))"
proof -
  have "AList.update k (x :: nat) al = al @ [(k, x)]" if "map_of al k = None" for k :: string and x al
    using that by (induction al) (auto split: if_splits)
  with assms show ?thesis
    by (simp add: openBuffer_def new_btracker_def cb_new_collector getNewId_def bt_getIterator_def Let_def)
qed

lemma delete_absent: "map_of al k = None \<Longrightarrow> AList.delete k al = al"
  by (induction al) (auto simp: AList.delete_eq split: if_splits)

lemma delete_fresh_update: "map_of al k = None \<Longrightarrow> AList.delete k (AList.update k x al) = al"
  by (induction al) (auto simp: AList.delete_eq split: if_splits)

lemma remove_first_append: "i \<notin> fst ` set qs \<Longrightarrow> remove_first i (qs @ [(i, q)]) = qs"
  by (induction qs) auto

lemma closeBuffer_last:
  assumes "map_of (lowResQueues t) (buffer_key v d) = None" and "v \<noteq> 0"
    and "map_of (iteratorIdToBufferTracker t) (lastNumber t + 1) = None" and "lastNumber t \<notin> fst ` set (gc_queues t)"
  shows "closeBuffer (lastNumber t + 1, new_reader) (snd (the (openBuffer 0 bt a v d t)))
    = Some (t\<lparr>btrackers := (btrackers t)(bt := None), lastNumber := 2 + lastNumber t\<rparr>)"
proof -
  have v: "\<not> v < 1" using assms(2) by (metis word_less_1)
  have "map_of (lowResQueues t @ [(buffer_key v d, bt)]) (buffer_key v d) = Some bt"
    using assms(1) by (simp add: map_add_def)
  moreover have "AList.delete (buffer_key v d) (lowResQueues t @ [(buffer_key v d, bt)]) = lowResQueues t"
    using delete_absent [OF assms(1)] by (simp add: AList.delete_eq)
  ultimately show ?thesis
    using assms v
    by (simp add: openBuffer_new closeBuffer_def putQueueToGarbage_def removeQueueToGarbage_def deleteIterator_def delete_reader_def
        del_smart_def new_reader_def Let_def cb_new_def remove_first_append update_conv' delete_fresh_update)
qed

section \<open>Tracking reaches every sub-buffer\<close>

text \<open>Every open sub-buffer is there, once, with a well-formed queue.\<close>

definition sub_ok :: "'a tracker \<Rightarrow> nat \<Rightarrow> bool" where
  "sub_ok t p \<longleftrightarrow> (\<exists>sub xs ys. btrackers t p = Some sub \<and> cb_inv (controlledBuffer sub) xs ys)"

text \<open>What a new element with time stamp \<open>ts\<close> does to one sub-buffer.\<close>

definition takes :: "u64 \<Rightarrow> 'a tracker \<Rightarrow> nat \<Rightarrow> bool" where
  "takes ts t p = fst (needNextData ts (the (btrackers t p)))"

definition offered :: "((addr \<rightharpoonup> addr element) \<Rightarrow> addr) \<Rightarrow> addr \<Rightarrow> u64 \<Rightarrow> btracker \<Rightarrow> btracker" where
  "offered allocate e ts sub =
     (let (need, sub') = needNextData ts sub in
      if need then sub'\<lparr>controlledBuffer := snd (the (enqueue (allocate (store (controlledBuffer sub)))
                         \<lparr>timeStamp = ts, payload = e\<rparr> False (controlledBuffer sub)))\<rparr>
      else sub')"

definition add_refs :: "addr \<Rightarrow> nat \<Rightarrow> (addr \<rightharpoonup> 'a element) \<Rightarrow> (addr \<rightharpoonup> 'a element)" where
  "add_refs e n st = chg e (\<lambda>x. x\<lparr>referenceCount := referenceCount x + of_nat n\<rparr>) st"

lemma add_refs_0: "add_refs e 0 st = st"
  by (simp add: add_refs_def chg_id)

lemma add_refs_Suc: "add_refs e n (addref e st) = add_refs e (Suc n) st"
  by (simp add: add_refs_def chg_same incrementReferenceCount_def add.assoc)

lemma insertInSubBuffers_run:
  assumes alloc: "\<And>st. finite (dom st) \<Longrightarrow> st (allocate st) = None"
    and "\<forall>p \<in> snd ` set qs. sub_ok t p \<and> finite (dom (store (controlledBuffer (the (btrackers t p)))))"
    and "distinct (map snd qs)" and "store (highResQueue t) e \<noteq> None"
  shows "insertInSubBuffers allocate e ts qs t
    = Some (t\<lparr>highResQueue := (highResQueue t)\<lparr>store := add_refs e (length (filter (\<lambda>(k, p). takes ts t p) qs)) (store (highResQueue t))\<rparr>,
              btrackers := (\<lambda>p. if p \<in> snd ` set qs then map_option (offered allocate e ts) (btrackers t p) else btrackers t p)\<rparr>)"
  using assms(2-4)
proof (induction qs arbitrary: t)
  case Nil
  then show ?case by (simp add: add_refs_0)
next
  case (Cons q qs)
  obtain k p where q: "q = (k, p)" by (cases q)
  from Cons.prems(1) q obtain sub xs ys where sub: "btrackers t p = Some sub" and ci: "cb_inv (controlledBuffer sub) xs ys"
    and fin: "finite (dom (store (controlledBuffer sub)))" by (auto simp: sub_ok_def)
  have pq: "p \<notin> snd ` set qs" using Cons.prems(2) q by auto
  obtain need sub' where nd: "needNextData ts sub = (need, sub')" by (cases "needNextData ts sub")
  then have cb': "controlledBuffer sub' = controlledBuffer sub" by (auto simp: needNextData_def split: if_splits)
  let ?sub = "offered allocate e ts sub" and ?n = "if need then 1 else 0 :: nat"
  let ?t = "t\<lparr>highResQueue := (highResQueue t)\<lparr>store := add_refs e ?n (store (highResQueue t))\<rparr>,
             btrackers := (btrackers t)(p \<mapsto> ?sub)\<rparr>"
  obtain a b where en: "enqueue (allocate (store (controlledBuffer sub))) \<lparr>timeStamp = ts, payload = e\<rparr> False (controlledBuffer sub) = Some (a, b)"
    using enqueue_inv [OF ci alloc [OF fin], of "\<lparr>timeStamp = ts, payload = e\<rparr>" False] by blast
  have step: "insertInSubBuffers allocate e ts (q # qs) t = insertInSubBuffers allocate e ts qs ?t"
  proof (cases need)
    case True
    then have "?sub = sub'\<lparr>controlledBuffer := b\<rparr>" using nd en by (simp add: offered_def)
    with True show ?thesis
      using sub nd q en cb' at_elem_chg [OF Cons.prems(3), of incrementReferenceCount] add_refs_Suc [of e 0 "store (highResQueue t)"]
      by (simp add: add_refs_0)
  next
    case False
    then have "?sub = sub'" using nd by (simp add: offered_def)
    with False show ?thesis using sub nd q by (simp add: add_refs_0)
  qed
  have other: "btrackers ?t r = btrackers t r" if "r \<in> snd ` set qs" for r using that pq by auto
  have tk: "takes ts ?t (snd x) = takes ts t (snd x)" if "x \<in> set qs" for x
    using other [of "snd x"] that by (simp only: takes_def imageI)
  have cnt: "length (filter (\<lambda>(k, p). takes ts ?t p) qs) = length (filter (\<lambda>(k, p). takes ts t p) qs)"
    unfolding case_prod_beta by (simp only: tk cong: filter_cong)
  have pre: "\<forall>p \<in> snd ` set qs. sub_ok ?t p \<and> finite (dom (store (controlledBuffer (the (btrackers ?t p)))))"
  proof
    fix r assume r: "r \<in> snd ` set qs"
    then have "sub_ok t r \<and> finite (dom (store (controlledBuffer (the (btrackers t r)))))" using Cons.prems(1) by auto
    then show "sub_ok ?t r \<and> finite (dom (store (controlledBuffer (the (btrackers ?t r)))))"
      unfolding sub_ok_def other [OF r] .
  qed
  have "insertInSubBuffers allocate e ts qs ?t
    = Some (?t\<lparr>highResQueue := (highResQueue ?t)\<lparr>store := add_refs e (length (filter (\<lambda>(k, p). takes ts ?t p) qs)) (store (highResQueue ?t))\<rparr>,
              btrackers := (\<lambda>p. if p \<in> snd ` set qs then map_option (offered allocate e ts) (btrackers ?t p) else btrackers ?t p)\<rparr>)"
    using Cons.prems(2,3) by (intro Cons.IH [OF pre]) (simp_all add: add_refs_def q)
  moreover have "(\<lambda>r. if r \<in> snd ` set qs then map_option (offered allocate e ts) (btrackers ?t r) else btrackers ?t r)
     = (\<lambda>r. if r \<in> snd ` set (q # qs) then map_option (offered allocate e ts) (btrackers t r) else btrackers t r)"
    using pq q sub by (auto simp: fun_eq_iff)
  moreover have "takes ts t p = need" using sub nd by (simp add: takes_def)
  then have "add_refs e (length (filter (\<lambda>(k, p). takes ts t p) qs)) (add_refs e ?n (store (highResQueue t)))
      = add_refs e (length (filter (\<lambda>(k, p). takes ts t p) (q # qs))) (store (highResQueue t))"
    using q by (simp add: add_refs_def chg_same add.assoc)
  ultimately show ?case unfolding step cnt by simp
qed

section \<open>Properties\<close>

text \<open>
  C31. Tracking a new element on a tracker whose queues are well formed appends it to the full
  queue, offers it to every open sub-buffer and drops its own smart pointer again: each sub-buffer
  whose time has come takes one reference to the element, so that the element's reference count
  grows by exactly the number of sub-buffers that took it, and no other sub-buffer changes. The
  listeners are told once each. The allocator hands out addresses that are not in use.
\<close>

theorem doTracking_feeds_sub_buffers:
  assumes alloc: "\<forall>st. finite (dom st) \<longrightarrow> st (allocate st) = None"
    and hi: "cb_inv (highResQueue t) xs ys" and node: "store (highResQueue t) node = None"
    and subs: "\<forall>p \<in> snd ` set (lowResQueues t). sub_ok t p \<and> finite (dom (store (controlledBuffer (the (btrackers t p)))))"
    and dis: "distinct (map snd (lowResQueues t))"
  shows "\<exists>t' e. doTracking allocate listeners node d t
           = Some (replicate listeners (head (highResQueue t), timeStamp d), t')
       \<and> cb_inv (highResQueue t') xs (ys @ [head (highResQueue t)])
       \<and> store (highResQueue t') (head (highResQueue t)) = Some e \<and> data e = Some d
       \<and> referenceCount e = ref_of (highResQueue t) (head (highResQueue t))
                            + of_nat (length (filter (\<lambda>(k, p). takes (timeStamp d) t p) (lowResQueues t)))
       \<and> (\<forall>p. btrackers t' p = (if p \<in> snd ` set (lowResQueues t)
              then map_option (offered allocate (head (highResQueue t)) (timeStamp d)) (btrackers t p) else btrackers t p))"
proof -
  let ?h = "head (highResQueue t)" and ?ts = "timeStamp d"
  let ?n = "length (filter (\<lambda>(k, p). takes ?ts t p) (lowResQueues t))"
  from enqueue_inv [OF hi node, of d True] obtain e0 b' where
    e0: "store (highResQueue t) ?h = Some e0" and en: "enqueue node d True (highResQueue t) = Some (Some ?h, b')"
    and ci: "cb_inv b' xs (ys @ [?h])"
    and st: "store b' = (store (highResQueue t))(node \<mapsto> new_element,
         ?h \<mapsto> e0\<lparr>data := Some d, timedOut := timeStamp d + validita (highResQueue t), nextp := Some node,
                     referenceCount := referenceCount e0 + (if True then 1 else 0)\<rparr>)"
    unfolding if_True by blast
  let ?t = "t\<lparr>highResQueue := b'\<rparr>" and ?st = "delref (Some ?h) (add_refs ?h ?n (store b'))"
  have hb: "store b' ?h \<noteq> None" by (simp add: st)
  have "takes ?ts ?t p = takes ?ts t p" "sub_ok ?t p = sub_ok t p" for p by (simp_all add: takes_def sub_ok_def)
  with insertInSubBuffers_run [of allocate "lowResQueues t" ?t ?h ?ts] alloc subs dis hb
  have ins: "insertInSubBuffers allocate ?h ?ts (lowResQueues t) ?t
    = Some (t\<lparr>highResQueue := b'\<lparr>store := add_refs ?h ?n (store b')\<rparr>,
              btrackers := (\<lambda>p. if p \<in> snd ` set (lowResQueues t) then map_option (offered allocate ?h ?ts) (btrackers t p) else btrackers t p)\<rparr>)"
    by (simp cong: if_cong)
  have del: "delete_pointer ?h (b'\<lparr>store := add_refs ?h ?n (store b')\<rparr>) = Some (b'\<lparr>store := ?st\<rparr>)"
    using hb by (simp add: delete_pointer_def at_elem_chg delref_def add_refs_def)
  have "same_frame ?st (store b')"
    unfolding add_refs_def by (simp add: keeps_def)
  from same_frame_linked [OF this] ci have "cb_inv (b'\<lparr>store := ?st\<rparr>) xs (ys @ [?h])" by (simp add: cb_inv_def)
  moreover have "\<exists>e. ?st ?h = Some e \<and> data e = Some d \<and> referenceCount e = ref_of (highResQueue t) ?h + of_nat ?n"
    using e0 by (simp add: delref_def add_refs_def chg_def st decrementReferenceCount_def)
  ultimately show ?thesis
    using en ins del by (auto simp: doTracking_def insertInListener_def)
qed

definition first_gap :: "(addr \<rightharpoonup> 'a) \<Rightarrow> addr" where
  "first_gap st = (LEAST a. st a = None)"

lemma first_gap_free: "\<forall>st. finite (dom st) \<longrightarrow> st (first_gap st) = None"
  unfolding first_gap_def by (intro allI impI, rule LeastI_ex) (metis domIff ex_new_if_finite infinite_UNIV_nat)

theorem doTracking_feeds_sub_buffers_witness:
  "\<exists>t' :: string tracker. doTracking first_gap 2 1 \<lparr>timeStamp = 3, payload = ''x''\<rparr>
      (snd (the (openBuffer 0 0 0 5 2 (new_tracker 0 5)))) = Some ([(0, 3), (0, 3)], t')"
proof -
  let ?t = "snd (the (openBuffer 0 0 0 5 2 (new_tracker 0 5))) :: string tracker"
  have t: "?t = putQueueToGarbage (0, Low 0) ((new_tracker 0 5)\<lparr>lowResQueues := [(buffer_key 5 2, 0)],
         btrackers := [0 \<mapsto>
           \<lparr>controlledBuffer = (cb_new 0 5)\<lparr>store := [0 \<mapsto> increment new_element]\<rparr>, numberOfReader = 1,
            discretization = 2, iteratorGarbage = (0, \<lparr>g_current = 0, lastDiv = None\<rparr>),
            relatedIterators = [(1, new_reader)], nextTimeout = 0\<rparr>],
         iteratorIdToBufferTracker := [(1, 0)], lastNumber := 2\<rparr>)"
    by (subst openBuffer_new) (simp_all add: new_tracker_def)
  have hq: "highResQueue ?t = cb_new 0 5" and hd: "head (cb_new 0 5 :: string cbuf) = 0"
    unfolding t by (simp_all add: putQueueToGarbage_def new_tracker_def cb_new_def)
  have subs: "\<forall>p \<in> snd ` set (lowResQueues ?t). sub_ok ?t p \<and> finite (dom (store (controlledBuffer (the (btrackers ?t p)))))"
    unfolding t by (simp add: putQueueToGarbage_def sub_ok_def cb_inv_def cb_new_def new_element_def increment_def)
       (intro exI [of _ "[]"], simp)
  have hi: "cb_inv (highResQueue ?t) [] []" unfolding hq by (rule cb_inv_new)
  have "store (highResQueue ?t) 1 = None" unfolding hq by (simp add: cb_new_def)
  from doTracking_feeds_sub_buffers [where allocate = first_gap and t = ?t and node = 1 and listeners = 2
      and d = "\<lparr>timeStamp = 3, payload = ''x''\<rparr>", OF first_gap_free hi this subs]
  show ?thesis unfolding hq hd by (auto simp: t putQueueToGarbage_def numeral_2_eq_2)
qed

text \<open>
  A sub-buffer thins the stream to its discretization: of a stream of time stamps in order (none
  so large that adding the discretization wraps) it takes stamps at least one discretization apart,
  and every stamp of the stream is taken or lies less than one discretization after one that is.
\<close>

theorem sub_buffer_sampling:
  assumes "\<forall>x \<in> set ts. unat x + unat (discretization t) < 2 ^ 64" and "sorted ts" and "nextTimeout t = 0"
  shows "sorted_wrt (\<lambda>x y. unat x + unat (discretization t) \<le> unat y) (samples ts t)
    \<and> set (samples ts t) \<subseteq> set ts
    \<and> (\<forall>x \<in> set ts. \<exists>s \<in> set (samples ts t). s = x \<or> s \<le> x \<and> unat x < unat s + unat (discretization t))"
  using samples_spaced [OF assms(1)] samples_dense [OF assms(1,2)] samples_later [OF assms(1)] assms(3) by fastforce

theorem sub_buffer_sampling_witness:
  "\<exists>t. discretization t = 10 \<and> samples [1, 5, 11, 12, 30] t = [1, 11, 30]
     \<and> (\<forall>x \<in> {1, 5, 11, 12, 30}. \<exists>s \<in> {1, 11, 30 :: u64}. s = x \<or> s \<le> x \<and> unat x < unat s + 10)"
proof -
  let ?t = "\<lparr>controlledBuffer = cb_new 0 5, numberOfReader = 0, discretization = 10,
      iteratorGarbage = (0, \<lparr>g_current = 0, lastDiv = None\<rparr>), relatedIterators = [], nextTimeout = 0\<rparr>"
  have s: "samples [1, 5, 11, 12, 30] ?t = [1, 11, 30]" by (simp add: needNextData_def)
  have p: "\<forall>x \<in> set [1, 5, 11, 12, 30 :: u64]. unat x + unat (discretization ?t) < 2 ^ 64" "sorted [1, 5, 11, 12, 30 :: u64]"
    "nextTimeout ?t = 0" by simp_all
  note sub_buffer_sampling [OF p, THEN conjunct2, THEN conjunct2]
  then have "\<forall>x \<in> {1, 5, 11, 12, 30}. \<exists>s \<in> {1, 11, 30 :: u64}. s = x \<or> s \<le> x \<and> unat x < unat s + 10"
    unfolding s by simp
  with s show ?thesis by (intro exI [of _ ?t]) (simp del: samples.simps)
qed

text \<open>
  Closing the only iterator of a sub-buffer undoes opening it: the tracker is as before, the
  queue is out of the collector's list and the two ids are used up. This is so when the validity is
  not 0 and the uninitialised \<open>numberOfReader\<close> of the new buffer tracker happened to be 0.
\<close>

theorem open_close_roundtrip:
  assumes "map_of (lowResQueues t) (buffer_key v d) = None" and "v \<noteq> 0" and "btrackers t bt = None"
    and "map_of (iteratorIdToBufferTracker t) (lastNumber t + 1) = None" and "lastNumber t \<notin> fst ` set (gc_queues t)"
  shows "closeBuffer (lastNumber t + 1, new_reader) (snd (the (openBuffer 0 bt a v d t))) = Some (t\<lparr>lastNumber := 2 + lastNumber t\<rparr>)"
proof -
  have "(btrackers t)(bt := None) = btrackers t" using assms(3) by auto
  then show ?thesis using closeBuffer_last [OF assms(1,2,4,5), of bt a] by simp
qed

theorem open_close_roundtrip_witness:
  "closeBuffer (1, new_reader) (snd (the (openBuffer 0 0 0 5 2 (new_tracker 0 5)))) = Some ((new_tracker 0 5)\<lparr>lastNumber := 2\<rparr>)"
  using open_close_roundtrip [of "new_tracker 0 5" 5 2 0 0] by (simp add: new_tracker_def)

text \<open>
  A sub-buffer opened with validity 0 cannot be closed. The queue raises its validity to 1, so
  \<open>closeBuffer\<close> looks for the key of validity 1, finds no entry (unless there is such a buffer) and
  erases the end of the map, after it has deleted the buffer that the entry of validity 0 refers to.
\<close>

theorem close_of_validity_zero_faults:
  assumes "map_of (lowResQueues t) (buffer_key 0 d) = None" and "map_of (lowResQueues t) (buffer_key 1 d) = None"
  shows "closeBuffer (lastNumber t + 1, new_reader) (snd (the (openBuffer 0 bt a 0 d t))) = None"
proof -
  have "map_of (lowResQueues t @ [(buffer_key 0 d, bt)]) (buffer_key 1 d) = None"
    using assms by (simp add: map_add_def buffer_key_inj)
  with assms(1) show ?thesis
    by (simp add: openBuffer_new closeBuffer_def putQueueToGarbage_def removeQueueToGarbage_def deleteIterator_def delete_reader_def
        del_smart_def new_reader_def Let_def cb_new_def update_conv')
qed

theorem close_of_validity_zero_faults_witness:
  "closeBuffer (1, new_reader) (snd (the (openBuffer 0 0 0 0 2 (new_tracker 0 5)))) = None"
  using close_of_validity_zero_faults [of "new_tracker 0 5" 2 0 0] by (simp add: new_tracker_def)

text \<open>
  Closing an iterator of the full queue that has at least two younger ones is a use after free:
  having deleted the iterator the loop goes on and asks the deleted iterator for its id.
\<close>

theorem close_high_use_after_free:
  assumes "highResIterator t = before @ (i, r) # k # l # after" and "i \<notin> fst ` set before"
    and "map_of (iteratorIdToBufferTracker t) i = None"
  shows "closeBuffer (i, r) t = None"
proof -
  have "close_high_loop i False (before @ (i, r) # k # l # after) = None"
    using assms(2) by (induction before) (auto, cases l, simp)
  with assms show ?thesis by (simp add: closeBuffer_def)
qed

theorem close_high_use_after_free_witness:
  "closeBuffer (0, new_reader) (snd (openMaxResBuffer (snd (openMaxResBuffer (snd (openMaxResBuffer (new_tracker 0 5))))))) = None"
  by (rule close_high_use_after_free [of _ "[]" 0 new_reader "(1, new_reader)" "(2, new_reader)" "[]"])
     (simp_all add: openMaxResBuffer_def new_tracker_def getNewId_def Let_def)

end
