(* ===== verification/Fast_Hash.thy ===== *)
theory Fast_Hash
  imports Chaos_Prelude
begin

unbundle bit_operations_syntax

text \<open>
  The hash of the key/value tables and caches (\<open>data/cache/FastHash.cpp\<close>), on a little-endian
  machine. The code has one variant for keys at an address divisible by four, one for the other even
  addresses and one for odd addresses; the aligned variants read words, the first one also past the
  end of the key. A key is its memory from the key's address on, with its length.
\<close>

section \<open>Memory and mixing\<close>

type_synonym memory = "nat \<Rightarrow> u8"

text \<open>Little-endian reads at a byte offset.\<close>

definition rd8 :: "memory \<Rightarrow> nat \<Rightarrow> u32" where
  "rd8 m i = ucast (m i)"

definition rd16 :: "memory \<Rightarrow> nat \<Rightarrow> u32" where
  "rd16 m i = rd8 m i + push_bit 8 (rd8 m (i + 1))"

definition rd32 :: "memory \<Rightarrow> nat \<Rightarrow> u32" where
  "rd32 m i = rd8 m i + push_bit 8 (rd8 m (i + 1)) + push_bit 16 (rd8 m (i + 2)) + push_bit 24 (rd8 m (i + 3))"

definition rot :: "u32 \<Rightarrow> nat \<Rightarrow> u32" where
  "rot x k = push_bit k x XOR drop_bit (32 - k) x"

type_synonym abc = "u32 \<times> u32 \<times> u32"

definition mix :: "abc \<Rightarrow> abc" where
  "mix s = (let (a, b, c) = s;
      a = a - c; a = a XOR rot c 4; c = c + b;
      b = b - a; b = b XOR rot a 6; a = a + c;
      c = c - b; c = c XOR rot b 8; b = b + a;
      a = a - c; a = a XOR rot c 16; c = c + b;
      b = b - a; b = b XOR rot a 19; a = a + c;
      c = c - b; c = c XOR rot b 4; b = b + a
    in (a, b, c))"

definition final :: "abc \<Rightarrow> abc" where
  "final s = (let (a, b, c) = s;
      c = c XOR b; c = c - rot b 14;
      a = a XOR c; a = a - rot c 11;
      b = b XOR a; b = b - rot a 25;
      c = c XOR b; c = c - rot b 16;
      a = a XOR c; a = a - rot c 4;
      b = b XOR a; b = b - rot a 14;
      c = c XOR b; c = c - rot b 24
    in (a, b, c))"

section \<open>The three variants\<close>

text \<open>
  Each is the loop over blocks of twelve bytes and the switch on the rest. The result of the switch
  is the state and whether the function returns without the final mixing (case 0).
\<close>

function loop32 :: "memory \<Rightarrow> nat \<Rightarrow> nat \<Rightarrow> abc \<Rightarrow> nat \<times> nat \<times> abc" where
  "loop32 m k len (a, b, c) =
     (if len > 12 then loop32 m (k + 12) (len - 12) (mix (a + rd32 m k, b + rd32 m (k + 4), c + rd32 m (k + 8)))
      else (k, len, (a, b, c)))"
  by pat_completeness auto
termination by (relation "measure (\<lambda>(m, k, len, s). len)") auto

declare loop32.simps [simp del]

definition last32 :: "memory \<Rightarrow> nat \<Rightarrow> nat \<Rightarrow> abc \<Rightarrow> bool \<times> abc" where
  "last32 m k len s = (let (a, b, c) = s; k0 = rd32 m k; k1 = rd32 m (k + 4); k2 = rd32 m (k + 8) in
     if len = 12 then (False, (a + k0, b + k1, c + k2))
     else if len = 11 then (False, (a + k0, b + k1, c + (k2 AND 0xffffff)))
     else if len = 10 then (False, (a + k0, b + k1, c + (k2 AND 0xffff)))
     else if len = 9 then (False, (a + k0, b + k1, c + (k2 AND 0xff)))
     else if len = 8 then (False, (a + k0, b + k1, c))
     else if len = 7 then (False, (a + k0, b + (k1 AND 0xffffff), c))
     else if len = 6 then (False, (a + k0, b + (k1 AND 0xffff), c))
     else if len = 5 then (False, (a + k0, b + (k1 AND 0xff), c))
     else if len = 4 then (False, (a + k0, b, c))
     else if len = 3 then (False, (a + (k0 AND 0xffffff), b, c))
     else if len = 2 then (False, (a + (k0 AND 0xffff), b, c))
     else if len = 1 then (False, (a + (k0 AND 0xff), b, c))
     else (True, (a, b, c)))"

function loop16 :: "memory \<Rightarrow> nat \<Rightarrow> nat \<Rightarrow> abc \<Rightarrow> nat \<times> nat \<times> abc" where
  "loop16 m k len (a, b, c) =
     (if len > 12 then
        loop16 m (k + 12) (len - 12)
          (mix (a + (rd16 m k + push_bit 16 (rd16 m (k + 2))),
                b + (rd16 m (k + 4) + push_bit 16 (rd16 m (k + 6))),
                c + (rd16 m (k + 8) + push_bit 16 (rd16 m (k + 10)))))
      else (k, len, (a, b, c)))"
  by pat_completeness auto
termination by (relation "measure (\<lambda>(m, k, len, s). len)") auto

declare loop16.simps [simp del]

definition last16 :: "memory \<Rightarrow> nat \<Rightarrow> nat \<Rightarrow> abc \<Rightarrow> bool \<times> abc" where
  "last16 m k len s = (let (a, b, c) = s;
       a4 = a + (rd16 m k + push_bit 16 (rd16 m (k + 2)));
       b4 = b + (rd16 m (k + 4) + push_bit 16 (rd16 m (k + 6))) in
     if len = 12 then (False, (a4, b4, c + (rd16 m (k + 8) + push_bit 16 (rd16 m (k + 10)))))
     else if len = 11 then (False, (a4, b4, c + push_bit 16 (rd8 m (k + 10)) + rd16 m (k + 8)))
     else if len = 10 then (False, (a4, b4, c + rd16 m (k + 8)))
     else if len = 9 then (False, (a4, b4, c + rd8 m (k + 8)))
     else if len = 8 then (False, (a4, b4, c))
     else if len = 7 then (False, (a4, b + push_bit 16 (rd8 m (k + 6)) + rd16 m (k + 4), c))
     else if len = 6 then (False, (a4, b + rd16 m (k + 4), c))
     else if len = 5 then (False, (a4, b + rd8 m (k + 4), c))
     else if len = 4 then (False, (a4, b, c))
     else if len = 3 then (False, (a + push_bit 16 (rd8 m (k + 2)) + rd16 m k, b, c))
     else if len = 2 then (False, (a + rd16 m k, b, c))
     else if len = 1 then (False, (a + rd8 m k, b, c))
     else (True, (a, b, c)))"

function loop8 :: "memory \<Rightarrow> nat \<Rightarrow> nat \<Rightarrow> abc \<Rightarrow> nat \<times> nat \<times> abc" where
  "loop8 m k len (a, b, c) =
     (if len > 12 then
        loop8 m (k + 12) (len - 12)
          (mix (a + rd8 m k + push_bit 8 (rd8 m (k + 1)) + push_bit 16 (rd8 m (k + 2)) + push_bit 24 (rd8 m (k + 3)),
                b + rd8 m (k + 4) + push_bit 8 (rd8 m (k + 5)) + push_bit 16 (rd8 m (k + 6)) + push_bit 24 (rd8 m (k + 7)),
                c + rd8 m (k + 8) + push_bit 8 (rd8 m (k + 9)) + push_bit 16 (rd8 m (k + 10)) + push_bit 24 (rd8 m (k + 11))))
      else (k, len, (a, b, c)))"
  by pat_completeness auto
termination by (relation "measure (\<lambda>(m, k, len, s). len)") auto

declare loop8.simps [simp del]

text \<open>The cases of the last switch fall through.\<close>

definition last8 :: "memory \<Rightarrow> nat \<Rightarrow> nat \<Rightarrow> abc \<Rightarrow> bool \<times> abc" where
  "last8 m k len s = (let (a, b, c) = s;
       c = (if len \<ge> 12 then c + push_bit 24 (rd8 m (k + 11)) else c);
       c = (if len \<ge> 11 then c + push_bit 16 (rd8 m (k + 10)) else c);
       c = (if len \<ge> 10 then c + push_bit 8 (rd8 m (k + 9)) else c);
       c = (if len \<ge> 9 then c + rd8 m (k + 8) else c);
       b = (if len \<ge> 8 then b + push_bit 24 (rd8 m (k + 7)) else b);
       b = (if len \<ge> 7 then b + push_bit 16 (rd8 m (k + 6)) else b);
       b = (if len \<ge> 6 then b + push_bit 8 (rd8 m (k + 5)) else b);
       b = (if len \<ge> 5 then b + rd8 m (k + 4) else b);
       a = (if len \<ge> 4 then a + push_bit 24 (rd8 m (k + 3)) else a);
       a = (if len \<ge> 3 then a + push_bit 16 (rd8 m (k + 2)) else a);
       a = (if len \<ge> 2 then a + push_bit 8 (rd8 m (k + 1)) else a);
       a = (if len \<ge> 1 then a + rd8 m k else a)
     in (len = 0, (a, b, c)))"

definition finish :: "bool \<times> abc \<Rightarrow> u32" where
  "finish r = (if fst r then snd (snd (snd r)) else snd (snd (final (snd r))))"

definition hash_init :: "nat \<Rightarrow> u32 \<Rightarrow> abc" where
  "hash_init len initval = (let x = 0xdeadbeef + of_nat len + initval in (x, x, x))"

text \<open>\<open>hash\<close>: the alignment of the key's address selects the variant.\<close>

definition hash :: "nat \<Rightarrow> memory \<Rightarrow> nat \<Rightarrow> u32 \<Rightarrow> u32" where
  "hash address m len initval =
     (if address mod 4 = 0 then
        (case loop32 m 0 len (hash_init len initval) of (k, n, s) \<Rightarrow> finish (last32 m k n s))
      else if address mod 2 = 0 then
        (case loop16 m 0 len (hash_init len initval) of (k, n, s) \<Rightarrow> finish (last16 m k n s))
      else
        (case loop8 m 0 len (hash_init len initval) of (k, n, s) \<Rightarrow> finish (last8 m k n s)))"

section \<open>The variants agree\<close>

lemma rd8_lt: "uint (rd8 m i) < 256"
proof -
  have "uint (m i) < 256" using uint_lt2p [of "m i"] by simp
  moreover have "take_bit 32 (uint (m i)) \<le> uint (m i)" by (rule take_bit_int_less_eq_self_iff [THEN iffD2]) simp
  ultimately show ?thesis by (simp add: rd8_def unsigned_ucast_eq)
qed

lemma rd32_rd16: "rd16 m k + push_bit 16 (rd16 m (k + 2)) = rd32 m k"
proof -
  have "k + 2 + 1 = k + 3" by simp
  then show ?thesis by (simp only: rd32_def rd16_def push_bit_eq_mult) (simp add: algebra_simps)
qed

lemma int_and_mask: "(y :: int) AND 0xff = y mod 256" "y AND 0xffff = y mod 65536" "y AND 0xffffff = y mod 16777216"
  using take_bit_eq_mask [of 8 y] take_bit_eq_mask [of 16 y] take_bit_eq_mask [of 24 y]
  by (simp_all add: take_bit_eq_mod mask_eq_exp_minus_1)

lemma uint_rd32: "uint (rd32 m k)
    = uint (rd8 m k) + 256 * uint (rd8 m (k + 1)) + 65536 * uint (rd8 m (k + 2)) + 16777216 * uint (rd8 m (k + 3))"
  using rd8_lt [of m k] rd8_lt [of m "k + 1"] rd8_lt [of m "k + 2"] rd8_lt [of m "k + 3"]
    uint_ge_0 [of "rd8 m k"] uint_ge_0 [of "rd8 m (k + 1)"] uint_ge_0 [of "rd8 m (k + 2)"] uint_ge_0 [of "rd8 m (k + 3)"]
  unfolding rd32_def push_bit_eq_mult by (simp add: uint_word_ariths)

lemma uint_rd16: "uint (rd16 m k) = uint (rd8 m k) + 256 * uint (rd8 m (k + 1))"
  using rd8_lt [of m k] rd8_lt [of m "k + 1"] uint_ge_0 [of "rd8 m k"] uint_ge_0 [of "rd8 m (k + 1)"]
  unfolding rd16_def push_bit_eq_mult by (simp add: uint_word_ariths)

lemma uint_rd24: "uint (rd16 m k + push_bit 16 (rd8 m (k + 2)))
    = uint (rd8 m k) + 256 * uint (rd8 m (k + 1)) + 65536 * uint (rd8 m (k + 2))"
  using rd8_lt [of m k] rd8_lt [of m "k + 1"] rd8_lt [of m "k + 2"]
    uint_ge_0 [of "rd8 m k"] uint_ge_0 [of "rd8 m (k + 1)"] uint_ge_0 [of "rd8 m (k + 2)"]
  unfolding push_bit_eq_mult by (simp add: uint_word_ariths uint_rd16)

text \<open>The bytes past the end of the key, which the aligned variant reads, are masked off.\<close>

lemma low_part: "0 \<le> x \<Longrightarrow> x < n \<Longrightarrow> (x + n * y) mod n = (x :: int)"
  by simp

lemma mask_rd32:
  "rd32 m k AND 0xff = rd8 m k"
  "rd32 m k AND 0xffff = rd16 m k"
  "rd32 m k AND 0xffffff = rd16 m k + push_bit 16 (rd8 m (k + 2))"
proof -
  let ?x = "uint (rd8 m k)" and ?y = "uint (rd8 m (k + 1))" and ?z = "uint (rd8 m (k + 2))" and ?w = "uint (rd8 m (k + 3))"
  have b: "0 \<le> ?x" "?x < 256" "0 \<le> ?y" "?y < 256" "0 \<le> ?z" "?z < 256" using rd8_lt by simp_all
  have e: "?x + 256 * ?y + 65536 * ?z + 16777216 * ?w = ?x + 256 * (?y + 256 * ?z + 65536 * ?w)"
    "?x + 256 * ?y + 65536 * ?z + 16777216 * ?w = (?x + 256 * ?y) + 65536 * (?z + 256 * ?w)"
    by simp_all
  have "uint (rd32 m k) mod 256 = ?x"
    unfolding uint_rd32 e(1) by (rule low_part) (use b in simp_all)
  moreover have "uint (rd32 m k) mod 65536 = uint (rd16 m k)"
    unfolding uint_rd32 uint_rd16 e(2) by (rule low_part) (use b in simp_all)
  moreover have "uint (rd32 m k) mod 16777216 = uint (rd16 m k + push_bit 16 (rd8 m (k + 2)))"
    unfolding uint_rd32 uint_rd24 by (rule low_part) (use b in simp_all)
  ultimately show "rd32 m k AND 0xff = rd8 m k" "rd32 m k AND 0xffff = rd16 m k"
    "rd32 m k AND 0xffffff = rd16 m k + push_bit 16 (rd8 m (k + 2))"
    by (simp_all only: word_uint_eq_iff unsigned_and_eq) (simp_all add: int_and_mask)
qed

lemma block8:
  "x + rd8 m k + push_bit 8 (rd8 m (k + 1)) + push_bit 16 (rd8 m (k + 2)) + push_bit 24 (rd8 m (k + 3)) = x + rd32 m k"
  "x + rd8 m (k + 4) + push_bit 8 (rd8 m (k + 5)) + push_bit 16 (rd8 m (k + 6)) + push_bit 24 (rd8 m (k + 7)) = x + rd32 m (k + 4)"
  "x + rd8 m (k + 8) + push_bit 8 (rd8 m (k + 9)) + push_bit 16 (rd8 m (k + 10)) + push_bit 24 (rd8 m (k + 11)) = x + rd32 m (k + 8)"
  by (simp_all add: rd32_def add.assoc numeral_eq_Suc)

lemma block16:
  "rd16 m (k + 4) + push_bit 16 (rd16 m (k + 6)) = rd32 m (k + 4)"
  "rd16 m (k + 8) + push_bit 16 (rd16 m (k + 10)) = rd32 m (k + 8)"
  using rd32_rd16 [of m "k + 4"] rd32_rd16 [of m "k + 8"] by (simp_all add: numeral_eq_Suc)

lemma loop_step:
  assumes "12 < len"
  shows "loop8 m k len (a, b, c) = loop8 m (k + 12) (len - 12) (mix (a + rd32 m k, b + rd32 m (k + 4), c + rd32 m (k + 8)))"
    and "loop16 m k len (a, b, c) = loop16 m (k + 12) (len - 12) (mix (a + rd32 m k, b + rd32 m (k + 4), c + rd32 m (k + 8)))"
    and "loop32 m k len (a, b, c) = loop32 m (k + 12) (len - 12) (mix (a + rd32 m k, b + rd32 m (k + 4), c + rd32 m (k + 8)))"
  using assms
  by (subst loop8.simps loop16.simps loop32.simps, simp only: block8 block16 rd32_rd16 if_True)+

lemma loop_stop:
  assumes "\<not> 12 < len"
  shows "loop8 m k len s = (k, len, s)" and "loop16 m k len s = (k, len, s)" and "loop32 m k len s = (k, len, s)"
  using assms by (cases s, simp add: loop8.simps loop16.simps loop32.simps)+

lemma loops_agree: "loop32 m k len s = loop8 m k len s \<and> loop16 m k len s = loop8 m k len s"
proof (induction len arbitrary: k s rule: less_induct)
  case (less len)
  show ?case
  proof (cases "12 < len")
    case True
    obtain a b c where s: "s = (a, b, c)" by (cases s)
    show ?thesis using less [of "len - 12"] True unfolding s loop_step [OF True] by simp
  qed (simp add: loop_stop)
qed

lemma loop8_rest: "fst (snd (loop8 m k len s)) \<le> 12"
proof (induction len arbitrary: k s rule: less_induct)
  case (less len)
  show ?case
  proof (cases "12 < len")
    case True
    obtain a b c where s: "s = (a, b, c)" by (cases s)
    show ?thesis using less [of "len - 12"] True unfolding s loop_step [OF True] by simp
  qed (simp add: loop_stop)
qed

lemma upto12: "n \<le> (12 :: nat) \<Longrightarrow> n \<in> {0, 1, 2, 3, 4, 5, 6, 7, 8, 9, 10, 11, 12}"
  by simp arith

lemma rd16_at: "rd16 m (k + 4) = rd8 m (k + 4) + push_bit 8 (rd8 m (k + 5))"
  "rd16 m (k + 8) = rd8 m (k + 8) + push_bit 8 (rd8 m (k + 9))"
  by (simp_all add: rd16_def numeral_eq_Suc)

lemma rd32_at:
  "rd32 m (k + 4) = rd8 m (k + 4) + push_bit 8 (rd8 m (k + 5)) + push_bit 16 (rd8 m (k + 6)) + push_bit 24 (rd8 m (k + 7))"
  "rd32 m (k + 8) = rd8 m (k + 8) + push_bit 8 (rd8 m (k + 9)) + push_bit 16 (rd8 m (k + 10)) + push_bit 24 (rd8 m (k + 11))"
  by (simp_all add: rd32_def numeral_eq_Suc)

lemma mask_at:
  "rd32 m (k + 4) AND 0xff = rd8 m (k + 4)" "rd32 m (k + 4) AND 0xffff = rd8 m (k + 4) + push_bit 8 (rd8 m (k + 5))"
  "rd32 m (k + 4) AND 0xffffff = rd8 m (k + 4) + push_bit 8 (rd8 m (k + 5)) + push_bit 16 (rd8 m (k + 6))"
  "rd32 m (k + 8) AND 0xff = rd8 m (k + 8)" "rd32 m (k + 8) AND 0xffff = rd8 m (k + 8) + push_bit 8 (rd8 m (k + 9))"
  "rd32 m (k + 8) AND 0xffffff = rd8 m (k + 8) + push_bit 8 (rd8 m (k + 9)) + push_bit 16 (rd8 m (k + 10))"
  by (simp_all only: mask_rd32 rd16_at) (simp_all add: numeral_eq_Suc)

lemma lasts_agree:
  assumes "n \<le> 12"
  shows "last32 m k n s = last8 m k n s" and "last16 m k n s = last8 m k n s"
proof -
  obtain a b c where s: "s = (a, b, c)" by (cases s)
  note defs = last32_def last16_def last8_def Let_def s case_prod_conv
  show "last32 m k n s = last8 m k n s"
    using upto12 [OF assms]
    by (elim insertE emptyE) (simp_all only: defs mask_at mask_rd32, simp_all only: rd32_at, simp_all add: rd32_def rd16_def ac_simps)
  show "last16 m k n s = last8 m k n s"
    using upto12 [OF assms]
    by (elim insertE emptyE) (simp_all only: defs block16 rd32_rd16, simp_all only: rd32_at rd16_at, simp_all add: rd32_def rd16_def ac_simps)
qed

section \<open>Properties\<close>

lemma loop8_frame:
  "(\<And>i. i < k + len \<Longrightarrow> m' i = m i) \<Longrightarrow> loop8 m' k len s = loop8 m k len s"
proof (induction len arbitrary: k s rule: less_induct)
  case (less len)
  show ?case
  proof (cases "12 < len")
    case True
    obtain a b c where s: "s = (a, b, c)" by (cases s)
    have "rd32 m' k = rd32 m k" "rd32 m' (k + 4) = rd32 m (k + 4)" "rd32 m' (k + 8) = rd32 m (k + 8)"
      using less.prems True by (simp_all add: rd32_def rd8_def)
    moreover have "loop8 m' (k + 12) (len - 12) s' = loop8 m (k + 12) (len - 12) s'" for s'
      using True less.prems by (intro less.IH) simp_all
    ultimately show ?thesis unfolding s loop_step [OF True] by simp
  qed (simp add: loop_stop)
qed

lemma loop8_end: "loop8 m k len s = (k', n, s') \<Longrightarrow> k' + n = k + len"
proof (induction len arbitrary: k s rule: less_induct)
  case (less len)
  show ?case
  proof (cases "12 < len")
    case True
    obtain a b c where s: "s = (a, b, c)" by (cases s)
    from less.prems have "loop8 m (k + 12) (len - 12) (mix (a + rd32 m k, b + rd32 m (k + 4), c + rd32 m (k + 8))) = (k', n, s')"
      unfolding s loop_step [OF True] .
    with less.IH [of "len - 12"] True show ?thesis by fastforce
  qed (use less.prems in \<open>simp add: loop_stop\<close>)
qed

text \<open>
  C29. The hash of a key depends on its bytes and its length alone: the three variants of the
  function, which the alignment of the key's address selects, compute the same value, and the bytes
  that the word-wise variant reads past the end of the key have no influence on it.
\<close>

theorem hash_independent_of_alignment:
  assumes "\<And>i. i < len \<Longrightarrow> m' i = m i"
  shows "hash address' m' len initval = hash address m len initval"
proof -
  define h where "h m = (case loop8 m 0 len (hash_init len initval) of (k, n, s) \<Rightarrow> finish (last8 m k n s))" for m
  have all: "hash ad mem len initval = h mem" for ad mem
  proof -
    obtain k n s where r: "loop8 mem 0 len (hash_init len initval) = (k, n, s)" by (cases "loop8 mem 0 len (hash_init len initval)")
    then have "n \<le> 12" using loop8_rest [of mem 0 len "hash_init len initval"] by simp
    with r show ?thesis by (simp add: hash_def h_def loops_agree lasts_agree)
  qed
  have f: "loop8 m' 0 len (hash_init len initval) = loop8 m 0 len (hash_init len initval)"
    using assms by (intro loop8_frame) simp
  obtain k n s where r: "loop8 m 0 len (hash_init len initval) = (k, n, s)" by (cases "loop8 m 0 len (hash_init len initval)")
  then have "k + n = len" using loop8_end by fastforce
  then have same: "rd8 m' (k + i) = rd8 m (k + i)" if "i < n" for i using that assms by (simp add: rd8_def)
  have n: "n \<le> 12" using loop8_rest [of m 0 len "hash_init len initval"] r by simp
  have "last8 m' k n s = last8 m k n s"
    using upto12 [OF n] by (elim insertE emptyE) (simp_all add: last8_def Let_def case_prod_beta same same [of 0, simplified] same [of 1, simplified] same [of 2, simplified])
  with f r have "h m' = h m" by (simp add: h_def)
  then show ?thesis by (simp only: all)
qed

theorem hash_independent_of_alignment_witness:
  "hash 1 (\<lambda>i. if i < 3 then 7 else 0) 3 0 = hash 4 (\<lambda>i. if i < 3 then 7 else 9) 3 0"
  by (rule hash_independent_of_alignment) simp

end
