(* ===== verification/Key_Value_Hash.thy ===== *)
theory Key_Value_Hash
  imports Fast_Hash Common_Buffer
begin

text \<open>
  The chained hash table (\<open>utility/TemplatedKeyValueHash.h\<close>). Nodes live in a heap; a deleted node
  is gone and reading it is a fault. The hash is the template's parameter \<open>H\<close>, an argument here;
  \<open>fast_hash\<close> is its default. Each operation holds the lock of its list and is one atomic step.
\<close>

section \<open>The table\<close>

type_synonym key = "u8 list"

record 'e hnode =
  h_element :: 'e
  h_key :: key
  h_next :: "addr option"
  h_prev :: "addr option"

text \<open>
  \<open>hash_vector\<close>: an entry is \<open>None\<close> while its list head has not been made, and then the head pointer.
\<close>

record 'e ktable =
  hash_hashpower :: nat
  hash_vector :: "nat \<rightharpoonup> addr option"
  k_heap :: "addr \<rightharpoonup> 'e hnode"

definition hashsize :: "nat \<Rightarrow> u32" where
  "hashsize n = push_bit n 1"

definition hashmask :: "nat \<Rightarrow> u32" where
  "hashmask n = hashsize n - 1"

definition kt_new :: "nat \<Rightarrow> 'e ktable" where
  "kt_new hash_power = \<lparr>hash_hashpower = hash_power, hash_vector = Map.empty, k_heap = Map.empty\<rparr>"

definition slot_of :: "(key \<Rightarrow> u32) \<Rightarrow> key \<Rightarrow> 'e ktable \<Rightarrow> nat" where
  "slot_of H k t = unat (and (H k) (hashmask (hash_hashpower t)))"

definition getListByHash :: "nat \<Rightarrow> 'e ktable \<Rightarrow> 'e ktable" where
  "getListByHash idx t =
     (case hash_vector t idx of None \<Rightarrow> t\<lparr>hash_vector := (hash_vector t)(idx \<mapsto> None)\<rparr> | Some _ \<Rightarrow> t)"

definition list_head :: "nat \<Rightarrow> 'e ktable \<Rightarrow> addr option" where
  "list_head idx t = (case hash_vector t idx of None \<Rightarrow> None | Some h \<Rightarrow> h)"

text \<open>The search loop: the address of the first node with the key.\<close>

fun find_node :: "nat \<Rightarrow> key \<Rightarrow> (addr \<rightharpoonup> 'e hnode) \<Rightarrow> addr option \<Rightarrow> addr option run" where
  "find_node 0 k hp cur = Out_of_fuel"
| "find_node (Suc fuel) k hp cur =
     (case cur of
        None \<Rightarrow> Done None
      | Some a \<Rightarrow>
          (case hp a of
             None \<Rightarrow> Faulted
           | Some n \<Rightarrow> if h_key n = k then Done (Some a) else find_node fuel k hp (h_next n)))"

text \<open>
  \<open>getElement\<close> returns its code and what it stores through \<open>element_ptr\<close>.
\<close>

definition getElement :: "nat \<Rightarrow> (key \<Rightarrow> u32) \<Rightarrow> key \<Rightarrow> 'e ktable \<Rightarrow> (int \<times> 'e option \<times> 'e ktable) run" where
  "getElement fuel H k t =
     (let idx = slot_of H k t; t1 = getListByHash idx t in
      case list_head idx t1 of
        None \<Rightarrow> Done (- 2, None, t1)
      | Some h \<Rightarrow>
          (case find_node fuel k (k_heap t1) (Some h) of
             Done None \<Rightarrow> Done (- 3, None, t1)
           | Done (Some a) \<Rightarrow>
               (case k_heap t1 a of None \<Rightarrow> Faulted | Some n \<Rightarrow> Done (0, Some (h_element n), t1))
           | Faulted \<Rightarrow> Faulted
           | Out_of_fuel \<Rightarrow> Out_of_fuel))"

text \<open>
  \<open>addElement\<close> looks for the key with a null \<open>element_ptr\<close>: finding it is a store through the null
  pointer. \<open>a\<close> is the address of the new node.
\<close>

definition addElement :: "nat \<Rightarrow> (key \<Rightarrow> u32) \<Rightarrow> addr \<Rightarrow> key \<Rightarrow> 'e \<Rightarrow> 'e ktable \<Rightarrow> (int \<times> 'e ktable) run" where
  "addElement fuel H a k e t =
     (case getElement fuel H k t of
        Faulted \<Rightarrow> Faulted
      | Out_of_fuel \<Rightarrow> Out_of_fuel
      | Done (_, Some _, _) \<Rightarrow> Faulted
      | Done (_, None, t1) \<Rightarrow>
          (let idx = slot_of H k t1; t2 = getListByHash idx t1 in
           case list_head idx t2 of
             None \<Rightarrow>
               Done (0, t2\<lparr>k_heap := (k_heap t2)(a \<mapsto> \<lparr>h_element = e, h_key = k, h_next = None, h_prev = None\<rparr>),
                          hash_vector := (hash_vector t2)(idx \<mapsto> Some a)\<rparr>)
           | Some c \<Rightarrow>
               (case k_heap t2 c of
                  None \<Rightarrow> Faulted
                | Some n \<Rightarrow>
                    Done (0, t2\<lparr>k_heap := (k_heap t2)(c \<mapsto> n\<lparr>h_prev := Some a\<rparr>,
                                  a \<mapsto> \<lparr>h_element = e, h_key = k, h_next = Some c, h_prev = None\<rparr>),
                               hash_vector := (hash_vector t2)(idx \<mapsto> Some a)\<rparr>))))"

definition removeElement :: "nat \<Rightarrow> (key \<Rightarrow> u32) \<Rightarrow> key \<Rightarrow> 'e ktable \<Rightarrow> 'e ktable run" where
  "removeElement fuel H k t =
     (let idx = slot_of H k t; t1 = getListByHash idx t in
      case find_node fuel k (k_heap t1) (list_head idx t1) of
        Faulted \<Rightarrow> Faulted
      | Out_of_fuel \<Rightarrow> Out_of_fuel
      | Done None \<Rightarrow> Done t1
      | Done (Some a) \<Rightarrow>
          (case k_heap t1 a of
             None \<Rightarrow> Faulted
           | Some n \<Rightarrow>
               (case h_prev n of
                  Some p \<Rightarrow>
                    (case h_next n of
                       None \<Rightarrow> Faulted
                     | Some s \<Rightarrow>
                         (case k_heap t1 s of
                            None \<Rightarrow> Faulted
                          | Some sn \<Rightarrow>
                              Done (t1\<lparr>k_heap := ((k_heap t1)(s \<mapsto> sn\<lparr>h_prev := Some p\<rparr>))(a := None)\<rparr>)))
                | None \<Rightarrow>
                    Done (t1\<lparr>hash_vector := (hash_vector t1)(idx \<mapsto> h_next n), k_heap := (k_heap t1)(a := None)\<rparr>))))"

text \<open>\<open>clear\<close>: the loop over one list, and over all of them.\<close>

fun clear_list :: "nat \<Rightarrow> addr option \<Rightarrow> (addr \<rightharpoonup> 'e hnode) \<Rightarrow> (addr \<rightharpoonup> 'e hnode) run" where
  "clear_list 0 cur hp = Out_of_fuel"
| "clear_list (Suc fuel) cur hp =
     (case cur of
        None \<Rightarrow> Done hp
      | Some a \<Rightarrow> (case hp a of None \<Rightarrow> Faulted | Some n \<Rightarrow> clear_list fuel (h_next n) (hp(a := None))))"

fun clear_slots :: "nat \<Rightarrow> nat list \<Rightarrow> 'e ktable \<Rightarrow> 'e ktable run" where
  "clear_slots fuel [] t = Done t"
| "clear_slots fuel (idx # is) t =
     (case hash_vector t idx of
        None \<Rightarrow> clear_slots fuel is t
      | Some h \<Rightarrow>
          (case clear_list fuel h (k_heap t) of
             Done hp \<Rightarrow> clear_slots fuel is (t\<lparr>k_heap := hp, hash_vector := (hash_vector t)(idx \<mapsto> None)\<rparr>)
           | Faulted \<Rightarrow> Faulted
           | Out_of_fuel \<Rightarrow> Out_of_fuel))"

definition kt_clear :: "nat \<Rightarrow> 'e ktable \<Rightarrow> 'e ktable run" where
  "kt_clear fuel t = clear_slots fuel [0..<unat (hashsize (hash_hashpower t))] t"

definition fast_hash :: "key \<Rightarrow> u32" where
  "fast_hash k = hash 0 (\<lambda>i. if i < length k then k ! i else 0) (length k) 0"

section \<open>Chains\<close>

text \<open>
  \<open>nodes hp pv p L\<close>: from \<open>p\<close> on the nodes of \<open>L\<close> are linked in both directions, the first one back to \<open>pv\<close>.
\<close>

fun nodes :: "(addr \<rightharpoonup> 'e hnode) \<Rightarrow> addr option \<Rightarrow> addr option \<Rightarrow> addr list \<Rightarrow> bool" where
  "nodes hp pv p [] = (p = None)"
| "nodes hp pv p (a # L) =
     (p = Some a \<and> (\<exists>n. hp a = Some n \<and> h_prev n = pv \<and> nodes hp (Some a) (h_next n) L))"

definition key_at :: "(addr \<rightharpoonup> 'e hnode) \<Rightarrow> addr \<Rightarrow> key" where
  "key_at hp a = h_key (the (hp a))"

definition lookup_in :: "(addr \<rightharpoonup> 'e hnode) \<Rightarrow> addr list \<Rightarrow> key \<Rightarrow> 'e option" where
  "lookup_in hp L k = map_option (\<lambda>a. h_element (the (hp a))) (find (\<lambda>a. key_at hp a = k) L)"

text \<open>The invariant: the chains of the slots, their nodes distinct and in the slot of their key.\<close>

definition kt_inv :: "(key \<Rightarrow> u32) \<Rightarrow> 'e ktable \<Rightarrow> (nat \<Rightarrow> addr list) \<Rightarrow> bool" where
  "kt_inv H t L \<longleftrightarrow>
     (\<forall>i. nodes (k_heap t) None (list_head i t) (L i) \<and> distinct (L i)
        \<and> (\<forall>a \<in> set (L i). slot_of H (key_at (k_heap t) a) t = i))
     \<and> (\<forall>i j. i \<noteq> j \<longrightarrow> set (L i) \<inter> set (L j) = {})"

text \<open>The abstraction: the table as a map.\<close>

definition kt_map :: "(key \<Rightarrow> u32) \<Rightarrow> 'e ktable \<Rightarrow> (nat \<Rightarrow> addr list) \<Rightarrow> key \<rightharpoonup> 'e" where
  "kt_map H t L k = lookup_in (k_heap t) (L (slot_of H k t)) k"

lemma nodes_cong: "(\<And>x. x \<in> set L \<Longrightarrow> hp' x = hp x) \<Longrightarrow> nodes hp' pv p L = nodes hp pv p L"
  by (induction L arbitrary: pv p) auto

lemma nodes_in: "nodes hp pv p L \<Longrightarrow> a \<in> set L \<Longrightarrow> \<exists>n. hp a = Some n"
  by (induction L arbitrary: pv p) auto

lemma nodes_head: "nodes hp pv p L \<Longrightarrow> p = (case L of [] \<Rightarrow> None | a # _ \<Rightarrow> Some a)"
  by (cases L) auto

lemma lookup_in_cong: "(\<And>x. x \<in> set L \<Longrightarrow> h_key (the (hp' x)) = h_key (the (hp x)) \<and> h_element (the (hp' x)) = h_element (the (hp x)))
    \<Longrightarrow> lookup_in hp' L k = lookup_in hp L k"
  by (induction L) (auto simp: lookup_in_def key_at_def)

lemma find_node_run:
  "nodes hp pv p L \<Longrightarrow> length L < fuel \<Longrightarrow> find_node fuel k hp p = Done (find (\<lambda>a. key_at hp a = k) L)"
proof (induction L arbitrary: pv p fuel)
  case Nil
  then show ?case by (cases fuel) auto
next
  case (Cons a L)
  then obtain f where "fuel = Suc f" by (cases fuel) auto
  with Cons show ?case by (auto simp: key_at_def)
qed

lemma getListByHash_same [simp]:
  "k_heap (getListByHash i t) = k_heap t" "hash_hashpower (getListByHash i t) = hash_hashpower t"
  "list_head j (getListByHash i t) = list_head j t" "slot_of H k (getListByHash i t) = slot_of H k t"
  by (auto simp: getListByHash_def list_head_def slot_of_def split: option.split)

lemma getListByHash_idem [simp]: "getListByHash i (getListByHash i t) = getListByHash i t"
  by (auto simp: getListByHash_def split: option.split)

lemma kt_inv_getList: "kt_inv H (getListByHash i t) L = kt_inv H t L"
  by (simp add: kt_inv_def)

lemma kt_map_getList: "kt_map H (getListByHash i t) L = kt_map H t L"
  by (simp add: kt_map_def fun_eq_iff)

section \<open>The table is a map, while nothing is removed\<close>

lemma kt_inv_new: "kt_inv H (kt_new p) (\<lambda>_. [])"
  by (simp add: kt_inv_def kt_new_def list_head_def)

lemma getElement_run:
  assumes inv: "kt_inv H t L" and fuel: "length (L (slot_of H k t)) < fuel"
  shows "getElement fuel H k t = Done
    ((case kt_map H t L k of Some _ \<Rightarrow> 0 | None \<Rightarrow> if L (slot_of H k t) = [] then - 2 else - 3),
     kt_map H t L k, getListByHash (slot_of H k t) t)"
proof -
  let ?i = "slot_of H k t" and ?hp = "k_heap t"
  have n: "nodes ?hp None (list_head ?i t) (L ?i)" using inv by (simp add: kt_inv_def)
  show ?thesis
  proof (cases "L ?i")
    case Nil
    then show ?thesis using n by (simp add: getElement_def Let_def kt_map_def lookup_in_def)
  next
    case (Cons h hs)
    then have lh: "list_head ?i t = Some h" using n by simp
    have f: "find_node fuel k ?hp (Some h) = Done (find (\<lambda>a. key_at ?hp a = k) (L ?i))"
      using find_node_run [OF n fuel] lh by simp
    show ?thesis
    proof (cases "find (\<lambda>a. key_at ?hp a = k) (L ?i)")
      case None
      then show ?thesis using f lh Cons by (simp add: getElement_def Let_def kt_map_def lookup_in_def)
    next
      case (Some a)
      then have "a \<in> set (L ?i)" by (auto simp: find_Some_iff)
      then obtain nd where "?hp a = Some nd" using nodes_in [OF n] by blast
      with Some f lh Cons show ?thesis by (simp add: getElement_def Let_def kt_map_def lookup_in_def)
    qed
  qed
qed

lemma addElement_run:
  assumes inv: "kt_inv H t L" and fuel: "length (L (slot_of H k t)) < fuel" and a: "k_heap t a = None"
    and new: "kt_map H t L k = None"
  shows "\<exists>t'. addElement fuel H a k e t = Done (0, t')
    \<and> kt_inv H t' (L(slot_of H k t := a # L (slot_of H k t)))
    \<and> kt_map H t' (L(slot_of H k t := a # L (slot_of H k t))) = (kt_map H t L)(k \<mapsto> e)
    \<and> (\<forall>x. x \<noteq> a \<longrightarrow> k_heap t x = None \<longrightarrow> k_heap t' x = None)"
proof -
  let ?i = "slot_of H k t" and ?hp = "k_heap t"
  let ?L = "L(?i := a # L ?i)"
  define hp where "hp = (case L ?i of [] \<Rightarrow> ?hp | c # _ \<Rightarrow> ?hp(c \<mapsto> (the (?hp c))\<lparr>h_prev := Some a\<rparr>))
      (a \<mapsto> \<lparr>h_element = e, h_key = k, h_next = list_head ?i t, h_prev = None\<rparr>)"
  define t' where "t' = (getListByHash ?i t)\<lparr>k_heap := hp, hash_vector := (hash_vector (getListByHash ?i t))(?i \<mapsto> Some a)\<rparr>"
  have ch: "nodes ?hp None (list_head i t) (L i)" "distinct (L i)" "b \<in> set (L i) \<Longrightarrow> slot_of H (key_at ?hp b) t = i"
    and dj: "i \<noteq> j \<Longrightarrow> set (L i) \<inter> set (L j) = {}" for i j b
    using inv by (auto simp: kt_inv_def)
  have fresh: "a \<notin> set (L i)" for i using nodes_in [OF ch(1), of a i] a by auto
  have sl: "slot_of H k' t' = slot_of H k' t" for k' by (simp add: t'_def slot_of_def)
  have lh: "list_head i t' = (if i = ?i then Some a else list_head i t)" for i
    by (auto simp: t'_def list_head_def getListByHash_def split: option.split)
  have same: "h_key (the (hp x)) = h_key (the (?hp x)) \<and> h_element (the (hp x)) = h_element (the (?hp x))
      \<and> h_next (the (hp x)) = h_next (the (?hp x))" if "x \<noteq> a" for x
    using that by (auto simp: hp_def split: list.split)
  have run: "addElement fuel H a k e t = Done (0, t')"
  proof (cases "L ?i")
    case Nil
    then show ?thesis
      using getElement_run [OF inv fuel] new ch(1) [of ?i]
      by (simp add: addElement_def t'_def hp_def Let_def)
  next
    case (Cons c cs)
    then obtain n where "?hp c = Some n" "list_head ?i t = Some c" using ch(1) [of ?i] by auto
    then show ?thesis
      using getElement_run [OF inv fuel] new Cons
      by (simp add: addElement_def t'_def hp_def Let_def)
  qed
  have others: "nodes hp None (list_head i t) (L i)" if "i \<noteq> ?i" for i
  proof -
    have "hp x = ?hp x" if "x \<in> set (L i)" for x
      using that fresh [of i] dj [OF \<open>i \<noteq> ?i\<close>] by (cases "L ?i") (auto simp: hp_def)
    then show ?thesis using ch(1) [of i] nodes_cong [of "L i" hp ?hp] by simp
  qed
  have this_one: "nodes hp None (Some a) (a # L ?i)"
  proof (cases "L ?i")
    case Nil
    then show ?thesis using ch(1) [of ?i] by (simp add: hp_def)
  next
    case (Cons c cs)
    then obtain n where n: "?hp c = Some n" "list_head ?i t = Some c" "nodes ?hp (Some c) (h_next n) cs"
      using ch(1) [of ?i] by auto
    have "hp x = ?hp x" if "x \<in> set cs" for x
      using that fresh [of ?i] ch(2) [of ?i] Cons by (auto simp: hp_def)
    then have "nodes hp (Some c) (h_next n) cs" using n(3) nodes_cong [of cs hp ?hp] by simp
    moreover have "c \<noteq> a" using fresh [of ?i] Cons by auto
    ultimately show ?thesis using n Cons by (simp add: hp_def)
  qed
  have keys: "key_at hp x = key_at ?hp x" if "x \<noteq> a" for x using same [OF that] by (simp add: key_at_def)
  have ka: "key_at hp a = k" and kh: "k_heap t' = hp" by (simp_all add: key_at_def hp_def t'_def)
  have "kt_inv H t' ?L"
    unfolding kt_inv_def kh sl
  proof (intro conjI allI impI)
    fix i
    show "nodes hp None (list_head i t') (?L i)" using this_one others by (simp add: lh)
    show "distinct (?L i)" using ch(2) fresh by simp
    show "\<forall>b \<in> set (?L i). slot_of H (key_at hp b) t = i"
      using ch(3) fresh keys ka by (metis fun_upd_apply set_ConsD)
    fix j assume "i \<noteq> j"
    with dj [OF this] fresh show "set (?L i) \<inter> set (?L j) = {}" by auto
  qed
  moreover have "kt_map H t' ?L k' = ((kt_map H t L)(k \<mapsto> e)) k'" for k'
  proof -
    have "lookup_in hp (L i) k' = lookup_in ?hp (L i) k'" for i
      using fresh [of i] same by (intro lookup_in_cong) metis
    moreover have "lookup_in hp (a # M) k' = (if k' = k then Some e else lookup_in hp M k')" for M
      using ka by (simp add: lookup_in_def hp_def)
    ultimately show ?thesis unfolding kt_map_def sl kh by (cases "k' = k") auto
  qed
  moreover have "k_heap t' x = None" if "x \<noteq> a" "?hp x = None" for x
    using that nodes_in [OF ch(1) [of ?i], of x] by (cases "L ?i") (auto simp: kh hp_def)
  ultimately show ?thesis using run by (intro exI [of _ t']) (simp add: fun_eq_iff)
qed

lemma clear_list_run:
  "nodes hp pv p L \<Longrightarrow> distinct L \<Longrightarrow> length L < fuel \<Longrightarrow> clear_list fuel p hp = Done (hp |` (- set L))"
proof (induction L arbitrary: hp pv p fuel)
  case Nil
  then show ?case by (cases fuel) (auto simp: restrict_map_def)
next
  case (Cons a L)
  then obtain f n where f: "fuel = Suc f" and n: "hp a = Some n" "p = Some a" "nodes hp (Some a) (h_next n) L"
    by (cases fuel) auto
  have "nodes (hp(a := None)) (Some a) (h_next n) L = nodes hp (Some a) (h_next n) L"
    by (rule nodes_cong) (use Cons.prems(2) in auto)
  with n(3) have l2: "nodes (hp(a := None)) (Some a) (h_next n) L" by simp
  have "clear_list f (h_next n) (hp(a := None)) = Done ((hp(a := None)) |` (- set L))"
    by (rule Cons.IH [OF l2]) (use Cons.prems f in simp_all)
  moreover have "(hp(a := None)) |` (- set L) = hp |` (- set (a # L))" by (auto simp: restrict_map_def fun_eq_iff)
  ultimately show ?case using f n by simp
qed

section \<open>Removing\<close>

lemma nodes_split: "nodes hp pv p (K @ a # M) \<Longrightarrow>
    \<exists>n. hp a = Some n \<and> h_prev n = (if K = [] then pv else Some (last K)) \<and> nodes hp (Some a) (h_next n) M"
  by (induction K arbitrary: pv p) (auto split: if_splits)

lemma find_first: "\<forall>b \<in> set K. \<not> P b \<Longrightarrow> P a \<Longrightarrow> find P (K @ a # M) = Some a"
  by (induction K) auto

text \<open>The predecessor of a removed node keeps pointing at it.\<close>

lemma find_dangling:
  "nodes hp pv p (K @ b # a # M) \<Longrightarrow> distinct (K @ b # a # M) \<Longrightarrow> \<forall>c \<in> set (K @ [b]). key_at hp c \<noteq> k \<Longrightarrow> length K + 2 < fuel
    \<Longrightarrow> (\<And>x. x \<in> set (K @ [b]) \<Longrightarrow> hp' x = hp x) \<Longrightarrow> hp' a = None \<Longrightarrow> find_node fuel k hp' p = Faulted"
proof (induction K arbitrary: pv p fuel)
  case Nil
  then obtain f where "fuel = Suc (Suc f)" by (cases fuel) (auto, metis Suc_lessE less_Suc_eq_0_disj not_less_eq)
  with Nil show ?case by (auto simp: key_at_def)
next
  case (Cons c K)
  then obtain f where "fuel = Suc f" by (cases fuel) auto
  with Cons show ?case by (auto simp: key_at_def)
qed

lemma remove_behind_first:
  assumes inv: "kt_inv H t L" and split: "L (slot_of H k t) = K @ b # a # M" and ka: "key_at (k_heap t) a = k"
    and first: "\<forall>c \<in> set (K @ [b]). key_at (k_heap t) c \<noteq> k" and fuel: "length (L (slot_of H k t)) < fuel"
  shows "M = [] \<Longrightarrow> removeElement fuel H k t = Faulted"
    and "M \<noteq> [] \<Longrightarrow> \<exists>t'. removeElement fuel H k t = Done t' \<and> getElement fuel H k t' = Faulted"
proof -
  let ?i = "slot_of H k t" and ?hp = "k_heap t"
  have n: "nodes ?hp None (list_head ?i t) ((K @ [b]) @ a # M)" and d: "distinct (K @ b # a # M)"
    using inv unfolding kt_inv_def by (metis split append.assoc append_Cons append_Nil)+
  from nodes_split [OF n] obtain nd where nd: "?hp a = Some nd" "h_prev nd = Some b" "nodes ?hp (Some a) (h_next nd) M" by auto
  have f: "find_node fuel k ?hp (list_head ?i t) = Done (Some a)"
    using find_node_run [OF n, of fuel k] find_first [of "K @ [b]" "\<lambda>a. key_at ?hp a = k" a M] first ka fuel split by simp
  show "M = [] \<Longrightarrow> removeElement fuel H k t = Faulted"
    using f nd by (simp add: removeElement_def Let_def)
  assume "M \<noteq> []"
  then obtain s S sn where s: "M = s # S" "h_next nd = Some s" "?hp s = Some sn" using nd(3) by (cases M) auto
  define hp where "hp = (?hp(s \<mapsto> sn\<lparr>h_prev := Some b\<rparr>))(a := None)"
  let ?t = "(getListByHash ?i t)\<lparr>k_heap := hp\<rparr>"
  have r: "removeElement fuel H k t = Done ?t"
    using f nd s by (simp add: removeElement_def Let_def hp_def)
  have "slot_of H k ?t = ?i" "list_head ?i (getListByHash ?i ?t) = list_head ?i t"
    by (simp_all add: slot_of_def) (simp add: getListByHash_def list_head_def split: option.split)
  moreover have "find_node fuel k hp (list_head ?i t) = Faulted"
    using n d first fuel split s by (intro find_dangling [of ?hp None _ K b a M]) (auto simp: hp_def)
  moreover have "list_head ?i t \<noteq> None" using n by (cases K) auto
  ultimately have "getElement fuel H k ?t = Faulted" by (auto simp: getElement_def Let_def)
  with r show "\<exists>t'. removeElement fuel H k t = Done t' \<and> getElement fuel H k t' = Faulted" by blast
qed

section \<open>Properties\<close>

text \<open>Adding one element after the other; each entry brings the address of its node.\<close>

fun kt_adds :: "nat \<Rightarrow> (key \<Rightarrow> u32) \<Rightarrow> (addr \<times> key \<times> 'e) list \<Rightarrow> 'e ktable \<Rightarrow> 'e ktable run" where
  "kt_adds fuel H [] t = Done t"
| "kt_adds fuel H ((a, k, e) # xs) t =
     (case addElement fuel H a k e t of
        Done (_, t') \<Rightarrow> kt_adds fuel H xs t'
      | Faulted \<Rightarrow> Faulted
      | Out_of_fuel \<Rightarrow> Out_of_fuel)"

lemma kt_adds_run:
  assumes "kt_inv H t L" and "\<forall>i. length (L i) + length xs < fuel" and "distinct (map fst xs)"
    and "\<forall>a \<in> fst ` set xs. k_heap t a = None" and "distinct (map (fst \<circ> snd) xs)"
    and "\<forall>k \<in> (fst \<circ> snd) ` set xs. kt_map H t L k = None"
  shows "\<exists>t' L'. kt_adds fuel H xs t = Done t' \<and> kt_inv H t' L' \<and> (\<forall>i. length (L' i) < fuel)
    \<and> kt_map H t' L' = kt_map H t L ++ map_of (map snd xs)"
  using assms
proof (induction xs arbitrary: t L)
  case (Cons x xs)
  obtain a k e where x: "x = (a, k, e)" by (cases x)
  let ?i = "slot_of H k t" and ?L = "L(slot_of H k t := a # L (slot_of H k t))"
  have p: "length (L ?i) < fuel" "k_heap t a = None" "kt_map H t L k = None"
    using Cons.prems(2,4,6) x by (auto intro: le_less_trans [of _ "length (L ?i) + length (x # xs)"])
  from addElement_run [OF Cons.prems(1) p, of e] obtain t1 where
    t1: "addElement fuel H a k e t = Done (0, t1)" "kt_inv H t1 ?L" "kt_map H t1 ?L = (kt_map H t L)(k \<mapsto> e)"
    "\<forall>x. x \<noteq> a \<longrightarrow> k_heap t x = None \<longrightarrow> k_heap t1 x = None" by blast
  have c1: "\<forall>i. length (?L i) + length xs < fuel" using Cons.prems(2) by (auto dest: Suc_lessD)
  have c2: "\<forall>b \<in> fst ` set xs. k_heap t1 b = None" using t1(4) Cons.prems(3,4) x by fastforce
  have c3: "\<forall>k' \<in> (fst \<circ> snd) ` set xs. kt_map H t1 ?L k' = None"
    using Cons.prems(5,6) x unfolding t1(3) by (auto simp: image_iff)
  have d: "distinct (map fst xs)" "distinct (map (fst \<circ> snd) xs)" using Cons.prems(3,5) by (simp_all add: comp_def)
  from Cons.IH [OF t1(2) c1 d(1) c2 d(2) c3] obtain t' L' where
    r: "kt_adds fuel H xs t1 = Done t'" "kt_inv H t' L'" "\<forall>i. length (L' i) < fuel"
    and km: "kt_map H t' L' = kt_map H t1 ?L ++ map_of (map snd xs)" by blast
  have "k \<notin> dom (map_of (map snd xs))" using Cons.prems(5) x by (simp add: dom_map_of_conv_image_fst image_image)
  then have "(kt_map H t L)(k \<mapsto> e) ++ map_of (map snd xs) = kt_map H t L ++ map_of (map snd (x # xs))"
    using x by (auto simp: map_add_def fun_eq_iff split: option.split)
  with km t1(3) have "kt_map H t' L' = kt_map H t L ++ map_of (map snd (x # xs))" by (simp only:)
  moreover have "kt_adds fuel H (x # xs) t = Done t'" using x t1(1) r(1) by simp
  ultimately show ?case using r by blast
qed auto

lemma kt_adds_repeats:
  assumes "kt_inv H t L" and "\<forall>i. length (L i) + length xs < fuel" and "distinct (map fst xs)"
    and "\<forall>a \<in> fst ` set xs. k_heap t a = None"
    and "\<not> (distinct (map (fst \<circ> snd) xs) \<and> (\<forall>k \<in> (fst \<circ> snd) ` set xs. kt_map H t L k = None))"
  shows "kt_adds fuel H xs t = Faulted"
  using assms
proof (induction xs arbitrary: t L)
  case (Cons x xs)
  obtain a k e where x: "x = (a, k, e)" by (cases x)
  let ?L = "L(slot_of H k t := a # L (slot_of H k t))"
  have f: "length (L (slot_of H k t)) < fuel" using Cons.prems(2) by (meson add_lessD1)
  show ?case
  proof (cases "kt_map H t L k")
    case (Some e0)
    then show ?thesis using getElement_run [OF Cons.prems(1) f] x by (simp add: addElement_def)
  next
    case None
    have "k_heap t a = None" using Cons.prems(4) x by simp
    from addElement_run [OF Cons.prems(1) f this None, of e] obtain t1 where
      t1: "addElement fuel H a k e t = Done (0, t1)" "kt_inv H t1 ?L" "kt_map H t1 ?L = (kt_map H t L)(k \<mapsto> e)"
      "\<forall>x. x \<noteq> a \<longrightarrow> k_heap t x = None \<longrightarrow> k_heap t1 x = None" by blast
    have c1: "\<forall>i. length (?L i) + length xs < fuel" using Cons.prems(2) by (auto dest: Suc_lessD)
    have c2: "\<forall>b \<in> fst ` set xs. k_heap t1 b = None" using t1(4) Cons.prems(3,4) x by fastforce
    have c3: "\<not> (distinct (map (fst \<circ> snd) xs) \<and> (\<forall>k' \<in> (fst \<circ> snd) ` set xs. kt_map H t1 ?L k' = None))"
      using Cons.prems(5) None x unfolding t1(3) by (auto simp: image_iff comp_def split: if_splits)
    have "distinct (map fst xs)" using Cons.prems(3) by simp
    from Cons.IH [OF t1(2) c1 this c2 c3] show ?thesis using x t1(1) by simp
  qed
qed simp

text \<open>
  C22. The table is a map of the keys inserted once, whatever the hash function: after any sequence of
  insertions of distinct keys, colliding or not, \<open>getElement\<close> returns 0 and the element stored under
  the key if there is one, and a negative code and nothing otherwise. A sequence that inserts a key a
  second time never gets through: the code stores the element found through a null pointer.
\<close>

theorem hash_table_is_a_map:
  assumes "distinct (map fst xs)" and "length xs < fuel"
  shows "if distinct (map (fst \<circ> snd) xs)
    then \<exists>t. kt_adds fuel H xs (kt_new p) = Done t \<and>
      (\<forall>k. \<exists>code t'. getElement fuel H k t = Done (code, map_of (map snd xs) k, t')
          \<and> (code = 0 \<longleftrightarrow> map_of (map snd xs) k \<noteq> None) \<and> code \<le> 0)
    else kt_adds fuel H xs (kt_new p) = Faulted"
proof (cases "distinct (map (fst \<circ> snd) xs)")
  case True
  have e: "kt_map H (kt_new p) (\<lambda>_. []) = Map.empty" by (simp add: kt_map_def lookup_in_def fun_eq_iff)
  obtain t L where
    t: "kt_adds fuel H xs (kt_new p) = Done t" "kt_inv H t L" "\<forall>i. length (L i) < fuel" "kt_map H t L = map_of (map snd xs)"
    using kt_adds_run [OF kt_inv_new [of H p], of xs fuel] assms True unfolding e by (auto simp: kt_new_def)
  have "\<exists>code t'. getElement fuel H k t = Done (code, map_of (map snd xs) k, t')
          \<and> (code = 0 \<longleftrightarrow> map_of (map snd xs) k \<noteq> None) \<and> code \<le> 0" for k
    using getElement_run [OF t(2), of k fuel] t(3,4) by (auto split: option.splits)
  with t(1) True show ?thesis by simp
next
  case False
  then show ?thesis using kt_adds_repeats [OF kt_inv_new [of H p], of xs fuel] assms by (simp add: kt_new_def)
qed

theorem hash_table_is_a_map_witness:
  "(\<exists>t. kt_adds 3 fast_hash [(0, [1], ''a''), (1, [2], ''b'')] (kt_new 16) = Done t \<and>
    (\<exists>t'. getElement 3 fast_hash [2] t = Done (0, Some ''b'', t')))
   \<and> kt_adds 3 fast_hash [(0, [1], ''a''), (1, [1], ''b'')] (kt_new 16) = Faulted"
proof (rule conjI)
  from hash_table_is_a_map [of "[(0, [1], ''a''), (1, [2], ''b'')]" 3 fast_hash 16] obtain t where
    "kt_adds 3 fast_hash [(0, [1], ''a''), (1, [2], ''b'')] (kt_new 16) = Done t"
    "\<forall>k. \<exists>code t'. getElement 3 fast_hash k t = Done (code, map_of (map snd [(0, [1], ''a''), (1, [2], ''b'')]) k, t')
          \<and> (code = 0 \<longleftrightarrow> map_of (map snd [(0 :: nat, [1], ''a''), (1, [2], ''b'')]) k \<noteq> None) \<and> code \<le> 0" by force
  moreover from this(2) [rule_format, of "[2]"] have "\<exists>t'. getElement 3 fast_hash [2] t = Done (0, Some ''b'', t')" by force
  ultimately show "\<exists>t. kt_adds 3 fast_hash [(0, [1], ''a''), (1, [2], ''b'')] (kt_new 16) = Done t \<and>
    (\<exists>t'. getElement 3 fast_hash [2] t = Done (0, Some ''b'', t'))" by blast
  show "kt_adds 3 fast_hash [(0, [1], ''a''), (1, [1], ''b'')] (kt_new 16) = Faulted"
    using hash_table_is_a_map [of "[(0, [1], ''a''), (1, [1], ''b'')]" 3 fast_hash 16] by simp
qed

text \<open>
  Adding under a key that is in the table crashes instead of returning \<open>-1\<close>: the search is
  called with a null pointer for the result and stores the element it finds through it.
\<close>

theorem add_existing_key_faults:
  assumes "kt_inv H t L" and "length (L (slot_of H k t)) < fuel" and "kt_map H t L k = Some e0"
  shows "addElement fuel H a k e t = Faulted"
  using getElement_run [OF assms(1,2)] assms(3) by (simp add: addElement_def)

theorem add_existing_key_faults_witness:
  "kt_adds 3 (\<lambda>_. 0) [(0, [1], ''a''), (1, [1], ''b'')] (kt_new 16) = Faulted"
proof -
  let ?t = "\<lparr>hash_hashpower = 16, hash_vector = [0 \<mapsto> Some 0],
      k_heap = [0 \<mapsto> \<lparr>h_element = ''a'', h_key = [1], h_next = None, h_prev = None\<rparr>]\<rparr>"
  let ?L = "(\<lambda>_. [])(0 := [0])"
  have "kt_inv (\<lambda>_. 0) ?t ?L" by (auto simp: kt_inv_def list_head_def slot_of_def)
  then have "addElement 3 (\<lambda>_. 0) 1 [1] ''b'' ?t = Faulted"
    by (rule add_existing_key_faults [of _ _ ?L _ _ "''a''"]) (simp_all add: kt_map_def lookup_in_def slot_of_def key_at_def)
  moreover have "addElement 3 (\<lambda>_. 0) 0 [1] ''a'' (kt_new 16) = Done (0, ?t)"
    by (simp add: addElement_def getElement_def kt_new_def slot_of_def getListByHash_def list_head_def Let_def)
  ultimately show ?thesis by simp
qed

text \<open>
  \<open>removeElement\<close> works on the first node of a chain only. For a later node it relinks the
  successor but not the predecessor: if the node is the last of its chain the code follows a null
  pointer, and otherwise the freed node stays in the chain, so that the next search for the key
  reads freed memory.
\<close>

theorem remove_behind_first_breaks:
  assumes "kt_inv H t L" and "L (slot_of H k t) = K @ b # a # M" and "key_at (k_heap t) a = k"
    and "\<forall>c \<in> set (K @ [b]). key_at (k_heap t) c \<noteq> k" and "length (L (slot_of H k t)) < fuel"
  shows "if M = [] then removeElement fuel H k t = Faulted
         else \<exists>t'. removeElement fuel H k t = Done t' \<and> getElement fuel H k t' = Faulted"
  using remove_behind_first [OF assms] by simp

theorem remove_behind_first_breaks_witness:
  "\<exists>t. kt_adds 3 (\<lambda>_. 0) [(0, [1], ''a''), (1, [2], ''b'')] (kt_new 16) = Done t \<and> removeElement 3 (\<lambda>_. 0) [1] t = Faulted"
proof -
  let ?t = "\<lparr>hash_hashpower = 16, hash_vector = [0 \<mapsto> Some 1],
      k_heap = [0 \<mapsto> \<lparr>h_element = ''a'', h_key = [1], h_next = None, h_prev = Some 1\<rparr>,
                1 \<mapsto> \<lparr>h_element = ''b'', h_key = [2], h_next = Some 0, h_prev = None\<rparr>]\<rparr>"
  let ?L = "(\<lambda>_. [])(0 := [1, 0])"
  have "kt_inv (\<lambda>_. 0) ?t ?L" by (auto simp: kt_inv_def list_head_def slot_of_def)
  then have "removeElement 3 (\<lambda>_. 0) [1] ?t = Faulted"
    using remove_behind_first_breaks [of "\<lambda>_. 0" ?t ?L "[1]" "[]" 1 0 "[]" 3] by (simp add: slot_of_def key_at_def)
  moreover have "kt_adds 3 (\<lambda>_. 0) [(0, [1], ''a''), (1, [2], ''b'')] (kt_new 16) = Done ?t"
    by (simp add: addElement_def getElement_def kt_new_def slot_of_def getListByHash_def list_head_def Let_def numeral_3_eq_3)
  ultimately show ?thesis by blast
qed

end
