(* ===== verification/Memory_Pool.thy ===== *)
theory Memory_Pool
  imports Chaos_Prelude
begin

text \<open>
  The reference-counted object pool (\<open>pool/CPoolMemory.h\<close>). A pointer
  into the pool is the index of its record. Every operation holds the pool's mutex.
\<close>

section \<open>The pool\<close>

record pool_rec =
  location :: int
  memRetain :: int

record mpool =
  memoryPool :: "pool_rec list"
  unallocatedRecordIndex :: "nat list"
  usedRecordMap :: "nat list"

definition new_pool :: "nat \<Rightarrow> mpool" where
  "new_pool initialPoolSize =
     \<lparr>memoryPool = replicate initialPoolSize \<lparr>location = 0, memRetain = 0\<rparr>,
      unallocatedRecordIndex = [0..<initialPoolSize], usedRecordMap = []\<rparr>"

definition getObjectNewInstance :: "mpool \<Rightarrow> nat option \<times> mpool" where
  "getObjectNewInstance p =
     (case unallocatedRecordIndex p of
        [] \<Rightarrow> (None, p)
      | locIdx # rest \<Rightarrow>
          (let r = memoryPool p ! locIdx in
           (Some locIdx,
            p\<lparr>unallocatedRecordIndex := rest,
              memoryPool := (memoryPool p)[locIdx := r\<lparr>location := int locIdx, memRetain := memRetain r + 1\<rparr>],
              usedRecordMap := List.insert locIdx (usedRecordMap p)\<rparr>)))"

text \<open>\<open>release\<close> tells whether it has run the object's destructor.\<close>

definition pool_release :: "nat option \<Rightarrow> mpool \<Rightarrow> bool \<times> mpool" where
  "pool_release pointer p =
     (case pointer of
        None \<Rightarrow> (False, p)
      | Some i \<Rightarrow>
          if i \<notin> set (usedRecordMap p) then (False, p)
          else
            (let r = memoryPool p ! i; r1 = r\<lparr>memRetain := memRetain r - 1\<rparr>;
                 p1 = p\<lparr>memoryPool := (memoryPool p)[i := r1]\<rparr> in
             if memRetain r1 = 0 then
               (True, p1\<lparr>unallocatedRecordIndex := unallocatedRecordIndex p1 @ [nat (location r1)],
                         memoryPool := (memoryPool p1)[i := \<lparr>location = 0, memRetain = 0\<rparr>]\<rparr>)
             else (False, p1)))"

definition pool_retain :: "nat option \<Rightarrow> mpool \<Rightarrow> mpool" where
  "pool_retain pointer p =
     (case pointer of
        None \<Rightarrow> p
      | Some i \<Rightarrow>
          if i \<notin> set (usedRecordMap p) then p
          else (let r = memoryPool p ! i in p\<lparr>memoryPool := (memoryPool p)[i := r\<lparr>memRetain := memRetain r + 1\<rparr>]\<rparr>))"

section \<open>Counting the owners\<close>

text \<open>
  \<open>owners i\<close> is the number of references to record \<open>i\<close> that the clients hold.
\<close>

definition pool_inv :: "mpool \<Rightarrow> (nat \<Rightarrow> nat) \<Rightarrow> bool" where
  "pool_inv p owners \<longleftrightarrow>
     distinct (unallocatedRecordIndex p)
     \<and> (\<forall>i. i \<in> set (unallocatedRecordIndex p) \<longleftrightarrow> i < length (memoryPool p) \<and> owners i = 0)
     \<and> (\<forall>i < length (memoryPool p). memRetain (memoryPool p ! i) = int (owners i)
          \<and> (owners i > 0 \<longrightarrow> location (memoryPool p ! i) = int i \<and> i \<in> set (usedRecordMap p)))
     \<and> (\<forall>i. owners i > 0 \<longrightarrow> i < length (memoryPool p))"

lemma pool_inv_new: "pool_inv (new_pool n) (\<lambda>_. 0)"
  by (auto simp: pool_inv_def new_pool_def)

lemma free_record:
  assumes "pool_inv p owners" and "i \<in> set (unallocatedRecordIndex p)"
  shows "i < length (memoryPool p)" and "owners i = 0" and "memRetain (memoryPool p ! i) = 0"
proof -
  from assms show i: "i < length (memoryPool p)" and o: "owners i = 0" by (simp_all add: pool_inv_def)
  from assms(1) i have "memRetain (memoryPool p ! i) = int (owners i)" by (simp add: pool_inv_def)
  with o show "memRetain (memoryPool p ! i) = 0" by simp
qed

lemma pool_alloc_inv:
  assumes inv: "pool_inv p owners"
  shows "case getObjectNewInstance p of
      (None, p') \<Rightarrow> p' = p \<and> (\<forall>i < length (memoryPool p). owners i > 0)
    | (Some i, p') \<Rightarrow> i < length (memoryPool p) \<and> owners i = 0 \<and> pool_inv p' (owners(i := 1))
                    \<and> length (memoryPool p') = length (memoryPool p)"
proof (cases "unallocatedRecordIndex p")
  case Nil
  then have "owners i > 0" if "i < length (memoryPool p)" for i
    using inv that by (force simp: pool_inv_def)
  then show ?thesis using Nil by (simp add: getObjectNewInstance_def)
next
  case (Cons j rest)
  then have j: "j < length (memoryPool p)" "owners j = 0" "memRetain (memoryPool p ! j) = 0"
    using free_record [OF inv, of j] by simp_all
  have "i \<in> set rest \<longleftrightarrow> i < length (memoryPool p) \<and> (owners(j := 1)) i = 0" for i
    using inv Cons unfolding pool_inv_def by (cases "i = j") (simp_all, metis list.set_intros(1) set_ConsD)
  moreover have "distinct rest" using inv Cons by (simp add: pool_inv_def)
  ultimately show ?thesis
    using inv Cons j by (auto simp: getObjectNewInstance_def pool_inv_def Let_def nth_list_update)
qed

lemma pool_retain_inv:
  assumes "pool_inv p owners" and "owners i > 0"
  shows "pool_inv (pool_retain (Some i) p) (owners(i := owners i + 1))"
  using assms unfolding pool_inv_def by (auto simp: pool_retain_def Let_def nth_list_update)

lemma pool_release_inv:
  assumes inv: "pool_inv p owners" and own: "owners i > 0"
  shows "fst (pool_release (Some i) p) = (owners i = 1) \<and> pool_inv (snd (pool_release (Some i) p)) (owners(i := owners i - 1))"
proof -
  have i: "i < length (memoryPool p)" "memRetain (memoryPool p ! i) = int (owners i)" "location (memoryPool p ! i) = int i"
    "i \<in> set (usedRecordMap p)" using inv own by (auto simp: pool_inv_def)
  have ni: "i \<notin> set (unallocatedRecordIndex p)" using inv own by (auto simp: pool_inv_def)
  show ?thesis
  proof (cases "owners i = 1")
    case True
    then show ?thesis
      using inv i ni unfolding pool_inv_def by (auto simp: pool_release_def Let_def nth_list_update)
  next
    case False
    then show ?thesis
      using inv own i ni unfolding pool_inv_def by (auto simp: pool_release_def Let_def nth_list_update of_nat_diff)
  qed
qed

section \<open>Clients\<close>

text \<open>Calls of the clients; one who owns no reference does not retain or release.\<close>

datatype pool_op = New | Retain nat | Release nat

fun pool_run :: "pool_op list \<Rightarrow> mpool \<times> (nat \<Rightarrow> nat) \<Rightarrow> (mpool \<times> (nat \<Rightarrow> nat)) option" where
  "pool_run [] s = Some s"
| "pool_run (New # ops) (p, owners) =
     (case getObjectNewInstance p of
        (None, p') \<Rightarrow> pool_run ops (p', owners)
      | (Some i, p') \<Rightarrow> pool_run ops (p', owners(i := owners i + 1)))"
| "pool_run (Retain i # ops) (p, owners) =
     (if owners i > 0 then pool_run ops (pool_retain (Some i) p, owners(i := owners i + 1)) else None)"
| "pool_run (Release i # ops) (p, owners) =
     (if owners i > 0 then pool_run ops (snd (pool_release (Some i) p), owners(i := owners i - 1)) else None)"

lemma pool_run_inv:
  "pool_run ops (p, owners) = Some (p', owners') \<Longrightarrow> pool_inv p owners
    \<Longrightarrow> pool_inv p' owners' \<and> length (memoryPool p') = length (memoryPool p)"
proof (induction ops arbitrary: p owners)
  case (Cons op ops)
  show ?case
  proof (cases op)
    case New
    obtain r q where r: "getObjectNewInstance p = (r, q)" by (cases "getObjectNewInstance p")
    show ?thesis
    proof (cases r)
      case None
      then show ?thesis using Cons New r pool_alloc_inv [OF Cons.prems(2)] by auto
    next
      case (Some a)
      with r pool_alloc_inv [OF Cons.prems(2)] have a: "owners a = 0" "pool_inv q (owners(a := 1))"
        "length (memoryPool q) = length (memoryPool p)" by auto
      with Cons.prems(1) New r Some have "pool_run ops (q, owners(a := 1)) = Some (p', owners')" by simp
      from Cons.IH [OF this a(2)] a(3) show ?thesis by simp
    qed
  next
    case (Retain i)
    with Cons pool_retain_inv [OF Cons.prems(2), of i] have "pool_inv p' owners' \<and>
        length (memoryPool p') = length (memoryPool (pool_retain (Some i) p))" by (auto split: if_splits)
    then show ?thesis by (simp add: pool_retain_def Let_def split: if_splits)
  next
    case (Release i)
    with Cons pool_release_inv [OF Cons.prems(2), of i] have "pool_inv p' owners' \<and>
        length (memoryPool p') = length (memoryPool (snd (pool_release (Some i) p)))" by (auto split: if_splits)
    then show ?thesis by (simp add: pool_release_def Let_def split: if_splits)
  qed
qed simp

section \<open>Properties\<close>

text \<open>
  Used by clients that release and retain only what they own, the pool counts right: after any
  calls, a new instance is a record that nobody owns, and there is one unless every record of the
  pool is owned; releasing a reference runs the object's destructor exactly when it was the last one.
\<close>

theorem pool_counts_owners:
  assumes "pool_run ops (new_pool n, \<lambda>_. 0) = Some (p, owners)"
  shows "(case getObjectNewInstance p of
            (None, _) \<Rightarrow> \<forall>i < n. owners i > 0
          | (Some i, _) \<Rightarrow> i < n \<and> owners i = 0)
       \<and> (\<forall>i. owners i > 0 \<longrightarrow> i < n \<and> fst (pool_release (Some i) p) = (owners i = 1))"
proof -
  from pool_run_inv [OF assms pool_inv_new] have inv: "pool_inv p owners" and l: "length (memoryPool p) = n"
    by (simp_all add: new_pool_def)
  show ?thesis
    using pool_alloc_inv [OF inv] pool_release_inv [OF inv] inv l
    by (cases "getObjectNewInstance p"; cases "fst (getObjectNewInstance p)") (auto simp: pool_inv_def)
qed

theorem pool_counts_owners_witness:
  "\<exists>p owners. pool_run [New, New, Retain 0, Release 1] (new_pool 2, \<lambda>_. 0) = Some (p, owners) \<and> owners 0 = 2 \<and> owners 1 = 0
     \<and> fst (pool_release (Some 0) p) = False"
proof -
  obtain p owners where r: "pool_run [New, New, Retain 0, Release 1] (new_pool 2, \<lambda>_. 0) = Some (p, owners)"
    and o: "owners 0 = 2" "owners 1 = 0"
    by (simp add: new_pool_def getObjectNewInstance_def pool_retain_def pool_release_def Let_def numeral_2_eq_2 upt_rec)
  from pool_counts_owners [OF r] r o show ?thesis by fastforce
qed

text \<open>
  The pool does not forget a freed record, so one release too many does damage: the stale entry
  of \<open>usedRecordMap\<close> lets the count of the free record fall to \<open>-1\<close>, the record's next owner starts
  with count 0, and releasing his only reference neither runs the destructor nor frees the record.
\<close>

theorem extra_release_leaks:
  assumes "pool_inv p owners" and "i \<in> set (usedRecordMap p)" and "unallocatedRecordIndex p = i # rest"
  shows "\<exists>p1 p2 p3. pool_release (Some i) p = (False, p1) \<and> getObjectNewInstance p1 = (Some i, p2)
     \<and> pool_release (Some i) p2 = (False, p3) \<and> i \<notin> set (unallocatedRecordIndex p3)"
proof -
  have i: "i < length (memoryPool p)" "memRetain (memoryPool p ! i) = 0" "i \<notin> set rest"
    using free_record [OF assms(1), of i] assms(1,3) by (simp_all add: pool_inv_def)
  then show ?thesis
    using assms(2,3) by (simp add: pool_release_def getObjectNewInstance_def Let_def)
qed

theorem extra_release_leaks_witness:
  "\<exists>p p1 p2 p3. pool_run [New, Release 0] (new_pool 1, \<lambda>_. 0) = Some (p, \<lambda>_. 0) \<and> pool_release (Some 0) p = (False, p1)
     \<and> getObjectNewInstance p1 = (Some 0, p2) \<and> pool_release (Some 0) p2 = (False, p3) \<and> 0 \<notin> set (unallocatedRecordIndex p3)"
proof -
  obtain p where r: "pool_run [New, Release 0] (new_pool 1, \<lambda>_. 0) = Some (p, \<lambda>_. 0)"
    and u: "0 \<in> set (usedRecordMap p)" "unallocatedRecordIndex p = [0]"
    by (simp add: new_pool_def getObjectNewInstance_def pool_release_def Let_def fun_upd_idem)
  have "pool_inv p (\<lambda>_. 0)" using pool_run_inv [OF r pool_inv_new] by simp
  from extra_release_leaks [OF this u] r show ?thesis by blast
qed

end
