(* ===== verification/Attribute_Cache.thy ===== *)
theory Attribute_Cache
  imports Chaos_Prelude "HOL-Library.AList" "HOL-Library.Char_ord" "HOL-Library.List_Lexorder"
begin

text \<open>
  The shared cache of a control unit's attributes (\<open>data/cache/AttributesSetting.*\<close>): four domains,
  each a set of named, indexed values with a bitmap of the values changed. Allocation
  (\<open>calloc\<close>, \<open>realloc\<close>) succeeds; bytes that \<open>realloc\<close> adds are unspecified, an argument of the
  operation. A null or out-of-range access is a fault.
\<close>

section \<open>Values\<close>

datatype data_type = TYPE_INT32 | TYPE_INT64 | TYPE_DOUBLE | TYPE_STRING | TYPE_BYTEARRAY | TYPE_BOOLEAN

record value_setting =
  vs_name :: string
  vs_index :: u16
  vs_size :: u32
  vs_type :: data_type
  value_buffer :: "u8 list option"

definition new_ValueSetting :: "string \<Rightarrow> u16 \<Rightarrow> u32 \<Rightarrow> data_type \<Rightarrow> value_setting" where
  "new_ValueSetting name index sz ty =
     \<lparr>vs_name = name, vs_index = index, vs_size = sz, vs_type = ty,
      value_buffer = (if sz \<noteq> 0 then Some (replicate (unat sz) 0) else None)\<rparr>"

definition bm_set :: "nat \<Rightarrow> bool \<Rightarrow> bool list \<Rightarrow> bool list option" where
  "bm_set i x bm = (if i < length bm then Some (bm[i := x]) else None)"

text \<open>
  \<open>ValueSetting::setValue\<close> on the value and the shared bitmap: at most \<open>size\<close> bytes are copied.
\<close>

definition vs_setValue :: "u8 list \<Rightarrow> u32 \<Rightarrow> bool \<Rightarrow> value_setting \<Rightarrow> bool list \<Rightarrow> (value_setting \<times> bool list) option" where
  "vs_setValue value value_size tag_has_changed vs bm =
     (let n = unat (if value_size > vs_size vs then vs_size vs else value_size) in
      if length value < n then None
      else
        (case (case value_buffer vs of
                 None \<Rightarrow> if n = 0 then Some vs else None
               | Some buf \<Rightarrow> Some (vs\<lparr>value_buffer := Some (take n value @ drop n buf)\<rparr>)) of
           None \<Rightarrow> None
         | Some vs' \<Rightarrow>
             if tag_has_changed then map_option (\<lambda>bm'. (vs', bm')) (bm_set (unat (vs_index vs)) True bm)
             else Some (vs', bm)))"

definition realloc_bytes :: "u8 list \<Rightarrow> nat \<Rightarrow> u8 list option \<Rightarrow> u8 list option" where
  "realloc_bytes junk n buf =
     (if n = 0 then None
      else (let old = (case buf of None \<Rightarrow> [] | Some b \<Rightarrow> b)
            in Some (take n old @ take (n - length old) (junk @ replicate n 0))))"

definition vs_setNewSize :: "u8 list \<Rightarrow> u32 \<Rightarrow> value_setting \<Rightarrow> bool \<times> value_setting" where
  "vs_setNewSize junk new_size vs =
     (if vs_type vs = TYPE_BYTEARRAY \<or> vs_type vs = TYPE_STRING then
        (let b = realloc_bytes junk (unat new_size) (value_buffer vs)
         in (b \<noteq> None, vs\<lparr>vs_size := new_size, value_buffer := b\<rparr>))
      else (True, vs))"

section \<open>A set of attributes\<close>

record attributes_setting =
  as_index :: u16
  bitmapChangedAttribute :: "bool list"
  mapAttributeNameIndex :: "(string \<times> u16) list"
  mapAttributeIndexSettings :: "(u16 \<times> value_setting) list"

definition as_new :: attributes_setting where
  "as_new = \<lparr>as_index = 0, bitmapChangedAttribute = [], mapAttributeNameIndex = [], mapAttributeIndexSettings = []\<rparr>"

definition as_deinit :: "attributes_setting \<Rightarrow> attributes_setting" where
  "as_deinit a = a\<lparr>as_index := 0, bitmapChangedAttribute := [], mapAttributeNameIndex := [], mapAttributeIndexSettings := []\<rparr>"

definition size_of_type :: "data_type \<Rightarrow> u32 \<Rightarrow> u32" where
  "size_of_type ty sz =
     (case ty of TYPE_BOOLEAN \<Rightarrow> 1 | TYPE_DOUBLE \<Rightarrow> 8 | TYPE_INT32 \<Rightarrow> 4 | TYPE_INT64 \<Rightarrow> 8 | _ \<Rightarrow> sz)"

text \<open>\<open>std::map::insert\<close> keeps an entry that is there.\<close>

definition map_insert :: "'k \<Rightarrow> 'v \<Rightarrow> ('k \<times> 'v) list \<Rightarrow> ('k \<times> 'v) list" where
  "map_insert k v m = (if map_of m k = None then m @ [(k, v)] else m)"

definition addAttribute :: "string \<Rightarrow> u32 \<Rightarrow> data_type \<Rightarrow> attributes_setting \<Rightarrow> attributes_setting" where
  "addAttribute name sz ty a =
     (if map_of (mapAttributeNameIndex a) name \<noteq> None then a
      else
        (let tmpIndex = as_index a in
         a\<lparr>as_index := as_index a + 1,
           mapAttributeNameIndex := map_insert name tmpIndex (mapAttributeNameIndex a),
           bitmapChangedAttribute := bitmapChangedAttribute a @ [False],
           mapAttributeIndexSettings :=
             map_insert tmpIndex (new_ValueSetting name tmpIndex (size_of_type ty sz) ty) (mapAttributeIndexSettings a)\<rparr>))"

definition getAttributeNames :: "attributes_setting \<Rightarrow> string list" where
  "getAttributeNames a = sort (map fst (mapAttributeNameIndex a))"

definition setValueForAttribute :: "u16 \<Rightarrow> u8 list \<Rightarrow> u32 \<Rightarrow> attributes_setting \<Rightarrow> attributes_setting outcome" where
  "setValueForAttribute n value sz a =
     (case map_of (mapAttributeIndexSettings a) n of
        None \<Rightarrow> Fault
      | Some vs \<Rightarrow>
          (case vs_setValue value sz True vs (bitmapChangedAttribute a) of
             None \<Rightarrow> Fault
           | Some (vs', bm) \<Rightarrow>
               Ret (a\<lparr>mapAttributeIndexSettings := AList.update n vs' (mapAttributeIndexSettings a), bitmapChangedAttribute := bm\<rparr>)))"

definition getIndexForName :: "string \<Rightarrow> attributes_setting \<Rightarrow> u16 outcome" where
  "getIndexForName name a =
     (case map_of (mapAttributeNameIndex a) name of
        None \<Rightarrow> Throw (CException (- 1) ''No name present in Attribute setting'' ''AttributesSetting::getIndexForName'')
      | Some i \<Rightarrow> Ret i)"

definition getValueSettingForIndex :: "u16 \<Rightarrow> attributes_setting \<Rightarrow> value_setting outcome" where
  "getValueSettingForIndex n a =
     (case map_of (mapAttributeIndexSettings a) n of
        None \<Rightarrow> Throw (CException (- 1) ''No index present in Attribute setting'' ''AttributesSetting::getValueSettingForIndex'')
      | Some vs \<Rightarrow> Ret vs)"

definition getNumberOfAttributes :: "attributes_setting \<Rightarrow> u16" where
  "getNumberOfAttributes a = as_index a"

text \<open>The walk over the bitmap: \<open>find_first\<close>, \<open>find_next\<close>.\<close>

fun find_next :: "bool list \<Rightarrow> nat \<Rightarrow> nat option" where
  "find_next [] i = None"
| "find_next (x # bm) i = (if x then Some i else find_next bm (Suc i))"

fun changed_loop :: "nat \<Rightarrow> bool list \<Rightarrow> nat \<Rightarrow> u16 list" where
  "changed_loop 0 bm i = []"
| "changed_loop (Suc fuel) bm i =
     (case find_next (drop i bm) i of None \<Rightarrow> [] | Some j \<Rightarrow> of_nat j # changed_loop fuel bm (Suc j))"

definition getChangedIndex :: "attributes_setting \<Rightarrow> u16 list" where
  "getChangedIndex a = changed_loop (length (bitmapChangedAttribute a)) (bitmapChangedAttribute a) 0"

definition resetChangedIndex :: "attributes_setting \<Rightarrow> attributes_setting" where
  "resetChangedIndex a = a\<lparr>bitmapChangedAttribute := map (\<lambda>_. False) (bitmapChangedAttribute a)\<rparr>"

definition markAllAsChanged :: "attributes_setting \<Rightarrow> attributes_setting" where
  "markAllAsChanged a = a\<lparr>bitmapChangedAttribute := map (\<lambda>_. True) (bitmapChangedAttribute a)\<rparr>"

definition hasChanged :: "attributes_setting \<Rightarrow> bool" where
  "hasChanged a = (\<exists>x \<in> set (bitmapChangedAttribute a). x)"

definition as_setNewSize :: "u8 list \<Rightarrow> u16 \<Rightarrow> u32 \<Rightarrow> attributes_setting \<Rightarrow> (bool \<times> attributes_setting) outcome" where
  "as_setNewSize junk n new_size a =
     (case map_of (mapAttributeIndexSettings a) n of
        None \<Rightarrow> Fault
      | Some vs \<Rightarrow>
          (let (ok, vs') = vs_setNewSize junk new_size vs
           in Ret (ok, a\<lparr>mapAttributeIndexSettings := AList.update n vs' (mapAttributeIndexSettings a)\<rparr>)))"

section \<open>The four domains\<close>

datatype shared_domain = SVD_INPUT | SVD_OUTPUT | SVD_SYSTEM | SVD_CUSTOM

record shared_cache =
  input_set :: attributes_setting
  output_set :: attributes_setting
  system_set :: attributes_setting
  custom_set :: attributes_setting

definition getSharedDomain :: "shared_domain \<Rightarrow> shared_cache \<Rightarrow> attributes_setting" where
  "getSharedDomain domain c =
     (case domain of SVD_INPUT \<Rightarrow> input_set c | SVD_OUTPUT \<Rightarrow> output_set c | SVD_SYSTEM \<Rightarrow> system_set c | SVD_CUSTOM \<Rightarrow> custom_set c)"

text \<open>The reference that \<open>getSharedDomain\<close> returns, written through.\<close>

definition put_domain :: "shared_domain \<Rightarrow> attributes_setting \<Rightarrow> shared_cache \<Rightarrow> shared_cache" where
  "put_domain domain a c =
     (case domain of
        SVD_INPUT \<Rightarrow> c\<lparr>input_set := a\<rparr>
      | SVD_OUTPUT \<Rightarrow> c\<lparr>output_set := a\<rparr>
      | SVD_SYSTEM \<Rightarrow> c\<lparr>system_set := a\<rparr>
      | SVD_CUSTOM \<Rightarrow> c\<lparr>custom_set := a\<rparr>)"

definition new_shared_cache :: shared_cache where
  "new_shared_cache = \<lparr>input_set = as_new, output_set = as_new, system_set = as_new, custom_set = as_new\<rparr>"

definition addVariable :: "shared_domain \<Rightarrow> string \<Rightarrow> u32 \<Rightarrow> data_type \<Rightarrow> shared_cache \<Rightarrow> shared_cache" where
  "addVariable domain name max_size ty c = put_domain domain (addAttribute name max_size ty (getSharedDomain domain c)) c"

definition getChangedVariableIndex :: "shared_domain \<Rightarrow> shared_cache \<Rightarrow> u16 list" where
  "getChangedVariableIndex domain c = getChangedIndex (getSharedDomain domain c)"

definition getVariableNames :: "shared_domain \<Rightarrow> shared_cache \<Rightarrow> string list" where
  "getVariableNames domain c = getAttributeNames (getSharedDomain domain c)"

definition getVariableValue_index :: "shared_domain \<Rightarrow> u16 \<Rightarrow> shared_cache \<Rightarrow> value_setting outcome" where
  "getVariableValue_index domain n c = getValueSettingForIndex n (getSharedDomain domain c)"

definition getVariableValue :: "shared_domain \<Rightarrow> string \<Rightarrow> shared_cache \<Rightarrow> value_setting outcome" where
  "getVariableValue domain name c =
     (case getIndexForName name (getSharedDomain domain c) of
        Ret i \<Rightarrow> getValueSettingForIndex i (getSharedDomain domain c)
      | Throw e \<Rightarrow> Throw e
      | Fault \<Rightarrow> Fault)"

definition setVariableValue_index :: "shared_domain \<Rightarrow> u16 \<Rightarrow> u8 list \<Rightarrow> u32 \<Rightarrow> shared_cache \<Rightarrow> shared_cache outcome" where
  "setVariableValue_index domain n value sz c =
     (case setValueForAttribute n value sz (getSharedDomain domain c) of
        Ret a \<Rightarrow> Ret (put_domain domain a c)
      | Throw e \<Rightarrow> Throw e
      | Fault \<Rightarrow> Fault)"

definition setVariableValue :: "shared_domain \<Rightarrow> string \<Rightarrow> u8 list \<Rightarrow> u32 \<Rightarrow> shared_cache \<Rightarrow> shared_cache outcome" where
  "setVariableValue domain name value sz c =
     (case getIndexForName name (getSharedDomain domain c) of
        Ret i \<Rightarrow> setVariableValue_index domain i value sz c
      | Throw e \<Rightarrow> Throw e
      | Fault \<Rightarrow> Fault)"

section \<open>The invariant\<close>

definition vs_ok :: "value_setting \<Rightarrow> bool" where
  "vs_ok vs \<longleftrightarrow> (case value_buffer vs of None \<Rightarrow> vs_size vs = 0 | Some b \<Rightarrow> vs_size vs \<noteq> 0 \<and> length b = unat (vs_size vs))"

text \<open>The attributes in the order of their indices.\<close>

definition as_inv :: "attributes_setting \<Rightarrow> value_setting list \<Rightarrow> bool" where
  "as_inv a vss \<longleftrightarrow> length vss < 2 ^ 16 \<and> as_index a = of_nat (length vss)
     \<and> length (bitmapChangedAttribute a) = length vss
     \<and> mapAttributeNameIndex a = zip (map vs_name vss) (map of_nat [0..<length vss])
     \<and> mapAttributeIndexSettings a = zip (map of_nat [0..<length vss]) vss
     \<and> distinct (map vs_name vss) \<and> (\<forall>i < length vss. vs_index (vss ! i) = of_nat i \<and> vs_ok (vss ! i))"

lemma as_inv_new: "as_inv as_new []"
  by (simp add: as_inv_def as_new_def)

lemma of_nat_u16_eq: "i < 2 ^ 16 \<Longrightarrow> j < 2 ^ 16 \<Longrightarrow> (of_nat i :: u16) = of_nat j \<longleftrightarrow> i = j"
  by (auto simp: word_of_nat_eq_iff take_bit_nat_eq_self)

lemma map_of_zip_index:
  assumes "length vss < 2 ^ 16" and "i < length vss"
  shows "map_of (zip (map of_nat [0..<length vss]) vss) (of_nat i :: u16) = Some (vss ! i)"
proof -
  have "distinct (map (of_nat :: nat \<Rightarrow> u16) [0..<length vss])"
    using assms(1) by (auto simp: distinct_map inj_on_def of_nat_u16_eq)
  then show ?thesis using map_of_zip_nth [of "map of_nat [0..<length vss] :: u16 list" vss i] assms by simp
qed

lemma map_of_zip_absent:
  assumes "n < 2 ^ 16" and "length vss = n"
  shows "map_of (zip (map of_nat [0..<n]) vss) (of_nat n :: u16) = None"
  using assms by (subst map_of_zip_is_None) (auto simp: of_nat_u16_eq)

lemma map_of_zip_name:
  assumes "distinct (map vs_name vss)" and "i < length vss"
  shows "map_of (zip (map vs_name vss) (map of_nat [0..<length vss])) (vs_name (vss ! i)) = Some (of_nat i :: u16)"
  using map_of_zip_nth [of "map vs_name vss" "map of_nat [0..<length vss] :: u16 list" i] assms by simp

lemma name_known_iff: "map_of (zip (map vs_name vss) (map (of_nat :: nat \<Rightarrow> u16) [0..<length vss])) name = None
    \<longleftrightarrow> name \<notin> vs_name ` set vss"
  by (subst map_of_zip_is_None) simp_all

lemma addAttribute_inv:
  assumes inv: "as_inv a vss" and room: "length vss + 1 < 2 ^ 16"
  shows "as_inv (addAttribute name sz ty a)
    (if name \<in> vs_name ` set vss then vss else vss @ [new_ValueSetting name (of_nat (length vss)) (size_of_type ty sz) ty])"
proof (cases "name \<in> vs_name ` set vss")
  case True
  then show ?thesis using inv name_known_iff [of vss name] by (simp add: addAttribute_def as_inv_def)
next
  case False
  let ?vs = "new_ValueSetting name (of_nat (length vss)) (size_of_type ty sz) ty"
  have f: "map_of (mapAttributeNameIndex a) name = None" "map_of (mapAttributeIndexSettings a) (as_index a) = None"
    using inv False name_known_iff [of vss name] map_of_zip_absent [of "length vss" vss] by (simp_all add: as_inv_def)
  have "vs_ok ?vs" by (simp add: vs_ok_def new_ValueSetting_def)
  moreover have "vs_name ?vs = name" "vs_index ?vs = of_nat (length vss)" by (simp_all add: new_ValueSetting_def)
  ultimately show ?thesis
    using inv f False room by (auto simp: addAttribute_def as_inv_def Let_def map_insert_def nth_append less_Suc_eq)
qed

section \<open>Writing and reading\<close>

lemma update_zip:
  "distinct ks \<Longrightarrow> length ks = length vs \<Longrightarrow> i < length ks \<Longrightarrow> AList.update (ks ! i) v (zip ks vs) = zip ks (vs[i := v])"
proof (induction ks arbitrary: vs i)
  case (Cons k ks)
  then show ?case by (cases vs; cases i) (auto simp: nth_Cons' dest: nth_mem)
qed simp

definition written :: "nat \<Rightarrow> u8 list \<Rightarrow> value_setting \<Rightarrow> value_setting" where
  "written n value vs = vs\<lparr>value_buffer := map_option (\<lambda>b. take n value @ drop n b) (value_buffer vs)\<rparr>"

lemma vs_setValue_run:
  assumes "vs_ok vs" and n: "n = min (unat sz) (unat (vs_size vs))" and "n \<le> length value" and "unat (vs_index vs) < length bm"
  shows "vs_setValue value sz True vs bm = Some (written n value vs, bm[unat (vs_index vs) := True])"
proof -
  have "unat (if sz > vs_size vs then vs_size vs else sz) = n" using n by (auto simp: word_less_nat_alt min_def)
  with assms show ?thesis
    by (cases "value_buffer vs") (auto simp: vs_setValue_def Let_def bm_set_def written_def vs_ok_def)
qed

lemma written_ok: "vs_ok vs \<Longrightarrow> n \<le> length value \<Longrightarrow> n \<le> unat (vs_size vs) \<Longrightarrow> vs_ok (written n value vs)"
  by (auto simp: vs_ok_def written_def split: option.splits)

lemma setValueForAttribute_run:
  assumes inv: "as_inv a vss" and i: "i < length vss" and n: "n = min (unat sz) (unat (vs_size (vss ! i)))" and len: "n \<le> length value"
  shows "\<exists>a'. setValueForAttribute (of_nat i) value sz a = Ret a' \<and> as_inv a' (vss[i := written n value (vss ! i)])
     \<and> bitmapChangedAttribute a' = (bitmapChangedAttribute a)[i := True]"
proof -
  let ?v = "written n value (vss ! i)" and ?ks = "map of_nat [0..<length vss] :: u16 list"
  from inv have l: "length vss < 2 ^ 16" and b: "length (bitmapChangedAttribute a) = length vss"
    and s: "mapAttributeIndexSettings a = zip ?ks vss" and v: "vs_index (vss ! i) = of_nat i" "vs_ok (vss ! i)"
    using i by (auto simp: as_inv_def)
  have u: "unat (of_nat i :: u16) = i" using i l by (simp add: unat_of_nat take_bit_nat_eq_self)
  have run: "vs_setValue value sz True (vss ! i) (bitmapChangedAttribute a) = Some (?v, (bitmapChangedAttribute a)[i := True])"
    using vs_setValue_run [OF v(2) n len, of "bitmapChangedAttribute a"] v(1) u b i by simp
  have "distinct ?ks" using l by (auto simp: distinct_map inj_on_def of_nat_u16_eq)
  then have up: "AList.update (of_nat i) ?v (zip ?ks vss) = zip ?ks (vss[i := ?v])"
    using update_zip [of ?ks vss i ?v] i by simp
  let ?a = "a\<lparr>mapAttributeIndexSettings := zip ?ks (vss[i := ?v]), bitmapChangedAttribute := (bitmapChangedAttribute a)[i := True]\<rparr>"
  have "setValueForAttribute (of_nat i) value sz a = Ret ?a"
    using s run up map_of_zip_index [OF l i] by (simp add: setValueForAttribute_def)
  moreover have "vs_name ?v = vs_name (vss ! i)" "vs_index ?v = of_nat i" using v by (simp_all add: written_def)
  then have "map vs_name (vss[i := ?v]) = map vs_name vss" "vs_ok ?v"
    using i written_ok [OF v(2) len] n by (simp_all add: map_update list_update_same_conv)
  then have "as_inv ?a (vss[i := ?v])"
    using inv i \<open>vs_index ?v = of_nat i\<close> unfolding as_inv_def by (simp add: nth_list_update)
  ultimately show ?thesis by (intro exI [of _ ?a]) simp
qed

section \<open>The changed attributes\<close>

lemma find_next_spec:
  "find_next (drop i bm) i = (case filter (\<lambda>j. bm ! j) [i..<length bm] of [] \<Rightarrow> None | j # _ \<Rightarrow> Some j)"
proof (induction "length bm - i" arbitrary: i)
  case 0
  then show ?case by simp
next
  case (Suc n)
  then have "i < length bm" by simp
  then have d: "drop i bm = bm ! i # drop (Suc i) bm" and u: "[i..<length bm] = i # [Suc i..<length bm]"
    by (simp_all add: Cons_nth_drop_Suc upt_conv_Cons)
  show ?case using Suc(1) [of "Suc i"] Suc(2) by (simp add: d u)
qed

lemma filter_upt_Cons:
  "filter P [i..<n] = j # xs \<Longrightarrow> xs = filter P [Suc j..<n] \<and> i \<le> j \<and> j < n"
proof (induction "n - i" arbitrary: i)
  case (Suc k)
  then have u: "[i..<n] = i # [Suc i..<n]" by (simp add: upt_conv_Cons)
  show ?case
  proof (cases "P i")
    case True
    with Suc(3) u show ?thesis using Suc(2) by auto
  next
    case False
    with Suc(3) u have "filter P [Suc i..<n] = j # xs" by simp
    moreover have "k = n - Suc i" using Suc(2) by simp
    ultimately show ?thesis using Suc(1) [of "Suc i"] by (metis Suc_leD)
  qed
qed simp

lemma changed_loop_spec:
  "length bm - i \<le> fuel \<Longrightarrow> changed_loop fuel bm i = map of_nat (filter (\<lambda>j. bm ! j) [i..<length bm])"
proof (induction fuel arbitrary: i)
  case (Suc fuel)
  show ?case
  proof (cases "filter (\<lambda>j. bm ! j) [i..<length bm]")
    case Nil
    then show ?thesis using find_next_spec [of i bm] by simp
  next
    case (Cons j xs)
    from filter_upt_Cons [OF Cons] have xs: "xs = filter (\<lambda>j. bm ! j) [Suc j..<length bm]" and "i \<le> j" "j < length bm" by simp_all
    then have "length bm - Suc j \<le> fuel" using Suc.prems by linarith
    then show ?thesis using Cons xs Suc.IH [of "Suc j"] find_next_spec [of i bm] by simp
  qed
qed simp

lemma getChangedIndex_spec:
  "getChangedIndex a = map of_nat (filter (\<lambda>j. bitmapChangedAttribute a ! j) [0..<length (bitmapChangedAttribute a)])"
  using changed_loop_spec [of "bitmapChangedAttribute a" 0] by (simp add: getChangedIndex_def)

text \<open>A sequence of writes, each an index, a value and its size.\<close>

fun set_values :: "(nat \<times> u8 list \<times> u32) list \<Rightarrow> attributes_setting \<Rightarrow> attributes_setting outcome" where
  "set_values [] a = Ret a"
| "set_values ((i, value, sz) # ws) a =
     (case setValueForAttribute (of_nat i) value sz a of Ret a' \<Rightarrow> set_values ws a' | Throw e \<Rightarrow> Throw e | Fault \<Rightarrow> Fault)"

lemma set_values_run:
  assumes "as_inv a vss" and "\<forall>(i, value, sz) \<in> set ws. i < length vss \<and> unat sz \<le> length value"
  shows "\<exists>a' vss'. set_values ws a = Ret a' \<and> as_inv a' vss' \<and> length vss' = length vss
    \<and> (\<forall>j < length vss. bitmapChangedAttribute a' ! j = (bitmapChangedAttribute a ! j \<or> j \<in> fst ` set ws))"
  using assms
proof (induction ws arbitrary: a vss)
  case (Cons w ws)
  obtain i vl sz where w: "w = (i, vl, sz)" by (cases w)
  let ?n = "min (unat sz) (unat (vs_size (vss ! i)))"
  have i: "i < length vss" "?n \<le> length vl" using Cons.prems(2) w by auto
  from setValueForAttribute_run [OF Cons.prems(1) i(1) refl i(2)] obtain a1 where
    a1: "setValueForAttribute (of_nat i) vl sz a = Ret a1" "as_inv a1 (vss[i := written ?n vl (vss ! i)])"
    "bitmapChangedAttribute a1 = (bitmapChangedAttribute a)[i := True]" by blast
  have b: "length (bitmapChangedAttribute a) = length vss" using Cons.prems(1) by (simp add: as_inv_def)
  from Cons.IH [OF a1(2)] Cons.prems(2) obtain a' vss' where
    "set_values ws a1 = Ret a'" "as_inv a' vss'" "length vss' = length vss"
    "\<forall>j < length vss. bitmapChangedAttribute a' ! j = (bitmapChangedAttribute a1 ! j \<or> j \<in> fst ` set ws)" by auto
  then show ?case using a1 w i b by (intro exI [of _ a'] exI [of _ vss']) (auto simp: nth_list_update)
qed auto

section \<open>Properties\<close>

lemma put_get_domain: "getSharedDomain d' (put_domain d a c) = (if d' = d then a else getSharedDomain d' c)"
  by (cases d; cases d') (simp_all add: getSharedDomain_def put_domain_def)

lemma read_by_name:
  assumes inv: "as_inv (getSharedDomain d c) vss"
  shows "i < length vss \<Longrightarrow> getVariableValue d (vs_name (vss ! i)) c = Ret (vss ! i)"
    and "name \<notin> vs_name ` set vss \<Longrightarrow> getVariableValue d name c
      = Throw (CException (- 1) ''No name present in Attribute setting'' ''AttributesSetting::getIndexForName'')"
proof -
  show "getVariableValue d (vs_name (vss ! i)) c = Ret (vss ! i)" if "i < length vss"
    using inv that map_of_zip_name [of vss i] map_of_zip_index [of vss i]
    by (simp add: getVariableValue_def getIndexForName_def getValueSettingForIndex_def as_inv_def)
  show "getVariableValue d name c
      = Throw (CException (- 1) ''No name present in Attribute setting'' ''AttributesSetting::getIndexForName'')"
    if "name \<notin> vs_name ` set vss"
  proof -
    have "map_of (mapAttributeNameIndex (getSharedDomain d c)) name = None"
      using inv that name_known_iff [of vss name] by (simp add: as_inv_def)
    then show ?thesis by (simp add: getVariableValue_def getIndexForName_def)
  qed
qed

lemma siblings_kept:
  assumes "as_inv (getSharedDomain d c) vss" and "as_inv (getSharedDomain d c') (vss[i := v])"
    and i: "i < length vss" and v: "vs_name v = vs_name (vss ! i)" and other: "name' \<noteq> vs_name (vss ! i)"
  shows "getVariableValue d name' c' = getVariableValue d name' c"
proof -
  have same: "map vs_name (vss[i := v]) = map vs_name vss" using i v by (simp add: map_update list_update_same_conv)
  show ?thesis
  proof (cases "name' \<in> vs_name ` set vss")
    case True
    then obtain j where j: "j < length vss" "name' = vs_name (vss ! j)" by (auto simp: in_set_conv_nth)
    with other have "j \<noteq> i" by blast
    then have "getVariableValue d (vs_name (vss[i := v] ! j)) c' = Ret (vss[i := v] ! j)"
      using read_by_name(1) [OF assms(2), of j] j by simp
    then show ?thesis using read_by_name(1) [OF assms(1) j(1)] j \<open>j \<noteq> i\<close> by simp
  next
    case False
    then have "name' \<notin> vs_name ` set (vss[i := v])" using same by (metis list.set_map)
    then show ?thesis using read_by_name(2) [OF assms(1) False] read_by_name(2) [OF assms(2)] by metis
  qed
qed

text \<open>
  C15. Writing a variable and reading it back: in a cache whose domain holds an attribute of that
  name, \<open>setVariableValue\<close> succeeds and the value read by name afterwards starts with the bytes
  written, cut to the size of the attribute, the rest of its buffer unchanged and in bounds. What is
  read under any other name of the domain stays as it was, so do the names and every other domain, and
  the attributes reported as changed are those reported before and this one.
\<close>

theorem set_then_get_variable:
  assumes inv: "as_inv (getSharedDomain d c) vss" and i: "i < length vss" and name: "name = vs_name (vss ! i)"
    and n: "n = min (unat sz) (unat (vs_size (vss ! i)))" and len: "n \<le> length value"
  shows "\<exists>c' vs. setVariableValue d name value sz c = Ret c' \<and> getVariableValue d name c' = Ret vs
    \<and> vs = (vss ! i)\<lparr>value_buffer := map_option (\<lambda>b. take n value @ drop n b) (value_buffer (vss ! i))\<rparr> \<and> vs_ok vs
    \<and> (\<forall>name'. name' \<noteq> name \<longrightarrow> getVariableValue d name' c' = getVariableValue d name' c)
    \<and> getVariableNames d c' = getVariableNames d c
    \<and> set (getChangedVariableIndex d c') = insert (of_nat i) (set (getChangedVariableIndex d c))
    \<and> (\<forall>d'. d' \<noteq> d \<longrightarrow> getSharedDomain d' c' = getSharedDomain d' c)"
proof -
  let ?a = "getSharedDomain d c"
  from setValueForAttribute_run [OF inv i n len] obtain a' where
    a': "setValueForAttribute (of_nat i) value sz ?a = Ret a'" "as_inv a' (vss[i := written n value (vss ! i)])"
    "bitmapChangedAttribute a' = (bitmapChangedAttribute ?a)[i := True]" by blast
  let ?c = "put_domain d a' c" and ?v = "written n value (vss ! i)"
  have idx: "getIndexForName name ?a = Ret (of_nat i)"
    using inv i name map_of_zip_name [of vss i] by (simp add: getIndexForName_def as_inv_def)
  have set: "setVariableValue d name value sz c = Ret ?c"
    using idx a'(1) by (simp add: setVariableValue_def setVariableValue_index_def)
  have inv': "as_inv (getSharedDomain d ?c) (vss[i := ?v])" and nv: "vs_name ?v = vs_name (vss ! i)"
    using a'(2) by (simp_all add: put_get_domain written_def)
  have get: "getVariableValue d name ?c = Ret ?v" using read_by_name(1) [OF inv', of i] i nv name by simp
  have sib: "\<forall>name'. name' \<noteq> name \<longrightarrow> getVariableValue d name' ?c = getVariableValue d name' c"
    using siblings_kept [OF inv inv' i nv] name by blast
  have "map vs_name (vss[i := ?v]) = map vs_name vss" using i nv by (simp add: map_update list_update_same_conv)
  then have names: "getVariableNames d ?c = getVariableNames d c"
    using inv a'(2) by (simp add: getVariableNames_def put_get_domain getAttributeNames_def as_inv_def)
  have "length (bitmapChangedAttribute ?a) = length vss" using inv by (simp add: as_inv_def)
  then have "set (getChangedVariableIndex d ?c) = insert (of_nat i) (set (getChangedVariableIndex d c))"
    using i a'(3) by (auto simp: getChangedVariableIndex_def put_get_domain getChangedIndex_spec nth_list_update)
  moreover have "vs_ok ?v" using written_ok [of "vss ! i" n "value"] inv i n len by (simp add: as_inv_def)
  ultimately show ?thesis using set get sib names
    by (intro exI [of _ ?c] exI [of _ ?v]) (simp add: put_get_domain written_def)
qed

theorem set_then_get_variable_witness:
  "\<exists>c' vs. setVariableValue SVD_OUTPUT ''volt'' [1, 2, 3, 4, 5] 5
        (addVariable SVD_OUTPUT ''on'' 0 TYPE_BOOLEAN (addVariable SVD_OUTPUT ''volt'' 0 TYPE_INT32 new_shared_cache)) = Ret c'
     \<and> getVariableValue SVD_OUTPUT ''volt'' c' = Ret vs \<and> value_buffer vs = Some [1, 2, 3, 4]
     \<and> getVariableValue SVD_OUTPUT ''on'' c' = Ret (new_ValueSetting ''on'' 1 1 TYPE_BOOLEAN)
     \<and> set (getChangedVariableIndex SVD_OUTPUT c') = {0}"
proof -
  let ?c = "addVariable SVD_OUTPUT ''on'' 0 TYPE_BOOLEAN (addVariable SVD_OUTPUT ''volt'' 0 TYPE_INT32 new_shared_cache)"
  let ?v = "new_ValueSetting ''volt'' 0 4 TYPE_INT32" and ?w = "new_ValueSetting ''on'' 1 1 TYPE_BOOLEAN"
  have d: "getSharedDomain SVD_OUTPUT ?c = addAttribute ''on'' 0 TYPE_BOOLEAN (addAttribute ''volt'' 0 TYPE_INT32 as_new)"
    by (simp add: addVariable_def put_get_domain) (simp add: getSharedDomain_def new_shared_cache_def)
  have "as_inv (addAttribute ''volt'' 0 TYPE_INT32 as_new) [?v]"
    using addAttribute_inv [OF as_inv_new, of "''volt''" 0 TYPE_INT32] by (simp add: size_of_type_def)
  from addAttribute_inv [OF this, of "''on''" 0 TYPE_BOOLEAN] have inv: "as_inv (getSharedDomain SVD_OUTPUT ?c) [?v, ?w]"
    unfolding d by (simp add: size_of_type_def new_ValueSetting_def)
  have v: "?v = \<lparr>vs_name = ''volt'', vs_index = 0, vs_size = 4, vs_type = TYPE_INT32, value_buffer = Some [0, 0, 0, 0]\<rparr>"
    by (simp add: new_ValueSetting_def) (simp add: numeral_eq_Suc)
  have old: "getVariableValue SVD_OUTPUT ''on'' ?c = Ret ?w" "set (getChangedVariableIndex SVD_OUTPUT ?c) = {}"
    using read_by_name(1) [OF inv, of 1]
    by (simp add: new_ValueSetting_def) (simp add: getChangedVariableIndex_def d getChangedIndex_spec addAttribute_def as_new_def Let_def map_insert_def upt_rec nth_append)
  have name0: "''volt'' = vs_name ([?v, ?w] ! 0)" and size0: "(4::nat) = min (unat (5::u32)) (unat (vs_size ([?v, ?w] ! 0)))"
    and "0 < length [?v, ?w]" "4 \<le> length [1, 2, 3, 4, 5 :: u8]"
    using v by simp_all
  note fact = set_then_get_variable [OF inv this(3) name0 size0 this(4)]
  obtain c' vs where *: "setVariableValue SVD_OUTPUT ''volt'' [1, 2, 3, 4, 5] 5 ?c = Ret c'"
      "getVariableValue SVD_OUTPUT ''volt'' c' = Ret vs"
      "vs = ([?v, ?w] ! 0)\<lparr>value_buffer := map_option (\<lambda>b. take 4 [1, 2, 3, 4, 5] @ drop 4 b) (value_buffer ([?v, ?w] ! 0))\<rparr>"
      "\<forall>name'. name' \<noteq> ''volt'' \<longrightarrow> getVariableValue SVD_OUTPUT name' c' = getVariableValue SVD_OUTPUT name' ?c"
      "set (getChangedVariableIndex SVD_OUTPUT c') = insert (of_nat 0) (set (getChangedVariableIndex SVD_OUTPUT ?c))"
    using fact by blast
  have "getVariableValue SVD_OUTPUT ''on'' c' = Ret ?w" using *(4) old(1) by simp
  then show ?thesis using * old(2) v by simp
qed

text \<open>
  C33. The list of changed indices is exact: after a reset and any sequence of writes,
  \<open>getChangedIndex\<close> lists the indices written, each once and in increasing order, and \<open>hasChanged\<close>
  says whether there were any.
\<close>

theorem changed_index_exact:
  assumes inv: "as_inv a vss" and ws: "\<forall>(i, value, sz) \<in> set ws. i < length vss \<and> unat sz \<le> length value"
  shows "\<exists>a'. set_values ws (resetChangedIndex a) = Ret a'
    \<and> getChangedIndex a' = map of_nat (filter (\<lambda>i. i \<in> fst ` set ws) [0..<length vss]) \<and> (hasChanged a' \<longleftrightarrow> ws \<noteq> [])"
proof -
  have b: "length (bitmapChangedAttribute a) = length vss" using inv by (simp add: as_inv_def)
  have "as_inv (resetChangedIndex a) vss" using inv by (simp add: as_inv_def resetChangedIndex_def)
  from set_values_run [OF this ws] obtain a' vss' where
    a': "set_values ws (resetChangedIndex a) = Ret a'" "as_inv a' vss'" "length vss' = length vss"
    "\<forall>j < length vss. bitmapChangedAttribute a' ! j = (bitmapChangedAttribute (resetChangedIndex a) ! j \<or> j \<in> fst ` set ws)" by blast
  have l: "length (bitmapChangedAttribute a') = length vss" using a' by (simp add: as_inv_def)
  have bit: "bitmapChangedAttribute a' ! j = (j \<in> fst ` set ws)" if "j < length vss" for j
    using a'(4) that b by (simp add: resetChangedIndex_def)
  have "getChangedIndex a' = map of_nat (filter (\<lambda>i. i \<in> fst ` set ws) [0..<length vss])"
    unfolding getChangedIndex_spec l by (intro arg_cong [where f = "map of_nat"] filter_cong) (simp_all add: bit)
  moreover have "hasChanged a' \<longleftrightarrow> (\<exists>j < length vss. j \<in> fst ` set ws)"
    using bit l unfolding hasChanged_def by (metis in_set_conv_nth)
  moreover have "(\<exists>j < length vss. j \<in> fst ` set ws) \<longleftrightarrow> ws \<noteq> []" using ws by (cases ws) fastforce+
  ultimately show ?thesis using a'(1) by blast
qed

theorem changed_index_exact_witness:
  "\<exists>a'. set_values [(1, [7], 1), (0, [8], 1), (1, [9], 1)]
      (resetChangedIndex (addAttribute ''b'' 0 TYPE_BOOLEAN (addAttribute ''a'' 0 TYPE_BOOLEAN as_new))) = Ret a' \<and> getChangedIndex a' = [0, 1]"
proof -
  let ?a = "addAttribute ''b'' 0 TYPE_BOOLEAN (addAttribute ''a'' 0 TYPE_BOOLEAN as_new)"
  let ?v = "new_ValueSetting ''a'' 0 1 TYPE_BOOLEAN" and ?w = "new_ValueSetting ''b'' 1 1 TYPE_BOOLEAN"
  have "as_inv (addAttribute ''a'' 0 TYPE_BOOLEAN as_new) [?v]"
    using addAttribute_inv [OF as_inv_new, of "''a''" 0 TYPE_BOOLEAN] by (simp add: size_of_type_def)
  from addAttribute_inv [OF this, of "''b''" 0 TYPE_BOOLEAN] have "as_inv ?a [?v, ?w]"
    by (simp add: size_of_type_def new_ValueSetting_def)
  from changed_index_exact [OF this, of "[(1, [7], 1), (0, [8], 1), (1, [9], 1)]"] show ?thesis
    by (auto simp: upt_rec)
qed

end
