(* ===== verification/Wire_Format.thy ===== *)
theory Wire_Format
  imports Chaos_Prelude
begin

text \<open>
  Byte orders (\<open>utility/endianess.h\<close>). The byte order of the host is a parameter of every function
  that reads or writes memory, so that what is proved holds for both. A word in memory is the list of
  its bytes by ascending address.
\<close>

unbundle bit_operations_syntax

section \<open>Swapping bytes\<close>

datatype endianness = little_endian | big_endian

abbreviation network_endian :: endianness where
  "network_endian \<equiv> big_endian"

definition swap_bytes1 :: "u8 \<Rightarrow> u8" where
  "swap_bytes1 val = val"

definition swap_bytes2 :: "u16 \<Rightarrow> u16" where
  "swap_bytes2 val = (drop_bit 8 val AND 0xff) OR push_bit 8 (val AND 0xff)"

definition swap_bytes4 :: "u32 \<Rightarrow> u32" where
  "swap_bytes4 val =
     drop_bit 24 (val AND 0xff000000) OR drop_bit 8 (val AND 0x00ff0000)
     OR push_bit 8 (val AND 0x0000ff00) OR push_bit 24 (val AND 0x000000ff)"

definition swap_bytes8 :: "u64 \<Rightarrow> u64" where
  "swap_bytes8 val =
     drop_bit 56 (val AND 0xff00000000000000) OR drop_bit 40 (val AND 0x00ff000000000000)
     OR drop_bit 24 (val AND 0x0000ff0000000000) OR drop_bit 8 (val AND 0x000000ff00000000)
     OR push_bit 8 (val AND 0x00000000ff000000) OR push_bit 24 (val AND 0x0000000000ff0000)
     OR push_bit 40 (val AND 0x000000000000ff00) OR push_bit 56 (val AND 0x00000000000000ff)"

text \<open>
  \<open>do_byte_swap\<close> chooses at compile time between the swap of the width and the identity; \<open>byte_swap\<close>
  adds the static check of the width, which the type of \<open>sw\<close> stands for.
\<close>

definition do_byte_swap :: "('w \<Rightarrow> 'w) \<Rightarrow> endianness \<Rightarrow> endianness \<Rightarrow> 'w \<Rightarrow> 'w" where
  "do_byte_swap sw from_end to_end val = (if from_end = to_end then val else sw val)"

definition byte_swap1 :: "endianness \<Rightarrow> endianness \<Rightarrow> u8 \<Rightarrow> u8" where
  "byte_swap1 = do_byte_swap swap_bytes1"

definition byte_swap2 :: "endianness \<Rightarrow> endianness \<Rightarrow> u16 \<Rightarrow> u16" where
  "byte_swap2 = do_byte_swap swap_bytes2"

definition byte_swap4 :: "endianness \<Rightarrow> endianness \<Rightarrow> u32 \<Rightarrow> u32" where
  "byte_swap4 = do_byte_swap swap_bytes4"

definition byte_swap8 :: "endianness \<Rightarrow> endianness \<Rightarrow> u64 \<Rightarrow> u64" where
  "byte_swap8 = do_byte_swap swap_bytes8"

section \<open>Words in memory\<close>

definition le_bytes :: "nat \<Rightarrow> 'a::len word \<Rightarrow> u8 list" where
  "le_bytes n w = map (\<lambda>i. ucast (drop_bit (8 * i) w)) [0..<n]"

fun of_le :: "u8 list \<Rightarrow> 'a::len word" where
  "of_le [] = 0"
| "of_le (b # bs) = ucast b OR push_bit 8 (of_le bs)"

definition mem_bytes :: "endianness \<Rightarrow> nat \<Rightarrow> 'a::len word \<Rightarrow> u8 list" where
  "mem_bytes e n w = (case e of little_endian \<Rightarrow> le_bytes n w | big_endian \<Rightarrow> rev (le_bytes n w))"

definition of_mem :: "endianness \<Rightarrow> u8 list \<Rightarrow> 'a::len word" where
  "of_mem e bs = of_le (case e of little_endian \<Rightarrow> bs | big_endian \<Rightarrow> rev bs)"

lemma length_le_bytes [simp]: "length (le_bytes n w) = n"
  by (simp add: le_bytes_def)

lemma length_mem_bytes [simp]: "length (mem_bytes e n w) = n"
  by (cases e) (simp_all add: mem_bytes_def)

lemma bit_beyond: "LENGTH('a) \<le> k \<Longrightarrow> bit (w :: 'a::len word) k \<longleftrightarrow> False"
  using bit_imp_le_length [of w k] by auto

lemma bit_of_le:
  "bit (of_le bs :: 'a::len word) k \<longleftrightarrow> k < LENGTH('a) \<and> k div 8 < length bs \<and> bit (bs ! (k div 8)) (k mod 8)"
proof (induction bs arbitrary: k)
  case (Cons b bs)
  show ?case
  proof (cases "k < 8")
    case True
    then show ?thesis by (auto simp: bit_simps)
  next
    case False
    then obtain j where k: "k = j + 8" by (metis add.commute le_Suc_ex not_less)
    have "\<not> bit b k" using False bit_imp_le_length [of b k] by auto
    moreover have "(j + 8) div 8 = Suc (j div 8)" "(j + 8) mod 8 = j mod 8" by simp_all
    ultimately show ?thesis unfolding k using k Cons.IH [of j] by (auto simp: bit_simps)
  qed
qed simp

lemma of_le_bytes [simp]: "LENGTH('a) = 8 * n \<Longrightarrow> of_le (le_bytes n (w :: 'a::len word)) = w"
  by (rule bit_word_eqI) (auto simp: bit_of_le le_bytes_def bit_simps)

lemma of_mem_bytes [simp]: "LENGTH('a) = 8 * n \<Longrightarrow> of_mem e (mem_bytes e n (w :: 'a::len word)) = w"
  by (cases e) (simp_all add: of_mem_def mem_bytes_def)

lemma of_le_eq_iff: "LENGTH('a) = 8 * n \<Longrightarrow> length bs = n \<Longrightarrow> le_bytes n (of_le bs :: 'a::len word) = bs"
  by (rule nth_equalityI) (auto simp: le_bytes_def bit_of_le bit_simps intro!: bit_word_eqI)

section \<open>The swaps reverse the bytes\<close>

lemma byte_masks:
  "(0xff :: 'a::len word) = mask 8" "(0xff00 :: 'a::len word) = push_bit 8 (mask 8)"
  "(0xff0000 :: 'a::len word) = push_bit 16 (mask 8)" "(0xff000000 :: 'a::len word) = push_bit 24 (mask 8)"
  "(0xff00000000 :: 'a::len word) = push_bit 32 (mask 8)" "(0xff0000000000 :: 'a::len word) = push_bit 40 (mask 8)"
  "(0xff000000000000 :: 'a::len word) = push_bit 48 (mask 8)" "(0xff00000000000000 :: 'a::len word) = push_bit 56 (mask 8)"
  by (simp_all add: mask_eq_exp_minus_1 push_bit_eq_mult)

lemma swap_bytes2_rev: "le_bytes 2 (swap_bytes2 w) = rev (le_bytes 2 w)"
  by (auto simp: le_bytes_def upt_rec swap_bytes2_def byte_masks bit_simps intro!: bit_word_eqI)

lemma swap_bytes4_rev: "le_bytes 4 (swap_bytes4 w) = rev (le_bytes 4 w)"
  by (auto simp: le_bytes_def upt_rec swap_bytes4_def byte_masks bit_simps intro!: bit_word_eqI)

lemma swap_bytes8_rev: "le_bytes 8 (swap_bytes8 w) = rev (le_bytes 8 w)"
  by (auto simp: le_bytes_def upt_rec swap_bytes8_def byte_masks bit_simps intro!: bit_word_eqI)

lemma mem_swap:
  "mem_bytes e 2 (byte_swap2 e little_endian w2) = le_bytes 2 w2"
  "mem_bytes e 4 (byte_swap4 e little_endian w4) = le_bytes 4 w4"
  "mem_bytes e 8 (byte_swap8 e little_endian w8) = le_bytes 8 w8"
  by (cases e; simp add: mem_bytes_def byte_swap2_def byte_swap4_def byte_swap8_def do_byte_swap_def
      swap_bytes2_rev swap_bytes4_rev swap_bytes8_rev)+

lemma byte_swap1_id [simp]: "byte_swap1 e f w = w"
  by (simp add: byte_swap1_def do_byte_swap_def swap_bytes1_def)

lemma and_mask_small: "unat w < 2 ^ n \<Longrightarrow> (w :: 'a::len word) AND mask n = w"
  by (simp add: word_unat_eq_iff unsigned_take_bit_eq take_bit_nat_eq_self flip: take_bit_eq_mask)

lemma le_bytes_inj: "LENGTH('a) = 8 * n \<Longrightarrow> le_bytes n (v :: 'a::len word) = le_bytes n w \<longleftrightarrow> v = w"
  by (metis of_le_bytes)

lemma swap_bytes_invol [simp]:
  "swap_bytes2 (swap_bytes2 w2) = w2" "swap_bytes4 (swap_bytes4 w4) = w4" "swap_bytes8 (swap_bytes8 w8) = w8"
  using le_bytes_inj [of 2 "swap_bytes2 (swap_bytes2 w2)" w2] le_bytes_inj [of 4 "swap_bytes4 (swap_bytes4 w4)" w4]
    le_bytes_inj [of 8 "swap_bytes8 (swap_bytes8 w8)" w8]
  by (simp_all add: swap_bytes2_rev swap_bytes4_rev swap_bytes8_rev)

lemma byte_swap_back [simp]:
  "byte_swap2 f e (byte_swap2 e f w2) = w2" "byte_swap4 f e (byte_swap4 e f w4) = w4" "byte_swap8 f e (byte_swap8 e f w8) = w8"
  by (simp_all add: byte_swap2_def byte_swap4_def byte_swap8_def do_byte_swap_def)

text \<open>
  Reading a little-endian word from memory (\<open>byte_swap<little_endian, host_endian, T>\<close>) does not
  depend on the host.
\<close>

lemma swap_of_mem:
  "length bs = 2 \<Longrightarrow> byte_swap2 little_endian e (of_mem e bs) = of_le bs"
  "length bs = 4 \<Longrightarrow> byte_swap4 little_endian e (of_mem e bs) = of_le bs"
  "length bs = 8 \<Longrightarrow> byte_swap8 little_endian e (of_mem e bs) = of_le bs"
proof -
  have "byte_swap2 little_endian e (of_mem e bs) = of_le bs" if "length bs = 2"
    using le_bytes_inj [of 2 "swap_bytes2 (of_le (rev bs))" "of_le bs"] that
    by (cases e) (simp_all add: byte_swap2_def do_byte_swap_def of_mem_def swap_bytes2_rev of_le_eq_iff)
  then show "length bs = 2 \<Longrightarrow> byte_swap2 little_endian e (of_mem e bs) = of_le bs" .
  have "byte_swap4 little_endian e (of_mem e bs) = of_le bs" if "length bs = 4"
    using le_bytes_inj [of 4 "swap_bytes4 (of_le (rev bs))" "of_le bs"] that
    by (cases e) (simp_all add: byte_swap4_def do_byte_swap_def of_mem_def swap_bytes4_rev of_le_eq_iff)
  then show "length bs = 4 \<Longrightarrow> byte_swap4 little_endian e (of_mem e bs) = of_le bs" .
  have "byte_swap8 little_endian e (of_mem e bs) = of_le bs" if "length bs = 8"
    using le_bytes_inj [of 8 "swap_bytes8 (of_le (rev bs))" "of_le bs"] that
    by (cases e) (simp_all add: byte_swap8_def do_byte_swap_def of_mem_def swap_bytes8_rev of_le_eq_iff)
  then show "length bs = 8 \<Longrightarrow> byte_swap8 little_endian e (of_mem e bs) = of_le bs" .
qed

section \<open>Blocks of memory\<close>

text \<open>
  A C array is the list of its bytes; an access that leaves it is a fault. Calls are chained with
  \<open>obind\<close>, which passes exceptions and faults on.
\<close>

definition peek :: "nat \<Rightarrow> nat \<Rightarrow> u8 list \<Rightarrow> u8 list outcome" where
  "peek off n m = (if off + n \<le> length m then Ret (take n (drop off m)) else Fault)"

definition poke :: "nat \<Rightarrow> u8 list \<Rightarrow> u8 list \<Rightarrow> u8 list outcome" where
  "poke off bs m = (if off + length bs \<le> length m then Ret (take off m @ bs @ drop (off + length bs) m) else Fault)"

lemma poke_Ret: "off + length bs \<le> length m \<Longrightarrow> poke off bs m = Ret (take off m @ bs @ drop (off + length bs) m)"
  by (simp add: poke_def)

lemma poke_length: "poke off bs m = Ret m' \<Longrightarrow> length m' = length m"
  by (auto simp: poke_def split: if_splits)

lemma peek_poke_same: "poke off bs m = Ret m' \<Longrightarrow> n = length bs \<Longrightarrow> peek off n m' = Ret bs"
  by (auto simp: poke_def peek_def split: if_splits)

lemma peek_poke_other:
  "poke off bs m = Ret m' \<Longrightarrow> off' + n \<le> off \<or> off + length bs \<le> off' \<Longrightarrow> peek off' n m' = peek off' n m"
proof -
  assume p: "poke off bs m = Ret m'" and d: "off' + n \<le> off \<or> off + length bs \<le> off'"
  have m': "m' = take off m @ bs @ drop (off + length bs) m" "off + length bs \<le> length m"
    using p by (auto simp: poke_def split: if_splits)
  have "take n (drop off' m') = take n (drop off' m)" if "off' + n \<le> length m"
    using d m' that by (intro nth_equalityI) (auto simp: nth_append)
  then show "peek off' n m' = peek off' n m" using m' by (simp add: peek_def)
qed

end
