(* ===== verification/Event_Descriptor.thy ===== *)
theory Event_Descriptor
  imports Wire_Format
begin

text \<open>
  Event packs (\<open>event/evt_desc\<close>): the fixed 1024-byte block of an \<open>EventDescriptor\<close> with its header,
  type and priority, sub code, identification and value, the alert and instrument descriptors that
  fill it, and the two functions that make a descriptor from received bytes. The layout of the bit
  fields is the one of the common ABIs: fields are allocated from the low end of the word on a
  little-endian host and from its high end on a big-endian one.
\<close>

section \<open>Types\<close>

definition EVENT_DATA_BYTE_LENGTH :: nat where "EVENT_DATA_BYTE_LENGTH = 1024"
definition EVT_HEADER_BYTE_LENGTH :: nat where "EVT_HEADER_BYTE_LENGTH = 4"
definition EVT_DATA_MAX_BYTE_LENGTH :: nat where "EVT_DATA_MAX_BYTE_LENGTH = 1019"
definition EVT_SUB_CODE_OFFSET :: nat where "EVT_SUB_CODE_OFFSET = 5"
definition EVT_SUB_CODE_PRIORITY_OFFSET :: nat where "EVT_SUB_CODE_PRIORITY_OFFSET = 7"
definition EVT_IDENTIFICATION_LENGTH_INFO_OFFSET :: nat where "EVT_IDENTIFICATION_LENGTH_INFO_OFFSET = 9"
definition EVT_IDENTIFICATION_VALUE_INFO_OFFSET :: nat where "EVT_IDENTIFICATION_VALUE_INFO_OFFSET = 10"

lemmas evt_consts [simp] = EVENT_DATA_BYTE_LENGTH_def EVT_HEADER_BYTE_LENGTH_def EVT_DATA_MAX_BYTE_LENGTH_def
  EVT_SUB_CODE_OFFSET_def EVT_SUB_CODE_PRIORITY_OFFSET_def EVT_IDENTIFICATION_LENGTH_INFO_OFFSET_def
  EVT_IDENTIFICATION_VALUE_INFO_OFFSET_def

datatype event_type = EventTypeAlert | EventTypeInstrument | EventTypeCommand | EventTypeCustom

fun event_type_code :: "event_type \<Rightarrow> u8" where
  "event_type_code EventTypeAlert = 0"
| "event_type_code EventTypeInstrument = 1"
| "event_type_code EventTypeCommand = 2"
| "event_type_code EventTypeCustom = 3"

datatype event_data_type =
  EventDataInt8 | EventDataInt16 | EventDataInt32 | EventDataInt64 | EventDataDouble | EventDataCString | EventDataBinary

fun event_data_code :: "event_data_type \<Rightarrow> u8" where
  "event_data_code EventDataInt8 = 0"
| "event_data_code EventDataInt16 = 1"
| "event_data_code EventDataInt32 = 2"
| "event_data_code EventDataInt64 = 3"
| "event_data_code EventDataDouble = 4"
| "event_data_code EventDataCString = 5"
| "event_data_code EventDataBinary = 6"

record event_header =
  sign :: u16
  version :: u16
  hlength :: u16

definition header_to :: "endianness \<Rightarrow> event_header \<Rightarrow> u32" where
  "header_to e h =
     (case e of
        little_endian \<Rightarrow> ucast (sign h) OR push_bit 16 (ucast (version h) AND mask 3) OR push_bit 19 (ucast (hlength h) AND mask 13)
      | big_endian \<Rightarrow> push_bit 16 (ucast (sign h)) OR push_bit 13 (ucast (version h) AND mask 3) OR (ucast (hlength h) AND mask 13))"

definition header_of :: "endianness \<Rightarrow> u32 \<Rightarrow> event_header" where
  "header_of e w =
     (case e of
        little_endian \<Rightarrow> \<lparr>sign = ucast w, version = ucast (drop_bit 16 w) AND mask 3, hlength = ucast (drop_bit 19 w) AND mask 13\<rparr>
      | big_endian \<Rightarrow> \<lparr>sign = ucast (drop_bit 16 w), version = ucast (drop_bit 13 w) AND mask 3, hlength = ucast w AND mask 13\<rparr>)"

record event_type_and_priority =
  etype :: u8
  epriority :: u8

definition tp_to :: "endianness \<Rightarrow> event_type_and_priority \<Rightarrow> u8" where
  "tp_to e t =
     (case e of
        little_endian \<Rightarrow> (etype t AND mask 2) OR push_bit 2 (epriority t AND mask 6)
      | big_endian \<Rightarrow> push_bit 6 (etype t AND mask 2) OR (epriority t AND mask 6))"

definition tp_of :: "endianness \<Rightarrow> u8 \<Rightarrow> event_type_and_priority" where
  "tp_of e w =
     (case e of
        little_endian \<Rightarrow> \<lparr>etype = w AND mask 2, epriority = drop_bit 2 w\<rparr>
      | big_endian \<Rightarrow> \<lparr>etype = drop_bit 6 w, epriority = w AND mask 6\<rparr>)"

record event_descriptor =
  instanceType :: event_type
  instancePriority :: u8
  eventData :: "u8 list"

section \<open>The base class\<close>

definition initData :: "endianness \<Rightarrow> event_descriptor \<Rightarrow> event_descriptor outcome" where
  "initData e d =
     obind (poke 0 (mem_bytes e 4 (byte_swap4 e little_endian (header_to e \<lparr>sign = 0x4345, version = 1, hlength = 5\<rparr>)))
              (replicate EVENT_DATA_BYTE_LENGTH 0)) (\<lambda>m.
     obind (poke EVT_HEADER_BYTE_LENGTH
              [byte_swap1 e little_endian (tp_to e \<lparr>etype = event_type_code (instanceType d), epriority = instancePriority d\<rparr>)] m) (\<lambda>m.
     Ret (d\<lparr>eventData := m\<rparr>)))"

definition new_EventDescriptor :: "endianness \<Rightarrow> event_type \<Rightarrow> u8 \<Rightarrow> event_descriptor outcome" where
  "new_EventDescriptor e t p = initData e \<lparr>instanceType = t, instancePriority = p, eventData = []\<rparr>"

definition event_header_of :: "endianness \<Rightarrow> event_descriptor \<Rightarrow> event_header outcome" where
  "event_header_of e d = obind (peek 0 4 (eventData d)) (\<lambda>b. Ret (header_of e (byte_swap4 little_endian e (of_mem e b))))"

definition getEventHeaderVersion :: "endianness \<Rightarrow> event_descriptor \<Rightarrow> u16 outcome" where
  "getEventHeaderVersion e d = obind (event_header_of e d) (\<lambda>h. Ret (version h))"

definition setEventDataLength :: "endianness \<Rightarrow> u8 \<Rightarrow> event_descriptor \<Rightarrow> event_descriptor outcome" where
  "setEventDataLength e newSize d =
     obind (event_header_of e d) (\<lambda>h.
     obind (poke 0 (mem_bytes e 4 (byte_swap4 e little_endian (header_to e (h\<lparr>hlength := ucast newSize\<rparr>)))) (eventData d)) (\<lambda>m.
     Ret (d\<lparr>eventData := m\<rparr>)))"

definition getEventDataLength :: "endianness \<Rightarrow> event_descriptor \<Rightarrow> u16 outcome" where
  "getEventDataLength e d = obind (event_header_of e d) (\<lambda>h. Ret (hlength h))"

definition setEventData :: "u8 list \<Rightarrow> u16 \<Rightarrow> event_descriptor \<Rightarrow> event_descriptor outcome" where
  "setEventData serializedEvent len d =
     obind (peek 0 (unat len) serializedEvent) (\<lambda>b. obind (poke 0 b (eventData d)) (\<lambda>m. Ret (d\<lparr>eventData := m\<rparr>)))"

definition event_tp :: "endianness \<Rightarrow> event_descriptor \<Rightarrow> event_type_and_priority outcome" where
  "event_tp e d = obind (peek EVT_HEADER_BYTE_LENGTH 1 (eventData d)) (\<lambda>b. Ret (tp_of e (byte_swap1 little_endian e (hd b))))"

definition getEventType :: "endianness \<Rightarrow> event_descriptor \<Rightarrow> u8 outcome" where
  "getEventType e d = obind (event_tp e d) (\<lambda>t. Ret (etype t))"

definition getEventPriority :: "endianness \<Rightarrow> event_descriptor \<Rightarrow> u8 outcome" where
  "getEventPriority e d = obind (event_tp e d) (\<lambda>t. Ret (epriority t))"

definition setSubCode :: "endianness \<Rightarrow> u16 \<Rightarrow> event_descriptor \<Rightarrow> event_descriptor outcome" where
  "setSubCode e subCode d =
     obind (poke EVT_SUB_CODE_OFFSET (mem_bytes e 2 (byte_swap2 e little_endian subCode)) (eventData d)) (\<lambda>m. Ret (d\<lparr>eventData := m\<rparr>))"

definition getSubCode :: "endianness \<Rightarrow> event_descriptor \<Rightarrow> u16 outcome" where
  "getSubCode e d = obind (peek EVT_SUB_CODE_OFFSET 2 (eventData d)) (\<lambda>b. Ret (byte_swap2 little_endian e (of_mem e b)))"

definition setSubCodePriority :: "endianness \<Rightarrow> u16 \<Rightarrow> event_descriptor \<Rightarrow> event_descriptor outcome" where
  "setSubCodePriority e subCodePriority d =
     obind (poke EVT_SUB_CODE_PRIORITY_OFFSET (mem_bytes e 2 (byte_swap2 e little_endian subCodePriority)) (eventData d))
       (\<lambda>m. Ret (d\<lparr>eventData := m\<rparr>))"

definition getSubCodePriority :: "endianness \<Rightarrow> event_descriptor \<Rightarrow> u16 outcome" where
  "getSubCodePriority e d = obind (peek EVT_SUB_CODE_PRIORITY_OFFSET 2 (eventData d)) (\<lambda>b. Ret (byte_swap2 little_endian e (of_mem e b)))"

definition getIdentificationlength :: "event_descriptor \<Rightarrow> u8 outcome" where
  "getIdentificationlength d = obind (peek EVT_IDENTIFICATION_LENGTH_INFO_OFFSET 1 (eventData d)) (\<lambda>b. Ret (hd b))"

definition setSenderIdentification :: "u8 list option \<Rightarrow> u8 \<Rightarrow> event_descriptor \<Rightarrow> (u16 \<times> event_descriptor) outcome" where
  "setSenderIdentification identification identificationLength d =
     obind (poke EVT_IDENTIFICATION_LENGTH_INFO_OFFSET [identificationLength] (eventData d)) (\<lambda>m.
     obind (case identification of
              None \<Rightarrow> Ret m
            | Some bs \<Rightarrow>
                if identificationLength > 0
                then obind (peek 0 (unat identificationLength) bs) (\<lambda>b. poke EVT_IDENTIFICATION_VALUE_INFO_OFFSET b m)
                else Ret m) (\<lambda>m.
     Ret (ucast identificationLength, d\<lparr>eventData := m\<rparr>)))"

text \<open>\<open>getIdentification\<close> returns a pointer into the block: the offset it points to, or null.\<close>

definition getIdentification :: "event_descriptor \<Rightarrow> nat option outcome" where
  "getIdentification d =
     obind (getIdentificationlength d) (\<lambda>n. Ret (if n = 0 then None else Some EVT_IDENTIFICATION_VALUE_INFO_OFFSET))"

text \<open>The bytes the switch over the value type writes, from the memory \<open>valuePtr\<close> points to.\<close>

definition value_bytes :: "endianness \<Rightarrow> event_data_type \<Rightarrow> u8 list \<Rightarrow> u16 \<Rightarrow> u8 list outcome" where
  "value_bytes e valueType valuePtr valueSize =
     (case valueType of
        EventDataInt8 \<Rightarrow> obind (peek 0 1 valuePtr) (\<lambda>b. Ret [byte_swap1 e little_endian (hd b)])
      | EventDataInt16 \<Rightarrow> obind (peek 0 2 valuePtr) (\<lambda>b. Ret (mem_bytes e 2 (byte_swap2 e little_endian (of_mem e b))))
      | EventDataInt32 \<Rightarrow> obind (peek 0 4 valuePtr) (\<lambda>b. Ret (mem_bytes e 4 (byte_swap4 e little_endian (of_mem e b))))
      | EventDataInt64 \<Rightarrow> obind (peek 0 8 valuePtr) (\<lambda>b. Ret (mem_bytes e 8 (byte_swap8 e little_endian (of_mem e b))))
      | EventDataDouble \<Rightarrow> obind (peek 0 8 valuePtr) (\<lambda>b. Ret (mem_bytes e 8 (byte_swap8 e little_endian (of_mem e b))))
      | EventDataCString \<Rightarrow> peek 0 (unat valueSize) valuePtr
      | EventDataBinary \<Rightarrow> peek 0 (unat valueSize) valuePtr)"

definition setIdentificationAndValueWithType ::
  "endianness \<Rightarrow> u8 list option \<Rightarrow> u8 \<Rightarrow> event_data_type \<Rightarrow> u8 list \<Rightarrow> u16 \<Rightarrow> event_descriptor \<Rightarrow> event_descriptor outcome" where
  "setIdentificationAndValueWithType e identification identificationLength valueType valuePtr valueSize d =
     obind (setSenderIdentification identification identificationLength d) (\<lambda>(indetificationSize, d).
     obind (poke (EVT_IDENTIFICATION_VALUE_INFO_OFFSET + unat indetificationSize) [event_data_code valueType] (eventData d)) (\<lambda>m.
     obind (value_bytes e valueType valuePtr valueSize) (\<lambda>bs.
     obind (poke (EVT_IDENTIFICATION_VALUE_INFO_OFFSET + unat indetificationSize + 1) bs m) (\<lambda>m.
     setEventDataLength e (of_nat (EVT_IDENTIFICATION_VALUE_INFO_OFFSET + length bs + unat indetificationSize + 1)) (d\<lparr>eventData := m\<rparr>)))))"

definition getEventValueType :: "event_descriptor \<Rightarrow> int outcome" where
  "getEventValueType d =
     obind (getIdentificationlength d) (\<lambda>idLen.
     obind (peek (EVT_IDENTIFICATION_VALUE_INFO_OFFSET + unat idLen) 1 (eventData d)) (\<lambda>b. Ret (uint (hd b))))"

definition getEventValueSize :: "endianness \<Rightarrow> event_descriptor \<Rightarrow> u16 outcome" where
  "getEventValueSize e d =
     obind (getIdentificationlength d) (\<lambda>idLen.
     obind (getEventDataLength e d) (\<lambda>packDimension.
     Ret (packDimension - (of_nat EVT_IDENTIFICATION_LENGTH_INFO_OFFSET + ucast idLen + 2))))"

text \<open>
  \<open>getEventValue\<close>: \<open>valuePtr\<close> is null or points to a block of the given capacity. The result is what
  was copied and the size stored, or nothing after the early return.
\<close>

definition getEventValue :: "endianness \<Rightarrow> nat option \<Rightarrow> bool \<Rightarrow> event_descriptor \<Rightarrow> (u8 list \<times> u16) option outcome" where
  "getEventValue e valuePtr sizeNotNull d =
     (if valuePtr \<noteq> None \<and> \<not> sizeNotNull then Ret None
      else if \<not> sizeNotNull then Fault
      else
        obind (getEventValueSize e d) (\<lambda>sz.
        obind (getIdentificationlength d) (\<lambda>idLen.
        obind (peek (EVT_IDENTIFICATION_VALUE_INFO_OFFSET + unat idLen + 1) (unat sz) (eventData d)) (\<lambda>bs.
        case valuePtr of
          None \<Rightarrow> if sz = 0 then Ret (Some ([], sz)) else Fault
        | Some cap \<Rightarrow> if unat sz \<le> cap then Ret (Some (bs, sz)) else Fault))))"

section \<open>Alerts and instrument events\<close>

definition EVT_ALERT_DEFAULT_PRIORITY :: u8 where "EVT_ALERT_DEFAULT_PRIORITY = 63"
definition EVT_INSTRUMENT_DEFAULT_PRIORITY :: u8 where "EVT_INSTRUMENT_DEFAULT_PRIORITY = 31"

datatype event_alert_code = EventAlertThresholdCrossing | EventAlertThresholdReset

fun alert_code :: "event_alert_code \<Rightarrow> u16" where
  "alert_code EventAlertThresholdCrossing = 0"
| "alert_code EventAlertThresholdReset = 1"

definition Alert_EventAlertLastCodeNumber :: u16 where
  "Alert_EventAlertLastCodeNumber = alert_code EventAlertThresholdReset"

datatype event_instrument_code =
  EventInstrumentInitialized | EventInstrumentDeinitialized | EventInstrumentStarted | EventInstrumentStopped
| EventInstrumentNewScheduleDelay | EventInstrumentInputDatasetAttributeChanged | EventInstrumentHeartbeat

fun instrument_code :: "event_instrument_code \<Rightarrow> u16" where
  "instrument_code EventInstrumentInitialized = 0"
| "instrument_code EventInstrumentDeinitialized = 1"
| "instrument_code EventInstrumentStarted = 2"
| "instrument_code EventInstrumentStopped = 3"
| "instrument_code EventInstrumentNewScheduleDelay = 4"
| "instrument_code EventInstrumentInputDatasetAttributeChanged = 5"
| "instrument_code EventInstrumentHeartbeat = 6"

definition Instrument_EventAlertLastCodeNumber :: u16 where
  "Instrument_EventAlertLastCodeNumber = instrument_code EventInstrumentHeartbeat"

definition new_AlertEventDescriptor :: "endianness \<Rightarrow> event_descriptor outcome" where
  "new_AlertEventDescriptor e = new_EventDescriptor e EventTypeAlert EVT_ALERT_DEFAULT_PRIORITY"

definition setAlertCode :: "endianness \<Rightarrow> u16 \<Rightarrow> event_descriptor \<Rightarrow> event_descriptor outcome" where
  "setAlertCode = setSubCode"

definition getAlertCode :: "endianness \<Rightarrow> event_descriptor \<Rightarrow> u16 outcome" where
  "getAlertCode = getSubCode"

definition setAlertCustomCode :: "endianness \<Rightarrow> u16 \<Rightarrow> event_descriptor \<Rightarrow> event_descriptor outcome" where
  "setAlertCustomCode e alertCustomCode = setSubCode e (alertCustomCode + Alert_EventAlertLastCodeNumber)"

definition getAlertCustomCode :: "endianness \<Rightarrow> event_descriptor \<Rightarrow> u16 outcome" where
  "getAlertCustomCode e d = obind (getSubCode e d) (\<lambda>c. Ret (c - Alert_EventAlertLastCodeNumber))"

definition setAlert ::
  "endianness \<Rightarrow> u8 list option \<Rightarrow> u8 \<Rightarrow> u16 \<Rightarrow> u16 \<Rightarrow> event_data_type \<Rightarrow> u8 list \<Rightarrow> u16 \<Rightarrow> event_descriptor \<Rightarrow> event_descriptor outcome" where
  "setAlert e ident identLength alertCode prio valueType valuePtr valueSize d =
     obind (setAlertCode e alertCode d) (\<lambda>d.
     obind (setSubCodePriority e prio d) (\<lambda>d.
     setIdentificationAndValueWithType e ident identLength valueType valuePtr valueSize d))"

definition setCustomAlert ::
  "endianness \<Rightarrow> u8 list option \<Rightarrow> u8 \<Rightarrow> u16 \<Rightarrow> u16 \<Rightarrow> event_data_type \<Rightarrow> u8 list \<Rightarrow> u16 \<Rightarrow> event_descriptor \<Rightarrow> event_descriptor outcome" where
  "setCustomAlert e ident identLength alertCustomCode prio valueType valuePtr valueSize d =
     obind (setAlertCustomCode e alertCustomCode d) (\<lambda>d.
     obind (setSubCodePriority e prio d) (\<lambda>d.
     setIdentificationAndValueWithType e ident identLength valueType valuePtr valueSize d))"

definition new_InstrumentEventDescriptor :: "endianness \<Rightarrow> event_descriptor outcome" where
  "new_InstrumentEventDescriptor e = new_EventDescriptor e EventTypeInstrument EVT_INSTRUMENT_DEFAULT_PRIORITY"

text \<open>
  The three fixed instrument events. \<open>instrumentID\<close> holds the characters before the terminating zero;
  its length, as \<open>strlen\<close> returns it, is cut to 8 bits by the call.
\<close>

definition setInstrumentEvent :: "endianness \<Rightarrow> event_instrument_code \<Rightarrow> u8 list \<Rightarrow> event_data_type \<Rightarrow> u8 list \<Rightarrow> event_descriptor \<Rightarrow> event_descriptor outcome" where
  "setInstrumentEvent e code instrumentID valueType valuePtr d =
     obind (setSubCode e (instrument_code code) d) (\<lambda>d.
     obind (setSubCodePriority e 0 d) (\<lambda>d.
     setIdentificationAndValueWithType e (Some (instrumentID @ [0])) (of_nat (length instrumentID)) valueType valuePtr 0 d))"

definition setNewScheduleDelay :: "endianness \<Rightarrow> u8 list \<Rightarrow> u64 \<Rightarrow> event_descriptor \<Rightarrow> event_descriptor outcome" where
  "setNewScheduleDelay e instrumentID newValue =
     setInstrumentEvent e EventInstrumentNewScheduleDelay instrumentID EventDataInt64 (mem_bytes e 8 newValue)"

definition setDatasetInputAttributeChanged :: "endianness \<Rightarrow> u8 list \<Rightarrow> u16 \<Rightarrow> event_descriptor \<Rightarrow> event_descriptor outcome" where
  "setDatasetInputAttributeChanged e instrumentID error =
     setInstrumentEvent e EventInstrumentInputDatasetAttributeChanged instrumentID EventDataInt16 (mem_bytes e 2 error)"

definition setEartbeat :: "endianness \<Rightarrow> u8 list \<Rightarrow> event_descriptor \<Rightarrow> event_descriptor outcome" where
  "setEartbeat e instrumentID = setInstrumentEvent e EventInstrumentHeartbeat instrumentID EventDataInt8 [0]"

definition setInstrument ::
  "endianness \<Rightarrow> u8 list option \<Rightarrow> u8 \<Rightarrow> u16 \<Rightarrow> u16 \<Rightarrow> event_data_type \<Rightarrow> u8 list \<Rightarrow> u16 \<Rightarrow> event_descriptor \<Rightarrow> event_descriptor outcome" where
  "setInstrument e ident identLength alertCode prio valueType valuePtr valueSize d =
     (if alertCode \<le> Instrument_EventAlertLastCodeNumber
      then Throw (CException 0 ''Invalid custom sub code for the event'' ''InstrumentEventDescriptor::setInstrument'')
      else
        obind (setSubCode e alertCode d) (\<lambda>d.
        obind (setSubCodePriority e prio d) (\<lambda>d.
        setIdentificationAndValueWithType e ident identLength valueType valuePtr valueSize d)))"

section \<open>Sending and receiving\<close>

text \<open>
  \<open>AsioEventForwarder::processBufferElement\<close> sends the first \<open>getEventDataLength\<close> bytes of the block.
\<close>

definition processBufferElement :: "endianness \<Rightarrow> event_descriptor \<Rightarrow> u8 list outcome" where
  "processBufferElement e d = obind (getEventDataLength e d) (\<lambda>n. peek 0 (unat n) (eventData d))"

text \<open>
  The receivers read the type through an \<open>EventTypeAndPriority\<close> on the heap, two bit fields in one byte,
  into which they store a 16-bit value: the second byte lies behind the object.
\<close>

definition sizeof_EventTypeAndPriority :: nat where "sizeof_EventTypeAndPriority = 1"

definition received_type :: "endianness \<Rightarrow> u8 list \<Rightarrow> u8 outcome" where
  "received_type e serializedEvent =
     obind (peek EVT_HEADER_BYTE_LENGTH 2 serializedEvent) (\<lambda>b.
     obind (poke 0 (mem_bytes e 2 (byte_swap2 little_endian e (of_mem e b))) (replicate sizeof_EventTypeAndPriority 0)) (\<lambda>t.
     Ret (etype (tp_of e (hd t)))))"

definition getEventInstance :: "endianness \<Rightarrow> u8 list option \<Rightarrow> u16 \<Rightarrow> event_descriptor outcome" where
  "getEventInstance e serializedEvent len =
     (case serializedEvent of
        None \<Rightarrow> Throw (CException 0 ''Invalid pointer to serialized event'' ''EventFactory::getEventInstance'')
      | Some bs \<Rightarrow>
          if unat len > EVT_DATA_MAX_BYTE_LENGTH
          then Throw (CException 1 ''Event memory size exceed the max allowed'' ''EventFactory::getEventInstance'')
          else
            obind (peek 0 2 bs) (\<lambda>s.
            if of_mem e s \<noteq> (0x4345 :: u16) then Throw (CException 2 ''Bad event signature'' ''EventFactory::getEventInstance'')
            else
              obind (received_type e bs) (\<lambda>t.
              if t = 0 then obind (new_AlertEventDescriptor e) (setEventData bs len)
              else Throw (CException 3 ''Event not yet implemented'' ''EventFactory::getEventInstance''))))"

text \<open>
  \<open>EventServer::dispatchEventToHandler\<close>: the descriptor handed to the alert or the instrument handler,
  or nothing when an exception was logged and dropped.
\<close>

definition dispatchEventToHandler :: "endianness \<Rightarrow> u8 list \<Rightarrow> u16 \<Rightarrow> (event_type \<times> event_descriptor) option outcome" where
  "dispatchEventToHandler e bs len =
     obind (peek 0 2 bs) (\<lambda>s.
     if of_mem e s \<noteq> (0x4345 :: u16) then Ret None
     else if unat len > EVT_DATA_MAX_BYTE_LENGTH then Ret None
     else
       obind (received_type e bs) (\<lambda>t.
       if t = event_type_code EventTypeAlert
       then obind (obind (new_AlertEventDescriptor e) (setEventData bs len)) (\<lambda>d. Ret (Some (EventTypeAlert, d)))
       else if t = event_type_code EventTypeInstrument
       then obind (obind (new_InstrumentEventDescriptor e) (setEventData bs len)) (\<lambda>d. Ret (Some (EventTypeInstrument, d)))
       else Ret None))"

section \<open>The layout of a pack\<close>

lemma header_roundtrip:
  "version h < 8 \<Longrightarrow> hlength h < 8192 \<Longrightarrow> header_of e (header_to e h) = h"
proof -
  assume "version h < 8" "hlength h < 8192"
  then have m: "version h = version h AND mask 3" "hlength h = hlength h AND mask 13"
    by (simp_all add: and_mask_small word_less_nat_alt)
  have sg: "\<not> bit (sign h) (16 + n)" "\<not> bit (sign h) (19 + n)" for n
    using bit_imp_le_length [of "sign h" "16 + n"] bit_imp_le_length [of "sign h" "19 + n"] by auto
  have "sign (header_of e (header_to e h)) = sign h"
    by (cases e) (auto simp: header_of_def header_to_def bit_simps intro!: bit_word_eqI)
  moreover have "version (header_of e (header_to e h)) = version h AND mask 3"
    by (cases e) (auto simp: sg header_of_def header_to_def bit_simps intro!: bit_word_eqI)
  moreover have "hlength (header_of e (header_to e h)) = hlength h AND mask 13"
    by (cases e) (auto simp: sg header_of_def header_to_def bit_simps intro!: bit_word_eqI)
  ultimately show ?thesis using m by simp
qed

lemma poke_run:
  assumes "off + length bs \<le> length m"
  obtains m' where "poke off bs m = Ret m'" "length m' = length m" "peek off (length bs) m' = Ret bs"
    "\<forall>off' n. off' + n \<le> off \<or> off + length bs \<le> off' \<longrightarrow> peek off' n m' = peek off' n m"
  using assms poke_Ret [OF assms] poke_length peek_poke_same peek_poke_other by (metis (no_types, lifting))

text \<open>The block starts with the given header and type byte.\<close>

definition based :: "endianness \<Rightarrow> event_header \<Rightarrow> u8 \<Rightarrow> u8 list \<Rightarrow> bool" where
  "based e h tp m \<longleftrightarrow> length m = 1024 \<and> peek 0 4 m = Ret (le_bytes 4 (header_to e h)) \<and> peek 4 1 m = Ret [tp]"

definition laid_out :: "endianness \<Rightarrow> event_header \<Rightarrow> u8 \<Rightarrow> u16 \<Rightarrow> u16 \<Rightarrow> u8 list \<Rightarrow> u8 \<Rightarrow> u8 list \<Rightarrow> u8 list \<Rightarrow> bool" where
  "laid_out e h tp c p i vt v m \<longleftrightarrow> based e h tp m
     \<and> peek 5 2 m = Ret (le_bytes 2 c) \<and> peek 7 2 m = Ret (le_bytes 2 p)
     \<and> peek 9 1 m = Ret [of_nat (length i)] \<and> peek 10 (length i) m = Ret i
     \<and> peek (10 + length i) 1 m = Ret [vt] \<and> peek (11 + length i) (length v) m = Ret v"

lemma new_EventDescriptor_run:
  obtains m where "new_EventDescriptor e t p = Ret \<lparr>instanceType = t, instancePriority = p, eventData = m\<rparr>"
    "based e \<lparr>sign = 0x4345, version = 1, hlength = 5\<rparr> (tp_to e \<lparr>etype = event_type_code t, epriority = p\<rparr>) m"
proof -
  let ?h = "header_to e \<lparr>sign = 0x4345, version = 1, hlength = 5\<rparr>" and ?t = "tp_to e \<lparr>etype = event_type_code t, epriority = p\<rparr>"
  obtain m where m: "poke 0 (le_bytes 4 ?h) (replicate 1024 0) = Ret m" "length m = 1024" "peek 0 4 m = Ret (le_bytes 4 ?h)"
    by (rule poke_run [of 0 "le_bytes 4 ?h" "replicate 1024 0"]) auto
  obtain m' where "poke 4 [?t] m = Ret m'" "length m' = 1024" "peek 4 1 m' = Ret [?t]" "peek 0 4 m' = peek 0 4 m"
    by (rule poke_run [of 4 "[?t]" m]) (use m(2) in auto)
  with m show ?thesis
    by (intro that [of m']) (simp_all add: new_EventDescriptor_def initData_def based_def mem_swap)
qed

lemma event_header_run:
  "based e h tp (eventData d) \<Longrightarrow> version h < 8 \<Longrightarrow> hlength h < 8192 \<Longrightarrow> event_header_of e d = Ret h"
  by (simp add: based_def event_header_of_def swap_of_mem header_roundtrip)

lemma setEventDataLength_run:
  assumes "based e h tp (eventData d)" and "version h < 8" and "hlength h < 8192"
  obtains m where "setEventDataLength e n d = Ret (d\<lparr>eventData := m\<rparr>)" "based e (h\<lparr>hlength := ucast n\<rparr>) tp m"
    "\<forall>off k. 4 \<le> off \<longrightarrow> peek off k m = peek off k (eventData d)"
proof -
  let ?b = "le_bytes 4 (header_to e (h\<lparr>hlength := ucast n\<rparr>))"
  obtain m where "poke 0 ?b (eventData d) = Ret m" "length m = length (eventData d)" "peek 0 4 m = Ret ?b"
    "\<forall>off' k. off' + k \<le> 0 \<or> 0 + length ?b \<le> off' \<longrightarrow> peek off' k m = peek off' k (eventData d)"
    by (rule poke_run [of 0 ?b "eventData d"]) (use assms(1) in \<open>auto simp: based_def\<close>)
  with assms show ?thesis
    by (intro that [of m]) (simp_all add: setEventDataLength_def event_header_run mem_swap, simp_all add: based_def)
qed

lemma length_value_bytes:
  "value_bytes e vt v sz = Ret bs \<Longrightarrow> length bs < 2 ^ 16"
proof -
  have "unat sz < 2 ^ 16" using unsigned_less [of sz] by simp
  then show "value_bytes e vt v sz = Ret bs \<Longrightarrow> length bs < 2 ^ 16"
    by (cases vt; cases "peek 0 1 v"; cases "peek 0 2 v"; cases "peek 0 4 v"; cases "peek 0 8 v")
       (auto simp: value_bytes_def peek_def split: if_splits)
qed

lemma setSenderIdentification_run:
  assumes "based e h tp (eventData d)" and "unat n \<le> length ident"
  obtains m where "setSenderIdentification (Some ident) n d = Ret (ucast n, d\<lparr>eventData := m\<rparr>)"
    "length m = 1024" "peek 9 1 m = Ret [n]" "peek 10 (unat n) m = Ret (take (unat n) ident)"
    "\<forall>off k. off + k \<le> 9 \<longrightarrow> peek off k m = peek off k (eventData d)"
proof -
  have n: "unat n < 256" using unsigned_less [of n] by simp
  let ?i = "take (unat n) ident"
  obtain m1 where m1: "poke 9 [n] (eventData d) = Ret m1" "length m1 = 1024" "peek 9 1 m1 = Ret [n]"
    "\<forall>off k. off + k \<le> 9 \<or> 9 + length [n] \<le> off \<longrightarrow> peek off k m1 = peek off k (eventData d)"
    by (rule poke_run [of 9 "[n]" "eventData d"]) (use assms(1) in \<open>auto simp: based_def\<close>)
  obtain m2 where m2: "poke 10 ?i m1 = Ret m2" "length m2 = 1024" "peek 10 (length ?i) m2 = Ret ?i"
    "\<forall>off k. off + k \<le> 10 \<or> 10 + length ?i \<le> off \<longrightarrow> peek off k m2 = peek off k m1"
    by (rule poke_run [of 10 ?i m1]) (use m1(2) n assms(2) in auto)
  have p: "peek 0 (unat n) ident = Ret ?i" using assms(2) by (simp add: peek_def)
  show ?thesis
  proof (cases "n = 0")
    case True
    moreover have "peek 10 0 m1 = Ret []" using m1(2) by (simp add: peek_def)
    ultimately show ?thesis using m1 by (intro that [of m1]) (simp_all add: setSenderIdentification_def)
  next
    case False
    then have "n > 0" by (simp add: word_greater_zero_iff)
    then show ?thesis using m1 m2 p assms(2)
      by (intro that [of m2]) (simp_all add: setSenderIdentification_def min_absorb2)
  qed
qed

lemma setIdentificationAndValue_run:
  assumes b: "based e h tp (eventData d)" "version h < 8" "hlength h < 8192"
    and c: "peek 5 2 (eventData d) = Ret (le_bytes 2 c)" "peek 7 2 (eventData d) = Ret (le_bytes 2 p)"
    and i: "unat n \<le> length ident" and v: "value_bytes e vt vp sz = Ret v"
  shows "11 + unat n + length v \<le> 1024 \<Longrightarrow>
      \<exists>m. setIdentificationAndValueWithType e (Some ident) n vt vp sz d = Ret (d\<lparr>eventData := m\<rparr>)
        \<and> laid_out e (h\<lparr>hlength := ucast (of_nat (11 + unat n + length v) :: u8)\<rparr>) tp c p (take (unat n) ident) (event_data_code vt) v m"
    and "11 + unat n + length v > 1024 \<Longrightarrow> setIdentificationAndValueWithType e (Some ident) n vt vp sz d = Fault"
proof -
  have n: "unat n < 256" using unsigned_less [of n, where 'a = nat] by simp
  then have n16: "unat (ucast n :: u16) = unat n" by (simp add: unsigned_ucast_eq take_bit_nat_eq_self)
  have n8: "ucast (ucast n :: u16) = n" by (auto simp: bit_simps intro!: bit_word_eqI)
  obtain m1 where m1: "setSenderIdentification (Some ident) n d = Ret (ucast n, d\<lparr>eventData := m1\<rparr>)"
    "length m1 = 1024" "peek 9 1 m1 = Ret [n]" "peek 10 (unat n) m1 = Ret (take (unat n) ident)"
    "\<forall>off k. off + k \<le> 9 \<longrightarrow> peek off k m1 = peek off k (eventData d)"
    by (rule setSenderIdentification_run [OF b(1) i])
  obtain m2 where m2: "poke (10 + unat n) [event_data_code vt] m1 = Ret m2" "length m2 = 1024"
    "peek (10 + unat n) 1 m2 = Ret [event_data_code vt]"
    "\<forall>off k. off + k \<le> 10 + unat n \<or> 10 + unat n + length [event_data_code vt] \<le> off \<longrightarrow> peek off k m2 = peek off k m1"
    by (rule poke_run [of "10 + unat n" "[event_data_code vt]" m1]) (use m1(2) n in auto)
  show "setIdentificationAndValueWithType e (Some ident) n vt vp sz d = Fault" if "11 + unat n + length v > 1024"
    using m1 m2 v n16 that by (simp add: setIdentificationAndValueWithType_def poke_def)
  assume len: "11 + unat n + length v \<le> 1024"
  obtain m3 where m3: "poke (11 + unat n) v m2 = Ret m3" "length m3 = 1024" "peek (11 + unat n) (length v) m3 = Ret v"
    "\<forall>off k. off + k \<le> 11 + unat n \<or> 11 + unat n + length v \<le> off \<longrightarrow> peek off k m3 = peek off k m2"
    by (rule poke_run [of "11 + unat n" v m2]) (use m2(2) len in auto)
  let ?d = "d\<lparr>eventData := m3\<rparr>" and ?s = "of_nat (11 + unat n + length v) :: u8"
  have old: "peek off k m3 = peek off k (eventData d)" if "off + k \<le> 9" for off k
    using m1(5) m2(4) m3(4) that by simp
  have "based e h tp (eventData ?d)" using b(1) m3(2) old by (simp add: based_def)
  then obtain m4 where m4: "setEventDataLength e ?s ?d = Ret (?d\<lparr>eventData := m4\<rparr>)" "based e (h\<lparr>hlength := ucast ?s\<rparr>) tp m4"
    "\<forall>off k. 4 \<le> off \<longrightarrow> peek off k m4 = peek off k (eventData ?d)"
    using b(2,3) by (rule setEventDataLength_run)
  have "laid_out e (h\<lparr>hlength := ucast ?s\<rparr>) tp c p (take (unat n) ident) (event_data_code vt) v m4"
    using m4(2,3) m3 m2 m1 c old i by (simp add: laid_out_def min_absorb2)
  moreover have "setIdentificationAndValueWithType e (Some ident) n vt vp sz d = Ret (d\<lparr>eventData := m4\<rparr>)"
    using m1(1) m2(1) m3(1) m4(1) v n16 n8 by (simp add: setIdentificationAndValueWithType_def ac_simps)
  ultimately show "\<exists>m. setIdentificationAndValueWithType e (Some ident) n vt vp sz d = Ret (d\<lparr>eventData := m\<rparr>)
      \<and> laid_out e (h\<lparr>hlength := ucast ?s\<rparr>) tp c p (take (unat n) ident) (event_data_code vt) v m" by blast
qed

lemma setSubCode_run:
  assumes "based e h tp (eventData d)"
  obtains m where "setSubCode e c d = Ret (d\<lparr>eventData := m\<rparr>)" "based e h tp m" "peek 5 2 m = Ret (le_bytes 2 c)"
proof -
  obtain m where "poke 5 (le_bytes 2 c) (eventData d) = Ret m" "length m = 1024" "peek 5 2 m = Ret (le_bytes 2 c)"
    "\<forall>off k. off + k \<le> 5 \<or> 5 + length (le_bytes 2 c) \<le> off \<longrightarrow> peek off k m = peek off k (eventData d)"
    by (rule poke_run [of 5 "le_bytes 2 c" "eventData d"]) (use assms in \<open>auto simp: based_def\<close>)
  with assms show ?thesis by (intro that [of m]) (simp_all add: setSubCode_def mem_swap based_def)
qed

lemma setSubCodePriority_run:
  assumes "based e h tp (eventData d)" and "peek 5 2 (eventData d) = Ret c"
  obtains m where "setSubCodePriority e p d = Ret (d\<lparr>eventData := m\<rparr>)" "based e h tp m" "peek 5 2 m = Ret c" "peek 7 2 m = Ret (le_bytes 2 p)"
proof -
  obtain m where "poke 7 (le_bytes 2 p) (eventData d) = Ret m" "length m = 1024" "peek 7 2 m = Ret (le_bytes 2 p)"
    "\<forall>off k. off + k \<le> 7 \<or> 7 + length (le_bytes 2 p) \<le> off \<longrightarrow> peek off k m = peek off k (eventData d)"
    by (rule poke_run [of 7 "le_bytes 2 p" "eventData d"]) (use assms in \<open>auto simp: based_def\<close>)
  with assms show ?thesis by (intro that [of m]) (simp_all add: setSubCodePriority_def mem_swap based_def)
qed

text \<open>What every filling operation does: sub code, its priority, then identification and value.\<close>

definition fill :: "endianness \<Rightarrow> u16 \<Rightarrow> u16 \<Rightarrow> u8 list \<Rightarrow> u8 \<Rightarrow> event_data_type \<Rightarrow> u8 list \<Rightarrow> u16 \<Rightarrow> event_descriptor \<Rightarrow> event_descriptor outcome" where
  "fill e c p ident n vt vp sz d =
     obind (setSubCode e c d) (\<lambda>d. obind (setSubCodePriority e p d) (\<lambda>d.
     setIdentificationAndValueWithType e (Some ident) n vt vp sz d))"

lemma fill_ops:
  "setAlert e (Some ident) n c p vt vp sz d = fill e c p ident n vt vp sz d"
  "setCustomAlert e (Some ident) n c p vt vp sz d = fill e (c + 1) p ident n vt vp sz d"
  "setInstrumentEvent e ic nm vt vp d = fill e (instrument_code ic) 0 (nm @ [0]) (of_nat (length nm)) vt vp 0 d"
  "\<not> c \<le> 6 \<Longrightarrow> setInstrument e (Some ident) n c p vt vp sz d = fill e c p ident n vt vp sz d"
  by (simp_all add: setAlert_def setCustomAlert_def setInstrumentEvent_def setInstrument_def setAlertCode_def setAlertCustomCode_def
      fill_def Alert_EventAlertLastCodeNumber_def Instrument_EventAlertLastCodeNumber_def)

abbreviation event_hdr :: "u16 \<Rightarrow> event_header" where
  "event_hdr n \<equiv> \<lparr>sign = 0x4345, version = 1, hlength = n\<rparr>"

lemma fill_run:
  assumes b: "based e (event_hdr 5) tp (eventData d)"
    and i: "unat n \<le> length ident" and v: "value_bytes e vt vp sz = Ret v"
  shows "11 + unat n + length v \<le> 1024 \<Longrightarrow> \<exists>m. fill e c p ident n vt vp sz d = Ret (d\<lparr>eventData := m\<rparr>)
      \<and> laid_out e (event_hdr (ucast (of_nat (11 + unat n + length v) :: u8))) tp c p (take (unat n) ident) (event_data_code vt) v m"
    and "11 + unat n + length v > 1024 \<Longrightarrow> fill e c p ident n vt vp sz d = Fault"
proof -
  obtain m1 where m1: "setSubCode e c d = Ret (d\<lparr>eventData := m1\<rparr>)" "based e (event_hdr 5) tp m1" "peek 5 2 m1 = Ret (le_bytes 2 c)"
    by (rule setSubCode_run [OF b])
  obtain m2 where m2: "setSubCodePriority e p (d\<lparr>eventData := m1\<rparr>) = Ret (d\<lparr>eventData := m2\<rparr>)" "based e (event_hdr 5) tp m2"
    "peek 5 2 m2 = Ret (le_bytes 2 c)" "peek 7 2 m2 = Ret (le_bytes 2 p)"
    using m1 by (rule_tac setSubCodePriority_run [of e "event_hdr 5" tp "d\<lparr>eventData := m1\<rparr>" "le_bytes 2 c" p]) simp_all
  have f: "fill e c p ident n vt vp sz d = setIdentificationAndValueWithType e (Some ident) n vt vp sz (d\<lparr>eventData := m2\<rparr>)"
    using m1 m2 by (simp add: fill_def)
  moreover let ?d = "d\<lparr>eventData := m2\<rparr>"
  have p: "based e (event_hdr 5) tp (eventData ?d)" "version (event_hdr 5) < 8" "hlength (event_hdr 5) < 8192"
    "peek 5 2 (eventData ?d) = Ret (le_bytes 2 c)" "peek 7 2 (eventData ?d) = Ret (le_bytes 2 p)"
    using m2(2-4) by simp_all
  ultimately show "\<exists>m. fill e c p ident n vt vp sz d = Ret (d\<lparr>eventData := m\<rparr>)
      \<and> laid_out e (event_hdr (ucast (of_nat (11 + unat n + length v) :: u8))) tp c p (take (unat n) ident) (event_data_code vt) v m"
    if "11 + unat n + length v \<le> 1024"
    using setIdentificationAndValue_run(1) [OF p i v that] by simp
  show "fill e c p ident n vt vp sz d = Fault" if "11 + unat n + length v > 1024"
    using setIdentificationAndValue_run(2) [OF p i v that] f by simp
qed

section \<open>Reading a pack\<close>

lemma laid_out_read:
  assumes "laid_out e (event_hdr L) tp c p i vt v (eventData d)" and "L < 8192" and "length i < 256"
  shows "getEventType e d = Ret (etype (tp_of e tp))" "getEventPriority e d = Ret (epriority (tp_of e tp))"
    "getSubCode e d = Ret c" "getSubCodePriority e d = Ret p" "getEventDataLength e d = Ret L"
    "getIdentificationlength d = Ret (of_nat (length i))" "getEventValueType d = Ret (uint vt)"
    "getEventValueSize e d = Ret (L - (11 + of_nat (length i)))"
proof -
  have i: "unat (of_nat (length i) :: u8) = length i" using assms(3) by (simp add: unat_of_nat take_bit_nat_eq_self)
  have "event_header_of e d = Ret (event_hdr L)"
    using assms by (intro event_header_run [of _ _ tp]) (simp_all add: laid_out_def)
  then show l: "getEventDataLength e d = Ret L" by (simp add: getEventDataLength_def)
  show "getEventType e d = Ret (etype (tp_of e tp))" "getEventPriority e d = Ret (epriority (tp_of e tp))"
    "getSubCode e d = Ret c" "getSubCodePriority e d = Ret p"
    using assms(1) by (simp_all add: laid_out_def based_def getEventType_def getEventPriority_def event_tp_def getSubCode_def getSubCodePriority_def swap_of_mem)
  show n: "getIdentificationlength d = Ret (of_nat (length i))"
    using assms(1) by (simp add: laid_out_def getIdentificationlength_def)
  then show "getEventValueType d = Ret (uint vt)"
    using assms(1) i by (simp add: laid_out_def getEventValueType_def)
  have "ucast (of_nat (length i) :: u8) = (of_nat (length i) :: u16)"
    using i by (metis of_nat_unat)
  then show "getEventValueSize e d = Ret (L - (11 + of_nat (length i)))"
    using n l by (simp add: getEventValueSize_def algebra_simps)
qed

lemma tp_roundtrip: "unat t < 4 \<Longrightarrow> unat p < 64 \<Longrightarrow> tp_of e (tp_to e \<lparr>etype = t, epriority = p\<rparr>) = \<lparr>etype = t, epriority = p\<rparr>"
proof -
  assume "unat t < 4" "unat p < 64"
  then have m: "t = t AND mask 2" "p = p AND mask 6" by (simp_all add: and_mask_small)
  have "etype (tp_of e (tp_to e \<lparr>etype = t, epriority = p\<rparr>)) = t AND mask 2"
    by (cases e) (auto simp: tp_of_def tp_to_def bit_simps intro!: bit_word_eqI)
  moreover have "epriority (tp_of e (tp_to e \<lparr>etype = t, epriority = p\<rparr>)) = p AND mask 6"
    by (cases e) (auto simp: tp_of_def tp_to_def bit_simps intro!: bit_word_eqI)
  ultimately show ?thesis using m by simp
qed

section \<open>Transport\<close>

lemma peek_prefix: "off + k \<le> L \<Longrightarrow> L \<le> length m \<Longrightarrow> peek off k (take L m @ rest) = peek off k m"
  by (auto simp: peek_def min_absorb2 drop_take intro!: take_equalityI nth_equalityI)

lemma laid_out_prefix:
  assumes "laid_out e h tp c p i vt v m" and "11 + length i + length v \<le> L" and "L \<le> 1024" and "length rest = 1024 - L"
  shows "laid_out e h tp c p i vt v (take L m @ rest)"
proof -
  have "length m = 1024" using assms(1) by (simp add: laid_out_def based_def)
  with assms show ?thesis by (simp add: laid_out_def based_def peek_prefix)
qed

lemma peek_split: "peek off (k + l) m = Ret b \<Longrightarrow> peek off k m = Ret (take k b) \<and> peek (off + k) l m = Ret (drop k b)"
  by (auto simp: peek_def take_drop ac_simps min_def split: if_splits)

lemma sent_signature:
  assumes "based e h tp m" and "6 \<le> L" and "L \<le> 1024"
  obtains b where "peek 0 2 (take L m) = Ret (take 2 (le_bytes 4 (header_to e h)))" "peek 4 2 (take L m) = Ret [tp, b]"
proof -
  have len: "length m = 1024" using assms(1) by (simp add: based_def)
  then obtain b where b: "peek 4 2 m = Ret b" "length b = 2" by (simp add: peek_def)
  then have "take 1 b = [tp]" using peek_split [of 4 1 1 m b] assms(1) by (simp add: based_def numeral_2_eq_2)
  then obtain b' where "b = [tp, b']" using b(2) by (cases b) (auto simp: length_Suc_conv numeral_2_eq_2)
  moreover have "peek 0 2 m = Ret (take 2 (le_bytes 4 (header_to e h)))"
    using peek_split [of 0 2 2 m] assms(1) by (simp add: based_def)
  ultimately show ?thesis
    using that [of b'] peek_prefix [of 0 2 L m "[]"] peek_prefix [of 4 2 L m "[]"] b(1) assms(2,3) len by simp
qed

lemma le_bytes_4_take2: "take 2 (le_bytes 4 w) = [ucast w, ucast (drop_bit 8 w)]"
  by (simp add: le_bytes_def upt_rec)

lemma signature_little: "of_mem little_endian (take 2 (le_bytes 4 (header_to little_endian h))) = sign h"
  by (rule bit_word_eqI) (auto simp: of_mem_def le_bytes_4_take2 header_to_def bit_simps)

text \<open>On a big-endian host the first two bytes hold the version and the length instead.\<close>

lemma signature_big: "of_mem big_endian (take 2 (le_bytes 4 (header_to big_endian (event_hdr n)))) \<noteq> (0x4345 :: u16)"
proof -
  have "bit (of_mem big_endian (take 2 (le_bytes 4 (header_to big_endian (event_hdr n)))) :: u16) 5"
    by (simp add: of_mem_def le_bytes_4_take2 header_to_def bit_simps)
  moreover have "\<not> bit (0x4345 :: u16) 5" by simp
  ultimately show ?thesis by metis
qed

lemma received_type_faults: "received_type e bs = Fault"
proof (cases "peek EVT_HEADER_BYTE_LENGTH 2 bs")
  case (Ret b)
  then show ?thesis by (simp add: received_type_def sizeof_EventTypeAndPriority_def poke_def)
qed (auto simp: received_type_def peek_def split: if_splits)

lemma setEventData_run:
  assumes "length bs = L" "L \<le> 1024" "length (eventData d) = 1024"
  shows "setEventData bs (of_nat L) d = Ret (d\<lparr>eventData := bs @ drop L (eventData d)\<rparr>)"
proof -
  have "unat (of_nat L :: u16) = L" using assms(2) by (simp add: unat_of_nat take_bit_nat_eq_self)
  with assms show ?thesis by (simp add: setEventData_def peek_def poke_def)
qed

lemma alert_received:
  assumes l: "laid_out e (event_hdr N) tp c p i vt v m" and L: "L = 11 + length i + length v" "L \<le> 1019"
  obtains d0 d where "new_AlertEventDescriptor e = Ret d0" "setEventData (take L m) (of_nat L) d0 = Ret d"
    "laid_out e (event_hdr N) tp c p i vt v (eventData d)"
proof -
  have m: "length m = 1024" using l by (simp add: laid_out_def based_def)
  obtain m0 where m0: "new_AlertEventDescriptor e = Ret \<lparr>instanceType = EventTypeAlert, instancePriority = EVT_ALERT_DEFAULT_PRIORITY, eventData = m0\<rparr>"
    "length m0 = 1024"
    unfolding new_AlertEventDescriptor_def by (rule new_EventDescriptor_run [of e EventTypeAlert EVT_ALERT_DEFAULT_PRIORITY]) (auto simp: based_def)
  let ?old = "\<lparr>instanceType = EventTypeAlert, instancePriority = EVT_ALERT_DEFAULT_PRIORITY, eventData = m0\<rparr>"
  let ?fresh = "\<lparr>instanceType = EventTypeAlert, instancePriority = EVT_ALERT_DEFAULT_PRIORITY, eventData = take L m @ drop L m0\<rparr>"
  have "setEventData (take L m) (of_nat L) ?old = Ret ?fresh" using setEventData_run [where bs = "take L m" and L = L and d = ?old] m0(2) m L(2) by simp
  moreover have "laid_out e (event_hdr N) tp c p i vt v (eventData ?fresh)"
    using laid_out_prefix [OF l, of L "drop L m0"] L m0(2) by simp
  ultimately show ?thesis using that m0(1) by blast
qed

lemma new_alert:
  obtains m where "new_AlertEventDescriptor e = Ret \<lparr>instanceType = EventTypeAlert, instancePriority = 63, eventData = m\<rparr>"
    "based e (event_hdr 5) (tp_to e \<lparr>etype = 0, epriority = 63\<rparr>) m"
  unfolding new_AlertEventDescriptor_def EVT_ALERT_DEFAULT_PRIORITY_def by (rule new_EventDescriptor_run [of e EventTypeAlert 63]) auto

lemma alert_sent:
  assumes "unat n \<le> length ident" and "value_bytes e vt vp sz = Ret v" and "L = 11 + unat n + length v" and "L < 256"
  obtains d m where "new_AlertEventDescriptor e = Ret d" "setAlert e (Some ident) n code prio vt vp sz d = Ret (d\<lparr>eventData := m\<rparr>)"
    "laid_out e (event_hdr (of_nat L)) (tp_to e \<lparr>etype = 0, epriority = 63\<rparr>) code prio (take (unat n) ident) (event_data_code vt) v m"
    "processBufferElement e (d\<lparr>eventData := m\<rparr>) = Ret (take L m)" "length (take L m) = L" "(of_nat L :: u16) < 8192"
proof -
  let ?tp = "tp_to e \<lparr>etype = 0, epriority = 63\<rparr>"
  obtain m0 where m0: "new_AlertEventDescriptor e = Ret \<lparr>instanceType = EventTypeAlert, instancePriority = 63, eventData = m0\<rparr>"
    "based e (event_hdr 5) ?tp m0" by (rule new_alert)
  let ?d = "\<lparr>instanceType = EventTypeAlert, instancePriority = 63, eventData = m0\<rparr>"
  have N: "ucast (of_nat L :: u8) = (of_nat L :: u16)" "unat (of_nat L :: u16) = L"
    using assms(4) by (simp_all add: word_unat_eq_iff unsigned_ucast_eq unat_of_nat take_bit_nat_eq_self)
  obtain m where m: "setAlert e (Some ident) n code prio vt vp sz ?d = Ret (?d\<lparr>eventData := m\<rparr>)"
    "laid_out e (event_hdr (of_nat L)) ?tp code prio (take (unat n) ident) (event_data_code vt) v m"
    using fill_run(1) [of e ?tp ?d n ident vt vp sz v code prio] m0(2) assms N(1) unfolding fill_ops assms(3) by auto
  have small: "(of_nat L :: u16) < 8192" "length (take (unat n) ident) < 256" using N(2) assms by (simp_all add: word_less_nat_alt)
  have gl: "getEventDataLength e (?d\<lparr>eventData := m\<rparr>) = Ret (of_nat L)"
    by (rule laid_out_read(5) [OF _ small]) (use m(2) in simp)
  have "length m = 1024" using m(2) by (simp add: laid_out_def based_def)
  then have "processBufferElement e (?d\<lparr>eventData := m\<rparr>) = Ret (take L m)" "length (take L m) = L"
    using N(2) assms(4) unfolding processBufferElement_def gl by (simp_all add: peek_def)
  then show ?thesis using m0(1) m small(1) by (intro that [of ?d m])
qed

section \<open>Properties\<close>

text \<open>
  C21. An event pack carries an alert intact between hosts of the same byte order: filled by \<open>setAlert\<close>,
  cut to its length by the forwarder and put by \<open>setEventData\<close> into the descriptor of the receiver, the alert
  has the type, priority, code, code priority, identification, value type and value it was given. The pack
  must not be longer than 255 bytes. How the receivers choose the descriptor is not part of the round trip:
  that step faults, see \<open>received_events_fault\<close>.
\<close>

theorem alert_roundtrip:
  assumes "unat n \<le> length ident" and "value_bytes e vt vp sz = Ret v" and "11 + unat n + length v < 256" and "length v \<le> cap"
  shows "\<exists>d d1 frame d2. new_AlertEventDescriptor e = Ret d
    \<and> setAlert e (Some ident) n code prio vt vp sz d = Ret d1
    \<and> processBufferElement e d1 = Ret frame \<and> length frame = 11 + unat n + length v
    \<and> setEventData frame (of_nat (length frame)) d = Ret d2
    \<and> getEventType e d2 = Ret 0 \<and> getEventPriority e d2 = Ret 63
    \<and> getAlertCode e d2 = Ret code \<and> getSubCodePriority e d2 = Ret prio
    \<and> getIdentificationlength d2 = Ret n \<and> peek 10 (unat n) (eventData d2) = Ret (take (unat n) ident)
    \<and> getEventValueType d2 = Ret (uint (event_data_code vt))
    \<and> getEventValue e (Some cap) True d2 = Ret (Some (v, of_nat (length v)))"
proof -
  let ?L = "11 + unat n + length v" and ?i = "take (unat n) ident" and ?tp = "tp_to e \<lparr>etype = 0, epriority = 63\<rparr>"
  obtain d m where m: "new_AlertEventDescriptor e = Ret d"
    "setAlert e (Some ident) n code prio vt vp sz d = Ret (d\<lparr>eventData := m\<rparr>)"
    "laid_out e (event_hdr (of_nat ?L)) ?tp code prio ?i (event_data_code vt) v m"
    and frame: "processBufferElement e (d\<lparr>eventData := m\<rparr>) = Ret (take ?L m)" "length (take ?L m) = ?L"
    and small: "(of_nat ?L :: u16) < 8192"
    by (rule alert_sent [OF assms(1,2) HOL.refl assms(3), of code prio])
  have il: "length ?i = unat n" "length ?i < 256" using assms(1,3) by simp_all
  have tp: "tp_of e ?tp = \<lparr>etype = 0, epriority = 63\<rparr>" by (rule tp_roundtrip) simp_all
  obtain d2 where d2: "setEventData (take ?L m) (of_nat ?L) d = Ret d2"
    "laid_out e (event_hdr (of_nat ?L)) ?tp code prio ?i (event_data_code vt) v (eventData d2)"
    by (rule alert_received [OF m(3), of ?L]) (use assms(3) il m(1) in auto)
  note rd = laid_out_read [OF d2(2) small il(2)]
  have sz: "(of_nat ?L :: u16) - (11 + of_nat (length ?i)) = of_nat (length v)" using il by simp
  have gs: "getEventValueSize e d2 = Ret (of_nat (length v))" using rd(8) unfolding sz .
  have gi: "getIdentificationlength d2 = Ret n" using rd(6) il by simp
  have uv: "unat (of_nat (length v) :: u16) = length v" using assms(3) by (simp add: unat_of_nat take_bit_nat_eq_self)
  have pv: "peek (10 + unat n + 1) (length v) (eventData d2) = Ret v" and pi: "peek 10 (unat n) (eventData d2) = Ret ?i"
    using d2(2) il by (simp_all add: laid_out_def)
  have "getEventValue e (Some cap) True d2 = Ret (Some (v, of_nat (length v)))"
    using assms(4) by (simp add: getEventValue_def gs gi uv pv [simplified])
  moreover have "getEventType e d2 = Ret 0" "getEventPriority e d2 = Ret 63" "getAlertCode e d2 = Ret code"
    using rd(1,2,3) tp by (simp_all add: getAlertCode_def)
  ultimately show ?thesis using m(1,2) frame d2(1) rd(4,7) gi pi
    by (intro exI [of _ d] exI [of _ "d\<lparr>eventData := m\<rparr>"] exI [of _ "take ?L m"] exI [of _ d2] conjI) (simp_all only: frame(2))
qed

lemma value_bytes_int16: "length bs = 2 \<Longrightarrow> value_bytes little_endian EventDataInt16 bs sz = Ret bs"
  by (simp add: value_bytes_def peek_def mem_swap of_mem_def of_le_eq_iff)

theorem alert_roundtrip_witness:
  "\<exists>d d1 frame d2. new_AlertEventDescriptor little_endian = Ret d
    \<and> setAlert little_endian (Some [99, 117, 49]) 3 1 7 EventDataInt16 [5, 6] 0 d = Ret d1
    \<and> processBufferElement little_endian d1 = Ret frame \<and> length frame = 16
    \<and> setEventData frame 16 d = Ret d2
    \<and> getAlertCode little_endian d2 = Ret 1 \<and> getEventValue little_endian (Some 2) True d2 = Ret (Some ([5, 6], 2))"
proof -
  have "\<exists>d d1 frame d2. new_AlertEventDescriptor little_endian = Ret d
      \<and> setAlert little_endian (Some [99, 117, 49]) 3 1 7 EventDataInt16 [5, 6] 0 d = Ret d1
      \<and> processBufferElement little_endian d1 = Ret frame \<and> length frame = 11 + unat (3 :: u8) + length [5 :: u8, 6]
      \<and> setEventData frame (of_nat (length frame)) d = Ret d2
      \<and> getAlertCode little_endian d2 = Ret 1 \<and> getEventValue little_endian (Some 2) True d2 = Ret (Some ([5, 6], of_nat (length [5 :: u8, 6])))"
    using alert_roundtrip [of 3 "[99, 117, 49]" little_endian EventDataInt16 "[5, 6]" 0 "[5, 6]" 2 1 7] value_bytes_int16 [of "[5, 6]" 0]
    by (simp only: list.size) fastforce
  then show ?thesis by (elim exE conjE) (intro exI conjI, assumption+, simp_all)
qed

text \<open>
  Every event that is received with a good signature and length faults, in the server and in the factory:
  the store of its type goes past the one byte allocated for it.
\<close>

theorem received_events_fault:
  assumes "peek 0 2 frame = Ret s" and "of_mem e s = (0x4345 :: u16)" and "unat len \<le> 1019"
  shows "dispatchEventToHandler e frame len = Fault \<and> getEventInstance e (Some frame) len = Fault"
  using assms by (simp add: dispatchEventToHandler_def getEventInstance_def received_type_faults)

theorem received_events_fault_witness:
  "\<exists>d d1 frame. new_AlertEventDescriptor little_endian = Ret d
     \<and> setAlert little_endian (Some [99]) 1 0 0 EventDataInt8 [5] 0 d = Ret d1
     \<and> processBufferElement little_endian d1 = Ret frame \<and> dispatchEventToHandler little_endian frame 13 = Fault"
proof -
  have v: "value_bytes little_endian EventDataInt8 [5] 0 = Ret [5]" by (simp add: value_bytes_def peek_def byte_swap1_def do_byte_swap_def)
  obtain d m where m: "new_AlertEventDescriptor little_endian = Ret d"
    "setAlert little_endian (Some [99]) 1 0 0 EventDataInt8 [5] 0 d = Ret (d\<lparr>eventData := m\<rparr>)"
    "laid_out little_endian (event_hdr (of_nat 13)) (tp_to little_endian \<lparr>etype = 0, epriority = 63\<rparr>) 0 0 (take (unat (1 :: u8)) [99]) (event_data_code EventDataInt8) [5] m"
    "processBufferElement little_endian (d\<lparr>eventData := m\<rparr>) = Ret (take 13 m)"
    by (rule alert_sent [OF _ v, of 1 "[99]" 13 0 0]) simp_all
  have "based little_endian (event_hdr 13) (tp_to little_endian \<lparr>etype = 0, epriority = 63\<rparr>) m" using m(3) by (simp add: laid_out_def)
  then have "peek 0 2 (take 13 m) = Ret (take 2 (le_bytes 4 (header_to little_endian (event_hdr 13))))"
    by (rule sent_signature [of little_endian "event_hdr 13" _ m 13]) simp_all
  from received_events_fault [OF this, of little_endian 13] m show ?thesis by (auto simp: signature_little)
qed

lemma peek_shorter: "peek off n m = Ret b \<Longrightarrow> k \<le> n \<Longrightarrow> peek off k m = Ret (take k b)"
  using peek_split [of off k "n - k" m b] by simp

text \<open>
  A longer pack is damaged. \<open>setEventDataLength\<close> takes the length as an 8-bit number although the
  header has 13 bits for it: from 256 bytes on, the value read back is cut short, or the size computed
  for it wraps around and the copy runs past the block; from 1025 bytes on, the write itself does.
\<close>

theorem long_event_value_lost:
  assumes "unat n \<le> length ident" and "value_bytes e vt vp sz = Ret v" and "length v \<le> cap"
    and "L = 11 + unat n + length v" and "256 \<le> L"
  shows "\<exists>d. new_AlertEventDescriptor e = Ret d \<and>
    (if 1024 < L then setAlert e (Some ident) n code prio vt vp sz d = Fault
     else \<exists>d1. setAlert e (Some ident) n code prio vt vp sz d = Ret d1 \<and>
       getEventValue e (Some cap) True d1 =
         (if L mod 256 < 11 + unat n then Fault
          else Ret (Some (take (L mod 256 - (11 + unat n)) v, of_nat (L mod 256 - (11 + unat n))))))"
proof -
  let ?i = "take (unat n) ident" and ?tp = "tp_to e \<lparr>etype = 0, epriority = 63\<rparr>" and ?N = "ucast (of_nat L :: u8) :: u16"
  obtain m0 where m0: "new_AlertEventDescriptor e = Ret \<lparr>instanceType = EventTypeAlert, instancePriority = 63, eventData = m0\<rparr>"
    "based e (event_hdr 5) ?tp m0" by (rule new_alert)
  let ?d = "\<lparr>instanceType = EventTypeAlert, instancePriority = 63, eventData = m0\<rparr>"
  have b: "based e (event_hdr 5) ?tp (eventData ?d)" using m0(2) by simp
  have "setAlert e (Some ident) n code prio vt vp sz ?d = Fault" if "1024 < L"
    unfolding fill_ops by (rule fill_run(2) [OF b assms(1,2)]) (use that assms(4) in simp)
  moreover have "\<exists>d1. setAlert e (Some ident) n code prio vt vp sz ?d = Ret d1 \<and> getEventValue e (Some cap) True d1 =
         (if L mod 256 < 11 + unat n then Fault
          else Ret (Some (take (L mod 256 - (11 + unat n)) v, of_nat (L mod 256 - (11 + unat n)))))" if le: "L \<le> 1024"
  proof -
    obtain m where m: "setAlert e (Some ident) n code prio vt vp sz ?d = Ret (?d\<lparr>eventData := m\<rparr>)"
      "laid_out e (event_hdr ?N) ?tp code prio ?i (event_data_code vt) v m"
      using fill_run(1) [OF b assms(1,2), of code prio] le unfolding assms(4) fill_ops by auto
    let ?d1 = "?d\<lparr>eventData := m\<rparr>"
    have il: "length ?i = unat n" "length ?i < 256" using assms(1) unsigned_less [of n, where 'a = nat] by simp_all
    have N: "unat ?N = L mod 256"
      by (simp add: unsigned_ucast_eq unat_of_nat take_bit_eq_mod mod_mod_cancel)
    then have "?N < 8192" by (simp add: word_less_nat_alt)
    then have rd: "getIdentificationlength ?d1 = Ret n" "getEventValueSize e ?d1 = Ret (?N - (11 + ucast n))"
      using laid_out_read(6,8) [of e ?N ?tp code prio ?i "event_data_code vt" v ?d1] m(2) il by simp_all
    have un: "unat (11 + ucast n :: u16) = 11 + unat n"
      using il by (simp add: unat_word_ariths unsigned_ucast_eq take_bit_eq_mod)
    have pv: "length m = 1024" "peek (11 + unat n) (length v) m = Ret v" using m(2) il by (simp_all add: laid_out_def based_def)
    have "getEventValue e (Some cap) True ?d1 =
         (if L mod 256 < 11 + unat n then Fault
          else Ret (Some (take (L mod 256 - (11 + unat n)) v, of_nat (L mod 256 - (11 + unat n)))))"
    proof (cases "L mod 256 < 11 + unat n")
      case True
      then have "unat (?N - (11 + ucast n)) = 65536 + L mod 256 - (11 + unat n)"
        using N un by (simp add: unat_sub_if_size word_size)
      then have "unat (?N - (11 + ucast n)) > 1024" using il by linarith
      then show ?thesis using True rd pv(1) by (simp add: getEventValue_def peek_def)
    next
      case False
      let ?k = "L mod 256 - (11 + unat n)"
      have k: "unat (?N - (11 + ucast n)) = ?k" using False N un by (simp add: unat_sub_if_size)
      then have k': "?N - (11 + ucast n) = of_nat ?k" by (metis of_nat_unat ucast_id)
      have "?k \<le> length v" using assms(4,5) by (simp add: le_diff_conv)
      then have "peek (11 + unat n) ?k m = Ret (take ?k v)" using peek_shorter [OF pv(2)] by simp
      then show ?thesis using False rd k k' \<open>?k \<le> length v\<close> assms(3) by (simp add: getEventValue_def)
    qed
    with m(1) show ?thesis by blast
  qed
  ultimately show ?thesis using m0(1) by auto
qed

theorem long_event_value_lost_witness:
  "\<exists>d d1. new_AlertEventDescriptor little_endian = Ret d
     \<and> setAlert little_endian (Some []) 0 0 0 EventDataBinary (replicate 250 7) 250 d = Ret d1
     \<and> getEventValue little_endian (Some 250) True d1 = Fault"
proof -
  have "value_bytes little_endian EventDataBinary (replicate 250 7) 250 = Ret (replicate 250 7)"
    by (simp add: value_bytes_def peek_def)
  from long_event_value_lost [of 0 "[]", OF _ this, of 250 261 0 0] show ?thesis by auto
qed

text \<open>
  Events do not work on big-endian hosts: the receiver compares the first two bytes with the
  signature in host order, but the bit field with the signature is the high half of the header there
  and is sent last. Every alert is dropped by the server and refused by the factory.
\<close>

theorem big_endian_events_refused:
  assumes "new_AlertEventDescriptor big_endian = Ret d" and "unat n \<le> length ident"
    and "setAlert big_endian (Some ident) n code prio vt vp sz d = Ret d1"
    and "processBufferElement big_endian d1 = Ret frame" and "6 \<le> length frame"
  shows "dispatchEventToHandler big_endian frame (of_nat (length frame)) = Ret None
    \<and> (length frame \<le> 1019 \<longrightarrow> getEventInstance big_endian (Some frame) (of_nat (length frame))
         = Throw (CException 2 ''Bad event signature'' ''EventFactory::getEventInstance''))"
proof -
  let ?tp = "tp_to big_endian \<lparr>etype = 0, epriority = 63\<rparr>"
  have b: "based big_endian (event_hdr 5) ?tp (eventData d)" using assms(1) by (rule_tac new_alert [of big_endian]) auto
  obtain v where v: "value_bytes big_endian vt vp sz = Ret v"
    using assms(3) unfolding fill_ops fill_def setIdentificationAndValueWithType_def
    by (cases "value_bytes big_endian vt vp sz") (auto elim!: obind_RetE split: prod.splits)
  have "11 + unat n + length v \<le> 1024"
    using fill_run(2) [OF b assms(2) v, of code prio] assms(3) unfolding fill_ops by (metis not_le outcome.distinct(3))
  then obtain N where "based big_endian (event_hdr N) ?tp (eventData d1)"
    using fill_run(1) [OF b assms(2) v, of code prio] assms(3) unfolding fill_ops by (auto simp: laid_out_def)
  moreover obtain L where L: "frame = take L (eventData d1)" "L \<le> 1024" "L = length frame"
    using assms(4) calculation by (auto simp: processBufferElement_def peek_def based_def elim!: obind_RetE split: if_splits)
  ultimately have "peek 0 2 frame = Ret (take 2 (le_bytes 4 (header_to big_endian (event_hdr N))))"
    using sent_signature [of big_endian "event_hdr N" ?tp "eventData d1" L] assms(5) by metis
  moreover have "unat (of_nat (length frame) :: u16) = length frame" using L(2,3) by (simp add: unat_of_nat take_bit_nat_eq_self)
  ultimately show ?thesis by (simp add: dispatchEventToHandler_def getEventInstance_def signature_big)
qed

theorem big_endian_events_refused_witness:
  "\<exists>d d1 frame. new_AlertEventDescriptor big_endian = Ret d
     \<and> setAlert big_endian (Some [99]) 1 0 0 EventDataInt8 [5] 0 d = Ret d1
     \<and> processBufferElement big_endian d1 = Ret frame \<and> dispatchEventToHandler big_endian frame 13 = Ret None"
proof -
  have v: "value_bytes big_endian EventDataInt8 [5] 0 = Ret [5]" by (simp add: value_bytes_def peek_def)
  obtain d m where m: "new_AlertEventDescriptor big_endian = Ret d"
    "setAlert big_endian (Some [99]) 1 0 0 EventDataInt8 [5] 0 d = Ret (d\<lparr>eventData := m\<rparr>)"
    "processBufferElement big_endian (d\<lparr>eventData := m\<rparr>) = Ret (take 13 m)" "length (take 13 m) = 13"
    by (rule alert_sent [OF _ v, of 1 "[99]" 13 0 0]) simp_all
  with big_endian_events_refused [OF m(1) _ m(2,3)] show ?thesis by fastforce
qed

end
