(* ===== verification/Direct_IO_Pack.thy ===== *)
theory Direct_IO_Pack
  imports Wire_Format
begin

text \<open>
  The data pack of the direct I/O layer (\<open>direct_io/DirectIODataPack.h\<close>), what the ZMQ client connection
  sends for it (\<open>impl/ZMQDirectIOClientConnection.cpp\<close>) and what the ZMQ server makes of the frames it
  receives (\<open>impl/ZMQDirectIOServer.cpp\<close>). A ZMQ message is the list of its frames; which send calls
  succeed, the frame of the synchronous answer and the contents of uninitialised memory are parameters.
\<close>

section \<open>The dispatcher header\<close>

text \<open>
  The 64-bit union: \<open>raw_data\<close> and, over it, the bit fields, laid out from the low end of the word on a
  little-endian host and from the high end on a big-endian one.
\<close>

record dispatch_fields =
  route_addr :: u16
  synchronous_answer :: "1 word"
  unused :: u16
  channel_idx :: u8
  channel_part :: u8
  channel_opcode :: u8
  channel_specified_tag :: u8

definition raw_of :: "endianness \<Rightarrow> dispatch_fields \<Rightarrow> u64" where
  "raw_of e f =
     (case e of
        little_endian \<Rightarrow>
          ucast (route_addr f) OR push_bit 16 (ucast (synchronous_answer f)) OR push_bit 17 (ucast (unused f) AND mask 15)
          OR push_bit 32 (ucast (channel_idx f)) OR push_bit 40 (ucast (channel_part f))
          OR push_bit 48 (ucast (channel_opcode f)) OR push_bit 56 (ucast (channel_specified_tag f))
      | big_endian \<Rightarrow>
          push_bit 48 (ucast (route_addr f)) OR push_bit 47 (ucast (synchronous_answer f)) OR push_bit 32 (ucast (unused f) AND mask 15)
          OR push_bit 24 (ucast (channel_idx f)) OR push_bit 16 (ucast (channel_part f))
          OR push_bit 8 (ucast (channel_opcode f)) OR ucast (channel_specified_tag f))"

definition fields_of :: "endianness \<Rightarrow> u64 \<Rightarrow> dispatch_fields" where
  "fields_of e r =
     (case e of
        little_endian \<Rightarrow>
          \<lparr>route_addr = ucast r, synchronous_answer = ucast (drop_bit 16 r), unused = ucast (drop_bit 17 r) AND mask 15,
           channel_idx = ucast (drop_bit 32 r), channel_part = ucast (drop_bit 40 r),
           channel_opcode = ucast (drop_bit 48 r), channel_specified_tag = ucast (drop_bit 56 r)\<rparr>
      | big_endian \<Rightarrow>
          \<lparr>route_addr = ucast (drop_bit 48 r), synchronous_answer = ucast (drop_bit 47 r), unused = ucast (drop_bit 32 r) AND mask 15,
           channel_idx = ucast (drop_bit 24 r), channel_part = ucast (drop_bit 16 r),
           channel_opcode = ucast (drop_bit 8 r), channel_specified_tag = ucast r\<rparr>)"

lemma fields_raw [simp]:
  "route_addr (fields_of e (raw_of e f)) = route_addr f" "synchronous_answer (fields_of e (raw_of e f)) = synchronous_answer f"
  "channel_idx (fields_of e (raw_of e f)) = channel_idx f" "channel_part (fields_of e (raw_of e f)) = channel_part f"
  "channel_opcode (fields_of e (raw_of e f)) = channel_opcode f"
  "channel_specified_tag (fields_of e (raw_of e f)) = channel_specified_tag f"
  "unused (fields_of e (raw_of e f)) = unused f AND mask 15"
proof -
  note defs = fields_of_def raw_of_def bit_simps bit_beyond
  show "route_addr (fields_of e (raw_of e f)) = route_addr f" "synchronous_answer (fields_of e (raw_of e f)) = synchronous_answer f"
    "channel_idx (fields_of e (raw_of e f)) = channel_idx f" "channel_part (fields_of e (raw_of e f)) = channel_part f"
    "channel_opcode (fields_of e (raw_of e f)) = channel_opcode f"
    "channel_specified_tag (fields_of e (raw_of e f)) = channel_specified_tag f"
    "unused (fields_of e (raw_of e f)) = unused f AND mask 15"
    by (cases e; auto simp: defs intro!: bit_word_eqI)+
qed

section \<open>The pack\<close>

record data_pack =
  raw_data :: u64
  channel_header_size :: u32
  channel_data_size :: u32
  channel_header_data :: "u8 list option"
  channel_data :: "u8 list option"

definition calloc_pack :: data_pack where
  "calloc_pack = \<lparr>raw_data = 0, channel_header_size = 0, channel_data_size = 0, channel_header_data = None, channel_data = None\<rparr>"

definition pack_fields :: "endianness \<Rightarrow> data_pack \<Rightarrow> dispatch_fields" where
  "pack_fields e p = fields_of e (raw_data p)"

definition set_fields :: "endianness \<Rightarrow> (dispatch_fields \<Rightarrow> dispatch_fields) \<Rightarrow> data_pack \<Rightarrow> data_pack" where
  "set_fields e f p = p\<lparr>raw_data := raw_of e (f (fields_of e (raw_data p)))\<rparr>"

definition DIRECT_IO_HEADER_SIZE :: nat where "DIRECT_IO_HEADER_SIZE = 16"
definition DIRECT_IO_CHANNEL_PART_EMPTY :: u8 where "DIRECT_IO_CHANNEL_PART_EMPTY = 0"
definition DIRECT_IO_CHANNEL_PART_HEADER_ONLY :: u8 where "DIRECT_IO_CHANNEL_PART_HEADER_ONLY = 1"
definition DIRECT_IO_CHANNEL_PART_DATA_ONLY :: u8 where "DIRECT_IO_CHANNEL_PART_DATA_ONLY = 2"
definition DIRECT_IO_CHANNEL_PART_HEADER_DATA :: u8 where "DIRECT_IO_CHANNEL_PART_HEADER_DATA = 3"

lemmas part_defs [simp] = DIRECT_IO_HEADER_SIZE_def DIRECT_IO_CHANNEL_PART_EMPTY_def DIRECT_IO_CHANNEL_PART_HEADER_ONLY_def
  DIRECT_IO_CHANNEL_PART_DATA_ONLY_def DIRECT_IO_CHANNEL_PART_HEADER_DATA_def

text \<open>The two macros that attach a channel header and channel data.\<close>

definition DIRECT_IO_SET_CHANNEL_HEADER :: "endianness \<Rightarrow> u8 list \<Rightarrow> u32 \<Rightarrow> data_pack \<Rightarrow> data_pack" where
  "DIRECT_IO_SET_CHANNEL_HEADER e h_ptr h_size p =
     (set_fields e (\<lambda>f. f\<lparr>channel_part := channel_part f + DIRECT_IO_CHANNEL_PART_HEADER_ONLY\<rparr>) p)
       \<lparr>channel_header_size := byte_swap4 e little_endian h_size, channel_header_data := Some h_ptr\<rparr>"

definition DIRECT_IO_SET_CHANNEL_DATA :: "endianness \<Rightarrow> u8 list option \<Rightarrow> u32 \<Rightarrow> data_pack \<Rightarrow> data_pack" where
  "DIRECT_IO_SET_CHANNEL_DATA e d_ptr d_size p =
     (set_fields e (\<lambda>f. f\<lparr>channel_part := channel_part f + DIRECT_IO_CHANNEL_PART_DATA_ONLY\<rparr>) p)
       \<lparr>channel_data_size := byte_swap4 e little_endian d_size, channel_data := d_ptr\<rparr>"

section \<open>Sending\<close>

text \<open>
  \<open>completeChannnelDataPack\<close> of the virtual client channel and \<open>completeDataPack\<close> of the connection. The
  channel's \<open>sendPriorityData\<close> and \<open>sendServiceData\<close> both end in \<open>sendPriorityData\<close> of the connection, so
  there is one function for the two.
\<close>

definition completeChannnelDataPack :: "endianness \<Rightarrow> u8 \<Rightarrow> bool \<Rightarrow> data_pack \<Rightarrow> data_pack" where
  "completeChannnelDataPack e channel_route_index sync p =
     set_fields e (\<lambda>f. f\<lparr>synchronous_answer := of_bool sync, channel_idx := channel_route_index\<rparr>) p"

definition completeDataPack :: "endianness \<Rightarrow> u16 \<Rightarrow> data_pack \<Rightarrow> data_pack" where
  "completeDataPack e endpoint p = set_fields e (\<lambda>f. f\<lparr>route_addr := endpoint\<rparr>) p"

datatype sent_part = SentPartHeader | SentPartData

text \<open>
  The result of a send: the code returned, the frames that went out, the parts of the pack that were
  given to their deallocator (by the code, or by ZMQ when it is done with the message) and the answer.
\<close>

record send_result =
  sr_err :: int
  sr_frames :: "u8 list list"
  sr_freed :: "sent_part list"
  sr_answer :: "u8 list option"

text \<open>The block a message is made of: null with a size is undefined.\<close>

definition message_of :: "u8 list option \<Rightarrow> u32 \<Rightarrow> u8 list outcome" where
  "message_of block n = (case block of None \<Rightarrow> if n = 0 then Ret [] else Fault | Some bs \<Rightarrow> peek 0 (unat n) bs)"

text \<open>
  The first half of \<open>writeToSocket\<close>: the delimiter and the parts. \<open>ok k\<close> tells whether the \<open>k\<close>-th call
  after the delimiter succeeds; the \<open>bool\<close> in the result tells whether the function goes on to the answer.
\<close>

definition write_parts :: "endianness \<Rightarrow> (nat \<Rightarrow> bool) \<Rightarrow> data_pack \<Rightarrow> (bool \<times> send_result) outcome" where
  "write_parts e ok p =
     (let p = p\<lparr>raw_data := byte_swap8 e little_endian (raw_data p),
               channel_header_size := byte_swap4 e little_endian (channel_header_size p),
               channel_data_size := byte_swap4 e little_endian (channel_data_size p)\<rparr>;
          head = mem_bytes e 8 (raw_data p) @ mem_bytes e 4 (channel_header_size p) @ mem_bytes e 4 (channel_data_size p);
          r = \<lparr>sr_err = 0, sr_frames = [[]], sr_freed = [], sr_answer = None\<rparr>;
          part = channel_part (fields_of e (raw_data p)) in
      if part = DIRECT_IO_CHANNEL_PART_EMPTY then
        Ret (True, if ok 0 then r\<lparr>sr_err := int DIRECT_IO_HEADER_SIZE, sr_frames := [[], head]\<rparr> else r\<lparr>sr_err := - 1\<rparr>)
      else if part = DIRECT_IO_CHANNEL_PART_HEADER_ONLY then
        (if \<not> ok 0 then Ret (False, r\<lparr>sr_err := - 1\<rparr>)
         else
           obind (message_of (channel_header_data p) (channel_header_size p)) (\<lambda>h.
           Ret (True,
             if ok 1 then r\<lparr>sr_err := 0, sr_frames := [[], head, h], sr_freed := [SentPartHeader]\<rparr>
             else r\<lparr>sr_err := - 1, sr_frames := [[], head], sr_freed := [SentPartHeader]\<rparr>)))
      else if part = DIRECT_IO_CHANNEL_PART_DATA_ONLY then
        (if \<not> ok 0 then Ret (False, r\<lparr>sr_err := - 1, sr_freed := [SentPartData]\<rparr>)
         else
           obind (message_of (channel_data p) (channel_data_size p)) (\<lambda>d.
           Ret (True,
             if ok 1 then r\<lparr>sr_err := 0, sr_frames := [[], head, d], sr_freed := [SentPartData]\<rparr>
             else r\<lparr>sr_err := - 1, sr_frames := [[], head], sr_freed := [SentPartData]\<rparr>)))
      else if part = DIRECT_IO_CHANNEL_PART_HEADER_DATA then
        (if \<not> ok 0 then Ret (False, r\<lparr>sr_err := - 1, sr_freed := [SentPartData]\<rparr>)
         else
           obind (message_of (channel_header_data p) (channel_header_size p)) (\<lambda>h.
           if \<not> ok 1 then Ret (False, r\<lparr>sr_err := - 1, sr_frames := [[], head], sr_freed := [SentPartData, SentPartHeader]\<rparr>)
           else
             obind (message_of (channel_data p) (channel_data_size p)) (\<lambda>d.
             Ret (True, r\<lparr>sr_err := 0, sr_frames := [[], head, h] @ (if ok 2 then [d] else []), sr_freed := [SentPartHeader, SentPartData]\<rparr>))))
      else Ret (True, r))"

text \<open>
  The second half: with the flag for a synchronous answer set, the delimiter and the answer are
  received. \<open>delim_ok\<close> tells whether the first succeeds, \<open>reply\<close> is the frame of the second if it does.
\<close>

definition writeToSocket :: "endianness \<Rightarrow> (nat \<Rightarrow> bool) \<Rightarrow> bool \<Rightarrow> u8 list option \<Rightarrow> data_pack \<Rightarrow> send_result outcome" where
  "writeToSocket e ok delim_ok reply p =
     obind (write_parts e ok p) (\<lambda>(go_on, r).
     Ret (if \<not> go_on \<or> synchronous_answer (fields_of e (byte_swap8 e little_endian (raw_data p))) = 0 then r
          else if \<not> delim_ok then r\<lparr>sr_err := - 1\<rparr>
          else r\<lparr>sr_err := 0, sr_answer := reply\<rparr>))"

definition sendPriorityData ::
  "endianness \<Rightarrow> u16 \<Rightarrow> u8 \<Rightarrow> (nat \<Rightarrow> bool) \<Rightarrow> bool \<Rightarrow> u8 list option \<Rightarrow> bool \<Rightarrow> data_pack \<Rightarrow> send_result outcome" where
  "sendPriorityData e endpoint channel_route_index ok delim_ok reply sync p =
     writeToSocket e ok delim_ok reply (completeDataPack e endpoint (completeChannnelDataPack e channel_route_index sync p))"

section \<open>Receiving\<close>

text \<open>
  \<open>zmq_recv\<close> into a block just allocated: the frame is cut to the block, and what it does not fill keeps
  the contents \<open>junk\<close> of the heap.
\<close>

definition recv_into :: "(nat \<Rightarrow> u8) \<Rightarrow> u32 \<Rightarrow> u8 list \<Rightarrow> u8 list" where
  "recv_into junk n frame = map (\<lambda>i. if i < length frame then frame ! i else junk i) [0..<unat n]"

text \<open>
  One turn of the server's loop: the identity, the delimiter, the pack header and the parts it
  announces. A message whose header has another length is dropped. Where a message ends before the
  parts its header announces, the code would go on with the next message; the model stops there.
\<close>

definition server_receive :: "endianness \<Rightarrow> (nat \<Rightarrow> u8) \<Rightarrow> u8 list list \<Rightarrow> data_pack option" where
  "server_receive e junk frames =
     (case frames of
        identity # delimiter # head # rest \<Rightarrow>
          if length head \<noteq> DIRECT_IO_HEADER_SIZE then None
          else
            (let p = calloc_pack\<lparr>raw_data := byte_swap8 little_endian e (of_mem e (take 8 head))\<rparr>;
                 hs = byte_swap4 little_endian e (of_mem e (take 4 (drop 8 head)));
                 ds = byte_swap4 little_endian e (of_mem e (take 4 (drop 12 head)));
                 part = channel_part (pack_fields e p) in
             if part = DIRECT_IO_CHANNEL_PART_HEADER_ONLY then
               (case rest of
                  h # _ \<Rightarrow> Some (p\<lparr>channel_header_size := hs, channel_header_data := Some (recv_into junk hs h), channel_data := None\<rparr>)
                | [] \<Rightarrow> None)
             else if part = DIRECT_IO_CHANNEL_PART_DATA_ONLY then
               (case rest of
                  d # _ \<Rightarrow> Some (p\<lparr>channel_data_size := ds, channel_data := Some (recv_into junk ds d), channel_header_data := None\<rparr>)
                | [] \<Rightarrow> None)
             else if part = DIRECT_IO_CHANNEL_PART_HEADER_DATA then
               (case rest of
                  h # d # _ \<Rightarrow> Some (p\<lparr>channel_header_size := hs, channel_header_data := Some (recv_into junk hs h),
                                       channel_data_size := ds, channel_data := Some (recv_into junk ds d)\<rparr>)
                | _ \<Rightarrow> None)
             else Some p)
      | _ \<Rightarrow> None)"

section \<open>From client to server\<close>

text \<open>
  A pack as the two macros build it: the part field says which parts there are, and the blocks are as
  long as their sizes say. \<open>delivered\<close> is the pack the server makes of it.
\<close>

definition has_header :: "data_pack \<Rightarrow> bool" where
  "has_header p \<longleftrightarrow> channel_part (pack_fields little_endian p) \<in> {1, 3}"

definition has_data :: "data_pack \<Rightarrow> bool" where
  "has_data p \<longleftrightarrow> channel_part (pack_fields little_endian p) \<in> {2, 3}"

definition pack_ok :: "data_pack \<Rightarrow> bool" where
  "pack_ok p \<longleftrightarrow> channel_part (pack_fields little_endian p) \<in> {0, 1, 2, 3}
     \<and> (has_header p \<longrightarrow> (case channel_header_data p of None \<Rightarrow> False | Some h \<Rightarrow> unat (channel_header_size p) \<le> length h))
     \<and> (has_data p \<longrightarrow> (case channel_data p of None \<Rightarrow> False | Some d \<Rightarrow> unat (channel_data_size p) \<le> length d))"

definition delivered :: "data_pack \<Rightarrow> data_pack" where
  "delivered p =
     \<lparr>raw_data = raw_data p,
      channel_header_size = (if has_header p then channel_header_size p else 0),
      channel_data_size = (if has_data p then channel_data_size p else 0),
      channel_header_data = (if has_header p then map_option (take (unat (channel_header_size p))) (channel_header_data p) else None),
      channel_data = (if has_data p then map_option (take (unat (channel_data_size p))) (channel_data p) else None)\<rparr>"

lemma recv_into_all: "unat n \<le> length h \<Longrightarrow> recv_into junk n (take (unat n) h) = take (unat n) h"
  by (auto simp: recv_into_def intro!: nth_equalityI)

lemma swap_little [simp]:
  "byte_swap2 little_endian little_endian w2 = w2" "byte_swap4 little_endian little_endian w4 = w4" "byte_swap8 little_endian little_endian w8 = w8"
  by (simp_all add: byte_swap2_def byte_swap4_def byte_swap8_def do_byte_swap_def)

lemma wire_roundtrip:
  assumes p: "pack_ok p" and ok: "\<forall>k < 3. ok k"
  shows "\<exists>r. writeToSocket little_endian ok delim_ok reply p = Ret r
    \<and> server_receive little_endian junk (identity # sr_frames r) = Some (delivered p)
    \<and> (SentPartHeader \<in> set (sr_freed r) \<longleftrightarrow> has_header p) \<and> (SentPartData \<in> set (sr_freed r) \<longleftrightarrow> has_data p)"
proof -
  let ?head = "mem_bytes little_endian 8 (raw_data p) @ mem_bytes little_endian 4 (channel_header_size p) @ mem_bytes little_endian 4 (channel_data_size p)"
  have head: "length ?head = 16" "of_mem little_endian (take 8 ?head) = raw_data p"
    "of_mem little_endian (take 4 (drop 8 ?head)) = channel_header_size p" "of_mem little_endian (take 4 (drop 12 ?head)) = channel_data_size p"
    by simp_all
  have ok: "ok 0" "ok 1" "ok 2" "ok (Suc 0)" using ok by simp_all
  obtain raw hs ds hd dt where pp: "p = \<lparr>raw_data = raw, channel_header_size = hs, channel_data_size = ds, channel_header_data = hd, channel_data = dt\<rparr>"
    by (cases p) auto
  show ?thesis using p head ok
    by (auto simp: pp pack_ok_def delivered_def has_header_def has_data_def pack_fields_def writeToSocket_def write_parts_def server_receive_def
        calloc_pack_def message_of_def peek_def recv_into_all split: option.splits)
qed

text \<open>The macros and the completing functions, on the fields they touch.\<close>

lemma pack_fields_set [simp]: "pack_fields e (set_fields e f p) = fields_of e (raw_of e (f (pack_fields e p)))"
  by (simp add: pack_fields_def set_fields_def)

lemma set_fields_sel [simp]:
  "channel_header_size (set_fields e f p) = channel_header_size p" "channel_data_size (set_fields e f p) = channel_data_size p"
  "channel_header_data (set_fields e f p) = channel_header_data p" "channel_data (set_fields e f p) = channel_data p"
  by (simp_all add: set_fields_def)

lemma pack_ok_fields:
  "(\<And>x. channel_part (f x) = channel_part x) \<Longrightarrow> pack_ok (set_fields little_endian f p) = pack_ok p"
  by (simp add: pack_ok_def has_header_def has_data_def split: option.split)

lemma pack_ok_header:
  "pack_ok p \<Longrightarrow> \<not> has_header p \<Longrightarrow> unat n \<le> length h \<Longrightarrow> pack_ok (DIRECT_IO_SET_CHANNEL_HEADER little_endian h n p)"
  by (auto simp: pack_ok_def has_header_def has_data_def DIRECT_IO_SET_CHANNEL_HEADER_def pack_fields_def set_fields_def split: option.splits)

lemma pack_ok_data:
  "pack_ok p \<Longrightarrow> \<not> has_data p \<Longrightarrow> unat n \<le> length d \<Longrightarrow> pack_ok (DIRECT_IO_SET_CHANNEL_DATA little_endian (Some d) n p)"
  by (auto simp: pack_ok_def has_header_def has_data_def DIRECT_IO_SET_CHANNEL_DATA_def pack_fields_def set_fields_def split: option.splits)

lemma has_parts [simp]:
  "\<not> has_header calloc_pack" "\<not> has_data calloc_pack"
  "has_header (set_fields little_endian f p) \<longleftrightarrow> channel_part (f (pack_fields little_endian p)) \<in> {1, 3}"
  "has_data (set_fields little_endian f p) \<longleftrightarrow> channel_part (f (pack_fields little_endian p)) \<in> {2, 3}"
  by (simp_all add: has_header_def has_data_def calloc_pack_def, simp_all add: pack_fields_def fields_of_def)

lemma pack_ok_calloc [simp]: "pack_ok calloc_pack"
  by (simp add: pack_ok_def, simp add: pack_fields_def fields_of_def calloc_pack_def)

lemma pack_ok_complete [simp]:
  "pack_ok (completeDataPack little_endian ep p) = pack_ok p" "pack_ok (completeChannnelDataPack little_endian ci sy p) = pack_ok p"
  by (simp_all add: completeDataPack_def completeChannnelDataPack_def pack_ok_fields)

lemma macro_sel [simp]:
  "channel_data (DIRECT_IO_SET_CHANNEL_HEADER e h n p) = channel_data p" "channel_data_size (DIRECT_IO_SET_CHANNEL_HEADER e h n p) = channel_data_size p"
  "channel_header_data (DIRECT_IO_SET_CHANNEL_HEADER e h n p) = Some h" "channel_header_size (DIRECT_IO_SET_CHANNEL_HEADER e h n p) = byte_swap4 e little_endian n"
  "channel_header_data (DIRECT_IO_SET_CHANNEL_DATA e d n p) = channel_header_data p" "channel_header_size (DIRECT_IO_SET_CHANNEL_DATA e d n p) = channel_header_size p"
  "channel_data (DIRECT_IO_SET_CHANNEL_DATA e d n p) = d" "channel_data_size (DIRECT_IO_SET_CHANNEL_DATA e d n p) = byte_swap4 e little_endian n"
  "channel_opcode (pack_fields e (DIRECT_IO_SET_CHANNEL_HEADER e h n p)) = channel_opcode (pack_fields e p)"
  "channel_opcode (pack_fields e (DIRECT_IO_SET_CHANNEL_DATA e d n p)) = channel_opcode (pack_fields e p)"
  "channel_part (pack_fields e (DIRECT_IO_SET_CHANNEL_HEADER e h n p)) = channel_part (pack_fields e p) + 1"
  "channel_part (pack_fields e (DIRECT_IO_SET_CHANNEL_DATA e d n p)) = channel_part (pack_fields e p) + 2"
  by (simp_all add: DIRECT_IO_SET_CHANNEL_HEADER_def DIRECT_IO_SET_CHANNEL_DATA_def pack_fields_def set_fields_def)

lemma complete_sel [simp]:
  "channel_data (completeDataPack e ep p) = channel_data p" "channel_data_size (completeDataPack e ep p) = channel_data_size p"
  "channel_header_data (completeDataPack e ep p) = channel_header_data p" "channel_header_size (completeDataPack e ep p) = channel_header_size p"
  "channel_data (completeChannnelDataPack e ci sy p) = channel_data p" "channel_data_size (completeChannnelDataPack e ci sy p) = channel_data_size p"
  "channel_header_data (completeChannnelDataPack e ci sy p) = channel_header_data p" "channel_header_size (completeChannnelDataPack e ci sy p) = channel_header_size p"
  "pack_fields e (completeDataPack e ep (completeChannnelDataPack e ci sy p))
     = (pack_fields e p)\<lparr>route_addr := ep, channel_idx := ci, synchronous_answer := of_bool sy, unused := unused (pack_fields e p) AND mask 15\<rparr>"
  by (simp_all add: completeDataPack_def completeChannnelDataPack_def and.assoc)

lemma pack_fields_upd [simp]:
  "pack_fields e (p\<lparr>channel_data_size := n\<rparr>) = pack_fields e p" "pack_fields e (p\<lparr>channel_data := d\<rparr>) = pack_fields e p"
  by (simp_all add: pack_fields_def)

lemma delivered_sel [simp]:
  "pack_fields e (delivered p) = pack_fields e p" "channel_header_size (delivered p) = (if has_header p then channel_header_size p else 0)"
  "channel_data_size (delivered p) = (if has_data p then channel_data_size p else 0)"
  "channel_header_data (delivered p) = (if has_header p then map_option (take (unat (channel_header_size p))) (channel_header_data p) else None)"
  "channel_data (delivered p) = (if has_data p then map_option (take (unat (channel_data_size p))) (channel_data p) else None)"
  by (simp_all add: delivered_def pack_fields_def)

text \<open>The pack the other side gets when a channel sends one.\<close>

definition arrived :: "u16 \<Rightarrow> u8 \<Rightarrow> bool \<Rightarrow> data_pack \<Rightarrow> data_pack" where
  "arrived endpoint ci sync p = delivered (completeDataPack little_endian endpoint (completeChannnelDataPack little_endian ci sync p))"

lemma send_arrives:
  assumes "pack_ok p" and "\<forall>k < 3. ok k"
  shows "\<exists>r. sendPriorityData little_endian endpoint ci ok delim_ok reply sync p = Ret r
    \<and> server_receive little_endian junk (identity # sr_frames r) = Some (arrived endpoint ci sync p)"
  using wire_roundtrip [OF _ assms(2), of "completeDataPack little_endian endpoint (completeChannnelDataPack little_endian ci sync p)"] assms(1)
  unfolding sendPriorityData_def arrived_def by fastforce

lemma arrived_sel [simp]:
  "route_addr (pack_fields little_endian (arrived ep ci sy p)) = ep" "channel_idx (pack_fields little_endian (arrived ep ci sy p)) = ci"
  "synchronous_answer (pack_fields little_endian (arrived ep ci sy p)) = of_bool sy"
  "channel_opcode (pack_fields little_endian (arrived ep ci sy p)) = channel_opcode (pack_fields little_endian p)"
  by (simp_all add: arrived_def)

lemma arrived_parts:
  "channel_header_data (arrived ep ci sy p) = (if has_header p then map_option (take (unat (channel_header_size p))) (channel_header_data p) else None)"
  "channel_data (arrived ep ci sy p) = (if has_data p then map_option (take (unat (channel_data_size p))) (channel_data p) else None)"
  "channel_data_size (arrived ep ci sy p) = (if has_data p then channel_data_size p else 0)"
  by (simp_all add: arrived_def has_header_def has_data_def)

end
