(* ===== verification/Direct_IO_Channels.thy ===== *)
theory Direct_IO_Channels
  imports Direct_IO_Pack
begin

text \<open>
  The channels of the direct I/O layer (\<open>direct_io/channel\<close>): the packs the client side of the device,
  performance and system-API channels builds, and the calls the server side makes to its handler when a
  pack arrives. Channel headers are the C structures byte by byte, padding included. The BSON encoding
  of a query, the UUID of a query and the handlers are parameters.
\<close>

section \<open>Opcodes and channel numbers\<close>

definition DIODataset_Channel_Index :: u8 where "DIODataset_Channel_Index = 2"
definition DIOPerformance_Channel_Index :: u8 where "DIOPerformance_Channel_Index = 3"
definition DIOSystemAPI_Channel_Index :: u8 where "DIOSystemAPI_Channel_Index = 4"

datatype device_opcode =
  DeviceChannelOpcodePutOutput | DeviceChannelOpcodeGetLastOutput | DeviceChannelOpcodeQueryDataCloud
| DeviceChannelOpcodeQueryDataCloudStartResult | DeviceChannelOpcodeQueryDataCloudResult | DeviceChannelOpcodeQueryDataCloudEndResult

fun device_opcode_code :: "device_opcode \<Rightarrow> u8" where
  "device_opcode_code DeviceChannelOpcodePutOutput = 1"
| "device_opcode_code DeviceChannelOpcodeGetLastOutput = 2"
| "device_opcode_code DeviceChannelOpcodeQueryDataCloud = 4"
| "device_opcode_code DeviceChannelOpcodeQueryDataCloudStartResult = 8"
| "device_opcode_code DeviceChannelOpcodeQueryDataCloudResult = 16"
| "device_opcode_code DeviceChannelOpcodeQueryDataCloudEndResult = 24"

datatype performance_opcode = PerformanceChannelOpcodeReqRoundTrip | PerformanceChannelOpcodeRespRoundTrip

fun performance_opcode_code :: "performance_opcode \<Rightarrow> u8" where
  "performance_opcode_code PerformanceChannelOpcodeReqRoundTrip = 1"
| "performance_opcode_code PerformanceChannelOpcodeRespRoundTrip = 2"

datatype system_opcode =
  SystemAPIChannelOpcodeNewSnapshotDataset | SystemAPIChannelOpcodeDeleteSnapshotDataset | SystemAPIChannelOpcodeGetSnapshotDatasetForAKey

fun system_opcode_code :: "system_opcode \<Rightarrow> u8" where
  "system_opcode_code SystemAPIChannelOpcodeNewSnapshotDataset = 1"
| "system_opcode_code SystemAPIChannelOpcodeDeleteSnapshotDataset = 2"
| "system_opcode_code SystemAPIChannelOpcodeGetSnapshotDatasetForAKey = 3"

section \<open>The device channel, client side\<close>

record answer_server_info =
  p_server_port :: u16
  s_server_port :: u16
  answer_endpoint :: u16
  answer_ip :: u64

definition new_pack :: "endianness \<Rightarrow> u8 \<Rightarrow> data_pack" where
  "new_pack e opcode = set_fields e (\<lambda>f. f\<lparr>channel_opcode := opcode\<rparr>) calloc_pack"

text \<open>
  The put header is two bytes and the key, in a block with room for the key twice. The length field
  has eight bits, and as many bytes of the key as it says are copied.
\<close>

definition put_header :: "u8 \<Rightarrow> u8 list \<Rightarrow> u8 list" where
  "put_header tag key =
     (let key_len = of_nat (length key) :: u8 in
      [tag, key_len] @ take (unat key_len) key @ replicate (2 * length key - unat key_len) 0)"

text \<open>
  \<open>if(buffer_len) DIRECT_IO_SET_CHANNEL_DATA(...)\<close> guards only the first of the three statements of the
  macro: the size and the pointer are stored in any case.
\<close>

definition set_data_if :: "endianness \<Rightarrow> bool \<Rightarrow> u8 list option \<Rightarrow> u32 \<Rightarrow> data_pack \<Rightarrow> data_pack" where
  "set_data_if e b d_ptr d_size p =
     (if b then DIRECT_IO_SET_CHANNEL_DATA e d_ptr d_size p
      else p\<lparr>channel_data_size := byte_swap4 e little_endian d_size, channel_data := d_ptr\<rparr>)"

definition storeAndCacheDataOutputChannel :: "endianness \<Rightarrow> u8 list \<Rightarrow> u8 list option \<Rightarrow> u32 \<Rightarrow> u8 \<Rightarrow> data_pack" where
  "storeAndCacheDataOutputChannel e key buffer buffer_len put_mode =
     set_data_if e (buffer_len \<noteq> 0) buffer buffer_len
       (DIRECT_IO_SET_CHANNEL_HEADER e (put_header put_mode key) (of_nat (2 + length key))
          (new_pack e (device_opcode_code DeviceChannelOpcodePutOutput)))"

definition get_header :: "endianness \<Rightarrow> answer_server_info \<Rightarrow> u8 list" where
  "get_header e a =
     mem_bytes e 2 (byte_swap2 e little_endian (answer_endpoint a)) @ mem_bytes e 2 (byte_swap2 e little_endian (p_server_port a))
     @ mem_bytes e 2 (byte_swap2 e little_endian (s_server_port a)) @ [0, 0] @ mem_bytes e 8 (byte_swap8 e little_endian (answer_ip a))"

definition requestLastOutputData :: "endianness \<Rightarrow> answer_server_info \<Rightarrow> u8 list \<Rightarrow> data_pack" where
  "requestLastOutputData e a key =
     DIRECT_IO_SET_CHANNEL_DATA e (Some key) (of_nat (length key))
       (DIRECT_IO_SET_CHANNEL_HEADER e (get_header e a) (of_nat (length (get_header e a)))
          (new_pack e (device_opcode_code DeviceChannelOpcodeGetLastOutput)))"

text \<open>What \<open>requestLastOutputData\<close> returns: the code and, through the reference parameters, data and size.\<close>

definition last_output_result :: "send_result \<Rightarrow> int \<times> (u8 list option \<times> nat) option" where
  "last_output_result r =
     (sr_err r,
      if sr_err r \<noteq> 0 then None
      else Some (case sr_answer r of None \<Rightarrow> (None, 0) | Some [] \<Rightarrow> (None, 0) | Some bs \<Rightarrow> (Some bs, length bs)))"

definition resize8 :: "u8 list \<Rightarrow> u8 list" where
  "resize8 q = take 8 (q @ replicate 8 0)"

definition strncpy8 :: "u8 list \<Rightarrow> u8 list" where
  "strncpy8 q = take 8 (takeWhile (\<lambda>c. c \<noteq> 0) q @ replicate 8 0)"

definition query_header :: "endianness \<Rightarrow> answer_server_info \<Rightarrow> u8 list \<Rightarrow> u8 list" where
  "query_header e a query_id = get_header e a @ strncpy8 query_id"

definition queryDataCloud ::
  "endianness \<Rightarrow> (u8 list \<Rightarrow> u64 \<Rightarrow> u64 \<Rightarrow> u8 list) \<Rightarrow> u8 list \<Rightarrow> answer_server_info \<Rightarrow> u8 list \<Rightarrow> u64 \<Rightarrow> u64 \<Rightarrow> u8 list \<times> data_pack" where
  "queryDataCloud e getBSONData uuid a key start_ts end_ts =
     (let query_id = resize8 uuid; buffer = getBSONData key start_ts end_ts in
      (query_id,
       DIRECT_IO_SET_CHANNEL_DATA e (Some buffer) (of_nat (length buffer))
         (DIRECT_IO_SET_CHANNEL_HEADER e (query_header e a query_id) 24
            (new_pack e (device_opcode_code DeviceChannelOpcodeQueryDataCloud)))))"

definition startQueryDataCloudResult :: "endianness \<Rightarrow> u8 list \<Rightarrow> u64 \<Rightarrow> data_pack" where
  "startQueryDataCloudResult e query_id total_element_found =
     DIRECT_IO_SET_CHANNEL_HEADER e (strncpy8 query_id @ mem_bytes e 8 (byte_swap8 e little_endian total_element_found)) 16
       (new_pack e (device_opcode_code DeviceChannelOpcodeQueryDataCloudStartResult))"

definition sendResultToQueryDataCloud :: "endianness \<Rightarrow> u8 list \<Rightarrow> u64 \<Rightarrow> u8 list option \<Rightarrow> u32 \<Rightarrow> data_pack" where
  "sendResultToQueryDataCloud e query_id element_index data data_len =
     DIRECT_IO_SET_CHANNEL_DATA e data data_len
       (DIRECT_IO_SET_CHANNEL_HEADER e (strncpy8 query_id @ mem_bytes e 8 (byte_swap8 e little_endian element_index) @ replicate 8 0) 24
          (new_pack e (device_opcode_code DeviceChannelOpcodeQueryDataCloudResult)))"

text \<open>The end of the result sequence carries the length of the error message, but not the message.\<close>

definition endQueryDataCloudResult :: "endianness \<Rightarrow> u8 list \<Rightarrow> u32 \<Rightarrow> u8 list \<Rightarrow> data_pack" where
  "endQueryDataCloudResult e query_id error error_message =
     DIRECT_IO_SET_CHANNEL_HEADER e
       (strncpy8 query_id @ mem_bytes e 4 (byte_swap4 e little_endian error)
        @ mem_bytes e 4 (byte_swap4 e little_endian (of_nat (length error_message))) @ replicate 8 0) 16
       (new_pack e (device_opcode_code DeviceChannelOpcodeQueryDataCloudEndResult))"

text \<open>
  The deallocator of the channel, which ZMQ or \<open>writeToSocket\<close> calls with the opcode and the part when
  the memory is no longer needed: whether it frees the block.
\<close>

definition device_freeSentData :: "u8 \<Rightarrow> sent_part \<Rightarrow> bool" where
  "device_freeSentData sent_opcode part =
     (case part of
        SentPartHeader \<Rightarrow>
          sent_opcode \<in> set (map device_opcode_code
            [DeviceChannelOpcodeQueryDataCloud, DeviceChannelOpcodeQueryDataCloudStartResult, DeviceChannelOpcodeQueryDataCloudResult,
             DeviceChannelOpcodeQueryDataCloudEndResult, DeviceChannelOpcodePutOutput, DeviceChannelOpcodeGetLastOutput])
      | SentPartData \<Rightarrow>
          sent_opcode \<in> set (map device_opcode_code
            [DeviceChannelOpcodePutOutput, DeviceChannelOpcodeGetLastOutput, DeviceChannelOpcodeQueryDataCloud,
             DeviceChannelOpcodeQueryDataCloudResult, DeviceChannelOpcodeQueryDataCloudEndResult]))"

section \<open>The device channel, server side\<close>

text \<open>The calls to the handler, with what it can read through the pointers it is given.\<close>

datatype device_event =
  ConsumePutEvent (put_tag: u8) (put_key_len: u8) (put_key: "u8 list") (put_data: "u8 list option") (put_data_len: u32)
| ConsumeGetEvent answer_server_info "u8 list option" u32
| ConsumeDataCloudQuery answer_server_info "u8 list" "u8 list" u64 u64
| ConsumeDataCloudQueryStartResult "u8 list" u64
| ConsumeDataCloudQueryResult "u8 list" u64 "u8 list option" u32
| ConsumeDataCloudQueryEndResult "u8 list" u32 u32 "u8 list option" u32

definition header_block :: "data_pack \<Rightarrow> u8 list outcome" where
  "header_block p = (case channel_header_data p of None \<Rightarrow> Fault | Some h \<Rightarrow> Ret h)"

text \<open>
  The answer address of the get and query headers. The 16-bit fields are converted with the 32-bit
  swap and cut back to 16 bits, as in the source.
\<close>

definition read_answer_info :: "endianness \<Rightarrow> u8 list \<Rightarrow> answer_server_info outcome" where
  "read_answer_info e h =
     obind (peek 0 2 h) (\<lambda>ep. obind (peek 2 2 h) (\<lambda>pp. obind (peek 4 2 h) (\<lambda>sp. obind (peek 8 8 h) (\<lambda>ad.
     Ret \<lparr>p_server_port = ucast (byte_swap4 little_endian e (ucast (of_mem e pp :: u16))),
          s_server_port = ucast (byte_swap4 little_endian e (ucast (of_mem e sp :: u16))),
          answer_endpoint = ucast (byte_swap4 little_endian e (ucast (of_mem e ep :: u16))),
          answer_ip = byte_swap8 little_endian e (of_mem e ad)\<rparr>))))"

text \<open>
  \<open>consumeDataPack\<close>: \<open>parse\<close> stands for the \<open>CDataWrapper\<close> made of the query and its three look-ups (a
  missing key gives the empty string or 0), \<open>None\<close> for an exception of its constructor.
\<close>

definition device_consumeDataPack ::
  "endianness \<Rightarrow> (u8 list option \<Rightarrow> (u8 list \<times> u64 \<times> u64) option) \<Rightarrow> data_pack \<Rightarrow> device_event option outcome" where
  "device_consumeDataPack e parse p =
     (let opcode = channel_opcode (pack_fields e p) in
      if opcode = device_opcode_code DeviceChannelOpcodePutOutput then
        obind (header_block p) (\<lambda>h. obind (peek 0 2 h) (\<lambda>tk.
        Ret (Some (ConsumePutEvent (ucast (byte_swap4 little_endian e (ucast (hd tk)))) (tk ! 1) (drop 2 h) (channel_data p) (channel_data_size p)))))
      else if opcode = device_opcode_code DeviceChannelOpcodeGetLastOutput then
        obind (header_block p) (\<lambda>h. obind (read_answer_info e h) (\<lambda>a.
        Ret (Some (ConsumeGetEvent a (channel_data p) (channel_data_size p)))))
      else if opcode = device_opcode_code DeviceChannelOpcodeQueryDataCloud then
        (case (parse (channel_data p), channel_header_data p) of
           (Some (key, start_ts, end_ts), Some h) \<Rightarrow>
             obind (read_answer_info e h) (\<lambda>a. obind (peek 16 8 h) (\<lambda>q.
             Ret (if key \<noteq> [] then Some (ConsumeDataCloudQuery a q key start_ts end_ts) else None)))
         | _ \<Rightarrow> Ret None)
      else if opcode = device_opcode_code DeviceChannelOpcodeQueryDataCloudStartResult then
        obind (header_block p) (\<lambda>h. obind (peek 0 8 h) (\<lambda>q. obind (peek 8 8 h) (\<lambda>n.
        Ret (Some (ConsumeDataCloudQueryStartResult q (byte_swap8 little_endian e (of_mem e n)))))))
      else if opcode = device_opcode_code DeviceChannelOpcodeQueryDataCloudResult then
        obind (header_block p) (\<lambda>h. obind (peek 0 8 h) (\<lambda>q. obind (peek 8 8 h) (\<lambda>n.
        Ret (Some (ConsumeDataCloudQueryResult q (byte_swap8 little_endian e (of_mem e n)) (channel_data p) (channel_data_size p))))))
      else if opcode = device_opcode_code DeviceChannelOpcodeQueryDataCloudEndResult then
        obind (header_block p) (\<lambda>h. obind (peek 0 8 h) (\<lambda>q. obind (peek 8 4 h) (\<lambda>er. obind (peek 12 4 h) (\<lambda>n.
        Ret (Some (ConsumeDataCloudQueryEndResult q (byte_swap4 little_endian e (of_mem e er)) (byte_swap4 little_endian e (of_mem e n))
                    (channel_data p) (channel_data_size p)))))))
      else Ret None)"

section \<open>What arrives\<close>

lemma new_pack_fields [simp]:
  "channel_part (pack_fields e (new_pack e c)) = 0" "channel_opcode (pack_fields e (new_pack e c)) = c" "pack_ok (new_pack little_endian c)"
  by (cases e, simp_all add: new_pack_def pack_ok_fields) (simp_all add: pack_fields_def calloc_pack_def fields_of_def)

lemma new_pack_parts [simp]: "\<not> has_header (new_pack little_endian c)" "\<not> has_data (new_pack little_endian c)"
  by (simp_all add: has_header_def has_data_def)

lemma length_get_header [simp]: "length (get_header e a) = 16"
  by (simp add: get_header_def)

lemma length_strncpy8 [simp]: "length (strncpy8 q) = 8"
  by (simp add: strncpy8_def)

lemma ucast_back [simp]: "ucast (ucast (w :: u16) :: u32) = w" "ucast (ucast (b :: u8) :: u32) = b"
  by (auto simp: bit_simps bit_beyond intro!: bit_word_eqI)

lemma read_get_header: "read_answer_info little_endian (get_header little_endian a @ rest) = Ret a"
  by (simp add: read_answer_info_def get_header_def peek_def numeral_eq_Suc)

lemma unat_of_nat_small: "n < 2 ^ 32 \<Longrightarrow> unat (of_nat n :: u32) = n"
  by (simp add: unat_of_nat take_bit_nat_eq_self)

lemma consume_put:
  "channel_opcode (pack_fields little_endian p) = 1 \<Longrightarrow> channel_header_data p = Some (t # k # key)
    \<Longrightarrow> device_consumeDataPack little_endian parse p = Ret (Some (ConsumePutEvent t k key (channel_data p) (channel_data_size p)))"
  by (simp add: device_consumeDataPack_def header_block_def peek_def numeral_2_eq_2)

lemma put_pack:
  fixes mode :: u8 and key b :: "u8 list" and n :: u32
  assumes "length key < 256" and "unat n = length b"
  defines "p \<equiv> storeAndCacheDataOutputChannel little_endian key (Some b) n mode"
  shows "pack_ok p" and "device_consumeDataPack little_endian parse (arrived ep ci sy p)
      = Ret (Some (ConsumePutEvent mode (of_nat (length key)) key (if b = [] then None else Some b) n))"
proof -
  have k: "unat (of_nat (length key) :: u8) = length key" using assms(1) by (simp add: unat_of_nat take_bit_nat_eq_self)
  have h: "put_header mode key = mode # of_nat (length key) # key @ replicate (length key) 0" using k by (simp add: put_header_def Let_def)
  define m where "m = (of_nat (2 + length key) :: u32)"
  have u: "unat m = 2 + length key" using assms(1) unfolding m_def by (intro unat_of_nat_small) simp
  define q where "q = DIRECT_IO_SET_CHANNEL_HEADER little_endian (put_header mode key) m (new_pack little_endian 1)"
  have p: "p = set_data_if little_endian (n \<noteq> 0) (Some b) n q" by (simp add: p_def q_def m_def storeAndCacheDataOutputChannel_def)
  have q: "pack_ok q" using u h unfolding q_def by (intro pack_ok_header) simp_all
  have hq: "channel_header_data q = Some (put_header mode key)" "channel_header_size q = m" "channel_part (pack_fields little_endian q) = 1"
    "channel_opcode (pack_fields little_endian q) = 1" by (simp_all add: q_def)
  have n: "n = 0 \<longleftrightarrow> b = []" using assms(2) by (metis length_0_conv unat_eq_0)
  have part: "channel_part (pack_fields little_endian p) = (if n = 0 then 1 else 3)" using hq by (simp add: p set_data_if_def)
  show "pack_ok p" using q hq part n assms(2)
    by (cases "n = 0") (simp_all add: pack_ok_def has_header_def has_data_def, simp_all add: p set_data_if_def)
  have "channel_header_data (arrived ep ci sy p) = Some (mode # of_nat (length key) # key)"
    using part hq h u by (simp add: arrived_parts has_header_def) (simp add: p set_data_if_def)
  moreover have "channel_data (arrived ep ci sy p) = (if b = [] then None else Some b)" "channel_data_size (arrived ep ci sy p) = n"
    using part n assms(2) by (simp_all add: arrived_parts has_data_def) (simp_all add: p set_data_if_def)
  moreover have "channel_opcode (pack_fields little_endian (arrived ep ci sy p)) = 1" using hq by (simp add: p set_data_if_def)
  ultimately show "device_consumeDataPack little_endian parse (arrived ep ci sy p)
      = Ret (Some (ConsumePutEvent mode (of_nat (length key)) key (if b = [] then None else Some b) n))"
    by (simp add: consume_put)
qed

text \<open>Packs with a header, and with a header and data.\<close>

lemma header_pack:
  fixes h :: "u8 list" and m :: u32 and c :: u8
  assumes "unat m \<le> length h"
  defines "p \<equiv> DIRECT_IO_SET_CHANNEL_HEADER little_endian h m (new_pack little_endian c)"
  shows "pack_ok p" "channel_opcode (pack_fields little_endian (arrived ep ci sy p)) = c"
    "channel_header_data (arrived ep ci sy p) = Some (take (unat m) h)"
    "channel_data (arrived ep ci sy p) = None" "channel_data_size (arrived ep ci sy p) = 0"
proof -
  show "pack_ok p" using assms(1) unfolding p_def by (intro pack_ok_header) simp_all
  have "channel_part (pack_fields little_endian p) = 1" by (simp add: p_def)
  then show "channel_header_data (arrived ep ci sy p) = Some (take (unat m) h)" "channel_data (arrived ep ci sy p) = None"
    "channel_data_size (arrived ep ci sy p) = 0"
    by (simp_all add: arrived_parts has_header_def has_data_def) (simp add: p_def)
qed (simp add: p_def)

lemma full_pack:
  fixes h d :: "u8 list" and m n :: u32 and c :: u8
  assumes "unat m \<le> length h" and "unat n \<le> length d"
  defines "p \<equiv> DIRECT_IO_SET_CHANNEL_DATA little_endian (Some d) n (DIRECT_IO_SET_CHANNEL_HEADER little_endian h m (new_pack little_endian c))"
  shows "pack_ok p" "channel_opcode (pack_fields little_endian (arrived ep ci sy p)) = c"
    "channel_header_data (arrived ep ci sy p) = Some (take (unat m) h)"
    "channel_data (arrived ep ci sy p) = Some (take (unat n) d)" "channel_data_size (arrived ep ci sy p) = n"
proof -
  have "\<not> has_data (DIRECT_IO_SET_CHANNEL_HEADER little_endian h m (new_pack little_endian c))" by (simp add: has_data_def)
  then show "pack_ok p" using assms unfolding p_def by (intro pack_ok_data header_pack) simp_all
  have "channel_part (pack_fields little_endian p) = 3" by (simp add: p_def)
  then show "channel_header_data (arrived ep ci sy p) = Some (take (unat m) h)" "channel_data (arrived ep ci sy p) = Some (take (unat n) d)"
    "channel_data_size (arrived ep ci sy p) = n"
    by (simp_all add: arrived_parts has_header_def has_data_def) (simp_all add: p_def)
qed (simp add: p_def)

lemma get_pack:
  assumes "length key < 2 ^ 32"
  shows "pack_ok (requestLastOutputData little_endian a key)"
    and "device_consumeDataPack little_endian parse (arrived ep ci sy (requestLastOutputData little_endian a key))
      = Ret (Some (ConsumeGetEvent a (Some key) (of_nat (length key))))"
  using unat_of_nat_small [OF assms] full_pack [where m = "of_nat (length (get_header little_endian a))" and h = "get_header little_endian a" and n = "of_nat (length key)" and d = key and c = 2]
    read_get_header [of a "[]"]
  by (simp_all add: requestLastOutputData_def device_consumeDataPack_def header_block_def)

lemma query_pack:
  assumes "length (bson key t0 t1) < 2 ^ 32" and "parse (Some (bson key t0 t1)) = Some (key, t0, t1)" and "key \<noteq> []"
    and "queryDataCloud little_endian bson uuid a key t0 t1 = (qid, p)"
  shows "pack_ok p" and "device_consumeDataPack little_endian parse (arrived ep ci sy p)
      = Ret (Some (ConsumeDataCloudQuery a (strncpy8 qid) key t0 t1))"
  using assms unat_of_nat_small [OF assms(1)] read_get_header [of a "strncpy8 qid"]
    full_pack [where m = 24 and h = "query_header little_endian a qid" and n = "of_nat (length (bson key t0 t1))" and d = "bson key t0 t1" and c = 4]
  by (auto simp: queryDataCloud_def Let_def device_consumeDataPack_def query_header_def peek_def)

lemma result_packs:
  "device_consumeDataPack little_endian parse (arrived ep ci sy (startQueryDataCloudResult little_endian qid tot))
     = Ret (Some (ConsumeDataCloudQueryStartResult (strncpy8 qid) tot))"
  "unat n = length d \<Longrightarrow> device_consumeDataPack little_endian parse (arrived ep ci sy (sendResultToQueryDataCloud little_endian qid i (Some d) n))
     = Ret (Some (ConsumeDataCloudQueryResult (strncpy8 qid) i (Some d) n))"
  "device_consumeDataPack little_endian parse (arrived ep ci sy (endQueryDataCloudResult little_endian qid er msg))
     = Ret (Some (ConsumeDataCloudQueryEndResult (strncpy8 qid) er (of_nat (length msg)) None 0))"
  "pack_ok (startQueryDataCloudResult little_endian qid tot)" "pack_ok (endQueryDataCloudResult little_endian qid er msg)"
  "unat n = length d \<Longrightarrow> pack_ok (sendResultToQueryDataCloud little_endian qid i (Some d) n)"
proof -
  let ?s = "strncpy8 qid @ mem_bytes little_endian 8 tot" and ?r = "strncpy8 qid @ mem_bytes little_endian 8 i @ replicate 8 0"
    and ?e = "strncpy8 qid @ mem_bytes little_endian 4 er @ mem_bytes little_endian 4 (of_nat (length msg) :: u32) @ replicate 8 0"
  show "device_consumeDataPack little_endian parse (arrived ep ci sy (startQueryDataCloudResult little_endian qid tot))
      = Ret (Some (ConsumeDataCloudQueryStartResult (strncpy8 qid) tot))" "pack_ok (startQueryDataCloudResult little_endian qid tot)"
    using header_pack [where m = 16 and h = ?s and c = 8] by (simp_all add: startQueryDataCloudResult_def device_consumeDataPack_def header_block_def peek_def)
  show "unat n = length d \<Longrightarrow> device_consumeDataPack little_endian parse (arrived ep ci sy (sendResultToQueryDataCloud little_endian qid i (Some d) n))
      = Ret (Some (ConsumeDataCloudQueryResult (strncpy8 qid) i (Some d) n))"
    "unat n = length d \<Longrightarrow> pack_ok (sendResultToQueryDataCloud little_endian qid i (Some d) n)"
    using full_pack [where m = 24 and h = ?r and n = n and d = d and c = 16] by (simp_all add: sendResultToQueryDataCloud_def device_consumeDataPack_def header_block_def peek_def)
  show "device_consumeDataPack little_endian parse (arrived ep ci sy (endQueryDataCloudResult little_endian qid er msg))
      = Ret (Some (ConsumeDataCloudQueryEndResult (strncpy8 qid) er (of_nat (length msg)) None 0))"
    "pack_ok (endQueryDataCloudResult little_endian qid er msg)"
    using header_pack [where m = 16 and h = ?e and c = 24] by (simp_all add: endQueryDataCloudResult_def device_consumeDataPack_def header_block_def peek_def)
qed

end
