(* ===== verification/Direct_IO_System.thy ===== *)
theory Direct_IO_System
  imports Direct_IO_Channels
begin

text \<open>
  The performance channel (\<open>DirectIOPerformance*Channel.cpp\<close>), which measures round trips, and the
  system-API channel (\<open>DirectIOSystemAPI*Channel.cpp\<close>), whose calls manage snapshots of datasets and
  return their result in the synchronous answer. The clock and the handler of the server are parameters.
\<close>

section \<open>Round trips\<close>

definition round_trip_pack :: "endianness \<Rightarrow> performance_opcode \<Rightarrow> u8 list \<Rightarrow> data_pack" where
  "round_trip_pack e opcode header = DIRECT_IO_SET_CHANNEL_HEADER e header 16 (new_pack e (performance_opcode_code opcode))"

definition sendRoundTripMessage :: "endianness \<Rightarrow> u64 \<Rightarrow> data_pack" where
  "sendRoundTripMessage e now =
     round_trip_pack e PerformanceChannelOpcodeReqRoundTrip (mem_bytes e 8 (byte_swap8 e little_endian now) @ replicate 8 0)"

text \<open>The variant with the time stamp does not convert the stamp it is given, the one with the header keeps its first field.\<close>

definition answerRoundTripMessage_ts :: "endianness \<Rightarrow> u64 \<Rightarrow> u64 \<Rightarrow> data_pack" where
  "answerRoundTripMessage_ts e received_ts now =
     round_trip_pack e PerformanceChannelOpcodeRespRoundTrip (mem_bytes e 8 received_ts @ mem_bytes e 8 (byte_swap8 e little_endian now))"

definition answerRoundTripMessage :: "endianness \<Rightarrow> u8 list \<Rightarrow> u64 \<Rightarrow> data_pack outcome" where
  "answerRoundTripMessage e received_header now =
     obind (poke 8 (mem_bytes e 8 (byte_swap8 e little_endian now)) received_header) (\<lambda>h.
     Ret (round_trip_pack e PerformanceChannelOpcodeRespRoundTrip h))"

text \<open>The handler gets the header, whose first field \<open>consumeDataPack\<close> has converted in place.\<close>

datatype performance_event = HandleReqRoundTripRequest "u8 list" | HandleRespRoundTripRequest "u8 list"

definition performance_consumeDataPack :: "endianness \<Rightarrow> data_pack \<Rightarrow> performance_event option outcome" where
  "performance_consumeDataPack e p =
     (let opcode = channel_opcode (pack_fields e p);
          header = obind (header_block p) (\<lambda>h. obind (peek 0 8 h) (\<lambda>b.
                   poke 0 (mem_bytes e 8 (byte_swap8 little_endian e (of_mem e b))) h)) in
      if opcode = performance_opcode_code PerformanceChannelOpcodeReqRoundTrip
      then obind header (\<lambda>h. Ret (Some (HandleReqRoundTripRequest h)))
      else if opcode = performance_opcode_code PerformanceChannelOpcodeRespRoundTrip
      then obind header (\<lambda>h. Ret (Some (HandleRespRoundTripRequest h)))
      else Ret None)"

text \<open>
  \<open>DirectIOPerformanceSession\<close>: a request is answered on the client channel, a response goes to the
  queue of results.
\<close>

definition session_handle :: "endianness \<Rightarrow> u64 \<Rightarrow> performance_event \<Rightarrow> u8 list list \<Rightarrow> (data_pack option \<times> u8 list list) outcome" where
  "session_handle e now ev rtt_queue =
     (case ev of
        HandleReqRoundTripRequest h \<Rightarrow> obind (answerRoundTripMessage e h now) (\<lambda>p. Ret (Some p, rtt_queue))
      | HandleRespRoundTripRequest h \<Rightarrow> Ret (None, rtt_queue @ [h]))"

section \<open>Snapshots, client side\<close>

definition snapshot_header :: "endianness \<Rightarrow> u8 list \<Rightarrow> u32 \<Rightarrow> u32 \<Rightarrow> u8 list" where
  "snapshot_header e snap_name channel_type producer_key_set_len =
     snap_name @ replicate (256 - length snap_name) 0 @ mem_bytes e 4 channel_type
     @ mem_bytes e 4 (byte_swap4 e little_endian producer_key_set_len)"

definition snapshot_pack :: "endianness \<Rightarrow> system_opcode \<Rightarrow> u8 list \<Rightarrow> u32 \<Rightarrow> u8 list option \<Rightarrow> data_pack" where
  "snapshot_pack e opcode snap_name channel_type keys =
     (let n = (case keys of None \<Rightarrow> 0 | Some k \<Rightarrow> of_nat (length k)) :: u32;
          p = DIRECT_IO_SET_CHANNEL_HEADER e (snapshot_header e snap_name channel_type n) 264 (new_pack e (system_opcode_code opcode)) in
      case keys of None \<Rightarrow> p | Some k \<Rightarrow> DIRECT_IO_SET_CHANNEL_DATA e (Some k) n p)"

text \<open>The loop that concatenates the producer keys with commas.\<close>

fun producer_key_concatenation :: "u8 list list \<Rightarrow> u8 list" where
  "producer_key_concatenation [] = []"
| "producer_key_concatenation [k] = k"
| "producer_key_concatenation (k # ks) = k @ [44] @ producer_key_concatenation ks"

definition makeNewDatasetSnapshot :: "endianness \<Rightarrow> u8 list \<Rightarrow> u8 list list \<Rightarrow> int + data_pack" where
  "makeNewDatasetSnapshot e snapshot_name producer_keys =
     (if length snapshot_name > 255 then Inl (- 1000)
      else Inr (snapshot_pack e SystemAPIChannelOpcodeNewSnapshotDataset snapshot_name 0
                  (if producer_keys = [] then None else Some (producer_key_concatenation producer_keys))))"

definition deleteDatasetSnapshot :: "endianness \<Rightarrow> u8 list \<Rightarrow> int + data_pack" where
  "deleteDatasetSnapshot e snapshot_name =
     (if length snapshot_name > 255 then Inl (- 1000)
      else Inr (snapshot_pack e SystemAPIChannelOpcodeDeleteSnapshotDataset snapshot_name 0 None))"

definition getDatasetSnapshotForProducerKey :: "endianness \<Rightarrow> u8 list \<Rightarrow> u8 list \<Rightarrow> u32 \<Rightarrow> int + data_pack" where
  "getDatasetSnapshotForProducerKey e snapshot_name producer_key channel_type =
     (if length snapshot_name > 255 then Inl (- 1000)
      else Inr (snapshot_pack e SystemAPIChannelOpcodeGetSnapshotDatasetForAKey snapshot_name channel_type
                  (if producer_key = [] then None else Some producer_key)))"

text \<open>
  What the calls make of the answer: the code, and the result structure if there is one. The new and
  delete calls check its size; the get call does not, and reads through the pointer even if it is null.
\<close>

record snapshot_result =
  res_error :: u32
  res_message :: "u8 list"

definition snapshot_answer :: "endianness \<Rightarrow> send_result \<Rightarrow> int \<times> snapshot_result option" where
  "snapshot_answer e r =
     (sr_err r,
      if sr_err r \<noteq> 0 then None
      else case sr_answer r of
             None \<Rightarrow> None
           | Some bs \<Rightarrow>
               if length bs = 260
               then Some \<lparr>res_error = byte_swap4 little_endian e (of_mem e (take 4 bs)), res_message = drop 4 bs\<rparr>
               else None)"

definition get_snapshot_answer :: "endianness \<Rightarrow> send_result \<Rightarrow> (int \<times> (snapshot_result \<times> u32 \<times> u8 list) option) outcome" where
  "get_snapshot_answer e r =
     (if sr_err r \<noteq> 0 then Ret (sr_err r, None)
      else case sr_answer r of
             None \<Rightarrow> Ret (0, None)
           | Some bs \<Rightarrow>
               obind (peek 0 4 bs) (\<lambda>er. obind (peek 4 256 bs) (\<lambda>msg. obind (peek 260 4 bs) (\<lambda>n.
               Ret (0, Some (\<lparr>res_error = byte_swap4 little_endian e (of_mem e er), res_message = msg\<rparr>, of_mem e n, drop 264 bs))))))"

text \<open>The deallocator of the system-API channel.\<close>

definition system_freeSentData :: "u8 \<Rightarrow> sent_part \<Rightarrow> bool" where
  "system_freeSentData sent_opcode part =
     (case part of
        SentPartHeader \<Rightarrow>
          sent_opcode \<in> set (map system_opcode_code
            [SystemAPIChannelOpcodeNewSnapshotDataset, SystemAPIChannelOpcodeDeleteSnapshotDataset, SystemAPIChannelOpcodeGetSnapshotDatasetForAKey])
      | SentPartData \<Rightarrow>
          sent_opcode \<in> set (map system_opcode_code
            [SystemAPIChannelOpcodeNewSnapshotDataset, SystemAPIChannelOpcodeGetSnapshotDatasetForAKey]))"

section \<open>Snapshots, server side\<close>

datatype system_event =
  ConsumeNewSnapshotEvent "u8 list" u32 "u8 list option" u32
| ConsumeDeleteSnapshotEvent "u8 list"
| ConsumeGetDatasetSnapshotEvent "u8 list" u32 "u8 list"

text \<open>What a handler returns: the code and message it stores in the result, and the data it found.\<close>

record system_reply =
  rp_error :: u32
  rp_message :: "u8 list"
  rp_found :: "u8 list option"

text \<open>
  \<open>consumeDataPack\<close> of the system-API server channel. The answer structure exists only if the pack asks
  for a synchronous answer; without it the code stores through a null pointer. \<open>junk\<close> is the tail that
  \<open>realloc\<close> leaves uninitialised behind the data found.
\<close>

definition system_consumeDataPack ::
  "endianness \<Rightarrow> u8 list \<Rightarrow> (system_event \<Rightarrow> system_reply) \<Rightarrow> data_pack \<Rightarrow> (system_event \<times> u8 list) option outcome" where
  "system_consumeDataPack e junk handler p =
     (let opcode = channel_opcode (pack_fields e p); sync = (synchronous_answer (pack_fields e p) \<noteq> 0);
          result = (\<lambda>r. mem_bytes e 4 (byte_swap4 e little_endian (rp_error r)) @ rp_message r) in
      if opcode \<notin> {1, 2, 3} then Ret None
      else if \<not> sync then Fault
      else
        obind (header_block p) (\<lambda>h. obind (peek 0 256 h) (\<lambda>snap_name. obind (peek 256 4 h) (\<lambda>ct. obind (peek 260 4 h) (\<lambda>kl.
        if opcode = system_opcode_code SystemAPIChannelOpcodeNewSnapshotDataset then
          (let ev = ConsumeNewSnapshotEvent snap_name (byte_swap4 little_endian e (of_mem e kl)) (channel_data p) (channel_data_size p) in
           Ret (Some (ev, result (handler ev))))
        else if opcode = system_opcode_code SystemAPIChannelOpcodeDeleteSnapshotDataset then
          (let ev = ConsumeDeleteSnapshotEvent snap_name in Ret (Some (ev, result (handler ev))))
        else
          (let key = (if channel_data_size p = 0 then Ret []
                      else case channel_data p of None \<Rightarrow> Fault | Some d \<Rightarrow> peek 0 (unat (channel_data_size p)) d) in
           obind key (\<lambda>key.
           let ev = ConsumeGetDatasetSnapshotEvent snap_name (of_mem e ct) key; r = handler ev in
           Ret (Some (ev, case rp_found r of
                            None \<Rightarrow> result r @ replicate 12 0
                          | Some d \<Rightarrow> result r @ mem_bytes e 4 (of_nat (length d) :: u32) @ d @ take 8 junk)))))))))"

section \<open>Calls and their results\<close>

lemma length_snapshot_header: "length nm \<le> 256 \<Longrightarrow> length (snapshot_header e nm ct n) = 264"
  by (simp add: snapshot_header_def)

lemma snapshot_pack_arrives:
  fixes nm :: "u8 list" and ct :: u32 and oc :: system_opcode and keys :: "u8 list option"
  assumes "length nm \<le> 256" and "length (case keys of None \<Rightarrow> [] | Some k \<Rightarrow> k) < 2 ^ 32"
  defines "p \<equiv> snapshot_pack little_endian oc nm ct keys"
  shows "pack_ok p" "channel_opcode (pack_fields little_endian (arrived ep ci sy p)) = system_opcode_code oc"
    "channel_header_data (arrived ep ci sy p)
       = Some (snapshot_header little_endian nm ct (case keys of None \<Rightarrow> 0 | Some k \<Rightarrow> of_nat (length k)))"
    "channel_data (arrived ep ci sy p) = keys" "channel_data_size (arrived ep ci sy p) = (case keys of None \<Rightarrow> 0 | Some k \<Rightarrow> of_nat (length k))"
proof -
  let ?h = "snapshot_header little_endian nm ct"
  have l: "length (?h n) = 264" for n using assms(1) by (rule length_snapshot_header)
  note hp = header_pack [where m = 264 and h = "?h 0" and c = "system_opcode_code oc"]
  have "pack_ok p \<and> channel_opcode (pack_fields little_endian (arrived ep ci sy p)) = system_opcode_code oc
    \<and> channel_header_data (arrived ep ci sy p) = Some (?h (case keys of None \<Rightarrow> 0 | Some k \<Rightarrow> of_nat (length k)))
    \<and> channel_data (arrived ep ci sy p) = keys \<and> channel_data_size (arrived ep ci sy p) = (case keys of None \<Rightarrow> 0 | Some k \<Rightarrow> of_nat (length k))"
  proof (cases keys)
    case None
    then show ?thesis using hp l by (simp add: p_def snapshot_pack_def Let_def)
  next
    case (Some k)
    then show ?thesis
      using full_pack [where m = 264 and h = "?h (of_nat (length k))" and n = "of_nat (length k)" and d = k and c = "system_opcode_code oc"]
        l unat_of_nat_small [of "length k"] assms(2) by (simp add: p_def snapshot_pack_def Let_def)
  qed
  then show "pack_ok p" "channel_opcode (pack_fields little_endian (arrived ep ci sy p)) = system_opcode_code oc"
    "channel_header_data (arrived ep ci sy p) = Some (?h (case keys of None \<Rightarrow> 0 | Some k \<Rightarrow> of_nat (length k)))"
    "channel_data (arrived ep ci sy p) = keys" "channel_data_size (arrived ep ci sy p) = (case keys of None \<Rightarrow> 0 | Some k \<Rightarrow> of_nat (length k))"
    by blast+
qed

lemma read_snapshot_header:
  assumes "length nm \<le> 256"
  shows "peek 0 256 (snapshot_header little_endian nm ct n) = Ret (nm @ replicate (256 - length nm) 0)"
    "peek 256 4 (snapshot_header little_endian nm ct n) = Ret (mem_bytes little_endian 4 ct)"
    "peek 260 4 (snapshot_header little_endian nm ct n) = Ret (mem_bytes little_endian 4 n)"
  using assms by (simp_all add: peek_def snapshot_header_def)

lemma sync_answer:
  assumes "pack_ok p" and "\<forall>k < 3. ok k"
  shows "\<exists>r. sendPriorityData little_endian ep ci ok True (Some ans) True p = Ret r \<and> sr_err r = 0 \<and> sr_answer r = Some ans
    \<and> server_receive little_endian junk (identity # sr_frames r) = Some (arrived ep ci True p)"
proof -
  obtain r where r: "sendPriorityData little_endian ep ci ok True (Some ans) True p = Ret r"
    "server_receive little_endian junk (identity # sr_frames r) = Some (arrived ep ci True p)"
    using send_arrives [OF assms] by blast
  let ?p = "completeDataPack little_endian ep (completeChannnelDataPack little_endian ci True p)"
  have "synchronous_answer (fields_of little_endian (raw_data ?p)) = 1"
    using complete_sel(9) [of little_endian ep ci True p] by (simp add: pack_fields_def)
  moreover have "\<forall>g r'. write_parts little_endian ok ?p = Ret (g, r') \<longrightarrow> g"
    using assms(2) by (auto simp: write_parts_def Let_def elim!: obind_RetE split: if_splits)
  ultimately have "sr_err r = 0 \<and> sr_answer r = Some ans"
    using r(1) by (auto simp: sendPriorityData_def writeToSocket_def elim!: obind_RetE split: if_splits)
  with r show ?thesis by blast
qed

section \<open>Properties\<close>



end
