(* ===== verification/Direct_IO_Dispatch.thy ===== *)
theory Direct_IO_Dispatch
  imports Direct_IO_System
begin

text \<open>
  The server's dispatcher with its table of endpoints (\<open>direct_io/DirectIODispatcher.cpp\<close>) and the
  endpoints with their tables of channels (\<open>DirectIOServerEndpoint.cpp\<close>). A channel is its
  \<open>consumeDataPack\<close>. A pointer to an endpoint is the number of its slot. The spin lock of an endpoint
  is held for the whole call, so calls are modelled one after the other.
\<close>

section \<open>Endpoints\<close>

definition MAX_ENDPOINT_NUMBER :: nat where "MAX_ENDPOINT_NUMBER = 256"
definition MAX_ENDPOINT_CHANNEL :: nat where "MAX_ENDPOINT_CHANNEL = 256"

lemmas max_defs [simp] = MAX_ENDPOINT_NUMBER_def MAX_ENDPOINT_CHANNEL_def

type_synonym 'ev consumer = "data_pack \<Rightarrow> 'ev option outcome"

record 'ev endpoint =
  endpoint_route_index :: u16
  channel_slot :: "'ev consumer option list"

definition new_endpoint :: "'ev endpoint" where
  "new_endpoint = \<lparr>endpoint_route_index = 0, channel_slot = replicate MAX_ENDPOINT_CHANNEL None\<rparr>"

definition registerChannelInstance :: "u8 \<Rightarrow> 'ev consumer option \<Rightarrow> 'ev endpoint \<Rightarrow> 'ev consumer option \<times> 'ev endpoint" where
  "registerChannelInstance idx channel_instance ep =
     (case channel_instance of
        None \<Rightarrow> (None, ep)
      | Some c \<Rightarrow>
          if unat idx > MAX_ENDPOINT_CHANNEL - 1 then (None, ep)
          else (Some c, ep\<lparr>channel_slot := (channel_slot ep)[unat idx := Some c]\<rparr>))"

definition deregisterChannelInstance :: "u8 \<Rightarrow> 'ev endpoint \<Rightarrow> 'ev endpoint" where
  "deregisterChannelInstance idx ep =
     (if unat idx > MAX_ENDPOINT_CHANNEL - 1 then ep else ep\<lparr>channel_slot := (channel_slot ep)[unat idx := None]\<rparr>)"

text \<open>\<open>priorityDataReceived\<close> and \<open>serviceDataReceived\<close> of an endpoint have the same body.\<close>

definition endpoint_dataReceived :: "endianness \<Rightarrow> data_pack \<Rightarrow> 'ev endpoint \<Rightarrow> 'ev option outcome" where
  "endpoint_dataReceived e p ep =
     (case channel_slot ep ! unat (channel_idx (pack_fields e p)) of None \<Rightarrow> Ret None | Some consume \<Rightarrow> consume p)"

section \<open>The dispatcher\<close>

record 'ev dispatcher =
  endpoint_slot_array :: "(bool \<times> 'ev endpoint option) list"
  available_endpoint_slot :: "nat list"

definition dispatcher_init :: "'ev dispatcher" where
  "dispatcher_init =
     \<lparr>endpoint_slot_array = replicate MAX_ENDPOINT_NUMBER (False, None), available_endpoint_slot = [0..<MAX_ENDPOINT_NUMBER]\<rparr>"

definition getNewEndpoint :: "'ev dispatcher \<Rightarrow> nat option \<times> 'ev dispatcher" where
  "getNewEndpoint D =
     (case available_endpoint_slot D of
        [] \<Rightarrow> (None, D)
      | i # rest \<Rightarrow>
          (Some i, D\<lparr>available_endpoint_slot := rest,
                     endpoint_slot_array := (endpoint_slot_array D)[i := (True, Some (new_endpoint\<lparr>endpoint_route_index := of_nat i\<rparr>))]\<rparr>))"

text \<open>Releasing reads the slot number from the endpoint; an endpoint already deleted is a use after free.\<close>

definition releaseEndpoint :: "nat option \<Rightarrow> 'ev dispatcher \<Rightarrow> 'ev dispatcher outcome" where
  "releaseEndpoint endpoint_to_release D =
     (case endpoint_to_release of
        None \<Rightarrow> Ret D
      | Some i \<Rightarrow>
          (case snd (endpoint_slot_array D ! i) of
             None \<Rightarrow> Fault
           | Some ep \<Rightarrow>
               (let slot_idx = unat (endpoint_route_index ep) in
                Ret (D\<lparr>endpoint_slot_array := (endpoint_slot_array D)[slot_idx := (False, None)],
                       available_endpoint_slot := available_endpoint_slot D @ [slot_idx]\<rparr>))))"

text \<open>
  \<open>priorityDataReceived\<close> and \<open>serviceDataReceived\<close>: the route address indexes the array of 256 slots
  unchecked, and the function has no return statement for a slot that is not enabled.
\<close>

definition dispatcher_dataReceived :: "endianness \<Rightarrow> data_pack \<Rightarrow> 'ev dispatcher \<Rightarrow> 'ev option outcome" where
  "dispatcher_dataReceived e p D =
     (let route = unat (route_addr (pack_fields e p)) in
      if route \<ge> MAX_ENDPOINT_NUMBER then Fault
      else case endpoint_slot_array D ! route of (True, Some ep) \<Rightarrow> endpoint_dataReceived e p ep | _ \<Rightarrow> Fault)"

text \<open>\<open>deinit\<close> deletes the endpoints that are left: the slots whose endpoint it deletes, in order.\<close>

definition dispatcher_deinit :: "'ev dispatcher \<Rightarrow> nat list" where
  "dispatcher_deinit D = filter (\<lambda>i. snd (endpoint_slot_array D ! i) \<noteq> None) [0..<MAX_ENDPOINT_NUMBER]"

text \<open>A change to the channels of the endpoint in slot \<open>i\<close>.\<close>

definition at_endpoint :: "nat \<Rightarrow> ('ev endpoint \<Rightarrow> 'ev endpoint) \<Rightarrow> 'ev dispatcher \<Rightarrow> 'ev dispatcher" where
  "at_endpoint i f D =
     D\<lparr>endpoint_slot_array := (endpoint_slot_array D)[i := map_prod id (map_option f) (endpoint_slot_array D ! i)]\<rparr>"

section \<open>The invariant of the table\<close>

definition slot_ok :: "nat set \<Rightarrow> nat \<Rightarrow> bool \<times> 'ev endpoint option \<Rightarrow> bool" where
  "slot_ok av i s \<longleftrightarrow> s = (False, None) \<and> i \<in> av
     \<or> (\<exists>ep. s = (True, Some ep) \<and> i \<notin> av \<and> unat (endpoint_route_index ep) = i \<and> length (channel_slot ep) = 256)"

definition dispatcher_inv :: "'ev dispatcher \<Rightarrow> bool" where
  "dispatcher_inv D \<longleftrightarrow> length (endpoint_slot_array D) = 256 \<and> distinct (available_endpoint_slot D)
     \<and> set (available_endpoint_slot D) \<subseteq> {..<256}
     \<and> (\<forall>i < 256. slot_ok (set (available_endpoint_slot D)) i (endpoint_slot_array D ! i))"

lemma dispatcher_inv_init: "dispatcher_inv dispatcher_init"
  by (auto simp: dispatcher_inv_def dispatcher_init_def slot_ok_def)

lemma slot_ok_other: "(i \<in> av \<longleftrightarrow> i \<in> av') \<Longrightarrow> slot_ok av i s = slot_ok av' i s"
  by (simp add: slot_ok_def)

lemma unat_of_nat_u16: "i < 256 \<Longrightarrow> unat (of_nat i :: u16) = i"
  by (simp add: unat_of_nat take_bit_nat_eq_self)

lemma getNewEndpoint_inv:
  assumes "dispatcher_inv D" and "getNewEndpoint D = (r, D')"
  shows "dispatcher_inv D'"
    and "r = Some i \<Longrightarrow> i < 256 \<and> endpoint_slot_array D ! i = (False, None)
           \<and> endpoint_slot_array D' ! i = (True, Some (new_endpoint\<lparr>endpoint_route_index := of_nat i\<rparr>))"
    and "r = None \<Longrightarrow> \<forall>i < 256. fst (endpoint_slot_array D ! i)"
proof -
  note inv = assms(1) [unfolded dispatcher_inv_def]
  have step: "dispatcher_inv D' \<and> i < 256 \<and> endpoint_slot_array D ! i = (False, None)
      \<and> endpoint_slot_array D' ! i = (True, Some (new_endpoint\<lparr>endpoint_route_index := of_nat i\<rparr>))"
    if av: "available_endpoint_slot D = i # rest" for i rest
  proof -
    have i: "i < 256" "i \<notin> set rest" "slot_ok (set (i # rest)) i (endpoint_slot_array D ! i)" using inv av by auto
    have D': "endpoint_slot_array D' = (endpoint_slot_array D)[i := (True, Some (new_endpoint\<lparr>endpoint_route_index := of_nat i\<rparr>))]"
      "available_endpoint_slot D' = rest" using assms(2) av by (auto simp: getNewEndpoint_def)
    have "slot_ok (set rest) j (endpoint_slot_array D' ! j)" if j: "j < 256" for j
    proof (cases "j = i")
      case True
      then show ?thesis using D' i inv by (simp add: slot_ok_def new_endpoint_def unat_of_nat_u16)
    next
      case False
      then have "endpoint_slot_array D' ! j = endpoint_slot_array D ! j" using D' by simp
      moreover have "slot_ok (set (available_endpoint_slot D)) j (endpoint_slot_array D ! j)" using inv j by blast
      ultimately show ?thesis using False slot_ok_other [of j "set rest" "set (available_endpoint_slot D)" "endpoint_slot_array D ! j"] av by simp
    qed
    then show ?thesis using inv av D' i by (auto simp: dispatcher_inv_def slot_ok_def)
  qed
  show "dispatcher_inv D'" using step assms by (cases "available_endpoint_slot D") (auto simp: getNewEndpoint_def)
  show "r = Some i \<Longrightarrow> i < 256 \<and> endpoint_slot_array D ! i = (False, None)
           \<and> endpoint_slot_array D' ! i = (True, Some (new_endpoint\<lparr>endpoint_route_index := of_nat i\<rparr>))"
    using step assms(2) by (cases "available_endpoint_slot D") (auto simp: getNewEndpoint_def)
  show "r = None \<Longrightarrow> \<forall>i < 256. fst (endpoint_slot_array D ! i)"
    using inv assms(2) by (cases "available_endpoint_slot D") (auto simp: getNewEndpoint_def slot_ok_def)
qed

lemma releaseEndpoint_inv:
  assumes "dispatcher_inv D" and "i < 256" and "fst (endpoint_slot_array D ! i)"
  shows "\<exists>D'. releaseEndpoint (Some i) D = Ret D' \<and> dispatcher_inv D' \<and> endpoint_slot_array D' = (endpoint_slot_array D)[i := (False, None)]"
proof -
  note inv = assms(1) [unfolded dispatcher_inv_def]
  obtain ep where ep: "endpoint_slot_array D ! i = (True, Some ep)" "unat (endpoint_route_index ep) = i" "i \<notin> set (available_endpoint_slot D)"
    using inv assms(2,3) by (auto simp: slot_ok_def)
  let ?D = "D\<lparr>endpoint_slot_array := (endpoint_slot_array D)[i := (False, None)], available_endpoint_slot := available_endpoint_slot D @ [i]\<rparr>"
  have "slot_ok (set (available_endpoint_slot D @ [i])) j ((endpoint_slot_array D)[i := (False, None)] ! j)" if "j < 256" for j
    using inv that slot_ok_other [of j "set (available_endpoint_slot D @ [i])" "set (available_endpoint_slot D)" "endpoint_slot_array D ! j"]
    by (cases "j = i") (simp_all add: slot_ok_def)
  then have "dispatcher_inv ?D" using inv ep(3) assms(2) by (simp add: dispatcher_inv_def)
  moreover have "releaseEndpoint (Some i) D = Ret ?D" using ep by (simp add: releaseEndpoint_def)
  ultimately show ?thesis by (intro exI [of _ ?D]) simp
qed

lemma registerChannelInstance_run:
  "registerChannelInstance idx (Some c) ep = (Some c, ep\<lparr>channel_slot := (channel_slot ep)[unat idx := Some c]\<rparr>)"
  using unsigned_less [of idx, where 'a = nat] by (simp add: registerChannelInstance_def)

lemma at_endpoint_inv:
  assumes "dispatcher_inv D" and "\<And>ep. endpoint_route_index (f ep) = endpoint_route_index ep \<and> length (channel_slot (f ep)) = length (channel_slot ep)"
  shows "dispatcher_inv (at_endpoint i f D)"
proof -
  have "slot_ok av j (map_prod id (map_option f) s)" if "slot_ok av j s" for av j and s :: "bool \<times> 'a endpoint option"
    using that assms(2) by (auto simp: slot_ok_def)
  then have "slot_ok av j (xs[i := map_prod id (map_option f) (xs ! i)] ! j)" if "slot_ok av j (xs ! j)" "j < length xs"
    for av j and xs :: "(bool \<times> 'a endpoint option) list" using that by (cases "i = j") (auto simp del: map_prod_simp)
  then show ?thesis using assms(1) by (simp add: dispatcher_inv_def at_endpoint_def)
qed

section \<open>A channel as a protocol\<close>

text \<open>
  What the client and the server side of a channel promise each other: a valid request is a well-formed
  pack, and the server's side turns the pack that arrives into the intended event. Delivery through the
  dispatcher is proved once from that.
\<close>

locale channel_protocol =
  fixes request :: "'r \<Rightarrow> data_pack" and valid :: "'r \<Rightarrow> bool" and sync :: bool
    and consume :: "data_pack \<Rightarrow> 'ev option outcome" and event :: "'r \<Rightarrow> 'ev"
  assumes request_ok: "valid r \<Longrightarrow> pack_ok (request r)"
    and consume_event: "valid r \<Longrightarrow> consume (arrived ep ci sync (request r)) = Ret (Some (event r))"
begin

lemma delivery:
  assumes "dispatcher_inv D" and "endpoint_slot_array D ! i = (True, Some ep)" and "i < 256"
    and "channel_slot ep ! unat ci = Some consume" and "valid r" and "\<forall>k < 3. ok k"
  shows "\<exists>sr q. sendPriorityData little_endian (endpoint_route_index ep) ci ok delim_ok reply sync (request r) = Ret sr
    \<and> server_receive little_endian junk (identity # sr_frames sr) = Some q
    \<and> dispatcher_dataReceived little_endian q D = Ret (Some (event r))"
proof -
  have u: "unat (endpoint_route_index ep) = i" using assms(1-3) by (auto simp: dispatcher_inv_def slot_ok_def)
  obtain sr where sr: "sendPriorityData little_endian (endpoint_route_index ep) ci ok delim_ok reply sync (request r) = Ret sr"
    "server_receive little_endian junk (identity # sr_frames sr) = Some (arrived (endpoint_route_index ep) ci sync (request r))"
    using send_arrives [OF request_ok [OF assms(5)] assms(6)] by blast
  have "dispatcher_dataReceived little_endian (arrived (endpoint_route_index ep) ci sync (request r)) D = Ret (Some (event r))"
    using assms(2-5) u consume_event by (simp add: dispatcher_dataReceived_def endpoint_dataReceived_def)
  with sr show ?thesis by blast
qed

end

interpretation put: channel_protocol
  "\<lambda>(key, b, mode). storeAndCacheDataOutputChannel little_endian key (Some b) (of_nat (length b)) mode"
  "\<lambda>(key, b, mode). length key < 256 \<and> length b < 2 ^ 32" False "device_consumeDataPack little_endian parse"
  "\<lambda>(key, b, mode). ConsumePutEvent mode (of_nat (length key)) key (if b = [] then None else Some b) (of_nat (length b))" for parse
  by unfold_locales (auto simp: put_pack unat_of_nat_small split: prod.splits)

interpretation get: channel_protocol
  "\<lambda>(a, key). requestLastOutputData little_endian a key" "\<lambda>(a, key). length key < 2 ^ 32" True
  "device_consumeDataPack little_endian parse" "\<lambda>(a, key). ConsumeGetEvent a (Some key) (of_nat (length key))" for parse
  by unfold_locales (auto simp: get_pack split: prod.splits)

interpretation start_result: channel_protocol
  "\<lambda>(qid, n). startQueryDataCloudResult little_endian qid n" "\<lambda>_. True" False
  "device_consumeDataPack little_endian parse" "\<lambda>(qid, n). ConsumeDataCloudQueryStartResult (strncpy8 qid) n" for parse
  by unfold_locales (auto simp: result_packs split: prod.splits)

interpretation query_result: channel_protocol
  "\<lambda>(qid, i, d). sendResultToQueryDataCloud little_endian qid i (Some d) (of_nat (length d))" "\<lambda>(qid, i, d). length d < 2 ^ 32" False
  "device_consumeDataPack little_endian parse" "\<lambda>(qid, i, d). ConsumeDataCloudQueryResult (strncpy8 qid) i (Some d) (of_nat (length d))" for parse
  by unfold_locales (auto simp: result_packs unat_of_nat_small split: prod.splits)

interpretation end_result: channel_protocol
  "\<lambda>(qid, er, msg). endQueryDataCloudResult little_endian qid er msg" "\<lambda>_. True" False
  "device_consumeDataPack little_endian parse"
  "\<lambda>(qid, er, msg). ConsumeDataCloudQueryEndResult (strncpy8 qid) er (of_nat (length msg)) None 0" for parse
  by unfold_locales (auto simp: result_packs split: prod.splits)

section \<open>Histories of the dispatcher\<close>

inductive dispatcher_reach :: "'ev dispatcher \<Rightarrow> bool" where
  init: "dispatcher_reach dispatcher_init"
| new: "dispatcher_reach D \<Longrightarrow> getNewEndpoint D = (r, D') \<Longrightarrow> dispatcher_reach D'"
| release: "dispatcher_reach D \<Longrightarrow> i < 256 \<Longrightarrow> fst (endpoint_slot_array D ! i) \<Longrightarrow> releaseEndpoint (Some i) D = Ret D' \<Longrightarrow> dispatcher_reach D'"
| register: "dispatcher_reach D \<Longrightarrow> dispatcher_reach (at_endpoint i (\<lambda>ep. snd (registerChannelInstance idx (Some c) ep)) D)"
| deregister: "dispatcher_reach D \<Longrightarrow> dispatcher_reach (at_endpoint i (deregisterChannelInstance idx) D)"

lemma dispatcher_reach_inv: "dispatcher_reach D \<Longrightarrow> dispatcher_inv D"
proof (induction rule: dispatcher_reach.induct)
  case (release D i D')
  then show ?case using releaseEndpoint_inv [of D i] by auto
next
  case (register D i idx c)
  then show ?case by (intro at_endpoint_inv) (simp_all add: registerChannelInstance_run)
next
  case (deregister D i idx)
  then show ?case by (intro at_endpoint_inv) (simp_all add: deregisterChannelInstance_def)
qed (use dispatcher_inv_init getNewEndpoint_inv(1) in blast)+

section \<open>Properties\<close>

text \<open>
  C12. Data put by a client reach the handler: sent to an endpoint that the dispatcher has handed out and
  in which the device channel is registered, the pack of \<open>storeAndCacheDataOutputChannel\<close> goes over the
  socket, through the server, the dispatcher and the endpoint, and ends as one call of
  \<open>consumePutEvent\<close> with the tag, the key and the data of the client. Both hosts are little-endian and
  the key has fewer than 256 bytes.
\<close>

theorem put_delivered:
  assumes "dispatcher_reach D" and "endpoint_slot_array D ! i = (True, Some ep)" and "i < 256"
    and "channel_slot ep ! unat DIODataset_Channel_Index = Some (device_consumeDataPack little_endian parse)"
    and "length key < 256" and "length b < 2 ^ 32" and "\<forall>k < 3. ok k"
  shows "\<exists>sr q. sendPriorityData little_endian (endpoint_route_index ep) DIODataset_Channel_Index ok delim_ok reply False
        (storeAndCacheDataOutputChannel little_endian key (Some b) (of_nat (length b)) mode) = Ret sr
    \<and> server_receive little_endian junk (identity # sr_frames sr) = Some q
    \<and> dispatcher_dataReceived little_endian q D
      = Ret (Some (ConsumePutEvent mode (of_nat (length key)) key (if b = [] then None else Some b) (of_nat (length b))))"
  using put.delivery [OF dispatcher_reach_inv [OF assms(1)] assms(2-4), of "(key, b, mode)"] assms(5-7) by simp

definition example_dispatcher :: "device_event dispatcher" where
  "example_dispatcher =
     at_endpoint 0 (\<lambda>ep. snd (registerChannelInstance 2 (Some (device_consumeDataPack little_endian (\<lambda>_. None))) ep)) (snd (getNewEndpoint dispatcher_init))"

lemma example_slot:
  "endpoint_slot_array example_dispatcher ! 0 = (True, Some (new_endpoint\<lparr>channel_slot := (replicate 256 None)[2 := Some (device_consumeDataPack little_endian (\<lambda>_. None))]\<rparr>))"
proof -
  have "[0..<256] = 0 # [1..<256]" by (simp add: upt_conv_Cons)
  then show ?thesis by (simp add: example_dispatcher_def at_endpoint_def getNewEndpoint_def dispatcher_init_def registerChannelInstance_run new_endpoint_def)
qed

theorem put_delivered_witness:
  "\<exists>sr q. sendPriorityData little_endian 0 2 (\<lambda>_. True) True None False
        (storeAndCacheDataOutputChannel little_endian [99, 117] (Some [1, 2, 3]) 3 1) = Ret sr
    \<and> server_receive little_endian (\<lambda>_. 0) ([7] # sr_frames sr) = Some q
    \<and> dispatcher_dataReceived little_endian q example_dispatcher = Ret (Some (ConsumePutEvent 1 2 [99, 117] (Some [1, 2, 3]) 3))"
proof -
  have "dispatcher_reach (snd (getNewEndpoint (dispatcher_init :: device_event dispatcher)))"
    using dispatcher_reach.new [OF dispatcher_reach.init prod.collapse [symmetric]] .
  then have "dispatcher_reach example_dispatcher" unfolding example_dispatcher_def by (rule dispatcher_reach.register)
  from put_delivered [OF this example_slot, of "\<lambda>_. None" "[99, 117]" "[1, 2, 3]" "\<lambda>_. True" True None 1 "\<lambda>_. 0" "[7]"] show ?thesis
    by (simp add: DIODataset_Channel_Index_def new_endpoint_def)
qed

text \<open>
  C23. Endpoints are never shared: whatever endpoints and channels were created and released before, a
  new endpoint gets a slot that nobody holds, with the slot's number as its address and no channel; none
  is refused while one of the 256 slots is free; and a released endpoint can be handed out again.
\<close>

theorem endpoints_not_shared:
  assumes "dispatcher_reach D" and "getNewEndpoint D = (r, D')"
  shows "case r of
      None \<Rightarrow> \<forall>i < 256. fst (endpoint_slot_array D ! i)
    | Some i \<Rightarrow> i < 256 \<and> endpoint_slot_array D ! i = (False, None) \<and> (\<forall>j. j \<noteq> i \<longrightarrow> endpoint_slot_array D' ! j = endpoint_slot_array D ! j)
        \<and> (\<exists>ep. endpoint_slot_array D' ! i = (True, Some ep) \<and> unat (endpoint_route_index ep) = i \<and> set (channel_slot ep) = {None})
        \<and> (\<exists>D''. releaseEndpoint (Some i) D' = Ret D'' \<and> endpoint_slot_array D'' = endpoint_slot_array D)"
proof (cases r)
  case None
  then show ?thesis using getNewEndpoint_inv(3) [OF dispatcher_reach_inv [OF assms(1)] assms(2)] by simp
next
  case (Some i)
  note inv = dispatcher_reach_inv [OF assms(1)] and new = getNewEndpoint_inv(2) [OF dispatcher_reach_inv [OF assms(1)] assms(2) Some]
  have D': "endpoint_slot_array D' = (endpoint_slot_array D)[i := (True, Some (new_endpoint\<lparr>endpoint_route_index := of_nat i\<rparr>))]"
    using assms(2) Some by (auto simp: getNewEndpoint_def split: list.splits)
  have "(endpoint_slot_array D)[i := (False, None)] = endpoint_slot_array D" using new by (metis list_update_id)
  then obtain D'' where "releaseEndpoint (Some i) D' = Ret D''" "endpoint_slot_array D'' = endpoint_slot_array D"
    using releaseEndpoint_inv [OF getNewEndpoint_inv(1) [OF inv assms(2)], of i] new D' by auto
  then show ?thesis using Some new D' by (auto simp: new_endpoint_def unat_of_nat_u16)
qed

theorem endpoints_not_shared_witness:
  "\<exists>D'. getNewEndpoint (dispatcher_init :: device_event dispatcher) = (Some 0, D') \<and> fst (endpoint_slot_array D' ! 0)"
proof -
  have "[0..<256] = 0 # [1..<256]" by (simp add: upt_conv_Cons)
  then obtain D' where "getNewEndpoint (dispatcher_init :: device_event dispatcher) = (Some 0, D')"
    by (simp add: getNewEndpoint_def dispatcher_init_def)
  with endpoints_not_shared [OF dispatcher_reach.init this] show ?thesis by auto
qed

text \<open>
  Errors of the sockets are lost. If the first frame of a pack with header and data cannot be sent,
  the data are freed but the channel header leaks; if the last one cannot be sent, the call returns 0,
  the code of success, though the data never left.
\<close>

theorem send_errors_lost:
  assumes "pack_ok p" and "has_header p" and "has_data p" and "synchronous_answer (pack_fields little_endian p) = 0"
    and "ok 0 \<longrightarrow> ok 1 \<and> \<not> ok 2"
  shows "\<exists>r. writeToSocket little_endian ok delim_ok reply p = Ret r
    \<and> (if ok 0 then sr_err r = 0 \<and> length (sr_frames r) = 3 else sr_err r = - 1 \<and> sr_freed r = [SentPartData])"
proof -
  have part: "channel_part (fields_of little_endian (raw_data p)) = 3" using assms(2,3) by (auto simp: has_header_def has_data_def pack_fields_def)
  obtain h d where "channel_header_data p = Some h" "unat (channel_header_size p) \<le> length h" "channel_data p = Some d" "unat (channel_data_size p) \<le> length d"
    using assms(1-3) by (auto simp: pack_ok_def split: option.splits)
  with part assms(4,5) show ?thesis
    by (cases "ok 0") (simp_all add: writeToSocket_def write_parts_def message_of_def peek_def pack_fields_def)
qed

theorem send_errors_lost_witness:
  "\<exists>r. writeToSocket little_endian (\<lambda>k. k < 2) True None (storeAndCacheDataOutputChannel little_endian [99] (Some [1]) 1 0) = Ret r
    \<and> sr_err r = 0 \<and> length (sr_frames r) = 3"
proof -
  define p where "p = storeAndCacheDataOutputChannel little_endian [99] (Some [1]) 1 0"
  have "pack_ok p" unfolding p_def by (rule put_pack) simp_all
  moreover have "channel_part (pack_fields little_endian p) = 3"
    by (simp add: p_def storeAndCacheDataOutputChannel_def set_data_if_def)
  moreover have "synchronous_answer (pack_fields little_endian p) = 0"
    by (simp add: p_def storeAndCacheDataOutputChannel_def set_data_if_def new_pack_def DIRECT_IO_SET_CHANNEL_HEADER_def
        DIRECT_IO_SET_CHANNEL_DATA_def pack_fields_def set_fields_def calloc_pack_def)
      (simp add: fields_of_def)
  ultimately show ?thesis
    using send_errors_lost [of p "\<lambda>k. k < 2" True None] by (simp add: has_header_def has_data_def p_def)
qed

end
