(* ===== verification/Batch_Command.thy ===== *)
theory Batch_Command
  imports Chaos_Prelude
begin

unbundle bit_operations_syntax

text \<open>
  The commands of a control unit (\<open>batch_command/BatchCommandTypes.h\<close>, \<open>BatchCommand.h\<close> and
  \<open>BatchCommand.cpp\<close>). A subclass implements the handlers; what a handler does to its command goes
  through the member functions of the base class, so a run of a handler is the list of the calls it
  makes and the way it ends. The handlers a class implements are fixed for the class.
\<close>

section \<open>Types\<close>

datatype command_event = EVT_QUEUED | EVT_WAITING | EVT_RUNNING | EVT_PAUSED | EVT_COMPLETED | EVT_FAULT | EVT_KILLED

fun command_event_code :: "command_event \<Rightarrow> nat" where
  "command_event_code EVT_QUEUED = 0"
| "command_event_code EVT_WAITING = 1"
| "command_event_code EVT_RUNNING = 2"
| "command_event_code EVT_PAUSED = 3"
| "command_event_code EVT_COMPLETED = 4"
| "command_event_code EVT_FAULT = 5"
| "command_event_code EVT_KILLED = 6"

record fault_description =
  fd_source :: string
  fd_code :: int
  fd_description :: string
  fd_domain :: string

definition SUBMIT_AND_Stack :: u8 where "SUBMIT_AND_Stack = 0"
definition SUBMIT_AND_Kill :: u8 where "SUBMIT_AND_Kill = 1"
definition SUBMIT_NORMAL :: u8 where "SUBMIT_NORMAL = 2"

definition RP_Exsc :: u8 where "RP_Exsc = 0"
definition RP_Normal :: u8 where "RP_Normal = 1"
definition RP_End :: u8 where "RP_End = 2"
definition RP_Fault :: u8 where "RP_Fault = 3"

definition HT_Set :: u8 where "HT_Set = 1"
definition HT_Acquisition :: u8 where "HT_Acquisition = 2"
definition HT_Correlation :: u8 where "HT_Correlation = 4"

lemmas batch_consts = SUBMIT_AND_Stack_def SUBMIT_AND_Kill_def SUBMIT_NORMAL_def RP_Exsc_def RP_Normal_def RP_End_def RP_Fault_def
  HT_Set_def HT_Acquisition_def HT_Correlation_def

record sandbox_stat =
  lastCmdStepStart :: u64
  lastCmdStepTime :: u64
  lastHBTime :: u64

definition zero_stat :: sandbox_stat where
  "zero_stat = \<lparr>lastCmdStepStart = 0, lastCmdStepTime = 0, lastHBTime = 0\<rparr>"

datatype feature_flag = FF_SET_SCHEDULER_DELAY | FF_SET_SUBMISSION_RETRY | FF_SET_COMMAND_TIMEOUT | FF_LOCK_USER_MOD

fun feature_code :: "feature_flag \<Rightarrow> u8" where
  "feature_code FF_SET_SCHEDULER_DELAY = 1"
| "feature_code FF_SET_SUBMISSION_RETRY = 2"
| "feature_code FF_SET_COMMAND_TIMEOUT = 4"
| "feature_code FF_LOCK_USER_MOD = 8"

record features =
  featuresFlag :: u8
  featureSchedulerStepsDelay :: u64
  featureSubmissionRetryDelay :: u32
  featureCommandTimeout :: u64

section \<open>The command\<close>

text \<open>\<open>lockFeaturePropertyFlag\<close> is a \<open>std::bitset<3>\<close>.\<close>

record batch_command =
  unique_id :: u64
  command_alias :: string
  already_setupped :: bool
  command_set_time_usec :: u64
  lockFeaturePropertyFlag :: "3 word"
  commandFeatures :: features
  runningProperty :: u8
  submissionRule :: u8
  fault_desc :: fault_description
  implementedHandler :: u8

text \<open>The constructor leaves the identifier uninitialised: \<open>junk\<close>.\<close>

definition new_BatchCommand :: "u64 \<Rightarrow> u8 \<Rightarrow> batch_command" where
  "new_BatchCommand junk handlers =
     \<lparr>unique_id = junk, command_alias = '''', already_setupped = False, command_set_time_usec = 0, lockFeaturePropertyFlag = 0,
      commandFeatures = \<lparr>featuresFlag = 0, featureSchedulerStepsDelay = 0, featureSubmissionRetryDelay = 0, featureCommandTimeout = 0\<rparr>,
      runningProperty = RP_Normal, submissionRule = SUBMIT_NORMAL,
      fault_desc = \<lparr>fd_source = '''', fd_code = 0, fd_description = '''', fd_domain = ''''\<rparr>, implementedHandler = handlers\<rparr>"

definition setCommandAlias :: "string \<Rightarrow> batch_command \<Rightarrow> batch_command" where
  "setCommandAlias alias c = c\<lparr>command_alias := alias, fault_desc := (fault_desc c)\<lparr>fd_source := alias\<rparr>\<rparr>"

definition features_locked :: "batch_command \<Rightarrow> bool" where
  "features_locked c \<longleftrightarrow> bit (lockFeaturePropertyFlag c) 0 \<or> bit (lockFeaturePropertyFlag c) 2"

definition setFeatures32 :: "feature_flag \<Rightarrow> u32 \<Rightarrow> batch_command \<Rightarrow> batch_command" where
  "setFeatures32 f v c =
     (if features_locked c then c
      else case f of
        FF_SET_SUBMISSION_RETRY \<Rightarrow>
          c\<lparr>commandFeatures := (commandFeatures c)\<lparr>featuresFlag := featuresFlag (commandFeatures c) OR feature_code f, featureSubmissionRetryDelay := v\<rparr>\<rparr>
      | _ \<Rightarrow> c)"

definition setFeatures64 :: "feature_flag \<Rightarrow> u64 \<Rightarrow> batch_command \<Rightarrow> batch_command" where
  "setFeatures64 f v c =
     (if features_locked c then c
      else case f of
        FF_SET_SCHEDULER_DELAY \<Rightarrow>
          c\<lparr>commandFeatures := (commandFeatures c)\<lparr>featuresFlag := featuresFlag (commandFeatures c) OR feature_code f, featureSchedulerStepsDelay := v\<rparr>\<rparr>
      | FF_SET_COMMAND_TIMEOUT \<Rightarrow>
          c\<lparr>commandFeatures := (commandFeatures c)\<lparr>featuresFlag := featuresFlag (commandFeatures c) OR feature_code f, featureCommandTimeout := v\<rparr>\<rparr>
      | _ \<Rightarrow> c)"

text \<open>Clearing a feature flips its flag: a flag that is not set becomes set.\<close>

definition clearFeatures :: "feature_flag \<Rightarrow> batch_command \<Rightarrow> batch_command" where
  "clearFeatures f c =
     (if features_locked c then c
      else
        let fs = (commandFeatures c)\<lparr>featuresFlag := featuresFlag (commandFeatures c) XOR feature_code f\<rparr> in
        c\<lparr>commandFeatures :=
            (case f of
               FF_SET_SCHEDULER_DELAY \<Rightarrow> fs\<lparr>featureSchedulerStepsDelay := 0\<rparr>
             | FF_SET_SUBMISSION_RETRY \<Rightarrow> fs\<lparr>featureSubmissionRetryDelay := 0\<rparr>
             | FF_SET_COMMAND_TIMEOUT \<Rightarrow> fs\<lparr>featureCommandTimeout := 0\<rparr>
             | _ \<Rightarrow> fs)\<rparr>)"

definition setRunningProperty :: "u8 \<Rightarrow> batch_command \<Rightarrow> bool \<times> batch_command" where
  "setRunningProperty property c =
     (if bit (lockFeaturePropertyFlag c) 1 then (False, c) else (True, c\<lparr>runningProperty := property\<rparr>))"

section \<open>Runs of handlers\<close>

datatype api_call =
  Call_setFeatures32 feature_flag u32
| Call_setFeatures64 feature_flag u64
| Call_clearFeatures feature_flag
| Call_setRunningProperty u8

fun api_effect :: "api_call \<Rightarrow> batch_command \<Rightarrow> batch_command" where
  "api_effect (Call_setFeatures32 f v) c = setFeatures32 f v c"
| "api_effect (Call_setFeatures64 f v) c = setFeatures64 f v c"
| "api_effect (Call_clearFeatures f) c = clearFeatures f c"
| "api_effect (Call_setRunningProperty p) c = snd (setRunningProperty p c)"

datatype completion = Returns | Throws_CException cexception | Throws_std string | Throws_other

type_synonym handler_run = "api_call list \<times> completion"

text \<open>\<open>SET_FAULT\<close>: the fault property, unless it is locked, and the description.\<close>

definition SET_FAULT :: "int \<Rightarrow> string \<Rightarrow> string \<Rightarrow> batch_command \<Rightarrow> batch_command" where
  "SET_FAULT c m d b =
     (snd (setRunningProperty RP_Fault b))\<lparr>fault_desc := (fault_desc b)\<lparr>fd_code := c, fd_description := m, fd_domain := d\<rparr>\<rparr>"

text \<open>
  The pattern of every caller of a handler: the three \<open>catch\<close> clauses. The first argument is the code
  for \<open>std::exception\<close>; any other exception has the code below.
\<close>

definition run_handler :: "int \<Rightarrow> string \<Rightarrow> handler_run \<Rightarrow> batch_command \<Rightarrow> bool \<times> batch_command" where
  "run_handler std_code domain run c =
     (let c' = fold api_effect (fst run) c in
      case snd run of
        Returns \<Rightarrow> (True, c')
      | Throws_CException ex \<Rightarrow> (False, SET_FAULT (errorCode ex) (errorMessage ex) (errorDomain ex) c')
      | Throws_std what \<Rightarrow> (False, SET_FAULT std_code what domain c')
      | Throws_other \<Rightarrow> (False, SET_FAULT (std_code - 1) ''Unmanaged exception'' domain c'))"

section \<open>Before and after a step\<close>

definition commandPre :: "u64 \<Rightarrow> batch_command \<Rightarrow> batch_command" where
  "commandPre now c = c\<lparr>command_set_time_usec := now\<rparr>"

text \<open>
  The timeout check. The difference of the times is an unsigned subtraction. A run of the timeout
  handler comes with the value it returns.
\<close>

definition commandPost :: "sandbox_stat \<Rightarrow> handler_run \<times> bool \<Rightarrow> batch_command \<Rightarrow> batch_command" where
  "commandPost shared_stat timeout_run c =
     (if featuresFlag (commandFeatures c) AND feature_code FF_SET_COMMAND_TIMEOUT \<noteq> 0
         \<and> lastCmdStepStart shared_stat - command_set_time_usec c \<ge> featureCommandTimeout (commandFeatures c)
      then
        (case run_handler (- 2) ''Acquisition Handler'' (fst timeout_run) c of
           (True, c') \<Rightarrow> if snd timeout_run then SET_FAULT (- 1) ''Command timeout'' ''commandPost'' c' else c'
         | (False, c') \<Rightarrow> c')
      else c)"

section \<open>What a handler cannot change\<close>

text \<open>The calls of a handler that keeps to the four running properties, and the parts it leaves alone.\<close>

fun call_ok :: "api_call \<Rightarrow> bool" where
  "call_ok (Call_setRunningProperty p) \<longleftrightarrow> p < 4"
| "call_ok _ \<longleftrightarrow> True"

definition run_ok :: "handler_run \<Rightarrow> bool" where
  "run_ok run \<longleftrightarrow> list_all call_ok (fst run)"

definition same_identity :: "batch_command \<Rightarrow> batch_command \<Rightarrow> bool" where
  "same_identity c d \<longleftrightarrow> unique_id d = unique_id c \<and> command_alias d = command_alias c \<and> implementedHandler d = implementedHandler c
     \<and> submissionRule d = submissionRule c \<and> (bit (lockFeaturePropertyFlag d) 1 \<longleftrightarrow> bit (lockFeaturePropertyFlag c) 1)"

lemma same_identity_refl [simp]: "same_identity c c"
  by (simp add: same_identity_def)

lemma same_identity_trans: "same_identity b c \<Longrightarrow> same_identity c d \<Longrightarrow> same_identity b d"
  by (simp add: same_identity_def)

lemma api_effect_same: "same_identity c (api_effect a c) \<and> already_setupped (api_effect a c) = already_setupped c
    \<and> command_set_time_usec (api_effect a c) = command_set_time_usec c \<and> fault_desc (api_effect a c) = fault_desc c"
  by (cases a) (auto simp: same_identity_def setFeatures32_def setFeatures64_def clearFeatures_def setRunningProperty_def Let_def split: feature_flag.splits)

lemma fold_api_same: "same_identity c (fold api_effect as c) \<and> already_setupped (fold api_effect as c) = already_setupped c
    \<and> command_set_time_usec (fold api_effect as c) = command_set_time_usec c \<and> fault_desc (fold api_effect as c) = fault_desc c"
proof (induction as arbitrary: c)
  case (Cons a as)
  then show ?case using api_effect_same [of c a] same_identity_trans by fastforce
qed simp

lemma api_effect_property: "call_ok a \<Longrightarrow> runningProperty c < 4 \<Longrightarrow> runningProperty (api_effect a c) < 4"
  by (cases a) (auto simp: setFeatures32_def setFeatures64_def clearFeatures_def setRunningProperty_def Let_def split: feature_flag.splits)

lemma fold_api_property: "list_all call_ok as \<Longrightarrow> runningProperty c < 4 \<Longrightarrow> runningProperty (fold api_effect as c) < 4"
  by (induction as arbitrary: c) (simp_all add: api_effect_property)

lemma SET_FAULT_same: "same_identity c (SET_FAULT i m d c)" "already_setupped (SET_FAULT i m d c) = already_setupped c"
  "runningProperty c < 4 \<Longrightarrow> runningProperty (SET_FAULT i m d c) < 4"
  by (auto simp: SET_FAULT_def same_identity_def setRunningProperty_def RP_Fault_def)

lemma run_handler_same:
  assumes "run_handler i d run c = (b, c')"
  shows "same_identity c c'" and "already_setupped c' = already_setupped c"
    and "run_ok run \<Longrightarrow> runningProperty c < 4 \<Longrightarrow> runningProperty c' < 4"
  using assms fold_api_same [of c "fst run"] fold_api_property [of "fst run" c] same_identity_trans SET_FAULT_same
  by (auto simp: run_handler_def run_ok_def Let_def split: completion.splits)

lemma commandPre_same: "same_identity c (commandPre t c)" "already_setupped (commandPre t c) = already_setupped c"
  "runningProperty (commandPre t c) = runningProperty c"
  by (simp_all add: commandPre_def same_identity_def)

lemma commandPost_same: "same_identity c (commandPost st r c)" "already_setupped (commandPost st r c) = already_setupped c"
  "run_ok (fst r) \<Longrightarrow> runningProperty c < 4 \<Longrightarrow> runningProperty (commandPost st r c) < 4"
proof -
  obtain b c' where h: "run_handler (- 2) ''Acquisition Handler'' (fst r) c = (b, c')" by (cases "run_handler (- 2) ''Acquisition Handler'' (fst r) c")
  have p: "commandPost st r c \<in> {c, c', SET_FAULT (- 1) ''Command timeout'' ''commandPost'' c'}"
    by (simp add: commandPost_def h split: bool.split)
  note same = run_handler_same [OF h]
  show "same_identity c (commandPost st r c)" "already_setupped (commandPost st r c) = already_setupped c"
    "run_ok (fst r) \<Longrightarrow> runningProperty c < 4 \<Longrightarrow> runningProperty (commandPost st r c) < 4"
    using p same same_identity_trans [OF same(1) SET_FAULT_same(1)] SET_FAULT_same(2,3) by auto
qed

text \<open>
  Clearing the timeout of a command that has none makes the command time out in its next step: the flag
  is set and the limit is 0.
\<close>

lemma clear_timeout_faults:
  assumes "featuresFlag (commandFeatures c) AND 4 = 0" and "\<not> features_locked c" and "\<not> bit (lockFeaturePropertyFlag c) 1"
  shows "runningProperty (commandPost st (([], Returns), True) (clearFeatures FF_SET_COMMAND_TIMEOUT c)) = RP_Fault"
proof -
  have "(featuresFlag (commandFeatures c) XOR 4) AND 4 \<noteq> 0"
    using assms(1) by (simp add: bit.conj_xor_distrib2)
  then show ?thesis using assms(2,3)
    by (simp add: clearFeatures_def Let_def commandPost_def run_handler_def SET_FAULT_def setRunningProperty_def)
qed

end
