(* ===== verification/Batch_Sandbox.thy ===== *)
theory Batch_Sandbox
  imports Batch_Command Processing_Queue
begin

unbundle bit_operations_syntax

text \<open>
  The sandbox in which a control unit runs its commands (\<open>batch_command/BatchCommandSandbox.h\<close> and
  \<open>BatchCommandSandbox.cpp\<close>). One thread, \<open>runCommand\<close>, runs the steps of the current command; another,
  \<open>checkNextCommand\<close>, decides from the state of the current command and the submission rule of the next
  one whether to wait, to stack, to kill or to replace. The queue element, the pair of description and
  implementation and the command itself are allocated and freed together: one address stands for the
  three, and \<open>command_heap\<close> gives the command there, \<open>None\<close> when it is freed. Every call of
  \<open>handleCommandEvent\<close> is recorded. The clock and the runs of the handlers are parameters.
\<close>

section \<open>State\<close>

datatype sandbox_event = EVT_RUN | EVT_HEART_BEAT

record sandbox =
  sb_stat :: sandbox_stat
  scheduleWorkFlag :: bool
  currentExecutingCommand :: "nat option"
  command_submitted_queue :: "nat prio_elem list"
  commandStack :: "nat list"
  acquire_cmdInstance :: "nat option"
  correlation_cmdInstance :: "nat option"
  command_heap :: "nat \<Rightarrow> batch_command option"
  event_handler :: bool
  command_events :: "(u64 \<times> command_event \<times> fault_description option) list"
  sandbox_events :: "(sandbox_event \<times> u64) list"

text \<open>\<open>init\<close> sets the pointers and the flag; the containers are empty.\<close>

definition sandbox_init :: "bool \<Rightarrow> sandbox" where
  "sandbox_init handler =
     \<lparr>sb_stat = zero_stat, scheduleWorkFlag = False, currentExecutingCommand = None, command_submitted_queue = [], commandStack = [],
      acquire_cmdInstance = None, correlation_cmdInstance = None, command_heap = (\<lambda>_. None), event_handler = handler,
      command_events = [], sandbox_events = []\<rparr>"

definition sandbox_start :: "sandbox \<Rightarrow> sandbox" where
  "sandbox_start S = S\<lparr>scheduleWorkFlag := True, sb_stat := zero_stat\<rparr>"

text \<open>The first half of \<open>stop\<close>; the second waits for the two threads to end.\<close>

definition sandbox_stop :: "sandbox \<Rightarrow> sandbox" where
  "sandbox_stop S = S\<lparr>scheduleWorkFlag := False\<rparr>"

definition handleCommandEvent :: "u64 \<Rightarrow> command_event \<Rightarrow> fault_description option \<Rightarrow> sandbox \<Rightarrow> sandbox" where
  "handleCommandEvent uid ev fd S =
     (if event_handler S then S\<lparr>command_events := command_events S @ [(uid, ev, fd)]\<rparr> else S)"

definition handleSandboxEvent :: "sandbox_event \<Rightarrow> u64 \<Rightarrow> sandbox \<Rightarrow> sandbox" where
  "handleSandboxEvent ev t S = (if event_handler S then S\<lparr>sandbox_events := sandbox_events S @ [(ev, t)]\<rparr> else S)"

definition cmd_at :: "nat \<Rightarrow> sandbox \<Rightarrow> batch_command outcome" where
  "cmd_at r S = (case command_heap S r of None \<Rightarrow> Fault | Some c \<Rightarrow> Ret c)"

definition put_cmd :: "nat \<Rightarrow> batch_command \<Rightarrow> sandbox \<Rightarrow> sandbox" where
  "put_cmd r c S = S\<lparr>command_heap := (command_heap S)(r := Some c)\<rparr>"

definition delete_cmd :: "nat \<Rightarrow> sandbox \<Rightarrow> sandbox outcome" where
  "delete_cmd r S = (case command_heap S r of None \<Rightarrow> Fault | Some _ \<Rightarrow> Ret (S\<lparr>command_heap := (command_heap S)(r := None)\<rparr>))"

section \<open>Running property against submission rule\<close>

datatype rsr =
  RSR_NO_CHANGE | RSR_TIMED_RETRY | RSR_STACK_CURENT_COMMAND | RSR_KILL_KURRENT_COMMAND
| RSR_CURRENT_CMD_HAS_ENDED | RSR_CURRENT_CMD_HAS_FAULTED

text \<open>The table is indexed unchecked.\<close>

definition running_vs_submition :: "u8 \<Rightarrow> u8 \<Rightarrow> rsr outcome" where
  "running_vs_submition r s =
     (if r < 4 \<and> s < 3
      then Ret ([[RSR_TIMED_RETRY, RSR_TIMED_RETRY, RSR_NO_CHANGE],
                 [RSR_STACK_CURENT_COMMAND, RSR_KILL_KURRENT_COMMAND, RSR_NO_CHANGE],
                 [RSR_CURRENT_CMD_HAS_ENDED, RSR_CURRENT_CMD_HAS_ENDED, RSR_CURRENT_CMD_HAS_ENDED],
                 [RSR_CURRENT_CMD_HAS_FAULTED, RSR_CURRENT_CMD_HAS_FAULTED, RSR_CURRENT_CMD_HAS_FAULTED]] ! unat r ! unat s)
      else Fault)"

section \<open>Installing and removing handlers\<close>

text \<open>
  \<open>installHandler\<close>: the set handler is run once; the command becomes the current one if it has a further
  handler and the set handler did not throw. A handler the command does not implement is left in place.
\<close>

definition setup_command :: "handler_run \<Rightarrow> batch_command \<Rightarrow> bool \<times> batch_command" where
  "setup_command set_run c =
     (if \<not> already_setupped c \<and> implementedHandler c AND HT_Set \<noteq> 0
      then (case run_handler (- 1) ''Acquisition Handler'' set_run c of
              (True, c') \<Rightarrow> (True, c'\<lparr>already_setupped := True\<rparr>)
            | (False, c') \<Rightarrow> (False, c'))
      else (True, c))"

definition installHandler ::
  "(nat \<Rightarrow> u64) \<Rightarrow> (nat \<Rightarrow> handler_run) \<Rightarrow> nat option \<Rightarrow> sandbox \<Rightarrow> (bool \<times> sandbox) outcome" where
  "installHandler now set_run cmd_to_install S =
     (case cmd_to_install of
        None \<Rightarrow> Ret (True, S\<lparr>currentExecutingCommand := None, acquire_cmdInstance := None, correlation_cmdInstance := None\<rparr>)
      | Some r \<Rightarrow>
          obind (cmd_at r S) (\<lambda>c.
          case setup_command (set_run r) (commandPre (now r) c) of
            (installed, c') \<Rightarrow>
              let S = put_cmd r c' S; mask = implementedHandler c in
              if mask \<le> 1 \<or> \<not> installed then Ret (False, S)
              else
                Ret (True, handleCommandEvent (unique_id c) EVT_RUNNING None
                  (S\<lparr>acquire_cmdInstance := (if mask AND HT_Acquisition \<noteq> 0 then Some r else acquire_cmdInstance S),
                     correlation_cmdInstance := (if mask AND HT_Correlation \<noteq> 0 then Some r else correlation_cmdInstance S),
                     currentExecutingCommand := Some r\<rparr>))))"

definition removeHandler :: "nat \<Rightarrow> sandbox \<Rightarrow> sandbox outcome" where
  "removeHandler r S =
     obind (cmd_at r S) (\<lambda>c.
     let mask = implementedHandler c in
     Ret (if mask \<le> 1 then S
          else S\<lparr>acquire_cmdInstance := (if mask AND HT_Acquisition \<noteq> 0 \<and> acquire_cmdInstance S = Some r then None else acquire_cmdInstance S),
                 correlation_cmdInstance := (if mask AND HT_Correlation \<noteq> 0 \<and> correlation_cmdInstance S = Some r then None else correlation_cmdInstance S)\<rparr>))"

section \<open>The checker\<close>

text \<open>
  How an iteration of the checker ends: whether it waits, and whether it goes back to the top of the
  loop without testing \<open>scheduleWorkFlag\<close> (a \<open>continue\<close>) or tests it.
\<close>

datatype check_end = Check_loop | Check_wait_loop | Check_timed_wait_loop u32 | Check_test_flag | Check_wait_test_flag

definition pop_queue :: "(nat prio_elem list \<Rightarrow> nat prio_elem) \<Rightarrow> sandbox \<Rightarrow> sandbox" where
  "pop_queue htop S = S\<lparr>command_submitted_queue := remove1 (htop (command_submitted_queue S)) (command_submitted_queue S)\<rparr>"

text \<open>A command with at most a set handler is run on the spot and reported.\<close>

definition check_set_only ::
  "(nat prio_elem list \<Rightarrow> nat prio_elem) \<Rightarrow> (nat \<Rightarrow> u64) \<Rightarrow> (nat \<Rightarrow> handler_run) \<Rightarrow> nat \<Rightarrow> sandbox \<Rightarrow> (check_end \<times> sandbox) outcome" where
  "check_set_only htop now set_run next_cmd S =
     obind (installHandler now set_run (Some next_cmd) S) (\<lambda>(_, S1).
     obind (cmd_at next_cmd S1) (\<lambda>c.
     obind (delete_cmd next_cmd
              (if runningProperty c = RP_Fault
               then handleCommandEvent (unique_id c) EVT_FAULT (Some (fault_desc c)) (pop_queue htop S1)
               else handleCommandEvent (unique_id c) EVT_COMPLETED None (pop_queue htop S1))) (\<lambda>S2.
     Ret (Check_loop, S2))))"

text \<open>A command whose set handler threw is reported and deleted, but only if there is an event handler.\<close>

definition report_failed :: "nat \<Rightarrow> sandbox \<Rightarrow> sandbox outcome" where
  "report_failed next_cmd S =
     (if event_handler S
      then obind (cmd_at next_cmd S) (\<lambda>c.
           delete_cmd next_cmd
             (if runningProperty c AND RP_Fault \<noteq> 0 then handleCommandEvent (unique_id c) EVT_FAULT (Some (fault_desc c)) S else S))
      else Ret S)"

definition check_stack ::
  "(nat prio_elem list \<Rightarrow> nat prio_elem) \<Rightarrow> (nat \<Rightarrow> u64) \<Rightarrow> (nat \<Rightarrow> handler_run) \<Rightarrow> nat \<Rightarrow> nat \<Rightarrow> sandbox \<Rightarrow> (check_end \<times> sandbox) outcome" where
  "check_stack htop now set_run next_cmd tmp S =
     obind (installHandler now set_run (Some next_cmd) (pop_queue htop S)) (\<lambda>(installed, S1).
     if installed
     then obind (cmd_at tmp S1) (\<lambda>c.
          Ret (Check_test_flag, handleCommandEvent (unique_id c) EVT_PAUSED None (S1\<lparr>commandStack := tmp # commandStack S1\<rparr>)))
     else obind (report_failed next_cmd S1) (\<lambda>S2. Ret (Check_test_flag, S2)))"

text \<open>The event with which a command leaves, and its deletion.\<close>

definition retire :: "command_event \<Rightarrow> nat \<Rightarrow> sandbox \<Rightarrow> sandbox outcome" where
  "retire ev r S =
     obind (cmd_at r S) (\<lambda>c.
     delete_cmd r (handleCommandEvent (unique_id c) ev (if ev = EVT_FAULT then Some (fault_desc c) else None) S))"

definition check_replace ::
  "(nat prio_elem list \<Rightarrow> nat prio_elem) \<Rightarrow> (nat \<Rightarrow> u64) \<Rightarrow> (nat \<Rightarrow> handler_run) \<Rightarrow> rsr \<Rightarrow> nat \<Rightarrow> nat \<Rightarrow> sandbox \<Rightarrow> (check_end \<times> sandbox) outcome" where
  "check_replace htop now set_run res next_cmd tmp S =
     obind (removeHandler tmp (pop_queue htop S)) (\<lambda>S1.
     obind (installHandler now set_run (Some next_cmd) S1) (\<lambda>(installed, S2).
     if installed
     then obind (retire (if res = RSR_KILL_KURRENT_COMMAND then EVT_KILLED
                         else if res = RSR_CURRENT_CMD_HAS_ENDED then EVT_COMPLETED else EVT_FAULT) tmp S2) (\<lambda>S3.
          Ret (Check_test_flag, S3))
     else obind (report_failed next_cmd S2) (\<lambda>S3.
          obind (installHandler now set_run (Some tmp) S3) (\<lambda>(_, S4).
          Ret (Check_test_flag, S4)))))"

text \<open>Without a current command the next one is installed and taken off the queue, whether the installation succeeded or not.\<close>

definition check_idle ::
  "(nat prio_elem list \<Rightarrow> nat prio_elem) \<Rightarrow> (nat \<Rightarrow> u64) \<Rightarrow> (nat \<Rightarrow> handler_run) \<Rightarrow> nat \<Rightarrow> sandbox \<Rightarrow> (check_end \<times> sandbox) outcome" where
  "check_idle htop now set_run next_cmd S =
     obind (installHandler now set_run (Some next_cmd) S) (\<lambda>(_, S1). Ret (Check_test_flag, pop_queue htop S1))"

text \<open>With an empty queue, a current command that ended or faulted makes room for the top of the stack.\<close>

definition check_ended :: "(nat \<Rightarrow> u64) \<Rightarrow> (nat \<Rightarrow> handler_run) \<Rightarrow> sandbox \<Rightarrow> (check_end \<times> sandbox) outcome" where
  "check_ended now set_run S =
     (case currentExecutingCommand S of
        None \<Rightarrow> Ret (Check_wait_test_flag, S)
      | Some cur \<Rightarrow>
          obind (cmd_at cur S) (\<lambda>c.
          if runningProperty c < RP_End then Ret (Check_wait_test_flag, S)
          else
            obind (removeHandler cur S) (\<lambda>S1.
            obind (installHandler now set_run (case commandStack S of [] \<Rightarrow> None | top_cmd # _ \<Rightarrow> Some top_cmd) S1) (\<lambda>(_, S2).
            let S3 = S2\<lparr>commandStack := tl (commandStack S2)\<rparr> in
            obind (if runningProperty c = RP_End then retire EVT_COMPLETED cur S3
                   else if runningProperty c = RP_Fault then retire EVT_FAULT cur S3
                   else delete_cmd cur S3) (\<lambda>S4.
            Ret (Check_wait_test_flag, S4))))))"

definition check_iteration ::
  "(nat prio_elem list \<Rightarrow> nat prio_elem) \<Rightarrow> (nat \<Rightarrow> u64) \<Rightarrow> (nat \<Rightarrow> handler_run) \<Rightarrow> sandbox \<Rightarrow> (check_end \<times> sandbox) outcome" where
  "check_iteration htop now set_run S =
     (if command_submitted_queue S = [] then check_ended now set_run S
      else
        let next_cmd = element (htop (command_submitted_queue S)) in
        case currentExecutingCommand S of
          None \<Rightarrow> check_idle htop now set_run next_cmd S
        | Some cur \<Rightarrow>
            obind (cmd_at next_cmd S) (\<lambda>n.
            if implementedHandler n \<le> 1 then check_set_only htop now set_run next_cmd S
            else
              obind (cmd_at cur S) (\<lambda>c.
              obind (running_vs_submition (runningProperty c) (submissionRule n)) (\<lambda>res.
              case res of
                RSR_NO_CHANGE \<Rightarrow> Ret (Check_wait_loop, S)
              | RSR_TIMED_RETRY \<Rightarrow> Ret (Check_timed_wait_loop (featureSubmissionRetryDelay (commandFeatures n)), S)
              | RSR_STACK_CURENT_COMMAND \<Rightarrow> check_stack htop now set_run next_cmd cur S
              | _ \<Rightarrow> check_replace htop now set_run res next_cmd cur S))))"

text \<open>Whether the loop of \<open>checkNextCommand\<close> goes on after an iteration.\<close>

definition check_goes_on :: "check_end \<Rightarrow> sandbox \<Rightarrow> bool" where
  "check_goes_on w S \<longleftrightarrow> (case w of Check_test_flag \<Rightarrow> scheduleWorkFlag S | Check_wait_test_flag \<Rightarrow> scheduleWorkFlag S | _ \<Rightarrow> True)"

section \<open>The scheduler\<close>

definition call_functor :: "string \<Rightarrow> nat option \<Rightarrow> handler_run \<Rightarrow> sandbox \<Rightarrow> sandbox outcome" where
  "call_functor domain cmdInstance run S =
     (case cmdInstance of
        None \<Rightarrow> Ret S
      | Some r \<Rightarrow>
          obind (cmd_at r S) (\<lambda>c.
          Ret (if runningProperty c < RP_End then put_cmd r (snd (run_handler (- 1) domain run c)) S else S)))"

text \<open>
  Where the scheduler is: it holds the lock on the current command and is about to look at it, it has
  released the lock after a step and still has a pointer to the command, or it has left its loop.
\<close>

datatype sched_pc = Sched_locked | Sched_unlocked nat | Sched_exited

record step_input =
  time_start :: u64
  time_end :: u64
  acquire_run :: handler_run
  correlation_run :: handler_run
  timeout_run :: "handler_run \<times> bool"

text \<open>The events and statistics of a step: the duration is start minus end, and wraps.\<close>

definition record_step :: "step_input \<Rightarrow> sandbox \<Rightarrow> sandbox" where
  "record_step i S =
     (let S1 = handleSandboxEvent EVT_RUN (time_start i) S;
          S2 = S1\<lparr>sb_stat := (sb_stat S1)\<lparr>lastCmdStepTime := time_start i - time_end i\<rparr>\<rparr> in
      if time_start i > lastHBTime (sb_stat S2) + 1000
      then handleSandboxEvent EVT_HEART_BEAT (time_start i) (S2\<lparr>sb_stat := (sb_stat S2)\<lparr>lastHBTime := time_start i\<rparr>\<rparr>)
      else S2)"

definition run_step :: "step_input \<Rightarrow> sandbox \<Rightarrow> (sched_pc \<times> sandbox) outcome" where
  "run_step i S =
     (case currentExecutingCommand S of
        Some r \<Rightarrow>
          obind (call_functor ''Acquisition Handler'' (acquire_cmdInstance S) (acquire_run i)
                   (S\<lparr>sb_stat := (sb_stat S)\<lparr>lastCmdStepStart := time_start i\<rparr>\<rparr>)) (\<lambda>S1.
          obind (call_functor ''Correlation Handler'' (correlation_cmdInstance S1) (correlation_run i) S1) (\<lambda>S2.
          let S3 = record_step i S2 in
          obind (cmd_at r S3) (\<lambda>c. Ret (Sched_unlocked r, put_cmd r (commandPost (sb_stat S3) (timeout_run i) c) S3))))
      | None \<Rightarrow> if \<not> scheduleWorkFlag S then Ret (Sched_exited, S) else Ret (Sched_locked, S\<lparr>sb_stat := zero_stat\<rparr>))"

text \<open>
  After the lock is released: the running property and the delay are read through the pointer. The
  result is where the scheduler goes and how many microseconds it pauses, \<open>None\<close> for an unlimited wait.
\<close>

definition run_after :: "nat \<Rightarrow> sandbox \<Rightarrow> (sched_pc \<times> int option) outcome" where
  "run_after r S =
     obind (cmd_at r S) (\<lambda>c.
     Ret (if \<not> scheduleWorkFlag S \<and> runningProperty c \<noteq> 0 then (Sched_exited, Some 0)
          else if runningProperty c = RP_Exsc \<or> runningProperty c = RP_Normal then
            (Sched_locked,
             Some (if featureSchedulerStepsDelay (commandFeatures c) > 0
                   then max 0 (sint (featureSchedulerStepsDelay (commandFeatures c) - lastCmdStepTime (sb_stat S) * 1000)) else 0))
          else if runningProperty c = RP_Fault \<or> runningProperty c = RP_End then (Sched_locked, None)
          else (Sched_locked, Some 0)))"

section \<open>Requests from outside\<close>

definition enqueueCommand :: "bool \<Rightarrow> nat \<Rightarrow> batch_command \<Rightarrow> u32 \<Rightarrow> sandbox \<Rightarrow> bool \<times> sandbox" where
  "enqueueCommand deinitiated r c prio S =
     (if deinitiated then (False, S)
      else
        (True, handleCommandEvent (unique_id c) EVT_QUEUED None
                 (S\<lparr>command_heap := (command_heap S)(r := Some c),
                    command_submitted_queue := \<lparr>element = r, priority = prio, disposeOnDestroy = True\<rparr> # command_submitted_queue S\<rparr>)))"

definition killCurrentCommand :: "sandbox \<Rightarrow> sandbox outcome" where
  "killCurrentCommand S =
     (case currentExecutingCommand S of
        None \<Rightarrow> Fault
      | Some r \<Rightarrow> obind (cmd_at r S) (\<lambda>c. Ret (put_cmd r (snd (setRunningProperty RP_End c)) S)))"

text \<open>\<open>deinit\<close>: the current command is reported as killed; when the others are deleted there is no current command any more, so they are not.\<close>

fun delete_all :: "nat list \<Rightarrow> sandbox \<Rightarrow> sandbox outcome" where
  "delete_all [] S = Ret S"
| "delete_all (r # rs) S = obind (delete_cmd r S) (delete_all rs)"

definition sandbox_deinit :: "sandbox \<Rightarrow> sandbox outcome" where
  "sandbox_deinit S =
     obind (case currentExecutingCommand S of None \<Rightarrow> Ret S | Some r \<Rightarrow> retire EVT_KILLED r S) (\<lambda>S1.
     obind (delete_all (commandStack S @ map element (command_submitted_queue S)) S1) (\<lambda>S2.
     Ret (S2\<lparr>currentExecutingCommand := None, commandStack := [], command_submitted_queue := [],
              acquire_cmdInstance := None, correlation_cmdInstance := None\<rparr>)))"

text \<open>
  The RPC actions of the executor on the current command: \<open>killCurrentCommand\<close> tests the pointer first,
  \<open>setCommandFeatures\<close> takes the lock of the features and the delay from its parameters, and its C++
  variant ors the flags.
\<close>

definition executor_killCurrentCommand :: "sandbox \<Rightarrow> sandbox outcome" where
  "executor_killCurrentCommand S = (if currentExecutingCommand S = None then Ret S else killCurrentCommand S)"

definition setCommandFeatures_rpc :: "bool option \<Rightarrow> u64 option \<Rightarrow> sandbox \<Rightarrow> sandbox outcome" where
  "setCommandFeatures_rpc lock delay S =
     (case currentExecutingCommand S of
        None \<Rightarrow> Throw (CException 2 ''No Current running command'' ''BatchCommandExecutor::setCommandFeatures'')
      | Some r \<Rightarrow>
          obind (cmd_at r S) (\<lambda>c.
          let c1 = (case lock of
                      None \<Rightarrow> c
                    | Some b \<Rightarrow> c\<lparr>lockFeaturePropertyFlag := (if b then lockFeaturePropertyFlag c OR 1 else lockFeaturePropertyFlag c AND NOT 1)\<rparr>);
              c2 = (case delay of None \<Rightarrow> c1 | Some d \<Rightarrow> c1\<lparr>commandFeatures := (commandFeatures c1)\<lparr>featureSchedulerStepsDelay := d\<rparr>\<rparr>) in
          Ret (put_cmd r c2 S)))"

definition setCommandFeatures :: "features \<Rightarrow> sandbox \<Rightarrow> sandbox outcome" where
  "setCommandFeatures fs S =
     (case currentExecutingCommand S of
        None \<Rightarrow> Ret S
      | Some r \<Rightarrow>
          obind (cmd_at r S) (\<lambda>c.
          Ret (put_cmd r (c\<lparr>commandFeatures := (commandFeatures c)\<lparr>featuresFlag := featuresFlag (commandFeatures c) OR featuresFlag fs,
                              featureSchedulerStepsDelay := featureSchedulerStepsDelay fs\<rparr>\<rparr>) S)))"

end
