(* ===== verification/Batch_Lifecycle.thy ===== *)
theory Batch_Lifecycle
  imports Batch_Sandbox
begin

unbundle bit_operations_syntax

text \<open>
  The life of the commands in a sandbox: the interleavings of the scheduler, the checker and the
  requests from outside as a step relation, the invariant of the pointers the sandbox keeps, where its
  commands are, and the order of the events a command goes through. A step of the scheduler under the
  lock on the current command is atomic, and so is an iteration of the checker, which holds that lock
  unless there is no current command; that the scheduler's steps inside such an idle iteration change
  nothing is \<open>idle_prepare_commutes\<close> and \<open>idle_finish_commutes\<close>. The part of the scheduler after it has
  released the lock is a step of its own. Threads may wake up at any time.
\<close>

section \<open>Steps\<close>

text \<open>A command as the executor submits it: fresh from its constructor, with a rule of the table.\<close>

definition command_ok :: "batch_command \<Rightarrow> bool" where
  "command_ok c \<longleftrightarrow> submissionRule c < 3 \<and> runningProperty c < 4 \<and> \<not> bit (lockFeaturePropertyFlag c) 1"

definition input_ok :: "step_input \<Rightarrow> bool" where
  "input_ok i \<longleftrightarrow> run_ok (acquire_run i) \<and> run_ok (correlation_run i) \<and> run_ok (fst (timeout_run i))"

datatype life = L_new | L_queued | L_running | L_paused | L_done | L_bad

fun life_step :: "life \<Rightarrow> command_event \<Rightarrow> life" where
  "life_step L_new EVT_QUEUED = L_queued"
| "life_step L_queued EVT_RUNNING = L_running"
| "life_step L_queued EVT_COMPLETED = L_done"
| "life_step L_queued EVT_FAULT = L_done"
| "life_step L_running EVT_RUNNING = L_running"
| "life_step L_running EVT_PAUSED = L_paused"
| "life_step L_running EVT_COMPLETED = L_done"
| "life_step L_running EVT_FAULT = L_done"
| "life_step L_running EVT_KILLED = L_done"
| "life_step L_paused EVT_RUNNING = L_running"
| "life_step _ _ = L_bad"

fun life_of :: "u64 \<Rightarrow> (u64 \<times> command_event \<times> fault_description option) list \<Rightarrow> life" where
  "life_of u [] = L_new"
| "life_of u ((v, ev, fd) # es) = (if v = u then life_step (life_of u es) ev else life_of u es)"

text \<open>The log is appended to at its end, so the life is read off its reversal.\<close>

definition life :: "u64 \<Rightarrow> sandbox \<Rightarrow> life" where
  "life u S = life_of u (rev (command_events S))"

inductive sb_step ::
  "(nat prio_elem list \<Rightarrow> nat prio_elem) \<Rightarrow> sandbox \<times> sched_pc \<Rightarrow> sandbox \<times> sched_pc \<Rightarrow> bool" for htop where
  enqueue: "command_heap S r = None \<Longrightarrow> command_ok c \<Longrightarrow> unique_id c \<notin> fst ` set (command_events S) \<Longrightarrow>
    enqueueCommand dead r c prio S = (b, S') \<Longrightarrow> sb_step htop (S, pc) (S', pc)"
| check: "\<forall>r. run_ok (set_run r) \<Longrightarrow> check_iteration htop now set_run S = Ret (w, S') \<Longrightarrow> sb_step htop (S, pc) (S', pc)"
| run: "input_ok i \<Longrightarrow> run_step i S = Ret (pc', S') \<Longrightarrow> sb_step htop (S, Sched_locked) (S', pc')"
| run_after: "run_after r S = Ret (pc', t) \<Longrightarrow> sb_step htop (S, Sched_unlocked r) (S, pc')"
| kill: "executor_killCurrentCommand S = Ret S' \<Longrightarrow> sb_step htop (S, pc) (S', pc)"
| set_features_rpc: "setCommandFeatures_rpc lock delay S = Ret S' \<Longrightarrow> sb_step htop (S, pc) (S', pc)"
| set_features: "setCommandFeatures fs S = Ret S' \<Longrightarrow> sb_step htop (S, pc) (S', pc)"
| stop: "sb_step htop (S, pc) (sandbox_stop S, pc)"

inductive sb_reach :: "(nat prio_elem list \<Rightarrow> nat prio_elem) \<Rightarrow> sandbox \<times> sched_pc \<Rightarrow> bool" for htop where
  init: "sb_reach htop (sandbox_start (sandbox_init True), Sched_locked)"
| step: "sb_reach htop s \<Longrightarrow> sb_step htop s s' \<Longrightarrow> sb_reach htop s'"

section \<open>The invariant\<close>

definition installed_ok :: "batch_command \<Rightarrow> bool" where
  "installed_ok c \<longleftrightarrow> implementedHandler c > 1 \<and> (implementedHandler c AND HT_Set \<noteq> 0 \<longrightarrow> already_setupped c)"

definition holders :: "sandbox \<Rightarrow> nat list" where
  "holders S = (case currentExecutingCommand S of None \<Rightarrow> [] | Some r \<Rightarrow> [r]) @ commandStack S"

definition queued :: "sandbox \<Rightarrow> nat list" where
  "queued S = map element (command_submitted_queue S)"

definition inv_heap :: "sandbox \<Rightarrow> bool" where
  "inv_heap S \<longleftrightarrow> (\<forall>r c. command_heap S r = Some c \<longrightarrow> command_ok c)
     \<and> (\<forall>r r' c c'. command_heap S r = Some c \<longrightarrow> command_heap S r' = Some c' \<longrightarrow> unique_id c = unique_id c' \<longrightarrow> r = r')
     \<and> (\<forall>r \<in> set (queued S). command_heap S r \<noteq> None)"

definition inv_holders :: "sandbox \<Rightarrow> bool" where
  "inv_holders S \<longleftrightarrow> distinct (holders S @ queued S) \<and> (\<forall>r \<in> set (holders S). \<exists>c. command_heap S r = Some c \<and> installed_ok c)"

definition points_ok :: "u8 \<Rightarrow> nat option \<Rightarrow> sandbox \<Rightarrow> bool" where
  "points_ok bit_mask p S \<longleftrightarrow> (\<forall>r. p = Some r \<longrightarrow> r \<in> set (holders S)
     \<and> (\<exists>c. command_heap S r = Some c \<and> implementedHandler c AND bit_mask \<noteq> 0))"

definition inv_functors :: "sandbox \<Rightarrow> bool" where
  "inv_functors S \<longleftrightarrow> points_ok HT_Acquisition (acquire_cmdInstance S) S \<and> points_ok HT_Correlation (correlation_cmdInstance S) S"

definition place :: "sandbox \<Rightarrow> nat \<Rightarrow> life" where
  "place S r = (if currentExecutingCommand S = Some r then L_running else if r \<in> set (commandStack S) then L_paused else L_queued)"

definition live_id :: "u64 \<Rightarrow> sandbox \<Rightarrow> bool" where
  "live_id u S \<longleftrightarrow> (\<exists>r c. command_heap S r = Some c \<and> unique_id c = u)"

definition inv_life :: "sandbox \<Rightarrow> bool" where
  "inv_life S \<longleftrightarrow> event_handler S
     \<and> (\<forall>r c. command_heap S r = Some c \<longrightarrow> life (unique_id c) S = place S r)
     \<and> (\<forall>u. \<not> live_id u S \<longrightarrow> life u S \<in> {L_new, L_done})"

definition sb_inv :: "sandbox \<Rightarrow> bool" where
  "sb_inv S \<longleftrightarrow> inv_heap S \<and> inv_holders S \<and> inv_functors S \<and> inv_life S"

lemmas inv_defs = sb_inv_def inv_heap_def inv_holders_def inv_functors_def points_ok_def inv_life_def place_def holders_def queued_def

lemma life_event: "event_handler S \<Longrightarrow> life u (handleCommandEvent v ev fd S) = (if v = u then life_step (life u S) ev else life u S)"
  by (simp add: life_def handleCommandEvent_def)

lemma life_new: "u \<notin> fst ` set es \<Longrightarrow> life_of u (rev es) = L_new"
proof -
  have "u \<notin> fst ` set xs \<Longrightarrow> life_of u xs = L_new" for xs by (induction xs) auto
  then show "u \<notin> fst ` set es \<Longrightarrow> ?thesis" by simp
qed

lemma event_sel [simp]:
  "command_heap (handleCommandEvent v ev fd S) = command_heap S" "currentExecutingCommand (handleCommandEvent v ev fd S) = currentExecutingCommand S"
  "commandStack (handleCommandEvent v ev fd S) = commandStack S" "command_submitted_queue (handleCommandEvent v ev fd S) = command_submitted_queue S"
  "acquire_cmdInstance (handleCommandEvent v ev fd S) = acquire_cmdInstance S" "correlation_cmdInstance (handleCommandEvent v ev fd S) = correlation_cmdInstance S"
  "event_handler (handleCommandEvent v ev fd S) = event_handler S" "scheduleWorkFlag (handleCommandEvent v ev fd S) = scheduleWorkFlag S"
  by (simp_all add: handleCommandEvent_def)

lemma life_sel [simp]:
  "life u (S\<lparr>command_heap := h\<rparr>) = life u S" "life u (S\<lparr>currentExecutingCommand := p\<rparr>) = life u S" "life u (S\<lparr>commandStack := st\<rparr>) = life u S"
  "life u (S\<lparr>command_submitted_queue := q\<rparr>) = life u S" "life u (S\<lparr>acquire_cmdInstance := a\<rparr>) = life u S"
  "life u (S\<lparr>correlation_cmdInstance := a\<rparr>) = life u S" "life u (S\<lparr>sb_stat := t\<rparr>) = life u S" "life u (S\<lparr>scheduleWorkFlag := b\<rparr>) = life u S"
  "life u (S\<lparr>sandbox_events := es\<rparr>) = life u S"
  by (simp_all add: life_def)

section \<open>Moves that keep the invariant\<close>

lemma inv_update:
  assumes inv: "sb_inv S" and r: "command_heap S r = Some c" "same_identity c c'" "already_setupped c \<Longrightarrow> already_setupped c'" "runningProperty c' < 4"
  shows "sb_inv (put_cmd r c' S)"
proof -
  have id: "unique_id c' = unique_id c" "implementedHandler c' = implementedHandler c" using r(2) by (simp_all add: same_identity_def)
  have c: "command_ok c" using inv r(1) by (auto simp: sb_inv_def inv_heap_def)
  then have c': "command_ok c'" using r(2,4) by (simp add: command_ok_def same_identity_def)
  have i: "installed_ok c \<Longrightarrow> installed_ok c'" using id r(3) by (auto simp: installed_ok_def)
  have hq: "holders (put_cmd r c' S) = holders S" "queued (put_cmd r c' S) = queued S" by (simp_all add: put_cmd_def holders_def queued_def)
  have "inv_heap (put_cmd r c' S)" using inv r(1) c' id by (auto simp: sb_inv_def inv_heap_def put_cmd_def queued_def)
  moreover have "inv_holders (put_cmd r c' S)" unfolding inv_holders_def hq
  proof (intro conjI ballI)
    show "distinct (holders S @ queued S)" using inv by (simp add: sb_inv_def inv_holders_def)
    fix r' assume "r' \<in> set (holders S)"
    then obtain c0 where "command_heap S r' = Some c0" "installed_ok c0" using inv by (auto simp: sb_inv_def inv_holders_def)
    then show "\<exists>d. command_heap (put_cmd r c' S) r' = Some d \<and> installed_ok d" using r(1) i by (auto simp: put_cmd_def)
  qed
  moreover have "inv_functors (put_cmd r c' S)" using inv r(1) id by (auto simp: sb_inv_def inv_functors_def points_ok_def put_cmd_def holders_def)
  moreover have "live_id u (put_cmd r c' S) \<longleftrightarrow> live_id u S" for u
    using r(1) id(1) by (auto simp: live_id_def put_cmd_def) (metis option.inject)+
  then have "inv_life (put_cmd r c' S)" using inv r(1) id by (auto simp: sb_inv_def inv_life_def put_cmd_def place_def)
  ultimately show ?thesis by (simp add: sb_inv_def)
qed

lemma inv_same:
  assumes "sb_inv S" "command_heap S' = command_heap S" "currentExecutingCommand S' = currentExecutingCommand S" "commandStack S' = commandStack S"
    "command_submitted_queue S' = command_submitted_queue S" "acquire_cmdInstance S' = acquire_cmdInstance S"
    "correlation_cmdInstance S' = correlation_cmdInstance S" "event_handler S' = event_handler S" "\<And>u. life u S' = life u S"
  shows "sb_inv S'"
  using assms by (simp add: inv_defs live_id_def)

text \<open>The next command is installed, from the queue or from the stack, and the current one leaves.\<close>

definition next_functor :: "u8 \<Rightarrow> nat \<Rightarrow> batch_command \<Rightarrow> nat option \<Rightarrow> nat option \<Rightarrow> nat option" where
  "next_functor bit_mask r c removed p =
     (if implementedHandler c AND bit_mask \<noteq> 0 then Some r else if removed \<noteq> None \<and> p = removed then None else p)"

lemma inv_replace:
  assumes inv: "sb_inv S" and cur: "currentExecutingCommand S = Some tmp" "command_heap S tmp = Some ct"
    and nx: "command_heap S r = Some c" "installed_ok c" "r \<noteq> tmp"
    and src: "commandStack S = r # st \<or> commandStack S = st \<and> r \<notin> set st"
    and q: "set q' \<subseteq> set (command_submitted_queue S)" "distinct (map element q')" "r \<notin> element ` set q'"
    and ev: "ev \<in> {EVT_KILLED, EVT_COMPLETED, EVT_FAULT}"
    and S': "command_heap S' = (command_heap S)(tmp := None)" "currentExecutingCommand S' = Some r" "commandStack S' = st"
      "command_submitted_queue S' = q'" "acquire_cmdInstance S' = next_functor HT_Acquisition r c (Some tmp) (acquire_cmdInstance S)"
      "correlation_cmdInstance S' = next_functor HT_Correlation r c (Some tmp) (correlation_cmdInstance S)" "event_handler S' = event_handler S"
      "\<And>u. life u S' = (if u = unique_id ct then life_step (life u S) ev else if u = unique_id c then life_step (life u S) EVT_RUNNING else life u S)"
  shows "sb_inv S'"
proof -
  have hp: "inv_heap S" and ho: "inv_holders S" and fu: "inv_functors S" and li: "inv_life S" using inv by (simp_all add: sb_inv_def)
  have un: "unique_id ct \<noteq> unique_id c" using hp cur(2) nx(1,3) by (auto simp: inv_heap_def)
  have st: "set st \<subseteq> set (commandStack S)" using src by auto
  have tq: "tmp \<notin> element ` set q'" "tmp \<notin> set st" "set st \<inter> element ` set q' = {}" "distinct st"
    using ho cur(1) image_mono [OF q(1), of element] src by (auto simp: inv_holders_def holders_def queued_def) blast
  have 1: "inv_heap S'" using hp q(1) tq(1) by (auto simp: inv_heap_def S' queued_def)
  have 2: "inv_holders S'" using ho cur(1) nx st tq q(2,3) src by (auto simp: inv_holders_def holders_def queued_def S')
  have 3: "inv_functors S'"
    using fu cur(1) nx(1,3) src tq(2)
    by (auto simp: inv_functors_def points_ok_def next_functor_def S' holders_def split: if_splits)
  have lt: "life (unique_id ct) S = L_running" using li cur by (simp add: inv_life_def place_def)
  have lc: "life (unique_id c) S \<in> {L_queued, L_paused}" using li nx cur by (auto simp: inv_life_def place_def)
  have 4: "inv_life S'" unfolding inv_life_def
  proof (intro conjI allI impI)
    show "event_handler S'" using li by (simp add: S' inv_life_def)
    fix r' c' assume h: "command_heap S' r' = Some c'"
    then have h': "command_heap S r' = Some c'" "r' \<noteq> tmp" by (auto simp: S' split: if_splits)
    then have "unique_id c' \<noteq> unique_id ct" using hp cur(2) by (auto simp: inv_heap_def)
    moreover have "unique_id c' = unique_id c \<longleftrightarrow> r' = r" using hp h' nx(1) by (auto simp: inv_heap_def)
    moreover have "life (unique_id c') S = place S r'" using li h' by (simp add: inv_life_def)
    ultimately show "life (unique_id c') S' = place S' r'" using lc h'(2) cur src nx(1) h' by (auto simp: S' place_def)
  next
    fix u assume n: "\<not> live_id u S'"
    show "life u S' \<in> {L_new, L_done}"
    proof (cases "u = unique_id ct")
      case True then show ?thesis using lt ev by (auto simp: S')
    next
      case False
      then have "\<not> live_id u S" using n cur(2) unfolding live_id_def S' by (metis fun_upd_other option.inject)
      moreover have "u \<noteq> unique_id c" using calculation nx(1) by (auto simp: live_id_def)
      ultimately show ?thesis using li False by (auto simp: S' inv_life_def)
    qed
  qed
  show ?thesis using 1 2 3 4 by (simp add: sb_inv_def)
qed

text \<open>The other moves: the next command starts, the current one is stacked or leaves without a successor, a command that was not started leaves.\<close>

lemma inv_start:
  assumes inv: "sb_inv S" and cur: "currentExecutingCommand S = None \<and> st = commandStack S \<or> (\<exists>tmp. currentExecutingCommand S = Some tmp \<and> st = tmp # commandStack S)"
    and nx: "command_heap S r = Some c" "installed_ok c" "r \<notin> set (holders S)"
    and q: "set q' \<subseteq> set (command_submitted_queue S)" "distinct (map element q')" "r \<notin> element ` set q'"
    and S': "command_heap S' = command_heap S" "currentExecutingCommand S' = Some r" "commandStack S' = st" "command_submitted_queue S' = q'"
      "acquire_cmdInstance S' = next_functor HT_Acquisition r c None (acquire_cmdInstance S)"
      "correlation_cmdInstance S' = next_functor HT_Correlation r c None (correlation_cmdInstance S)" "event_handler S' = event_handler S"
      "\<And>u. life u S' = (if u = unique_id c then life_step (life u S) EVT_RUNNING
        else if \<exists>tmp ct. currentExecutingCommand S = Some tmp \<and> command_heap S tmp = Some ct \<and> unique_id ct = u then life_step (life u S) EVT_PAUSED else life u S)"
  shows "sb_inv S'"
proof -
  have hp: "inv_heap S" and ho: "inv_holders S" and fu: "inv_functors S" and li: "inv_life S" using inv by (simp_all add: sb_inv_def)
  have h': "holders S' = r # holders S" using cur by (auto simp: holders_def S')
  have qi: "element ` set q' \<subseteq> set (queued S)" using q(1) by (auto simp: queued_def)
  have 1: "inv_heap S'" using hp q(1) by (auto simp: inv_heap_def S' queued_def)
  have 2: "inv_holders S'" using ho nx q(2,3) qi by (auto simp: inv_holders_def h' S' queued_def [of S'])
  have 3: "inv_functors S'" using fu nx(1) by (auto simp: inv_functors_def points_ok_def next_functor_def h' S' split: if_splits)
  have lc: "life (unique_id c) S = L_queued" using li nx by (auto simp: inv_life_def place_def holders_def)
  have "life (unique_id c') S' = place S' r'" if h: "command_heap S r' = Some c'" for r' c'
  proof -
    have "unique_id c' = unique_id c \<longleftrightarrow> r' = r" using hp h nx(1) by (auto simp: inv_heap_def)
    moreover have "(\<exists>tmp ct. currentExecutingCommand S = Some tmp \<and> command_heap S tmp = Some ct \<and> unique_id ct = unique_id c') \<longleftrightarrow> currentExecutingCommand S = Some r'"
      using hp h by (auto simp: inv_heap_def)
    moreover have "life (unique_id c') S = place S r'" using li h by (simp add: inv_life_def)
    ultimately show ?thesis using lc cur nx(3) by (auto simp: S' place_def holders_def)
  qed
  moreover have "live_id u S' \<longleftrightarrow> live_id u S" for u by (simp add: live_id_def S')
  moreover have "\<not> live_id u S \<Longrightarrow> life u S' = life u S" for u using nx(1) by (auto simp: live_id_def S')
  ultimately have 4: "inv_life S'" using li by (simp add: inv_life_def S')
  show ?thesis using 1 2 3 4 by (simp add: sb_inv_def)
qed

lemma inv_leave:
  assumes inv: "sb_inv S" and r: "command_heap S r = Some c"
    and kind: "r \<notin> set (holders S) \<and> ev \<in> {EVT_COMPLETED, EVT_FAULT} \<or> holders S = [r] \<and> currentExecutingCommand S = Some r \<and> ev \<in> {EVT_COMPLETED, EVT_FAULT, EVT_KILLED}"
    and q: "set q' \<subseteq> set (command_submitted_queue S)" "distinct (map element q')" "r \<notin> element ` set q'"
    and S': "command_heap S' = (command_heap S)(r := None)" "commandStack S' = commandStack S" "command_submitted_queue S' = q'"
      "currentExecutingCommand S' = (if currentExecutingCommand S = Some r then None else currentExecutingCommand S)"
      "acquire_cmdInstance S' = (if currentExecutingCommand S = Some r then None else acquire_cmdInstance S)"
      "correlation_cmdInstance S' = (if currentExecutingCommand S = Some r then None else correlation_cmdInstance S)" "event_handler S' = event_handler S"
      "\<And>u. life u S' = (if u = unique_id c then life_step (life u S) ev else life u S)"
  shows "sb_inv S'"
proof -
  have hp: "inv_heap S" and ho: "inv_holders S" and fu: "inv_functors S" and li: "inv_life S" using inv by (simp_all add: sb_inv_def)
  have h': "set (holders S') = set (holders S) - {r}" "distinct (holders S')" "distinct (holders S)"
    using kind ho by (auto simp: holders_def S' inv_holders_def split: option.splits)
  have qi: "element ` set q' \<subseteq> set (queued S)" using q(1) by (auto simp: queued_def)
  have 1: "inv_heap S'" using hp q by (auto simp: inv_heap_def S' queued_def)
  have 2: "inv_holders S'" using ho h' q(2,3) qi by (auto simp: inv_holders_def S' queued_def [of S'])
  have 3: "inv_functors S'" using fu h' kind by (auto simp: inv_functors_def points_ok_def S' holders_def [of S] split: if_splits)
  have lc: "life (unique_id c) S = place S r" using li r by (simp add: inv_life_def)
  have "life (unique_id c') S' = place S' r'" if h: "command_heap S r' = Some c'" "r' \<noteq> r" for r' c'
  proof -
    have "unique_id c' \<noteq> unique_id c" using hp h r by (auto simp: inv_heap_def)
    moreover have "life (unique_id c') S = place S r'" using li h by (simp add: inv_life_def)
    ultimately show ?thesis using h(2) by (auto simp: S' place_def)
  qed
  moreover have "life u S' \<in> {L_new, L_done}" if "\<not> live_id u S'" for u
  proof (cases "u = unique_id c")
    case True
    then show ?thesis using lc kind by (auto simp: S' place_def holders_def)
  next
    case False
    then have "\<not> live_id u S" using that r unfolding live_id_def S' by (metis fun_upd_other option.inject)
    then show ?thesis using li False by (simp add: S' inv_life_def)
  qed
  ultimately have 4: "inv_life S'" using li by (auto simp: inv_life_def S' split: if_splits)
  show ?thesis using 1 2 3 4 by (simp add: sb_inv_def)
qed

lemma inv_pop:
  assumes inv: "sb_inv S" and q: "set q' \<subseteq> set (command_submitted_queue S)" "distinct (map element q')"
  shows "sb_inv (S\<lparr>command_submitted_queue := q'\<rparr>)"
proof -
  have "element ` set q' \<subseteq> set (queued S)" using q(1) by (auto simp: queued_def)
  moreover have "holders (S\<lparr>command_submitted_queue := q'\<rparr>) = holders S" by (simp add: holders_def)
  moreover have "set (queued S) \<inter> set (holders S) = {}" using inv by (auto simp: sb_inv_def inv_holders_def)
  ultimately have "inv_holders (S\<lparr>command_submitted_queue := q'\<rparr>)"
    using inv q(2) by (auto simp: sb_inv_def inv_holders_def queued_def)
  then show ?thesis using inv q(1) by (auto simp: sb_inv_def inv_heap_def inv_functors_def points_ok_def inv_life_def live_id_def place_def queued_def holders_def)
qed

lemma inv_enqueue:
  assumes inv: "sb_inv S" and r: "command_heap S r = None" and c: "command_ok c" "unique_id c \<notin> fst ` set (command_events S)"
  shows "sb_inv (snd (enqueueCommand dead r c prio S))"
proof -
  define S' where "S' = snd (enqueueCommand False r c prio S)"
  have hp: "inv_heap S" and ho: "inv_holders S" and fu: "inv_functors S" and li: "inv_life S" using inv by (simp_all add: sb_inv_def)
  have S': "command_heap S' = (command_heap S)(r := Some c)" "holders S' = holders S" "queued S' = r # queued S"
    "acquire_cmdInstance S' = acquire_cmdInstance S" "correlation_cmdInstance S' = correlation_cmdInstance S" "event_handler S'"
    "\<And>r. place S' r = place S r" "\<And>u. life u S' = (if u = unique_id c then L_queued else life u S)"
    using li life_new [OF c(2)]
    by (auto simp: S'_def enqueueCommand_def holders_def queued_def place_def inv_life_def life_event life_def handleCommandEvent_def)
  have new: "r \<notin> set (holders S)" "r \<notin> set (queued S)" using hp ho r by (auto simp: inv_heap_def inv_holders_def)
  have "life (unique_id c) S = L_new" using life_new [OF c(2)] by (simp add: life_def)
  moreover have "place S r' \<noteq> L_new" for r' by (simp add: place_def)
  ultimately have nl: "\<not> live_id (unique_id c) S" using li unfolding live_id_def inv_life_def by metis
  have 1: "inv_heap S'" using hp c(1) nl by (auto simp: inv_heap_def S' live_id_def) blast
  have 2: "inv_holders S'" using ho new by (auto simp: inv_holders_def S')
  have 3: "inv_functors S'" using fu new(1) by (auto simp: inv_functors_def points_ok_def S')
  have "place S r = L_queued" using new(1) by (auto simp: place_def holders_def split: option.splits)
  moreover have "live_id u S' \<longleftrightarrow> u = unique_id c \<or> live_id u S" for u using r by (auto simp: live_id_def S') (metis option.distinct(1))
  moreover have "unique_id d \<noteq> unique_id c" if "command_heap S x = Some d" for x d using nl that by (auto simp: live_id_def)
  ultimately have 4: "inv_life S'" using li by (auto simp: inv_life_def S')
  show ?thesis using 1 2 3 4 inv by (cases dead) (auto simp: sb_inv_def S'_def enqueueCommand_def)
qed

section \<open>Operations keep the invariant\<close>

lemma setup_command_same:
  assumes "setup_command run c = (b, c')" and "run_ok run" and "command_ok c"
  shows "same_identity c c'" "already_setupped c \<Longrightarrow> already_setupped c'" "runningProperty c' < 4"
    "b \<Longrightarrow> implementedHandler c > 1 \<Longrightarrow> installed_ok c'" "\<not> b \<Longrightarrow> runningProperty c' = RP_Fault \<and> \<not> installed_ok c"
proof -
  obtain b0 c0 where h: "run_handler (- 1) ''Acquisition Handler'' run c = (b0, c0)" by (cases "run_handler (- 1) ''Acquisition Handler'' run c")
  note same = run_handler_same [OF h]
  have f: "\<not> b0 \<Longrightarrow> runningProperty c0 = RP_Fault"
    using h fold_api_same [of c "fst run"] assms(3)
    by (auto simp: run_handler_def Let_def SET_FAULT_def setRunningProperty_def command_ok_def same_identity_def split: completion.splits)
  show "same_identity c c'" "already_setupped c \<Longrightarrow> already_setupped c'" "runningProperty c' < 4"
    "b \<Longrightarrow> implementedHandler c > 1 \<Longrightarrow> installed_ok c'" "\<not> b \<Longrightarrow> runningProperty c' = RP_Fault \<and> \<not> installed_ok c"
    using assms same f by (auto simp: setup_command_def h same_identity_def installed_ok_def command_ok_def split: if_splits bool.splits)
qed

text \<open>The state after a successful installation of \<open>r\<close>, whose command is then \<open>c\<close>.\<close>

definition started :: "nat \<Rightarrow> batch_command \<Rightarrow> sandbox \<Rightarrow> sandbox" where
  "started r c S = handleCommandEvent (unique_id c) EVT_RUNNING None
     ((put_cmd r c S)\<lparr>acquire_cmdInstance := next_functor HT_Acquisition r c None (acquire_cmdInstance S),
        correlation_cmdInstance := next_functor HT_Correlation r c None (correlation_cmdInstance S), currentExecutingCommand := Some r\<rparr>)"

lemma install_cases:
  assumes r: "command_heap S r = Some c" "command_ok c" "run_ok (set_run r)"
  obtains (fails) c' where "installHandler now set_run (Some r) S = Ret (False, put_cmd r c' S)" "same_identity c c'"
      "already_setupped c \<Longrightarrow> already_setupped c'" "runningProperty c' < 4" "\<not> installed_ok c" "implementedHandler c > 1 \<Longrightarrow> runningProperty c' = RP_Fault"
  | (works) c' where "installHandler now set_run (Some r) S = Ret (True, started r c' S)"
      "same_identity c c'" "already_setupped c \<Longrightarrow> already_setupped c'" "runningProperty c' < 4" "installed_ok c'"
proof -
  define c0 where "c0 = commandPre (now r) c"
  obtain b c' where s: "setup_command (set_run r) c0 = (b, c')" by (cases "setup_command (set_run r) c0")
  have c0: "same_identity c c0" "already_setupped c0 = already_setupped c" "installed_ok c0 = installed_ok c" "command_ok c0"
    using r(2) by (simp_all add: c0_def commandPre_def same_identity_def installed_ok_def command_ok_def)
  note same = setup_command_same [OF s r(3) c0(4)]
  have id: "same_identity c c'" using same_identity_trans [OF c0(1) same(1)] .
  then have m: "implementedHandler c' = implementedHandler c" "unique_id c' = unique_id c" by (simp_all add: same_identity_def)
  have "installHandler now set_run (Some r) S = (if implementedHandler c \<le> 1 \<or> \<not> b then Ret (False, put_cmd r c' S)
      else Ret (True, started r c' S))"
    using r(1) s by (simp add: installHandler_def cmd_at_def c0_def [symmetric] Let_def started_def next_functor_def m put_cmd_def)
  moreover have "implementedHandler c0 = implementedHandler c" using c0(1) by (simp add: same_identity_def)
  ultimately show ?thesis
    using fails [of c'] works [of c'] id same c0 by (cases "implementedHandler c \<le> 1 \<or> \<not> b") (auto simp: installed_ok_def)
qed

lemma pop_facts:
  assumes "heap_top htop" and "q \<noteq> []" and "distinct (map element q)"
  shows "set (remove1 (htop q) q) \<subseteq> set q" "distinct (map element (remove1 (htop q) q))"
    "element (htop q) \<notin> element ` set (remove1 (htop q) q)" "element (htop q) \<in> element ` set q"
proof -
  have d: "distinct q" "inj_on element (set q)" using assms(3) by (simp_all add: distinct_map)
  have t: "htop q \<in> set q" using heap_top.htop_in [OF assms(1,2)] .
  have r: "set (remove1 (htop q) q) = set q - {htop q}" using d(1) by simp
  show "set (remove1 (htop q) q) \<subseteq> set q" "element (htop q) \<in> element ` set q" using r t by auto
  show "distinct (map element (remove1 (htop q) q))" using d r by (auto simp: distinct_map distinct_remove1 intro: inj_on_subset)
  show "element (htop q) \<notin> element ` set (remove1 (htop q) q)" using d(2) t r by (auto simp: inj_on_def)
qed

lemma queue_facts:
  assumes "heap_top htop" and "sb_inv S" and "command_submitted_queue S \<noteq> []"
  defines "r \<equiv> element (htop (command_submitted_queue S))" and "q' \<equiv> remove1 (htop (command_submitted_queue S)) (command_submitted_queue S)"
  shows "set q' \<subseteq> set (command_submitted_queue S)" "distinct (map element q')" "r \<notin> element ` set q'" "r \<notin> set (holders S)"
    "\<exists>c. command_heap S r = Some c \<and> command_ok c"
proof -
  have d: "distinct (map element (command_submitted_queue S))" using assms(2) by (simp add: sb_inv_def inv_holders_def queued_def)
  note pop = pop_facts [OF assms(1,3) d, folded r_def q'_def]
  show "set q' \<subseteq> set (command_submitted_queue S)" "distinct (map element q')" "r \<notin> element ` set q'" using pop by simp_all
  have "r \<in> set (queued S)" using pop(4) by (simp add: queued_def)
  then show "r \<notin> set (holders S)" "\<exists>c. command_heap S r = Some c \<and> command_ok c"
    using assms(2) by (auto simp: sb_inv_def inv_holders_def inv_heap_def)
qed

lemma not_holder: "r \<notin> set (holders S) \<Longrightarrow> currentExecutingCommand S \<noteq> Some r"
  by (auto simp: holders_def)

lemma check_set_only_inv:
  assumes ht: "heap_top htop" and inv: "sb_inv S" and q: "command_submitted_queue S \<noteq> []" and run: "\<forall>r. run_ok (set_run r)"
    and c: "command_heap S (element (htop (command_submitted_queue S))) = Some c" "implementedHandler c \<le> 1"
  shows "\<exists>w S'. check_set_only htop now set_run (element (htop (command_submitted_queue S))) S = Ret (w, S') \<and> sb_inv S'"
proof -
  define r where "r = element (htop (command_submitted_queue S))"
  note qf = queue_facts [OF ht inv q, folded r_def]
  have ok: "command_heap S r = Some c" "command_ok c" using qf(5) c(1) by (auto simp: r_def)
  show ?thesis
  proof (rule install_cases [where now = now and set_run = set_run, OF ok])
    show "run_ok (set_run r)" using run by blast
  next
    fix c' assume i: "installHandler now set_run (Some r) S = Ret (False, put_cmd r c' S)" and s: "same_identity c c'"
      "already_setupped c \<Longrightarrow> already_setupped c'" "runningProperty c' < 4"
    define S1 where "S1 = put_cmd r c' S"
    have S1: "sb_inv S1" unfolding S1_def by (rule inv_update [OF inv ok(1) s])
    have f: "command_heap S1 r = Some c'" "command_submitted_queue S1 = command_submitted_queue S" "holders S1 = holders S" "event_handler S1"
      using S1 by (simp_all add: S1_def put_cmd_def holders_def sb_inv_def inv_life_def)
    have nc: "currentExecutingCommand S1 \<noteq> Some r" using not_holder [of r S1] qf(4) f(3) by simp
    define ev where "ev = (if runningProperty c' = RP_Fault then EVT_FAULT else EVT_COMPLETED)"
    define fd where "fd = (if runningProperty c' = RP_Fault then Some (fault_desc c') else None)"
    define S2 where "S2 = handleCommandEvent (unique_id c') ev fd (pop_queue htop S1)"
    have "check_set_only htop now set_run r S = Ret (Check_loop, S2\<lparr>command_heap := (command_heap S2)(r := None)\<rparr>)"
      using i f(1) by (simp add: check_set_only_def cmd_at_def delete_cmd_def S2_def ev_def fd_def S1_def [symmetric] pop_queue_def)
    moreover have "sb_inv (S2\<lparr>command_heap := (command_heap S2)(r := None)\<rparr>)"
    proof (rule inv_leave [OF S1 f(1), where ev = ev])
      show "r \<notin> set (holders S1) \<and> ev \<in> {EVT_COMPLETED, EVT_FAULT} \<or> holders S1 = [r] \<and> currentExecutingCommand S1 = Some r \<and> ev \<in> {EVT_COMPLETED, EVT_FAULT, EVT_KILLED}"
        using qf(4) f(3) by (simp add: ev_def)
    qed (use qf f(2,4) nc in \<open>simp_all add: S2_def pop_queue_def r_def life_event\<close>)
    ultimately show ?thesis unfolding r_def by blast
  next
    fix c' assume "same_identity c c'" "installed_ok c'"
    then show ?thesis using c(2) by (auto simp: installed_ok_def same_identity_def not_less [symmetric])
  qed
qed

text \<open>A command that was taken off the queue and is not yet anywhere else.\<close>

definition free_cmd :: "nat \<Rightarrow> batch_command \<Rightarrow> sandbox \<Rightarrow> bool" where
  "free_cmd r c S \<longleftrightarrow> command_heap S r = Some c \<and> r \<notin> set (holders S) \<and> r \<notin> element ` set (command_submitted_queue S)"

lemma popped:
  assumes "heap_top htop" and "sb_inv S" and "command_submitted_queue S \<noteq> []"
    and "command_heap S (element (htop (command_submitted_queue S))) = Some c"
  shows "sb_inv (pop_queue htop S)" "free_cmd (element (htop (command_submitted_queue S))) c (pop_queue htop S)"
  using queue_facts [OF assms(1-3)] assms(4) inv_pop [OF assms(2)]
  by (simp_all add: pop_queue_def free_cmd_def holders_def)

lemma free_put: "free_cmd r c S \<Longrightarrow> free_cmd r c' (put_cmd r c' S)"
  by (simp add: free_cmd_def put_cmd_def holders_def)

lemma inv_distinct_queue: "sb_inv S \<Longrightarrow> distinct (map element (command_submitted_queue S))"
  by (simp add: sb_inv_def inv_holders_def queued_def)

lemma inv_event_handler: "sb_inv S \<Longrightarrow> event_handler S"
  by (simp add: sb_inv_def inv_life_def)

lemma inv_command_ok: "sb_inv S \<Longrightarrow> command_heap S r = Some c \<Longrightarrow> command_ok c"
  by (auto simp: sb_inv_def inv_heap_def)

lemma inv_current:
  assumes "sb_inv S" and "currentExecutingCommand S = Some tmp"
  obtains ct where "command_heap S tmp = Some ct" "installed_ok ct" "command_ok ct" "tmp \<notin> element ` set (command_submitted_queue S)"
proof -
  have "tmp \<in> set (holders S)" using assms(2) by (simp add: holders_def)
  then obtain ct where "command_heap S tmp = Some ct" "installed_ok ct" using assms(1) by (auto simp: sb_inv_def inv_holders_def)
  moreover have "tmp \<notin> element ` set (command_submitted_queue S)"
    using assms \<open>tmp \<in> set (holders S)\<close> by (auto simp: sb_inv_def inv_holders_def queued_def)
  ultimately show ?thesis using that inv_command_ok [OF assms(1)] by blast
qed

lemma report_failed_inv:
  assumes inv: "sb_inv S" and f: "free_cmd r c S" and p: "runningProperty c = RP_Fault"
  obtains S' where "report_failed r S = Ret S'" "sb_inv S'" "currentExecutingCommand S' = currentExecutingCommand S"
    "\<forall>x. x \<noteq> r \<longrightarrow> command_heap S' x = command_heap S x"
proof -
  have h: "command_heap S r = Some c" "r \<notin> set (holders S)" "r \<notin> element ` set (command_submitted_queue S)" using f by (simp_all add: free_cmd_def)
  note eh = inv_event_handler [OF inv]
  define S1 where "S1 = handleCommandEvent (unique_id c) EVT_FAULT (Some (fault_desc c)) S"
  have "report_failed r S = Ret (S1\<lparr>command_heap := (command_heap S1)(r := None)\<rparr>)"
    using h(1) p eh by (simp add: report_failed_def cmd_at_def delete_cmd_def S1_def RP_Fault_def)
  moreover have "sb_inv (S1\<lparr>command_heap := (command_heap S1)(r := None)\<rparr>)"
    by (rule inv_leave [OF inv h(1), where ev = EVT_FAULT])
      (use h not_holder [OF h(2)] eh inv_distinct_queue [OF inv] in \<open>simp_all add: S1_def life_event\<close>)
  ultimately show ?thesis using that by (auto simp: S1_def)
qed

lemma inv_restart:
  assumes inv: "sb_inv S" and cur: "currentExecutingCommand S = Some r" "command_heap S r = Some c"
    and S': "command_heap S' = command_heap S" "currentExecutingCommand S' = Some r" "commandStack S' = commandStack S"
      "command_submitted_queue S' = command_submitted_queue S" "acquire_cmdInstance S' = next_functor HT_Acquisition r c None (acquire_cmdInstance S)"
      "correlation_cmdInstance S' = next_functor HT_Correlation r c None (correlation_cmdInstance S)" "event_handler S' = event_handler S"
      "\<And>u. life u S' = (if u = unique_id c then life_step (life u S) EVT_RUNNING else life u S)"
  shows "sb_inv S'"
proof -
  have h: "holders S' = holders S" "queued S' = queued S" "\<And>x. place S' x = place S x" "\<And>u. live_id u S' = live_id u S"
    by (simp_all add: holders_def queued_def place_def live_id_def S' cur(1))
  have "life (unique_id c) S = L_running" using inv cur by (simp add: sb_inv_def inv_life_def place_def)
  then have "life u S' = life u S" for u by (simp add: S')
  then have "inv_life S'" using inv by (simp add: sb_inv_def inv_life_def h S'(1,7))
  moreover have "r \<in> set (holders S)" using cur(1) by (simp add: holders_def)
  then have "inv_functors S'" using inv cur(2) by (auto simp: sb_inv_def inv_functors_def points_ok_def h(1) S' next_functor_def split: if_splits)
  ultimately show ?thesis using inv by (simp add: sb_inv_def inv_heap_def inv_holders_def h S'(1))
qed

definition without_functors :: "nat \<Rightarrow> sandbox \<Rightarrow> sandbox" where
  "without_functors r S = S\<lparr>acquire_cmdInstance := (if acquire_cmdInstance S = Some r then None else acquire_cmdInstance S),
      correlation_cmdInstance := (if correlation_cmdInstance S = Some r then None else correlation_cmdInstance S)\<rparr>"

lemma removeHandler_inv:
  assumes inv: "sb_inv S" and r: "command_heap S r = Some c" "installed_ok c"
  shows "removeHandler r S = Ret (without_functors r S)" and "sb_inv (without_functors r S)"
proof -
  have a: "acquire_cmdInstance S = Some r \<Longrightarrow> implementedHandler c AND HT_Acquisition \<noteq> 0"
    "correlation_cmdInstance S = Some r \<Longrightarrow> implementedHandler c AND HT_Correlation \<noteq> 0"
    using inv r(1) by (auto simp: sb_inv_def inv_functors_def points_ok_def)
  show "removeHandler r S = Ret (without_functors r S)" using r a by (auto simp: removeHandler_def cmd_at_def Let_def installed_ok_def without_functors_def)
  show "sb_inv (without_functors r S)" using inv by (simp add: inv_defs live_id_def without_functors_def)
qed

lemma next_functor_without:
  "next_functor m r c None (acquire_cmdInstance (without_functors tmp S)) = next_functor m r c (Some tmp) (acquire_cmdInstance S)"
  "next_functor m r c None (correlation_cmdInstance (without_functors tmp S)) = next_functor m r c (Some tmp) (correlation_cmdInstance S)"
  by (simp_all add: next_functor_def without_functors_def)

lemma check_stack_inv:
  assumes ht: "heap_top htop" and inv: "sb_inv S" and q: "command_submitted_queue S \<noteq> []" and run: "\<forall>r. run_ok (set_run r)"
    and c: "command_heap S (element (htop (command_submitted_queue S))) = Some c" "implementedHandler c > 1"
    and cur: "currentExecutingCommand S = Some tmp"
  shows "\<exists>w S'. check_stack htop now set_run (element (htop (command_submitted_queue S))) tmp S = Ret (w, S') \<and> sb_inv S'"
proof -
  define r where "r = element (htop (command_submitted_queue S))"
  define S0 where "S0 = pop_queue htop S"
  note pop = popped [OF ht inv q c(1), folded r_def S0_def]
  have cur0: "currentExecutingCommand S0 = Some tmp" using cur by (simp add: S0_def pop_queue_def)
  have h: "command_heap S0 r = Some c" "command_ok c" "run_ok (set_run r)" using pop run inv_command_ok by (auto simp: free_cmd_def)
  show ?thesis
  proof (rule install_cases [where now = now and set_run = set_run and S = S0, OF h])
    fix c' assume i: "installHandler now set_run (Some r) S0 = Ret (False, put_cmd r c' S0)" and s: "same_identity c c'"
      "already_setupped c \<Longrightarrow> already_setupped c'" "runningProperty c' < 4" and p: "1 < implementedHandler c \<Longrightarrow> runningProperty c' = RP_Fault"
    obtain S' where "report_failed r (put_cmd r c' S0) = Ret S'" "sb_inv S'"
      using report_failed_inv [OF inv_update [OF pop(1) h(1) s] free_put [OF pop(2)] p [OF c(2)]] by blast
    then show ?thesis
      using i by (simp add: check_stack_def S0_def r_def)
  next
    fix c' assume i: "installHandler now set_run (Some r) S0 = Ret (True, started r c' S0)"
      and s: "same_identity c c'" "already_setupped c \<Longrightarrow> already_setupped c'" "runningProperty c' < 4" and ok: "installed_ok c'"
    define S1 where "S1 = put_cmd r c' S0"
    have S1: "sb_inv S1" "free_cmd r c' S1" "currentExecutingCommand S1 = Some tmp"
      using inv_update [OF pop(1) h(1) s] free_put [OF pop(2)] cur0 by (simp_all add: S1_def put_cmd_def)
    obtain ct where ct: "command_heap S1 tmp = Some ct" "tmp \<noteq> r" using inv_current [OF S1(1,3)] S1(2,3) by (metis free_cmd_def not_holder)
    have un: "unique_id ct \<noteq> unique_id c'" using S1(1,2) ct by (auto simp: sb_inv_def inv_heap_def free_cmd_def)
    define S2 where "S2 = started r c' S0"
    have fs: "acquire_cmdInstance S0 = acquire_cmdInstance S1" "correlation_cmdInstance S0 = correlation_cmdInstance S1" by (simp_all add: S1_def put_cmd_def)
    define S3 where "S3 = handleCommandEvent (unique_id ct) EVT_PAUSED None (S2\<lparr>commandStack := tmp # commandStack S2\<rparr>)"
    have i': "installHandler now set_run (Some r) (pop_queue htop S) = Ret (True, S2)"
      using i by (simp add: S2_def S0_def)
    have "check_stack htop now set_run r tmp S = Ret (Check_test_flag, S3)"
      using ct(1) by (simp add: check_stack_def i' cmd_at_def S2_def S3_def started_def S1_def)
    moreover have "sb_inv S3"
      by (rule inv_start [OF S1(1), where r = r and c = c' and q' = "command_submitted_queue S1"])
        (use S1 ok ct un inv_distinct_queue [OF S1(1)] inv_event_handler [OF S1(1)] in \<open>auto simp: S3_def S2_def started_def S1_def [symmetric] fs free_cmd_def life_event\<close>)
    ultimately show ?thesis
      unfolding r_def by blast
  qed
qed

text \<open>Installing a command that is already set up always succeeds.\<close>

lemma install_again:
  assumes "command_heap S r = Some c" "command_ok c" "run_ok (set_run r)" "installed_ok c"
  obtains c' where "installHandler now set_run (Some r) S = Ret (True, started r c' S)"
      "same_identity c c'" "already_setupped c \<Longrightarrow> already_setupped c'" "runningProperty c' < 4" "installed_ok c'"
  by (rule install_cases [where now = now and set_run = set_run, OF assms(1-3)]) (use assms(4) in \<open>auto intro: that\<close>)

text \<open>The current command leaves with \<open>ev\<close> after the installation of \<open>r\<close>, whose state is now \<open>c\<close>.\<close>

definition replaced :: "command_event \<Rightarrow> fault_description option \<Rightarrow> nat \<Rightarrow> batch_command \<Rightarrow> nat \<Rightarrow> batch_command \<Rightarrow> nat list \<Rightarrow> sandbox \<Rightarrow> sandbox" where
  "replaced ev fd tmp ct r c st S =
     (handleCommandEvent (unique_id ct) ev fd
       ((handleCommandEvent (unique_id c) EVT_RUNNING None
          (S\<lparr>acquire_cmdInstance := next_functor HT_Acquisition r c (Some tmp) (acquire_cmdInstance S),
             correlation_cmdInstance := next_functor HT_Correlation r c (Some tmp) (correlation_cmdInstance S), currentExecutingCommand := Some r\<rparr>))
        \<lparr>commandStack := st\<rparr>))\<lparr>command_heap := (command_heap S)(tmp := None)\<rparr>"

lemma replaced_inv:
  assumes inv: "sb_inv S" and cur: "currentExecutingCommand S = Some tmp" "command_heap S tmp = Some ct"
    and nx: "command_heap S r = Some c" "installed_ok c" "r \<noteq> tmp" "r \<notin> element ` set (command_submitted_queue S)"
    and src: "commandStack S = r # st \<or> commandStack S = st \<and> r \<notin> set st" and ev: "ev \<in> {EVT_KILLED, EVT_COMPLETED, EVT_FAULT}"
  shows "sb_inv (replaced ev fd tmp ct r c st S)"
proof -
  have "unique_id ct \<noteq> unique_id c" using inv cur(2) nx(1,3) by (auto simp: sb_inv_def inv_heap_def)
  then show ?thesis
    by (intro inv_replace [OF inv cur nx(1-3) src, where ev = ev and q' = "command_submitted_queue S"])
      (use ev nx(4) inv_distinct_queue [OF inv] inv_event_handler [OF inv] in \<open>auto simp: replaced_def life_event\<close>)
qed

lemma retire_replaced:
  assumes inv: "sb_inv S" and r: "command_heap S r = Some c" and ct: "command_heap S tmp = Some ct" "tmp \<noteq> r"
  shows "retire ev tmp ((started r c' (without_functors tmp S))\<lparr>commandStack := st\<rparr>)
    = Ret (replaced ev (if ev = EVT_FAULT then Some (fault_desc ct) else None) tmp ct r c' st (put_cmd r c' S))"
proof -
  have "command_heap (started r c' (without_functors tmp S)) tmp = Some ct" using ct by (simp add: started_def put_cmd_def without_functors_def)
  then show ?thesis
    unfolding retire_def replaced_def started_def next_functor_without
    by (simp add: cmd_at_def delete_cmd_def put_cmd_def without_functors_def handleCommandEvent_def)
qed

lemma check_replace_inv:
  assumes ht: "heap_top htop" and inv: "sb_inv S" and q: "command_submitted_queue S \<noteq> []" and run: "\<forall>r. run_ok (set_run r)"
    and c: "command_heap S (element (htop (command_submitted_queue S))) = Some c" "implementedHandler c > 1"
    and cur: "currentExecutingCommand S = Some tmp"
  shows "\<exists>w S'. check_replace htop now set_run res (element (htop (command_submitted_queue S))) tmp S = Ret (w, S') \<and> sb_inv S'"
proof -
  define r where "r = element (htop (command_submitted_queue S))"
  define S0 where "S0 = pop_queue htop S"
  note pop = popped [OF ht inv q c(1), folded r_def S0_def]
  have cur0: "currentExecutingCommand S0 = Some tmp" using cur by (simp add: S0_def pop_queue_def)
  obtain ct where ct: "command_heap S0 tmp = Some ct" "installed_ok ct" "command_ok ct" using inv_current [OF pop(1) cur0] by blast
  define S1 where "S1 = without_functors tmp S0"
  note rem = removeHandler_inv [OF pop(1) ct(1,2), folded S1_def]
  have f1: "free_cmd r c S1" using pop(2) by (simp add: free_cmd_def S1_def without_functors_def holders_def)
  have h: "command_heap S1 r = Some c" "command_ok c" "run_ok (set_run r)" using f1 run inv_command_ok rem(2) by (auto simp: free_cmd_def)
  have nt: "r \<noteq> tmp" using pop(2) cur0 not_holder by (auto simp: free_cmd_def)
  show ?thesis
  proof (rule install_cases [where now = now and set_run = set_run and S = S1, OF h])
    fix c' assume i: "installHandler now set_run (Some r) S1 = Ret (False, put_cmd r c' S1)" and s: "same_identity c c'"
      "already_setupped c \<Longrightarrow> already_setupped c'" "runningProperty c' < 4" and p: "1 < implementedHandler c \<Longrightarrow> runningProperty c' = RP_Fault"
    obtain S3 where S3: "report_failed r (put_cmd r c' S1) = Ret S3" "sb_inv S3"
        "currentExecutingCommand S3 = currentExecutingCommand (put_cmd r c' S1)" "\<forall>x. x \<noteq> r \<longrightarrow> command_heap S3 x = command_heap (put_cmd r c' S1) x"
      using report_failed_inv [OF inv_update [OF rem(2) h(1) s] free_put [OF f1] p [OF c(2)]] by blast
    have S3': "currentExecutingCommand S3 = Some tmp" "command_heap S3 tmp = Some ct"
      using S3(3,4) cur0 ct(1) nt by (simp_all add: put_cmd_def S1_def without_functors_def)
    obtain c3 where i3: "installHandler now set_run (Some tmp) S3 = Ret (True, started tmp c3 S3)"
      "same_identity ct c3" "already_setupped ct \<Longrightarrow> already_setupped c3" "runningProperty c3 < 4"
      using install_again [OF S3'(2) ct(3) _ ct(2), of set_run now] run by blast
    have S4: "sb_inv (put_cmd tmp c3 S3)" using inv_update [OF S3(2) S3'(2) i3(2-4)] .
    have "sb_inv (started tmp c3 S3)"
      by (rule inv_restart [OF S4, where r = tmp and c = c3])
        (use S3' inv_event_handler [OF S4] in \<open>auto simp: started_def put_cmd_def life_event\<close>)
    then show ?thesis using i i3(1) S3(1) rem(1) by (simp add: check_replace_def S0_def r_def)
  next
    fix c' assume i: "installHandler now set_run (Some r) S1 = Ret (True, started r c' S1)"
      and s: "same_identity c c'" "already_setupped c \<Longrightarrow> already_setupped c'" "runningProperty c' < 4" and ok: "installed_ok c'"
    define ev where "ev = (if res = RSR_KILL_KURRENT_COMMAND then EVT_KILLED else if res = RSR_CURRENT_CMD_HAS_ENDED then EVT_COMPLETED else EVT_FAULT)"
    have r0: "command_heap S0 r = Some c" using pop(2) by (simp add: free_cmd_def)
    have "sb_inv (replaced ev (if ev = EVT_FAULT then Some (fault_desc ct) else None) tmp ct r c' (commandStack S0) (put_cmd r c' S0))"
      by (rule replaced_inv [OF inv_update [OF pop(1) r0 s]])
        (use cur0 ct nt ok pop(2) in \<open>auto simp: put_cmd_def free_cmd_def holders_def ev_def\<close>)
    moreover have st: "(started r c' (without_functors tmp S0))\<lparr>commandStack := commandStack S0\<rparr> = started r c' (without_functors tmp S0)"
      by (simp add: started_def handleCommandEvent_def put_cmd_def without_functors_def)
    have "check_replace htop now set_run res r tmp S
        = Ret (Check_test_flag, replaced ev (if ev = EVT_FAULT then Some (fault_desc ct) else None) tmp ct r c' (commandStack S0) (put_cmd r c' S0))"
      using rem(1) i retire_replaced [OF pop(1) r0 ct(1) nt [symmetric], where c' = c' and ev = ev and st = "commandStack S0", unfolded st]
      by (simp add: check_replace_def S0_def [symmetric] S1_def [symmetric] ev_def [symmetric])
    ultimately show ?thesis unfolding r_def by blast
  qed
qed

lemma check_idle_inv:
  assumes ht: "heap_top htop" and inv: "sb_inv S" and q: "command_submitted_queue S \<noteq> []" and run: "\<forall>r. run_ok (set_run r)"
    and cur: "currentExecutingCommand S = None"
  shows "\<exists>w S'. check_idle htop now set_run (element (htop (command_submitted_queue S))) S = Ret (w, S') \<and> sb_inv S'"
proof -
  define r where "r = element (htop (command_submitted_queue S))"
  note qf = queue_facts [OF ht inv q, folded r_def]
  obtain c where h: "command_heap S r = Some c" "command_ok c" "run_ok (set_run r)" using qf(5) run by blast
  show ?thesis
  proof (rule install_cases [where now = now and set_run = set_run and S = S, OF h])
    fix c' assume i: "installHandler now set_run (Some r) S = Ret (False, put_cmd r c' S)" and s: "same_identity c c'"
      "already_setupped c \<Longrightarrow> already_setupped c'" "runningProperty c' < 4"
    have "sb_inv (pop_queue htop (put_cmd r c' S))"
      using inv_pop [OF inv_update [OF inv h(1) s]] qf(1,2) by (simp add: pop_queue_def put_cmd_def)
    then show ?thesis using i by (simp add: check_idle_def r_def)
  next
    fix c' assume i: "installHandler now set_run (Some r) S = Ret (True, started r c' S)" and s: "same_identity c c'"
      "already_setupped c \<Longrightarrow> already_setupped c'" "runningProperty c' < 4" and ok: "installed_ok c'"
    define S1 where "S1 = put_cmd r c' S"
    have S1: "sb_inv S1" unfolding S1_def by (rule inv_update [OF inv h(1) s])
    have f: "command_heap S1 r = Some c'" "command_submitted_queue S1 = command_submitted_queue S" "holders S1 = holders S"
      "currentExecutingCommand S1 = None" "acquire_cmdInstance S1 = acquire_cmdInstance S" "correlation_cmdInstance S1 = correlation_cmdInstance S"
      using cur by (simp_all add: S1_def put_cmd_def holders_def)
    have "sb_inv (pop_queue htop (started r c' S))"
      by (rule inv_start [OF S1, where r = r and c = c' and st = "commandStack S1" and q' = "remove1 (htop (command_submitted_queue S)) (command_submitted_queue S)"])
        (use qf ok f inv_event_handler [OF S1] in \<open>simp_all add: pop_queue_def started_def S1_def [symmetric] life_event\<close>)
    then show ?thesis using i by (simp add: check_idle_def r_def)
  qed
qed

lemma check_ended_inv:
  assumes inv: "sb_inv S" and run: "\<forall>r. run_ok (set_run r)" and q: "command_submitted_queue S = []"
  shows "\<exists>w S'. check_ended now set_run S = Ret (w, S') \<and> sb_inv S'"
proof (cases "currentExecutingCommand S")
  case None
  then show ?thesis using inv by (simp add: check_ended_def)
next
  case (Some cur)
  then obtain c where c: "command_heap S cur = Some c" "installed_ok c" "command_ok c" using inv_current [OF inv] by blast
  define ev where "ev = (if runningProperty c = RP_End then EVT_COMPLETED else EVT_FAULT)"
  note rem = removeHandler_inv [OF inv c(1,2)]
  show ?thesis
  proof (cases "runningProperty c < RP_End")
    case True
    then show ?thesis using inv c(1) Some by (simp add: check_ended_def cmd_at_def)
  next
    case False
    then have p: "runningProperty c = RP_End \<or> runningProperty c = RP_Fault"
      using c(3) unfolding command_ok_def RP_End_def RP_Fault_def by unat_arith
    then have retire_eq: "(if runningProperty c = RP_End then retire EVT_COMPLETED cur S3
        else if runningProperty c = RP_Fault then retire EVT_FAULT cur S3 else delete_cmd cur S3) = retire ev cur S3" for S3
      by (auto simp: ev_def RP_End_def RP_Fault_def)
    show ?thesis
    proof (cases "commandStack S")
      case Nil
      define S2 where "S2 = (without_functors cur S)\<lparr>currentExecutingCommand := None, acquire_cmdInstance := None, correlation_cmdInstance := None\<rparr>"
      have "check_ended now set_run S = obind (retire ev cur (S2\<lparr>commandStack := tl (commandStack S2)\<rparr>)) (\<lambda>S4. Ret (Check_wait_test_flag, S4))"
        using Some c(1) False rem(1) Nil by (simp add: check_ended_def cmd_at_def installHandler_def S2_def retire_eq)
      also have "\<dots> = Ret (Check_wait_test_flag, (handleCommandEvent (unique_id c) ev (if ev = EVT_FAULT then Some (fault_desc c) else None) S2)\<lparr>command_heap := (command_heap S)(cur := None)\<rparr>)"
        using c(1) Nil by (simp add: retire_def cmd_at_def delete_cmd_def S2_def without_functors_def handleCommandEvent_def)
      finally have "check_ended now set_run S = \<dots>" .
      moreover have "sb_inv ((handleCommandEvent (unique_id c) ev (if ev = EVT_FAULT then Some (fault_desc c) else None) S2)\<lparr>command_heap := (command_heap S)(cur := None)\<rparr>)"
        by (rule inv_leave [OF inv c(1), where ev = ev and q' = "[]"])
          (use Some Nil q inv_event_handler [OF inv] in \<open>auto simp: S2_def without_functors_def life_event holders_def ev_def\<close>)
      ultimately show ?thesis by blast
    next
      case (Cons top_cmd rest)
      have "top_cmd \<in> set (holders S)" using Cons by (simp add: holders_def)
      then obtain ct where ct: "command_heap S top_cmd = Some ct" "installed_ok ct" using inv by (auto simp: sb_inv_def inv_holders_def)
      have nt: "top_cmd \<noteq> cur" using inv Some Cons by (auto simp: sb_inv_def inv_holders_def holders_def)
      have h: "command_heap (without_functors cur S) top_cmd = Some ct" using ct(1) by (simp add: without_functors_def)
      obtain c' where i: "installHandler now set_run (Some top_cmd) (without_functors cur S) = Ret (True, started top_cmd c' (without_functors cur S))"
        "same_identity ct c'" "already_setupped ct \<Longrightarrow> already_setupped c'" "runningProperty c' < 4" "installed_ok c'"
        using install_again [OF h inv_command_ok [OF rem(2) h] _ ct(2), of set_run now] run by blast
      have "commandStack (started top_cmd c' (without_functors cur S)) = commandStack S" by (simp add: started_def put_cmd_def without_functors_def)
      then have "check_ended now set_run S = obind (retire ev cur ((started top_cmd c' (without_functors cur S))\<lparr>commandStack := rest\<rparr>)) (\<lambda>S4. Ret (Check_wait_test_flag, S4))"
        using Some c(1) False rem(1) Cons i(1) by (simp add: check_ended_def cmd_at_def retire_eq)
      moreover have "sb_inv (replaced ev (if ev = EVT_FAULT then Some (fault_desc c) else None) cur c top_cmd c' rest (put_cmd top_cmd c' S))"
        by (rule replaced_inv [OF inv_update [OF inv ct(1) i(2-4)]])
          (use Some c(1) nt i(5) q Cons in \<open>auto simp: put_cmd_def ev_def\<close>)
      ultimately show ?thesis using retire_replaced [OF inv ct(1) c(1) nt [symmetric], where c' = c' and ev = ev and st = rest] by auto
    qed
  qed
qed

lemma check_iteration_inv:
  assumes ht: "heap_top htop" and inv: "sb_inv S" and run: "\<forall>r. run_ok (set_run r)"
  shows "\<exists>w S'. check_iteration htop now set_run S = Ret (w, S') \<and> sb_inv S'"
proof (cases "command_submitted_queue S = []")
  case True
  then show ?thesis using check_ended_inv [OF inv run] by (simp add: check_iteration_def)
next
  case q: False
  define r where "r = element (htop (command_submitted_queue S))"
  obtain n where n: "command_heap S r = Some n" "command_ok n" using queue_facts(5) [OF ht inv q] by (auto simp: r_def)
  show ?thesis
  proof (cases "currentExecutingCommand S")
    case None
    then show ?thesis using check_idle_inv [OF ht inv q run] q by (simp add: check_iteration_def Let_def)
  next
    case (Some cur)
    then obtain c where c: "command_heap S cur = Some c" "command_ok c" using inv_current [OF inv] by blast
    show ?thesis
    proof (cases "implementedHandler n \<le> 1")
      case True
      then show ?thesis using check_set_only_inv [OF ht inv q run, folded r_def, OF n(1), of now] q Some n(1)
        by (simp add: check_iteration_def Let_def r_def cmd_at_def)
    next
      case False
      then have m: "implementedHandler n > 1" by simp
      obtain res where res: "running_vs_submition (runningProperty c) (submissionRule n) = Ret res"
        using c(2) n(2) by (simp add: running_vs_submition_def command_ok_def)
      note stack = check_stack_inv [OF ht inv q run, folded r_def, OF n(1) m Some, of now]
        and replace = check_replace_inv [OF ht inv q run, folded r_def, OF n(1) m Some, of now res]
      show ?thesis using q Some n(1) False c(1) res stack replace inv
        by (cases res) (simp_all add: check_iteration_def Let_def r_def [symmetric] cmd_at_def)
    qed
  qed
qed

lemma call_functor_inv:
  assumes inv: "sb_inv S" and p: "\<And>r. p = Some r \<Longrightarrow> command_heap S r \<noteq> None" and run: "run_ok run"
  shows "\<exists>S'. call_functor d p run S = Ret S' \<and> sb_inv S' \<and> currentExecutingCommand S' = currentExecutingCommand S
    \<and> correlation_cmdInstance S' = correlation_cmdInstance S \<and> (\<forall>r. command_heap S r \<noteq> None \<longrightarrow> command_heap S' r \<noteq> None)"
proof (cases p)
  case None
  then show ?thesis using inv by (simp add: call_functor_def)
next
  case (Some r)
  then obtain c where c: "command_heap S r = Some c" using p by blast
  obtain b c' where h: "run_handler (- 1) d run c = (b, c')" by (cases "run_handler (- 1) d run c")
  have "runningProperty c < 4" using inv_command_ok [OF inv c] by (simp add: command_ok_def)
  then have "sb_inv (put_cmd r c' S)" using run_handler_same [OF h] run by (intro inv_update [OF inv c]) simp_all
  then show ?thesis using inv c h Some by (auto simp: call_functor_def cmd_at_def put_cmd_def)
qed

lemma functors_live:
  assumes "sb_inv S"
  shows "acquire_cmdInstance S = Some r \<Longrightarrow> command_heap S r \<noteq> None" "correlation_cmdInstance S = Some r \<Longrightarrow> command_heap S r \<noteq> None"
  using assms by (auto simp: sb_inv_def inv_functors_def points_ok_def)

lemma run_step_inv:
  assumes inv: "sb_inv S" and i: "input_ok i"
  shows "\<exists>pc S'. run_step i S = Ret (pc, S') \<and> sb_inv S'"
proof (cases "currentExecutingCommand S")
  case None
  then show ?thesis using inv inv_same [OF inv, of "S\<lparr>sb_stat := zero_stat\<rparr>"] by (simp add: run_step_def)
next
  case (Some r)
  define S0 where "S0 = S\<lparr>sb_stat := (sb_stat S)\<lparr>lastCmdStepStart := time_start i\<rparr>\<rparr>"
  have S0: "sb_inv S0" unfolding S0_def by (rule inv_same [OF inv]) simp_all
  obtain S1 where S1: "call_functor ''Acquisition Handler'' (acquire_cmdInstance S0) (acquire_run i) S0 = Ret S1" "sb_inv S1"
      "currentExecutingCommand S1 = Some r"
    using call_functor_inv [OF S0, of "acquire_cmdInstance S0" "acquire_run i" "''Acquisition Handler''", OF functors_live(1) [OF S0]] i Some
    by (auto simp: input_ok_def S0_def)
  obtain S2 where S2: "call_functor ''Correlation Handler'' (correlation_cmdInstance S1) (correlation_run i) S1 = Ret S2" "sb_inv S2"
      "currentExecutingCommand S2 = Some r"
    using call_functor_inv [OF S1(2), of "correlation_cmdInstance S1" "correlation_run i" "''Correlation Handler''", OF functors_live(2) [OF S1(2)]] i S1(3)
    by (auto simp: input_ok_def)
  define S5 where "S5 = record_step i S2"
  have S5: "sb_inv S5" by (rule inv_same [OF S2(2)]) (simp_all add: S5_def record_step_def handleSandboxEvent_def Let_def)
  have cur5: "currentExecutingCommand S5 = Some r" using S2(3) by (simp add: S5_def record_step_def handleSandboxEvent_def Let_def)
  obtain c where c: "command_heap S5 r = Some c" "command_ok c" using inv_current [OF S5 cur5] by blast
  have "sb_inv (put_cmd r (commandPost (sb_stat S5) (timeout_run i) c) S5)"
    using commandPost_same [where c = c and st = "sb_stat S5" and r = "timeout_run i"] c i by (intro inv_update [OF S5 c(1)]) (simp_all add: input_ok_def command_ok_def)
  then show ?thesis
    using Some S1(1) S2(1) c(1) by (simp add: run_step_def Let_def S0_def S5_def cmd_at_def)
qed

lemma current_update_inv:
  assumes inv: "sb_inv S" and cur: "currentExecutingCommand S = Some r"
    and f: "\<And>c. same_identity c (f c) \<and> already_setupped (f c) = already_setupped c \<and> (runningProperty c < 4 \<longrightarrow> runningProperty (f c) < 4)"
  shows "\<exists>S'. obind (cmd_at r S) (\<lambda>c. Ret (put_cmd r (f c) S)) = Ret S' \<and> sb_inv S'"
proof -
  obtain c where c: "command_heap S r = Some c" "command_ok c" using inv_current [OF inv cur] by blast
  have "sb_inv (put_cmd r (f c) S)" using f [of c] c(2) by (intro inv_update [OF inv c(1)]) (simp_all add: command_ok_def)
  then show ?thesis using c(1) by (simp add: cmd_at_def)
qed

lemma kill_inv: "sb_inv S \<Longrightarrow> \<exists>S'. executor_killCurrentCommand S = Ret S' \<and> sb_inv S'"
proof (cases "currentExecutingCommand S")
  case (Some r)
  assume inv: "sb_inv S"
  show ?thesis using Some current_update_inv [OF inv Some, of "\<lambda>c. snd (setRunningProperty RP_End c)"]
    by (simp add: executor_killCurrentCommand_def killCurrentCommand_def setRunningProperty_def same_identity_def RP_End_def)
qed (simp add: executor_killCurrentCommand_def)

lemma set_features_inv: "sb_inv S \<Longrightarrow> setCommandFeatures fs S = Ret S' \<Longrightarrow> sb_inv S'"
proof (cases "currentExecutingCommand S")
  case (Some r)
  assume inv: "sb_inv S" and s: "setCommandFeatures fs S = Ret S'"
  show ?thesis using s Some current_update_inv [OF inv Some, of "\<lambda>c. c\<lparr>commandFeatures := (commandFeatures c)\<lparr>featuresFlag := featuresFlag (commandFeatures c) OR featuresFlag fs,
                              featureSchedulerStepsDelay := featureSchedulerStepsDelay fs\<rparr>\<rparr>"]
    by (simp add: setCommandFeatures_def same_identity_def)
qed (simp add: setCommandFeatures_def)

lemma set_features_rpc_inv: "sb_inv S \<Longrightarrow> setCommandFeatures_rpc lock delay S = Ret S' \<Longrightarrow> sb_inv S'"
proof (cases "currentExecutingCommand S")
  case (Some r)
  assume inv: "sb_inv S" and s: "setCommandFeatures_rpc lock delay S = Ret S'"
  define f1 :: "batch_command \<Rightarrow> batch_command" where "f1 = (\<lambda>c. case lock of None \<Rightarrow> c
    | Some b \<Rightarrow> c\<lparr>lockFeaturePropertyFlag := (if b then lockFeaturePropertyFlag c OR 1 else lockFeaturePropertyFlag c AND NOT 1)\<rparr>)"
  define f2 :: "batch_command \<Rightarrow> batch_command" where "f2 = (\<lambda>c. case delay of None \<Rightarrow> c | Some d \<Rightarrow> c\<lparr>commandFeatures := (commandFeatures c)\<lparr>featureSchedulerStepsDelay := d\<rparr>\<rparr>)"
  have f: "same_identity c (f2 (f1 c)) \<and> already_setupped (f2 (f1 c)) = already_setupped c \<and> runningProperty (f2 (f1 c)) = runningProperty c" for c
    by (auto simp: f1_def f2_def same_identity_def bit_simps split: option.splits)
  have "setCommandFeatures_rpc lock delay S = obind (cmd_at r S) (\<lambda>c. Ret (put_cmd r (f2 (f1 c)) S))"
    using Some by (simp add: setCommandFeatures_rpc_def f1_def f2_def Let_def)
  then show ?thesis using s current_update_inv [OF inv Some, of "\<lambda>c. f2 (f1 c)"] f by auto
qed (simp add: setCommandFeatures_rpc_def)

lemma sb_inv_init: "sb_inv (sandbox_start (sandbox_init True))"
  by (simp add: inv_defs live_id_def sandbox_start_def sandbox_init_def life_def)

lemma sb_step_inv:
  assumes "sb_step htop s s'" and "heap_top htop" and "sb_inv (fst s)"
  shows "sb_inv (fst s')"
  using assms
proof (induction rule: sb_step.induct)
  case (enqueue S r c dead prio b S' pc)
  then show ?case using inv_enqueue [of S r c dead prio] by simp
next
  case (check set_run now S w S' pc)
  then show ?case using check_iteration_inv [of htop S set_run now] by auto
next
  case (run i S pc' S')
  then show ?case using run_step_inv [of S i] by auto
next
  case (kill S S' pc)
  then show ?case using kill_inv [of S] by auto
next
  case (stop S pc)
  then show ?case using inv_same [of S "sandbox_stop S"] by (simp add: sandbox_stop_def)
next
  case (set_features_rpc lock delay S S' pc)
  then show ?case using set_features_rpc_inv [of S lock delay S'] by simp
next
  case (set_features fs S S' pc)
  then show ?case using set_features_inv [of S fs S'] by simp
qed simp

lemma sb_reach_inv: "sb_reach htop s \<Longrightarrow> heap_top htop \<Longrightarrow> sb_inv (fst s)"
  by (induction rule: sb_reach.induct) (simp_all add: sb_inv_init sb_step_inv)

section \<open>Where the commands are\<close>

text \<open>
  A command that has no further handler than the set handler, or that faulted: what the checker finds
  when it could not install a command. A live command is current, stacked, queued, or one of these; \<open>X\<close>
  holds the commands an operation has in its hands.
\<close>

definition refused :: "batch_command \<Rightarrow> bool" where
  "refused c \<longleftrightarrow> implementedHandler c \<le> 1 \<or> runningProperty c = RP_Fault"

definition accounted :: "nat set \<Rightarrow> sandbox \<Rightarrow> bool" where
  "accounted X S \<longleftrightarrow> (\<forall>r c. command_heap S r = Some c \<longrightarrow>
     r \<in> X \<or> r \<in> set (holders S) \<or> r \<in> set (queued S) \<or> refused c)"

lemma accounted_weaken: "accounted X S \<Longrightarrow> accounted (insert r X) S"
  by (auto simp: accounted_def)

lemma accounted_release:
  "accounted (insert r X) S \<Longrightarrow> r \<in> set (holders S) \<or> r \<in> set (queued S) \<or> command_heap S r = None
     \<or> (\<exists>c. command_heap S r = Some c \<and> refused c) \<Longrightarrow> accounted X S"
  unfolding accounted_def by (metis insertE option.distinct(1) option.inject)

lemma accounted_put:
  "accounted X S \<Longrightarrow> r \<in> X \<or> r \<in> set (holders S) \<or> r \<in> set (queued S) \<Longrightarrow> accounted X (put_cmd r c S)"
  by (auto simp: accounted_def put_cmd_def holders_def queued_def)

lemma accounted_event [simp]: "accounted X (handleCommandEvent u ev fd S) = accounted X S"
  by (simp add: accounted_def holders_def queued_def)

lemma accounted_functors [simp]: "accounted X (S\<lparr>acquire_cmdInstance := a\<rparr>) = accounted X S"
  "accounted X (S\<lparr>correlation_cmdInstance := a\<rparr>) = accounted X S" "accounted X (S\<lparr>sb_stat := t\<rparr>) = accounted X S"
  "accounted X (S\<lparr>sandbox_events := es\<rparr>) = accounted X S" "accounted X (S\<lparr>scheduleWorkFlag := b\<rparr>) = accounted X S"
  by (simp_all add: accounted_def holders_def queued_def)

lemma accounted_without [simp]: "accounted X (without_functors r S) = accounted X S"
  by (simp add: without_functors_def)

lemma accounted_pop:
  assumes "accounted X S"
  shows "accounted (insert (element (htop (command_submitted_queue S))) X) (pop_queue htop S)"
proof -
  let ?q = "command_submitted_queue S"
  have "set ?q \<subseteq> insert (htop ?q) (set (remove1 (htop ?q) ?q))" by (metis insertCI in_set_remove1 subsetI)
  then show ?thesis using assms by (fastforce simp: accounted_def pop_queue_def holders_def queued_def)
qed

lemma accounted_current:
  assumes "accounted (insert r X) S"
  shows "accounted (X \<union> set_option (currentExecutingCommand S)) (S\<lparr>currentExecutingCommand := Some r\<rparr>)"
    and "accounted (X \<union> set_option (currentExecutingCommand S) \<union> {r}) (S\<lparr>currentExecutingCommand := None\<rparr>)"
  using assms by (cases "currentExecutingCommand S"; fastforce simp: accounted_def holders_def queued_def)+

lemma accounted_started:
  assumes "accounted (insert r X) S"
  shows "accounted (X \<union> set_option (currentExecutingCommand S)) (started r c S)"
  using accounted_current(1) [of r X "put_cmd r c S"] accounted_put [OF assms, of r c]
  by (simp add: started_def) (simp add: put_cmd_def accounted_def holders_def queued_def)

lemma accounted_stack: "accounted (insert r X) S \<Longrightarrow> accounted X (S\<lparr>commandStack := r # commandStack S\<rparr>)"
  by (auto simp: accounted_def holders_def queued_def)

lemma accounted_unstack:
  "accounted X S \<Longrightarrow> commandStack S = [] \<or> (\<exists>r. commandStack S = r # st \<and> currentExecutingCommand S = Some r) \<Longrightarrow>
     accounted X (S\<lparr>commandStack := tl (commandStack S)\<rparr>)"
  by (fastforce simp: accounted_def holders_def queued_def)

lemma accounted_delete: "accounted (insert r X) S \<Longrightarrow> delete_cmd r S = Ret S' \<Longrightarrow> accounted X S'"
  by (fastforce simp: accounted_def delete_cmd_def holders_def queued_def split: option.splits if_splits)

lemma accounted_delete_event:
  "accounted (insert r X) S \<Longrightarrow> delete_cmd r (handleCommandEvent u ev fd S) = Ret S' \<Longrightarrow> accounted X S'"
  by (rule accounted_delete [of r X "handleCommandEvent u ev fd S"]) simp_all

lemma accounted_retire: "accounted (insert r X) S \<Longrightarrow> retire ev r S = Ret S' \<Longrightarrow> accounted X S'"
  by (cases "command_heap S r") (auto simp: retire_def cmd_at_def dest: accounted_delete_event)

lemma accounted_report_failed: "accounted (insert r X) S \<Longrightarrow> event_handler S \<Longrightarrow> report_failed r S = Ret S' \<Longrightarrow> accounted X S'"
  by (cases "command_heap S r") (auto simp: report_failed_def cmd_at_def split: if_splits dest: accounted_delete_event accounted_delete)

lemma popped_element: "heap_top htop \<Longrightarrow> command_submitted_queue S \<noteq> [] \<Longrightarrow> element (htop (command_submitted_queue S)) \<in> set (queued S)"
  using heap_top.htop_in by (fastforce simp: queued_def)

lemma install_refused: "same_identity c c' \<Longrightarrow> (implementedHandler c > 1 \<Longrightarrow> runningProperty c' = RP_Fault) \<Longrightarrow> refused c'"
  by (auto simp: refused_def same_identity_def not_less [symmetric])

section \<open>Operations keep count of the commands\<close>

lemma check_idle_accounted:
  assumes ht: "heap_top htop" and inv: "sb_inv S" and q: "command_submitted_queue S \<noteq> []" and run: "\<forall>r. run_ok (set_run r)"
    and cur: "currentExecutingCommand S = None" and acc: "accounted {} S"
    and S': "check_idle htop now set_run (element (htop (command_submitted_queue S))) S = Ret (w, S')"
  shows "accounted {} S'"
proof -
  define r where "r = element (htop (command_submitted_queue S))"
  obtain c where h: "command_heap S r = Some c" "command_ok c" "run_ok (set_run r)"
    using queue_facts(5) [OF ht inv q] run by (auto simp: r_def)
  have rq: "r \<in> set (queued S)" using popped_element [OF ht q] by (simp add: r_def)
  show ?thesis
  proof (rule install_cases [where now = now and set_run = set_run and S = S, OF h])
    fix c' assume i: "installHandler now set_run (Some r) S = Ret (False, put_cmd r c' S)"
      and s: "same_identity c c'" "implementedHandler c > 1 \<Longrightarrow> runningProperty c' = RP_Fault"
    have "accounted {r} (pop_queue htop (put_cmd r c' S))"
      using accounted_pop [OF accounted_put [OF acc, of r c'], of htop] rq by (simp add: r_def put_cmd_def)
    then have "accounted {} (pop_queue htop (put_cmd r c' S))"
      by (rule accounted_release) (simp add: pop_queue_def put_cmd_def install_refused [OF s])
    then show ?thesis using S' i by (simp add: check_idle_def r_def [symmetric])
  next
    fix c' assume i: "installHandler now set_run (Some r) S = Ret (True, started r c' S)"
    have "accounted {} (started r c' S)" using accounted_started [OF accounted_weaken [OF acc], of r c'] cur by simp
    then have "accounted {r} (pop_queue htop (started r c' S))"
      using accounted_pop [of "{}" "started r c' S" htop] by (simp add: started_def put_cmd_def r_def)
    then have "accounted {} (pop_queue htop (started r c' S))"
      by (rule accounted_release) (simp add: started_def pop_queue_def holders_def)
    then show ?thesis using S' i by (simp add: check_idle_def r_def [symmetric])
  qed
qed

lemma check_set_only_accounted:
  assumes ht: "heap_top htop" and inv: "sb_inv S" and q: "command_submitted_queue S \<noteq> []" and run: "\<forall>r. run_ok (set_run r)"
    and c: "command_heap S (element (htop (command_submitted_queue S))) = Some c" "implementedHandler c \<le> 1" and acc: "accounted {} S"
    and S': "check_set_only htop now set_run (element (htop (command_submitted_queue S))) S = Ret (w, S')"
  shows "accounted {} S'"
proof -
  define r where "r = element (htop (command_submitted_queue S))"
  have h: "command_heap S r = Some c" "command_ok c" "run_ok (set_run r)" using c(1) inv_command_ok [OF inv c(1)] run by (auto simp: r_def)
  show ?thesis
  proof (rule install_cases [where now = now and set_run = set_run and S = S, OF h])
    fix c' assume i: "installHandler now set_run (Some r) S = Ret (False, put_cmd r c' S)"
    have a: "accounted {r} (pop_queue htop (put_cmd r c' S))"
      using accounted_pop [OF accounted_put [OF acc, of r c'], of htop] popped_element [OF ht q] by (simp add: r_def put_cmd_def)
    have "\<exists>u ev fd. delete_cmd r (handleCommandEvent u ev fd (pop_queue htop (put_cmd r c' S))) = Ret S'"
      using S' i by (auto simp: check_set_only_def r_def [symmetric] cmd_at_def put_cmd_def delete_cmd_def pop_queue_def split: if_splits)
    then show ?thesis using accounted_delete a by (metis accounted_event)
  next
    fix c' assume "same_identity c c'" "installed_ok c'"
    then show ?thesis using c(2) by (auto simp: installed_ok_def same_identity_def not_less [symmetric])
  qed
qed

lemma check_stack_accounted:
  assumes ht: "heap_top htop" and inv: "sb_inv S" and q: "command_submitted_queue S \<noteq> []" and run: "\<forall>r. run_ok (set_run r)"
    and c: "command_heap S (element (htop (command_submitted_queue S))) = Some c"
    and cur: "currentExecutingCommand S = Some tmp" and acc: "accounted {} S"
    and S': "check_stack htop now set_run (element (htop (command_submitted_queue S))) tmp S = Ret (w, S')"
  shows "accounted {} S'"
proof -
  define r where "r = element (htop (command_submitted_queue S))"
  define S0 where "S0 = pop_queue htop S"
  note pop = popped [OF ht inv q c, folded r_def S0_def]
  have a0: "accounted {r} S0" using accounted_pop [OF acc] by (simp add: r_def S0_def)
  have h: "command_heap S0 r = Some c" "command_ok c" "run_ok (set_run r)" using pop run inv_command_ok by (auto simp: free_cmd_def)
  have eh: "event_handler S0" using inv_event_handler [OF pop(1)] .
  show ?thesis
  proof (rule install_cases [where now = now and set_run = set_run and S = S0, OF h])
    fix c' assume i: "installHandler now set_run (Some r) S0 = Ret (False, put_cmd r c' S0)"
    then have "report_failed r (put_cmd r c' S0) = Ret S'" using S'
      by (cases "report_failed r (put_cmd r c' S0)") (simp_all add: check_stack_def S0_def r_def)
    moreover have "accounted {r} (put_cmd r c' S0)" using accounted_put [OF a0] by simp
    ultimately show ?thesis using accounted_report_failed eh by (simp add: put_cmd_def)
  next
    fix c' assume i: "installHandler now set_run (Some r) S0 = Ret (True, started r c' S0)"
    have "accounted {tmp} (started r c' S0)" using accounted_started [OF a0, of c'] cur by (simp add: S0_def pop_queue_def)
    then have "accounted {} ((started r c' S0)\<lparr>commandStack := tmp # commandStack (started r c' S0)\<rparr>)" by (rule accounted_stack)
    then show ?thesis using S' i by (auto simp: check_stack_def S0_def r_def cmd_at_def split: option.splits)
  qed
qed

lemma check_replace_accounted:
  assumes ht: "heap_top htop" and inv: "sb_inv S" and q: "command_submitted_queue S \<noteq> []" and run: "\<forall>r. run_ok (set_run r)"
    and c: "command_heap S (element (htop (command_submitted_queue S))) = Some c" "implementedHandler c > 1"
    and cur: "currentExecutingCommand S = Some tmp" and acc: "accounted {} S"
    and S': "check_replace htop now set_run res (element (htop (command_submitted_queue S))) tmp S = Ret (w, S')"
  shows "accounted {} S'"
proof -
  define r where "r = element (htop (command_submitted_queue S))"
  define S0 where "S0 = pop_queue htop S"
  note pop = popped [OF ht inv q c(1), folded r_def S0_def]
  have cur0: "currentExecutingCommand S0 = Some tmp" using cur by (simp add: S0_def pop_queue_def)
  obtain ct where ct: "command_heap S0 tmp = Some ct" "installed_ok ct" using inv_current [OF pop(1) cur0] by blast
  define S1 where "S1 = without_functors tmp S0"
  note rem = removeHandler_inv [OF pop(1) ct(1,2), folded S1_def]
  have a1: "accounted {r} S1" using accounted_pop [OF acc] by (simp add: r_def S0_def S1_def)
  have h: "command_heap S1 r = Some c" "command_ok c" "run_ok (set_run r)"
    using pop(2) run inv_command_ok [OF inv c(1)] by (auto simp: free_cmd_def S1_def without_functors_def)
  have cur1: "currentExecutingCommand S1 = Some tmp" "event_handler S1"
    using cur0 inv_event_handler [OF rem(2)] by (simp_all add: S1_def without_functors_def)
  have f1: "free_cmd r c S1" using pop(2) by (simp add: free_cmd_def S1_def without_functors_def holders_def)
  show ?thesis
  proof (rule install_cases [where now = now and set_run = set_run and S = S1, OF h])
    fix c' assume i: "installHandler now set_run (Some r) S1 = Ret (False, put_cmd r c' S1)" and s: "same_identity c c'"
      "already_setupped c \<Longrightarrow> already_setupped c'" "runningProperty c' < 4" and p: "1 < implementedHandler c \<Longrightarrow> runningProperty c' = RP_Fault"
    obtain S3 where S3: "report_failed r (put_cmd r c' S1) = Ret S3" "sb_inv S3"
        "currentExecutingCommand S3 = currentExecutingCommand (put_cmd r c' S1)"
      using report_failed_inv [OF inv_update [OF rem(2) h(1) s] free_put [OF f1] p [OF c(2)]] by blast
    have cur3: "currentExecutingCommand S3 = Some tmp" using S3(3) cur1(1) by (simp add: put_cmd_def)
    have "accounted {r} (put_cmd r c' S1)" using accounted_put [OF a1] by simp
    then have a3: "accounted {} S3" using accounted_report_failed [OF _ _ S3(1)] cur1(2) by (simp add: put_cmd_def)
    obtain c3 where c3: "command_heap S3 tmp = Some c3" "installed_ok c3" "command_ok c3" using inv_current [OF S3(2) cur3] by blast
    obtain c4 where i3: "installHandler now set_run (Some tmp) S3 = Ret (True, started tmp c4 S3)"
      using install_again [OF c3(1,3) _ c3(2), of set_run now] run by blast
    have "accounted {tmp} (started tmp c4 S3)" using accounted_started [OF accounted_weaken [OF a3], of tmp c4] cur3 by simp
    then have "accounted {} (started tmp c4 S3)" by (rule accounted_release) (simp add: started_def holders_def)
    moreover have "S' = started tmp c4 S3" using S' rem(1) i S3(1) i3 by (simp add: check_replace_def S0_def r_def)
    ultimately show ?thesis by simp
  next
    fix c' assume i: "installHandler now set_run (Some r) S1 = Ret (True, started r c' S1)"
    have "accounted {tmp} (started r c' S1)" using accounted_started [OF a1, of c'] cur1(1) by simp
    moreover have "\<exists>ev. retire ev tmp (started r c' S1) = Ret S'"
    proof -
      let ?ev = "if res = RSR_KILL_KURRENT_COMMAND then EVT_KILLED else if res = RSR_CURRENT_CMD_HAS_ENDED then EVT_COMPLETED else EVT_FAULT"
      have "obind (retire ?ev tmp (started r c' S1)) (\<lambda>S3. Ret (Check_test_flag, S3)) = Ret (w, S')"
        using S' rem(1) i by (simp add: check_replace_def S0_def r_def)
      then have "retire ?ev tmp (started r c' S1) = Ret S'" by (cases "retire ?ev tmp (started r c' S1)") simp_all
      then show ?thesis by blast
    qed
    ultimately show ?thesis using accounted_retire by blast
  qed
qed

lemma check_ended_accounted:
  assumes inv: "sb_inv S" and run: "\<forall>r. run_ok (set_run r)" and acc: "accounted {} S"
    and S': "check_ended now set_run S = Ret (w, S')"
  shows "accounted {} S'"
proof (cases "currentExecutingCommand S")
  case None
  then show ?thesis using S' acc by (simp add: check_ended_def)
next
  case (Some cur)
  then obtain c where c: "command_heap S cur = Some c" "installed_ok c" using inv_current [OF inv] by blast
  note rem = removeHandler_inv [OF inv c]
  define S1 where "S1 = without_functors cur S"
  have S1: "accounted {} S1" "currentExecutingCommand S1 = Some cur" "commandStack S1 = commandStack S" "command_heap S1 = command_heap S"
    using acc Some by (simp_all add: S1_def) (simp_all add: without_functors_def)
  show ?thesis
  proof (cases "runningProperty c < RP_End")
    case True
    then show ?thesis using S' acc c(1) Some by (simp add: check_ended_def cmd_at_def)
  next
    case False
    have "\<exists>S2. installHandler now set_run (case commandStack S of [] \<Rightarrow> None | top_cmd # _ \<Rightarrow> Some top_cmd) S1 = Ret (True, S2)
        \<and> accounted {cur} (S2\<lparr>commandStack := tl (commandStack S2)\<rparr>)"
    proof (cases "commandStack S")
      case Nil
      let ?S2 = "S1\<lparr>currentExecutingCommand := None, acquire_cmdInstance := None, correlation_cmdInstance := None\<rparr>"
      have "accounted {cur} (?S2\<lparr>commandStack := tl (commandStack ?S2)\<rparr>)"
        using accounted_current(2) [OF accounted_weaken [OF S1(1)], of cur] S1 Nil by (simp add: accounted_def holders_def queued_def)
      then show ?thesis using Nil by (intro exI [of _ ?S2]) (simp add: installHandler_def)
    next
      case (Cons top_cmd rest)
      have "top_cmd \<in> set (holders S)" using Cons by (simp add: holders_def)
      then obtain ct where ct: "command_heap S top_cmd = Some ct" "installed_ok ct" using inv by (auto simp: sb_inv_def inv_holders_def)
      then obtain c' where i: "installHandler now set_run (Some top_cmd) S1 = Ret (True, started top_cmd c' S1)"
        using install_again [of S1 top_cmd ct set_run now] inv_command_ok [OF inv ct(1)] run S1(4) by metis
      let ?S2 = "started top_cmd c' S1"
      have "accounted {cur} ?S2" using accounted_started [OF accounted_weaken [OF S1(1)], of top_cmd c'] S1(2) by simp
      then have "accounted {cur} (?S2\<lparr>commandStack := tl (commandStack ?S2)\<rparr>)"
        by (rule accounted_unstack [where st = rest]) (simp add: started_def put_cmd_def S1(3) Cons)
      then show ?thesis using i Cons by auto
    qed
    then obtain S2 where S2: "installHandler now set_run (case commandStack S of [] \<Rightarrow> None | top_cmd # _ \<Rightarrow> Some top_cmd) S1 = Ret (True, S2)"
      "accounted {cur} (S2\<lparr>commandStack := tl (commandStack S2)\<rparr>)" by blast
    let ?S3 = "S2\<lparr>commandStack := tl (commandStack S2)\<rparr>"
    let ?last = "if runningProperty c = RP_End then retire EVT_COMPLETED cur ?S3
        else if runningProperty c = RP_Fault then retire EVT_FAULT cur ?S3 else delete_cmd cur ?S3"
    have "obind ?last (\<lambda>S4. Ret (Check_wait_test_flag, S4)) = Ret (w, S')"
      using S' Some c(1) False rem(1) S2(1) by (simp add: check_ended_def cmd_at_def S1_def Let_def split: if_splits)
    then have "?last = Ret S'" by (cases ?last) simp_all
    then show ?thesis using accounted_retire [OF S2(2)] accounted_delete [OF S2(2)] by (simp split: if_splits)
  qed
qed

lemma check_iteration_accounted:
  assumes ht: "heap_top htop" and inv: "sb_inv S" and run: "\<forall>r. run_ok (set_run r)" and acc: "accounted {} S"
    and S': "check_iteration htop now set_run S = Ret (w, S')"
  shows "accounted {} S'"
proof (cases "command_submitted_queue S = []")
  case True
  then show ?thesis using check_ended_accounted [OF inv run acc] S' by (simp add: check_iteration_def)
next
  case q: False
  define r where "r = element (htop (command_submitted_queue S))"
  obtain n where n: "command_heap S r = Some n" "command_ok n" using queue_facts(5) [OF ht inv q] by (auto simp: r_def)
  show ?thesis
  proof (cases "currentExecutingCommand S")
    case None
    then show ?thesis using check_idle_accounted [OF ht inv q run None acc] q S' by (simp add: check_iteration_def Let_def)
  next
    case (Some cur)
    then obtain c where c: "command_heap S cur = Some c" "command_ok c" using inv_current [OF inv] by blast
    show ?thesis
    proof (cases "implementedHandler n \<le> 1")
      case True
      then show ?thesis using check_set_only_accounted [OF ht inv q run, folded r_def, OF n(1) _ acc, of now w S'] q Some n(1) S'
        by (simp add: check_iteration_def Let_def r_def cmd_at_def)
    next
      case False
      then have m: "implementedHandler n > 1" by simp
      obtain res where res: "running_vs_submition (runningProperty c) (submissionRule n) = Ret res"
        using c(2) n(2) by (simp add: running_vs_submition_def command_ok_def)
      note stack = check_stack_accounted [OF ht inv q run, folded r_def, OF n(1) Some acc, of now w S']
        and replace = check_replace_accounted [OF ht inv q run, folded r_def, OF n(1) m Some acc, of now res w S']
      have "check_iteration htop now set_run S = (case res of
          RSR_NO_CHANGE \<Rightarrow> Ret (Check_wait_loop, S)
        | RSR_TIMED_RETRY \<Rightarrow> Ret (Check_timed_wait_loop (featureSubmissionRetryDelay (commandFeatures n)), S)
        | RSR_STACK_CURENT_COMMAND \<Rightarrow> check_stack htop now set_run r cur S
        | _ \<Rightarrow> check_replace htop now set_run res r cur S)"
        using q Some n(1) False c(1) res by (simp add: check_iteration_def Let_def r_def [symmetric] cmd_at_def)
      then show ?thesis using S' stack replace acc by (cases res) simp_all
    qed
  qed
qed

lemma call_functor_accounted:
  assumes inv: "sb_inv S" and p: "\<And>r. p = Some r \<Longrightarrow> r \<in> set (holders S)" and acc: "accounted X S"
    and S': "call_functor d p run S = Ret S'"
  shows "accounted X S'"
proof (cases p)
  case (Some r)
  then show ?thesis using S' accounted_put [OF acc] p [OF Some] acc
    by (auto simp: call_functor_def cmd_at_def split: option.splits if_splits)
qed (use S' acc in \<open>simp add: call_functor_def\<close>)

lemma functors_held:
  assumes "sb_inv S"
  shows "acquire_cmdInstance S = Some r \<Longrightarrow> r \<in> set (holders S)" "correlation_cmdInstance S = Some r \<Longrightarrow> r \<in> set (holders S)"
  using assms by (auto simp: sb_inv_def inv_functors_def points_ok_def)

lemma run_step_accounted:
  assumes inv: "sb_inv S" and i: "input_ok i" and acc: "accounted {} S" and S': "run_step i S = Ret (pc, S')"
  shows "accounted {} S'"
proof (cases "currentExecutingCommand S")
  case None
  then show ?thesis using S' acc by (auto simp: run_step_def split: if_splits)
next
  case (Some r)
  define S0 where "S0 = S\<lparr>sb_stat := (sb_stat S)\<lparr>lastCmdStepStart := time_start i\<rparr>\<rparr>"
  have S0: "sb_inv S0" unfolding S0_def by (rule inv_same [OF inv]) simp_all
  obtain S1 where S1: "call_functor ''Acquisition Handler'' (acquire_cmdInstance S0) (acquire_run i) S0 = Ret S1" "sb_inv S1"
      "currentExecutingCommand S1 = Some r"
    using call_functor_inv [OF S0, of "acquire_cmdInstance S0" "acquire_run i" "''Acquisition Handler''", OF functors_live(1) [OF S0]] i Some
    by (auto simp: input_ok_def S0_def)
  obtain S2 where S2: "call_functor ''Correlation Handler'' (correlation_cmdInstance S1) (correlation_run i) S1 = Ret S2" "sb_inv S2"
      "currentExecutingCommand S2 = Some r"
    using call_functor_inv [OF S1(2), of "correlation_cmdInstance S1" "correlation_run i" "''Correlation Handler''", OF functors_live(2) [OF S1(2)]] i S1(3)
    by (auto simp: input_ok_def)
  have "accounted {} S1" using call_functor_accounted [OF S0 functors_held(1) [OF S0] _ S1(1)] acc by (simp add: S0_def)
  then have "accounted {} S2" using call_functor_accounted [OF S1(2) functors_held(2) [OF S1(2)] _ S2(1)] by simp
  then have a: "accounted {} (record_step i S2)" and cur: "r \<in> set (holders (record_step i S2))"
    using S2(3) by (simp_all add: record_step_def handleSandboxEvent_def Let_def holders_def)
  have "\<exists>c. S' = put_cmd r c (record_step i S2)"
    using S' Some S1(1) S2(1) by (auto simp: run_step_def Let_def S0_def cmd_at_def split: option.splits)
  then show ?thesis using accounted_put [OF a] cur by auto
qed

lemma current_update_accounted:
  assumes "accounted {} S" and "currentExecutingCommand S = Some r" and "obind (cmd_at r S) (\<lambda>c. Ret (put_cmd r (f c) S)) = Ret S'"
  shows "accounted {} S'"
  using assms accounted_put [of "{}" S r] by (auto simp: cmd_at_def holders_def split: option.splits)

lemma sb_step_accounted:
  assumes "sb_step htop s s'" and "heap_top htop" and "sb_inv (fst s)" and "accounted {} (fst s)"
  shows "accounted {} (fst s')"
  using assms
proof (induction rule: sb_step.induct)
  case (enqueue S r c dead prio b S' pc)
  then show ?case
    by (auto simp: enqueueCommand_def split: if_splits) (auto simp: accounted_def holders_def queued_def)
next
  case (check set_run now S w S' pc)
  then show ?case using check_iteration_accounted [of htop S set_run now w S'] by simp
next
  case (run i S pc' S')
  then show ?case using run_step_accounted [of S i pc' S'] by simp
next
  case (kill S S' pc)
  then show ?case using current_update_accounted [of S]
    by (auto simp: executor_killCurrentCommand_def killCurrentCommand_def split: option.splits if_splits)
next
  case (set_features_rpc lock delay S S' pc)
  then show ?case using current_update_accounted [of S]
    by (fastforce simp: setCommandFeatures_rpc_def Let_def split: option.splits)
next
  case (set_features fs S S' pc)
  then show ?case using current_update_accounted [of S] by (fastforce simp: setCommandFeatures_def split: option.splits)
next
  case (stop S pc)
  then show ?case by (simp add: sandbox_stop_def)
qed simp

lemma sb_reach_accounted: "sb_reach htop s \<Longrightarrow> heap_top htop \<Longrightarrow> accounted {} (fst s)"
proof (induction rule: sb_reach.induct)
  case init
  then show ?case by (simp add: accounted_def sandbox_start_def sandbox_init_def)
next
  case (step s s')
  then show ?case using sb_step_accounted [OF step.hyps(2)] sb_reach_inv [OF step.hyps(1)] by blast
qed

text \<open>The life of a command, its last event, says where it is.\<close>

lemma life_is_place:
  assumes "sb_reach htop (S, pc)" and "heap_top htop" and c: "command_heap S r = Some c"
  shows "life (unique_id c) S = L_running \<longleftrightarrow> currentExecutingCommand S = Some r"
    and "life (unique_id c) S = L_paused \<longleftrightarrow> r \<in> set (commandStack S)"
    and "r \<in> set (queued S) \<Longrightarrow> life (unique_id c) S = L_queued"
    and "life (unique_id c) S = L_queued \<Longrightarrow> r \<in> set (queued S) \<or> refused c"
    and "life (unique_id c) S \<in> {L_queued, L_running, L_paused}"
proof -
  have inv: "sb_inv S" and acc: "accounted {} S" using sb_reach_inv [OF assms(1,2)] sb_reach_accounted [OF assms(1,2)] by simp_all
  have l: "life (unique_id c) S = place S r" using inv c by (simp add: sb_inv_def inv_life_def)
  have d: "distinct (holders S @ queued S)" using inv by (simp add: sb_inv_def inv_holders_def)
  show "life (unique_id c) S = L_running \<longleftrightarrow> currentExecutingCommand S = Some r"
    "life (unique_id c) S = L_paused \<longleftrightarrow> r \<in> set (commandStack S)" "life (unique_id c) S \<in> {L_queued, L_running, L_paused}"
    using l d by (auto simp: place_def holders_def)
  show "r \<in> set (queued S) \<Longrightarrow> life (unique_id c) S = L_queued" using l d by (auto simp: place_def holders_def)
  show "life (unique_id c) S = L_queued \<Longrightarrow> r \<in> set (queued S) \<or> refused c"
    using l acc [unfolded accounted_def, rule_format, OF c] by (auto simp: place_def holders_def split: if_splits option.splits)
qed

section \<open>The idle branch\<close>

text \<open>
  With no current command the checker installs the next one without the lock on the current command, so
  a step of the scheduler may fall inside. Before the pointer to the current command is stored the
  scheduler sees none and only resets the statistics: its step gives the same before the part of
  \<open>installHandler\<close> done so far (\<open>idle_prepare\<close>). Afterwards only the event and the removal from the
  queue are left, and the step gives the same behind them (\<open>idle_finish\<close>).
\<close>

definition idle_prepare :: "nat \<Rightarrow> batch_command \<Rightarrow> nat option \<Rightarrow> nat option \<Rightarrow> sandbox \<Rightarrow> sandbox" where
  "idle_prepare r c a k S = (put_cmd r c S)\<lparr>acquire_cmdInstance := a, correlation_cmdInstance := k\<rparr>"

definition idle_finish :: "(nat prio_elem list \<Rightarrow> nat prio_elem) \<Rightarrow> u64 \<Rightarrow> sandbox \<Rightarrow> sandbox" where
  "idle_finish htop uid S = pop_queue htop (handleCommandEvent uid EVT_RUNNING None S)"

fun map_state :: "('s \<Rightarrow> 't) \<Rightarrow> ('a \<times> 's) outcome \<Rightarrow> ('a \<times> 't) outcome" where
  "map_state f (Ret (x, s)) = Ret (x, f s)"
| "map_state f (Throw e) = Throw e"
| "map_state f Fault = Fault"

lemma idle_split:
  assumes "installHandler now set_run (Some r) S = Ret (True, started r c S)"
  shows "check_idle htop now set_run r S = Ret (Check_test_flag, idle_finish htop (unique_id c)
     ((idle_prepare r c (next_functor HT_Acquisition r c None (acquire_cmdInstance S))
        (next_functor HT_Correlation r c None (correlation_cmdInstance S)) S)\<lparr>currentExecutingCommand := Some r\<rparr>))"
  using assms by (simp add: check_idle_def started_def idle_finish_def idle_prepare_def)

lemma idle_prepare_commutes:
  assumes "currentExecutingCommand S = None"
  shows "run_step i (idle_prepare r c a k S) = map_state (idle_prepare r c a k) (run_step i S)"
  using assms by (simp add: run_step_def idle_prepare_def put_cmd_def)

text \<open>A step of the scheduler neither reads nor changes the queue and the command events.\<close>

definition with_log :: "nat prio_elem list \<Rightarrow> (u64 \<times> command_event \<times> fault_description option) list \<Rightarrow> sandbox \<Rightarrow> sandbox" where
  "with_log q es S = S\<lparr>command_submitted_queue := q, command_events := es\<rparr>"

lemma with_log_sel [simp]:
  "currentExecutingCommand (with_log q es S) = currentExecutingCommand S" "command_heap (with_log q es S) = command_heap S"
  "acquire_cmdInstance (with_log q es S) = acquire_cmdInstance S" "correlation_cmdInstance (with_log q es S) = correlation_cmdInstance S"
  "scheduleWorkFlag (with_log q es S) = scheduleWorkFlag S" "sb_stat (with_log q es S) = sb_stat S"
  "(with_log q es S)\<lparr>sb_stat := t\<rparr> = with_log q es (S\<lparr>sb_stat := t\<rparr>)" "put_cmd r c (with_log q es S) = with_log q es (put_cmd r c S)"
  "record_step i (with_log q es S) = with_log q es (record_step i S)" "cmd_at r (with_log q es S) = cmd_at r S"
  by (simp_all add: with_log_def put_cmd_def record_step_def handleSandboxEvent_def Let_def cmd_at_def)

lemma call_functor_log:
  "call_functor d p run (with_log q es S) = obind (call_functor d p run S) (\<lambda>S'. Ret (with_log q es S'))"
  by (auto simp: call_functor_def cmd_at_def split: option.splits)

lemma call_functor_frame:
  "call_functor d p run S = Ret S' \<Longrightarrow> command_submitted_queue S' = command_submitted_queue S \<and> command_events S' = command_events S
     \<and> event_handler S' = event_handler S"
  by (auto simp: call_functor_def cmd_at_def put_cmd_def split: option.splits if_splits)

lemma run_step_log: "run_step i (with_log q es S) = map_state (with_log q es) (run_step i S)"
proof (cases "currentExecutingCommand S")
  case (Some r)
  define S0 where "S0 = S\<lparr>sb_stat := (sb_stat S)\<lparr>lastCmdStepStart := time_start i\<rparr>\<rparr>"
  show ?thesis
  proof (cases "call_functor ''Acquisition Handler'' (acquire_cmdInstance S) (acquire_run i) S0")
    case (Ret S1)
    then show ?thesis using Some
      by (cases "call_functor ''Correlation Handler'' (correlation_cmdInstance S1) (correlation_run i) S1")
        (simp_all add: run_step_def call_functor_log S0_def Let_def cmd_at_def split: option.splits)
  qed (use Some in \<open>simp_all add: run_step_def call_functor_log S0_def\<close>)
qed (simp add: run_step_def)

lemma record_step_sel [simp]:
  "command_submitted_queue (record_step i S) = command_submitted_queue S" "command_events (record_step i S) = command_events S"
  "event_handler (record_step i S) = event_handler S"
  by (simp_all add: record_step_def handleSandboxEvent_def Let_def)

lemma run_step_frame:
  assumes "run_step i S = Ret (pc, S')"
  shows "command_submitted_queue S' = command_submitted_queue S \<and> command_events S' = command_events S \<and> event_handler S' = event_handler S"
proof (cases "currentExecutingCommand S")
  case (Some r)
  define S0 where "S0 = S\<lparr>sb_stat := (sb_stat S)\<lparr>lastCmdStepStart := time_start i\<rparr>\<rparr>"
  obtain S1 where S1: "call_functor ''Acquisition Handler'' (acquire_cmdInstance S) (acquire_run i) S0 = Ret S1"
    using assms Some by (cases "call_functor ''Acquisition Handler'' (acquire_cmdInstance S) (acquire_run i) S0") (simp_all add: run_step_def S0_def)
  obtain S2 where S2: "call_functor ''Correlation Handler'' (correlation_cmdInstance S1) (correlation_run i) S1 = Ret S2"
    using assms Some S1 by (cases "call_functor ''Correlation Handler'' (correlation_cmdInstance S1) (correlation_run i) S1") (simp_all add: run_step_def S0_def)
  have "\<exists>c. S' = put_cmd r c (record_step i S2)"
    using assms Some S1 S2 by (auto simp: run_step_def Let_def S0_def cmd_at_def split: option.splits)
  then show ?thesis using call_functor_frame [OF S1] call_functor_frame [OF S2]
    by (auto simp: put_cmd_def S0_def)
qed (use assms in \<open>auto simp: run_step_def split: if_splits\<close>)

lemma idle_finish_commutes: "run_step i (idle_finish htop uid S) = map_state (idle_finish htop uid) (run_step i S)"
proof -
  define q where "q = remove1 (htop (command_submitted_queue S)) (command_submitted_queue S)"
  define es where "es = (if event_handler S then command_events S @ [(uid, EVT_RUNNING, None)] else command_events S)"
  have f: "idle_finish htop uid S' = with_log q es S'"
    if "command_submitted_queue S' = command_submitted_queue S \<and> command_events S' = command_events S \<and> event_handler S' = event_handler S" for S'
    using that by (auto simp: idle_finish_def pop_queue_def handleCommandEvent_def with_log_def q_def es_def)
  have "run_step i (idle_finish htop uid S) = map_state (with_log q es) (run_step i S)" using f [of S] run_step_log by simp
  also have "\<dots> = map_state (idle_finish htop uid) (run_step i S)"
  proof (cases "run_step i S")
    case (Ret x)
    then show ?thesis using f run_step_frame by (cases x) simp
  qed simp_all
  finally show ?thesis .
qed

end
