(* ===== verification/Batch_Behaviour.thy ===== *)
theory Batch_Behaviour
  imports Batch_Lifecycle
begin

unbundle bit_operations_syntax

text \<open>
  What the sandbox does with its commands: the loop of the checker, the decision it takes for the next
  command, the order of the events, and the three ways in which commands or threads get lost.
\<close>

section \<open>The loop of the checker\<close>

text \<open>At most \<open>n\<close> iterations of the loop in \<open>checkNextCommand\<close>; the result tells whether it is still running.\<close>

primrec checkNextCommand ::
  "(nat prio_elem list \<Rightarrow> nat prio_elem) \<Rightarrow> (nat \<Rightarrow> nat \<Rightarrow> u64) \<Rightarrow> (nat \<Rightarrow> nat \<Rightarrow> handler_run) \<Rightarrow> nat \<Rightarrow> sandbox \<Rightarrow> (bool \<times> sandbox) outcome" where
  "checkNextCommand htop now set_run 0 S = Ret (True, S)"
| "checkNextCommand htop now set_run (Suc n) S =
     obind (check_iteration htop (now n) (set_run n) S) (\<lambda>(w, S').
     if check_goes_on w S' then checkNextCommand htop now set_run n S' else Ret (False, S'))"

section \<open>Installing the next command\<close>

lemma install_returns:
  assumes "command_heap S r = Some c" and "implementedHandler c > 1" and "snd (set_run r) = Returns"
  shows "\<exists>c'. installHandler now set_run (Some r) S = Ret (True, started r c' S) \<and> unique_id c' = unique_id c"
proof -
  define c0 where "c0 = commandPre (now r) c"
  define c' where "c' = (if \<not> already_setupped c0 \<and> implementedHandler c0 AND HT_Set \<noteq> 0
      then (fold api_effect (fst (set_run r)) c0)\<lparr>already_setupped := True\<rparr> else c0)"
  have s: "setup_command (set_run r) c0 = (True, c')" by (simp add: setup_command_def run_handler_def Let_def assms(3) c'_def)
  have "same_identity c0 (fold api_effect (fst (set_run r)) c0)" using fold_api_same by blast
  then have id: "unique_id c' = unique_id c" "implementedHandler c' = implementedHandler c"
    by (auto simp: c'_def same_identity_def c0_def commandPre_def)
  have "installHandler now set_run (Some r) S = Ret (True, started r c' S)"
    using assms(1,2) s by (simp add: installHandler_def cmd_at_def c0_def [symmetric] Let_def started_def next_functor_def put_cmd_def id)
  then show ?thesis using id by blast
qed

lemma install_not_started:
  assumes "command_heap S r = Some c" and "implementedHandler c \<le> 1 \<or> \<not> already_setupped c \<and> implementedHandler c AND HT_Set \<noteq> 0 \<and> snd (set_run r) \<noteq> Returns"
  shows "\<exists>c'. installHandler now set_run (Some r) S = Ret (False, put_cmd r c' S)"
  using assms
  by (auto simp: installHandler_def cmd_at_def Let_def setup_command_def commandPre_def run_handler_def split: prod.splits bool.splits completion.splits)

lemma small_cases:
  fixes x :: u8
  shows "x < 4 \<Longrightarrow> x = 0 \<or> x = 1 \<or> x = 2 \<or> x = 3" "x < 3 \<Longrightarrow> x = 0 \<or> x = 1 \<or> x = 2"
  by unat_arith+

lemma word_facts [simp]: "\<not> (2 :: u8) \<le> 1" "\<not> (3 :: u8) \<le> 1" "\<not> (4 :: u8) \<le> 1" "\<not> (7 :: u8) \<le> 1" "(1 :: u8) < 7"
  by (simp_all add: word_le_nat_alt word_less_nat_alt)

lemma stack_result:
  assumes "sb_inv S" and "command_heap S next_cmd = Some n" and "implementedHandler n > 1" and "snd (set_run next_cmd) = Returns"
    and "command_heap S cur = Some c" and "cur \<noteq> next_cmd"
  shows "\<exists>S'. check_stack htop now set_run next_cmd cur S = Ret (Check_test_flag, S') \<and> currentExecutingCommand S' = Some next_cmd
    \<and> command_submitted_queue S' = command_submitted_queue (pop_queue htop S) \<and> commandStack S' = cur # commandStack S \<and> command_heap S' cur = Some c
    \<and> command_events S' = command_events S @ [(unique_id n, EVT_RUNNING, None), (unique_id c, EVT_PAUSED, None)]"
proof -
  have "command_heap (pop_queue htop S) next_cmd = Some n" using assms(2) by (simp add: pop_queue_def)
  from install_returns [where set_run = set_run and now = now, OF this assms(3,4)]
  obtain n' where i: "installHandler now set_run (Some next_cmd) (pop_queue htop S) = Ret (True, started next_cmd n' (pop_queue htop S))" "unique_id n' = unique_id n"
    by blast
  have "cmd_at cur (started next_cmd n' (pop_queue htop S)) = Ret c" using assms(5,6) by (simp add: cmd_at_def started_def put_cmd_def pop_queue_def)
  then show ?thesis using i inv_event_handler [OF assms(1)] assms(5,6)
    by (simp add: check_stack_def) (simp add: started_def put_cmd_def pop_queue_def handleCommandEvent_def)
qed

lemma replace_result:
  assumes "sb_inv S" and "command_heap S next_cmd = Some n" and "implementedHandler n > 1" and "snd (set_run next_cmd) = Returns"
    and "command_heap S cur = Some c" and "installed_ok c" and "cur \<noteq> next_cmd" and "sb_inv (pop_queue htop S)"
    and "ev = (if res = RSR_KILL_KURRENT_COMMAND then EVT_KILLED else if res = RSR_CURRENT_CMD_HAS_ENDED then EVT_COMPLETED else EVT_FAULT)"
  shows "\<exists>S'. check_replace htop now set_run res next_cmd cur S = Ret (Check_test_flag, S') \<and> currentExecutingCommand S' = Some next_cmd
    \<and> command_submitted_queue S' = command_submitted_queue (pop_queue htop S) \<and> commandStack S' = commandStack S \<and> command_heap S' cur = None
    \<and> command_events S' = command_events S @ [(unique_id n, EVT_RUNNING, None), (unique_id c, ev, if ev = EVT_FAULT then Some (fault_desc c) else None)]"
proof -
  define S1 where "S1 = without_functors cur (pop_queue htop S)"
  have h: "command_heap (pop_queue htop S) cur = Some c" "command_heap S1 next_cmd = Some n" using assms(2,5) by (simp_all add: pop_queue_def S1_def without_functors_def)
  have r: "removeHandler cur (pop_queue htop S) = Ret S1" using removeHandler_inv(1) [OF assms(8) h(1) assms(6)] by (simp add: S1_def)
  from install_returns [where set_run = set_run and now = now, OF h(2) assms(3,4)]
  obtain n' where i: "installHandler now set_run (Some next_cmd) S1 = Ret (True, started next_cmd n' S1)" "unique_id n' = unique_id n" by blast
  have "command_heap (started next_cmd n' S1) cur = Some c" using assms(5,7) by (simp add: started_def put_cmd_def pop_queue_def S1_def without_functors_def)
  then have "retire ev cur (started next_cmd n' S1)
      = Ret ((handleCommandEvent (unique_id c) ev (if ev = EVT_FAULT then Some (fault_desc c) else None) (started next_cmd n' S1))
          \<lparr>command_heap := (command_heap (started next_cmd n' S1))(cur := None)\<rparr>)"
    by (simp add: retire_def cmd_at_def delete_cmd_def)
  then show ?thesis using r i inv_event_handler [OF assms(1)]
    by (simp add: check_replace_def assms(9) [symmetric]) (simp add: started_def put_cmd_def pop_queue_def handleCommandEvent_def S1_def without_functors_def)
qed

section \<open>Properties\<close>

text \<open>A small history: a command starts, and a second one that kills it is submitted.\<close>

definition no_input :: step_input where
  "no_input = \<lparr>time_start = 0, time_end = 0, acquire_run = ([], Returns), correlation_run = ([], Returns), timeout_run = (([], Returns), False)\<rparr>"

abbreviation idle_sandbox :: sandbox where
  "idle_sandbox \<equiv> sandbox_start (sandbox_init True)"

definition first_command :: batch_command where
  "first_command = new_BatchCommand 1 7"

definition killing_command :: batch_command where
  "killing_command = (new_BatchCommand 2 7)\<lparr>submissionRule := SUBMIT_AND_Kill\<rparr>"

definition running_sandbox :: sandbox where
  "running_sandbox = idle_sandbox\<lparr>command_heap := [0 \<mapsto> first_command\<lparr>already_setupped := True\<rparr>], currentExecutingCommand := Some 0,
     acquire_cmdInstance := Some 0, correlation_cmdInstance := Some 0, command_events := [(1, EVT_QUEUED, None), (1, EVT_RUNNING, None)]\<rparr>"

definition stepped_sandbox :: sandbox where
  "stepped_sandbox = running_sandbox\<lparr>sandbox_events := [(EVT_RUN, 0)]\<rparr>"

definition challenged_sandbox :: sandbox where
  "challenged_sandbox = snd (enqueueCommand False 1 killing_command 50 stepped_sandbox)"

lemmas example_defs = running_sandbox_def stepped_sandbox_def challenged_sandbox_def first_command_def killing_command_def no_input_def
  new_BatchCommand_def sandbox_start_def sandbox_init_def zero_stat_def

lemma run_ok_nil: "\<forall>r :: nat. run_ok ([], Returns)" "input_ok no_input"
  by (simp_all add: run_ok_def input_ok_def no_input_def)

lemma first_command_starts:
  "check_iteration first_max (\<lambda>_. 0) (\<lambda>_. ([], Returns)) (snd (enqueueCommand False 0 first_command 50 idle_sandbox)) = Ret (Check_test_flag, running_sandbox)"
  by (simp add: example_defs enqueueCommand_def handleCommandEvent_def check_iteration_def check_idle_def installHandler_def cmd_at_def
      setup_command_def run_handler_def commandPre_def Let_def put_cmd_def pop_queue_def batch_consts)

lemma first_command_steps: "run_step no_input running_sandbox = Ret (Sched_unlocked 0, stepped_sandbox)"
  by (simp add: example_defs run_step_def call_functor_def cmd_at_def run_handler_def record_step_def handleSandboxEvent_def put_cmd_def
      commandPost_def Let_def batch_consts)

lemma running_reached: "sb_reach first_max (running_sandbox, Sched_locked)"
proof -
  have "sb_reach first_max (snd (enqueueCommand False 0 first_command 50 idle_sandbox), Sched_locked)"
    by (rule sb_reach.step [OF sb_reach.init sb_step.enqueue [where r = 0 and c = first_command and dead = False and prio = 50, OF _ _ _ prod.collapse [symmetric]]])
      (simp_all add: example_defs command_ok_def batch_consts)
  from sb_reach.step [OF this sb_step.check [OF run_ok_nil(1) first_command_starts]] show ?thesis .
qed

lemma challenged_reached: "sb_reach first_max (challenged_sandbox, Sched_unlocked 0)"
proof -
  from sb_reach.step [OF running_reached sb_step.run [OF run_ok_nil(2) first_command_steps]]
  have "sb_reach first_max (stepped_sandbox, Sched_unlocked 0)" .
  from sb_reach.step [OF this sb_step.enqueue [where r = 1 and c = killing_command and dead = False and prio = 50, OF _ _ _ prod.collapse [symmetric]]]
  show ?thesis by (simp add: challenged_sandbox_def) (simp add: example_defs command_ok_def batch_consts)
qed



text \<open>
  C10. The events of a command come in a legal order: queued, then running, paused and running again any
  number of times, and at most once completed, faulted or killed, with nothing after that. At every
  moment the last of them tells where the command is: it is running exactly if the command is the current
  one, paused exactly if it is on the stack, queued if it is in the queue of submitted commands; an
  identifier without a live command has no event yet or has reported its end. A command that is reported
  as queued is in that queue, with one exception: the commands an idle sandbox takes off its queue and
  cannot start (no further handler, or a set handler that threw) stay reported as queued.
\<close>

theorem command_events_legal:
  assumes "heap_top htop" and "sb_reach htop (S, pc)"
  shows "life u S \<noteq> L_bad
    \<and> (\<forall>r c. command_heap S r = Some c \<longrightarrow>
         (life (unique_id c) S = L_running \<longleftrightarrow> currentExecutingCommand S = Some r)
       \<and> (life (unique_id c) S = L_paused \<longleftrightarrow> r \<in> set (commandStack S))
       \<and> (r \<in> element ` set (command_submitted_queue S) \<longrightarrow> life (unique_id c) S = L_queued)
       \<and> (life (unique_id c) S = L_queued \<longrightarrow>
            r \<in> element ` set (command_submitted_queue S) \<or> implementedHandler c \<le> 1 \<or> runningProperty c = RP_Fault)
       \<and> life (unique_id c) S \<in> {L_queued, L_running, L_paused})
    \<and> ((\<forall>r c. command_heap S r = Some c \<longrightarrow> unique_id c \<noteq> u) \<longrightarrow> life u S \<in> {L_new, L_done})"
proof -
  have inv: "inv_life S" using sb_reach_inv [OF assms(2,1)] by (simp add: sb_inv_def)
  have "life u S \<noteq> L_bad"
  proof (cases "live_id u S")
    case True
    then obtain r c where "command_heap S r = Some c" "unique_id c = u" by (auto simp: live_id_def)
    then have "life u S = place S r" using inv by (auto simp: inv_life_def)
    then show ?thesis by (simp add: place_def)
  next
    case False
    then show ?thesis using inv by (auto simp: inv_life_def)
  qed
  moreover have "(\<forall>r c. command_heap S r = Some c \<longrightarrow> unique_id c \<noteq> u) \<longrightarrow> life u S \<in> {L_new, L_done}"
    using inv by (auto simp: inv_life_def live_id_def)
  ultimately show ?thesis
    using life_is_place [OF assms(2,1)] unfolding queued_def refused_def set_map by blast
qed

theorem command_events_legal_witness:
  "life 1 challenged_sandbox = L_running \<and> currentExecutingCommand challenged_sandbox = Some 0
    \<and> life 2 challenged_sandbox = L_queued \<and> 1 \<in> element ` set (command_submitted_queue challenged_sandbox)
    \<and> life 3 challenged_sandbox \<in> {L_new, L_done}"
proof -
  have h: "command_heap challenged_sandbox = [0 \<mapsto> first_command\<lparr>already_setupped := True\<rparr>, 1 \<mapsto> killing_command]"
    "currentExecutingCommand challenged_sandbox = Some 0" "1 \<in> element ` set (command_submitted_queue challenged_sandbox)"
    "unique_id (first_command\<lparr>already_setupped := True\<rparr>) = 1" "unique_id killing_command = 2"
    by (simp_all add: example_defs enqueueCommand_def)
  note legal = command_events_legal [OF fm.heap_top_axioms challenged_reached, of 3]
  have no3: "\<forall>r c. command_heap challenged_sandbox r = Some c \<longrightarrow> unique_id c \<noteq> 3" using h by (auto split: if_splits)
  have "life (unique_id (first_command\<lparr>already_setupped := True\<rparr>)) challenged_sandbox = L_running"
    using legal h(1,2) by (metis fun_upd_apply zero_neq_one)
  moreover have "life (unique_id killing_command) challenged_sandbox = L_queued"
    using legal h(1,3) by (metis fun_upd_same)
  moreover have "life 3 challenged_sandbox \<in> {L_new, L_done}" using legal no3 by blast
  ultimately show ?thesis using h by simp
qed

text \<open>
  C16. The checker decides by the table: while a command with exclusive property runs, or a normal one
  meets a command submitted with the normal rule, nothing changes. Otherwise the next command of highest
  priority, if its set handler returns, becomes the current one; a normal command is stacked or killed
  as the rule of the next one says, and one that ended or faulted is reported and freed.
\<close>

theorem checker_decides:
  assumes "heap_top htop" and "sb_reach htop (S, pc)" and "command_submitted_queue S \<noteq> []"
    and "currentExecutingCommand S = Some cur" and "command_heap S cur = Some c"
    and "next_cmd = element (htop (command_submitted_queue S))" and "command_heap S next_cmd = Some n"
    and "implementedHandler n > 1" and "snd (set_run next_cmd) = Returns"
  shows "\<exists>w S'. check_iteration htop now set_run S = Ret (w, S') \<and>
    (if runningProperty c = RP_Exsc \<and> submissionRule n \<noteq> SUBMIT_NORMAL then w = Check_timed_wait_loop (featureSubmissionRetryDelay (commandFeatures n)) \<and> S' = S
     else if runningProperty c \<le> RP_Normal \<and> submissionRule n = SUBMIT_NORMAL then w = Check_wait_loop \<and> S' = S
     else w = Check_test_flag \<and> currentExecutingCommand S' = Some next_cmd \<and> command_submitted_queue S' = command_submitted_queue (pop_queue htop S)
       \<and> (if runningProperty c = RP_Normal \<and> submissionRule n = SUBMIT_AND_Stack
          then commandStack S' = cur # commandStack S \<and> command_heap S' cur = Some c
            \<and> command_events S' = command_events S @ [(unique_id n, EVT_RUNNING, None), (unique_id c, EVT_PAUSED, None)]
          else commandStack S' = commandStack S \<and> command_heap S' cur = None
            \<and> command_events S' = command_events S @ [(unique_id n, EVT_RUNNING, None),
                (if runningProperty c = RP_Normal then (unique_id c, EVT_KILLED, None)
                 else if runningProperty c = RP_End then (unique_id c, EVT_COMPLETED, None) else (unique_id c, EVT_FAULT, Some (fault_desc c)))]))"
proof -
  have inv: "sb_inv S" using sb_reach_inv [OF assms(2,1)] by simp
  note pop = popped [OF assms(1) inv assms(3), folded assms(6), OF assms(7)]
  have ok: "command_ok c" "command_ok n" "event_handler S" "installed_ok c"
    using inv_command_ok [OF inv] inv_current [OF inv assms(4)] inv_event_handler [OF inv] assms(5,7) by auto
  have p: "runningProperty c = 0 \<or> runningProperty c = 1 \<or> runningProperty c = 2 \<or> runningProperty c = 3"
    "submissionRule n = 0 \<or> submissionRule n = 1 \<or> submissionRule n = 2"
    using small_cases ok(1,2) by (simp_all add: command_ok_def)
  have ne: "cur \<noteq> next_cmd" using pop(2) assms(4) by (auto simp: free_cmd_def holders_def pop_queue_def)
  note stack = stack_result [where now = now and htop = htop and set_run = set_run, OF inv assms(7-9,5) ne]
    and replace = replace_result [where now = now and htop = htop and set_run = set_run, OF inv assms(7-9,5) ok(4) ne pop(1) HOL.refl]
  have it: "check_iteration htop now set_run S = obind (running_vs_submition (runningProperty c) (submissionRule n)) (\<lambda>res.
      case res of RSR_NO_CHANGE \<Rightarrow> Ret (Check_wait_loop, S)
      | RSR_TIMED_RETRY \<Rightarrow> Ret (Check_timed_wait_loop (featureSubmissionRetryDelay (commandFeatures n)), S)
      | RSR_STACK_CURENT_COMMAND \<Rightarrow> check_stack htop now set_run next_cmd cur S
      | _ \<Rightarrow> check_replace htop now set_run res next_cmd cur S)"
    using assms(3-5,7,8) by (simp add: check_iteration_def Let_def cmd_at_def assms(6) [symmetric] not_le [symmetric])
  show ?thesis
    using p stack replace [of RSR_KILL_KURRENT_COMMAND] replace [of RSR_CURRENT_CMD_HAS_ENDED] replace [of RSR_CURRENT_CMD_HAS_FAULTED]
    unfolding it by (elim disjE; simp add: running_vs_submition_def batch_consts)
qed

lemma challenged_facts:
  "command_submitted_queue challenged_sandbox = [\<lparr>element = 1, priority = 50, disposeOnDestroy = True\<rparr>]" "currentExecutingCommand challenged_sandbox = Some 0"
  "command_heap challenged_sandbox 0 = Some (first_command\<lparr>already_setupped := True\<rparr>)" "command_heap challenged_sandbox 1 = Some killing_command"
  "implementedHandler killing_command > 1" "installed_ok (first_command\<lparr>already_setupped := True\<rparr>)"
  by (simp_all add: example_defs enqueueCommand_def handleCommandEvent_def installed_ok_def)

theorem checker_decides_witness:
  "\<exists>S'. check_iteration first_max (\<lambda>_. 0) (\<lambda>_. ([], Returns)) challenged_sandbox = Ret (Check_test_flag, S')
    \<and> currentExecutingCommand S' = Some 1 \<and> command_heap S' 0 = None"
proof -
  have p: "runningProperty (first_command\<lparr>already_setupped := True\<rparr>) = RP_Normal" "submissionRule killing_command = SUBMIT_AND_Kill"
    "SUBMIT_AND_Kill \<noteq> SUBMIT_NORMAL" "SUBMIT_AND_Kill \<noteq> SUBMIT_AND_Stack" "RP_Normal \<noteq> RP_Exsc"
    by (simp_all add: first_command_def killing_command_def new_BatchCommand_def batch_consts)
  have "snd ((\<lambda>_. ([], Returns)) (1 :: nat)) = Returns" by simp
  from checker_decides [where set_run = "\<lambda>_. ([], Returns)" and now = "\<lambda>_. 0", OF fm.heap_top_axioms challenged_reached _ challenged_facts(2,3) _ challenged_facts(4,5) this]
  show ?thesis unfolding p using p(3-5) challenged_facts(1) by auto
qed

text \<open>
  C36. The scheduler can read a freed command: it releases the lock after a step and then looks at the
  command it ran, which the checker may have killed and deleted in between.
\<close>

theorem scheduler_use_after_free:
  "\<exists>S r. sb_reach first_max (S, Sched_unlocked r) \<and> run_after r S = Fault"
proof -
  note q = challenged_facts(1-4) and m = challenged_facts(5,6)
  have inv: "sb_inv challenged_sandbox" using sb_reach_inv [OF challenged_reached fm.heap_top_axioms] by simp
  have pop: "sb_inv (pop_queue first_max challenged_sandbox)"
    using popped(1) [OF fm.heap_top_axioms inv] q by simp
  obtain S' where S': "check_replace first_max (\<lambda>_. 0) (\<lambda>_. ([], Returns)) RSR_KILL_KURRENT_COMMAND 1 0 challenged_sandbox = Ret (Check_test_flag, S')" "command_heap S' 0 = None"
    using replace_result [where set_run = "\<lambda>_. ([], Returns)" and now = "\<lambda>_. 0", OF inv q(4) m(1) _ q(3) m(2) _ pop HOL.refl, of RSR_KILL_KURRENT_COMMAND] by auto
  have "check_iteration first_max (\<lambda>_. 0) (\<lambda>_. ([], Returns)) challenged_sandbox = Ret (Check_test_flag, S')"
    using q S'(1) by (simp add: check_iteration_def cmd_at_def running_vs_submition_def)
      (simp add: killing_command_def first_command_def new_BatchCommand_def batch_consts running_vs_submition_def)
  from sb_reach.step [OF challenged_reached sb_step.check [OF run_ok_nil(1) this]] S'(2)
  show ?thesis by (intro exI [of _ S'] exI [of _ 0]) (simp add: run_after_def cmd_at_def)
qed

text \<open>
  A command submitted to an idle sandbox is lost when its set handler throws or it has no other
  handler: it is taken off the queue, stays allocated, is in none of the containers of the sandbox, and
  no event reports its end. With a command running the same submission would be reported and freed.
\<close>

theorem idle_submission_lost:
  assumes "heap_top htop" and "sb_reach htop (S, pc)" and "currentExecutingCommand S = None" and "command_submitted_queue S \<noteq> []"
    and "r = element (htop (command_submitted_queue S))" and "command_heap S r = Some c"
    and "implementedHandler c \<le> 1 \<or> \<not> already_setupped c \<and> implementedHandler c AND HT_Set \<noteq> 0 \<and> snd (set_run r) \<noteq> Returns"
  shows "\<exists>S'. check_iteration htop now set_run S = Ret (Check_test_flag, S') \<and> command_heap S' r \<noteq> None \<and> command_events S' = command_events S
    \<and> currentExecutingCommand S' \<noteq> Some r \<and> r \<notin> set (commandStack S') \<and> r \<notin> element ` set (command_submitted_queue S')"
proof -
  have inv: "sb_inv S" using sb_reach_inv [OF assms(2,1)] by simp
  note qf = queue_facts [OF assms(1) inv assms(4), folded assms(5)]
  obtain c' where "installHandler now set_run (Some r) S = Ret (False, put_cmd r c' S)" using install_not_started [where set_run = set_run and now = now, OF assms(6,7)] by blast
  then have "check_iteration htop now set_run S = Ret (Check_test_flag, pop_queue htop (put_cmd r c' S))"
    using assms(3-5) by (simp add: check_iteration_def Let_def check_idle_def)
  then show ?thesis using qf(3,4) assms(3) by (simp add: pop_queue_def put_cmd_def holders_def)
qed

definition failing_sandbox :: sandbox where
  "failing_sandbox = snd (enqueueCommand False 0 first_command 50 idle_sandbox)"

theorem idle_submission_lost_witness:
  "\<exists>S'. check_iteration first_max (\<lambda>_. 0) (\<lambda>_. ([], Throws_other)) failing_sandbox = Ret (Check_test_flag, S')
    \<and> command_heap S' 0 \<noteq> None \<and> command_events S' = [(1, EVT_QUEUED, None)]"
proof -
  have "sb_reach first_max (failing_sandbox, Sched_locked)" unfolding failing_sandbox_def
    by (rule sb_reach.step [OF sb_reach.init sb_step.enqueue [where r = 0 and c = first_command and dead = False and prio = 50, OF _ _ _ prod.collapse [symmetric]]])
      (simp_all add: example_defs command_ok_def batch_consts)
  from idle_submission_lost [OF fm.heap_top_axioms this, of 0 first_command "\<lambda>_. ([], Throws_other)" "\<lambda>_. 0"]
  show ?thesis by (simp add: failing_sandbox_def example_defs enqueueCommand_def handleCommandEvent_def batch_consts) blast
qed

text \<open>
  C35. Stopping: once \<open>stop\<close> has cleared the flag, the checker leaves its loop in the next iteration if
  nothing is queued. If a command with the normal rule waits behind one that runs normally, the loop never
  tests the flag: the scheduler leaves, the checker goes on for ever, and \<open>stop\<close>, which waits for it,
  does not return.
\<close>

theorem stop_waits_for_checker:
  assumes "heap_top htop" and "sb_reach htop (S0, pc)" and "S = sandbox_stop S0" and "\<forall>k r. run_ok (set_run k r)"
    and "currentExecutingCommand S = Some cur" and "command_heap S cur = Some c" and "runningProperty c = RP_Normal"
    and "command_submitted_queue S \<noteq> [] \<longrightarrow> (\<exists>n. command_heap S (element (htop (command_submitted_queue S))) = Some n
      \<and> implementedHandler n > 1 \<and> submissionRule n = SUBMIT_NORMAL)"
  shows "if command_submitted_queue S = [] then checkNextCommand htop now set_run (Suc k) S = Ret (False, S)
    else checkNextCommand htop now set_run k S = Ret (True, S) \<and> run_after cur S = Ret (Sched_exited, Some 0)"
proof (cases "command_submitted_queue S = []")
  case True
  then show ?thesis using assms(3,5-7) by (simp add: check_iteration_def check_ended_def cmd_at_def batch_consts check_goes_on_def sandbox_stop_def)
next
  case False
  then obtain n where n: "command_heap S (element (htop (command_submitted_queue S))) = Some n" "implementedHandler n > 1" "submissionRule n = SUBMIT_NORMAL"
    using assms(8) by blast
  have "check_iteration htop t w S = Ret (Check_wait_loop, S)" for t w
    using False n assms(5-7) by (simp add: check_iteration_def Let_def cmd_at_def not_le [symmetric] running_vs_submition_def batch_consts)
  then have "checkNextCommand htop now set_run k S = Ret (True, S)"
    by (induction k) (simp_all add: check_goes_on_def)
  then show ?thesis using False assms(3,6,7) by (simp add: run_after_def cmd_at_def sandbox_stop_def batch_consts)
qed

definition waiting_sandbox :: sandbox where
  "waiting_sandbox = snd (enqueueCommand False 1 (new_BatchCommand 2 7) 50 running_sandbox)"

theorem stop_waits_for_checker_witness:
  "\<forall>k. checkNextCommand first_max (\<lambda>_ _. 0) (\<lambda>_ _. ([], Returns)) k (sandbox_stop waiting_sandbox) = Ret (True, sandbox_stop waiting_sandbox)"
proof
  fix k
  have r: "sb_reach first_max (waiting_sandbox, Sched_locked)" unfolding waiting_sandbox_def
    by (rule sb_reach.step [OF running_reached sb_step.enqueue [where r = 1 and c = "new_BatchCommand 2 7" and dead = False and prio = 50, OF _ _ _ prod.collapse [symmetric]]])
      (simp_all add: example_defs command_ok_def batch_consts)
  show "checkNextCommand first_max (\<lambda>_ _. 0) (\<lambda>_ _. ([], Returns)) k (sandbox_stop waiting_sandbox) = Ret (True, sandbox_stop waiting_sandbox)"
    using stop_waits_for_checker [OF fm.heap_top_axioms r HOL.refl, of "\<lambda>_ _. ([], Returns)" 0 "first_command\<lparr>already_setupped := True\<rparr>" "\<lambda>_ _. 0" k]
    by (simp add: waiting_sandbox_def sandbox_stop_def example_defs enqueueCommand_def handleCommandEvent_def batch_consts run_ok_def)
qed

end
