(* ===== verification/Batch_Executor.thy ===== *)
theory Batch_Executor
  imports Batch_Behaviour
begin

unbundle bit_operations_syntax

text \<open>
  The executor of a control unit (\<open>batch_command/BatchCommandExecutor.h\<close> and \<open>BatchCommandExecutor.cpp\<close>):
  it numbers the commands, makes their instances, hands them to its sandboxes, and keeps the history of
  their states, which it updates from the events of the sandboxes. The values of a submission and of an
  RPC call are read from a \<open>CDataWrapper\<close>, which is a parameter: a missing key is \<open>None\<close>.
\<close>

section \<open>The history\<close>

text \<open>
  A state is shared by the queue, which keeps the order of insertion, and by the map, which finds it by
  its number. A shared pointer is the number of its object in \<open>cs_objects\<close>.
\<close>

record command_state =
  cs_command_id :: u64
  cs_last_event :: command_event
  cs_fault_description :: fault_description

record history =
  command_state_queue :: "nat list"
  command_state_fast_access_map :: "u64 \<Rightarrow> nat option"
  cs_objects :: "nat \<Rightarrow> command_state"

definition COMMAND_STATE_QUEUE_DEFAULT_SIZE :: u16 where "COMMAND_STATE_QUEUE_DEFAULT_SIZE = 50"

definition no_fault :: fault_description where
  "no_fault = \<lparr>fd_source = '''', fd_code = 0, fd_description = '''', fd_domain = ''''\<rparr>"

definition new_history :: history where
  "new_history = \<lparr>command_state_queue = [], command_state_fast_access_map = (\<lambda>_. None),
     cs_objects = (\<lambda>_. \<lparr>cs_command_id = 0, cs_last_event = EVT_QUEUED, cs_fault_description = no_fault\<rparr>)\<rparr>"

text \<open>\<open>std::map::insert\<close> keeps an entry that is there. The new object gets an address \<open>a\<close> not in use.\<close>

definition addComamndState :: "nat \<Rightarrow> u64 \<Rightarrow> history \<Rightarrow> history" where
  "addComamndState a command_id H =
     H\<lparr>cs_objects := (cs_objects H)(a := \<lparr>cs_command_id = command_id, cs_last_event = EVT_QUEUED, cs_fault_description = no_fault\<rparr>),
       command_state_queue := command_state_queue H @ [a],
       command_state_fast_access_map := (case command_state_fast_access_map H command_id of
          None \<Rightarrow> (command_state_fast_access_map H)(command_id := Some a) | Some _ \<Rightarrow> command_state_fast_access_map H)\<rparr>"

definition getCommandState :: "u64 \<Rightarrow> history \<Rightarrow> nat option" where
  "getCommandState command_sequence H = command_state_fast_access_map H command_sequence"

text \<open>A fault event without a description would be read through a null pointer.\<close>

definition executor_handleCommandEvent :: "nat \<Rightarrow> u64 \<Rightarrow> command_event \<Rightarrow> fault_description option \<Rightarrow> history \<Rightarrow> history outcome" where
  "executor_handleCommandEvent a command_id ev fd H =
     (case ev of
        EVT_QUEUED \<Rightarrow> Ret (addComamndState a command_id H)
      | EVT_FAULT \<Rightarrow>
          (case getCommandState command_id H of
             None \<Rightarrow> Ret H
           | Some s \<Rightarrow>
               (case fd of
                  None \<Rightarrow> Fault
                | Some d \<Rightarrow> Ret (H\<lparr>cs_objects := (cs_objects H)(s := (cs_objects H s)\<lparr>cs_last_event := ev, cs_fault_description := d\<rparr>)\<rparr>)))
      | _ \<Rightarrow>
          (case getCommandState command_id H of
             None \<Rightarrow> Ret H
           | Some s \<Rightarrow> Ret (H\<lparr>cs_objects := (cs_objects H)(s := (cs_objects H s)\<lparr>cs_last_event := ev\<rparr>)\<rparr>)))"

text \<open>
  The loop of \<open>capCommanaQueue\<close> takes states from the front until enough ended ones are gone; those of
  live commands are set aside and pushed back to the front, which reverses their order. \<open>idx\<close> is a
  \<open>size_t\<close>.
\<close>

definition state_ended :: "history \<Rightarrow> nat \<Rightarrow> bool" where
  "state_ended H s \<longleftrightarrow> \<not> command_event_code (cs_last_event (cs_objects H s)) < command_event_code EVT_COMPLETED"

fun cap_loop :: "history \<Rightarrow> u64 \<Rightarrow> u64 \<Rightarrow> nat list \<Rightarrow> nat list \<Rightarrow> (u64 \<Rightarrow> nat option) \<Rightarrow> nat list \<times> nat list \<times> (u64 \<Rightarrow> nat option)" where
  "cap_loop H max_size idx [] reinsert m = ([], reinsert, m)"
| "cap_loop H max_size idx (s # q) reinsert m =
     (if idx < max_size then (s # q, reinsert, m)
      else if \<not> state_ended H s then cap_loop H max_size idx q (reinsert @ [s]) m
      else cap_loop H max_size (idx - 1) q reinsert (m(cs_command_id (cs_objects H s) := None)))"

definition capCommanaQueue :: "u16 \<Rightarrow> history \<Rightarrow> history" where
  "capCommanaQueue max_size H =
     (if length (command_state_queue H) \<le> unat max_size then H
      else case cap_loop H (ucast max_size) (of_nat (length (command_state_queue H)) - 1) (command_state_queue H) [] (command_state_fast_access_map H) of
             (q, reinsert, m) \<Rightarrow> H\<lparr>command_state_queue := fold (#) reinsert q, command_state_fast_access_map := m\<rparr>)"

text \<open>\<open>flushCommandStates\<close> goes from the back, up to the first state of a live command.\<close>

fun flush_loop :: "history \<Rightarrow> nat list \<Rightarrow> (u64 \<Rightarrow> nat option) \<Rightarrow> nat list \<times> (u64 \<Rightarrow> nat option)" where
  "flush_loop H [] m = ([], m)"
| "flush_loop H (s # rq) m =
     (if \<not> state_ended H s then (s # rq, m) else flush_loop H rq (m(cs_command_id (cs_objects H s) := None)))"

definition flushCommandStates :: "history \<Rightarrow> history" where
  "flushCommandStates H =
     (case flush_loop H (rev (command_state_queue H)) (command_state_fast_access_map H) of
        (rq, m) \<Rightarrow> H\<lparr>command_state_queue := rev rq, command_state_fast_access_map := m\<rparr>)"

text \<open>The RPC action: the last event and, after a fault, its description.\<close>

definition getCommandState_rpc :: "u64 \<Rightarrow> history \<Rightarrow> (nat \<times> (int \<times> string \<times> string) option) outcome" where
  "getCommandState_rpc command_id H =
     (case getCommandState command_id H of
        None \<Rightarrow> Throw (CException 1 ''The command requested is not present'' ''BatchCommandExecutor::getCommandSandboxStatistics'')
      | Some s \<Rightarrow>
          let st = cs_objects H s; fd = cs_fault_description st in
          Ret (command_event_code (cs_last_event st),
               if cs_last_event st = EVT_FAULT then Some (fd_code fd, fd_description fd, fd_domain fd) else None))"

section \<open>Submission\<close>

record submission =
  sub_alias :: string
  sub_rule :: "u32 option"
  sub_step_interval :: "u64 option"
  sub_retry_delay :: "u32 option"
  sub_channel :: "u32 option"
  sub_priority :: "u32 option"

record executor =
  command_sequence_id :: u64
  default_command_alias :: string
  default_command_sandbox_instance :: u32
  sandbox_map :: "u32 \<Rightarrow> sandbox option"
  sandbox_count :: nat
  mapCommandInstancer :: "string \<Rightarrow> batch_command option option"

text \<open>
  \<open>instanceCommandInfo\<close>: an alias without instancer, or an instancer that returns null, gives no command.
  The submission rule is cut to eight bits.
\<close>

definition instanceCommandInfo_alias :: "string \<Rightarrow> executor \<Rightarrow> batch_command option" where
  "instanceCommandInfo_alias alias E = (case mapCommandInstancer E alias of None \<Rightarrow> None | Some c \<Rightarrow> c)"

definition instanceCommandInfo :: "submission \<Rightarrow> u64 \<Rightarrow> executor \<Rightarrow> batch_command option" where
  "instanceCommandInfo d command_id E =
     map_option (\<lambda>c.
       let c = setCommandAlias (sub_alias d) c;
           c = c\<lparr>submissionRule := (case sub_rule d of Some r \<Rightarrow> ucast r | None \<Rightarrow> SUBMIT_NORMAL)\<rparr>;
           c = (case sub_step_interval d of
                  None \<Rightarrow> c
                | Some v \<Rightarrow> c\<lparr>commandFeatures := (commandFeatures c)\<lparr>featuresFlag := featuresFlag (commandFeatures c) OR feature_code FF_SET_SCHEDULER_DELAY, featureSchedulerStepsDelay := v\<rparr>\<rparr>);
           c = (case sub_retry_delay d of
                  None \<Rightarrow> c
                | Some v \<Rightarrow> c\<lparr>commandFeatures := (commandFeatures c)\<lparr>featuresFlag := featuresFlag (commandFeatures c) OR feature_code FF_SET_SUBMISSION_RETRY, featureSubmissionRetryDelay := v\<rparr>\<rparr>)
       in c\<lparr>unique_id := command_id\<rparr>)
     (instanceCommandInfo_alias (sub_alias d) E)"

definition addNewSandboxInstance :: "executor \<Rightarrow> executor" where
  "addNewSandboxInstance E =
     E\<lparr>sandbox_map := (sandbox_map E)(of_nat (sandbox_count E) + 1 := Some (sandbox_init True)), sandbox_count := sandbox_count E + 1\<rparr>"

definition addSandboxInstance :: "nat \<Rightarrow> executor \<Rightarrow> executor" where
  "addSandboxInstance sandbox_number E = (addNewSandboxInstance ^^ sandbox_number) E"

definition installCommand :: "string \<Rightarrow> batch_command option \<Rightarrow> executor \<Rightarrow> executor" where
  "installCommand alias instancer E =
     (case mapCommandInstancer E alias of None \<Rightarrow> E\<lparr>mapCommandInstancer := (mapCommandInstancer E)(alias := Some instancer)\<rparr> | Some _ \<Rightarrow> E)"

definition setDefaultCommand :: "bool \<Rightarrow> string \<Rightarrow> u32 \<Rightarrow> executor \<Rightarrow> executor outcome" where
  "setDefaultCommand started_state alias sandbox_instance E =
     (if started_state then Throw (CException 1 ''The command infrastructure is in running state'' ''BatchCommandExecutor::setDefaultCommand'')
      else Ret (E\<lparr>default_command_alias := alias, default_command_sandbox_instance := (if sandbox_instance < 1 then 1 else sandbox_instance)\<rparr>))"

text \<open>
  The end of \<open>init\<close> submits the default command, if one is set, with no test that its instancer is known and
  its sandbox exists.
\<close>

definition init_default_command :: "nat \<Rightarrow> executor \<Rightarrow> executor outcome" where
  "init_default_command r E =
     (if default_command_alias E = '''' then Ret E
      else case instanceCommandInfo_alias (default_command_alias E) E of
             None \<Rightarrow> Fault
           | Some c \<Rightarrow>
               case sandbox_map E (default_command_sandbox_instance E) of
                 None \<Rightarrow> Fault
               | Some S \<Rightarrow>
                   let command_id = command_sequence_id E + 1 in
                   Ret (E\<lparr>command_sequence_id := command_id,
                          sandbox_map := (sandbox_map E)(default_command_sandbox_instance E := Some (snd (enqueueCommand False r (c\<lparr>unique_id := command_id\<rparr>) 50 S)))\<rparr>))"

text \<open>\<open>submitCommand\<close>; \<open>r\<close> is the address of the new command.\<close>

definition submitCommand :: "bool \<Rightarrow> nat \<Rightarrow> submission option \<Rightarrow> executor \<Rightarrow> u64 outcome \<times> executor" where
  "submitCommand started_state r commandDescription E =
     (case commandDescription of
        None \<Rightarrow> (Throw (CException (- 1) ''Invalid parameter'' ''BatchCommandExecutor::setCommandFeatures''), E)
      | Some d \<Rightarrow>
          if \<not> started_state then (Throw (CException (- 2) ''Slow command executor is not started'' ''BatchCommandExecutor::submitCommand''), E)
          else
            let channel = (case sub_channel d of None \<Rightarrow> 1 | Some ch \<Rightarrow> ch) in
            case sandbox_map E channel of
              None \<Rightarrow> (Throw (CException (- 3) ''Execution channel not found'' ''BatchCommandExecutor::submitCommand''), E)
            | Some S \<Rightarrow>
                let prio = (case sub_priority d of None \<Rightarrow> 50 | Some p \<Rightarrow> p);
                    command_id = command_sequence_id E + 1;
                    E = E\<lparr>command_sequence_id := command_id\<rparr> in
                case instanceCommandInfo d command_id E of
                  None \<Rightarrow> (Throw (CException (- 4) ''Command instantiation failed'' ''BatchCommandExecutor::submitCommand''), E)
                | Some c \<Rightarrow> (Ret command_id, E\<lparr>sandbox_map := (sandbox_map E)(channel := Some (snd (enqueueCommand False r c prio S)))\<rparr>))"

section \<open>Capping\<close>

lemma cap_loop_spec:
  assumes "cap_loop H mx idx q re m = (q', re', m')"
  shows "\<exists>p. q = p @ q' \<and> re' = re @ filter (\<lambda>s. \<not> state_ended H s) p
    \<and> m' = (\<lambda>u. if u \<in> (\<lambda>s. cs_command_id (cs_objects H s)) ` set (filter (state_ended H) p) then None else m u)"
  using assms
proof (induction H mx idx q re m rule: cap_loop.induct)
  case (2 H mx idx s q re m)
  show ?case
  proof (cases "idx < mx")
    case True
    then show ?thesis using 2(3) by auto
  next
    case idx: False
    show ?thesis
    proof (cases "state_ended H s")
      case False
      then obtain p where "q = p @ q'" "re' = (re @ [s]) @ filter (\<lambda>s. \<not> state_ended H s) p"
          "m' = (\<lambda>u. if u \<in> (\<lambda>s. cs_command_id (cs_objects H s)) ` set (filter (state_ended H) p) then None else m u)"
        using 2(1) 2(3) idx by auto
      then show ?thesis using False by (intro exI [of _ "s # p"]) simp
    next
      case True
      then have "cap_loop H mx (idx - 1) q re (m(cs_command_id (cs_objects H s) := None)) = (q', re', m')" using 2(3) idx by simp
      then obtain p where "q = p @ q'" "re' = re @ filter (\<lambda>s. \<not> state_ended H s) p"
          "m' = (\<lambda>u. if u \<in> (\<lambda>s. cs_command_id (cs_objects H s)) ` set (filter (state_ended H) p) then None else (m(cs_command_id (cs_objects H s) := None)) u)"
        using 2(2) idx True by blast
      then show ?thesis using True by (intro exI [of _ "s # p"]) (auto simp: fun_eq_iff)
    qed
  qed
qed simp

text \<open>How many go: the loop removes exactly as many ended states as the queue is too long, if there are that many.\<close>

lemma cap_loop_count:
  assumes "cap_loop H mx idx q re m = (q', re', m')" and "0 < mx" and "n = unat idx + 1 - unat mx"
  shows "length (filter (state_ended H) (take (length q - length q') q)) = min n (length (filter (state_ended H) q))"
  using assms
proof (induction H mx idx q re m arbitrary: n rule: cap_loop.induct)
  case (2 H mx idx s q re m)
  have len: "length q' \<le> length q \<or> q' = s # q"
    using cap_loop_spec [OF 2(3)] by (metis Cons_eq_append_conv le_add2 length_append)
  show ?case
  proof (cases "idx < mx")
    case True
    then show ?thesis using 2(3-) by (auto simp: word_less_nat_alt)
  next
    case idx: False
    then have i: "unat mx \<le> unat idx" "0 < unat mx" using 2(4) by (simp_all add: word_less_nat_alt)
    show ?thesis
    proof (cases "state_ended H s")
      case False
      then have r: "cap_loop H mx idx q (re @ [s]) m = (q', re', m')" using 2(3) idx by simp
      then have "length q' \<le> length q" using cap_loop_spec by fastforce
      then show ?thesis using 2(1) [OF idx _ r 2(4,5)] False by (simp add: Suc_diff_le)
    next
      case True
      then have r: "cap_loop H mx (idx - 1) q re (m(cs_command_id (cs_objects H s) := None)) = (q', re', m')" using 2(3) idx by simp
      then have l: "length q' \<le> length q" using cap_loop_spec by fastforce
      have u: "unat (idx - 1) = unat idx - 1" using i by (intro unat_minus_one) auto
      have "length (filter (state_ended H) (take (length q - length q') q)) = min (n - 1) (length (filter (state_ended H) q))"
        using 2(2) [OF idx _ r 2(4), of "n - 1"] True u i 2(5) by simp
      then show ?thesis using True l i 2(5) by (simp add: Suc_diff_le)
    qed
  qed
qed simp

section \<open>The history follows the events\<close>

type_synonym event_log = "(u64 \<times> command_event \<times> fault_description option) list"

text \<open>The last event of a command, in a log whose newest entry comes first.\<close>

fun last_event :: "u64 \<Rightarrow> event_log \<Rightarrow> command_event option" where
  "last_event u [] = None"
| "last_event u ((v, ev, fd) # es) = (if v = u then Some ev else last_event u es)"

definition hist_ok :: "event_log \<Rightarrow> history \<Rightarrow> bool" where
  "hist_ok log H \<longleftrightarrow> distinct (command_state_queue H)
     \<and> (\<forall>s \<in> set (command_state_queue H). command_state_fast_access_map H (cs_command_id (cs_objects H s)) = Some s)
     \<and> (\<forall>u s. command_state_fast_access_map H u = Some s \<longrightarrow> s \<in> set (command_state_queue H) \<and> cs_command_id (cs_objects H s) = u
          \<and> last_event u log = Some (cs_last_event (cs_objects H s)))
     \<and> (\<forall>u ev. last_event u log = Some ev \<longrightarrow> command_event_code ev < 4 \<longrightarrow> command_state_fast_access_map H u \<noteq> None)"

fun life_event_ok :: "life \<Rightarrow> command_event option \<Rightarrow> bool" where
  "life_event_ok L_new e \<longleftrightarrow> e = None"
| "life_event_ok L_queued e \<longleftrightarrow> e = Some EVT_QUEUED"
| "life_event_ok L_running e \<longleftrightarrow> e = Some EVT_RUNNING"
| "life_event_ok L_paused e \<longleftrightarrow> e = Some EVT_PAUSED"
| "life_event_ok L_done e \<longleftrightarrow> e \<in> {Some EVT_COMPLETED, Some EVT_FAULT, Some EVT_KILLED}"
| "life_event_ok L_bad e \<longleftrightarrow> True"

lemma life_last: "life_event_ok (life_of u log) (last_event u log)"
proof (induction log)
  case (Cons e es)
  obtain v ev fd where e: "e = (v, ev, fd)" by (cases e)
  have "life_event_ok (life_step l ev) (Some ev)" for l by (cases l; cases ev) simp_all
  then show ?case using Cons by (simp add: e)
qed simp

lemma hist_okD:
  assumes "hist_ok log H"
  shows "distinct (command_state_queue H)"
    and "s \<in> set (command_state_queue H) \<Longrightarrow> command_state_fast_access_map H (cs_command_id (cs_objects H s)) = Some s"
    and "command_state_fast_access_map H u = Some s \<Longrightarrow> s \<in> set (command_state_queue H)"
    and "command_state_fast_access_map H u = Some s \<Longrightarrow> cs_command_id (cs_objects H s) = u"
    and "command_state_fast_access_map H u = Some s \<Longrightarrow> last_event u log = Some (cs_last_event (cs_objects H s))"
    and "last_event u log = Some ev \<Longrightarrow> command_event_code ev < 4 \<Longrightarrow> command_state_fast_access_map H u \<noteq> None"
  using assms unfolding hist_ok_def by blast+

lemma hist_okI:
  assumes "distinct (command_state_queue H)"
    and "\<And>s. s \<in> set (command_state_queue H) \<Longrightarrow> command_state_fast_access_map H (cs_command_id (cs_objects H s)) = Some s"
    and "\<And>u s. command_state_fast_access_map H u = Some s \<Longrightarrow> s \<in> set (command_state_queue H) \<and> cs_command_id (cs_objects H s) = u
      \<and> last_event u log = Some (cs_last_event (cs_objects H s))"
    and "\<And>u ev. last_event u log = Some ev \<Longrightarrow> command_event_code ev < 4 \<Longrightarrow> command_state_fast_access_map H u \<noteq> None"
  shows "hist_ok log H"
  using assms unfolding hist_ok_def by blast

lemma add_state_ok:
  assumes ok: "hist_ok log H" and a: "a \<notin> set (command_state_queue H)" and n: "command_state_fast_access_map H u = None"
  shows "hist_ok ((u, EVT_QUEUED, fd) # log) (addComamndState a u H)"
proof -
  define H' where "H' = addComamndState a u H"
  have H': "command_state_queue H' = command_state_queue H @ [a]" "command_state_fast_access_map H' = (command_state_fast_access_map H)(u := Some a)"
    "\<And>s. s \<noteq> a \<Longrightarrow> cs_objects H' s = cs_objects H s" "cs_command_id (cs_objects H' a) = u" "cs_last_event (cs_objects H' a) = EVT_QUEUED"
    using n by (simp_all add: H'_def addComamndState_def)
  have q: "s \<noteq> a" "cs_command_id (cs_objects H s) \<noteq> u" if "s \<in> set (command_state_queue H)" for s
    using hist_okD(2) [OF ok that] n a that by (metis option.distinct(1))+
  have "hist_ok ((u, EVT_QUEUED, fd) # log) H'"
  proof (rule hist_okI)
    show "distinct (command_state_queue H')" using hist_okD(1) [OF ok] a by (simp add: H')
    show "command_state_fast_access_map H' (cs_command_id (cs_objects H' s)) = Some s" if "s \<in> set (command_state_queue H')" for s
      using that q [of s] hist_okD(2) [OF ok, of s] by (cases "s = a") (simp_all add: H')
    show "s \<in> set (command_state_queue H') \<and> cs_command_id (cs_objects H' s) = v \<and> last_event v ((u, EVT_QUEUED, fd) # log) = Some (cs_last_event (cs_objects H' s))"
      if "command_state_fast_access_map H' v = Some s" for v s
    proof (cases "v = u")
      case False
      then have m: "command_state_fast_access_map H v = Some s" using that by (simp add: H')
      note d = hist_okD(3-5) [OF ok m]
      show ?thesis using d q(1) [OF d(1)] False by (simp add: H')
    qed (use that H' in auto)
    show "command_state_fast_access_map H' v \<noteq> None" if "last_event v ((u, EVT_QUEUED, fd) # log) = Some e" "command_event_code e < 4" for v e
      using hist_okD(6) [OF ok, of v e] that by (simp add: H' split: if_splits)
  qed
  then show ?thesis by (simp add: H'_def)
qed

lemma update_state_ok:
  assumes ok: "hist_ok log H" and m: "command_state_fast_access_map H u = Some s" and st: "cs_command_id st = u" "cs_last_event st = ev"
  shows "hist_ok ((u, ev, fd) # log) (H\<lparr>cs_objects := (cs_objects H)(s := st)\<rparr>)"
proof -
  note d = hist_okD(3-5) [OF ok m]
  have other: "v \<noteq> u" if "command_state_fast_access_map H v = Some t" "t \<noteq> s" for v t using m that by auto
  have same: "t \<noteq> s" if "command_state_fast_access_map H v = Some t" "v \<noteq> u" for v t using hist_okD(4) [OF ok that(1)] d(2) that(2) by auto
  show ?thesis
  proof (rule hist_okI)
    show "distinct (command_state_queue (H\<lparr>cs_objects := (cs_objects H)(s := st)\<rparr>))" using hist_okD(1) [OF ok] by simp
    show "command_state_fast_access_map (H\<lparr>cs_objects := (cs_objects H)(s := st)\<rparr>) (cs_command_id (cs_objects (H\<lparr>cs_objects := (cs_objects H)(s := st)\<rparr>) t)) = Some t"
      if "t \<in> set (command_state_queue (H\<lparr>cs_objects := (cs_objects H)(s := st)\<rparr>))" for t using hist_okD(2) [OF ok, of t] that st m by simp
    show "t \<in> set (command_state_queue (H\<lparr>cs_objects := (cs_objects H)(s := st)\<rparr>)) \<and> cs_command_id (cs_objects (H\<lparr>cs_objects := (cs_objects H)(s := st)\<rparr>) t) = v
        \<and> last_event v ((u, ev, fd) # log) = Some (cs_last_event (cs_objects (H\<lparr>cs_objects := (cs_objects H)(s := st)\<rparr>) t))"
      if "command_state_fast_access_map (H\<lparr>cs_objects := (cs_objects H)(s := st)\<rparr>) v = Some t" for v t
      using that hist_okD(3-5) [OF ok, of v t] same [of v t] d m st by (cases "v = u") auto
    show "command_state_fast_access_map (H\<lparr>cs_objects := (cs_objects H)(s := st)\<rparr>) v \<noteq> None"
      if "last_event v ((u, ev, fd) # log) = Some e" "command_event_code e < 4" for v e
      using hist_okD(6) [OF ok, of v e] that m by (auto split: if_splits)
  qed
qed

lemma handle_event_ok:
  assumes ok: "hist_ok log H" and a: "a \<notin> set (command_state_queue H)" and fd: "ev = EVT_FAULT \<longrightarrow> fd \<noteq> None"
    and legal: "life_step (life_of u log) ev \<noteq> L_bad"
  shows "\<exists>H'. executor_handleCommandEvent a u ev fd H = Ret H' \<and> hist_ok ((u, ev, fd) # log) H'"
proof (cases "ev = EVT_QUEUED")
  case True
  then have "life_of u log = L_new" using legal by (cases "life_of u log") auto
  then have "last_event u log = None" using life_last [of u log] by simp
  then have "command_state_fast_access_map H u = None" using hist_okD(5) [OF ok] by (metis not_None_eq)
  then show ?thesis using add_state_ok [OF ok a] True by (simp add: executor_handleCommandEvent_def)
next
  case False
  show ?thesis
  proof (cases "command_state_fast_access_map H u")
    case None
    have "\<not> command_event_code ev < 4"
    proof
      assume "command_event_code ev < 4"
      then have "life_of u log \<in> {L_queued, L_running, L_paused}" using legal False by (cases "life_of u log"; cases ev) auto
      then have "\<exists>e. last_event u log = Some e \<and> command_event_code e < 4" using life_last [of u log] by auto
      then show False using hist_okD(6) [OF ok] None by blast
    qed
    then have "hist_ok ((u, ev, fd) # log) H"
      using hist_okD(1-3) [OF ok] hist_okD(4-6) [OF ok] None by (intro hist_okI) (auto split: if_splits)
    then show ?thesis using None False by (auto simp: executor_handleCommandEvent_def getCommandState_def split: command_event.splits)
  next
    case (Some s)
    define st where "st = (if ev = EVT_FAULT then (cs_objects H s)\<lparr>cs_last_event := ev, cs_fault_description := the fd\<rparr> else (cs_objects H s)\<lparr>cs_last_event := ev\<rparr>)"
    have "executor_handleCommandEvent a u ev fd H = Ret (H\<lparr>cs_objects := (cs_objects H)(s := st)\<rparr>)"
      using Some False fd by (auto simp: executor_handleCommandEvent_def getCommandState_def st_def split: command_event.splits option.splits)
    moreover have "cs_command_id st = u" "cs_last_event st = ev" using hist_okD(4) [OF ok Some] by (simp_all add: st_def)
    ultimately show ?thesis using update_state_ok [OF ok Some] by blast
  qed
qed

lemma remove_states_ok:
  assumes ok: "hist_ok log H" and G: "\<forall>s \<in> G. s \<in> set (command_state_queue H) \<and> state_ended H s"
    and q': "distinct q'" "set q' = set (command_state_queue H) - G"
  shows "hist_ok log (H\<lparr>command_state_queue := q',
    command_state_fast_access_map := (\<lambda>u. if u \<in> (\<lambda>s. cs_command_id (cs_objects H s)) ` G then None else command_state_fast_access_map H u)\<rparr>)"
proof (rule hist_okI, goal_cases)
  case (2 s)
  then have s: "s \<in> set (command_state_queue H)" "s \<notin> G" using q'(2) by auto
  have "cs_command_id (cs_objects H s) \<notin> (\<lambda>s. cs_command_id (cs_objects H s)) ` G"
  proof
    assume "cs_command_id (cs_objects H s) \<in> (\<lambda>s. cs_command_id (cs_objects H s)) ` G"
    then obtain g where "g \<in> G" "cs_command_id (cs_objects H s) = cs_command_id (cs_objects H g)" by blast
    moreover from this G have "command_state_fast_access_map H (cs_command_id (cs_objects H g)) = Some g" using hist_okD(2) [OF ok] by blast
    ultimately have "Some s = Some g" using hist_okD(2) [OF ok s(1)] by metis
    then show False using s(2) \<open>g \<in> G\<close> by simp
  qed
  then show ?case using hist_okD(2) [OF ok s(1)] by simp
next
  case (3 u s)
  then have u: "u \<notin> (\<lambda>s. cs_command_id (cs_objects H s)) ` G" "command_state_fast_access_map H u = Some s" by (auto split: if_splits)
  note d = hist_okD(3-5) [OF ok u(2)]
  then have "s \<notin> G" using u(1) by blast
  then show ?case using d q'(2) by simp
next
  case (4 u ev)
  then obtain s where m: "command_state_fast_access_map H u = Some s" using hist_okD(6) [OF ok, of u ev] by auto
  then have ne: "\<not> state_ended H s" using hist_okD(5) [OF ok m] 4 by (simp add: state_ended_def)
  have "u \<notin> (\<lambda>s. cs_command_id (cs_objects H s)) ` G"
  proof
    assume "u \<in> (\<lambda>s. cs_command_id (cs_objects H s)) ` G"
    then obtain g where "g \<in> G" "u = cs_command_id (cs_objects H g)" by blast
    moreover from this G have "command_state_fast_access_map H (cs_command_id (cs_objects H g)) = Some g" "state_ended H g" using hist_okD(2) [OF ok] by blast+
    ultimately show False using m ne by (metis option.inject)
  qed
  then show ?case using m by simp
qed (use q'(1) in simp)

lemma capCommanaQueue_spec:
  assumes "length (command_state_queue H) > unat mx" and "length (command_state_queue H) < 2 ^ 64" and "0 < mx"
  obtains p q' where "command_state_queue H = p @ q'"
    "capCommanaQueue mx H = H\<lparr>command_state_queue := rev (filter (\<lambda>s. \<not> state_ended H s) p) @ q',
       command_state_fast_access_map := (\<lambda>u. if u \<in> (\<lambda>s. cs_command_id (cs_objects H s)) ` set (filter (state_ended H) p) then None else command_state_fast_access_map H u)\<rparr>"
    "length (filter (state_ended H) p) = min (length (command_state_queue H) - unat mx) (length (filter (state_ended H) (command_state_queue H)))"
proof -
  let ?q = "command_state_queue H" and ?mx = "ucast mx :: u64"
  define idx where "idx = (of_nat (length ?q) - 1 :: u64)"
  obtain q' re' m' where c: "cap_loop H ?mx idx ?q [] (command_state_fast_access_map H) = (q', re', m')" by (metis prod_cases3)
  obtain p where p: "?q = p @ q'" "re' = [] @ filter (\<lambda>s. \<not> state_ended H s) p"
      "m' = (\<lambda>u. if u \<in> (\<lambda>s. cs_command_id (cs_objects H s)) ` set (filter (state_ended H) p) then None else command_state_fast_access_map H u)"
    using cap_loop_spec [OF c] by blast
  have u: "unat (of_nat (length ?q) :: u64) = length ?q" using assms(2) by (simp add: unat_of_nat take_bit_nat_eq_self)
  have l: "length ?q > 0" using assms(1) by linarith
  have "(of_nat (length ?q) :: u64) \<noteq> 0" using u l by (metis less_numeral_extra(3) unat_0)
  then have "unat idx = length ?q - 1" using u by (simp add: idx_def unat_minus_one)
  moreover have mx: "unat ?mx = unat mx" using unsigned_less [of mx, where 'a = nat] by (simp add: unsigned_ucast_eq take_bit_nat_eq_self)
  moreover have "0 < ?mx" using assms(3) mx by (simp add: word_less_nat_alt)
  ultimately have "length (filter (state_ended H) (take (length ?q - length q') ?q)) = min (length ?q - unat mx) (length (filter (state_ended H) ?q))"
    using cap_loop_count [OF c _ HOL.refl] l by simp
  moreover have "capCommanaQueue mx H = H\<lparr>command_state_queue := rev (filter (\<lambda>s. \<not> state_ended H s) p) @ q', command_state_fast_access_map := m'\<rparr>"
    using assms(1) c p(2) by (simp add: capCommanaQueue_def idx_def [symmetric] fold_Cons_rev)
  ultimately show ?thesis using that p by simp
qed

lemma cap_ok:
  assumes ok: "hist_ok log H" and "length (command_state_queue H) < 2 ^ 64" and "0 < mx"
  shows "hist_ok log (capCommanaQueue mx H)"
proof (cases "length (command_state_queue H) > unat mx")
  case True
  show ?thesis
  proof (rule capCommanaQueue_spec [OF True assms(2,3)])
    fix p q' assume p: "command_state_queue H = p @ q'"
      "capCommanaQueue mx H = H\<lparr>command_state_queue := rev (filter (\<lambda>s. \<not> state_ended H s) p) @ q',
       command_state_fast_access_map := (\<lambda>u. if u \<in> (\<lambda>s. cs_command_id (cs_objects H s)) ` set (filter (state_ended H) p) then None else command_state_fast_access_map H u)\<rparr>"
    show ?thesis unfolding p(2) by (rule remove_states_ok [OF ok]) (use hist_okD(1) [OF ok] p(1) in auto)
  qed
qed (simp add: ok capCommanaQueue_def)

lemma flush_loop_spec:
  assumes "flush_loop H rq m = (rq', m')"
  shows "\<exists>p. rq = p @ rq' \<and> (\<forall>s \<in> set p. state_ended H s) \<and> m' = (\<lambda>u. if u \<in> (\<lambda>s. cs_command_id (cs_objects H s)) ` set p then None else m u)"
  using assms
proof (induction H rq m rule: flush_loop.induct)
  case (2 H s rq m)
  show ?case
  proof (cases "state_ended H s")
    case True
    then have "flush_loop H rq (m(cs_command_id (cs_objects H s) := None)) = (rq', m')" using 2(2) by simp
    then obtain p where "rq = p @ rq'" "\<forall>s \<in> set p. state_ended H s"
        "m' = (\<lambda>u. if u \<in> (\<lambda>s. cs_command_id (cs_objects H s)) ` set p then None else (m(cs_command_id (cs_objects H s) := None)) u)"
      using 2(1) True by blast
    then show ?thesis using True by (intro exI [of _ "s # p"]) (auto simp: fun_eq_iff)
  qed (use 2 in auto)
qed simp

lemma flush_ok:
  assumes ok: "hist_ok log H"
  shows "hist_ok log (flushCommandStates H)"
proof -
  obtain rq' m' where f: "flush_loop H (rev (command_state_queue H)) (command_state_fast_access_map H) = (rq', m')" by (metis surj_pair)
  obtain p where p: "rev (command_state_queue H) = p @ rq'" "\<forall>s \<in> set p. state_ended H s"
      "m' = (\<lambda>u. if u \<in> (\<lambda>s. cs_command_id (cs_objects H s)) ` set p then None else command_state_fast_access_map H u)"
    using flush_loop_spec [OF f] by blast
  have q: "command_state_queue H = rev rq' @ rev p" using p(1) by (metis rev_append rev_rev_ident)
  show ?thesis unfolding flushCommandStates_def f p(3) prod.case
    by (rule remove_states_ok [OF ok]) (use hist_okD(1) [OF ok] q p(2) in auto)
qed

section \<open>The log only grows\<close>

definition extends :: "sandbox \<Rightarrow> sandbox \<Rightarrow> bool" where
  "extends S S' \<longleftrightarrow> (\<exists>es. command_events S' = command_events S @ es \<and> (\<forall>(u, ev, fd) \<in> set es. ev = EVT_FAULT \<longrightarrow> fd \<noteq> None))"

lemma extends_refl [simp, intro]: "extends S S"
  by (simp add: extends_def)

lemma extends_trans: "extends S S' \<Longrightarrow> extends S' S'' \<Longrightarrow> extends S S''"
  by (fastforce simp: extends_def)

lemma extends_cong: "command_events T = command_events S' \<Longrightarrow> extends S S' \<Longrightarrow> extends S T"
  "command_events T = command_events S \<Longrightarrow> extends T S' \<Longrightarrow> extends S S'"
  by (simp_all add: extends_def)

lemma extends_event: "extends S S' \<Longrightarrow> (ev = EVT_FAULT \<longrightarrow> fd \<noteq> None) \<Longrightarrow> extends S (handleCommandEvent u ev fd S')"
  "extends (handleCommandEvent u ev fd S) S' \<Longrightarrow> (ev = EVT_FAULT \<longrightarrow> fd \<noteq> None) \<Longrightarrow> extends S S'"
  by (auto simp: extends_def handleCommandEvent_def split: if_splits)

lemma install_extends: "installHandler now run p S = Ret (b, S') \<Longrightarrow> extends S S'"
  by (auto simp: installHandler_def Let_def extends_def handleCommandEvent_def put_cmd_def elim!: obind_RetE split: option.splits prod.splits if_splits)

lemma remove_extends: "removeHandler r S = Ret S' \<Longrightarrow> extends S S'"
  by (auto simp: removeHandler_def Let_def elim!: obind_RetE intro!: extends_cong(1) [OF _ extends_refl])

lemma delete_extends: "delete_cmd r S = Ret S' \<Longrightarrow> extends S S'"
  by (auto simp: delete_cmd_def split: option.splits intro!: extends_cong(1) [OF _ extends_refl])

lemma retire_extends: "retire ev r S = Ret S' \<Longrightarrow> extends S S'"
  by (auto simp: retire_def elim!: obind_RetE dest!: delete_extends extends_event(2) split: if_splits)

lemma report_extends: "report_failed r S = Ret S' \<Longrightarrow> extends S S'"
  by (auto simp: report_failed_def elim!: obind_RetE dest!: delete_extends extends_event(2) split: if_splits)

lemma pop_extends: "extends (pop_queue htop S) S' \<longleftrightarrow> extends S S'" "extends S (pop_queue htop S') \<longleftrightarrow> extends S S'"
  "extends S (S'\<lparr>commandStack := st\<rparr>) \<longleftrightarrow> extends S S'" "extends (S\<lparr>commandStack := st\<rparr>) S' \<longleftrightarrow> extends S S'"
  by (simp_all add: extends_def pop_queue_def)

lemma set_only_extends: "check_set_only htop now run r S = Ret (w, S') \<Longrightarrow> extends S S'"
  by (auto simp: check_set_only_def pop_extends elim!: obind_RetE dest!: delete_extends install_extends extends_event(2) split: if_splits)
    (meson extends_trans)+

lemma stack_extends: "check_stack htop now run r tmp S = Ret (w, S') \<Longrightarrow> extends S S'"
  by (auto simp: check_stack_def pop_extends elim!: obind_RetE dest!: install_extends report_extends split: if_splits
      intro!: extends_event(1)) (meson extends_trans)+

lemma replace_extends: "check_replace htop now run res r tmp S = Ret (w, S') \<Longrightarrow> extends S S'"
  by (auto simp: check_replace_def pop_extends elim!: obind_RetE dest!: install_extends report_extends remove_extends retire_extends split: if_splits)
    (meson extends_trans)+

lemma idle_extends: "check_idle htop now run r S = Ret (w, S') \<Longrightarrow> extends S S'"
  by (auto simp: check_idle_def pop_extends elim!: obind_RetE dest!: install_extends)

lemma ended_extends: "check_ended now run S = Ret (w, S') \<Longrightarrow> extends S S'"
  by (auto simp: check_ended_def pop_extends Let_def elim!: obind_RetE dest!: install_extends remove_extends retire_extends delete_extends
      split: option.splits if_splits) (meson extends_trans)+

lemma iteration_extends: "check_iteration htop now run S = Ret (w, S') \<Longrightarrow> extends S S'"
  by (auto simp: check_iteration_def Let_def elim!: obind_RetE dest!: set_only_extends stack_extends replace_extends idle_extends ended_extends
      split: option.splits if_splits rsr.splits)

lemma functor_events: "call_functor d p run S = Ret S' \<Longrightarrow> command_events S' = command_events S"
  by (auto simp: call_functor_def put_cmd_def elim!: obind_RetE split: option.splits)

lemma run_step_events: "run_step i S = Ret (pc, S') \<Longrightarrow> command_events S' = command_events S"
  by (auto simp: run_step_def Let_def put_cmd_def record_step_def handleSandboxEvent_def elim!: obind_RetE dest!: functor_events split: option.splits if_splits)

lemma step_extends: "sb_step htop (S, pc) (S', pc') \<Longrightarrow> extends S S'"
proof (induction "(S, pc)" "(S', pc')" rule: sb_step.induct)
  case (enqueue r c dead prio b)
  then show ?case by (cases dead) (auto simp: enqueueCommand_def extends_def handleCommandEvent_def)
next
  case (check set_run now w)
  then show ?case by (rule_tac iteration_extends)
next
  case (run i)
  then show ?case by (auto dest!: run_step_events simp: extends_def)
next
  case kill
  then show ?case by (auto simp: executor_killCurrentCommand_def killCurrentCommand_def put_cmd_def extends_def elim!: obind_RetE split: option.splits if_splits)
next
  case (set_features_rpc lock delay)
  then show ?case by (auto simp: setCommandFeatures_rpc_def Let_def put_cmd_def extends_def elim!: obind_RetE split: option.splits)
next
  case (set_features fs)
  then show ?case by (auto simp: setCommandFeatures_def put_cmd_def extends_def elim!: obind_RetE split: option.splits)
qed (auto simp: sandbox_stop_def extends_def)

section \<open>Sandbox and executor together\<close>

text \<open>
  The events of a step of the sandbox reach the executor one after the other; in between, the capper
  thread and the flush action may run. \<open>alloc\<close> gives the address of a new state object.
\<close>

fun handle_events :: "(history \<Rightarrow> nat) \<Rightarrow> event_log \<Rightarrow> history \<Rightarrow> history outcome" where
  "handle_events alloc [] H = Ret H"
| "handle_events alloc ((u, ev, fd) # es) H = obind (executor_handleCommandEvent (alloc H) u ev fd H) (handle_events alloc es)"

locale state_allocator =
  fixes alloc :: "history \<Rightarrow> nat"
  assumes alloc_fresh: "alloc H \<notin> set (command_state_queue H)"
begin

lemma handle_events_ok:
  assumes "hist_ok (rev log) H" and "\<forall>(u, ev, fd) \<in> set es. ev = EVT_FAULT \<longrightarrow> fd \<noteq> None" and "\<forall>u. life_of u (rev (log @ es)) \<noteq> L_bad"
  shows "\<exists>H'. handle_events alloc es H = Ret H' \<and> hist_ok (rev (log @ es)) H'"
  using assms
proof (induction es arbitrary: log H)
  case (Cons e es)
  obtain u ev fd where e: "e = (u, ev, fd)" by (cases e)
  have bad: "life_of v xs = L_bad \<Longrightarrow> life_of v (ys @ xs) = L_bad" for v xs ys by (induction ys) auto
  have "life_of u (rev (log @ [e])) \<noteq> L_bad" using Cons.prems(3) bad [of u "rev (log @ [e])" "rev es"] by auto
  then have "life_step (life_of u (rev log)) ev \<noteq> L_bad" by (simp add: e)
  moreover have "ev = EVT_FAULT \<longrightarrow> fd \<noteq> None" using Cons.prems(2) e by auto
  ultimately obtain H1 where H1: "executor_handleCommandEvent (alloc H) u ev fd H = Ret H1" "hist_ok ((u, ev, fd) # rev log) H1"
    using handle_event_ok [OF Cons.prems(1) alloc_fresh] by blast
  from H1(2) have "hist_ok (rev (log @ [e])) H1" by (simp add: e)
  from Cons.IH [OF this] Cons.prems(2,3) show ?case using H1(1) by (simp add: e)
qed simp

end

interpretation fresh: state_allocator "\<lambda>H. Suc (sum_list (command_state_queue H))"
proof
  fix H
  show "Suc (sum_list (command_state_queue H)) \<notin> set (command_state_queue H)" using member_le_sum_list [of "Suc (sum_list (command_state_queue H))" "command_state_queue H"] by auto
qed

inductive exec_reach ::
  "(nat prio_elem list \<Rightarrow> nat prio_elem) \<Rightarrow> (history \<Rightarrow> nat) \<Rightarrow> sandbox \<times> sched_pc \<times> history \<Rightarrow> bool" for htop alloc where
  init: "exec_reach htop alloc (sandbox_start (sandbox_init True), Sched_locked, new_history)"
| step: "exec_reach htop alloc (S, pc, H) \<Longrightarrow> sb_step htop (S, pc) (S', pc') \<Longrightarrow> command_events S' = command_events S @ es \<Longrightarrow>
    handle_events alloc es H = Ret H' \<Longrightarrow> exec_reach htop alloc (S', pc', H')"
| cap: "exec_reach htop alloc (S, pc, H) \<Longrightarrow> length (command_state_queue H) < 2 ^ 64 \<Longrightarrow>
    exec_reach htop alloc (S, pc, capCommanaQueue COMMAND_STATE_QUEUE_DEFAULT_SIZE H)"
| flush: "exec_reach htop alloc (S, pc, H) \<Longrightarrow> exec_reach htop alloc (S, pc, flushCommandStates H)"

lemma reach_legal: "heap_top htop \<Longrightarrow> sb_reach htop (S, pc) \<Longrightarrow> life_of u (rev (command_events S)) \<noteq> L_bad"
proof -
  assume "heap_top htop" "sb_reach htop (S, pc)"
  then have inv: "inv_life S" using sb_reach_inv by (fastforce simp: sb_inv_def)
  have "life u S \<noteq> L_bad"
  proof (cases "live_id u S")
    case True
    then obtain r c where "command_heap S r = Some c" "unique_id c = u" by (auto simp: live_id_def)
    then have "life u S = place S r" using inv by (auto simp: inv_life_def)
    then show ?thesis by (simp add: place_def)
  qed (use inv in \<open>auto simp: inv_life_def\<close>)
  then show ?thesis by (simp add: life_def)
qed

lemma exec_reach_ok:
  assumes "exec_reach htop alloc s" and "heap_top htop" and "state_allocator alloc"
  shows "sb_reach htop (fst s, fst (snd s)) \<and> hist_ok (rev (command_events (fst s))) (snd (snd s))"
  using assms(1)
proof (induction rule: exec_reach.induct)
  case init
  then show ?case by (simp add: sb_reach.init) (simp add: hist_ok_def new_history_def sandbox_start_def sandbox_init_def)
next
  case (step S pc H S' pc' es H')
  then have r: "sb_reach htop (S', pc')" "hist_ok (rev (command_events S)) H" using sb_reach.step by fastforce+
  have f: "\<forall>(u, ev, fd) \<in> set es. ev = EVT_FAULT \<longrightarrow> fd \<noteq> None" using step_extends [OF step(2)] step(3) by (simp add: extends_def)
  have "\<forall>u. life_of u (rev (command_events S @ es)) \<noteq> L_bad" using reach_legal [OF assms(2) r(1)] step(3) by simp
  from state_allocator.handle_events_ok [OF assms(3) r(2) f this] show ?case using r(1) step(3,4) by simp
qed (auto simp: cap_ok flush_ok COMMAND_STATE_QUEUE_DEFAULT_SIZE_def)

section \<open>Submissions\<close>

text \<open>
  The state of the executor between submissions: every sandbox has run from its start, the identifiers it
  has seen were given out before, and the instancers build commands as the constructor leaves them.
\<close>

definition executor_ok :: "(nat prio_elem list \<Rightarrow> nat prio_elem) \<Rightarrow> executor \<Rightarrow> bool" where
  "executor_ok htop E \<longleftrightarrow>
     (\<forall>ch S. sandbox_map E ch = Some S \<longrightarrow> (\<exists>pc. sb_reach htop (S, pc)) \<and> (\<forall>u \<in> fst ` set (command_events S). u \<le> command_sequence_id E))
     \<and> (\<forall>alias c. mapCommandInstancer E alias = Some (Some c) \<longrightarrow> runningProperty c < 4 \<and> \<not> bit (lockFeaturePropertyFlag c) 1)"

definition rule_ok :: "submission \<Rightarrow> bool" where
  "rule_ok d \<longleftrightarrow> (case sub_rule d of None \<Rightarrow> True | Some r \<Rightarrow> (ucast r :: u8) < 3)"

lemma executor_okD:
  assumes "executor_ok htop E" and "sandbox_map E ch = Some S"
  shows "\<exists>pc. sb_reach htop (S, pc)" and "u \<in> fst ` set (command_events S) \<Longrightarrow> u \<le> command_sequence_id E"
  using assms unfolding executor_ok_def by blast+

lemma instanced_command_ok:
  assumes "executor_ok htop E" and "rule_ok d" and "instanceCommandInfo d cid E = Some c"
  shows "command_ok c \<and> unique_id c = cid"
proof -
  obtain c0 where c0: "mapCommandInstancer E (sub_alias d) = Some (Some c0)"
    using assms(3) by (auto simp: instanceCommandInfo_def instanceCommandInfo_alias_def split: option.splits)
  then have ok: "runningProperty c0 < 4 \<and> \<not> bit (lockFeaturePropertyFlag c0) 1" using assms(1) by (auto simp: executor_ok_def)
  with c0 assms(2,3) show ?thesis
    by (auto simp: instanceCommandInfo_def instanceCommandInfo_alias_def setCommandAlias_def Let_def command_ok_def rule_ok_def batch_consts
      split: option.splits)
qed

lemma word_less_Suc:
  fixes u w :: u64
  assumes "w \<noteq> - 1" and "u \<le> w"
  shows "u < w + 1"
proof -
  have "w + 1 \<noteq> 0" using assms(1) by (metis add_eq_0_iff add.commute)
  then have "unat (w + 1) = unat w + 1" by (metis Suc_eq_plus1 add.commute unatSuc)
  then show ?thesis using assms(2) by (simp add: word_le_nat_alt word_less_nat_alt)
qed

lemma fresh_id:
  assumes "executor_ok htop E" and "command_sequence_id E \<noteq> - 1" and "sandbox_map E ch = Some S"
  shows "command_sequence_id E + 1 \<notin> fst ` set (command_events S)"
proof
  assume "command_sequence_id E + 1 \<in> fst ` set (command_events S)"
  from executor_okD(2) [OF assms(1,3) this] have "command_sequence_id E + 1 \<le> command_sequence_id E" .
  then show False using word_less_Suc [OF assms(2) order.refl] by simp
qed

lemma count_ok:
  assumes "executor_ok htop E" and "command_sequence_id E \<noteq> - 1"
  shows "executor_ok htop (E\<lparr>command_sequence_id := command_sequence_id E + 1\<rparr>)"
  using assms(1) word_less_Suc [OF assms(2)] by (fastforce simp: executor_ok_def)

lemma enqueue_in_executor:
  assumes ht: "heap_top htop" and ok: "executor_ok htop E" and n: "command_sequence_id E \<noteq> - 1"
    and S: "sandbox_map E ch = Some S" "command_heap S r = None"
    and c: "command_ok c" "unique_id c = command_sequence_id E + 1"
    and S': "S' = snd (enqueueCommand False r c prio S)"
  shows "command_events S' = command_events S @ [(command_sequence_id E + 1, EVT_QUEUED, None)]"
    and "command_heap S' = (command_heap S)(r := Some c)"
    and "executor_ok htop (E\<lparr>command_sequence_id := command_sequence_id E + 1, sandbox_map := (sandbox_map E)(ch := Some S')\<rparr>)"
proof -
  obtain pc where pc: "sb_reach htop (S, pc)" using executor_okD(1) [OF ok S(1)] by blast
  then have "event_handler S" using sb_reach_inv [OF pc ht] inv_event_handler by simp
  then show ev: "command_events S' = command_events S @ [(command_sequence_id E + 1, EVT_QUEUED, None)]"
    and "command_heap S' = (command_heap S)(r := Some c)" by (simp_all add: S' enqueueCommand_def handleCommandEvent_def c)
  have "sb_step htop (S, pc) (S', pc)"
    by (rule sb_step.enqueue [where r = r and c = c and dead = False and prio = prio, OF S(2) c(1) _ ])
      (use fresh_id [OF ok n S(1)] c in \<open>auto simp: S' intro: prod.collapse [symmetric]\<close>)
  then have reach: "\<exists>pc. sb_reach htop (S', pc)" using pc sb_reach.step by blast
  have "\<forall>u \<in> fst ` set (command_events S'). u \<le> command_sequence_id E + 1"
    using executor_okD(2) [OF ok S(1)] word_less_Suc [OF n, THEN less_imp_le] by (auto simp: ev)
  with reach count_ok [OF ok n] show "executor_ok htop (E\<lparr>command_sequence_id := command_sequence_id E + 1, sandbox_map := (sandbox_map E)(ch := Some S')\<rparr>)"
    by (auto simp: executor_ok_def)
qed

section \<open>Properties\<close>

text \<open>
  C11. The state the executor reports is true: whatever the sandbox, the capper thread and the flush
  action did before, the RPC action answers for every command that is still alive, \<open>EVT_RUNNING\<close> exactly
  for the current command, \<open>EVT_PAUSED\<close> exactly for those on the stack and \<open>EVT_QUEUED\<close> for every other,
  which is then in the queue of submitted commands or is one the idle sandbox took off its queue and could
  not start (no further handler, or a set handler that threw). Every step of the sandbox can be followed,
  since the executor handles its events without a fault.
\<close>

theorem reported_state_is_true:
  assumes "heap_top htop" and "state_allocator alloc" and "exec_reach htop alloc (S, pc, H)"
  shows "(\<forall>r c. command_heap S r = Some c \<longrightarrow>
       (\<exists>ev. getCommandState_rpc (unique_id c) H = Ret (command_event_code ev, None)
         \<and> (ev = EVT_RUNNING \<longleftrightarrow> currentExecutingCommand S = Some r) \<and> (ev = EVT_PAUSED \<longleftrightarrow> r \<in> set (commandStack S))
         \<and> (r \<in> element ` set (command_submitted_queue S) \<longrightarrow> ev = EVT_QUEUED)
         \<and> (ev = EVT_QUEUED \<longrightarrow> r \<in> element ` set (command_submitted_queue S) \<or> implementedHandler c \<le> 1 \<or> runningProperty c = RP_Fault)
         \<and> ev \<in> {EVT_QUEUED, EVT_RUNNING, EVT_PAUSED}))
    \<and> (\<forall>S' pc'. sb_step htop (S, pc) (S', pc') \<longrightarrow> (\<exists>H'. exec_reach htop alloc (S', pc', H')))"
proof (intro conjI allI impI)
  have r: "sb_reach htop (S, pc)" and ok: "hist_ok (rev (command_events S)) H" using exec_reach_ok [OF assms(3,1,2)] by simp_all
  fix r c assume c: "command_heap S r = Some c"
  note pl = life_is_place [OF r assms(1) c, unfolded queued_def set_map refused_def]
  define ev where "ev = (case life (unique_id c) S of L_running \<Rightarrow> EVT_RUNNING | L_paused \<Rightarrow> EVT_PAUSED | _ \<Rightarrow> EVT_QUEUED)"
  have places: "(ev = EVT_RUNNING \<longleftrightarrow> currentExecutingCommand S = Some r) \<and> (ev = EVT_PAUSED \<longleftrightarrow> r \<in> set (commandStack S))
      \<and> (r \<in> element ` set (command_submitted_queue S) \<longrightarrow> ev = EVT_QUEUED)
      \<and> (ev = EVT_QUEUED \<longrightarrow> r \<in> element ` set (command_submitted_queue S) \<or> implementedHandler c \<le> 1 \<or> runningProperty c = RP_Fault)
      \<and> ev \<in> {EVT_QUEUED, EVT_RUNNING, EVT_PAUSED}"
    using pl by (auto simp: ev_def split: life.splits)
  have l: "last_event (unique_id c) (rev (command_events S)) = Some ev"
    using life_last [of "unique_id c" "rev (command_events S)"] pl(5) by (auto simp: ev_def life_def)
  have "command_event_code ev < 4" "ev \<noteq> EVT_FAULT" using places by auto
  then obtain s where m: "command_state_fast_access_map H (unique_id c) = Some s" using hist_okD(6) [OF ok l] by auto
  then have "cs_last_event (cs_objects H s) = ev" using hist_okD(5) [OF ok m] l by simp
  then have "getCommandState_rpc (unique_id c) H = Ret (command_event_code ev, None)"
    using m \<open>ev \<noteq> EVT_FAULT\<close> by (simp add: getCommandState_rpc_def getCommandState_def Let_def)
  then show "\<exists>ev. getCommandState_rpc (unique_id c) H = Ret (command_event_code ev, None)
         \<and> (ev = EVT_RUNNING \<longleftrightarrow> currentExecutingCommand S = Some r) \<and> (ev = EVT_PAUSED \<longleftrightarrow> r \<in> set (commandStack S))
         \<and> (r \<in> element ` set (command_submitted_queue S) \<longrightarrow> ev = EVT_QUEUED)
         \<and> (ev = EVT_QUEUED \<longrightarrow> r \<in> element ` set (command_submitted_queue S) \<or> implementedHandler c \<le> 1 \<or> runningProperty c = RP_Fault)
         \<and> ev \<in> {EVT_QUEUED, EVT_RUNNING, EVT_PAUSED}"
    using places by (intro exI [of _ ev]) (rule conjI)
next
  fix S' pc' assume s: "sb_step htop (S, pc) (S', pc')"
  have r: "sb_reach htop (S, pc)" and ok: "hist_ok (rev (command_events S)) H" using exec_reach_ok [OF assms(3,1,2)] by simp_all
  obtain es where es: "command_events S' = command_events S @ es" "\<forall>(u, ev, fd) \<in> set es. ev = EVT_FAULT \<longrightarrow> fd \<noteq> None"
    using step_extends [OF s] by (auto simp: extends_def)
  have "\<forall>u. life_of u (rev (command_events S @ es)) \<noteq> L_bad" using reach_legal [OF assms(1) sb_reach.step [OF r s]] es(1) by simp
  then obtain H' where "handle_events alloc es H = Ret H'" using state_allocator.handle_events_ok [OF assms(2) ok es(2)] by blast
  then show "\<exists>H'. exec_reach htop alloc (S', pc', H')" using exec_reach.step [OF assms(3) s es(1)] by blast
qed

lemma first_command_step:
  "sb_step first_max (idle_sandbox, Sched_locked) (snd (enqueueCommand False 0 first_command 50 idle_sandbox), Sched_locked)"
  by (rule sb_step.enqueue [where r = 0 and c = first_command and dead = False and prio = 50, OF _ _ _ prod.collapse [symmetric]])
    (simp_all add: example_defs command_ok_def batch_consts)

theorem reported_state_is_true_witness:
  "\<exists>H. exec_reach first_max (\<lambda>H. Suc (sum_list (command_state_queue H))) (running_sandbox, Sched_locked, H)
    \<and> getCommandState_rpc 1 H = Ret (command_event_code EVT_RUNNING, None)"
proof -
  note true = reported_state_is_true [OF fm.heap_top_axioms fresh.state_allocator_axioms]
  obtain H1 where "exec_reach first_max (\<lambda>H. Suc (sum_list (command_state_queue H)))
      (snd (enqueueCommand False 0 first_command 50 idle_sandbox), Sched_locked, H1)"
    using true [OF exec_reach.init] first_command_step by blast
  then obtain H where H: "exec_reach first_max (\<lambda>H. Suc (sum_list (command_state_queue H))) (running_sandbox, Sched_locked, H)"
    using true sb_step.check [OF run_ok_nil(1) first_command_starts] by blast
  have "command_heap running_sandbox 0 = Some (first_command\<lparr>already_setupped := True\<rparr>)" "currentExecutingCommand running_sandbox = Some 0"
    "unique_id (first_command\<lparr>already_setupped := True\<rparr>) = 1" by (simp_all add: example_defs)
  then have "getCommandState_rpc 1 H = Ret (command_event_code EVT_RUNNING, None)"
    using true [OF H] by metis
  with H show ?thesis by blast
qed

text \<open>
  C26. Capping the history drops only commands that have ended, the oldest of them first, and exactly as
  many as needed: the states of live commands stay, in queue and map, and the queue has afterwards the
  allowed length, or the number of live commands if there are more of them. The live ones that were passed
  over come back in reverse order.
\<close>

theorem cap_keeps_live_commands:
  assumes "hist_ok log H" and "unat mx < length (command_state_queue H)" and "length (command_state_queue H) < 2 ^ 64" and "0 < mx"
  shows "\<exists>p q. command_state_queue H = p @ q
    \<and> command_state_queue (capCommanaQueue mx H) = rev (filter (\<lambda>s. \<not> state_ended H s) p) @ q
    \<and> length (command_state_queue (capCommanaQueue mx H)) = max (unat mx) (length (filter (\<lambda>s. \<not> state_ended H s) (command_state_queue H)))
    \<and> hist_ok log (capCommanaQueue mx H)"
proof (rule capCommanaQueue_spec [OF assms(2-4)])
  fix p q assume p: "command_state_queue H = p @ q"
    and c: "capCommanaQueue mx H = H\<lparr>command_state_queue := rev (filter (\<lambda>s. \<not> state_ended H s) p) @ q,
       command_state_fast_access_map := (\<lambda>u. if u \<in> (\<lambda>s. cs_command_id (cs_objects H s)) ` set (filter (state_ended H) p) then None else command_state_fast_access_map H u)\<rparr>"
    and n: "length (filter (state_ended H) p) = min (length (command_state_queue H) - unat mx) (length (filter (state_ended H) (command_state_queue H)))"
  have "length (filter (state_ended H) xs) + length (filter (\<lambda>s. \<not> state_ended H s) xs) = length xs" for xs by (rule sum_length_filter_compl)
  note l = this [of p] this [of "command_state_queue H"] n assms(2)
  have "length (command_state_queue H) = length p + length q" by (simp only: p length_append)
  with l have "length (filter (\<lambda>s. \<not> state_ended H s) p) + length q = max (unat mx) (length (filter (\<lambda>s. \<not> state_ended H s) (command_state_queue H)))"
    by linarith
  then show ?thesis using p c cap_ok [OF assms(1,3,4)] by (intro exI [of _ p] exI [of _ q]) simp
qed

definition long_history :: history where
  "long_history = (addComamndState 1 2 (addComamndState 0 1 new_history))
     \<lparr>cs_objects := (cs_objects (addComamndState 1 2 (addComamndState 0 1 new_history)))(0 := \<lparr>cs_command_id = 1, cs_last_event = EVT_COMPLETED, cs_fault_description = no_fault\<rparr>)\<rparr>"

lemma long_history_ok: "hist_ok [(1, EVT_COMPLETED, None), (2, EVT_QUEUED, None), (1, EVT_QUEUED, None)] long_history"
proof -
  have "hist_ok [] new_history" by (simp add: hist_ok_def new_history_def)
  then have "hist_ok [(1, EVT_QUEUED, None)] (addComamndState 0 1 new_history)"
    by (rule add_state_ok) (simp_all add: new_history_def)
  then have "hist_ok [(2, EVT_QUEUED, None), (1, EVT_QUEUED, None)] (addComamndState 1 2 (addComamndState 0 1 new_history))"
    by (rule add_state_ok) (simp_all add: addComamndState_def new_history_def)
  then show ?thesis unfolding long_history_def
    by (rule update_state_ok) (simp_all add: addComamndState_def new_history_def)
qed

theorem cap_keeps_live_commands_witness:
  "command_state_queue long_history = [0, 1] \<and> length (command_state_queue (capCommanaQueue 1 long_history)) = 1
    \<and> hist_ok [(1, EVT_COMPLETED, None), (2, EVT_QUEUED, None), (1, EVT_QUEUED, None)] (capCommanaQueue 1 long_history)"
proof -
  have q: "command_state_queue long_history = [0, 1]" and e: "state_ended long_history 0" "\<not> state_ended long_history 1"
    by (simp_all add: long_history_def addComamndState_def new_history_def state_ended_def)
  have "unat (1 :: u16) < length (command_state_queue long_history)" "length (command_state_queue long_history) < 2 ^ 64" by (simp_all add: q)
  from cap_keeps_live_commands [OF long_history_ok this, simplified] show ?thesis by (auto simp: q e)
qed

text \<open>
  C25. Submitting a command: the command is put into the queue of the requested sandbox (channel 1 by
  default) with the requested priority (50 by default), reported there as \<open>EVT_QUEUED\<close> under the
  identifier that is returned, and the other commands of the sandbox stay as they are. The identifier is
  the next one of the executor's counter, never given before since \<open>init\<close> reset it, and the executor stays
  sound. A request that is refused, with the code of the reason, changes nothing but the counter.
\<close>

theorem submission_outcome:
  fixes E :: executor and d :: submission and on :: bool
  defines "ch \<equiv> (case sub_channel d of None \<Rightarrow> 1 | Some k \<Rightarrow> k)" and "uid \<equiv> command_sequence_id E + 1"
  assumes "heap_top htop" and "executor_ok htop E" and "command_sequence_id E \<noteq> - 1" and "rule_ok d"
    and "\<forall>k S. sandbox_map E k = Some S \<longrightarrow> command_heap S r = None"
  shows "\<exists>res E'. submitCommand on r (Some d) E = (res, E') \<and> executor_ok htop E'
    \<and> (if \<not> on \<or> sandbox_map E ch = None \<or> instanceCommandInfo_alias (sub_alias d) E = None
       then (\<exists>e. res = Throw e) \<and> sandbox_map E' = sandbox_map E
       else res = Ret uid \<and> (\<forall>k S. sandbox_map E k = Some S \<longrightarrow> uid \<notin> fst ` set (command_events S))
         \<and> (\<exists>S S' c. sandbox_map E ch = Some S \<and> sandbox_map E' = (sandbox_map E)(ch := Some S') \<and> unique_id c = uid
              \<and> command_submitted_queue S' = \<lparr>element = r, priority = (case sub_priority d of None \<Rightarrow> 50 | Some p \<Rightarrow> p), disposeOnDestroy = True\<rparr>
                  # command_submitted_queue S
              \<and> currentExecutingCommand S' = currentExecutingCommand S \<and> commandStack S' = commandStack S
              \<and> command_heap S' = (command_heap S)(r := Some c) \<and> command_events S' = command_events S @ [(uid, EVT_QUEUED, None)]))"
proof (cases "\<not> on \<or> sandbox_map E ch = None \<or> instanceCommandInfo_alias (sub_alias d) E = None")
  case True
  then have "\<exists>e. submitCommand on r (Some d) E \<in> {Throw e} \<times> {E, E\<lparr>command_sequence_id := uid\<rparr>}"
    by (auto simp: submitCommand_def ch_def uid_def Let_def instanceCommandInfo_def instanceCommandInfo_alias_def split: option.splits)
  with True show ?thesis using assms(4) count_ok [OF assms(4,5)] by (auto simp: uid_def)
next
  case False
  then obtain S where S: "sandbox_map E ch = Some S" by auto
  let ?E = "E\<lparr>command_sequence_id := uid\<rparr>"
  obtain c where c: "instanceCommandInfo d uid ?E = Some c"
    using False by (auto simp: instanceCommandInfo_def instanceCommandInfo_alias_def)
  have ok: "command_ok c" "unique_id c = uid"
    using instanced_command_ok [OF _ assms(6) c] count_ok [OF assms(4,5)] by (simp_all add: uid_def)
  define prio where "prio = (case sub_priority d of None \<Rightarrow> 50 | Some p \<Rightarrow> p)"
  define S' where "S' = snd (enqueueCommand False r c prio S)"
  have "submitCommand on r (Some d) E = (Ret uid, E\<lparr>command_sequence_id := uid, sandbox_map := (sandbox_map E)(ch := Some S')\<rparr>)"
    using False S c by (simp add: submitCommand_def ch_def [symmetric] uid_def [symmetric] prio_def [symmetric] Let_def S'_def)
  moreover have "command_heap S r = None" using assms(7) S by blast
  note enqueue_in_executor [OF assms(3-5) S this ok(1) ok(2) [unfolded uid_def] S'_def, folded uid_def]
  moreover have "\<forall>k S. sandbox_map E k = Some S \<longrightarrow> uid \<notin> fst ` set (command_events S)" using fresh_id [OF assms(4,5)] by (simp add: uid_def)
  moreover have "command_submitted_queue S' = \<lparr>element = r, priority = (case sub_priority d of None \<Rightarrow> 50 | Some p \<Rightarrow> p), disposeOnDestroy = True\<rparr>
        # command_submitted_queue S" "currentExecutingCommand S' = currentExecutingCommand S" "commandStack S' = commandStack S"
    by (simp_all add: S'_def enqueueCommand_def prio_def)
  ultimately show ?thesis using False S ok(2) by auto
qed

definition one_sandbox :: executor where
  "one_sandbox = \<lparr>command_sequence_id = 0, default_command_alias = '''', default_command_sandbox_instance = 1,
     sandbox_map = [1 \<mapsto> idle_sandbox], sandbox_count = 1, mapCommandInstancer = [''ramp'' \<mapsto> Some (new_BatchCommand 0 0)]\<rparr>"

definition ramp_request :: submission where
  "ramp_request = \<lparr>sub_alias = ''ramp'', sub_rule = Some 1, sub_step_interval = None, sub_retry_delay = None, sub_channel = None, sub_priority = Some 10\<rparr>"

theorem submission_outcome_witness:
  "\<exists>E' S'. submitCommand True 0 (Some ramp_request) one_sandbox = (Ret 1, E') \<and> executor_ok first_max E'
     \<and> sandbox_map E' 1 = Some S' \<and> command_submitted_queue S' = [\<lparr>element = 0, priority = 10, disposeOnDestroy = True\<rparr>]"
proof -
  have "executor_ok first_max one_sandbox"
    using sb_reach.init [of first_max] by (auto simp: executor_ok_def one_sandbox_def example_defs batch_consts split: if_splits)
  moreover have "command_sequence_id one_sandbox \<noteq> - 1" "rule_ok ramp_request"
      "\<forall>k S. sandbox_map one_sandbox k = Some S \<longrightarrow> command_heap S 0 = None"
    by (auto simp: one_sandbox_def ramp_request_def rule_ok_def example_defs split: if_splits)
  ultimately obtain res E' S S' where *: "submitCommand True 0 (Some ramp_request) one_sandbox = (res, E')" "executor_ok first_max E'"
      "res = Ret (command_sequence_id one_sandbox + 1)" "sandbox_map one_sandbox 1 = Some S" "sandbox_map E' = (sandbox_map one_sandbox)(1 := Some S')"
      "command_submitted_queue S' = \<lparr>element = 0, priority = 10, disposeOnDestroy = True\<rparr> # command_submitted_queue S"
    using submission_outcome [OF fm.heap_top_axioms, where E = one_sandbox and d = ramp_request and on = True and r = 0]
    by (fastforce simp: one_sandbox_def ramp_request_def instanceCommandInfo_alias_def)
  then show ?thesis by (auto simp: one_sandbox_def example_defs)
qed

end
