(* ===== verification/Data_Wrapper.thy ===== *)
theory Data_Wrapper
  imports Chaos_Prelude
begin

text \<open>
  \<open>data/CDataWrapper.cpp\<close>: the document in which every message of the framework travels. It wraps a BSON
  builder, to which fields are only ever appended, and a second builder for an array that is being filled.
  A document is the list of its fields; looking one up finds the first with the name, as \<open>BSONObj::getField\<close>
  does. A typed getter on a field that is missing or of another type raises a \<open>MsgAssertionException\<close>, which
  is not a \<open>CException\<close> (here \<open>None\<close>); the numeric getters convert and give 0 instead. Doubles and the
  JSON and MD5 forms are left out.
\<close>

datatype bson_value =
    B_int32 u32 | B_int64 u64 | B_bool bool | B_string string | B_bin "u8 list"
  | B_object "(string \<times> bson_value) list" | B_array "bson_value list"

type_synonym bson = "(string \<times> bson_value) list"

record data_wrapper =
  bsonBuilder :: bson
  bsonArrayBuilder :: "bson_value list"

definition new_CDataWrapper :: data_wrapper where
  "new_CDataWrapper = \<lparr>bsonBuilder = [], bsonArrayBuilder = []\<rparr>"

text \<open>The constructor from a serialized document, and \<open>setSerializedData\<close>, which appends its fields.\<close>

definition setSerializedData :: "bson \<Rightarrow> data_wrapper \<Rightarrow> data_wrapper" where
  "setSerializedData bsonData w = w\<lparr>bsonBuilder := bsonBuilder w @ bsonData\<rparr>"

definition getBSONData :: "data_wrapper \<Rightarrow> bson" where
  "getBSONData w = bsonBuilder w"

definition clone :: "data_wrapper \<Rightarrow> data_wrapper" where
  "clone w = setSerializedData (bsonBuilder w) new_CDataWrapper"

definition reset :: "data_wrapper \<Rightarrow> data_wrapper" where
  "reset w = w\<lparr>bsonBuilder := []\<rparr>"

definition appendAllElement :: "data_wrapper \<Rightarrow> data_wrapper \<Rightarrow> data_wrapper" where
  "appendAllElement src w = w\<lparr>bsonBuilder := bsonBuilder w @ bsonBuilder src\<rparr>"

section \<open>Adding fields\<close>

definition add_field :: "string \<Rightarrow> bson_value \<Rightarrow> data_wrapper \<Rightarrow> data_wrapper" where
  "add_field key v w = w\<lparr>bsonBuilder := bsonBuilder w @ [(key, v)]\<rparr>"

text \<open>The builder's length counts its four-byte size field, so the test for an empty document never holds.\<close>

definition addCSDataValue :: "string \<Rightarrow> data_wrapper \<Rightarrow> data_wrapper \<Rightarrow> data_wrapper" where
  "addCSDataValue key csData w = add_field key (B_object (bsonBuilder csData)) w"

definition addStringValue :: "string \<Rightarrow> string \<Rightarrow> data_wrapper \<Rightarrow> data_wrapper" where
  "addStringValue key strValue w = add_field key (B_string strValue) w"

definition addInt32Value :: "string \<Rightarrow> u32 \<Rightarrow> data_wrapper \<Rightarrow> data_wrapper" where
  "addInt32Value key i32Value w = add_field key (B_int32 i32Value) w"

definition addInt64Value :: "string \<Rightarrow> u64 \<Rightarrow> data_wrapper \<Rightarrow> data_wrapper" where
  "addInt64Value key i64Value w = add_field key (B_int64 i64Value) w"

definition addBoolValue :: "string \<Rightarrow> bool \<Rightarrow> data_wrapper \<Rightarrow> data_wrapper" where
  "addBoolValue key boolValue w = add_field key (B_bool boolValue) w"

definition addBinaryValue :: "string \<Rightarrow> u8 list \<Rightarrow> data_wrapper \<Rightarrow> data_wrapper" where
  "addBinaryValue key buff w = add_field key (B_bin buff) w"

text \<open>The four functions that append to the open array, by the type of the element, and the one that closes it.\<close>

definition append_to_array :: "bson_value \<Rightarrow> data_wrapper \<Rightarrow> data_wrapper" where
  "append_to_array v w = w\<lparr>bsonArrayBuilder := bsonArrayBuilder w @ [v]\<rparr>"

definition finalizeArrayForKey :: "string \<Rightarrow> data_wrapper \<Rightarrow> data_wrapper" where
  "finalizeArrayForKey key w =
     w\<lparr>bsonBuilder := bsonBuilder w @ [(key, B_array (bsonArrayBuilder w))], bsonArrayBuilder := []\<rparr>"

lemmas add_defs = addCSDataValue_def addStringValue_def addInt32Value_def addInt64Value_def addBoolValue_def addBinaryValue_def add_field_def

section \<open>Reading fields\<close>

definition getField :: "string \<Rightarrow> data_wrapper \<Rightarrow> bson_value option" where
  "getField key w = map_of (bsonBuilder w) key"

definition hasKey :: "string \<Rightarrow> data_wrapper \<Rightarrow> bool" where
  "hasKey key w = (getField key w \<noteq> None)"

definition getStringValue :: "string \<Rightarrow> data_wrapper \<Rightarrow> string option" where
  "getStringValue key w = (case getField key w of Some (B_string s) \<Rightarrow> Some s | _ \<Rightarrow> None)"

definition getBoolValue :: "string \<Rightarrow> data_wrapper \<Rightarrow> bool option" where
  "getBoolValue key w = (case getField key w of Some (B_bool b) \<Rightarrow> Some b | _ \<Rightarrow> None)"

definition getInt32Value :: "string \<Rightarrow> data_wrapper \<Rightarrow> u32" where
  "getInt32Value key w = (case getField key w of Some (B_int32 i) \<Rightarrow> i | Some (B_int64 i) \<Rightarrow> ucast i | _ \<Rightarrow> 0)"

definition getInt64Value :: "string \<Rightarrow> data_wrapper \<Rightarrow> u64" where
  "getInt64Value key w = (case getField key w of Some (B_int32 i) \<Rightarrow> scast i | Some (B_int64 i) \<Rightarrow> i | _ \<Rightarrow> 0)"

definition getBinaryValue :: "string \<Rightarrow> data_wrapper \<Rightarrow> u8 list option" where
  "getBinaryValue key w = (case getField key w of Some (B_bin b) \<Rightarrow> Some b | _ \<Rightarrow> None)"

text \<open>An array read as an object has its indices as field names.\<close>

fun decimal :: "nat \<Rightarrow> string" where
  "decimal n = (if n < 10 then [char_of (48 + n)] else decimal (n div 10) @ [char_of (48 + n mod 10)])"

declare decimal.simps [simp del]

definition array_fields :: "bson_value list \<Rightarrow> bson" where
  "array_fields vs = map (\<lambda>i. (decimal i, vs ! i)) [0..<length vs]"

definition getCSDataValue :: "string \<Rightarrow> data_wrapper \<Rightarrow> data_wrapper" where
  "getCSDataValue key w =
     setSerializedData (case getField key w of Some (B_object d) \<Rightarrow> d | Some (B_array vs) \<Rightarrow> array_fields vs | _ \<Rightarrow> []) new_CDataWrapper"

definition getVectorValue :: "string \<Rightarrow> data_wrapper \<Rightarrow> bson_value list option" where
  "getVectorValue key w = (case getField key w of Some (B_array vs) \<Rightarrow> Some vs | _ \<Rightarrow> None)"

lemmas get_defs = getField_def hasKey_def getStringValue_def getBoolValue_def getInt32Value_def getInt64Value_def getBinaryValue_def
  getCSDataValue_def getVectorValue_def

text \<open>
  Reading an element of an array by its index: no field at an index that is out of range (an undefined
  access in C++), and the typed getters assert as above.
\<close>

definition getStringElementAtIndex :: "bson_value list \<Rightarrow> nat \<Rightarrow> string option outcome" where
  "getStringElementAtIndex vs pos = (if pos < length vs then Ret (case vs ! pos of B_string s \<Rightarrow> Some s | _ \<Rightarrow> None) else Fault)"

definition getInt32ElementAtIndex :: "bson_value list \<Rightarrow> nat \<Rightarrow> u32 option outcome" where
  "getInt32ElementAtIndex vs pos = (if pos < length vs then Ret (case vs ! pos of B_int32 i \<Rightarrow> Some i | _ \<Rightarrow> None) else Fault)"

definition getint64ElementAtIndex :: "bson_value list \<Rightarrow> nat \<Rightarrow> u64 option outcome" where
  "getint64ElementAtIndex vs pos = (if pos < length vs then Ret (case vs ! pos of B_int64 i \<Rightarrow> Some i | _ \<Rightarrow> None) else Fault)"

text \<open>A string getter on a field of another type raises an exception of the BSON library, which callers see as an error.\<close>

definition bson_assertion :: cexception where
  "bson_assertion = CException 13111 ''wrong type for field'' ''bson''"

definition string_param :: "string \<Rightarrow> data_wrapper \<Rightarrow> string outcome" where
  "string_param key d = (case getStringValue key d of None \<Rightarrow> Throw bson_assertion | Some s \<Rightarrow> Ret s)"

section \<open>Round trips\<close>

text \<open>A field is found as it was added, if its name was new, and the other fields stay: the first entry of a name wins.\<close>

lemma getField_add [simp]:
  "getField key (add_field k v w) = (if getField k w = None \<and> k = key then Some v else getField key w)"
  by (auto simp: getField_def add_field_def map_add_def split: option.splits)

lemma getField_new [simp]: "getField key new_CDataWrapper = None"
  by (simp add: getField_def new_CDataWrapper_def)

lemma getField_serialized [simp]: "getField key (setSerializedData d new_CDataWrapper) = map_of d key"
  by (simp add: getField_def setSerializedData_def new_CDataWrapper_def)

lemma serialize_roundtrip: "getBSONData (setSerializedData (getBSONData w) new_CDataWrapper) = getBSONData w"
  by (simp add: getBSONData_def setSerializedData_def new_CDataWrapper_def)

lemma map_of_getBSONData [simp]: "map_of (getBSONData w) key = getField key w"
  by (simp add: getField_def getBSONData_def)

lemma getField_clone [simp]: "getField key (clone w) = getField key w"
  by (simp add: clone_def getField_def setSerializedData_def new_CDataWrapper_def)

lemma getCSDataValue_added:
  "getField key w = None \<Longrightarrow> bsonBuilder (getCSDataValue key (addCSDataValue key v w)) = bsonBuilder v"
  by (simp add: getCSDataValue_def addCSDataValue_def setSerializedData_def new_CDataWrapper_def)

lemma array_roundtrip:
  assumes "getField key w = None" and "bsonArrayBuilder w = []"
  shows "getVectorValue key (finalizeArrayForKey key (fold append_to_array vs w)) = Some vs"
proof -
  have "bsonArrayBuilder (fold append_to_array vs w) = bsonArrayBuilder w @ vs \<and> bsonBuilder (fold append_to_array vs w) = bsonBuilder w" for vs
    by (induction vs arbitrary: w) (simp_all add: append_to_array_def)
  then show ?thesis using assms by (simp add: getVectorValue_def getField_def finalizeArrayForKey_def map_add_def split: option.splits)
qed

end
