(* ===== verification/Rpc_Dispatch.thy ===== *)
theory Rpc_Dispatch
  imports Data_Wrapper Processing_Queue "HOL-Library.AList"
begin

text \<open>
  Dispatching of remote calls: action descriptors and the domains they are registered in
  (\<open>action/ActionDescriptor.cpp\<close>, \<open>DomainActions.cpp\<close>), the dispatcher that queues a received message for the
  scheduler of its domain (\<open>dispatcher/AbstractCommandDispatcher.cpp\<close>, \<open>DefaultCommandDispatcher.cpp\<close>), and the
  scheduler that calls the action and sends the answer (\<open>DomainActionsScheduler.cpp\<close>). Descriptors and domains
  are held by shared pointers; an object lives as long as something points to it, so its address is never used
  again. What an action does is a parameter: it changes an environment and ends like any call. An exception
  other than \<open>CException\<close> violates the exception specification of \<open>call\<close> and of \<open>processBufferElement\<close> and ends the
  process (\<open>Fault\<close>).
\<close>

section \<open>Keys of a message\<close>

definition CS_CMDM_ACTION_DOMAIN :: string where "CS_CMDM_ACTION_DOMAIN = ''cs|cmdm|act_domain''"
definition CS_CMDM_ACTION_NAME :: string where "CS_CMDM_ACTION_NAME = ''cs|cmdm|act_name''"
definition CS_CMDM_ACTION_MESSAGE :: string where "CS_CMDM_ACTION_MESSAGE = ''cs|cmdm|act_msg''"
definition CS_CMDM_MESSAGE_ID :: string where "CS_CMDM_MESSAGE_ID = ''cs|cmdm|act_msg_id''"
definition CS_CMDM_ACTION_SUBMISSION_ERROR_MESSAGE :: string where "CS_CMDM_ACTION_SUBMISSION_ERROR_MESSAGE = ''cs|cmdm|act_sub_emsg''"
definition CS_CMDM_ACTION_SUBMISSION_ERROR_DOMAIN :: string where "CS_CMDM_ACTION_SUBMISSION_ERROR_DOMAIN = ''cs|cmdm|act_sub_edom''"
definition CS_CMDM_ACTION_SUBMISSION_ERROR_CODE :: string where "CS_CMDM_ACTION_SUBMISSION_ERROR_CODE = ''cs|cmdm|act_sub_ecode''"
definition CS_CMDM_SUB_CMD :: string where "CS_CMDM_SUB_CMD = ''cs|cmdm|sub_cmd''"
definition CS_CMDM_ANSWER_HOST_IP :: string where "CS_CMDM_ANSWER_HOST_IP = ''cs|cmdm|rh_ans_ip''"
definition CS_CMDM_ANSWER_DOMAIN :: string where "CS_CMDM_ANSWER_DOMAIN = ''cs|cmdm|rh_ans_domain''"
definition CS_CMDM_ANSWER_ACTION :: string where "CS_CMDM_ANSWER_ACTION = ''cs|cmdm|rh_ans_action''"
definition CS_CMDM_ANSWER_ID :: string where "CS_CMDM_ANSWER_ID = ''cs|cmdm|rh_ans_msg_id''"
definition CS_CMDM_REMOTE_HOST_IP :: string where "CS_CMDM_REMOTE_HOST_IP = ''cs|cmdm|rh_ip''"

lemmas rpc_keys = CS_CMDM_ACTION_DOMAIN_def CS_CMDM_ACTION_NAME_def CS_CMDM_ACTION_MESSAGE_def CS_CMDM_MESSAGE_ID_def
  CS_CMDM_ACTION_SUBMISSION_ERROR_MESSAGE_def CS_CMDM_ACTION_SUBMISSION_ERROR_DOMAIN_def CS_CMDM_ACTION_SUBMISSION_ERROR_CODE_def
  CS_CMDM_SUB_CMD_def CS_CMDM_ANSWER_HOST_IP_def CS_CMDM_ANSWER_DOMAIN_def CS_CMDM_ANSWER_ACTION_def CS_CMDM_ANSWER_ID_def
  CS_CMDM_REMOTE_HOST_IP_def

section \<open>Actions and domains\<close>

record action_descriptor =
  actionDomain :: string
  actionName :: string
  fired :: bool
  enabled :: bool

definition new_ActionDescriptor :: "string \<Rightarrow> string \<Rightarrow> action_descriptor" where
  "new_ActionDescriptor domain_name action_name = \<lparr>actionDomain = domain_name, actionName = action_name, fired = False, enabled = True\<rparr>"

definition setFired :: "bool \<Rightarrow> action_descriptor \<Rightarrow> bool \<times> action_descriptor" where
  "setFired f a = (f \<and> enabled a, a\<lparr>fired := f \<and> enabled a\<rparr>)"

definition setEnabled :: "bool \<Rightarrow> action_descriptor \<Rightarrow> action_descriptor" where
  "setEnabled e a = a\<lparr>enabled := e\<rparr>"

record domain_actions =
  domainName :: string
  actionDescriptionsMap :: "(string \<times> nat) list"

definition new_DomainActions :: "string \<Rightarrow> domain_actions" where
  "new_DomainActions name = \<lparr>domainName = name, actionDescriptionsMap = []\<rparr>"

text \<open>\<open>std::map::insert\<close> keeps an entry that is there.\<close>

definition addActionDescriptor :: "(nat \<Rightarrow> action_descriptor) \<Rightarrow> nat \<Rightarrow> domain_actions \<Rightarrow> bool \<times> domain_actions" where
  "addActionDescriptor descs p dmn =
     (if actionDomain (descs p) \<noteq> domainName dmn then (False, dmn)
      else (True, dmn\<lparr>actionDescriptionsMap :=
              (case map_of (actionDescriptionsMap dmn) (actionName (descs p)) of
                 None \<Rightarrow> (actionName (descs p), p) # actionDescriptionsMap dmn | Some _ \<Rightarrow> actionDescriptionsMap dmn)\<rparr>))"

definition removeActionDescriptor ::
  "nat \<Rightarrow> (nat \<Rightarrow> action_descriptor) \<Rightarrow> domain_actions \<Rightarrow> (nat \<Rightarrow> action_descriptor) \<times> domain_actions" where
  "removeActionDescriptor p descs dmn =
     (if actionDomain (descs p) \<noteq> domainName dmn then (descs, dmn)
      else (descs(p := setEnabled False (descs p)), dmn\<lparr>actionDescriptionsMap := AList.delete (actionName (descs p)) (actionDescriptionsMap dmn)\<rparr>))"

definition registeredActions :: "domain_actions \<Rightarrow> u32" where
  "registeredActions dmn = of_nat (length (actionDescriptionsMap dmn))"

definition hasActionName :: "string \<Rightarrow> domain_actions \<Rightarrow> bool" where
  "hasActionName act dmn = (map_of (actionDescriptionsMap dmn) act \<noteq> None)"

section \<open>The dispatcher\<close>

record das =
  armed :: bool
  das_queue :: "bson cqueue"
  domainActionsContainer :: nat

record rpc_dispatcher =
  actionDomainExecutorMap :: "string \<Rightarrow> nat option"
  domain_objects :: "nat \<Rightarrow> domain_actions"
  domain_next :: nat
  das_map :: "string \<Rightarrow> das option"
  descriptors :: "nat \<Rightarrow> action_descriptor"

definition new_dispatcher :: "(nat \<Rightarrow> action_descriptor) \<Rightarrow> rpc_dispatcher" where
  "new_dispatcher descs = \<lparr>actionDomainExecutorMap = (\<lambda>_. None), domain_objects = (\<lambda>_. new_DomainActions ''''), domain_next = 0,
     das_map = (\<lambda>_. None), descriptors = descs\<rparr>"

definition getDomainActionsFromName :: "string \<Rightarrow> rpc_dispatcher \<Rightarrow> nat \<times> rpc_dispatcher" where
  "getDomainActionsFromName name D =
     (case actionDomainExecutorMap D name of
        Some i \<Rightarrow> (i, D)
      | None \<Rightarrow>
          let i = domain_next D in
          (i, D\<lparr>actionDomainExecutorMap := (actionDomainExecutorMap D)(name := Some i),
                domain_objects := (domain_objects D)(i := new_DomainActions name), domain_next := i + 1\<rparr>))"

definition register_one :: "nat \<Rightarrow> rpc_dispatcher \<Rightarrow> rpc_dispatcher" where
  "register_one p D =
     (case getDomainActionsFromName (actionDomain (descriptors D p)) D of
        (i, D) \<Rightarrow> D\<lparr>domain_objects := (domain_objects D)(i := snd (addActionDescriptor (descriptors D) p (domain_objects D i)))\<rparr>)"

definition abstract_registerAction :: "nat list \<Rightarrow> rpc_dispatcher \<Rightarrow> rpc_dispatcher" where
  "abstract_registerAction ds D = fold register_one ds D"

text \<open>A scheduler is created and armed for every domain that has none.\<close>

definition schedule_one :: "nat \<Rightarrow> rpc_dispatcher \<Rightarrow> rpc_dispatcher" where
  "schedule_one p D =
     (let name = actionDomain (descriptors D p) in
      case das_map D name of
        Some _ \<Rightarrow> D
      | None \<Rightarrow>
          (case getDomainActionsFromName name D of
             (i, D) \<Rightarrow> D\<lparr>das_map := (das_map D)(name := Some \<lparr>armed = True, das_queue = cq_new, domainActionsContainer = i\<rparr>)\<rparr>))"

definition registerAction :: "nat list \<Rightarrow> rpc_dispatcher \<Rightarrow> rpc_dispatcher" where
  "registerAction ds D = fold schedule_one ds (abstract_registerAction ds D)"

definition deregister_one :: "nat \<Rightarrow> rpc_dispatcher \<Rightarrow> rpc_dispatcher" where
  "deregister_one p D =
     (case getDomainActionsFromName (actionDomain (descriptors D p)) D of
        (i, D) \<Rightarrow>
          (case removeActionDescriptor p (descriptors D) (domain_objects D i) of
             (descs, dmn) \<Rightarrow>
               D\<lparr>descriptors := descs, domain_objects := (domain_objects D)(i := dmn),
                 actionDomainExecutorMap :=
                   (if registeredActions dmn = 0 then (actionDomainExecutorMap D)(domainName dmn := None) else actionDomainExecutorMap D)\<rparr>))"

definition abstract_deregisterAction :: "nat list \<Rightarrow> rpc_dispatcher \<Rightarrow> rpc_dispatcher" where
  "abstract_deregisterAction ds D = fold deregister_one ds D"

definition unschedule_one :: "nat \<Rightarrow> rpc_dispatcher \<Rightarrow> rpc_dispatcher" where
  "unschedule_one p D =
     (let name = actionDomain (descriptors D p) in
      if das_map D name \<noteq> None \<and> actionDomainExecutorMap D name = None then D\<lparr>das_map := (das_map D)(name := None)\<rparr> else D)"

definition deregisterAction :: "nat list \<Rightarrow> rpc_dispatcher \<Rightarrow> rpc_dispatcher" where
  "deregisterAction ds D = fold unschedule_one ds (abstract_deregisterAction ds D)"

definition dispatcher_deinit_das :: "rpc_dispatcher \<Rightarrow> rpc_dispatcher" where
  "dispatcher_deinit_das D = D\<lparr>das_map := (\<lambda>_. None)\<rparr>"

text \<open>
  \<open>dispatchCommand\<close> queues a message, or deletes it and tells why. The result is the acknowledgement, and
  whether the message was queued.
\<close>

definition das_push :: "bson \<Rightarrow> das \<Rightarrow> (bool \<times> das) outcome" where
  "das_push pack s =
     (if \<not> armed s then Throw (CException 0 ''Action can't be submitted, scheduler is not armed'' ''DomainActionsScheduler::push'')
      else case cq_push pack (das_queue s) of (ok, q) \<Rightarrow> Ret (ok, s\<lparr>das_queue := q\<rparr>))"

definition pretty_dispatchCommand :: string where
  "pretty_dispatchCommand = ''virtual chaos::common::data::CDataWrapper* chaos::DefaultCommandDispatcher::dispatchCommand(chaos::common::data::CDataWrapper*)''"

definition error_pack :: "cexception \<Rightarrow> bson" where
  "error_pack e =
     [(CS_CMDM_ACTION_SUBMISSION_ERROR_MESSAGE, B_string (errorMessage e)), (CS_CMDM_ACTION_SUBMISSION_ERROR_DOMAIN, B_string (errorDomain e)),
      (CS_CMDM_ACTION_SUBMISSION_ERROR_CODE, B_int32 (of_int (errorCode e)))]"

definition dispatchCommand :: "bson option \<Rightarrow> rpc_dispatcher \<Rightarrow> bson \<times> bool \<times> rpc_dispatcher" where
  "dispatchCommand commandPack D =
     (case commandPack of
        None \<Rightarrow> ([], False, D)
      | Some pack \<Rightarrow>
          let w = setSerializedData pack new_CDataWrapper in
          if \<not> hasKey CS_CMDM_ACTION_DOMAIN w then (error_pack (CException 0 ''Action Call with no action domain'' pretty_dispatchCommand), False, D)
          else if \<not> hasKey CS_CMDM_ACTION_NAME w then (error_pack (CException 1 ''Action Call with no action name'' pretty_dispatchCommand), False, D)
          else case getStringValue CS_CMDM_ACTION_DOMAIN w of
                 None \<Rightarrow> ([(CS_CMDM_ACTION_SUBMISSION_ERROR_CODE, B_int32 1), (CS_CMDM_ACTION_SUBMISSION_ERROR_MESSAGE, B_string ''Unmanaged error'')], False, D)
               | Some action_domain \<Rightarrow>
                   (case das_map D action_domain of
                      None \<Rightarrow> (error_pack (CException 3 ''Action Domain not registered'' pretty_dispatchCommand), False, D)
                    | Some s \<Rightarrow>
                        (case das_push pack s of
                           Ret (True, s') \<Rightarrow>
                             ([(CS_CMDM_ACTION_SUBMISSION_ERROR_CODE, B_int32 0)], True, D\<lparr>das_map := (das_map D)(action_domain := Some s')\<rparr>)
                         | Ret (False, s') \<Rightarrow> (error_pack (CException 1 ''No more space in queue'' pretty_dispatchCommand), False, D)
                         | Throw e \<Rightarrow> (error_pack e, False, D)
                         | Fault \<Rightarrow> ([], False, D))))"

section \<open>Sending\<close>

text \<open>
  The RPC client (\<open>rpc/zmq/ZMQClient.cpp\<close>) queues what it is asked to send; a worker hands each message to the
  socket of its destination and waits for the acknowledgement. How the exchange ends is a parameter: the
  socket could not be made (its mutex is then taken through a null pointer), the message was not sent, or no
  acknowledgement came. A message that fails is dropped; the sender is not told.
\<close>

type_synonym forward_info = "string \<times> bson"

datatype zmq_exchange = No_socket | Init_failed | Send_failed | Receive_failed | Acknowledged

record rpc_client =
  client_queue :: "forward_info cqueue"
  forwarded :: "forward_info list"

definition zmq_processBufferElement :: "zmq_exchange \<Rightarrow> forward_info \<Rightarrow> rpc_client \<Rightarrow> rpc_client outcome" where
  "zmq_processBufferElement x messageInfo c =
     (case x of
        No_socket \<Rightarrow> Fault
      | Init_failed \<Rightarrow> Ret c
      | Send_failed \<Rightarrow> Ret c
      | _ \<Rightarrow> Ret (c\<lparr>forwarded := forwarded c @ [messageInfo]\<rparr>))"

text \<open>
  Without a destination the handler of the exception deletes the message and then its carrier, whose
  destructor deletes the message again. A full queue loses the message, and the result is true all the same.
\<close>

definition zmq_submitMessage :: "zmq_exchange \<Rightarrow> bool \<Rightarrow> forward_info \<Rightarrow> rpc_client \<Rightarrow> (bool \<times> rpc_client) outcome" where
  "zmq_submitMessage x onThisThread forwardInfo c =
     (if fst forwardInfo = '''' then Fault
      else if onThisThread then obind (zmq_processBufferElement x forwardInfo c) (\<lambda>c. Ret (True, c))
      else Ret (True, c\<lparr>client_queue := snd (cq_push forwardInfo (client_queue c))\<rparr>))"

definition zmq_worker_step :: "zmq_exchange \<Rightarrow> rpc_client \<Rightarrow> rpc_client outcome" where
  "zmq_worker_step x c =
     (case cq_waitAndPop (client_queue c) of
        (Pop_returns (Some m), q) \<Rightarrow> zmq_processBufferElement x m (c\<lparr>client_queue := q\<rparr>)
      | (_, q) \<Rightarrow> Ret (c\<lparr>client_queue := q\<rparr>))"

section \<open>The scheduler of a domain\<close>

record 'e node =
  disp :: rpc_dispatcher
  client :: rpc_client
  env :: 'e

type_synonym 'e action_call = "nat \<Rightarrow> data_wrapper option \<Rightarrow> 'e \<Rightarrow> (data_wrapper option \<times> bool) outcome \<times> 'e"

definition set_desc :: "nat \<Rightarrow> action_descriptor \<Rightarrow> 'e node \<Rightarrow> 'e node" where
  "set_desc p a N = N\<lparr>disp := (disp N)\<lparr>descriptors := (descriptors (disp N))(p := a)\<rparr>\<rparr>"

text \<open>Where the answer goes: nowhere, or to an address with a request number, a domain and an action. A field of the wrong type asserts.\<close>

definition answer_info :: "data_wrapper \<Rightarrow> (u32 \<times> string \<times> string \<times> string) option option" where
  "answer_info w =
     (if hasKey CS_CMDM_ANSWER_ID w \<and> hasKey CS_CMDM_ANSWER_HOST_IP w
      then case getStringValue CS_CMDM_ANSWER_HOST_IP w of
             None \<Rightarrow> None
           | Some ip \<Rightarrow>
               if hasKey CS_CMDM_ANSWER_DOMAIN w \<and> hasKey CS_CMDM_ANSWER_ACTION w
               then case (getStringValue CS_CMDM_ANSWER_DOMAIN w, getStringValue CS_CMDM_ANSWER_ACTION w) of
                      (Some d, Some a) \<Rightarrow> Some (Some (getInt32Value CS_CMDM_ANSWER_ID w, ip, d, a)) | _ \<Rightarrow> None
               else Some (Some (getInt32Value CS_CMDM_ANSWER_ID w, ip, '''', ''''))
      else Some None)"

definition remote_result :: "(data_wrapper option \<times> bool) outcome \<Rightarrow> data_wrapper" where
  "remote_result out =
     (case out of
        Ret (r, _) \<Rightarrow>
          addInt32Value CS_CMDM_ACTION_SUBMISSION_ERROR_CODE 0
            (case r of None \<Rightarrow> new_CDataWrapper | Some res \<Rightarrow> addCSDataValue CS_CMDM_ACTION_MESSAGE res new_CDataWrapper)
      | Throw ex \<Rightarrow>
          addStringValue CS_CMDM_ACTION_SUBMISSION_ERROR_MESSAGE (errorMessage ex)
            (addStringValue CS_CMDM_ACTION_SUBMISSION_ERROR_DOMAIN (errorDomain ex)
              (addInt32Value CS_CMDM_ACTION_SUBMISSION_ERROR_CODE (of_int (errorCode ex)) new_CDataWrapper))
      | Fault \<Rightarrow> new_CDataWrapper)"

definition response_pack :: "u32 \<times> string \<times> string \<times> string \<Rightarrow> data_wrapper \<Rightarrow> data_wrapper" where
  "response_pack ans remote =
     (case ans of
        (answerID, answerIP, answerDomain, answerAction) \<Rightarrow>
          let remote = addInt32Value CS_CMDM_MESSAGE_ID answerID remote;
              pack = addStringValue CS_CMDM_REMOTE_HOST_IP answerIP new_CDataWrapper;
              pack = (if answerDomain \<noteq> '''' \<and> answerAction \<noteq> ''''
                      then addStringValue CS_CMDM_ACTION_NAME answerAction (addStringValue CS_CMDM_ACTION_DOMAIN answerDomain pack) else pack)
          in addCSDataValue CS_CMDM_ACTION_MESSAGE remote pack)"

text \<open>\<open>cont\<close> is the domain the scheduler was made for. A message for an action that is not there, or not enabled, is dropped without an answer.\<close>

definition das_processBufferElement :: "'e action_call \<Rightarrow> nat \<Rightarrow> bson \<Rightarrow> 'e node \<Rightarrow> 'e node outcome" where
  "das_processBufferElement call_action cont pack N =
     (let w = setSerializedData pack new_CDataWrapper in
      case getStringValue CS_CMDM_ACTION_NAME w of
        None \<Rightarrow> Fault
      | Some act \<Rightarrow>
          (case map_of (actionDescriptionsMap (domain_objects (disp N) cont)) act of
             None \<Rightarrow> Ret N
           | Some p \<Rightarrow>
               let (canFire, a) = setFired True (descriptors (disp N) p); N = set_desc p a N in
               if \<not> canFire then Ret N
               else
                 (let actionMessage = (if hasKey CS_CMDM_ACTION_MESSAGE w then Some (getCSDataValue CS_CMDM_ACTION_MESSAGE w) else None);
                      subCommand = (if hasKey CS_CMDM_SUB_CMD w then Some (getBSONData (getCSDataValue CS_CMDM_SUB_CMD w)) else None) in
                  case answer_info w of
                    None \<Rightarrow> Fault
                  | Some ans \<Rightarrow>
                      (case call_action p actionMessage (env N) of
                         (out, e) \<Rightarrow>
                           if out = Fault then Fault
                           else
                             let N = N\<lparr>env := e\<rparr>;
                                 N = (case (out, subCommand) of
                                        (Ret _, Some s) \<Rightarrow> N\<lparr>disp := snd (snd (dispatchCommand (Some s) (disp N)))\<rparr> | _ \<Rightarrow> N) in
                             obind (case ans of
                                      None \<Rightarrow> Ret N
                                    | Some i \<Rightarrow>
                                        obind (zmq_submitMessage Acknowledged False (fst (snd i), getBSONData (response_pack i (remote_result out))) (client N)) (\<lambda>(_, c).
                                        Ret (N\<lparr>client := c\<rparr>))) (\<lambda>N.
                             Ret (set_desc p (snd (setFired False (descriptors (disp N) p))) N))))))"

end
