(* ===== verification/Rpc_Registry.thy ===== *)
theory Rpc_Registry
  imports Rpc_Dispatch
begin

text \<open>
  The registry of actions: what registering and deregistering do to the tables of the dispatcher. The
  scheduler of a domain always works on the domain's current table, also when domains come and go.
\<close>

section \<open>The tables\<close>

definition maps_ok :: "rpc_dispatcher \<Rightarrow> bool" where
  "maps_ok D \<longleftrightarrow> (\<forall>n i. actionDomainExecutorMap D n = Some i \<longrightarrow> i < domain_next D \<and> domainName (domain_objects D i) = n
     \<and> (\<forall>a p. map_of (actionDescriptionsMap (domain_objects D i)) a = Some p
          \<longrightarrow> actionName (descriptors D p) = a \<and> actionDomain (descriptors D p) = n))"

definition das_ok :: "rpc_dispatcher \<Rightarrow> bool" where
  "das_ok D \<longleftrightarrow> (\<forall>n s. das_map D n = Some s \<longrightarrow> armed s \<and> actionDomainExecutorMap D n = Some (domainActionsContainer s))"

definition disp_inv :: "rpc_dispatcher \<Rightarrow> bool" where
  "disp_inv D \<longleftrightarrow> maps_ok D \<and> das_ok D"

text \<open>The descriptor an action is found under, through the table of its domain.\<close>

definition lookup :: "rpc_dispatcher \<Rightarrow> string \<Rightarrow> string \<Rightarrow> nat option" where
  "lookup D n a = (case actionDomainExecutorMap D n of None \<Rightarrow> None | Some i \<Rightarrow> map_of (actionDescriptionsMap (domain_objects D i)) a)"

abbreviation dom_of :: "rpc_dispatcher \<Rightarrow> nat \<Rightarrow> string" where
  "dom_of D p \<equiv> actionDomain (descriptors D p)"

abbreviation name_of :: "rpc_dispatcher \<Rightarrow> nat \<Rightarrow> string" where
  "name_of D p \<equiv> actionName (descriptors D p)"

lemma lookup_das [simp]: "lookup (D\<lparr>das_map := x\<rparr>) = lookup D"
  by (simp add: lookup_def fun_eq_iff split: option.split)

lemma getDomain_spec:
  assumes "maps_ok D" and "getDomainActionsFromName n D = (i, D')"
  shows "maps_ok D'" and "actionDomainExecutorMap D' = (actionDomainExecutorMap D)(n := Some i)" and "domainName (domain_objects D' i) = n"
    and "lookup D' = lookup D" and "das_map D' = das_map D" and "descriptors D' = descriptors D"
    and "actionDomainExecutorMap D n = Some j \<Longrightarrow> i = j"
proof -
  have u: "actionDomainExecutorMap D m = Some k \<Longrightarrow> k \<noteq> domain_next D" for m k using assms(1) by (auto simp: maps_ok_def)
  then show "maps_ok D'" and "actionDomainExecutorMap D' = (actionDomainExecutorMap D)(n := Some i)" and "domainName (domain_objects D' i) = n"
    and "das_map D' = das_map D" and "descriptors D' = descriptors D" and "actionDomainExecutorMap D n = Some j \<Longrightarrow> i = j"
    using assms by (auto simp: getDomainActionsFromName_def maps_ok_def new_DomainActions_def less_Suc_eq Let_def split: option.splits if_splits)
  show "lookup D' = lookup D"
  proof (intro ext)
    fix m a
    show "lookup D' m a = lookup D m a"
      using assms(2) u [of m] by (cases "m = n"; cases "actionDomainExecutorMap D m")
        (auto simp: getDomainActionsFromName_def lookup_def new_DomainActions_def Let_def split: option.splits)
  qed
qed

lemma register_one_spec:
  fixes p :: nat and D :: rpc_dispatcher
  defines "D' \<equiv> register_one p D"
  assumes "maps_ok D"
  shows "maps_ok D'" and "das_map D' = das_map D" and "descriptors D' = descriptors D"
    and "actionDomainExecutorMap D m = Some j \<Longrightarrow> actionDomainExecutorMap D' m = Some j"
    and "actionDomainExecutorMap D' (dom_of D p) \<noteq> None"
    and "lookup D' n a = (if n = dom_of D p \<and> a = name_of D p \<and> lookup D n a = None then Some p else lookup D n a)"
proof -
  obtain i D1 where g: "getDomainActionsFromName (dom_of D p) D = (i, D1)" by fastforce
  note s = getDomain_spec [OF assms(2) g]
  have D': "D' = D1\<lparr>domain_objects := (domain_objects D1)(i := snd (addActionDescriptor (descriptors D1) p (domain_objects D1 i)))\<rparr>"
    by (simp add: D'_def register_one_def g)
  have u: "actionDomainExecutorMap D1 m = Some i \<longleftrightarrow> m = dom_of D p" for m
  proof -
    have "actionDomainExecutorMap D1 m = Some i \<Longrightarrow> domainName (domain_objects D1 i) = m" using s(1) unfolding maps_ok_def by blast
    then show ?thesis using s(2,3) by auto
  qed
  show "das_map D' = das_map D" "descriptors D' = descriptors D" "actionDomainExecutorMap D' (dom_of D p) \<noteq> None"
    using s by (simp_all add: D')
  show "actionDomainExecutorMap D m = Some j \<Longrightarrow> actionDomainExecutorMap D' m = Some j" using s(2,7) by (auto simp: D')
  show "lookup D' n a = (if n = dom_of D p \<and> a = name_of D p \<and> lookup D n a = None then Some p else lookup D n a)"
  proof (cases "n = dom_of D p")
    case True
    then show ?thesis unfolding s(4) [symmetric] using s(2,3,6)
      by (auto simp: D' lookup_def addActionDescriptor_def split: option.split)
  next
    case False
    then show ?thesis unfolding s(4) [symmetric] using u [of n]
      by (cases "actionDomainExecutorMap D1 n") (auto simp: D' lookup_def)
  qed
  show "maps_ok D'" using s(1,3,6) u by (auto simp: D' maps_ok_def addActionDescriptor_def split: option.splits if_splits)
qed

lemma schedule_one_spec:
  fixes p :: nat and D :: rpc_dispatcher
  defines "D' \<equiv> schedule_one p D"
  assumes "disp_inv D"
  shows "disp_inv D'" and "descriptors D' = descriptors D" and "lookup D' = lookup D" and "das_map D' (dom_of D p) \<noteq> None"
    and "das_map D m = Some s \<Longrightarrow> das_map D' m = Some s"
proof -
  obtain i D1 where g: "getDomainActionsFromName (dom_of D p) D = (i, D1)" by fastforce
  note s = getDomain_spec [OF _ g]
  have D': "D' = (if das_map D (dom_of D p) \<noteq> None then D
      else D1\<lparr>das_map := (das_map D1)(dom_of D p := Some \<lparr>armed = True, das_queue = cq_new, domainActionsContainer = i\<rparr>)\<rparr>)"
    by (auto simp: D'_def schedule_one_def g split: option.splits)
  have m: "maps_ok D" and d: "das_ok D" using assms(2) by (simp_all add: disp_inv_def)
  show "descriptors D' = descriptors D" "lookup D' = lookup D" "das_map D' (dom_of D p) \<noteq> None" "das_map D m = Some s \<Longrightarrow> das_map D' m = Some s"
    using s [OF m] by (auto simp: D')
  have "maps_ok D'" using s(1) [OF m] m by (auto simp: D' maps_ok_def)
  moreover have "das_ok D'" using s(2,5,7) [OF m] d by (auto simp: D' das_ok_def)
  ultimately show "disp_inv D'" by (simp add: disp_inv_def)
qed

lemma das_ok_mono:
  assumes "das_ok D" and "das_map D' = das_map D" and "\<And>m j. actionDomainExecutorMap D m = Some j \<Longrightarrow> actionDomainExecutorMap D' m = Some j"
  shows "das_ok D'"
  using assms by (simp add: das_ok_def)

lemma fold_register_one:
  fixes ds :: "nat list"
  assumes "disp_inv D"
  defines "R \<equiv> fold register_one ds D"
  shows "disp_inv R \<and> descriptors R = descriptors D \<and> das_map R = das_map D
    \<and> lookup R n a = (case lookup D n a of Some q \<Rightarrow> Some q | None \<Rightarrow> find (\<lambda>p. dom_of D p = n \<and> name_of D p = a) ds)"
  using assms(1) unfolding R_def
proof (induction ds arbitrary: D)
  case (Cons p ds)
  have m: "maps_ok D" using Cons.prems by (simp add: disp_inv_def)
  note s = register_one_spec [OF m, where p = p]
  have "das_ok (register_one p D)" using Cons.prems das_ok_mono [OF _ s(2) s(4)] by (simp add: disp_inv_def)
  then have "disp_inv (register_one p D)" using s(1) by (simp add: disp_inv_def)
  from Cons.IH [OF this] show ?case by (auto simp: s(2,3,6) split: option.splits)
qed (simp split: option.split)

lemma fold_schedule_one:
  assumes "disp_inv D"
  shows "disp_inv (fold schedule_one ds D) \<and> descriptors (fold schedule_one ds D) = descriptors D \<and> lookup (fold schedule_one ds D) = lookup D
    \<and> (\<forall>m s. das_map D m = Some s \<longrightarrow> das_map (fold schedule_one ds D) m = Some s)
    \<and> (\<forall>p \<in> set ds. das_map (fold schedule_one ds D) (dom_of D p) \<noteq> None)"
  using assms
proof (induction ds arbitrary: D)
  case (Cons p ds)
  note s = schedule_one_spec [OF Cons.prems, where p = p]
  from Cons.IH [OF s(1)] s show ?case by auto
qed simp

section \<open>Deregistering\<close>

text \<open>The number of actions of a domain is compared with 0 as a 32-bit number.\<close>

definition tables_small :: "rpc_dispatcher \<Rightarrow> bool" where
  "tables_small D \<longleftrightarrow> (\<forall>i. length (actionDescriptionsMap (domain_objects D i)) < 2 ^ 32)"

lemma registered_none: "length (actionDescriptionsMap d) < 2 ^ 32 \<Longrightarrow> registeredActions d = 0 \<longleftrightarrow> actionDescriptionsMap d = []"
  by (cases "actionDescriptionsMap d = []") (simp_all add: registeredActions_def word_of_nat_eq_0_iff nat_dvd_not_less)

lemma deregister_one_spec:
  fixes p :: nat and D :: rpc_dispatcher
  defines "D' \<equiv> deregister_one p D"
  assumes "maps_ok D" and "tables_small D"
  shows "maps_ok D'" and "das_map D' = das_map D" and "descriptors D' = (descriptors D)(p := setEnabled False (descriptors D p))"
    and "tables_small D'" and "actionDomainExecutorMap D' n \<in> {None, actionDomainExecutorMap D n}"
    and "n \<noteq> dom_of D p \<Longrightarrow> actionDomainExecutorMap D' n = actionDomainExecutorMap D n"
    and "lookup D' n a = (if n = dom_of D p \<and> a = name_of D p then None else lookup D n a)"
proof -
  obtain i D1 where g: "getDomainActionsFromName (dom_of D p) D = (i, D1)" by fastforce
  note s = getDomain_spec [OF assms(2) g]
  define d where "d = (domain_objects D1 i)\<lparr>actionDescriptionsMap := AList.delete (name_of D p) (actionDescriptionsMap (domain_objects D1 i))\<rparr>"
  have D': "D' = D1\<lparr>descriptors := (descriptors D)(p := setEnabled False (descriptors D p)), domain_objects := (domain_objects D1)(i := d),
      actionDomainExecutorMap := (if registeredActions d = 0 then (actionDomainExecutorMap D1)(dom_of D p := None) else actionDomainExecutorMap D1)\<rparr>"
    using s(3,6) by (simp add: D'_def deregister_one_def g removeActionDescriptor_def d_def)
  have small: "tables_small D1" using assms(3) g
    by (auto simp: tables_small_def getDomainActionsFromName_def new_DomainActions_def Let_def split: option.splits)
  then have "length (actionDescriptionsMap d) < 2 ^ 32"
    using length_delete_le [of "name_of D p" "actionDescriptionsMap (domain_objects D1 i)"] by (auto simp: d_def tables_small_def intro: le_less_trans)
  then show "tables_small D'" using small by (simp add: D' tables_small_def)
  note z = registered_none [OF \<open>length (actionDescriptionsMap d) < 2 ^ 32\<close>]
  show "das_map D' = das_map D" "descriptors D' = (descriptors D)(p := setEnabled False (descriptors D p))" using s(5) by (simp_all add: D')
  show "n \<noteq> dom_of D p \<Longrightarrow> actionDomainExecutorMap D' n = actionDomainExecutorMap D n" using s(2) by (simp add: D')
  have "actionDomainExecutorMap D (dom_of D p) = None \<Longrightarrow> actionDescriptionsMap d = []"
    using g by (auto simp: d_def getDomainActionsFromName_def new_DomainActions_def Let_def)
  then show "actionDomainExecutorMap D' n \<in> {None, actionDomainExecutorMap D n}"
    using s(2,7) z by (cases "actionDomainExecutorMap D (dom_of D p)") (auto simp: D')
  have u: "actionDomainExecutorMap D1 m = Some i \<Longrightarrow> m = dom_of D p" for m using s(1,3) unfolding maps_ok_def by blast
  show "maps_ok D'" using s(1,3,6) u by (auto simp: D' maps_ok_def setEnabled_def d_def delete_conv split: if_splits)
  show "lookup D' n a = (if n = dom_of D p \<and> a = name_of D p then None else lookup D n a)"
    unfolding s(4) [symmetric]
  proof (cases "n = dom_of D p")
    case True
    have "map_of (actionDescriptionsMap d) = (map_of (actionDescriptionsMap (domain_objects D1 i)))(name_of D p := None)" by (simp add: d_def delete_conv')
    then show "lookup D' n a = (if n = dom_of D p \<and> a = name_of D p then None else lookup D1 n a)"
      using True s(2) z by (auto simp: D' lookup_def fun_eq_iff split: if_splits)
  next
    case False
    then show "lookup D' n a = (if n = dom_of D p \<and> a = name_of D p then None else lookup D1 n a)"
      using u by (cases "actionDomainExecutorMap D1 n") (auto simp: D' lookup_def)
  qed
qed

lemma fold_deregister_one:
  fixes ds :: "nat list"
  assumes "maps_ok D" and "tables_small D"
  defines "R \<equiv> fold deregister_one ds D"
  shows "maps_ok R \<and> tables_small R \<and> das_map R = das_map D \<and> dom_of R q = dom_of D q \<and> name_of R q = name_of D q
    \<and> enabled (descriptors R q) = (enabled (descriptors D q) \<and> q \<notin> set ds)
    \<and> actionDomainExecutorMap R n \<in> {None, actionDomainExecutorMap D n}
    \<and> (n \<notin> dom_of D ` set ds \<longrightarrow> actionDomainExecutorMap R n = actionDomainExecutorMap D n)
    \<and> lookup R n a = (if (n, a) \<in> (\<lambda>p. (dom_of D p, name_of D p)) ` set ds then None else lookup D n a)"
  using assms(1,2) unfolding R_def
proof (induction ds arbitrary: D)
  case (Cons p ds)
  note s = deregister_one_spec [OF Cons.prems, where p = p]
  have same: "dom_of (deregister_one p D) q = dom_of D q" "name_of (deregister_one p D) q = name_of D q"
      "enabled (descriptors (deregister_one p D) q) = (enabled (descriptors D q) \<and> q \<noteq> p)" for q
    by (simp_all add: s(3) setEnabled_def)
  note IH = Cons.IH [OF s(1,4), unfolded same]
  have "n \<notin> dom_of D ` set (p # ds) \<longrightarrow> actionDomainExecutorMap (fold deregister_one ds (deregister_one p D)) n = actionDomainExecutorMap D n"
    using IH s(6) [of n] by simp
  moreover have "actionDomainExecutorMap (fold deregister_one ds (deregister_one p D)) n \<in> {None, actionDomainExecutorMap D n}" using IH s(5) [of n] by auto
  moreover have "lookup (fold deregister_one ds (deregister_one p D)) n a
      = (if (n, a) \<in> (\<lambda>p. (dom_of D p, name_of D p)) ` set (p # ds) then None else lookup D n a)" using IH s(7) [of n a] by (auto split: if_splits)
  ultimately show ?case using IH s(2) by (simp only: fold_simps same list.set) simp
qed simp

lemma fold_unschedule_one:
  "fold unschedule_one ds D = D\<lparr>das_map := (\<lambda>n. if n \<in> dom_of D ` set ds \<and> actionDomainExecutorMap D n = None then None else das_map D n)\<rparr>"
proof (induction ds arbitrary: D)
  case (Cons p ds)
  have "unschedule_one p D = D\<lparr>das_map := (\<lambda>n. if n = dom_of D p \<and> actionDomainExecutorMap D n = None then None else das_map D n)\<rparr>"
    by (cases D) (auto simp: unschedule_one_def Let_def fun_eq_iff)
  then show ?case using Cons [of "unschedule_one p D"] by (cases D) (auto simp: fun_eq_iff)
qed simp

lemma registerAction_spec:
  fixes ds :: "nat list"
  assumes "disp_inv D"
  defines "R \<equiv> registerAction ds D"
  shows "disp_inv R" and "descriptors R = descriptors D"
    and "lookup R n a = (case lookup D n a of Some q \<Rightarrow> Some q | None \<Rightarrow> find (\<lambda>p. dom_of D p = n \<and> name_of D p = a) ds)"
    and "p \<in> set ds \<Longrightarrow> das_map R (dom_of D p) \<noteq> None" and "das_map D m = Some s \<Longrightarrow> das_map R m = Some s"
proof -
  have reg: "disp_inv (fold register_one ds D)" "descriptors (fold register_one ds D) = descriptors D" "das_map (fold register_one ds D) = das_map D"
      "lookup (fold register_one ds D) n a = (case lookup D n a of Some q \<Rightarrow> Some q | None \<Rightarrow> find (\<lambda>p. dom_of D p = n \<and> name_of D p = a) ds)" for n a
    using fold_register_one [OF assms(1), of ds n a] by simp_all
  note sch = fold_schedule_one [OF reg(1), of ds, unfolded reg(2,3)]
  show "disp_inv R" "descriptors R = descriptors D" "p \<in> set ds \<Longrightarrow> das_map R (dom_of D p) \<noteq> None" "das_map D m = Some s \<Longrightarrow> das_map R m = Some s"
    using sch by (simp_all add: R_def registerAction_def abstract_registerAction_def)
  show "lookup R n a = (case lookup D n a of Some q \<Rightarrow> Some q | None \<Rightarrow> find (\<lambda>p. dom_of D p = n \<and> name_of D p = a) ds)"
    using sch reg(4) by (simp add: R_def registerAction_def abstract_registerAction_def)
qed

lemma deregisterAction_spec:
  fixes ds :: "nat list"
  assumes "disp_inv D" and "tables_small D"
  defines "R \<equiv> deregisterAction ds D"
  shows "disp_inv R" and "lookup R n a = (if (n, a) \<in> (\<lambda>p. (dom_of D p, name_of D p)) ` set ds then None else lookup D n a)"
    and "p \<in> set ds \<Longrightarrow> \<not> enabled (descriptors R p)"
proof -
  let ?F = "fold deregister_one ds D"
  have m: "maps_ok D" and d: "das_ok D" using assms(1) by (simp_all add: disp_inv_def)
  note f = fold_deregister_one [OF m assms(2), of ds]
  have R: "R = ?F\<lparr>das_map := (\<lambda>n. if n \<in> dom_of D ` set ds \<and> actionDomainExecutorMap ?F n = None then None else das_map D n)\<rparr>"
  proof -
    have "das_map ?F = das_map D" "\<And>q. dom_of ?F q = dom_of D q" using f by blast+
    then show ?thesis by (simp add: R_def deregisterAction_def abstract_deregisterAction_def fold_unschedule_one cong: if_cong)
  qed
  show "lookup R n a = (if (n, a) \<in> (\<lambda>p. (dom_of D p, name_of D p)) ` set ds then None else lookup D n a)" "p \<in> set ds \<Longrightarrow> \<not> enabled (descriptors R p)"
    using f by (simp_all add: R)
  have "maps_ok ?F" using f by blast
  then have "maps_ok R" by (simp add: R maps_ok_def)
  moreover have "das_ok R" unfolding das_ok_def
  proof (intro allI impI)
    fix n s assume "das_map R n = Some s"
    then have s: "das_map D n = Some s" "n \<in> dom_of D ` set ds \<Longrightarrow> actionDomainExecutorMap ?F n \<noteq> None" by (simp_all add: R split: if_splits)
    have "actionDomainExecutorMap ?F n \<in> {None, actionDomainExecutorMap D n}"
      "n \<notin> dom_of D ` set ds \<longrightarrow> actionDomainExecutorMap ?F n = actionDomainExecutorMap D n" using f [of undefined n undefined] by simp_all
    then have "actionDomainExecutorMap ?F n = actionDomainExecutorMap D n" using s(2) by auto
    then show "armed s \<and> actionDomainExecutorMap R n = Some (domainActionsContainer s)" using d s(1) by (simp add: das_ok_def R)
  qed
  ultimately show "disp_inv R" by (simp add: disp_inv_def)
qed

section \<open>Properties\<close>

text \<open>
  C27. The registry follows the requests. Registering makes every action of the class reachable through the
  scheduler of its domain and leaves earlier registrations in place (an action registered first keeps its
  name); deregistering removes exactly the names of the class, whoever registered them, and disables its
  descriptors. In between, every scheduler works on the current table of its domain and is armed.
\<close>

theorem registry_follows_requests:
  assumes "disp_inv D" and "tables_small D"
  shows "disp_inv (registerAction ds D) \<and> disp_inv (deregisterAction ds D)
    \<and> (\<forall>n a. lookup (registerAction ds D) n a = (case lookup D n a of Some q \<Rightarrow> Some q | None \<Rightarrow> find (\<lambda>p. dom_of D p = n \<and> name_of D p = a) ds))
    \<and> (\<forall>n a. lookup (deregisterAction ds D) n a = (if (n, a) \<in> (\<lambda>p. (dom_of D p, name_of D p)) ` set ds then None else lookup D n a))
    \<and> (\<forall>p \<in> set ds. \<not> enabled (descriptors (deregisterAction ds D) p)
        \<and> (\<exists>s q. das_map (registerAction ds D) (dom_of D p) = Some s \<and> armed s
             \<and> map_of (actionDescriptionsMap (domain_objects (registerAction ds D) (domainActionsContainer s))) (name_of D p) = Some q))"
proof (intro conjI allI ballI)
  fix p assume p: "p \<in> set ds"
  then obtain s where s: "das_map (registerAction ds D) (dom_of D p) = Some s" using registerAction_spec(4) [OF assms(1)] by blast
  then have c: "armed s" "actionDomainExecutorMap (registerAction ds D) (dom_of D p) = Some (domainActionsContainer s)"
    using registerAction_spec(1) [OF assms(1)] by (auto simp: disp_inv_def das_ok_def)
  have "find (\<lambda>q. dom_of D q = dom_of D p \<and> name_of D q = name_of D p) ds \<noteq> None" using p by (auto simp: find_None_iff)
  then obtain q where "lookup (registerAction ds D) (dom_of D p) (name_of D p) = Some q"
    by (cases "lookup D (dom_of D p) (name_of D p)") (auto simp: registerAction_spec(3) [OF assms(1)])
  then have "map_of (actionDescriptionsMap (domain_objects (registerAction ds D) (domainActionsContainer s))) (name_of D p) = Some q"
    by (simp add: lookup_def c)
  then show "\<exists>s q. das_map (registerAction ds D) (dom_of D p) = Some s \<and> armed s
      \<and> map_of (actionDescriptionsMap (domain_objects (registerAction ds D) (domainActionsContainer s))) (name_of D p) = Some q" using s c by blast
qed (use registerAction_spec(1,3) [OF assms(1)] deregisterAction_spec [OF assms] in blast)+

theorem registry_follows_requests_witness:
  "let D = new_dispatcher (\<lambda>p. new_ActionDescriptor ''cu'' (if p = 0 then ''start'' else ''stop'')) in
   lookup (deregisterAction [0] (registerAction [0, 1] D)) ''cu'' ''stop'' = Some 1"
proof -
  let ?D = "new_dispatcher (\<lambda>p. new_ActionDescriptor ''cu'' (if p = 0 then ''start'' else ''stop''))"
  have "disp_inv ?D" "tables_small ?D"
    by (simp_all add: disp_inv_def maps_ok_def das_ok_def tables_small_def new_dispatcher_def new_DomainActions_def)
  note r = registry_follows_requests [OF this, where ds = "[0, 1]"]
  let ?R = "registerAction [0, 1] ?D"
  have "tables_small ?R" by (simp add: tables_small_def registerAction_def abstract_registerAction_def register_one_def schedule_one_def
      getDomainActionsFromName_def addActionDescriptor_def new_dispatcher_def new_DomainActions_def new_ActionDescriptor_def Let_def)
  moreover have "lookup ?R ''cu'' ''stop'' = Some 1" "dom_of ?R p = dom_of ?D p" "name_of ?R p = name_of ?D p" for p
    using r registerAction_spec(2) [OF \<open>disp_inv ?D\<close>] by (auto simp: new_dispatcher_def new_ActionDescriptor_def lookup_def)
  ultimately show ?thesis using registry_follows_requests [of ?R "[0]"] r
    by (simp add: Let_def) (simp add: new_dispatcher_def new_ActionDescriptor_def)
qed

end
