(* ===== verification/Rpc_Channel.thy ===== *)
theory Rpc_Channel
  imports Rpc_Registry Wait_Semaphore
begin

text \<open>
  The message channel (\<open>message/MessageChannel.cpp\<close>) on top of the network broker (\<open>network/NetworkBroker.cpp\<close>):
  requests with an answer. A request carries a number and the domain and action of the channel; the remote
  scheduler sends the result there, and the channel hands it to the thread that waits under the number. A
  synchronous request is two steps, sending and waiting, between which the answer may arrive.
\<close>

section \<open>The broker\<close>

definition broker_submitMessage :: "zmq_exchange \<Rightarrow> string \<Rightarrow> data_wrapper \<Rightarrow> bool \<Rightarrow> rpc_client \<Rightarrow> (bool \<times> rpc_client) outcome" where
  "broker_submitMessage x serverAndPort message onThisThread c = zmq_submitMessage x onThisThread (serverAndPort, getBSONData message) c"

definition submiteRequest :: "zmq_exchange \<Rightarrow> string \<Rightarrow> string \<Rightarrow> data_wrapper \<Rightarrow> bool \<Rightarrow> rpc_client \<Rightarrow> (bool \<times> rpc_client) outcome" where
  "submiteRequest x publishedHostAndPort serverAndPort request onThisThread c =
     zmq_submitMessage x onThisThread (serverAndPort, getBSONData (addStringValue CS_CMDM_ANSWER_HOST_IP publishedHostAndPort request)) c"

section \<open>The channel\<close>

record channel =
  channelRequestIDCounter :: u32
  remoteNodeAddress :: string
  channelID :: string
  sem :: "(u32, data_wrapper) key_sems"
  response_handler :: bool
  handler_calls :: "(u32 \<times> data_wrapper) list"

definition channel_init :: "string \<Rightarrow> string \<Rightarrow> channel" where
  "channel_init remote uuid = \<lparr>channelRequestIDCounter = 0, remoteNodeAddress = remote, channelID = uuid, sem = Map.empty, response_handler = False, handler_calls = []\<rparr>"

definition setRemoteNodeAddress :: "string \<Rightarrow> channel \<Rightarrow> channel" where
  "setRemoteNodeAddress remote_addr ch = ch\<lparr>remoteNodeAddress := remote_addr\<rparr>"

text \<open>\<open>setHandler\<close>, and with a null pointer \<open>clearHandler\<close>.\<close>

definition setHandler :: "bool \<Rightarrow> channel \<Rightarrow> channel" where
  "setHandler h ch = ch\<lparr>response_handler := h\<rparr>"

text \<open>The action an answer calls; a message without a body is read through a null pointer.\<close>

definition channel_response :: "data_wrapper option \<Rightarrow> channel \<Rightarrow> (data_wrapper option \<times> bool) outcome \<times> channel" where
  "channel_response responseData ch =
     (case responseData of
        None \<Rightarrow> (Fault, ch)
      | Some d \<Rightarrow>
          if \<not> hasKey CS_CMDM_MESSAGE_ID d then (Ret (None, False), ch)
          else
            let requestID = getInt32Value CS_CMDM_MESSAGE_ID d in
            case mk_setWaithedObjectForKey requestID d (sem ch) of
              (True, m) \<Rightarrow> (Ret (None, True), ch\<lparr>sem := m\<rparr>)
            | (False, m) \<Rightarrow>
                if response_handler ch then (Ret (None, True), ch\<lparr>sem := m, handler_calls := handler_calls ch @ [(requestID, d)]\<rparr>)
                else (Ret (None, False), ch\<lparr>sem := m\<rparr>))"

definition prepare_pack :: "u32 \<Rightarrow> string \<Rightarrow> string \<Rightarrow> string \<Rightarrow> data_wrapper \<Rightarrow> data_wrapper" where
  "prepare_pack currentRequestID chID nodeID act requestPack =
     addStringValue CS_CMDM_ANSWER_ACTION ''response''
       (addStringValue CS_CMDM_ANSWER_DOMAIN chID
         (addInt32Value CS_CMDM_ANSWER_ID currentRequestID
           (addStringValue CS_CMDM_ACTION_NAME act
             (addStringValue CS_CMDM_ACTION_DOMAIN nodeID requestPack))))"

text \<open>The counter is incremented and its old value is the number of the request.\<close>

definition prepareRequestPackAndSend ::
  "zmq_exchange \<Rightarrow> string \<Rightarrow> bool \<Rightarrow> string \<Rightarrow> string \<Rightarrow> data_wrapper \<Rightarrow> bool \<Rightarrow> channel \<Rightarrow> rpc_client \<Rightarrow> (u32 \<times> channel \<times> rpc_client) outcome" where
  "prepareRequestPackAndSend x published async nodeID act requestPack onThisThread ch c =
     (let currentRequestID = channelRequestIDCounter ch;
          ch = ch\<lparr>channelRequestIDCounter := currentRequestID + 1\<rparr>;
          ch = (if \<not> async then ch\<lparr>sem := mk_initKey currentRequestID (sem ch)\<rparr> else ch) in
      obind (submiteRequest x published (remoteNodeAddress ch) (prepare_pack currentRequestID (channelID ch) nodeID act requestPack) onThisThread c) (\<lambda>(_, c).
      Ret (currentRequestID, ch, c)))"

definition with_message :: "data_wrapper option \<Rightarrow> data_wrapper" where
  "with_message messagePack = (case messagePack of None \<Rightarrow> new_CDataWrapper | Some m \<Rightarrow> addCSDataValue CS_CMDM_ACTION_MESSAGE m new_CDataWrapper)"

definition sendMessage :: "zmq_exchange \<Rightarrow> string \<Rightarrow> string \<Rightarrow> data_wrapper option \<Rightarrow> bool \<Rightarrow> channel \<Rightarrow> rpc_client \<Rightarrow> rpc_client outcome" where
  "sendMessage x nodeID act messagePack onThisThread ch c =
     (let dataPack = addStringValue CS_CMDM_ACTION_NAME act (addStringValue CS_CMDM_ACTION_DOMAIN nodeID new_CDataWrapper);
          dataPack = (case messagePack of None \<Rightarrow> dataPack | Some m \<Rightarrow> addCSDataValue CS_CMDM_ACTION_MESSAGE m dataPack) in
      obind (broker_submitMessage x (remoteNodeAddress ch) dataPack onThisThread c) (\<lambda>(_, c). Ret c))"

text \<open>\<open>sendRequest\<close> up to the wait, and the entry into the wait, which is the same with and without a time limit.\<close>

definition sendRequest_send ::
  "zmq_exchange \<Rightarrow> string \<Rightarrow> string \<Rightarrow> string \<Rightarrow> data_wrapper option \<Rightarrow> bool \<Rightarrow> bool \<Rightarrow> channel \<Rightarrow> rpc_client \<Rightarrow> (u32 \<times> channel \<times> rpc_client) outcome" where
  "sendRequest_send x published nodeID act requestPack async onThisThread ch c =
     prepareRequestPackAndSend x published async nodeID act (with_message requestPack) onThisThread ch c"

definition sendRequest_wait :: "u32 \<Rightarrow> channel \<Rightarrow> data_wrapper option wait_result \<times> channel" where
  "sendRequest_wait currentRequestID ch = (case mk_wait currentRequestID (sem ch) of (r, m) \<Rightarrow> (r, ch\<lparr>sem := m\<rparr>))"

definition sendRequest_wake :: "u32 \<Rightarrow> channel \<Rightarrow> data_wrapper option wait_result \<times> channel" where
  "sendRequest_wake currentRequestID ch = (case mk_wake currentRequestID (sem ch) of (r, m) \<Rightarrow> (r, ch\<lparr>sem := m\<rparr>))"

text \<open>\<open>MC_PARSE_RESULT\<close>: the last error as the channels of devices and of the metadata server keep it; no answer is a time-out. A field that is missing leaves the old value.\<close>

record last_error =
  last_error_code :: u32
  last_error_message :: string
  last_error_domain :: string

definition EC_TIMEOUT :: u32 where "EC_TIMEOUT = 1"

definition MC_PARSE_RESULT :: "data_wrapper option \<Rightarrow> last_error \<Rightarrow> last_error option" where
  "MC_PARSE_RESULT x e =
     (case x of
        None \<Rightarrow> Some (e\<lparr>last_error_code := EC_TIMEOUT\<rparr>)
      | Some w \<Rightarrow>
          let e = (if hasKey CS_CMDM_ACTION_SUBMISSION_ERROR_CODE w then e\<lparr>last_error_code := getInt32Value CS_CMDM_ACTION_SUBMISSION_ERROR_CODE w\<rparr> else e) in
          Option.bind (if hasKey CS_CMDM_ACTION_SUBMISSION_ERROR_MESSAGE w
            then map_option (\<lambda>m. e\<lparr>last_error_message := m\<rparr>) (getStringValue CS_CMDM_ACTION_SUBMISSION_ERROR_MESSAGE w) else Some e) (\<lambda>e.
          if hasKey CS_CMDM_ACTION_SUBMISSION_ERROR_DOMAIN w
          then map_option (\<lambda>d. e\<lparr>last_error_domain := d\<rparr>) (getStringValue CS_CMDM_ACTION_SUBMISSION_ERROR_DOMAIN w) else Some e))"

section \<open>The fields of requests and answers\<close>

definition request_pack :: "u32 \<Rightarrow> string \<Rightarrow> string \<Rightarrow> string \<Rightarrow> string \<Rightarrow> data_wrapper option \<Rightarrow> data_wrapper" where
  "request_pack n chID published nodeID act req = addStringValue CS_CMDM_ANSWER_HOST_IP published (prepare_pack n chID nodeID act (with_message req))"

lemma request_fields:
  "getField CS_CMDM_ACTION_DOMAIN (request_pack n chID pub node act req) = Some (B_string node)"
  "getField CS_CMDM_ACTION_NAME (request_pack n chID pub node act req) = Some (B_string act)"
  "getField CS_CMDM_ACTION_MESSAGE (request_pack n chID pub node act req) = map_option (\<lambda>m. B_object (bsonBuilder m)) req"
  "getField CS_CMDM_SUB_CMD (request_pack n chID pub node act req) = None"
  "getField CS_CMDM_ANSWER_ID (request_pack n chID pub node act req) = Some (B_int32 n)"
  "getField CS_CMDM_ANSWER_DOMAIN (request_pack n chID pub node act req) = Some (B_string chID)"
  "getField CS_CMDM_ANSWER_ACTION (request_pack n chID pub node act req) = Some (B_string ''response'')"
  "getField CS_CMDM_ANSWER_HOST_IP (request_pack n chID pub node act req) = Some (B_string pub)"
  by (cases req; simp add: request_pack_def prepare_pack_def with_message_def addCSDataValue_def addStringValue_def addInt32Value_def rpc_keys)+

lemma response_fields:
  assumes "d \<noteq> ''''" and "a \<noteq> ''''"
  shows "getField CS_CMDM_ACTION_DOMAIN (response_pack (n, ip, d, a) r) = Some (B_string d)"
    "getField CS_CMDM_ACTION_NAME (response_pack (n, ip, d, a) r) = Some (B_string a)"
    "getField CS_CMDM_ACTION_MESSAGE (response_pack (n, ip, d, a) r) = Some (B_object (bsonBuilder (addInt32Value CS_CMDM_MESSAGE_ID n r)))"
    "getField CS_CMDM_SUB_CMD (response_pack (n, ip, d, a) r) = None"
    "getField CS_CMDM_ANSWER_ID (response_pack (n, ip, d, a) r) = None"
  using assms by (simp_all add: response_pack_def Let_def addCSDataValue_def addStringValue_def rpc_keys)

lemma remote_fields:
  "getField CS_CMDM_MESSAGE_ID (remote_result out) = None"
  by (cases out) (auto simp: remote_result_def addCSDataValue_def addStringValue_def addInt32Value_def rpc_keys split: option.splits)

section \<open>The two halves of a request\<close>

text \<open>The node that is asked: the action runs once, and its result is queued for the node that asked.\<close>

lemma request_processed:
  assumes "map_of (actionDescriptionsMap (domain_objects (disp S) i)) act = Some p" and "enabled (descriptors (disp S) p)"
    and "call_action p (map_option clone req) (env S) = (out, e)" and "out \<noteq> Fault"
    and "pub \<noteq> ''''" and "\<not> in_deinit (client_queue (client S))" and "length (bufferQueue (client_queue (client S))) \<le> MAX_ELEMENT_IN_QUEUE"
  shows "das_processBufferElement call_action i (getBSONData (request_pack n chID pub node act req)) S
    = Ret (set_desc p ((descriptors (disp S) p)\<lparr>fired := False\<rparr>)
        (S\<lparr>env := e, client := (client S)\<lparr>client_queue := (client_queue (client S))\<lparr>bufferQueue := bufferQueue (client_queue (client S))
             @ [(pub, getBSONData (response_pack (n, pub, chID, ''response'') (remote_result out)))]\<rparr>\<rparr>\<rparr>))"
proof -
  let ?w = "setSerializedData (getBSONData (request_pack n chID pub node act req)) new_CDataWrapper"
  have msg: "(if hasKey CS_CMDM_ACTION_MESSAGE ?w then Some (getCSDataValue CS_CMDM_ACTION_MESSAGE ?w) else None) = map_option clone req"
    by (cases req) (simp_all add: hasKey_def getCSDataValue_def request_fields clone_def)
  have ans: "answer_info ?w = Some (Some (n, pub, chID, ''response''))"
    by (simp add: answer_info_def hasKey_def getStringValue_def getInt32Value_def request_fields)
  have name: "getStringValue CS_CMDM_ACTION_NAME ?w = Some act" "\<not> hasKey CS_CMDM_SUB_CMD ?w"
    by (simp_all add: getStringValue_def hasKey_def request_fields)
  show ?thesis
    unfolding das_processBufferElement_def Let_def name msg ans
    using assms by (cases out) (simp_all add: setFired_def set_desc_def name zmq_submitMessage_def cq_push_def)
qed

text \<open>The node that asked: the answer is stored under the number of the request.\<close>

lemma response_processed:
  assumes "map_of (actionDescriptionsMap (domain_objects (disp C) k)) ''response'' = Some r" and "enabled (descriptors (disp C) r)"
    and "call_action r = channel_response" and "chID \<noteq> ''''" and "getField CS_CMDM_MESSAGE_ID R = None"
    and "sem (env C) n = Some (Some ks)"
  shows "das_processBufferElement call_action k (getBSONData (response_pack (n, pub, chID, ''response'') R)) C
    = Ret (set_desc r ((descriptors (disp C) r)\<lparr>fired := False\<rparr>)
        (C\<lparr>env := (env C)\<lparr>sem := (sem (env C))(n \<mapsto> Some (os_unlock (os_setWaithedObject (clone (addInt32Value CS_CMDM_MESSAGE_ID n R)) ks)))\<rparr>\<rparr>))"
proof -
  let ?w = "setSerializedData (getBSONData (response_pack (n, pub, chID, ''response'') R)) new_CDataWrapper"
  note f = response_fields [OF assms(4), of "''response''", simplified]
  have msg: "hasKey CS_CMDM_ACTION_MESSAGE ?w" "getCSDataValue CS_CMDM_ACTION_MESSAGE ?w = clone (addInt32Value CS_CMDM_MESSAGE_ID n R)"
    by (simp_all add: hasKey_def getCSDataValue_def f clone_def)
  have ans: "answer_info ?w = Some None" by (simp add: answer_info_def hasKey_def f)
  have name: "getStringValue CS_CMDM_ACTION_NAME ?w = Some ''response''" "\<not> hasKey CS_CMDM_SUB_CMD ?w"
    by (simp_all add: getStringValue_def hasKey_def f)
  have resp: "channel_response (Some (clone (addInt32Value CS_CMDM_MESSAGE_ID n R))) (env C)
      = (Ret (None, True), (env C)\<lparr>sem := (sem (env C))(n \<mapsto> Some (os_unlock (os_setWaithedObject (clone (addInt32Value CS_CMDM_MESSAGE_ID n R)) ks)))\<rparr>)"
    using assms(5,6) by (simp add: channel_response_def hasKey_def getInt32Value_def addInt32Value_def mk_setWaithedObjectForKey_def)
  show ?thesis
    unfolding das_processBufferElement_def Let_def name ans
    using assms(1-3) by (simp add: setFired_def set_desc_def name msg resp)
qed

lemma send_queues:
  assumes "remoteNodeAddress ch \<noteq> ''''" and "\<not> in_deinit (client_queue c)" and "length (bufferQueue (client_queue c)) \<le> MAX_ELEMENT_IN_QUEUE"
    and "sem ch (channelRequestIDCounter ch) = None"
  defines "n \<equiv> channelRequestIDCounter ch"
  shows "sendRequest_send x pub node act req False False ch c
    = Ret (n, ch\<lparr>channelRequestIDCounter := n + 1, sem := (sem ch)(n \<mapsto> Some os_new)\<rparr>,
        c\<lparr>client_queue := (client_queue c)\<lparr>bufferQueue := bufferQueue (client_queue c)
             @ [(remoteNodeAddress ch, getBSONData (request_pack n (channelID ch) pub node act req))]\<rparr>\<rparr>)"
  using assms by (simp add: sendRequest_send_def prepareRequestPackAndSend_def submiteRequest_def zmq_submitMessage_def cq_push_def Let_def
      mk_initKey_def request_pack_def)

lemma parse_result:
  "MC_PARSE_RESULT (Some (clone (addInt32Value CS_CMDM_MESSAGE_ID n (remote_result (Ret (res, det)))))) err = Some (err\<lparr>last_error_code := 0\<rparr>)"
  "MC_PARSE_RESULT (Some (clone (addInt32Value CS_CMDM_MESSAGE_ID n (remote_result (Throw ex))))) err
     = Some (err\<lparr>last_error_code := of_int (errorCode ex), last_error_message := errorMessage ex, last_error_domain := errorDomain ex\<rparr>)"
  by (cases res; simp add: MC_PARSE_RESULT_def hasKey_def getStringValue_def getInt32Value_def remote_result_def add_defs(1-3) rpc_keys Let_def)
     (simp add: MC_PARSE_RESULT_def hasKey_def getStringValue_def getInt32Value_def remote_result_def add_defs(1-3) rpc_keys Let_def)

section \<open>Properties\<close>

text \<open>
  C3. A synchronous request over two nodes. Sending queues one message for the remote node; when the scheduler
  of the domain there processes it, the action runs once and one answer is queued for the node that asked;
  and when the answer is processed there while the requester waits, the requester wakes up with the result
  of the action and error code 0, or with the code, message and domain of the exception the action threw.
\<close>

theorem request_answered:
  fixes S :: "'e node" and ch :: channel
  assumes "channelID ch \<noteq> ''''" and "remoteNodeAddress ch \<noteq> ''''" and "pub \<noteq> ''''" and "sem ch (channelRequestIDCounter ch) = None"
    and "\<not> in_deinit (client_queue c)" and "length (bufferQueue (client_queue c)) \<le> MAX_ELEMENT_IN_QUEUE"
    and "map_of (actionDescriptionsMap (domain_objects (disp S) i)) act = Some p" and "enabled (descriptors (disp S) p)"
    and "call_action p (map_option clone req) (env S) = (out, e)" and "out \<noteq> Fault"
    and "\<not> in_deinit (client_queue (client S))" and "length (bufferQueue (client_queue (client S))) \<le> MAX_ELEMENT_IN_QUEUE"
  shows "\<exists>n ch1 c1 pack S' ans.
      sendRequest_send x pub node act req False False ch c = Ret (n, ch1, c1)
    \<and> bufferQueue (client_queue c1) = bufferQueue (client_queue c) @ [(remoteNodeAddress ch, pack)]
    \<and> fst (sendRequest_wait n ch1) = Wait_blocks
    \<and> das_processBufferElement call_action i pack S = Ret S' \<and> env S' = e
    \<and> bufferQueue (client_queue (client S')) = bufferQueue (client_queue (client S)) @ [(pub, ans)]
    \<and> (\<forall>C k r resp ks. map_of (actionDescriptionsMap (domain_objects (disp C) k)) ''response'' = Some r \<longrightarrow> enabled (descriptors (disp C) r)
        \<longrightarrow> resp r = channel_response \<longrightarrow> sem (env C) n = Some (Some ks)
        \<longrightarrow> (\<exists>C' w. das_processBufferElement resp k ans C = Ret C' \<and> fst (sendRequest_wake n (env C')) = Wait_returns (Some w)
              \<and> (\<forall>err. MC_PARSE_RESULT (Some w) err = Some (case out of
                    Ret _ \<Rightarrow> err\<lparr>last_error_code := 0\<rparr>
                  | Throw ex \<Rightarrow> err\<lparr>last_error_code := of_int (errorCode ex), last_error_message := errorMessage ex, last_error_domain := errorDomain ex\<rparr>
                  | Fault \<Rightarrow> err))
              \<and> (\<forall>res det. out = Ret (Some res, det) \<longrightarrow> getField CS_CMDM_ACTION_MESSAGE w = Some (B_object (bsonBuilder res)))))"
proof -
  define n where "n = channelRequestIDCounter ch"
  define ch1 where "ch1 = ch\<lparr>channelRequestIDCounter := n + 1, sem := (sem ch)(n \<mapsto> Some os_new)\<rparr>"
  define ans where "ans = getBSONData (response_pack (n, pub, channelID ch, ''response'') (remote_result out))"
  define w where "w = clone (addInt32Value CS_CMDM_MESSAGE_ID n (remote_result out))"
  have wait: "fst (sendRequest_wait n ch1) = Wait_blocks"
    by (simp add: sendRequest_wait_def ch1_def mk_defs os_defs)
  have parse: "MC_PARSE_RESULT (Some w) err = Some (case out of Ret _ \<Rightarrow> err\<lparr>last_error_code := 0\<rparr>
      | Throw ex \<Rightarrow> err\<lparr>last_error_code := of_int (errorCode ex), last_error_message := errorMessage ex, last_error_domain := errorDomain ex\<rparr> | Fault \<Rightarrow> err)" for err
    using assms(10) parse_result unfolding w_def by (cases out) auto
  have res: "getField CS_CMDM_ACTION_MESSAGE w = Some (B_object (bsonBuilder res))" if "out = Ret (Some res, det)" for res det
    by (simp add: w_def that remote_result_def add_defs(1,3) rpc_keys)
  have arrives: "\<exists>C' w. das_processBufferElement resp k ans C = Ret C' \<and> fst (sendRequest_wake n (env C')) = Wait_returns (Some w)
              \<and> (\<forall>err. MC_PARSE_RESULT (Some w) err = Some (case out of
                    Ret _ \<Rightarrow> err\<lparr>last_error_code := 0\<rparr>
                  | Throw ex \<Rightarrow> err\<lparr>last_error_code := of_int (errorCode ex), last_error_message := errorMessage ex, last_error_domain := errorDomain ex\<rparr>
                  | Fault \<Rightarrow> err))
              \<and> (\<forall>res det. out = Ret (Some res, det) \<longrightarrow> getField CS_CMDM_ACTION_MESSAGE w = Some (B_object (bsonBuilder res)))"
    if "map_of (actionDescriptionsMap (domain_objects (disp C) k)) ''response'' = Some r" "enabled (descriptors (disp C) r)"
       "resp r = channel_response" "sem (env C) n = Some (Some ks)" for C k r resp ks
    using response_processed [where call_action = resp and R = "remote_result out" and pub = pub, OF that(1-3) assms(1) remote_fields that(4), folded ans_def w_def] parse res
    by (intro exI [of _ w] exI conjI) (assumption, simp_all add: sendRequest_wake_def set_desc_def mk_defs os_defs)
  show ?thesis
    using send_queues [OF assms(2,5,6,4), folded n_def] request_processed [where call_action = call_action and n = n and chID = "channelID ch", OF assms(7-10,3,11,12)] wait arrives
    by (intro exI [of _ n] exI [of _ ch1] exI conjI) (auto simp: ch1_def ans_def set_desc_def)
qed

text \<open>A node with one domain, whose single action has the descriptor at address 0.\<close>

definition small_node :: "string \<Rightarrow> string \<Rightarrow> 'e \<Rightarrow> 'e node" where
  "small_node domain_name act e =
     \<lparr>disp = registerAction [0] (new_dispatcher (\<lambda>_. new_ActionDescriptor domain_name act)),
      client = \<lparr>client_queue = cq_new, forwarded = []\<rparr>, env = e\<rparr>"

lemma small_node_facts:
  "map_of (actionDescriptionsMap (domain_objects (disp (small_node d a e)) 0)) a = Some 0" "enabled (descriptors (disp (small_node d a e)) 0)"
  "env (small_node d a e) = e" "\<not> in_deinit (client_queue (client (small_node d a e)))"
  "length (bufferQueue (client_queue (client (small_node d a e)))) \<le> MAX_ELEMENT_IN_QUEUE"
  "das_map (disp (small_node d a e)) d = Some \<lparr>armed = True, das_queue = cq_new, domainActionsContainer = 0\<rparr>"
  by (simp_all add: small_node_def registerAction_def abstract_registerAction_def register_one_def schedule_one_def getDomainActionsFromName_def
      addActionDescriptor_def new_dispatcher_def new_DomainActions_def new_ActionDescriptor_def cq_new_def Let_def)

theorem request_answered_witness:
  "\<exists>n ch1 c1. sendRequest_send Acknowledged ''cu:1'' ''cu'' ''get'' None False False (channel_init ''srv:2'' ''ch'') \<lparr>client_queue = cq_new, forwarded = []\<rparr>
      = Ret (n, ch1, c1)"
proof -
  have c: "channelID (channel_init ''srv:2'' ''ch'') \<noteq> ''''" "remoteNodeAddress (channel_init ''srv:2'' ''ch'') \<noteq> ''''" "''cu:1'' \<noteq> ''''"
      "sem (channel_init ''srv:2'' ''ch'') (channelRequestIDCounter (channel_init ''srv:2'' ''ch'')) = None"
      "\<not> in_deinit (client_queue \<lparr>client_queue = cq_new, forwarded = []\<rparr>)"
      "length (bufferQueue (client_queue \<lparr>client_queue = cq_new, forwarded = []\<rparr>)) \<le> MAX_ELEMENT_IN_QUEUE"
    by (simp_all add: channel_init_def cq_new_def)
  have a: "(\<lambda>_ _ u. (Ret (Some new_CDataWrapper, False), u)) (0 :: nat) (map_option clone None) (env (small_node ''cu'' ''get'' ())) = (Ret (Some new_CDataWrapper, False), ())"
      "Ret (Some new_CDataWrapper, False) \<noteq> Fault" by simp_all
  show ?thesis
    using request_answered [where call_action = "\<lambda>_ _ u. (Ret (Some new_CDataWrapper, False), u)",
        OF c small_node_facts(1,2) a small_node_facts(4,5), where x = Acknowledged and node = "''cu''"] by blast
qed

lemma dispatch_accepts:
  assumes "map_of pack CS_CMDM_ACTION_DOMAIN = Some (B_string d)" and "map_of pack CS_CMDM_ACTION_NAME \<noteq> None"
    and "das_map D d = Some s" and "armed s" and "\<not> in_deinit (das_queue s)" and "length (bufferQueue (das_queue s)) \<le> MAX_ELEMENT_IN_QUEUE"
  shows "dispatchCommand (Some pack) D = ([(CS_CMDM_ACTION_SUBMISSION_ERROR_CODE, B_int32 0)], True,
     D\<lparr>das_map := (das_map D)(d := Some (s\<lparr>das_queue := (das_queue s)\<lparr>bufferQueue := bufferQueue (das_queue s) @ [pack]\<rparr>\<rparr>))\<rparr>)"
  using assms by (simp add: dispatchCommand_def Let_def hasKey_def getStringValue_def das_push_def cq_push_def)

text \<open>
  An acknowledgement promises little. A message for a domain that has a scheduler is acknowledged with code
  0; if its action is not registered, or was disabled, it is then dropped and the requester gets no answer;
  and if the name of the action is not a string, the scheduler's thread raises an exception its declaration
  forbids, which ends the process of the node.
\<close>

theorem acknowledged_not_answered:
  fixes N :: "'e node" and pack :: bson
  assumes "map_of pack CS_CMDM_ACTION_DOMAIN = Some (B_string d)" and "map_of pack CS_CMDM_ACTION_NAME = Some v"
    and "das_map (disp N) d = Some s" and "armed s" and "\<not> in_deinit (das_queue s)" and "length (bufferQueue (das_queue s)) \<le> MAX_ELEMENT_IN_QUEUE"
  shows "fst (dispatchCommand (Some pack) (disp N)) = [(CS_CMDM_ACTION_SUBMISSION_ERROR_CODE, B_int32 0)]
    \<and> (\<forall>act. v = B_string act \<longrightarrow> (case map_of (actionDescriptionsMap (domain_objects (disp N) (domainActionsContainer s))) act of
           None \<Rightarrow> True | Some p \<Rightarrow> \<not> enabled (descriptors (disp N) p))
        \<longrightarrow> (\<exists>N'. das_processBufferElement call_action (domainActionsContainer s) pack N = Ret N' \<and> env N' = env N \<and> client N' = client N))
    \<and> ((\<forall>act. v \<noteq> B_string act) \<longrightarrow> das_processBufferElement call_action (domainActionsContainer s) pack N = Fault)"
proof (intro conjI allI impI)
  show "fst (dispatchCommand (Some pack) (disp N)) = [(CS_CMDM_ACTION_SUBMISSION_ERROR_CODE, B_int32 0)]"
    using dispatch_accepts [OF assms(1) _ assms(3-6)] assms(2) by simp
next
  fix act assume "v = B_string act" and off: "case map_of (actionDescriptionsMap (domain_objects (disp N) (domainActionsContainer s))) act of
           None \<Rightarrow> True | Some p \<Rightarrow> \<not> enabled (descriptors (disp N) p)"
  then show "\<exists>N'. das_processBufferElement call_action (domainActionsContainer s) pack N = Ret N' \<and> env N' = env N \<and> client N' = client N"
    using assms(2) by (cases "map_of (actionDescriptionsMap (domain_objects (disp N) (domainActionsContainer s))) act")
      (simp_all add: das_processBufferElement_def getStringValue_def setFired_def set_desc_def)
next
  assume "\<forall>act. v \<noteq> B_string act"
  then show "das_processBufferElement call_action (domainActionsContainer s) pack N = Fault"
    using assms(2) by (cases v) (simp_all add: das_processBufferElement_def getStringValue_def)
qed

theorem acknowledged_not_answered_witness:
  "das_processBufferElement (\<lambda>_ _ u. (Fault, u)) 0 [(CS_CMDM_ACTION_DOMAIN, B_string ''cu''), (CS_CMDM_ACTION_NAME, B_int32 7)] (small_node ''cu'' ''get'' ()) = Fault"
proof -
  let ?s = "\<lparr>armed = True, das_queue = cq_new, domainActionsContainer = 0\<rparr>" and ?p = "[(CS_CMDM_ACTION_DOMAIN, B_string ''cu''), (CS_CMDM_ACTION_NAME, B_int32 7)]"
  have "map_of ?p CS_CMDM_ACTION_DOMAIN = Some (B_string ''cu'')" "map_of ?p CS_CMDM_ACTION_NAME = Some (B_int32 7)" by (simp_all add: rpc_keys)
  moreover have "das_map (disp (small_node ''cu'' ''get'' ())) ''cu'' = Some ?s" by (rule small_node_facts(6))
  moreover have "armed ?s" "\<not> in_deinit (das_queue ?s)" "length (bufferQueue (das_queue ?s)) \<le> MAX_ELEMENT_IN_QUEUE" by (simp_all add: cq_new_def)
  ultimately show ?thesis
    using acknowledged_not_answered [where call_action = "\<lambda>_ _ u. (Fault, u)" and N = "small_node ''cu'' ''get'' ()" and s = ?s and pack = ?p] by simp
qed

text \<open>
  C37. An answer that is too quick is lost: when the remote node answers before the requester has entered its
  wait, the answer is accepted and taken out of the network, but the wait forgets it and no wake-up ends it;
  only a time limit does.
\<close>

theorem quick_answer_lost:
  assumes "map_of (actionDescriptionsMap (domain_objects (disp C) k)) ''response'' = Some r" and "enabled (descriptors (disp C) r)"
    and "resp r = channel_response" and "channelID ch \<noteq> ''''" and "remoteNodeAddress ch \<noteq> ''''" and "sem ch (channelRequestIDCounter ch) = None"
    and "\<not> in_deinit (client_queue c)" and "length (bufferQueue (client_queue c)) \<le> MAX_ELEMENT_IN_QUEUE"
    and "sendRequest_send x pub node act req False False ch c = Ret (n, env C, c1)"
  shows "\<exists>C' ch2. das_processBufferElement resp k (getBSONData (response_pack (n, pub, channelID ch, ''response'') (remote_result out))) C = Ret C'
    \<and> sendRequest_wait n (env C') = (Wait_blocks, ch2) \<and> (\<forall>j. mk_wakes j n (sem ch2) = (Wait_blocks, sem ch2))"
proof -
  have "n = channelRequestIDCounter ch" and "env C = ch\<lparr>channelRequestIDCounter := n + 1, sem := (sem ch)(n \<mapsto> Some os_new)\<rparr>"
    using assms(9) send_queues [OF assms(5,7,8,6), of x pub node act req] by auto
  then have s: "sem (env C) n = Some (Some os_new)" by simp
  have "mk_wakes j n m = (Wait_blocks, m)" if "m n = Some (Some ks)" "\<not> o_answered ks" for j m and ks :: "data_wrapper osem"
    using that by (rule mk_wakes_unanswered [where m = m and k = n and ks = ks])
  then show ?thesis
    using response_processed [where call_action = resp and R = "remote_result out" and pub = pub, OF assms(1-4) remote_fields s]
    by (auto simp: sendRequest_wait_def set_desc_def mk_defs(1-5) os_defs)
qed

theorem quick_answer_lost_witness:
  "\<exists>C'. das_processBufferElement (\<lambda>_. channel_response) 0 (getBSONData (response_pack (0, ''cu:1'', ''ch'', ''response'') (remote_result (Ret (None, False)))))
     (small_node ''ch'' ''response'' (channel_init ''srv:2'' ''ch''\<lparr>channelRequestIDCounter := 1, sem := [0 \<mapsto> Some os_new]\<rparr>)) = Ret C'"
proof -
  let ?ch = "channel_init ''srv:2'' ''ch''" and ?c = "\<lparr>client_queue = cq_new, forwarded = []\<rparr>"
  let ?C = "small_node ''ch'' ''response'' (?ch\<lparr>channelRequestIDCounter := 1, sem := [0 \<mapsto> Some os_new]\<rparr>)"
  have c: "channelID ?ch \<noteq> ''''" "remoteNodeAddress ?ch \<noteq> ''''" "sem ?ch (channelRequestIDCounter ?ch) = None"
      "\<not> in_deinit (client_queue ?c)" "length (bufferQueue (client_queue ?c)) \<le> MAX_ELEMENT_IN_QUEUE"
    by (simp_all add: channel_init_def cq_new_def)
  obtain c1 where s: "sendRequest_send Acknowledged ''cu:1'' ''cu'' ''get'' None False False ?ch ?c = Ret (0, env ?C, c1)"
    using send_queues [OF c(2,4,5,3), of Acknowledged "''cu:1''" "''cu''" "''get''" None] by (simp add: channel_init_def small_node_facts)
  show ?thesis
    using quick_answer_lost [where resp = "\<lambda>_. channel_response" and C = ?C and k = 0 and r = 0 and out = "Ret (None, False)",
        OF small_node_facts(1,2) HOL.refl c s] by (auto simp: channel_init_def)
qed

end
