(* ===== verification/Storage_Driver.thy ===== *)
theory Storage_Driver
  imports Chaos_Prelude
begin

text \<open>
  The storage of the data service: data blocks (\<open>ChaosDataService/vfs/DataBlock.h\<close>) and the POSIX driver
  that keeps each of them in a file (\<open>vfs/storage_system/PosixStorageDriver.cpp\<close>). A call works on the
  world: the files and directories, the open streams and the data blocks on the heap, and the index
  database, whose type is a parameter. What the operating system decides comes from the environment,
  consulted with a running number: the clock, the generated identifiers, whether a call on the file system
  succeeds, and how much of its buffer a stream has handed over. A file stream never throws (no exception
  mask is set); a failure is a bit of its state.
\<close>

section \<open>The world\<close>

record fstream =
  fs_path :: string
  fs_in :: bool
  fs_out :: bool
  fs_pos :: nat
  fs_pending :: "u8 list"
  fs_bad :: bool
  fs_eof :: bool

record data_block =
  blk_flags :: nat
  invalidation_timestamp :: u64
  max_reacheable_size :: u64
  current_work_position :: u64
  creation_time :: u64
  vfs_path :: string
  vfs_domain :: string
  driver_private_data :: "nat option"
  index_driver_uinique_id :: string

definition new_DataBlock :: data_block where
  "new_DataBlock =
     \<lparr>blk_flags = 0, invalidation_timestamp = 0, max_reacheable_size = 0, current_work_position = 0,
      creation_time = 0, vfs_path = '''', vfs_domain = '''', driver_private_data = None,
      index_driver_uinique_id = ''''\<rparr>"

record 'd world =
  files :: "string \<rightharpoonup> u8 list"
  dirs :: "string list"
  streams :: "nat \<rightharpoonup> fstream"
  blocks :: "nat \<rightharpoonup> data_block"
  next_addr :: nat
  ticks :: nat
  database :: 'd

record vfs_env =
  fs_driver_domain_path :: string
  domain_name :: string
  env_io :: "nat \<Rightarrow> nat \<times> bool"
  env_os :: "nat \<Rightarrow> bool"
  env_now :: "nat \<Rightarrow> u64"
  env_uuid :: "nat \<Rightarrow> string"

type_synonym ('a, 'd) act = "'d world \<Rightarrow> ('a \<times> 'd world) outcome"

definition abind :: "('a, 'd) act \<Rightarrow> ('a \<Rightarrow> ('b, 'd) act) \<Rightarrow> ('b, 'd) act" where
  "abind m f w = obind (m w) (\<lambda>(a, w'). f a w')"

definition areturn :: "'a \<Rightarrow> ('a, 'd) act" where
  "areturn a w = Ret (a, w)"

definition afault :: "('a, 'd) act" where
  "afault w = Fault"

definition amodify :: "('d world \<Rightarrow> 'd world) \<Rightarrow> (unit, 'd) act" where
  "amodify f w = Ret ((), f w)"

definition aget :: "('d world \<Rightarrow> 'a) \<Rightarrow> ('a, 'd) act" where
  "aget f w = Ret (f w, w)"

definition consult :: "(nat \<Rightarrow> 'a) \<Rightarrow> ('a, 'd) act" where
  "consult f w = Ret (f (ticks w), w\<lparr>ticks := Suc (ticks w)\<rparr>)"

definition from_map :: "('d world \<Rightarrow> nat \<rightharpoonup> 'a) \<Rightarrow> nat option \<Rightarrow> ('a, 'd) act" where
  "from_map f p w = (case p of None \<Rightarrow> Fault
                     | Some a \<Rightarrow> (case f w a of None \<Rightarrow> Fault | Some x \<Rightarrow> Ret (x, w)))"

abbreviation block_at :: "nat option \<Rightarrow> (data_block, 'd) act" where
  "block_at \<equiv> from_map blocks"

abbreviation stream_at :: "nat option \<Rightarrow> (fstream, 'd) act" where
  "stream_at \<equiv> from_map streams"

definition set_stream :: "nat option \<Rightarrow> fstream \<Rightarrow> 'd world \<Rightarrow> 'd world" where
  "set_stream p st w = w\<lparr>streams := (streams w)(the p \<mapsto> st)\<rparr>"

definition set_block :: "nat option \<Rightarrow> data_block \<Rightarrow> 'd world \<Rightarrow> 'd world" where
  "set_block p b w = w\<lparr>blocks := (blocks w)(the p \<mapsto> b)\<rparr>"

definition new_stream :: "fstream \<Rightarrow> (nat, 'd) act" where
  "new_stream st w = Ret (next_addr w, w\<lparr>streams := (streams w)(next_addr w \<mapsto> st), next_addr := Suc (next_addr w)\<rparr>)"

definition new_block :: "data_block \<Rightarrow> (nat, 'd) act" where
  "new_block b w = Ret (next_addr w, w\<lparr>blocks := (blocks w)(next_addr w \<mapsto> b), next_addr := Suc (next_addr w)\<rparr>)"

definition delete_stream :: "nat option \<Rightarrow> 'd world \<Rightarrow> 'd world" where
  "delete_stream p w = w\<lparr>streams := (streams w)(the p := None)\<rparr>"

definition delete_block :: "nat option \<Rightarrow> 'd world \<Rightarrow> 'd world" where
  "delete_block p w = w\<lparr>blocks := (blocks w)(the p := None)\<rparr>"

section \<open>File streams\<close>

text \<open>
  A stream opened with \<open>app\<close> writes at the end of its file. What is written goes to the buffer of the
  stream; the environment tells how many bytes of the buffer reach the file during the call and whether
  the operating system reported an error, which sets the state of the stream.
\<close>

definition stream_good :: "fstream \<Rightarrow> bool" where
  "stream_good st \<longleftrightarrow> \<not> fs_bad st \<and> \<not> fs_eof st"

definition file_bytes :: "string \<Rightarrow> 'd world \<Rightarrow> u8 list" where
  "file_bytes path w = (case files w path of None \<Rightarrow> [] | Some c \<Rightarrow> c)"

definition append_file :: "string \<Rightarrow> u8 list \<Rightarrow> 'd world \<Rightarrow> 'd world" where
  "append_file path bs w =
     (case files w path of None \<Rightarrow> w | Some c \<Rightarrow> w\<lparr>files := (files w)(path \<mapsto> c @ bs)\<rparr>)"

definition hand_over :: "nat option \<Rightarrow> fstream \<Rightarrow> u8 list \<Rightarrow> nat \<Rightarrow> bool \<Rightarrow> (unit, 'd) act" where
  "hand_over p st buf n ok =
     abind (aget (file_bytes (fs_path st))) (\<lambda>c.
     amodify (\<lambda>w. set_stream p (st\<lparr>fs_pending := drop n buf, fs_pos := length c + length buf,
                                     fs_bad := fs_bad st \<or> \<not> ok\<rparr>)
                    (append_file (fs_path st) (take n buf) w)))"

definition fstream_write :: "vfs_env \<Rightarrow> nat option \<Rightarrow> u8 list \<Rightarrow> (unit, 'd) act" where
  "fstream_write E p bs =
     abind (stream_at p) (\<lambda>st.
     if \<not> stream_good st \<or> \<not> fs_out st then amodify (set_stream p (st\<lparr>fs_bad := True\<rparr>))
     else abind (consult (env_io E)) (\<lambda>(n, ok). hand_over p st (fs_pending st @ bs) n ok))"

definition fstream_flush :: "vfs_env \<Rightarrow> nat option \<Rightarrow> (unit, 'd) act" where
  "fstream_flush E p =
     abind (stream_at p) (\<lambda>st.
     if fs_bad st \<or> \<not> fs_out st then areturn ()
     else abind (consult (env_io E)) (\<lambda>(n, ok).
       hand_over p st (fs_pending st) (if ok then length (fs_pending st) else n) ok))"

definition fstream_close :: "vfs_env \<Rightarrow> nat option \<Rightarrow> (unit, 'd) act" where
  "fstream_close E p =
     abind (stream_at p) (\<lambda>st.
     if \<not> fs_out st then areturn ()
     else abind (consult (env_io E)) (\<lambda>(n, ok).
       hand_over p st (fs_pending st) (if ok \<and> \<not> fs_bad st then length (fs_pending st) else n) ok))"

definition fstream_read :: "vfs_env \<Rightarrow> nat option \<Rightarrow> nat \<Rightarrow> (u8 list, 'd) act" where
  "fstream_read E p len =
     abind (stream_at p) (\<lambda>st.
     if \<not> stream_good st \<or> \<not> fs_in st then abind (amodify (set_stream p (st\<lparr>fs_bad := True\<rparr>))) (\<lambda>_. areturn [])
     else abind (consult (env_io E)) (\<lambda>(n, ok).
       abind (aget (file_bytes (fs_path st))) (\<lambda>c.
       let got = take (if ok then len else min n len) (drop (fs_pos st) c) in
       abind (amodify (set_stream p (st\<lparr>fs_pos := fs_pos st + length got,
                                         fs_eof := (ok \<and> length got < len),
                                         fs_bad := (\<not> ok \<or> length got < len)\<rparr>)))
         (\<lambda>_. areturn got))))"

datatype BlockSeekBase = BlockSeekBaseBegin | BlockSeekBaseCurrent | BlockSeekBaseEnd

definition seek_base :: "BlockSeekBase \<Rightarrow> fstream \<Rightarrow> 'd world \<Rightarrow> int" where
  "seek_base dir st w = (case dir of BlockSeekBaseBegin \<Rightarrow> 0
                         | BlockSeekBaseCurrent \<Rightarrow> int (fs_pos st)
                         | BlockSeekBaseEnd \<Rightarrow> int (length (file_bytes (fs_path st) w)))"

text \<open>
  Seeking writes the buffer out, clears the end-of-file bit and fails for a position before the file. The
  offset arrives as an unsigned number and is read as a signed one.
\<close>

definition fstream_seek :: "vfs_env \<Rightarrow> nat option \<Rightarrow> u64 \<Rightarrow> BlockSeekBase \<Rightarrow> (unit, 'd) act" where
  "fstream_seek E p offset dir =
     abind (fstream_flush E p) (\<lambda>_.
     abind (stream_at p) (\<lambda>st.
     if fs_bad st then areturn ()
     else abind (aget (seek_base dir st)) (\<lambda>base.
       let target = base + sint offset in
       amodify (set_stream p (if target < 0 then st\<lparr>fs_eof := False, fs_bad := True\<rparr>
                              else st\<lparr>fs_eof := False, fs_pos := nat target\<rparr>)))))"

definition stream_tell :: "fstream \<Rightarrow> u64" where
  "stream_tell st = (if fs_bad st then - 1 else of_nat (fs_pos st))"

section \<open>The driver\<close>

definition getAbsolutePath :: "vfs_env \<Rightarrow> string \<Rightarrow> string" where
  "getAbsolutePath E path = fs_driver_domain_path E @ ''/'' @ path"

definition path_exists :: "string \<Rightarrow> 'd world \<Rightarrow> bool" where
  "path_exists p w \<longleftrightarrow> p \<in> set (dirs w) \<or> files w p \<noteq> None"

definition BlockFlagWriteble :: nat where "BlockFlagWriteble = 1"
definition BlockFlagReadeable :: nat where "BlockFlagReadeable = 2"

definition flag_writeable :: "nat \<Rightarrow> bool" where "flag_writeable flags \<longleftrightarrow> odd flags"
definition flag_readable :: "nat \<Rightarrow> bool" where "flag_readable flags \<longleftrightarrow> odd (flags div 2)"

text \<open>
  The constructor \<open>boost::filesystem::fstream(path, mode)\<close>: a stream for writing creates its file, one for
  reading alone needs it, and a stream for neither cannot be opened.
\<close>

definition open_fstream :: "vfs_env \<Rightarrow> string \<Rightarrow> nat \<Rightarrow> (nat, 'd) act" where
  "open_fstream E path flags =
     abind (consult (env_os E)) (\<lambda>ok.
     abind (aget (\<lambda>w. files w path)) (\<lambda>c.
     let opens = ok \<and> (flag_writeable flags \<or> flag_readable flags \<and> c \<noteq> None) in
     abind (amodify (\<lambda>w. if opens \<and> c = None then w\<lparr>files := (files w)(path \<mapsto> [])\<rparr> else w)) (\<lambda>_.
     new_stream \<lparr>fs_path = path, fs_in = flag_readable flags, fs_out = flag_writeable flags, fs_pos = 0,
                 fs_pending = [], fs_bad = \<not> opens, fs_eof = False\<rparr>)))"

text \<open>
  \<open>blockIsPresent\<close> reports through its error code; the flag it is given is never set. \<open>exists\<close> and
  \<open>is_directory\<close> throw when the operating system refuses, and nothing catches that here.
\<close>

definition fs_throws :: "cexception" where
  "fs_throws = CException (- 1) ''filesystem_error'' ''''"

definition psd_blockIsPresent :: "vfs_env \<Rightarrow> nat option \<Rightarrow> (int, 'd) act" where
  "psd_blockIsPresent E p =
     abind (block_at p) (\<lambda>b.
     abind (consult (env_os E)) (\<lambda>ok.
     if \<not> ok then (\<lambda>w. Throw fs_throws)
     else aget (\<lambda>w. let path = getAbsolutePath E (vfs_path b) in
            if path_exists path w then (if path \<in> set (dirs w) then - 2 else 0) else - 1)))"

definition psd_openBlock :: "vfs_env \<Rightarrow> nat option \<Rightarrow> nat \<Rightarrow> (int, 'd) act" where
  "psd_openBlock E p flags =
     abind (block_at p) (\<lambda>b.
     let path = getAbsolutePath E (vfs_path b) in
     abind (consult (env_os E)) (\<lambda>status_ok.
     abind (aget (\<lambda>w. path \<in> set (dirs w))) (\<lambda>is_dir.
     if \<not> status_ok then abind (amodify (set_block p (b\<lparr>driver_private_data := None\<rparr>))) (\<lambda>_. areturn (- 3))
     else if is_dir then areturn (- 1)
     else
       abind (consult (env_os E)) (\<lambda>size_ok.
       abind (aget (\<lambda>w. files w path)) (\<lambda>c.
       if \<not> size_ok \<or> c = None then
         abind (amodify (set_block p (b\<lparr>driver_private_data := None\<rparr>))) (\<lambda>_. areturn (- 3))
       else
         let b1 = b\<lparr>max_reacheable_size := of_nat (length (the c)), vfs_domain := domain_name E\<rparr> in
         abind (open_fstream E path flags) (\<lambda>s.
         abind (stream_at (Some s)) (\<lambda>st.
         if fs_bad st then
           abind (amodify (\<lambda>w. set_block p (b1\<lparr>driver_private_data := None\<rparr>) (delete_stream (Some s) w)))
             (\<lambda>_. areturn (- 2))
         else abind (amodify (set_block p (b1\<lparr>driver_private_data := Some s\<rparr>))) (\<lambda>_. areturn 0))))))))"

text \<open>
  Opening by path resets the caller's pointer first. When the stream does not open, the code writes
  through that null pointer. When the size of the file cannot be read, the block that \<open>new\<close> made is given
  to \<open>free\<close>.
\<close>

definition psd_openBlockPath :: "vfs_env \<Rightarrow> string \<Rightarrow> nat \<Rightarrow> (int \<times> nat option, 'd) act" where
  "psd_openBlockPath E vpath flags =
     (let path = getAbsolutePath E vpath in
      abind (consult (env_os E)) (\<lambda>status_ok.
      abind (aget (\<lambda>w. path \<in> set (dirs w))) (\<lambda>is_dir.
      if \<not> status_ok then areturn (- 5, None)
      else if is_dir then areturn (- 1, None)
      else
        abind (open_fstream E path flags) (\<lambda>s.
        abind (stream_at (Some s)) (\<lambda>st.
        if fs_bad st then afault
        else
          abind (consult (env_os E)) (\<lambda>size_ok.
          abind (aget (file_bytes path)) (\<lambda>c.
          if \<not> size_ok then afault
          else
            abind (consult (env_now E)) (\<lambda>now.
            abind (new_block (new_DataBlock\<lparr>vfs_path := vpath, vfs_domain := domain_name E,
                     driver_private_data := Some s, blk_flags := flags,
                     max_reacheable_size := of_nat (length c), creation_time := now\<rparr>))
              (\<lambda>b. areturn (0, Some b))))))))))"

definition psd_getBlockSize :: "vfs_env \<Rightarrow> nat option \<Rightarrow> (int, 'd) act" where
  "psd_getBlockSize E p =
     abind (block_at p) (\<lambda>b.
     let s = driver_private_data b in
     abind (fstream_seek E s 0 BlockSeekBaseEnd) (\<lambda>_.
     abind (stream_at s) (\<lambda>st.
     abind (amodify (set_block p (b\<lparr>current_work_position := ucast (ucast (stream_tell st) :: u32)\<rparr>))) (\<lambda>_.
     abind (fstream_seek E s 0 BlockSeekBaseBegin) (\<lambda>_. areturn 0)))))"

definition psd_closeBlock :: "vfs_env \<Rightarrow> nat option \<Rightarrow> (int, 'd) act" where
  "psd_closeBlock E p =
     abind (block_at p) (\<lambda>b.
     let s = driver_private_data b in
     abind (fstream_flush E s) (\<lambda>_.
     abind (fstream_close E s) (\<lambda>_.
     abind (amodify (\<lambda>w. delete_block p (delete_stream s w))) (\<lambda>_. areturn 0))))"

definition psd_write :: "vfs_env \<Rightarrow> nat option \<Rightarrow> u8 list \<Rightarrow> (int, 'd) act" where
  "psd_write E p bs =
     abind (block_at p) (\<lambda>b. abind (fstream_write E (driver_private_data b) bs) (\<lambda>_. areturn 0))"

text \<open>
  The bytes delivered to the caller's buffer are part of the result; the counter is set only when the
  stream is still good.
\<close>

definition psd_read :: "vfs_env \<Rightarrow> nat option \<Rightarrow> nat \<Rightarrow> (int \<times> u32 \<times> u8 list, 'd) act" where
  "psd_read E p len =
     abind (block_at p) (\<lambda>b.
     abind (fstream_read E (driver_private_data b) len) (\<lambda>bs.
     abind (stream_at (driver_private_data b)) (\<lambda>st.
     if \<not> stream_good st then areturn (- 1, 0, bs) else areturn (0, of_nat (length bs), bs))))"

definition psd_seekg :: "vfs_env \<Rightarrow> nat option \<Rightarrow> u64 \<Rightarrow> BlockSeekBase \<Rightarrow> (int, 'd) act" where
  "psd_seekg E p offset dir =
     abind (block_at p) (\<lambda>b.
     abind (fstream_seek E (driver_private_data b) offset dir) (\<lambda>_.
     abind (stream_at (driver_private_data b)) (\<lambda>st. areturn (if \<not> stream_good st then - 1 else 0))))"

definition psd_seekp :: "vfs_env \<Rightarrow> nat option \<Rightarrow> u64 \<Rightarrow> BlockSeekBase \<Rightarrow> (int, 'd) act" where
  "psd_seekp E p offset dir =
     abind (block_at p) (\<lambda>b.
     abind (fstream_seek E (driver_private_data b) offset dir) (\<lambda>_.
     abind (stream_at (driver_private_data b)) (\<lambda>st. areturn (if \<not> stream_good st then - 1 else 0))))"

definition psd_tellg :: "nat option \<Rightarrow> (int \<times> u64, 'd) act" where
  "psd_tellg p =
     abind (block_at p) (\<lambda>b.
     abind (stream_at (driver_private_data b)) (\<lambda>st. areturn (if fs_bad st then - 1 else 0, stream_tell st)))"

definition psd_tellp :: "nat option \<Rightarrow> (int \<times> u64, 'd) act" where
  "psd_tellp p =
     abind (block_at p) (\<lambda>b.
     abind (stream_at (driver_private_data b)) (\<lambda>st. areturn (if fs_bad st then - 1 else 0, stream_tell st)))"

definition psd_resize :: "vfs_env \<Rightarrow> nat option \<Rightarrow> u64 \<Rightarrow> (int, 'd) act" where
  "psd_resize E p new_size =
     abind (block_at p) (\<lambda>b.
     let path = getAbsolutePath E (vfs_path b); n = unat new_size in
     abind (consult (env_os E)) (\<lambda>ok.
     abind (aget (\<lambda>w. files w path)) (\<lambda>c.
     case c of
       None \<Rightarrow> areturn (- 1)
     | Some bs \<Rightarrow>
         if \<not> ok then areturn (- 1)
         else abind (amodify (\<lambda>w. w\<lparr>files := (files w)(path \<mapsto> take n bs @ replicate (n - length bs) 0)\<rparr>))
                (\<lambda>_. areturn 0))))"

definition psd_flush :: "vfs_env \<Rightarrow> nat option \<Rightarrow> (int, 'd) act" where
  "psd_flush E p =
     abind (block_at p) (\<lambda>b.
     abind (fstream_flush E (driver_private_data b)) (\<lambda>_.
     abind (stream_at (driver_private_data b)) (\<lambda>st. areturn (if fs_bad st then - 1 else 0))))"

definition psd_createDirectory :: "vfs_env \<Rightarrow> string \<Rightarrow> (int, 'd) act" where
  "psd_createDirectory E vpath =
     (let path = getAbsolutePath E vpath in
      abind (consult (env_os E)) (\<lambda>ok.
      abind (aget (\<lambda>w. (path_exists path w, path \<in> set (dirs w)))) (\<lambda>(present, is_dir).
      if \<not> ok then areturn (- 3)
      else if present then areturn (if is_dir then 0 else - 1)
      else abind (amodify (\<lambda>w. w\<lparr>dirs := path # dirs w\<rparr>)) (\<lambda>_. areturn 0))))"

definition path_prefixes :: "string \<Rightarrow> string list" where
  "path_prefixes p =
     map (\<lambda>i. take i p) (filter (\<lambda>i. i = length p \<or> p ! i = CHR ''/'') [1..<Suc (length p)])"

text \<open>
  \<open>create_directories\<close> is called with an error code and does not throw: the result is 0 in every case.
\<close>

definition psd_createPath :: "vfs_env \<Rightarrow> string \<Rightarrow> (int, 'd) act" where
  "psd_createPath E vpath =
     (let ps = path_prefixes (getAbsolutePath E vpath) in
      abind (consult (env_os E)) (\<lambda>ok.
      abind (amodify (\<lambda>w. if ok \<and> list_all (\<lambda>p. files w p = None) ps then w\<lparr>dirs := ps @ dirs w\<rparr> else w))
        (\<lambda>_. areturn 0)))"

definition below :: "string \<Rightarrow> string \<Rightarrow> bool" where
  "below path q \<longleftrightarrow> take (Suc (length path)) q = path @ ''/''"

text \<open>
  The operating system also refuses to remove a directory that is not empty.
  \<open>remove_all\<close> returns the number of paths removed, and the largest number when the operating system
  refuses, which the code takes for success.
\<close>

definition psd_deletePath :: "vfs_env \<Rightarrow> string \<Rightarrow> bool \<Rightarrow> (int, 'd) act" where
  "psd_deletePath E vpath all =
     (let path = getAbsolutePath E vpath in
      abind (consult (env_os E)) (\<lambda>ok.
      abind (aget (path_exists path)) (\<lambda>present.
      if all then
        (if \<not> ok then areturn 0
         else if \<not> present then areturn (- 1)
         else abind (amodify (\<lambda>w. w\<lparr>files := (\<lambda>q. if q = path \<or> below path q then None else files w q),
                                      dirs := filter (\<lambda>q. q \<noteq> path \<and> \<not> below path q) (dirs w)\<rparr>)) (\<lambda>_. areturn 0))
      else if \<not> ok \<or> \<not> present then areturn (- 22)
      else abind (amodify (\<lambda>w. w\<lparr>files := (files w)(path := None), dirs := removeAll path (dirs w)\<rparr>))
             (\<lambda>_. areturn 0))))"

end
