(* ===== verification/Vfs_File.thy ===== *)
theory Vfs_File
  imports Storage_Driver
begin

text \<open>
  Logical files of the data service (\<open>ChaosDataService/vfs/VFSFile.cpp\<close>): a file is a sequence of data
  blocks, of which one at most is open. The index database is used through the interface
  \<open>db_system/DBDriver.h\<close>, here a record of functions on the state of the database.
\<close>

section \<open>Files and locations\<close>

record VFSFileInfo =
  max_block_size :: u32
  max_block_lifetime :: u32
  identify_key :: string
  vfs_fpath :: string
  file_domain :: string

datatype VFSFileOpenMode = VFSFileOpenModeRead | VFSFileOpenModeWrite

abbreviation (input) DataBlockStateNone :: int where "DataBlockStateNone \<equiv> 0"
abbreviation (input) DataBlockStateAquiringData :: int where "DataBlockStateAquiringData \<equiv> 1"
abbreviation (input) DataBlockStateProcessing :: int where "DataBlockStateProcessing \<equiv> 2"
abbreviation (input) DataBlockStateProcessed :: int where "DataBlockStateProcessed \<equiv> 4"
abbreviation (input) DataBlockStateQuerable :: int where "DataBlockStateQuerable \<equiv> 32"

record file_location =
  loc_block :: "nat option"
  loc_domain :: string
  loc_path :: string
  loc_offset :: u64

definition FileLocationPointer :: "nat option \<Rightarrow> u64 \<Rightarrow> (file_location, 'd) act" where
  "FileLocationPointer p offset =
     (if p = None then areturn \<lparr>loc_block = None, loc_domain = '''', loc_path = '''', loc_offset = offset\<rparr>
      else abind (block_at p) (\<lambda>b.
        areturn \<lparr>loc_block = p, loc_domain = vfs_domain b, loc_path = vfs_path b, loc_offset = offset\<rparr>))"

definition path_location_isValid :: "file_location \<Rightarrow> bool" where
  "path_location_isValid l = (if loc_offset l \<noteq> 0 then 0 < length (loc_path l) else True)"

definition file_location_isValid :: "file_location \<Rightarrow> bool" where
  "file_location_isValid l = (if loc_offset l \<noteq> 0 then loc_block l \<noteq> None else path_location_isValid l)"

record data_pack_index =
  idx_did :: string
  idx_ds_type :: u32
  idx_acquisition_ts :: u64
  idx_dst_location :: file_location
  idx_datapack_size :: u32

record 'd db_driver =
  vfsAddNewDataBlock :: "VFSFileInfo \<Rightarrow> data_block \<Rightarrow> int \<Rightarrow> 'd \<Rightarrow> (int \<times> data_block) \<times> 'd"
  vfsDeleteDataBlock :: "VFSFileInfo \<Rightarrow> data_block \<Rightarrow> 'd \<Rightarrow> int \<times> 'd"
  vfsSetStateOnDataBlock :: "VFSFileInfo \<Rightarrow> data_block \<Rightarrow> int \<Rightarrow> 'd \<Rightarrow> int \<times> 'd"
  vfsSwapStateOnDataBlock :: "VFSFileInfo \<Rightarrow> data_block \<Rightarrow> int \<Rightarrow> int \<Rightarrow> 'd \<Rightarrow> (int \<times> bool) \<times> 'd"
  vfsSetHeartbeatOnDatablock :: "VFSFileInfo \<Rightarrow> data_block \<Rightarrow> u64 \<Rightarrow> 'd \<Rightarrow> int \<times> 'd"
  vfsUpdateDatablockCurrentWorkPosition :: "VFSFileInfo \<Rightarrow> data_block \<Rightarrow> 'd \<Rightarrow> int \<times> 'd"
  vfsFindSinceTimeDataBlock :: "VFSFileInfo \<Rightarrow> u64 \<Rightarrow> bool \<Rightarrow> int \<Rightarrow> 'd \<Rightarrow> (int \<times> data_block option) \<times> 'd"
  vfsFileExist :: "VFSFileInfo \<Rightarrow> 'd \<Rightarrow> (int \<times> bool) \<times> 'd"
  idxAddDataPackIndex :: "data_pack_index \<Rightarrow> data_block \<Rightarrow> 'd \<Rightarrow> int \<times> 'd"
  idxSetDataPackIndexStateByDataBlock :: "string \<Rightarrow> string \<Rightarrow> int \<Rightarrow> 'd \<Rightarrow> int \<times> 'd"

definition db_call :: "('d \<Rightarrow> 'a \<times> 'd) \<Rightarrow> ('a, 'd) act" where
  "db_call f w = (case f (database w) of (r, d) \<Rightarrow> Ret (r, w\<lparr>database := d\<rparr>))"

record vfs_file =
  vfs_file_info :: VFSFileInfo
  open_mode :: VFSFileOpenMode
  file_is_good :: bool
  current_data_block :: "nat option"
  current_journal_data_block :: "nat option"

text \<open>
  The constructor puts the area before a path that does not begin with it already.
\<close>

definition area_path :: "string \<Rightarrow> string \<Rightarrow> string" where
  "area_path area path = (if take (length area) path = area then path else area @ ''/'' @ path)"

definition new_VFSFile :: "string \<Rightarrow> string \<Rightarrow> VFSFileOpenMode \<Rightarrow> vfs_file" where
  "new_VFSFile area path mode =
     \<lparr>vfs_file_info = \<lparr>max_block_size = 0, max_block_lifetime = 0, identify_key = '''',
                       vfs_fpath = area_path area path, file_domain = ''''\<rparr>,
      open_mode = mode, file_is_good = True, current_data_block = None, current_journal_data_block = None\<rparr>"

section \<open>Data blocks of a file\<close>

definition getNewDataBlock ::
  "vfs_env \<Rightarrow> 'd db_driver \<Rightarrow> 'a vfs_file_scheme \<Rightarrow> (int \<times> nat option, 'd) act" where
  "getNewDataBlock E D f =
     abind (consult (env_uuid E)) (\<lambda>uuid.
     abind (psd_openBlockPath E (vfs_fpath (vfs_file_info f) @ ''/'' @ uuid) BlockFlagWriteble) (\<lambda>(err, p).
     if err \<noteq> 0 \<or> p = None then areturn (- 1, None)
     else
       abind (block_at p) (\<lambda>b.
       abind (consult (env_now E)) (\<lambda>now.
       let b1 = b\<lparr>invalidation_timestamp := now + ucast (max_block_lifetime (vfs_file_info f)),
                  max_reacheable_size := ucast (max_block_size (vfs_file_info f))\<rparr> in
       abind (db_call (vfsAddNewDataBlock D (vfs_file_info f) b1 DataBlockStateAquiringData)) (\<lambda>(err, b2).
       abind (amodify (set_block p b2)) (\<lambda>_.
       if err \<noteq> 0 then abind (psd_closeBlock E p) (\<lambda>_. areturn (- 2, None))
       else areturn (0, p)))))))"

text \<open>The result of the database is logged and dropped.\<close>

definition updateDataBlockState :: "'d db_driver \<Rightarrow> 'a vfs_file_scheme \<Rightarrow> int \<Rightarrow> (int, 'd) act" where
  "updateDataBlockState D f state =
     abind (block_at (current_data_block f)) (\<lambda>b.
     abind (db_call (vfsSetStateOnDataBlock D (vfs_file_info f) b state)) (\<lambda>_. areturn 0))"

definition releaseDataBlock ::
  "vfs_env \<Rightarrow> 'd db_driver \<Rightarrow> 'a vfs_file_scheme \<Rightarrow> nat option \<Rightarrow> int \<Rightarrow> (int, 'd) act" where
  "releaseDataBlock E D f p closed_state =
     (if p = None then areturn 0
      else
        abind (block_at p) (\<lambda>b.
        abind (db_call (vfsSetStateOnDataBlock D (vfs_file_info f) b closed_state)) (\<lambda>err.
        abind (if err \<noteq> 0 then areturn ()
               else abind (db_call (vfsUpdateDatablockCurrentWorkPosition D (vfs_file_info f) b)) (\<lambda>err.
                      if err \<noteq> 0 then areturn ()
                      else abind (consult (env_now E)) (\<lambda>now.
                             abind (db_call (vfsSetHeartbeatOnDatablock D (vfs_file_info f) b now)) (\<lambda>_. areturn ()))))
          (\<lambda>_. psd_closeBlock E p))))"

text \<open>The destructor releases the block with this class's \<open>releaseDataBlock\<close>, whatever class the file has.\<close>

definition delete_VFSFile :: "vfs_env \<Rightarrow> 'd db_driver \<Rightarrow> 'a vfs_file_scheme \<Rightarrow> (unit, 'd) act" where
  "delete_VFSFile E D f =
     (if current_data_block f = None then areturn ()
      else abind (releaseDataBlock E D f (current_data_block f) DataBlockStateNone) (\<lambda>_. areturn ()))"

definition giveHeartbeat :: "'d db_driver \<Rightarrow> 'a vfs_file_scheme \<Rightarrow> u64 \<Rightarrow> (int, 'd) act" where
  "giveHeartbeat D f hb_time =
     (if current_data_block f = None then areturn 0
      else abind (block_at (current_data_block f)) (\<lambda>b.
        db_call (vfsSetHeartbeatOnDatablock D (vfs_file_info f) b hb_time)))"

definition isDataBlockValid :: "vfs_env \<Rightarrow> nat option \<Rightarrow> (bool, 'd) act" where
  "isDataBlockValid E p =
     (if p = None then areturn False
      else abind (block_at p) (\<lambda>b.
        abind (consult (env_now E)) (\<lambda>now.
        areturn (invalidation_timestamp b > now \<and> current_work_position b < max_reacheable_size b))))"

definition getCurrentFileLocation :: "'a vfs_file_scheme \<Rightarrow> (file_location, 'd) act" where
  "getCurrentFileLocation f =
     (if current_data_block f = None then FileLocationPointer None (- 1)
      else abind (block_at (current_data_block f)) (\<lambda>b.
        FileLocationPointer (current_data_block f) (current_work_position b)))"

definition file_exist :: "'d db_driver \<Rightarrow> 'a vfs_file_scheme \<Rightarrow> (bool, 'd) act" where
  "file_exist D f =
     abind (db_call (vfsFileExist D (vfs_file_info f))) (\<lambda>(err, exist_flag).
     areturn (if err \<noteq> 0 then False else exist_flag))"

definition seekOnCurrentBlock ::
  "vfs_env \<Rightarrow> 'a vfs_file_scheme \<Rightarrow> BlockSeekBase \<Rightarrow> u64 \<Rightarrow> bool \<Rightarrow> (int, 'd) act" where
  "seekOnCurrentBlock E f base_direction offset gp =
     (if current_data_block f = None then areturn (- 1)
      else if gp then psd_seekp E (current_data_block f) offset base_direction
      else psd_seekg E (current_data_block f) offset base_direction)"

text \<open>
  In the wrong mode the error message reads the path of the block, and the result is 0.
\<close>

definition VFSFile_write :: "vfs_env \<Rightarrow> 'a vfs_file_scheme \<Rightarrow> u8 list \<Rightarrow> (int, 'd) act" where
  "VFSFile_write E f data =
     (if open_mode f \<noteq> VFSFileOpenModeWrite then
        abind (block_at (current_data_block f)) (\<lambda>_. areturn 0)
      else
        abind (psd_write E (current_data_block f) data) (\<lambda>err.
        abind (block_at (current_data_block f)) (\<lambda>b.
        if err \<noteq> 0 then areturn err
        else abind (amodify (set_block (current_data_block f)
               (b\<lparr>current_work_position := current_work_position b + of_nat (length data)\<rparr>))) (\<lambda>_. areturn 0))))"

definition VFSFile_read :: "vfs_env \<Rightarrow> 'a vfs_file_scheme \<Rightarrow> u32 \<Rightarrow> (int \<times> u8 list, 'd) act" where
  "VFSFile_read E f buffer_len =
     (if current_data_block f = None then areturn (- 1, [])
      else if open_mode f \<noteq> VFSFileOpenModeRead then
        abind (block_at (current_data_block f)) (\<lambda>_. areturn (0, []))
      else
        abind (psd_read E (current_data_block f) (unat buffer_len)) (\<lambda>(err, readed_byte, bs).
        abind (block_at (current_data_block f)) (\<lambda>b.
        if err \<noteq> 0 then areturn (sint readed_byte, bs)
        else abind (amodify (set_block (current_data_block f)
               (b\<lparr>current_work_position := current_work_position b + ucast readed_byte\<rparr>)))
               (\<lambda>_. areturn (sint readed_byte, bs)))))"

section \<open>The journal\<close>

definition text_bytes :: "string \<Rightarrow> u8 list" where
  "text_bytes s = map of_char s"

definition journal_write :: "vfs_env \<Rightarrow> 'a vfs_file_scheme \<Rightarrow> string \<Rightarrow> (int, 'd) act" where
  "journal_write E f row =
     (if current_journal_data_block f = None then areturn 0
      else psd_write E (current_journal_data_block f) (text_bytes row))"

definition openKeyToJournal :: "vfs_env \<Rightarrow> 'a vfs_file_scheme \<Rightarrow> string \<Rightarrow> (int, 'd) act" where
  "openKeyToJournal E f key = journal_write E f ('':'' @ key @ '':'')"

definition appendValueToJournal :: "vfs_env \<Rightarrow> 'a vfs_file_scheme \<Rightarrow> string \<Rightarrow> (int, 'd) act" where
  "appendValueToJournal E f val = journal_write E f (val @ '':'')"

definition closeKeyToJournal :: "vfs_env \<Rightarrow> 'a vfs_file_scheme \<Rightarrow> string \<Rightarrow> (int, 'd) act" where
  "closeKeyToJournal E f key =
     (if current_journal_data_block f = None then areturn 0
      else abind (psd_write E (current_journal_data_block f) (text_bytes (key @ '':'' @ [CHR 0x0A]))) (\<lambda>err.
        if err \<noteq> 0 then areturn err else psd_flush E (current_journal_data_block f)))"

definition writeKeyValueToJournal :: "vfs_env \<Rightarrow> 'a vfs_file_scheme \<Rightarrow> string \<Rightarrow> string \<Rightarrow> (int, 'd) act" where
  "writeKeyValueToJournal E f key val =
     abind (openKeyToJournal E f key) (\<lambda>err. if err \<noteq> 0 then areturn err
     else abind (appendValueToJournal E f val) (\<lambda>err. if err \<noteq> 0 then areturn err
     else closeKeyToJournal E f key))"

definition openJournalForDatablock :: "vfs_env \<Rightarrow> nat option \<Rightarrow> (int \<times> nat option, 'd) act" where
  "openJournalForDatablock E p =
     abind (block_at p) (\<lambda>b. psd_openBlockPath E (vfs_path b @ ''.journal'') BlockFlagWriteble)"

definition closeJournalDatablock :: "vfs_env \<Rightarrow> nat option \<Rightarrow> (int, 'd) act" where
  "closeJournalDatablock E p =
     (if p = None then areturn 0
      else abind (block_at p) (\<lambda>b.
        abind (psd_closeBlock E p) (\<lambda>err.
        if err \<noteq> 0 then areturn err else psd_deletePath E (vfs_path b) False)))"

text \<open>The error of the journal is logged and dropped.\<close>

definition syncWorkPositionFromDatablockAndJournal ::
  "vfs_env \<Rightarrow> 'a vfs_file_scheme \<Rightarrow> nat option \<Rightarrow> nat option \<Rightarrow> (int, 'd) act" where
  "syncWorkPositionFromDatablockAndJournal E f p j =
     (if j = None then areturn 0
      else abind (block_at p) (\<lambda>b.
        abind (writeKeyValueToJournal E f ''offset'' (decimal (unat (current_work_position b)))) (\<lambda>err.
        if err \<noteq> 0 then areturn 0
        else abind (psd_flush E j) (\<lambda>_. areturn 0))))"

definition syncCurrentOffsetToJournal :: "vfs_env \<Rightarrow> 'a vfs_file_scheme \<Rightarrow> (int, 'd) act" where
  "syncCurrentOffsetToJournal E f =
     (if current_data_block f \<noteq> None \<and> current_journal_data_block f \<noteq> None then
        syncWorkPositionFromDatablockAndJournal E f (current_data_block f) (current_journal_data_block f)
      else areturn 0)"

definition journalIsPresent :: "vfs_env \<Rightarrow> nat option \<Rightarrow> (int, 'd) act" where
  "journalIsPresent E p = (if p = None then areturn 0 else psd_blockIsPresent E p)"

section \<open>Closing the current block\<close>

text \<open>
  \<open>releaseDataBlock\<close> is virtual: \<open>rel\<close> is the one of the file's class. When it reports an error the log
  message reads the path of the block, which has been deleted by then.
\<close>

definition closeCurrentDataBlock ::
  "vfs_env \<Rightarrow> (nat option \<Rightarrow> int \<Rightarrow> (int, 'd) act) \<Rightarrow> 'a vfs_file_scheme \<Rightarrow> int \<Rightarrow>
   (int \<times> 'a vfs_file_scheme, 'd) act" where
  "closeCurrentDataBlock E rel f closed_state =
     (if current_data_block f = None then areturn (0, f)
      else
        abind (if current_journal_data_block f = None then areturn f
               else abind (closeJournalDatablock E (current_journal_data_block f)) (\<lambda>err.
                 if err \<noteq> 0 then abind (block_at (current_data_block f)) (\<lambda>_. areturn f)
                 else areturn (f\<lparr>current_journal_data_block := None\<rparr>)))
        (\<lambda>f1.
        abind (rel (current_data_block f1) closed_state) (\<lambda>err.
        if err \<noteq> 0 then abind (block_at (current_data_block f1)) (\<lambda>_. areturn (err, f1))
        else areturn (0, f1\<lparr>current_data_block := None\<rparr>))))"

definition mantain ::
  "vfs_env \<Rightarrow> (nat option \<Rightarrow> int \<Rightarrow> (int, 'd) act) \<Rightarrow> 'a vfs_file_scheme \<Rightarrow> int \<Rightarrow>
   (int \<times> 'a vfs_file_scheme, 'd) act" where
  "mantain E rel f closing_state =
     abind (isDataBlockValid E (current_data_block f)) (\<lambda>valid.
     if valid then areturn (0, f) else closeCurrentDataBlock E rel f closing_state)"

definition hasData :: "'a vfs_file_scheme \<Rightarrow> int \<times> bool" where
  "hasData f = (0, current_data_block f \<noteq> None)"

end
