(* ===== verification/Vfs_Stage.thy ===== *)
theory Vfs_Stage
  imports Vfs_File
begin

text \<open>
  The stage area: producers' packs are appended to stage files (\<open>vfs/VFSStageWriteableFile.cpp\<close>) and read
  back block by block (\<open>vfs/VFSStageReadableFile.cpp\<close>).
\<close>

section \<open>Writing\<close>

record stage_writer = vfs_file +
  check_validity_counter :: u32

text \<open>
  The constructors: the path of the file is created by the driver. The counter of the writer is not
  initialised; \<open>junk\<close> is what it holds.
\<close>

definition VFSStageFile_good :: "vfs_env \<Rightarrow> 'a vfs_file_scheme \<Rightarrow> ('a vfs_file_scheme, 'd) act" where
  "VFSStageFile_good E f =
     abind (psd_createPath E (vfs_fpath (vfs_file_info f))) (\<lambda>err. areturn (f\<lparr>file_is_good := (err = 0)\<rparr>))"

definition new_VFSStageWriteableFile :: "vfs_env \<Rightarrow> u32 \<Rightarrow> string \<Rightarrow> (stage_writer, 'd) act" where
  "new_VFSStageWriteableFile E junk path =
     VFSStageFile_good E (vfs_file.extend (new_VFSFile ''stage'' path VFSFileOpenModeWrite)
                            (stage_writer.fields junk))"

definition stage_isDataBlockValid ::
  "vfs_env \<Rightarrow> stage_writer \<Rightarrow> nat option \<Rightarrow> (bool \<times> stage_writer, 'd) act" where
  "stage_isDataBlockValid E f p =
     (let f1 = f\<lparr>check_validity_counter := check_validity_counter f + 1\<rparr> in
      if p = None then areturn (False, f1)
      else if check_validity_counter f1 mod 16 \<noteq> 0 then areturn (True, f1)
      else abind (isDataBlockValid E p) (\<lambda>valid. areturn (valid, f1)))"

definition stage_write ::
  "vfs_env \<Rightarrow> 'd db_driver \<Rightarrow> stage_writer \<Rightarrow> u8 list \<Rightarrow> (int \<times> stage_writer, 'd) act" where
  "stage_write E D f data =
     abind (stage_isDataBlockValid E f (current_data_block f)) (\<lambda>(valid, f1).
     abind (if valid then areturn (0, f1)
            else abind (releaseDataBlock E D f1 (current_data_block f1) DataBlockStateNone) (\<lambda>err.
              if err \<noteq> 0 then areturn (err, f1)
              else abind (getNewDataBlock E D f1) (\<lambda>(err, p).
                areturn (err, if err \<noteq> 0 then f1 else f1\<lparr>current_data_block := p\<rparr>))))
     (\<lambda>(err, f2).
     if err \<noteq> 0 then areturn (err, f2)
     else abind (VFSFile_write E f2 data) (\<lambda>err. areturn (err, f2))))"

section \<open>Reading\<close>

record stage_reader = vfs_file +
  overlaped_block_read :: bool
  current_block_creation_ts :: u64

definition new_VFSStageReadableFile :: "vfs_env \<Rightarrow> string \<Rightarrow> (stage_reader, 'd) act" where
  "new_VFSStageReadableFile E path =
     VFSStageFile_good E (vfs_file.extend (new_VFSFile ''stage'' path VFSFileOpenModeRead)
                            (stage_reader.fields False 0))"

text \<open>
  The loop that looks for a block goes on as long as another reader takes the block that was found. It
  may run forever; \<open>fuel\<close> bounds the number of rounds and \<open>None\<close> stands for running out of it.
\<close>

definition abind_some :: "('a option, 'd) act \<Rightarrow> ('a \<Rightarrow> ('b option, 'd) act) \<Rightarrow> ('b option, 'd) act" where
  "abind_some m f = abind m (\<lambda>r. case r of None \<Rightarrow> areturn None | Some a \<Rightarrow> f a)"

definition take_found_block ::
  "vfs_env \<Rightarrow> 'd db_driver \<Rightarrow> stage_reader \<Rightarrow> nat option \<Rightarrow> (int \<times> stage_reader, 'd) act" where
  "take_found_block E D f p =
     abind (block_at p) (\<lambda>b.
     abind (db_call (vfsSwapStateOnDataBlock D (vfs_file_info f) b DataBlockStateNone DataBlockStateProcessing))
       (\<lambda>(err, success).
     abind (if err \<noteq> 0 \<or> \<not> success then areturn (err, False)
            else abind (psd_openBlock E p BlockFlagReadeable) (\<lambda>err. areturn (err, err = 0)))
     (\<lambda>(err, opened).
     if \<not> opened then
       abind (amodify (delete_block p)) (\<lambda>_.
       areturn (err, f\<lparr>current_block_creation_ts := 0, current_data_block := None\<rparr>))
     else
       abind (block_at p) (\<lambda>b.
       let f1 = f\<lparr>current_block_creation_ts := creation_time b, current_data_block := p\<rparr> in
       abind (journalIsPresent E p) (\<lambda>err.
       if err \<noteq> 0 then areturn (err, f1)
       else abind (openJournalForDatablock E p) (\<lambda>(err, j).
         areturn (err, f1\<lparr>current_journal_data_block := j\<rparr>)))))))"

fun getNextAvailbaleBlock ::
  "nat \<Rightarrow> vfs_env \<Rightarrow> 'd db_driver \<Rightarrow> stage_reader \<Rightarrow> ((int \<times> stage_reader) option, 'd) act" where
  "getNextAvailbaleBlock 0 E D f = areturn None"
| "getNextAvailbaleBlock (Suc fuel) E D f =
     (if current_data_block f \<noteq> None then areturn (Some (0, f))
      else
        abind (db_call (vfsFindSinceTimeDataBlock D (vfs_file_info f) (current_block_creation_ts f) True
                          DataBlockStateNone)) (\<lambda>(err, found).
        case found of
          None \<Rightarrow> areturn (Some (err, f))
        | Some b \<Rightarrow>
            abind (new_block b) (\<lambda>a.
            if err \<noteq> 0 then areturn (Some (err, f\<lparr>current_data_block := Some a\<rparr>))
            else abind (take_found_block E D f (Some a)) (\<lambda>(err, f1).
              if err \<noteq> 0 then areturn (Some (err, f1)) else getNextAvailbaleBlock fuel E D f1))))"

text \<open>
  A block read to its end is taken out of the database, closed and deleted. The code reaches the next
  block in the same call only for an overlapping read. The pointer to the journal is not reset, and the
  error of the database is not assigned.
\<close>

definition finish_block ::
  "vfs_env \<Rightarrow> 'd db_driver \<Rightarrow> stage_reader \<Rightarrow> (int \<times> stage_reader, 'd) act" where
  "finish_block E D f =
     abind (block_at (current_data_block f)) (\<lambda>b.
     abind (closeJournalDatablock E (current_journal_data_block f)) (\<lambda>err.
     if err \<noteq> 0 then areturn (err, f)
     else abind (db_call (vfsDeleteDataBlock D (vfs_file_info f) b)) (\<lambda>derr.
     if derr \<noteq> 0 then areturn (0, f)
     else abind (psd_closeBlock E (current_data_block f)) (\<lambda>err.
     if err \<noteq> 0 then areturn (err, f)
     else abind (psd_deletePath E (vfs_path b) False) (\<lambda>err.
       areturn (err, f\<lparr>current_data_block := None\<rparr>))))))"

definition checkForBlockChange ::
  "nat \<Rightarrow> vfs_env \<Rightarrow> 'd db_driver \<Rightarrow> stage_reader \<Rightarrow> bool \<Rightarrow> ((int \<times> stage_reader) option, 'd) act" where
  "checkForBlockChange fuel E D f overlapping =
     (if current_data_block f = None then getNextAvailbaleBlock fuel E D f
      else
        abind (block_at (current_data_block f)) (\<lambda>b.
        if current_work_position b \<noteq> max_reacheable_size b then areturn (Some (0, f))
        else
          abind (updateDataBlockState D f DataBlockStateProcessed) (\<lambda>err.
          if err \<noteq> 0 then areturn (Some (err, f))
          else
            abind (finish_block E D f) (\<lambda>(err, f1).
            if overlapping \<and> current_data_block f1 = None then getNextAvailbaleBlock fuel E D f1
            else areturn (Some (err, f1))))))"

definition overlay :: "nat \<Rightarrow> u8 list \<Rightarrow> u8 list \<Rightarrow> u8 list" where
  "overlay k bs old = take k old @ bs @ drop (k + length bs) old"

text \<open>
  The comparison with the length is unsigned. The second part of an overlapping read replaces the count
  of the first.
\<close>

definition stage_read ::
  "nat \<Rightarrow> vfs_env \<Rightarrow> 'd db_driver \<Rightarrow> stage_reader \<Rightarrow> u32 \<Rightarrow>
   (((int \<times> u8 list) \<times> stage_reader) option, 'd) act" where
  "stage_read fuel E D f data_len =
     abind_some (checkForBlockChange fuel E D f (overlaped_block_read f)) (\<lambda>(err, f1).
     if err \<noteq> 0 \<or> current_data_block f1 = None then areturn (Some ((err, []), f1))
     else
       abind (VFSFile_read E f1 data_len) (\<lambda>(read_data, bs).
       if overlaped_block_read f1 \<and> (word_of_int read_data :: u32) < data_len then
         abind_some (checkForBlockChange fuel E D f1 (overlaped_block_read f1)) (\<lambda>(err, f2).
         if err \<noteq> 0 then areturn (Some ((err, bs), f2))
         else if current_data_block f2 = None then areturn (Some ((read_data, bs), f2))
         else abind (VFSFile_read E f2 (data_len - word_of_int read_data)) (\<lambda>(read_data2, bs2).
                areturn (Some ((read_data2, overlay (nat read_data) bs2 bs), f2))))
       else areturn (Some ((read_data, bs), f1))))"

definition stage_prefetchData ::
  "nat \<Rightarrow> vfs_env \<Rightarrow> 'd db_driver \<Rightarrow> stage_reader \<Rightarrow> ((int \<times> stage_reader) option, 'd) act" where
  "stage_prefetchData fuel E D f =
     (if current_data_block f = None then checkForBlockChange fuel E D f (overlaped_block_read f)
      else areturn (Some (0, f)))"

end
