(* ===== verification/Vfs_Data.thy ===== *)
theory Vfs_Data
  imports Vfs_Stage Wire_Format "HOL-Library.AList" "HOL-Library.Char_ord" "HOL-Library.List_Lexorder"
begin

text \<open>
  The data area: one file per device (\<open>vfs/VFSDataWriteableFile.cpp\<close>), the manager that hands files out
  (\<open>vfs/VFSManager.cpp\<close>), and the scanner that moves the packs of a stage file into the data files and
  indexes them (\<open>indexer/DataPackScanner.cpp\<close>, \<open>indexer/StageDataVFileScanner.cpp\<close>).
\<close>

section \<open>Data files\<close>

definition new_VFSDataWriteableFile :: "vfs_env \<Rightarrow> string \<Rightarrow> (vfs_file, 'd) act" where
  "new_VFSDataWriteableFile E path =
     (let f = new_VFSFile ''data'' path VFSFileOpenModeWrite in
      abind (psd_createPath E (vfs_fpath (vfs_file_info f))) (\<lambda>err. areturn (f\<lparr>file_is_good := (err = 0)\<rparr>)))"

abbreviation (input) DataPackIndexQueryStateQuerable :: int where "DataPackIndexQueryStateQuerable \<equiv> 1"

definition data_releaseDataBlock ::
  "vfs_env \<Rightarrow> 'd db_driver \<Rightarrow> vfs_file \<Rightarrow> nat option \<Rightarrow> int \<Rightarrow> (int, 'd) act" where
  "data_releaseDataBlock E D f p closed_state =
     abind (block_at p) (\<lambda>b.
     abind (releaseDataBlock E D f p closed_state) (\<lambda>_.
     db_call (idxSetDataPackIndexStateByDataBlock D (vfs_domain b) (vfs_path b) DataPackIndexQueryStateQuerable)))"

text \<open>The pointer to the released block stays in the file until a new block replaces it.\<close>

definition switchDataBlock ::
  "vfs_env \<Rightarrow> 'd db_driver \<Rightarrow> vfs_file \<Rightarrow> bool \<Rightarrow> (int \<times> vfs_file, 'd) act" where
  "switchDataBlock E D f close_only =
     abind (if current_data_block f = None then areturn 0
            else data_releaseDataBlock E D f (current_data_block f) DataBlockStateQuerable) (\<lambda>err.
     if close_only then areturn (err, f)
     else abind (getNewDataBlock E D f) (\<lambda>(err, p).
       areturn (err, if err \<noteq> 0 then f else f\<lparr>current_data_block := p\<rparr>)))"

definition data_prefetchData :: "vfs_env \<Rightarrow> 'd db_driver \<Rightarrow> vfs_file \<Rightarrow> (int \<times> vfs_file, 'd) act" where
  "data_prefetchData E D f = (if current_data_block f = None then switchDataBlock E D f False else areturn (0, f))"

definition data_write :: "vfs_env \<Rightarrow> 'd db_driver \<Rightarrow> vfs_file \<Rightarrow> u8 list \<Rightarrow> (int \<times> vfs_file, 'd) act" where
  "data_write E D f data =
     abind (isDataBlockValid E (current_data_block f)) (\<lambda>valid.
     abind (if valid then areturn (0, f) else switchDataBlock E D f False) (\<lambda>(_, f1).
     abind (VFSFile_write E f1 data) (\<lambda>err. areturn (err, f1))))"

section \<open>The manager\<close>

text \<open>
  Per path the manager keeps a counter and the keys of the files handed out. The objects themselves are
  values of the model.
\<close>

record vfs_manager =
  mg_max_block_size :: u32
  mg_max_block_lifetime :: u32
  mg_files_for_path :: "(string \<times> (u32 \<times> string list)) list"

definition register_file ::
  "vfs_env \<Rightarrow> vfs_manager \<Rightarrow> 'a vfs_file_scheme \<Rightarrow> 'a vfs_file_scheme \<times> vfs_manager" where
  "register_file E m f =
     (let path = vfs_fpath (vfs_file_info f);
          (n, keys) = (case map_of (mg_files_for_path m) path of None \<Rightarrow> (0, []) | Some e \<Rightarrow> e);
          key = path @ ''_'' @ decimal (unat n)
      in (f\<lparr>vfs_file_info := (vfs_file_info f)\<lparr>identify_key := key, file_domain := domain_name E,
              max_block_size := mg_max_block_size m, max_block_lifetime := mg_max_block_lifetime m\<rparr>\<rparr>,
          m\<lparr>mg_files_for_path := AList.update path (n + 1, List.insert key keys) (mg_files_for_path m)\<rparr>))"

definition getWriteableStageFile ::
  "vfs_env \<Rightarrow> u32 \<Rightarrow> vfs_manager \<Rightarrow> string \<Rightarrow> (int \<times> stage_writer option \<times> vfs_manager, 'd) act" where
  "getWriteableStageFile E junk m path =
     abind (new_VFSStageWriteableFile E junk path) (\<lambda>f.
     if \<not> file_is_good f then areturn (- 2, None, m)
     else let (f1, m1) = register_file E m f in areturn (0, Some f1, m1))"

definition getReadableStageFile ::
  "vfs_env \<Rightarrow> vfs_manager \<Rightarrow> string \<Rightarrow> (int \<times> stage_reader option \<times> vfs_manager, 'd) act" where
  "getReadableStageFile E m path =
     abind (new_VFSStageReadableFile E path) (\<lambda>f.
     if \<not> file_is_good f then areturn (- 2, None, m)
     else let (f1, m1) = register_file E m f in areturn (0, Some f1, m1))"

definition getWriteableDataFile ::
  "vfs_env \<Rightarrow> vfs_manager \<Rightarrow> string \<Rightarrow> (int \<times> vfs_file option \<times> vfs_manager, 'd) act" where
  "getWriteableDataFile E m path =
     abind (new_VFSDataWriteableFile E path) (\<lambda>f.
     if \<not> file_is_good f then areturn (- 2, None, m)
     else let (f1, m1) = register_file E m f in areturn (0, Some f1, m1))"

text \<open>
  The file is deleted through a pointer to the base class, whose destructor is not virtual: the
  destructor of the base class is what runs.
\<close>

definition releaseFile ::
  "vfs_env \<Rightarrow> 'd db_driver \<Rightarrow> vfs_manager \<Rightarrow> 'a vfs_file_scheme \<Rightarrow> (int \<times> vfs_manager, 'd) act" where
  "releaseFile E D m f =
     (let path = vfs_fpath (vfs_file_info f) in
      case map_of (mg_files_for_path m) path of
        None \<Rightarrow> areturn (- 1, m)
      | Some (n, keys) \<Rightarrow>
          abind (delete_VFSFile E D f) (\<lambda>_.
          areturn (0, m\<lparr>mg_files_for_path :=
                          AList.update path (n, removeAll (identify_key (vfs_file_info f)) keys)
                            (mg_files_for_path m)\<rparr>)))"

section \<open>The scanner\<close>

text \<open>
  A pack is a BSON document. The parser is a parameter: it rejects a buffer (the constructor of
  \<open>BSONObj\<close> throws) or gives the three fields the scanner asks for. \<open>String()\<close> throws on a field of
  another type; the numeric readers do not.
\<close>

datatype did_field = NoDid | DidString string | DidOther

record pack_view =
  pv_did :: did_field
  pv_ds_type :: "u32 option"
  pv_timestamp :: "u64 option"

record scanner =
  data_buffer :: "u8 list"
  last_hb_on_vfile :: u64
  map_did_data_file :: "(string \<times> vfs_file) list"
  sc_manager :: vfs_manager

definition new_scanner :: "vfs_manager \<Rightarrow> u8 \<Rightarrow> scanner" where
  "new_scanner m junk =
     \<lparr>data_buffer = replicate 4 junk, last_hb_on_vfile = 0, map_did_data_file = [], sc_manager = m\<rparr>"

text \<open>Bytes that \<open>realloc\<close> adds are unspecified: \<open>junk\<close>.\<close>

definition scanner_grow :: "u8 \<Rightarrow> u32 \<Rightarrow> scanner \<Rightarrow> scanner" where
  "scanner_grow junk new_size sc =
     (if length (data_buffer sc) < unat new_size then
        sc\<lparr>data_buffer := data_buffer sc @ replicate (unat new_size - length (data_buffer sc)) junk\<rparr>
      else sc)"

definition getWriteableFileForDID ::
  "vfs_env \<Rightarrow> 'd db_driver \<Rightarrow> scanner \<Rightarrow> string \<Rightarrow> (vfs_file \<times> scanner, 'd) act" where
  "getWriteableFileForDID E D sc did =
     abind (case map_of (map_did_data_file sc) did of
              Some f \<Rightarrow> areturn (Some f, sc)
            | None \<Rightarrow>
                abind (getWriteableDataFile E (sc_manager sc) did) (\<lambda>(err, fo, m).
                let sc1 = sc\<lparr>sc_manager := m\<rparr> in
                case fo of
                  Some f \<Rightarrow> if err \<noteq> 0 then areturn (Some f, sc1)
                            else areturn (Some f, sc1\<lparr>map_did_data_file :=
                                   insort_key fst (did, f) (map_did_data_file sc1)\<rparr>)
                | None \<Rightarrow> areturn (None, sc1)))
     (\<lambda>(fo, sc1).
     case fo of
       None \<Rightarrow> afault
     | Some f \<Rightarrow>
         abind (data_prefetchData E D f) (\<lambda>(_, f1).
         areturn (f1, sc1\<lparr>map_did_data_file := AList.update did f1 (map_did_data_file sc1)\<rparr>)))"

definition store_data_file :: "string \<Rightarrow> vfs_file \<Rightarrow> scanner \<Rightarrow> scanner" where
  "store_data_file did f sc = sc\<lparr>map_did_data_file := AList.update did f (map_did_data_file sc)\<rparr>"

definition wrong_type :: cexception where
  "wrong_type = CException 13111 ''wrong type for field'' ''''"

definition invalid_bson :: cexception where
  "invalid_bson = CException 10334 ''Invalid BSONObj size'' []"

definition pack_bytes :: "u32 \<Rightarrow> scanner \<Rightarrow> (u8 list, 'd) act" where
  "pack_bytes n sc w = obind (peek 0 (unat n) (data_buffer sc)) (\<lambda>bs. Ret (bs, w))"

definition header_size :: "endianness \<Rightarrow> scanner \<Rightarrow> (u32, 'd) act" where
  "header_size h sc w = obind (peek 0 4 (data_buffer sc)) (\<lambda>bs. Ret (byte_swap4 little_endian h (of_mem h bs), w))"

text \<open>The heartbeat at the end of a pack, at most one in two seconds over all data files.\<close>

definition data_file_heartbeat ::
  "'d db_driver \<Rightarrow> u64 \<Rightarrow> string \<Rightarrow> vfs_file \<Rightarrow> scanner \<Rightarrow> (int \<times> scanner, 'd) act" where
  "data_file_heartbeat D cur_ts did f sc =
     (if cur_ts > last_hb_on_vfile sc + 2000 then
        abind (giveHeartbeat D f cur_ts) (\<lambda>err. areturn (err, sc\<lparr>last_hb_on_vfile := cur_ts\<rparr>))
      else areturn (0, sc))"

definition processDataPack ::
  "vfs_env \<Rightarrow> 'd db_driver \<Rightarrow> endianness \<Rightarrow> (u8 list \<Rightarrow> pack_view option) \<Rightarrow> scanner \<Rightarrow> stage_reader \<Rightarrow>
   (int \<times> scanner, 'd) act" where
  "processDataPack E D h parse sc working =
     (case parse (data_buffer sc) of
        None \<Rightarrow> (\<lambda>w. Throw invalid_bson)
      | Some pv \<Rightarrow>
          abind (consult (env_now E)) (\<lambda>cur_ts.
          case (pv_did pv, pv_timestamp pv, pv_ds_type pv) of
            (DidString did, Some ts, Some ty) \<Rightarrow>
              abind (header_size h sc) (\<lambda>datapack_size.
              abind (getWriteableFileForDID E D sc did) (\<lambda>(f, sc1).
              abind (appendValueToJournal E working ''gdf'') (\<lambda>err. if err \<noteq> 0 then areturn (err, sc1) else
              abind (getCurrentFileLocation f) (\<lambda>loc.
              if \<not> file_location_isValid loc then areturn (- 2, sc1) else
              abind (appendValueToJournal E working ''gloc'') (\<lambda>err. if err \<noteq> 0 then areturn (err, sc1) else
              abind (block_at (loc_block loc)) (\<lambda>b.
              abind (db_call (idxAddDataPackIndex D
                       \<lparr>idx_did = did, idx_ds_type = ty, idx_acquisition_ts = ts, idx_dst_location = loc,
                        idx_datapack_size = datapack_size\<rparr> b)) (\<lambda>err.
              if err \<noteq> 0 \<and> err \<noteq> 11000 then areturn (err, sc1) else
              abind (appendValueToJournal E working ''widx'') (\<lambda>err. if err \<noteq> 0 then areturn (err, sc1) else
              abind (pack_bytes datapack_size sc1) (\<lambda>bs.
              abind (data_write E D f bs) (\<lambda>(_, f1).
              let sc2 = store_data_file did f1 sc1 in
              abind (appendValueToJournal E working ''wpack'') (\<lambda>err. if err \<noteq> 0 then areturn (err, sc2) else
              data_file_heartbeat D cur_ts did f1 sc2)))))))))))
          | (DidOther, Some ts, Some ty) \<Rightarrow> (\<lambda>w. Throw wrong_type)
          | _ \<Rightarrow> areturn (0, sc)))"

fun release_files ::
  "vfs_env \<Rightarrow> 'd db_driver \<Rightarrow> vfs_manager \<Rightarrow> (string \<times> vfs_file) list \<Rightarrow> int \<Rightarrow> (int \<times> vfs_manager, 'd) act" where
  "release_files E D m [] err = areturn (err, m)"
| "release_files E D m ((did, f) # fs) err = abind (releaseFile E D m f) (\<lambda>(err, m1). release_files E D m1 fs err)"

definition closeAllDatafile :: "vfs_env \<Rightarrow> 'd db_driver \<Rightarrow> scanner \<Rightarrow> (int \<times> scanner, 'd) act" where
  "closeAllDatafile E D sc =
     abind (release_files E D (sc_manager sc) (map_did_data_file sc) 0) (\<lambda>(err, m).
     areturn (err, sc\<lparr>sc_manager := m, map_did_data_file := []\<rparr>))"

fun mantain_all ::
  "vfs_env \<Rightarrow> 'd db_driver \<Rightarrow> (string \<times> vfs_file) list \<Rightarrow> int \<Rightarrow> (int \<times> (string \<times> vfs_file) list, 'd) act" where
  "mantain_all E D [] err = areturn (err, [])"
| "mantain_all E D ((did, f) # fs) err =
     abind (mantain E (data_releaseDataBlock E D f) f DataBlockStateQuerable) (\<lambda>(err, f1).
     abind (mantain_all E D fs err) (\<lambda>(err, fs1). areturn (err, (did, f1) # fs1)))"

definition endScanHandler :: "vfs_env \<Rightarrow> 'd db_driver \<Rightarrow> scanner \<Rightarrow> int \<Rightarrow> (int \<times> scanner, 'd) act" where
  "endScanHandler E D sc end_scan_error =
     (if end_scan_error \<noteq> 0 then abind (closeAllDatafile E D sc) (\<lambda>(_, sc1). areturn (0, sc1))
      else abind (mantain_all E D (map_did_data_file sc) 0) (\<lambda>(err, fs).
        areturn (err, sc\<lparr>map_did_data_file := fs\<rparr>)))"

definition fill_buffer :: "nat \<Rightarrow> u8 list \<Rightarrow> scanner \<Rightarrow> (scanner, 'd) act" where
  "fill_buffer off bs sc w = obind (poke off bs (data_buffer sc)) (\<lambda>m. Ret (sc\<lparr>data_buffer := m\<rparr>, w))"

text \<open>
  One round of \<open>scan\<close>: the header, the rest of the pack, its processing. The flag tells whether the loop
  goes on. The read of the rest is \<open>bson_size - 4\<close> bytes long whatever the header says.
\<close>

definition scan_round ::
  "nat \<Rightarrow> vfs_env \<Rightarrow> 'd db_driver \<Rightarrow> endianness \<Rightarrow> (u8 list \<Rightarrow> pack_view option) \<Rightarrow> u8 \<Rightarrow> scanner \<Rightarrow> stage_reader \<Rightarrow>
   ((bool \<times> int \<times> scanner \<times> stage_reader) option, 'd) act" where
  "scan_round fuel E D h parse junk sc f =
     abind (syncCurrentOffsetToJournal E f) (\<lambda>err.
     if err \<noteq> 0 then areturn (Some (False, err, sc, f)) else
     abind (openKeyToJournal E f ''process'') (\<lambda>_.
     abind_some (stage_read fuel E D f 4) (\<lambda>((r, bs), f1).
     abind (fill_buffer 0 bs sc) (\<lambda>sc1.
     if r \<le> 0 then areturn (Some (False, r, sc1, f1)) else
     abind (appendValueToJournal E f1 ''rh'') (\<lambda>_.
     abind (header_size h sc1) (\<lambda>bson_size.
     let sc2 = scanner_grow junk bson_size sc1 in
     abind_some (stage_read fuel E D f1 (bson_size - 4)) (\<lambda>((r, bs), f2).
     abind (fill_buffer 4 bs sc2) (\<lambda>sc3.
     if r \<le> 0 then areturn (Some (False, r, sc3, f2)) else
     abind (appendValueToJournal E f2 ''rd'') (\<lambda>_.
     abind (appendValueToJournal E f2 ''p'') (\<lambda>_.
     abind (processDataPack E D h parse sc3 f2) (\<lambda>(err, sc4).
     abind (closeKeyToJournal E f2 ''process'') (\<lambda>_.
     areturn (Some (err = 0, err, sc4, f2))))))))))))))"

fun scan_loop ::
  "nat \<Rightarrow> nat \<Rightarrow> vfs_env \<Rightarrow> 'd db_driver \<Rightarrow> endianness \<Rightarrow> (u8 list \<Rightarrow> pack_view option) \<Rightarrow> u8 \<Rightarrow> scanner \<Rightarrow> stage_reader \<Rightarrow>
   ((int \<times> scanner \<times> stage_reader) option, 'd) act" where
  "scan_loop 0 fuel E D h parse junk sc f = areturn None"
| "scan_loop (Suc n) fuel E D h parse junk sc f =
     abind_some (scan_round fuel E D h parse junk sc f) (\<lambda>(again, err, sc1, f1).
     if again then scan_loop n fuel E D h parse junk sc1 f1 else areturn (Some (err, sc1, f1)))"

definition scan ::
  "nat \<Rightarrow> nat \<Rightarrow> vfs_env \<Rightarrow> 'd db_driver \<Rightarrow> endianness \<Rightarrow> (u8 list \<Rightarrow> pack_view option) \<Rightarrow> u8 \<Rightarrow> scanner \<Rightarrow> stage_reader \<Rightarrow>
   ((int \<times> scanner \<times> stage_reader) option, 'd) act" where
  "scan n fuel E D h parse junk sc f =
     abind_some (stage_prefetchData fuel E D f) (\<lambda>(err, f1).
     if \<not> (err = 0 \<and> snd (hasData f1)) then areturn (Some (0, sc, f1))
     else abind_some (scan_loop n fuel E D h parse junk sc f1) (\<lambda>(err, sc1, f2).
       abind (endScanHandler E D sc1 err) (\<lambda>(err, sc2). areturn (Some (err, sc2, f2)))))"

end
