(* ===== verification/Mongo_Driver.thy ===== *)
theory Mongo_Driver
  imports Vfs_Data
begin

text \<open>
  The index database of the data service (\<open>db_system/MongoDBDriver.cpp\<close>). The driver builds documents and
  hands them to the pool of connections; the pool is a record of functions on the state of the server. An
  exception of the client library (\<open>DBException\<close>) is a result of a call; every operation of the driver
  catches it and turns it into an error code. A document is the list of its fields.
\<close>

section \<open>Documents\<close>

datatype mongo_value =
    M_int u32 | M_long u64 | M_date u64 | M_bool bool | M_str string | M_oid string | M_doc "(string \<times> mongo_value) list"

type_synonym mongo_doc = "(string \<times> mongo_value) list"

record mongo_query =
  mq_filter :: mongo_doc
  mq_sort :: "(string \<times> int) list"

abbreviation where_doc :: "mongo_doc \<Rightarrow> mongo_query" where
  "where_doc d \<equiv> \<lparr>mq_filter = d, mq_sort = []\<rparr>"

definition regex_from :: "string \<Rightarrow> mongo_value" where
  "regex_from p = M_doc [(''$regex'', M_str (p @ ''.*''))]"

definition set_field :: "string \<Rightarrow> mongo_value \<Rightarrow> mongo_doc" where
  "set_field k v = [(''$set'', M_doc [(k, v)])]"

text \<open>
  The readers of a field: \<open>OID()\<close>, \<open>String()\<close> and \<open>Long()\<close> throw on a field that is missing or of another
  type; \<open>numberLong()\<close> and \<open>numberInt()\<close> convert numbers and give 0 for everything else, dates included.
\<close>

datatype 'a dbres = DbOk 'a | DbThrow int

type_synonym ('a, 'm) db = "'m \<Rightarrow> 'a dbres \<times> 'm"

definition dreturn :: "'a \<Rightarrow> ('a, 'm) db" where
  "dreturn a s = (DbOk a, s)"

definition dthrow :: "int \<Rightarrow> ('a, 'm) db" where
  "dthrow c s = (DbThrow c, s)"

definition dbind :: "('a, 'm) db \<Rightarrow> ('a \<Rightarrow> ('b, 'm) db) \<Rightarrow> ('b, 'm) db" where
  "dbind m f s = (case m s of (DbOk a, s1) \<Rightarrow> f a s1 | (DbThrow c, s1) \<Rightarrow> (DbThrow c, s1))"

definition dcatch :: "('a, 'm) db \<Rightarrow> (int \<Rightarrow> 'a) \<Rightarrow> 'm \<Rightarrow> 'a \<times> 'm" where
  "dcatch m handler s = (case m s of (DbOk a, s1) \<Rightarrow> (a, s1) | (DbThrow c, s1) \<Rightarrow> (handler c, s1))"

definition dlift :: "('m \<Rightarrow> 'a \<times> 'm) \<Rightarrow> ('a, 'm) db" where
  "dlift f s = (case f s of (a, s1) \<Rightarrow> (DbOk a, s1))"

definition sbind :: "('m \<Rightarrow> 'a \<times> 'm) \<Rightarrow> ('a \<Rightarrow> 'm \<Rightarrow> 'b \<times> 'm) \<Rightarrow> 'm \<Rightarrow> 'b \<times> 'm" where
  "sbind f g s = (case f s of (a, s1) \<Rightarrow> g a s1)"

definition field_OID :: "mongo_doc \<Rightarrow> string \<Rightarrow> (string, 'm) db" where
  "field_OID d k = (case map_of d k of Some (M_oid x) \<Rightarrow> dreturn x | _ \<Rightarrow> dthrow 13111)"

definition field_String :: "mongo_doc \<Rightarrow> string \<Rightarrow> (string, 'm) db" where
  "field_String d k = (case map_of d k of Some (M_str x) \<Rightarrow> dreturn x | _ \<Rightarrow> dthrow 13111)"

definition field_Long :: "mongo_doc \<Rightarrow> string \<Rightarrow> (u64, 'm) db" where
  "field_Long d k = (case map_of d k of Some (M_long x) \<Rightarrow> dreturn x | _ \<Rightarrow> dthrow 13111)"

definition numberLong :: "mongo_doc \<Rightarrow> string \<Rightarrow> u64" where
  "numberLong d k = (case map_of d k of Some (M_long x) \<Rightarrow> x | Some (M_int x) \<Rightarrow> scast x | _ \<Rightarrow> 0)"

definition numberInt :: "mongo_doc \<Rightarrow> string \<Rightarrow> u32" where
  "numberInt d k = (case map_of d k of Some (M_int x) \<Rightarrow> x | Some (M_long x) \<Rightarrow> ucast x | _ \<Rightarrow> 0)"

definition getStringField :: "mongo_doc \<Rightarrow> string \<Rightarrow> string" where
  "getStringField d k = (case map_of d k of Some (M_str x) \<Rightarrow> x | _ \<Rightarrow> '''')"

section \<open>The pool of connections\<close>

text \<open>
  Each call gives an error code; a document it was to find is \<open>None\<close> when the call did not assign it. The
  clock and the generator of identifiers are calls as well.
\<close>

record 'm mongo_pool =
  mp_now :: "'m \<Rightarrow> u64 \<times> 'm"
  mp_uuid :: "'m \<Rightarrow> string \<times> 'm"
  mp_insert :: "string \<Rightarrow> mongo_doc \<Rightarrow> (int, 'm) db"
  mp_findOne :: "string \<Rightarrow> mongo_query \<Rightarrow> string list \<Rightarrow> (int \<times> mongo_doc option, 'm) db"
  mp_findN :: "string \<Rightarrow> mongo_query \<Rightarrow> u32 \<Rightarrow> string list \<Rightarrow> (mongo_doc list, 'm) db"
  mp_runCommand :: "string \<Rightarrow> mongo_doc \<Rightarrow> (int \<times> mongo_doc option, 'm) db"
  mp_update :: "string \<Rightarrow> mongo_query \<Rightarrow> mongo_doc \<Rightarrow> bool \<Rightarrow> bool \<Rightarrow> (int, 'm) db"
  mp_remove :: "string \<Rightarrow> mongo_query \<Rightarrow> (int, 'm) db"
  mp_count :: "string \<Rightarrow> mongo_query \<Rightarrow> (int \<times> u64 option, 'm) db"
  mp_ensureIndex :: "string \<Rightarrow> string \<Rightarrow> string list \<Rightarrow> (int, 'm) db"

definition coll :: "string \<Rightarrow> string \<Rightarrow> string" where
  "coll db_name c = db_name @ ''.'' @ c"

definition assigned :: "mongo_doc option \<Rightarrow> mongo_doc \<Rightarrow> mongo_doc" where
  "assigned r old = (case r of None \<Rightarrow> old | Some d \<Rightarrow> d)"

section \<open>Start\<close>

text \<open>
  The settings name the servers and may name the database. The six unique indexes are made in order; the
  first that cannot be made ends the initialisation with an exception. An exception of the client library is
  none that \<open>init\<close> may throw.
\<close>

fun ensure_indexes :: "'m mongo_pool \<Rightarrow> string \<Rightarrow> (string \<times> string list \<times> string) list \<Rightarrow> 'm \<Rightarrow> (unit \<times> 'm) outcome" where
  "ensure_indexes P db_name [] s = Ret ((), s)"
| "ensure_indexes P db_name ((c, keys, msg) # xs) s =
     (case mp_ensureIndex P db_name c keys s of
        (DbThrow code, s1) \<Rightarrow> Fault
      | (DbOk err, s1) \<Rightarrow> if err \<noteq> 0 then Throw (CException (- 1) msg ''init'') else ensure_indexes P db_name xs s1)"

definition mongo_indexes :: "(string \<times> string list \<times> string) list" where
  "mongo_indexes =
     [(''domains'', [''domain_name'', ''domain_unique_code''], ''Error creating domain collection index''),
      (''domains_url'', [''domain_name'', ''domain_url''], ''Error creating domain urls collection index''),
      (''datablock'', [''vfs_path'', ''vfs_domain'', ''ct''], ''Error creating data block index''),
      (''dp_idx'', [''did'', ''type'', ''acq_ts''], ''Error creating data pack index collection index''),
      (''snapshot'', [''snap_name''], ''Error creating snapshot collection index''),
      (''snapshot_data'', [''snap_name'', ''check_code'', ''producer_id''], ''Error creating snapshot data collection index'')]"

definition mongo_init ::
  "'m mongo_pool \<Rightarrow> (string list \<times> (string \<times> string) list) option \<Rightarrow> 'm \<Rightarrow> (string \<times> 'm) outcome" where
  "mongo_init P setting s =
     (case setting of
        None \<Rightarrow> Throw (CException (- 1) ''No setting set'' ''init'')
      | Some (servers, params) \<Rightarrow>
          if servers = [] then Throw (CException (- 1) ''No server set'' ''init'')
          else let db_name = (case map_of params ''db'' of None \<Rightarrow> ''chaos'' | Some d \<Rightarrow> d) in
            obind (ensure_indexes P db_name mongo_indexes s) (\<lambda>(_, s1). Ret (db_name, s1)))"

section \<open>Domains\<close>

record VFSDomain =
  dom_name :: string
  dom_unique_code :: string
  dom_local_url :: string

definition vfsDomainHeartBeat :: "'m mongo_pool \<Rightarrow> string \<Rightarrow> VFSDomain \<Rightarrow> 'm \<Rightarrow> int \<times> 'm" where
  "vfsDomainHeartBeat P db_name domain =
     dcatch (dbind (dlift (mp_now P)) (\<lambda>now.
       mp_update P (coll db_name ''domains_url'')
         (where_doc [(''domain_name'', M_str (dom_name domain)), (''domain_url'', M_str (dom_local_url domain))])
         (set_field ''hb'' (M_date now)) False False)) (\<lambda>_. - 5)"

text \<open>
  When the domain is there already its unique code has to be the caller's. The search uses the whole
  document, the code included, so that it cannot find a domain with another code.
\<close>

definition vfsAddDomain :: "'m mongo_pool \<Rightarrow> string \<Rightarrow> VFSDomain \<Rightarrow> 'm \<Rightarrow> int \<times> 'm" where
  "vfsAddDomain P db_name domain =
     (let d = [(''domain_name'', M_str (dom_name domain)), (''domain_unique_code'', M_str (dom_unique_code domain))];
          add_url = dbind (dlift (mp_now P)) (\<lambda>now.
            dbind (mp_insert P (coll db_name ''domains_url'')
                     [(''domain_name'', M_str (dom_name domain)), (''domain_url'', M_str (dom_local_url domain)),
                      (''hb'', M_date now)]) (\<lambda>err.
            if err = 11000 then dlift (vfsDomainHeartBeat P db_name domain) else dreturn err))
      in dcatch (dbind (mp_insert P (coll db_name ''domains'') d) (\<lambda>err.
           if err = 0 then add_url
           else dbind (mp_findOne P (coll db_name ''domains'') (where_doc d) []) (\<lambda>(err, r).
             let result = assigned r [] in
             if err \<noteq> 0 then add_url
             else if result = [] then dreturn (- 1)
             else if dom_unique_code domain \<noteq> getStringField result ''domain_unique_code'' then dreturn (- 2)
             else add_url))) (\<lambda>_. - 5))"

section \<open>Files and blocks\<close>

definition file_doc :: "VFSFileInfo \<Rightarrow> mongo_doc" where
  "file_doc info = [(''vfs_path'', M_str (vfs_fpath info)), (''vfs_domain'', M_str (file_domain info))]"

definition mongo_FileExist :: "'m mongo_pool \<Rightarrow> string \<Rightarrow> VFSFileInfo \<Rightarrow> 'm \<Rightarrow> (int \<times> bool) \<times> 'm" where
  "mongo_FileExist P db_name info =
     dcatch (dbind (mp_findOne P (coll db_name ''vfat'') (where_doc (file_doc info)) []) (\<lambda>(err, r).
       dreturn (err, err = 0 \<and> assigned r [] \<noteq> []))) (\<lambda>_. (- 1, False))"

definition vfsCreateFileEntry :: "'m mongo_pool \<Rightarrow> string \<Rightarrow> VFSFileInfo \<Rightarrow> 'm \<Rightarrow> int \<times> 'm" where
  "vfsCreateFileEntry P db_name info =
     dcatch (dbind (mp_insert P (coll db_name ''vfat'') (file_doc info)) (\<lambda>err.
       dreturn (if err = 11000 then 0 else err))) (\<lambda>_. - 1)"

definition block_doc :: "string \<Rightarrow> int \<Rightarrow> VFSFileInfo \<Rightarrow> data_block \<Rightarrow> u64 \<Rightarrow> mongo_doc" where
  "block_doc fpk state info b now =
     [(''fpk'', M_oid fpk), (''state'', M_int (word_of_int state)), (''ct'', M_date (creation_time b)),
      (''vu'', M_date (invalidation_timestamp b)), (''mbs'', M_long (max_reacheable_size b)),
      (''vfs_path'', M_str (vfs_path b)), (''vfs_domain'', M_str (file_domain info)),
      (''cur_work_pos'', M_long 0), (''hb'', M_date now)]"

definition block_key :: "VFSFileInfo \<Rightarrow> data_block \<Rightarrow> mongo_doc" where
  "block_key info b = [(''vfs_path'', M_str (vfs_path b)), (''vfs_domain'', M_str (file_domain info))]"

text \<open>
  The block gets the domain of the file while its document is built, and its identifier from a search
  after the insertion. The result of the insertion is not looked at, and when the search fails the
  variable still holds the document of the file.
\<close>

definition insert_block ::
  "'m mongo_pool \<Rightarrow> string \<Rightarrow> VFSFileInfo \<Rightarrow> data_block \<Rightarrow> int \<Rightarrow> mongo_doc \<Rightarrow> string \<Rightarrow> 'm \<Rightarrow> (int \<times> data_block) \<times> 'm" where
  "insert_block P db_name info b state file fpk =
     (let b1 = b\<lparr>vfs_domain := file_domain info\<rparr> in
      dcatch (dbind (dlift (mp_now P)) (\<lambda>now.
        dbind (mp_insert P (coll db_name ''datablock'') (block_doc fpk state info b now)) (\<lambda>_.
        dbind (mp_findOne P (coll db_name ''datablock'') (where_doc (block_key info b)) [''_id'']) (\<lambda>(_, r).
        let found = assigned r file in
        if found = [] then dreturn (- 5, b1)
        else dbind (field_OID found ''_id'') (\<lambda>oid. dreturn (0, b1\<lparr>index_driver_uinique_id := oid\<rparr>))))))
        (\<lambda>_. (- 5, b1)))"

definition mongo_AddNewDataBlock ::
  "'m mongo_pool \<Rightarrow> string \<Rightarrow> VFSFileInfo \<Rightarrow> data_block \<Rightarrow> int \<Rightarrow> 'm \<Rightarrow> (int \<times> data_block) \<times> 'm" where
  "mongo_AddNewDataBlock P db_name info b state =
     sbind (mongo_FileExist P db_name info) (\<lambda>(err, f_exists).
     if err \<noteq> 0 then (\<lambda>s. ((- 1, b), s))
     else sbind (if f_exists then (\<lambda>s. (0, s)) else vfsCreateFileEntry P db_name info) (\<lambda>err.
     if err \<noteq> 0 then (\<lambda>s. ((- 2, b), s))
     else dcatch (dbind (mp_findOne P (coll db_name ''vfat'') (where_doc (file_doc info)) []) (\<lambda>(_, r).
       let file = assigned r [] in
       if file = [] then dreturn (- 4, b)
       else dbind (field_OID file ''_id'') (\<lambda>fpk. dlift (insert_block P db_name info b state file fpk))))
       (\<lambda>_. (- 5, b))))"

definition mongo_DeleteDataBlock :: "'m mongo_pool \<Rightarrow> string \<Rightarrow> VFSFileInfo \<Rightarrow> data_block \<Rightarrow> 'm \<Rightarrow> int \<times> 'm" where
  "mongo_DeleteDataBlock P db_name info b =
     dcatch (dbind (mp_findOne P (coll db_name ''vfat'') (where_doc (file_doc info)) []) (\<lambda>(_, r).
       let file = assigned r [] in
       if file = [] then dreturn (- 4)
       else dbind (field_OID file ''_id'') (\<lambda>fpk.
         mp_remove P (coll db_name ''datablock'') (where_doc ((''fpk'', M_oid fpk) # block_key info b)))))
       (\<lambda>_. - 1)"

text \<open>
  The two updates below read the identifier of the file also when the file was not found, which throws.
\<close>

definition update_block ::
  "'m mongo_pool \<Rightarrow> string \<Rightarrow> VFSFileInfo \<Rightarrow> data_block \<Rightarrow> mongo_doc \<Rightarrow> 'm \<Rightarrow> int \<times> 'm" where
  "update_block P db_name info b upd =
     dcatch (dbind (mp_findOne P (coll db_name ''vfat'') (where_doc (file_doc info)) []) (\<lambda>(err, r).
       if err \<noteq> 0 then dreturn err
       else dbind (field_OID (assigned r []) ''_id'') (\<lambda>fpk.
         mp_update P (coll db_name ''datablock'') (where_doc ((''fpk'', M_oid fpk) # block_key info b)) upd False False)))
       (\<lambda>_. - 2)"

definition mongo_SetStateOnDataBlock ::
  "'m mongo_pool \<Rightarrow> string \<Rightarrow> VFSFileInfo \<Rightarrow> data_block \<Rightarrow> int \<Rightarrow> 'm \<Rightarrow> int \<times> 'm" where
  "mongo_SetStateOnDataBlock P db_name info b state =
     update_block P db_name info b (set_field ''state'' (M_int (word_of_int state)))"

definition mongo_UpdateDatablockCurrentWorkPosition ::
  "'m mongo_pool \<Rightarrow> string \<Rightarrow> VFSFileInfo \<Rightarrow> data_block \<Rightarrow> 'm \<Rightarrow> int \<times> 'm" where
  "mongo_UpdateDatablockCurrentWorkPosition P db_name info b =
     update_block P db_name info b (set_field ''cur_work_pos'' (M_long (current_work_position b)))"

text \<open>
  The atomic change of a state is a \<open>findAndModify\<close> command; any answer that is not an empty document
  counts as success.
\<close>

definition swap_command :: "VFSFileInfo \<Rightarrow> data_block \<Rightarrow> int \<Rightarrow> int \<Rightarrow> mongo_doc" where
  "swap_command info b cur_state new_state =
     [(''findAndModify'', M_str ''datablock''),
      (''query'', M_doc [(''vfs_domain'', M_str (file_domain info)), (''vfs_path'', M_str (vfs_path b)),
                         (''state'', M_int (word_of_int cur_state))]),
      (''update'', M_doc (set_field ''state'' (M_int (word_of_int new_state))))]"

definition mongo_SwapStateOnDataBlock ::
  "'m mongo_pool \<Rightarrow> string \<Rightarrow> VFSFileInfo \<Rightarrow> data_block \<Rightarrow> int \<Rightarrow> int \<Rightarrow> 'm \<Rightarrow> (int \<times> bool) \<times> 'm" where
  "mongo_SwapStateOnDataBlock P db_name info b cur_state new_state =
     dcatch (dbind (mp_runCommand P db_name (swap_command info b cur_state new_state)) (\<lambda>(err, r).
       dreturn (if err \<noteq> 0 then (err, False) else if assigned r [] = [] then (- 1, False) else (0, True))))
       (\<lambda>_. (- 1, False))"

text \<open>
  The write concern of the heartbeat is passed where the flag \<open>upsert\<close> is expected: a pointer that is not
  null, so the update inserts a document when no block matches.
\<close>

definition mongo_SetHeartbeatOnDatablock ::
  "'m mongo_pool \<Rightarrow> string \<Rightarrow> VFSFileInfo \<Rightarrow> data_block \<Rightarrow> u64 \<Rightarrow> 'm \<Rightarrow> int \<times> 'm" where
  "mongo_SetHeartbeatOnDatablock P db_name info b timestamp =
     dcatch (dbind (if timestamp = 0 then dlift (mp_now P) else dreturn timestamp) (\<lambda>ts.
       mp_update P (coll db_name ''datablock'') (where_doc (block_key info b)) (set_field ''hb'' (M_date ts)) True False))
       (\<lambda>_. - 2)"

definition fillDatablock :: "mongo_doc \<Rightarrow> data_block \<Rightarrow> (data_block, 'm) db" where
  "fillDatablock d b =
     dbind (field_OID d ''_id'') (\<lambda>oid.
     dbind (field_String d ''vfs_domain'') (\<lambda>domain.
     dbind (field_String d ''vfs_path'') (\<lambda>path.
     dreturn (b\<lparr>index_driver_uinique_id := oid, creation_time := numberLong d ''ct'',
                invalidation_timestamp := numberLong d ''vu'', max_reacheable_size := numberLong d ''mbs'',
                vfs_domain := domain, vfs_path := path\<rparr>))))"

definition found_block :: "int \<times> mongo_doc option \<Rightarrow> (int \<times> data_block option, 'm) db" where
  "found_block = (\<lambda>(err, r).
     if err \<noteq> 0 then dreturn (err, None)
     else if assigned r [] = [] then dreturn (0, None)
     else dbind (fillDatablock (assigned r []) new_DataBlock) (\<lambda>b. dreturn (0, Some b)))"

text \<open>The search does not sort, and the pattern for the path is not anchored.\<close>

definition mongo_FindSinceTimeDataBlock ::
  "'m mongo_pool \<Rightarrow> string \<Rightarrow> VFSFileInfo \<Rightarrow> u64 \<Rightarrow> bool \<Rightarrow> int \<Rightarrow> 'm \<Rightarrow> (int \<times> data_block option) \<times> 'm" where
  "mongo_FindSinceTimeDataBlock P db_name info timestamp direction state =
     dcatch (dbind (mp_findOne P (coll db_name ''datablock'')
              (where_doc [(''vfs_domain'', M_str (file_domain info)), (''vfs_path'', regex_from (vfs_fpath info)),
                          (''state'', M_int (word_of_int state)), (''ct'', M_doc [(''$gt'', M_date timestamp)])]) [])
       found_block) (\<lambda>_. (- 1, None))"

definition vfsFindFromPathDataBlock ::
  "'m mongo_pool \<Rightarrow> string \<Rightarrow> string \<Rightarrow> string \<Rightarrow> 'm \<Rightarrow> (int \<times> data_block option) \<times> 'm" where
  "vfsFindFromPathDataBlock P db_name domain path =
     dcatch (dbind (mp_findOne P (coll db_name ''datablock'')
              (where_doc [(''vfs_domain'', M_str domain), (''vfs_path'', M_str path),
                          (''state'', M_int (word_of_int DataBlockStateQuerable))]) [])
       found_block) (\<lambda>_. (- 1, None))"

definition vfsGetFilePathForOldestBlockState ::
  "'m mongo_pool \<Rightarrow> string \<Rightarrow> string \<Rightarrow> string \<Rightarrow> int \<Rightarrow> string \<Rightarrow> 'm \<Rightarrow> (int \<times> string) \<times> 'm" where
  "vfsGetFilePathForOldestBlockState P db_name domain area state vfile_path =
     dcatch (dbind (mp_findOne P (coll db_name ''datablock'')
              \<lparr>mq_filter = [(''vfs_domain'', M_str domain), (''vfs_path'', regex_from area),
                            (''state'', M_int (word_of_int state)), (''ct'', M_doc [(''$gt'', M_date 0)])],
               mq_sort = [(''ct'', 1)]\<rparr> []) (\<lambda>(err, r).
       let block = assigned r [] in
       if err \<noteq> 0 \<or> block = [] \<or> map_of block ''fpk'' = None then dreturn (err, vfile_path)
       else dbind (field_OID block ''fpk'') (\<lambda>fpk.
         dbind (mp_findOne P (coll db_name ''vfat'') (where_doc [(''_id'', M_oid fpk)]) []) (\<lambda>(err, r).
         let file = assigned r block in
         dreturn (err, if err \<noteq> 0 \<or> file = [] \<or> map_of file ''vfs_path'' = None then vfile_path
                       else getStringField file ''vfs_path'')))))
       (\<lambda>_. (- 1, vfile_path))"

text \<open>The delay in seconds is multiplied by 1000 at 32 bits.\<close>

definition vfsChangeStateToOutdatedChunck ::
  "'m mongo_pool \<Rightarrow> string \<Rightarrow> string \<Rightarrow> string \<Rightarrow> u32 \<Rightarrow> int \<Rightarrow> int \<Rightarrow> 'm \<Rightarrow> int \<times> 'm" where
  "vfsChangeStateToOutdatedChunck P db_name domain area timeout_in_sec timeout_state new_state =
     dcatch (dbind (dlift (mp_now P)) (\<lambda>now.
       mp_update P (coll db_name ''datablock'')
         (where_doc [(''vfs_domain'', M_str domain), (''vfs_path'', regex_from area),
                     (''state'', M_int (word_of_int timeout_state)),
                     (''vu'', M_doc [(''$lt'', M_date (now - ucast (timeout_in_sec * 1000)))])])
         (set_field ''state'' (M_int (word_of_int new_state))) False True)) (\<lambda>_. - 1)"

fun read_paths :: "mongo_doc list \<Rightarrow> string list \<Rightarrow> (int \<times> string list, 'm) db" where
  "read_paths [] acc = dreturn (0, acc)"
| "read_paths (d # ds) acc =
     (case map_of d ''vfs_path'' of Some (M_str p) \<Rightarrow> read_paths ds (acc @ [p]) | _ \<Rightarrow> dreturn (- 1, acc))"

definition vfsGetFilePathForDomain ::
  "'m mongo_pool \<Rightarrow> string \<Rightarrow> string \<Rightarrow> string \<Rightarrow> u32 \<Rightarrow> 'm \<Rightarrow> (int \<times> string list) \<times> 'm" where
  "vfsGetFilePathForDomain P db_name domain prefix limit_to_size =
     dcatch (dbind (mp_findN P (coll db_name ''vfat'')
              \<lparr>mq_filter = [(''vfs_domain'', M_str domain), (''vfs_path'', regex_from prefix)], mq_sort = [(''ct'', 1)]\<rparr>
              limit_to_size [''vfs_path'']) (\<lambda>ds. read_paths ds [])) (\<lambda>_. (- 1, []))"

section \<open>Index of the packs\<close>

definition index_doc :: "data_pack_index \<Rightarrow> data_block \<Rightarrow> mongo_doc" where
  "index_doc i b =
     [(''did'', M_str (idx_did i)), (''type'', M_int (idx_ds_type i)), (''acq_ts'', M_date (idx_acquisition_ts i)),
      (''acq_ts_numeric'', M_long (idx_acquisition_ts i)), (''db_domain'', M_str (vfs_domain b)),
      (''db_path'', M_str (vfs_path b)), (''db_offset'', M_long (loc_offset (idx_dst_location i))),
      (''dp_size'', M_int (idx_datapack_size i)), (''dp_state'', M_int 0)]"

definition mongo_AddDataPackIndex :: "'m mongo_pool \<Rightarrow> string \<Rightarrow> data_pack_index \<Rightarrow> data_block \<Rightarrow> 'm \<Rightarrow> int \<times> 'm" where
  "mongo_AddDataPackIndex P db_name i b = dcatch (mp_insert P (coll db_name ''dp_idx'') (index_doc i b)) (\<lambda>c. c)"

definition idxDeleteDataPackIndex :: "'m mongo_pool \<Rightarrow> string \<Rightarrow> data_pack_index \<Rightarrow> 'm \<Rightarrow> int \<times> 'm" where
  "idxDeleteDataPackIndex P db_name i =
     dcatch (mp_remove P (coll db_name ''dp_idx'')
       (where_doc [(''did'', M_str (idx_did i)), (''type'', M_int (idx_ds_type i)),
                   (''acq_ts'', M_date (idx_acquisition_ts i))])) (\<lambda>_. - 1)"

definition mongo_SetDataPackIndexStateByDataBlock ::
  "'m mongo_pool \<Rightarrow> string \<Rightarrow> string \<Rightarrow> string \<Rightarrow> int \<Rightarrow> 'm \<Rightarrow> int \<times> 'm" where
  "mongo_SetDataPackIndexStateByDataBlock P db_name domain path state =
     dcatch (mp_update P (coll db_name ''dp_idx'')
       (where_doc [(''db_domain'', M_str domain), (''db_path'', M_str path)])
       (set_field ''dp_state'' (M_int (word_of_int state))) False True) (\<lambda>_. - 1)"

record index_query =
  iq_did :: string
  iq_ds_type :: u32
  iq_start_ts :: u64
  iq_end_ts :: u64

definition querable_doc :: "index_query \<Rightarrow> mongo_doc" where
  "querable_doc q = [(''did'', M_str (iq_did q)), (''type'', M_int (iq_ds_type q)), (''dp_state'', M_int 1)]"

definition idxSearchResultCountDataPack :: "'m mongo_pool \<Rightarrow> string \<Rightarrow> index_query \<Rightarrow> u64 \<Rightarrow> 'm \<Rightarrow> (int \<times> u64) \<times> 'm" where
  "idxSearchResultCountDataPack P db_name q old =
     dcatch (dbind (mp_count P (coll db_name ''dp_idx'')
              \<lparr>mq_filter = querable_doc q @
                 [(''acq_ts_numeric'', M_doc [(''$gte'', M_long (iq_start_ts q)), (''$lte'', M_long (iq_end_ts q))])],
               mq_sort = [(''acq_ts_numeric'', 1)]\<rparr>) (\<lambda>(err, n).
       dreturn (err, case n of None \<Rightarrow> old | Some k \<Rightarrow> k))) (\<lambda>_. (- 1, old))"

text \<open>The search for a page has a lower bound only and does not sort; its error is lost.\<close>

definition idxSearchDataPack :: "'m mongo_pool \<Rightarrow> string \<Rightarrow> index_query \<Rightarrow> u32 \<Rightarrow> 'm \<Rightarrow> (int \<times> mongo_doc list) \<times> 'm" where
  "idxSearchDataPack P db_name q limit_to =
     dcatch (dbind (mp_findN P (coll db_name ''dp_idx'')
              (where_doc (querable_doc q @ [(''acq_ts_numeric'', M_doc [(''$gte'', M_long (iq_start_ts q))])]))
              limit_to [''db_domain'', ''db_path'', ''db_offset'', ''dp_size'', ''acq_ts_numeric'']) (\<lambda>ds.
       dreturn (0, ds))) (\<lambda>_. (- 1, []))"

definition idxMaxAndMInimumTimeStampForDataPack ::
  "'m mongo_pool \<Rightarrow> string \<Rightarrow> index_query \<Rightarrow> 'm \<Rightarrow> (int \<times> u64 \<times> u64) \<times> 'm" where
  "idxMaxAndMInimumTimeStampForDataPack P db_name q =
     dcatch (dbind (mp_findOne P (coll db_name ''dp_idx'')
              \<lparr>mq_filter = querable_doc q, mq_sort = [(''acq_ts_numeric'', - 1)]\<rparr> [''acq_ts_numeric'']) (\<lambda>(err, rmax).
       if err \<noteq> 0 then dreturn (err, 0, 0)
       else dbind (mp_findOne P (coll db_name ''dp_idx'')
              \<lparr>mq_filter = querable_doc q, mq_sort = [(''acq_ts_numeric'', 1)]\<rparr> [''acq_ts_numeric'']) (\<lambda>(err, rmin).
       if err \<noteq> 0 then dreturn (err, 0, 0)
       else if assigned rmin [] = [] \<or> assigned rmax [] = [] then dreturn (- 1000, 0, 0)
       else dbind (field_Long (assigned rmin []) ''acq_ts_numeric'') (\<lambda>min_ts.
            dbind (field_Long (assigned rmax []) ''acq_ts_numeric'') (\<lambda>max_ts. dreturn (0, min_ts, max_ts))))))
       (\<lambda>_. (- 1, 0, 0))"

section \<open>Snapshots\<close>

definition snapshotCreateNewWithName :: "'m mongo_pool \<Rightarrow> string \<Rightarrow> string \<Rightarrow> 'm \<Rightarrow> (int \<times> string) \<times> 'm" where
  "snapshotCreateNewWithName P db_name name =
     sbind (mp_uuid P) (\<lambda>job.
     dcatch (dbind (dlift (mp_now P)) (\<lambda>now.
       dbind (mp_insert P (coll db_name ''snapshot'')
                [(''snap_name'', M_str name), (''snap_ts'', M_date now), (''check_code'', M_str job)]) (\<lambda>err.
       dreturn (if err = 11000 then 1 else err, job)))) (\<lambda>_. (- 1, job)))"

text \<open>The data of a dataset is a serialized document; its parser is a parameter, and throws on bytes that are none.\<close>

definition snapshotAddElementToSnapshot ::
  "'m mongo_pool \<Rightarrow> string \<Rightarrow> (u8 list \<Rightarrow> mongo_doc option) \<Rightarrow> string \<Rightarrow> string \<Rightarrow> string \<Rightarrow> string \<Rightarrow> u8 list \<Rightarrow> 'm \<Rightarrow> int \<times> 'm" where
  "snapshotAddElementToSnapshot P db_name parse job name producer dataset_type data =
     dcatch (case parse data of
         None \<Rightarrow> dthrow 10334
       | Some d \<Rightarrow> mp_update P (coll db_name ''snapshot_data'')
           (where_doc [(''snap_name'', M_str name), (''producer_id'', M_str producer), (''check_code'', M_str job)])
           (set_field dataset_type (M_doc d)) True False) (\<lambda>_. - 1)"

definition snapshotIncrementJobCounter :: "'m mongo_pool \<Rightarrow> string \<Rightarrow> string \<Rightarrow> string \<Rightarrow> bool \<Rightarrow> 'm \<Rightarrow> int \<times> 'm" where
  "snapshotIncrementJobCounter P db_name job name add =
     dcatch (mp_update P (coll db_name ''snapshot'')
       (where_doc [(''snap_name'', M_str name), (''check_code'', M_str job)])
       [(''$inc'', M_doc [(''job_concurency'', M_int (if add then 1 else - 1))])] False False) (\<lambda>_. - 1)"

text \<open>Whatever happens the result is 0; \<open>None\<close> are the caller's pointer and size as they were.\<close>

definition snapshotGetDatasetForProducerKey ::
  "'m mongo_pool \<Rightarrow> string \<Rightarrow> (mongo_doc \<Rightarrow> u8 list) \<Rightarrow> string \<Rightarrow> string \<Rightarrow> string \<Rightarrow> 'm \<Rightarrow> (int \<times> u8 list option) \<times> 'm" where
  "snapshotGetDatasetForProducerKey P db_name ser name producer dataset_type =
     dcatch (dbind (mp_findOne P (coll db_name ''snapshot_data'')
              (where_doc [(''snap_name'', M_str name), (''producer_id'', M_str producer)]) []) (\<lambda>(err, r).
       dreturn (0, if err \<noteq> 0 then None
                   else (case map_of (assigned r []) (producer @ dataset_type) of
                           None \<Rightarrow> None
                         | Some v \<Rightarrow> Some (ser (case v of M_doc d \<Rightarrow> d | _ \<Rightarrow> [])))))) (\<lambda>_. (0, None))"

definition snapshotDeleteWithName :: "'m mongo_pool \<Rightarrow> string \<Rightarrow> string \<Rightarrow> 'm \<Rightarrow> int \<times> 'm" where
  "snapshotDeleteWithName P db_name name =
     (let q = where_doc [(''snap_name'', M_str name)] in
      dcatch (dbind (mp_findOne P (coll db_name ''snapshot'') q []) (\<lambda>(err, _).
        if err \<noteq> 0 then dreturn err
        else dbind (mp_remove P (coll db_name ''snapshot'') q) (\<lambda>err.
          if err \<noteq> 0 then dreturn err else mp_remove P (coll db_name ''snapshot_data'') q))) (\<lambda>_. - 1))"

section \<open>The driver as the files see it\<close>

definition MongoDBDriver :: "'m mongo_pool \<Rightarrow> string \<Rightarrow> 'm db_driver" where
  "MongoDBDriver P db_name =
     \<lparr>vfsAddNewDataBlock = mongo_AddNewDataBlock P db_name,
      vfsDeleteDataBlock = mongo_DeleteDataBlock P db_name,
      vfsSetStateOnDataBlock = mongo_SetStateOnDataBlock P db_name,
      vfsSwapStateOnDataBlock = mongo_SwapStateOnDataBlock P db_name,
      vfsSetHeartbeatOnDatablock = mongo_SetHeartbeatOnDatablock P db_name,
      vfsUpdateDatablockCurrentWorkPosition = mongo_UpdateDatablockCurrentWorkPosition P db_name,
      vfsFindSinceTimeDataBlock = mongo_FindSinceTimeDataBlock P db_name,
      vfsFileExist = mongo_FileExist P db_name,
      idxAddDataPackIndex = mongo_AddDataPackIndex P db_name,
      idxSetDataPackIndexStateByDataBlock = mongo_SetDataPackIndexStateByDataBlock P db_name\<rparr>"

end
