(* ===== verification/Mongo_Connection.thy ===== *)
theory Mongo_Connection
  imports Mongo_Driver "HOL-Library.Multiset"
begin

text \<open>
  The connections to the database servers (\<open>db_system/MongoDBHAConnectionManager.cpp\<close>). The manager keeps the
  addresses of the servers in two queues, those that answered and those that did not, and gives each call to
  the next server that answers. The client library is a parameter: what it does on a server, whether it
  throws, and the code of the last error there.
\<close>

section \<open>The client library\<close>

text \<open>
  A call gets what the caller passed for the result, leaves what it assigned of it, and says whether it threw.
  \<open>cl_connect\<close> opens a connection, asks whether it is good and sets its write concern; \<open>cl_open\<close> opens the one
  that is handed out.
\<close>

type_synonym ('a, 'm) remote = "'a \<Rightarrow> 'm \<Rightarrow> ('a \<times> bool) \<times> 'm"

record 'm mongo_client =
  cl_now :: "'m \<Rightarrow> u64 \<times> 'm"
  cl_uuid :: "'m \<Rightarrow> string \<times> 'm"
  cl_genIndexName :: "mongo_doc \<Rightarrow> string"
  cl_connect :: "string \<Rightarrow> (bool, 'm) db"
  cl_open :: "string \<Rightarrow> (unit, 'm) db"
  cl_lastError :: "string \<Rightarrow> (int, 'm) db"
  cl_insert :: "string \<Rightarrow> string \<Rightarrow> mongo_doc \<Rightarrow> (unit, 'm) remote"
  cl_findOne :: "string \<Rightarrow> string \<Rightarrow> mongo_query \<Rightarrow> string list \<Rightarrow> (mongo_doc option, 'm) remote"
  cl_findN :: "string \<Rightarrow> string \<Rightarrow> mongo_query \<Rightarrow> u32 \<Rightarrow> string list \<Rightarrow> (mongo_doc list, 'm) remote"
  cl_runCommand :: "string \<Rightarrow> string \<Rightarrow> mongo_doc \<Rightarrow> (mongo_doc option, 'm) remote"
  cl_update :: "string \<Rightarrow> string \<Rightarrow> mongo_query \<Rightarrow> mongo_doc \<Rightarrow> bool \<Rightarrow> bool \<Rightarrow> (unit, 'm) remote"
  cl_remove :: "string \<Rightarrow> string \<Rightarrow> mongo_query \<Rightarrow> (unit, 'm) remote"
  cl_count :: "string \<Rightarrow> string \<Rightarrow> mongo_query \<Rightarrow> (u64 option, 'm) remote"

section \<open>The manager\<close>

definition RETRIVE_MAX_TIME :: u64 where
  "RETRIVE_MAX_TIME = 1500"

record 'm ha_manager =
  server_number :: u32
  next_retrive_intervall :: u64
  valid_connection_queue :: "string list"
  offline_connection_queue :: "string list"
  ha_net :: 'm

definition new_MongoDBHAConnectionManager :: "string list \<Rightarrow> 'm \<Rightarrow> 'm ha_manager" where
  "new_MongoDBHAConnectionManager routers net =
     \<lparr>server_number = of_nat (length routers), next_retrive_intervall = 0, valid_connection_queue = routers,
      offline_connection_queue = [], ha_net = net\<rparr>"

definition canRetry :: "'m mongo_client \<Rightarrow> 'm ha_manager \<Rightarrow> bool \<times> 'm ha_manager" where
  "canRetry L s =
     (case cl_now L (ha_net s) of (cur_ts, net) \<Rightarrow>
        let s1 = s\<lparr>ha_net := net\<rparr> in
        if cur_ts > next_retrive_intervall s then (True, s1\<lparr>next_retrive_intervall := cur_ts + RETRIVE_MAX_TIME\<rparr>)
        else (False, s1))"

text \<open>
  The loop over the servers in the queue; its bound is their number, so that the queue is not empty in any
  turn. A server that fails goes to the other queue, the one that is taken to the end of its own.
\<close>

fun find_good :: "nat \<Rightarrow> 'm mongo_client \<Rightarrow> 'm ha_manager \<Rightarrow> string option \<times> 'm ha_manager" where
  "find_good 0 L s = (None, s)"
| "find_good (Suc n) L s =
     (case valid_connection_queue s of
        [] \<Rightarrow> (None, s)
      | srv # rest \<Rightarrow>
          (case cl_connect L srv (ha_net s) of (r, net) \<Rightarrow>
             if r = DbOk True then (Some srv, s\<lparr>valid_connection_queue := rest @ [srv], ha_net := net\<rparr>)
             else find_good n L (s\<lparr>valid_connection_queue := rest,
                                    offline_connection_queue := offline_connection_queue s @ [srv], ha_net := net\<rparr>)))"

definition readmit :: "bool \<Rightarrow> 'm ha_manager \<Rightarrow> 'm ha_manager" where
  "readmit retry s =
     (case offline_connection_queue s of
        [] \<Rightarrow> s
      | srv # rest \<Rightarrow> if retry then s\<lparr>valid_connection_queue := valid_connection_queue s @ [srv], offline_connection_queue := rest\<rparr>
                      else s)"

definition getConnection :: "'m mongo_client \<Rightarrow> 'm ha_manager \<Rightarrow> string option dbres \<times> 'm ha_manager" where
  "getConnection L s =
     (case canRetry L s of (retry, s1) \<Rightarrow>
        let s2 = readmit retry s1 in
        (case find_good (length (valid_connection_queue s2)) L s2 of
           (None, s3) \<Rightarrow> (DbOk None, s3)
         | (Some srv, s3) \<Rightarrow>
             (case cl_open L srv (ha_net s3) of
                (DbOk _, net) \<Rightarrow> (DbOk (Some srv), s3\<lparr>ha_net := net\<rparr>)
              | (DbThrow c, net) \<Rightarrow> (DbThrow c, s3\<lparr>ha_net := net\<rparr>))))"

section \<open>Calls\<close>

definition retry_codes :: "int list" where
  "retry_codes = [13328, 10276, 13386, 16090, 13127, 13348, 13678]"

definition lastError :: "'m mongo_client \<Rightarrow> string \<Rightarrow> 'm ha_manager \<Rightarrow> int dbres \<times> 'm ha_manager" where
  "lastError L srv s = (case cl_lastError L srv (ha_net s) of (r, net) \<Rightarrow> (r, s\<lparr>ha_net := net\<rparr>))"

text \<open>
  The loop all calls have. When the call throws, or the query for its error does, the handler asks for the
  error once more, outside any handler of its own, and takes the next server on one of the codes. \<open>None\<close>
  says that \<open>n\<close> turns do not end the loop.
\<close>

fun ha_loop ::
  "nat \<Rightarrow> 'm mongo_client \<Rightarrow> (string \<Rightarrow> 'a \<Rightarrow> 'm ha_manager \<Rightarrow> (('a \<times> bool) \<times> 'm ha_manager) option) \<Rightarrow> int \<Rightarrow> 'a \<Rightarrow> 'm ha_manager \<Rightarrow>
   ((int \<times> 'a) dbres \<times> 'm ha_manager) option" where
  "ha_loop 0 L f err a s = None"
| "ha_loop (Suc n) L f err a s =
     (case getConnection L s of
        (DbThrow c, s1) \<Rightarrow> Some (DbThrow c, s1)
      | (DbOk None, s1) \<Rightarrow> Some (DbOk (err, a), s1)
      | (DbOk (Some srv), s1) \<Rightarrow>
          (case f srv a s1 of
             None \<Rightarrow> None
           | Some ((a1, threw), s2) \<Rightarrow>
               (case (if threw then (DbThrow 0, s2) else lastError L srv s2) of
                  (DbOk e, s3) \<Rightarrow> Some (DbOk (e, a1), s3)
                | (DbThrow _, s3) \<Rightarrow>
                    (case lastError L srv s3 of
                       (DbThrow c, s4) \<Rightarrow> Some (DbThrow c, s4)
                     | (DbOk e, s4) \<Rightarrow> if e \<in> set retry_codes then ha_loop n L f e a1 s4 else Some (DbOk (e, a1), s4)))))"

definition on_server :: "(string \<Rightarrow> ('a, 'm) remote) \<Rightarrow> string \<Rightarrow> 'a \<Rightarrow> 'm ha_manager \<Rightarrow> (('a \<times> bool) \<times> 'm ha_manager) option" where
  "on_server g srv a s = (case g srv a (ha_net s) of (r, net) \<Rightarrow> Some (r, s\<lparr>ha_net := net\<rparr>))"

definition ha_call :: "nat \<Rightarrow> 'm mongo_client \<Rightarrow> (string \<Rightarrow> ('a, 'm) remote) \<Rightarrow> int \<Rightarrow> 'a \<Rightarrow> 'm ha_manager \<Rightarrow>
   ((int \<times> 'a) dbres \<times> 'm ha_manager) option" where
  "ha_call n L g = ha_loop n L (on_server g)"

definition ha_insert :: "nat \<Rightarrow> 'm mongo_client \<Rightarrow> string \<Rightarrow> mongo_doc \<Rightarrow> 'm ha_manager \<Rightarrow> ((int \<times> unit) dbres \<times> 'm ha_manager) option" where
  "ha_insert n L ns d = ha_call n L (\<lambda>srv. cl_insert L srv ns d) (- 1) ()"

definition ha_findOne ::
  "nat \<Rightarrow> 'm mongo_client \<Rightarrow> string \<Rightarrow> mongo_query \<Rightarrow> string list \<Rightarrow> 'm ha_manager \<Rightarrow> ((int \<times> mongo_doc option) dbres \<times> 'm ha_manager) option" where
  "ha_findOne n L ns q wanted = ha_call n L (\<lambda>srv. cl_findOne L srv ns q wanted) (- 1) None"

definition ha_findN ::
  "nat \<Rightarrow> 'm mongo_client \<Rightarrow> string \<Rightarrow> mongo_query \<Rightarrow> u32 \<Rightarrow> string list \<Rightarrow> 'm ha_manager \<Rightarrow> ((int \<times> mongo_doc list) dbres \<times> 'm ha_manager) option" where
  "ha_findN n L ns q k wanted = ha_call n L (\<lambda>srv. cl_findN L srv ns q k wanted) (- 1) []"

definition ha_runCommand ::
  "nat \<Rightarrow> 'm mongo_client \<Rightarrow> string \<Rightarrow> mongo_doc \<Rightarrow> 'm ha_manager \<Rightarrow> ((int \<times> mongo_doc option) dbres \<times> 'm ha_manager) option" where
  "ha_runCommand n L ns c = ha_call n L (\<lambda>srv. cl_runCommand L srv ns c) (- 1) None"

definition ha_update ::
  "nat \<Rightarrow> 'm mongo_client \<Rightarrow> string \<Rightarrow> mongo_query \<Rightarrow> mongo_doc \<Rightarrow> bool \<Rightarrow> bool \<Rightarrow> 'm ha_manager \<Rightarrow> ((int \<times> unit) dbres \<times> 'm ha_manager) option" where
  "ha_update n L ns q u upsert multi = ha_call n L (\<lambda>srv. cl_update L srv ns q u upsert multi) (- 1) ()"

definition ha_remove ::
  "nat \<Rightarrow> 'm mongo_client \<Rightarrow> string \<Rightarrow> mongo_query \<Rightarrow> 'm ha_manager \<Rightarrow> ((int \<times> unit) dbres \<times> 'm ha_manager) option" where
  "ha_remove n L ns q = ha_call n L (\<lambda>srv. cl_remove L srv ns q) (- 1) ()"

text \<open>A count that finds no server reports 0, no error.\<close>

definition ha_count ::
  "nat \<Rightarrow> 'm mongo_client \<Rightarrow> string \<Rightarrow> mongo_query \<Rightarrow> 'm ha_manager \<Rightarrow> ((int \<times> u64 option) dbres \<times> 'm ha_manager) option" where
  "ha_count n L ns q = ha_call n L (\<lambda>srv. cl_count L srv ns q) 0 None"

text \<open>
  An index is a document in the collection of the indexes. It is inserted by a call of its own, whose error
  is overwritten by the last error of the connection that nobody has used.
\<close>

definition index_spec :: "'m mongo_client \<Rightarrow> string \<Rightarrow> string \<Rightarrow> string list \<Rightarrow> mongo_doc" where
  "index_spec L db_name c keys =
     (let ks = map (\<lambda>k. (k, M_int 1)) keys in
      [(''ns'', M_str (coll db_name c)), (''key'', M_doc ks), (''name'', M_str (cl_genIndexName L ks)),
       (''unique'', M_bool True), (''dropDups'', M_bool True)])"

definition ha_ensureIndex ::
  "nat \<Rightarrow> 'm mongo_client \<Rightarrow> string \<Rightarrow> string \<Rightarrow> string list \<Rightarrow> 'm ha_manager \<Rightarrow> ((int \<times> unit) dbres \<times> 'm ha_manager) option" where
  "ha_ensureIndex n L db_name c keys =
     ha_loop n L (\<lambda>srv _ s.
       case ha_insert n L (db_name @ ''.system.indexes'') (index_spec L db_name c keys) s of
         None \<Rightarrow> None
       | Some (DbOk _, s1) \<Rightarrow> Some (((), False), s1)
       | Some (DbThrow _, s1) \<Rightarrow> Some (((), True), s1)) (- 1) ()"


section \<open>The queues\<close>

definition servers :: "'m ha_manager \<Rightarrow> string multiset" where
  "servers s = mset (valid_connection_queue s) + mset (offline_connection_queue s)"

lemma servers_net [simp]: "servers (s\<lparr>ha_net := net\<rparr>) = servers s"
  by (simp add: servers_def)

lemma servers_canRetry [simp]: "servers (snd (canRetry L s)) = servers s"
  by (simp add: canRetry_def servers_def Let_def split: prod.split)

lemma servers_readmit [simp]: "servers (readmit r s) = servers s"
  by (simp add: readmit_def servers_def split: list.split)

lemma servers_find_good: "find_good n L s = (r, s') \<Longrightarrow> servers s' = servers s"
proof (induction n arbitrary: s)
  case (Suc n)
  show ?case
  proof (cases "valid_connection_queue s")
    case (Cons srv rest)
    obtain c net where c: "cl_connect L srv (ha_net s) = (c, net)" by (cases "cl_connect L srv (ha_net s)")
    show ?thesis
    proof (cases "c = DbOk True")
      case True
      then show ?thesis using Suc.prems Cons c by (auto simp: servers_def)
    next
      case False
      let ?s = "s\<lparr>valid_connection_queue := rest, offline_connection_queue := offline_connection_queue s @ [srv], ha_net := net\<rparr>"
      have "servers s' = servers ?s" using Suc.IH [of ?s] Suc.prems Cons c False by simp
      also have "\<dots> = servers s" using Cons by (simp add: servers_def)
      finally show ?thesis .
    qed
  qed (use Suc.prems in simp)
qed simp

lemma servers_getConnection: "getConnection L s = (r, s') \<Longrightarrow> servers s' = servers s"
proof -
  assume g: "getConnection L s = (r, s')"
  obtain b s1 where c: "canRetry L s = (b, s1)" by (cases "canRetry L s")
  let ?s = "readmit b s1"
  obtain o' s3 where f: "find_good (length (valid_connection_queue ?s)) L ?s = (o', s3)"
    by (cases "find_good (length (valid_connection_queue ?s)) L ?s")
  have "servers s1 = servers s" using servers_canRetry [of L s] c by simp
  then have "servers s3 = servers s" using servers_find_good [OF f] by simp
  then show ?thesis using g c f by (auto simp: getConnection_def Let_def split: option.splits prod.splits dbres.splits)
qed

lemma servers_lastError: "lastError L srv s = (r, s') \<Longrightarrow> servers s' = servers s"
  by (auto simp: lastError_def split: prod.splits)

lemma servers_ha_loop:
  assumes "\<And>srv a s x s'. f srv a s = Some (x, s') \<Longrightarrow> servers s' = servers s"
    and "ha_loop n L f err a s = Some (r, s')"
  shows "servers s' = servers s"
  using assms(2)
proof (induction n arbitrary: err a s)
  case (Suc n)
  obtain c s1 where g: "getConnection L s = (c, s1)" by (cases "getConnection L s")
  have s1: "servers s1 = servers s" by (rule servers_getConnection [OF g])
  show ?case
  proof (cases c)
    case (DbThrow x)
    then show ?thesis using Suc.prems g s1 by simp
  next
    case (DbOk so)
    show ?thesis
    proof (cases so)
      case None
      then show ?thesis using Suc.prems g s1 DbOk by simp
    next
      case (Some srv)
      obtain a1 threw s2 where f: "f srv a s1 = Some ((a1, threw), s2)"
        using Suc.prems g DbOk Some by (cases "f srv a s1") auto
      have s2: "servers s2 = servers s" using assms(1) [OF f] s1 by simp
      obtain e s3 where e: "(if threw then (DbThrow 0, s2) else lastError L srv s2) = (e, s3)" by (metis surj_pair)
      have s3: "servers s3 = servers s" using e s2 servers_lastError by (metis prod.inject)
      obtain e' s4 where e': "lastError L srv s3 = (e', s4)" by (cases "lastError L srv s3")
      have s4: "servers s4 = servers s" using servers_lastError [OF e'] s3 by simp
      show ?thesis using Suc.prems g DbOk Some f e e' s3 s4 Suc.IH [of _ a1 s4]
        by (auto split: dbres.splits if_splits)
    qed
  qed
qed simp

lemma servers_on_server: "on_server g srv a s = Some (x, s') \<Longrightarrow> servers s' = servers s"
  by (auto simp: on_server_def split: prod.splits)

lemma servers_ha_call: "ha_call n L g err a s = Some (r, s') \<Longrightarrow> servers s' = servers s"
  unfolding ha_call_def by (rule servers_ha_loop [OF servers_on_server])


section \<open>Servers that answer\<close>

definition answering :: "'m mongo_client \<Rightarrow> (string \<Rightarrow> bool) \<Rightarrow> bool" where
  "answering L up \<longleftrightarrow>
     (\<forall>srv net. (fst (cl_connect L srv net) = DbOk True) = up srv) \<and>
     (\<forall>srv net. up srv \<longrightarrow> fst (cl_open L srv net) = DbOk ())"

definition candidates :: "'m mongo_client \<Rightarrow> 'm ha_manager \<Rightarrow> string list \<times> string list" where
  "candidates L s =
     (let back = (if fst (cl_now L (ha_net s)) > next_retrive_intervall s then 1 else 0) in
      (valid_connection_queue s @ take back (offline_connection_queue s), drop back (offline_connection_queue s)))"

lemma find_good_answer:
  assumes "\<And>srv net. (fst (cl_connect L srv net) = DbOk True) = up srv"
    and "valid_connection_queue s = dead @ srv # rest" and "\<forall>d \<in> set dead. \<not> up d" and "up srv" and "length dead < n"
  shows "\<exists>s'. find_good n L s = (Some srv, s') \<and> valid_connection_queue s' = rest @ [srv] \<and>
    offline_connection_queue s' = offline_connection_queue s @ dead"
  using assms(2-5)
proof (induction n arbitrary: s dead)
  case (Suc n)
  show ?case
  proof (cases dead)
    case Nil
    have "fst (cl_connect L srv (ha_net s)) = DbOk True" using assms(1) Suc.prems(3) by blast
    then show ?thesis using Suc.prems Nil by (auto split: prod.split)
  next
    case (Cons d ds)
    have "fst (cl_connect L d (ha_net s)) \<noteq> DbOk True" using assms(1) Suc.prems(2) Cons by simp
    then obtain c net where c: "cl_connect L d (ha_net s) = (c, net)" "c \<noteq> DbOk True" by (metis surj_pair fst_conv)
    let ?s = "s\<lparr>valid_connection_queue := ds @ srv # rest, offline_connection_queue := offline_connection_queue s @ [d], ha_net := net\<rparr>"
    have "find_good (Suc n) L s = find_good n L ?s" using Suc.prems(1) Cons c by simp
    moreover obtain s' where "find_good n L ?s = (Some srv, s')" "valid_connection_queue s' = rest @ [srv]"
      "offline_connection_queue s' = offline_connection_queue ?s @ ds"
      using Suc.IH [of ?s ds] Suc.prems Cons by auto
    ultimately show ?thesis using Cons by auto
  qed
qed simp

lemma find_good_no_answer:
  assumes "\<And>srv net. (fst (cl_connect L srv net) = DbOk True) = up srv"
    and "\<forall>d \<in> set (valid_connection_queue s). \<not> up d" and "n = length (valid_connection_queue s)"
  shows "\<exists>s'. find_good n L s = (None, s') \<and> valid_connection_queue s' = [] \<and>
    offline_connection_queue s' = offline_connection_queue s @ valid_connection_queue s"
  using assms(2,3)
proof (induction n arbitrary: s)
  case (Suc n)
  then obtain d ds where d: "valid_connection_queue s = d # ds" by (cases "valid_connection_queue s") auto
  have "fst (cl_connect L d (ha_net s)) \<noteq> DbOk True" using assms(1) Suc.prems(1) d by simp
  then obtain c net where c: "cl_connect L d (ha_net s) = (c, net)" "c \<noteq> DbOk True" by (metis surj_pair fst_conv)
  let ?s = "s\<lparr>valid_connection_queue := ds, offline_connection_queue := offline_connection_queue s @ [d], ha_net := net\<rparr>"
  have "find_good (Suc n) L s = find_good n L ?s" using d c by simp
  moreover obtain s' where "find_good n L ?s = (None, s')" "valid_connection_queue s' = []"
    "offline_connection_queue s' = offline_connection_queue ?s @ ds"
    using Suc.IH [of ?s] Suc.prems d by auto
  ultimately show ?case using d by auto
qed simp

lemma readmit_candidates:
  assumes "canRetry L s = (b, s1)"
  shows "candidates L s = (valid_connection_queue (readmit b s1), offline_connection_queue (readmit b s1))"
  using assms by (auto simp: candidates_def canRetry_def readmit_def Let_def split: prod.splits if_splits list.split)

lemma getConnection_answer:
  assumes L: "answering L up" and c: "candidates L s = (dead @ srv # rest, off)" and d: "\<forall>d \<in> set dead. \<not> up d" and u: "up srv"
  obtains s' where "getConnection L s = (DbOk (Some srv), s')" "valid_connection_queue s' = rest @ [srv]"
    "offline_connection_queue s' = off @ dead"
proof -
  obtain b s1 where b: "canRetry L s = (b, s1)" by (cases "canRetry L s")
  let ?s = "readmit b s1"
  have q: "valid_connection_queue ?s = dead @ srv # rest" "offline_connection_queue ?s = off"
    using readmit_candidates [OF b] c by simp_all
  have up: "\<And>srv net. (fst (cl_connect L srv net) = DbOk True) = up srv" using L by (simp add: answering_def)
  have len: "length dead < length (valid_connection_queue ?s)" using q by simp
  obtain s3 where s3: "find_good (length (valid_connection_queue ?s)) L ?s = (Some srv, s3)"
    "valid_connection_queue s3 = rest @ [srv]" "offline_connection_queue s3 = off @ dead"
    using find_good_answer [OF up q(1) d u len] q(2) by auto
  obtain net where "cl_open L srv (ha_net s3) = (DbOk (), net)" using L u by (metis answering_def surj_pair fst_conv)
  then show thesis using that [of "s3\<lparr>ha_net := net\<rparr>"] b s3 by (simp add: getConnection_def)
qed

lemma getConnection_no_answer:
  assumes L: "answering L up" and c: "candidates L s = (cs, off)" and d: "\<forall>d \<in> set cs. \<not> up d"
  obtains s' where "getConnection L s = (DbOk None, s')" "valid_connection_queue s' = []" "offline_connection_queue s' = off @ cs"
proof -
  obtain b s1 where b: "canRetry L s = (b, s1)" by (cases "canRetry L s")
  let ?s = "readmit b s1"
  have q: "valid_connection_queue ?s = cs" "offline_connection_queue ?s = off" using readmit_candidates [OF b] c by simp_all
  have up: "\<And>srv net. (fst (cl_connect L srv net) = DbOk True) = up srv" using L by (simp add: answering_def)
  have d': "\<forall>d \<in> set (valid_connection_queue ?s). \<not> up d" using d q by simp
  obtain s3 where "find_good (length (valid_connection_queue ?s)) L ?s = (None, s3)"
    "valid_connection_queue s3 = []" "offline_connection_queue s3 = off @ cs"
    using find_good_no_answer [OF up d' refl] q by auto
  then show thesis using that [of s3] b by (simp add: getConnection_def)
qed

text \<open>
  C19. A call is given to the first server that answers. The candidates are the servers of the queue and, once
  every 1500 milliseconds, the one that has been offline longest. Those that do not answer go offline, in
  their order; the one that answers goes to the end of the queue, so that the servers take turns; and the
  call returns what that server did and its last error. If none answers, the call returns with the error
  code it started with and all candidates are offline. No server is ever lost from the two queues.
\<close>

theorem call_fails_over:
  assumes L: "answering L up" and g: "\<forall>srv a net. up srv \<longrightarrow> \<not> snd (fst (g srv a net))"
    and e: "\<forall>srv net. up srv \<longrightarrow> (\<exists>code. fst (cl_lastError L srv net) = DbOk code)"
    and c: "candidates L s = (cs, off)"
  shows "\<exists>r s'. ha_call (Suc n) L g err a s = Some (DbOk r, s') \<and> servers s' = servers s \<and>
    (if \<exists>srv \<in> set cs. up srv then
       \<exists>dead srv rest net. cs = dead @ srv # rest \<and> up srv \<and> (\<forall>d \<in> set dead. \<not> up d) \<and>
         valid_connection_queue s' = rest @ [srv] \<and> offline_connection_queue s' = off @ dead \<and>
         snd r = fst (fst (g srv a net)) \<and> cl_lastError L srv (snd (g srv a net)) = (DbOk (fst r), ha_net s')
     else r = (err, a) \<and> valid_connection_queue s' = [] \<and> offline_connection_queue s' = off @ cs)"
proof (cases "\<exists>srv \<in> set cs. up srv")
  case False
  obtain s' where s': "getConnection L s = (DbOk None, s')" "valid_connection_queue s' = []" "offline_connection_queue s' = off @ cs"
    by (rule getConnection_no_answer [OF L c]) (use False in blast)+
  then have r: "ha_call (Suc n) L g err a s = Some (DbOk (err, a), s')" by (simp add: ha_call_def)
  show ?thesis using r s' servers_ha_call [OF r] False by auto
next
  case True
  then obtain dead srv rest where d: "cs = dead @ srv # rest" "up srv" "\<forall>d \<in> set dead. \<not> up d"
    by (metis split_list_first_prop)
  obtain s1 where s1: "getConnection L s = (DbOk (Some srv), s1)" "valid_connection_queue s1 = rest @ [srv]"
    "offline_connection_queue s1 = off @ dead"
    by (rule getConnection_answer [OF L _ d(3,2), of s rest off]) (use c d(1) in auto)
  obtain a1 net where n: "g srv a (ha_net s1) = ((a1, False), net)" using g d(2) by (metis surj_pair snd_conv fst_conv)
  obtain code net' where l: "cl_lastError L srv net = (DbOk code, net')" using e d(2) by (metis surj_pair fst_conv)
  let ?s = "s1\<lparr>ha_net := net'\<rparr>"
  have r: "ha_call (Suc n) L g err a s = Some (DbOk (code, a1), ?s)"
    using s1(1) n l by (simp add: ha_call_def on_server_def lastError_def)
  have "\<exists>dead srv rest net. cs = dead @ srv # rest \<and> up srv \<and> (\<forall>d \<in> set dead. \<not> up d) \<and>
      valid_connection_queue ?s = rest @ [srv] \<and> offline_connection_queue ?s = off @ dead \<and>
      a1 = fst (fst (g srv a net)) \<and> cl_lastError L srv (snd (g srv a net)) = (DbOk code, ha_net ?s)"
    using d s1(2,3) n l by (intro exI [of _ dead] exI [of _ srv] exI [of _ rest] exI [of _ "ha_net s1"]) simp
  then show ?thesis using r servers_ha_call [OF r] True by auto
qed

text \<open>
  C40. A call that throws on servers which answer never returns when the code of the error is one of those
  that mean the next server: a server that failed stays in the queue, nothing counts the turns, and the loop
  goes round the servers for ever.
\<close>

theorem call_never_returns:
  assumes L: "answering L (\<lambda>_. True)" and g: "\<forall>srv a net. snd (fst (g srv a net))"
    and e: "\<forall>srv net. fst (cl_lastError L srv net) = DbOk code" and k: "code \<in> set retry_codes"
    and s: "valid_connection_queue s \<noteq> []"
  shows "ha_call n L g err a s = None"
  unfolding ha_call_def using s
proof (induction n arbitrary: err a s)
  case (Suc n)
  obtain srv rest where v: "valid_connection_queue s = srv # rest" using Suc.prems by (cases "valid_connection_queue s") auto
  obtain off rest' where c: "candidates L s = ([] @ srv # rest', off)"
    using v by (simp add: candidates_def Let_def)
  obtain s1 where s1: "getConnection L s = (DbOk (Some srv), s1)" "valid_connection_queue s1 = rest' @ [srv]"
    by (rule getConnection_answer [OF L c]) simp_all
  obtain a1 net where n: "g srv a (ha_net s1) = ((a1, True), net)" using g by (metis surj_pair snd_conv fst_conv)
  obtain net' where l: "cl_lastError L srv net = (DbOk code, net')" using e by (metis surj_pair fst_conv)
  have "ha_loop (Suc n) L (on_server g) err a s = ha_loop n L (on_server g) code a1 (s1\<lparr>ha_net := net'\<rparr>)"
    using s1(1) n l k by (simp add: on_server_def lastError_def)
  then show ?case using Suc.IH [of "s1\<lparr>ha_net := net'\<rparr>"] s1(2) by simp
qed simp


section \<open>The pool of the driver\<close>

lemma ha_loop_mono: "ha_loop n L f err a s = Some r \<Longrightarrow> n \<le> m \<Longrightarrow> ha_loop m L f err a s = Some r"
proof (induction n arbitrary: m err a s)
  case (Suc n)
  then obtain k where k: "m = Suc k" "n \<le> k" by (cases m) auto
  have ih: "ha_loop n L f e a1 s4 = Some r \<Longrightarrow> ha_loop k L f e a1 s4 = Some r" for e a1 s4 using Suc.IH k(2) by blast
  show ?case using Suc.prems(1) ih unfolding k(1)
    by (auto split: prod.splits dbres.splits option.splits if_splits)
qed simp

text \<open>
  The calls as the driver sees them, with the turns of a call bounded by \<open>n\<close>; a call that needs more is left
  with an exception. By the lemma above a larger bound never changes a call that returns.
\<close>

definition returned :: "('a dbres \<times> 's) option \<Rightarrow> ('a \<Rightarrow> 'b) \<Rightarrow> 's \<Rightarrow> 'b dbres \<times> 's" where
  "returned r f s = (case r of
       None \<Rightarrow> (DbThrow 0, s)
     | Some (DbOk a, s1) \<Rightarrow> (DbOk (f a), s1)
     | Some (DbThrow c, s1) \<Rightarrow> (DbThrow c, s1))"

definition on_net :: "('m \<Rightarrow> 'a \<times> 'm) \<Rightarrow> 'm ha_manager \<Rightarrow> 'a \<times> 'm ha_manager" where
  "on_net f s = (case f (ha_net s) of (a, net) \<Rightarrow> (a, s\<lparr>ha_net := net\<rparr>))"

definition ha_pool :: "nat \<Rightarrow> 'm mongo_client \<Rightarrow> 'm ha_manager mongo_pool" where
  "ha_pool n L =
     \<lparr>mp_now = on_net (cl_now L),
      mp_uuid = on_net (cl_uuid L),
      mp_insert = (\<lambda>ns d s. returned (ha_insert n L ns d s) fst s),
      mp_findOne = (\<lambda>ns q wanted s. returned (ha_findOne n L ns q wanted s) id s),
      mp_findN = (\<lambda>ns q k wanted s. returned (ha_findN n L ns q k wanted s) snd s),
      mp_runCommand = (\<lambda>ns c s. returned (ha_runCommand n L ns c s) id s),
      mp_update = (\<lambda>ns q u upsert multi s. returned (ha_update n L ns q u upsert multi s) fst s),
      mp_remove = (\<lambda>ns q s. returned (ha_remove n L ns q s) fst s),
      mp_count = (\<lambda>ns q s. returned (ha_count n L ns q s) id s),
      mp_ensureIndex = (\<lambda>db_name c keys s. returned (ha_ensureIndex n L db_name c keys s) fst s)\<rparr>"

section \<open>Two servers\<close>

text \<open>A library without effects, on which one server is down.\<close>

definition two_server_client :: "int \<Rightarrow> bool \<Rightarrow> (string \<Rightarrow> bool) \<Rightarrow> nat mongo_client" where
  "two_server_client code threw up =
     \<lparr>cl_now = (\<lambda>t. (of_nat t, Suc t)), cl_uuid = (\<lambda>t. ('''', t)), cl_genIndexName = (\<lambda>_. ''''),
      cl_connect = (\<lambda>srv t. (DbOk (up srv), t)), cl_open = (\<lambda>srv t. (DbOk (), t)), cl_lastError = (\<lambda>srv t. (DbOk code, t)),
      cl_insert = (\<lambda>srv ns d a t. ((a, threw), t)), cl_findOne = (\<lambda>srv ns q wanted a t. ((Some [(''srv'', M_str srv)], threw), t)),
      cl_findN = (\<lambda>srv ns q n wanted a t. ((a, threw), t)), cl_runCommand = (\<lambda>srv ns c a t. ((a, threw), t)),
      cl_update = (\<lambda>srv ns q u upsert multi a t. ((a, threw), t)), cl_remove = (\<lambda>srv ns q a t. ((a, threw), t)),
      cl_count = (\<lambda>srv ns q a t. ((a, threw), t))\<rparr>"

theorem call_fails_over_witness:
  "\<exists>r s'. ha_findOne 1 (two_server_client 0 False (\<lambda>srv. srv = ''b'')) ''c'' (where_doc []) []
      (new_MongoDBHAConnectionManager [''a'', ''b'', ''c''] 0) = Some (DbOk r, s') \<and>
     valid_connection_queue s' = [''c'', ''b''] \<and> offline_connection_queue s' = [''a''] \<and> snd r = Some [(''srv'', M_str ''b'')]"
proof -
  let ?up = "\<lambda>srv. srv = ''b''" and ?s = "new_MongoDBHAConnectionManager [''a'', ''b'', ''c''] (0 :: nat)"
  let ?L = "two_server_client 0 False ?up"
  have L: "answering ?L ?up" by (simp add: answering_def two_server_client_def)
  have g: "\<forall>srv a net. ?up srv \<longrightarrow> \<not> snd (fst (cl_findOne ?L srv ''c'' (where_doc []) [] a net))" by (simp add: two_server_client_def)
  have e: "\<forall>srv net. ?up srv \<longrightarrow> (\<exists>code. fst (cl_lastError ?L srv net) = DbOk code)" by (simp add: two_server_client_def)
  have c: "candidates ?L ?s = ([''a'', ''b'', ''c''], [])" by (simp add: candidates_def new_MongoDBHAConnectionManager_def two_server_client_def)
  have split: "dead = [''a''] \<and> srv = ''b'' \<and> rest = [''c'']" if "[''a'', ''b'', ''c''] = dead @ srv # rest" "?up srv" for dead srv rest
    using that by (auto simp: Cons_eq_append_conv)
  have ex: "\<exists>srv \<in> set [''a'', ''b'', ''c'']. ?up srv" by simp
  from call_fails_over [OF L g e c, of 0 "- 1" None, unfolded if_P [OF ex]] obtain r s' dead srv rest net where
    r: "ha_call (Suc 0) ?L (\<lambda>srv. cl_findOne ?L srv ''c'' (where_doc []) []) (- 1) None ?s = Some (DbOk r, s')"
    and d: "[''a'', ''b'', ''c''] = dead @ srv # rest" "?up srv"
    "valid_connection_queue s' = rest @ [srv]" "offline_connection_queue s' = [] @ dead"
    "snd r = fst (fst (cl_findOne ?L srv ''c'' (where_doc []) [] None net))"
    by (elim exE conjE) (rule that; assumption)
  have "dead = [''a'']" "srv = ''b''" "rest = [''c'']" using split [OF d(1,2)] by simp_all
  moreover from this have "snd r = Some [(''srv'', M_str ''b'')]" using d(5) by (simp add: two_server_client_def)
  ultimately show ?thesis using r d(3,4) unfolding ha_findOne_def One_nat_def by (intro exI [of _ r] exI [of _ s']) simp
qed

theorem call_never_returns_witness:
  "ha_insert 1000 (two_server_client 13328 True (\<lambda>_. True)) ''c'' [] (new_MongoDBHAConnectionManager [''a'', ''b''] 0) = None"
  unfolding ha_insert_def
  by (rule call_never_returns [where code = 13328])
     (simp_all add: answering_def two_server_client_def retry_codes_def new_MongoDBHAConnectionManager_def)

end
