(* ===== verification/Storage_Views.thy ===== *)
theory Storage_Views
  imports Storage_Driver
begin

text \<open>
  What the storage driver promises: blocks on the heap are independent of each other, and on a system that
  refuses nothing a block holds what was written to it, gives it to its file when it is closed, and
  delivers it to a reader.
\<close>

section \<open>Evaluating calls\<close>

named_theorems act_simps "running an action on a world"

lemma abind_Ret [act_simps]: "m w = Ret (a, w') \<Longrightarrow> abind m f w = f a w'"
  by (simp add: abind_def)

lemma abind_basic [act_simps]:
  "abind (areturn a) f w = f a w"
  "abind (aget g) f w = f (g w) w"
  "abind (amodify h) f1 w = f1 () (h w)"
  "abind (consult k) f2 w = f2 (k (ticks w)) (w\<lparr>ticks := Suc (ticks w)\<rparr>)"
  "abind afault f3 w = Fault"
  "areturn a w = Ret (a, w)" "aget g w = Ret (g w, w)" "amodify h w = Ret ((), h w)" "afault w = Fault"
  by (simp_all add: abind_def areturn_def aget_def amodify_def consult_def afault_def)

lemma abind_assoc [act_simps]: "abind (abind m f) g w = abind m (\<lambda>a. abind (f a) g) w"
  by (cases "m w") (auto simp: abind_def split: prod.splits)

lemma abind_if [act_simps]: "abind (if b then m else n) f w = (if b then abind m f w else abind n f w)"
  by simp

lemma abind_at [act_simps]:
  "f w a = Some x \<Longrightarrow> abind (from_map f (Some a)) g w = g x w"
  "f w a = None \<Longrightarrow> abind (from_map f (Some a)) g w = Fault"
  "abind (from_map f None) g w = Fault"
  by (simp_all add: abind_def from_map_def)

section \<open>Well-formed worlds\<close>

text \<open>
  Blocks on the heap have streams of their own, and open blocks have files of their own. What a block
  holds is the file behind it followed by what its stream has not handed over yet.
\<close>

definition open_block :: "vfs_env \<Rightarrow> 'd world \<Rightarrow> data_block \<Rightarrow> bool" where
  "open_block E w b \<longleftrightarrow>
     (case driver_private_data b of
        None \<Rightarrow> True
      | Some s \<Rightarrow> s < next_addr w \<and>
          (case streams w s of
             None \<Rightarrow> False
           | Some st \<Rightarrow> fs_path st = getAbsolutePath E (vfs_path b) \<and> files w (fs_path st) \<noteq> None \<and>
               (fs_out st \<or> fs_pending st = [])))"

definition wf_world :: "vfs_env \<Rightarrow> 'd world \<Rightarrow> bool" where
  "wf_world E w \<longleftrightarrow>
     (\<forall>a b. blocks w a = Some b \<longrightarrow> a < next_addr w \<and> open_block E w b) \<and>
     (\<forall>a a' b b' s. blocks w a = Some b \<longrightarrow> blocks w a' = Some b' \<longrightarrow> driver_private_data b = Some s \<longrightarrow>
        driver_private_data b' \<noteq> None \<longrightarrow> a \<noteq> a' \<longrightarrow>
        driver_private_data b' \<noteq> Some s \<and> vfs_path b' \<noteq> vfs_path b)"

definition bview :: "'d world \<Rightarrow> nat \<Rightarrow> (data_block \<times> fstream \<times> u8 list) option" where
  "bview w a =
     (case blocks w a of
        None \<Rightarrow> None
      | Some b \<Rightarrow>
          (case driver_private_data b of
             None \<Rightarrow> None
           | Some s \<Rightarrow>
               (case streams w s of
                  None \<Rightarrow> None
                | Some st \<Rightarrow> Some (b, st\<lparr>fs_pending := []\<rparr>, file_bytes (fs_path st) w @ fs_pending st))))"

definition calm :: "vfs_env \<Rightarrow> bool" where
  "calm E \<longleftrightarrow> (\<forall>n. env_os E n \<and> snd (env_io E n))"

lemma bviewE:
  assumes "bview w a = Some (b, st, c)"
  obtains s pend where "blocks w a = Some b" "driver_private_data b = Some s"
    "streams w s = Some (st\<lparr>fs_pending := pend\<rparr>)" "c = file_bytes (fs_path st) w @ pend" "fs_pending st = []"
proof -
  from assms obtain s st0 where s: "blocks w a = Some b" "driver_private_data b = Some s" "streams w s = Some st0"
      "st = st0\<lparr>fs_pending := []\<rparr>" "c = file_bytes (fs_path st0) w @ fs_pending st0"
    by (auto simp: bview_def split: option.splits)
  then show thesis by (intro that [of s "fs_pending st0"]) auto
qed

lemma bview_update [simp]:
  "file_bytes q (w\<lparr>ticks := t\<rparr>) = file_bytes q w" "file_bytes q (w\<lparr>database := d\<rparr>) = file_bytes q w"
  "bview (w\<lparr>ticks := t\<rparr>) = bview w" "bview (w\<lparr>database := d\<rparr>) = bview w"
  "wf_world E (w\<lparr>ticks := t\<rparr>) = wf_world E w" "wf_world E (w\<lparr>database := d\<rparr>) = wf_world E w"
  by (simp_all add: file_bytes_def bview_def fun_eq_iff wf_world_def open_block_def cong: option.case_cong)

lemma getAbsolutePath_inj [simp]: "getAbsolutePath E p = getAbsolutePath E q \<longleftrightarrow> p = q"
  by (simp add: getAbsolutePath_def)

text \<open>
  A call works on the block \<open>a\<close>: it leaves every other block, its stream and its contents alone, and
  every file but that of \<open>a\<close>.
\<close>

definition touches :: "vfs_env \<Rightarrow> nat \<Rightarrow> string \<Rightarrow> 'd world \<Rightarrow> 'd world \<Rightarrow> bool" where
  "touches E a path w w' \<longleftrightarrow>
     (\<forall>a'. a' \<noteq> a \<longrightarrow> blocks w' a' = blocks w a' \<and> bview w' a' = bview w a') \<and>
     (\<forall>q. q \<noteq> getAbsolutePath E path \<longrightarrow> files w' q = files w q) \<and>
     dirs w' = dirs w \<and> database w' = database w \<and> next_addr w \<le> next_addr w' \<and> ticks w \<le> ticks w'"

definition upd_open :: "nat \<Rightarrow> nat \<Rightarrow> data_block \<Rightarrow> fstream \<Rightarrow> u8 list \<Rightarrow> nat \<Rightarrow> 'd world \<Rightarrow> 'd world" where
  "upd_open a s b st c t w =
     w\<lparr>blocks := (blocks w)(a \<mapsto> b), streams := (streams w)(s \<mapsto> st),
       files := (files w)(fs_path st \<mapsto> c), ticks := t\<rparr>"

lemma wf_blockD:
  assumes "wf_world E w" and "blocks w a = Some b"
  shows "a < next_addr w" and "open_block E w b"
  using assms by (auto simp: wf_world_def)

lemma wf_distinct:
  assumes "wf_world E w" and "blocks w a = Some b" and "blocks w a' = Some b'"
    and "driver_private_data b = Some s" and "driver_private_data b' = Some s'" and "a \<noteq> a'"
  shows "s' \<noteq> s" and "vfs_path b' \<noteq> vfs_path b"
  using assms unfolding wf_world_def by (metis option.discI)+

lemma open_blockD:
  assumes "open_block E w b" and "driver_private_data b = Some s"
  obtains st where "streams w s = Some st" "s < next_addr w" "fs_path st = getAbsolutePath E (vfs_path b)"
    "files w (getAbsolutePath E (vfs_path b)) \<noteq> None" "fs_out st \<or> fs_pending st = []"
  using assms by (auto simp: open_block_def split: option.splits)

lemma upd_open_other:
  assumes wf: "wf_world E w" and b: "blocks w a = Some b" "driver_private_data b = Some s"
    and p: "fs_path st' = getAbsolutePath E (vfs_path b)"
    and b': "blocks w a' = Some b'" "a' \<noteq> a"
  shows "open_block E (upd_open a s b1 st' c t w) b'" and "bview (upd_open a s b1 st' c t w) a' = bview w a'"
proof -
  have o: "open_block E w b'" using wf_blockD [OF wf b'(1)] by simp
  have "open_block E (upd_open a s b1 st' c t w) b' \<and> bview (upd_open a s b1 st' c t w) a' = bview w a'"
  proof (cases "driver_private_data b'")
    case None
    then show ?thesis using b' by (simp add: open_block_def bview_def upd_open_def)
  next
    case (Some s')
    from wf_distinct [OF wf b(1) b'(1) b(2) Some] b'(2) have d: "s' \<noteq> s" "vfs_path b' \<noteq> vfs_path b" by auto
    from o Some obtain st2 where st2: "streams w s' = Some st2" "s' < next_addr w"
        "fs_path st2 = getAbsolutePath E (vfs_path b')" "files w (getAbsolutePath E (vfs_path b')) \<noteq> None"
        "fs_out st2 \<or> fs_pending st2 = []" by (rule open_blockD)
    then show ?thesis using Some d b' p by (simp add: open_block_def bview_def upd_open_def file_bytes_def)
  qed
  then show "open_block E (upd_open a s b1 st' c t w) b'" "bview (upd_open a s b1 st' c t w) a' = bview w a'"
    by auto
qed

lemma upd_open_touches:
  assumes wf: "wf_world E w" and b: "blocks w a = Some b" "driver_private_data b = Some s"
    and b1: "driver_private_data b1 = Some s" "vfs_path b1 = vfs_path b"
    and p: "fs_path st' = getAbsolutePath E (vfs_path b)" and o: "fs_out st' \<or> fs_pending st' = []"
    and t: "ticks w \<le> t"
  shows "wf_world E (upd_open a s b1 st' c t w)"
    and "touches E a (vfs_path b) w (upd_open a s b1 st' c t w)"
    and "bview (upd_open a s b1 st' c t w) a = Some (b1, st'\<lparr>fs_pending := []\<rparr>, c @ fs_pending st')"
proof -
  let ?w = "upd_open a s b1 st' c t w"
  have s: "s < next_addr w" using wf_blockD(2) [OF wf b(1)] b(2) by (auto simp: open_block_def)
  have bl: "blocks ?w = (blocks w)(a \<mapsto> b1)" and nx: "next_addr ?w = next_addr w"
    by (simp_all add: upd_open_def)
  have ob: "open_block E ?w b1" using b1 p o s by (simp add: open_block_def upd_open_def)
  show "wf_world E ?w"
    unfolding wf_world_def bl nx
  proof (intro conjI allI impI)
    fix x y assume y: "((blocks w)(a \<mapsto> b1)) x = Some y"
    show "x < next_addr w" using y wf_blockD(1) [OF wf] b(1) by (auto split: if_splits)
    show "open_block E ?w y"
      using y ob upd_open_other(1) [OF wf b p] by (cases "x = a") auto
  next
    fix x x' y y' s1
    assume y: "((blocks w)(a \<mapsto> b1)) x = Some y" "((blocks w)(a \<mapsto> b1)) x' = Some y'"
      and d: "driver_private_data y = Some s1" "driver_private_data y' \<noteq> None" "x \<noteq> x'"
    obtain y0 y0' where y0: "blocks w x = Some y0" "driver_private_data y0 = driver_private_data y" "vfs_path y0 = vfs_path y"
      "blocks w x' = Some y0'" "driver_private_data y0' = driver_private_data y'" "vfs_path y0' = vfs_path y'"
      using y b b1 by (auto split: if_splits)
    show "driver_private_data y' \<noteq> Some s1" "vfs_path y' \<noteq> vfs_path y"
      using wf_distinct [OF wf y0(1) y0(4)] y0 d by auto
  qed
  show "touches E a (vfs_path b) w ?w"
    unfolding touches_def
  proof (intro conjI allI impI)
    fix a' assume a': "a' \<noteq> a"
    then show "blocks ?w a' = blocks w a'" by (simp add: bl)
    show "bview ?w a' = bview w a'"
    proof (cases "blocks w a'")
      case None
      then show ?thesis using a' by (simp add: bview_def bl)
    next
      case (Some y)
      then show ?thesis by (rule upd_open_other(2) [OF wf b p _ a'])
    qed
  qed (use t p in \<open>auto simp: upd_open_def\<close>)
  show "bview ?w a = Some (b1, st'\<lparr>fs_pending := []\<rparr>, c @ fs_pending st')"
    using b1 by (simp add: bview_def upd_open_def file_bytes_def)
qed

section \<open>The driver on a calm system\<close>

lemma calmD: "calm E \<Longrightarrow> env_os E n" "calm E \<Longrightarrow> snd (env_io E n)"
  by (simp_all add: calm_def)

lemma calm_io:
  assumes "calm E"
  obtains k where "env_io E n = (k, True)"
  using calmD(2) [OF assms, of n] by (cases "env_io E n") auto

lemma viewE:
  assumes wf: "wf_world E w" and v: "bview w a = Some (b, st, c)"
  obtains s pend c0 where "blocks w a = Some b" "driver_private_data b = Some s" "c = c0 @ pend"
    "streams w s = Some (st\<lparr>fs_pending := pend\<rparr>)" "files w (fs_path st) = Some c0" "fs_pending st = []"
    "fs_path st = getAbsolutePath E (vfs_path b)" "fs_out st \<or> pend = []"
proof -
  from v obtain s pend where s: "blocks w a = Some b" "driver_private_data b = Some s"
    "streams w s = Some (st\<lparr>fs_pending := pend\<rparr>)" "c = file_bytes (fs_path st) w @ pend" "fs_pending st = []"
    by (rule bviewE)
  from wf_blockD(2) [OF wf s(1)] s(2) show thesis
    by (rule open_blockD) (use s that in \<open>auto simp: file_bytes_def split: option.splits\<close>)
qed

lemma hand_over_upd:
  assumes b: "blocks w a = Some b" "driver_private_data b = Some s"
    and f: "files w (fs_path st) = Some c0"
  shows "hand_over (Some s) st buf n ok w =
     Ret ((), upd_open a s b (st\<lparr>fs_pending := drop n buf, fs_pos := length c0 + length buf, fs_bad := fs_bad st \<or> \<not> ok\<rparr>)
                (c0 @ take n buf) (ticks w) w)"
  using b f by (simp add: hand_over_def act_simps set_stream_def append_file_def file_bytes_def upd_open_def fun_upd_idem)

text \<open>
  A stream of the block \<open>a\<close> takes \<open>buf\<close> for its buffer and hands some of it over: the block holds the
  file as it was followed by \<open>buf\<close>.
\<close>

lemma buffer_moves:
  fixes base :: "u8 list" and k q :: nat
  assumes wf: "wf_world E w" and b: "blocks w a = Some b" "driver_private_data b = Some s"
    and st: "fs_path st = getAbsolutePath E (vfs_path b)" "fs_pending st = []" "stream_good st"
      "fs_out st \<or> buf = []"
    and b1: "driver_private_data b1 = Some s" "vfs_path b1 = vfs_path b" and t: "ticks w \<le> t"
  defines "w1 \<equiv> upd_open a s b1 (st\<lparr>fs_pending := drop k buf, fs_pos := q, fs_bad := False\<rparr>) (base @ take k buf) t w"
  shows "wf_world E w1" "touches E a (vfs_path b) w w1" "bview w1 a = Some (b1, st\<lparr>fs_pos := q\<rparr>, base @ buf)"
    "blocks w1 = (blocks w)(a \<mapsto> b1)" "files w1 (getAbsolutePath E (vfs_path b)) = Some (base @ take k buf)"
proof -
  note u = upd_open_touches [OF wf b b1, of "st\<lparr>fs_pending := drop k buf, fs_pos := q, fs_bad := False\<rparr>" t
      "base @ take k buf"]
  from u(1,2) st t show "wf_world E w1" "touches E a (vfs_path b) w w1" by (auto simp: w1_def)
  have "st\<lparr>fs_pos := q, fs_bad := False, fs_pending := []\<rparr> = st\<lparr>fs_pos := q\<rparr>"
    using st(2,3) by (cases st) (simp add: stream_good_def)
  then show "bview w1 a = Some (b1, st\<lparr>fs_pos := q\<rparr>, base @ buf)"
    using u(3) st t by (auto simp: w1_def)
  show "blocks w1 = (blocks w)(a \<mapsto> b1)" "files w1 (getAbsolutePath E (vfs_path b)) = Some (base @ take k buf)"
    using st(1) by (simp_all add: w1_def upd_open_def)
qed

lemma psd_write_calm:
  assumes E: "calm E" and wf: "wf_world E w" and v: "bview w a = Some (b, st, c)"
    and st: "fs_out st" "stream_good st"
  obtains w' where "psd_write E (Some a) bs w = Ret (0, w')" "wf_world E w'" "touches E a (vfs_path b) w w'"
    "bview w' a = Some (b, st\<lparr>fs_pos := length c + length bs\<rparr>, c @ bs)" "blocks w' = blocks w"
proof -
  from viewE [OF wf v] obtain s pend c0 where s: "blocks w a = Some b" "driver_private_data b = Some s" "c = c0 @ pend"
    "streams w s = Some (st\<lparr>fs_pending := pend\<rparr>)" "files w (fs_path st) = Some c0" "fs_pending st = []"
    "fs_path st = getAbsolutePath E (vfs_path b)" by metis
  obtain k where k: "env_io E (ticks w) = (k, True)" by (rule calm_io [OF E])
  have bad: "fs_bad st = False" "stream_good (st\<lparr>fs_pending := pend\<rparr>)"
    using st(2) by (auto simp: stream_good_def)
  let ?w = "upd_open a s b (st\<lparr>fs_pending := drop k (pend @ bs), fs_pos := length c + length bs, fs_bad := False\<rparr>)
      (c0 @ take k (pend @ bs)) (Suc (ticks w)) w"
  have "psd_write E (Some a) bs w = Ret (0, ?w)"
    using s k st bad
    by (simp add: psd_write_def fstream_write_def act_simps abind_Ret [OF hand_over_upd [of _ a b]] upd_open_def add.assoc)
  with buffer_moves [OF wf s(1,2,7,6) st(2) _ s(2),
      where buf = "pend @ bs" and t = "Suc (ticks w)" and k = k and q = "length c + length bs" and base = c0] s st(1)
  show thesis by (intro that [of ?w]) (simp_all add: fun_upd_idem)
qed

text \<open>Closing a block gives its stream and the block back; the file holds everything written.\<close>

definition closed :: "vfs_env \<Rightarrow> nat \<Rightarrow> data_block \<Rightarrow> u8 list \<Rightarrow> 'd world \<Rightarrow> 'd world \<Rightarrow> bool" where
  "closed E a b c w w' \<longleftrightarrow>
     wf_world E w' \<and> touches E a (vfs_path b) w w' \<and> blocks w' a = None \<and>
     files w' (getAbsolutePath E (vfs_path b)) = Some c"

lemma drop_block:
  assumes wf: "wf_world E w" and b: "blocks w a = Some b" "driver_private_data b = Some s"
  shows "wf_world E (delete_block (Some a) (delete_stream (Some s) w))"
    and "touches E a path w (delete_block (Some a) (delete_stream (Some s) w))"
proof -
  let ?w = "delete_block (Some a) (delete_stream (Some s) w)"
  have d: "driver_private_data b' \<noteq> Some s" if "blocks w a' = Some b'" "a' \<noteq> a" for a' b'
    using wf_distinct(1) [OF wf b(1) that(1) b(2)] that(2) by auto
  have o: "open_block E ?w b' \<longleftrightarrow> open_block E w b'" "bview ?w a' = bview w a'"
    if b': "blocks w a' = Some b'" "a' \<noteq> a" for a' b'
  proof -
    have fb: "file_bytes q ?w = file_bytes q w" for q
      by (simp add: file_bytes_def delete_block_def delete_stream_def)
    have bl': "blocks ?w a' = Some b'" using b' by (simp add: delete_block_def delete_stream_def)
    have st': "streams ?w s' = streams w s'" if "driver_private_data b' = Some s'" for s'
      using d [OF b'] that by (auto simp: delete_block_def delete_stream_def)
    have nx: "next_addr ?w = next_addr w" "files ?w = files w" by (simp_all add: delete_block_def delete_stream_def)
    show "open_block E ?w b' \<longleftrightarrow> open_block E w b'"
      by (cases "driver_private_data b'") (simp_all add: open_block_def st' nx cong: option.case_cong)
    show "bview ?w a' = bview w a'"
      by (cases "driver_private_data b'") (simp_all add: bview_def bl' b' st' fb cong: option.case_cong)
  qed
  have bl: "blocks ?w = (blocks w)(a := None)" "next_addr ?w = next_addr w"
    by (simp_all add: delete_block_def delete_stream_def)
  show "wf_world E ?w"
    unfolding wf_world_def bl
  proof (intro conjI allI impI)
    fix x y assume "((blocks w)(a := None)) x = Some y"
    then have x: "blocks w x = Some y" "x \<noteq> a" by (auto split: if_splits)
    show "x < next_addr w" "open_block E ?w y" using wf_blockD [OF wf x(1)] o(1) [OF x] by auto
  next
    fix x x' y y' s1
    assume "((blocks w)(a := None)) x = Some y" "((blocks w)(a := None)) x' = Some y'"
      "driver_private_data y = Some s1" "driver_private_data y' \<noteq> None" "x \<noteq> x'"
    then show "driver_private_data y' \<noteq> Some s1" "vfs_path y' \<noteq> vfs_path y"
      using wf_distinct [OF wf, of x y x' y' s1] by (auto split: if_splits)
  qed
  show "touches E a path w ?w"
    unfolding touches_def
  proof (intro conjI allI impI)
    fix a' assume "a' \<noteq> a"
    then show "bview ?w a' = bview w a'"
      using o(2) [of a'] by (cases "blocks w a'") (auto simp: bview_def bl)
  qed (auto simp: delete_block_def delete_stream_def)
qed

lemma touches_trans:
  "touches E a path w w' \<Longrightarrow> touches E a path w' w'' \<Longrightarrow> touches E a path w w''"
  by (auto simp: touches_def)


lemma fstream_flush_calm:
  assumes E: "calm E" and wf: "wf_world E w" and v: "bview w a = Some (b, st, c)" and st: "stream_good st"
    and s: "driver_private_data b = Some s"
  obtains w' where "fstream_flush E (Some s) w = Ret ((), w')" "wf_world E w'" "touches E a (vfs_path b) w w'"
    "\<exists>q. bview w' a = Some (b, st\<lparr>fs_pos := q\<rparr>, c)" "files w' (getAbsolutePath E (vfs_path b)) = Some c"
proof -
  from viewE [OF wf v] s obtain pend c0 where s: "blocks w a = Some b" "driver_private_data b = Some s" "c = c0 @ pend"
    "streams w s = Some (st\<lparr>fs_pending := pend\<rparr>)" "files w (fs_path st) = Some c0" "fs_pending st = []"
    "fs_path st = getAbsolutePath E (vfs_path b)" "fs_out st \<or> pend = []" by (metis option.inject)
  have bad: "fs_bad st = False" using st by (auto simp: stream_good_def)
  show thesis
  proof (cases "fs_out st")
    case False
    then have p: "pend = []" using s by auto
    have "bview w a = Some (b, st\<lparr>fs_pos := fs_pos st\<rparr>, c)" using v by simp
    then have "\<exists>q. bview w a = Some (b, st\<lparr>fs_pos := q\<rparr>, c)" by blast
    moreover have "touches E a (vfs_path b) w w" by (simp add: touches_def)
    ultimately show thesis using False p s wf
      by (intro that [of w]) (simp_all add: fstream_flush_def act_simps)
  next
    case True
    obtain k where k: "env_io E (ticks w) = (k, True)" by (rule calm_io [OF E])
    let ?w = "upd_open a s b (st\<lparr>fs_pending := drop (length pend) pend, fs_pos := length c, fs_bad := False\<rparr>)
      (c0 @ take (length pend) pend) (Suc (ticks w)) w"
    have "fstream_flush E (Some s) w = Ret ((), ?w)"
      using s k True bad
      by (simp add: fstream_flush_def act_simps hand_over_upd [of _ a b] upd_open_def)
    with buffer_moves [OF wf s(1,2,7,6) st _ s(2), where buf = pend and t = "Suc (ticks w)" and k = "length pend"
        and q = "length c" and base = c0] s True
    show thesis by (intro that [of ?w]) (auto simp: fun_upd_idem)
  qed
qed

lemma psd_flush_calm:
  assumes E: "calm E" and wf: "wf_world E w" and v: "bview w a = Some (b, st, c)" and st: "stream_good st"
  obtains w' where "psd_flush E (Some a) w = Ret (0, w')" "wf_world E w'" "touches E a (vfs_path b) w w'"
    "\<exists>q. bview w' a = Some (b, st\<lparr>fs_pos := q\<rparr>, c)" "files w' (getAbsolutePath E (vfs_path b)) = Some c"
proof -
  from viewE [OF wf v] obtain s where s: "blocks w a = Some b" "driver_private_data b = Some s" by metis
  from fstream_flush_calm [OF E wf v st s(2)] obtain w' where w': "fstream_flush E (Some s) w = Ret ((), w')"
    "wf_world E w'" "touches E a (vfs_path b) w w'" "\<exists>q. bview w' a = Some (b, st\<lparr>fs_pos := q\<rparr>, c)"
    "files w' (getAbsolutePath E (vfs_path b)) = Some c" by metis
  from w'(4) obtain q where q: "bview w' a = Some (b, st\<lparr>fs_pos := q\<rparr>, c)" ..
  from viewE [OF w'(2) q] s(2) obtain pend where "streams w' s = Some (st\<lparr>fs_pos := q, fs_pending := pend\<rparr>)"
    by (metis option.inject)
  moreover have "\<not> fs_bad st" using st by (simp add: stream_good_def)
  ultimately have "psd_flush E (Some a) w = Ret (0, w')"
    using s by (simp add: psd_flush_def act_simps w'(1))
  then show thesis using that [of w'] w' by simp
qed

lemma psd_closeBlock_calm:
  assumes E: "calm E" and wf: "wf_world E w" and v: "bview w a = Some (b, st, c)" and st: "stream_good st"
  obtains w' where "psd_closeBlock E (Some a) w = Ret (0, w')" "closed E a b c w w'"
proof -
  from viewE [OF wf v] obtain s where s: "blocks w a = Some b" "driver_private_data b = Some s" by metis
  from fstream_flush_calm [OF E wf v st s(2)] obtain w1 where w1: "fstream_flush E (Some s) w = Ret ((), w1)"
    "wf_world E w1" "touches E a (vfs_path b) w w1" "\<exists>q. bview w1 a = Some (b, st\<lparr>fs_pos := q\<rparr>, c)"
    "files w1 (getAbsolutePath E (vfs_path b)) = Some c" by metis
  from w1(4) obtain q where q: "bview w1 a = Some (b, st\<lparr>fs_pos := q\<rparr>, c)" ..
  have good: "stream_good (st\<lparr>fs_pos := q\<rparr>)" using st by (simp add: stream_good_def)
  from fstream_flush_calm [OF E w1(2) q good s(2)] obtain w2 where w2: "fstream_flush E (Some s) w1 = Ret ((), w2)"
    "wf_world E w2" "touches E a (vfs_path b) w1 w2" "\<exists>q. bview w2 a = Some (b, st\<lparr>fs_pos := q\<rparr>, c)"
    "files w2 (getAbsolutePath E (vfs_path b)) = Some c" by auto
  from viewE [OF w1(2) q] s(2) obtain pend where "streams w1 s = Some (st\<lparr>fs_pos := q, fs_pending := pend\<rparr>)"
    by (metis option.inject)
  moreover have "\<not> fs_bad st" using st by (simp add: stream_good_def)
  ultimately have cl: "fstream_close E (Some s) w1 = fstream_flush E (Some s) w1"
    by (cases "fs_out st") (simp_all add: fstream_close_def fstream_flush_def act_simps)
  have s2: "blocks w2 a = Some b" using w2(4) by (auto elim: bviewE)
  let ?w = "delete_block (Some a) (delete_stream (Some s) w2)"
  have "psd_closeBlock E (Some a) w = Ret (0, ?w)"
    using s w2(1) cl by (simp add: psd_closeBlock_def act_simps w1(1) Let_def)
  moreover note d = drop_block(1) [OF w2(2) s2 s(2)] drop_block(2) [OF w2(2) s2 s(2), where path = "vfs_path b"]
  moreover have "touches E a (vfs_path b) w ?w" using w1(3) w2(3) d(2) by (blast intro: touches_trans)
  ultimately show thesis using w2(5) by (intro that [of ?w]) (auto simp: closed_def delete_block_def delete_stream_def)
qed

text \<open>
  Reading within the file delivers the next bytes; reading beyond its end delivers the rest, reports
  nothing read and leaves the stream unusable.
\<close>

lemma psd_read_calm:
  assumes E: "calm E" and wf: "wf_world E w" and v: "bview w a = Some (b, st, c)"
    and st: "fs_in st" "\<not> fs_out st" "stream_good st" "fs_pos st \<le> length c"
  obtains w' where "wf_world E w'" "touches E a (vfs_path b) w w'" "blocks w' = blocks w"
    "if fs_pos st + n \<le> length c
     then psd_read E (Some a) n w = Ret ((0, of_nat n, take n (drop (fs_pos st) c)), w') \<and>
          bview w' a = Some (b, st\<lparr>fs_pos := fs_pos st + n\<rparr>, c)
     else psd_read E (Some a) n w = Ret ((- 1, 0, drop (fs_pos st) c), w') \<and>
          (\<exists>st'. bview w' a = Some (b, st', c) \<and> fs_bad st')"
proof -
  from viewE [OF wf v] st(2) obtain s where s: "blocks w a = Some b" "driver_private_data b = Some s"
    "streams w s = Some st" "files w (fs_path st) = Some c" "fs_path st = getAbsolutePath E (vfs_path b)" "fs_pending st = []"
    by (metis append_Nil2 fstream.surjective fstream.update_convs(5))
  obtain k where k: "env_io E (ticks w) = (k, True)" by (rule calm_io [OF E])
  let ?got = "take n (drop (fs_pos st) c)"
  let ?st = "st\<lparr>fs_pos := fs_pos st + length ?got, fs_eof := length ?got < n, fs_bad := length ?got < n\<rparr>"
  let ?w = "upd_open a s b ?st c (Suc (ticks w)) w"
  have w: "psd_read E (Some a) n w =
      Ret (if length ?got < n then (- 1, 0, ?got) else (0, of_nat (length ?got), ?got), ?w)"
    using s k st
    by (simp add: psd_read_def fstream_read_def act_simps set_stream_def file_bytes_def upd_open_def fun_upd_idem
        stream_good_def Let_def)
  have st_eq: "?st\<lparr>fs_pending := []\<rparr> = (if length ?got < n then ?st else st\<lparr>fs_pos := fs_pos st + length ?got\<rparr>)"
    using st(3) s(6) by (cases st) (simp add: stream_good_def)
  note u = upd_open_touches [OF wf s(1,2,2) _ _ _ , of ?st "Suc (ticks w)" c]
  have v': "bview ?w a = Some (b, if length ?got < n then ?st else st\<lparr>fs_pos := fs_pos st + length ?got\<rparr>, c)"
    using u(3) s(5,6) st_eq by simp
  show thesis
  proof (rule that [of ?w])
    show "wf_world E ?w" "touches E a (vfs_path b) w ?w" using u s by simp_all
    show "blocks ?w = blocks w" using s by (simp add: upd_open_def fun_upd_idem)
    show "if fs_pos st + n \<le> length c
       then psd_read E (Some a) n w = Ret ((0, of_nat n, ?got), ?w) \<and> bview ?w a = Some (b, st\<lparr>fs_pos := fs_pos st + n\<rparr>, c)
       else psd_read E (Some a) n w = Ret ((- 1, 0, drop (fs_pos st) c), ?w) \<and> (\<exists>st'. bview ?w a = Some (b, st', c) \<and> fs_bad st')"
    proof (cases "fs_pos st + n \<le> length c")
      case True
      then have "length ?got = n" by simp
      then show ?thesis using True w v' by simp
    next
      case False
      then have "length ?got < n" "?got = drop (fs_pos st) c" using st(4) by auto
      then show ?thesis using False w v' by auto
    qed
  qed
qed

text \<open>
  Opening: a new block with a stream of its own, on a path no open block uses.
\<close>

definition path_unused :: "'d world \<Rightarrow> string \<Rightarrow> bool" where
  "path_unused w path \<longleftrightarrow> (\<forall>a b. blocks w a = Some b \<longrightarrow> driver_private_data b \<noteq> None \<longrightarrow> vfs_path b \<noteq> path)"

lemma missing_path_unused:
  assumes wf: "wf_world E w" and m: "files w (getAbsolutePath E path) = None"
  shows "path_unused w path"
  unfolding path_unused_def
proof (intro allI impI)
  fix a b assume "blocks w a = Some b" "driver_private_data b \<noteq> None"
  with wf_blockD(2) [OF wf] obtain s where "open_block E w b" "driver_private_data b = Some s" by blast
  then show "vfs_path b \<noteq> path" using m by (auto elim: open_blockD)
qed

definition add_open :: "nat \<Rightarrow> nat \<Rightarrow> data_block \<Rightarrow> fstream \<Rightarrow> u8 list \<Rightarrow> nat \<Rightarrow> nat \<Rightarrow> 'd world \<Rightarrow> 'd world" where
  "add_open a s b st c n t w =
     w\<lparr>blocks := (blocks w)(a \<mapsto> b), streams := (streams w)(s \<mapsto> st), files := (files w)(fs_path st \<mapsto> c),
       next_addr := n, ticks := t\<rparr>"

lemma add_open_other:
  assumes wf: "wf_world E w" and u: "path_unused w path" and s: "next_addr w \<le> s" and n: "next_addr w \<le> n"
    and p: "fs_path st = getAbsolutePath E path" and b': "blocks w a' = Some b'" "a' \<noteq> a"
  shows "open_block E (add_open a s b st c n t w) b'" and "bview (add_open a s b st c n t w) a' = bview w a'"
proof -
  have o: "open_block E w b'" using wf_blockD [OF wf b'(1)] by simp
  have "open_block E (add_open a s b st c n t w) b' \<and> bview (add_open a s b st c n t w) a' = bview w a'"
  proof (cases "driver_private_data b'")
    case None
    then show ?thesis using b' by (simp add: open_block_def bview_def add_open_def)
  next
    case (Some s')
    then have d: "vfs_path b' \<noteq> path" using u b' by (auto simp: path_unused_def)
    from o Some obtain st2 where "streams w s' = Some st2" "s' < next_addr w"
        "fs_path st2 = getAbsolutePath E (vfs_path b')" "files w (getAbsolutePath E (vfs_path b')) \<noteq> None"
        "fs_out st2 \<or> fs_pending st2 = []" by (rule open_blockD)
    then show ?thesis using Some d b' p s n by (simp add: open_block_def bview_def add_open_def file_bytes_def)
  qed
  then show "open_block E (add_open a s b st c n t w) b'" "bview (add_open a s b st c n t w) a' = bview w a'" by auto
qed

lemma add_open_opens:
  assumes wf: "wf_world E w" and u: "path_unused w path"
    and s: "next_addr w \<le> s" "s < n" and a: "a < n" "\<forall>b. blocks w a = Some b \<longrightarrow> driver_private_data b = None"
    and n: "next_addr w \<le> n" and t: "ticks w \<le> t"
    and b: "driver_private_data b = Some s" "vfs_path b = path"
    and st: "fs_path st = getAbsolutePath E path" "fs_pending st = []"
  shows "wf_world E (add_open a s b st c n t w)"
    and "touches E a path w (add_open a s b st c n t w)"
    and "bview (add_open a s b st c n t w) a = Some (b, st, c)"
proof -
  let ?w = "add_open a s b st c n t w"
  have bl: "blocks ?w = (blocks w)(a \<mapsto> b)" and nx: "next_addr ?w = n" by (simp_all add: add_open_def)
  have ob: "open_block E ?w b" using b st s by (simp add: open_block_def add_open_def)
  have old: "driver_private_data y \<noteq> Some s \<and> vfs_path y \<noteq> path"
    if "blocks w x = Some y" "driver_private_data y \<noteq> None" for x y
    using that u s wf_blockD(2) [OF wf that(1)] by (auto simp: path_unused_def open_block_def)
  show "wf_world E ?w"
    unfolding wf_world_def bl nx
  proof (intro conjI allI impI)
    fix x y assume y: "((blocks w)(a \<mapsto> b)) x = Some y"
    show "x < n" using y a(1) n wf_blockD(1) [OF wf, of x y] by (cases "x = a") auto
    show "open_block E ?w y" using y ob add_open_other(1) [OF wf u s(1) n st(1)] by (cases "x = a") auto
  next
    fix x x' y y' s1
    assume y: "((blocks w)(a \<mapsto> b)) x = Some y" "((blocks w)(a \<mapsto> b)) x' = Some y'"
      and d: "driver_private_data y = Some s1" "driver_private_data y' \<noteq> None" "x \<noteq> x'"
    have dd: "driver_private_data y \<noteq> None" using d(1) by simp
    have "driver_private_data y' \<noteq> Some s1 \<and> vfs_path y' \<noteq> vfs_path y"
    proof (cases "x = a")
      case True
      then have e: "y = b" "blocks w x' = Some y'" using y d(3) by auto
      then show ?thesis using old [OF e(2) d(2)] b d(1) by auto
    next
      case False
      then have e: "blocks w x = Some y" using y by auto
      show ?thesis
      proof (cases "x' = a")
        case True
        then have "y' = b" using y by auto
        then show ?thesis using old [OF e dd] b d(1) by auto
      next
        case False
        then have e': "blocks w x' = Some y'" using y by auto
        obtain s2 where "driver_private_data y' = Some s2" using d(2) by auto
        with wf_distinct [OF wf e e' d(1)] d(3) show ?thesis by auto
      qed
    qed
    then show "driver_private_data y' \<noteq> Some s1" "vfs_path y' \<noteq> vfs_path y" by auto
  qed
  show "touches E a path w ?w"
    unfolding touches_def
  proof (intro conjI allI impI)
    fix a' assume a': "a' \<noteq> a"
    then show "blocks ?w a' = blocks w a'" by (simp add: bl)
    show "bview ?w a' = bview w a'"
    proof (cases "blocks w a'")
      case None
      then show ?thesis using a' by (simp add: bview_def bl)
    next
      case (Some y)
      then show ?thesis by (rule add_open_other(2) [OF wf u s(1) n st(1) _ a'])
    qed
  qed (use t st n in \<open>auto simp: add_open_def\<close>)
  have "st\<lparr>fs_pending := []\<rparr> = st" using st(2) by (cases st) simp
  then show "bview ?w a = Some (b, st, c)" using b st by (simp add: bview_def add_open_def file_bytes_def)
qed

lemma new_stream_fresh:
  "new_stream st w = Ret (next_addr w, w\<lparr>streams := (streams w)(next_addr w \<mapsto> st), next_addr := Suc (next_addr w)\<rparr>)"
  by (simp add: new_stream_def)

lemma new_block_fresh:
  "new_block b w = Ret (next_addr w, w\<lparr>blocks := (blocks w)(next_addr w \<mapsto> b), next_addr := Suc (next_addr w)\<rparr>)"
  by (simp add: new_block_def)

lemma fresh_block: "wf_world E w \<Longrightarrow> next_addr w \<le> a \<Longrightarrow> blocks w a = None"
  using wf_blockD(1) [of E w a] by (cases "blocks w a") auto

lemma psd_openBlockPath_calm:
  assumes E: "calm E" and wf: "wf_world E w" and d: "getAbsolutePath E path \<notin> set (dirs w)"
    and u: "path_unused w path"
  obtains a b st w' where "psd_openBlockPath E path BlockFlagWriteble w = Ret ((0, Some a), w')" "wf_world E w'"
    "touches E a path w w'" "blocks w a = None"
    "bview w' a = Some (b, st, file_bytes (getAbsolutePath E path) w)"
    "vfs_path b = path" "current_work_position b = 0" "fs_out st" "stream_good st" "next_addr w \<le> a"
proof -
  let ?p = "getAbsolutePath E path" and ?s = "next_addr w" and ?a = "Suc (next_addr w)"
  let ?c = "file_bytes ?p w"
  let ?st = "\<lparr>fs_path = ?p, fs_in = False, fs_out = True, fs_pos = 0, fs_pending = [], fs_bad = False, fs_eof = False\<rparr>"
  let ?b = "new_DataBlock\<lparr>vfs_path := path, vfs_domain := domain_name E, driver_private_data := Some ?s,
      blk_flags := 1, max_reacheable_size := of_nat (length ?c), creation_time := env_now E (ticks w + 3)\<rparr>"
  let ?w = "add_open ?a ?s ?b ?st ?c (Suc ?a) (ticks w + 4) w"
  have "psd_openBlockPath E path BlockFlagWriteble w = Ret ((0, Some ?a), ?w)"
    using d calmD(1) [OF E]
    by (cases "files w ?p")
      (simp_all add: psd_openBlockPath_def open_fstream_def Let_def act_simps new_stream_fresh new_block_fresh
        flag_writeable_def flag_readable_def BlockFlagWriteble_def file_bytes_def add_open_def eval_nat_numeral fun_upd_idem)
  moreover have "blocks w ?a = None" by (rule fresh_block [OF wf]) simp
  moreover note add_open_opens [OF wf u, of ?s "Suc ?a" ?a "ticks w + 4" ?b ?st ?c]
  ultimately show thesis using wf by (intro that [of ?a ?w ?b ?st]) (simp_all add: new_DataBlock_def stream_good_def)
qed

lemma psd_openBlock_calm:
  assumes E: "calm E" and wf: "wf_world E w" and d: "getAbsolutePath E (vfs_path b) \<notin> set (dirs w)"
    and u: "path_unused w (vfs_path b)" and b: "blocks w a = Some b" "driver_private_data b = None"
    and c: "files w (getAbsolutePath E (vfs_path b)) = Some c"
  obtains b' st w' where "psd_openBlock E (Some a) BlockFlagReadeable w = Ret (0, w')" "wf_world E w'"
    "touches E a (vfs_path b) w w'" "bview w' a = Some (b', st, c)"
    "vfs_path b' = vfs_path b" "current_work_position b' = current_work_position b"
    "max_reacheable_size b' = of_nat (length c)" "creation_time b' = creation_time b"
    "fs_in st" "\<not> fs_out st" "fs_pos st = 0" "stream_good st" "files w' = files w"
proof -
  let ?p = "getAbsolutePath E (vfs_path b)" and ?s = "next_addr w"
  let ?st = "\<lparr>fs_path = ?p, fs_in = True, fs_out = False, fs_pos = 0, fs_pending = [], fs_bad = False, fs_eof = False\<rparr>"
  let ?b = "b\<lparr>max_reacheable_size := of_nat (length c), vfs_domain := domain_name E, driver_private_data := Some ?s\<rparr>"
  let ?w = "add_open a ?s ?b ?st c (Suc ?s) (ticks w + 3) w"
  have "psd_openBlock E (Some a) BlockFlagReadeable w = Ret (0, ?w)"
    using d b c calmD(1) [OF E]
    by (simp add: psd_openBlock_def open_fstream_def Let_def act_simps new_stream_fresh set_block_def
        flag_writeable_def flag_readable_def BlockFlagReadeable_def add_open_def eval_nat_numeral fun_upd_idem)
  moreover have "a < Suc ?s" using wf_blockD(1) [OF wf b(1)] by simp
  moreover note add_open_opens [OF wf u, of ?s "Suc ?s" a "ticks w + 3" ?b ?st c]
  moreover have "files ?w = files w" using c by (simp add: add_open_def fun_upd_idem)
  ultimately show thesis using b by (intro that [of ?w ?b ?st]) (simp_all add: stream_good_def)
qed

lemma psd_deletePath_calm:
  assumes E: "calm E" and c: "files w (getAbsolutePath E path) = Some c"
  shows "psd_deletePath E path False w =
    Ret (0, w\<lparr>files := (files w)(getAbsolutePath E path := None), dirs := removeAll (getAbsolutePath E path) (dirs w),
              ticks := Suc (ticks w)\<rparr>)"
  using c calmD(1) [OF E] by (simp add: psd_deletePath_def Let_def act_simps path_exists_def)

lemma touches_refl [simp]: "touches E a path w w"
  by (simp add: touches_def)

lemma set_block_calm:
  assumes wf: "wf_world E w" and v: "bview w a = Some (b, st, c)"
    and b1: "driver_private_data b1 = driver_private_data b" "vfs_path b1 = vfs_path b"
  shows "wf_world E (set_block (Some a) b1 w)" "touches E a (vfs_path b) w (set_block (Some a) b1 w)"
    "bview (set_block (Some a) b1 w) a = Some (b1, st, c)" "files (set_block (Some a) b1 w) = files w"
proof -
  from viewE [OF wf v] obtain s pend c0 where s: "blocks w a = Some b" "driver_private_data b = Some s" "c = c0 @ pend"
    "streams w s = Some (st\<lparr>fs_pending := pend\<rparr>)" "files w (fs_path st) = Some c0" "fs_pending st = []"
    "fs_path st = getAbsolutePath E (vfs_path b)" "fs_out st \<or> pend = []" by metis
  have w: "set_block (Some a) b1 w = upd_open a s b1 (st\<lparr>fs_pending := pend\<rparr>) c0 (ticks w) w"
    using s by (simp add: set_block_def upd_open_def fun_upd_idem)
  have "st\<lparr>fs_pending := []\<rparr> = st" using s(6) by (cases st) simp
  then show "wf_world E (set_block (Some a) b1 w)" "touches E a (vfs_path b) w (set_block (Some a) b1 w)"
    "bview (set_block (Some a) b1 w) a = Some (b1, st, c)" "files (set_block (Some a) b1 w) = files w"
    using upd_open_touches [OF wf s(1,2), of b1 "st\<lparr>fs_pending := pend\<rparr>" "ticks w" c0] s b1 unfolding w
    by (simp_all add: upd_open_def fun_upd_idem)
qed

text \<open>Calls that also use the database: everything else changes at one block only.\<close>

definition touches_db :: "vfs_env \<Rightarrow> nat \<Rightarrow> string \<Rightarrow> 'd world \<Rightarrow> 'd world \<Rightarrow> bool" where
  "touches_db E a path w w' \<longleftrightarrow> touches E a path (w\<lparr>database := database w'\<rparr>) w'"

lemma touches_dbI:
  "touches E a path (w\<lparr>database := d, ticks := t\<rparr>) w' \<Longrightarrow> ticks w \<le> t \<Longrightarrow> touches_db E a path w w'"
  by (auto simp: touches_db_def touches_def)

lemma touches_imp_db: "touches E a path w w' \<Longrightarrow> touches_db E a path w w'"
  by (auto simp: touches_db_def touches_def)

lemma touches_db_trans: "touches_db E a path w w' \<Longrightarrow> touches_db E a path w' w'' \<Longrightarrow> touches_db E a path w w''"
  by (auto simp: touches_db_def touches_def)

lemma touches_dbD:
  assumes "touches_db E a path w w'"
  shows "a' \<noteq> a \<Longrightarrow> bview w' a' = bview w a'" "a' \<noteq> a \<Longrightarrow> blocks w' a' = blocks w a'"
    "q \<noteq> getAbsolutePath E path \<Longrightarrow> files w' q = files w q"
    "dirs w' = dirs w" "ticks w \<le> ticks w'" "next_addr w \<le> next_addr w'"
  using assms by (auto simp: touches_db_def touches_def)

text \<open>Worlds that differ in the clock and the database only.\<close>

definition same_store :: "'d world \<Rightarrow> 'd world \<Rightarrow> bool" where
  "same_store w w0 \<longleftrightarrow>
     files w0 = files w \<and> dirs w0 = dirs w \<and> streams w0 = streams w \<and> blocks w0 = blocks w \<and>
     next_addr w0 = next_addr w \<and> ticks w \<le> ticks w0"

lemma same_store_intros:
  "same_store w w" "same_store w w0 \<Longrightarrow> same_store w (w0\<lparr>database := d\<rparr>)"
  "same_store w w0 \<Longrightarrow> same_store w (w0\<lparr>ticks := Suc (ticks w0)\<rparr>)"
  by (auto simp: same_store_def)

lemma same_storeD:
  assumes s: "same_store w w0"
  shows "bview w0 = bview w" "wf_world E w0 = wf_world E w" "blocks w0 = blocks w" "files w0 = files w"
    "dirs w0 = dirs w" "touches_db E a path w0 w' \<Longrightarrow> touches_db E a path w w'" "ticks w \<le> ticks w0"
proof -
  have b: "bview w0 = bview w" using s by (intro ext) (simp add: same_store_def bview_def file_bytes_def cong: option.case_cong)
  show "bview w0 = bview w" by (rule b)
  show "wf_world E w0 = wf_world E w" using s by (simp add: same_store_def wf_world_def open_block_def cong: option.case_cong)
  show "blocks w0 = blocks w" "files w0 = files w" "dirs w0 = dirs w" "ticks w \<le> ticks w0"
    using s by (simp_all add: same_store_def)
  show "touches_db E a path w0 w' \<Longrightarrow> touches_db E a path w w'"
    using s b by (auto simp: touches_db_def touches_def same_store_def)
qed

section \<open>Removing the file of a closed block\<close>

definition remove_file :: "vfs_env \<Rightarrow> string \<Rightarrow> 'd world \<Rightarrow> 'd world" where
  "remove_file E path w =
     w\<lparr>files := (files w)(getAbsolutePath E path := None), dirs := removeAll (getAbsolutePath E path) (dirs w),
       ticks := Suc (ticks w)\<rparr>"

lemma closed_unused:
  assumes wf: "wf_world E w" and v: "bview w a = Some (b, st, c)" and cl: "closed E a b c' w w'"
  shows "path_unused w' (vfs_path b)"
  unfolding path_unused_def
proof (intro allI impI)
  fix x y assume y: "blocks w' x = Some y" "driver_private_data y \<noteq> None"
  have x: "x \<noteq> a" using y cl by (auto simp: closed_def)
  then have x: "x \<noteq> a" "blocks w x = Some y" using y cl by (simp_all add: closed_def touches_def)
  obtain s where "blocks w a = Some b" "driver_private_data b = Some s" using v by (rule bviewE)
  with wf_distinct(2) [OF wf this(1) x(2) this(2)] y(2) x(1) show "vfs_path y \<noteq> vfs_path b" by auto
qed

lemma remove_file_views:
  assumes wf: "wf_world E w" and u: "path_unused w path"
  shows "wf_world E (remove_file E path w)" and "bview (remove_file E path w) = bview w"
    and "blocks (remove_file E path w) = blocks w"
proof -
  let ?w = "remove_file E path w"
  have bl: "blocks ?w = blocks w" "next_addr ?w = next_addr w" "streams ?w = streams w"
    by (simp_all add: remove_file_def)
  show "blocks ?w = blocks w" by (rule bl)
  have o: "open_block E ?w b" if "blocks w a = Some b" for a b
  proof (cases "driver_private_data b")
    case None
    then show ?thesis by (simp add: open_block_def)
  next
    case (Some s)
    then have "vfs_path b \<noteq> path" using u that by (auto simp: path_unused_def)
    then show ?thesis using wf_blockD(2) [OF wf that] Some
      by (auto simp: open_block_def remove_file_def split: option.splits)
  qed
  show "wf_world E ?w" using wf o unfolding wf_world_def bl by blast
  show "bview ?w = bview w"
  proof
    fix a show "bview ?w a = bview w a"
    proof (cases "bview w a")
      case None
      then show ?thesis by (auto simp: bview_def bl split: option.splits)
    next
      case (Some x)
      obtain b st c where x: "x = (b, st, c)" by (cases x)
      from Some x obtain s pend c0 where s: "blocks w a = Some b" "driver_private_data b = Some s"
        "streams w s = Some (st\<lparr>fs_pending := pend\<rparr>)" "fs_path st = getAbsolutePath E (vfs_path b)"
        "c = file_bytes (fs_path st) w @ pend" "fs_pending st = []"
        by (metis bviewE viewE wf)
      then have "vfs_path b \<noteq> path" using u by (auto simp: path_unused_def)
      moreover have "st\<lparr>fs_pending := []\<rparr> = st" using s(6) by (cases st) simp
      ultimately show ?thesis using Some x s by (simp add: bview_def bl file_bytes_def remove_file_def)
    qed
  qed
qed

end
