(* ===== verification/Vfs_Behaviour.thy ===== *)
theory Vfs_Behaviour
  imports Vfs_Data Storage_Views
begin

text \<open>
  Logical files on a system that refuses nothing. What a file needs from the index database is the
  contract \<open>block_index\<close>: registering a block leaves the part of it that belongs to the driver alone, and a
  block found again has no stream and has not been worked on.
\<close>

locale block_index =
  fixes D :: "'d db_driver"
  assumes add_keeps:
    "vfsAddNewDataBlock D info b st d = ((err, b'), d') \<Longrightarrow>
       vfs_path b' = vfs_path b \<and> driver_private_data b' = driver_private_data b \<and>
       current_work_position b' = current_work_position b \<and> max_reacheable_size b' = max_reacheable_size b \<and>
       invalidation_timestamp b' = invalidation_timestamp b"
    and find_closed:
    "vfsFindSinceTimeDataBlock D info ts dir st d = ((err, Some b), d') \<Longrightarrow>
       driver_private_data b = None \<and> current_work_position b = 0"

definition db_accepts :: "'d db_driver \<Rightarrow> bool" where
  "db_accepts D \<longleftrightarrow> (\<forall>info b st d. fst (fst (vfsAddNewDataBlock D info b st d)) = 0)"

section \<open>Blocks of a file\<close>

lemma db_call_upd: "\<exists>d. db_call f w = Ret (fst (f (database w)), w\<lparr>database := d\<rparr>)"
  by (cases "f (database w)") (auto simp: db_call_def)

lemma db_call_Ret: "f (database w) = (r, d) \<Longrightarrow> db_call f w = Ret (r, w\<lparr>database := d\<rparr>)"
  by (simp add: db_call_def)

lemma abind_db [act_simps]:
  "abind (db_call f) g w = g (fst (f (database w))) (w\<lparr>database := snd (f (database w))\<rparr>)"
  by (cases "f (database w)") (simp add: db_call_def abind_def)

lemma releaseDataBlock_calm:
  assumes E: "calm E" and wf: "wf_world E w" and v: "bview w a = Some (b, st, c)" and st: "stream_good st"
  obtains w' where "releaseDataBlock E D f (Some a) cs w = Ret (0, w')" "wf_world E w'"
    "touches_db E a (vfs_path b) w w'" "blocks w' a = None" "files w' (getAbsolutePath E (vfs_path b)) = Some c"
proof -
  have b: "blocks w a = Some b" using v by (rule bviewE)
  have "\<exists>w0. releaseDataBlock E D f (Some a) cs w = psd_closeBlock E (Some a) w0 \<and> same_store w w0"
  proof -
    have "\<exists>w0. r = psd_closeBlock E (Some a) w0 \<and> same_store w w0" if "r = psd_closeBlock E (Some a) w1" "same_store w w1" for r w1
      using that by blast
    note c = this [OF HOL.refl]
    show ?thesis using b
      by (auto simp: releaseDataBlock_def act_simps intro!: c same_store_intros)
  qed
  then obtain w0 where w0: "same_store w w0"
    and r: "releaseDataBlock E D f (Some a) cs w = psd_closeBlock E (Some a) w0" by blast
  obtain w' where w': "psd_closeBlock E (Some a) w0 = Ret (0, w')" "closed E a b c w0 w'"
    by (rule psd_closeBlock_calm [OF E, of w0 a b st c]) (use wf v st same_storeD [OF w0] in auto)
  then show thesis using r same_storeD(6) [OF w0]
    by (intro that [of w']) (auto simp: closed_def dest: touches_imp_db)
qed

text \<open>Names of new blocks: the environment never generates an identifier twice.\<close>

definition fresh_names :: "vfs_env \<Rightarrow> string \<Rightarrow> 'd world \<Rightarrow> bool" where
  "fresh_names E fpath w \<longleftrightarrow>
     (\<forall>n \<ge> ticks w. let p = getAbsolutePath E (fpath @ ''/'' @ env_uuid E n) in files w p = None \<and> p \<notin> set (dirs w))"

lemma fresh_names_mono:
  assumes "fresh_names E fpath w" and "touches_db E a path w w'"
    and "\<And>n. ticks w' \<le> n \<Longrightarrow> fpath @ ''/'' @ env_uuid E n \<noteq> path"
  shows "fresh_names E fpath w'"
  unfolding fresh_names_def Let_def
proof (intro allI impI conjI)
  fix n assume n: "ticks w' \<le> n"
  then have "ticks w \<le> n" using touches_dbD(5) [OF assms(2)] by simp
  then show "files w' (getAbsolutePath E (fpath @ ''/'' @ env_uuid E n)) = None"
    "getAbsolutePath E (fpath @ ''/'' @ env_uuid E n) \<notin> set (dirs w')"
    using assms(1) assms(3) [OF n] touches_dbD(3,4) [OF assms(2)] by (auto simp: fresh_names_def Let_def)
qed

context block_index
begin

lemma getNewDataBlock_calm:
  assumes E: "calm E" "inj (env_uuid E)" and A: "db_accepts D" and wf: "wf_world E w"
    and fresh: "fresh_names E (vfs_fpath (vfs_file_info f)) w"
  obtains a b st path w' where "getNewDataBlock E D f w = Ret ((0, Some a), w')" "wf_world E w'"
    "touches_db E a path w w'" "blocks w a = None" "bview w' a = Some (b, st, [])"
    "vfs_path b = path" "current_work_position b = 0" "fs_out st" "stream_good st"
    "path = vfs_fpath (vfs_file_info f) @ ''/'' @ env_uuid E (ticks w)"
    "files w (getAbsolutePath E path) = None" "fresh_names E (vfs_fpath (vfs_file_info f)) w'"
    "max_reacheable_size b = ucast (max_block_size (vfs_file_info f))" "next_addr w \<le> a" "ticks w < ticks w'"
proof -
  let ?info = "vfs_file_info f"
  define path where "path = vfs_fpath ?info @ ''/'' @ env_uuid E (ticks w)"
  let ?w0 = "w\<lparr>ticks := Suc (ticks w)\<rparr>"
  have m: "files w (getAbsolutePath E path) = None" "getAbsolutePath E path \<notin> set (dirs w)"
    using fresh by (auto simp: fresh_names_def Let_def path_def)
  have wf0: "wf_world E ?w0" using wf by simp
  have u: "path_unused ?w0 path" using missing_path_unused [OF wf0, of path] m by simp
  obtain a b0 st w1 where o: "psd_openBlockPath E path BlockFlagWriteble ?w0 = Ret ((0, Some a), w1)" "wf_world E w1"
    "touches E a path ?w0 w1" "blocks ?w0 a = None" "bview w1 a = Some (b0, st, file_bytes (getAbsolutePath E path) ?w0)"
    "vfs_path b0 = path" "current_work_position b0 = 0" "fs_out st" "stream_good st" "next_addr ?w0 \<le> a"
    by (rule psd_openBlockPath_calm [OF E(1) wf0 _ u]) (use m in auto)
  let ?b1 = "b0\<lparr>invalidation_timestamp := env_now E (ticks w1) + ucast (max_block_lifetime ?info),
      max_reacheable_size := ucast (max_block_size ?info)\<rparr>"
  let ?add = "vfsAddNewDataBlock D ?info ?b1 DataBlockStateAquiringData (database w1)"
  obtain b2 d where add: "?add = ((0, b2), d)"
    using A by (metis db_accepts_def prod.collapse)
  have k: "vfs_path b2 = path" "driver_private_data b2 = driver_private_data b0" "current_work_position b2 = 0"
    "max_reacheable_size b2 = ucast (max_block_size ?info)"
    using add_keeps [OF add] o(6,7) by simp_all
  let ?w2 = "w1\<lparr>ticks := Suc (ticks w1), database := d\<rparr>" and ?w3 = "set_block (Some a) b2 (w1\<lparr>ticks := Suc (ticks w1), database := d\<rparr>)"
  have b1: "blocks w1 a = Some b0" using o(5) by (rule bviewE)
  have g: "getNewDataBlock E D f w = Ret ((0, Some a), ?w3)"
    using o(1) b1 add by (simp add: getNewDataBlock_def act_simps path_def Let_def)
  have v: "bview ?w2 a = Some (b0, st, [])" "wf_world E ?w2" using o(2,5) m by (simp_all add: file_bytes_def)
  note s = set_block_calm [OF v(2,1) k(2), unfolded o(6), OF k(1)]
  have t: "touches_db E a path w ?w3"
    using o(3) s(2) by (auto simp: touches_db_def touches_def)
  have tk: "ticks w < ticks ?w3" using o(3) by (simp add: set_block_def touches_def)
  have "fresh_names E (vfs_fpath ?info) ?w3"
  proof (rule fresh_names_mono [OF fresh t])
    fix n assume "ticks ?w3 \<le> n"
    with tk show "vfs_fpath ?info @ ''/'' @ env_uuid E n \<noteq> path"
      using E(2) by (auto simp: path_def dest: injD)
  qed
  then show thesis
    using that [OF g s(1) t _ s(3) k(1,3) o(8,9) path_def] o(4,10) m k(4) tk by simp
qed

end

lemma VFSFile_write_calm:
  assumes E: "calm E" and wf: "wf_world E w" and v: "bview w a = Some (b, st, c)"
    and st: "fs_out st" "stream_good st" and f: "open_mode f = VFSFileOpenModeWrite" "current_data_block f = Some a"
  obtains st' w' where "VFSFile_write E f bs w = Ret (0, w')" "wf_world E w'" "touches E a (vfs_path b) w w'"
    "bview w' a = Some (b\<lparr>current_work_position := current_work_position b + of_nat (length bs)\<rparr>, st', c @ bs)"
    "fs_out st'" "stream_good st'"
proof -
  obtain w1 where w1: "psd_write E (Some a) bs w = Ret (0, w1)" "wf_world E w1" "touches E a (vfs_path b) w w1"
    "bview w1 a = Some (b, st\<lparr>fs_pos := length c + length bs\<rparr>, c @ bs)" "blocks w1 = blocks w"
    by (rule psd_write_calm [OF E wf v st])
  let ?b = "b\<lparr>current_work_position := current_work_position b + of_nat (length bs)\<rparr>"
  have b: "blocks w1 a = Some b" using w1(4) by (rule bviewE)
  note s = set_block_calm [OF w1(2,4), of ?b]
  have "VFSFile_write E f bs w = Ret (0, set_block (Some a) ?b w1)"
    using f b w1(1) by (simp add: VFSFile_write_def act_simps)
  then show thesis using s w1(3) st
    by (intro that [where w' = "set_block (Some a) ?b w1" and st' = "st\<lparr>fs_pos := length c + length bs\<rparr>"])
      (auto simp: stream_good_def intro: touches_trans)
qed

end
