(* ===== verification/Stage_Files.thy ===== *)
theory Stage_Files
  imports Vfs_Behaviour
begin

text \<open>
  Stage files: what producers write is kept, in order and each pack inside one block; a block that was
  written and sealed is read back byte by byte. At the edges, a block the database refuses leaves the
  writer with a pointer to a block that is gone.
\<close>

section \<open>Writing\<close>

text \<open>The history of a writer: the paths of its blocks with the packs in them, the last one open.\<close>

definition sealed :: "vfs_env \<Rightarrow> (string \<times> u8 list list) list \<Rightarrow> 'd world \<Rightarrow> bool" where
  "sealed E h w \<longleftrightarrow> (\<forall>(p, ps) \<in> set h. files w (getAbsolutePath E p) = Some (concat ps))"

definition writer_at :: "vfs_env \<Rightarrow> stage_writer \<Rightarrow> (string \<times> u8 list list) list \<Rightarrow> 'd world \<Rightarrow> bool" where
  "writer_at E f hist w \<longleftrightarrow>
     wf_world E w \<and> open_mode f = VFSFileOpenModeWrite \<and> fresh_names E (vfs_fpath (vfs_file_info f)) w \<and>
     distinct (map fst hist) \<and> (\<forall>p \<in> fst ` set hist. files w (getAbsolutePath E p) \<noteq> None) \<and>
     (case current_data_block f of
        None \<Rightarrow> hist = []
      | Some a \<Rightarrow> \<exists>b st h ps. hist = h @ [(vfs_path b, ps)] \<and> sealed E h w \<and>
          bview w a = Some (b, st, concat ps) \<and> fs_out st \<and> stream_good st)"

fun write_packs ::
  "vfs_env \<Rightarrow> 'd db_driver \<Rightarrow> stage_writer \<Rightarrow> u8 list list \<Rightarrow> (int list \<times> stage_writer, 'd) act" where
  "write_packs E D f [] = areturn ([], f)"
| "write_packs E D f (p # ps) =
     abind (stage_write E D f p) (\<lambda>(err, f1).
     abind (write_packs E D f1 ps) (\<lambda>(errs, f2). areturn (err # errs, f2)))"

lemma sealed_simps [simp]:
  "sealed E [] w" "sealed E (h @ [(p, ps)]) w \<longleftrightarrow> sealed E h w \<and> files w (getAbsolutePath E p) = Some (concat ps)"
  by (auto simp: sealed_def)

lemma sealed_touches:
  assumes "sealed E h w" and "touches_db E a path w w'" and "path \<notin> fst ` set h"
  shows "sealed E h w'"
  unfolding sealed_def
proof (rule ballI, clarify)
  fix p ps assume p: "(p, ps) \<in> set h"
  then have "p \<noteq> path" using assms(3) by force
  then show "files w' (getAbsolutePath E p) = Some (concat ps)"
    using assms(1) p touches_dbD(3) [OF assms(2), of "getAbsolutePath E p"] by (auto simp: sealed_def)
qed

lemma bview_file:
  assumes "wf_world E w" and "bview w a = Some (b, st, c)"
  shows "files w (getAbsolutePath E (vfs_path b)) \<noteq> None"
  using viewE [OF assms] by (metis option.discI)

lemma fresh_not_open:
  assumes "fresh_names E fpath w" and "wf_world E w" and "bview w a = Some (b, st, c)" and "ticks w \<le> n"
  shows "fpath @ ''/'' @ env_uuid E n \<noteq> vfs_path b"
  using assms(1,4) bview_file [OF assms(2,3)] unfolding fresh_names_def Let_def by metis

lemma VFSFile_write_writer:
  assumes E: "calm E" and wf: "wf_world E w" and f: "open_mode f = VFSFileOpenModeWrite" "current_data_block f = Some a"
    and v: "bview w a = Some (b, st, concat ps)" "fs_out st" "stream_good st"
    and fresh: "fresh_names E (vfs_fpath (vfs_file_info f)) w"
    and h: "sealed E h w" "distinct (map fst (h @ [(vfs_path b, ps)]))"
  obtains w' where "VFSFile_write E f data w = Ret (0, w')" "touches_db E a (vfs_path b) w w'"
    "writer_at E f (h @ [(vfs_path b, ps @ [data])]) w'"
proof -
  obtain st' w' where w': "VFSFile_write E f data w = Ret (0, w')" "wf_world E w'" "touches E a (vfs_path b) w w'"
    "bview w' a = Some (b\<lparr>current_work_position := current_work_position b + of_nat (length data)\<rparr>, st', concat ps @ data)"
    "fs_out st'" "stream_good st'"
    by (rule VFSFile_write_calm [OF E wf v f])
  have t: "touches_db E a (vfs_path b) w w'" using w'(3) by (rule touches_imp_db)
  have s: "sealed E h w'" by (rule sealed_touches [OF h(1) t]) (use h(2) in auto)
  have nb: "files w' (getAbsolutePath E (vfs_path b)) \<noteq> None" using bview_file [OF w'(2,4)] by simp
  have "fresh_names E (vfs_fpath (vfs_file_info f)) w'"
  proof (rule fresh_names_mono [OF fresh t])
    fix n assume "ticks w' \<le> n"
    then have "ticks w \<le> n" using touches_dbD(5) [OF t] by simp
    then show "vfs_fpath (vfs_file_info f) @ ''/'' @ env_uuid E n \<noteq> vfs_path b"
      by (rule fresh_not_open [OF fresh wf v(1)])
  qed
  then have "writer_at E f (h @ [(vfs_path b, ps @ [data])]) w'"
    unfolding writer_at_def f(2) option.case
    using w' s h(2) f(1) nb
    by (intro conjI exI [of _ "b\<lparr>current_work_position := current_work_position b + of_nat (length data)\<rparr>"] exI [of _ st']
        exI [of _ h] exI [of _ "ps @ [data]"]) (auto simp: sealed_def)
  then show thesis using that w'(1) t by blast
qed

lemma stage_valid_calm:
  assumes "current_data_block f = Some a" "bview w a = Some (b, st, c)"
  obtains v w0 where "stage_isDataBlockValid E f (Some a) w = Ret ((v, f\<lparr>check_validity_counter := check_validity_counter f + 1\<rparr>), w0)"
    "same_store w w0"
proof -
  have b: "blocks w a = Some b" using assms(2) by (rule bviewE)
  show thesis
  proof (cases "(check_validity_counter f + 1) mod 16 \<noteq> 0")
    case True
    then show thesis by (intro that [of True w]) (simp_all add: stage_isDataBlockValid_def act_simps same_store_intros)
  next
    case False
    then show thesis using b
      by (intro that [of "invalidation_timestamp b > env_now E (ticks w) \<and> current_work_position b < max_reacheable_size b" "w\<lparr>ticks := Suc (ticks w)\<rparr>"])
        (simp_all add: stage_isDataBlockValid_def isDataBlockValid_def act_simps same_store_intros)
  qed
qed

context block_index
begin

lemma new_block_writer:
  assumes E: "calm E" "inj (env_uuid E)" and A: "db_accepts D" and wf: "wf_world E w"
    and f: "open_mode f = VFSFileOpenModeWrite" and fresh: "fresh_names E (vfs_fpath (vfs_file_info f)) w"
    and h: "sealed E h w" "distinct (map fst h)"
  obtains a p w1 w' where "getNewDataBlock E D f w = Ret ((0, Some a), w1)"
    "VFSFile_write E (f\<lparr>current_data_block := Some a\<rparr>) data w1 = Ret (0, w')"
    "writer_at E (f\<lparr>current_data_block := Some a\<rparr>) (h @ [(p, [data])]) w'"
    "files w (getAbsolutePath E p) = None" "\<forall>q. q \<noteq> getAbsolutePath E p \<longrightarrow> files w' q = files w q"
    "p = vfs_fpath (vfs_file_info f) @ ''/'' @ env_uuid E (ticks w)"
proof -
  obtain a b st path w1 where n: "getNewDataBlock E D f w = Ret ((0, Some a), w1)" "wf_world E w1"
    "touches_db E a path w w1" "blocks w a = None" "bview w1 a = Some (b, st, [])"
    "vfs_path b = path" "current_work_position b = 0" "fs_out st" "stream_good st"
    "path = vfs_fpath (vfs_file_info f) @ ''/'' @ env_uuid E (ticks w)"
    "files w (getAbsolutePath E path) = None" "fresh_names E (vfs_fpath (vfs_file_info f)) w1"
    by (rule getNewDataBlock_calm [OF E A wf fresh])
  have nh: "path \<notin> fst ` set h" using h(1) n(11) by (auto simp: sealed_def)
  have s: "sealed E h w1" by (rule sealed_touches [OF h(1) n(3) nh])
  obtain w' where w': "VFSFile_write E (f\<lparr>current_data_block := Some a\<rparr>) data w1 = Ret (0, w')"
    "touches_db E a path w1 w'"
    "writer_at E (f\<lparr>current_data_block := Some a\<rparr>) (h @ [(path, [] @ [data])]) w'"
    by (rule VFSFile_write_writer [OF E(1) n(2), of "f\<lparr>current_data_block := Some a\<rparr>" a b st "[]" h data, unfolded n(6)])
      (use n f s h(2) nh in auto)
  show thesis
    using that [of a w1 w' path] n(1,10,11) w' touches_dbD(3) [OF touches_db_trans [OF n(3) w'(2)]] by simp
qed

end

definition others_kept :: "vfs_env \<Rightarrow> (string \<times> u8 list list) list \<Rightarrow> 'd world \<Rightarrow> 'd world \<Rightarrow> bool" where
  "others_kept E hist w w' \<longleftrightarrow> (\<forall>q. q \<notin> getAbsolutePath E ` fst ` set hist \<longrightarrow> files w' q = files w q)"

lemma others_kept_trans:
  assumes "others_kept E h1 w w1" "others_kept E h2 w1 w2" "fst ` set h1 \<subseteq> fst ` set h2"
  shows "others_kept E h2 w w2"
  unfolding others_kept_def
proof (intro allI impI)
  fix q assume q: "q \<notin> getAbsolutePath E ` fst ` set h2"
  moreover have "getAbsolutePath E ` fst ` set h1 \<subseteq> getAbsolutePath E ` fst ` set h2" using assms(3) by (rule image_mono)
  ultimately have "q \<notin> getAbsolutePath E ` fst ` set h1" by blast
  then show "files w2 q = files w q" using q assms(1,2) by (simp add: others_kept_def)
qed

text \<open>The blocks a history has gained since \<open>w\<close>: files of the stage file's directory that were not there.\<close>

definition new_blocks ::
  "vfs_env \<Rightarrow> string \<Rightarrow> (string \<times> u8 list list) list \<Rightarrow> (string \<times> u8 list list) list \<Rightarrow> 'd world \<Rightarrow> bool" where
  "new_blocks E dir hist hist' w \<longleftrightarrow> (\<forall>p \<in> fst ` set hist' - fst ` set hist.
     files w (getAbsolutePath E p) = None \<and> (\<exists>n. p = dir @ ''/'' @ env_uuid E n))"

lemma new_blocks_trans:
  assumes n1: "new_blocks E dir h h1 w" and n2: "new_blocks E dir h1 h2 w1"
    and k: "others_kept E h1 w w1" and i: "writer_at E f h1 w1"
  shows "new_blocks E dir h h2 w"
  unfolding new_blocks_def
proof (rule ballI, rule case_split)
  fix p assume p: "p \<in> fst ` set h2 - fst ` set h" and "p \<in> fst ` set h1"
  then have "p \<in> fst ` set h1 - fst ` set h" by simp
  then show "files w (getAbsolutePath E p) = None \<and> (\<exists>n. p = dir @ ''/'' @ env_uuid E n)"
    by (rule n1 [unfolded new_blocks_def, rule_format])
next
  fix p assume p: "p \<in> fst ` set h2 - fst ` set h" and "p \<notin> fst ` set h1"
  then have "p \<in> fst ` set h2 - fst ` set h1" by simp
  then have "files w1 (getAbsolutePath E p) = None \<and> (\<exists>n. p = dir @ ''/'' @ env_uuid E n)"
    by (rule n2 [unfolded new_blocks_def, rule_format])
  then have q: "files w1 (getAbsolutePath E p) = None" "\<exists>n. p = dir @ ''/'' @ env_uuid E n" by simp_all
  have "getAbsolutePath E p \<notin> getAbsolutePath E ` fst ` set h1"
  proof
    assume "getAbsolutePath E p \<in> getAbsolutePath E ` fst ` set h1"
    then obtain p1 where "p1 \<in> fst ` set h1" "getAbsolutePath E p = getAbsolutePath E p1" by blast
    with i have "files w1 (getAbsolutePath E p) \<noteq> None" by (auto simp: writer_at_def)
    with q(1) show False by simp
  qed
  then show "files w (getAbsolutePath E p) = None \<and> (\<exists>n. p = dir @ ''/'' @ env_uuid E n)"
    using k q by (simp add: others_kept_def)
qed

context block_index
begin

lemma stage_write_step:
  assumes E: "calm E" "inj (env_uuid E)" and A: "db_accepts D" and i: "writer_at E f hist w"
  obtains f' hist' w' where "stage_write E D f data w = Ret ((0, f'), w')" "writer_at E f' hist' w'"
    "concat (map snd hist') = concat (map snd hist) @ [data]" "fst ` set hist \<subseteq> fst ` set hist'"
    "others_kept E hist' w w'" "new_blocks E (vfs_fpath (vfs_file_info f)) hist hist' w" "vfs_file_info f' = vfs_file_info f"
proof (cases "current_data_block f")
  case None
  let ?f = "f\<lparr>check_validity_counter := check_validity_counter f + 1\<rparr>"
  have h: "hist = []" "wf_world E w" "open_mode ?f = VFSFileOpenModeWrite" "fresh_names E (vfs_fpath (vfs_file_info ?f)) w"
    using i None by (simp_all add: writer_at_def)
  obtain a p w1 w' where n: "getNewDataBlock E D ?f w = Ret ((0, Some a), w1)"
    "VFSFile_write E (?f\<lparr>current_data_block := Some a\<rparr>) data w1 = Ret (0, w')"
    "writer_at E (?f\<lparr>current_data_block := Some a\<rparr>) ([] @ [(p, [data])]) w'"
    "files w (getAbsolutePath E p) = None" "\<forall>q. q \<noteq> getAbsolutePath E p \<longrightarrow> files w' q = files w q"
    "p = vfs_fpath (vfs_file_info ?f) @ ''/'' @ env_uuid E (ticks w)"
    by (rule new_block_writer [OF E A h(2,3,4), of "[]" data]) (auto simp: sealed_def)
  then have nb: "new_blocks E (vfs_fpath (vfs_file_info f)) [] ([] @ [(p, [data])]) w" by (auto simp: new_blocks_def)
  have "stage_write E D f data w = Ret ((0, ?f\<lparr>current_data_block := Some a\<rparr>), w')"
    using None n(1,2) by (simp add: stage_write_def stage_isDataBlockValid_def releaseDataBlock_def Let_def act_simps)
  then show thesis using that [OF _ n(3)] h(1) n(5) nb by (simp add: others_kept_def)
next
  case (Some a)
  let ?f = "f\<lparr>check_validity_counter := check_validity_counter f + 1\<rparr>"
  from i Some obtain b st h ps where h: "hist = h @ [(vfs_path b, ps)]" "sealed E h w"
    "bview w a = Some (b, st, concat ps)" "fs_out st" "stream_good st" "wf_world E w" "distinct (map fst hist)"
    "open_mode f = VFSFileOpenModeWrite" "fresh_names E (vfs_fpath (vfs_file_info f)) w"
    by (auto simp: writer_at_def)
  obtain v w0 where v: "stage_isDataBlockValid E f (Some a) w = Ret ((v, ?f), w0)" and w0: "same_store w w0"
    by (rule stage_valid_calm [OF Some h(3)])
  note ss = same_storeD(1-5,7) [OF w0]
  have s0: "sealed E h w0" using h(2) ss by (simp add: sealed_def)
  have fr0: "fresh_names E (vfs_fpath (vfs_file_info f)) w0" using h(9) ss by (auto simp: fresh_names_def Let_def)
  show thesis
  proof (cases v)
    case True
    obtain w' where w': "VFSFile_write E ?f data w0 = Ret (0, w')" "touches_db E a (vfs_path b) w0 w'"
      "writer_at E ?f (h @ [(vfs_path b, ps @ [data])]) w'"
      by (rule VFSFile_write_writer [OF E(1), of w0 ?f a b st ps h data]) (use h Some ss s0 fr0 in auto)
    have "stage_write E D f data w = Ret ((0, ?f), w')"
      using Some v True w'(1) by (simp add: stage_write_def act_simps)
    then show thesis using that [OF _ w'(3)] h(1) touches_dbD(3) [OF w'(2)] ss(4)
      by (auto simp: others_kept_def new_blocks_def)
  next
    case False
    obtain w1 where r: "releaseDataBlock E D ?f (Some a) DataBlockStateNone w0 = Ret (0, w1)" "wf_world E w1"
      "touches_db E a (vfs_path b) w0 w1" "blocks w1 a = None" "files w1 (getAbsolutePath E (vfs_path b)) = Some (concat ps)"
      by (rule releaseDataBlock_calm [OF E(1), of w0 a b st "concat ps"]) (use h ss in auto)
    have nb: "vfs_path b \<notin> fst ` set h" using h(1,7) by auto
    have s1: "sealed E hist w1"
      using sealed_touches [OF s0 r(3) nb] r(5) h(1) by simp
    have fr1: "fresh_names E (vfs_fpath (vfs_file_info f)) w1"
    proof (rule fresh_names_mono [OF fr0 r(3)])
      fix n assume "ticks w1 \<le> n"
      then have "ticks w \<le> n" using touches_dbD(5) [OF r(3)] ss(6) by simp
      then show "vfs_fpath (vfs_file_info f) @ ''/'' @ env_uuid E n \<noteq> vfs_path b"
        by (rule fresh_not_open [OF h(9,6,3)])
    qed
    obtain a2 p w2 w' where n: "getNewDataBlock E D ?f w1 = Ret ((0, Some a2), w2)"
      "VFSFile_write E (?f\<lparr>current_data_block := Some a2\<rparr>) data w2 = Ret (0, w')"
      "writer_at E (?f\<lparr>current_data_block := Some a2\<rparr>) (hist @ [(p, [data])]) w'"
      "files w1 (getAbsolutePath E p) = None" "\<forall>q. q \<noteq> getAbsolutePath E p \<longrightarrow> files w' q = files w1 q"
      "p = vfs_fpath (vfs_file_info ?f) @ ''/'' @ env_uuid E (ticks w1)"
      by (rule new_block_writer [OF E A r(2), of ?f hist data]) (use h fr1 s1 in auto)
    have "getAbsolutePath E p \<noteq> getAbsolutePath E (vfs_path b)" using n(4) r(5) by auto
    then have "files w (getAbsolutePath E p) = None" using n(4) touches_dbD(3) [OF r(3)] ss(4) by simp
    then have nw: "new_blocks E (vfs_fpath (vfs_file_info f)) hist (hist @ [(p, [data])]) w"
      using n(6) by (auto simp: new_blocks_def)
    have "stage_write E D f data w = Ret ((0, ?f\<lparr>current_data_block := Some a2\<rparr>), w')"
      using Some v False r(1) n(1,2) by (simp add: stage_write_def act_simps)
    then show thesis using that [OF _ n(3)] h(1) n(5) touches_dbD(3) [OF r(3)] ss(4) nw
      by (auto simp: others_kept_def)
  qed
qed

lemma write_packs_hist:
  assumes E: "calm E" "inj (env_uuid E)" and A: "db_accepts D" and i: "writer_at E f hist w"
  shows "\<exists>f' hist' w'. write_packs E D f ps w = Ret ((replicate (length ps) 0, f'), w') \<and> writer_at E f' hist' w' \<and>
     concat (map snd hist') = concat (map snd hist) @ ps \<and> fst ` set hist \<subseteq> fst ` set hist' \<and> others_kept E hist' w w' \<and>
     new_blocks E (vfs_fpath (vfs_file_info f)) hist hist' w"
  using i
proof (induction ps arbitrary: f hist w)
  case Nil
  then show ?case by (intro exI [of _ f] exI [of _ hist] exI [of _ w]) (simp add: act_simps others_kept_def new_blocks_def)
next
  case (Cons p ps)
  obtain f1 hist1 w1 where s: "stage_write E D f p w = Ret ((0, f1), w1)" "writer_at E f1 hist1 w1"
    "concat (map snd hist1) = concat (map snd hist) @ [p]" "fst ` set hist \<subseteq> fst ` set hist1" "others_kept E hist1 w w1"
    "new_blocks E (vfs_fpath (vfs_file_info f)) hist hist1 w" "vfs_file_info f1 = vfs_file_info f"
    by (rule stage_write_step [OF E A Cons.prems])
  from Cons.IH [OF s(2)] obtain f2 hist2 w2 where r: "write_packs E D f1 ps w1 = Ret ((replicate (length ps) 0, f2), w2)"
    "writer_at E f2 hist2 w2" "concat (map snd hist2) = concat (map snd hist1) @ ps" "fst ` set hist1 \<subseteq> fst ` set hist2"
    "others_kept E hist2 w1 w2" "new_blocks E (vfs_fpath (vfs_file_info f)) hist1 hist2 w1" unfolding s(7) by blast
  have "others_kept E hist2 w w2" by (rule others_kept_trans [OF s(5) r(5,4)])
  moreover have "new_blocks E (vfs_fpath (vfs_file_info f)) hist hist2 w" by (rule new_blocks_trans [OF s(6) r(6) s(5) s(2)])
  moreover have "write_packs E D f (p # ps) w = Ret ((replicate (length (p # ps)) 0, f2), w2)"
    using s(1) r(1) by (simp add: act_simps)
  ultimately show ?case using r s(3,4) by (intro exI [of _ f2] exI [of _ hist2] exI [of _ w2]) auto
qed

lemma delete_seals:
  assumes E: "calm E" and i: "writer_at E f hist w"
  obtains w' where "delete_VFSFile E D f w = Ret ((), w')" "sealed E hist w'" "others_kept E hist w w'"
proof (cases "current_data_block f")
  case None
  then show thesis using i that [of w] by (auto simp: delete_VFSFile_def act_simps writer_at_def sealed_def others_kept_def)
next
  case (Some a)
  from i Some obtain b st h ps where h: "hist = h @ [(vfs_path b, ps)]" "sealed E h w"
    "bview w a = Some (b, st, concat ps)" "fs_out st" "stream_good st" "wf_world E w" "distinct (map fst hist)"
    by (auto simp: writer_at_def)
  obtain w1 where r: "releaseDataBlock E D f (Some a) DataBlockStateNone w = Ret (0, w1)" "wf_world E w1"
    "touches_db E a (vfs_path b) w w1" "blocks w1 a = None" "files w1 (getAbsolutePath E (vfs_path b)) = Some (concat ps)"
    by (rule releaseDataBlock_calm [OF E(1) h(6,3,5)])
  have "sealed E hist w1"
    using sealed_touches [OF h(2) r(3)] r(5) h(1,7) by simp
  moreover have "delete_VFSFile E D f w = Ret ((), w1)" using Some r(1) by (simp add: delete_VFSFile_def act_simps)
  ultimately show thesis using that touches_dbD(3) [OF r(3)] h(1) by (auto simp: others_kept_def)
qed

end

text \<open>
  C17. Packs written to a stage file, one after the other, are all accepted, and when the file is deleted
  they are on disk: each block of the file is a file of its directory that did not exist before, the
  packs the blocks hold are the packs written, in order and none cut in two, and no file that existed
  before has changed. The system refuses nothing, identifiers are
  not generated twice and the database accepts new blocks; how much of its buffer a stream hands over
  when, and when a block is found too old or too large, is arbitrary.
\<close>

theorem stage_file_keeps_packs:
  assumes "block_index D" and "db_accepts D" and "calm E" and "inj (env_uuid E)"
    and "wf_world E w" and "fresh_names E (vfs_fpath (vfs_file_info f)) w"
    and "open_mode f = VFSFileOpenModeWrite" and "current_data_block f = None"
  shows "\<exists>f' w' w'' blks. write_packs E D f packs w = Ret ((replicate (length packs) 0, f'), w') \<and>
     delete_VFSFile E D f' w' = Ret ((), w'') \<and> concat (map snd blks) = packs \<and> distinct (map fst blks) \<and>
     (\<forall>(path, ps) \<in> set blks. files w'' (getAbsolutePath E path) = Some (concat ps)
        \<and> files w (getAbsolutePath E path) = None \<and> (\<exists>n. path = vfs_fpath (vfs_file_info f) @ ''/'' @ env_uuid E n)) \<and>
     (\<forall>q. q \<notin> getAbsolutePath E ` fst ` set blks \<longrightarrow> files w'' q = files w q)"
proof -
  have i: "writer_at E f [] w" using assms by (simp add: writer_at_def)
  from block_index.write_packs_hist [OF assms(1,3,4,2) i, of packs] obtain f' hist w' where
    r: "write_packs E D f packs w = Ret ((replicate (length packs) 0, f'), w')" "writer_at E f' hist w'"
    "concat (map snd hist) = packs" "others_kept E hist w w'" "new_blocks E (vfs_fpath (vfs_file_info f)) [] hist w" by auto
  obtain w'' where d: "delete_VFSFile E D f' w' = Ret ((), w'')" "sealed E hist w''" "others_kept E hist w' w''"
    by (rule block_index.delete_seals [OF assms(1,3) r(2)])
  have "distinct (map fst hist)" using r(2) by (simp add: writer_at_def)
  moreover have "others_kept E hist w w''" by (rule others_kept_trans [OF r(4) d(3)]) simp
  moreover have "\<forall>(path, ps) \<in> set hist. files w'' (getAbsolutePath E path) = Some (concat ps)
        \<and> files w (getAbsolutePath E path) = None \<and> (\<exists>n. path = vfs_fpath (vfs_file_info f) @ ''/'' @ env_uuid E n)"
    using d(2) r(5) by (force simp: sealed_def new_blocks_def)
  ultimately show ?thesis using r(1,3) d(1,2)
    by (intro exI [of _ f'] exI [of _ w'] exI [of _ w''] exI [of _ hist]) (simp add: others_kept_def)
qed

section \<open>A block the database refuses\<close>

definition db_refuses :: "'d db_driver \<Rightarrow> bool" where
  "db_refuses D \<longleftrightarrow> (\<forall>info b st d. fst (fst (vfsAddNewDataBlock D info b st d)) \<noteq> 0)"

context block_index
begin

lemma getNewDataBlock_refused:
  assumes E: "calm E" and R: "db_refuses D" and wf: "wf_world E w"
    and fresh: "fresh_names E (vfs_fpath (vfs_file_info f)) w"
  obtains w' where "getNewDataBlock E D f w = Ret ((- 2, None), w')" "blocks w' = blocks w"
proof -
  let ?info = "vfs_file_info f"
  define path where "path = vfs_fpath ?info @ ''/'' @ env_uuid E (ticks w)"
  let ?w0 = "w\<lparr>ticks := Suc (ticks w)\<rparr>"
  have m: "files w (getAbsolutePath E path) = None" "getAbsolutePath E path \<notin> set (dirs w)"
    using fresh by (auto simp: fresh_names_def Let_def path_def)
  have wf0: "wf_world E ?w0" using wf by simp
  have u: "path_unused ?w0 path" using missing_path_unused [OF wf0, of path] m by simp
  obtain a b0 st w1 where o: "psd_openBlockPath E path BlockFlagWriteble ?w0 = Ret ((0, Some a), w1)" "wf_world E w1"
    "touches E a path ?w0 w1" "blocks ?w0 a = None" "bview w1 a = Some (b0, st, file_bytes (getAbsolutePath E path) ?w0)"
    "vfs_path b0 = path" "current_work_position b0 = 0" "fs_out st" "stream_good st"
    by (rule psd_openBlockPath_calm [OF E wf0 _ u]) (use m in auto)
  let ?b1 = "b0\<lparr>invalidation_timestamp := env_now E (ticks w1) + ucast (max_block_lifetime ?info),
      max_reacheable_size := ucast (max_block_size ?info)\<rparr>"
  obtain err b2 d where add: "vfsAddNewDataBlock D ?info ?b1 DataBlockStateAquiringData (database w1) = ((err, b2), d)" "err \<noteq> 0"
    using R by (metis db_refuses_def prod.collapse)
  have k: "vfs_path b2 = path" "driver_private_data b2 = driver_private_data b0"
    using add_keeps [OF add(1)] o(6) by simp_all
  let ?w2 = "w1\<lparr>ticks := Suc (ticks w1), database := d\<rparr>" and ?w3 = "set_block (Some a) b2 (w1\<lparr>ticks := Suc (ticks w1), database := d\<rparr>)"
  have b1: "blocks w1 a = Some b0" using o(5) by (rule bviewE)
  have v: "bview ?w2 a = Some (b0, st, [])" "wf_world E ?w2" using o(2,5) m by (simp_all add: file_bytes_def)
  note s = set_block_calm [OF v(2,1) k(2), unfolded o(6), OF k(1)]
  obtain w' where w': "psd_closeBlock E (Some a) ?w3 = Ret (0, w')" "closed E a b2 [] ?w3 w'"
    by (rule psd_closeBlock_calm [OF E s(1,3) o(9)])
  have "getNewDataBlock E D f w = Ret ((- 2, None), w')"
    using o(1) b1 add w'(1) by (simp add: getNewDataBlock_def act_simps path_def Let_def)
  moreover have "blocks w' x = blocks w x" for x
    using o(3,4) w'(2) by (cases "x = a") (simp_all add: closed_def touches_def set_block_def)
  ultimately show thesis using that by auto
qed

end

text \<open>
  A stage file has to change its block, and the database refuses the new one: the write reports the
  error, but the file still points to the block that was released, and the next write, whatever it
  writes, uses the freed block.
\<close>

theorem refused_block_leaves_dangling:
  assumes "block_index D" and "db_refuses D" and "calm E" and "wf_world E w"
    and "fresh_names E (vfs_fpath (vfs_file_info f)) w"
    and "open_mode f = VFSFileOpenModeWrite" and "current_data_block f = Some a"
    and "bview w a = Some (b, st, c)" and "stream_good st"
    and "(check_validity_counter f + 1) mod 16 = 0"
    and "invalidation_timestamp b \<le> env_now E (ticks w) \<or> max_reacheable_size b \<le> current_work_position b"
  shows "\<exists>f' w'. stage_write E D f data w = Ret ((- 2, f'), w') \<and> (\<forall>data'. stage_write E D f' data' w' = Fault)"
proof -
  let ?f = "f\<lparr>check_validity_counter := check_validity_counter f + 1\<rparr>" and ?w0 = "w\<lparr>ticks := Suc (ticks w)\<rparr>"
  have b: "blocks w a = Some b" using assms(8) by (rule bviewE)
  have v: "stage_isDataBlockValid E f (Some a) w = Ret ((False, ?f), ?w0)"
    using assms(10,11) b by (auto simp: stage_isDataBlockValid_def isDataBlockValid_def act_simps)
  obtain w1 where r: "releaseDataBlock E D ?f (Some a) DataBlockStateNone ?w0 = Ret (0, w1)" "wf_world E w1"
    "touches_db E a (vfs_path b) ?w0 w1" "blocks w1 a = None" "files w1 (getAbsolutePath E (vfs_path b)) = Some c"
    by (rule releaseDataBlock_calm [OF assms(3), of ?w0 a b st c]) (use assms in auto)
  have fr: "fresh_names E (vfs_fpath (vfs_file_info ?f)) w1"
  proof -
    have f0: "fresh_names E (vfs_fpath (vfs_file_info f)) ?w0" using assms(5) by (auto simp: fresh_names_def Let_def)
    have "vfs_fpath (vfs_file_info f) @ ''/'' @ env_uuid E n \<noteq> vfs_path b" if "ticks w1 \<le> n" for n
      using touches_dbD(5) [OF r(3)] that by (intro fresh_not_open [OF assms(5,4,8)]) simp
    then show ?thesis using fresh_names_mono [OF f0 r(3)] by simp
  qed
  obtain w' where n: "getNewDataBlock E D ?f w1 = Ret ((- 2, None), w')" "blocks w' = blocks w1"
    by (rule block_index.getNewDataBlock_refused [OF assms(1,3,2) r(2) fr])
  have "stage_write E D f data w = Ret ((- 2, ?f), w')"
    using assms(7) v r(1) n(1) by (simp add: stage_write_def act_simps)
  moreover have "stage_write E D ?f data' w' = Fault" for data'
  proof -
    have g: "blocks w' a = None" using n(2) r(4) by simp
    show ?thesis
      using assms(6,7) g
      by (cases "(check_validity_counter f + 2) mod 16 \<noteq> 0")
        (simp_all add: stage_write_def stage_isDataBlockValid_def isDataBlockValid_def VFSFile_write_def psd_write_def
          Let_def act_simps add.assoc abind_def from_map_def areturn_def)
  qed
  ultimately show ?thesis by blast
qed

end
