(* ===== verification/Stage_Reading.thy ===== *)
theory Stage_Reading
  imports Stage_Files
begin

text \<open>
  Reading a stage file back: the reader takes a block the database offers, opens a journal beside it,
  delivers the bytes of the block in order, and removes block and journal when it has reached the end.
\<close>

definition journal_at :: "vfs_env \<Rightarrow> nat \<Rightarrow> string \<Rightarrow> 'd world \<Rightarrow> bool" where
  "journal_at E j path w \<longleftrightarrow>
     (\<exists>b st c. bview w j = Some (b, st, c) \<and> vfs_path b = path \<and> fs_out st \<and> stream_good st)"

definition block_read :: "vfs_env \<Rightarrow> nat \<Rightarrow> string \<Rightarrow> u8 list \<Rightarrow> nat \<Rightarrow> 'd world \<Rightarrow> bool" where
  "block_read E a path c k w \<longleftrightarrow>
     (\<exists>b st. bview w a = Some (b, st, c) \<and> vfs_path b = path \<and> fs_in st \<and> \<not> fs_out st \<and> stream_good st \<and>
        fs_pos st = k \<and> current_work_position b = of_nat k \<and> max_reacheable_size b = of_nat (length c)) \<and>
     k \<le> length c \<and> length c < 2 ^ 31"

definition reader_at ::
  "vfs_env \<Rightarrow> stage_reader \<Rightarrow> nat \<Rightarrow> nat \<Rightarrow> string \<Rightarrow> u8 list \<Rightarrow> nat \<Rightarrow> 'd world \<Rightarrow> bool" where
  "reader_at E f a j path c k w \<longleftrightarrow>
     wf_world E w \<and> open_mode f = VFSFileOpenModeRead \<and> \<not> overlaped_block_read f \<and>
     current_data_block f = Some a \<and> current_journal_data_block f = Some j \<and> a \<noteq> j \<and>
     block_read E a path c k w \<and> journal_at E j (path @ ''.journal'') w"

lemma unat_u32_small: "n < 2 ^ 31 \<Longrightarrow> unat (of_nat n :: u32) = n"
  by (simp add: unsigned_of_nat take_bit_nat_eq_self)

lemma unat_u64_small: "n < 2 ^ 31 \<Longrightarrow> unat (of_nat n :: u64) = n"
  by (simp add: unsigned_of_nat take_bit_nat_eq_self)

lemma of_nat_u64_inj: "m < 2 ^ 31 \<Longrightarrow> n < 2 ^ 31 \<Longrightarrow> (of_nat m :: u64) = of_nat n \<longleftrightarrow> m = n"
  by (metis unat_u64_small)

lemma sint_u32_small: "n < 2 ^ 31 \<Longrightarrow> sint (of_nat n :: u32) = int n"
  by (simp add: signed_of_nat signed_take_bit_int_eq_self)

lemma ucast_u32_small: "n < 2 ^ 31 \<Longrightarrow> (ucast (of_nat n :: u32) :: u64) = of_nat n"
  by (simp add: word_unat_eq_iff unsigned_ucast_eq unat_u32_small unat_u64_small take_bit_nat_eq_self)

lemma VFSFile_read_calm:
  assumes E: "calm E" and r: "reader_at E f a j path c k w" and n: "k + n \<le> length c"
  obtains w' where "VFSFile_read E f (of_nat n) w = Ret ((int n, take n (drop k c)), w')"
    "reader_at E f a j path c (k + n) w'" "touches E a path w w'"
proof -
  from r obtain b st where b: "bview w a = Some (b, st, c)" "vfs_path b = path" "fs_in st" "\<not> fs_out st" "stream_good st"
    "fs_pos st = k" "current_work_position b = of_nat k" "max_reacheable_size b = of_nat (length c)"
    and l: "length c < 2 ^ 31" "wf_world E w"
    by (auto simp: reader_at_def block_read_def)
  have n31: "n < 2 ^ 31" using n l by simp
  obtain w1 where w1: "wf_world E w1" "touches E a path w w1" "blocks w1 = blocks w"
    "psd_read E (Some a) n w = Ret ((0, of_nat n, take n (drop k c)), w1)"
    "bview w1 a = Some (b, st\<lparr>fs_pos := k + n\<rparr>, c)"
    by (rule psd_read_calm [OF E l(2) b(1,3,4,5), of n]) (use n b(2,6) in auto)
  let ?b = "b\<lparr>current_work_position := of_nat (k + n)\<rparr>"
  have bb: "blocks w1 a = Some b" using w1(5) by (rule bviewE)
  note s = set_block_calm [OF w1(1,5), of ?b]
  let ?w = "set_block (Some a) ?b w1"
  have rd: "VFSFile_read E f (of_nat n) w = Ret ((int n, take n (drop k c)), ?w)"
    using r bb w1(4) b(7) n31
    by (simp add: VFSFile_read_def reader_at_def act_simps unat_u32_small sint_u32_small ucast_u32_small)
  have t: "touches E a path w ?w" using w1(2) s(2) b(2) by (auto intro: touches_trans)
  have "bview ?w j = bview w j" using t r by (auto simp: touches_def reader_at_def)
  then have "reader_at E f a j path c (k + n) ?w"
    using r s b n l by (auto simp: reader_at_def block_read_def journal_at_def stream_good_def)
  then show thesis using that rd t by blast
qed

lemma stage_read_calm:
  assumes E: "calm E" and r: "reader_at E f a j path c k w" and n: "k + n \<le> length c" "k < length c"
  obtains w' where "stage_read fuel E D f (of_nat n) w = Ret (Some ((int n, take n (drop k c)), f), w')"
    "reader_at E f a j path c (k + n) w'" "touches E a path w w'"
proof -
  obtain w' where w': "VFSFile_read E f (of_nat n) w = Ret ((int n, take n (drop k c)), w')"
    "reader_at E f a j path c (k + n) w'" "touches E a path w w'"
    by (rule VFSFile_read_calm [OF E r n(1)])
  from r obtain b st where b: "bview w a = Some (b, st, c)" "current_work_position b = of_nat k"
    "max_reacheable_size b = of_nat (length c)" "length c < 2 ^ 31"
    by (auto simp: reader_at_def block_read_def)
  have bb: "blocks w a = Some b" using b(1) by (rule bviewE)
  have ne: "current_work_position b \<noteq> max_reacheable_size b"
    using b(2,3,4) n(2) of_nat_u64_inj [of k "length c"] by simp
  have "stage_read fuel E D f (of_nat n) w = Ret (Some ((int n, take n (drop k c)), f), w')"
    using r bb ne w'(1)
    by (simp add: stage_read_def abind_some_def checkForBlockChange_def reader_at_def act_simps)
  then show thesis using that w' by blast
qed

lemma closeJournalDatablock_calm:
  assumes E: "calm E" and wf: "wf_world E w" and j: "journal_at E j path w"
  obtains w' where "closeJournalDatablock E (Some j) w = Ret (0, w')" "wf_world E w'" "blocks w' j = None"
    "files w' = (files w)(getAbsolutePath E path := None)" "database w' = database w"
    "\<forall>x. x \<noteq> j \<longrightarrow> bview w' x = bview w x \<and> blocks w' x = blocks w x"
    "set (dirs w') \<subseteq> set (dirs w)" "next_addr w \<le> next_addr w'" "ticks w \<le> ticks w'"
proof -
  from j obtain b st c where b: "bview w j = Some (b, st, c)" "vfs_path b = path" "fs_out st" "stream_good st"
    by (auto simp: journal_at_def)
  have bb: "blocks w j = Some b" using b(1) by (rule bviewE)
  obtain w1 where w1: "psd_closeBlock E (Some j) w = Ret (0, w1)" "closed E j b c w w1"
    by (rule psd_closeBlock_calm [OF E wf b(1,4)])
  have wf1: "wf_world E w1" "files w1 (getAbsolutePath E path) = Some c" using w1(2) b(2) by (auto simp: closed_def)
  note d = psd_deletePath_calm [OF E wf1(2), folded remove_file_def]
  have u: "path_unused w1 path" using closed_unused [OF wf b(1) w1(2)] b(2) by simp
  note r = remove_file_views [OF wf1(1) u]
  have "closeJournalDatablock E (Some j) w = Ret (0, remove_file E path w1)"
    using bb b(2) w1(1) d by (simp add: closeJournalDatablock_def act_simps)
  moreover have "files (remove_file E path w1) = (files w)(getAbsolutePath E path := None)"
    using w1(2) b(2) by (auto simp: remove_file_def closed_def touches_def fun_eq_iff)
  ultimately show thesis
    using that [of "remove_file E path w1"] r w1(2)
    by (auto simp: closed_def touches_def remove_file_def)
qed

definition delete_ok :: "'d db_driver \<Rightarrow> VFSFileInfo \<Rightarrow> bool" where
  "delete_ok D info \<longleftrightarrow> (\<forall>b d. fst (vfsDeleteDataBlock D info b d) = 0)"

lemma stage_read_end:
  assumes E: "calm E" and r: "reader_at E f a j path c (length c) w" and D: "delete_ok D (vfs_file_info f)"
  obtains w' where "stage_read fuel E D f n w = Ret (Some ((0, []), f\<lparr>current_data_block := None\<rparr>), w')" "wf_world E w'"
    "files w' = (files w)(getAbsolutePath E path := None, getAbsolutePath E (path @ ''.journal'') := None)"
    "\<forall>x. x \<noteq> a \<longrightarrow> x \<noteq> j \<longrightarrow> bview w' x = bview w x \<and> blocks w' x = blocks w x"
    "set (dirs w') \<subseteq> set (dirs w)" "next_addr w \<le> next_addr w'" "ticks w \<le> ticks w'"
proof -
  from r obtain b st where b: "bview w a = Some (b, st, c)" "vfs_path b = path" "fs_in st" "\<not> fs_out st" "stream_good st"
    "current_work_position b = max_reacheable_size b" and wf: "wf_world E w" and aj: "a \<noteq> j" "journal_at E j (path @ ''.journal'') w"
    and f: "current_data_block f = Some a" "current_journal_data_block f = Some j" "\<not> overlaped_block_read f"
    by (auto simp: reader_at_def block_read_def)
  have bb: "blocks w a = Some b" using b(1) by (rule bviewE)
  let ?w0 = "w\<lparr>database := snd (vfsSetStateOnDataBlock D (vfs_file_info f) b DataBlockStateProcessed (database w))\<rparr>"
  obtain w1 where w1: "closeJournalDatablock E (Some j) ?w0 = Ret (0, w1)" "wf_world E w1" "blocks w1 j = None"
    "files w1 = (files w)(getAbsolutePath E (path @ ''.journal'') := None)"
    "\<forall>x. x \<noteq> j \<longrightarrow> bview w1 x = bview w x \<and> blocks w1 x = blocks w x"
    "set (dirs w1) \<subseteq> set (dirs w)" "next_addr w \<le> next_addr w1" "ticks w \<le> ticks w1"
    by (rule closeJournalDatablock_calm [OF E, of ?w0 j "path @ ''.journal''"]) (use wf aj in \<open>auto simp: journal_at_def\<close>)
  let ?w1 = "w1\<lparr>database := snd (vfsDeleteDataBlock D (vfs_file_info f) b (database w1))\<rparr>"
  have v1: "bview ?w1 a = Some (b, st, c)" "wf_world E ?w1" using w1(2,5) aj(1) b(1) by auto
  obtain w2 where w2: "psd_closeBlock E (Some a) ?w1 = Ret (0, w2)" "closed E a b c ?w1 w2"
    by (rule psd_closeBlock_calm [OF E v1(2,1) b(5)])
  have wf2: "wf_world E w2" "files w2 (getAbsolutePath E path) = Some c" using w2(2) b(2) by (auto simp: closed_def)
  note d = psd_deletePath_calm [OF E wf2(2), folded remove_file_def]
  have u: "path_unused w2 path" using closed_unused [OF v1(2,1) w2(2)] b(2) by simp
  note rm = remove_file_views [OF wf2(1) u]
  let ?w = "remove_file E path w2"
  have dd: "fst (vfsDeleteDataBlock D (vfs_file_info f) b (database w1)) = 0" using D by (simp add: delete_ok_def)
  have "stage_read fuel E D f n w = Ret (Some ((0, []), f\<lparr>current_data_block := None\<rparr>), ?w)"
    using f bb b(2,6) w1(1) w2(1) d dd
    by (simp add: stage_read_def abind_some_def checkForBlockChange_def updateDataBlockState_def finish_block_def act_simps)
  moreover have "files ?w = (files w)(getAbsolutePath E path := None, getAbsolutePath E (path @ ''.journal'') := None)"
    using w2(2) w1(4) b(2) by (auto simp: remove_file_def closed_def touches_def fun_eq_iff)
  moreover have "bview ?w x = bview w x \<and> blocks ?w x = blocks w x" if "x \<noteq> a" "x \<noteq> j" for x
    using that rm(2,3) w2(2) w1(5) by (simp add: closed_def touches_def)
  moreover have "set (dirs ?w) \<subseteq> set (dirs w)" "next_addr w \<le> next_addr ?w" "ticks w \<le> ticks ?w"
    using w2(2) w1(6-8) by (auto simp: closed_def touches_def remove_file_def)
  ultimately show thesis using that rm(1) by blast
qed

section \<open>Taking a block\<close>

lemma bare_block:
  assumes wf: "wf_world E w" and b: "driver_private_data b = None"
  defines "w1 \<equiv> w\<lparr>blocks := (blocks w)(next_addr w \<mapsto> b), next_addr := Suc (next_addr w)\<rparr>"
  shows "wf_world E w1" "\<forall>x. bview w1 x = bview w x" "path_unused w1 p \<longleftrightarrow> path_unused w p"
proof -
  have nb: "blocks w (next_addr w) = None" by (rule fresh_block [OF wf]) simp
  have bl: "blocks w1 = (blocks w)(next_addr w \<mapsto> b)" "next_addr w1 = Suc (next_addr w)" by (simp_all add: w1_def)
  have o: "open_block E w1 y" if "open_block E w y" for y
    using that by (auto simp: open_block_def w1_def split: option.splits)
  have ob: "open_block E w1 b" using b by (simp add: open_block_def)
  show "wf_world E w1"
    unfolding wf_world_def bl
  proof (intro conjI allI impI)
    fix x y assume y: "((blocks w)(next_addr w \<mapsto> b)) x = Some y"
    show "x < Suc (next_addr w)" using y wf_blockD(1) [OF wf, of x y] by (cases "x = next_addr w") auto
    show "open_block E w1 y" using y ob o wf_blockD(2) [OF wf, of x y] by (cases "x = next_addr w") auto
  next
    fix x x' y y' s
    assume y: "((blocks w)(next_addr w \<mapsto> b)) x = Some y" "((blocks w)(next_addr w \<mapsto> b)) x' = Some y'"
      and d: "driver_private_data y = Some s" "driver_private_data y' \<noteq> None" "x \<noteq> x'"
    then have "x \<noteq> next_addr w" "x' \<noteq> next_addr w" using b by auto
    then show "driver_private_data y' \<noteq> Some s" "vfs_path y' \<noteq> vfs_path y"
      using y d wf_distinct [OF wf, of x y x' y' s] by auto
  qed
  show "\<forall>x. bview w1 x = bview w x"
  proof
    fix x show "bview w1 x = bview w x"
      by (cases "x = next_addr w") (simp_all add: bview_def w1_def nb b file_bytes_def cong: option.case_cong)
  qed
  show "path_unused w1 p \<longleftrightarrow> path_unused w p"
  proof
    assume u: "path_unused w1 p"
    show "path_unused w p"
      unfolding path_unused_def
    proof (intro allI impI)
      fix x y assume y: "blocks w x = Some y" "driver_private_data y \<noteq> None"
      then have "x \<noteq> next_addr w" using nb by auto
      then have "blocks w1 x = Some y" using y by (simp add: bl)
      then show "vfs_path y \<noteq> p" using u y(2) unfolding path_unused_def by blast
    qed
  qed (use b in \<open>auto simp: path_unused_def bl\<close>)
qed

definition offered :: "vfs_env \<Rightarrow> 'd db_driver \<Rightarrow> stage_reader \<Rightarrow> data_block \<Rightarrow> u8 list \<Rightarrow> 'd world \<Rightarrow> bool" where
  "offered E D f b c w \<longleftrightarrow>
     (\<exists>d1 d2. vfsFindSinceTimeDataBlock D (vfs_file_info f) (current_block_creation_ts f) True DataBlockStateNone
                (database w) = ((0, Some b), d1) \<and>
        vfsSwapStateOnDataBlock D (vfs_file_info f) b DataBlockStateNone DataBlockStateProcessing d1 = ((0, True), d2)) \<and>
     files w (getAbsolutePath E (vfs_path b)) = Some c \<and> length c < 2 ^ 31 \<and>
     getAbsolutePath E (vfs_path b) \<notin> set (dirs w) \<and> getAbsolutePath E (vfs_path b @ ''.journal'') \<notin> set (dirs w) \<and>
     path_unused w (vfs_path b) \<and> path_unused w (vfs_path b @ ''.journal'')"

context block_index
begin

lemma take_offered:
  assumes E: "calm E" and wf: "wf_world E w" and f: "open_mode f = VFSFileOpenModeRead" "\<not> overlaped_block_read f"
    and cur: "current_data_block f = None" and off: "offered E D f b c w"
  obtains f' a j w' where "getNextAvailbaleBlock (Suc (Suc fuel)) E D f w = Ret (Some (0, f'), w')"
    "reader_at E f' a j (vfs_path b) c 0 w'" "vfs_file_info f' = vfs_file_info f"
    "\<forall>q. q \<noteq> getAbsolutePath E (vfs_path b @ ''.journal'') \<longrightarrow> files w' q = files w q"
    "\<forall>x < next_addr w. bview w' x = bview w x \<and> blocks w' x = blocks w x" "next_addr w \<le> a" "next_addr w \<le> j"
    "dirs w' = dirs w" "next_addr w \<le> next_addr w'" "ticks w \<le> ticks w'"
proof -
  let ?p = "vfs_path b" and ?jp = "vfs_path b @ ''.journal''" and ?a = "next_addr w"
  from off obtain d1 d2 where
    find: "vfsFindSinceTimeDataBlock D (vfs_file_info f) (current_block_creation_ts f) True DataBlockStateNone (database w) = ((0, Some b), d1)"
    and swap: "vfsSwapStateOnDataBlock D (vfs_file_info f) b DataBlockStateNone DataBlockStateProcessing d1 = ((0, True), d2)"
    and c: "files w (getAbsolutePath E ?p) = Some c" "length c < 2 ^ 31"
    and nd: "getAbsolutePath E ?p \<notin> set (dirs w)" "getAbsolutePath E ?jp \<notin> set (dirs w)"
    and u: "path_unused w ?p" "path_unused w ?jp" by (auto simp: offered_def)
  from find_closed [OF find] have bn: "driver_private_data b = None" "current_work_position b = 0" by auto
  let ?w1 = "w\<lparr>database := d1, blocks := (blocks w)(?a \<mapsto> b), next_addr := Suc ?a\<rparr>"
  let ?w2 = "?w1\<lparr>database := d2\<rparr>"
  note bare = bare_block [OF wf bn(1)]
  have w2: "wf_world E ?w2" "blocks ?w2 ?a = Some b" "path_unused ?w2 ?p" "path_unused ?w2 ?jp"
    using bare(1) bare(3) [of ?p] bare(3) [of ?jp] u by (simp_all add: path_unused_def)
  obtain b' st w3 where o: "psd_openBlock E (Some ?a) BlockFlagReadeable ?w2 = Ret (0, w3)" "wf_world E w3"
    "touches E ?a ?p ?w2 w3" "bview w3 ?a = Some (b', st, c)" "vfs_path b' = ?p"
    "current_work_position b' = current_work_position b" "max_reacheable_size b' = of_nat (length c)"
    "creation_time b' = creation_time b" "fs_in st" "\<not> fs_out st" "fs_pos st = 0" "stream_good st" "files w3 = files w"
    by (rule psd_openBlock_calm [OF E w2(1) _ w2(3) w2(2) bn(1), of c]) (use c nd in auto)
  let ?w4 = "w3\<lparr>ticks := Suc (ticks w3)\<rparr>"
  have b3: "blocks w3 ?a = Some b'" using o(4) by (rule bviewE)
  have pr: "journalIsPresent E (Some ?a) w3 = Ret (0, ?w4)"
    using b3 o(3,5,13) c nd calmD(1) [OF E]
    by (simp add: journalIsPresent_def psd_blockIsPresent_def act_simps Let_def path_exists_def touches_def)
  have u4: "path_unused ?w4 ?jp"
    unfolding path_unused_def
  proof (intro allI impI)
    fix x y assume y: "blocks ?w4 x = Some y" "driver_private_data y \<noteq> None"
    show "vfs_path y \<noteq> ?jp"
    proof (cases "x = ?a")
      case True
      then show ?thesis using y(1) b3 o(5) by simp
    next
      case False
      then have "blocks w x = Some y" using y(1) o(3) by (simp add: touches_def)
      then show ?thesis using u(2) y(2) by (simp add: path_unused_def)
    qed
  qed
  have d4: "getAbsolutePath E ?jp \<notin> set (dirs ?w4)" using o(3) nd(2) by (simp add: touches_def)
  have wf4: "wf_world E ?w4" using o(2) by simp
  obtain j bj stj w5 where j: "psd_openBlockPath E ?jp BlockFlagWriteble ?w4 = Ret ((0, Some j), w5)" "wf_world E w5"
    "touches E j ?jp ?w4 w5" "blocks ?w4 j = None" "bview w5 j = Some (bj, stj, file_bytes (getAbsolutePath E ?jp) ?w4)"
    "vfs_path bj = ?jp" "current_work_position bj = 0" "fs_out stj" "stream_good stj" "next_addr ?w4 \<le> j"
    by (rule psd_openBlockPath_calm [OF E wf4 d4 u4])
  let ?f = "f\<lparr>current_block_creation_ts := creation_time b', current_data_block := Some ?a, current_journal_data_block := Some j\<rparr>"
  have jn: "?a < j" using j(10) o(3) by (simp add: touches_def)
  have tk: "take_found_block E D f (Some ?a) ?w1 = Ret ((0, ?f), w5)"
    using swap o(1) b3 pr j(1) o(5) by (simp add: take_found_block_def openJournalForDatablock_def act_simps Let_def)
  have "getNextAvailbaleBlock (Suc (Suc fuel)) E D f w = Ret (Some (0, ?f), w5)"
    using cur find tk by (simp add: act_simps new_block_fresh)
  moreover have "reader_at E ?f ?a j ?p c 0 w5"
    using f j jn o(4-12) c(2) bn(2) by (auto simp: reader_at_def block_read_def journal_at_def touches_def)
  moreover have "files w5 q = files w q" if "q \<noteq> getAbsolutePath E ?jp" for q
    using that j(3) o(13) by (simp add: touches_def)
  moreover have "bview w5 x = bview w x \<and> blocks w5 x = blocks w x" if "x < ?a" for x
    using that jn j(3) o(3) bare(2) by (simp add: touches_def)
  moreover have "dirs w5 = dirs w" "next_addr w \<le> next_addr w5" "ticks w \<le> ticks w5"
    using j(3) o(3) by (auto simp: touches_def)
  ultimately show thesis using that [of ?f w5 ?a j] jn by simp
qed

end

section \<open>Round trip\<close>

fun read_packs ::
  "nat \<Rightarrow> vfs_env \<Rightarrow> 'd db_driver \<Rightarrow> stage_reader \<Rightarrow> u32 list \<Rightarrow> (((int \<times> u8 list) list \<times> stage_reader) option, 'd) act" where
  "read_packs fuel E D f [] = areturn (Some ([], f))"
| "read_packs fuel E D f (n # ns) =
     abind_some (stage_read fuel E D f n) (\<lambda>(r, f1).
     abind_some (read_packs fuel E D f1 ns) (\<lambda>(rs, f2). areturn (Some (r # rs, f2))))"

lemma read_packs_calm:
  assumes E: "calm E" and D: "delete_ok D (vfs_file_info f)"
    and r: "reader_at E f a j path c k w" and c: "drop k c = concat packs" and p: "\<forall>p \<in> set packs. p \<noteq> []"
  shows "\<exists>w'. read_packs fuel E D f (map (\<lambda>p. of_nat (length p)) packs @ [n]) w =
       Ret (Some (map (\<lambda>p. (int (length p), p)) packs @ [(0, [])], f\<lparr>current_data_block := None\<rparr>), w') \<and>
     files w' = (files w)(getAbsolutePath E path := None, getAbsolutePath E (path @ ''.journal'') := None)"
  using r c p
proof (induction packs arbitrary: k w)
  case Nil
  have "k \<le> length c" using Nil.prems(1) by (simp add: reader_at_def block_read_def)
  then have k: "k = length c" using Nil.prems(2) by simp
  obtain w' where w': "stage_read fuel E D f n w = Ret (Some ((0, []), f\<lparr>current_data_block := None\<rparr>), w')"
    "files w' = (files w)(getAbsolutePath E path := None, getAbsolutePath E (path @ ''.journal'') := None)"
    by (rule stage_read_end [OF E Nil.prems(1) [unfolded k] D])
  show ?case
  proof (intro exI [of _ w'] conjI)
    show "files w' = (files w)(getAbsolutePath E path := None, getAbsolutePath E (path @ ''.journal'') := None)"
      by (rule w'(2))
  qed (use w'(1) in \<open>simp add: abind_some_def act_simps\<close>)
next
  case (Cons p ps)
  have len: "length p \<le> length (drop k c)" "take (length p) (drop k c) = p" "drop (k + length p) c = concat ps"
  proof -
    have d: "drop k c = p @ concat ps" using Cons.prems(2) by simp
    show "length p \<le> length (drop k c)" "take (length p) (drop k c) = p" unfolding d by simp_all
    have "drop (k + length p) c = drop (length p) (drop k c)" by (simp add: add.commute)
    then show "drop (k + length p) c = concat ps" unfolding d by simp
  qed
  have k: "k + length p \<le> length c" "k < length c"
    using len(1) Cons.prems(3) by (cases p; simp)+
  obtain w1 where w1: "stage_read fuel E D f (of_nat (length p)) w = Ret (Some ((int (length p), take (length p) (drop k c)), f), w1)"
    "reader_at E f a j path c (k + length p) w1" "touches E a path w w1"
    by (rule stage_read_calm [OF E Cons.prems(1) k])
  have "\<forall>p \<in> set ps. p \<noteq> []" using Cons.prems(3) by simp
  from Cons.IH [OF w1(2) len(3) this] obtain w' where w':
    "read_packs fuel E D f (map (\<lambda>p. of_nat (length p)) ps @ [n]) w1 =
       Ret (Some (map (\<lambda>p. (int (length p), p)) ps @ [(0, [])], f\<lparr>current_data_block := None\<rparr>), w')"
    "files w' = (files w1)(getAbsolutePath E path := None, getAbsolutePath E (path @ ''.journal'') := None)" by blast
  show ?case
  proof (intro exI [of _ w'] conjI)
    show "files w' = (files w)(getAbsolutePath E path := None, getAbsolutePath E (path @ ''.journal'') := None)"
      unfolding w'(2) using w1(3) by (auto simp: touches_def fun_eq_iff)
  qed (use w1(1) w'(1) len(2) in \<open>simp add: abind_some_def act_simps\<close>)
qed

context block_index
begin

lemma stage_read_first:
  assumes E: "calm E" and wf: "wf_world E w" and f: "open_mode f = VFSFileOpenModeRead" "\<not> overlaped_block_read f"
    and cur: "current_data_block f = None" and off: "offered E D f b c w" and n: "n \<le> length c"
  obtains f' a j w' where "stage_read (Suc (Suc fuel)) E D f (of_nat n) w = Ret (Some ((int n, take n c), f'), w')"
    "reader_at E f' a j (vfs_path b) c n w'" "vfs_file_info f' = vfs_file_info f"
    "\<forall>q. q \<noteq> getAbsolutePath E (vfs_path b @ ''.journal'') \<longrightarrow> q \<noteq> getAbsolutePath E (vfs_path b) \<longrightarrow> files w' q = files w q"
proof -
  obtain f' a j w1 where t: "getNextAvailbaleBlock (Suc (Suc fuel)) E D f w = Ret (Some (0, f'), w1)"
    "reader_at E f' a j (vfs_path b) c 0 w1" "vfs_file_info f' = vfs_file_info f"
    "\<forall>q. q \<noteq> getAbsolutePath E (vfs_path b @ ''.journal'') \<longrightarrow> files w1 q = files w q"
    by (rule take_offered [OF E wf f cur off])
  obtain w' where w': "VFSFile_read E f' (of_nat n) w1 = Ret ((int n, take n (drop 0 c)), w')"
    "reader_at E f' a j (vfs_path b) c (0 + n) w'" "touches E a (vfs_path b) w1 w'"
    by (rule VFSFile_read_calm [OF E t(2), of n]) (use n in auto)
  have f': "current_data_block f' = Some a" "\<not> overlaped_block_read f'" using t(2) by (auto simp: reader_at_def)
  have "stage_read (Suc (Suc fuel)) E D f (of_nat n) w = Ret (Some ((int n, take n c), f'), w')"
    using cur t(1) w'(1) f' f(2)
    by (simp add: stage_read_def abind_some_def checkForBlockChange_def act_simps del: getNextAvailbaleBlock.simps)
  then show thesis using that w'(2) t(3,4) w'(3) by (auto simp: touches_def)
qed

end

text \<open>
  C28. A sealed block of a stage file is read back as it was written: reads of the lengths of the packs
  deliver the packs one after the other; the next read, of whatever length, reports the end, and by then
  block and journal have been removed. Two rounds of the search for a block are enough.
\<close>

theorem stage_block_read_back:
  assumes "block_index D" and "calm E" and "wf_world E w" and "delete_ok D (vfs_file_info f)"
    and "open_mode f = VFSFileOpenModeRead" and "\<not> overlaped_block_read f" and "current_data_block f = None"
    and "offered E D f b (concat packs) w" and "packs \<noteq> []" and "\<forall>p \<in> set packs. p \<noteq> []"
  shows "\<exists>f' w'. read_packs 2 E D f (map (\<lambda>p. of_nat (length p)) packs @ [n]) w =
       Ret (Some (map (\<lambda>p. (int (length p), p)) packs @ [(0, [])], f'), w') \<and> current_data_block f' = None \<and>
     files w' = (files w)(getAbsolutePath E (vfs_path b) := None,
                          getAbsolutePath E (vfs_path b @ ''.journal'') := None)"
proof -
  from assms(9) obtain p ps where p: "packs = p # ps" by (cases packs) auto
  obtain f' a j w1 where r: "stage_read 2 E D f (of_nat (length p)) w = Ret (Some ((int (length p), take (length p) (concat packs)), f'), w1)"
    "reader_at E f' a j (vfs_path b) (concat packs) (length p) w1" "vfs_file_info f' = vfs_file_info f"
    "\<forall>q. q \<noteq> getAbsolutePath E (vfs_path b @ ''.journal'') \<longrightarrow> q \<noteq> getAbsolutePath E (vfs_path b) \<longrightarrow> files w1 q = files w q"
    by (rule block_index.stage_read_first [OF assms(1,2,3,5,6,7,8), of "length p" 0, folded numeral_2_eq_2])
      (simp add: p)
  have "\<exists>w'. read_packs 2 E D f' (map (\<lambda>p. of_nat (length p)) ps @ [n]) w1 =
       Ret (Some (map (\<lambda>p. (int (length p), p)) ps @ [(0, [])], f'\<lparr>current_data_block := None\<rparr>), w') \<and>
     files w' = (files w1)(getAbsolutePath E (vfs_path b) := None, getAbsolutePath E (vfs_path b @ ''.journal'') := None)"
    by (rule read_packs_calm [OF assms(2) _ r(2)]) (use assms(4,10) r(3) p in auto)
  then obtain w' where w': "read_packs 2 E D f' (map (\<lambda>p. of_nat (length p)) ps @ [n]) w1 =
       Ret (Some (map (\<lambda>p. (int (length p), p)) ps @ [(0, [])], f'\<lparr>current_data_block := None\<rparr>), w')"
    "files w' = (files w1)(getAbsolutePath E (vfs_path b) := None, getAbsolutePath E (vfs_path b @ ''.journal'') := None)" by blast
  have "files w' = (files w)(getAbsolutePath E (vfs_path b) := None, getAbsolutePath E (vfs_path b @ ''.journal'') := None)"
    unfolding w'(2) using r(4) by (auto simp: fun_eq_iff)
  moreover have "read_packs 2 E D f (map (\<lambda>p. of_nat (length p)) packs @ [n]) w =
       Ret (Some (map (\<lambda>p. (int (length p), p)) packs @ [(0, [])], f'\<lparr>current_data_block := None\<rparr>), w')"
    using r(1) w'(1) p by (simp add: abind_some_def act_simps)
  moreover have "current_data_block (f'\<lparr>current_data_block := None\<rparr>) = None" by simp
  ultimately show ?thesis by blast
qed

end
