(* ===== verification/Mongo_Index.thy ===== *)
theory Mongo_Index
  imports Mongo_Driver Stage_Reading
begin

text \<open>
  What the virtual files get from the Mongo driver: the contract of the block index holds for every pool,
  since it concerns only what the driver does to the block. Which errors can come out is decided by the
  server; where the code is looser than its name says is shown at the end.
\<close>

section \<open>The contract of the block index\<close>

named_theorems db_simps
declare dreturn_def [db_simps] dthrow_def [db_simps] dbind_def [db_simps] dcatch_def [db_simps]
  dlift_def [db_simps] sbind_def [db_simps]

definition only_index :: "data_block \<Rightarrow> data_block \<Rightarrow> bool" where
  "only_index b b' \<longleftrightarrow> (\<exists>x y. b' = b\<lparr>vfs_domain := x, index_driver_uinique_id := y\<rparr>)"

lemma only_index_intros:
  "only_index b b" "only_index b (b\<lparr>vfs_domain := x\<rparr>)"
  "only_index b (b\<lparr>vfs_domain := x, index_driver_uinique_id := y\<rparr>)"
proof -
  have same: "b\<lparr>vfs_domain := vfs_domain b, index_driver_uinique_id := index_driver_uinique_id b\<rparr> = b" for b :: data_block
    by (cases b) simp
  show "only_index b b" unfolding only_index_def using same [of b] by metis
  show "only_index b (b\<lparr>vfs_domain := x\<rparr>)"
    unfolding only_index_def by (intro exI [of _ x] exI [of _ "index_driver_uinique_id b"]) (cases b, simp)
  show "only_index b (b\<lparr>vfs_domain := x, index_driver_uinique_id := y\<rparr>)" unfolding only_index_def by blast
qed

lemma insert_block_only:
  assumes "insert_block P db info b st file fpk s = ((err, b'), s')"
  shows "only_index b b'"
  using assms
  by (auto simp: insert_block_def db_simps field_OID_def Let_def only_index_intros
      split: prod.splits dbres.splits if_splits option.splits mongo_value.splits)

lemma add_block_only:
  assumes "mongo_AddNewDataBlock P db info b st s = ((err, b'), s')"
  shows "only_index b b'"
  using assms
  by (auto simp: mongo_AddNewDataBlock_def db_simps field_OID_def Let_def only_index_intros
      dest: insert_block_only split: prod.splits dbres.splits if_splits option.splits mongo_value.splits)

lemma fillDatablock_fresh:
  assumes "fillDatablock d b s = (DbOk b', s')"
  shows "driver_private_data b' = driver_private_data b" "current_work_position b' = current_work_position b"
  using assms
  by (auto simp: fillDatablock_def db_simps field_OID_def field_String_def
      split: prod.splits dbres.splits option.splits mongo_value.splits)

lemma find_block_fresh:
  assumes "mongo_FindSinceTimeDataBlock P db info ts dir st s = ((err, Some b), s')"
  shows "driver_private_data b = None" "current_work_position b = 0"
  using assms fillDatablock_fresh [of _ new_DataBlock _ b]
  by (auto simp: mongo_FindSinceTimeDataBlock_def found_block_def db_simps new_DataBlock_def
      split: prod.splits dbres.splits if_splits)

interpretation mongo: block_index "MongoDBDriver P db" for P :: "'m mongo_pool" and db :: string
proof
  fix info b st d err b' d'
  assume "vfsAddNewDataBlock (MongoDBDriver P db) info b st d = ((err, b'), d')"
  then have "only_index b b'" by (auto simp: MongoDBDriver_def dest: add_block_only)
  then show "vfs_path b' = vfs_path b \<and> driver_private_data b' = driver_private_data b \<and>
      current_work_position b' = current_work_position b \<and> max_reacheable_size b' = max_reacheable_size b \<and>
      invalidation_timestamp b' = invalidation_timestamp b"
    by (auto simp: only_index_def)
next
  fix info ts dir st d err b d'
  assume "vfsFindSinceTimeDataBlock (MongoDBDriver P db) info ts dir st d = ((err, Some b), d')"
  then show "driver_private_data b = None \<and> current_work_position b = 0"
    using find_block_fresh by (auto simp: MongoDBDriver_def)
qed


section \<open>A block for two readers\<close>

text \<open>
  A server answers every command with a document that has at least the field \<open>ok\<close>, also when
  \<open>findAndModify\<close> found nothing to modify.
\<close>

definition answers_commands :: "'m mongo_pool \<Rightarrow> bool" where
  "answers_commands P \<longleftrightarrow> (\<forall>ns c s. \<exists>r s'. mp_runCommand P ns c s = (DbOk (0, Some r), s') \<and> r \<noteq> [])"

lemma swap_succeeds:
  assumes "answers_commands P"
  obtains s' where "mongo_SwapStateOnDataBlock P db info b cur new s = ((0, True), s')"
proof -
  obtain r s' where "mp_runCommand P db (swap_command info b cur new) s = (DbOk (0, Some r), s')" "r \<noteq> []"
    using assms unfolding answers_commands_def by blast
  then show thesis using that by (simp add: mongo_SwapStateOnDataBlock_def db_simps assigned_def)
qed

lemma take_block_again:
  assumes P: "answers_commands P" and E: "calm E" and b: "blocks w a = Some b" "a < next_addr w" "vfs_path b = path"
    and p: "files w (getAbsolutePath E path) = Some c" "getAbsolutePath E path \<notin> set (dirs w)"
      "getAbsolutePath E (path @ ''.journal'') \<notin> set (dirs w)"
  obtains j f' w' where "take_found_block E (MongoDBDriver P db) f (Some a) w = Ret ((0, f'), w')"
    "current_data_block f' = Some a" "current_journal_data_block f' = Some j"
    "\<forall>x < next_addr w. x \<noteq> a \<longrightarrow> blocks w' x = blocks w x" "next_addr w \<le> next_addr w'" "dirs w' = dirs w"
    "files w' (getAbsolutePath E path) = Some c"
proof -
  let ?D = "MongoDBDriver P db" and ?jp = "path @ ''.journal''"
  obtain s' where "mongo_SwapStateOnDataBlock P db (vfs_file_info f) b 0 2 (database w) = ((0, True), s')"
    by (rule swap_succeeds [OF P])
  then have sw: "vfsSwapStateOnDataBlock ?D (vfs_file_info f) b 0 2 (database w) = ((0, True), s')"
    by (simp add: MongoDBDriver_def)
  let ?s = "next_addr w" and ?w1 = "w\<lparr>database := s'\<rparr>"
  let ?b = "b\<lparr>max_reacheable_size := of_nat (length c), vfs_domain := domain_name E, driver_private_data := Some ?s\<rparr>"
  let ?st = "\<lparr>fs_path = getAbsolutePath E path, fs_in = True, fs_out = False, fs_pos = 0, fs_pending = [], fs_bad = False, fs_eof = False\<rparr>"
  let ?w2 = "w\<lparr>streams := (streams w)(?s \<mapsto> ?st), blocks := (blocks w)(a \<mapsto> ?b), next_addr := Suc ?s,
      ticks := Suc (Suc (Suc (ticks w))), database := s'\<rparr>"
  have o: "psd_openBlock E (Some a) BlockFlagReadeable ?w1 = Ret (0, ?w2)"
    using b p calmD(1) [OF E]
    by (simp add: psd_openBlock_def open_fstream_def Let_def act_simps new_stream_fresh set_block_def
        flag_writeable_def flag_readable_def BlockFlagReadeable_def eval_nat_numeral)
  let ?w3 = "?w2\<lparr>ticks := Suc (ticks ?w2)\<rparr>"
  have pr: "journalIsPresent E (Some a) ?w2 = Ret (0, ?w3)"
    using b p calmD(1) [OF E] by (simp add: journalIsPresent_def psd_blockIsPresent_def act_simps Let_def path_exists_def)
  let ?c = "file_bytes (getAbsolutePath E ?jp) ?w3"
  have "\<exists>j w4. openJournalForDatablock E (Some a) ?w3 = Ret ((0, Some j), w4) \<and> next_addr ?w3 \<le> j \<and>
      (\<forall>x < next_addr ?w3. blocks w4 x = blocks ?w3 x) \<and> next_addr ?w3 \<le> next_addr w4 \<and> dirs w4 = dirs ?w3 \<and>
      files w4 (getAbsolutePath E path) = Some c"
    using b p calmD(1) [OF E]
    by (cases "files w (getAbsolutePath E ?jp)")
      (simp_all add: openJournalForDatablock_def psd_openBlockPath_def open_fstream_def Let_def act_simps new_stream_fresh
        new_block_fresh flag_writeable_def flag_readable_def BlockFlagWriteble_def file_bytes_def eval_nat_numeral)
  then obtain j w4 where j: "openJournalForDatablock E (Some a) ?w3 = Ret ((0, Some j), w4)"
    "\<forall>x < next_addr ?w3. blocks w4 x = blocks ?w3 x" "next_addr ?w3 \<le> next_addr w4" "dirs w4 = dirs ?w3"
    "files w4 (getAbsolutePath E path) = Some c" by blast
  let ?f = "f\<lparr>current_block_creation_ts := creation_time ?b, current_data_block := Some a, current_journal_data_block := Some j\<rparr>"
  have "take_found_block E ?D f (Some a) w = Ret ((0, ?f), w4)"
    using b sw o pr j(1) by (simp add: take_found_block_def act_simps Let_def)
  then show thesis using that [of ?f w4 j] j(2-5) by simp
qed

text \<open>
  C39. Two readers that have found the same block both take it, whatever its state in the database: the
  change of the state from free to processing reports success to each of them, and each goes on to open
  the block and its journal.
\<close>

theorem block_taken_twice:
  assumes "answers_commands P" and "calm E"
    and "blocks w a1 = Some b1" and "a1 < next_addr w" and "blocks w a2 = Some b2" and "a2 < next_addr w" and "a1 \<noteq> a2"
    and "vfs_path b1 = path" and "vfs_path b2 = path"
    and "files w (getAbsolutePath E path) = Some c" and "getAbsolutePath E path \<notin> set (dirs w)"
    and "getAbsolutePath E (path @ ''.journal'') \<notin> set (dirs w)"
  shows "\<exists>f1' w1 f2' w2. take_found_block E (MongoDBDriver P db) f1 (Some a1) w = Ret ((0, f1'), w1) \<and>
     take_found_block E (MongoDBDriver P db) f2 (Some a2) w1 = Ret ((0, f2'), w2) \<and>
     current_data_block f1' = Some a1 \<and> current_data_block f2' = Some a2 \<and>
     current_journal_data_block f1' \<noteq> None \<and> current_journal_data_block f2' \<noteq> None"
proof -
  obtain j1 f1' w1 where t1: "take_found_block E (MongoDBDriver P db) f1 (Some a1) w = Ret ((0, f1'), w1)"
    "current_data_block f1' = Some a1" "current_journal_data_block f1' = Some j1"
    "\<forall>x < next_addr w. x \<noteq> a1 \<longrightarrow> blocks w1 x = blocks w x" "next_addr w \<le> next_addr w1" "dirs w1 = dirs w"
    "files w1 (getAbsolutePath E path) = Some c"
    by (rule take_block_again [OF assms(1,2,3,4,8,10-12)])
  have b2: "blocks w1 a2 = Some b2" using t1(4) assms(5-7) by simp
  have a2: "a2 < next_addr w1" using assms(6) t1(5) by simp
  have d: "getAbsolutePath E path \<notin> set (dirs w1)" "getAbsolutePath E (path @ ''.journal'') \<notin> set (dirs w1)"
    using assms(11,12) t1(6) by simp_all
  obtain j2 f2' w2 where t2: "take_found_block E (MongoDBDriver P db) f2 (Some a2) w1 = Ret ((0, f2'), w2)"
    "current_data_block f2' = Some a2" "current_journal_data_block f2' = Some j2"
    by (rule take_block_again [OF assms(1,2) b2 a2 assms(9) t1(7) d])
  show ?thesis using t1(1-3) t2 by auto
qed

end
