(* ===== verification/Data_Files.thy ===== *)
theory Data_Files
  imports Stage_Files
begin

text \<open>
  Data files: every pack given to a data file is kept in one of its blocks, and as long as the block of
  the file stays valid the location taken before a write is where the pack is.
\<close>

section \<open>The state of a data file\<close>

definition data_file_at :: "vfs_env \<Rightarrow> vfs_file \<Rightarrow> (string \<times> u8 list list) list \<Rightarrow> 'd world \<Rightarrow> bool" where
  "data_file_at E f h w \<longleftrightarrow>
     open_mode f = VFSFileOpenModeWrite \<and> current_journal_data_block f = None \<and> distinct (map fst h) \<and>
     (case current_data_block f of
        None \<Rightarrow> sealed E h w
      | Some a \<Rightarrow> \<exists>b st h0 ps. h = h0 @ [(vfs_path b, ps)] \<and> sealed E h0 w \<and>
          bview w a = Some (b, st, concat ps) \<and> fs_out st \<and> stream_good st \<and>
          current_work_position b = of_nat (length (concat ps)))"

text \<open>
  A call on the file \<open>f\<close> leaves the blocks alone that were there before, except the one of \<open>f\<close>, and all
  files except those of the blocks in its history.
\<close>

definition apart :: "vfs_env \<Rightarrow> nat option \<Rightarrow> (string \<times> u8 list list) list \<Rightarrow> 'd world \<Rightarrow> 'd world \<Rightarrow> bool" where
  "apart E cur h w w' \<longleftrightarrow>
     (\<forall>x < next_addr w. cur \<noteq> Some x \<longrightarrow> bview w' x = bview w x \<and> blocks w' x = blocks w x) \<and>
     others_kept E h w w' \<and> dirs w' = dirs w \<and> next_addr w \<le> next_addr w' \<and> ticks w \<le> ticks w'"

lemma apart_refl [simp]: "apart E cur h w w"
  by (simp add: apart_def others_kept_def)

lemma apart_trans:
  assumes 1: "apart E cur h1 w w1" and 2: "apart E cur' h2 w1 w2"
    and c: "cur' = cur \<or> (\<exists>x. cur' = Some x \<and> next_addr w \<le> x) \<or> cur' = None"
    and h: "fst ` set h1 \<subseteq> fst ` set h2"
  shows "apart E cur h2 w w2"
proof -
  have "bview w2 x = bview w x \<and> blocks w2 x = blocks w x" if x: "x < next_addr w" "cur \<noteq> Some x" for x
  proof -
    have "x < next_addr w1" "cur' \<noteq> Some x" using 1 c x by (auto simp: apart_def)
    then show ?thesis using 1 2 x by (simp add: apart_def)
  qed
  moreover have "others_kept E h2 w w2"
    using 1 2 h by (intro others_kept_trans [of E h1 w w1 h2 w2]) (auto simp: apart_def)
  ultimately show ?thesis using 1 2 by (auto simp: apart_def)
qed

lemma apart_same_store: "same_store w w0 \<Longrightarrow> apart E cur h w w0"
  using same_storeD(1) [of w w0] by (simp add: apart_def others_kept_def same_store_def)

lemma apart_touches:
  assumes "touches_db E a path w w'" and "cur = Some a \<or> next_addr w \<le> a" and "path \<in> fst ` set h"
  shows "apart E cur h w w'"
  unfolding apart_def others_kept_def
proof (intro conjI allI impI)
  fix x assume "x < next_addr w" "cur \<noteq> Some x"
  then have "x \<noteq> a" using assms(2) by auto
  then show "bview w' x = bview w x" "blocks w' x = blocks w x" using touches_dbD [OF assms(1)] by simp_all
next
  fix q assume "q \<notin> getAbsolutePath E ` fst ` set h"
  then have "q \<noteq> getAbsolutePath E path" using assms(3) by blast
  then show "files w' q = files w q" by (rule touches_dbD(3) [OF assms(1)])
qed (use touches_dbD [OF assms(1)] in auto)

lemma data_file_at_write:
  assumes E: "calm E" and wf: "wf_world E w" and f: "open_mode f = VFSFileOpenModeWrite" "current_data_block f = Some a"
      "current_journal_data_block f = None"
    and v: "bview w a = Some (b, st, concat ps)" "fs_out st" "stream_good st"
      "current_work_position b = of_nat (length (concat ps))"
    and h: "sealed E h w" "distinct (map fst (h @ [(vfs_path b, ps)]))"
  obtains w' where "VFSFile_write E f data w = Ret (0, w')" "wf_world E w'"
    "data_file_at E f (h @ [(vfs_path b, ps @ [data])]) w'" "touches_db E a (vfs_path b) w w'"
proof -
  let ?b = "b\<lparr>current_work_position := current_work_position b + of_nat (length data)\<rparr>"
  obtain st' w' where w': "VFSFile_write E f data w = Ret (0, w')" "wf_world E w'" "touches E a (vfs_path b) w w'"
    "bview w' a = Some (?b, st', concat ps @ data)" "fs_out st'" "stream_good st'"
    by (rule VFSFile_write_calm [OF E wf v(1,2,3) f(1,2)])
  have t: "touches_db E a (vfs_path b) w w'" using w'(3) by (rule touches_imp_db)
  have s: "sealed E h w'" by (rule sealed_touches [OF h(1) t]) (use h(2) in auto)
  have "data_file_at E f (h @ [(vfs_path b, ps @ [data])]) w'"
    unfolding data_file_at_def f(2) option.case
    using w' s h(2) f v(4)
    by (intro conjI exI [of _ ?b] exI [of _ st'] exI [of _ h] exI [of _ "ps @ [data]"]) auto
  then show thesis using that w'(1,2) t by blast
qed

lemma data_release_calm:
  assumes E: "calm E" and wf: "wf_world E w" and f: "current_data_block f = Some a" and d: "data_file_at E f h w"
  obtains r w' where "data_releaseDataBlock E D f (Some a) cs w = Ret (r, w')" "wf_world E w'" "sealed E h w'"
    "apart E (Some a) h w w'" "blocks w' a = None"
    "(\<forall>dom p s d. fst (idxSetDataPackIndexStateByDataBlock D dom p s d) = 0) \<longrightarrow> r = 0"
proof -
  from d f obtain b st h0 ps where b: "h = h0 @ [(vfs_path b, ps)]" "sealed E h0 w" "bview w a = Some (b, st, concat ps)"
    "stream_good st" "distinct (map fst h)"
    by (auto simp: data_file_at_def)
  have bb: "blocks w a = Some b" using b(3) by (rule bviewE)
  obtain w1 where w1: "releaseDataBlock E D f (Some a) cs w = Ret (0, w1)" "wf_world E w1"
    "touches_db E a (vfs_path b) w w1" "blocks w1 a = None" "files w1 (getAbsolutePath E (vfs_path b)) = Some (concat ps)"
    by (rule releaseDataBlock_calm [OF E wf b(3,4)])
  obtain r d where rd: "idxSetDataPackIndexStateByDataBlock D (vfs_domain b) (vfs_path b) 1 (database w1) = (r, d)"
    by (cases "idxSetDataPackIndexStateByDataBlock D (vfs_domain b) (vfs_path b) 1 (database w1)")
  let ?w = "w1\<lparr>database := d\<rparr>"
  have "data_releaseDataBlock E D f (Some a) cs w = Ret (r, ?w)"
    using bb w1(1) rd by (simp add: data_releaseDataBlock_def act_simps db_call_def)
  moreover have "sealed E h ?w"
    using sealed_touches [OF b(2) w1(3)] w1(5) b(1,5) by (simp add: sealed_def)
  moreover have "touches_db E a (vfs_path b) w ?w" using w1(3) by (auto simp: touches_db_def touches_def)
  then have "apart E (Some a) h w ?w" by (rule apart_touches) (simp_all add: b(1))
  moreover have "(\<forall>dom p s d. fst (idxSetDataPackIndexStateByDataBlock D dom p s d) = 0) \<longrightarrow> r = 0"
    using rd by (metis fst_conv)
  ultimately show thesis using that w1(2,4) by simp
qed

context block_index
begin

lemma switch_calm:
  assumes E: "calm E" "inj (env_uuid E)" and A: "db_accepts D" and wf: "wf_world E w"
    and d: "data_file_at E f h w" and fresh: "fresh_names E (vfs_fpath (vfs_file_info f)) w"
    and hx: "\<forall>p \<in> fst ` set h. files w (getAbsolutePath E p) \<noteq> None"
  obtains a b st w' where "switchDataBlock E D f False w = Ret ((0, f\<lparr>current_data_block := Some a\<rparr>), w')" "wf_world E w'"
    "data_file_at E (f\<lparr>current_data_block := Some a\<rparr>) (h @ [(vfs_path b, [])]) w'" "sealed E h w'"
    "bview w' a = Some (b, st, [])" "fs_out st" "stream_good st" "current_work_position b = 0"
    "apart E (current_data_block f) (h @ [(vfs_path b, [])]) w w'" "next_addr w \<le> a"
    "files w (getAbsolutePath E (vfs_path b)) = None"
    "\<exists>n \<ge> ticks w. n < ticks w' \<and> vfs_path b = vfs_fpath (vfs_file_info f) @ ''/'' @ env_uuid E n"
proof -
  have "\<exists>r w1. (if current_data_block f = None then areturn 0
            else data_releaseDataBlock E D f (current_data_block f) DataBlockStateQuerable) w = Ret (r, w1) \<and>
      wf_world E w1 \<and> sealed E h w1 \<and> apart E (current_data_block f) h w w1"
  proof (cases "current_data_block f")
    case None
    then show ?thesis using wf d by (intro exI [of _ 0] exI [of _ w]) (simp add: act_simps data_file_at_def)
  next
    case (Some a)
    obtain r w' where "data_releaseDataBlock E D f (Some a) DataBlockStateQuerable w = Ret (r, w')" "wf_world E w'"
      "sealed E h w'" "apart E (Some a) h w w'" by (rule data_release_calm [OF E(1) wf Some d])
    then show ?thesis using Some by auto
  qed
  then obtain r w1 where w1: "(if current_data_block f = None then areturn 0
            else data_releaseDataBlock E D f (current_data_block f) DataBlockStateQuerable) w = Ret (r, w1)"
    "wf_world E w1" "sealed E h w1" "apart E (current_data_block f) h w w1" by blast
  have fr1: "fresh_names E (vfs_fpath (vfs_file_info f)) w1"
    unfolding fresh_names_def Let_def
  proof (intro allI impI conjI)
    fix n assume n: "ticks w1 \<le> n"
    let ?q = "vfs_fpath (vfs_file_info f) @ ''/'' @ env_uuid E n"
    have m: "files w (getAbsolutePath E ?q) = None" "getAbsolutePath E ?q \<notin> set (dirs w)"
      using fresh n w1(4) by (auto simp: fresh_names_def Let_def apart_def)
    then have "?q \<notin> fst ` set h" using hx by auto
    then have "getAbsolutePath E ?q \<notin> getAbsolutePath E ` fst ` set h" by (metis getAbsolutePath_inj imageE)
    then show "files w1 (getAbsolutePath E ?q) = None" "getAbsolutePath E ?q \<notin> set (dirs w1)"
      using m w1(4) by (auto simp: apart_def others_kept_def)
  qed
  obtain a b st path w2 where n: "getNewDataBlock E D f w1 = Ret ((0, Some a), w2)" "wf_world E w2"
    "touches_db E a path w1 w2" "blocks w1 a = None" "bview w2 a = Some (b, st, [])"
    "vfs_path b = path" "current_work_position b = 0" "fs_out st" "stream_good st"
    "path = vfs_fpath (vfs_file_info f) @ ''/'' @ env_uuid E (ticks w1)"
    "files w1 (getAbsolutePath E path) = None" "fresh_names E (vfs_fpath (vfs_file_info f)) w2"
    "max_reacheable_size b = ucast (max_block_size (vfs_file_info f))" "next_addr w1 \<le> a" "ticks w1 < ticks w2"
    by (rule getNewDataBlock_calm [OF E A w1(2) fr1])
  have nh: "path \<notin> fst ` set h" using w1(3) n(11) by (auto simp: sealed_def)
  have s2: "sealed E h w2" by (rule sealed_touches [OF w1(3) n(3) nh])
  let ?f = "f\<lparr>current_data_block := Some a\<rparr>"
  have "switchDataBlock E D f False w = Ret ((0, ?f), w2)"
    using w1(1) n(1) by (cases "current_data_block f") (simp_all add: switchDataBlock_def act_simps)
  moreover have "data_file_at E ?f (h @ [(vfs_path b, [])]) w2"
    using d s2 n nh by (auto simp: data_file_at_def)
  moreover have "apart E (current_data_block f) (h @ [(vfs_path b, [])]) w w2"
    by (rule apart_trans [OF w1(4) apart_touches [OF n(3), of "Some a"]]) (use n(6,14) w1(4) in \<open>auto simp: apart_def\<close>)
  moreover have "files w (getAbsolutePath E path) = None"
    using n(11) nh w1(4) unfolding apart_def others_kept_def by (metis (no_types, lifting) getAbsolutePath_inj imageE)
  moreover have "next_addr w \<le> a" "ticks w \<le> ticks w1" using n(14) w1(4) by (auto simp: apart_def)
  ultimately show thesis using that [of a w2 b st] n s2 by auto
qed

end

section \<open>Writing packs\<close>

text \<open>
  One step of a data file from \<open>f\<close>, \<open>h\<close> to \<open>f'\<close>, \<open>h'\<close>: the packs \<open>ps\<close> are added; new blocks have new names.
\<close>

definition data_step ::
  "vfs_env \<Rightarrow> vfs_file \<Rightarrow> (string \<times> u8 list list) list \<Rightarrow> u8 list list \<Rightarrow> 'd world \<Rightarrow>
   vfs_file \<Rightarrow> (string \<times> u8 list list) list \<Rightarrow> 'd world \<Rightarrow> bool" where
  "data_step E f h ps w f' h' w' \<longleftrightarrow>
     wf_world E w' \<and> data_file_at E f' h' w' \<and> concat (map snd h') = concat (map snd h) @ ps \<and>
     fst ` set h \<subseteq> fst ` set h' \<and> apart E (current_data_block f) h' w w' \<and>
     (current_data_block f' = current_data_block f \<or> current_data_block f' = None \<or>
      (\<exists>x \<ge> next_addr w. current_data_block f' = Some x)) \<and>
     vfs_file_info f' = vfs_file_info f \<and>
     (\<forall>p \<in> fst ` set h' - fst ` set h. files w (getAbsolutePath E p) = None \<and>
        (\<exists>n \<ge> ticks w. n < ticks w' \<and> p = vfs_fpath (vfs_file_info f) @ ''/'' @ env_uuid E n))"

lemma isDataBlockValid_store:
  assumes "\<forall>a. p = Some a \<longrightarrow> blocks w a \<noteq> None"
  obtains v w0 where "isDataBlockValid E p w = Ret (v, w0)" "same_store w w0" "p = None \<Longrightarrow> \<not> v"
proof (cases p)
  case None
  then show thesis by (intro that [of False w]) (simp_all add: isDataBlockValid_def act_simps same_store_intros)
next
  case (Some a)
  with assms obtain b where "blocks w a = Some b" by auto
  then show thesis using Some
    by (intro that [of "invalidation_timestamp b > env_now E (ticks w) \<and> current_work_position b < max_reacheable_size b"
          "w\<lparr>ticks := Suc (ticks w)\<rparr>"])
      (simp_all add: isDataBlockValid_def act_simps same_store_intros)
qed

lemma data_file_at_live: "data_file_at E f h w \<Longrightarrow> current_data_block f = Some a \<Longrightarrow> blocks w a \<noteq> None"
  by (auto simp: data_file_at_def elim: bviewE)

lemma data_file_at_files:
  assumes "wf_world E w" and "data_file_at E f h w" and "p \<in> fst ` set h"
  shows "files w (getAbsolutePath E p) \<noteq> None"
proof (cases "current_data_block f")
  case None
  then show ?thesis using assms by (auto simp: data_file_at_def sealed_def)
next
  case (Some a)
  with assms(2) obtain b st h0 ps where h: "h = h0 @ [(vfs_path b, ps)]" "sealed E h0 w" "bview w a = Some (b, st, concat ps)"
    by (auto simp: data_file_at_def)
  then show ?thesis using assms(3) bview_file [OF assms(1) h(3)] by (auto simp: sealed_def)
qed

lemma data_file_at_store: "same_store w w0 \<Longrightarrow> data_file_at E f h w0 = data_file_at E f h w"
  using same_storeD [of w w0] by (simp add: data_file_at_def sealed_def split: option.split)

lemma fresh_names_store: "same_store w w0 \<Longrightarrow> fresh_names E p w \<Longrightarrow> fresh_names E p w0"
  using same_storeD(4,5,7) [of w w0] by (auto simp: fresh_names_def Let_def)

context block_index
begin

text \<open>A pack goes behind the others of a block that is still valid, or is the first of a new block.\<close>

lemma data_write_valid:
  assumes E: "calm E" and wf: "wf_world E w" and d: "data_file_at E f h w" and a: "current_data_block f = Some a"
    and v: "isDataBlockValid E (Some a) w = Ret (True, w0)"
  obtains b st h0 ps w' where "data_write E D f data w = Ret ((0, f), w')" "bview w a = Some (b, st, concat ps)"
    "h = h0 @ [(vfs_path b, ps)]" "current_work_position b = of_nat (length (concat ps))"
    "data_step E f h [data] w f (h0 @ [(vfs_path b, ps @ [data])]) w'"
proof -
  have s: "same_store w w0" using isDataBlockValid_store [of "Some a" w E] data_file_at_live [OF d a] v by force
  have w0: "wf_world E w0" "data_file_at E f h w0" using wf d s same_storeD(2) [OF s] data_file_at_store [OF s] by auto
  from w0(2) a obtain b st h0 ps where b: "h = h0 @ [(vfs_path b, ps)]" "sealed E h0 w0" "bview w0 a = Some (b, st, concat ps)"
    "fs_out st" "stream_good st" "current_work_position b = of_nat (length (concat ps))" "distinct (map fst h)"
    "open_mode f = VFSFileOpenModeWrite" "current_journal_data_block f = None"
    by (auto simp: data_file_at_def)
  obtain w' where w': "VFSFile_write E f data w0 = Ret (0, w')" "wf_world E w'"
    "data_file_at E f (h0 @ [(vfs_path b, ps @ [data])]) w'" "touches_db E a (vfs_path b) w0 w'"
    by (rule data_file_at_write [OF E w0(1) b(8) a b(9) b(3-6,2)]) (use b(1,7) in auto)
  have "data_write E D f data w = Ret ((0, f), w')"
    using v a w'(1) by (simp add: data_write_def act_simps)
  moreover have "apart E (current_data_block f) (h0 @ [(vfs_path b, ps @ [data])]) w w'"
    by (rule apart_trans [OF apart_same_store [OF s, of E _ "[]"] apart_touches [OF w'(4)]]) (use a in auto)
  moreover have "bview w a = bview w0 a" using same_storeD [OF s] by simp
  ultimately show thesis using that [of w' b st ps h0] w'(2,3) b(1,3,6) by (simp add: data_step_def)
qed

lemma data_write_switch:
  assumes E: "calm E" "inj (env_uuid E)" and A: "db_accepts D" and wf: "wf_world E w"
    and d: "data_file_at E f h w" and fresh: "fresh_names E (vfs_fpath (vfs_file_info f)) w"
    and v: "isDataBlockValid E (current_data_block f) w = Ret (False, w0)"
  obtains a p w' where "data_write E D f data w = Ret ((0, f\<lparr>current_data_block := Some a\<rparr>), w')" "sealed E h w'" "p \<notin> fst ` set h"
    "data_step E f h [data] w (f\<lparr>current_data_block := Some a\<rparr>) (h @ [(p, [data])]) w'"
proof -
  have s: "same_store w w0"
    using isDataBlockValid_store [of "current_data_block f" w E] data_file_at_live [OF d] v by force
  have w0: "wf_world E w0" "data_file_at E f h w0" "fresh_names E (vfs_fpath (vfs_file_info f)) w0"
    using wf d fresh s same_storeD(2) [OF s] data_file_at_store [OF s] fresh_names_store [OF s] by auto
  have nx: "next_addr w0 = next_addr w" "files w0 = files w" "ticks w \<le> ticks w0" using s by (simp_all add: same_store_def)
  obtain a b st w1 where sw: "switchDataBlock E D f False w0 = Ret ((0, f\<lparr>current_data_block := Some a\<rparr>), w1)" "wf_world E w1"
    "data_file_at E (f\<lparr>current_data_block := Some a\<rparr>) (h @ [(vfs_path b, [])]) w1" "sealed E h w1"
    "bview w1 a = Some (b, st, [])" "fs_out st" "stream_good st" "current_work_position b = 0"
    "apart E (current_data_block f) (h @ [(vfs_path b, [])]) w0 w1" "next_addr w0 \<le> a"
    "files w0 (getAbsolutePath E (vfs_path b)) = None"
    "\<exists>n \<ge> ticks w0. n < ticks w1 \<and> vfs_path b = vfs_fpath (vfs_file_info f) @ ''/'' @ env_uuid E n"
    by (rule switch_calm [OF E A w0]) (use data_file_at_files [OF w0(1,2)] in auto)
  let ?f = "f\<lparr>current_data_block := Some a\<rparr>"
  obtain w' where w': "VFSFile_write E ?f data w1 = Ret (0, w')" "wf_world E w'"
    "data_file_at E ?f (h @ [(vfs_path b, [] @ [data])]) w'" "touches_db E a (vfs_path b) w1 w'"
    by (rule data_file_at_write [OF E(1) sw(2), of ?f a b st "[]" h data]) (use sw(3-8) in \<open>auto simp: data_file_at_def\<close>)
  have dw: "data_write E D f data w = Ret ((0, ?f), w')"
    using v sw(1) w'(1) by (simp add: data_write_def abind_def areturn_def)
  have ap: "apart E (current_data_block f) (h @ [(vfs_path b, [data])]) w w'"
  proof (rule apart_trans [where cur' = "Some a"])
    show "apart E (current_data_block f) (h @ [(vfs_path b, [])]) w w1"
      by (rule apart_trans [OF apart_same_store [OF s, of E _ "[]"] sw(9)]) auto
    show "apart E (Some a) (h @ [(vfs_path b, [data])]) w1 w'" by (rule apart_touches [OF w'(4)]) auto
  qed (use sw(10) nx in auto)
  have n: "\<exists>n \<ge> ticks w. n < ticks w' \<and> vfs_path b = vfs_fpath (vfs_file_info f) @ ''/'' @ env_uuid E n"
    using sw(12) nx(3) touches_dbD(5) [OF w'(4)] by (meson le_trans less_le_trans)
  have st: "data_step E f h [data] w ?f (h @ [(vfs_path b, [data])]) w'"
    using ap n w'(2,3) sw(10,11) nx by (auto simp: data_step_def)
  have "sealed E h w'" using w'(3) by (auto simp: data_file_at_def)
  moreover have "vfs_path b \<notin> fst ` set h" using w'(3) by (auto simp: data_file_at_def)
  ultimately show thesis using that [OF dw _ _ st] by blast
qed

lemma data_write_step:
  assumes E: "calm E" "inj (env_uuid E)" and A: "db_accepts D" and wf: "wf_world E w"
    and d: "data_file_at E f h w" and fresh: "fresh_names E (vfs_fpath (vfs_file_info f)) w"
  obtains f' h' w' where "data_write E D f data w = Ret ((0, f'), w')" "data_step E f h [data] w f' h' w'"
proof -
  obtain v w0 where v: "isDataBlockValid E (current_data_block f) w = Ret (v, w0)" "same_store w w0"
      "current_data_block f = None \<Longrightarrow> \<not> v"
    by (rule isDataBlockValid_store [of "current_data_block f" w E]) (use data_file_at_live [OF d] in auto)
  show thesis
  proof (cases v)
    case True
    then obtain a where a: "current_data_block f = Some a" using v(3) by auto
    show thesis by (rule data_write_valid [OF E(1) wf d a]) (use v(1) a True that in auto)
  next
    case False
    show thesis by (rule data_write_switch [OF E A wf d fresh]) (use v(1) False that in auto)
  qed
qed

lemma data_prefetch_step:
  assumes E: "calm E" "inj (env_uuid E)" and A: "db_accepts D" and wf: "wf_world E w"
    and d: "data_file_at E f h w" and fresh: "fresh_names E (vfs_fpath (vfs_file_info f)) w"
  obtains f' h' w' where "data_prefetchData E D f w = Ret ((0, f'), w')" "data_step E f h [] w f' h' w'"
    "current_data_block f' \<noteq> None"
proof (cases "current_data_block f")
  case (Some a)
  then show thesis using wf d by (intro that [of f w h]) (auto simp: data_prefetchData_def act_simps data_step_def)
next
  case None
  obtain a b st w1 where s: "switchDataBlock E D f False w = Ret ((0, f\<lparr>current_data_block := Some a\<rparr>), w1)" "wf_world E w1"
    "data_file_at E (f\<lparr>current_data_block := Some a\<rparr>) (h @ [(vfs_path b, [])]) w1" "sealed E h w1"
    "bview w1 a = Some (b, st, [])" "fs_out st" "stream_good st" "current_work_position b = 0"
    "apart E (current_data_block f) (h @ [(vfs_path b, [])]) w w1" "next_addr w \<le> a"
    "files w (getAbsolutePath E (vfs_path b)) = None"
    "\<exists>n \<ge> ticks w. n < ticks w1 \<and> vfs_path b = vfs_fpath (vfs_file_info f) @ ''/'' @ env_uuid E n"
    by (rule switch_calm [OF E A wf d fresh]) (use data_file_at_files [OF wf d] in auto)
  then show thesis using None
    by (intro that [of "f\<lparr>current_data_block := Some a\<rparr>" w1 "h @ [(vfs_path b, [])]"])
      (auto simp: data_prefetchData_def data_step_def)
qed

end

end
