(* ===== verification/Pack_Scan.thy ===== *)
theory Pack_Scan
  imports Stage_Reading Data_Files
begin

text \<open>
  The scanner over a whole block of a stage file: it ends after one round per pack and one more, every
  pack is in the data file of its device, in order, and the block has been removed.
\<close>

section \<open>The state of the scanner\<close>

text \<open>Generated identifiers are never repeated and contain neither a slash nor a dot.\<close>

definition good_uuids :: "vfs_env \<Rightarrow> bool" where
  "good_uuids E \<longleftrightarrow> inj (env_uuid E) \<and> (\<forall>n. CHR ''/'' \<notin> set (env_uuid E n) \<and> CHR ''.'' \<notin> set (env_uuid E n))"

abbreviation data_path :: "string \<Rightarrow> string" where
  "data_path did \<equiv> area_path ''data'' did"

abbreviation block_name :: "vfs_env \<Rightarrow> string \<Rightarrow> nat \<Rightarrow> string" where
  "block_name E fpath n \<equiv> fpath @ ''/'' @ env_uuid E n"

definition names_apart :: "vfs_env \<Rightarrow> string set \<Rightarrow> bool" where
  "names_apart E dids \<longleftrightarrow>
     (\<forall>did \<in> dids. \<forall>did' \<in> dids. \<forall>n.
        getAbsolutePath E (block_name E (data_path did) n) \<notin> set (path_prefixes (getAbsolutePath E (data_path did'))))"

definition data_blocks :: "scanner \<Rightarrow> nat set" where
  "data_blocks sc = {a. \<exists>did f. map_of (map_did_data_file sc) did = Some f \<and> current_data_block f = Some a}"

definition hist_paths :: "(string \<Rightarrow> (string \<times> u8 list list) list) \<Rightarrow> string set" where
  "hist_paths H = (\<Union>did. fst ` set (H did))"

definition scanner_at ::
  "vfs_env \<Rightarrow> string set \<Rightarrow> scanner \<Rightarrow> (string \<Rightarrow> (string \<times> u8 list list) list) \<Rightarrow> 'd world \<Rightarrow> bool" where
  "scanner_at E dids sc H w \<longleftrightarrow>
     wf_world E w \<and> distinct (map fst (map_did_data_file sc)) \<and>
     (\<forall>did f. map_of (map_did_data_file sc) did = Some f \<longrightarrow>
        did \<in> dids \<and> data_file_at E f (H did) w \<and> vfs_fpath (vfs_file_info f) = data_path did) \<and>
     (\<forall>did. map_of (map_did_data_file sc) did = None \<longrightarrow> H did = []) \<and>
     (\<forall>did f did' f' a. map_of (map_did_data_file sc) did = Some f \<longrightarrow> map_of (map_did_data_file sc) did' = Some f' \<longrightarrow>
        did \<noteq> did' \<longrightarrow> current_data_block f = Some a \<longrightarrow> current_data_block f' \<noteq> Some a) \<and>
     (\<forall>did did'. did \<noteq> did' \<longrightarrow> fst ` set (H did) \<inter> fst ` set (H did') = {}) \<and>
     (\<forall>did \<in> dids. fresh_names E (data_path did) w)"

lemma last_segment:
  assumes "CHR ''/'' \<notin> set u" and "CHR ''/'' \<notin> set v" and "p @ ''/'' @ u = q @ ''/'' @ v"
  shows "u = v"
proof -
  have t: "takeWhile (\<lambda>c. c \<noteq> CHR ''/'') (rev (x @ ''/'' @ y)) = rev y" if "CHR ''/'' \<notin> set y" for x y :: string
  proof -
    have "takeWhile (\<lambda>c. c \<noteq> CHR ''/'') (rev y @ (CHR ''/'' # rev x)) = rev y"
      using that by (subst takeWhile_append2) auto
    then show ?thesis by simp
  qed
  have "rev u = rev v" using t [OF assms(1), of p] t [OF assms(2), of q] unfolding assms(3) by (rule trans [OF sym])
  then show ?thesis by simp
qed

lemma journal_not_block:
  assumes "good_uuids E"
  shows "path @ ''.journal'' \<noteq> block_name E fpath n"
proof
  assume e: "path @ ''.journal'' = block_name E fpath n"
  let ?u = "env_uuid E n"
  have u: "CHR ''/'' \<notin> set ?u" "CHR ''.'' \<notin> set ?u" using assms by (auto simp: good_uuids_def)
  have "takeWhile (\<lambda>c. c \<noteq> CHR ''/'') (rev ?u @ (CHR ''/'' # rev fpath)) = rev ?u"
    using u by (subst takeWhile_append2) auto
  then have "takeWhile (\<lambda>c. c \<noteq> CHR ''/'') (rev (path @ ''.journal'')) = rev ?u" unfolding e by simp
  moreover have "CHR ''.'' \<in> set (takeWhile (\<lambda>c. c \<noteq> CHR ''/'') (rev (path @ ''.journal'')))" by simp
  ultimately show False using u(2) by simp
qed

lemma block_name_inj:
  assumes "good_uuids E" and "block_name E p m = block_name E q n"
  shows "m = n"
proof -
  have "env_uuid E m = env_uuid E n"
    using assms(1) by (intro last_segment [OF _ _ assms(2)]) (auto simp: good_uuids_def)
  then show ?thesis using assms(1) by (auto simp: good_uuids_def dest: injD)
qed

lemma abs_mem: "getAbsolutePath E p \<in> getAbsolutePath E ` S \<longleftrightarrow> p \<in> S"
  by (auto simp: image_iff)

lemma scanner_atD:
  assumes "scanner_at E dids sc H w"
  shows "wf_world E w" "distinct (map fst (map_did_data_file sc))"
    "map_of (map_did_data_file sc) did = Some f \<Longrightarrow> did \<in> dids"
    "map_of (map_did_data_file sc) did = Some f \<Longrightarrow> data_file_at E f (H did) w"
    "map_of (map_did_data_file sc) did = Some f \<Longrightarrow> vfs_fpath (vfs_file_info f) = data_path did"
    "map_of (map_did_data_file sc) did = None \<Longrightarrow> H did = []"
    "did \<in> dids \<Longrightarrow> fresh_names E (data_path did) w"
    "did \<noteq> did' \<Longrightarrow> fst ` set (H did) \<inter> fst ` set (H did') = {}"
    "map_of (map_did_data_file sc) did = Some f \<Longrightarrow> map_of (map_did_data_file sc) did' = Some f' \<Longrightarrow>
       did \<noteq> did' \<Longrightarrow> current_data_block f = Some a \<Longrightarrow> current_data_block f' \<noteq> Some a"
proof -
  note i = assms [unfolded scanner_at_def]
  from i show "wf_world E w" "distinct (map fst (map_did_data_file sc))" by simp_all
  from i show "map_of (map_did_data_file sc) did = Some f \<Longrightarrow> did \<in> dids" by simp
  from i show "map_of (map_did_data_file sc) did = Some f \<Longrightarrow> data_file_at E f (H did) w" by simp
  from i show "map_of (map_did_data_file sc) did = Some f \<Longrightarrow> vfs_fpath (vfs_file_info f) = data_path did" by simp
  from i show "map_of (map_did_data_file sc) did = None \<Longrightarrow> H did = []" by simp
  from i show "did \<in> dids \<Longrightarrow> fresh_names E (data_path did) w" by simp
  from i show "did \<noteq> did' \<Longrightarrow> fst ` set (H did) \<inter> fst ` set (H did') = {}" by simp
  from i show "map_of (map_did_data_file sc) did = Some f \<Longrightarrow> map_of (map_did_data_file sc) did' = Some f' \<Longrightarrow>
       did \<noteq> did' \<Longrightarrow> current_data_block f = Some a \<Longrightarrow> current_data_block f' \<noteq> Some a" by metis
qed

lemma data_blocksI:
  "map_of (map_did_data_file sc) did = Some f \<Longrightarrow> current_data_block f = Some a \<Longrightarrow> a \<in> data_blocks sc"
  by (auto simp: data_blocks_def)

lemma hist_pathsI: "p \<in> fst ` set (H did) \<Longrightarrow> p \<in> hist_paths H"
  by (auto simp: hist_paths_def)

lemma hist_path_file:
  assumes i: "scanner_at E dids sc H w" and p: "p \<in> fst ` set (H did)"
  shows "files w (getAbsolutePath E p) \<noteq> None"
proof (cases "map_of (map_did_data_file sc) did")
  case None
  then show ?thesis using scanner_atD(6) [OF i None] p by simp
next
  case (Some f)
  show ?thesis by (rule data_file_at_files [OF scanner_atD(1) [OF i] scanner_atD(4) [OF i Some] p])
qed

lemma data_file_at_frame:
  assumes d: "data_file_at E f h w"
    and v: "\<And>a. current_data_block f = Some a \<Longrightarrow> bview w' a = bview w a"
    and s: "\<And>p. p \<in> fst ` set h \<Longrightarrow> files w' (getAbsolutePath E p) = files w (getAbsolutePath E p)"
  shows "data_file_at E f h w'"
proof -
  have sl: "sealed E h0 w'" if "sealed E h0 w" "set h0 \<subseteq> set h" for h0
    unfolding sealed_def
  proof (rule ballI, clarify)
    fix p ps assume p: "(p, ps) \<in> set h0"
    then have "p \<in> fst ` set h" using that(2) by force
    with s show "files w' (getAbsolutePath E p) = Some (concat ps)" using that(1) p by (auto simp: sealed_def)
  qed
  show ?thesis
  proof (cases "current_data_block f")
    case None
    then show ?thesis using d sl [of h] by (simp add: data_file_at_def)
  next
    case (Some a)
    with d obtain b st h0 ps where h: "h = h0 @ [(vfs_path b, ps)]" "sealed E h0 w" "bview w a = Some (b, st, concat ps)"
      "fs_out st" "stream_good st" "current_work_position b = of_nat (length (concat ps))"
      by (auto simp: data_file_at_def)
    have "sealed E h0 w'" using sl [OF h(2)] h(1) by auto
    then show ?thesis using d Some h v [OF Some] by (auto simp: data_file_at_def)
  qed
qed

text \<open>Calls that do not concern the data files leave the state of the scanner as it is.\<close>

lemma scanner_frame:
  assumes i: "scanner_at E dids sc H w" and wf: "wf_world E w'"
    and v: "\<And>a. a \<in> data_blocks sc \<Longrightarrow> bview w' a = bview w a"
    and s: "\<And>p. p \<in> hist_paths H \<Longrightarrow> files w' (getAbsolutePath E p) = files w (getAbsolutePath E p)"
    and n: "\<And>did n. files w (getAbsolutePath E (block_name E (data_path did) n)) = None \<Longrightarrow>
        files w' (getAbsolutePath E (block_name E (data_path did) n)) = None"
    and t: "ticks w \<le> ticks w'" and dr: "set (dirs w') \<subseteq> set (dirs w)"
    and m: "map_did_data_file sc' = map_did_data_file sc"
  shows "scanner_at E dids sc' H w'"
proof -
  have d: "data_file_at E f (H did) w'" if f: "map_of (map_did_data_file sc) did = Some f" for did f
    by (rule data_file_at_frame [OF scanner_atD(4) [OF i f]])
      (rule v s, erule data_blocksI [OF f] hist_pathsI)+
  have fr: "fresh_names E (data_path did) w'" if "did \<in> dids" for did
    using scanner_atD(7) [OF i that] n [of did] t dr unfolding fresh_names_def Let_def by (meson le_trans subsetD)
  note D = scanner_atD [OF i]
  show ?thesis
    unfolding scanner_at_def m
  proof (intro conjI)
    show "wf_world E w'" by (rule wf)
    show "distinct (map fst (map_did_data_file sc))" by (rule D(2))
    show "\<forall>did f did' f' a. map_of (map_did_data_file sc) did = Some f \<longrightarrow> map_of (map_did_data_file sc) did' = Some f' \<longrightarrow>
        did \<noteq> did' \<longrightarrow> current_data_block f = Some a \<longrightarrow> current_data_block f' \<noteq> Some a" using D(9) by blast
  qed (use D(3,5,6,8) d fr in auto)
qed

section \<open>A step of one data file\<close>

lemma live_block:
  assumes "scanner_at E dids sc H w" and "a \<in> data_blocks sc"
  shows "a < next_addr w"
proof -
  from assms(2) obtain did f where f: "map_of (map_did_data_file sc) did = Some f" "current_data_block f = Some a"
    by (auto simp: data_blocks_def)
  obtain b where "blocks w a = Some b" using data_file_at_live [OF scanner_atD(4) [OF assms(1) f(1)] f(2)] by auto
  then show ?thesis by (rule wf_blockD(1) [OF scanner_atD(1) [OF assms(1)]])
qed

lemma step_paths:
  assumes st: "data_step E f h ps w f' h' w'" and p: "p \<in> fst ` set h'"
  obtains "p \<in> fst ` set h"
  | n where "files w (getAbsolutePath E p) = None" "ticks w \<le> n" "n < ticks w'" "p = block_name E (vfs_fpath (vfs_file_info f)) n"
  using st p unfolding data_step_def by blast

lemma scanner_step:
  assumes U: "good_uuids E" and i: "scanner_at E dids sc H w" and f: "map_of (map_did_data_file sc) did = Some f"
    and st: "data_step E f (H did) ps w f' h' w'"
  shows "scanner_at E dids (store_data_file did f' sc) (H(did := h')) w'"
    and "data_blocks (store_data_file did f' sc) \<subseteq> data_blocks sc \<union> {a. next_addr w \<le> a}"
    and "\<And>x. x < next_addr w \<Longrightarrow> x \<notin> data_blocks sc \<Longrightarrow> bview w' x = bview w x \<and> blocks w' x = blocks w x"
    and "\<And>q. q \<in> hist_paths (H(did := h')) \<Longrightarrow> q \<notin> hist_paths H \<Longrightarrow> files w (getAbsolutePath E q) = None"
    and "\<And>q. q \<notin> getAbsolutePath E ` hist_paths (H(did := h')) \<Longrightarrow> files w' q = files w q"
    and "dirs w' = dirs w" "next_addr w \<le> next_addr w'" "ticks w \<le> ticks w'"
proof -
  note D = scanner_atD [OF i]
  let ?m = "AList.update did f' (map_did_data_file sc)" and ?H = "H(did := h')"
  have ap: "apart E (current_data_block f) h' w w'" and inf: "vfs_file_info f' = vfs_file_info f"
    and fp: "vfs_fpath (vfs_file_info f) = data_path did" and wf': "wf_world E w'"
    using st D(5) [OF f] by (auto simp: data_step_def)
  have e: "map_did_data_file (store_data_file did f' sc) = ?m" by (simp add: store_data_file_def)
  have mo: "map_of ?m = (map_of (map_did_data_file sc))(did \<mapsto> f')" by (simp add: update_conv')
  have new: "files w (getAbsolutePath E q) = None" if "q \<in> fst ` set h'" "q \<notin> fst ` set (H did)" for q
    by (rule step_paths [OF st that(1)]) (use that(2) in auto)
  have dis: "fst ` set h' \<inter> fst ` set (H d) = {}" if "d \<noteq> did" for d
    using new D(8) [OF that] hist_path_file [OF i, of _ d] by blast
  have cur: "current_data_block f2 \<noteq> current_data_block f'" if "map_of (map_did_data_file sc) d = Some f2" "d \<noteq> did"
      "current_data_block f2 = Some a" for d f2 a
    using st D(9) [OF that(1) f that(2,3)] live_block [OF i data_blocksI [OF that(1,3)]] that(3)
    by (auto simp: data_step_def)
  have other: "data_file_at E f2 (H d) w'" if m2: "map_of (map_did_data_file sc) d = Some f2" and d: "d \<noteq> did" for d f2
  proof (rule data_file_at_frame [OF D(4) [OF m2]])
    fix a assume a: "current_data_block f2 = Some a"
    have "a < next_addr w" by (rule live_block [OF i data_blocksI [OF m2 a]])
    moreover have "current_data_block f \<noteq> Some a" by (rule D(9) [OF m2 f d a])
    ultimately show "bview w' a = bview w a" using ap by (simp add: apart_def)
  next
    fix p assume "p \<in> fst ` set (H d)"
    then have "p \<notin> fst ` set h'" using dis [OF d] by blast
    then have "getAbsolutePath E p \<notin> getAbsolutePath E ` fst ` set h'" by (simp only: abs_mem not_False_eq_True)
    then show "files w' (getAbsolutePath E p) = files w (getAbsolutePath E p)" using ap by (simp add: apart_def others_kept_def)
  qed
  have fresh: "fresh_names E (data_path d) w'" if "d \<in> dids" for d
    unfolding fresh_names_def Let_def
  proof (intro allI impI)
    fix n assume n: "ticks w' \<le> n"
    let ?q = "block_name E (data_path d) n"
    have tn: "ticks w \<le> n" using n ap by (simp add: apart_def)
    have m: "files w (getAbsolutePath E ?q) = None" "getAbsolutePath E ?q \<notin> set (dirs w)"
      using D(7) [OF that] tn by (simp_all add: fresh_names_def Let_def)
    have "?q \<notin> fst ` set h'"
    proof
      assume h: "?q \<in> fst ` set h'"
      show False
      proof (rule step_paths [OF st h])
        assume "?q \<in> fst ` set (H did)"
        then show False using hist_path_file [OF i, of ?q did] m(1) by blast
      next
        fix k assume "k < ticks w'" "?q = block_name E (vfs_fpath (vfs_file_info f)) k"
        then show False using block_name_inj [OF U, of "data_path d" n _ k] n by simp
      qed
    qed
    then have "getAbsolutePath E ?q \<notin> getAbsolutePath E ` fst ` set h'" by (simp only: abs_mem not_False_eq_True)
    then show "files w' (getAbsolutePath E ?q) = None \<and> getAbsolutePath E ?q \<notin> set (dirs w')"
      using m ap by (simp add: apart_def others_kept_def)
  qed
  have keys: "distinct (map fst ?m)" using D(2) by (rule distinct_update)
  have none: "map_of (map_did_data_file sc) d \<noteq> None" if "d = did" for d using f that by simp
  show "scanner_at E dids (store_data_file did f' sc) ?H w'"
    unfolding scanner_at_def e mo
  proof (intro conjI allI impI)
    fix d f2 assume "((map_of (map_did_data_file sc))(did \<mapsto> f')) d = Some f2"
    then have "d = did \<and> f2 = f' \<or> d \<noteq> did \<and> map_of (map_did_data_file sc) d = Some f2" by (auto split: if_splits)
    then show "d \<in> dids" "data_file_at E f2 (?H d) w'" "vfs_fpath (vfs_file_info f2) = data_path d"
      using D(3) [OF f] D(3) [of d f2] st inf fp other [of d f2] D(5) [of d f2] by (auto simp: data_step_def)
  next
    fix d1 f1 d2 f2 a
    assume a: "((map_of (map_did_data_file sc))(did \<mapsto> f')) d1 = Some f1" "((map_of (map_did_data_file sc))(did \<mapsto> f')) d2 = Some f2"
      "d1 \<noteq> d2" "current_data_block f1 = Some a"
    show "current_data_block f2 \<noteq> Some a"
      using a cur [of d1 f1 a] cur [of d2 f2 a] D(9) [of d1 f1 d2 f2 a] by (cases "d1 = did"; cases "d2 = did") auto
  next
    fix d1 d2 :: string assume "d1 \<noteq> d2"
    then show "fst ` set (?H d1) \<inter> fst ` set (?H d2) = {}"
      using dis [of d1] dis [of d2] D(8) [of d1 d2] by (cases "d1 = did"; cases "d2 = did") (simp_all add: Int_commute)
  qed (use wf' keys fresh none D(6) in \<open>auto split: if_splits\<close>)
  show "data_blocks (store_data_file did f' sc) \<subseteq> data_blocks sc \<union> {a. next_addr w \<le> a}"
  proof
    fix x assume "x \<in> data_blocks (store_data_file did f' sc)"
    then obtain d f2 where x: "((map_of (map_did_data_file sc))(did \<mapsto> f')) d = Some f2" "current_data_block f2 = Some x"
      unfolding data_blocks_def e mo by auto
    show "x \<in> data_blocks sc \<union> {a. next_addr w \<le> a}"
    proof (cases "d = did")
      case True
      then have "current_data_block f' = Some x" using x by simp
      then show ?thesis using st data_blocksI [OF f, of x] by (auto simp: data_step_def)
    next
      case False
      then show ?thesis using x data_blocksI [of sc d f2 x] by simp
    qed
  qed
  show "\<And>x. x < next_addr w \<Longrightarrow> x \<notin> data_blocks sc \<Longrightarrow> bview w' x = bview w x \<and> blocks w' x = blocks w x"
    using ap data_blocksI [OF f] by (auto simp: apart_def)
  show "files w (getAbsolutePath E q) = None" if "q \<in> hist_paths ?H" "q \<notin> hist_paths H" for q
  proof (rule new)
    show "q \<notin> fst ` set (H did)" using that(2) hist_pathsI [of q H did] by blast
    show "q \<in> fst ` set h'" using that hist_pathsI [of q H] by (auto simp: hist_paths_def split: if_splits)
  qed
  show "files w' q = files w q" if "q \<notin> getAbsolutePath E ` hist_paths ?H" for q
  proof -
    have "fst ` set h' \<subseteq> hist_paths ?H" using hist_pathsI [of _ ?H did] by (intro subsetI) simp
    then have "q \<notin> getAbsolutePath E ` fst ` set h'" using that by blast
    then show ?thesis using ap by (simp add: apart_def others_kept_def)
  qed
  show "dirs w' = dirs w" "next_addr w \<le> next_addr w'" "ticks w \<le> ticks w'" using ap by (auto simp: apart_def)
qed

section \<open>Scanner, reader and journal together\<close>

definition scan_at ::
  "vfs_env \<Rightarrow> string set \<Rightarrow> scanner \<Rightarrow> (string \<Rightarrow> (string \<times> u8 list list) list) \<Rightarrow> stage_reader \<Rightarrow> nat \<Rightarrow> nat \<Rightarrow>
   string \<Rightarrow> u8 list \<Rightarrow> nat \<Rightarrow> 'd world \<Rightarrow> bool" where
  "scan_at E dids sc H f a j path c k w \<longleftrightarrow>
     scanner_at E dids sc H w \<and> reader_at E f a j path c k w \<and> a \<notin> data_blocks sc \<and> j \<notin> data_blocks sc \<and>
     path \<notin> hist_paths H \<and> path @ ''.journal'' \<notin> hist_paths H"

text \<open>What a step of the scanner leaves alone.\<close>

definition scan_step ::
  "vfs_env \<Rightarrow> string set \<Rightarrow> scanner \<Rightarrow> (string \<Rightarrow> (string \<times> u8 list list) list) \<Rightarrow> 'd world \<Rightarrow>
   scanner \<Rightarrow> (string \<Rightarrow> (string \<times> u8 list list) list) \<Rightarrow> 'd world \<Rightarrow> bool" where
  "scan_step E dids sc H w sc' H' w' \<longleftrightarrow>
     scanner_at E dids sc' H' w' \<and> data_blocks sc' \<subseteq> data_blocks sc \<union> {a. next_addr w \<le> a} \<and>
     (\<forall>x < next_addr w. x \<notin> data_blocks sc \<longrightarrow> bview w' x = bview w x \<and> blocks w' x = blocks w x) \<and>
     (\<forall>q \<in> hist_paths H' - hist_paths H. files w (getAbsolutePath E q) = None) \<and>
     (\<forall>q. q \<notin> getAbsolutePath E ` hist_paths H' \<longrightarrow> files w' q = files w q) \<and>
     next_addr w \<le> next_addr w' \<and> ticks w \<le> ticks w' \<and> data_buffer sc' = data_buffer sc"

lemma scan_step_store:
  assumes "good_uuids E" and "scanner_at E dids sc H w" and "map_of (map_did_data_file sc) did = Some f"
    and "data_step E f (H did) ps w f' h' w'"
  shows "scan_step E dids sc H w (store_data_file did f' sc) (H(did := h')) w'"
  unfolding scan_step_def using scanner_step [OF assms] by (simp add: store_data_file_def)

lemma scan_step_trans:
  assumes 1: "scan_step E dids sc H w sc1 H1 w1" and 2: "scan_step E dids sc1 H1 w1 sc2 H2 w2"
    and sub: "hist_paths H1 \<subseteq> hist_paths H2"
  shows "scan_step E dids sc H w sc2 H2 w2"
proof -
  note a1 = 1 [unfolded scan_step_def] and a2 = 2 [unfolded scan_step_def]
  have x: "bview w2 x = bview w x \<and> blocks w2 x = blocks w x" if "x < next_addr w" "x \<notin> data_blocks sc" for x
  proof -
    have "x < next_addr w1" "x \<notin> data_blocks sc1" using a1 that by auto
    then show ?thesis using a1 a2 that by simp
  qed
  have q1: "files w2 q = files w q" if "q \<notin> getAbsolutePath E ` hist_paths H2" for q
  proof -
    have "q \<notin> getAbsolutePath E ` hist_paths H1" using that sub by blast
    then show ?thesis using a1 a2 that by simp
  qed
  have q2: "files w (getAbsolutePath E q) = None" if "q \<in> hist_paths H2" "q \<notin> hist_paths H" for q
  proof (cases "q \<in> hist_paths H1")
    case True
    then show ?thesis using a1 that by simp
  next
    case False
    then have "files w1 (getAbsolutePath E q) = files w (getAbsolutePath E q)" using a1 by (simp add: abs_mem)
    then show ?thesis using a2 that False by simp
  qed
  have "data_blocks sc2 \<subseteq> data_blocks sc \<union> {a. next_addr w \<le> a}" using a1 a2 by fastforce
  then show ?thesis unfolding scan_step_def using a1 a2 x q1 q2 by simp
qed

lemma reader_at_block:
  assumes "reader_at E f a j path c k w"
  shows "a < next_addr w" "j < next_addr w" "files w (getAbsolutePath E path) \<noteq> None"
    "files w (getAbsolutePath E (path @ ''.journal'')) \<noteq> None"
proof -
  have wf: "wf_world E w" using assms by (simp add: reader_at_def)
  from assms obtain b st where b: "bview w a = Some (b, st, c)" "vfs_path b = path"
    by (auto simp: reader_at_def block_read_def)
  from assms obtain bj stj cj where bj: "bview w j = Some (bj, stj, cj)" "vfs_path bj = path @ ''.journal''"
    by (auto simp: reader_at_def journal_at_def)
  show "a < next_addr w" "j < next_addr w" using wf_blockD(1) [OF wf] b(1) bj(1) by (auto elim!: bviewE)
  show "files w (getAbsolutePath E path) \<noteq> None" "files w (getAbsolutePath E (path @ ''.journal'')) \<noteq> None"
    using bview_file [OF wf b(1)] bview_file [OF wf bj(1)] b(2) bj(2) by simp_all
qed

lemma scan_at_step:
  assumes i: "scan_at E dids sc H f a j path c k w" and s: "scan_step E dids sc H w sc' H' w'"
  shows "scan_at E dids sc' H' f a j path c k w'"
proof -
  have r: "reader_at E f a j path c k w" using i by (simp add: scan_at_def)
  note b = reader_at_block [OF r]
  have v: "bview w' a = bview w a" "bview w' j = bview w j" using i s b(1,2) by (auto simp: scan_at_def scan_step_def)
  have "wf_world E w'" using s scanner_atD(1) by (auto simp: scan_step_def)
  then have "reader_at E f a j path c k w'" using r v by (simp add: reader_at_def block_read_def journal_at_def)
  moreover have "a \<notin> data_blocks sc'" "j \<notin> data_blocks sc'" using i s b(1,2) by (auto simp: scan_at_def scan_step_def)
  moreover have "path \<notin> hist_paths H'" "path @ ''.journal'' \<notin> hist_paths H'"
    using i s b(3,4) by (auto simp: scan_at_def scan_step_def)
  ultimately show ?thesis using s by (simp add: scan_at_def scan_step_def)
qed

lemma scan_at_journal:
  assumes i: "scan_at E dids sc H f a j path c k w" and t: "touches E j (path @ ''.journal'') w w'" and wf: "wf_world E w'"
    and j: "journal_at E j (path @ ''.journal'') w'"
  shows "scan_at E dids sc H f a j path c k w'"
proof -
  have r: "reader_at E f a j path c k w" and sc: "scanner_at E dids sc H w" using i by (simp_all add: scan_at_def)
  note b = reader_at_block [OF r]
  have "scanner_at E dids sc H w'"
  proof (rule scanner_frame [OF sc wf])
    show "bview w' x = bview w x" if "x \<in> data_blocks sc" for x using that i t by (auto simp: scan_at_def touches_def)
    show "files w' (getAbsolutePath E p) = files w (getAbsolutePath E p)" if "p \<in> hist_paths H" for p
    proof -
      have "p \<noteq> path @ ''.journal''" using that i by (auto simp: scan_at_def)
      then show ?thesis using t by (simp add: touches_def)
    qed
    show "files w' (getAbsolutePath E (block_name E (data_path did) n)) = None"
      if "files w (getAbsolutePath E (block_name E (data_path did) n)) = None" for did n
    proof -
      have "getAbsolutePath E (block_name E (data_path did) n) \<noteq> getAbsolutePath E (path @ ''.journal'')"
        using that b(4) by metis
      then show ?thesis using t that by (simp add: touches_def)
    qed
  qed (use t in \<open>auto simp: touches_def\<close>)
  moreover have "reader_at E f a j path c k w'"
    using r t wf j by (auto simp: reader_at_def block_read_def touches_def)
  ultimately show ?thesis using i by (simp add: scan_at_def)
qed

lemma psd_write_scan:
  assumes E: "calm E" and i: "scan_at E dids sc H f a j path c k w"
  obtains w' where "psd_write E (Some j) bs w = Ret (0, w')" "scan_at E dids sc H f a j path c k w'"
proof -
  have wf: "wf_world E w" using i by (simp add: scan_at_def reader_at_def)
  from i obtain b st cj where b: "bview w j = Some (b, st, cj)" "vfs_path b = path @ ''.journal''" "fs_out st" "stream_good st"
    by (auto simp: scan_at_def reader_at_def journal_at_def)
  obtain w' where w': "psd_write E (Some j) bs w = Ret (0, w')" "wf_world E w'" "touches E j (vfs_path b) w w'"
    "bview w' j = Some (b, st\<lparr>fs_pos := length cj + length bs\<rparr>, cj @ bs)" by (rule psd_write_calm [OF E wf b(1,3,4)])
  have "journal_at E j (path @ ''.journal'') w'" using w'(4) b by (auto simp: journal_at_def stream_good_def)
  then show thesis using that w'(1) scan_at_journal [OF i _ w'(2)] w'(3) b(2) by auto
qed

lemma psd_flush_scan:
  assumes E: "calm E" and i: "scan_at E dids sc H f a j path c k w"
  obtains w' where "psd_flush E (Some j) w = Ret (0, w')" "scan_at E dids sc H f a j path c k w'"
proof -
  have wf: "wf_world E w" using i by (simp add: scan_at_def reader_at_def)
  from i obtain b st cj where b: "bview w j = Some (b, st, cj)" "vfs_path b = path @ ''.journal''" "fs_out st" "stream_good st"
    by (auto simp: scan_at_def reader_at_def journal_at_def)
  obtain w' where w': "psd_flush E (Some j) w = Ret (0, w')" "wf_world E w'" "touches E j (vfs_path b) w w'"
    "\<exists>q. bview w' j = Some (b, st\<lparr>fs_pos := q\<rparr>, cj)" by (rule psd_flush_calm [OF E wf b(1,4)])
  have "journal_at E j (path @ ''.journal'') w'" using w'(4) b by (auto simp: journal_at_def stream_good_def)
  then show thesis using that w'(1) scan_at_journal [OF i _ w'(2)] w'(3) b(2) by auto
qed

lemma scan_at_pointers:
  "scan_at E dids sc H f a j path c k w \<Longrightarrow> current_journal_data_block f = Some j"
  "scan_at E dids sc H f a j path c k w \<Longrightarrow> current_data_block f = Some a"
  by (auto simp: scan_at_def reader_at_def)

lemma journal_append_scan:
  assumes E: "calm E" and i: "scan_at E dids sc H f a j path c k w"
  obtains w' where "appendValueToJournal E f v w = Ret (0, w')" "scan_at E dids sc H f a j path c k w'"
  using psd_write_scan [OF E i, of "text_bytes (v @ '':'')"] scan_at_pointers(1) [OF i] that
  by (auto simp: appendValueToJournal_def journal_write_def)

lemma journal_open_scan:
  assumes E: "calm E" and i: "scan_at E dids sc H f a j path c k w"
  obtains w' where "openKeyToJournal E f v w = Ret (0, w')" "scan_at E dids sc H f a j path c k w'"
  using psd_write_scan [OF E i, of "text_bytes ('':'' @ v @ '':'')"] scan_at_pointers(1) [OF i] that
  by (auto simp: openKeyToJournal_def journal_write_def)

lemma journal_close_scan:
  assumes E: "calm E" and i: "scan_at E dids sc H f a j path c k w"
  obtains w' where "closeKeyToJournal E f v w = Ret (0, w')" "scan_at E dids sc H f a j path c k w'"
proof -
  obtain w1 where w1: "psd_write E (Some j) (text_bytes (v @ '':'' @ [CHR 0x0A])) w = Ret (0, w1)"
    "scan_at E dids sc H f a j path c k w1" by (rule psd_write_scan [OF E i])
  obtain w' where w': "psd_flush E (Some j) w1 = Ret (0, w')" "scan_at E dids sc H f a j path c k w'"
    by (rule psd_flush_scan [OF E w1(2)])
  have "closeKeyToJournal E f v w = Ret (0, w')"
    using scan_at_pointers(1) [OF i] w1(1) w'(1) by (simp add: closeKeyToJournal_def act_simps)
  then show thesis using that w'(2) by blast
qed

lemma journal_sync_scan:
  assumes E: "calm E" and i: "scan_at E dids sc H f a j path c k w"
  obtains w' where "syncCurrentOffsetToJournal E f w = Ret (0, w')" "scan_at E dids sc H f a j path c k w'"
proof -
  from i obtain b where b: "blocks w a = Some b" by (auto simp: scan_at_def reader_at_def block_read_def elim!: bviewE)
  let ?v = "decimal (unat (current_work_position b))"
  obtain w1 where w1: "openKeyToJournal E f ''offset'' w = Ret (0, w1)" "scan_at E dids sc H f a j path c k w1"
    by (rule journal_open_scan [OF E i])
  obtain w2 where w2: "appendValueToJournal E f ?v w1 = Ret (0, w2)" "scan_at E dids sc H f a j path c k w2"
    by (rule journal_append_scan [OF E w1(2)])
  obtain w3 where w3: "closeKeyToJournal E f ''offset'' w2 = Ret (0, w3)" "scan_at E dids sc H f a j path c k w3"
    by (rule journal_close_scan [OF E w2(2)])
  obtain w' where w': "psd_flush E (Some j) w3 = Ret (0, w')" "scan_at E dids sc H f a j path c k w'"
    by (rule psd_flush_scan [OF E w3(2)])
  have "syncCurrentOffsetToJournal E f w = Ret (0, w')"
    using scan_at_pointers [OF i] b w1(1) w2(1) w3(1) w'(1)
    by (simp add: syncCurrentOffsetToJournal_def syncWorkPositionFromDatablockAndJournal_def writeKeyValueToJournal_def act_simps)
  then show thesis using that w'(2) by blast
qed

section \<open>Finding the data file of a device\<close>

lemma map_of_insort:
  assumes "k \<notin> fst ` set xs"
  shows "map_of (insort_key fst (k, v) xs) = (map_of xs)(k \<mapsto> v)"
  using assms by (induction xs) (auto simp: fun_eq_iff)

lemma distinct_keys_insort:
  assumes "k \<notin> fst ` set xs" and "distinct (map fst xs)"
  shows "distinct (map fst (insort_key fst (k, v) xs))"
  using assms by (induction xs) (auto simp: set_insort_key)

lemma hist_paths_upd:
  "fst ` set (H did) \<subseteq> fst ` set h' \<Longrightarrow> hist_paths H \<subseteq> hist_paths (H(did := h'))"
  by (auto simp: hist_paths_def split: if_splits) (metis image_eqI subsetD fst_conv)

lemma createPath_calm:
  assumes "calm E"
  obtains ds where "psd_createPath E p w = Ret (0, w\<lparr>dirs := ds @ dirs w, ticks := Suc (ticks w)\<rparr>)"
    "set ds \<subseteq> set (path_prefixes (getAbsolutePath E p))"
proof (cases "list_all (\<lambda>q. files w q = None) (path_prefixes (getAbsolutePath E p))")
  case True
  then show thesis using calmD(1) [OF assms]
    by (intro that [of "path_prefixes (getAbsolutePath E p)"]) (simp_all add: psd_createPath_def act_simps Let_def)
next
  case False
  then show thesis using that [of "[]"] by (simp add: psd_createPath_def act_simps Let_def)
qed

lemma bview_dirs [simp]:
  "bview (w\<lparr>dirs := ds\<rparr>) = bview w" "wf_world E (w\<lparr>dirs := ds\<rparr>) = wf_world E w"
  by (simp_all add: bview_def fun_eq_iff file_bytes_def wf_world_def open_block_def cong: option.case_cong)

lemma scanner_add:
  assumes N: "names_apart E dids" and i: "scanner_at E dids sc H w" and did: "did \<in> dids" "map_of (map_did_data_file sc) did = None"
    and f: "open_mode f = VFSFileOpenModeWrite" "current_data_block f = None" "current_journal_data_block f = None"
      "vfs_fpath (vfs_file_info f) = data_path did"
    and ds: "set ds \<subseteq> set (path_prefixes (getAbsolutePath E (data_path did)))"
    and sc': "map_did_data_file sc' = insort_key fst (did, f) (map_did_data_file sc)" "data_buffer sc' = data_buffer sc"
  defines "w' \<equiv> w\<lparr>dirs := ds @ dirs w, ticks := Suc (ticks w)\<rparr>"
  shows "scan_step E dids sc H w sc' H w'"
proof -
  note D = scanner_atD [OF i]
  have k: "did \<notin> fst ` set (map_did_data_file sc)" using did(2) by (simp add: map_of_eq_None_iff)
  have mo: "map_of (map_did_data_file sc') = (map_of (map_did_data_file sc))(did \<mapsto> f)"
    unfolding sc'(1) by (rule map_of_insort [OF k])
  have bv: "bview w' = bview w" "blocks w' = blocks w" "files w' = files w" "next_addr w' = next_addr w"
    by (simp_all add: w'_def)
  have df: "data_file_at E g h w' = data_file_at E g h w" for g h
    using bv by (simp add: data_file_at_def sealed_def split: option.split)
  have fresh: "fresh_names E (data_path d) w'" if "d \<in> dids" for d
    unfolding fresh_names_def Let_def
  proof (intro allI impI)
    fix n assume "ticks w' \<le> n"
    then have "ticks w \<le> n" by (simp add: w'_def)
    then show "files w' (getAbsolutePath E (block_name E (data_path d) n)) = None \<and>
        getAbsolutePath E (block_name E (data_path d) n) \<notin> set (dirs w')"
      using D(7) [OF that] N did(1) that ds by (auto simp: fresh_names_def Let_def names_apart_def w'_def)
  qed
  have keys: "distinct (map fst (map_did_data_file sc'))"
    unfolding sc'(1) by (rule distinct_keys_insort [OF k D(2)])
  have "scanner_at E dids sc' H w'"
    unfolding scanner_at_def mo
  proof (intro conjI allI impI)
    show "wf_world E w'" using D(1) by (simp add: w'_def)
    fix d g assume "((map_of (map_did_data_file sc))(did \<mapsto> f)) d = Some g"
    then have "d = did \<and> g = f \<or> d \<noteq> did \<and> map_of (map_did_data_file sc) d = Some g" by (auto split: if_splits)
    then show "d \<in> dids" "data_file_at E g (H d) w'" "vfs_fpath (vfs_file_info g) = data_path d"
      using did D(3) [of d g] D(4) [of d g] D(5) [of d g] f D(6) [OF did(2)] unfolding df by (auto simp: data_file_at_def)
  next
    fix d1 f1 d2 f2 a
    assume a: "((map_of (map_did_data_file sc))(did \<mapsto> f)) d1 = Some f1" "((map_of (map_did_data_file sc))(did \<mapsto> f)) d2 = Some f2"
      "d1 \<noteq> d2" "current_data_block f1 = Some a"
    show "current_data_block f2 \<noteq> Some a"
      using a f(2) D(9) [of d1 f1 d2 f2 a] by (cases "d1 = did"; cases "d2 = did") auto
  next
    fix d1 d2 :: string assume "d1 \<noteq> d2"
    then show "fst ` set (H d1) \<inter> fst ` set (H d2) = {}" by (rule D(8))
  qed (use keys fresh D(6) in \<open>auto split: if_splits\<close>)
  moreover have "data_blocks sc' = data_blocks sc"
    unfolding data_blocks_def mo using f(2) did(2) by (auto split: if_splits) (metis option.distinct(1))
  ultimately show ?thesis using bv sc'(2) by (simp add: scan_step_def w'_def)
qed

context block_index
begin

lemma get_data_file:
  assumes E: "calm E" "good_uuids E" "names_apart E dids" and A: "db_accepts D"
    and i: "scanner_at E dids sc H w" and did: "did \<in> dids"
  obtains f sc' H' w' where "getWriteableFileForDID E D sc did w = Ret ((f, sc'), w')" "scan_step E dids sc H w sc' H' w'"
    "map_of (map_did_data_file sc') did = Some f" "current_data_block f \<noteq> None"
    "\<forall>d. concat (map snd (H' d)) = concat (map snd (H d))" "hist_paths H \<subseteq> hist_paths H'"
proof -
  note result = that
  have inj: "inj (env_uuid E)" using E(2) by (simp add: good_uuids_def)
  have pre: thesis if i1: "scan_step E dids sc H w sc1 H w1" and f1: "map_of (map_did_data_file sc1) did = Some f1"
    and e: "getWriteableFileForDID E D sc did w = abind (data_prefetchData E D f1) (\<lambda>(_, f2). areturn (f2, store_data_file did f2 sc1)) w1"
    for sc1 w1 f1
  proof -
    have s1: "scanner_at E dids sc1 H w1" using i1 by (simp add: scan_step_def)
    note D1 = scanner_atD [OF s1]
    obtain f2 h' w' where p: "data_prefetchData E D f1 w1 = Ret ((0, f2), w')" "data_step E f1 (H did) [] w1 f2 h' w'"
      "current_data_block f2 \<noteq> None"
      by (rule data_prefetch_step [OF E(1) inj A D1(1) D1(4) [OF f1]]) (use D1(5) [OF f1] D1(7) [OF did] in simp)
    note st = scan_step_store [OF E(2) s1 f1 p(2)]
    have sub: "hist_paths H \<subseteq> hist_paths (H(did := h'))" by (rule hist_paths_upd) (use p(2) in \<open>simp add: data_step_def\<close>)
    have "getWriteableFileForDID E D sc did w = Ret ((f2, store_data_file did f2 sc1), w')"
      using e p(1) by (simp add: act_simps)
    moreover have "map_of (map_did_data_file (store_data_file did f2 sc1)) did = Some f2"
      by (simp add: store_data_file_def update_conv')
    moreover have "\<forall>d. concat (map snd ((H(did := h')) d)) = concat (map snd (H d))" using p(2) by (simp add: data_step_def)
    ultimately show thesis using result scan_step_trans [OF i1 st sub] p(3) sub by blast
  qed
  show thesis
  proof (cases "map_of (map_did_data_file sc) did")
    case (Some f1)
    have "scan_step E dids sc H w sc H w" using i by (auto simp: scan_step_def)
    then show thesis
      by (rule pre [OF _ Some]) (simp add: getWriteableFileForDID_def Some act_simps store_data_file_def)
  next
    case None
    let ?f0 = "new_VFSFile ''data'' did VFSFileOpenModeWrite"
    obtain ds where c: "psd_createPath E (data_path did) w = Ret (0, w\<lparr>dirs := ds @ dirs w, ticks := Suc (ticks w)\<rparr>)"
      "set ds \<subseteq> set (path_prefixes (getAbsolutePath E (data_path did)))" by (rule createPath_calm [OF E(1)])
    obtain f m where f: "register_file E (sc_manager sc) (?f0\<lparr>file_is_good := True\<rparr>) = (f, m)" by fastforce
    have fi: "open_mode f = VFSFileOpenModeWrite" "current_data_block f = None" "current_journal_data_block f = None"
      "vfs_fpath (vfs_file_info f) = data_path did"
      using f by (auto simp: register_file_def new_VFSFile_def Let_def split: prod.splits)
    let ?sc = "sc\<lparr>sc_manager := m, map_did_data_file := insort_key fst (did, f) (map_did_data_file sc)\<rparr>"
    note st = scanner_add [OF E(3) i did None fi c(2), of ?sc]
    have k: "did \<notin> fst ` set (map_did_data_file sc)" using None by (simp add: map_of_eq_None_iff)
    have g: "getWriteableDataFile E (sc_manager sc) did w = Ret ((0, Some f, m), w\<lparr>dirs := ds @ dirs w, ticks := Suc (ticks w)\<rparr>)"
      using c(1) f by (simp add: getWriteableDataFile_def new_VFSDataWriteableFile_def new_VFSFile_def act_simps Let_def)
    show thesis
    proof (rule pre [of ?sc "w\<lparr>dirs := ds @ dirs w, ticks := Suc (ticks w)\<rparr>" f])
      show "map_of (map_did_data_file ?sc) did = Some f" by (simp add: map_of_insort [OF k])
      show "getWriteableFileForDID E D sc did w = abind (data_prefetchData E D f) (\<lambda>(_, f2). areturn (f2, store_data_file did f2 ?sc))
          (w\<lparr>dirs := ds @ dirs w, ticks := Suc (ticks w)\<rparr>)"
        using g by (simp add: getWriteableFileForDID_def None act_simps store_data_file_def Let_def)
    qed (use st in simp)
  qed
qed

end

section \<open>One pack\<close>

definition db_serves :: "'d db_driver \<Rightarrow> bool" where
  "db_serves D \<longleftrightarrow> db_accepts D \<and> (\<forall>i b d. fst (idxAddDataPackIndex D i b d) \<in> {0, 11000}) \<and>
     (\<forall>info b t d. fst (vfsSetHeartbeatOnDatablock D info b t d) = 0) \<and>
     (\<forall>dom p s d. fst (idxSetDataPackIndexStateByDataBlock D dom p s d) = 0)"

text \<open>The device a pack is for; a pack without one of the three fields is skipped.\<close>

definition pack_target :: "(u8 list \<Rightarrow> pack_view option) \<Rightarrow> u8 list \<Rightarrow> string option" where
  "pack_target parse p =
     (case parse p of
        None \<Rightarrow> None
      | Some pv \<Rightarrow> (case (pv_did pv, pv_timestamp pv, pv_ds_type pv) of
                      (DidString did, Some ts, Some ty) \<Rightarrow> Some did | _ \<Rightarrow> None))"

text \<open>
  A well-formed pack: it begins with its length, and the parser looks at the pack only and finds the
  device of a known set, if it finds one.
\<close>

definition pack_ok :: "(u8 list \<Rightarrow> pack_view option) \<Rightarrow> string set \<Rightarrow> u8 list \<Rightarrow> bool" where
  "pack_ok parse dids p \<longleftrightarrow>
     4 < length p \<and> length p < 2 ^ 31 \<and> of_le (take 4 p) = (of_nat (length p) :: u32) \<and>
     parse p \<noteq> None \<and> (\<forall>rest. parse (p @ rest) = parse p) \<and>
     (\<forall>pv. parse p = Some pv \<longrightarrow> pv_did pv \<noteq> DidOther) \<and> (\<forall>did. pack_target parse p = Some did \<longrightarrow> did \<in> dids)"

lemma scan_at_store:
  assumes i: "scan_at E dids sc H f a j path c k w" and s: "same_store w w'" and m: "map_did_data_file sc' = map_did_data_file sc"
  shows "scan_at E dids sc' H f a j path c k w'"
proof -
  note ss = same_storeD [OF s]
  have "scanner_at E dids sc' H w'"
    using i by (intro scanner_frame [of E dids sc H w w' sc']) (auto simp: scan_at_def ss m intro: scanner_atD(1) reader_at_block)
  moreover have "reader_at E f a j path c k w'" using i ss by (simp add: scan_at_def reader_at_def block_read_def journal_at_def)
  moreover have "data_blocks sc' = data_blocks sc" by (simp add: data_blocks_def m)
  ultimately show ?thesis using i by (simp add: scan_at_def)
qed

lemma header_size_buffer:
  assumes "data_buffer sc = p @ rest" and "4 \<le> length p" and "of_le (take 4 p) = n"
  shows "header_size h sc w = Ret (n, w)"
  using assms swap_of_mem(2) [of "take 4 p" h] by (simp add: header_size_def peek_def)

lemma heartbeat_store:
  assumes A: "db_serves D" and lv: "\<forall>x. current_data_block g = Some x \<longrightarrow> blocks w x \<noteq> None"
  obtains sc' w' where "data_file_heartbeat D t did g sc w = Ret ((0, sc'), w')" "same_store w w'"
    "map_did_data_file sc' = map_did_data_file sc" "data_buffer sc' = data_buffer sc"
proof (cases "last_hb_on_vfile sc + 2000 < t")
  case False
  then show thesis by (intro that [of sc w]) (simp_all add: data_file_heartbeat_def act_simps same_store_intros)
next
  case True
  show thesis
  proof (cases "current_data_block g")
    case None
    then show thesis using True
      by (intro that [of "sc\<lparr>last_hb_on_vfile := t\<rparr>" w])
        (simp_all add: data_file_heartbeat_def giveHeartbeat_def act_simps same_store_intros)
  next
    case (Some x)
    with lv obtain b where b: "blocks w x = Some b" by auto
    have "fst (vfsSetHeartbeatOnDatablock D (vfs_file_info g) b t (database w)) = 0" using A by (simp add: db_serves_def)
    then show thesis using True Some b
      by (intro that [of "sc\<lparr>last_hb_on_vfile := t\<rparr>"
            "w\<lparr>database := snd (vfsSetHeartbeatOnDatablock D (vfs_file_info g) b t (database w))\<rparr>"])
        (simp_all add: data_file_heartbeat_def giveHeartbeat_def act_simps same_store_intros)
  qed
qed

lemma pack_bytes_buffer:
  assumes "data_buffer sc = p @ rest" and "unat n = length p"
  shows "pack_bytes n sc w = Ret (p, w)"
  using assms by (simp add: pack_bytes_def peek_def)

context block_index
begin

lemma process_pack:
  assumes E: "calm E" "good_uuids E" "names_apart E dids" and A: "db_serves D"
    and i: "scan_at E dids sc H f a j path c k w" and p: "pack_ok parse dids p" and b: "data_buffer sc = p @ rest"
  shows "\<exists>sc' H' w'. processDataPack E D h parse sc f w = Ret ((0, sc'), w') \<and> scan_at E dids sc' H' f a j path c k w' \<and>
     (\<forall>d. concat (map snd (H' d)) = concat (map snd (H d)) @ (if pack_target parse p = Some d then [p] else [])) \<and>
     data_buffer sc' = data_buffer sc"
proof -
  let ?w0 = "w\<lparr>ticks := Suc (ticks w)\<rparr>"
  have i0: "scan_at E dids sc H f a j path c k ?w0" by (rule scan_at_store [OF i]) (simp_all add: same_store_def)
  from p obtain pv where pv: "parse (data_buffer sc) = Some pv" "parse p = Some pv" "pv_did pv \<noteq> DidOther"
    by (auto simp: pack_ok_def b)
  show ?thesis
  proof (cases "pack_target parse p")
    case None
    then have "processDataPack E D h parse sc f w = Ret ((0, sc), ?w0)"
      using pv by (auto simp: pack_target_def processDataPack_def act_simps split: did_field.splits option.splits)
    then show ?thesis using i0 None by (intro exI [of _ sc] exI [of _ H] exI [of _ ?w0]) simp
  next
    case (Some did)
    then obtain ts ty where t: "pv_did pv = DidString did" "pv_timestamp pv = Some ts" "pv_ds_type pv = Some ty"
      using pv by (auto simp: pack_target_def split: did_field.splits option.splits)
    have did: "did \<in> dids" using p Some by (simp add: pack_ok_def)
    have hs: "header_size h sc x = Ret (of_nat (length p), x)" for x :: "'d world"
      by (rule header_size_buffer [OF b]) (use p in \<open>simp_all add: pack_ok_def\<close>)
    have un: "unat (of_nat (length p) :: u32) = length p" by (rule unat_u32_small) (use p in \<open>simp add: pack_ok_def\<close>)
    have A': "db_accepts D" using A by (simp add: db_serves_def)
    have s0: "scanner_at E dids sc H ?w0" using i0 by (simp add: scan_at_def)
    obtain g sc1 H1 w1 where g: "getWriteableFileForDID E D sc did ?w0 = Ret ((g, sc1), w1)" "scan_step E dids sc H ?w0 sc1 H1 w1"
      "map_of (map_did_data_file sc1) did = Some g" "current_data_block g \<noteq> None"
      "\<forall>d. concat (map snd (H1 d)) = concat (map snd (H d))" "hist_paths H \<subseteq> hist_paths H1"
      by (rule get_data_file [OF E A' s0 did])
    have i1: "scan_at E dids sc1 H1 f a j path c k w1" by (rule scan_at_step [OF i0 g(2)])
    obtain w2 where w2: "appendValueToJournal E f ''gdf'' w1 = Ret (0, w2)" "scan_at E dids sc1 H1 f a j path c k w2"
      by (rule journal_append_scan [OF E(1) i1])
    obtain x where x: "current_data_block g = Some x" using g(4) by auto
    have "data_file_at E g (H1 did) w2" using w2(2) g(3) scanner_atD(4) by (auto simp: scan_at_def)
    from data_file_at_live [OF this x] obtain bx where bx: "blocks w2 x = Some bx" by auto
    obtain loc where loc: "getCurrentFileLocation g w2 = Ret (loc, w2)" "loc_block loc = Some x" "file_location_isValid loc"
      using x bx by (simp add: getCurrentFileLocation_def FileLocationPointer_def act_simps file_location_isValid_def path_location_isValid_def)
    obtain w3 where w3: "appendValueToJournal E f ''gloc'' w2 = Ret (0, w3)" "scan_at E dids sc1 H1 f a j path c k w3"
      by (rule journal_append_scan [OF E(1) w2(2)])
    have "data_file_at E g (H1 did) w3" using w3(2) g(3) scanner_atD(4) by (auto simp: scan_at_def)
    from data_file_at_live [OF this x] obtain by' where by': "blocks w3 x = Some by'" by auto
    let ?idx = "\<lparr>idx_did = did, idx_ds_type = ty, idx_acquisition_ts = ts, idx_dst_location = loc, idx_datapack_size = of_nat (length p)\<rparr>"
    let ?add = "idxAddDataPackIndex D ?idx by' (database w3)"
    let ?w3 = "w3\<lparr>database := snd ?add\<rparr>"
    have ok: "fst ?add = 0 \<or> fst ?add = 11000" using A by (auto simp: db_serves_def)
    have i3: "scan_at E dids sc1 H1 f a j path c k ?w3" by (rule scan_at_store [OF w3(2)]) (simp_all add: same_store_def)
    obtain w4 where w4: "appendValueToJournal E f ''widx'' ?w3 = Ret (0, w4)" "scan_at E dids sc1 H1 f a j path c k w4"
      by (rule journal_append_scan [OF E(1) i3])
    have s4: "scanner_at E dids sc1 H1 w4" using w4(2) by (simp add: scan_at_def)
    note D4 = scanner_atD [OF s4]
    have inj: "inj (env_uuid E)" using E(2) by (simp add: good_uuids_def)
    obtain g' h' w5 where w5: "data_write E D g p w4 = Ret ((0, g'), w5)" "data_step E g (H1 did) [p] w4 g' h' w5"
      by (rule data_write_step [OF E(1) inj A' D4(1) D4(4) [OF g(3)]]) (use D4(5) [OF g(3)] D4(7) [OF did] in simp)
    let ?sc2 = "store_data_file did g' sc1" and ?H2 = "H1(did := h')"
    have i5: "scan_at E dids ?sc2 ?H2 f a j path c k w5"
      by (rule scan_at_step [OF w4(2) scan_step_store [OF E(2) s4 g(3) w5(2)]])
    obtain w6 where w6: "appendValueToJournal E f ''wpack'' w5 = Ret (0, w6)" "scan_at E dids ?sc2 ?H2 f a j path c k w6"
      by (rule journal_append_scan [OF E(1) i5])
    have bf: "data_buffer sc1 = p @ rest" using g(2) b by (simp add: scan_step_def)
    have s6: "scanner_at E dids ?sc2 ?H2 w6" using w6(2) by (simp add: scan_at_def)
    have "map_of (map_did_data_file ?sc2) did = Some g'" by (simp add: store_data_file_def update_conv')
    from scanner_atD(4) [OF s6 this] have lv: "\<forall>x. current_data_block g' = Some x \<longrightarrow> blocks w6 x \<noteq> None"
      using data_file_at_live by blast
    obtain sc3 w7 where w7: "data_file_heartbeat D (env_now E (ticks w)) did g' ?sc2 w6 = Ret ((0, sc3), w7)" "same_store w6 w7"
        "map_did_data_file sc3 = map_did_data_file ?sc2" "data_buffer sc3 = data_buffer ?sc2"
      by (rule heartbeat_store [OF A lv])
    have i7: "scan_at E dids sc3 ?H2 f a j path c k w7" by (rule scan_at_store [OF w6(2) w7(2,3)])
    have pb: "pack_bytes (of_nat (length p)) sc1 w4 = Ret (p, w4)" by (rule pack_bytes_buffer [OF bf un])
    have "processDataPack E D h parse sc f w = Ret ((0, sc3), w7)"
      using pv(1) t hs g(1) w2(1) loc w3(1) by' ok w4(1) pb w5(1) w6(1) w7(1)
      by (auto simp: processDataPack_def act_simps Let_def)
    moreover have "concat (map snd (?H2 d)) = concat (map snd (H d)) @ (if pack_target parse p = Some d then [p] else [])" for d
      using g(5) w5(2) Some by (auto simp: data_step_def)
    moreover have "data_buffer sc3 = data_buffer sc" using w7(4) bf b by (simp add: store_data_file_def)
    ultimately show ?thesis using i7 by blast
  qed
qed

end

end
