(* ===== verification/Stage_Scan.thy ===== *)
theory Stage_Scan
  imports Pack_Scan
begin

text \<open>
  The loop of the scanner over the packs of one block, its end, and the maintenance of the data files
  that follows.
\<close>

section \<open>One round\<close>

lemma scan_at_read:
  assumes i: "scan_at E dids sc H f a j path c k w" and t: "touches E a path w w'" and r': "reader_at E f a j path c k' w'"
    and m: "map_did_data_file sc' = map_did_data_file sc"
  shows "scan_at E dids sc' H f a j path c k' w'"
proof -
  have r: "reader_at E f a j path c k w" and s: "scanner_at E dids sc H w" using i by (simp_all add: scan_at_def)
  note b = reader_at_block [OF r]
  have "scanner_at E dids sc' H w'"
  proof (rule scanner_frame [OF s])
    show "wf_world E w'" using r' by (simp add: reader_at_def)
    show "bview w' x = bview w x" if "x \<in> data_blocks sc" for x using that i t by (auto simp: scan_at_def touches_def)
    show "files w' (getAbsolutePath E p) = files w (getAbsolutePath E p)" if "p \<in> hist_paths H" for p
    proof -
      have "p \<noteq> path" using that i by (auto simp: scan_at_def)
      then show ?thesis using t by (simp add: touches_def)
    qed
    show "files w' (getAbsolutePath E (block_name E (data_path did) n)) = None"
      if "files w (getAbsolutePath E (block_name E (data_path did) n)) = None" for did n
    proof -
      have "getAbsolutePath E (block_name E (data_path did) n) \<noteq> getAbsolutePath E path" using that b(3) by metis
      then show ?thesis using t that by (simp add: touches_def)
    qed
  qed (use t m in \<open>auto simp: touches_def\<close>)
  moreover have "data_blocks sc' = data_blocks sc" by (simp add: data_blocks_def m)
  ultimately show ?thesis using i r' by (simp add: scan_at_def)
qed

lemma stage_read_scan:
  assumes E: "calm E" and i: "scan_at E dids sc H f a j path c k w" and n: "k + n \<le> length c" "k < length c"
  obtains w' where "stage_read fuel E D f (of_nat n) w = Ret (Some ((int n, take n (drop k c)), f), w')"
    "scan_at E dids sc H f a j path c (k + n) w'"
proof -
  have r: "reader_at E f a j path c k w" using i by (simp add: scan_at_def)
  obtain w' where w': "stage_read fuel E D f (of_nat n) w = Ret (Some ((int n, take n (drop k c)), f), w')"
    "reader_at E f a j path c (k + n) w'" "touches E a path w w'"
    by (rule stage_read_calm [OF E r n])
  then show thesis using that scan_at_read [OF i w'(3,2)] by blast
qed

lemma fill_buffer_Ret:
  assumes "off + length bs \<le> length (data_buffer sc)"
  shows "fill_buffer off bs sc w =
    Ret (sc\<lparr>data_buffer := take off (data_buffer sc) @ bs @ drop (off + length bs) (data_buffer sc)\<rparr>, w)"
  using assms by (simp add: fill_buffer_def poke_def)

lemma scan_at_buffer:
  assumes "scan_at E dids sc H f a j path c k w" and "map_did_data_file sc' = map_did_data_file sc"
  shows "scan_at E dids sc' H f a j path c k w"
  by (rule scan_at_store [OF assms(1) _ assms(2)]) (simp add: same_store_intros)

lemma of_nat_minus_4: "4 < n \<Longrightarrow> (of_nat n - 4 :: u32) = of_nat (n - 4)"
  by (simp add: of_nat_diff)

context block_index
begin

lemma scan_round_pack:
  assumes E: "calm E" "good_uuids E" "names_apart E dids" and A: "db_serves D"
    and i: "scan_at E dids sc H f a j path c k w" and p: "pack_ok parse dids p" and c: "drop k c = p @ rest"
    and b: "4 \<le> length (data_buffer sc)"
  shows "\<exists>sc' H' w'. scan_round fuel E D h parse junk sc f w = Ret (Some (True, 0, sc', f), w') \<and>
     scan_at E dids sc' H' f a j path c (k + length p) w' \<and> 4 \<le> length (data_buffer sc') \<and>
     (\<forall>d. concat (map snd (H' d)) = concat (map snd (H d)) @ (if pack_target parse p = Some d then [p] else []))"
proof -
  have p4: "4 < length p" "of_le (take 4 p) = (of_nat (length p) :: u32)" using p by (auto simp: pack_ok_def)
  have lc: "length (drop k c) = length p + length rest" unfolding c by simp
  then have len: "k + length p \<le> length c" "k < length c" using p4 by auto
  have l4: "k + 4 \<le> length c" "k + 4 + (length p - 4) \<le> length c" "k + 4 < length c" using len p4 by auto
  have d1: "take 4 (drop k c) = take 4 p" unfolding c using p4 by simp
  have "drop (k + 4) c = drop 4 (drop k c)" by (simp add: add.commute)
  then have d2: "take (length p - 4) (drop (k + 4) c) = drop 4 p" unfolding c using p4 by simp
  obtain w1 where w1: "syncCurrentOffsetToJournal E f w = Ret (0, w1)" "scan_at E dids sc H f a j path c k w1"
    by (rule journal_sync_scan [OF E(1) i])
  obtain w2 where w2: "openKeyToJournal E f ''process'' w1 = Ret (0, w2)" "scan_at E dids sc H f a j path c k w2"
    by (rule journal_open_scan [OF E(1) w1(2)])
  obtain w3 where w3: "stage_read fuel E D f (of_nat 4) w2 = Ret (Some ((int 4, take 4 (drop k c)), f), w3)"
    "scan_at E dids sc H f a j path c (k + 4) w3"
    by (rule stage_read_scan [OF E(1) w2(2) l4(1) len(2)])
  let ?sc1 = "sc\<lparr>data_buffer := take 4 p @ drop 4 (data_buffer sc)\<rparr>"
  have f1: "fill_buffer 0 (take 4 p) sc w3 = Ret (?sc1, w3)" using fill_buffer_Ret [of 0 "take 4 p" sc w3] b p4 by simp
  have i3: "scan_at E dids ?sc1 H f a j path c (k + 4) w3" by (rule scan_at_buffer [OF w3(2)]) simp
  obtain w4 where w4: "appendValueToJournal E f ''rh'' w3 = Ret (0, w4)" "scan_at E dids ?sc1 H f a j path c (k + 4) w4"
    by (rule journal_append_scan [OF E(1) i3])
  have hs: "header_size h ?sc1 w4 = Ret (of_nat (length p), w4)"
    by (rule header_size_buffer [of _ "take 4 p" "drop 4 (data_buffer sc)"]) (use p4 in auto)
  let ?sc2 = "scanner_grow junk (of_nat (length p)) ?sc1"
  have un: "unat (of_nat (length p) :: u32) = length p" by (rule unat_u32_small) (use p in \<open>simp add: pack_ok_def\<close>)
  have b2: "length p \<le> length (data_buffer ?sc2)" "take 4 (data_buffer ?sc2) = take 4 p"
    "map_did_data_file ?sc2 = map_did_data_file sc"
    using p4 b un by (auto simp: scanner_grow_def)
  have i4: "scan_at E dids ?sc2 H f a j path c (k + 4) w4" by (rule scan_at_buffer [OF w4(2)]) (use b2(3) in simp)
  obtain w5 where w5: "stage_read fuel E D f (of_nat (length p - 4)) w4 =
      Ret (Some ((int (length p - 4), take (length p - 4) (drop (k + 4) c)), f), w5)"
    "scan_at E dids ?sc2 H f a j path c (k + 4 + (length p - 4)) w5"
    by (rule stage_read_scan [OF E(1) i4 l4(2,3)])
  have k5: "k + 4 + (length p - 4) = k + length p" using p4 by simp
  let ?sc3 = "?sc2\<lparr>data_buffer := p @ drop (length p) (data_buffer ?sc2)\<rparr>"
  have f2: "fill_buffer 4 (drop 4 p) ?sc2 w5 = Ret (?sc3, w5)"
  proof -
    have "take 4 (data_buffer ?sc2) @ drop 4 p = p" unfolding b2(2) by simp
    moreover have "4 + length (drop 4 p) = length p" using p4 by simp
    ultimately show ?thesis using fill_buffer_Ret [of 4 "drop 4 p" ?sc2 w5] b2(1) by (simp flip: append_assoc)
  qed
  have i5: "scan_at E dids ?sc3 H f a j path c (k + length p) w5" by (rule scan_at_buffer [OF w5(2) [unfolded k5]]) simp
  obtain w6 where w6: "appendValueToJournal E f ''rd'' w5 = Ret (0, w6)" "scan_at E dids ?sc3 H f a j path c (k + length p) w6"
    by (rule journal_append_scan [OF E(1) i5])
  obtain w7 where w7: "appendValueToJournal E f ''p'' w6 = Ret (0, w7)" "scan_at E dids ?sc3 H f a j path c (k + length p) w7"
    by (rule journal_append_scan [OF E(1) w6(2)])
  from process_pack [OF E A w7(2) p, of "drop (length p) (data_buffer ?sc2)" h] obtain sc4 H' w8 where
    w8: "processDataPack E D h parse ?sc3 f w7 = Ret ((0, sc4), w8)" "scan_at E dids sc4 H' f a j path c (k + length p) w8"
    "\<forall>d. concat (map snd (H' d)) = concat (map snd (H d)) @ (if pack_target parse p = Some d then [p] else [])"
    "data_buffer sc4 = data_buffer ?sc3" by auto
  obtain w9 where w9: "closeKeyToJournal E f ''process'' w8 = Ret (0, w9)" "scan_at E dids sc4 H' f a j path c (k + length p) w9"
    by (rule journal_close_scan [OF E(1) w8(2)])
  have r4: "stage_read fuel E D f 4 w2 = Ret (Some ((4, take 4 p), f), w3)" using w3(1) d1 by simp
  have r5: "stage_read fuel E D f (of_nat (length p) - 4) w4 = Ret (Some ((int (length p - 4), drop 4 p), f), w5)"
    using w5(1) d2 of_nat_minus_4 [OF p4(1)] by simp
  have "scan_round fuel E D h parse junk sc f w = Ret (Some (True, 0, sc4, f), w9)"
    using w1(1) w2(1) r4 f1 w4(1) hs r5 f2 w6(1) w7(1) w8(1) w9(1) p4(1)
    by (simp add: scan_round_def abind_some_def act_simps Let_def)
  moreover have "4 \<le> length (data_buffer sc4)" using w8(4) p4 by simp
  ultimately show ?thesis using w9(2) w8(3) by blast
qed

end

section \<open>The end of a block\<close>

context block_index
begin

lemma scan_round_end:
  assumes E: "calm E" and i: "scan_at E dids sc H f a j path c (length c) w" and D: "delete_ok D (vfs_file_info f)"
  obtains w' where "scan_round fuel E D h parse junk sc f w = Ret (Some (False, 0, sc, f\<lparr>current_data_block := None\<rparr>), w')"
    "scanner_at E dids sc H w'" "files w' (getAbsolutePath E path) = None"
    "files w' (getAbsolutePath E (path @ ''.journal'')) = None"
proof -
  obtain w1 where w1: "syncCurrentOffsetToJournal E f w = Ret (0, w1)" "scan_at E dids sc H f a j path c (length c) w1"
    by (rule journal_sync_scan [OF E i])
  obtain w2 where w2: "openKeyToJournal E f ''process'' w1 = Ret (0, w2)" "scan_at E dids sc H f a j path c (length c) w2"
    by (rule journal_open_scan [OF E w1(2)])
  have r: "reader_at E f a j path c (length c) w2" and s: "scanner_at E dids sc H w2" using w2(2) by (simp_all add: scan_at_def)
  obtain w3 where w3: "stage_read fuel E D f 4 w2 = Ret (Some ((0, []), f\<lparr>current_data_block := None\<rparr>), w3)" "wf_world E w3"
    "files w3 = (files w2)(getAbsolutePath E path := None, getAbsolutePath E (path @ ''.journal'') := None)"
    "\<forall>x. x \<noteq> a \<longrightarrow> x \<noteq> j \<longrightarrow> bview w3 x = bview w2 x \<and> blocks w3 x = blocks w2 x"
    "set (dirs w3) \<subseteq> set (dirs w2)" "next_addr w2 \<le> next_addr w3" "ticks w2 \<le> ticks w3"
    by (rule stage_read_end [OF E r D])
  have "fill_buffer 0 [] sc w3 = Ret (sc, w3)" using fill_buffer_Ret [of 0 "[]" sc w3] by simp
  then have "scan_round fuel E D h parse junk sc f w = Ret (Some (False, 0, sc, f\<lparr>current_data_block := None\<rparr>), w3)"
    using w1(1) w2(1) w3(1) by (simp add: scan_round_def abind_some_def act_simps)
  moreover have "scanner_at E dids sc H w3"
  proof (rule scanner_frame [OF s w3(2)])
    show "bview w3 x = bview w2 x" if "x \<in> data_blocks sc" for x using that w2(2) w3(4) by (auto simp: scan_at_def)
    show "files w3 (getAbsolutePath E p) = files w2 (getAbsolutePath E p)" if "p \<in> hist_paths H" for p
    proof -
      have "p \<noteq> path" "p \<noteq> path @ ''.journal''" using that w2(2) by (auto simp: scan_at_def)
      then show ?thesis unfolding w3(3) by simp
    qed
    show "files w3 (getAbsolutePath E (block_name E (data_path did) n)) = None"
      if "files w2 (getAbsolutePath E (block_name E (data_path did) n)) = None" for did n
      using that unfolding w3(3) by simp
  qed (use w3 in simp_all)
  ultimately show thesis using that w3(3) by simp
qed

lemma scan_loop_packs:
  assumes E: "calm E" "good_uuids E" "names_apart E dids" and A: "db_serves D" and D: "delete_ok D (vfs_file_info f)"
    and i: "scan_at E dids sc H f a j path c k w" and p: "\<forall>p \<in> set packs. pack_ok parse dids p"
    and c: "drop k c = concat packs" and b: "4 \<le> length (data_buffer sc)"
  shows "\<exists>sc' H' w'. scan_loop (Suc (length packs)) fuel E D h parse junk sc f w =
       Ret (Some (0, sc', f\<lparr>current_data_block := None\<rparr>), w') \<and> scanner_at E dids sc' H' w' \<and>
     (\<forall>d. concat (map snd (H' d)) = concat (map snd (H d)) @ filter (\<lambda>p. pack_target parse p = Some d) packs) \<and>
     files w' (getAbsolutePath E path) = None \<and> files w' (getAbsolutePath E (path @ ''.journal'')) = None \<and>
     path \<notin> hist_paths H' \<and> path @ ''.journal'' \<notin> hist_paths H'"
  using i p c b
proof (induction packs arbitrary: k sc H w)
  case Nil
  have "k \<le> length c" using Nil.prems(1) by (simp add: scan_at_def reader_at_def block_read_def)
  then have k: "k = length c" using Nil.prems(3) by simp
  obtain w' where w': "scan_round fuel E D h parse junk sc f w = Ret (Some (False, 0, sc, f\<lparr>current_data_block := None\<rparr>), w')"
    "scanner_at E dids sc H w'" "files w' (getAbsolutePath E path) = None"
    "files w' (getAbsolutePath E (path @ ''.journal'')) = None"
    by (rule scan_round_end [OF E(1) Nil.prems(1) [unfolded k] D])
  then show ?case using Nil.prems(1)
    by (intro exI [of _ sc] exI [of _ H] exI [of _ w']) (simp add: abind_some_def act_simps scan_at_def)
next
  case (Cons p ps)
  have c: "drop k c = p @ concat ps" using Cons.prems(3) by simp
  from scan_round_pack [OF E A Cons.prems(1) _ c Cons.prems(4), of parse fuel h junk] Cons.prems(2) obtain sc1 H1 w1 where
    r: "scan_round fuel E D h parse junk sc f w = Ret (Some (True, 0, sc1, f), w1)"
    "scan_at E dids sc1 H1 f a j path c (k + length p) w1" "4 \<le> length (data_buffer sc1)"
    "\<forall>d. concat (map snd (H1 d)) = concat (map snd (H d)) @ (if pack_target parse p = Some d then [p] else [])" by auto
  have "drop (k + length p) c = drop (length p) (drop k c)" by (simp add: add.commute)
  then have c1: "drop (k + length p) c = concat ps" unfolding c by simp
  have ps: "\<forall>p \<in> set ps. pack_ok parse dids p" using Cons.prems(2) by simp
  from Cons.IH [OF r(2) ps c1 r(3)] obtain sc' H' w' where
    l: "scan_loop (Suc (length ps)) fuel E D h parse junk sc1 f w1 = Ret (Some (0, sc', f\<lparr>current_data_block := None\<rparr>), w')"
    "scanner_at E dids sc' H' w'"
    "\<forall>d. concat (map snd (H' d)) = concat (map snd (H1 d)) @ filter (\<lambda>p. pack_target parse p = Some d) ps"
    "files w' (getAbsolutePath E path) = None" "files w' (getAbsolutePath E (path @ ''.journal'')) = None"
    "path \<notin> hist_paths H'" "path @ ''.journal'' \<notin> hist_paths H'" by blast
  have "scan_loop (Suc (length (p # ps))) fuel E D h parse junk sc f w = Ret (Some (0, sc', f\<lparr>current_data_block := None\<rparr>), w')"
    using r(1) l(1) by (simp add: abind_some_def act_simps)
  moreover have "concat (map snd (H' d)) = concat (map snd (H d)) @ filter (\<lambda>p. pack_target parse p = Some d) (p # ps)" for d
    using l(3) r(4) by simp
  ultimately show ?case using l(2,4-7) by blast
qed

end

section \<open>Maintenance\<close>

lemma mantain_step:
  assumes E: "calm E" and A: "db_serves D" and wf: "wf_world E w" and d: "data_file_at E f h w"
  obtains f' w' where "mantain E (data_releaseDataBlock E D f) f cs w = Ret ((0, f'), w')" "data_step E f h [] w f' h w'"
proof -
  obtain v w0 where v: "isDataBlockValid E (current_data_block f) w = Ret (v, w0)" "same_store w w0"
      "current_data_block f = None \<Longrightarrow> \<not> v"
    by (rule isDataBlockValid_store [of "current_data_block f" w E]) (use data_file_at_live [OF d] in auto)
  have w0: "wf_world E w0" "data_file_at E f h w0"
    using wf d same_storeD(2) [OF v(2)] data_file_at_store [OF v(2)] by auto
  have st: "data_step E f h [] w f h w0"
    using w0 apart_same_store [OF v(2)] by (simp add: data_step_def)
  show thesis
  proof (cases "v \<or> current_data_block f = None")
    case True
    then have "mantain E (data_releaseDataBlock E D f) f cs w = Ret ((0, f), w0)"
      using v(1) by (auto simp: mantain_def closeCurrentDataBlock_def act_simps)
    then show thesis using that st by blast
  next
    case False
    then obtain a where a: "current_data_block f = Some a" "\<not> v" by auto
    obtain r w1 where r: "data_releaseDataBlock E D f (Some a) cs w0 = Ret (r, w1)" "wf_world E w1" "sealed E h w1"
      "apart E (Some a) h w0 w1" "blocks w1 a = None" "(\<forall>dom p s d. fst (idxSetDataPackIndexStateByDataBlock D dom p s d) = 0) \<longrightarrow> r = 0"
      by (rule data_release_calm [OF E w0(1) a(1) w0(2)])
    have r0: "r = 0" using r(6) A by (simp add: db_serves_def)
    let ?f = "f\<lparr>current_data_block := None\<rparr>"
    have "mantain E (data_releaseDataBlock E D f) f cs w = Ret ((0, ?f), w1)"
      using v(1) a r(1) r0 d by (simp add: mantain_def closeCurrentDataBlock_def act_simps data_file_at_def)
    moreover have "apart E (current_data_block f) h w w1"
      by (rule apart_trans [OF apart_same_store [OF v(2), of E _ "[]"] r(4)]) (use a in auto)
    then have "data_step E f h [] w ?f h w1" using r(2,3) d by (simp add: data_step_def data_file_at_def)
    ultimately show thesis using that by blast
  qed
qed

lemma update_middle: "did \<notin> fst ` set pre \<Longrightarrow> AList.update did v (pre @ (did, u) # xs) = pre @ (did, v) # xs"
  by (induction pre) auto

lemma mantain_all_scanner:
  assumes E: "calm E" "good_uuids E" and A: "db_serves D"
    and i: "scanner_at E dids sc H w" and m: "map_did_data_file sc = pre @ fs"
  shows "\<exists>fs' w'. mantain_all E D fs 0 w = Ret ((0, fs'), w') \<and> scanner_at E dids (sc\<lparr>map_did_data_file := pre @ fs'\<rparr>) H w' \<and>
     (\<forall>q. q \<notin> getAbsolutePath E ` hist_paths H \<longrightarrow> files w' q = files w q)"
  using i m
proof (induction fs arbitrary: pre sc w)
  case Nil
  then have "sc\<lparr>map_did_data_file := pre\<rparr> = sc" by (cases sc) simp
  then have "scanner_at E dids (sc\<lparr>map_did_data_file := pre @ []\<rparr>) H w" using Nil.prems(1) by simp
  then show ?case by (intro exI [of _ "[]"] exI [of _ w]) (simp add: act_simps)
next
  case (Cons x fs)
  obtain did f where x: "x = (did, f)" by (cases x)
  have kd: "did \<notin> fst ` set pre" using scanner_atD(2) [OF Cons.prems(1)] Cons.prems(2) x by auto
  have mf: "map_of (map_did_data_file sc) did = Some f"
    using kd Cons.prems(2) x by (simp add: map_add_def map_of_eq_None_iff [THEN iffD2] split: option.split)
  obtain f' w1 where f': "mantain E (data_releaseDataBlock E D f) f DataBlockStateQuerable w = Ret ((0, f'), w1)"
    "data_step E f (H did) [] w f' (H did) w1"
    by (rule mantain_step [OF E(1) A scanner_atD(1) [OF Cons.prems(1)] scanner_atD(4) [OF Cons.prems(1) mf]])
  note st = scanner_step [OF E(2) Cons.prems(1) mf f'(2)]
  have hu: "H(did := H did) = H" by simp
  let ?sc = "store_data_file did f' sc"
  have m1: "map_did_data_file ?sc = (pre @ [(did, f')]) @ fs"
    using Cons.prems(2) x by (simp add: store_data_file_def update_middle [OF kd])
  from Cons.IH [OF st(1) [unfolded hu] m1] obtain fs' w' where
    r: "mantain_all E D fs 0 w1 = Ret ((0, fs'), w')"
    "scanner_at E dids (?sc\<lparr>map_did_data_file := (pre @ [(did, f')]) @ fs'\<rparr>) H w'"
    "\<forall>q. q \<notin> getAbsolutePath E ` hist_paths H \<longrightarrow> files w' q = files w1 q" by blast
  have e: "?sc\<lparr>map_did_data_file := (pre @ [(did, f')]) @ fs'\<rparr> = sc\<lparr>map_did_data_file := pre @ (did, f') # fs'\<rparr>"
    by (simp add: store_data_file_def)
  have "mantain_all E D (x # fs) 0 w = Ret ((0, (did, f') # fs'), w')" using f'(1) r(1) by (simp add: x act_simps)
  moreover have "\<forall>q. q \<notin> getAbsolutePath E ` hist_paths H \<longrightarrow> files w' q = files w q"
    using r(3) st(5) [unfolded hu] by simp
  ultimately show ?case using r(2) unfolding e by blast
qed


section \<open>A whole scan\<close>

lemma scanner_taken:
  assumes U: "good_uuids E" and i: "scanner_at E dids sc H w" and wf: "wf_world E w'"
    and q: "\<forall>q. q \<noteq> getAbsolutePath E (path @ ''.journal'') \<longrightarrow> files w' q = files w q"
    and b: "\<forall>x < next_addr w. bview w' x = bview w x" and h: "path @ ''.journal'' \<notin> hist_paths H"
    and d: "dirs w' = dirs w" and t: "ticks w \<le> ticks w'"
  shows "scanner_at E dids sc H w'"
proof (rule scanner_frame [OF i wf])
  show "bview w' a = bview w a" if "a \<in> data_blocks sc" for a using b live_block [OF i that] by blast
  show "files w' (getAbsolutePath E p) = files w (getAbsolutePath E p)" if "p \<in> hist_paths H" for p
  proof -
    have "p \<noteq> path @ ''.journal''" using that h by blast
    then show ?thesis using q by simp
  qed
  show "files w' (getAbsolutePath E (block_name E (data_path did) n)) = None"
    if "files w (getAbsolutePath E (block_name E (data_path did) n)) = None" for did n
    using that q journal_not_block [OF U, of path "data_path did" n] by (metis getAbsolutePath_inj)
qed (use d t in auto)

text \<open>
  C8. A scan of a stage file whose next block holds packs of known devices ends after one round for each
  pack and one more, without an error. Every pack is then in the data file of its device, behind what was
  there before and in the order of the stage file; the block and its journal are gone, and the reader has
  no block left.
\<close>

theorem scan_moves_packs:
  assumes "block_index D" and "calm E" and "good_uuids E" and "names_apart E dids" and "db_serves D"
    and "delete_ok D (vfs_file_info f)" and "scanner_at E dids sc H w" and "4 \<le> length (data_buffer sc)"
    and "open_mode f = VFSFileOpenModeRead" and "\<not> overlaped_block_read f" and "current_data_block f = None"
    and "offered E D f b (concat packs) w" and "\<forall>p \<in> set packs. pack_ok parse dids p"
    and "vfs_path b \<notin> hist_paths H" and "vfs_path b @ ''.journal'' \<notin> hist_paths H"
  shows "\<exists>sc' f' H' w'. scan (Suc (length packs)) 2 E D h parse junk sc f w = Ret (Some (0, sc', f'), w') \<and>
     scanner_at E dids sc' H' w' \<and> current_data_block f' = None \<and>
     (\<forall>did. concat (map snd (H' did)) =
        concat (map snd (H did)) @ filter (\<lambda>p. pack_target parse p = Some did) packs) \<and>
     files w' (getAbsolutePath E (vfs_path b)) = None \<and> files w' (getAbsolutePath E (vfs_path b @ ''.journal'')) = None"
proof -
  let ?path = "vfs_path b"
  have wf: "wf_world E w" by (rule scanner_atD(1) [OF assms(7)])
  obtain f1 a j w1 where t: "getNextAvailbaleBlock (Suc (Suc 0)) E D f w = Ret (Some (0, f1), w1)"
    "reader_at E f1 a j ?path (concat packs) 0 w1" "vfs_file_info f1 = vfs_file_info f"
    "\<forall>q. q \<noteq> getAbsolutePath E (?path @ ''.journal'') \<longrightarrow> files w1 q = files w q"
    "\<forall>x < next_addr w. bview w1 x = bview w x \<and> blocks w1 x = blocks w x" "next_addr w \<le> a" "next_addr w \<le> j"
    "dirs w1 = dirs w" "next_addr w \<le> next_addr w1" "ticks w \<le> ticks w1"
    by (rule block_index.take_offered [OF assms(1,2) wf assms(9-12)])
  have wf1: "wf_world E w1" using t(2) by (simp add: reader_at_def)
  have s1: "scanner_at E dids sc H w1"
    by (rule scanner_taken [OF assms(3,7) wf1 t(4) _ assms(15) t(8,10)]) (use t(5) in blast)
  have out: "a \<notin> data_blocks sc" "j \<notin> data_blocks sc"
    using live_block [OF assms(7), of a] live_block [OF assms(7), of j] t(6,7) by auto
  have at: "scan_at E dids sc H f1 a j ?path (concat packs) 0 w1"
    using s1 t(2) out assms(14,15) by (simp add: scan_at_def)
  have del: "delete_ok D (vfs_file_info f1)" using assms(6) t(3) by simp
  from block_index.scan_loop_packs [OF assms(1-5) del at assms(13) _ assms(8), of 2 h junk] obtain sc2 H2 w2 where
    l: "scan_loop (Suc (length packs)) 2 E D h parse junk sc f1 w1 = Ret (Some (0, sc2, f1\<lparr>current_data_block := None\<rparr>), w2)"
    "scanner_at E dids sc2 H2 w2"
    "\<forall>d. concat (map snd (H2 d)) = concat (map snd (H d)) @ filter (\<lambda>p. pack_target parse p = Some d) packs"
    "files w2 (getAbsolutePath E ?path) = None" "files w2 (getAbsolutePath E (?path @ ''.journal'')) = None"
    "?path \<notin> hist_paths H2" "?path @ ''.journal'' \<notin> hist_paths H2" by auto
  from mantain_all_scanner [OF assms(2,3,5) l(2), of "[]" "map_did_data_file sc2"] obtain fs w3 where
    m: "mantain_all E D (map_did_data_file sc2) 0 w2 = Ret ((0, fs), w3)"
    "scanner_at E dids (sc2\<lparr>map_did_data_file := fs\<rparr>) H2 w3"
    "\<forall>q. q \<notin> getAbsolutePath E ` hist_paths H2 \<longrightarrow> files w3 q = files w2 q" by auto
  have gone: "files w3 (getAbsolutePath E ?path) = None" "files w3 (getAbsolutePath E (?path @ ''.journal'')) = None"
    using m(3) l(4-7) by (simp_all add: abs_mem)
  have pf: "stage_prefetchData 2 E D f w = Ret (Some (0, f1), w1)"
    using assms(11) t(1) by (simp add: stage_prefetchData_def checkForBlockChange_def numeral_2_eq_2 del: getNextAvailbaleBlock.simps)
  have hd: "snd (hasData f1)" using t(2) by (simp add: hasData_def reader_at_def)
  have "scan (Suc (length packs)) 2 E D h parse junk sc f w =
      Ret (Some (0, sc2\<lparr>map_did_data_file := fs\<rparr>, f1\<lparr>current_data_block := None\<rparr>), w3)"
    using pf hd l(1) m(1) by (simp add: scan_def abind_some_def endScanHandler_def act_simps del: scan_loop.simps)
  then show ?thesis using m(2) l(3) gone
    by (intro exI [of _ "sc2\<lparr>map_did_data_file := fs\<rparr>"] exI [of _ "f1\<lparr>current_data_block := None\<rparr>"] exI [of _ H2] exI [of _ w3])
      simp
qed

end
