(* ===== verification/Mongo_Server.thy ===== *)
theory Mongo_Server
  imports Mongo_Index Stage_Scan
begin

text \<open>
  A server for the pool, as small as the driver's queries allow: collections are lists of documents under
  running identifiers, the operators are those the driver uses, and every file has an entry. On it the
  hypotheses about the database hold, so that the theorems about stage files apply to the Mongo driver.
\<close>

section \<open>The server\<close>

fun contains :: "string \<Rightarrow> string \<Rightarrow> bool" where
  "contains p [] \<longleftrightarrow> p = []"
| "contains p (c # s) \<longleftrightarrow> take (length p) (c # s) = p \<or> contains p s"

definition stamp :: "mongo_value \<Rightarrow> u64" where
  "stamp v = (case v of M_long x \<Rightarrow> x | M_date x \<Rightarrow> x | _ \<Rightarrow> 0)"

definition op_holds :: "mongo_value \<Rightarrow> string \<times> mongo_value \<Rightarrow> bool" where
  "op_holds v = (\<lambda>(oper, x).
     if oper = ''$regex'' then
       (case (x, v) of (M_str p, M_str s) \<Rightarrow> contains (take (length p - 2) p) s | _ \<Rightarrow> False)
     else if oper = ''$gt'' then stamp x < stamp v
     else if oper = ''$gte'' then stamp x \<le> stamp v
     else if oper = ''$lt'' then stamp v < stamp x
     else if oper = ''$lte'' then stamp v \<le> stamp x
     else False)"

definition field_holds :: "mongo_doc \<Rightarrow> string \<times> mongo_value \<Rightarrow> bool" where
  "field_holds d = (\<lambda>(k, x). case map_of d k of
       None \<Rightarrow> False
     | Some v \<Rightarrow> (case x of M_doc ops \<Rightarrow> list_all (op_holds v) ops | _ \<Rightarrow> v = x))"

definition doc_matches :: "mongo_doc \<Rightarrow> mongo_doc \<Rightarrow> bool" where
  "doc_matches q d = list_all (field_holds d) q"

record server =
  srv_docs :: "string \<Rightarrow> (nat \<times> mongo_doc) list"
  srv_ids :: nat
  srv_time :: u64

definition sorted_by :: "(string \<times> int) list \<Rightarrow> mongo_doc list \<Rightarrow> mongo_doc list" where
  "sorted_by ks ds = (case ks of
       [] \<Rightarrow> ds
     | (k, dir) # _ \<Rightarrow>
         (let up = sort_key (\<lambda>d. case map_of d k of None \<Rightarrow> 0 | Some v \<Rightarrow> stamp v) ds in if dir < 0 then rev up else up))"

definition srv_find :: "string \<Rightarrow> mongo_query \<Rightarrow> server \<Rightarrow> mongo_doc list" where
  "srv_find ns q s =
     (if ns = ''chaos.vfat'' then [(''_id'', M_oid ''file'') # mq_filter q]
      else sorted_by (mq_sort q)
        (map (\<lambda>(n, d). (''_id'', M_oid (decimal n)) # d) (filter (\<lambda>(n, d). doc_matches (mq_filter q) d) (srv_docs s ns))))"

definition unique_key :: "string \<Rightarrow> string list" where
  "unique_key ns =
     (if ns = ''chaos.datablock'' then [''vfs_path'', ''vfs_domain'', ''ct'']
      else if ns = ''chaos.dp_idx'' then [''did'', ''type'', ''acq_ts''] else [])"

definition duplicate :: "string \<Rightarrow> mongo_doc \<Rightarrow> server \<Rightarrow> bool" where
  "duplicate ns d s \<longleftrightarrow> unique_key ns \<noteq> [] \<and>
     list_ex (\<lambda>(n, d'). list_all (\<lambda>k. map_of d' k = map_of d k) (unique_key ns)) (srv_docs s ns)"

definition srv_insert :: "string \<Rightarrow> mongo_doc \<Rightarrow> (int, server) db" where
  "srv_insert ns d s =
     (if duplicate ns d s then (DbOk 11000, s)
      else (DbOk 0, s\<lparr>srv_docs := (srv_docs s)(ns := srv_docs s ns @ [(srv_ids s, d)]), srv_ids := Suc (srv_ids s)\<rparr>))"

fun apply_set :: "mongo_doc \<Rightarrow> mongo_doc \<Rightarrow> mongo_doc" where
  "apply_set [(oper, M_doc fs)] d = (if oper = ''$set'' then foldl (\<lambda>d (k, v). AList.update k v d) d fs else d)"
| "apply_set _ d = d"

fun update_first :: "('a \<Rightarrow> bool) \<Rightarrow> ('a \<Rightarrow> 'a) \<Rightarrow> 'a list \<Rightarrow> 'a list" where
  "update_first p f [] = []"
| "update_first p f (x # xs) = (if p x then f x # xs else x # update_first p f xs)"

definition srv_update :: "string \<Rightarrow> mongo_query \<Rightarrow> mongo_doc \<Rightarrow> bool \<Rightarrow> bool \<Rightarrow> (int, server) db" where
  "srv_update ns q u upsert multi s =
     (let p = (\<lambda>(n, d). doc_matches (mq_filter q) d); f = (\<lambda>(n, d). (n, apply_set u d)); ds = srv_docs s ns in
      if \<not> list_ex p ds then
        (if upsert then
           (DbOk 0, s\<lparr>srv_docs := (srv_docs s)(ns := ds @ [(srv_ids s, apply_set u (mq_filter q))]), srv_ids := Suc (srv_ids s)\<rparr>)
         else (DbOk 0, s))
      else (DbOk 0, s\<lparr>srv_docs := (srv_docs s)(ns := (if multi then map (\<lambda>x. if p x then f x else x) ds
                                                       else update_first p f ds))\<rparr>))"

definition srv_command :: "string \<Rightarrow> mongo_doc \<Rightarrow> (int \<times> mongo_doc option, server) db" where
  "srv_command ns c s =
     (case (map_of c ''findAndModify'', map_of c ''query'', map_of c ''update'') of
        (Some (M_str cl), Some (M_doc q), Some (M_doc u)) \<Rightarrow>
          (case srv_update (ns @ ''.'' @ cl) (where_doc q) u False False s of
             (_, s1) \<Rightarrow> (DbOk (0, Some ((''ok'', M_int 1) #
               (case srv_find (ns @ ''.'' @ cl) (where_doc q) s of [] \<Rightarrow> [] | d # _ \<Rightarrow> [(''value'', M_doc d)]))), s1))
      | _ \<Rightarrow> (DbOk (0, Some [(''ok'', M_int 0)]), s))"

definition doc_pool :: "server mongo_pool" where
  "doc_pool =
     \<lparr>mp_now = (\<lambda>s. (srv_time s, s\<lparr>srv_time := srv_time s + 1\<rparr>)),
      mp_uuid = (\<lambda>s. (decimal (srv_ids s), s\<lparr>srv_ids := Suc (srv_ids s)\<rparr>)),
      mp_insert = srv_insert,
      mp_findOne = (\<lambda>ns q fields s. (DbOk (0, Some (case srv_find ns q s of [] \<Rightarrow> [] | d # _ \<Rightarrow> d)), s)),
      mp_findN = (\<lambda>ns q n fields s. (DbOk (if n = 0 then srv_find ns q s else take (unat n) (srv_find ns q s)), s)),
      mp_runCommand = srv_command,
      mp_update = srv_update,
      mp_remove = (\<lambda>ns q s. (DbOk 0, s\<lparr>srv_docs := (srv_docs s)(ns := filter (\<lambda>(n, d). \<not> doc_matches (mq_filter q) d) (srv_docs s ns))\<rparr>)),
      mp_count = (\<lambda>ns q s. (DbOk (0, Some (of_nat (length (srv_find ns q s)))), s)),
      mp_ensureIndex = (\<lambda>database cl keys s. (DbOk 0, s))\<rparr>"

abbreviation doc_driver :: "server db_driver" where
  "doc_driver \<equiv> MongoDBDriver doc_pool ''chaos''"

lemmas coll_simps = coll_def

section \<open>Its answers\<close>

lemma doc_pool_answers: "answers_commands doc_pool"
  unfolding answers_commands_def
proof (intro allI)
  fix ns c s
  show "\<exists>r s'. mp_runCommand doc_pool ns c s = (DbOk (0, Some r), s') \<and> r \<noteq> []"
    by (auto simp: doc_pool_def srv_command_def split: option.split mongo_value.split prod.split)
qed

lemma srv_update_ok: "fst (srv_update ns q u upsert multi s) = DbOk 0"
  by (simp add: srv_update_def Let_def)

lemma dcatch_ok: "fst (m s) = DbOk a \<Longrightarrow> fst (dcatch m handler s) = a"
  by (cases "m s") (simp add: dcatch_def)

lemma srv_insert_code: "\<exists>c s'. srv_insert ns d s = (DbOk c, s') \<and> c \<in> {0, 11000}"
  by (auto simp: srv_insert_def)

lemma block_doc_matches: "doc_matches (block_key info b) (block_doc fpk st info b now)"
  by (simp add: doc_matches_def block_key_def block_doc_def field_holds_def)

lemma duplicate_block_matches:
  assumes "duplicate ''chaos.datablock'' (block_doc fpk st info b now) s"
  shows "\<exists>x \<in> set (srv_docs s ''chaos.datablock''). doc_matches (block_key info b) (snd x)"
proof -
  from assms obtain n d where d: "(n, d) \<in> set (srv_docs s ''chaos.datablock'')"
    "map_of d ''vfs_path'' = Some (M_str (vfs_path b))" "map_of d ''vfs_domain'' = Some (M_str (file_domain info))"
    by (auto simp: duplicate_def unique_key_def list_ex_iff block_doc_def)
  then have "doc_matches (block_key info b) d" by (simp add: doc_matches_def block_key_def field_holds_def)
  then show ?thesis using d(1) by force
qed

lemma inserted_block_found:
  assumes "srv_insert ''chaos.datablock'' (block_doc fpk st info b now) s = (r, s')"
  shows "\<exists>n d ds. srv_find ''chaos.datablock'' (where_doc (block_key info b)) s' = ((''_id'', M_oid (decimal n)) # d) # ds"
proof -
  have "\<exists>x \<in> set (srv_docs s' ''chaos.datablock''). doc_matches (block_key info b) (snd x)"
    using assms duplicate_block_matches block_doc_matches
    by (auto simp: srv_insert_def split: if_splits)
  then have "filter (\<lambda>(n, d). doc_matches (block_key info b) d) (srv_docs s' ''chaos.datablock'') \<noteq> []"
    by (auto simp: filter_empty_conv)
  then obtain x xs where x: "filter (\<lambda>(n, d). doc_matches (block_key info b) d) (srv_docs s' ''chaos.datablock'') = x # xs"
    by (meson neq_Nil_conv)
  then show ?thesis by (cases x) (auto simp: srv_find_def sorted_by_def)
qed

lemma insert_block_accepts:
  "fst (fst (insert_block doc_pool ''chaos'' info b st file fpk s)) = 0"
proof -
  define now s1 where "now = srv_time s" and "s1 = s\<lparr>srv_time := srv_time s + 1\<rparr>"
  obtain r s2 where i: "srv_insert ''chaos.datablock'' (block_doc fpk st info b now) s1 = (DbOk r, s2)"
    using srv_insert_code by blast
  obtain n d ds where "srv_find ''chaos.datablock'' (where_doc (block_key info b)) s2 = ((''_id'', M_oid (decimal n)) # d) # ds"
    using inserted_block_found [OF i] by blast
  then show ?thesis using i
    by (simp add: insert_block_def db_simps doc_pool_def coll_def assigned_def field_OID_def now_def s1_def Let_def)
qed

lemma doc_driver_accepts: "db_accepts doc_driver"
  unfolding db_accepts_def
proof (intro allI)
  fix info b st and s :: server
  let ?file = "(''_id'', M_oid ''file'') # file_doc info"
  have v: "srv_find ''chaos.vfat'' (where_doc (file_doc info)) s = [?file]" by (simp add: srv_find_def)
  have "mongo_AddNewDataBlock doc_pool ''chaos'' info b st s = insert_block doc_pool ''chaos'' info b st ?file ''file'' s"
    using v
    by (simp add: mongo_AddNewDataBlock_def mongo_FileExist_def db_simps doc_pool_def coll_def assigned_def field_OID_def Let_def
        split: prod.split)
  then show "fst (fst (vfsAddNewDataBlock doc_driver info b st s)) = 0"
    using insert_block_accepts by (simp add: MongoDBDriver_def)
qed

lemma doc_driver_serves: "db_serves doc_driver"
proof -
  have "fst (idxAddDataPackIndex doc_driver i b s) \<in> {0, 11000}" for i b s
    using srv_insert_code [of "coll ''chaos'' ''dp_idx''" "index_doc i b" s]
    by (auto simp: MongoDBDriver_def mongo_AddDataPackIndex_def db_simps doc_pool_def)
  moreover have "fst (vfsSetHeartbeatOnDatablock doc_driver info b t s) = 0" for info b t s
  proof -
    let ?m = "dbind (if t = 0 then dlift (mp_now doc_pool) else dreturn t) (\<lambda>ts.
      mp_update doc_pool (coll ''chaos'' ''datablock'') (where_doc (block_key info b)) (set_field ''hb'' (M_date ts)) True False)"
    have "fst (?m s) = DbOk 0" by (simp add: db_simps doc_pool_def srv_update_ok)
    then show ?thesis by (simp add: MongoDBDriver_def mongo_SetHeartbeatOnDatablock_def dcatch_ok)
  qed
  moreover have "fst (idxSetDataPackIndexStateByDataBlock doc_driver dm p st s) = 0" for dm p st s
    unfolding MongoDBDriver_def mongo_SetDataPackIndexStateByDataBlock_def
    by (simp add: doc_pool_def dcatch_ok srv_update_ok)
  ultimately show ?thesis using doc_driver_accepts by (simp add: db_serves_def)
qed

lemma doc_driver_deletes: "delete_ok doc_driver info"
  by (simp add: delete_ok_def MongoDBDriver_def mongo_DeleteDataBlock_def db_simps doc_pool_def srv_find_def coll_def
      assigned_def field_OID_def Let_def)


section \<open>Worlds for examples\<close>

definition quiet_env :: vfs_env where
  "quiet_env = \<lparr>fs_driver_domain_path = ''/d'', domain_name = ''dom'', env_io = (\<lambda>n. (0, True)), env_os = (\<lambda>n. True),
     env_now = (\<lambda>n. of_nat n), env_uuid = (\<lambda>n. replicate n (CHR ''a''))\<rparr>"

lemma quiet_env_calm [simp]: "calm quiet_env"
  by (simp add: calm_def quiet_env_def)

lemma quiet_env_uuids [simp]: "inj (env_uuid quiet_env)" "good_uuids quiet_env"
proof -
  show i: "inj (env_uuid quiet_env)"
    by (rule injI) (metis length_replicate quiet_env_def vfs_env.select_convs(6))
  show "good_uuids quiet_env" unfolding good_uuids_def using i by (auto simp: quiet_env_def)
qed

lemma path_prefixes_short: "q \<in> set (path_prefixes p) \<Longrightarrow> length q \<le> length p"
  by (auto simp: path_prefixes_def)

lemma names_apart_single: "names_apart E {did}"
  by (auto simp: names_apart_def getAbsolutePath_def dest!: path_prefixes_short)

definition disk :: "(string \<rightharpoonup> u8 list) \<Rightarrow> 'd \<Rightarrow> 'd world" where
  "disk fs d = \<lparr>files = fs, dirs = [], streams = Map.empty, blocks = Map.empty, next_addr = 0, ticks = 0, database = d\<rparr>"

lemma disk_simps [simp]:
  "files (disk fs d) = fs" "dirs (disk fs d) = []" "blocks (disk fs d) = Map.empty" "next_addr (disk fs d) = 0"
  "ticks (disk fs d) = 0" "database (disk fs d) = d" "streams (disk fs d) = Map.empty"
  by (simp_all add: disk_def)

lemma wf_disk [simp]: "wf_world E (disk fs d)"
  by (simp add: wf_world_def)

lemma path_unused_disk [simp]: "path_unused (disk fs d) p"
  by (simp add: path_unused_def)

definition empty_server :: server where
  "empty_server = \<lparr>srv_docs = (\<lambda>_. []), srv_ids = 0, srv_time = 0\<rparr>"

definition dev_writer :: stage_writer where
  "dev_writer = vfs_file.extend (new_VFSFile ''stage'' ''dev'' VFSFileOpenModeWrite) (stage_writer.fields 0)"

definition dev_reader :: stage_reader where
  "dev_reader = vfs_file.extend (new_VFSFile ''stage'' ''dev'' VFSFileOpenModeRead) (stage_reader.fields False 0)"

lemma dev_files [simp]:
  "open_mode dev_writer = VFSFileOpenModeWrite" "current_data_block dev_writer = None"
  "vfs_file_info dev_writer = vfs_file_info dev_reader" "vfs_fpath (vfs_file_info dev_reader) = ''stage/dev''"
  "open_mode dev_reader = VFSFileOpenModeRead" "current_data_block dev_reader = None" "\<not> overlaped_block_read dev_reader"
  by (simp_all add: dev_writer_def dev_reader_def new_VFSFile_def area_path_def vfs_file.defs stage_reader.defs)

lemma fresh_on_disk:
  assumes "\<And>n. fs (getAbsolutePath E (fpath @ ''/'' @ env_uuid E n)) = None"
  shows "fresh_names E fpath (disk fs d)"
  using assms by (simp add: fresh_names_def Let_def)

theorem stage_file_keeps_packs_witness:
  "\<exists>f' w' w'' blks. write_packs quiet_env doc_driver dev_writer [[1, 2], [], [3]] (disk Map.empty empty_server) =
       Ret ((replicate 3 0, f'), w') \<and>
     delete_VFSFile quiet_env doc_driver f' w' = Ret ((), w'') \<and> concat (map snd blks) = [[1, 2], [], [3]] \<and>
     distinct (map fst blks) \<and>
     (\<forall>(path, ps) \<in> set blks. files w'' (getAbsolutePath quiet_env path) = Some (concat ps) \<and>
        (\<exists>n. path = ''stage/dev'' @ ''/'' @ env_uuid quiet_env n)) \<and>
     (\<forall>q. q \<notin> getAbsolutePath quiet_env ` fst ` set blks \<longrightarrow> files w'' q = None)"
  using stage_file_keeps_packs [OF mongo.block_index_axioms doc_driver_accepts quiet_env_calm quiet_env_uuids(1) wf_disk,
      of dev_writer Map.empty empty_server "[[1, 2], [], [3]]"]
  by (simp add: fresh_on_disk eval_nat_numeral del: write_packs.simps)


text \<open>A pool that reaches no server.\<close>

definition down_pool :: "server mongo_pool" where
  "down_pool =
     \<lparr>mp_now = (\<lambda>s. (srv_time s, s)), mp_uuid = (\<lambda>s. ([], s)),
      mp_insert = (\<lambda>ns d s. (DbOk (- 1), s)), mp_findOne = (\<lambda>ns q fields s. (DbOk (- 1, None), s)),
      mp_findN = (\<lambda>ns q n fields s. (DbOk [], s)), mp_runCommand = (\<lambda>ns c s. (DbOk (- 1, None), s)),
      mp_update = (\<lambda>ns q u upsert multi s. (DbOk (- 1), s)), mp_remove = (\<lambda>ns q s. (DbOk (- 1), s)),
      mp_count = (\<lambda>ns q s. (DbOk (0, None), s)), mp_ensureIndex = (\<lambda>database cl keys s. (DbOk (- 1), s))\<rparr>"

lemma down_refuses: "db_refuses (MongoDBDriver down_pool ''chaos'')"
  by (simp add: db_refuses_def MongoDBDriver_def mongo_AddNewDataBlock_def mongo_FileExist_def db_simps down_pool_def)

definition open_block_example :: data_block where
  "open_block_example = new_DataBlock\<lparr>vfs_path := ''stage/dev/x'', driver_private_data := Some 0\<rparr>"

definition open_stream_example :: fstream where
  "open_stream_example = \<lparr>fs_path = ''/d/stage/dev/x'', fs_in = False, fs_out = True, fs_pos = 0, fs_pending = [],
     fs_bad = False, fs_eof = False\<rparr>"

definition writing_world :: "server world" where
  "writing_world = \<lparr>files = [''/d/stage/dev/x'' \<mapsto> [7]], dirs = [], streams = [0 \<mapsto> open_stream_example],
     blocks = [1 \<mapsto> open_block_example], next_addr = 2, ticks = 0, database = empty_server\<rparr>"

lemma writing_world_wf: "wf_world quiet_env writing_world"
  by (auto simp: wf_world_def open_block_def writing_world_def open_block_example_def open_stream_example_def
      getAbsolutePath_def quiet_env_def split: if_splits)

lemma writing_world_fresh: "fresh_names quiet_env ''stage/dev'' writing_world"
  unfolding fresh_names_def Let_def
proof (intro allI impI)
  fix n
  show "files writing_world (getAbsolutePath quiet_env (''stage/dev'' @ ''/'' @ env_uuid quiet_env n)) = None \<and>
      getAbsolutePath quiet_env (''stage/dev'' @ ''/'' @ env_uuid quiet_env n) \<notin> set (dirs writing_world)"
    by (cases n) (simp_all add: writing_world_def quiet_env_def getAbsolutePath_def)
qed

theorem refused_block_leaves_dangling_witness:
  "\<exists>f' w'. stage_write quiet_env (MongoDBDriver down_pool ''chaos'')
       (dev_writer\<lparr>check_validity_counter := 15, current_data_block := Some 1\<rparr>) [1] writing_world = Ret ((- 2, f'), w') \<and>
     (\<forall>data'. stage_write quiet_env (MongoDBDriver down_pool ''chaos'') f' data' w' = Fault)"
proof (rule refused_block_leaves_dangling [OF mongo.block_index_axioms down_refuses quiet_env_calm writing_world_wf])
  show "bview writing_world 1 = Some (open_block_example, open_stream_example, [7])"
    by (simp add: bview_def writing_world_def open_block_example_def open_stream_example_def file_bytes_def)
  show "stream_good open_stream_example" by (simp add: stream_good_def open_stream_example_def)
qed (simp_all add: writing_world_fresh open_block_example_def new_DataBlock_def)

section \<open>A block to read\<close>

definition index_block :: mongo_doc where
  "index_block = [(''fpk'', M_oid ''file''), (''state'', M_int 0), (''ct'', M_date 5), (''vu'', M_date 9), (''mbs'', M_long 100),
     (''vfs_path'', M_str ''stage/dev/x''), (''vfs_domain'', M_str ''''), (''cur_work_pos'', M_long 0), (''hb'', M_date 5)]"

definition one_block_server :: server where
  "one_block_server = empty_server\<lparr>srv_docs := (\<lambda>ns. if ns = ''chaos.datablock'' then [(0, index_block)] else []), srv_ids := 1\<rparr>"

definition found_example :: data_block where
  "found_example = new_DataBlock\<lparr>index_driver_uinique_id := decimal 0, max_reacheable_size := 100, vfs_path := ''stage/dev/x''\<rparr>"

lemma find_example:
  "vfsFindSinceTimeDataBlock doc_driver (vfs_file_info dev_reader) 0 True 0 one_block_server = ((0, Some found_example), one_block_server)"
proof -
  have "srv_find ''chaos.datablock'' (where_doc [(''vfs_domain'', M_str ''''), (''vfs_path'', regex_from ''stage/dev''),
      (''state'', M_int 0), (''ct'', M_doc [(''$gt'', M_date 0)])]) one_block_server = [(''_id'', M_oid (decimal 0)) # index_block]"
    by (simp add: srv_find_def one_block_server_def doc_matches_def field_holds_def index_block_def op_holds_def regex_from_def
        stamp_def sorted_by_def)
  moreover have "file_domain (vfs_file_info dev_reader) = ''''"
    by (simp add: dev_reader_def new_VFSFile_def vfs_file.defs)
  ultimately show ?thesis
    by (simp add: MongoDBDriver_def mongo_FindSinceTimeDataBlock_def doc_pool_def db_simps coll_def found_block_def assigned_def
        fillDatablock_def field_OID_def field_String_def index_block_def numberLong_def found_example_def new_DataBlock_def)
qed

lemma offered_example:
  assumes "length c < 2 ^ 31"
  shows "offered quiet_env doc_driver dev_reader found_example c (disk [''/d/stage/dev/x'' \<mapsto> c] one_block_server)"
proof -
  obtain s where "mongo_SwapStateOnDataBlock doc_pool ''chaos'' (vfs_file_info dev_reader) found_example 0 2 one_block_server = ((0, True), s)"
    by (rule swap_succeeds [OF doc_pool_answers])
  moreover have "current_block_creation_ts dev_reader = 0" by (simp add: dev_reader_def vfs_file.defs stage_reader.defs)
  moreover have "vfs_path found_example = ''stage/dev/x''" by (simp add: found_example_def)
  ultimately show ?thesis using find_example assms
    by (auto simp: offered_def getAbsolutePath_def quiet_env_def MongoDBDriver_def)
qed

lemma quiet_path: "getAbsolutePath quiet_env p = ''/d/'' @ p"
  by (simp add: getAbsolutePath_def quiet_env_def)

lemma found_path [simp]: "vfs_path found_example = ''stage/dev/x''"
  by (simp add: found_example_def)

theorem stage_block_read_back_witness:
  "\<exists>f' w'. read_packs 2 quiet_env doc_driver dev_reader [2, 1, 9] (disk [''/d/stage/dev/x'' \<mapsto> [1, 2, 3]] one_block_server) =
       Ret (Some ([(2, [1, 2]), (1, [3]), (0, [])], f'), w') \<and> current_data_block f' = None \<and>
     files w' = (([''/d/stage/dev/x'' \<mapsto> [1, 2, 3]] :: string \<rightharpoonup> u8 list)
        (''/d/stage/dev/x'' := None, ''/d/stage/dev/x.journal'' := None))"
proof -
  have off: "offered quiet_env doc_driver dev_reader found_example (concat [[1, 2], [3]])
      (disk [''/d/stage/dev/x'' \<mapsto> [1, 2, 3]] one_block_server)"
    using offered_example [of "[1, 2, 3]"] by simp
  have n: "map (\<lambda>p. of_nat (length p)) [[1, 2], [3 :: u8]] @ [9] = [2, 1, 9 :: u32]"
    "map (\<lambda>p. (int (length p), p)) [[1, 2], [3 :: u8]] @ [(0, [])] = [(2, [1, 2]), (1, [3]), (0, [])]" by simp_all
  have p: "getAbsolutePath quiet_env (vfs_path found_example) = ''/d/stage/dev/x''"
    "getAbsolutePath quiet_env (vfs_path found_example @ ''.journal'') = ''/d/stage/dev/x.journal''"
    by (simp_all add: quiet_path)
  have ne: "[[1, 2], [3 :: u8]] \<noteq> []" "\<forall>p \<in> set [[1, 2], [3 :: u8]]. p \<noteq> []" by simp_all
  show ?thesis
    by (rule stage_block_read_back [OF mongo.block_index_axioms quiet_env_calm wf_disk doc_driver_deletes dev_files(5,7,6) off ne,
          of 9, unfolded n p disk_simps])
qed


definition dev_parse :: "u8 list \<Rightarrow> pack_view option" where
  "dev_parse bs = Some \<lparr>pv_did = DidString ''dev'', pv_ds_type = Some 0, pv_timestamp = Some 1\<rparr>"

definition example_manager :: vfs_manager where
  "example_manager = \<lparr>mg_max_block_size = 100, mg_max_block_lifetime = 100, mg_files_for_path = []\<rparr>"

lemma scanner_at_start:
  assumes "\<And>did. did \<in> dids \<Longrightarrow> fresh_names E (data_path did) w" and "wf_world E w"
  shows "scanner_at E dids (new_scanner m junk) (\<lambda>_. []) w"
  using assms by (simp add: scanner_at_def new_scanner_def)

lemma example_packs_ok: "\<forall>p \<in> set [[6, 0, 0, 0, 1, 2], [5, 0, 0, 0, 3]]. pack_ok dev_parse {''dev''} p"
  by (simp add: pack_ok_def dev_parse_def pack_target_def)

theorem scan_moves_packs_witness:
  "\<exists>sc' f' H' w'. scan 3 2 quiet_env doc_driver little_endian dev_parse 0 (new_scanner example_manager 0) dev_reader
       (disk [''/d/stage/dev/x'' \<mapsto> [6, 0, 0, 0, 1, 2, 5, 0, 0, 0, 3]] one_block_server) = Ret (Some (0, sc', f'), w') \<and>
     scanner_at quiet_env {''dev''} sc' H' w' \<and> current_data_block f' = None \<and>
     concat (map snd (H' ''dev'')) = [[6, 0, 0, 0, 1, 2], [5, 0, 0, 0, 3]] \<and>
     files w' ''/d/stage/dev/x'' = None \<and> files w' ''/d/stage/dev/x.journal'' = None"
proof -
  let ?w = "disk [''/d/stage/dev/x'' \<mapsto> [6, 0, 0, 0, 1, 2, 5, 0, 0, 0, 3]] one_block_server"
  let ?packs = "[[6, 0, 0, 0, 1, 2], [5, 0, 0, 0, 3 :: u8]]"
  have off: "offered quiet_env doc_driver dev_reader found_example (concat ?packs) ?w"
    using offered_example [of "concat ?packs"] by simp
  have sc: "scanner_at quiet_env {''dev''} (new_scanner example_manager 0) (\<lambda>_. []) ?w"
    by (rule scanner_at_start) (auto simp: area_path_def quiet_path intro!: fresh_on_disk)
  have h: "vfs_path found_example \<notin> hist_paths (\<lambda>_. [])" "vfs_path found_example @ ''.journal'' \<notin> hist_paths (\<lambda>_. [])"
    by (simp_all add: hist_paths_def)
  have b: "4 \<le> length (data_buffer (new_scanner example_manager 0))" by (simp add: new_scanner_def)
  have p: "getAbsolutePath quiet_env (vfs_path found_example) = ''/d/stage/dev/x''"
    "getAbsolutePath quiet_env (vfs_path found_example @ ''.journal'') = ''/d/stage/dev/x.journal''"
    by (simp_all add: quiet_path)
  have l: "Suc (length ?packs) = 3" by simp
  note r = scan_moves_packs [OF mongo.block_index_axioms quiet_env_calm quiet_env_uuids(2) names_apart_single doc_driver_serves
      doc_driver_deletes sc b dev_files(5,7,6) off example_packs_ok h, of little_endian 0, unfolded l p list.map concat.simps append_Nil]
  then obtain sc' f' H' w' where
    s: "scan 3 2 quiet_env doc_driver little_endian dev_parse 0 (new_scanner example_manager 0) dev_reader ?w = Ret (Some (0, sc', f'), w')"
    "scanner_at quiet_env {''dev''} sc' H' w'" "current_data_block f' = None"
    "concat (map snd (H' ''dev'')) = filter (\<lambda>p. pack_target dev_parse p = Some ''dev'') ?packs"
    "files w' ''/d/stage/dev/x'' = None" "files w' ''/d/stage/dev/x.journal'' = None" by blast
  have "concat (map snd (H' ''dev'')) = ?packs" unfolding s(4) by (simp add: pack_target_def dev_parse_def)
  then show ?thesis using s(1-3,5,6) by blast
qed

theorem block_taken_twice_witness:
  "\<exists>f1' w1 f2' w2. take_found_block quiet_env doc_driver dev_reader (Some 0)
        ((disk [''/d/stage/dev/x'' \<mapsto> [1]] one_block_server)\<lparr>blocks := [0 \<mapsto> found_example, 1 \<mapsto> found_example], next_addr := 2\<rparr>) =
          Ret ((0, f1'), w1) \<and>
     take_found_block quiet_env doc_driver dev_reader (Some 1) w1 = Ret ((0, f2'), w2) \<and>
     current_data_block f1' = Some 0 \<and> current_data_block f2' = Some 1 \<and>
     current_journal_data_block f1' \<noteq> None \<and> current_journal_data_block f2' \<noteq> None"
  by (rule block_taken_twice [OF doc_pool_answers quiet_env_calm, where path = "''stage/dev/x''" and c = "[1]"
        and ?b1.0 = found_example and ?b2.0 = found_example])
    (simp_all add: quiet_path)

end
