(* ===== verification/Vfs_Query.thy ===== *)
theory Vfs_Query
  imports Mongo_Driver
begin

text \<open>
  Reading stored packs back: the cursor over the index (\<open>db_system/MongoDBIndexCursor.cpp\<close>), the cache of
  opened blocks (\<open>vfs/query/DataBlockCache.cpp\<close>, \<open>vfs/query/DataBlockFetcher.cpp\<close>) and the query that joins
  them (\<open>vfs/VFSQuery.cpp\<close>). The database of the world is the state of the Mongo pool.
\<close>

section \<open>The cursor\<close>

record index_cursor =
  element_found :: u64
  number_of_element_fetched :: u64
  result_page_dimension :: u32
  total_page_number :: u32
  current_page :: u32
  cur_query :: index_query
  time_offset_per_page_in_ms :: u64
  last_max_ts_searched :: u64
  number_of_returned_element_in_page :: u32
  fetched_element_page :: "mongo_doc list"

definition new_MongoDBIndexCursor :: "index_query \<Rightarrow> index_cursor" where
  "new_MongoDBIndexCursor q =
     \<lparr>element_found = 0, number_of_element_fetched = 0, result_page_dimension = 100, total_page_number = 0,
      current_page = 0, cur_query = q, time_offset_per_page_in_ms = 0, last_max_ts_searched = 0,
      number_of_returned_element_in_page = 0, fetched_element_page = []\<rparr>"

definition setResultPageDimension :: "u32 \<Rightarrow> index_cursor \<Rightarrow> index_cursor" where
  "setResultPageDimension n c = c\<lparr>result_page_dimension := n\<rparr>"

text \<open>
  The number of pages is computed in floating point, exactly for the counts that occur; a page dimension
  of 0 divides by zero and converts the result to an integer.
\<close>

definition set_pages :: "index_cursor \<Rightarrow> (int \<times> index_cursor, 'd) act" where
  "set_pages c =
     (let dim = unat (result_page_dimension c); n = unat (element_found c); q = cur_query c;
          pages = (of_nat ((n + dim - 1) div dim) :: u32) in
      if dim = 0 then afault
      else if pages \<noteq> 0 then
        areturn (0, c\<lparr>total_page_number := pages,
                      time_offset_per_page_in_ms := (iq_end_ts q - iq_start_ts q) div ucast pages\<rparr>)
      else areturn (- 1, c\<lparr>total_page_number := 0, time_offset_per_page_in_ms := 0\<rparr>))"

definition computeTimeLapsForPage ::
  "'m mongo_pool \<Rightarrow> string \<Rightarrow> index_cursor \<Rightarrow> (int \<times> index_cursor, 'm) act" where
  "computeTimeLapsForPage P db_name c =
     abind (if iq_start_ts (cur_query c) = 0 \<or> iq_end_ts (cur_query c) = 0 then
              abind (db_call (idxMaxAndMInimumTimeStampForDataPack P db_name (cur_query c))) (\<lambda>(err, min_ts, max_ts).
              areturn (err, if err \<noteq> 0 then cur_query c
                            else (cur_query c)\<lparr>iq_start_ts := (if iq_start_ts (cur_query c) = 0 then min_ts else iq_start_ts (cur_query c)),
                                               iq_end_ts := (if iq_end_ts (cur_query c) = 0 then max_ts else iq_end_ts (cur_query c))\<rparr>))
            else areturn (0, cur_query c)) (\<lambda>(err, q).
     if err \<noteq> 0 then areturn (err, c)
     else
       abind (db_call (idxSearchResultCountDataPack P db_name q (element_found c))) (\<lambda>(err, n).
       let c1 = c\<lparr>element_found := n, cur_query := q\<rparr> in
       if err \<noteq> 0 then areturn (err, c1) else set_pages c1))"

text \<open>
  One page. The page after the last found element asks the server for 0 documents, which is no limit at
  all. The last document of the page is read without a test that there is one; a field of the wrong type
  throws.
\<close>

definition performNextPagedQuery ::
  "'m mongo_pool \<Rightarrow> string \<Rightarrow> index_cursor \<Rightarrow> (int \<times> index_cursor, 'm) act" where
  "performNextPagedQuery P db_name c =
     (let c1 = c\<lparr>number_of_returned_element_in_page := 0, fetched_element_page := [], current_page := current_page c + 1\<rparr>;
          q = cur_query c;
          from_ts = (if last_max_ts_searched c \<noteq> 0 then last_max_ts_searched c + 1 else iq_start_ts q);
          left = (ucast (element_found c - number_of_element_fetched c) :: u32);
          to_fetch = (if result_page_dimension c > left then left else result_page_dimension c) in
      if last_max_ts_searched c \<ge> iq_end_ts q then areturn (0, c1)
      else
        abind (db_call (idxSearchDataPack P db_name (q\<lparr>iq_start_ts := from_ts\<rparr>) to_fetch)) (\<lambda>(err, ds).
        let c2 = c1\<lparr>fetched_element_page := ds\<rparr> in
        if err \<noteq> 0 then areturn (err, c2)
        else if ds = [] then afault
        else (case map_of (last ds) ''acq_ts_numeric'' of
                Some (M_long t) \<Rightarrow>
                  areturn (0, c2\<lparr>number_of_element_fetched := number_of_element_fetched c + of_nat (length ds),
                                 last_max_ts_searched := t\<rparr>)
              | _ \<Rightarrow> (\<lambda>w. Throw wrong_type))))"

definition hasNext :: "index_cursor \<Rightarrow> bool" where
  "hasNext c \<longleftrightarrow> unat (number_of_returned_element_in_page c) \<noteq> length (fetched_element_page c)"

record query_result =
  qr_domain :: string
  qr_path :: string
  qr_offset :: u64
  qr_size :: u32

definition index_result :: "mongo_doc \<Rightarrow> query_result option" where
  "index_result d =
     (case (map_of d ''db_domain'', map_of d ''db_path'', map_of d ''db_offset'') of
        (Some (M_str dm), Some (M_str p), Some (M_long off)) \<Rightarrow>
          Some \<lparr>qr_domain = dm, qr_path = p, qr_offset = off, qr_size = numberInt d ''dp_size''\<rparr>
      | _ \<Rightarrow> None)"

definition getIndex :: "index_cursor \<Rightarrow> (query_result option \<times> index_cursor, 'd) act" where
  "getIndex c =
     (let i = unat (number_of_returned_element_in_page c) in
      if \<not> hasNext c then areturn (None, c)
      else if length (fetched_element_page c) \<le> i then afault
      else (case index_result (fetched_element_page c ! i) of
              None \<Rightarrow> (\<lambda>w. Throw wrong_type)
            | Some r \<Rightarrow> areturn (Some r, c\<lparr>number_of_returned_element_in_page := number_of_returned_element_in_page c + 1\<rparr>)))"

definition idxStartSearchDataPack ::
  "'m mongo_pool \<Rightarrow> string \<Rightarrow> index_query \<Rightarrow> (int \<times> index_cursor, 'm) act" where
  "idxStartSearchDataPack P db_name q = computeTimeLapsForPage P db_name (new_MongoDBIndexCursor q)"

section \<open>Opened blocks\<close>

text \<open>Fetchers live on a heap of their own; the map of the cache and the maps of the queries point to them.\<close>

record fetcher =
  use_count :: u32
  datablock_path :: string
  fetch_block :: "nat option"

record block_cache =
  fetchers :: "nat \<rightharpoonup> fetcher"
  next_fetcher :: nat
  map_path_datablock :: "(string \<times> nat) list"

definition fetcher_open :: "vfs_env \<Rightarrow> fetcher \<Rightarrow> (int \<times> fetcher, 'd) act" where
  "fetcher_open E ft =
     abind (psd_openBlockPath E (datablock_path ft) BlockFlagReadeable) (\<lambda>(err, p). areturn (err, ft\<lparr>fetch_block := p\<rparr>))"

definition fetcher_close :: "vfs_env \<Rightarrow> fetcher \<Rightarrow> (int \<times> fetcher, 'd) act" where
  "fetcher_close E ft =
     (if fetch_block ft = None then areturn (- 1, ft)
      else abind (psd_closeBlock E (fetch_block ft)) (\<lambda>err. areturn (err, ft\<lparr>fetch_block := None\<rparr>)))"

definition fetcher_readData :: "vfs_env \<Rightarrow> fetcher \<Rightarrow> u64 \<Rightarrow> u32 \<Rightarrow> (int \<times> u8 list, 'd) act" where
  "fetcher_readData E ft offset data_len =
     abind (block_at (fetch_block ft)) (\<lambda>b.
     if max_reacheable_size b \<le> offset then areturn (- 1000, [])
     else
       abind (psd_seekg E (fetch_block ft) offset BlockSeekBaseBegin) (\<lambda>err.
       if err \<noteq> 0 then areturn (err, [])
       else abind (psd_read E (fetch_block ft) (unat data_len)) (\<lambda>(err, _, bs).
         areturn (err, if err \<noteq> 0 then [] else bs @ replicate (unat data_len - length bs) 0))))"

text \<open>A fetcher that cannot be opened is handed out with the error and is in no map.\<close>

definition getFetcherForBlockWithPath ::
  "vfs_env \<Rightarrow> string \<Rightarrow> block_cache \<Rightarrow> (int \<times> nat \<times> block_cache, 'd) act" where
  "getFetcherForBlockWithPath E path bc =
     (case map_of (map_path_datablock bc) path of
        Some a \<Rightarrow>
          (case fetchers bc a of
             None \<Rightarrow> afault
           | Some ft \<Rightarrow> areturn (0, a, bc\<lparr>fetchers := (fetchers bc)(a \<mapsto> ft\<lparr>use_count := use_count ft + 1\<rparr>)\<rparr>))
      | None \<Rightarrow>
          (let a = next_fetcher bc in
           abind (fetcher_open E \<lparr>use_count = 0, datablock_path = path, fetch_block = None\<rparr>) (\<lambda>(err, ft).
           if err \<noteq> 0 then areturn (err, a, bc\<lparr>fetchers := (fetchers bc)(a \<mapsto> ft), next_fetcher := Suc a\<rparr>)
           else areturn (0, a, bc\<lparr>fetchers := (fetchers bc)(a \<mapsto> ft\<lparr>use_count := 1\<rparr>), next_fetcher := Suc a,
                                  map_path_datablock := AList.update path a (map_path_datablock bc)\<rparr>))))"

definition releaseFetcher :: "nat option \<Rightarrow> block_cache \<Rightarrow> block_cache outcome" where
  "releaseFetcher p bc =
     (case p of
        None \<Rightarrow> Ret bc
      | Some a \<Rightarrow> (case fetchers bc a of
                     None \<Rightarrow> Fault
                   | Some ft \<Rightarrow> Ret (bc\<lparr>fetchers := (fetchers bc)(a \<mapsto> ft\<lparr>use_count := use_count ft - 1\<rparr>)\<rparr>)))"

fun clean_entries ::
  "vfs_env \<Rightarrow> bool \<Rightarrow> (string \<times> nat) list \<Rightarrow> block_cache \<Rightarrow> ((string \<times> nat) list \<times> block_cache, 'd) act" where
  "clean_entries E all_unused [] bc = areturn ([], bc)"
| "clean_entries E all_unused ((path, a) # es) bc =
     (case fetchers bc a of
        None \<Rightarrow> afault
      | Some ft \<Rightarrow>
          if use_count ft = 0 \<or> all_unused then
            abind (fetcher_close E ft) (\<lambda>_. clean_entries E all_unused es (bc\<lparr>fetchers := (fetchers bc)(a := None)\<rparr>))
          else abind (clean_entries E all_unused es bc) (\<lambda>(kept, bc1). areturn ((path, a) # kept, bc1)))"

definition cache_clean :: "vfs_env \<Rightarrow> bool \<Rightarrow> block_cache \<Rightarrow> (block_cache, 'd) act" where
  "cache_clean E all_unused bc =
     abind (clean_entries E all_unused (map_path_datablock bc) bc) (\<lambda>(kept, bc1).
     areturn (bc1\<lparr>map_path_datablock := kept\<rparr>))"

section \<open>Queries\<close>

record vfs_query =
  vq_query :: index_query
  query_cursor :: "index_cursor option"
  query_blocks :: "(string \<times> nat) list"

definition new_VFSQuery :: "index_query \<Rightarrow> vfs_query" where
  "new_VFSQuery q = \<lparr>vq_query = q, query_cursor = None, query_blocks = []\<rparr>"

fun release_query_blocks :: "(string \<times> nat) list \<Rightarrow> block_cache \<Rightarrow> block_cache outcome" where
  "release_query_blocks [] bc = Ret bc"
| "release_query_blocks ((path, a) # bs) bc = obind (releaseFetcher (Some a) bc) (release_query_blocks bs)"

definition delete_VFSQuery :: "vfs_query \<Rightarrow> block_cache \<Rightarrow> block_cache outcome" where
  "delete_VFSQuery vq bc = release_query_blocks (query_blocks vq) bc"

definition getDatablockFetcherForIndex ::
  "vfs_env \<Rightarrow> query_result \<Rightarrow> vfs_query \<Rightarrow> block_cache \<Rightarrow> (int \<times> nat \<times> vfs_query \<times> block_cache, 'd) act" where
  "getDatablockFetcherForIndex E r vq bc =
     (case map_of (query_blocks vq) (qr_path r) of
        Some a \<Rightarrow> areturn (0, a, vq, bc)
      | None \<Rightarrow>
          abind (getFetcherForBlockWithPath E (qr_path r) bc) (\<lambda>(err, a, bc1).
          areturn (err, a, if err \<noteq> 0 then vq else vq\<lparr>query_blocks := AList.update (qr_path r) a (query_blocks vq)\<rparr>, bc1)))"

definition getDataPackForIndex ::
  "vfs_env \<Rightarrow> query_result \<Rightarrow> vfs_query \<Rightarrow> block_cache \<Rightarrow> ((int \<times> u8 list) \<times> vfs_query \<times> block_cache, 'd) act" where
  "getDataPackForIndex E r vq bc =
     abind (getDatablockFetcherForIndex E r vq bc) (\<lambda>(err, a, vq1, bc1).
     if err \<noteq> 0 then areturn ((err, []), vq1, bc1)
     else (case fetchers bc1 a of
             None \<Rightarrow> afault
           | Some ft \<Rightarrow> abind (fetcher_readData E ft (qr_offset r) (qr_size r)) (\<lambda>res. areturn (res, vq1, bc1))))"

definition query_execute :: "'m mongo_pool \<Rightarrow> string \<Rightarrow> vfs_query \<Rightarrow> (int \<times> vfs_query, 'm) act" where
  "query_execute P db_name vq =
     abind (idxStartSearchDataPack P db_name (vq_query vq)) (\<lambda>(err, c).
     areturn (err, if err \<noteq> 0 then vq else vq\<lparr>query_cursor := Some c\<rparr>))"

text \<open>
  The packs of the page in memory, up to \<open>limit_to\<close> of them; the counter of a limit of 0 wraps around. The
  recursion is bounded by what is left of the page.
\<close>

fun read_page ::
  "nat \<Rightarrow> vfs_env \<Rightarrow> u32 \<Rightarrow> index_cursor \<Rightarrow> vfs_query \<Rightarrow> block_cache \<Rightarrow> u8 list list \<Rightarrow>
   (int \<times> u8 list list \<times> index_cursor \<times> vfs_query \<times> block_cache, 'd) act" where
  "read_page 0 E limit_to c vq bc acc = areturn (0, acc, c, vq, bc)"
| "read_page (Suc n) E limit_to c vq bc acc =
     (if \<not> hasNext c then areturn (0, acc, c, vq, bc)
      else
        abind (getIndex c) (\<lambda>(r, c1).
        case r of
          None \<Rightarrow> afault
        | Some i \<Rightarrow>
            abind (getDataPackForIndex E i vq bc) (\<lambda>((err, data), vq1, bc1).
            let acc1 = (if err \<noteq> 0 then acc else acc @ [data]) in
            if limit_to - 1 = 0 \<or> err \<noteq> 0 then areturn (err, acc1, c1, vq1, bc1)
            else read_page n E (limit_to - 1) c1 vq1 bc1 acc1)))"

definition readDataPackPage ::
  "'m mongo_pool \<Rightarrow> string \<Rightarrow> vfs_env \<Rightarrow> u32 \<Rightarrow> vfs_query \<Rightarrow> block_cache \<Rightarrow> u8 list list \<Rightarrow>
   (int \<times> u8 list list \<times> vfs_query \<times> block_cache, 'm) act" where
  "readDataPackPage P db_name E limit_to vq bc readed =
     (case query_cursor vq of
        None \<Rightarrow> afault
      | Some c \<Rightarrow>
          if element_found c = number_of_element_fetched c then areturn (0, readed, vq, bc)
          else
            abind (if hasNext c then areturn (0, c) else performNextPagedQuery P db_name c) (\<lambda>(err, c1).
            if err \<noteq> 0 then areturn (err, readed, vq\<lparr>query_cursor := Some c1\<rparr>, bc)
            else
              abind (read_page (length (fetched_element_page c1)) E limit_to c1 vq bc readed) (\<lambda>(err, acc, c2, vq1, bc1).
              areturn (err, acc, vq1\<lparr>query_cursor := Some c2\<rparr>, bc1))))"


section \<open>The manager\<close>

text \<open>
  The operations of \<open>VFSManager\<close> that pass a request on, to the storage or to the database. The one that
  resets blocks whose writer is gone takes the data area for the stage and the stage area for the data.
\<close>

definition getVFSQuery :: "index_query \<Rightarrow> vfs_query" where
  "getVFSQuery = new_VFSQuery"

definition vfs_createDirectory :: "vfs_env \<Rightarrow> string \<Rightarrow> bool \<Rightarrow> (int, 'd) act" where
  "vfs_createDirectory E path all_path = (if all_path then psd_createPath E path else psd_createDirectory E path)"

definition vfs_deleteDirectory :: "vfs_env \<Rightarrow> string \<Rightarrow> bool \<Rightarrow> (int, 'd) act" where
  "vfs_deleteDirectory = psd_deletePath"

definition getAllStageFileVFSPath ::
  "'m mongo_pool \<Rightarrow> string \<Rightarrow> vfs_env \<Rightarrow> u32 \<Rightarrow> (int \<times> string list, 'm) act" where
  "getAllStageFileVFSPath P db_name E limit_to_size =
     db_call (vfsGetFilePathForDomain P db_name (domain_name E) ''stage'' limit_to_size)"

definition getNextIndexableStageFileVFSPath ::
  "'m mongo_pool \<Rightarrow> string \<Rightarrow> vfs_env \<Rightarrow> string \<Rightarrow> (int \<times> string, 'm) act" where
  "getNextIndexableStageFileVFSPath P db_name E path =
     db_call (vfsGetFilePathForOldestBlockState P db_name (domain_name E) ''stage'' DataBlockStateNone path)"

definition changeStateToTimeoutedDatablock ::
  "'m mongo_pool \<Rightarrow> string \<Rightarrow> vfs_env \<Rightarrow> bool \<Rightarrow> u32 \<Rightarrow> int \<Rightarrow> int \<Rightarrow> (int, 'm) act" where
  "changeStateToTimeoutedDatablock P db_name E stage_data timeout_delay timeout_state new_state =
     db_call (vfsChangeStateToOutdatedChunck P db_name (domain_name E) (if stage_data then ''data'' else ''stage'')
       timeout_delay timeout_state new_state)"

end
