(* ===== verification/Query_Engine.thy ===== *)
theory Query_Engine
  imports Vfs_Query
begin

text \<open>
  The engine that answers data queries (\<open>ChaosDataService/query_engine/QueryEngine.cpp\<close>). A thread takes a
  query from the queue, makes one step of it and puts it back; the step is the function \<open>process_step\<close>. The
  channel to the client is a parameter: whether there is one, and the result of each send, as functions of
  what has been sent to it; that the connection itself can be made is assumed, for when it cannot the engine
  disposes of a structure without a connection and dereferences a null pointer. The packs of a query are
  values; their deallocation is not modelled.
\<close>

datatype query_phase =
    PhaseEmpty | PhaseNeedSearch | PhaseFetchData | PhaseForwardData | PhaseError | PhaseClientDisconnected | PhaseEnd

record data_cloud_query =
  query_phase_of :: query_phase
  dq_id :: string
  total_data_pack_sent :: u32
  dq_vfs_query :: "vfs_query option"
  number_of_element_to_forward :: u64
  fetched_data_vector :: "u8 list list"

definition new_DataCloudQuery :: "string \<Rightarrow> data_cloud_query" where
  "new_DataCloudQuery qid =
     \<lparr>query_phase_of = PhaseNeedSearch, dq_id = qid, total_data_pack_sent = 0, dq_vfs_query = None,
      number_of_element_to_forward = 0, fetched_data_vector = []\<rparr>"

datatype client_msg = StartResult string u64 | ResultData string u32 "u8 list" | EndResult string int

record client_channel =
  ch_present :: "client_msg list \<Rightarrow> bool"
  ch_send :: "client_msg list \<Rightarrow> client_msg \<Rightarrow> int"

text \<open>\<open>executeQuery\<close>: the query goes to the queue with its part on the virtual files.\<close>

definition engine_executeQuery :: "index_query \<Rightarrow> data_cloud_query \<Rightarrow> data_cloud_query" where
  "engine_executeQuery q dq = dq\<lparr>dq_vfs_query := Some (new_VFSQuery q), query_phase_of := PhaseNeedSearch\<rparr>"

definition engine_handleEvent :: "bool \<Rightarrow> data_cloud_query \<Rightarrow> data_cloud_query" where
  "engine_handleEvent disconnected dq = (if disconnected then dq\<lparr>query_phase_of := PhaseClientDisconnected\<rparr> else dq)"

section \<open>Sending\<close>

definition send_to_client :: "client_channel \<Rightarrow> client_msg \<Rightarrow> client_msg list \<Rightarrow> int \<times> client_msg list" where
  "send_to_client C m sent = (if \<not> ch_present C sent then (- 1, sent) else (ch_send C sent m, sent @ [m]))"

text \<open>
  The packs of a page are taken from the end of the vector, at most 50 in one step.
\<close>

fun send_packs ::
  "nat \<Rightarrow> client_channel \<Rightarrow> data_cloud_query \<Rightarrow> client_msg list \<Rightarrow> (int \<times> data_cloud_query \<times> client_msg list) outcome" where
  "send_packs 0 C dq sent = Ret (0, dq, sent)"
| "send_packs (Suc n) C dq sent =
     (if number_of_element_to_forward dq = 0 then Ret (0, dq, sent)
      else
        let i = number_of_element_to_forward dq - 1 in
        if length (fetched_data_vector dq) \<le> unat i then Fault
        else
          let m = ResultData (dq_id dq) (total_data_pack_sent dq + 1) (fetched_data_vector dq ! unat i);
              err = ch_send C sent m;
              dq1 = dq\<lparr>number_of_element_to_forward := i, total_data_pack_sent := total_data_pack_sent dq + 1\<rparr>;
              err1 = (if err = 0 \<and> query_phase_of dq \<noteq> PhaseForwardData then - 1 else err) in
          if err1 \<noteq> 0 then Ret (err1, dq1, sent @ [m])
          else send_packs n C dq1 (sent @ [m]))"

definition sendDataToClient ::
  "client_channel \<Rightarrow> data_cloud_query \<Rightarrow> client_msg list \<Rightarrow> (int \<times> data_cloud_query \<times> client_msg list) outcome" where
  "sendDataToClient C dq sent = (if \<not> ch_present C sent then Ret (- 1, dq, sent) else send_packs 50 C dq sent)"

section \<open>One step\<close>

definition step_search ::
  "'m mongo_pool \<Rightarrow> string \<Rightarrow> client_channel \<Rightarrow> data_cloud_query \<Rightarrow> client_msg list \<Rightarrow>
   (int \<times> data_cloud_query \<times> client_msg list, 'm) act" where
  "step_search P db_name C dq sent =
     (case dq_vfs_query dq of
        None \<Rightarrow> afault
      | Some vq \<Rightarrow>
          abind (query_execute P db_name vq) (\<lambda>(err, vq1).
          let dq1 = dq\<lparr>dq_vfs_query := Some vq1\<rparr> in
          if err \<noteq> 0 then areturn (- 1, dq1\<lparr>query_phase_of := PhaseError\<rparr>, sent)
          else (case query_cursor vq1 of
                  None \<Rightarrow> afault
                | Some c \<Rightarrow> areturn (0, dq1\<lparr>query_phase_of := PhaseFetchData\<rparr>,
                                     snd (send_to_client C (StartResult (dq_id dq) (element_found c)) sent)))))"

definition step_fetch ::
  "'m mongo_pool \<Rightarrow> string \<Rightarrow> vfs_env \<Rightarrow> data_cloud_query \<Rightarrow> block_cache \<Rightarrow>
   (int \<times> data_cloud_query \<times> block_cache, 'm) act" where
  "step_fetch P db_name E dq bc =
     (case dq_vfs_query dq of
        None \<Rightarrow> afault
      | Some vq \<Rightarrow>
          abind (readDataPackPage P db_name E 100 vq bc (fetched_data_vector dq)) (\<lambda>(err, packs, vq1, bc1).
          case query_cursor vq1 of
            None \<Rightarrow> afault
          | Some c \<Rightarrow>
              let phase = (if err \<noteq> 0 then PhaseError
                           else if packs = [] \<and> number_of_element_fetched c = element_found c then PhaseEnd
                           else if packs \<noteq> [] then PhaseForwardData else PhaseFetchData) in
              areturn (if err \<noteq> 0 then - 2 else 0,
                       dq\<lparr>query_phase_of := phase, dq_vfs_query := Some vq1, fetched_data_vector := packs,
                          number_of_element_to_forward := of_nat (length packs)\<rparr>, bc1)))"

definition step_forward ::
  "client_channel \<Rightarrow> data_cloud_query \<Rightarrow> client_msg list \<Rightarrow> (int \<times> data_cloud_query \<times> client_msg list) outcome" where
  "step_forward C dq sent =
     obind (sendDataToClient C dq sent) (\<lambda>(err, dq1, sent1).
     if err \<noteq> 0 then Ret (- 3, dq1\<lparr>query_phase_of := PhaseError\<rparr>, sent1)
     else if number_of_element_to_forward dq1 = 0 then
       Ret (0, dq1\<lparr>query_phase_of := PhaseFetchData, fetched_data_vector := []\<rparr>, sent1)
     else Ret (0, dq1, sent1))"

definition alift :: "'a outcome \<Rightarrow> ('a, 'd) act" where
  "alift x w = obind x (\<lambda>a. Ret (a, w))"

text \<open>
  The step of a query; \<open>None\<close> stands for a query that has been answered to its end and disposed of. The
  code of an error belongs to the step that found it.
\<close>

definition finish_query ::
  "client_channel \<Rightarrow> int \<Rightarrow> data_cloud_query \<Rightarrow> block_cache \<Rightarrow> client_msg list \<Rightarrow>
   (data_cloud_query option \<times> block_cache \<times> client_msg list) outcome" where
  "finish_query C query_error dq bc sent =
     (if query_phase_of dq \<in> {PhaseError, PhaseEnd, PhaseClientDisconnected} then
        let code = (case query_phase_of dq of PhaseError \<Rightarrow> query_error | PhaseEnd \<Rightarrow> 0 | _ \<Rightarrow> - 3);
            sent1 = snd (send_to_client C (EndResult (dq_id dq) code) sent) in
        (case dq_vfs_query dq of
           None \<Rightarrow> Ret (None, bc, sent1)
         | Some vq \<Rightarrow> obind (delete_VFSQuery vq bc) (\<lambda>bc1. Ret (None, bc1, sent1)))
      else Ret (Some dq, bc, sent))"

definition process_step ::
  "'m mongo_pool \<Rightarrow> string \<Rightarrow> vfs_env \<Rightarrow> client_channel \<Rightarrow> data_cloud_query \<Rightarrow> block_cache \<Rightarrow> client_msg list \<Rightarrow>
   (data_cloud_query option \<times> block_cache \<times> client_msg list, 'm) act" where
  "process_step P db_name E C dq bc sent =
     (case query_phase_of dq of
        PhaseNeedSearch \<Rightarrow>
          abind (step_search P db_name C dq sent) (\<lambda>(qe, dq1, sent1). alift (finish_query C qe dq1 bc sent1))
      | PhaseFetchData \<Rightarrow>
          abind (step_fetch P db_name E dq bc) (\<lambda>(qe, dq1, bc1). alift (finish_query C qe dq1 bc1 sent))
      | PhaseForwardData \<Rightarrow>
          abind (alift (step_forward C dq sent)) (\<lambda>(qe, dq1, sent1). alift (finish_query C qe dq1 bc sent1))
      | _ \<Rightarrow> alift (finish_query C 0 dq bc sent))"

text \<open>A query alone in the queue: its steps one after the other, \<open>None\<close> when \<open>n\<close> of them do not end it.\<close>

fun run_query ::
  "nat \<Rightarrow> 'm mongo_pool \<Rightarrow> string \<Rightarrow> vfs_env \<Rightarrow> client_channel \<Rightarrow> data_cloud_query \<Rightarrow> block_cache \<Rightarrow> client_msg list \<Rightarrow>
   ((block_cache \<times> client_msg list) option, 'm) act" where
  "run_query 0 P db_name E C dq bc sent = areturn None"
| "run_query (Suc n) P db_name E C dq bc sent =
     abind (process_step P db_name E C dq bc sent) (\<lambda>(r, bc1, sent1).
     case r of None \<Rightarrow> areturn (Some (bc1, sent1)) | Some dq1 \<Rightarrow> run_query n P db_name E C dq1 bc1 sent1)"

end
