(* ===== verification/Query_Reading.thy ===== *)
theory Query_Reading
  imports Query_Engine Stage_Reading
begin

text \<open>
  Blocks read through the cache of fetchers, on a system that refuses nothing: each file is opened once,
  and a pack is read wherever it lies in its block.
\<close>

section \<open>Fetchers\<close>

definition fetcher_at :: "fetcher \<Rightarrow> string \<Rightarrow> u8 list \<Rightarrow> 'd world \<Rightarrow> bool" where
  "fetcher_at ft path c w \<longleftrightarrow>
     datablock_path ft = path \<and> length c < 2 ^ 31 \<and>
     (\<exists>a b st. fetch_block ft = Some a \<and> bview w a = Some (b, st, c) \<and> vfs_path b = path \<and> fs_in st \<and> \<not> fs_out st \<and>
        stream_good st \<and> max_reacheable_size b = of_nat (length c))"

lemma psd_openBlockPath_read:
  assumes E: "calm E" and wf: "wf_world E w" and d: "getAbsolutePath E path \<notin> set (dirs w)"
    and u: "path_unused w path" and c: "files w (getAbsolutePath E path) = Some c"
  obtains a b st w' where "psd_openBlockPath E path BlockFlagReadeable w = Ret ((0, Some a), w')" "wf_world E w'"
    "touches E a path w w'" "blocks w a = None" "bview w' a = Some (b, st, c)" "vfs_path b = path"
    "max_reacheable_size b = of_nat (length c)" "fs_in st" "\<not> fs_out st" "stream_good st" "files w' = files w"
proof -
  let ?p = "getAbsolutePath E path" and ?s = "next_addr w" and ?a = "Suc (next_addr w)"
  let ?st = "\<lparr>fs_path = ?p, fs_in = True, fs_out = False, fs_pos = 0, fs_pending = [], fs_bad = False, fs_eof = False\<rparr>"
  let ?b = "new_DataBlock\<lparr>vfs_path := path, vfs_domain := domain_name E, driver_private_data := Some ?s,
      blk_flags := 2, max_reacheable_size := of_nat (length c), creation_time := env_now E (ticks w + 3)\<rparr>"
  let ?w = "add_open ?a ?s ?b ?st c (Suc ?a) (ticks w + 4) w"
  have "psd_openBlockPath E path BlockFlagReadeable w = Ret ((0, Some ?a), ?w)"
    using d c calmD(1) [OF E]
    by (simp add: psd_openBlockPath_def open_fstream_def Let_def act_simps new_stream_fresh new_block_fresh
        flag_writeable_def flag_readable_def BlockFlagReadeable_def file_bytes_def add_open_def eval_nat_numeral fun_upd_idem)
  moreover have "blocks w ?a = None" by (rule fresh_block [OF wf]) simp
  moreover note add_open_opens [OF wf u, of ?s "Suc ?a" ?a "ticks w + 4" ?b ?st c]
  moreover have "files ?w = files w" using c by (simp add: add_open_def fun_upd_idem)
  ultimately show thesis using wf by (intro that [of ?a ?w ?b ?st]) (simp_all add: new_DataBlock_def stream_good_def)
qed

lemma psd_seekg_read:
  assumes E: "calm E" and wf: "wf_world E w" and v: "bview w a = Some (b, st, c)"
    and st: "\<not> fs_out st" "stream_good st" and off: "0 \<le> sint off"
  obtains w' where "psd_seekg E (Some a) off BlockSeekBaseBegin w = Ret (0, w')" "wf_world E w'" "touches E a (vfs_path b) w w'"
    "bview w' a = Some (b, st\<lparr>fs_pos := nat (sint off)\<rparr>, c)" "files w' = files w"
proof -
  from viewE [OF wf v] st(1) obtain s where s: "blocks w a = Some b" "driver_private_data b = Some s"
    "streams w s = Some st" "files w (fs_path st) = Some c" "fs_path st = getAbsolutePath E (vfs_path b)" "fs_pending st = []"
    by (metis append_Nil2 fstream.surjective fstream.update_convs(5))
  let ?st = "st\<lparr>fs_eof := False, fs_pos := nat (sint off)\<rparr>"
  let ?w = "upd_open a s b ?st c (ticks w) w"
  have eq: "?st = st\<lparr>fs_pos := nat (sint off)\<rparr>" using st(2) by (cases st) (simp add: stream_good_def)
  have f: "fstream_flush E (Some s) w = Ret ((), w)" using s(3) st(1) by (simp add: fstream_flush_def act_simps areturn_def)
  have "psd_seekg E (Some a) off BlockSeekBaseBegin w = Ret (0, ?w)"
    using s st off f
    by (simp add: psd_seekg_def fstream_seek_def act_simps seek_base_def stream_good_def Let_def set_stream_def upd_open_def
        fun_upd_idem)
  moreover note upd_open_touches [OF wf s(1,2,2) HOL.refl, of ?st "ticks w" c]
  moreover have "files ?w = files w" using s(4) by (simp add: upd_open_def fun_upd_idem)
  moreover have "(st\<lparr>fs_pos := nat (sint off)\<rparr>)\<lparr>fs_pending := []\<rparr> = st\<lparr>fs_pos := nat (sint off)\<rparr>" using s(6) by (cases st) simp
  ultimately show thesis using s(5,6) by (intro that [of ?w]) (simp_all add: eq)
qed

lemma sint_u64_small: "n < 2 ^ 31 \<Longrightarrow> sint (of_nat n :: u64) = int n"
  by (simp add: signed_of_nat signed_take_bit_int_eq_self)

lemma fetcher_read_calm:
  assumes E: "calm E" and wf: "wf_world E w" and f: "fetcher_at ft path c w" and n: "off + n \<le> length c" "off < length c"
  obtains w' where "fetcher_readData E ft (of_nat off) (of_nat n) w = Ret ((0, take n (drop off c)), w')" "wf_world E w'"
    "fetcher_at ft path c w'" "touches E (the (fetch_block ft)) path w w'" "files w' = files w"
proof -
  from f obtain a b st where a: "fetch_block ft = Some a" "bview w a = Some (b, st, c)" "vfs_path b = path" "fs_in st"
    "\<not> fs_out st" "stream_good st" "max_reacheable_size b = of_nat (length c)" and l: "length c < 2 ^ 31" "datablock_path ft = path"
    by (auto simp: fetcher_at_def)
  have bb: "blocks w a = Some b" using a(2) by (rule bviewE)
  have small: "off < 2 ^ 31" "n < 2 ^ 31" using n l by auto
  have lt: "\<not> max_reacheable_size b \<le> of_nat off" using a(7) n(2) small l by (simp add: word_le_nat_alt unat_u64_small)
  have so: "sint (of_nat off :: u64) = int off" by (rule sint_u64_small [OF small(1)])
  obtain w1 where w1: "psd_seekg E (Some a) (of_nat off) BlockSeekBaseBegin w = Ret (0, w1)" "wf_world E w1" "touches E a path w w1"
    "bview w1 a = Some (b, st\<lparr>fs_pos := off\<rparr>, c)" "files w1 = files w"
    by (rule psd_seekg_read [OF E wf a(2,5,6), of "of_nat off"]) (use so a(3) in auto)
  obtain w2 where w2: "wf_world E w2" "touches E a path w1 w2" "blocks w2 = blocks w1"
    "psd_read E (Some a) n w1 = Ret ((0, of_nat n, take n (drop off c)), w2)" "bview w2 a = Some (b, st\<lparr>fs_pos := off + n\<rparr>, c)"
    by (rule psd_read_calm [OF E w1(2,4), of n]) (use a n in \<open>auto simp: stream_good_def\<close>)
  have len: "length (take n (drop off c)) = n" using n by simp
  have "fetcher_readData E ft (of_nat off) (of_nat n) w = Ret ((0, take n (drop off c)), w2)"
    using a(1) bb lt w1(1) w2(4) len by (simp add: fetcher_readData_def act_simps unat_u32_small [OF small(2)])
  moreover have "fetcher_at ft path c w2" using a l w2(5) by (auto simp: fetcher_at_def stream_good_def)
  moreover have t: "touches E a path w w2" by (rule touches_trans [OF w1(3) w2(2)])
  moreover have "files w2 = files w"
  proof
    fix q
    have v: "files w (getAbsolutePath E path) = Some c" "files w2 (getAbsolutePath E path) = Some c"
    proof -
      have g: "files w' (getAbsolutePath E path) = Some c"
        if "wf_world E w'" "bview w' a = Some (b, st', c)" "\<not> fs_out st'" for w' and st' :: fstream
        using viewE [OF that(1,2)] that(3) a(3) by (metis append_Nil2)
      show "files w (getAbsolutePath E path) = Some c" by (rule g [OF wf a(2,5)])
      show "files w2 (getAbsolutePath E path) = Some c" by (rule g [OF w2(1,5)]) (simp add: a(5))
    qed
    show "files w2 q = files w q" using t v by (cases "q = getAbsolutePath E path") (auto simp: touches_def)
  qed
  ultimately show thesis using that [of w2] w2(1) a(1) by simp
qed


section \<open>The cache and the query\<close>

definition cache_at :: "vfs_env \<Rightarrow> (string \<rightharpoonup> u8 list) \<Rightarrow> block_cache \<Rightarrow> 'd world \<Rightarrow> bool" where
  "cache_at E K bc w \<longleftrightarrow>
     wf_world E w \<and>
     (\<forall>p c. K p = Some c \<longrightarrow> files w (getAbsolutePath E p) = Some c \<and> getAbsolutePath E p \<notin> set (dirs w) \<and> length c < 2 ^ 31) \<and>
     (\<forall>p a. map_of (map_path_datablock bc) p = Some a \<longrightarrow>
        (\<exists>ft c. fetchers bc a = Some ft \<and> K p = Some c \<and> fetcher_at ft p c w)) \<and>
     (\<forall>p. K p \<noteq> None \<longrightarrow> map_of (map_path_datablock bc) p = None \<longrightarrow> path_unused w p) \<and>
     (\<forall>a. fetchers bc a \<noteq> None \<longrightarrow> a < next_fetcher bc)"

definition query_at :: "vfs_query \<Rightarrow> block_cache \<Rightarrow> bool" where
  "query_at vq bc \<longleftrightarrow> distinct (map fst (query_blocks vq)) \<and>
     (\<forall>p a. map_of (query_blocks vq) p = Some a \<longrightarrow> map_of (map_path_datablock bc) p = Some a)"

lemma cache_atD:
  assumes "cache_at E K bc w"
  shows "wf_world E w" "K p = Some c \<Longrightarrow> files w (getAbsolutePath E p) = Some c"
    "K p = Some c \<Longrightarrow> getAbsolutePath E p \<notin> set (dirs w)" "K p = Some c \<Longrightarrow> length c < 2 ^ 31"
    "map_of (map_path_datablock bc) p = Some a \<Longrightarrow> \<exists>ft c. fetchers bc a = Some ft \<and> K p = Some c \<and> fetcher_at ft p c w"
    "K p \<noteq> None \<Longrightarrow> map_of (map_path_datablock bc) p = None \<Longrightarrow> path_unused w p"
    "fetchers bc a \<noteq> None \<Longrightarrow> a < next_fetcher bc"
  using assms unfolding cache_at_def by blast+

lemma fetcher_at_use [simp]: "fetcher_at (ft\<lparr>use_count := n\<rparr>) p c w \<longleftrightarrow> fetcher_at ft p c w"
  by (simp add: fetcher_at_def)

lemma fetcher_at_kept:
  assumes "fetcher_at ft p c w" and "touches E a q w w'" and "fetch_block ft \<noteq> Some a"
  shows "fetcher_at ft p c w'"
  using assms by (auto simp: fetcher_at_def touches_def)

lemma path_unused_touches:
  assumes u: "path_unused w p" and t: "touches E a q w w'" and b: "\<And>b. blocks w' a = Some b \<Longrightarrow> vfs_path b = q" and "p \<noteq> q"
  shows "path_unused w' p"
  unfolding path_unused_def
proof (intro allI impI)
  fix x y assume y: "blocks w' x = Some y" "driver_private_data y \<noteq> None"
  show "vfs_path y \<noteq> p"
  proof (cases "x = a")
    case True
    then show ?thesis using b [of y] y(1) \<open>p \<noteq> q\<close> by auto
  next
    case False
    then have "blocks w x = Some y" using t y(1) by (simp add: touches_def)
    then show ?thesis using u y(2) by (simp add: path_unused_def)
  qed
qed

lemma fetch_block_of:
  "fetcher_at ft p c w \<Longrightarrow> \<exists>a b st. fetch_block ft = Some a \<and> bview w a = Some (b, st, c) \<and> vfs_path b = p \<and> blocks w a = Some b"
proof -
  assume "fetcher_at ft p c w"
  then obtain a b st where a: "fetch_block ft = Some a" "bview w a = Some (b, st, c)" "vfs_path b = p"
    by (auto simp: fetcher_at_def)
  moreover have "blocks w a = Some b" using a(2) by (rule bviewE)
  ultimately show ?thesis by blast
qed

lemma get_fetcher:
  assumes E: "calm E" and i: "cache_at E K bc w" and c: "K p = Some c"
  obtains a bc' w' where "getFetcherForBlockWithPath E p bc w = Ret ((0, a, bc'), w')" "cache_at E K bc' w'"
    "map_of (map_path_datablock bc') p = Some a" "files w' = files w" "database w' = database w"
    "\<forall>q b. map_of (map_path_datablock bc) q = Some b \<longrightarrow> map_of (map_path_datablock bc') q = Some b"
proof (cases "map_of (map_path_datablock bc) p")
  case (Some a)
  then obtain ft where ft: "fetchers bc a = Some ft" using cache_atD(5) [OF i] by blast
  let ?bc = "bc\<lparr>fetchers := (fetchers bc)(a \<mapsto> ft\<lparr>use_count := use_count ft + 1\<rparr>)\<rparr>"
  have g: "getFetcherForBlockWithPath E p bc w = Ret ((0, a, ?bc), w)"
    using Some ft by (simp add: getFetcherForBlockWithPath_def areturn_def)
  have "cache_at E K ?bc w"
    unfolding cache_at_def
  proof (intro conjI allI impI)
    fix q b assume q: "map_of (map_path_datablock ?bc) q = Some b"
    then have "\<exists>ft c. fetchers bc b = Some ft \<and> K q = Some c \<and> fetcher_at ft q c w" using cache_atD(5) [OF i, of q b] by simp
    then show "\<exists>ft c. fetchers ?bc b = Some ft \<and> K q = Some c \<and> fetcher_at ft q c w" using ft by (cases "b = a") auto
  next
    fix b assume "fetchers ?bc b \<noteq> None"
    then have "fetchers bc b \<noteq> None" using ft by (cases "b = a") auto
    then show "b < next_fetcher ?bc" using cache_atD(7) [OF i] by simp
  qed (use cache_atD(1,2,3,4,6) [OF i] in auto)
  then show thesis using that [OF g] Some by simp
next
  case None
  have wf: "wf_world E w" by (rule cache_atD(1) [OF i])
  have u: "path_unused w p" using cache_atD(6) [OF i _ None] c by simp
  obtain x b st w' where o: "psd_openBlockPath E p BlockFlagReadeable w = Ret ((0, Some x), w')" "wf_world E w'"
    "touches E x p w w'" "blocks w x = None" "bview w' x = Some (b, st, c)" "vfs_path b = p"
    "max_reacheable_size b = of_nat (length c)" "fs_in st" "\<not> fs_out st" "stream_good st" "files w' = files w"
    by (rule psd_openBlockPath_read [OF E wf cache_atD(3) [OF i c] u cache_atD(2) [OF i c]])
  let ?a = "next_fetcher bc" and ?ft = "\<lparr>use_count = 1, datablock_path = p, fetch_block = Some x\<rparr>"
  let ?bc = "bc\<lparr>fetchers := (fetchers bc)(?a \<mapsto> ?ft), next_fetcher := Suc ?a,
      map_path_datablock := AList.update p ?a (map_path_datablock bc)\<rparr>"
  have g: "getFetcherForBlockWithPath E p bc w = Ret ((0, ?a, ?bc), w')"
    using None o(1) by (simp add: getFetcherForBlockWithPath_def fetcher_open_def act_simps Let_def)
  have m: "map_of (map_path_datablock ?bc) = (map_of (map_path_datablock bc))(p \<mapsto> ?a)" by (simp add: update_conv')
  have new: "fetcher_at ?ft p c w'" using o cache_atD(4) [OF i c] by (auto simp: fetcher_at_def)
  have dirs: "dirs w' = dirs w" "database w' = database w" using o(3) by (simp_all add: touches_def)
  have "cache_at E K ?bc w'"
    unfolding cache_at_def m
  proof (intro conjI allI impI)
    fix q b' assume q: "((map_of (map_path_datablock bc))(p \<mapsto> ?a)) q = Some b'"
    show "\<exists>ft c. fetchers ?bc b' = Some ft \<and> K q = Some c \<and> fetcher_at ft q c w'"
    proof (cases "q = p")
      case True
      then show ?thesis using q new c by auto
    next
      case False
      then have "map_of (map_path_datablock bc) q = Some b'" using q by simp
      then obtain ft' c' where f': "fetchers bc b' = Some ft'" "K q = Some c'" "fetcher_at ft' q c' w" using cache_atD(5) [OF i] by blast
      have "b' < ?a" using cache_atD(7) [OF i] f'(1) by simp
      moreover have "fetch_block ft' \<noteq> Some x" using fetch_block_of [OF f'(3)] o(4) by auto
      ultimately show ?thesis using f' fetcher_at_kept [OF f'(3) o(3)] by auto
    qed
  next
    fix q assume q: "K q \<noteq> None" "((map_of (map_path_datablock bc))(p \<mapsto> ?a)) q = None"
    then have "path_unused w q" "q \<noteq> p" using cache_atD(6) [OF i, of q] by (auto split: if_splits)
    then show "path_unused w' q"
      using o(5,6) by (intro path_unused_touches [OF _ o(3)]) (auto elim: bviewE)
  next
    fix b' assume "fetchers ?bc b' \<noteq> None"
    then show "b' < next_fetcher ?bc" using cache_atD(7) [OF i, of b'] by (cases "b' = ?a") auto
  qed (use cache_atD(2,3,4) [OF i] o(2,11) dirs in auto)
  then show thesis using that [OF g] m o(11) dirs None by (simp add: update_conv')
qed

lemma query_get_pack:
  assumes E: "calm E" and i: "cache_at E K bc w" and q: "query_at vq bc"
    and r: "K (qr_path r) = Some c" "unat (qr_offset r) + unat (qr_size r) \<le> length c" "unat (qr_offset r) < length c"
  obtains vq' bc' w' where
    "getDataPackForIndex E r vq bc w = Ret (((0, take (unat (qr_size r)) (drop (unat (qr_offset r)) c)), vq', bc'), w')"
    "cache_at E K bc' w'" "query_at vq' bc'" "files w' = files w" "database w' = database w"
    "query_cursor vq' = query_cursor vq" "vq_query vq' = vq_query vq"
proof -
  have "\<exists>a vq1 bc1 w1. getDatablockFetcherForIndex E r vq bc w = Ret ((0, a, vq1, bc1), w1) \<and> cache_at E K bc1 w1 \<and>
      map_of (map_path_datablock bc1) (qr_path r) = Some a \<and> query_at vq1 bc1 \<and> files w1 = files w \<and> database w1 = database w \<and>
      query_cursor vq1 = query_cursor vq \<and> vq_query vq1 = vq_query vq"
  proof (cases "map_of (query_blocks vq) (qr_path r)")
    case (Some a)
    then show ?thesis using i q by (auto simp: getDatablockFetcherForIndex_def query_at_def areturn_def)
  next
    case None
    obtain a bc1 w1 where g: "getFetcherForBlockWithPath E (qr_path r) bc w = Ret ((0, a, bc1), w1)" "cache_at E K bc1 w1"
      "map_of (map_path_datablock bc1) (qr_path r) = Some a" "files w1 = files w" "database w1 = database w"
      "\<forall>q b. map_of (map_path_datablock bc) q = Some b \<longrightarrow> map_of (map_path_datablock bc1) q = Some b"
      by (rule get_fetcher [OF E i r(1)])
    let ?vq = "vq\<lparr>query_blocks := AList.update (qr_path r) a (query_blocks vq)\<rparr>"
    have "getDatablockFetcherForIndex E r vq bc w = Ret ((0, a, ?vq, bc1), w1)"
      using None g(1) by (simp add: getDatablockFetcherForIndex_def act_simps areturn_def)
    moreover have "query_at ?vq bc1" using q g(3,6) by (simp add: query_at_def update_conv' distinct_update)
    ultimately show ?thesis using g(2-5) by auto
  qed
  then obtain a vq1 bc1 w1 where g: "getDatablockFetcherForIndex E r vq bc w = Ret ((0, a, vq1, bc1), w1)" "cache_at E K bc1 w1"
      "map_of (map_path_datablock bc1) (qr_path r) = Some a" "query_at vq1 bc1" "files w1 = files w" "database w1 = database w"
      "query_cursor vq1 = query_cursor vq" "vq_query vq1 = vq_query vq" by blast
  obtain ft where ft: "fetchers bc1 a = Some ft" "fetcher_at ft (qr_path r) c w1"
    using cache_atD(5) [OF g(2,3)] r(1) by auto
  obtain w2 where w2: "fetcher_readData E ft (of_nat (unat (qr_offset r))) (of_nat (unat (qr_size r))) w1 =
      Ret ((0, take (unat (qr_size r)) (drop (unat (qr_offset r)) c)), w2)" "wf_world E w2" "fetcher_at ft (qr_path r) c w2"
      "touches E (the (fetch_block ft)) (qr_path r) w1 w2" "files w2 = files w1"
    by (rule fetcher_read_calm [OF E cache_atD(1) [OF g(2)] ft(2) r(2,3)])
  obtain x b st where x: "fetch_block ft = Some x" "bview w1 x = Some (b, st, c)" "vfs_path b = qr_path r" "blocks w1 x = Some b"
    using fetch_block_of [OF ft(2)] by blast
  have t: "touches E x (qr_path r) w1 w2" using w2(4) x(1) by simp
  have ev: "getDataPackForIndex E r vq bc w = Ret (((0, take (unat (qr_size r)) (drop (unat (qr_offset r)) c)), vq1, bc1), w2)"
    using g(1) ft(1) w2(1) by (simp add: getDataPackForIndex_def act_simps areturn_def)
  have "cache_at E K bc1 w2"
    unfolding cache_at_def
  proof (intro conjI allI impI)
    fix p a' assume p: "map_of (map_path_datablock bc1) p = Some a'"
    then obtain ft' c' where f': "fetchers bc1 a' = Some ft'" "K p = Some c'" "fetcher_at ft' p c' w1" using cache_atD(5) [OF g(2)] by blast
    show "\<exists>ft c. fetchers bc1 a' = Some ft \<and> K p = Some c \<and> fetcher_at ft p c w2"
    proof (cases "p = qr_path r")
      case True
      then show ?thesis using p g(3) ft(1) w2(3) r(1) by auto
    next
      case False
      have "fetch_block ft' \<noteq> Some x" using fetch_block_of [OF f'(3)] x(3,4) False by auto
      then show ?thesis using f' fetcher_at_kept [OF f'(3) t] by blast
    qed
  next
    fix p assume p: "K p \<noteq> None" "map_of (map_path_datablock bc1) p = None"
    then have "path_unused w1 p" "p \<noteq> qr_path r" using cache_atD(6) [OF g(2)] g(3) by auto
    moreover have "\<And>b'. blocks w2 x = Some b' \<Longrightarrow> vfs_path b' = qr_path r"
      using fetch_block_of [OF w2(3)] x(1) by auto
    ultimately show "path_unused w2 p" using path_unused_touches [OF _ t] by blast
  qed (use cache_atD(2,3,4,7) [OF g(2)] w2(2,5) t in \<open>auto simp: touches_def\<close>)
  then show thesis using that [OF ev] g w2(5) t by (simp add: touches_def)
qed

end
