(* ===== verification/Query_Paging.thy ===== *)
theory Query_Paging
  imports Query_Reading
begin

text \<open>
  A query over the index, page by page, and its answer to the client. The server keeps the entries of a
  device in the order of their time stamps, no two with the same stamp, and does not change while the query
  runs.
\<close>

section \<open>The index\<close>

definition entry_ts :: "mongo_doc \<Rightarrow> u64" where
  "entry_ts d = (case map_of d ''acq_ts_numeric'' of Some (M_long t) \<Rightarrow> t | _ \<Rightarrow> 0)"

definition in_range :: "index_query \<Rightarrow> mongo_doc list \<Rightarrow> mongo_doc list" where
  "in_range q all = filter (\<lambda>d. iq_start_ts q \<le> entry_ts d \<and> entry_ts d \<le> iq_end_ts q) all"

definition up_to :: "u32 \<Rightarrow> 'a list \<Rightarrow> 'a list" where
  "up_to n xs = (if n = 0 then xs else take (unat n) xs)"

definition serves_index :: "'m mongo_pool \<Rightarrow> string \<Rightarrow> index_query \<Rightarrow> mongo_doc list \<Rightarrow> 'm \<Rightarrow> bool" where
  "serves_index P db q all s \<longleftrightarrow>
     sorted_wrt (\<lambda>x y. entry_ts x < entry_ts y) all \<and>
     mp_count P (coll db ''dp_idx'')
       \<lparr>mq_filter = querable_doc q @
          [(''acq_ts_numeric'', M_doc [(''$gte'', M_long (iq_start_ts q)), (''$lte'', M_long (iq_end_ts q))])],
        mq_sort = [(''acq_ts_numeric'', 1)]\<rparr> s = (DbOk (0, Some (of_nat (length (in_range q all)))), s) \<and>
     (\<forall>from_ts n. mp_findN P (coll db ''dp_idx'')
        (where_doc (querable_doc q @ [(''acq_ts_numeric'', M_doc [(''$gte'', M_long from_ts)])])) n
        [''db_domain'', ''db_path'', ''db_offset'', ''dp_size'', ''acq_ts_numeric''] s =
          (DbOk (up_to n (filter (\<lambda>d. from_ts \<le> entry_ts d) all)), s))"

definition entry_pack :: "(string \<rightharpoonup> u8 list) \<Rightarrow> mongo_doc \<Rightarrow> u8 list" where
  "entry_pack K d = (case index_result d of
       None \<Rightarrow> []
     | Some r \<Rightarrow> take (unat (qr_size r)) (drop (unat (qr_offset r)) (the (K (qr_path r)))))"

definition entry_ok :: "(string \<rightharpoonup> u8 list) \<Rightarrow> mongo_doc \<Rightarrow> bool" where
  "entry_ok K d \<longleftrightarrow> (\<exists>t. map_of d ''acq_ts_numeric'' = Some (M_long t)) \<and>
     (\<exists>r c. index_result d = Some r \<and> K (qr_path r) = Some c \<and>
        unat (qr_offset r) + unat (qr_size r) \<le> length c \<and> unat (qr_offset r) < length c)"

lemma ascending_filter:
  assumes "sorted_wrt (\<lambda>x y. entry_ts x < entry_ts y) (xs @ y # zs)"
  shows "filter (\<lambda>d. entry_ts y < entry_ts d) (xs @ y # zs) = zs"
proof -
  have "filter (\<lambda>d. entry_ts y < entry_ts d) xs = []"
    using assms by (auto simp: sorted_wrt_append filter_empty_conv not_less intro: less_imp_le)
  moreover have "filter (\<lambda>d. entry_ts y < entry_ts d) zs = zs"
    using assms by (auto simp: sorted_wrt_append filter_id_conv)
  ultimately show ?thesis by simp
qed

text \<open>The entries in order: those before the range, those in it and those behind it.\<close>

lemma range_split:
  assumes "sorted_wrt (\<lambda>x y. entry_ts x < entry_ts y) all"
  obtains lo hi where "all = lo @ in_range q all @ hi" "\<forall>d \<in> set lo. entry_ts d < iq_start_ts q"
    "\<forall>d \<in> set hi. iq_start_ts q \<le> entry_ts d \<and> iq_end_ts q < entry_ts d"
proof -
  have "\<exists>lo hi. all = lo @ in_range q all @ hi \<and> (\<forall>d \<in> set lo. entry_ts d < iq_start_ts q) \<and>
      (\<forall>d \<in> set hi. iq_start_ts q \<le> entry_ts d \<and> iq_end_ts q < entry_ts d)"
    using assms
  proof (induction all)
    case Nil
    then show ?case by (simp add: in_range_def)
  next
    case (Cons x xs)
    then obtain lo hi where i: "xs = lo @ in_range q xs @ hi" "\<forall>d \<in> set lo. entry_ts d < iq_start_ts q"
      "\<forall>d \<in> set hi. iq_start_ts q \<le> entry_ts d \<and> iq_end_ts q < entry_ts d" by auto
    have gt: "\<forall>d \<in> set xs. entry_ts x < entry_ts d" using Cons.prems by simp
    consider "entry_ts x < iq_start_ts q" | "iq_start_ts q \<le> entry_ts x" "entry_ts x \<le> iq_end_ts q"
      | "iq_start_ts q \<le> entry_ts x" "iq_end_ts q < entry_ts x" by force
    then show ?case
    proof cases
      case 1
      then have "in_range q (x # xs) = in_range q xs" by (auto simp: in_range_def)
      then show ?thesis using i 1 by (intro exI [of _ "x # lo"] exI [of _ hi]) simp
    next
      case 2
      have "lo = []"
      proof (cases lo)
        case (Cons a list)
        then have "a \<in> set xs" "entry_ts a < iq_start_ts q" using i(1,2) by (metis append_Cons list.set_intros(1), simp)
        then show ?thesis using gt 2(1) by (meson less_le_trans not_less_iff_gr_or_eq)
      qed
      moreover have "in_range q (x # xs) = x # in_range q xs" using 2 by (simp add: in_range_def)
      ultimately show ?thesis using i by (intro exI [of _ "[]"] exI [of _ hi]) simp
    next
      case 3
      then have h: "\<forall>d \<in> set (x # xs). iq_start_ts q \<le> entry_ts d \<and> iq_end_ts q < entry_ts d"
        using gt by (auto intro: less_imp_le order.strict_trans order.trans)
      then have "in_range q (x # xs) = []" by (auto simp: in_range_def filter_empty_conv not_le)
      then show ?thesis using h by (intro exI [of _ "[]"] exI [of _ "x # xs"]) simp
    qed
  qed
  then show thesis using that by blast
qed

section \<open>A page\<close>

definition cursor_at :: "index_query \<Rightarrow> mongo_doc list \<Rightarrow> nat \<Rightarrow> index_cursor \<Rightarrow> bool" where
  "cursor_at q es k c \<longleftrightarrow>
     element_found c = of_nat (length es) \<and> number_of_element_fetched c = of_nat k \<and> result_page_dimension c = 100 \<and>
     cur_query c = q \<and> last_max_ts_searched c = (if k = 0 then 0 else entry_ts (es ! (k - 1))) \<and> k \<le> length es \<and>
     unat (number_of_returned_element_in_page c) = length (fetched_element_page c)"

lemma inc_le_iff:
  assumes "(t :: u64) < m"
  shows "t + 1 \<le> x \<longleftrightarrow> t < x"
proof -
  have "t \<noteq> - 1" using assms by (metis word_n1_ge not_less)
  then show ?thesis by (simp add: inc_less_eq_iff)
qed

lemma remaining_entries:
  assumes s: "sorted_wrt (\<lambda>x y. entry_ts x < entry_ts y) all" and es: "es = in_range q all" and k: "k < length es"
    and q: "iq_start_ts q \<noteq> 0"
  obtains hi where "filter (\<lambda>d. (if k = 0 then iq_start_ts q else entry_ts (es ! (k - 1)) + 1) \<le> entry_ts d) all = drop k es @ hi"
    "k \<noteq> 0 \<longrightarrow> entry_ts (es ! (k - 1)) \<noteq> 0" "k \<noteq> 0 \<longrightarrow> entry_ts (es ! (k - 1)) < iq_end_ts q"
proof -
  obtain lo hi where r: "all = lo @ es @ hi" "\<forall>d \<in> set lo. entry_ts d < iq_start_ts q"
    "\<forall>d \<in> set hi. iq_start_ts q \<le> entry_ts d \<and> iq_end_ts q < entry_ts d"
    using range_split [OF s, of q] es by metis
  have in_es: "iq_start_ts q \<le> entry_ts d \<and> entry_ts d \<le> iq_end_ts q" if "d \<in> set es" for d
    using that by (auto simp: es in_range_def)
  show thesis
  proof (cases "k = 0")
    case True
    have "filter (\<lambda>d. iq_start_ts q \<le> entry_ts d) all = es @ hi"
      using r in_es by (auto simp: filter_empty_conv filter_id_conv not_le)
    then show thesis using that [of hi] True by simp
  next
    case False
    let ?y = "es ! (k - 1)"
    have split: "es = take (k - 1) es @ ?y # drop k es" using k False id_take_nth_drop [of "k - 1" es] by simp
    have ss: "sorted_wrt (\<lambda>x y. entry_ts x < entry_ts y) ((lo @ take (k - 1) es) @ ?y # (drop k es @ hi))"
      using s split r(1) by (metis append.assoc append_Cons)
    have lt: "entry_ts ?y < entry_ts (es ! k)"
    proof -
      have "es ! k \<in> set (drop k es @ hi)" using Cons_nth_drop_Suc [OF k, symmetric] by simp
      then show ?thesis using ss by (simp add: sorted_wrt_append)
    qed
    have end_ts: "entry_ts ?y < iq_end_ts q" using lt in_es [of "es ! k"] k by (meson less_le_trans nth_mem)
    have "filter (\<lambda>d. entry_ts ?y < entry_ts d) all = drop k es @ hi"
      using ascending_filter [OF ss] split r(1) by (metis append.assoc append_Cons)
    then have "filter (\<lambda>d. entry_ts ?y + 1 \<le> entry_ts d) all = drop k es @ hi" by (simp only: inc_le_iff [OF lt])
    moreover have "entry_ts ?y \<noteq> 0" 
    proof -
      have "?y \<in> set es" using k by (intro nth_mem) simp
      then have "iq_start_ts q \<le> entry_ts ?y" using in_es by blast
      then show ?thesis using q by (auto simp: word_le_0_iff)
    qed
    ultimately show thesis using that [of hi] False end_ts by simp
  qed
qed

lemma fetch_count:
  assumes "k < n" and "n < 2 ^ 31"
  shows "unat (if (100 :: u32) > ucast (of_nat n - of_nat k :: u64) then ucast (of_nat n - of_nat k :: u64) else 100 :: u32) = min 100 (n - k)"
proof -
  have e: "(of_nat n - of_nat k :: u64) = of_nat (n - k)" using assms(1) by (simp add: of_nat_diff)
  have u: "unat (ucast (of_nat (n - k) :: u64) :: u32) = n - k"
    using assms(2) by (simp add: unsigned_ucast_eq unsigned_of_nat take_bit_nat_eq_self)
  show ?thesis unfolding e by (simp add: word_less_nat_alt u min_def)
qed

lemma next_page:
  assumes i: "serves_index P db q all (database w)" and es: "es = in_range q all" and c: "cursor_at q es k c"
    and k: "k < length es" and n: "length es < 2 ^ 31" and q: "iq_start_ts q \<noteq> 0" "iq_end_ts q \<noteq> 0"
    and e: "\<forall>d \<in> set es. entry_ok K d"
  shows "performNextPagedQuery P db c w =
      Ret ((0, c\<lparr>number_of_returned_element_in_page := 0, fetched_element_page := take 100 (drop k es), current_page := current_page c + 1,
                 number_of_element_fetched := of_nat (k + min 100 (length es - k)),
                 last_max_ts_searched := entry_ts (es ! (k + min 100 (length es - k) - 1))\<rparr>), w)"
proof -
  let ?m = "min 100 (length es - k)" and ?p = "take 100 (drop k es)"
  have m: "0 < ?m" "k + ?m \<le> length es" using k by auto
  have s: "sorted_wrt (\<lambda>x y. entry_ts x < entry_ts y) all" using i by (simp add: serves_index_def)
  obtain hi where f: "filter (\<lambda>d. (if k = 0 then iq_start_ts q else entry_ts (es ! (k - 1)) + 1) \<le> entry_ts d) all = drop k es @ hi"
    "k \<noteq> 0 \<longrightarrow> entry_ts (es ! (k - 1)) \<noteq> 0" "k \<noteq> 0 \<longrightarrow> entry_ts (es ! (k - 1)) < iq_end_ts q"
    by (rule remaining_entries [OF s es k q(1)])
  let ?from = "if last_max_ts_searched c \<noteq> 0 then last_max_ts_searched c + 1 else iq_start_ts q"
  have from_eq: "?from = (if k = 0 then iq_start_ts q else entry_ts (es ! (k - 1)) + 1)" using c f(2) by (simp add: cursor_at_def)
  have not_done: "\<not> iq_end_ts q \<le> last_max_ts_searched c"
    using c f(3) q(2) by (cases "k = 0") (auto simp: cursor_at_def word_gt_0)
  define cnt where "cnt = (if (100 :: u32) > ucast (of_nat (length es) - of_nat k :: u64)
    then ucast (of_nat (length es) - of_nat k :: u64) else 100 :: u32)"
  have n_eq: "unat cnt = ?m" unfolding cnt_def by (rule fetch_count [OF k n])
  then have n0: "cnt \<noteq> 0" using m(1) by auto
  have page: "up_to cnt (drop k es @ hi) = ?p"
    unfolding up_to_def using n0 n_eq by (simp add: min_def)
  have "mp_findN P (coll db ''dp_idx'')
      (where_doc (querable_doc q @ [(''acq_ts_numeric'', M_doc [(''$gte'', M_long ?from)])])) cnt
      [''db_domain'', ''db_path'', ''db_offset'', ''dp_size'', ''acq_ts_numeric''] (database w) = (DbOk ?p, database w)"
    using i f(1) page unfolding from_eq serves_index_def by metis
  then have srch: "idxSearchDataPack P db (q\<lparr>iq_start_ts := ?from\<rparr>) cnt (database w) = ((0, ?p), database w)"
    by (simp add: idxSearchDataPack_def querable_doc_def dcatch_def dbind_def dreturn_def)
  have ne: "?p \<noteq> []" using k by simp
  have lp: "length ?p = ?m" using k by simp
  have lst: "last ?p = es ! (k + ?m - 1)" using ne lp m by (simp add: last_conv_nth)
  have "es ! (k + ?m - 1) \<in> set es" using m by (intro nth_mem) simp
  then obtain t where t: "map_of (es ! (k + ?m - 1)) ''acq_ts_numeric'' = Some (M_long t)" using e by (auto simp: entry_ok_def)
  have te: "entry_ts (es ! (k + ?m - 1)) = t" using t by (simp add: entry_ts_def)
  have cf: "element_found c = of_nat (length es)" "number_of_element_fetched c = of_nat k" "result_page_dimension c = 100" "cur_query c = q"
    using c by (simp_all add: cursor_at_def)
  have dbw: "w\<lparr>database := database w\<rparr> = w" by simp
  have len: "of_nat k + of_nat (length ?p) = (of_nat (k + ?m) :: u64)" unfolding lp by simp
  show ?thesis
    unfolding performNextPagedQuery_def Let_def cf te cnt_def [symmetric]
    using not_done srch ne t lst len
    by (simp add: act_simps db_call_def abind_def areturn_def)
qed


section \<open>The packs of a page\<close>

lemma unat_eqD: "unat (x :: u32) = n \<Longrightarrow> x = of_nat n"
  by auto

lemma getIndex_entry:
  assumes "entry_ok K d" and "fetched_element_page c = pre @ d # ds" and "unat (number_of_returned_element_in_page c) = length pre"
    and "length (fetched_element_page c) < 2 ^ 31"
  obtains r e where "getIndex c w = Ret ((Some r, c\<lparr>number_of_returned_element_in_page := number_of_returned_element_in_page c + 1\<rparr>), w)"
    "K (qr_path r) = Some e" "unat (qr_offset r) + unat (qr_size r) \<le> length e" "unat (qr_offset r) < length e"
    "entry_pack K d = take (unat (qr_size r)) (drop (unat (qr_offset r)) e)"
    "unat (number_of_returned_element_in_page c + 1) = length (pre @ [d])"
proof -
  from assms(1) obtain r e where r: "index_result d = Some r" "K (qr_path r) = Some e"
    "unat (qr_offset r) + unat (qr_size r) \<le> length e" "unat (qr_offset r) < length e" by (auto simp: entry_ok_def)
  have nt: "fetched_element_page c ! length pre = d" using assms(2) by simp
  have "getIndex c w = Ret ((Some r, c\<lparr>number_of_returned_element_in_page := number_of_returned_element_in_page c + 1\<rparr>), w)"
    using assms(2,3) r(1) nt by (simp add: getIndex_def hasNext_def Let_def areturn_def)
  moreover have "unat (number_of_returned_element_in_page c + 1) = length (pre @ [d])"
  proof -
    have "number_of_returned_element_in_page c = of_nat (length pre)" by (rule unat_eqD [OF assms(3)])
    then have "number_of_returned_element_in_page c + 1 = of_nat (length pre + 1)" by simp
    moreover have "length pre + 1 < 2 ^ 31" using assms(2,4) by simp
    ultimately show ?thesis using unat_u32_small by (metis length_append_singleton Suc_eq_plus1)
  qed
  moreover have "entry_pack K d = take (unat (qr_size r)) (drop (unat (qr_offset r)) e)" using r by (simp add: entry_pack_def)
  ultimately show thesis using that r(2-4) by blast
qed

lemma read_page_packs:
  assumes E: "calm E" and i: "cache_at E K bc w" and q: "query_at vq bc"
    and p: "fetched_element_page c = pre @ ds" "unat (number_of_returned_element_in_page c) = length pre"
    and l: "length (pre @ ds) < 2 ^ 31" and e: "\<forall>d \<in> set ds. entry_ok K d" and lim: "length ds \<le> lim" "lim < 2 ^ 31"
    and f: "length ds \<le> fuel"
  shows "\<exists>vq' bc' w'. read_page fuel E (of_nat lim) c vq bc acc w =
      Ret ((0, acc @ map (entry_pack K) ds, c\<lparr>number_of_returned_element_in_page := of_nat (length (pre @ ds))\<rparr>, vq', bc'), w') \<and>
    cache_at E K bc' w' \<and> query_at vq' bc' \<and> files w' = files w \<and> database w' = database w \<and>
    query_cursor vq' = query_cursor vq \<and> vq_query vq' = vq_query vq"
  using i q p l e lim f
proof (induction ds arbitrary: fuel lim c vq bc acc w pre)
  case Nil
  have "number_of_returned_element_in_page c = of_nat (length pre)" by (rule unat_eqD [OF Nil.prems(4)])
  then have c: "c\<lparr>number_of_returned_element_in_page := of_nat (length (pre @ []))\<rparr> = c" by simp
  have "\<not> hasNext c" using Nil.prems(3,4) by (simp add: hasNext_def)
  then have "read_page fuel E (of_nat lim) c vq bc acc w = Ret ((0, acc, c, vq, bc), w)" by (cases fuel) (simp_all add: areturn_def)
  then show ?case using Nil.prems(1,2) unfolding c by auto
next
  case (Cons d ds)
  obtain n where n: "fuel = Suc n" "length ds \<le> n" using Cons.prems(9) by (cases fuel) auto
  obtain m where m: "lim = Suc m" "length ds \<le> m" using Cons.prems(7) by (cases lim) auto
  have ok: "entry_ok K d" using Cons.prems(6) by simp
  have lp: "length (fetched_element_page c) < 2 ^ 31" using Cons.prems(3,5) by simp
  let ?c = "c\<lparr>number_of_returned_element_in_page := number_of_returned_element_in_page c + 1\<rparr>"
  obtain r x where r: "getIndex c w = Ret ((Some r, ?c), w)" "K (qr_path r) = Some x"
    "unat (qr_offset r) + unat (qr_size r) \<le> length x" "unat (qr_offset r) < length x"
    "entry_pack K d = take (unat (qr_size r)) (drop (unat (qr_offset r)) x)"
    "unat (number_of_returned_element_in_page c + 1) = length (pre @ [d])"
    by (rule getIndex_entry [OF ok Cons.prems(3,4) lp, of w])
  obtain vq1 bc1 w1 where g: "getDataPackForIndex E r vq bc w =
      Ret (((0, take (unat (qr_size r)) (drop (unat (qr_offset r)) x)), vq1, bc1), w1)"
    "cache_at E K bc1 w1" "query_at vq1 bc1" "files w1 = files w" "database w1 = database w"
    "query_cursor vq1 = query_cursor vq" "vq_query vq1 = vq_query vq"
    by (rule query_get_pack [OF E Cons.prems(1,2) r(2,3,4)])
  have hn: "hasNext c" using Cons.prems(3,4) by (simp add: hasNext_def)
  have lm: "(of_nat lim :: u32) - 1 = of_nat m" using m(1) by simp
  have step: "read_page fuel E (of_nat lim) c vq bc acc w =
      (if (of_nat m :: u32) = 0 then Ret ((0, acc @ [entry_pack K d], ?c, vq1, bc1), w1)
       else read_page n E (of_nat m) ?c vq1 bc1 (acc @ [entry_pack K d]) w1)"
    using hn r(1,5) g(1) unfolding n(1) read_page.simps by (simp add: act_simps lm Let_def areturn_def)
  have m0: "(of_nat m :: u32) = 0 \<longleftrightarrow> m = 0"

  proof -
    have "unat (of_nat m :: u32) = m" by (rule unat_u32_small) (use m(1) Cons.prems(8) in simp)
    then show ?thesis by auto
  qed
  show ?case
  proof (cases "m = 0")
    case True
    then have ds: "ds = []" using m(2) by simp
    have "number_of_returned_element_in_page c + 1 = of_nat (length (pre @ [d]))" by (rule unat_eqD [OF r(6)])
    then show ?thesis using step g True ds by auto
  next
    case False
    have p': "fetched_element_page ?c = (pre @ [d]) @ ds" "unat (number_of_returned_element_in_page ?c) = length (pre @ [d])"
      using Cons.prems(3) r(6) by simp_all
    have e': "\<forall>d \<in> set ds. entry_ok K d" using Cons.prems(6) by simp
    have l': "length ((pre @ [d]) @ ds) < 2 ^ 31" "m < 2 ^ 31" using Cons.prems(5,8) m(1) by simp_all
    from Cons.IH [OF g(2,3) p' l'(1) e' m(2) l'(2) n(2), of "acc @ [entry_pack K d]"] obtain vq' bc' w' where
      h: "read_page n E (of_nat m) ?c vq1 bc1 (acc @ [entry_pack K d]) w1 =
        Ret ((0, (acc @ [entry_pack K d]) @ map (entry_pack K) ds,
          ?c\<lparr>number_of_returned_element_in_page := of_nat (length ((pre @ [d]) @ ds))\<rparr>, vq', bc'), w')"
      "cache_at E K bc' w'" "query_at vq' bc'" "files w' = files w1" "database w' = database w1"
      "query_cursor vq' = query_cursor vq1" "vq_query vq' = vq_query vq1" by blast
    then show ?thesis using step False m0 g by simp
  qed
qed

lemma page_step:
  assumes E: "calm E" and i: "cache_at E K bc w" and vq: "query_at vq bc" "query_cursor vq = Some c"
    and s: "serves_index P db q all (database w)" and es: "es = in_range q all" and c: "cursor_at q es k c"
    and k: "k < length es" and n: "length es < 2 ^ 31" and q: "iq_start_ts q \<noteq> 0" "iq_end_ts q \<noteq> 0"
    and e: "\<forall>d \<in> set es. entry_ok K d"
  obtains c' vq' bc' w' where
    "readDataPackPage P db E 100 vq bc [] w = Ret ((0, map (entry_pack K) (take 100 (drop k es)), vq', bc'), w')"
    "cache_at E K bc' w'" "query_at vq' bc'" "query_cursor vq' = Some c'" "cursor_at q es (k + min 100 (length es - k)) c'"
    "files w' = files w" "database w' = database w"
proof -
  let ?m = "min 100 (length es - k)" and ?p = "take 100 (drop k es)"
  let ?c1 = "c\<lparr>number_of_returned_element_in_page := 0, fetched_element_page := ?p, current_page := current_page c + 1,
      number_of_element_fetched := of_nat (k + ?m), last_max_ts_searched := entry_ts (es ! (k + ?m - 1))\<rparr>"
  have np: "performNextPagedQuery P db c w = Ret ((0, ?c1), w)" by (rule next_page [OF s es c k n q e])
  have e': "\<forall>d \<in> set ?p. entry_ok K d" using e by (meson in_set_dropD in_set_takeD)
  have pp: "fetched_element_page ?c1 = [] @ ?p" "unat (number_of_returned_element_in_page ?c1) = length []" by simp_all
  have ll: "length ([] @ ?p) < 2 ^ 31" "length ?p \<le> 100" "(100 :: nat) < 2 ^ 31" using n by simp_all
  from read_page_packs [OF E i vq(1) pp ll(1) e' ll(2,3) order.refl, of "[]"] obtain vq1 bc1 w1 where
    r: "read_page (length ?p) E (of_nat 100) ?c1 vq bc [] w =
      Ret ((0, [] @ map (entry_pack K) ?p, ?c1\<lparr>number_of_returned_element_in_page := of_nat (length ([] @ ?p))\<rparr>, vq1, bc1), w1)"
    "cache_at E K bc1 w1" "query_at vq1 bc1" "files w1 = files w" "database w1 = database w" by blast
  let ?c2 = "?c1\<lparr>number_of_returned_element_in_page := of_nat (length ([] @ ?p))\<rparr>"
  have nf: "element_found c \<noteq> number_of_element_fetched c"
  proof -
    have "unat (of_nat (length es) :: u64) \<noteq> unat (of_nat k :: u64)" using k n by (simp add: unat_u64_small)
    then show ?thesis using c by (auto simp: cursor_at_def)
  qed
  have hn: "\<not> hasNext c" using c by (simp add: cursor_at_def hasNext_def)
  have pl: "fetched_element_page ?c1 = ?p" by simp
  have "readDataPackPage P db E 100 vq bc [] w = Ret ((0, map (entry_pack K) ?p, vq1\<lparr>query_cursor := Some ?c2\<rparr>, bc1), w1)"
    using vq(2) nf hn np r(1) unfolding readDataPackPage_def option.case by (simp add: act_simps areturn_def)
  moreover have "cursor_at q es (k + ?m) ?c2"
  proof -
    have "unat (of_nat (length ?p) :: u32) = length ?p" by (rule unat_u32_small) simp
    moreover have "k + ?m \<noteq> 0" "k + ?m \<le> length es" using k by (auto simp: min_def)
    ultimately show ?thesis using c k unfolding cursor_at_def by (simp add: min_def split: if_splits)
  qed
  moreover have "query_at (vq1\<lparr>query_cursor := Some ?c2\<rparr>) bc1" using r(3) by (simp add: query_at_def)
  ultimately show thesis using that r(2,4,5) by simp
qed

end
