(* ===== verification/Query_Answer.thy ===== *)
theory Query_Answer
  imports Query_Paging "HOL-Library.Multiset"
begin

text \<open>
  The answer of the query engine to a client that stays connected: the steps of a query from its search to
  its last message.
\<close>

section \<open>Messages\<close>

definition reliable :: "client_channel \<Rightarrow> bool" where
  "reliable C \<longleftrightarrow> (\<forall>s. ch_present C s) \<and> (\<forall>s m. ch_send C s m = 0)"

fun number_msgs :: "string \<Rightarrow> u32 \<Rightarrow> u8 list list \<Rightarrow> client_msg list" where
  "number_msgs qid n [] = []"
| "number_msgs qid n (p # ps) = ResultData qid (n + 1) p # number_msgs qid (n + 1) ps"

text \<open>The order in which the packs of a query leave: page by page, each page from its end.\<close>

function page_order :: "'a list \<Rightarrow> 'a list" where
  "page_order xs = (if xs = [] then [] else rev (take 100 xs) @ page_order (drop 100 xs))"
  by auto
termination by (relation "measure length") auto

declare page_order.simps [simp del]

lemma mset_page_order: "mset (page_order xs) = mset xs"
proof (induction xs rule: page_order.induct)
  case (1 xs)
  show ?case
  proof (cases "xs = []")
    case False
    have "mset (take 100 xs) + mset (drop 100 xs) = mset xs" by (simp flip: mset_append)
    then show ?thesis using 1 False by (subst page_order.simps) simp
  qed (simp add: page_order.simps)
qed

lemma number_msgs_append:
  "number_msgs qid n (xs @ ys) = number_msgs qid n xs @ number_msgs qid (n + of_nat (length xs)) ys"
  by (induction xs arbitrary: n) (simp_all add: algebra_simps)

lemma send_packs_sends:
  assumes "reliable C" and "query_phase_of dq = PhaseForwardData" and "number_of_element_to_forward dq = of_nat m"
    and "m \<le> length (fetched_data_vector dq)" and "length (fetched_data_vector dq) < 2 ^ 31"
  shows "send_packs n C dq sent =
    Ret (0, dq\<lparr>number_of_element_to_forward := of_nat (m - n), total_data_pack_sent := total_data_pack_sent dq + of_nat (min n m)\<rparr>,
         sent @ number_msgs (dq_id dq) (total_data_pack_sent dq) (take n (rev (take m (fetched_data_vector dq)))))"
  using assms(2-5)
proof (induction n arbitrary: m dq sent)
  case 0
  then show ?case by simp
next
  case (Suc n)
  show ?case
  proof (cases m)
    case 0
    then show ?thesis using Suc.prems by simp
  next
    case (Suc k)
    let ?v = "fetched_data_vector dq"
    let ?dq = "dq\<lparr>number_of_element_to_forward := of_nat k, total_data_pack_sent := total_data_pack_sent dq + 1\<rparr>"
    have u: "unat (of_nat m :: u64) = m" "unat (of_nat k :: u64) = k" by (rule unat_u64_small, use Suc.prems(3,4) Suc in simp)+
    have ne: "(of_nat m :: u64) \<noteq> 0" using u(1) Suc by (metis unat_0 nat.distinct(1))
    have i: "number_of_element_to_forward dq - 1 = of_nat k" using Suc.prems(2) Suc by simp
    have k: "k < length ?v" using Suc.prems(3) Suc by simp
    have "send_packs (Suc n) C dq sent = send_packs n C ?dq (sent @ [ResultData (dq_id dq) (total_data_pack_sent dq + 1) (?v ! k)])"
      using Suc.prems(1,2) ne i k u(2) assms(1) by (simp add: Let_def reliable_def)
    also have "\<dots> = Ret (0, ?dq\<lparr>number_of_element_to_forward := of_nat (k - n), total_data_pack_sent := total_data_pack_sent ?dq + of_nat (min n k)\<rparr>,
        (sent @ [ResultData (dq_id dq) (total_data_pack_sent dq + 1) (?v ! k)]) @
        number_msgs (dq_id ?dq) (total_data_pack_sent ?dq) (take n (rev (take k (fetched_data_vector ?dq)))))"
      by (rule Suc.IH) (use Suc.prems k in simp_all)
    also have "\<dots> = Ret (0, dq\<lparr>number_of_element_to_forward := of_nat (m - Suc n), total_data_pack_sent := total_data_pack_sent dq + of_nat (min (Suc n) m)\<rparr>,
        sent @ number_msgs (dq_id dq) (total_data_pack_sent dq) (take (Suc n) (rev (take m ?v))))"
      using k Suc by (simp add: take_Suc_conv_app_nth)
    finally show ?thesis .
  qed
qed

section \<open>The steps\<close>

lemma forward_step:
  assumes C: "reliable C" and p: "query_phase_of dq = PhaseForwardData" and m: "number_of_element_to_forward dq = of_nat m"
    and l: "m \<le> length (fetched_data_vector dq)" "length (fetched_data_vector dq) < 2 ^ 31"
  shows "process_step P db E C dq bc sent w =
    Ret ((Some (if m \<le> 50 then dq\<lparr>number_of_element_to_forward := 0, total_data_pack_sent := total_data_pack_sent dq + of_nat m,
                                    query_phase_of := PhaseFetchData, fetched_data_vector := []\<rparr>
                else dq\<lparr>number_of_element_to_forward := of_nat (m - 50), total_data_pack_sent := total_data_pack_sent dq + 50\<rparr>),
          bc, sent @ number_msgs (dq_id dq) (total_data_pack_sent dq) (take 50 (rev (take m (fetched_data_vector dq))))), w)"
proof -
  have z: "(of_nat (m - 50) :: u64) = 0 \<longleftrightarrow> m \<le> 50"
  proof -
    have "unat (of_nat (m - 50) :: u64) = m - 50" by (rule unat_u64_small) (use l in simp)
    then show ?thesis by (subst unat_0_iff [symmetric]) simp_all
  qed
  have "sendDataToClient C dq sent =
    Ret (0, dq\<lparr>number_of_element_to_forward := of_nat (m - 50), total_data_pack_sent := total_data_pack_sent dq + of_nat (min 50 m)\<rparr>,
         sent @ number_msgs (dq_id dq) (total_data_pack_sent dq) (take 50 (rev (take m (fetched_data_vector dq)))))"
    using C unfolding sendDataToClient_def by (simp add: reliable_def send_packs_sends [OF C p m l] del: send_packs.simps)
  then show ?thesis
    using p z by (auto simp: process_step_def step_forward_def alift_def finish_query_def abind_def)
qed

lemma run_forward:
  assumes C: "reliable C" and p: "query_phase_of dq = PhaseForwardData"
    and m: "number_of_element_to_forward dq = of_nat (length (fetched_data_vector dq))"
    and l: "length (fetched_data_vector dq) \<le> 100" and n: "2 \<le> n"
  obtains n' where "n - 2 \<le> n'" "run_query n P db E C dq bc sent w =
    run_query n' P db E C (dq\<lparr>number_of_element_to_forward := 0,
        total_data_pack_sent := total_data_pack_sent dq + of_nat (length (fetched_data_vector dq)),
        query_phase_of := PhaseFetchData, fetched_data_vector := []\<rparr>) bc
      (sent @ number_msgs (dq_id dq) (total_data_pack_sent dq) (rev (fetched_data_vector dq))) w"
proof -
  let ?v = "fetched_data_vector dq"
  obtain k where k: "n = Suc (Suc k)" using n by (metis numeral_2_eq_2 Suc_le_D Suc_le_mono)
  have s31: "length ?v < 2 ^ 31" using l by simp
  note s1 = forward_step [OF C p m order.refl s31, of P db E bc sent w]
  show thesis
  proof (cases "length ?v \<le> 50")
    case True
    show thesis by (rule that [of "Suc k"]) (use s1 True in \<open>simp_all add: k abind_def [of "process_step P db E C dq bc sent"]\<close>)
  next
    case False
    let ?dq = "dq\<lparr>number_of_element_to_forward := of_nat (length ?v - 50), total_data_pack_sent := total_data_pack_sent dq + 50\<rparr>"
    let ?sent = "sent @ number_msgs (dq_id dq) (total_data_pack_sent dq) (take 50 (rev ?v))"
    have d: "query_phase_of ?dq = PhaseForwardData" "number_of_element_to_forward ?dq = of_nat (length ?v - 50)"
      "length ?v - 50 \<le> length (fetched_data_vector ?dq)" "length (fetched_data_vector ?dq) < 2 ^ 31"
      using p l s31 by simp_all
    note s2 = forward_step [OF C d, of P db E bc ?sent w]
    have split: "rev ?v = take 50 (rev ?v) @ rev (take (length ?v - 50) ?v)"
      by (metis append_take_drop_id rev_take rev_rev_ident length_rev drop_rev)
    have sum: "total_data_pack_sent dq + 50 + of_nat (length ?v - 50) = total_data_pack_sent dq + of_nat (length ?v)"
      using False by (simp add: of_nat_diff)
    have l50: "length ?v - 50 \<le> 50" "length (take 50 (rev ?v)) = 50" using l False by simp_all
    have nm: "number_msgs (dq_id dq) (total_data_pack_sent dq) (rev ?v) =
        number_msgs (dq_id dq) (total_data_pack_sent dq) (take 50 (rev ?v)) @
        number_msgs (dq_id dq) (total_data_pack_sent dq + 50) (rev (take (length ?v - 50) ?v))"
      by (subst split, subst number_msgs_append, simp only: l50) simp
    have tk: "take 50 (rev (take (length ?v - 50) ?v)) = rev (take (length ?v - 50) ?v)" using l50 by simp
    show thesis
      by (rule that [of k]) (use s1 s2 False l50 sum nm tk in \<open>simp_all add: k abind_def\<close>)
  qed
qed


lemma page_count:
  assumes "0 < n" and "n < 2 ^ 31"
  shows "(of_nat ((99 + n) div 100) :: u32) \<noteq> 0"
proof -
  have "0 < (99 + n) div 100" "(99 + n) div 100 < 2 ^ 31" using assms by (auto simp: div_greater_zero_iff)
  then show ?thesis by (subst unat_0_iff [symmetric]) (subst unat_u32_small, simp_all)
qed

lemma search_step:
  assumes s: "serves_index P db q all (database w)" and es: "es = in_range q all" "es \<noteq> []" and n: "length es < 2 ^ 31"
    and q: "iq_start_ts q \<noteq> 0" "iq_end_ts q \<noteq> 0" and C: "reliable C"
  obtains c where "process_step P db E C (engine_executeQuery q (new_DataCloudQuery qid)) bc sent w =
    Ret ((Some ((engine_executeQuery q (new_DataCloudQuery qid))\<lparr>query_phase_of := PhaseFetchData,
             dq_vfs_query := Some (new_VFSQuery q\<lparr>query_cursor := Some c\<rparr>)\<rparr>),
          bc, sent @ [StartResult qid (of_nat (length es))]), w)" "cursor_at q es 0 c"
proof -
  let ?c0 = "new_MongoDBIndexCursor q"
  let ?c1 = "?c0\<lparr>element_found := of_nat (length es)\<rparr>"
  let ?pages = "of_nat ((99 + length es) div 100) :: u32"
  let ?c = "?c1\<lparr>total_page_number := ?pages, time_offset_per_page_in_ms := (iq_end_ts q - iq_start_ts q) div ucast ?pages\<rparr>"
  have dbw: "w\<lparr>database := database w\<rparr> = w" by simp
  have cnt: "idxSearchResultCountDataPack P db q 0 (database w) = ((0, of_nat (length es)), database w)"
    using s q es(1) by (simp add: serves_index_def idxSearchResultCountDataPack_def querable_doc_def
        dcatch_def dbind_def dreturn_def)
  have u: "unat (of_nat (length es) :: u64) = length es" by (rule unat_u64_small [OF n])
  have pg: "?pages \<noteq> 0" by (rule page_count) (use es(2) n in auto)
  have sp: "set_pages ?c1 w = Ret ((0, ?c), w)"
    using u pg by (simp add: set_pages_def Let_def areturn_def new_MongoDBIndexCursor_def)
  have "idxStartSearchDataPack P db q w = Ret ((0, ?c), w)"
    using q cnt sp by (simp add: idxStartSearchDataPack_def computeTimeLapsForPage_def act_simps db_call_def abind_def
        areturn_def new_MongoDBIndexCursor_def Let_def)
  then have "process_step P db E C (engine_executeQuery q (new_DataCloudQuery qid)) bc sent w =
    Ret ((Some ((engine_executeQuery q (new_DataCloudQuery qid))\<lparr>query_phase_of := PhaseFetchData,
             dq_vfs_query := Some (new_VFSQuery q\<lparr>query_cursor := Some ?c\<rparr>)\<rparr>),
          bc, sent @ [StartResult qid (of_nat (length es))]), w)"
    using C by (simp add: process_step_def step_search_def query_execute_def engine_executeQuery_def new_VFSQuery_def
        new_DataCloudQuery_def act_simps abind_def areturn_def alift_def finish_query_def send_to_client_def reliable_def Let_def)
  moreover have "cursor_at q es 0 ?c" by (simp add: cursor_at_def new_MongoDBIndexCursor_def)
  ultimately show thesis by (rule that)
qed


lemma release_blocks:
  assumes "\<forall>(p, a) \<in> set bs. fetchers bc a \<noteq> None"
  shows "\<exists>bc'. release_query_blocks bs bc = Ret bc'"
  using assms
proof (induction bs arbitrary: bc)
  case (Cons x bs)
  obtain p a where x: "x = (p, a)" by (cases x)
  obtain ft where ft: "fetchers bc a = Some ft" using Cons.prems x by auto
  let ?bc = "bc\<lparr>fetchers := (fetchers bc)(a \<mapsto> ft\<lparr>use_count := use_count ft - 1\<rparr>)\<rparr>"
  have "\<forall>(p, a) \<in> set bs. fetchers ?bc a \<noteq> None" using Cons.prems by auto
  then obtain bc' where "release_query_blocks bs ?bc = Ret bc'" using Cons.IH by blast
  then show ?case using x ft by (simp add: releaseFetcher_def)
qed simp

lemma delete_query_ok:
  assumes "cache_at E K bc w" and "query_at vq bc"
  shows "\<exists>bc'. delete_VFSQuery vq bc = Ret bc'"
  unfolding delete_VFSQuery_def
proof (rule release_blocks, clarify)
  fix p a assume "(p, a) \<in> set (query_blocks vq)"
  then have "map_of (map_path_datablock bc) p = Some a" using assms(2) by (auto simp: query_at_def)
  then show "\<exists>ft. fetchers bc a = Some ft" using cache_atD(5) [OF assms(1)] by blast
qed

lemma last_step:
  assumes p: "query_phase_of dq = PhaseFetchData" "fetched_data_vector dq = []" and vq: "dq_vfs_query dq = Some vq" "query_cursor vq = Some c"
    and c: "cursor_at q es (length es) c" and i: "cache_at E K bc w" "query_at vq bc" and C: "reliable C"
  shows "\<exists>bc'. process_step P db E C dq bc sent w = Ret ((None, bc', sent @ [EndResult (dq_id dq) 0]), w)"
proof -
  obtain bc' where d: "delete_VFSQuery vq bc = Ret bc'" using delete_query_ok [OF i] by blast
  have "element_found c = number_of_element_fetched c" using c by (simp add: cursor_at_def)
  then have "process_step P db E C dq bc sent w = Ret ((None, bc', sent @ [EndResult (dq_id dq) 0]), w)"
    using p vq C d by (simp add: process_step_def step_fetch_def readDataPackPage_def finish_query_def alift_def act_simps
        abind_def areturn_def send_to_client_def reliable_def Let_def)
  then show ?thesis by blast
qed

lemma fetch_step:
  assumes E: "calm E" and i: "cache_at E K bc w" and vq: "query_at vq bc" "query_cursor vq = Some c"
    and s: "serves_index P db q all (database w)" and es: "es = in_range q all" and c: "cursor_at q es k c"
    and k: "k < length es" and n: "length es < 2 ^ 31" and q: "iq_start_ts q \<noteq> 0" "iq_end_ts q \<noteq> 0"
    and e: "\<forall>d \<in> set es. entry_ok K d"
    and p: "query_phase_of dq = PhaseFetchData" "fetched_data_vector dq = []" "dq_vfs_query dq = Some vq"
  obtains c' vq' bc' w' where "process_step P db E C dq bc sent w =
      Ret ((Some (dq\<lparr>query_phase_of := PhaseForwardData, dq_vfs_query := Some vq',
                     fetched_data_vector := map (entry_pack K) (take 100 (drop k es)),
                     number_of_element_to_forward := of_nat (length (map (entry_pack K) (take 100 (drop k es))))\<rparr>), bc', sent), w')"
    "cache_at E K bc' w'" "query_at vq' bc'" "query_cursor vq' = Some c'" "cursor_at q es (k + min 100 (length es - k)) c'"
    "files w' = files w" "database w' = database w"
proof -
  obtain c' vq' bc' w' where r: "readDataPackPage P db E 100 vq bc [] w = Ret ((0, map (entry_pack K) (take 100 (drop k es)), vq', bc'), w')"
    "cache_at E K bc' w'" "query_at vq' bc'" "query_cursor vq' = Some c'" "cursor_at q es (k + min 100 (length es - k)) c'"
    "files w' = files w" "database w' = database w"
    by (rule page_step [OF E i vq s es c k n q e])
  have "process_step P db E C dq bc sent w =
      Ret ((Some (dq\<lparr>query_phase_of := PhaseForwardData, dq_vfs_query := Some vq',
                     fetched_data_vector := map (entry_pack K) (take 100 (drop k es)),
                     number_of_element_to_forward := of_nat (length (map (entry_pack K) (take 100 (drop k es))))\<rparr>), bc', sent), w')"
    using p r(1,4) k by (simp add: process_step_def step_fetch_def finish_query_def alift_def abind_def areturn_def Let_def)
  then show thesis by (rule that) (rule r)+
qed


section \<open>The answer\<close>

lemma run_pages:
  assumes E: "calm E" and i: "cache_at E K bc w" and vq: "query_at vq bc" "query_cursor vq = Some c"
    and s: "serves_index P db q all (database w)" and es: "es = in_range q all" and c: "cursor_at q es k c"
    and n: "length es < 2 ^ 31" and q: "iq_start_ts q \<noteq> 0" "iq_end_ts q \<noteq> 0"
    and e: "\<forall>d \<in> set es. entry_ok K d"
    and p: "query_phase_of dq = PhaseFetchData" "fetched_data_vector dq = []" "dq_vfs_query dq = Some vq"
    and C: "reliable C" and f: "length es - k \<le> 100 * m" "3 * m + 1 \<le> n'"
  shows "\<exists>bc' w'. run_query n' P db E C dq bc sent w =
      Ret (Some (bc', sent @ number_msgs (dq_id dq) (total_data_pack_sent dq) (page_order (map (entry_pack K) (drop k es))) @
                 [EndResult (dq_id dq) 0]), w') \<and> files w' = files w \<and> database w' = database w"
  using i vq s c p f
proof (induction m arbitrary: n' k bc w vq c dq sent)
  case 0
  have k: "k = length es" using 0 by (simp add: cursor_at_def)
  obtain n1 where n1: "n' = Suc n1" using 0 by (cases n') auto
  obtain bc' where "process_step P db E C dq bc sent w = Ret ((None, bc', sent @ [EndResult (dq_id dq) 0]), w)"
    using last_step [OF 0(6,7,8,3) 0(5) [unfolded k] 0(1,2) C] by blast
  then show ?case using k n1 by (simp add: abind_def areturn_def page_order.simps)
next
  case (Suc m)
  obtain n1 where n1: "n' = Suc n1" "3 * m + 3 \<le> n1" using Suc.prems(10) by (cases n') auto
  show ?case
  proof (cases "k < length es")
    case False
    then have k: "k = length es" using Suc.prems(5) by (simp add: cursor_at_def)
    show ?thesis by (rule Suc.IH [OF Suc.prems(1-8)]) (use k Suc.prems(10) in simp_all)
  next
    case True
    let ?v = "map (entry_pack K) (take 100 (drop k es))"
    obtain c1 vq1 bc1 w1 where st: "process_step P db E C dq bc sent w =
        Ret ((Some (dq\<lparr>query_phase_of := PhaseForwardData, dq_vfs_query := Some vq1, fetched_data_vector := ?v,
                       number_of_element_to_forward := of_nat (length ?v)\<rparr>), bc1, sent), w1)"
      "cache_at E K bc1 w1" "query_at vq1 bc1" "query_cursor vq1 = Some c1" "cursor_at q es (k + min 100 (length es - k)) c1"
      "files w1 = files w" "database w1 = database w"
      by (rule fetch_step [OF E Suc.prems(1-4) es Suc.prems(5) True n q e Suc.prems(6-8)])
    let ?d = "dq\<lparr>query_phase_of := PhaseForwardData, dq_vfs_query := Some vq1, fetched_data_vector := ?v,
                  number_of_element_to_forward := of_nat (length ?v)\<rparr>"
    let ?d1 = "?d\<lparr>number_of_element_to_forward := 0, total_data_pack_sent := total_data_pack_sent ?d + of_nat (length (fetched_data_vector ?d)),
        query_phase_of := PhaseFetchData, fetched_data_vector := []\<rparr>"
    let ?s1 = "sent @ number_msgs (dq_id ?d) (total_data_pack_sent ?d) (rev (fetched_data_vector ?d))"
    have d: "query_phase_of ?d = PhaseForwardData" "number_of_element_to_forward ?d = of_nat (length (fetched_data_vector ?d))"
      "length (fetched_data_vector ?d) \<le> 100" "2 \<le> n1" using n1(2) by simp_all
    obtain n2 where n2: "n1 - 2 \<le> n2" "run_query n1 P db E C ?d bc1 sent w1 = run_query n2 P db E C ?d1 bc1 ?s1 w1"
      by (rule run_forward [OF C d])
    have s1: "serves_index P db q all (database w1)" using Suc.prems(4) st(7) by simp
    have d1: "query_phase_of ?d1 = PhaseFetchData" "fetched_data_vector ?d1 = []" "dq_vfs_query ?d1 = Some vq1" by simp_all
    have f1: "length es - (k + min 100 (length es - k)) \<le> 100 * m" "3 * m + 1 \<le> n2" using Suc.prems(9) n1(2) n2(1) by (auto simp: min_def)
    from Suc.IH [OF st(2,3,4) s1 st(5) d1 f1, of ?s1] obtain bc' w' where
      r: "run_query n2 P db E C ?d1 bc1 ?s1 w1 =
        Ret (Some (bc', ?s1 @ number_msgs (dq_id ?d1) (total_data_pack_sent ?d1) (page_order (map (entry_pack K) (drop (k + min 100 (length es - k)) es))) @
             [EndResult (dq_id ?d1) 0]), w')" "files w' = files w1" "database w' = database w1" by blast
    have dr: "drop (k + min 100 (length es - k)) es = drop 100 (drop k es)" using True by (simp add: min_def add.commute)
    have po: "page_order (map (entry_pack K) (drop k es)) = rev ?v @ page_order (map (entry_pack K) (drop 100 (drop k es)))"
      using True by (subst page_order.simps) (simp add: take_map drop_map)
    have "run_query n' P db E C dq bc sent w = run_query n2 P db E C ?d1 bc1 ?s1 w1"
      using st(1) n2(2) unfolding n1(1) by (simp add: abind_def)
    then show ?thesis using r st(6,7) unfolding dr po number_msgs_append by simp
  qed
qed

text \<open>
  C2. On a system that refuses nothing, with an index that lists the packs of a device in the order of their
  time stamps and a client that stays connected, the engine answers a query: after at most
  \<open>3 * pages + 2\<close> steps the client has received the number of packs in the range, each of those packs
  exactly once under consecutive numbers, and the end with code 0. The packs leave in pages of 100, each page
  from its end. Neither the files nor the database change.
\<close>

theorem query_answered:
  assumes E: "calm E" and i: "cache_at E K bc w" and s: "serves_index P db q all (database w)"
    and es: "es = in_range q all" "es \<noteq> []" "length es < 2 ^ 31" "\<forall>d \<in> set es. entry_ok K d"
    and q: "iq_start_ts q \<noteq> 0" "iq_end_ts q \<noteq> 0" and C: "reliable C" and n: "3 * ((length es + 99) div 100) + 2 \<le> n"
  shows "\<exists>bc' w' ps. run_query n P db E C (engine_executeQuery q (new_DataCloudQuery qid)) bc [] w =
      Ret (Some (bc', StartResult qid (of_nat (length es)) # number_msgs qid 0 ps @ [EndResult qid 0]), w') \<and>
    ps = page_order (map (entry_pack K) es) \<and> mset ps = mset (map (entry_pack K) es) \<and>
    files w' = files w \<and> database w' = database w"
proof -
  let ?d = "engine_executeQuery q (new_DataCloudQuery qid)"
  obtain c where c: "process_step P db E C ?d bc [] w =
    Ret ((Some (?d\<lparr>query_phase_of := PhaseFetchData, dq_vfs_query := Some (new_VFSQuery q\<lparr>query_cursor := Some c\<rparr>)\<rparr>),
          bc, [] @ [StartResult qid (of_nat (length es))]), w)" "cursor_at q es 0 c"
    by (rule search_step [OF s es(1,2,3) q C])
  let ?vq = "new_VFSQuery q\<lparr>query_cursor := Some c\<rparr>"
  let ?d1 = "?d\<lparr>query_phase_of := PhaseFetchData, dq_vfs_query := Some ?vq\<rparr>"
  obtain n1 where n1: "n = Suc n1" "3 * ((length es + 99) div 100) + 1 \<le> n1" using n by (cases n) auto
  have vq: "query_at ?vq bc" "query_cursor ?vq = Some c" by (simp_all add: query_at_def new_VFSQuery_def)
  have d1: "query_phase_of ?d1 = PhaseFetchData" "fetched_data_vector ?d1 = []" "dq_vfs_query ?d1 = Some ?vq"
    "dq_id ?d1 = qid" "total_data_pack_sent ?d1 = 0" by (simp_all add: engine_executeQuery_def new_DataCloudQuery_def)
  have f: "length es - 0 \<le> 100 * ((length es + 99) div 100)" by linarith
  from run_pages [OF E i vq s es(1) c(2) es(3) q es(4) d1(1-3) C f n1(2), of "[StartResult qid (of_nat (length es))]"]
  obtain bc' w' where "run_query n1 P db E C ?d1 bc [StartResult qid (of_nat (length es))] w =
      Ret (Some (bc', [StartResult qid (of_nat (length es))] @ number_msgs qid 0 (page_order (map (entry_pack K) es)) @ [EndResult qid 0]), w')"
    "files w' = files w" "database w' = database w" unfolding d1(4,5) by auto
  then show ?thesis using c(1) unfolding n1(1) by (simp add: abind_def mset_page_order)
qed


text \<open>
  A range without packs is an error to the client. The search counts 0 entries, which makes 0 pages, and
  reports -1 for them, so that the engine ends the query in its first step with code -1, as for a
  database that failed, and never says that there are no results.
\<close>

theorem empty_query_is_error:
  assumes "serves_index P db q all (database w)" and "in_range q all = []"
    and "iq_start_ts q \<noteq> 0" "iq_end_ts q \<noteq> 0" and "reliable C"
  shows "run_query (Suc n) P db E C (engine_executeQuery q (new_DataCloudQuery qid)) bc [] w =
    Ret (Some (bc, [EndResult qid (- 1)]), w)"
proof -
  have dbw: "w\<lparr>database := database w\<rparr> = w" by simp
  have cnt: "idxSearchResultCountDataPack P db q 0 (database w) = ((0, 0), database w)"
    using assms(1,2) by (simp add: serves_index_def idxSearchResultCountDataPack_def querable_doc_def
        dcatch_def dbind_def dreturn_def)
  have "\<exists>c. idxStartSearchDataPack P db q w = Ret ((- 1, c), w)"
    using assms(3,4) cnt by (simp add: idxStartSearchDataPack_def computeTimeLapsForPage_def act_simps db_call_def abind_def
        areturn_def new_MongoDBIndexCursor_def Let_def set_pages_def)
  then show ?thesis
    using assms(5) by (auto simp: process_step_def step_search_def query_execute_def engine_executeQuery_def new_VFSQuery_def
        new_DataCloudQuery_def abind_def areturn_def alift_def finish_query_def send_to_client_def reliable_def Let_def
        delete_VFSQuery_def)
qed

end
