(* ===== verification/Index_Location.thy ===== *)
theory Index_Location
  imports Query_Reading Data_Files
begin

text \<open>
  The location the scanner puts in the index for a pack, and what a query finds there. The scanner takes the
  location before it writes the pack; the write may change to a new block.
\<close>

lemma location_of:
  assumes "current_data_block f = Some a" and "blocks w a = Some b"
  obtains loc where "getCurrentFileLocation f w = Ret (loc, w)" "loc_block loc = Some a" "loc_offset loc = current_work_position b"
  using assms by (simp add: getCurrentFileLocation_def FileLocationPointer_def act_simps)



end
