(* ===== verification/Query_Server.thy ===== *)
theory Query_Server
  imports Mongo_Server Query_Answer Index_Location
begin

text \<open>
  Queries on the small server of \<open>Mongo_Server\<close>: it lists the entries of a device as the paging of the
  cursor expects them, so that the answer of the engine applies to it.
\<close>

definition srv_row :: "nat \<times> mongo_doc \<Rightarrow> mongo_doc" where
  "srv_row = (\<lambda>(n, d). (''_id'', M_oid (decimal n)) # d)"

definition device_rows :: "index_query \<Rightarrow> server \<Rightarrow> mongo_doc list" where
  "device_rows q s = map srv_row (filter (\<lambda>x. doc_matches (querable_doc q) (snd x)) (srv_docs s ''chaos.dp_idx''))"

definition stamped :: "mongo_doc \<Rightarrow> bool" where
  "stamped d \<longleftrightarrow> (\<exists>t. map_of d ''acq_ts_numeric'' = Some (M_long t))"

lemma entry_ts_row [simp]: "entry_ts (srv_row x) = entry_ts (snd x)"
  by (cases x) (simp add: srv_row_def entry_ts_def)

lemma gte_holds:
  assumes "stamped d"
  shows "field_holds d (''acq_ts_numeric'', M_doc [(''$gte'', M_long t)]) \<longleftrightarrow> t \<le> entry_ts d"
    "field_holds d (''acq_ts_numeric'', M_doc [(''$gte'', M_long t), (''$lte'', M_long u)]) \<longleftrightarrow> t \<le> entry_ts d \<and> entry_ts d \<le> u"
  using assms by (auto simp: stamped_def field_holds_def op_holds_def stamp_def entry_ts_def)

lemma found_rows:
  assumes "\<forall>x \<in> set (srv_docs s ''chaos.dp_idx''). stamped (snd x)"
  shows "map srv_row (filter (\<lambda>x. doc_matches (querable_doc q @ [(''acq_ts_numeric'', M_doc [(''$gte'', M_long t)])]) (snd x))
           (srv_docs s ''chaos.dp_idx'')) = filter (\<lambda>d. t \<le> entry_ts d) (device_rows q s)"
    "map srv_row (filter (\<lambda>x. doc_matches (querable_doc q @ [(''acq_ts_numeric'',
             M_doc [(''$gte'', M_long (iq_start_ts q)), (''$lte'', M_long (iq_end_ts q))])]) (snd x))
           (srv_docs s ''chaos.dp_idx'')) = in_range q (device_rows q s)"
  using assms unfolding in_range_def device_rows_def filter_map filter_filter
  by (auto simp: doc_matches_def gte_holds o_def intro!: arg_cong [of _ _ "map srv_row"] filter_cong)

lemma doc_pool_serves:
  assumes st: "\<forall>x \<in> set (srv_docs s ''chaos.dp_idx''). stamped (snd x)"
    and so: "sorted_wrt (\<lambda>x y. entry_ts x < entry_ts y) (device_rows q s)"
  shows "serves_index doc_pool ''chaos'' q (device_rows q s) s"
proof -
  have f: "srv_find ''chaos.dp_idx'' (where_doc g) s = map srv_row (filter (\<lambda>x. doc_matches g (snd x)) (srv_docs s ''chaos.dp_idx''))" for g
    by (simp add: srv_find_def sorted_by_def srv_row_def split_def)
  have l: "length (srv_find ''chaos.dp_idx'' \<lparr>mq_filter = g, mq_sort = [(''acq_ts_numeric'', 1)]\<rparr> s) =
      length (map srv_row (filter (\<lambda>x. doc_matches g (snd x)) (srv_docs s ''chaos.dp_idx'')))" for g
    by (simp add: srv_find_def sorted_by_def split_def Let_def)
  show ?thesis
    using so unfolding serves_index_def coll_def
    by (simp add: doc_pool_def f found_rows [OF st] up_to_def l)
qed

definition two_entries :: server where
  "two_entries = empty_server\<lparr>srv_docs := (\<lambda>ns. if ns = ''chaos.dp_idx'' then
     [(0, [(''did'', M_str ''dev''), (''type'', M_int 0), (''acq_ts_numeric'', M_long 5), (''db_domain'', M_str ''dom''),
           (''db_path'', M_str ''data/x''), (''db_offset'', M_long 0), (''dp_size'', M_int 2), (''dp_state'', M_int 1)]),
      (1, [(''did'', M_str ''dev''), (''type'', M_int 0), (''acq_ts_numeric'', M_long 7), (''db_domain'', M_str ''dom''),
           (''db_path'', M_str ''data/x''), (''db_offset'', M_long 2), (''dp_size'', M_int 3), (''dp_state'', M_int 1)])]
     else []), srv_ids := 2\<rparr>"

definition dev_query :: index_query where
  "dev_query = \<lparr>iq_did = ''dev'', iq_ds_type = 0, iq_start_ts = 4, iq_end_ts = 9\<rparr>"

definition no_fetchers :: block_cache where
  "no_fetchers = \<lparr>fetchers = Map.empty, next_fetcher = 0, map_path_datablock = []\<rparr>"

definition open_channel :: client_channel where
  "open_channel = \<lparr>ch_present = (\<lambda>_. True), ch_send = (\<lambda>_ _. 0)\<rparr>"

lemma two_rows:
  "device_rows dev_query two_entries = map srv_row (srv_docs two_entries ''chaos.dp_idx'')"
  by (simp add: device_rows_def two_entries_def dev_query_def querable_doc_def doc_matches_def field_holds_def)

lemma two_in_range: "in_range dev_query (device_rows dev_query two_entries) = map srv_row (srv_docs two_entries ''chaos.dp_idx'')"
  unfolding two_rows by (simp add: in_range_def two_entries_def dev_query_def entry_ts_def srv_row_def)

lemma two_served: "serves_index doc_pool ''chaos'' dev_query (device_rows dev_query two_entries) two_entries"
  by (rule doc_pool_serves) (unfold two_rows, simp_all add: two_entries_def stamped_def entry_ts_def srv_row_def)

lemma two_packs:
  "map (entry_pack [''data/x'' \<mapsto> [1, 2, 3, 4, 5]]) (map srv_row (srv_docs two_entries ''chaos.dp_idx'')) = [[1, 2], [3, 4, 5]]"
  by (simp add: entry_pack_def two_entries_def srv_row_def index_result_def numberInt_def)

theorem query_answered_witness:
  "\<exists>bc' w'. run_query 5 doc_pool ''chaos'' quiet_env open_channel (engine_executeQuery dev_query (new_DataCloudQuery ''q'')) no_fetchers []
       (disk [''/d/data/x'' \<mapsto> [1, 2, 3, 4, 5]] two_entries) =
     Ret (Some (bc', [StartResult ''q'' 2, ResultData ''q'' 1 [3, 4, 5], ResultData ''q'' 2 [1, 2], EndResult ''q'' 0]), w') \<and>
     files w' = [''/d/data/x'' \<mapsto> [1, 2, 3, 4, 5]]"
proof -
  let ?K = "[''data/x'' \<mapsto> [1, 2, 3, 4, 5]] :: string \<rightharpoonup> u8 list"
  let ?w = "disk [''/d/data/x'' \<mapsto> [1, 2, 3, 4, 5]] two_entries"
  have i: "cache_at quiet_env ?K no_fetchers ?w" by (simp add: cache_at_def no_fetchers_def quiet_path)
  have s: "serves_index doc_pool ''chaos'' dev_query (device_rows dev_query two_entries) (database ?w)" using two_served by simp
  let ?es = "map srv_row (srv_docs two_entries ''chaos.dp_idx'')"
  have len: "length ?es = 2" by (simp add: two_entries_def)
  have ok: "\<forall>d \<in> set ?es. entry_ok ?K d"
    by (simp add: entry_ok_def two_entries_def srv_row_def index_result_def numberInt_def)
  have q: "iq_start_ts dev_query \<noteq> 0" "iq_end_ts dev_query \<noteq> 0" by (simp_all add: dev_query_def)
  have C: "reliable open_channel" by (simp add: reliable_def open_channel_def)
  have po: "page_order [[1, 2], [3, 4, 5 :: u8]] = [[3, 4, 5], [1, 2]]" by (simp add: page_order.simps)
  have e: "?es \<noteq> []" "length ?es < 2 ^ 31" "3 * ((length ?es + 99) div 100) + 2 \<le> 5" using len by (simp_all add: two_entries_def)
  show ?thesis
    using query_answered [OF quiet_env_calm i s two_in_range [symmetric] e(1,2) ok q C e(3), of "''q''", unfolded len two_packs po]
    by auto
qed


definition late_query :: index_query where
  "late_query = dev_query\<lparr>iq_start_ts := 8\<rparr>"

theorem empty_query_is_error_witness:
  "run_query 1 doc_pool ''chaos'' quiet_env open_channel (engine_executeQuery late_query (new_DataCloudQuery ''q'')) no_fetchers []
     (disk Map.empty two_entries) = Ret (Some (no_fetchers, [EndResult ''q'' (- 1)]), disk Map.empty two_entries)"
proof -
  have rows: "device_rows late_query two_entries = map srv_row (srv_docs two_entries ''chaos.dp_idx'')"
    by (simp add: device_rows_def two_entries_def late_query_def dev_query_def querable_doc_def doc_matches_def field_holds_def)
  have "serves_index doc_pool ''chaos'' late_query (device_rows late_query two_entries) two_entries"
    by (rule doc_pool_serves) (unfold rows, simp_all add: two_entries_def stamped_def entry_ts_def srv_row_def)
  moreover have "in_range late_query (device_rows late_query two_entries) = []"
    unfolding rows by (simp add: in_range_def two_entries_def late_query_def dev_query_def entry_ts_def srv_row_def)
  moreover have "reliable open_channel" by (simp add: reliable_def open_channel_def)
  moreover have "iq_start_ts late_query \<noteq> 0" "iq_end_ts late_query \<noteq> 0" by (simp_all add: late_query_def dev_query_def)
  ultimately show ?thesis
    using empty_query_is_error [of doc_pool "''chaos''" late_query "device_rows late_query two_entries"
        "disk Map.empty two_entries" open_channel 0 quiet_env "''q''" no_fetchers] by simp
qed


section \<open>A block to write\<close>

text \<open>A data file whose block holds one byte and is full at \<open>limit\<close>.\<close>

definition data_block_example :: "u64 \<Rightarrow> data_block" where
  "data_block_example limit = new_DataBlock\<lparr>vfs_path := ''data/dev/x'', driver_private_data := Some 0,
     invalidation_timestamp := 10, max_reacheable_size := limit, current_work_position := 1\<rparr>"

definition data_world :: "u64 \<Rightarrow> server world" where
  "data_world limit = \<lparr>files = [''/d/data/dev/x'' \<mapsto> [7]], dirs = [],
     streams = [0 \<mapsto> open_stream_example\<lparr>fs_path := ''/d/data/dev/x''\<rparr>],
     blocks = [1 \<mapsto> data_block_example limit], next_addr = 2, ticks = 0, database = empty_server\<rparr>"

definition data_file_example :: vfs_file where
  "data_file_example = new_VFSFile ''data'' ''dev'' VFSFileOpenModeWrite\<lparr>current_data_block := Some 1\<rparr>"

lemma data_world_ok:
  "wf_world quiet_env (data_world limit)" "current_data_block data_file_example = Some 1"
  "blocks (data_world limit) 1 = Some (data_block_example limit)"
  "data_file_at quiet_env data_file_example [(''data/dev/x'', [[7]])] (data_world limit)"
  "fresh_names quiet_env (vfs_fpath (vfs_file_info data_file_example)) (data_world limit)"
proof -
  show "wf_world quiet_env (data_world limit)"
    by (auto simp: wf_world_def open_block_def data_world_def data_block_example_def open_stream_example_def
        getAbsolutePath_def quiet_env_def split: if_splits)
  show cur: "current_data_block data_file_example = Some 1" by (simp add: data_file_example_def)
  show "blocks (data_world limit) 1 = Some (data_block_example limit)" by (simp add: data_world_def)
  have f: "open_mode data_file_example = VFSFileOpenModeWrite" "current_journal_data_block data_file_example = None"
    "vfs_fpath (vfs_file_info data_file_example) = ''data/dev''"
    by (simp_all add: data_file_example_def new_VFSFile_def area_path_def)
  show "data_file_at quiet_env data_file_example [(''data/dev/x'', [[7]])] (data_world limit)"
    using f cur by (simp add: data_file_at_def bview_def data_world_def data_block_example_def open_stream_example_def
        file_bytes_def sealed_def stream_good_def)
  show "fresh_names quiet_env (vfs_fpath (vfs_file_info data_file_example)) (data_world limit)"
    unfolding fresh_names_def Let_def f(3)
  proof (intro allI impI)
    fix n
    show "files (data_world limit) (getAbsolutePath quiet_env (''data/dev'' @ ''/'' @ env_uuid quiet_env n)) = None \<and>
        getAbsolutePath quiet_env (''data/dev'' @ ''/'' @ env_uuid quiet_env n) \<notin> set (dirs (data_world limit))"
      by (cases n) (simp_all add: data_world_def quiet_env_def getAbsolutePath_def)
  qed
qed



end
