(* ===== verification/Driver_Manager.thy ===== *)
theory Driver_Manager
  imports Service_Lifecycle Processing_Queue "HOL-Library.Char_ord" "HOL-Library.List_Lexorder"
begin

text \<open>
  The device drivers of the control-unit toolkit (\<open>cu_toolkit/driver_manager\<close>): the manager that shares one
  driver among all who ask for it with the same parameters, the driver with its thread, and the accessors
  through which messages are sent to it. A driver class is a parameter, the record of its virtual functions.
  Drivers, accessors and messages live at addresses; an address is not given out twice, so that a stale
  pointer is a fault.
\<close>

section \<open>Messages and accessors\<close>

datatype msg_managment_result = MMR_EXECUTED | MMR_THREAD_DISPATCHED | MMR_ERROR

definition OP_DEINIT :: u16 where
  "OP_DEINIT = 65535"

text \<open>A response queue is one of the two queues of an accessor.\<close>

datatype response_queue = AsyncMQ nat | SyncMQ nat

record drv_msg =
  msg_id :: u64
  opcode :: u16
  msg_property :: u16
  drvResponseMQ :: "response_queue option"
  inputData :: "u8 list"
  resultData :: "u8 list"

record drv_request_info =
  drv_alias :: string
  drv_version :: string
  init_parameter :: string

record driver_accessor =
  driver_uuid :: string
  accessor_index :: u32
  messages_count :: u64
  accessor_async_mq :: "u64 prio_elem list"
  accessor_sync_mq :: "u64 prio_elem list"
  command_queue :: nat
  base_opcode_priority :: u32

definition new_DriverAccessor :: "u32 \<Rightarrow> string \<Rightarrow> nat \<Rightarrow> driver_accessor" where
  "new_DriverAccessor idx uuid drv =
     \<lparr>driver_uuid = uuid, accessor_index = idx, messages_count = 0, accessor_async_mq = [], accessor_sync_mq = [],
      command_queue = drv, base_opcode_priority = 50\<rparr>"

text \<open>The objects the thread of a driver reaches: accessors and messages. \<open>env_fault\<close>: a freed one was used.\<close>

record drv_env =
  env_accessors :: "nat \<Rightarrow> driver_accessor option"
  env_messages :: "nat \<Rightarrow> drv_msg option"
  env_fault :: bool

definition push_response :: "response_queue \<Rightarrow> u64 \<Rightarrow> drv_env \<Rightarrow> drv_env" where
  "push_response mq i env =
     (case mq of
        AsyncMQ p \<Rightarrow>
          (case env_accessors env p of
             None \<Rightarrow> env\<lparr>env_fault := True\<rparr>
           | Some a \<Rightarrow> env\<lparr>env_accessors := (env_accessors env)(p \<mapsto> a\<lparr>accessor_async_mq := tcq_push i 50 (accessor_async_mq a)\<rparr>)\<rparr>)
      | SyncMQ p \<Rightarrow>
          (case env_accessors env p of
             None \<Rightarrow> env\<lparr>env_fault := True\<rparr>
           | Some a \<Rightarrow> env\<lparr>env_accessors := (env_accessors env)(p \<mapsto> a\<lparr>accessor_sync_mq := tcq_push i 50 (accessor_sync_mq a)\<rparr>)\<rparr>))"

section \<open>Drivers\<close>

record 'h driver_class =
  driverInit :: "string \<Rightarrow> 'h \<Rightarrow> 'h \<times> cexception option"
  driverDeinit :: "'h \<Rightarrow> 'h \<times> cexception option"
  execOpcode :: "drv_msg \<Rightarrow> 'h \<Rightarrow> msg_managment_result \<times> drv_msg \<times> 'h"

text \<open>
  The command queue holds addresses of messages; the message that ends the thread is a local variable of
  \<open>deinit\<close>, here \<open>None\<close>. \<open>thread_runs\<close>: the thread is in \<open>scanForMessage\<close>.
\<close>

record 'h abstract_driver =
  drv_class :: "'h driver_class"
  hardware :: 'h
  driverNeedtoDeinitialize :: bool
  driverUUID :: string
  identificationString :: string
  accessorCount :: u32
  accessors :: "nat list"
  commandQueue :: "nat option prio_elem list"
  thread_runs :: bool

definition new_AbstractDriver :: "'h driver_class \<Rightarrow> 'h \<Rightarrow> string \<Rightarrow> 'h abstract_driver" where
  "new_AbstractDriver cl hw uuid =
     \<lparr>drv_class = cl, hardware = hw, driverNeedtoDeinitialize = False, driverUUID = uuid, identificationString = '''',
      accessorCount = 0, accessors = [], commandQueue = [], thread_runs = False\<rparr>"

definition deinitMsg :: drv_msg where
  "deinitMsg = \<lparr>msg_id = 0, opcode = OP_DEINIT, msg_property = 0, drvResponseMQ = None, inputData = [], resultData = []\<rparr>"

text \<open>
  One round of \<open>scanForMessage\<close>: \<open>None\<close> when the thread waits. A message is read through its pointer, before
  and after the driver has executed it.
\<close>

definition respond :: "msg_managment_result \<Rightarrow> drv_msg \<Rightarrow> drv_env \<Rightarrow> drv_env" where
  "respond r m env =
     (if r = MMR_THREAD_DISPATCHED then env
      else case drvResponseMQ m of None \<Rightarrow> env | Some mq \<Rightarrow> push_response mq (msg_id m) env)"

definition loops_again :: "drv_msg \<Rightarrow> 'h abstract_driver \<Rightarrow> bool" where
  "loops_again m d = (opcode m \<noteq> OP_DEINIT \<and> \<not> driverNeedtoDeinitialize d)"

definition exec_message :: "nat option \<Rightarrow> drv_msg \<Rightarrow> 'h abstract_driver \<Rightarrow> drv_env \<Rightarrow> 'h abstract_driver \<times> drv_env" where
  "exec_message p m d env =
     (case execOpcode (drv_class d) m (hardware d) of
        (r, m', h) \<Rightarrow>
          let d' = d\<lparr>hardware := h\<rparr>;
              env' = (case p of None \<Rightarrow> env | Some a \<Rightarrow> env\<lparr>env_messages := (env_messages env)(a \<mapsto> m')\<rparr>)
          in (d'\<lparr>thread_runs := loops_again m' d'\<rparr>, respond r m' env'))"

definition scan_message ::
  "(nat option prio_elem list \<Rightarrow> nat option prio_elem) \<Rightarrow> 'h abstract_driver \<Rightarrow> drv_env \<Rightarrow> ('h abstract_driver \<times> drv_env) option" where
  "scan_message htop d env =
     (case tcq_wait_and_pop htop (commandQueue d) of
        (Pop_returns (Some p), q) \<Rightarrow>
          let d1 = d\<lparr>commandQueue := q\<rparr> in
          (case p of
             None \<Rightarrow> Some (exec_message None deinitMsg d1 env)
           | Some a \<Rightarrow>
               (case env_messages env a of
                  None \<Rightarrow> Some (d1, env\<lparr>env_fault := True\<rparr>)
                | Some m \<Rightarrow> Some (exec_message p m d1 env)))
      | _ \<Rightarrow> None)"

text \<open>
  The two hooks of the service. \<open>deinit\<close> sets the flag, runs the driver's own function and, unless that
  throws, sends the last message and joins the thread. The thread is either waiting, and then takes one more
  message, or \<open>busy\<close> with one, and then leaves the loop behind it.
\<close>

definition AbstractDriver_init ::
  "string \<Rightarrow> 'h abstract_driver \<times> drv_env \<Rightarrow> ('h abstract_driver \<times> drv_env) \<times> cexception option" where
  "AbstractDriver_init param de =
     (case de of (d, env) \<Rightarrow>
        case driverInit (drv_class d) param (hardware d) of
          (h, None) \<Rightarrow> ((d\<lparr>driverNeedtoDeinitialize := False, hardware := h, thread_runs := True\<rparr>, env), None)
        | (h, Some ex) \<Rightarrow> ((d\<lparr>driverNeedtoDeinitialize := False, hardware := h\<rparr>, env), Some ex))"

definition join_thread ::
  "(nat option prio_elem list \<Rightarrow> nat option prio_elem) \<Rightarrow> bool \<Rightarrow> 'h abstract_driver \<Rightarrow> drv_env \<Rightarrow> 'h abstract_driver \<times> drv_env" where
  "join_thread htop busy d env =
     (if \<not> thread_runs d then (d, env)
      else if busy then (d\<lparr>thread_runs := False\<rparr>, env)
      else case scan_message htop d env of None \<Rightarrow> (d, env) | Some r \<Rightarrow> r)"

definition AbstractDriver_deinit ::
  "(nat option prio_elem list \<Rightarrow> nat option prio_elem) \<Rightarrow> bool \<Rightarrow> 'h abstract_driver \<times> drv_env
   \<Rightarrow> ('h abstract_driver \<times> drv_env) \<times> cexception option" where
  "AbstractDriver_deinit htop busy de =
     (case de of (d, env) \<Rightarrow>
        case driverDeinit (drv_class d) (hardware d) of
          (h, None) \<Rightarrow>
            (join_thread htop busy
               (d\<lparr>driverNeedtoDeinitialize := True, hardware := h, commandQueue := tcq_push None 50 (commandQueue d)\<rparr>) env, None)
        | (h, Some ex) \<Rightarrow> ((d\<lparr>driverNeedtoDeinitialize := True, hardware := h\<rparr>, env), Some ex))"

definition driver_hooks ::
  "(nat option prio_elem list \<Rightarrow> nat option prio_elem) \<Rightarrow> bool \<Rightarrow> (string, 'h abstract_driver \<times> drv_env) service_hooks" where
  "driver_hooks htop busy =
     \<lparr>init_hook = AbstractDriver_init, deinit_hook = AbstractDriver_deinit htop busy,
      start_hook = (\<lambda>u. (u, None)), stop_hook = (\<lambda>u. (u, None))\<rparr>"

section \<open>The manager\<close>

text \<open>
  The registered classes and the two maps over live drivers. A new driver gets its UUID from the parameter
  \<open>uuid\<close>, applied to its address, and its hardware in the state \<open>hw\<close>.
\<close>

record 'h driver_manager =
  mapDriverAliasVersionInstancer :: "(string \<times> ('h driver_class \<times> 'h)) list"
  mapParameterLiveInstance :: "(string \<times> nat) list"
  mapDriverUUIDHashLiveInstance :: "(string \<times> nat) list"
  live_drivers :: "nat \<Rightarrow> 'h abstract_driver service option"
  dm_env :: drv_env
  next_address :: nat

definition new_DriverManager :: "'h driver_manager" where
  "new_DriverManager =
     \<lparr>mapDriverAliasVersionInstancer = [], mapParameterLiveInstance = [], mapDriverUUIDHashLiveInstance = [],
      live_drivers = (\<lambda>_. None),
      dm_env = \<lparr>env_accessors = (\<lambda>_. None), env_messages = (\<lambda>_. None), env_fault = False\<rparr>, next_address = 0\<rparr>"

text \<open>\<open>std::map::insert\<close> keeps an entry that is there.\<close>

definition insert_entry :: "'k \<Rightarrow> 'v \<Rightarrow> ('k \<times> 'v) list \<Rightarrow> ('k \<times> 'v) list" where
  "insert_entry k v m = (if map_of m k = None then (k, v) # m else m)"

definition erase_entry :: "'k \<Rightarrow> ('k \<times> 'v) list \<Rightarrow> ('k \<times> 'v) list" where
  "erase_entry k m = filter (\<lambda>e. fst e \<noteq> k) m"

definition registerDriver ::
  "('h driver_class \<times> 'h) option \<Rightarrow> (string \<times> string) option \<Rightarrow> 'h driver_manager \<Rightarrow> unit outcome \<times> 'h driver_manager" where
  "registerDriver instancer description M =
     (case instancer of
        None \<Rightarrow> (Throw (CException 1 ''The instancer of the driver is mandatory for his registration'' ''DriverManager::registerDriver''), M)
      | Some cl \<Rightarrow>
          (case description of
             None \<Rightarrow> (Throw (CException 2 ''The description of the driver is mandatory for his registration'' ''DriverManager::registerDriver''), M)
           | Some (name, ver) \<Rightarrow>
               (Ret (), M\<lparr>mapDriverAliasVersionInstancer :=
                   insert_entry (name @ ver) cl (mapDriverAliasVersionInstancer M)\<rparr>)))"

text \<open>\<open>AbstractDriver::getNewAccessor\<close> and \<open>releaseAccessor\<close>.\<close>

definition getNewAccessor :: "nat \<Rightarrow> 'h driver_manager \<Rightarrow> nat outcome \<times> 'h driver_manager" where
  "getNewAccessor drv M =
     (case live_drivers M drv of
        None \<Rightarrow> (Fault, M)
      | Some s \<Rightarrow>
          let d = impl_data s; p = next_address M; env = dm_env M;
              a = new_DriverAccessor (accessorCount d) (driverUUID d) drv
          in (Ret p, M\<lparr>live_drivers := (live_drivers M)(drv \<mapsto> s\<lparr>impl_data := d\<lparr>accessorCount := accessorCount d + 1, accessors := accessors d @ [p]\<rparr>\<rparr>),
                       dm_env := env\<lparr>env_accessors := (env_accessors env)(p \<mapsto> a)\<rparr>,
                       next_address := Suc p\<rparr>))"

definition driver_releaseAccessor :: "nat \<Rightarrow> nat \<Rightarrow> 'h driver_manager \<Rightarrow> bool outcome \<times> 'h driver_manager" where
  "driver_releaseAccessor drv p M =
     (case (live_drivers M drv, env_accessors (dm_env M) p) of
        (Some s, Some a) \<Rightarrow>
          let d = impl_data s; env = dm_env M in
          if driver_uuid a \<noteq> driverUUID d then (Ret False, M)
          else if p \<notin> set (accessors d) then (Fault, M)
          else (Ret True, M\<lparr>live_drivers := (live_drivers M)(drv \<mapsto> s\<lparr>impl_data := d\<lparr>accessors := remove1 p (accessors d)\<rparr>\<rparr>),
                            dm_env := env\<lparr>env_accessors := (env_accessors env)(p := None)\<rparr>\<rparr>)
      | _ \<Rightarrow> (Fault, M))"

text \<open>A call of a service function on a driver: the hooks see the driver and the environment.\<close>

definition enter_service :: "'h driver_manager \<Rightarrow> 'h abstract_driver service \<Rightarrow> ('h abstract_driver \<times> drv_env) service" where
  "enter_service M s =
     \<lparr>base_fsm = base_fsm s, ss_fsm = ss_fsm s, serviceState = serviceState s, impl_data = (impl_data s, dm_env M)\<rparr>"

definition leave_service :: "nat \<Rightarrow> ('h abstract_driver \<times> drv_env) service \<Rightarrow> 'h driver_manager \<Rightarrow> 'h driver_manager" where
  "leave_service drv t M =
     M\<lparr>live_drivers := (live_drivers M)(drv \<mapsto>
         \<lparr>base_fsm = base_fsm t, ss_fsm = ss_fsm t, serviceState = serviceState t, impl_data = fst (impl_data t)\<rparr>),
       dm_env := snd (impl_data t)\<rparr>"

definition service_call ::
  "(('h abstract_driver \<times> drv_env) service option \<Rightarrow> bool outcome \<times> ('h abstract_driver \<times> drv_env) service option)
   \<Rightarrow> nat \<Rightarrow> 'h driver_manager \<Rightarrow> bool outcome \<times> 'h driver_manager" where
  "service_call f drv M =
     (case live_drivers M drv of
        None \<Rightarrow> (Fault, M)
      | Some s \<Rightarrow>
          (case f (Some (enter_service M s)) of
             (r, Some t) \<Rightarrow> (r, leave_service drv t M)
           | (r, None) \<Rightarrow> (r, M)))"

text \<open>\<open>delete\<close> on a driver whose thread runs: the thread goes on with a freed queue.\<close>

definition delete_driver :: "nat \<Rightarrow> 'h driver_manager \<Rightarrow> unit outcome \<times> 'h driver_manager" where
  "delete_driver drv M =
     (case live_drivers M drv of
        None \<Rightarrow> (Fault, M)
      | Some s \<Rightarrow>
          if thread_runs (impl_data s) then (Fault, M)
          else (Ret (), M\<lparr>live_drivers := (live_drivers M)(drv := None)\<rparr>))"

record 'h driver_system =
  dr_pe :: msm
  dr_sid :: "ss_state \<Rightarrow> u8"
  dr_htop :: "nat option prio_elem list \<Rightarrow> nat option prio_elem"
  dr_uuid :: "nat \<Rightarrow> string"

definition init_driver :: "'h driver_system \<Rightarrow> string \<Rightarrow> nat \<Rightarrow> 'h driver_manager \<Rightarrow> bool outcome \<times> 'h driver_manager" where
  "init_driver S param =
     service_call (\<lambda>t. IS_initImplementation (dr_pe S) (dr_sid S) (driver_hooks (dr_htop S) False) t param
       ''DriverManager::getNewAccessorForDriverInstance'')"

definition deinit_driver :: "'h driver_system \<Rightarrow> bool \<Rightarrow> nat \<Rightarrow> 'h driver_manager \<Rightarrow> bool outcome \<times> 'h driver_manager" where
  "deinit_driver S busy =
     service_call (\<lambda>t. IS_deinitImplementation (dr_pe S) (dr_sid S) (driver_hooks (dr_htop S) busy) t ''DriverManager::deinit'')"

definition identification :: "drv_request_info \<Rightarrow> string" where
  "identification r = drv_alias r @ drv_version r @ init_parameter r"

definition not_found :: "drv_request_info \<Rightarrow> cexception" where
  "not_found r = CException 1 (''Driver '' @ CHR 34 # drv_alias r @ CHR 34 # '' ver='' @ drv_version r @ '' not found'')
     ''DriverManager::getNewAccessorForDriverInstance''"

definition create_driver :: "'h driver_system \<Rightarrow> 'h driver_class \<times> 'h \<Rightarrow> string \<Rightarrow> 'h driver_manager \<Rightarrow> nat \<times> 'h driver_manager" where
  "create_driver S cl ident M =
     (let drv = next_address M;
          d = (new_AbstractDriver (fst cl) (snd cl) (dr_uuid S drv))\<lparr>identificationString := ident\<rparr>
      in (drv, M\<lparr>live_drivers := (live_drivers M)(drv \<mapsto> new_service d), next_address := Suc drv\<rparr>))"

definition getNewAccessorForDriverInstance ::
  "'h driver_system \<Rightarrow> drv_request_info \<Rightarrow> 'h driver_manager \<Rightarrow> nat outcome \<times> 'h driver_manager" where
  "getNewAccessorForDriverInstance S r M =
     (case map_of (mapParameterLiveInstance M) (identification r) of
        Some drv \<Rightarrow> getNewAccessor drv M
      | None \<Rightarrow>
          (case map_of (mapDriverAliasVersionInstancer M) (drv_alias r @ drv_version r) of
             None \<Rightarrow> (Throw (not_found r), M)
           | Some cl \<Rightarrow>
               (case create_driver S cl (identification r) M of (drv, M1) \<Rightarrow>
                case init_driver S (init_parameter r) drv M1 of
                  (Ret _, M2) \<Rightarrow>
                    getNewAccessor drv
                      (M2\<lparr>mapParameterLiveInstance := insert_entry (identification r) drv (mapParameterLiveInstance M2),
                          mapDriverUUIDHashLiveInstance := insert_entry (dr_uuid S drv) drv (mapDriverUUIDHashLiveInstance M2)\<rparr>)
                | (Throw ex, M2) \<Rightarrow> (Throw ex, M2)
                | (Fault, M2) \<Rightarrow> (Fault, M2))))"

text \<open>
  \<open>DriverManager::releaseAccessor\<close>. Whatever the deinitialization throws is swallowed, and the driver is
  erased from both maps and deleted.
\<close>

definition retire_driver :: "'h driver_system \<Rightarrow> bool \<Rightarrow> nat \<Rightarrow> 'h driver_manager \<Rightarrow> unit outcome \<times> 'h driver_manager" where
  "retire_driver S busy drv M =
     (case deinit_driver S busy drv M of
        (Fault, M1) \<Rightarrow> (Fault, M1)
      | (_, M1) \<Rightarrow>
          (case live_drivers M1 drv of
             None \<Rightarrow> (Fault, M1)
           | Some s \<Rightarrow>
               delete_driver drv
                 (M1\<lparr>mapParameterLiveInstance := erase_entry (identificationString (impl_data s)) (mapParameterLiveInstance M1),
                     mapDriverUUIDHashLiveInstance := erase_entry (driverUUID (impl_data s)) (mapDriverUUIDHashLiveInstance M1)\<rparr>)))"

definition releaseAccessor :: "'h driver_system \<Rightarrow> bool \<Rightarrow> nat \<Rightarrow> 'h driver_manager \<Rightarrow> unit outcome \<times> 'h driver_manager" where
  "releaseAccessor S busy p M =
     (case env_accessors (dm_env M) p of
        None \<Rightarrow> (Fault, M)
      | Some a \<Rightarrow>
          (case map_of (mapDriverUUIDHashLiveInstance M) (driver_uuid a) of
             None \<Rightarrow> (Ret (), M)
           | Some drv \<Rightarrow>
               (case driver_releaseAccessor drv p M of
                  (Ret True, M1) \<Rightarrow>
                    (case live_drivers M1 drv of
                       None \<Rightarrow> (Fault, M1)
                     | Some s \<Rightarrow> if accessors (impl_data s) = [] then retire_driver S busy drv M1 else (Ret (), M1))
                | (Ret False, M1) \<Rightarrow> (Throw (CException 1 ''This errore never have to appen'' ''DriverManager::releaseAccessor''), M1)
                | (Throw ex, M1) \<Rightarrow> (Throw ex, M1)
                | (Fault, M1) \<Rightarrow> (Fault, M1))))"

text \<open>\<open>DriverManager::deinit\<close>: every live driver is deinitialized and deleted, in the order of the
  UUIDs; its accessors stay.\<close>

fun deinit_all :: "'h driver_system \<Rightarrow> (nat \<Rightarrow> bool) \<Rightarrow> (string \<times> nat) list \<Rightarrow> 'h driver_manager \<Rightarrow> unit outcome \<times> 'h driver_manager" where
  "deinit_all S busy [] M = (Ret (), M)"
| "deinit_all S busy ((u, drv) # es) M =
     (case deinit_driver S (busy drv) drv M of
        (Fault, M1) \<Rightarrow> (Fault, M1)
      | (_, M1) \<Rightarrow>
          (case delete_driver drv M1 of
             (Ret _, M2) \<Rightarrow> deinit_all S busy es M2
           | r \<Rightarrow> r))"

definition DriverManager_deinit :: "'h driver_system \<Rightarrow> (nat \<Rightarrow> bool) \<Rightarrow> 'h driver_manager \<Rightarrow> unit outcome \<times> 'h driver_manager" where
  "DriverManager_deinit S busy M =
     (case deinit_all S busy (sort_key fst (mapDriverUUIDHashLiveInstance M)) (M\<lparr>mapParameterLiveInstance := []\<rparr>) of
        (Ret _, M1) \<Rightarrow> (Ret (), M1\<lparr>mapDriverUUIDHashLiveInstance := [], mapParameterLiveInstance := []\<rparr>)
      | r \<Rightarrow> r)"

section \<open>Sending messages\<close>

text \<open>
  \<open>DriverAccessor::send\<close> in two parts, what it does before it waits and the wait, and \<open>sendAsync\<close>. The
  queue of commands belongs to the driver. \<open>accessor_push\<close> is what the two share.
\<close>

definition accessor_push ::
  "nat \<Rightarrow> response_queue \<Rightarrow> nat \<Rightarrow> u32 \<Rightarrow> 'h driver_manager \<Rightarrow> u64 outcome \<times> 'h driver_manager" where
  "accessor_push p mq cmd inc_priority M =
     (case (env_accessors (dm_env M) p, env_messages (dm_env M) cmd) of
        (Some a, Some m) \<Rightarrow>
          (case live_drivers M (command_queue a) of
             None \<Rightarrow> (Fault, M)
           | Some s \<Rightarrow>
               let env = dm_env M; d = impl_data s in
               (Ret (messages_count a),
                M\<lparr>live_drivers := (live_drivers M)(command_queue a \<mapsto>
                     s\<lparr>impl_data := d\<lparr>commandQueue := tcq_push (Some cmd) (base_opcode_priority a + inc_priority) (commandQueue d)\<rparr>\<rparr>),
                  dm_env := env\<lparr>env_accessors := (env_accessors env)(p \<mapsto> a\<lparr>messages_count := messages_count a + 1\<rparr>),
                                env_messages := (env_messages env)(cmd \<mapsto> m\<lparr>msg_id := messages_count a, drvResponseMQ := Some mq\<rparr>)\<rparr>\<rparr>))
      | _ \<Rightarrow> (Fault, M))"

definition send_message :: "nat \<Rightarrow> nat \<Rightarrow> u32 \<Rightarrow> 'h driver_manager \<Rightarrow> u64 outcome \<times> 'h driver_manager" where
  "send_message p cmd inc_priority M = accessor_push p (SyncMQ p) cmd inc_priority M"

definition sendAsync :: "nat \<Rightarrow> nat \<Rightarrow> u32 \<Rightarrow> 'h driver_manager \<Rightarrow> u64 outcome \<times> 'h driver_manager" where
  "sendAsync p cmd inc_priority M = accessor_push p (AsyncMQ p) cmd inc_priority M"

text \<open>The answer is popped and not looked at; \<open>None\<close>: the caller waits.\<close>

definition send_wait ::
  "(u64 prio_elem list \<Rightarrow> u64 prio_elem) \<Rightarrow> nat \<Rightarrow> 'h driver_manager \<Rightarrow> (u64 \<times> 'h driver_manager) option outcome" where
  "send_wait atop p M =
     (case env_accessors (dm_env M) p of
        None \<Rightarrow> Fault
      | Some a \<Rightarrow>
          (case tcq_wait_and_pop atop (accessor_sync_mq a) of
             (Pop_returns (Some i), q) \<Rightarrow>
               Ret (Some (i, M\<lparr>dm_env := (dm_env M)\<lparr>env_accessors := (env_accessors (dm_env M))(p \<mapsto> a\<lparr>accessor_sync_mq := q\<rparr>)\<rparr>\<rparr>))
           | _ \<Rightarrow> Ret None))"

definition getLastAsyncMsg ::
  "(u64 prio_elem list \<Rightarrow> u64 prio_elem) \<Rightarrow> nat \<Rightarrow> 'h driver_manager \<Rightarrow> (u64 option \<times> 'h driver_manager) outcome" where
  "getLastAsyncMsg atop p M =
     (case env_accessors (dm_env M) p of
        None \<Rightarrow> Fault
      | Some a \<Rightarrow>
          (case tcq_try_pop atop (accessor_sync_mq a) of
             (r, q) \<Rightarrow> Ret (r, M\<lparr>dm_env := (dm_env M)\<lparr>env_accessors := (env_accessors (dm_env M))(p \<mapsto> a\<lparr>accessor_sync_mq := q\<rparr>)\<rparr>\<rparr>)))"

text \<open>One round of the thread of a driver.\<close>

definition driver_thread_round ::
  "(nat option prio_elem list \<Rightarrow> nat option prio_elem) \<Rightarrow> nat \<Rightarrow> 'h driver_manager \<Rightarrow> 'h driver_manager option" where
  "driver_thread_round htop drv M =
     (case live_drivers M drv of
        None \<Rightarrow> None
      | Some s \<Rightarrow>
          if \<not> thread_runs (impl_data s) then None
          else map_option (\<lambda>(d, env). M\<lparr>live_drivers := (live_drivers M)(drv \<mapsto> s\<lparr>impl_data := d\<rparr>), dm_env := env\<rparr>)
                 (scan_message htop (impl_data s) (dm_env M)))"

end
