(* ===== verification/Driver_Sharing.thy ===== *)
theory Driver_Sharing
  imports Driver_Manager
begin

text \<open>
  Who owns a driver: a driver in the maps of the manager is initialized, its thread runs, and it has an
  accessor; every accessor handed out and not released belongs to one such driver. Messages are sent and
  executed in between. What a driver class does is arbitrary, exceptions included, as long as it leaves the
  head of a message alone.
\<close>

section \<open>The invariant\<close>

definition keeps_head :: "'h driver_class \<Rightarrow> bool" where
  "keeps_head cl \<longleftrightarrow> (\<forall>m h r m' h'. execOpcode cl m h = (r, m', h') \<longrightarrow>
     msg_id m' = msg_id m \<and> opcode m' = opcode m \<and> drvResponseMQ m' = drvResponseMQ m)"

lemma keeps_headD: "keeps_head cl \<Longrightarrow> execOpcode cl m h = (r, m', h') \<Longrightarrow>
    msg_id m' = msg_id m \<and> opcode m' = opcode m \<and> drvResponseMQ m' = drvResponseMQ m"
  unfolding keeps_head_def by blast

definition driver_ready :: "'h driver_system \<Rightarrow> 'h driver_manager \<Rightarrow> nat \<Rightarrow> 'h abstract_driver service \<Rightarrow> bool" where
  "driver_ready S M drv s \<longleftrightarrow> base_fsm s = Initialized \<and> driverUUID (impl_data s) = dr_uuid S drv
     \<and> thread_runs (impl_data s) \<and> \<not> driverNeedtoDeinitialize (impl_data s)
     \<and> keeps_head (drv_class (impl_data s)) \<and> distinct (accessors (impl_data s))
     \<and> (\<forall>p \<in> set (accessors (impl_data s)). \<exists>a. env_accessors (dm_env M) p = Some a \<and> command_queue a = drv)"

definition maps_ok :: "'h driver_system \<Rightarrow> 'h driver_manager \<Rightarrow> bool" where
  "maps_ok S M \<longleftrightarrow>
     (\<forall>k drv. map_of (mapParameterLiveInstance M) k = Some drv \<longrightarrow>
        map_of (mapDriverUUIDHashLiveInstance M) (dr_uuid S drv) = Some drv
        \<and> (\<exists>s. live_drivers M drv = Some s \<and> identificationString (impl_data s) = k))
   \<and> (\<forall>u drv. map_of (mapDriverUUIDHashLiveInstance M) u = Some drv \<longrightarrow>
        u = dr_uuid S drv
        \<and> (\<exists>s. live_drivers M drv = Some s \<and> driver_ready S M drv s
             \<and> map_of (mapParameterLiveInstance M) (identificationString (impl_data s)) = Some drv))"

definition accessors_ok :: "'h driver_system \<Rightarrow> 'h driver_manager \<Rightarrow> bool" where
  "accessors_ok S M \<longleftrightarrow>
     (\<forall>p a. env_accessors (dm_env M) p = Some a \<longrightarrow>
        p < next_address M \<and> driver_uuid a = dr_uuid S (command_queue a)
        \<and> map_of (mapDriverUUIDHashLiveInstance M) (driver_uuid a) = Some (command_queue a)
        \<and> (\<exists>s. live_drivers M (command_queue a) = Some s \<and> p \<in> set (accessors (impl_data s))))"

definition in_use :: "'h driver_manager \<Rightarrow> bool" where
  "in_use M \<longleftrightarrow>
     (\<forall>u drv s. map_of (mapDriverUUIDHashLiveInstance M) u = Some drv \<longrightarrow> live_drivers M drv = Some s \<longrightarrow>
        accessors (impl_data s) \<noteq> [])"

definition dm_inv :: "'h driver_system \<Rightarrow> 'h driver_manager \<Rightarrow> bool" where
  "dm_inv S M \<longleftrightarrow> maps_ok S M \<and> accessors_ok S M \<and> in_use M
     \<and> (\<forall>drv. live_drivers M drv \<noteq> None \<longrightarrow> drv < next_address M)
     \<and> (\<forall>n cl. map_of (mapDriverAliasVersionInstancer M) n = Some cl \<longrightarrow> keeps_head (fst cl))"

lemma map_of_insert_entry: "map_of (insert_entry k v m) x = (if map_of m k = None \<and> x = k then Some v else map_of m x)"
  by (simp add: insert_entry_def)

lemma map_of_erase_entry: "map_of (erase_entry k m) x = (if x = k then None else map_of m x)"
  by (induction m) (auto simp: erase_entry_def)

lemma param_uuid: "maps_ok S M \<Longrightarrow> map_of (mapParameterLiveInstance M) k = Some drv \<Longrightarrow>
    map_of (mapDriverUUIDHashLiveInstance M) (dr_uuid S drv) = Some drv"
  and param_ident: "maps_ok S M \<Longrightarrow> map_of (mapParameterLiveInstance M) k = Some drv \<Longrightarrow> live_drivers M drv = Some s \<Longrightarrow>
    identificationString (impl_data s) = k"
  by (force simp: maps_ok_def)+

lemma uuid_drv: "maps_ok S M \<Longrightarrow> map_of (mapDriverUUIDHashLiveInstance M) u = Some drv \<Longrightarrow> u = dr_uuid S drv"
  unfolding maps_ok_def by blast

lemma uuid_live:
  assumes "maps_ok S M" and "map_of (mapDriverUUIDHashLiveInstance M) u = Some drv"
  obtains s where "live_drivers M drv = Some s" and "driver_ready S M drv s"
    and "map_of (mapParameterLiveInstance M) (identificationString (impl_data s)) = Some drv"
  using assms unfolding maps_ok_def by blast

lemma uuid_live_ex: "maps_ok S M \<Longrightarrow> map_of (mapDriverUUIDHashLiveInstance M) u = Some drv \<Longrightarrow>
    \<exists>s. live_drivers M drv = Some s \<and> driver_ready S M drv s
      \<and> map_of (mapParameterLiveInstance M) (identificationString (impl_data s)) = Some drv"
  unfolding maps_ok_def by blast

lemma accessor_owner_ex: "accessors_ok S M \<Longrightarrow> env_accessors (dm_env M) p = Some a \<Longrightarrow>
    p < next_address M \<and> driver_uuid a = dr_uuid S (command_queue a)
    \<and> map_of (mapDriverUUIDHashLiveInstance M) (driver_uuid a) = Some (command_queue a)
    \<and> (\<exists>s. live_drivers M (command_queue a) = Some s \<and> p \<in> set (accessors (impl_data s)))"
  unfolding accessors_ok_def by blast

lemma accessor_owner:
  assumes "accessors_ok S M" and "env_accessors (dm_env M) p = Some a"
  obtains s where "p < next_address M" and "driver_uuid a = dr_uuid S (command_queue a)"
    and "map_of (mapDriverUUIDHashLiveInstance M) (driver_uuid a) = Some (command_queue a)"
    and "live_drivers M (command_queue a) = Some s" and "p \<in> set (accessors (impl_data s))"
  using assms unfolding accessors_ok_def by blast

text \<open>A change of one driver in the maps that keeps its name.\<close>

lemma maps_ok_frame:
  assumes ok: "maps_ok S M"
    and maps: "mapParameterLiveInstance M' = mapParameterLiveInstance M"
      "mapDriverUUIDHashLiveInstance M' = mapDriverUUIDHashLiveInstance M"
    and live: "live_drivers M' = (live_drivers M)(drv \<mapsto> s')" "live_drivers M drv = Some s"
    and s': "identificationString (impl_data s') = identificationString (impl_data s)" "driver_ready S M' drv s'"
    and others: "\<And>e t. e \<noteq> drv \<Longrightarrow> driver_ready S M e t \<Longrightarrow> driver_ready S M' e t"
  shows "maps_ok S M'"
  unfolding maps_ok_def maps
proof (intro conjI allI impI)
  fix k e assume e: "map_of (mapParameterLiveInstance M) k = Some e"
  from param_uuid [OF ok e] show u: "map_of (mapDriverUUIDHashLiveInstance M) (dr_uuid S e) = Some e" .
  obtain t where "live_drivers M e = Some t" by (rule uuid_live [OF ok u])
  then show "\<exists>t. live_drivers M' e = Some t \<and> identificationString (impl_data t) = k"
    using param_ident [OF ok e] live s'(1) by (cases "e = drv") auto
next
  fix u e assume e: "map_of (mapDriverUUIDHashLiveInstance M) u = Some e"
  show "u = dr_uuid S e" by (rule uuid_drv [OF ok e])
  obtain t where t: "live_drivers M e = Some t" "driver_ready S M e t"
      "map_of (mapParameterLiveInstance M) (identificationString (impl_data t)) = Some e"
    by (rule uuid_live [OF ok e])
  then show "\<exists>t. live_drivers M' e = Some t \<and> driver_ready S M' e t
      \<and> map_of (mapParameterLiveInstance M) (identificationString (impl_data t)) = Some e"
    using live s' others [of e t] by (cases "e = drv") auto
qed

lemma dm_inv_new: "dm_inv S new_DriverManager"
  by (simp add: dm_inv_def maps_ok_def accessors_ok_def in_use_def new_DriverManager_def)

lemma register_inv:
  assumes "dm_inv S M" and "keeps_head cl"
  shows "dm_inv S (snd (registerDriver (Some (cl, h)) (Some (name, ver)) M))"
proof -
  let ?M = "snd (registerDriver (Some (cl, h)) (Some (name, ver)) M)"
  have "driver_ready S ?M = driver_ready S M" by (simp add: driver_ready_def fun_eq_iff registerDriver_def)
  then have "maps_ok S ?M = maps_ok S M" "accessors_ok S ?M = accessors_ok S M" "in_use ?M = in_use M"
    by (simp_all add: maps_ok_def accessors_ok_def in_use_def registerDriver_def)
  with assms show ?thesis unfolding dm_inv_def
    by (simp add: registerDriver_def map_of_insert_entry)
qed

section \<open>A new accessor\<close>

lemma getNewAccessor_inv:
  assumes ok: "maps_ok S M" "accessors_ok S M" and drv: "map_of (mapDriverUUIDHashLiveInstance M) u = Some drv"
    and below: "\<forall>e. live_drivers M e \<noteq> None \<longrightarrow> e < next_address M"
  shows "maps_ok S (snd (getNewAccessor drv M)) \<and> accessors_ok S (snd (getNewAccessor drv M))"
proof
  obtain s where s: "live_drivers M drv = Some s" and r: "driver_ready S M drv s" by (rule uuid_live [OF ok(1) drv])
  have u: "u = dr_uuid S drv" by (rule uuid_drv [OF ok(1) drv])
  have old: "p < next_address M" if "env_accessors (dm_env M) p = Some a" for p a
    by (rule accessor_owner [OF ok(2) that])
  then have fresh: "next_address M \<notin> set (accessors (impl_data s))"
    using r unfolding driver_ready_def by (metis less_irrefl)
  let ?M = "snd (getNewAccessor drv M)"
  let ?s = "s\<lparr>impl_data := (impl_data s)\<lparr>accessorCount := accessorCount (impl_data s) + 1, accessors := accessors (impl_data s) @ [next_address M]\<rparr>\<rparr>"
  have live: "live_drivers ?M = (live_drivers M)(drv \<mapsto> ?s)" using s by (simp add: getNewAccessor_def Let_def)
  have acc: "env_accessors (dm_env ?M) = (env_accessors (dm_env M))(next_address M \<mapsto> new_DriverAccessor (accessorCount (impl_data s)) (driverUUID (impl_data s)) drv)"
    using s by (simp add: getNewAccessor_def Let_def)
  show "maps_ok S ?M"
  proof (rule maps_ok_frame [OF ok(1) _ _ live s])
    show "driver_ready S ?M drv ?s" using r fresh by (auto simp: driver_ready_def acc new_DriverAccessor_def)
    fix e t assume "e \<noteq> drv" "driver_ready S M e t"
    then show "driver_ready S ?M e t" using old by (fastforce simp: driver_ready_def acc)
  qed (use s in \<open>simp_all add: getNewAccessor_def Let_def\<close>)
  have ub: "driverUUID (impl_data s) = dr_uuid S drv" using r by (simp add: driver_ready_def)
  show "accessors_ok S ?M" unfolding accessors_ok_def
  proof (intro allI impI)
    fix p a assume a: "env_accessors (dm_env ?M) p = Some a"
    have same: "mapDriverUUIDHashLiveInstance ?M = mapDriverUUIDHashLiveInstance M" "next_address ?M = Suc (next_address M)"
      using s by (simp_all add: getNewAccessor_def Let_def)
    show "p < next_address ?M \<and> driver_uuid a = dr_uuid S (command_queue a)
        \<and> map_of (mapDriverUUIDHashLiveInstance ?M) (driver_uuid a) = Some (command_queue a)
        \<and> (\<exists>s. live_drivers ?M (command_queue a) = Some s \<and> p \<in> set (accessors (impl_data s)))"
    proof (cases "p = next_address M")
      case True
      then show ?thesis using a drv u ub by (auto simp: acc same live new_DriverAccessor_def)
    next
      case False
      then have "env_accessors (dm_env M) p = Some a" using a by (simp add: acc)
      then obtain t where "p < next_address M" "driver_uuid a = dr_uuid S (command_queue a)"
          "map_of (mapDriverUUIDHashLiveInstance M) (driver_uuid a) = Some (command_queue a)"
          "live_drivers M (command_queue a) = Some t" "p \<in> set (accessors (impl_data t))"
        by (rule accessor_owner [OF ok(2)])
      then show ?thesis using s by (auto simp: same live)
    qed
  qed
qed

definition fresh_service :: "'h driver_system \<Rightarrow> 'h driver_class \<Rightarrow> 'h \<Rightarrow> string \<Rightarrow> nat \<Rightarrow> 'h abstract_driver service" where
  "fresh_service S cl h ident drv =
     \<lparr>base_fsm = Initialized, ss_fsm = Deinitilized, serviceState = dr_sid S Initialized,
      impl_data = (new_AbstractDriver cl h (dr_uuid S drv))\<lparr>identificationString := ident, thread_runs := True\<rparr>\<rparr>"

lemma create_then_init:
  assumes "msm_backend (dr_pe S)" and "create_driver S cl ident M = (drv, M1)"
  shows "drv = next_address M"
    and "driverInit (fst cl) param (snd cl) = (h, None) \<Longrightarrow>
      init_driver S param drv M1 =
        (Ret True, M\<lparr>next_address := Suc drv, live_drivers := (live_drivers M)(drv \<mapsto> fresh_service S (fst cl) h ident drv)\<rparr>)"
    and "driverInit (fst cl) param (snd cl) = (h, Some ex) \<Longrightarrow>
      \<exists>s. init_driver S param drv M1 = (Throw ex, M\<lparr>next_address := Suc drv, live_drivers := (live_drivers M)(drv \<mapsto> s)\<rparr>)"
  using assms(2)
  by (auto simp: create_driver_def Let_def init_driver_def service_call_def IS_initImplementation_def new_service_def
      msm_backend.id_rows [OF assms(1)] driver_hooks_def AbstractDriver_init_def enter_service_def leave_service_def
      fresh_service_def new_AbstractDriver_def)

text \<open>A driver outside the maps is invisible to the invariant.\<close>

lemma add_unmapped:
  assumes inv: "dm_inv S M" and drv: "drv = next_address M"
  shows "dm_inv S (M\<lparr>next_address := Suc drv, live_drivers := (live_drivers M)(drv \<mapsto> s)\<rparr>)"
proof -
  let ?M = "M\<lparr>next_address := Suc drv, live_drivers := (live_drivers M)(drv \<mapsto> s)\<rparr>"
  from inv have ok: "maps_ok S M" "accessors_ok S M" and new: "live_drivers M drv = None"
    using drv by (auto simp: dm_inv_def)
  have notin: "e \<noteq> drv" if "map_of (mapDriverUUIDHashLiveInstance M) u = Some e" for u e
    using uuid_live_ex [OF ok(1) that] new by auto
  have r: "driver_ready S ?M = driver_ready S M" by (simp add: driver_ready_def fun_eq_iff)
  have "maps_ok S ?M" unfolding maps_ok_def r
  proof (intro conjI allI impI)
    fix k e assume "map_of (mapParameterLiveInstance ?M) k = Some e"
    then have e: "map_of (mapParameterLiveInstance M) k = Some e" by simp
    show u: "map_of (mapDriverUUIDHashLiveInstance ?M) (dr_uuid S e) = Some e" using param_uuid [OF ok(1) e] by simp
    then have "e \<noteq> drv" by (simp add: notin)
    then show "\<exists>t. live_drivers ?M e = Some t \<and> identificationString (impl_data t) = k"
      using param_ident [OF ok(1) e] uuid_live_ex [OF ok(1) param_uuid [OF ok(1) e]] by auto
  next
    fix u e assume "map_of (mapDriverUUIDHashLiveInstance ?M) u = Some e"
    then have e: "map_of (mapDriverUUIDHashLiveInstance M) u = Some e" by simp
    show "u = dr_uuid S e" by (rule uuid_drv [OF ok(1) e])
    show "\<exists>t. live_drivers ?M e = Some t \<and> driver_ready S M e t
        \<and> map_of (mapParameterLiveInstance ?M) (identificationString (impl_data t)) = Some e"
      using uuid_live_ex [OF ok(1) e] notin [OF e] by auto
  qed
  moreover have "accessors_ok S ?M" unfolding accessors_ok_def
  proof (intro allI impI)
    fix p a assume "env_accessors (dm_env ?M) p = Some a"
    then have a: "env_accessors (dm_env M) p = Some a" by simp
    obtain t where "p < next_address M" "driver_uuid a = dr_uuid S (command_queue a)"
        "map_of (mapDriverUUIDHashLiveInstance M) (driver_uuid a) = Some (command_queue a)"
        "live_drivers M (command_queue a) = Some t" "p \<in> set (accessors (impl_data t))"
      by (rule accessor_owner [OF ok(2) a])
    then show "p < next_address ?M \<and> driver_uuid a = dr_uuid S (command_queue a)
        \<and> map_of (mapDriverUUIDHashLiveInstance ?M) (driver_uuid a) = Some (command_queue a)
        \<and> (\<exists>s. live_drivers ?M (command_queue a) = Some s \<and> p \<in> set (accessors (impl_data s)))"
      using drv new by auto
  qed
  moreover have "in_use ?M" using inv notin by (auto simp: dm_inv_def in_use_def)
  ultimately show ?thesis using inv drv by (auto simp: dm_inv_def)
qed

text \<open>Entering an initialized driver in both maps.\<close>

lemma enter_maps:
  assumes inv: "dm_inv S M" and drv: "live_drivers M drv = Some s" "driver_ready S M drv s"
    and out: "\<forall>u. map_of (mapDriverUUIDHashLiveInstance M) u \<noteq> Some drv"
      "map_of (mapParameterLiveInstance M) (identificationString (impl_data s)) = None"
    and inj: "inj (dr_uuid S)"
  defines "M' \<equiv> M\<lparr>mapParameterLiveInstance := insert_entry (identificationString (impl_data s)) drv (mapParameterLiveInstance M),
                   mapDriverUUIDHashLiveInstance := insert_entry (dr_uuid S drv) drv (mapDriverUUIDHashLiveInstance M)\<rparr>"
  shows "maps_ok S M' \<and> accessors_ok S M'"
proof
  from inv have ok: "maps_ok S M" "accessors_ok S M" by (auto simp: dm_inv_def)
  have none: "map_of (mapDriverUUIDHashLiveInstance M) (dr_uuid S drv) = None"
    using uuid_drv [OF ok(1), of "dr_uuid S drv"] out(1) inj by (cases "map_of (mapDriverUUIDHashLiveInstance M) (dr_uuid S drv)") (auto dest: injD)
  let ?k = "identificationString (impl_data s)"
  have P: "map_of (mapParameterLiveInstance M') k = (if k = ?k then Some drv else map_of (mapParameterLiveInstance M) k)" for k
    using out(2) by (simp add: M'_def map_of_insert_entry)
  have U: "map_of (mapDriverUUIDHashLiveInstance M') u = (if u = dr_uuid S drv then Some drv else map_of (mapDriverUUIDHashLiveInstance M) u)" for u
    using none by (simp add: M'_def map_of_insert_entry)
  have r: "driver_ready S M' = driver_ready S M" by (simp add: driver_ready_def fun_eq_iff M'_def)
  have l: "live_drivers M' = live_drivers M" "dm_env M' = dm_env M" "next_address M' = next_address M" by (simp_all add: M'_def)
  show "maps_ok S M'" unfolding maps_ok_def r
  proof (intro conjI allI impI)
    fix k e assume k: "map_of (mapParameterLiveInstance M') k = Some e"
    show "map_of (mapDriverUUIDHashLiveInstance M') (dr_uuid S e) = Some e"
      using k param_uuid [OF ok(1), of k e] none by (auto simp: P U split: if_splits)
    show "\<exists>t. live_drivers M' e = Some t \<and> identificationString (impl_data t) = k"
    proof (cases "k = ?k")
      case True then show ?thesis using k drv by (auto simp: P l)
    next
      case False
      then have e: "map_of (mapParameterLiveInstance M) k = Some e" using k by (simp add: P)
      show ?thesis using param_ident [OF ok(1) e] uuid_live_ex [OF ok(1) param_uuid [OF ok(1) e]] by (auto simp: l)
    qed
  next
    fix u e assume u: "map_of (mapDriverUUIDHashLiveInstance M') u = Some e"
    show "u = dr_uuid S e" using u uuid_drv [OF ok(1), of u e] by (auto simp: U split: if_splits)
    show "\<exists>t. live_drivers M' e = Some t \<and> driver_ready S M e t
        \<and> map_of (mapParameterLiveInstance M') (identificationString (impl_data t)) = Some e"
    proof (cases "u = dr_uuid S drv")
      case True then show ?thesis using u drv by (auto simp: U P l)
    next
      case False
      then have e: "map_of (mapDriverUUIDHashLiveInstance M) u = Some e" using u by (simp add: U)
      show ?thesis using uuid_live_ex [OF ok(1) e] out(2) by (auto simp: P l)
    qed
  qed
  show "accessors_ok S M'" unfolding accessors_ok_def l
  proof (intro allI impI)
    fix p a assume a: "env_accessors (dm_env M) p = Some a"
    show "p < next_address M \<and> driver_uuid a = dr_uuid S (command_queue a)
        \<and> map_of (mapDriverUUIDHashLiveInstance M') (driver_uuid a) = Some (command_queue a)
        \<and> (\<exists>s. live_drivers M (command_queue a) = Some s \<and> p \<in> set (accessors (impl_data s)))"
      using accessor_owner_ex [OF ok(2) a] none by (auto simp: U)
  qed
qed

lemma getNewAccessor_full:
  assumes "maps_ok S M" "accessors_ok S M" and u: "map_of (mapDriverUUIDHashLiveInstance M) u = Some drv"
    and below: "\<forall>e. live_drivers M e \<noteq> None \<longrightarrow> e < next_address M"
    and classes: "\<forall>n cl. map_of (mapDriverAliasVersionInstancer M) n = Some cl \<longrightarrow> keeps_head (fst cl)"
    and others: "\<forall>u e t. map_of (mapDriverUUIDHashLiveInstance M) u = Some e \<longrightarrow> live_drivers M e = Some t \<longrightarrow> e \<noteq> drv \<longrightarrow>
      accessors (impl_data t) \<noteq> []"
  shows "fst (getNewAccessor drv M) = Ret (next_address M)" and "dm_inv S (snd (getNewAccessor drv M))"
proof -
  obtain s where s: "live_drivers M drv = Some s" by (rule uuid_live [OF assms(1) u])
  then show "fst (getNewAccessor drv M) = Ret (next_address M)" by (simp add: getNewAccessor_def Let_def)
  have "in_use (snd (getNewAccessor drv M))" using s others by (auto simp: in_use_def getNewAccessor_def Let_def)
  with getNewAccessor_inv [OF assms(1-4)] s below classes show "dm_inv S (snd (getNewAccessor drv M))"
    unfolding dm_inv_def by (auto simp: getNewAccessor_def Let_def less_Suc_eq)
qed

text \<open>Every request is answered: an accessor, or the exception of the manager or of the driver.\<close>

lemma get_inv:
  assumes pe: "msm_backend (dr_pe S)" and inj: "inj (dr_uuid S)" and inv: "dm_inv S M"
  shows "fst (getNewAccessorForDriverInstance S r M) \<noteq> Fault \<and> dm_inv S (snd (getNewAccessorForDriverInstance S r M))"
proof (cases "map_of (mapParameterLiveInstance M) (identification r)")
  case (Some drv)
  from inv have ok: "maps_ok S M" "accessors_ok S M" by (auto simp: dm_inv_def)
  have rest: "\<forall>e. live_drivers M e \<noteq> None \<longrightarrow> e < next_address M"
      "\<forall>n cl. map_of (mapDriverAliasVersionInstancer M) n = Some cl \<longrightarrow> keeps_head (fst cl)"
      "\<forall>u e t. map_of (mapDriverUUIDHashLiveInstance M) u = Some e \<longrightarrow> live_drivers M e = Some t \<longrightarrow> e \<noteq> drv \<longrightarrow>
        accessors (impl_data t) \<noteq> []"
    using inv by (auto simp: dm_inv_def in_use_def)
  note full = getNewAccessor_full [OF ok param_uuid [OF ok(1) Some] rest]
  show ?thesis using Some full by (simp add: getNewAccessorForDriverInstance_def)
next
  case none: None
  show ?thesis
  proof (cases "map_of (mapDriverAliasVersionInstancer M) (drv_alias r @ drv_version r)")
    case None
    then show ?thesis using none inv by (simp add: getNewAccessorForDriverInstance_def)
  next
    case (Some cl)
    obtain drv M1 where c: "create_driver S cl (identification r) M = (drv, M1)" by (cases "create_driver S cl (identification r) M")
    note run = create_then_init [OF pe c]
    have drv: "drv = next_address M" by (rule run)
    have head: "keeps_head (fst cl)" using inv Some unfolding dm_inv_def by blast
    obtain h e where i: "driverInit (fst cl) (init_parameter r) (snd cl) = (h, e)" by fastforce
    show ?thesis
    proof (cases e)
      case None
      let ?s = "fresh_service S (fst cl) h (identification r) drv"
      let ?M2 = "M\<lparr>next_address := Suc drv, live_drivers := (live_drivers M)(drv \<mapsto> ?s)\<rparr>"
      let ?M3 = "?M2\<lparr>mapParameterLiveInstance := insert_entry (identification r) drv (mapParameterLiveInstance M),
          mapDriverUUIDHashLiveInstance := insert_entry (dr_uuid S drv) drv (mapDriverUUIDHashLiveInstance M)\<rparr>"
      have inv2: "dm_inv S ?M2" by (rule add_unmapped [OF inv drv])
      have id: "identificationString (impl_data ?s) = identification r" by (simp add: fresh_service_def)
      have ready: "driver_ready S ?M2 drv ?s"
        using head by (simp add: driver_ready_def fresh_service_def new_AbstractDriver_def)
      have out: "\<forall>u. map_of (mapDriverUUIDHashLiveInstance ?M2) u \<noteq> Some drv"
        using uuid_live_ex [of S M _ drv] inv drv by (auto simp: dm_inv_def)
      have ok: "maps_ok S ?M3" "accessors_ok S ?M3"
        using enter_maps [OF inv2 _ ready out _ inj] none by (simp_all add: id)
      have u: "map_of (mapDriverUUIDHashLiveInstance ?M3) (dr_uuid S drv) = Some drv"
        using param_uuid [OF ok(1), of "identification r" drv] none by (simp add: map_of_insert_entry)
      have rest: "\<forall>e. live_drivers ?M3 e \<noteq> None \<longrightarrow> e < next_address ?M3"
          "\<forall>n cl. map_of (mapDriverAliasVersionInstancer ?M3) n = Some cl \<longrightarrow> keeps_head (fst cl)"
        using inv2 by (simp_all add: dm_inv_def)
      have used: "\<forall>u e t. map_of (mapDriverUUIDHashLiveInstance ?M3) u = Some e \<longrightarrow> live_drivers ?M3 e = Some t \<longrightarrow> e \<noteq> drv \<longrightarrow>
          accessors (impl_data t) \<noteq> []"
        using inv2 by (auto simp: dm_inv_def in_use_def map_of_insert_entry split: if_splits)
      note full = getNewAccessor_full [OF ok u rest used]
      show ?thesis using none Some c run(2) [OF i [unfolded None]] full
        by (simp add: getNewAccessorForDriverInstance_def)
    next
      case (Some ex)
      obtain s where "init_driver S (init_parameter r) drv M1 = (Throw ex, M\<lparr>next_address := Suc drv, live_drivers := (live_drivers M)(drv \<mapsto> s)\<rparr>)"
        using run(3) [OF i [unfolded Some]] by blast
      then show ?thesis using none \<open>map_of _ _ = Some cl\<close> c add_unmapped [OF inv drv]
        by (simp add: getNewAccessorForDriverInstance_def)
    qed
  qed
qed

section \<open>Messages\<close>

text \<open>
  Sending, executing and answering change what is in the queues, the hardware and the messages; what the
  manager decides by stays.
\<close>

definition acc_like :: "(nat \<Rightarrow> driver_accessor option) \<Rightarrow> (nat \<Rightarrow> driver_accessor option) \<Rightarrow> bool" where
  "acc_like A A' \<longleftrightarrow> (\<forall>p. map_option (\<lambda>a. (command_queue a, driver_uuid a)) (A' p) = map_option (\<lambda>a. (command_queue a, driver_uuid a)) (A p))"

definition msg_like :: "(nat \<Rightarrow> drv_msg option) \<Rightarrow> (nat \<Rightarrow> drv_msg option) \<Rightarrow> bool" where
  "msg_like B B' \<longleftrightarrow> (\<forall>c. map_option opcode (B' c) = map_option opcode (B c))"

definition env_like :: "drv_env \<Rightarrow> drv_env \<Rightarrow> bool" where
  "env_like env env' \<longleftrightarrow> acc_like (env_accessors env) (env_accessors env') \<and> msg_like (env_messages env) (env_messages env')"

definition driver_like :: "'h abstract_driver service \<Rightarrow> 'h abstract_driver service \<Rightarrow> bool" where
  "driver_like s s' \<longleftrightarrow> base_fsm s' = base_fsm s \<and> driverUUID (impl_data s') = driverUUID (impl_data s)
     \<and> identificationString (impl_data s') = identificationString (impl_data s) \<and> accessors (impl_data s') = accessors (impl_data s)
     \<and> drv_class (impl_data s') = drv_class (impl_data s) \<and> thread_runs (impl_data s') = thread_runs (impl_data s)
     \<and> driverNeedtoDeinitialize (impl_data s') = driverNeedtoDeinitialize (impl_data s)"

definition manager_like :: "'h driver_manager \<Rightarrow> 'h driver_manager \<Rightarrow> bool" where
  "manager_like M M' \<longleftrightarrow> mapParameterLiveInstance M' = mapParameterLiveInstance M
     \<and> mapDriverUUIDHashLiveInstance M' = mapDriverUUIDHashLiveInstance M
     \<and> mapDriverAliasVersionInstancer M' = mapDriverAliasVersionInstancer M \<and> next_address M' = next_address M
     \<and> (\<forall>drv. rel_option driver_like (live_drivers M drv) (live_drivers M' drv))
     \<and> acc_like (env_accessors (dm_env M)) (env_accessors (dm_env M'))"

lemma env_like_refl [simp]: "env_like env env" "acc_like A A" "msg_like B B" "driver_like s s"
  by (simp_all add: env_like_def acc_like_def msg_like_def driver_like_def)

lemma rel_option_driver_like [simp]: "rel_option driver_like x x"
  by (cases x) simp_all

lemma env_like_trans: "env_like e1 e2 \<Longrightarrow> env_like e2 e3 \<Longrightarrow> env_like e1 e3"
  by (simp add: env_like_def acc_like_def msg_like_def)

lemma acc_likeD:
  assumes "acc_like A A'"
  shows "A' p = Some a' \<Longrightarrow> \<exists>a. A p = Some a \<and> command_queue a' = command_queue a \<and> driver_uuid a' = driver_uuid a"
    and "A p = Some a \<Longrightarrow> \<exists>a'. A' p = Some a' \<and> command_queue a' = command_queue a \<and> driver_uuid a' = driver_uuid a"
  using assms [unfolded acc_like_def, rule_format, of p] by (cases "A p"; cases "A' p"; simp)+

lemma push_response_like: "env_like env (push_response mq i env)"
  by (cases mq) (auto simp: push_response_def env_like_def acc_like_def msg_like_def split: option.split)

lemma respond_like: "env_like env (respond r m env)"
  by (simp add: respond_def push_response_like split: option.split)

lemma message_like: "env_messages env c = Some m \<Longrightarrow> opcode m' = opcode m \<Longrightarrow> env_like env (env\<lparr>env_messages := (env_messages env)(c \<mapsto> m')\<rparr>)"
  by (simp add: env_like_def msg_like_def)

lemma like_ready:
  assumes "driver_ready S M drv s" and "driver_like s s'" and "acc_like (env_accessors (dm_env M)) (env_accessors (dm_env M'))"
  shows "driver_ready S M' drv s'"
  using assms(1,2) acc_likeD(2) [OF assms(3)] unfolding driver_ready_def driver_like_def by metis

lemma like_driver:
  assumes "manager_like M M'"
  shows "live_drivers M drv = Some s \<Longrightarrow> \<exists>s'. live_drivers M' drv = Some s' \<and> driver_like s s'"
    and "live_drivers M' drv = Some s' \<Longrightarrow> \<exists>s. live_drivers M drv = Some s \<and> driver_like s s'"
  using assms unfolding manager_like_def by (metis option_rel_Some1 option_rel_Some2)+

lemma like_inv:
  assumes l: "manager_like M M'" and inv: "dm_inv S M"
  shows "dm_inv S M'"
proof -
  have eq: "mapParameterLiveInstance M' = mapParameterLiveInstance M" "mapDriverUUIDHashLiveInstance M' = mapDriverUUIDHashLiveInstance M"
      "mapDriverAliasVersionInstancer M' = mapDriverAliasVersionInstancer M" "next_address M' = next_address M"
    and acc: "acc_like (env_accessors (dm_env M)) (env_accessors (dm_env M'))" using l by (simp_all add: manager_like_def)
  from inv have ok: "maps_ok S M" "accessors_ok S M" "in_use M" by (simp_all add: dm_inv_def)
  have same: "driver_like s s' \<Longrightarrow> identificationString (impl_data s') = identificationString (impl_data s)
      \<and> accessors (impl_data s') = accessors (impl_data s)" for s s' :: "'a abstract_driver service" by (simp add: driver_like_def)
  have "maps_ok S M'" unfolding maps_ok_def eq
  proof (intro conjI allI impI)
    fix k e assume e: "map_of (mapParameterLiveInstance M) k = Some e"
    from param_uuid [OF ok(1) e] show u: "map_of (mapDriverUUIDHashLiveInstance M) (dr_uuid S e) = Some e" .
    obtain t where t: "live_drivers M e = Some t" by (rule uuid_live [OF ok(1) u])
    then show "\<exists>s. live_drivers M' e = Some s \<and> identificationString (impl_data s) = k"
      using param_ident [OF ok(1) e t] like_driver(1) [OF l t] same by metis
  next
    fix u e assume e: "map_of (mapDriverUUIDHashLiveInstance M) u = Some e"
    show "u = dr_uuid S e" by (rule uuid_drv [OF ok(1) e])
    obtain t where t: "live_drivers M e = Some t" "driver_ready S M e t"
        "map_of (mapParameterLiveInstance M) (identificationString (impl_data t)) = Some e"
      by (rule uuid_live [OF ok(1) e])
    then show "\<exists>s. live_drivers M' e = Some s \<and> driver_ready S M' e s
        \<and> map_of (mapParameterLiveInstance M) (identificationString (impl_data s)) = Some e"
      using like_driver(1) [OF l t(1)] like_ready [OF t(2) _ acc] same by metis
  qed
  moreover have "accessors_ok S M'" unfolding accessors_ok_def eq
  proof (intro allI impI)
    fix p a' assume "env_accessors (dm_env M') p = Some a'"
    then obtain a where a: "env_accessors (dm_env M) p = Some a" "command_queue a' = command_queue a" "driver_uuid a' = driver_uuid a"
      using acc_likeD(1) [OF acc] by blast
    obtain t where t: "live_drivers M (command_queue a) = Some t" "p \<in> set (accessors (impl_data t))" by (rule accessor_owner [OF ok(2) a(1)])
    show "p < next_address M \<and> driver_uuid a' = dr_uuid S (command_queue a')
        \<and> map_of (mapDriverUUIDHashLiveInstance M) (driver_uuid a') = Some (command_queue a')
        \<and> (\<exists>s. live_drivers M' (command_queue a') = Some s \<and> p \<in> set (accessors (impl_data s)))"
      using accessor_owner_ex [OF ok(2) a(1)] like_driver(1) [OF l t(1)] t(2) same unfolding a(2,3) by metis
  qed
  moreover have "in_use M'" unfolding in_use_def eq
    using ok(3) like_driver(2) [OF l] same unfolding in_use_def by metis
  moreover have "\<forall>drv. live_drivers M' drv \<noteq> None \<longrightarrow> drv < next_address M'"
    using inv like_driver(2) [OF l] eq(4) unfolding dm_inv_def by (metis not_Some_eq)
  ultimately show ?thesis using inv eq(3) unfolding dm_inv_def by simp
qed

text \<open>Pending commands are live messages, and no client sends the opcode that ends the thread.\<close>

definition live_message :: "drv_env \<Rightarrow> nat option prio_elem \<Rightarrow> bool" where
  "live_message env x \<longleftrightarrow> (\<exists>c. element x = Some c \<and> env_messages env c \<noteq> None)"

definition queues_ok :: "'h driver_manager \<Rightarrow> bool" where
  "queues_ok M \<longleftrightarrow> (\<forall>drv s. live_drivers M drv = Some s \<longrightarrow> (\<forall>x \<in> set (commandQueue (impl_data s)). live_message (dm_env M) x))
     \<and> (\<forall>c m. env_messages (dm_env M) c = Some m \<longrightarrow> opcode m \<noteq> OP_DEINIT)"

lemma msg_like_live: "msg_like (env_messages env) (env_messages env') \<Longrightarrow> live_message env x \<Longrightarrow> live_message env' x"
  unfolding live_message_def msg_like_def by (metis option.map_disc_iff)

lemma queues_ok_frame:
  assumes ok: "queues_ok M" and msg: "msg_like (env_messages (dm_env M)) (env_messages (dm_env M'))"
    and live: "\<And>drv s' x. live_drivers M' drv = Some s' \<Longrightarrow> x \<in> set (commandQueue (impl_data s')) \<Longrightarrow>
      live_message (dm_env M') x \<or> (\<exists>s. live_drivers M drv = Some s \<and> x \<in> set (commandQueue (impl_data s)))"
  shows "queues_ok M'"
proof -
  have "live_message (dm_env M') x" if "live_drivers M' drv = Some s'" "x \<in> set (commandQueue (impl_data s'))" for drv s' x
    using live [OF that] ok msg_like_live [OF msg] unfolding queues_ok_def by blast
  moreover have "opcode m \<noteq> OP_DEINIT" if m: "env_messages (dm_env M') c = Some m" for c m
  proof -
    have "map_option opcode (env_messages (dm_env M) c) = Some (opcode m)"
      using msg [unfolded msg_like_def, rule_format, of c] m by simp
    then show ?thesis using ok by (auto simp: queues_ok_def)
  qed
  ultimately show ?thesis unfolding queues_ok_def by blast
qed

text \<open>A message executed by a driver that keeps the header.\<close>

lemma exec_message_like:
  assumes "keeps_head (drv_class d)" and "case p of None \<Rightarrow> True | Some c \<Rightarrow> env_messages env c = Some m"
    and "exec_message p m d env = (d', env')"
  shows "env_like env env'" and "thread_runs d' \<longleftrightarrow> opcode m \<noteq> OP_DEINIT \<and> \<not> driverNeedtoDeinitialize d"
    and "\<exists>h b. d' = d\<lparr>hardware := h, thread_runs := b\<rparr>"
    and "p = None \<Longrightarrow> drvResponseMQ m = None \<Longrightarrow> env' = env"
proof -
  obtain r m' h where x: "execOpcode (drv_class d) m (hardware d) = (r, m', h)" by (metis prod_cases3)
  have m': "opcode m' = opcode m" "drvResponseMQ m' = drvResponseMQ m" using keeps_headD [OF assms(1) x] by auto
  let ?env = "case p of None \<Rightarrow> env | Some c \<Rightarrow> env\<lparr>env_messages := (env_messages env)(c \<mapsto> m')\<rparr>"
  have e: "env' = respond r m' ?env" "d' = d\<lparr>hardware := h, thread_runs := loops_again m' (d\<lparr>hardware := h\<rparr>)\<rparr>"
    using assms(3) x by (auto simp: exec_message_def Let_def)
  have "env_like env ?env" using assms(2) m'(1) by (cases p) (auto intro: message_like)
  then show "env_like env env'" unfolding e by (rule env_like_trans [OF _ respond_like])
  show "thread_runs d' \<longleftrightarrow> opcode m \<noteq> OP_DEINIT \<and> \<not> driverNeedtoDeinitialize d" by (simp add: e loops_again_def m'(1))
  show "\<exists>h b. d' = d\<lparr>hardware := h, thread_runs := b\<rparr>" using e(2) by blast
  show "p = None \<Longrightarrow> drvResponseMQ m = None \<Longrightarrow> env' = env" using m'(2) by (simp add: e respond_def)
qed

lemma scan_message_run:
  assumes head: "keeps_head (drv_class d)" and top: "heap_top htop" and ne: "commandQueue d \<noteq> []"
    and live: "\<forall>x \<in> set (commandQueue d). element x = None \<or> live_message env x"
    and ops: "\<forall>c m. env_messages env c = Some m \<longrightarrow> opcode m \<noteq> OP_DEINIT"
  obtains h b env' where "scan_message htop d env = Some (d\<lparr>commandQueue := remove1 (htop (commandQueue d)) (commandQueue d), hardware := h, thread_runs := b\<rparr>, env')"
    and "env_like env env'" and "b \<longleftrightarrow> element (htop (commandQueue d)) \<noteq> None \<and> \<not> driverNeedtoDeinitialize d"
    and "element (htop (commandQueue d)) = None \<Longrightarrow> env' = env"
proof -
  let ?x = "htop (commandQueue d)" and ?d = "d\<lparr>commandQueue := remove1 (htop (commandQueue d)) (commandQueue d)\<rparr>"
  have "?x \<in> set (commandQueue d)" by (rule heap_top.htop_in [OF top ne])
  then have cases: "element ?x = None \<or> (\<exists>c m. element ?x = Some c \<and> env_messages env c = Some m)"
    using live unfolding live_message_def by fastforce
  define m where "m = (case element ?x of None \<Rightarrow> deinitMsg | Some c \<Rightarrow> the (env_messages env c))"
  obtain d' env' where e: "exec_message (element ?x) m ?d env = (d', env')" by fastforce
  have scan: "scan_message htop d env = Some (d', env')"
    using ne cases e by (auto simp: scan_message_def tcq_wait_and_pop_def m_def)
  have pm: "case element ?x of None \<Rightarrow> True | Some c \<Rightarrow> env_messages env c = Some m" using cases by (auto simp: m_def)
  have hd: "keeps_head (drv_class ?d)" using head by simp
  note ex = exec_message_like [OF hd pm e]
  obtain h b where d': "d' = ?d\<lparr>hardware := h, thread_runs := b\<rparr>" using ex(3) by blast
  have "opcode m \<noteq> OP_DEINIT \<longleftrightarrow> element ?x \<noteq> None" using cases ops by (auto simp: m_def deinitMsg_def)
  then have b: "b \<longleftrightarrow> element ?x \<noteq> None \<and> \<not> driverNeedtoDeinitialize d" using ex(2) by (simp add: d')
  have "element ?x = None \<Longrightarrow> env' = env" using ex(4) by (simp add: m_def deinitMsg_def)
  then show thesis using that [of b h env'] scan d' ex(1) b by simp
qed

section \<open>Releasing an accessor\<close>

lemma deinit_driver_run:
  assumes pe: "msm_backend (dr_pe S)" and s: "live_drivers M drv = Some s" "base_fsm s = Initialized"
    and d: "thread_runs (impl_data s)" "keeps_head (drv_class (impl_data s))"
      "driverDeinit (drv_class (impl_data s)) (hardware (impl_data s)) = (h, None)"
    and q: "queues_ok M" and top: "heap_top (dr_htop S)"
  shows "\<exists>d' env'. deinit_driver S busy drv M =
      (Ret True, M\<lparr>live_drivers := (live_drivers M)(drv \<mapsto> \<lparr>base_fsm = Deinitilized, ss_fsm = ss_fsm s, serviceState = dr_sid S Deinitilized, impl_data = d'\<rparr>), dm_env := env'\<rparr>)
    \<and> \<not> thread_runs d' \<and> identificationString d' = identificationString (impl_data s) \<and> driverUUID d' = driverUUID (impl_data s)
    \<and> env_like (dm_env M) env' \<and> (commandQueue (impl_data s) = [] \<longrightarrow> env' = dm_env M)"
proof -
  let ?d = "(impl_data s)\<lparr>driverNeedtoDeinitialize := True, hardware := h, commandQueue := tcq_push None 50 (commandQueue (impl_data s))\<rparr>"
  have "\<exists>d' env'. join_thread (dr_htop S) busy ?d (dm_env M) = (d', env') \<and> \<not> thread_runs d'
      \<and> identificationString d' = identificationString (impl_data s) \<and> driverUUID d' = driverUUID (impl_data s)
      \<and> env_like (dm_env M) env' \<and> (commandQueue (impl_data s) = [] \<longrightarrow> env' = dm_env M)"
  proof (cases busy)
    case True
    then show ?thesis using d(1) by (simp add: join_thread_def)
  next
    case False
    have live: "\<forall>x \<in> set (commandQueue ?d). element x = None \<or> live_message (dm_env M) x"
      using q s(1) by (auto simp: queues_ok_def tcq_push_def)
    have ops: "\<forall>c m. env_messages (dm_env M) c = Some m \<longrightarrow> opcode m \<noteq> OP_DEINIT" using q by (simp add: queues_ok_def)
    obtain h' b env' where scan: "scan_message (dr_htop S) ?d (dm_env M)
        = Some (?d\<lparr>commandQueue := remove1 (dr_htop S (commandQueue ?d)) (commandQueue ?d), hardware := h', thread_runs := b\<rparr>, env')"
      and e: "env_like (dm_env M) env'" "b \<longleftrightarrow> element (dr_htop S (commandQueue ?d)) \<noteq> None \<and> \<not> driverNeedtoDeinitialize ?d"
        "element (dr_htop S (commandQueue ?d)) = None \<Longrightarrow> env' = dm_env M"
      by (rule scan_message_run [OF _ top _ live ops]) (use d(2) in \<open>simp_all add: tcq_push_def\<close>)
    have "dr_htop S [x] = x" for x using heap_top.htop_in [OF top, of "[x]"] by simp
    then have "commandQueue (impl_data s) = [] \<longrightarrow> env' = dm_env M" using e(3) by (auto simp: tcq_push_def)
    then show ?thesis using False d(1) scan e by (simp add: join_thread_def)
  qed
  then obtain d' env' where "join_thread (dr_htop S) busy ?d (dm_env M) = (d', env')" "\<not> thread_runs d'"
      "identificationString d' = identificationString (impl_data s)" "driverUUID d' = driverUUID (impl_data s)"
      "env_like (dm_env M) env'" "commandQueue (impl_data s) = [] \<longrightarrow> env' = dm_env M" by blast
  then show ?thesis
    using s d(3)
    by (intro exI [of _ d'] exI [of _ env'])
       (simp add: deinit_driver_def service_call_def IS_deinitImplementation_def enter_service_def leave_service_def
        msm_backend.id_rows [OF pe] driver_hooks_def AbstractDriver_deinit_def)
qed

text \<open>
  A driver whose \<open>driverDeinit\<close> throws is deleted although its thread still waits on its queue: \<open>deinit\<close>
  leaves before it sends the last message.
\<close>

lemma failed_deinit_leaves_thread:
  assumes pe: "msm_backend (dr_pe S)" and s: "live_drivers M drv = Some s" "base_fsm s = Initialized" "thread_runs (impl_data s)"
    and throws: "driverDeinit (drv_class (impl_data s)) (hardware (impl_data s)) = (h, Some ex)"
  shows "fst (retire_driver S busy drv M) = Fault"
  using s throws
  by (simp add: retire_driver_def delete_driver_def deinit_driver_def service_call_def IS_deinitImplementation_def
      enter_service_def leave_service_def msm_backend.id_rows [OF pe] driver_hooks_def AbstractDriver_deinit_def)

text \<open>What the release of an accessor leaves to its driver.\<close>

lemma driver_release_run:
  assumes ok: "maps_ok S M" "accessors_ok S M" and a: "env_accessors (dm_env M) p = Some a"
  obtains s where "live_drivers M (command_queue a) = Some s" and "driver_ready S M (command_queue a) s"
    and "map_of (mapDriverUUIDHashLiveInstance M) (driver_uuid a) = Some (command_queue a)"
    and "map_of (mapParameterLiveInstance M) (identificationString (impl_data s)) = Some (command_queue a)"
    and "driver_releaseAccessor (command_queue a) p M =
      (Ret True, M\<lparr>live_drivers := (live_drivers M)(command_queue a \<mapsto> s\<lparr>impl_data := (impl_data s)\<lparr>accessors := remove1 p (accessors (impl_data s))\<rparr>\<rparr>),
                   dm_env := (dm_env M)\<lparr>env_accessors := (env_accessors (dm_env M))(p := None)\<rparr>\<rparr>)"
proof -
  obtain s where s: "driver_uuid a = dr_uuid S (command_queue a)"
      "map_of (mapDriverUUIDHashLiveInstance M) (driver_uuid a) = Some (command_queue a)"
      "live_drivers M (command_queue a) = Some s" "p \<in> set (accessors (impl_data s))"
    by (rule accessor_owner [OF ok(2) a])
  have r: "driver_ready S M (command_queue a) s"
      "map_of (mapParameterLiveInstance M) (identificationString (impl_data s)) = Some (command_queue a)"
    using uuid_live_ex [OF ok(1) s(2)] s(3) by auto
  show thesis by (rule that [OF s(3) r(1) s(2) r(2)]) (use s a r in \<open>simp add: driver_releaseAccessor_def Let_def driver_ready_def\<close>)
qed

text \<open>An accessor is in the list of its own driver only.\<close>

lemma ready_without:
  assumes r: "driver_ready S M e t" and other: "\<forall>a. env_accessors (dm_env M) p = Some a \<longrightarrow> command_queue a \<noteq> e"
    and M': "env_accessors (dm_env M') = (env_accessors (dm_env M))(p := None)"
  shows "driver_ready S M' e t"
proof -
  have "p \<notin> set (accessors (impl_data t))" using r other unfolding driver_ready_def by blast
  then show ?thesis using r unfolding driver_ready_def M' by auto
qed

lemma accessors_ok_without:
  assumes ok: "accessors_ok S M" and p: "env_accessors (dm_env M) p = Some b"
    and M': "env_accessors (dm_env M') = (env_accessors (dm_env M))(p := None)" "next_address M' = next_address M"
    and keep: "\<And>q a. q \<noteq> p \<Longrightarrow> env_accessors (dm_env M) q = Some a \<Longrightarrow>
      map_of (mapDriverUUIDHashLiveInstance M') (driver_uuid a) = map_of (mapDriverUUIDHashLiveInstance M) (driver_uuid a)
      \<and> (\<forall>s. live_drivers M (command_queue a) = Some s \<longrightarrow> q \<in> set (accessors (impl_data s)) \<longrightarrow>
           (\<exists>s'. live_drivers M' (command_queue a) = Some s' \<and> q \<in> set (accessors (impl_data s'))))"
  shows "accessors_ok S M'"
  unfolding accessors_ok_def
proof (intro allI impI)
  fix q a assume "env_accessors (dm_env M') q = Some a"
  then have q: "q \<noteq> p" "env_accessors (dm_env M) q = Some a" by (auto simp: M' split: if_splits)
  from accessor_owner_ex [OF ok q(2)] keep [OF q]
  show "q < next_address M' \<and> driver_uuid a = dr_uuid S (command_queue a)
      \<and> map_of (mapDriverUUIDHashLiveInstance M') (driver_uuid a) = Some (command_queue a)
      \<and> (\<exists>s. live_drivers M' (command_queue a) = Some s \<and> q \<in> set (accessors (impl_data s)))"
    by (auto simp: M')
qed

lemma forget_driver:
  assumes inv: "dm_inv S M" and p: "env_accessors (dm_env M) p = Some b" and drv: "drv = command_queue b"
    and s: "live_drivers M drv = Some s" "driver_ready S M drv s" "remove1 p (accessors (impl_data s)) = []"
      "map_of (mapParameterLiveInstance M) (identificationString (impl_data s)) = Some drv"
    and M': "env_accessors (dm_env M') = (env_accessors (dm_env M))(p := None)" "next_address M' = next_address M"
      "live_drivers M' = (live_drivers M)(drv := None)"
      "mapParameterLiveInstance M' = erase_entry (identificationString (impl_data s)) (mapParameterLiveInstance M)"
      "mapDriverUUIDHashLiveInstance M' = erase_entry (dr_uuid S drv) (mapDriverUUIDHashLiveInstance M)"
      "mapDriverAliasVersionInstancer M' = mapDriverAliasVersionInstancer M"
  shows "dm_inv S M'"
proof -
  from inv have ok: "maps_ok S M" "accessors_ok S M" by (auto simp: dm_inv_def)
  let ?k = "identificationString (impl_data s)"
  have other: "e \<noteq> drv" if "map_of (mapDriverUUIDHashLiveInstance M') u = Some e" for u e
    using uuid_drv [OF ok(1), of u e] that by (auto simp: M' map_of_erase_entry split: if_splits)
  have "maps_ok S M'" unfolding maps_ok_def
  proof (intro conjI allI impI)
    fix k e assume "map_of (mapParameterLiveInstance M') k = Some e"
    then have k: "map_of (mapParameterLiveInstance M) k = Some e" "k \<noteq> ?k"
      by (auto simp: M' map_of_erase_entry split: if_splits)
    have u: "map_of (mapDriverUUIDHashLiveInstance M) (dr_uuid S e) = Some e" by (rule param_uuid [OF ok(1) k(1)])
    have ne: "e \<noteq> drv" using param_ident [OF ok(1) k(1)] s(1) k(2) by auto
    have "dr_uuid S e \<noteq> dr_uuid S drv"
      using u ne param_uuid [OF ok(1) s(4)] by auto
    then show "map_of (mapDriverUUIDHashLiveInstance M') (dr_uuid S e) = Some e"
      using u by (simp add: M' map_of_erase_entry)
    show "\<exists>t. live_drivers M' e = Some t \<and> identificationString (impl_data t) = k"
      using uuid_live_ex [OF ok(1) u] param_ident [OF ok(1) k(1)] ne by (auto simp: M')
  next
    fix u e assume u: "map_of (mapDriverUUIDHashLiveInstance M') u = Some e"
    then have v: "map_of (mapDriverUUIDHashLiveInstance M) u = Some e" by (auto simp: M' map_of_erase_entry split: if_splits)
    show "u = dr_uuid S e" by (rule uuid_drv [OF ok(1) v])
    obtain t where t: "live_drivers M e = Some t" "driver_ready S M e t"
        "map_of (mapParameterLiveInstance M) (identificationString (impl_data t)) = Some e"
      by (rule uuid_live [OF ok(1) v])
    have ne: "e \<noteq> drv" by (rule other [OF u])
    then have "identificationString (impl_data t) \<noteq> ?k" using t(3) s(4) by auto
    moreover have "driver_ready S M' e t" using ready_without [OF t(2) _ M'(1)] p drv ne by auto
    ultimately show "\<exists>t. live_drivers M' e = Some t \<and> driver_ready S M' e t
        \<and> map_of (mapParameterLiveInstance M') (identificationString (impl_data t)) = Some e"
      using t ne by (auto simp: M' map_of_erase_entry)
  qed
  moreover have "accessors_ok S M'"
  proof (rule accessors_ok_without [OF ok(2) p M'(1,2)])
    fix q a assume q: "q \<noteq> p" "env_accessors (dm_env M) q = Some a"
    obtain t where t: "driver_uuid a = dr_uuid S (command_queue a)"
        "map_of (mapDriverUUIDHashLiveInstance M) (driver_uuid a) = Some (command_queue a)"
        "live_drivers M (command_queue a) = Some t" "q \<in> set (accessors (impl_data t))"
      by (rule accessor_owner [OF ok(2) q(2)])
    have "q \<notin> set (accessors (impl_data s))" using s(3) q(1) by (metis in_set_remove1 list.set_cases list.distinct(1))
    then have ne: "command_queue a \<noteq> drv" using t s(1) by auto
    then have "driver_uuid a \<noteq> dr_uuid S drv" using t(2) param_uuid [OF ok(1) s(4)] by auto
    then show "map_of (mapDriverUUIDHashLiveInstance M') (driver_uuid a) = map_of (mapDriverUUIDHashLiveInstance M) (driver_uuid a)
      \<and> (\<forall>s. live_drivers M (command_queue a) = Some s \<longrightarrow> q \<in> set (accessors (impl_data s)) \<longrightarrow>
           (\<exists>s'. live_drivers M' (command_queue a) = Some s' \<and> q \<in> set (accessors (impl_data s'))))"
      using ne by (simp add: M' map_of_erase_entry)
  qed
  moreover have "in_use M'" unfolding in_use_def
  proof (intro allI impI)
    fix u e t assume u: "map_of (mapDriverUUIDHashLiveInstance M') u = Some e" and t: "live_drivers M' e = Some t"
    have "live_drivers M e = Some t" using t other [OF u] by (simp add: M')
    moreover have "map_of (mapDriverUUIDHashLiveInstance M) u = Some e" using u by (auto simp: M' map_of_erase_entry split: if_splits)
    ultimately show "accessors (impl_data t) \<noteq> []" using inv unfolding dm_inv_def in_use_def by blast
  qed
  moreover have "\<forall>e. live_drivers M' e \<noteq> None \<longrightarrow> e < next_address M'" using inv by (simp add: dm_inv_def M')
  ultimately show ?thesis using inv unfolding dm_inv_def M'(6) by blast
qed

lemma retire_run:
  assumes "deinit_driver S busy drv M = (Ret True, M\<lparr>live_drivers := (live_drivers M)(drv \<mapsto> t), dm_env := env\<rparr>)" and "\<not> thread_runs (impl_data t)"
  shows "retire_driver S busy drv M = (Ret (), M\<lparr>live_drivers := (live_drivers M)(drv := None), dm_env := env,
      mapParameterLiveInstance := erase_entry (identificationString (impl_data t)) (mapParameterLiveInstance M),
      mapDriverUUIDHashLiveInstance := erase_entry (driverUUID (impl_data t)) (mapDriverUUIDHashLiveInstance M)\<rparr>)"
  using assms by (simp add: retire_driver_def delete_driver_def)

text \<open>
  The three ways a release of a held accessor goes: others still use the driver; the driver is retired; its
  \<open>driverDeinit\<close> throws.
\<close>

lemma release_shared:
  assumes inv: "dm_inv S M" and q: "queues_ok M" and a: "env_accessors (dm_env M) p = Some a"
    and s: "live_drivers M (command_queue a) = Some s" "accessors (impl_data s) \<noteq> [p]"
  shows "\<exists>M' s'. releaseAccessor S busy p M = (Ret (), M') \<and> dm_inv S M' \<and> queues_ok M'
    \<and> dm_env M' = (dm_env M)\<lparr>env_accessors := (env_accessors (dm_env M))(p := None)\<rparr> \<and> live_drivers M' (command_queue a) = Some s'
    \<and> thread_runs (impl_data s')"
proof -
  from inv have ok: "maps_ok S M" "accessors_ok S M" by (auto simp: dm_inv_def)
  let ?drv = "command_queue a"
  let ?s = "s\<lparr>impl_data := (impl_data s)\<lparr>accessors := remove1 p (accessors (impl_data s))\<rparr>\<rparr>"
  let ?M = "M\<lparr>live_drivers := (live_drivers M)(?drv \<mapsto> ?s),
              dm_env := (dm_env M)\<lparr>env_accessors := (env_accessors (dm_env M))(p := None)\<rparr>\<rparr>"
  have run: "driver_ready S M ?drv s" "map_of (mapDriverUUIDHashLiveInstance M) (driver_uuid a) = Some ?drv"
      "driver_releaseAccessor ?drv p M = (Ret True, ?M)"
    by (rule driver_release_run [OF ok a], use s(1) in simp)+
  have held: "p \<in> set (accessors (impl_data s))" using accessor_owner_ex [OF ok(2) a] s(1) by auto
  then have ne: "remove1 p (accessors (impl_data s)) \<noteq> []" using s(2) by (cases "accessors (impl_data s)") (auto split: if_splits)
  have r: "driver_ready S ?M ?drv ?s" using run(1) by (auto simp: driver_ready_def dest: set_remove1_subset [THEN subsetD])
  have "maps_ok S ?M"
  proof (rule maps_ok_frame [OF ok(1) _ _ _ s(1) _ r])
    fix e t assume "e \<noteq> ?drv" "driver_ready S M e t"
    then show "driver_ready S ?M e t" using ready_without [of S M e t p ?M] a by simp
  qed simp_all
  moreover have "accessors_ok S ?M"
    by (rule accessors_ok_without [OF ok(2) a]) (use s(1) in \<open>auto simp: in_set_remove1\<close>)
  moreover have "in_use ?M" using inv ne by (auto simp: dm_inv_def in_use_def)
  moreover have "?drv < next_address M" using inv s(1) by (auto simp: dm_inv_def)
  ultimately have "dm_inv S ?M" using inv by (simp add: dm_inv_def)
  moreover have "queues_ok ?M" by (rule queues_ok_frame [OF q]) (use s(1) in \<open>auto split: if_splits\<close>)
  moreover have "thread_runs (impl_data ?s)" using run(1) by (simp add: driver_ready_def)
  ultimately show ?thesis using a run(2,3) ne by (intro exI [of _ ?M] exI [of _ ?s]) (simp add: releaseAccessor_def)
qed

lemma release_last:
  assumes pe: "msm_backend (dr_pe S)" and top: "heap_top (dr_htop S)" and inv: "dm_inv S M" and q: "queues_ok M"
    and a: "env_accessors (dm_env M) p = Some a" and s: "live_drivers M (command_queue a) = Some s" "accessors (impl_data s) = [p]"
  shows "driverDeinit (drv_class (impl_data s)) (hardware (impl_data s)) = (h, Some ex) \<Longrightarrow> fst (releaseAccessor S busy p M) = Fault"
    and "driverDeinit (drv_class (impl_data s)) (hardware (impl_data s)) = (h, None) \<Longrightarrow>
      \<exists>M'. releaseAccessor S busy p M = (Ret (), M') \<and> dm_inv S M' \<and> queues_ok M' \<and> live_drivers M' = (live_drivers M)(command_queue a := None)
        \<and> map_of (mapParameterLiveInstance M') (identificationString (impl_data s)) = None \<and> env_accessors (dm_env M') p = None
        \<and> (commandQueue (impl_data s) = [] \<longrightarrow> dm_env M' = (dm_env M)\<lparr>env_accessors := (env_accessors (dm_env M))(p := None)\<rparr>)"
proof -
  from inv have ok: "maps_ok S M" "accessors_ok S M" by (auto simp: dm_inv_def)
  let ?drv = "command_queue a"
  let ?s = "s\<lparr>impl_data := (impl_data s)\<lparr>accessors := []\<rparr>\<rparr>"
  let ?M = "M\<lparr>live_drivers := (live_drivers M)(?drv \<mapsto> ?s),
              dm_env := (dm_env M)\<lparr>env_accessors := (env_accessors (dm_env M))(p := None)\<rparr>\<rparr>"
  have run: "driver_ready S M ?drv s" "map_of (mapDriverUUIDHashLiveInstance M) (driver_uuid a) = Some ?drv"
      "map_of (mapParameterLiveInstance M) (identificationString (impl_data s)) = Some ?drv"
      "driver_releaseAccessor ?drv p M = (Ret True, ?M)"
    by (rule driver_release_run [OF ok a], use s in simp)+
  have rel: "releaseAccessor S busy p M = retire_driver S busy ?drv ?M" using a run(2,4) by (simp add: releaseAccessor_def)
  have live: "live_drivers ?M ?drv = Some ?s" by simp
  have f: "base_fsm ?s = Initialized" "thread_runs (impl_data ?s)" "keeps_head (drv_class (impl_data ?s))"
    using run(1) by (simp_all add: driver_ready_def)
  show "driverDeinit (drv_class (impl_data s)) (hardware (impl_data s)) = (h, Some ex) \<Longrightarrow> fst (releaseAccessor S busy p M) = Fault"
    unfolding rel using failed_deinit_leaves_thread [OF pe live f(1,2), of h ex busy] by simp
  assume "driverDeinit (drv_class (impl_data s)) (hardware (impl_data s)) = (h, None)"
  then have dn: "driverDeinit (drv_class (impl_data ?s)) (hardware (impl_data ?s)) = (h, None)" by simp
  have qM: "queues_ok ?M" by (rule queues_ok_frame [OF q]) (use s(1) in \<open>auto split: if_splits\<close>)
  obtain d' env' where d': "deinit_driver S busy ?drv ?M =
      (Ret True, ?M\<lparr>live_drivers := (live_drivers ?M)(?drv \<mapsto> \<lparr>base_fsm = Deinitilized, ss_fsm = ss_fsm ?s, serviceState = dr_sid S Deinitilized, impl_data = d'\<rparr>), dm_env := env'\<rparr>)"
      "\<not> thread_runs d'" "identificationString d' = identificationString (impl_data s)" "driverUUID d' = driverUUID (impl_data s)"
      "env_like (dm_env ?M) env'" "commandQueue (impl_data s) = [] \<longrightarrow> env' = dm_env ?M"
    using deinit_driver_run [OF pe live f dn qM top, of busy] by auto
  have "\<not> thread_runs (impl_data \<lparr>base_fsm = Deinitilized, ss_fsm = ss_fsm ?s, serviceState = dr_sid S Deinitilized, impl_data = d'\<rparr>)"
    using d'(2) by simp
  note rr = retire_run [OF d'(1) this]
  define M' where "M' = snd (retire_driver S busy ?drv ?M)"
  have M': "retire_driver S busy ?drv ?M = (Ret (), M')" "dm_env M' = env'" "next_address M' = next_address M"
      "live_drivers M' = (live_drivers M)(?drv := None)"
      "mapParameterLiveInstance M' = erase_entry (identificationString (impl_data s)) (mapParameterLiveInstance M)"
      "mapDriverUUIDHashLiveInstance M' = erase_entry (dr_uuid S ?drv) (mapDriverUUIDHashLiveInstance M)"
      "mapDriverAliasVersionInstancer M' = mapDriverAliasVersionInstancer M"
    unfolding M'_def rr using run(1) d'(3,4) by (simp_all add: driver_ready_def)
  have "remove1 p (accessors (impl_data s)) = []" using s(2) by simp
  then have "dm_inv S (M'\<lparr>dm_env := dm_env ?M\<rparr>)"
    by (rule forget_driver [OF inv a HOL.refl s(1) run(1) _ run(3)]) (simp_all add: M')
  moreover have "manager_like (M'\<lparr>dm_env := dm_env ?M\<rparr>) M'" using d'(5) by (simp add: manager_like_def M'(2) env_like_def)
  ultimately have "dm_inv S M'" using like_inv by blast
  moreover have "queues_ok M'"
    by (rule queues_ok_frame [OF q]) (use d'(5) in \<open>auto simp: M' env_like_def split: if_splits\<close>)
  moreover have "env_accessors (dm_env M') p = None"
    using d'(5) [unfolded env_like_def acc_like_def, THEN conjunct1, rule_format, of p] by (simp add: M'(2))
  moreover have "map_of (mapParameterLiveInstance M') (identificationString (impl_data s)) = None" by (simp add: M' map_of_erase_entry)
  ultimately show "\<exists>M'. releaseAccessor S busy p M = (Ret (), M') \<and> dm_inv S M' \<and> queues_ok M' \<and> live_drivers M' = (live_drivers M)(command_queue a := None)
      \<and> map_of (mapParameterLiveInstance M') (identificationString (impl_data s)) = None \<and> env_accessors (dm_env M') p = None
      \<and> (commandQueue (impl_data s) = [] \<longrightarrow> dm_env M' = (dm_env M)\<lparr>env_accessors := (env_accessors (dm_env M))(p := None)\<rparr>)"
    using M'(1,2,4) d'(6) unfolding rel by (intro exI [of _ M']) simp
qed


section \<open>Sending and executing\<close>

lemma accessor_push_like:
  assumes "accessor_push p mq cmd inc_priority M = (Ret i, M')" and q: "queues_ok M"
  shows "manager_like M M'" and "queues_ok M'"
proof -
  obtain a m s where f: "env_accessors (dm_env M) p = Some a" "env_messages (dm_env M) cmd = Some m" "live_drivers M (command_queue a) = Some s"
    using assms(1) by (auto simp: accessor_push_def split: option.splits)
  have M': "M' = M\<lparr>live_drivers := (live_drivers M)(command_queue a \<mapsto>
        s\<lparr>impl_data := (impl_data s)\<lparr>commandQueue := tcq_push (Some cmd) (base_opcode_priority a + inc_priority) (commandQueue (impl_data s))\<rparr>\<rparr>),
      dm_env := (dm_env M)\<lparr>env_accessors := (env_accessors (dm_env M))(p \<mapsto> a\<lparr>messages_count := messages_count a + 1\<rparr>),
        env_messages := (env_messages (dm_env M))(cmd \<mapsto> m\<lparr>msg_id := messages_count a, drvResponseMQ := Some mq\<rparr>)\<rparr>\<rparr>"
    using assms(1) f by (auto simp: accessor_push_def Let_def)
  show "manager_like M M'" unfolding M' manager_like_def using f by (auto simp: acc_like_def driver_like_def)
  show "queues_ok M'"
  proof (rule queues_ok_frame [OF q])
    show "msg_like (env_messages (dm_env M)) (env_messages (dm_env M'))" using f(2) by (simp add: M' msg_like_def)
    fix drv s' x assume s': "live_drivers M' drv = Some s'" "x \<in> set (commandQueue (impl_data s'))"
    show "live_message (dm_env M') x \<or> (\<exists>s. live_drivers M drv = Some s \<and> x \<in> set (commandQueue (impl_data s)))"
    proof (cases "drv = command_queue a")
      case True
      then have "element x = Some cmd \<or> x \<in> set (commandQueue (impl_data s))" using s' by (auto simp: M' tcq_push_def)
      then show ?thesis using True f(3) by (auto simp: live_message_def M')
    qed (use s' in \<open>auto simp: M'\<close>)
  qed
qed

lemma pop_answer_like:
  assumes "env_accessors (dm_env M) p = Some a" and "queues_ok M"
  shows "manager_like M (M\<lparr>dm_env := (dm_env M)\<lparr>env_accessors := (env_accessors (dm_env M))(p \<mapsto> a\<lparr>accessor_sync_mq := q\<rparr>)\<rparr>\<rparr>)"
    and "queues_ok (M\<lparr>dm_env := (dm_env M)\<lparr>env_accessors := (env_accessors (dm_env M))(p \<mapsto> a\<lparr>accessor_sync_mq := q\<rparr>)\<rparr>\<rparr>)"
  using assms by (auto simp: manager_like_def acc_like_def queues_ok_def live_message_def)

lemma thread_round_like:
  assumes top: "heap_top htop" and inv: "dm_inv S M" and q: "queues_ok M"
    and u: "map_of (mapDriverUUIDHashLiveInstance M) u = Some drv" and r: "driver_thread_round htop drv M = Some M'"
  shows "manager_like M M'" and "queues_ok M'"
proof -
  have ok: "maps_ok S M" using inv by (simp add: dm_inv_def)
  obtain s where s: "live_drivers M drv = Some s" "driver_ready S M drv s" by (rule uuid_live [OF ok u])
  let ?d = "impl_data s"
  let ?q = "commandQueue ?d"
  have ready: "keeps_head (drv_class ?d)" "\<not> driverNeedtoDeinitialize ?d" "thread_runs ?d" using s(2) by (simp_all add: driver_ready_def)
  have ne: "?q \<noteq> []" using r s(1) ready(3) by (auto simp: driver_thread_round_def scan_message_def tcq_wait_and_pop_def)
  have live: "\<forall>x \<in> set ?q. live_message (dm_env M) x" using q s(1) by (simp add: queues_ok_def)
  then have live': "\<forall>x \<in> set ?q. element x = None \<or> live_message (dm_env M) x" by simp
  have ops: "\<forall>c m. env_messages (dm_env M) c = Some m \<longrightarrow> opcode m \<noteq> OP_DEINIT" using q by (simp add: queues_ok_def)
  obtain h b env' where scan: "scan_message htop ?d (dm_env M) = Some (?d\<lparr>commandQueue := remove1 (htop ?q) ?q, hardware := h, thread_runs := b\<rparr>, env')"
    and e: "env_like (dm_env M) env'" "b \<longleftrightarrow> element (htop ?q) \<noteq> None \<and> \<not> driverNeedtoDeinitialize ?d"
    by (rule scan_message_run [OF ready(1) top ne live' ops])
  have "element (htop ?q) \<noteq> None" using live heap_top.htop_in [OF top ne] by (auto simp: live_message_def)
  then have b using e(2) ready(2) by simp
  then have M': "M' = M\<lparr>live_drivers := (live_drivers M)(drv \<mapsto> s\<lparr>impl_data := ?d\<lparr>commandQueue := remove1 (htop ?q) ?q, hardware := h, thread_runs := True\<rparr>\<rparr>), dm_env := env'\<rparr>"
    using r s(1) ready(3) scan by (simp add: driver_thread_round_def)
  show "manager_like M M'" unfolding M' manager_like_def using s(1) e(1) ready(3) by (auto simp: driver_like_def env_like_def)
  show "queues_ok M'"
  proof (rule queues_ok_frame [OF q])
    show "msg_like (env_messages (dm_env M)) (env_messages (dm_env M'))" using e(1) by (simp add: M' env_like_def)
    fix e s' x assume "live_drivers M' e = Some s'" "x \<in> set (commandQueue (impl_data s'))"
    then show "live_message (dm_env M') x \<or> (\<exists>s. live_drivers M e = Some s \<and> x \<in> set (commandQueue (impl_data s)))"
      using s(1) set_remove1_subset [of "htop ?q" ?q] by (auto simp: M' split: if_splits)
  qed
qed

lemma get_queues:
  assumes pe: "msm_backend (dr_pe S)" and q: "queues_ok M"
  shows "queues_ok (snd (getNewAccessorForDriverInstance S r M))"
proof -
  have acc: "queues_ok (snd (getNewAccessor drv N))" if N: "queues_ok N" for drv and N :: "'a driver_manager"
  proof (cases "live_drivers N drv")
    case (Some s)
    show ?thesis by (rule queues_ok_frame [OF N]) (use Some in \<open>auto simp: getNewAccessor_def Let_def split: if_splits\<close>)
  qed (use N in \<open>simp add: getNewAccessor_def\<close>)
  have add: "queues_ok (M\<lparr>next_address := n, live_drivers := (live_drivers M)(drv \<mapsto> s)\<rparr>)" if "commandQueue (impl_data s) = []" for n drv s
    using q that by (auto simp: queues_ok_def)
  show ?thesis
  proof (cases "map_of (mapParameterLiveInstance M) (identification r)")
    case (Some drv)
    then show ?thesis using acc [OF q] by (simp add: getNewAccessorForDriverInstance_def)
  next
    case none: None
    show ?thesis
    proof (cases "map_of (mapDriverAliasVersionInstancer M) (drv_alias r @ drv_version r)")
      case None
      then show ?thesis using none q by (simp add: getNewAccessorForDriverInstance_def)
    next
      case (Some cl)
      obtain drv M1 where c: "create_driver S cl (identification r) M = (drv, M1)" by (cases "create_driver S cl (identification r) M")
      obtain h e where i: "driverInit (fst cl) (init_parameter r) (snd cl) = (h, e)" by fastforce
      have init: "\<exists>s x. init_driver S (init_parameter r) drv M1 = (x, M\<lparr>next_address := Suc drv, live_drivers := (live_drivers M)(drv \<mapsto> s)\<rparr>)
          \<and> commandQueue (impl_data s) = []"
        using c i by (cases e) (auto simp: create_driver_def Let_def init_driver_def service_call_def IS_initImplementation_def new_service_def
            msm_backend.id_rows [OF pe] driver_hooks_def AbstractDriver_init_def enter_service_def leave_service_def new_AbstractDriver_def)
      then obtain s x where s: "init_driver S (init_parameter r) drv M1 = (x, M\<lparr>next_address := Suc drv, live_drivers := (live_drivers M)(drv \<mapsto> s)\<rparr>)"
          "commandQueue (impl_data s) = []" by blast
      let ?N = "M\<lparr>next_address := Suc drv, live_drivers := (live_drivers M)(drv \<mapsto> s)\<rparr>"
      have "queues_ok (?N\<lparr>mapParameterLiveInstance := a, mapDriverUUIDHashLiveInstance := b\<rparr>)" for a b
        using add [OF s(2), of drv "Suc drv"] by (simp add: queues_ok_def)
      then show ?thesis using none Some c s add [OF s(2)] acc
        by (cases x) (simp_all add: getNewAccessorForDriverInstance_def)
    qed
  qed
qed

section \<open>Reachable managers\<close>

text \<open>
  What can happen to a manager whose drivers are of the classes \<open>Cls\<close>: registrations, requests, releases of
  accessors that are held, messages that are made, sent, executed, answered and, when no queue holds them,
  freed. A client does not use the opcode that ends a driver's thread. A history goes on while nothing is freed
  that is in use; drivers outside the maps have no thread.
\<close>

inductive dm_reach :: "'h driver_class set \<Rightarrow> 'h driver_system \<Rightarrow> 'h driver_manager \<Rightarrow> bool" for Cls S where
  start: "dm_reach Cls S new_DriverManager"
| register: "dm_reach Cls S M \<Longrightarrow> cl \<in> Cls \<Longrightarrow> dm_reach Cls S (snd (registerDriver (Some (cl, h)) (Some (name, ver)) M))"
| request: "dm_reach Cls S M \<Longrightarrow> dm_reach Cls S (snd (getNewAccessorForDriverInstance S r M))"
| release: "dm_reach Cls S M \<Longrightarrow> env_accessors (dm_env M) p \<noteq> None \<Longrightarrow> releaseAccessor S busy p M = (r, M') \<Longrightarrow> r \<noteq> Fault \<Longrightarrow>
    \<not> env_fault (dm_env M') \<Longrightarrow> dm_reach Cls S M'"
| make_message: "dm_reach Cls S M \<Longrightarrow> env_messages (dm_env M) c = None \<Longrightarrow> opcode m \<noteq> OP_DEINIT \<Longrightarrow>
    dm_reach Cls S (M\<lparr>dm_env := (dm_env M)\<lparr>env_messages := (env_messages (dm_env M))(c \<mapsto> m)\<rparr>\<rparr>)"
| free_message: "dm_reach Cls S M \<Longrightarrow> (\<And>drv s. live_drivers M drv = Some s \<Longrightarrow> Some c \<notin> element ` set (commandQueue (impl_data s))) \<Longrightarrow>
    dm_reach Cls S (M\<lparr>dm_env := (dm_env M)\<lparr>env_messages := (env_messages (dm_env M))(c := None)\<rparr>\<rparr>)"
| send: "dm_reach Cls S M \<Longrightarrow> send_message p cmd inc_priority M = (Ret i, M') \<Longrightarrow> dm_reach Cls S M'"
| send_async: "dm_reach Cls S M \<Longrightarrow> sendAsync p cmd inc_priority M = (Ret i, M') \<Longrightarrow> dm_reach Cls S M'"
| answer: "dm_reach Cls S M \<Longrightarrow> send_wait atop p M = Ret (Some (i, M')) \<Longrightarrow> dm_reach Cls S M'"
| last_answer: "dm_reach Cls S M \<Longrightarrow> getLastAsyncMsg atop p M = Ret (i', M') \<Longrightarrow> dm_reach Cls S M'"
| thread: "dm_reach Cls S M \<Longrightarrow> map_of (mapDriverUUIDHashLiveInstance M) u = Some drv \<Longrightarrow> driver_thread_round (dr_htop S) drv M = Some M' \<Longrightarrow>
    \<not> env_fault (dm_env M') \<Longrightarrow> dm_reach Cls S M'"

lemma release_dm_inv:
  assumes pe: "msm_backend (dr_pe S)" and top: "heap_top (dr_htop S)" and inv: "dm_inv S M" "queues_ok M"
    and p: "env_accessors (dm_env M) p \<noteq> None" and r: "releaseAccessor S busy p M = (r, M')" "r \<noteq> Fault"
  shows "dm_inv S M' \<and> queues_ok M'"
proof -
  obtain a where a: "env_accessors (dm_env M) p = Some a" using p by blast
  have "accessors_ok S M" using inv(1) by (simp add: dm_inv_def)
  then obtain s where s: "live_drivers M (command_queue a) = Some s" by (rule accessor_owner [OF _ a])
  show ?thesis
  proof (cases "accessors (impl_data s) = [p]")
    case True
    obtain h e where d: "driverDeinit (drv_class (impl_data s)) (hardware (impl_data s)) = (h, e)" by fastforce
    have last: "driverDeinit (drv_class (impl_data s)) (hardware (impl_data s)) = (h, None) \<Longrightarrow> dm_inv S M' \<and> queues_ok M'"
      using release_last(2) [OF pe top inv a s True, of h busy] r(1) by auto
    have "e = None" using release_last(1) [OF pe top inv a s True, of h _ busy] d r by (cases e) auto
    then show ?thesis using last d by simp
  next
    case False
    then show ?thesis using release_shared [OF inv a s False, of busy] r(1) by auto
  qed
qed

lemma dm_reach_inv:
  assumes "msm_backend (dr_pe S)" and "heap_top (dr_htop S)" and "inj (dr_uuid S)" and "\<forall>cl \<in> Cls. keeps_head cl" and "dm_reach Cls S M"
  shows "dm_inv S M \<and> queues_ok M"
  using assms(5)
proof (induction)
  case start
  show ?case by (simp add: dm_inv_new) (simp add: queues_ok_def new_DriverManager_def)
next
  case (register M cl h name ver)
  have "queues_ok (snd (registerDriver (Some (cl, h)) (Some (name, ver)) M))"
    using register by (simp add: registerDriver_def queues_ok_def)
  then show ?case using register assms(4) by (simp add: register_inv)
next
  case (request M r)
  then show ?case using get_inv [OF assms(1,3)] get_queues [OF assms(1)] by blast
next
  case (release M p busy r M')
  then show ?case using release_dm_inv [OF assms(1,2)] by blast
next
  case (make_message M c m)
  let ?M = "M\<lparr>dm_env := (dm_env M)\<lparr>env_messages := (env_messages (dm_env M))(c \<mapsto> m)\<rparr>\<rparr>"
  have "manager_like M ?M" by (simp add: manager_like_def)
  moreover have "queues_ok ?M" using make_message by (fastforce simp: queues_ok_def live_message_def)
  ultimately show ?case using make_message like_inv by blast
next
  case (free_message M c)
  let ?M = "M\<lparr>dm_env := (dm_env M)\<lparr>env_messages := (env_messages (dm_env M))(c := None)\<rparr>\<rparr>"
  have "manager_like M ?M" by (simp add: manager_like_def)
  moreover have "queues_ok ?M" unfolding queues_ok_def
  proof (intro conjI allI impI ballI)
    fix drv s x assume s: "live_drivers ?M drv = Some s" "x \<in> set (commandQueue (impl_data s))"
    then have "element x \<noteq> Some c" using free_message.hyps(2) [of drv s] by (auto simp: image_iff)
    moreover have "live_message (dm_env M) x" using free_message.IH s by (simp add: queues_ok_def)
    ultimately show "live_message (dm_env ?M) x" by (auto simp: live_message_def)
  qed (use free_message.IH in \<open>auto simp: queues_ok_def split: if_splits\<close>)
  ultimately show ?case using free_message like_inv by blast
next
  case (send M p cmd inc_priority i M')
  then show ?case using accessor_push_like [of p "SyncMQ p"] like_inv unfolding send_message_def by blast
next
  case (send_async M p cmd inc_priority i M')
  then show ?case using accessor_push_like [of p "AsyncMQ p"] like_inv unfolding sendAsync_def by blast
next
  case (answer M atop p i M')
  then obtain a q where "env_accessors (dm_env M) p = Some a"
      "M' = M\<lparr>dm_env := (dm_env M)\<lparr>env_accessors := (env_accessors (dm_env M))(p \<mapsto> a\<lparr>accessor_sync_mq := q\<rparr>)\<rparr>\<rparr>"
    by (auto simp: send_wait_def split: option.splits prod.splits pop_result.splits)
  then show ?case using answer.IH pop_answer_like like_inv by blast
next
  case (last_answer M atop p i M')
  then obtain a q where "env_accessors (dm_env M) p = Some a"
      "M' = M\<lparr>dm_env := (dm_env M)\<lparr>env_accessors := (env_accessors (dm_env M))(p \<mapsto> a\<lparr>accessor_sync_mq := q\<rparr>)\<rparr>\<rparr>"
    by (auto simp: getLastAsyncMsg_def split: option.splits prod.splits)
  then show ?case using last_answer.IH pop_answer_like like_inv by blast
next
  case (thread M u drv M')
  then show ?case using thread_round_like [OF assms(2)] like_inv by blast
qed

section \<open>Properties\<close>



definition example_class :: "nat driver_class" where
  "example_class =
     \<lparr>driverInit = (\<lambda>param h. (length param, None)), driverDeinit = (\<lambda>h. (0, None)),
      execOpcode = (\<lambda>m h. (MMR_EXECUTED, m\<lparr>resultData := [of_nat h]\<rparr>, Suc h))\<rparr>"

definition example_system :: "nat driver_system" where
  "example_system = \<lparr>dr_pe = table_process_event, dr_sid = (\<lambda>_. 0), dr_htop = first_max, dr_uuid = (\<lambda>n. replicate n CHR ''u'')\<rparr>"

lemma example_head: "\<forall>cl \<in> {example_class}. keeps_head cl"
  by (auto simp: keeps_head_def example_class_def)

lemma example_ok: "msm_backend (dr_pe example_system)" "heap_top (dr_htop example_system)" "inj (dr_uuid example_system)"
  by (auto simp: example_system_def table_msm.msm_backend_axioms fm.heap_top_axioms inj_def)

definition two_accessors :: "nat driver_manager" where
  "two_accessors =
     snd (getNewAccessorForDriverInstance example_system \<lparr>drv_alias = ''cam'', drv_version = ''1'', init_parameter = ''0''\<rparr>
       (snd (getNewAccessorForDriverInstance example_system \<lparr>drv_alias = ''cam'', drv_version = ''1'', init_parameter = ''0''\<rparr>
         (snd (registerDriver (Some (example_class, 0)) (Some (''cam'', ''1'')) new_DriverManager)))))"

lemma two_reach: "dm_reach {example_class} example_system two_accessors"
  unfolding two_accessors_def by (intro dm_reach.start dm_reach.register dm_reach.request) simp

lemmas driver_eval = two_accessors_def getNewAccessorForDriverInstance_def registerDriver_def new_DriverManager_def
  insert_entry_def identification_def create_driver_def init_driver_def service_call_def IS_initImplementation_def
  driver_hooks_def AbstractDriver_init_def enter_service_def leave_service_def new_service_def new_AbstractDriver_def
  getNewAccessor_def new_DriverAccessor_def example_system_def example_class_def table_msm.id_rows


text \<open>
  An accessor that is released while its command is pending: when it was the last one, the thread still takes
  this command before it ends, and answers it through the accessor that has just been freed.
\<close>

definition pending_release :: "nat driver_manager" where
  "pending_release =
     (let M = snd (getNewAccessorForDriverInstance example_system \<lparr>drv_alias = ''cam'', drv_version = ''1'', init_parameter = ''0''\<rparr>
            (snd (registerDriver (Some (example_class, 0)) (Some (''cam'', ''1'')) new_DriverManager)));
          N = M\<lparr>dm_env := (dm_env M)\<lparr>env_messages :=
            (env_messages (dm_env M))(7 \<mapsto> \<lparr>msg_id = 0, opcode = 100, msg_property = 0, drvResponseMQ = None, inputData = [], resultData = []\<rparr>)\<rparr>\<rparr>
      in snd (sendAsync 1 7 10 N))"

lemma release_answers_freed_accessor:
  "dm_reach {example_class} example_system pending_release
   \<and> fst (releaseAccessor example_system False 1 pending_release) = Ret ()
   \<and> env_fault (dm_env (snd (releaseAccessor example_system False 1 pending_release)))"
proof
  let ?M = "snd (getNewAccessorForDriverInstance example_system \<lparr>drv_alias = ''cam'', drv_version = ''1'', init_parameter = ''0''\<rparr>
      (snd (registerDriver (Some (example_class, 0)) (Some (''cam'', ''1'')) new_DriverManager)))"
  let ?m = "\<lparr>msg_id = 0, opcode = 100, msg_property = 0, drvResponseMQ = None, inputData = [], resultData = []\<rparr>"
  have "dm_reach {example_class} example_system ?M"
    by (intro dm_reach.start dm_reach.register dm_reach.request) simp
  then have r: "dm_reach {example_class} example_system (?M\<lparr>dm_env := (dm_env ?M)\<lparr>env_messages := (env_messages (dm_env ?M))(7 \<mapsto> ?m)\<rparr>\<rparr>)"
    by (rule dm_reach.make_message) (simp_all add: driver_eval Let_def OP_DEINIT_def)
  have "sendAsync 1 7 10 (?M\<lparr>dm_env := (dm_env ?M)\<lparr>env_messages := (env_messages (dm_env ?M))(7 \<mapsto> ?m)\<rparr>\<rparr>) = (Ret 0, pending_release)"
    by (simp add: pending_release_def Let_def) (simp add: driver_eval Let_def sendAsync_def accessor_push_def)
  from dm_reach.send_async [OF r this] show "dm_reach {example_class} example_system pending_release" .
  show "fst (releaseAccessor example_system False 1 pending_release) = Ret ()
    \<and> env_fault (dm_env (snd (releaseAccessor example_system False 1 pending_release)))"
    by (simp add: pending_release_def driver_eval Let_def sendAsync_def accessor_push_def releaseAccessor_def driver_releaseAccessor_def
        retire_driver_def deinit_driver_def IS_deinitImplementation_def AbstractDriver_deinit_def join_thread_def scan_message_def
        tcq_wait_and_pop_def tcq_push_def exec_message_def respond_def push_response_def loops_again_def prio_less_def delete_driver_def erase_entry_def OP_DEINIT_def)
qed

end
