(* ===== verification/Driver_Messages.thy ===== *)
theory Driver_Messages
  imports Driver_Sharing
begin

text \<open>
  Messages to a driver: a synchronous command is executed after those of higher priority and answered, after
  at most as many rounds of the driver's thread as commands are pending. The second part shows where the code is looser than its names say.
\<close>

section \<open>A command and its answer\<close>

text \<open>A driver that completes a command in \<open>execOpcode\<close>, well or badly.\<close>

definition completes :: "'h driver_class \<Rightarrow> bool" where
  "completes cl \<longleftrightarrow> keeps_head cl \<and> (\<forall>m h. fst (execOpcode cl m h) \<noteq> MMR_THREAD_DISPATCHED)"

fun thread_rounds ::
  "(nat option prio_elem list \<Rightarrow> nat option prio_elem) \<Rightarrow> nat \<Rightarrow> nat \<Rightarrow> 'h driver_manager \<Rightarrow> 'h driver_manager option" where
  "thread_rounds htop 0 drv M = Some M"
| "thread_rounds htop (Suc n) drv M =
     (case driver_thread_round htop drv M of None \<Rightarrow> None | Some M1 \<Rightarrow> thread_rounds htop n drv M1)"

fun queue_owner :: "response_queue \<Rightarrow> nat" where
  "queue_owner (AsyncMQ p) = p"
| "queue_owner (SyncMQ p) = p"

definition command_ok :: "nat \<Rightarrow> nat \<Rightarrow> drv_env \<Rightarrow> nat option prio_elem \<Rightarrow> bool" where
  "command_ok p cmd env x \<longleftrightarrow>
     (\<exists>c m mq. element x = Some c \<and> env_messages env c = Some m \<and> opcode m \<noteq> OP_DEINIT \<and> drvResponseMQ m = Some mq
        \<and> env_accessors env (queue_owner mq) \<noteq> None \<and> (c \<noteq> cmd \<longrightarrow> mq \<noteq> SyncMQ p))"

text \<open>
  The thread runs, the commands pending are different live messages of live accessors, \<open>cmd\<close> with number \<open>i\<close>
  is among them and the only one whose answer goes to the synchronous queue of \<open>p\<close>, which is empty.
\<close>

definition awaiting :: "nat \<Rightarrow> nat \<Rightarrow> u64 \<Rightarrow> 'h abstract_driver \<Rightarrow> drv_env \<Rightarrow> bool" where
  "awaiting p cmd i d env \<longleftrightarrow> thread_runs d \<and> \<not> driverNeedtoDeinitialize d \<and> completes (drv_class d)
     \<and> distinct (map element (commandQueue d)) \<and> Some cmd \<in> element ` set (commandQueue d)
     \<and> (\<forall>x \<in> set (commandQueue d). command_ok p cmd env x)
     \<and> (\<exists>m. env_messages env cmd = Some m \<and> msg_id m = i \<and> drvResponseMQ m = Some (SyncMQ p))
     \<and> (\<exists>a. env_accessors env p = Some a \<and> accessor_sync_mq a = [])"

lemma push_response_other:
  assumes "env_accessors env (queue_owner mq) \<noteq> None"
  shows "env_messages (push_response mq i env) = env_messages env"
    and "(env_accessors (push_response mq i env) p = None) = (env_accessors env p = None)"
    and "mq \<noteq> SyncMQ p \<Longrightarrow> map_option accessor_sync_mq (env_accessors (push_response mq i env) p) = map_option accessor_sync_mq (env_accessors env p)"
  using assms by (cases mq; auto simp: push_response_def split: option.split)+

lemma push_response_sync:
  "env_accessors env p = Some a \<Longrightarrow> env_accessors (push_response (SyncMQ p) i env) p = Some (a\<lparr>accessor_sync_mq := tcq_push i 50 (accessor_sync_mq a)\<rparr>)"
  by (simp add: push_response_def)

context heap_top
begin

lemma removed_elements:
  assumes "q \<noteq> []" and "distinct (map element q)"
  shows "distinct (map element (remove1 (htop q) q))" and "element (htop q) \<notin> element ` set (remove1 (htop q) q)"
    and "set (remove1 (htop q) q) \<subseteq> set q" and "element ` set q = insert (element (htop q)) (element ` set (remove1 (htop q) q))"
proof -
  have d: "distinct q" and inj: "inj_on element (set q)" using assms(2) by (auto simp: distinct_map)
  have r: "set (remove1 (htop q) q) = set q - {htop q}" using d by (simp add: set_remove1_eq)
  have t: "htop q \<in> set q" by (rule htop_in [OF assms(1)])
  show "distinct (map element (remove1 (htop q) q))"
    using d inj by (auto simp: distinct_map r distinct_remove1 intro: inj_on_subset)
  show "element (htop q) \<notin> element ` set (remove1 (htop q) q)" using inj t by (auto simp: r inj_on_def)
  show "set (remove1 (htop q) q) \<subseteq> set q" by (rule set_remove1_subset)
  show "element ` set q = insert (element (htop q)) (element ` set (remove1 (htop q) q))" using t by (auto simp: r)
qed

end

text \<open>What a driver's hardware goes through when it executes messages one after the other.\<close>

definition exec_hardware :: "'h driver_class \<Rightarrow> drv_msg \<Rightarrow> 'h \<Rightarrow> 'h" where
  "exec_hardware cl m h = snd (snd (execOpcode cl m h))"

text \<open>The message a queue element points to.\<close>

definition queued_message :: "drv_env \<Rightarrow> nat option prio_elem \<Rightarrow> drv_msg" where
  "queued_message env x = the (env_messages env (the (element x)))"

definition by_priority :: "'a prio_elem list \<Rightarrow> bool" where
  "by_priority = sorted_wrt (\<lambda>x y. sint (priority y) \<le> sint (priority x))"

lemma scan_awaiting:
  assumes top: "heap_top htop" and aw: "awaiting p cmd i d env"
  obtains c m r m' mq h where "element (htop (commandQueue d)) = Some c" and "env_messages env c = Some m"
    and "execOpcode (drv_class d) m (hardware d) = (r, m', h)"
    and "drvResponseMQ m = Some mq" and "env_accessors env (queue_owner mq) \<noteq> None" and "c \<noteq> cmd \<longrightarrow> mq \<noteq> SyncMQ p"
    and "scan_message htop d env =
      Some (d\<lparr>commandQueue := remove1 (htop (commandQueue d)) (commandQueue d), hardware := h, thread_runs := True\<rparr>,
            push_response mq (msg_id m) (env\<lparr>env_messages := (env_messages env)(c \<mapsto> m')\<rparr>))"
proof -
  let ?q = "commandQueue d"
  have ne: "?q \<noteq> []" using aw by (auto simp: awaiting_def)
  then have "htop ?q \<in> set ?q" by (rule heap_top.htop_in [OF top])
  then obtain c m mq where c: "element (htop ?q) = Some c" "env_messages env c = Some m" "opcode m \<noteq> OP_DEINIT"
      "drvResponseMQ m = Some mq" "env_accessors env (queue_owner mq) \<noteq> None" "c \<noteq> cmd \<longrightarrow> mq \<noteq> SyncMQ p"
    using aw unfolding awaiting_def command_ok_def by blast
  obtain r m' h where x: "execOpcode (drv_class d) m (hardware d) = (r, m', h)" by (metis prod_cases3)
  have cl: "keeps_head (drv_class d)" "r \<noteq> MMR_THREAD_DISPATCHED"
    using aw x unfolding awaiting_def completes_def by (metis fst_conv)+
  have m': "msg_id m' = msg_id m" "opcode m' = opcode m" "drvResponseMQ m' = drvResponseMQ m"
    using keeps_headD [OF cl(1) x] by auto
  have again: "loops_again m' (d\<lparr>commandQueue := remove1 (htop ?q) ?q, hardware := h\<rparr>)"
    using aw c(3) m'(2) by (simp add: loops_again_def awaiting_def)
  have scan: "scan_message htop d env =
      Some (d\<lparr>commandQueue := remove1 (htop ?q) ?q, hardware := h, thread_runs := True\<rparr>,
            push_response mq (msg_id m) (env\<lparr>env_messages := (env_messages env)(c \<mapsto> m')\<rparr>))"
    using ne c x cl(2) m' again
    by (simp add: scan_message_def tcq_wait_and_pop_def exec_message_def respond_def Let_def)
  show thesis by (rule that [OF c(1,2) x c(4,5,6) scan])
qed

text \<open>
  One round executes the command of highest priority; it answers \<open>cmd\<close> or leaves it pending with one
  command less before it.
\<close>

lemma round_awaiting:
  assumes top: "heap_top htop" and s: "live_drivers M drv = Some s" and aw: "awaiting p cmd i (impl_data s) (dm_env M)"
  obtains M' s' c m r m' h where "driver_thread_round htop drv M = Some M'" and "live_drivers M' drv = Some s'"
    and "impl_data s' = (impl_data s)\<lparr>commandQueue := remove1 (htop (commandQueue (impl_data s))) (commandQueue (impl_data s)),
           hardware := h, thread_runs := True\<rparr>"
    and "element (htop (commandQueue (impl_data s))) = Some c" and "env_messages (dm_env M) c = Some m"
    and "execOpcode (drv_class (impl_data s)) m (hardware (impl_data s)) = (r, m', h)"
    and "env_messages (dm_env M') = (env_messages (dm_env M))(c \<mapsto> m')"
    and "c = cmd \<longrightarrow> (\<exists>a. env_accessors (dm_env M') p = Some a \<and> accessor_sync_mq a = tcq_push i 50 [])"
    and "c \<noteq> cmd \<longrightarrow> awaiting p cmd i (impl_data s') (dm_env M')"
proof -
  let ?d = "impl_data s" and ?env = "dm_env M"
  let ?q = "commandQueue ?d"
  obtain c m r m' mq h where c: "element (htop ?q) = Some c" "env_messages ?env c = Some m"
      "execOpcode (drv_class ?d) m (hardware ?d) = (r, m', h)" "drvResponseMQ m = Some mq"
      "env_accessors ?env (queue_owner mq) \<noteq> None" "c \<noteq> cmd \<longrightarrow> mq \<noteq> SyncMQ p"
    and scan: "scan_message htop ?d ?env =
      Some (?d\<lparr>commandQueue := remove1 (htop ?q) ?q, hardware := h, thread_runs := True\<rparr>,
            push_response mq (msg_id m) (?env\<lparr>env_messages := (env_messages ?env)(c \<mapsto> m')\<rparr>))"
    by (rule scan_awaiting [OF top aw])
  let ?e1 = "?env\<lparr>env_messages := (env_messages ?env)(c \<mapsto> m')\<rparr>"
  let ?d' = "?d\<lparr>commandQueue := remove1 (htop ?q) ?q, hardware := h, thread_runs := True\<rparr>" and ?env' = "push_response mq (msg_id m) ?e1"
  let ?M' = "M\<lparr>live_drivers := (live_drivers M)(drv \<mapsto> s\<lparr>impl_data := ?d'\<rparr>), dm_env := ?env'\<rparr>"
  have run: "driver_thread_round htop drv M = Some ?M'"
    using s aw scan by (simp add: driver_thread_round_def awaiting_def)
  have ne: "?q \<noteq> []" and dist: "distinct (map element ?q)" using aw by (auto simp: awaiting_def)
  note rem = heap_top.removed_elements [OF top ne dist]
  have live: "env_accessors ?e1 (queue_owner mq) \<noteq> None" using c(5) by simp
  note push = push_response_other [OF live]
  from aw obtain mc a where mc: "env_messages ?env cmd = Some mc" "msg_id mc = i" "drvResponseMQ mc = Some (SyncMQ p)"
    and a: "env_accessors ?env p = Some a" "accessor_sync_mq a = []" by (auto simp: awaiting_def)
  show thesis
  proof (rule that [OF run _ _ c(1-3)])
    show "live_drivers ?M' drv = Some (s\<lparr>impl_data := ?d'\<rparr>)" by simp
    show "env_messages (dm_env ?M') = (env_messages ?env)(c \<mapsto> m')" using push(1) by simp
    show "c = cmd \<longrightarrow> (\<exists>a. env_accessors (dm_env ?M') p = Some a \<and> accessor_sync_mq a = tcq_push i 50 [])"
    proof
      assume "c = cmd"
      then have "mq = SyncMQ p" "msg_id m = i" using c(2,4) mc by auto
      then show "\<exists>a. env_accessors (dm_env ?M') p = Some a \<and> accessor_sync_mq a = tcq_push i 50 []"
        using a push_response_sync [of ?e1 p a i] by simp
    qed
    show "c \<noteq> cmd \<longrightarrow> awaiting p cmd i (impl_data (s\<lparr>impl_data := ?d'\<rparr>)) (dm_env ?M')"
    proof
      assume False: "c \<noteq> cmd"
      have "\<exists>a. env_accessors ?env' p = Some a \<and> accessor_sync_mq a = []"
        using push(3) [of p "msg_id m"] False c(6) a by (cases "env_accessors ?env' p") auto
      moreover have "command_ok p cmd ?env' x" if x: "x \<in> set (remove1 (htop ?q) ?q)" for x
      proof -
        have "command_ok p cmd ?env x" using aw x rem(3) unfolding awaiting_def by blast
        moreover have "element x \<noteq> Some c" using rem(2) x c(1) by (metis image_eqI)
        ultimately show ?thesis using push(1,2) unfolding command_ok_def by fastforce
      qed
      moreover have "Some cmd \<in> element ` set (remove1 (htop ?q) ?q)"
        using aw rem(4) c(1) False unfolding awaiting_def by auto
      moreover have "env_messages ?env' cmd = Some mc" using push(1) mc(1) False by simp
      ultimately show "awaiting p cmd i (impl_data (s\<lparr>impl_data := ?d'\<rparr>)) (dm_env ?M')"
        using aw rem(1) mc unfolding awaiting_def by simp
    qed
  qed simp
qed

text \<open>
  The rounds up to the answer: \<open>xs\<close> are the commands executed before \<open>cmd\<close>, \<open>ys\<close> those left behind it.
\<close>

definition answered_after ::
  "(nat option prio_elem list \<Rightarrow> nat option prio_elem) \<Rightarrow> nat \<Rightarrow> nat \<Rightarrow> u64 \<Rightarrow> nat \<Rightarrow> 'h abstract_driver \<Rightarrow> 'h driver_manager
   \<Rightarrow> nat option prio_elem list \<Rightarrow> nat option prio_elem \<Rightarrow> nat option prio_elem list \<Rightarrow> 'h driver_manager \<Rightarrow> bool" where
  "answered_after htop p cmd i drv d M xs x ys M' \<longleftrightarrow>
     mset (commandQueue d) = mset (xs @ x # ys) \<and> element x = Some cmd
   \<and> by_priority (xs @ [x]) \<and> (\<forall>y \<in> set ys. sint (priority y) \<le> sint (priority x))
   \<and> thread_rounds htop (Suc (length xs)) drv M = Some M'
   \<and> (\<exists>s' r m'. live_drivers M' drv = Some s' \<and> mset (commandQueue (impl_data s')) = mset ys
        \<and> execOpcode (drv_class d) (the (env_messages (dm_env M) cmd))
            (fold (exec_hardware (drv_class d)) (map (queued_message (dm_env M)) xs) (hardware d)) = (r, m', hardware (impl_data s'))
        \<and> env_messages (dm_env M') cmd = Some m')
   \<and> (\<exists>a. env_accessors (dm_env M') p = Some a \<and> accessor_sync_mq a = tcq_push i 50 [])"

lemma awaiting_answered:
  assumes top: "heap_top htop" and "live_drivers M drv = Some s" and "awaiting p cmd i (impl_data s) (dm_env M)"
  shows "\<exists>xs x ys M'. answered_after htop p cmd i drv (impl_data s) M xs x ys M'"
  using assms(2,3)
proof (induction "length (commandQueue (impl_data s))" arbitrary: M s rule: less_induct)
  case less
  let ?d = "impl_data s"
  let ?q = "commandQueue ?d"
  obtain M' s' c m r m' h where r: "driver_thread_round htop drv M = Some M'" and s': "live_drivers M' drv = Some s'"
    and d': "impl_data s' = ?d\<lparr>commandQueue := remove1 (htop ?q) ?q, hardware := h, thread_runs := True\<rparr>"
    and c: "element (htop ?q) = Some c" "env_messages (dm_env M) c = Some m" "execOpcode (drv_class ?d) m (hardware ?d) = (r, m', h)"
    and ms: "env_messages (dm_env M') = (env_messages (dm_env M))(c \<mapsto> m')"
    and alt: "c = cmd \<longrightarrow> (\<exists>a. env_accessors (dm_env M') p = Some a \<and> accessor_sync_mq a = tcq_push i 50 [])"
      "c \<noteq> cmd \<longrightarrow> awaiting p cmd i (impl_data s') (dm_env M')"
    by (rule round_awaiting [OF top less.prems])
  have ne: "?q \<noteq> []" and dist: "distinct (map element ?q)" using less.prems(2) by (auto simp: awaiting_def)
  have t: "htop ?q \<in> set ?q" by (rule heap_top.htop_in [OF top ne])
  have mx: "sint (priority y) \<le> sint (priority (htop ?q))" if "y \<in> set ?q" for y
    using heap_top.htop_max [OF top that] by (simp add: prio_less_def not_less)
  show ?case
  proof (cases "c = cmd")
    case True
    have "answered_after htop p cmd i drv ?d M [] (htop ?q) (remove1 (htop ?q) ?q) M'"
      unfolding answered_after_def
      using True c r s' d' ms alt(1) t mx by (auto simp: by_priority_def dest: in_set_remove1 [THEN iffD1] set_remove1_subset [THEN subsetD])
    then show ?thesis by blast
  next
    case False
    have "length (commandQueue (impl_data s')) < length ?q" using t ne by (simp add: d' length_remove1)
    then obtain xs x ys M'' where a: "answered_after htop p cmd i drv (impl_data s') M' xs x ys M''"
      using less.hyps s' alt(2) False by blast
    have e: "mset (remove1 (htop ?q) ?q) = mset (xs @ x # ys)" using a by (simp add: answered_after_def d')
    have ss: "set xs \<subseteq> set (remove1 (htop ?q) ?q)" "set (xs @ x # ys) \<subseteq> set ?q"
      using mset_eq_setD [OF e] set_remove1_subset [of "htop ?q" ?q] by auto
    have "queued_message (dm_env M') y = queued_message (dm_env M) y" if "y \<in> set xs" for y
    proof -
      have "element y \<noteq> Some c" using that ss(1) heap_top.removed_elements(2) [OF top ne dist] c(1) by (metis image_eqI subsetD)
      moreover have "element y \<noteq> None"
        using that ss(2) less.prems(2) unfolding awaiting_def command_ok_def by fastforce
      ultimately show ?thesis by (auto simp: queued_message_def ms)
    qed
    then have msgs: "map (queued_message (dm_env M')) xs = map (queued_message (dm_env M)) xs" by simp
    have h: "exec_hardware (drv_class ?d) (queued_message (dm_env M) (htop ?q)) (hardware ?d) = h"
      using c by (simp add: exec_hardware_def queued_message_def)
    have "mset ?q = mset ((htop ?q # xs) @ x # ys)" using e t by (metis append_Cons insert_DiffM mset.simps(2) mset_remove1 set_mset_mset)
    moreover have "by_priority ((htop ?q # xs) @ [x])"
      using a ss(2) mx by (auto simp: answered_after_def by_priority_def)
    ultimately have "answered_after htop p cmd i drv ?d M (htop ?q # xs) x ys M''"
      using a r False msgs h unfolding answered_after_def by (simp add: d' ms)
    then show ?thesis by blast
  qed
qed

section \<open>Properties\<close>

text \<open>
  C6. \<open>DriverAccessor::send\<close> executes the command and returns. When the driver's thread runs and no other
  command of this accessor is waited for, the thread takes the commands pending by priority, highest first:
  some, \<open>xs\<close>, before the command sent, which has at least its priority, and \<open>ys\<close> are left behind it, of no
  higher priority. After one round for each of \<open>xs\<close> and one for the command, the hardware is in the state the
  driver's \<open>execOpcode\<close> leads to on exactly these messages in this order, the sender's message holds what
  \<open>execOpcode\<close> made of it, and the number of this command is in the queue the sender waits on, so that its
  wait returns. The driver is one that completes a command in \<open>execOpcode\<close> and keeps the message's header.
\<close>

theorem send_answered:
  assumes "heap_top htop" and "heap_top atop"
    and "env_accessors (dm_env M) p = Some a" and "accessor_sync_mq a = []"
    and "live_drivers M (command_queue a) = Some s" and "thread_runs (impl_data s)" and "\<not> driverNeedtoDeinitialize (impl_data s)"
    and "completes (drv_class (impl_data s))"
    and "env_messages (dm_env M) cmd = Some m" and "opcode m \<noteq> OP_DEINIT"
    and "distinct (map element (commandQueue (impl_data s)))"
    and "\<forall>x \<in> set (commandQueue (impl_data s)). command_ok p cmd (dm_env M) x \<and> element x \<noteq> Some cmd"
    and "send_message p cmd inc_priority M = (r, M1)"
  shows "r = Ret (messages_count a)
    \<and> (\<exists>xs ys M2 M3 s2 res m2.
         mset (xs @ ys) = mset (commandQueue (impl_data s))
       \<and> by_priority xs \<and> (\<forall>x \<in> set xs. sint (base_opcode_priority a + inc_priority) \<le> sint (priority x))
       \<and> (\<forall>y \<in> set ys. sint (priority y) \<le> sint (base_opcode_priority a + inc_priority))
       \<and> thread_rounds htop (Suc (length xs)) (command_queue a) M1 = Some M2
       \<and> live_drivers M2 (command_queue a) = Some s2 \<and> mset (commandQueue (impl_data s2)) = mset ys
       \<and> execOpcode (drv_class (impl_data s)) (m\<lparr>msg_id := messages_count a, drvResponseMQ := Some (SyncMQ p)\<rparr>)
           (fold (exec_hardware (drv_class (impl_data s))) (map (queued_message (dm_env M)) xs) (hardware (impl_data s)))
           = (res, m2, hardware (impl_data s2))
       \<and> env_messages (dm_env M2) cmd = Some m2
       \<and> send_wait atop p M2 = Ret (Some (messages_count a, M3)))"
proof
  let ?drv = "command_queue a" and ?i = "messages_count a" and ?env = "dm_env M" and ?d = "impl_data s"
  let ?a = "a\<lparr>messages_count := ?i + 1\<rparr>" and ?m = "m\<lparr>msg_id := ?i, drvResponseMQ := Some (SyncMQ p)\<rparr>"
  let ?x = "\<lparr>element = Some cmd, priority = base_opcode_priority a + inc_priority, disposeOnDestroy = False\<rparr>"
  let ?d1 = "?d\<lparr>commandQueue := ?x # commandQueue ?d\<rparr>"
  let ?env1 = "?env\<lparr>env_accessors := (env_accessors ?env)(p \<mapsto> ?a), env_messages := (env_messages ?env)(cmd \<mapsto> ?m)\<rparr>"
  have M1: "r = Ret ?i" "live_drivers M1 ?drv = Some (s\<lparr>impl_data := ?d1\<rparr>)" "dm_env M1 = ?env1"
    using assms by (auto simp: send_message_def accessor_push_def Let_def tcq_push_def)
  show "r = Ret ?i" by (rule M1)
  have old: "command_ok p cmd ?env1 x" if x: "x \<in> set (commandQueue ?d)" for x
  proof -
    have "command_ok p cmd ?env x" "element x \<noteq> Some cmd" using assms(12) x by auto
    then show ?thesis unfolding command_ok_def by fastforce
  qed
  have new: "command_ok p cmd ?env1 ?x" using assms(10) by (simp add: command_ok_def)
  have nq: "Some cmd \<notin> element ` set (commandQueue ?d)" using assms(12) by (metis imageE)
  then have "awaiting p cmd ?i ?d1 ?env1"
    using assms(4,6-8,11) old new by (simp add: awaiting_def)
  then have "awaiting p cmd ?i (impl_data (s\<lparr>impl_data := ?d1\<rparr>)) (dm_env M1)" by (simp add: M1)
  from awaiting_answered [OF assms(1) M1(2) this]
  obtain xs x ys M2 where ans: "answered_after htop p cmd ?i ?drv ?d1 M1 xs x ys M2" by auto
  have q: "add_mset ?x (mset (commandQueue ?d)) = add_mset x (mset (xs @ ys))" and x: "element x = Some cmd"
    using ans by (simp_all add: answered_after_def)
  have "x \<in> set (?x # commandQueue ?d)" using q by (metis mset.simps(2) set_mset_mset union_single_eq_member add_mset_add_single)
  then have xx: "x = ?x" using nq x by force
  then have perm: "mset (xs @ ys) = mset (commandQueue ?d)" using q by simp
  then have sub: "set xs \<subseteq> set (commandQueue ?d)" using mset_eq_setD by fastforce
  have "queued_message (dm_env M1) y = queued_message ?env y" if "y \<in> set xs" for y
  proof -
    have "y \<in> set (commandQueue ?d)" using sub that by blast
    then have "element y \<noteq> Some cmd" "element y \<noteq> None" using assms(12) by (auto simp: command_ok_def)
    then show ?thesis by (auto simp: queued_message_def M1(3))
  qed
  then have msgs: "map (queued_message (dm_env M1)) xs = map (queued_message ?env) xs" by simp
  obtain s2 res m2 b where s2: "live_drivers M2 ?drv = Some s2" "mset (commandQueue (impl_data s2)) = mset ys"
      "execOpcode (drv_class ?d) ?m (fold (exec_hardware (drv_class ?d)) (map (queued_message ?env) xs) (hardware ?d)) = (res, m2, hardware (impl_data s2))"
      "env_messages (dm_env M2) cmd = Some m2" "env_accessors (dm_env M2) p = Some b" "accessor_sync_mq b = tcq_push ?i 50 []"
      "thread_rounds htop (Suc (length xs)) ?drv M1 = Some M2"
    using ans unfolding answered_after_def by (auto simp: msgs) (auto simp: M1(3))
  have pr: "by_priority xs" "\<forall>y \<in> set xs. sint (base_opcode_priority a + inc_priority) \<le> sint (priority y)"
      "\<forall>y \<in> set ys. sint (priority y) \<le> sint (base_opcode_priority a + inc_priority)"
    using ans unfolding answered_after_def xx by (auto simp: by_priority_def sorted_wrt_append)
  have "atop [e] = e" for e using heap_top.htop_in [OF assms(2), of "[e]"] by simp
  then obtain M3 where "send_wait atop p M2 = Ret (Some (?i, M3))"
    using s2(5,6) by (simp add: send_wait_def tcq_wait_and_pop_def tcq_push_def)
  with perm pr s2 show "\<exists>xs ys M2 M3 s2 res m2. mset (xs @ ys) = mset (commandQueue ?d)
       \<and> by_priority xs \<and> (\<forall>x \<in> set xs. sint (base_opcode_priority a + inc_priority) \<le> sint (priority x))
       \<and> (\<forall>y \<in> set ys. sint (priority y) \<le> sint (base_opcode_priority a + inc_priority))
       \<and> thread_rounds htop (Suc (length xs)) ?drv M1 = Some M2
       \<and> live_drivers M2 ?drv = Some s2 \<and> mset (commandQueue (impl_data s2)) = mset ys
       \<and> execOpcode (drv_class ?d) ?m (fold (exec_hardware (drv_class ?d)) (map (queued_message ?env) xs) (hardware ?d)) = (res, m2, hardware (impl_data s2))
       \<and> env_messages (dm_env M2) cmd = Some m2 \<and> send_wait atop p M2 = Ret (Some (?i, M3))" by blast
qed

definition with_messages :: "nat driver_manager" where
  "with_messages = two_accessors\<lparr>dm_env := (dm_env two_accessors)\<lparr>env_messages :=
     [7 \<mapsto> \<lparr>msg_id = 0, opcode = 100, msg_property = 0, drvResponseMQ = None, inputData = [], resultData = []\<rparr>,
      8 \<mapsto> \<lparr>msg_id = 0, opcode = 101, msg_property = 0, drvResponseMQ = None, inputData = [], resultData = []\<rparr>]\<rparr>\<rparr>"

definition one_pending :: "nat driver_manager" where
  "one_pending = snd (sendAsync 2 7 10 with_messages)"

lemmas pending_eval = one_pending_def with_messages_def sendAsync_def accessor_push_def tcq_push_def driver_eval Let_def

theorem send_answered_witness:
  "fst (send_message 1 8 0 one_pending) = Ret 0
   \<and> (\<exists>n M2 M3 s2. thread_rounds first_max n 0 (snd (send_message 1 8 0 one_pending)) = Some M2
        \<and> live_drivers M2 0 = Some s2 \<and> commandQueue (impl_data s2) = [] \<and> hardware (impl_data s2) = 3
        \<and> map_option resultData (env_messages (dm_env M2) 8) = Some [2]
        \<and> send_wait first_max 1 M2 = Ret (Some (0, M3)))"
proof -
  let ?a = "new_DriverAccessor 0 [] 0"
  let ?x = "\<lparr>element = Some 7, priority = 60, disposeOnDestroy = False\<rparr> :: nat option prio_elem"
  obtain s where s: "live_drivers one_pending 0 = Some s"
    and d: "thread_runs (impl_data s)" "\<not> driverNeedtoDeinitialize (impl_data s)" "drv_class (impl_data s) = example_class"
      "commandQueue (impl_data s) = [?x]" "hardware (impl_data s) = 1"
    by (auto simp: pending_eval)
  have acc: "env_accessors (dm_env one_pending) 1 = Some ?a" "env_accessors (dm_env one_pending) 2 \<noteq> None"
    by (simp_all add: pending_eval)
  have msg: "env_messages (dm_env one_pending) 7 = Some \<lparr>msg_id = 0, opcode = 100, msg_property = 0, drvResponseMQ = Some (AsyncMQ 2), inputData = [], resultData = []\<rparr>"
      "env_messages (dm_env one_pending) 8 = Some \<lparr>msg_id = 0, opcode = 101, msg_property = 0, drvResponseMQ = None, inputData = [], resultData = []\<rparr>"
    by (simp_all add: pending_eval)
  have cl: "completes example_class" by (auto simp: completes_def keeps_head_def example_class_def)
  have q: "command_queue ?a = 0" "accessor_sync_mq ?a = []" "messages_count ?a = 0" "base_opcode_priority ?a = 50"
    by (simp_all add: new_DriverAccessor_def)
  obtain r M1 where send: "send_message 1 8 0 one_pending = (r, M1)" by fastforce
  have ok: "\<forall>x \<in> set (commandQueue (impl_data s)). command_ok 1 8 (dm_env one_pending) x \<and> element x \<noteq> Some 8"
    using d(4) msg acc by (simp add: command_ok_def OP_DEINIT_def)
  have dist: "distinct (map element (commandQueue (impl_data s)))" using d(4) by simp
  have op: "opcode \<lparr>msg_id = 0, opcode = 101, msg_property = 0, drvResponseMQ = None, inputData = [], resultData = []\<rparr> \<noteq> OP_DEINIT" by (simp add: OP_DEINIT_def)
  have s': "live_drivers one_pending (command_queue ?a) = Some s" using s by (simp add: q)
  note fact = send_answered [OF fm.heap_top_axioms fm.heap_top_axioms acc(1) q(2) s' d(1,2) _ msg(2) op dist ok send, unfolded d(3-5) q, OF cl]
  from fact have r: "r = Ret 0" by simp
  from fact obtain xs ys M2 M3 s2 res m2 where *: "mset (xs @ ys) = mset [?x]"
      "\<forall>y \<in> set ys. sint (priority y) \<le> sint ((50 :: u32) + 0)"
      "thread_rounds first_max (Suc (length xs)) 0 M1 = Some M2" "live_drivers M2 0 = Some s2" "mset (commandQueue (impl_data s2)) = mset ys"
      "execOpcode example_class (\<lparr>msg_id = 0, opcode = 101, msg_property = 0, drvResponseMQ = None, inputData = [], resultData = []\<rparr>\<lparr>msg_id := 0, drvResponseMQ := Some (SyncMQ 1)\<rparr>)
         (fold (exec_hardware example_class) (map (queued_message (dm_env one_pending)) xs) 1) = (res, m2, hardware (impl_data s2))"
      "env_messages (dm_env M2) 8 = Some m2" "send_wait first_max 1 M2 = Ret (Some (0, M3))" by (elim conjE exE) blast
  have "xs @ ys = [?x]" using *(1) by (metis mset_single_iff_right)
  then have xs: "xs = [?x]" "ys = []" using *(2) by (auto simp: append_eq_Cons_conv)
  then have "m2 = \<lparr>msg_id = 0, opcode = 101, msg_property = 0, drvResponseMQ = Some (SyncMQ 1), inputData = [], resultData = [2]\<rparr>"
      "hardware (impl_data s2) = 3"
    using *(6) by (auto simp: exec_hardware_def example_class_def)
  then have res: "commandQueue (impl_data s2) = []" "hardware (impl_data s2) = 3" "map_option resultData (env_messages (dm_env M2) 8) = Some [2]"
    using *(5,7) xs by simp_all
  show ?thesis
  proof (intro conjI exI)
    show "fst (send_message 1 8 0 one_pending) = Ret 0" using send r by simp
    show "thread_rounds first_max (Suc (length xs)) 0 (snd (send_message 1 8 0 one_pending)) = Some M2"
      unfolding send snd_conv by (rule *(3))
  qed (rule *(4,8) res)+
qed

section \<open>Where the code is looser than its names\<close>

text \<open>
  The key under which a driver is shared is the concatenation of alias, version and parameter: requests that
  differ in how the text is cut get the same driver, initialized with the parameter of the first.
\<close>

lemma shared_by_text:
  assumes "map_of (mapParameterLiveInstance M) (drv_alias r @ drv_version r @ init_parameter r) = Some drv" and "live_drivers M drv = Some s"
    and "drv_alias r' @ drv_version r' @ init_parameter r' = drv_alias r @ drv_version r @ init_parameter r"
  shows "\<exists>M' a. getNewAccessorForDriverInstance S r' M = (Ret (next_address M), M')
    \<and> env_accessors (dm_env M') (next_address M) = Some a \<and> command_queue a = drv"
  using assms by (auto simp: getNewAccessorForDriverInstance_def identification_def getNewAccessor_def new_DriverAccessor_def Let_def)

text \<open>\<open>getLastAsyncMsg\<close> looks at the queue of the synchronous answers.\<close>

lemma async_answer_not_seen:
  assumes "env_accessors (dm_env M) p = Some a" and "accessor_sync_mq a = []"
  shows "\<exists>M'. getLastAsyncMsg atop p M = Ret (None, M')"
  using assms by (simp add: getLastAsyncMsg_def tcq_try_pop_def)

text \<open>
  Deinitialization lets the thread take one more message: of two commands pending, one at least is neither
  executed nor answered, and its sender waits on.
\<close>

lemma deinit_drops_commands:
  assumes top: "heap_top htop" and d: "thread_runs d" "\<forall>x \<in> set (commandQueue d). \<exists>c. element x = Some c \<and> env_messages env c \<noteq> None"
    and ok: "driverDeinit (drv_class d) (hardware d) = (h, None)"
  shows "\<exists>d' env'. AbstractDriver_deinit htop busy (d, env) = ((d', env'), None)
    \<and> length (commandQueue d) \<le> length (commandQueue d') \<and> \<not> thread_runs d'"
proof (cases busy)
  case True
  then show ?thesis using d(1) ok by (simp add: AbstractDriver_deinit_def join_thread_def tcq_push_def)
next
  case False
  let ?d = "d\<lparr>driverNeedtoDeinitialize := True, hardware := h, commandQueue := tcq_push None 50 (commandQueue d)\<rparr>"
  let ?q = "commandQueue ?d"
  have t: "htop ?q \<in> set ?q" by (rule heap_top.htop_in [OF top]) (simp add: tcq_push_def)
  then have len: "length (commandQueue d) \<le> length (remove1 (htop ?q) ?q)" by (simp add: length_remove1 del: remove1.simps) (simp add: tcq_push_def)
  have "\<exists>d' env'. scan_message htop ?d env = Some (d', env') \<and> commandQueue d' = remove1 (htop ?q) ?q \<and> \<not> thread_runs d'"
    using t d(2)
    by (auto simp: scan_message_def tcq_wait_and_pop_def tcq_push_def exec_message_def loops_again_def Let_def
        split: prod.split option.split)
  then show ?thesis using False d(1) ok len by (auto simp: AbstractDriver_deinit_def join_thread_def)
qed

end
