(* ===== verification/Work_Unit.thy ===== *)
theory Work_Unit
  imports Data_Wrapper Rpc_Registry
begin

text \<open>
  The life of one control unit in its process (\<open>cu_toolkit/ControlManager/WorkUnitManagement.*\<close>): a state
  machine takes the unit through its registration with the metadata server and, when it is unloaded, back out.
  The virtual functions of the unit, the answer of the server's channel and the registry of remote actions are
  parameters; the last is an interface with laws, met by the dispatcher of \<open>Rpc_Dispatch\<close>.
\<close>

section \<open>State machines\<close>

text \<open>
  As for the services, the engine is Boost.MSM: \<open>process_event\<close> takes a table, a state and an event and gives the
  next state and whether a row fired.
\<close>

type_synonym ('s, 'e) machine = "('s \<times> 'e \<times> 's) list \<Rightarrow> 's \<Rightarrow> 'e \<Rightarrow> 's \<times> bool"

definition row_at :: "'s \<times> 'e \<times> 's \<Rightarrow> 's \<times> 'e" where
  "row_at r = (fst r, fst (snd r))"

locale msm_rows =
  fixes process_event :: "('s, 'e) machine"
  assumes row_fires: "distinct (map row_at T) \<Longrightarrow> (s, e, t) \<in> set T \<Longrightarrow> process_event T s e = (t, True)"
    and row_missing: "(s, e) \<notin> row_at ` set T \<Longrightarrow> process_event T s e = (s, False)"

definition lookup_event :: "('s, 'e) machine" where
  "lookup_event T s e = (case find (\<lambda>r. row_at r = (s, e)) T of None \<Rightarrow> (s, False) | Some r \<Rightarrow> (snd (snd r), True))"

interpretation table_rows: msm_rows lookup_event
proof
  fix T :: "('s \<times> 'e \<times> 's) list" and s e t
  assume d: "distinct (map row_at T)" and m: "(s, e, t) \<in> set T"
  have "find (\<lambda>r. row_at r = row_at (s, e, t)) T = Some (s, e, t)"
    by (rule find_keys_distinct [OF d m])
  then show "lookup_event T s e = (t, True)" by (simp add: lookup_event_def row_at_def)
next
  fix T :: "('s \<times> 'e \<times> 's) list" and s e
  assume "(s, e) \<notin> row_at ` set T"
  then show "lookup_event T s e = (s, False)" by (simp add: lookup_event_def find_key_None [symmetric])
qed

datatype unit_state = UnitStateUnpublished | UnitStateStartPublishing | UnitStatePublishing | UnitStatePublished
  | UnitStateStartUnpublishing | UnitStateUnpublishing | UnitStatePublishingFailure

datatype unit_event = UnitEventTypeUnpublished | UnitEventTypePublish | UnitEventTypePublishing | UnitEventTypePublished
  | UnitEventTypeUnpublish | UnitEventTypeUnpublishing | UnitEventTypeFailure

definition wu_transition_table :: "(unit_state \<times> unit_event \<times> unit_state) list" where
  "wu_transition_table =
     [(UnitStateUnpublished, UnitEventTypePublish, UnitStateStartPublishing),
      (UnitStateStartPublishing, UnitEventTypePublishing, UnitStatePublishing),
      (UnitStatePublishing, UnitEventTypePublished, UnitStatePublished),
      (UnitStatePublished, UnitEventTypeUnpublish, UnitStateStartUnpublishing),
      (UnitStateStartUnpublishing, UnitEventTypeUnpublishing, UnitStateUnpublishing),
      (UnitStateUnpublishing, UnitEventTypeUnpublished, UnitStateUnpublished),
      (UnitStatePublishing, UnitEventTypeFailure, UnitStatePublishingFailure)]"

type_synonym wu_machine = "(unit_state, unit_event) machine"

section \<open>The unit and its surroundings\<close>

text \<open>
  The virtual functions of \<open>AbstractControlUnit\<close> a work unit calls. A unit declares its actions as a list of
  objects, each with the addresses of its action descriptors.
\<close>

record 'u unit_class =
  getCUID :: "'u \<Rightarrow> string"
  getDeviceID :: "'u \<Rightarrow> string"
  set_control_key :: "string \<Rightarrow> 'u \<Rightarrow> 'u"
  defineActionAndDataset :: "data_wrapper \<Rightarrow> 'u \<Rightarrow> unit outcome \<times> data_wrapper \<times> 'u"
  getDeclareActionInstance :: "'u \<Rightarrow> nat list list"
  unit__stop :: "data_wrapper \<Rightarrow> 'u \<Rightarrow> unit outcome \<times> 'u"
  unit__deinit :: "data_wrapper \<Rightarrow> 'u \<Rightarrow> unit outcome \<times> 'u"
  undefineActionAndDataset :: "'u \<Rightarrow> unit outcome \<times> 'u"
  unit_serviceState :: "'u \<Rightarrow> u8"

record 'd registry =
  reg_add :: "nat list \<Rightarrow> 'd \<Rightarrow> 'd"
  reg_remove :: "nat list \<Rightarrow> 'd \<Rightarrow> 'd"

text \<open>What is around a unit: the registry, and the messages that went to the metadata server.\<close>

record 'd surroundings =
  action_registry :: 'd
  mds_sent :: "data_wrapper list"

record 'u work_unit =
  mds_registration_message :: data_wrapper
  wu_instance_sm :: unit_state
  wu_active :: bool
  wu_mds_channel :: bool
  device_event_channel :: bool
  work_unit_instance :: 'u

definition new_WorkUnitManagement :: "'u \<Rightarrow> 'u work_unit" where
  "new_WorkUnitManagement u =
     \<lparr>mds_registration_message = new_CDataWrapper, wu_instance_sm = UnitStateUnpublished, wu_active = True,
      wu_mds_channel = False, device_event_channel = False, work_unit_instance = u\<rparr>"

record ('u, 'd) wu_system =
  wu_pe :: wu_machine
  wu_class :: "'u unit_class"
  wu_registry :: "'d registry"
  local_address :: string
  mds_answer :: "data_wrapper \<Rightarrow> int"

section \<open>Operations\<close>

definition EC_MDS_UNIT_SERV_REGISTRATION_OK :: u32 where
  "EC_MDS_UNIT_SERV_REGISTRATION_OK = 5"

definition EC_MDS_UNIT_SERV_BAD_US_SM_STATE :: int where
  "EC_MDS_UNIT_SERV_BAD_US_SM_STATE = 8"

definition DEVICE_ID_key :: string where
  "DEVICE_ID_key = ''ds_attr_dom''"

definition MDS_REGISTER_UNIT_SERVER_RESULT :: string where
  "MDS_REGISTER_UNIT_SERVER_RESULT = ''reg_unit_serv_result''"

definition CS_CM_CU_INSTANCE_NET_ADDRESS :: string where
  "CS_CM_CU_INSTANCE_NET_ADDRESS = ''cs|cm|cu_instance_net_address''"

definition bad_state :: "string \<Rightarrow> cexception" where
  "bad_state msg = CException EC_MDS_UNIT_SERV_BAD_US_SM_STATE msg ''WorkUnitManagement''"

text \<open>An event fired by the code: no row for it raises the exception.\<close>

definition fire :: "('u, 'd) wu_system \<Rightarrow> unit_event \<Rightarrow> string \<Rightarrow> 'u work_unit \<Rightarrow> unit outcome \<times> 'u work_unit" where
  "fire S ev msg w =
     (case wu_pe S wu_transition_table (wu_instance_sm w) ev of
        (st, True) \<Rightarrow> (Ret (), w\<lparr>wu_instance_sm := st\<rparr>)
      | (st, False) \<Rightarrow> (Throw (bad_state msg), w\<lparr>wu_instance_sm := st\<rparr>))"

definition turnOn :: "('u, 'd) wu_system \<Rightarrow> 'u work_unit \<Rightarrow> unit outcome \<times> 'u work_unit" where
  "turnOn S w = fire S UnitEventTypePublish ''Bad state of the sm for UnitEventTypePublish event'' w"

definition turnOFF :: "('u, 'd) wu_system \<Rightarrow> 'u work_unit \<Rightarrow> unit outcome \<times> 'u work_unit" where
  "turnOFF S w = fire S UnitEventTypeUnpublish ''Bad state of the sm for UnitEventTypeUnpublish event'' w"

text \<open>
  The message goes out as a copy of the unit's description with the address of this process. The result of the
  channel is only logged.
\<close>

definition sendConfPackToMDS :: "('u, 'd) wu_system \<Rightarrow> data_wrapper \<Rightarrow> 'd surroundings \<Rightarrow> int \<times> 'd surroundings" where
  "sendConfPackToMDS S dataToSend E =
     (let mdsPack = addStringValue CS_CM_CU_INSTANCE_NET_ADDRESS (local_address S) (setSerializedData (getBSONData dataToSend) new_CDataWrapper)
      in (mds_answer S mdsPack, E\<lparr>mds_sent := mds_sent E @ [mdsPack]\<rparr>))"

text \<open>A call whose exceptions are swallowed; undefined behaviour is not.\<close>

definition swallow :: "('u \<Rightarrow> unit outcome \<times> 'u) \<Rightarrow> 'u work_unit \<Rightarrow> unit outcome \<times> 'u work_unit" where
  "swallow f w =
     (case f (work_unit_instance w) of
        (Fault, u) \<Rightarrow> (Fault, w\<lparr>work_unit_instance := u\<rparr>)
      | (_, u) \<Rightarrow> (Ret (), w\<lparr>work_unit_instance := u\<rparr>))"

definition wbind :: "unit outcome \<times> 'w \<Rightarrow> ('w \<Rightarrow> unit outcome \<times> 'w) \<Rightarrow> unit outcome \<times> 'w" where
  "wbind r f = (case r of (Ret _, w) \<Rightarrow> f w | (Throw ex, w) \<Rightarrow> (Throw ex, w) | (Fault, w) \<Rightarrow> (Fault, w))"

definition unpublishing_step :: "('u, 'd) wu_system \<Rightarrow> 'u work_unit \<Rightarrow> unit outcome \<times> 'u work_unit" where
  "unpublishing_step S w =
     (let C = wu_class S;
          fakeDWForDeinit = addStringValue DEVICE_ID_key (getCUID C (work_unit_instance w)) new_CDataWrapper in
      wbind (swallow (unit__stop C fakeDWForDeinit) w) (\<lambda>w.
      wbind (swallow (unit__deinit C fakeDWForDeinit) w) (\<lambda>w.
      wbind (swallow (undefineActionAndDataset C) w) (\<lambda>w.
      fire S UnitEventTypeUnpublished ''Bad state of the sm for unpublishing event'' (w\<lparr>device_event_channel := False\<rparr>)))))"

definition scheduleSM ::
  "('u, 'd) wu_system \<Rightarrow> 'u work_unit \<Rightarrow> 'd surroundings \<Rightarrow> unit outcome \<times> 'u work_unit \<times> 'd surroundings" where
  "scheduleSM S w E =
     (case wu_instance_sm w of
        UnitStateUnpublished \<Rightarrow> (Ret (), w\<lparr>wu_active := False\<rparr>, E)
      | UnitStateStartPublishing \<Rightarrow>
          (case defineActionAndDataset (wu_class S) (mds_registration_message w) (work_unit_instance w) of
             (r, msg, u) \<Rightarrow>
               let w1 = w\<lparr>mds_registration_message := msg, wu_active := True, device_event_channel := True, work_unit_instance := u\<rparr> in
               (case wbind (r, w1) (fire S UnitEventTypePublishing ''Bad state of the sm for publishing event'') of
                  (r, w2) \<Rightarrow> (r, w2, E)))
      | UnitStatePublishing \<Rightarrow>
          if wu_mds_channel w then (Ret (), w, snd (sendConfPackToMDS S (mds_registration_message w) E))
          else (Fault, w, E)
      | UnitStatePublished \<Rightarrow>
          (Ret (), w\<lparr>wu_active := False\<rparr>,
           E\<lparr>action_registry := fold (reg_add (wu_registry S)) (getDeclareActionInstance (wu_class S) (work_unit_instance w)) (action_registry E)\<rparr>)
      | UnitStateStartUnpublishing \<Rightarrow>
          (case fire S UnitEventTypeUnpublishing ''Bad state of the sm for unpublish event'' (w\<lparr>wu_active := True\<rparr>) of
             (r, w1) \<Rightarrow> (r, w1,
               E\<lparr>action_registry := fold (reg_remove (wu_registry S)) (getDeclareActionInstance (wu_class S) (work_unit_instance w)) (action_registry E)\<rparr>))
      | UnitStatePublishingFailure \<Rightarrow> (Ret (), w\<lparr>wu_active := False\<rparr>, E)
      | UnitStateUnpublishing \<Rightarrow> (case unpublishing_step S w of (r, w1) \<Rightarrow> (r, w1, E)))"

definition smNeedToSchedule :: "'u work_unit \<Rightarrow> bool" where
  "smNeedToSchedule w \<longleftrightarrow> wu_active w
     \<or> (wu_instance_sm w \<noteq> UnitStatePublished \<and> wu_instance_sm w \<noteq> UnitStateUnpublished \<and> wu_instance_sm w \<noteq> UnitStatePublishingFailure)"

definition manageACKPack :: "('u, 'd) wu_system \<Rightarrow> data_wrapper \<Rightarrow> 'u work_unit \<Rightarrow> bool outcome \<times> 'u work_unit" where
  "manageACKPack S ack_pack w =
     (if \<not> hasKey DEVICE_ID_key ack_pack then (Throw (CException (- 1) ''No device id found'' ''WorkUnitManagement::manageACKPack''), w)
      else case getStringValue DEVICE_ID_key ack_pack of
        None \<Rightarrow> (Throw bson_assertion, w)
      | Some device_id \<Rightarrow>
          if device_id \<noteq> getCUID (wu_class S) (work_unit_instance w)
          then (Throw (CException (- 2) ''received id not equal to work unit instance id'' ''WorkUnitManagement::manageACKPack''), w)
          else if \<not> hasKey MDS_REGISTER_UNIT_SERVER_RESULT ack_pack
          then (Throw (CException (- 3) ''No result received'' ''WorkUnitManagement::manageACKPack''), w)
          else if getInt32Value MDS_REGISTER_UNIT_SERVER_RESULT ack_pack = EC_MDS_UNIT_SERV_REGISTRATION_OK
          then (case fire S UnitEventTypePublished ''Bad state of the sm for UnitEventTypePublished event'' w of
                  (Ret _, w1) \<Rightarrow> (Ret True, w1) | (Throw ex, w1) \<Rightarrow> (Throw ex, w1) | (Fault, w1) \<Rightarrow> (Fault, w1))
          else (case fire S UnitEventTypeFailure ''Bad state of the sm for UnitEventTypeFailure event'' w of
                  (Ret _, w1) \<Rightarrow> (Ret False, w1) | (Throw ex, w1) \<Rightarrow> (Throw ex, w1) | (Fault, w1) \<Rightarrow> (Fault, w1)))"

end
