(* ===== verification/Control_Manager.thy ===== *)
theory Control_Manager
  imports Work_Unit Driver_Manager
begin

text \<open>
  The manager of the control units of a process (\<open>cu_toolkit/ControlManager/ControlManager.*\<close>): it takes
  submitted units into the map of unstable units, lets their state machines step, moves them to the map of
  registered units and back, and answers the remote requests to load and unload units. With a unit server it
  first registers itself. A \<open>std::map\<close> is the list of its entries in the order of the keys.
\<close>

section \<open>Ordered maps\<close>

definition om_insert :: "string \<Rightarrow> 'v \<Rightarrow> (string \<times> 'v) list \<Rightarrow> (string \<times> 'v) list" where
  "om_insert k v m = (if map_of m k = None then insort_key fst (k, v) m else m)"

definition om_erase :: "string \<Rightarrow> (string \<times> 'v) list \<Rightarrow> (string \<times> 'v) list" where
  "om_erase k m = filter (\<lambda>e. fst e \<noteq> k) m"

lemma map_of_insort_entry: "k \<notin> fst ` set m \<Longrightarrow> map_of (insort_key fst (k, v) m) x = (if x = k then Some v else map_of m x)"
  by (induction m) auto

lemma map_of_om_insert: "map_of (om_insert k v m) x = (if x = k \<and> map_of m k = None then Some v else map_of m x)"
  by (auto simp: om_insert_def map_of_insort_entry map_of_eq_None_iff)

lemma map_of_om_erase: "map_of (om_erase k m) x = (if x = k then None else map_of m x)"
  by (induction m) (auto simp: om_erase_def)

section \<open>State\<close>

datatype us_state = US_Unpublished | US_Publishing | US_Published | US_PublishingFailure

datatype us_event = UnitServerEventTypeUnpublished | UnitServerEventTypePublishing | UnitServerEventTypePublished | UnitServerEventTypeFailure

definition us_transition_table :: "(us_state \<times> us_event \<times> us_state) list" where
  "us_transition_table =
     [(US_Unpublished, UnitServerEventTypePublishing, US_Publishing),
      (US_Publishing, UnitServerEventTypePublished, US_Published),
      (US_Publishing, UnitServerEventTypeFailure, US_PublishingFailure),
      (US_Published, UnitServerEventTypeUnpublished, US_Unpublished)]"

text \<open>
  The management objects of the units live at addresses and are freed with the last map entry. \<open>timer_on\<close>: the
  timer that calls \<open>timeout\<close> is installed. An instancer makes a unit from its identifier, its parameter and the
  drivers it is to use; it may give none.
\<close>

type_synonym 'u instancer = "string \<Rightarrow> string \<Rightarrow> drv_request_info list \<Rightarrow> 'u option"

record ('u, 'd) control_manager =
  use_unit_server :: bool
  unit_server_alias :: string
  unit_server_key :: string
  unit_server_sm :: us_state
  timer_on :: bool
  thread_run :: bool
  threads_started :: nat
  queue_submitted_cu :: "'u list"
  map_cuid_reg_unreg_instance :: "(string \<times> nat) list"
  map_cuid_registered_instance :: "(string \<times> nat) list"
  map_cu_alias_instancer :: "(string \<times> 'u instancer) list"
  work_units :: "nat \<Rightarrow> 'u work_unit option"
  wu_next :: nat
  cm_around :: "'d surroundings"

type_synonym us_machine = "(us_state, us_event) machine"

section \<open>Units come and go\<close>

definition submitControlUnit :: "'u \<Rightarrow> ('u, 'd) control_manager \<Rightarrow> ('u, 'd) control_manager" where
  "submitControlUnit u M = M\<lparr>queue_submitted_cu := queue_submitted_cu M @ [u]\<rparr>"

text \<open>One submitted unit: it gets its management object, a first step and the event that starts it.\<close>

definition take_submitted :: "('u, 'd) wu_system \<Rightarrow> ('u, 'd) control_manager \<Rightarrow> unit outcome \<times> ('u, 'd) control_manager" where
  "take_submitted S M =
     (case queue_submitted_cu M of
        [] \<Rightarrow> (Ret (), M)
      | u # q \<Rightarrow>
          let M1 = M\<lparr>queue_submitted_cu := q\<rparr> in
          (case scheduleSM S (new_WorkUnitManagement u) (cm_around M1) of
             (Ret _, w, E) \<Rightarrow>
               (case turnOn S w of
                  (Ret _, w1) \<Rightarrow>
                    let cuid = getCUID (wu_class S) (work_unit_instance w1); M2 = M1\<lparr>cm_around := E\<rparr> in
                    if map_of (map_cuid_reg_unreg_instance M2) cuid \<noteq> None \<or> map_of (map_cuid_registered_instance M2) cuid \<noteq> None
                    then (Ret (), M2)
                    else (Ret (), M2\<lparr>map_cuid_reg_unreg_instance := om_insert cuid (wu_next M2) (map_cuid_reg_unreg_instance M2),
                                     work_units := (work_units M2)(wu_next M2 \<mapsto> w1\<lparr>wu_mds_channel := True\<rparr>),
                                     wu_next := Suc (wu_next M2)\<rparr>)
                | (Throw ex, w1) \<Rightarrow> (Throw ex, M1\<lparr>cm_around := E\<rparr>)
                | (Fault, w1) \<Rightarrow> (Fault, M1))
           | (Throw ex, w, E) \<Rightarrow> (Throw ex, M1\<lparr>cm_around := E\<rparr>)
           | (Fault, w, E) \<Rightarrow> (Fault, M1)))"

fun take_all :: "('u, 'd) wu_system \<Rightarrow> nat \<Rightarrow> ('u, 'd) control_manager \<Rightarrow> unit outcome \<times> ('u, 'd) control_manager" where
  "take_all S 0 M = (Ret (), M)"
| "take_all S (Suc n) M = wbind (take_submitted S M) (take_all S n)"

text \<open>
  One entry of the map of unstable units: a unit that needs no step leaves the map, to the registered ones when
  it is published, otherwise for good.
\<close>

definition migrate_one :: "string \<times> nat \<Rightarrow> ('u, 'd) control_manager \<Rightarrow> unit outcome \<times> ('u, 'd) control_manager" where
  "migrate_one e M =
     (case work_units M (snd e) of
        None \<Rightarrow> (Fault, M)
      | Some w \<Rightarrow>
          if smNeedToSchedule w then (Ret (), M)
          else if wu_instance_sm w = UnitStatePublished
          then (Ret (), M\<lparr>map_cuid_reg_unreg_instance := om_erase (fst e) (map_cuid_reg_unreg_instance M),
                          map_cuid_registered_instance := om_insert (fst e) (snd e) (map_cuid_registered_instance M)\<rparr>)
          else (Ret (), M\<lparr>map_cuid_reg_unreg_instance := om_erase (fst e) (map_cuid_reg_unreg_instance M),
                          work_units := (work_units M)(snd e := None)\<rparr>))"

definition for_each :: "('e \<Rightarrow> 'm \<Rightarrow> unit outcome \<times> 'm) \<Rightarrow> 'e list \<Rightarrow> 'm \<Rightarrow> unit outcome \<times> 'm" where
  "for_each f es M = foldl (\<lambda>r e. wbind r (f e)) (Ret (), M) es"

definition migrateStableAndUnstableSMCUInstance :: "('u, 'd) control_manager \<Rightarrow> unit outcome \<times> ('u, 'd) control_manager" where
  "migrateStableAndUnstableSMCUInstance M = for_each migrate_one (map_cuid_reg_unreg_instance M) M"

definition step_one :: "('u, 'd) wu_system \<Rightarrow> string \<times> nat \<Rightarrow> ('u, 'd) control_manager \<Rightarrow> unit outcome \<times> ('u, 'd) control_manager" where
  "step_one S e M =
     (case work_units M (snd e) of
        None \<Rightarrow> (Fault, M)
      | Some w \<Rightarrow>
          if smNeedToSchedule w then
            (case scheduleSM S w (cm_around M) of
               (r, w1, E) \<Rightarrow> (r, M\<lparr>work_units := (work_units M)(snd e \<mapsto> w1), cm_around := E\<rparr>))
          else (Ret (), M))"

definition makeSMSteps :: "('u, 'd) wu_system \<Rightarrow> ('u, 'd) control_manager \<Rightarrow> unit outcome \<times> ('u, 'd) control_manager" where
  "makeSMSteps S M = for_each (step_one S) (map_cuid_reg_unreg_instance M) M"

text \<open>
  One iteration of the manager's thread. No exception is caught: one that comes out of a unit ends the process.
\<close>

definition manageControlUnit :: "('u, 'd) wu_system \<Rightarrow> ('u, 'd) control_manager \<Rightarrow> unit outcome \<times> ('u, 'd) control_manager" where
  "manageControlUnit S M =
     wbind (take_all S (length (queue_submitted_cu M)) M) (\<lambda>M1.
     wbind (migrateStableAndUnstableSMCUInstance M1) (\<lambda>M2.
     if map_cuid_reg_unreg_instance M2 \<noteq> [] then makeSMSteps S M2 else (Ret (), M2)))"

section \<open>Remote requests\<close>

definition PARAM_LOAD_CONTROL_UNIT_TYPE_ALIAS :: string where
  "PARAM_LOAD_CONTROL_UNIT_TYPE_ALIAS = ''controlUnitTypeAlias''"

definition PARAM_LOAD_CONTROL_UNIT_PARAM :: string where
  "PARAM_LOAD_CONTROL_UNIT_PARAM = ''loadControlUnitParam''"

definition PARAM_LOAD_CONTROL_UNIT_DRIVER_DESC :: string where
  "PARAM_LOAD_CONTROL_UNIT_DRIVER_DESC = ''DriverDescription''"

definition DRIVER_DESC_NAME :: string where
  "DRIVER_DESC_NAME = ''DriverDescriptionName''"

definition DRIVER_DESC_VERSION :: string where
  "DRIVER_DESC_VERSION = ''DriverDescriptionVersion''"

definition DRIVER_DESC_INIT_PARAM :: string where
  "DRIVER_DESC_INIT_PARAM = ''DriverDescriptionInitParam''"

definition cm_error :: "int \<Rightarrow> string \<Rightarrow> cexception" where
  "cm_error code msg = CException code msg ''ControlManager''"

definition driver_description :: "data_wrapper \<Rightarrow> drv_request_info outcome" where
  "driver_description d =
     (if \<not> hasKey DRIVER_DESC_NAME d then Throw (cm_error (- 4) ''No driver name found'')
      else if \<not> hasKey DRIVER_DESC_VERSION d then Throw (cm_error (- 5) ''No driver version found'')
      else if \<not> hasKey DRIVER_DESC_INIT_PARAM d then Throw (cm_error (- 6) ''No driver init param name found'')
      else obind (string_param DRIVER_DESC_NAME d) (\<lambda>n.
           obind (string_param DRIVER_DESC_VERSION d) (\<lambda>v.
           obind (string_param DRIVER_DESC_INIT_PARAM d) (\<lambda>p. Ret \<lparr>drv_alias = n, drv_version = v, init_parameter = p\<rparr>))))"

text \<open>An element that is no document asserts.\<close>

fun driver_descriptions :: "bson_value list \<Rightarrow> drv_request_info list outcome" where
  "driver_descriptions [] = Ret []"
| "driver_descriptions (B_object d # vs) =
     obind (driver_description (setSerializedData d new_CDataWrapper)) (\<lambda>r. obind (driver_descriptions vs) (\<lambda>rs. Ret (r # rs)))"
| "driver_descriptions (_ # vs) = Throw bson_assertion"

definition driver_params :: "data_wrapper \<Rightarrow> drv_request_info list outcome" where
  "driver_params d =
     (if \<not> hasKey PARAM_LOAD_CONTROL_UNIT_DRIVER_DESC d then Ret []
      else case getVectorValue PARAM_LOAD_CONTROL_UNIT_DRIVER_DESC d of
        None \<Rightarrow> Throw bson_assertion
      | Some vs \<Rightarrow> driver_descriptions vs)"

definition load_options :: "data_wrapper \<Rightarrow> string outcome" where
  "load_options d = (if hasKey PARAM_LOAD_CONTROL_UNIT_PARAM d then string_param PARAM_LOAD_CONTROL_UNIT_PARAM d else Ret '''')"

definition check_load_params :: "data_wrapper option \<Rightarrow> data_wrapper outcome" where
  "check_load_params message_data =
     (case message_data of
        None \<Rightarrow> Throw (cm_error (- 1) ''No param found'')
      | Some d \<Rightarrow>
          if \<not> hasKey PARAM_LOAD_CONTROL_UNIT_TYPE_ALIAS d then Throw (cm_error (- 2) ''No instancer alias'')
          else if \<not> hasKey DEVICE_ID_key d then Throw (cm_error (- 3) ''No id for the work unit instance found'')
          else Ret d)"

definition instance_to_load :: "data_wrapper option \<Rightarrow> ('u, 'd) control_manager \<Rightarrow> 'u outcome" where
  "instance_to_load message_data M =
     obind (check_load_params message_data) (\<lambda>d.
     obind (string_param PARAM_LOAD_CONTROL_UNIT_TYPE_ALIAS d) (\<lambda>work_unit_type.
     case map_of (map_cu_alias_instancer M) work_unit_type of
       None \<Rightarrow> Throw (cm_error (- 2) ''No work unit instancer's found for the alias'')
     | Some inst \<Rightarrow>
         obind (string_param DEVICE_ID_key d) (\<lambda>work_unit_id.
         obind (load_options d) (\<lambda>options.
         if map_of (map_cuid_reg_unreg_instance M) work_unit_id \<noteq> None then Throw (cm_error (- 3) ''Another work unit use the same id'')
         else if map_of (map_cuid_registered_instance M) work_unit_id \<noteq> None then Throw (cm_error (- 4) ''Another work unit use the same id'')
         else obind (driver_params d) (\<lambda>drivers.
           case inst work_unit_id options drivers of
             None \<Rightarrow> Throw (cm_error (- 7) ''Error creating work unit instance'')
           | Some u \<Rightarrow> Ret u)))))"

definition loadControlUnit :: "('u, 'd) wu_system \<Rightarrow> data_wrapper option \<Rightarrow> ('u, 'd) control_manager \<Rightarrow> unit outcome \<times> ('u, 'd) control_manager" where
  "loadControlUnit S message_data M =
     (case instance_to_load message_data M of
        Ret u \<Rightarrow> (Ret (), submitControlUnit (set_control_key (wu_class S) ''mds'' u) M)
      | Throw ex \<Rightarrow> (Throw ex, M)
      | Fault \<Rightarrow> (Fault, M))"

text \<open>
  The unit goes to the map of unstable units before its machine has taken the event; an exception of the event
  leaves it in both.
\<close>

definition unload_unit :: "('u, 'd) wu_system \<Rightarrow> string \<Rightarrow> nat \<Rightarrow> ('u, 'd) control_manager \<Rightarrow> unit outcome \<times> ('u, 'd) control_manager" where
  "unload_unit S work_unit_id a M =
     (case work_units M a of
        None \<Rightarrow> (Fault, M)
      | Some w \<Rightarrow>
          let M1 = M\<lparr>map_cuid_reg_unreg_instance := om_insert work_unit_id a (map_cuid_reg_unreg_instance M)\<rparr> in
          (case turnOFF S w of
             (Ret _, w1) \<Rightarrow>
               (Ret (), M1\<lparr>work_units := (work_units M1)(a \<mapsto> w1),
                           map_cuid_registered_instance := om_erase work_unit_id (map_cuid_registered_instance M1)\<rparr>)
           | (r, w1) \<Rightarrow> (r, M1\<lparr>work_units := (work_units M1)(a \<mapsto> w1)\<rparr>)))"

definition unloadControlUnit ::
  "('u, 'd) wu_system \<Rightarrow> data_wrapper option \<Rightarrow> ('u, 'd) control_manager \<Rightarrow> unit outcome \<times> ('u, 'd) control_manager" where
  "unloadControlUnit S message_data M =
     (case obind (check_load_params message_data) (\<lambda>d.
           obind (string_param PARAM_LOAD_CONTROL_UNIT_TYPE_ALIAS d) (\<lambda>_. string_param DEVICE_ID_key d)) of
        Ret work_unit_id \<Rightarrow>
          (case map_of (map_cuid_registered_instance M) work_unit_id of
             None \<Rightarrow> (Throw (cm_error (- 2) ''Work unit not found on registered's map''), M)
           | Some a \<Rightarrow> unload_unit S work_unit_id a M)
      | Throw ex \<Rightarrow> (Throw ex, M)
      | Fault \<Rightarrow> (Fault, M))"

definition ack_unit :: "('u, 'd) wu_system \<Rightarrow> nat \<Rightarrow> data_wrapper \<Rightarrow> ('u, 'd) control_manager \<Rightarrow> unit outcome \<times> ('u, 'd) control_manager" where
  "ack_unit S a d M =
     (case work_units M a of
        None \<Rightarrow> (Fault, M)
      | Some w \<Rightarrow>
          (case manageACKPack S d w of
             (Ret _, w1) \<Rightarrow> (Ret (), M\<lparr>work_units := (work_units M)(a \<mapsto> w1)\<rparr>)
           | (Throw ex, w1) \<Rightarrow> (Throw ex, M\<lparr>work_units := (work_units M)(a \<mapsto> w1)\<rparr>)
           | (Fault, w1) \<Rightarrow> (Fault, M)))"

definition workUnitRegistrationACK ::
  "('u, 'd) wu_system \<Rightarrow> data_wrapper option \<Rightarrow> ('u, 'd) control_manager \<Rightarrow> unit outcome \<times> ('u, 'd) control_manager" where
  "workUnitRegistrationACK S message_data M =
     (case message_data of
        None \<Rightarrow> (Throw (cm_error (- 1) ''No param found''), M)
      | Some d \<Rightarrow>
          if \<not> hasKey DEVICE_ID_key d then (Throw (cm_error (- 2) ''No device id found''), M)
          else case getStringValue DEVICE_ID_key d of
            None \<Rightarrow> (Throw bson_assertion, M)
          | Some device_id \<Rightarrow>
              (case map_of (map_cuid_reg_unreg_instance M) device_id of
                 None \<Rightarrow> (Throw (cm_error (- 3) ''No registering work unit found with the device id''), M)
               | Some a \<Rightarrow> ack_unit S a d M))"

text \<open>The states of the registered units, sent to the metadata server.\<close>

fun unit_state_number :: "unit_state \<Rightarrow> u32" where
  "unit_state_number UnitStateUnpublished = 0"
| "unit_state_number UnitStateStartPublishing = 1"
| "unit_state_number UnitStatePublishing = 2"
| "unit_state_number UnitStatePublished = 3"
| "unit_state_number UnitStateStartUnpublishing = 4"
| "unit_state_number UnitStateUnpublishing = 5"
| "unit_state_number UnitStatePublishingFailure = 6"

definition unit_status_item :: "('u, 'd) wu_system \<Rightarrow> ('u, 'd) control_manager \<Rightarrow> string \<times> nat \<Rightarrow> data_wrapper outcome" where
  "unit_status_item S M e =
     (case work_units M (snd e) of
        None \<Rightarrow> Fault
      | Some w \<Rightarrow>
          Ret (addInt32Value (fst e @ ''_state'') (ucast (unit_serviceState (wu_class S) (work_unit_instance w)))
               (addInt32Value (fst e @ ''_sm_state'') (unit_state_number (wu_instance_sm w))
               (addStringValue ''device_key'' (fst e) new_CDataWrapper))))"

fun status_items :: "('u, 'd) wu_system \<Rightarrow> ('u, 'd) control_manager \<Rightarrow> (string \<times> nat) list \<Rightarrow> data_wrapper \<Rightarrow> data_wrapper outcome" where
  "status_items S M [] d = Ret d"
| "status_items S M (e # es) d =
     obind (unit_status_item S M e) (\<lambda>item. status_items S M es (append_to_array (B_object (getBSONData item)) d))"

definition unitServerStatus :: "('u, 'd) wu_system \<Rightarrow> u64 \<Rightarrow> ('u, 'd) control_manager \<Rightarrow> unit outcome \<times> ('u, 'd) control_manager" where
  "unitServerStatus S now M =
     (let d = addInt32Value ''heartbeatUnitServer'' (ucast now)
              (addStringValue ''unit_server_alias'' (if unit_server_alias M \<noteq> '''' then unit_server_alias M else ''No Server Defined'') new_CDataWrapper)
      in case status_items S M (map_cuid_registered_instance M) d of
           Ret d1 \<Rightarrow>
             (Ret (), M\<lparr>cm_around := (cm_around M)\<lparr>mds_sent := mds_sent (cm_around M) @ [finalizeArrayForKey ''unit_server_cu_states'' d1]\<rparr>\<rparr>)
         | Throw ex \<Rightarrow> (Throw ex, M)
         | Fault \<Rightarrow> (Fault, M))"

section \<open>The unit server\<close>

definition startControlUnitSMThread :: "('u, 'd) control_manager \<Rightarrow> ('u, 'd) control_manager" where
  "startControlUnitSMThread M = M\<lparr>thread_run := True, threads_started := Suc (threads_started M)\<rparr>"

definition stopControlUnitSMThread :: "('u, 'd) control_manager \<Rightarrow> ('u, 'd) control_manager" where
  "stopControlUnitSMThread M = M\<lparr>thread_run := False\<rparr>"

definition cm_start :: "('u, 'd) control_manager \<Rightarrow> ('u, 'd) control_manager" where
  "cm_start M = (if use_unit_server M then M\<lparr>timer_on := True\<rparr> else startControlUnitSMThread M)"

definition cm_stop :: "('u, 'd) control_manager \<Rightarrow> ('u, 'd) control_manager" where
  "cm_stop M = stopControlUnitSMThread M"

definition sendUnitServerRegistration :: "('u, 'd) control_manager \<Rightarrow> ('u, 'd) control_manager" where
  "sendUnitServerRegistration M =
     (let d = addStringValue ''unit_server_alias'' (unit_server_alias M) new_CDataWrapper;
          d = (if unit_server_key M \<noteq> '''' then addStringValue ''unit_server_key'' (unit_server_key M) d else d);
          d = fold (\<lambda>e. append_to_array (B_string (fst e))) (map_cu_alias_instancer M) d
      in M\<lparr>cm_around := (cm_around M)\<lparr>mds_sent := mds_sent (cm_around M) @ [finalizeArrayForKey ''unit_server_cu_alias'' d]\<rparr>\<rparr>)"

text \<open>The timer's handler.\<close>

definition cm_timeout :: "us_machine \<Rightarrow> ('u, 'd) control_manager \<Rightarrow> ('u, 'd) control_manager" where
  "cm_timeout pe M =
     (case unit_server_sm M of
        US_Unpublished \<Rightarrow>
          if use_unit_server M then
            (case pe us_transition_table (unit_server_sm M) UnitServerEventTypePublishing of
               (st, True) \<Rightarrow> sendUnitServerRegistration (M\<lparr>unit_server_sm := st\<rparr>)
             | (st, False) \<Rightarrow> M\<lparr>unit_server_sm := st\<rparr>)
          else M\<lparr>timer_on := False\<rparr>
      | US_Publishing \<Rightarrow> sendUnitServerRegistration M
      | US_Published \<Rightarrow> startControlUnitSMThread (M\<lparr>timer_on := False\<rparr>)
      | US_PublishingFailure \<Rightarrow> M\<lparr>timer_on := False, use_unit_server := False\<rparr>)"

definition fire_us :: "us_machine \<Rightarrow> us_event \<Rightarrow> string \<Rightarrow> ('u, 'd) control_manager \<Rightarrow> unit outcome \<times> ('u, 'd) control_manager" where
  "fire_us pe ev msg M =
     (case pe us_transition_table (unit_server_sm M) ev of
        (st, True) \<Rightarrow> (Ret (), M\<lparr>unit_server_sm := st\<rparr>)
      | (st, False) \<Rightarrow> (Throw (CException EC_MDS_UNIT_SERV_BAD_US_SM_STATE msg ''ControlManager::unitServerRegistrationACK''), M\<lparr>unit_server_sm := st\<rparr>))"

text \<open>A result that is none of the three leaves the machine alone; the timer fires again in every case.\<close>

definition unitServerRegistrationACK ::
  "us_machine \<Rightarrow> data_wrapper \<Rightarrow> ('u, 'd) control_manager \<Rightarrow> unit outcome \<times> ('u, 'd) control_manager" where
  "unitServerRegistrationACK pe d M =
     (if \<not> hasKey ''unit_server_alias'' d then (Throw (cm_error (- 1) ''No alias forwarder''), M)
      else case getStringValue ''unit_server_alias'' d of
        None \<Rightarrow> (Throw bson_assertion, M)
      | Some server_alias \<Rightarrow>
          if server_alias \<noteq> unit_server_alias M then (Throw (cm_error (- 2) ''Server alias not found''), M)
          else if \<not> hasKey MDS_REGISTER_UNIT_SERVER_RESULT d then (Throw (cm_error (- 3) ''No result received''), M)
          else
            let res = getInt32Value MDS_REGISTER_UNIT_SERVER_RESULT d in
            wbind (if res = EC_MDS_UNIT_SERV_REGISTRATION_OK then fire_us pe UnitServerEventTypePublished ''Bad state of the sm for published event'' M
                   else if res = 7 then fire_us pe UnitServerEventTypeFailure ''Bad state of the sm for unpublishing event'' M
                   else if res = 6 then fire_us pe UnitServerEventTypeFailure ''Bad state of the sm for unpublished event'' M
                   else (Ret (), M))
              (\<lambda>M. (Ret (), M\<lparr>timer_on := True\<rparr>)))"

section \<open>Shutting down\<close>

text \<open>
  \<open>deinit\<close> stops every registered unit. The list of device identifiers grows from unit to unit, so that the
  second unit is stopped and deinitialized twice, the first time under the identifier of the first.
\<close>

definition stop_unit_as :: "('u, 'd) wu_system \<Rightarrow> string \<Rightarrow> 'u work_unit \<Rightarrow> unit outcome \<times> 'u work_unit" where
  "stop_unit_as S device_id w =
     (let C = wu_class S; fakeDWForDeinit = addStringValue DEVICE_ID_key device_id new_CDataWrapper in
      wbind (swallow (unit__stop C fakeDWForDeinit) w) (\<lambda>w.
      wbind (swallow (unit__deinit C fakeDWForDeinit) w) (\<lambda>w. swallow (undefineActionAndDataset C) w)))"

definition deinit_unit ::
  "('u, 'd) wu_system \<Rightarrow> string \<times> nat \<Rightarrow> string list \<times> ('u, 'd) control_manager \<Rightarrow> unit outcome \<times> string list \<times> ('u, 'd) control_manager" where
  "deinit_unit S e idsM =
     (case idsM of (ids, M) \<Rightarrow>
        case work_units M (snd e) of
          None \<Rightarrow> (Fault, ids, M)
        | Some w \<Rightarrow>
            let ids = ids @ [getDeviceID (wu_class S) (work_unit_instance w)];
                D = fold (reg_remove (wu_registry S)) (getDeclareActionInstance (wu_class S) (work_unit_instance w)) (action_registry (cm_around M)) in
            (case for_each (stop_unit_as S) ids w of
               (r, w1) \<Rightarrow>
                 (r, ids, M\<lparr>work_units := (work_units M)(snd e \<mapsto> w1\<lparr>device_event_channel := False\<rparr>),
                            cm_around := (cm_around M)\<lparr>action_registry := D\<rparr>\<rparr>)))"

definition cm_deinit :: "('u, 'd) wu_system \<Rightarrow> ('u, 'd) control_manager \<Rightarrow> unit outcome \<times> ('u, 'd) control_manager" where
  "cm_deinit S M =
     (case for_each (deinit_unit S) (map_cuid_registered_instance M) ([], M) of
        (r, ids, M1) \<Rightarrow>
          wbind (r, M1) (\<lambda>M. (Ret (), M\<lparr>map_cuid_registered_instance := [], map_cuid_reg_unreg_instance := [], work_units := (\<lambda>_. None)\<rparr>)))"

end
