(* ===== verification/Unit_Lifecycle.thy ===== *)
theory Unit_Lifecycle
  imports Control_Manager
begin

text \<open>
  The life of the units under the manager. The registry of actions and the units are interfaces: a registry
  finds the actions that were added and not those that were removed; a unit keeps its identity, and the actions
  it declares are in a domain of its own. Under these laws a unit can be called from outside exactly while it is
  published.
\<close>

section \<open>Interfaces\<close>

text \<open>
  A registry over action descriptors with domain \<open>ad p\<close> and name \<open>an p\<close>. \<open>reg_ok\<close> is its invariant, \<open>found D n a\<close>
  the descriptor a call of action \<open>a\<close> in domain \<open>n\<close> reaches.
\<close>

locale action_table =
  fixes R :: "'d registry" and reg_ok :: "'d \<Rightarrow> bool" and found :: "'d \<Rightarrow> string \<Rightarrow> string \<Rightarrow> nat option"
    and ad :: "nat \<Rightarrow> string" and an :: "nat \<Rightarrow> string"
  assumes add_ok: "reg_ok D \<Longrightarrow> reg_ok (reg_add R ds D)"
    and add_found: "reg_ok D \<Longrightarrow> found (reg_add R ds D) n a
      = (case found D n a of Some q \<Rightarrow> Some q | None \<Rightarrow> find (\<lambda>p. ad p = n \<and> an p = a) ds)"
    and remove_ok: "reg_ok D \<Longrightarrow> reg_ok (reg_remove R ds D)"
    and remove_gone: "reg_ok D \<Longrightarrow> p \<in> set ds \<Longrightarrow> found (reg_remove R ds D) (ad p) (an p) = None"
    and remove_less: "reg_ok D \<Longrightarrow> found D n a = None \<Longrightarrow> found (reg_remove R ds D) n a = None"
    and remove_other: "reg_ok D \<Longrightarrow> n \<notin> ad ` set ds \<Longrightarrow> found (reg_remove R ds D) n a = found D n a"
begin

lemma add_all:
  assumes "reg_ok D"
  shows "reg_ok (fold (reg_add R) dss D) \<and> found (fold (reg_add R) dss D) n a
    = (case found D n a of Some q \<Rightarrow> Some q | None \<Rightarrow> find (\<lambda>p. ad p = n \<and> an p = a) (concat dss))"
  using assms
proof (induction dss arbitrary: D)
  case (Cons ds dss)
  have f: "find P (xs @ ys) = (case find P xs of Some x \<Rightarrow> Some x | None \<Rightarrow> find P ys)" for P and xs ys :: "nat list"
    by (induction xs) auto
  show ?case using Cons.IH [OF add_ok [OF Cons.prems, of ds]] add_found [OF Cons.prems, of ds n a]
    by (auto simp: f split: option.splits)
qed (auto split: option.split)

lemma remove_all:
  assumes "reg_ok D"
  shows "reg_ok (fold (reg_remove R) dss D)"
    and "found D n a = None \<Longrightarrow> found (fold (reg_remove R) dss D) n a = None"
    and "p \<in> set (concat dss) \<Longrightarrow> found (fold (reg_remove R) dss D) (ad p) (an p) = None"
    and "n \<notin> ad ` set (concat dss) \<Longrightarrow> found (fold (reg_remove R) dss D) n a = found D n a"
proof -
  have *: "reg_ok (fold (reg_remove R) dss D)
    \<and> (found D n a = None \<longrightarrow> found (fold (reg_remove R) dss D) n a = None)
    \<and> (p \<in> set (concat dss) \<longrightarrow> found (fold (reg_remove R) dss D) (ad p) (an p) = None)
    \<and> (n \<notin> ad ` set (concat dss) \<longrightarrow> found (fold (reg_remove R) dss D) n a = found D n a)" for n a p
    using assms
  proof (induction dss arbitrary: D n a)
    case (Cons ds dss)
    let ?D = "reg_remove R ds D"
    have ok: "reg_ok ?D" by (rule remove_ok [OF Cons.prems])
    note ih = Cons.IH [OF ok]
    show ?case
    proof (intro conjI impI)
      assume "p \<in> set (concat (ds # dss))"
      then show "found (fold (reg_remove R) (ds # dss) D) (ad p) (an p) = None"
        using ih [of "ad p" "an p"] remove_gone [OF Cons.prems, of p ds] by (cases "p \<in> set ds") auto
    next
      assume "n \<notin> ad ` set (concat (ds # dss))"
      then have "n \<notin> ad ` set ds" "n \<notin> ad ` set (concat dss)" by auto
      then show "found (fold (reg_remove R) (ds # dss) D) n a = found D n a"
        using ih [of n a] remove_other [OF Cons.prems, of n ds a] by simp
    qed (use ih [of n a] remove_less [OF Cons.prems, of n a ds] in auto)
  qed simp
  show "reg_ok (fold (reg_remove R) dss D)"
    and "found D n a = None \<Longrightarrow> found (fold (reg_remove R) dss D) n a = None"
    and "p \<in> set (concat dss) \<Longrightarrow> found (fold (reg_remove R) dss D) (ad p) (an p) = None"
    and "n \<notin> ad ` set (concat dss) \<Longrightarrow> found (fold (reg_remove R) dss D) n a = found D n a"
    using * by blast+
qed

end

text \<open>
  A class of units keeps the identifier of a unit and the domain \<open>inst u\<close> of its actions. Whether its functions
  return or throw is up to the class.
\<close>

definition same_unit :: "'u unit_class \<Rightarrow> ('u \<Rightarrow> string) \<Rightarrow> 'u \<Rightarrow> 'u \<Rightarrow> bool" where
  "same_unit C inst u v \<longleftrightarrow> getCUID C v = getCUID C u \<and> inst v = inst u"

text \<open>
  The actions of a unit answer from the step in which it finds itself published to the step that unpublishes
  it.
\<close>

definition listening :: "'u work_unit \<Rightarrow> bool" where
  "listening w \<longleftrightarrow> wu_instance_sm w = UnitStatePublished \<and> \<not> wu_active w \<or> wu_instance_sm w = UnitStateStartUnpublishing"

definition unit_actions :: "'u unit_class \<Rightarrow> 'u work_unit \<Rightarrow> nat list" where
  "unit_actions C w = concat (getDeclareActionInstance C (work_unit_instance w))"

definition unit_ok ::
  "'u unit_class \<Rightarrow> ('d \<Rightarrow> string \<Rightarrow> string \<Rightarrow> nat option) \<Rightarrow> (nat \<Rightarrow> string) \<Rightarrow> (nat \<Rightarrow> string) \<Rightarrow> ('u \<Rightarrow> string) \<Rightarrow> 'd \<Rightarrow> 'u work_unit \<Rightarrow> bool" where
  "unit_ok C found ad an inst D w \<longleftrightarrow>
     (wu_instance_sm w = UnitStatePublishing \<longrightarrow> wu_active w)
   \<and> (wu_instance_sm w \<in> {UnitStatePublishing, UnitStatePublished, UnitStateStartUnpublishing} \<longrightarrow>
        (\<forall>p \<in> set (unit_actions C w). ad p = inst (work_unit_instance w)))
   \<and> (\<forall>a. found D (inst (work_unit_instance w)) a =
        (if listening w then find (\<lambda>p. an p = a) (unit_actions C w) else None))"

locale unit_kind =
  fixes C :: "'u unit_class" and ad :: "nat \<Rightarrow> string" and inst :: "'u \<Rightarrow> string"
  assumes define_same: "defineActionAndDataset C msg u = (r, msg', v) \<Longrightarrow> same_unit C inst u v"
    and define_domain: "defineActionAndDataset C msg u = (Ret (), msg', v) \<Longrightarrow> p \<in> set (concat (getDeclareActionInstance C v)) \<Longrightarrow> ad p = inst v"
    and stop_same: "unit__stop C d u = (r, v) \<Longrightarrow> same_unit C inst u v"
    and deinit_same: "unit__deinit C d u = (r, v) \<Longrightarrow> same_unit C inst u v"
    and undefine_same: "undefineActionAndDataset C u = (r, v) \<Longrightarrow> same_unit C inst u v"

text \<open>
  A host of units: a state machine, a registry and a class of units.
\<close>

locale unit_host =
  msm_rows "wu_pe S" + action_table "wu_registry S" reg_ok found ad an + unit_kind "wu_class S" ad inst
  for S :: "('u, 'd) wu_system" and reg_ok :: "'d \<Rightarrow> bool" and found :: "'d \<Rightarrow> string \<Rightarrow> string \<Rightarrow> nat option"
    and ad :: "nat \<Rightarrow> string" and an :: "nat \<Rightarrow> string" and inst :: "'u \<Rightarrow> string"
begin

abbreviation unit_fine :: "'d \<Rightarrow> 'u work_unit \<Rightarrow> bool" where
  "unit_fine \<equiv> unit_ok (wu_class S) found ad an inst"

abbreviation domain_of :: "'u work_unit \<Rightarrow> string" where
  "domain_of w \<equiv> inst (work_unit_instance w)"

abbreviation id_of :: "'u work_unit \<Rightarrow> string" where
  "id_of w \<equiv> getCUID (wu_class S) (work_unit_instance w)"

lemma rows:
  "wu_pe S wu_transition_table UnitStateUnpublished UnitEventTypePublish = (UnitStateStartPublishing, True)"
  "wu_pe S wu_transition_table UnitStateStartPublishing UnitEventTypePublishing = (UnitStatePublishing, True)"
  "wu_pe S wu_transition_table UnitStatePublishing UnitEventTypePublished = (UnitStatePublished, True)"
  "wu_pe S wu_transition_table UnitStatePublished UnitEventTypeUnpublish = (UnitStateStartUnpublishing, True)"
  "wu_pe S wu_transition_table UnitStateStartUnpublishing UnitEventTypeUnpublishing = (UnitStateUnpublishing, True)"
  "wu_pe S wu_transition_table UnitStateUnpublishing UnitEventTypeUnpublished = (UnitStateUnpublished, True)"
  "wu_pe S wu_transition_table UnitStatePublishing UnitEventTypeFailure = (UnitStatePublishingFailure, True)"
  by (auto simp: wu_transition_table_def row_at_def intro!: row_fires)

lemma no_rows:
  "s \<noteq> UnitStatePublishing \<Longrightarrow> wu_pe S wu_transition_table s UnitEventTypePublished = (s, False)"
  "s \<noteq> UnitStatePublishing \<Longrightarrow> wu_pe S wu_transition_table s UnitEventTypeFailure = (s, False)"
  "s \<noteq> UnitStatePublished \<Longrightarrow> wu_pe S wu_transition_table s UnitEventTypeUnpublish = (s, False)"
  by (auto simp: wu_transition_table_def row_at_def intro!: row_missing)

lemma find_in_domain: "\<forall>p \<in> set ps. ad p = n \<Longrightarrow> find (\<lambda>p. ad p = n \<and> an p = a) ps = find (\<lambda>p. an p = a) ps"
  by (induction ps) auto

lemma found_by_name: "find (\<lambda>p. an p = a) ps = Some q \<Longrightarrow> q \<in> set ps \<and> an q = a"
  by (induction ps) (auto split: if_splits)

text \<open>A step of a unit keeps it in order and does not touch the domains of the others.\<close>

definition good_step :: "'u work_unit \<Rightarrow> 'd \<Rightarrow> 'u work_unit \<Rightarrow> 'd \<Rightarrow> bool" where
  "good_step w D w' D' \<longleftrightarrow> reg_ok D' \<and> unit_fine D' w' \<and> same_unit (wu_class S) inst (work_unit_instance w) (work_unit_instance w')
     \<and> wu_mds_channel w' = wu_mds_channel w \<and> (\<forall>n a. n \<noteq> domain_of w \<longrightarrow> found D' n a = found D n a)"

lemma step_silent:
  assumes "reg_ok D" and "unit_fine D w" and "\<not> listening w" and "\<not> listening w'"
    and "same_unit (wu_class S) inst (work_unit_instance w) (work_unit_instance w')" and "wu_mds_channel w' = wu_mds_channel w"
    and "wu_instance_sm w' = UnitStatePublishing \<longrightarrow> wu_active w'"
    and "wu_instance_sm w' \<in> {UnitStatePublishing, UnitStatePublished, UnitStateStartUnpublishing} \<Longrightarrow>
      \<forall>p \<in> set (unit_actions (wu_class S) w'). ad p = domain_of w'"
  shows "good_step w D w' D"
  using assms by (simp add: good_step_def unit_ok_def same_unit_def)

lemma step_speaks:
  assumes "reg_ok D'" and "wu_instance_sm w = UnitStatePublished" and "\<forall>p \<in> set (unit_actions (wu_class S) w). ad p = domain_of w"
    and "\<And>a. found D' (domain_of w) a = find (\<lambda>p. an p = a) (unit_actions (wu_class S) w)"
    and "\<And>n a. n \<noteq> domain_of w \<Longrightarrow> found D' n a = found D n a"
  shows "good_step w D (w\<lparr>wu_active := False\<rparr>) D'"
proof -
  have a: "unit_actions (wu_class S) (w\<lparr>wu_active := False\<rparr>) = unit_actions (wu_class S) w" by (simp add: unit_actions_def)
  show ?thesis unfolding good_step_def unit_ok_def a
    using assms by (simp add: listening_def same_unit_def)
qed

lemma step_publish:
  assumes "reg_ok D" and "unit_fine D w" and "wu_instance_sm w = UnitStatePublished" and "wu_active w"
  shows "good_step w D (w\<lparr>wu_active := False\<rparr>) (fold (reg_add (wu_registry S)) (getDeclareActionInstance (wu_class S) (work_unit_instance w)) D)"
proof -
  let ?D = "fold (reg_add (wu_registry S)) (getDeclareActionInstance (wu_class S) (work_unit_instance w)) D"
  have dom: "\<forall>p \<in> set (unit_actions (wu_class S) w). ad p = domain_of w" using assms(2,3) by (simp add: unit_ok_def)
  have silent: "found D (domain_of w) a = None" for a using assms(2-4) by (simp add: unit_ok_def listening_def)
  note add = add_all [OF assms(1), of "getDeclareActionInstance (wu_class S) (work_unit_instance w)"]
  have "found ?D (domain_of w) a = find (\<lambda>p. an p = a) (unit_actions (wu_class S) w)" for a
    using add [of "domain_of w" a] silent [of a] find_in_domain [OF dom, of a] by (simp add: unit_actions_def)
  moreover have "found ?D n a = found D n a" if "n \<noteq> domain_of w" for n a
  proof -
    have "find (\<lambda>p. ad p = n \<and> an p = a) (unit_actions (wu_class S) w) = None" using dom that by (auto simp: find_None_iff)
    then show ?thesis using add [of n a] by (auto simp: unit_actions_def split: option.split)
  qed
  ultimately show ?thesis using add by (intro step_speaks assms(3) dom) blast+
qed

lemma step_unpublish:
  assumes "reg_ok D" and "unit_fine D w" and "wu_instance_sm w = UnitStateStartUnpublishing"
  shows "good_step w D (w\<lparr>wu_active := True, wu_instance_sm := UnitStateUnpublishing\<rparr>)
    (fold (reg_remove (wu_registry S)) (getDeclareActionInstance (wu_class S) (work_unit_instance w)) D)"
proof -
  let ?dss = "getDeclareActionInstance (wu_class S) (work_unit_instance w)"
  have dom: "\<forall>p \<in> set (unit_actions (wu_class S) w). ad p = domain_of w"
    and here: "found D (domain_of w) a = find (\<lambda>p. an p = a) (unit_actions (wu_class S) w)" for a
    using assms(2,3) by (auto simp: unit_ok_def listening_def)
  have "found (fold (reg_remove (wu_registry S)) ?dss D) (domain_of w) a = None" for a
  proof (cases "found D (domain_of w) a")
    case (Some q)
    then have "find (\<lambda>p. an p = a) (unit_actions (wu_class S) w) = Some q" using here [of a] by simp
    then have "q \<in> set (concat ?dss) \<and> an q = a" using found_by_name [of a _ q] unfolding unit_actions_def by blast
    then show ?thesis using remove_all(3) [OF assms(1), of q ?dss] dom by (simp add: unit_actions_def)
  qed (rule remove_all(2) [OF assms(1)])
  moreover have "found (fold (reg_remove (wu_registry S)) ?dss D) n a = found D n a" if "n \<noteq> domain_of w" for n a
    by (rule remove_all(4) [OF assms(1)]) (use dom that in \<open>auto simp: unit_actions_def\<close>)
  ultimately show ?thesis using remove_all(1) [OF assms(1)]
    by (simp add: good_step_def unit_ok_def listening_def same_unit_def)
qed

lemma same_unit_trans: "same_unit C inst u v \<Longrightarrow> same_unit C inst v x \<Longrightarrow> same_unit C inst u x"
  by (simp add: same_unit_def)

lemma swallow_same:
  assumes "swallow f w = (Ret (), w')" and "\<And>u r v. f u = (r, v) \<Longrightarrow> same_unit (wu_class S) inst u v"
  shows "same_unit (wu_class S) inst (work_unit_instance w) (work_unit_instance w') \<and> wu_instance_sm w' = wu_instance_sm w
    \<and> wu_mds_channel w' = wu_mds_channel w"
  using assms(1) assms(2) [of "work_unit_instance w"]
  by (cases "f (work_unit_instance w)") (auto simp: swallow_def split: outcome.splits)

lemma unpublishing_run:
  assumes "unpublishing_step S w = (Ret (), w')" and "wu_instance_sm w = UnitStateUnpublishing"
  shows "same_unit (wu_class S) inst (work_unit_instance w) (work_unit_instance w') \<and> wu_instance_sm w' = UnitStateUnpublished
    \<and> wu_mds_channel w' = wu_mds_channel w"
proof -
  let ?C = "wu_class S" and ?d = "addStringValue DEVICE_ID_key (id_of w) new_CDataWrapper"
  obtain w1 w2 w3 where w: "swallow (unit__stop ?C ?d) w = (Ret (), w1)" "swallow (unit__deinit ?C ?d) w1 = (Ret (), w2)"
      "swallow (undefineActionAndDataset ?C) w2 = (Ret (), w3)"
      "fire S UnitEventTypeUnpublished ''Bad state of the sm for unpublishing event'' (w3\<lparr>device_event_channel := False\<rparr>) = (Ret (), w')"
    using assms(1) by (auto simp: unpublishing_step_def Let_def wbind_def split: prod.splits outcome.splits)
  have a: "same_unit ?C inst (work_unit_instance w) (work_unit_instance w1) \<and> wu_instance_sm w1 = wu_instance_sm w \<and> wu_mds_channel w1 = wu_mds_channel w"
    by (rule swallow_same [OF w(1)]) (use stop_same in blast)
  have b: "same_unit ?C inst (work_unit_instance w1) (work_unit_instance w2) \<and> wu_instance_sm w2 = wu_instance_sm w1 \<and> wu_mds_channel w2 = wu_mds_channel w1"
    by (rule swallow_same [OF w(2)]) (use deinit_same in blast)
  have c: "same_unit ?C inst (work_unit_instance w2) (work_unit_instance w3) \<and> wu_instance_sm w3 = wu_instance_sm w2 \<and> wu_mds_channel w3 = wu_mds_channel w2"
    by (rule swallow_same [OF w(3)]) (use undefine_same in blast)
  have "w' = w3\<lparr>device_event_channel := False, wu_instance_sm := UnitStateUnpublished\<rparr>"
    using w(4) assms(2) a b c by (simp add: fire_def rows)
  with a b c show ?thesis by (simp add: same_unit_def)
qed

lemma schedule_good:
  assumes reg: "reg_ok (action_registry E)" and ok: "unit_fine (action_registry E) w" and need: "smNeedToSchedule w"
    and run: "scheduleSM S w E = (Ret (), w', E')"
  shows "good_step w (action_registry E) w' (action_registry E')"
proof (cases "wu_instance_sm w")
  case UnitStateUnpublished
  then have w': "w' = w\<lparr>wu_active := False\<rparr>" "E' = E" using run by (simp_all add: scheduleSM_def)
  show ?thesis unfolding w' by (intro step_silent reg ok) (use UnitStateUnpublished in \<open>auto simp: listening_def same_unit_def\<close>)
next
  case UnitStatePublishingFailure
  then have w': "w' = w\<lparr>wu_active := False\<rparr>" "E' = E" using run by (simp_all add: scheduleSM_def)
  show ?thesis unfolding w' by (intro step_silent reg ok) (use UnitStatePublishingFailure in \<open>auto simp: listening_def same_unit_def\<close>)
next
  case UnitStateStartPublishing
  obtain msg u where d: "defineActionAndDataset (wu_class S) (mds_registration_message w) (work_unit_instance w) = (Ret (), msg, u)"
    using run UnitStateStartPublishing by (auto simp: scheduleSM_def Let_def wbind_def split: prod.splits outcome.splits)
  then have w': "w' = w\<lparr>mds_registration_message := msg, wu_active := True, device_event_channel := True, work_unit_instance := u,
      wu_instance_sm := UnitStatePublishing\<rparr>" "E' = E"
    using run UnitStateStartPublishing by (auto simp: scheduleSM_def Let_def wbind_def fire_def rows)
  have dom: "\<forall>p \<in> set (unit_actions (wu_class S) w'). ad p = inst u"
    unfolding unit_actions_def using define_domain [OF d] by (simp add: w'(1))
  have "same_unit (wu_class S) inst (work_unit_instance w) u" by (rule define_same [OF d])
  then show ?thesis unfolding w'(2)
    by (intro step_silent reg ok) (use UnitStateStartPublishing dom in \<open>simp_all add: w'(1) listening_def\<close>)
next
  case UnitStatePublishing
  then have "w' = w" "action_registry E' = action_registry E"
    using run by (auto simp: scheduleSM_def sendConfPackToMDS_def Let_def split: if_splits)
  then show ?thesis using UnitStatePublishing ok reg by (simp add: good_step_def same_unit_def)
next
  case UnitStatePublished
  then have act: "wu_active w" using need by (simp add: smNeedToSchedule_def)
  show ?thesis using run UnitStatePublished step_publish [OF reg ok UnitStatePublished act] by (auto simp: scheduleSM_def)
next
  case UnitStateStartUnpublishing
  then show ?thesis using run step_unpublish [OF reg ok UnitStateStartUnpublishing] by (auto simp: scheduleSM_def fire_def rows)
next
  case UnitStateUnpublishing
  then have s: "unpublishing_step S w = (Ret (), w')" "E' = E" using run by (auto simp: scheduleSM_def split: prod.splits)
  show ?thesis unfolding s(2)
    by (intro step_silent reg ok) (use UnitStateUnpublishing unpublishing_run [OF s(1) UnitStateUnpublishing] in \<open>simp_all add: listening_def\<close>)
qed

text \<open>The acknowledgement of the server and the events of the manager.\<close>

lemma ack_good:
  assumes "reg_ok D" and ok: "unit_fine D w" and run: "manageACKPack S d w = (r, w')"
  shows "good_step w D w' D \<and> r \<noteq> Fault"
proof -
  have keep: "good_step w D w D" using assms(1,2) by (simp add: good_step_def same_unit_def)
  show ?thesis
  proof (cases "wu_instance_sm w = UnitStatePublishing")
    case True
    then have act: "wu_active w" and dom: "\<forall>p \<in> set (unit_actions (wu_class S) w). ad p = domain_of w" using ok by (simp_all add: unit_ok_def)
    have "good_step w D (w\<lparr>wu_instance_sm := s\<rparr>) D" if "s = UnitStatePublished \<or> s = UnitStatePublishingFailure" for s
      by (intro step_silent assms(1) ok) (use that True act dom in \<open>auto simp: listening_def same_unit_def unit_actions_def\<close>)
    then show ?thesis using run keep True rows(3,7)
      by (auto simp: manageACKPack_def fire_def split: if_splits option.splits)
  next
    case False
    then have "w' = w \<and> r \<noteq> Fault"
      using run no_rows(1,2) by (auto simp: manageACKPack_def fire_def split: if_splits option.splits)
    then show ?thesis using keep by simp
  qed
qed

lemma unload_good:
  assumes "reg_ok D" and ok: "unit_fine D w" and "wu_instance_sm w = UnitStatePublished" and "\<not> wu_active w"
  shows "turnOFF S w = (Ret (), w\<lparr>wu_instance_sm := UnitStateStartUnpublishing\<rparr>)"
    and "good_step w D (w\<lparr>wu_instance_sm := UnitStateStartUnpublishing\<rparr>) D"
proof -
  show "turnOFF S w = (Ret (), w\<lparr>wu_instance_sm := UnitStateStartUnpublishing\<rparr>)" using assms(3) by (simp add: turnOFF_def fire_def rows)
  have "unit_actions (wu_class S) (w\<lparr>wu_instance_sm := UnitStateStartUnpublishing\<rparr>) = unit_actions (wu_class S) w" by (simp add: unit_actions_def)
  then show "good_step w D (w\<lparr>wu_instance_sm := UnitStateStartUnpublishing\<rparr>) D"
    using assms by (simp add: good_step_def unit_ok_def listening_def same_unit_def)
qed

lemma start_good:
  assumes "reg_ok D" and silent: "\<And>a. found D (inst u) a = None"
  shows "\<exists>w. scheduleSM S (new_WorkUnitManagement u) E = (Ret (), w, E)
    \<and> turnOn S w = (Ret (), \<lparr>mds_registration_message = new_CDataWrapper, wu_instance_sm = UnitStateStartPublishing, wu_active = False,
        wu_mds_channel = False, device_event_channel = False, work_unit_instance = u\<rparr>)"
    and "unit_fine D \<lparr>mds_registration_message = m, wu_instance_sm = UnitStateStartPublishing, wu_active = b,
        wu_mds_channel = c, device_event_channel = e, work_unit_instance = u\<rparr>"
  using silent by (simp_all add: scheduleSM_def new_WorkUnitManagement_def turnOn_def fire_def rows unit_ok_def listening_def)

end

end
