(* ===== verification/Control_Life.thy ===== *)
theory Control_Life
  imports Unit_Lifecycle
begin

text \<open>
  The two maps of the control manager, and every interleaving of its thread with remote requests and with the
  units' own changes: a unit is in one map at most, the registered units are published and answer, and
  unloading never fails on one of them.
\<close>

section \<open>The invariant\<close>

definition silent_unit :: "('d \<Rightarrow> string \<Rightarrow> string \<Rightarrow> nat option) \<Rightarrow> ('u \<Rightarrow> string) \<Rightarrow> ('u, 'd) control_manager \<Rightarrow> 'u \<Rightarrow> bool" where
  "silent_unit found inst M u \<longleftrightarrow> (\<forall>a. found (action_registry (cm_around M)) (inst u) a = None)
     \<and> (\<forall>a w. work_units M a = Some w \<longrightarrow> inst (work_unit_instance w) \<noteq> inst u)"

definition in_maps :: "'u unit_class \<Rightarrow> ('u, 'd) control_manager \<Rightarrow> bool" where
  "in_maps C M \<longleftrightarrow> distinct (map fst (map_cuid_reg_unreg_instance M))
   \<and> (\<forall>k. map_of (map_cuid_reg_unreg_instance M) k = None \<or> map_of (map_cuid_registered_instance M) k = None)
   \<and> (\<forall>k a. map_of (map_cuid_reg_unreg_instance M) k = Some a \<or> map_of (map_cuid_registered_instance M) k = Some a \<longrightarrow>
        (\<exists>w. work_units M a = Some w \<and> getCUID C (work_unit_instance w) = k \<and> wu_mds_channel w))
   \<and> (\<forall>k a w. map_of (map_cuid_registered_instance M) k = Some a \<longrightarrow> work_units M a = Some w \<longrightarrow>
        wu_instance_sm w = UnitStatePublished \<and> \<not> wu_active w)"

definition cm_inv ::
  "'u unit_class \<Rightarrow> ('d \<Rightarrow> bool) \<Rightarrow> ('d \<Rightarrow> string \<Rightarrow> string \<Rightarrow> nat option) \<Rightarrow> (nat \<Rightarrow> string) \<Rightarrow> (nat \<Rightarrow> string) \<Rightarrow> ('u \<Rightarrow> string)
   \<Rightarrow> ('u, 'd) control_manager \<Rightarrow> bool" where
  "cm_inv C reg_ok found ad an inst M \<longleftrightarrow> reg_ok (action_registry (cm_around M)) \<and> in_maps C M
   \<and> (\<forall>a w. work_units M a = Some w \<longrightarrow> a < wu_next M \<and> unit_ok C found ad an inst (action_registry (cm_around M)) w)
   \<and> (\<forall>a b w x. work_units M a = Some w \<longrightarrow> work_units M b = Some x \<longrightarrow>
        inst (work_unit_instance w) = inst (work_unit_instance x) \<longrightarrow> a = b)
   \<and> (\<forall>u \<in> set (queue_submitted_cu M). silent_unit found inst M u) \<and> distinct (map inst (queue_submitted_cu M))"

lemma in_mapsD:
  assumes "in_maps C M"
  shows "distinct (map fst (map_cuid_reg_unreg_instance M))"
    and "map_of (map_cuid_reg_unreg_instance M) k = None \<or> map_of (map_cuid_registered_instance M) k = None"
    and "map_of (map_cuid_reg_unreg_instance M) k = Some a \<or> map_of (map_cuid_registered_instance M) k = Some a \<Longrightarrow>
      \<exists>w. work_units M a = Some w \<and> getCUID C (work_unit_instance w) = k \<and> wu_mds_channel w"
    and "map_of (map_cuid_registered_instance M) k = Some a \<Longrightarrow> work_units M a = Some w \<Longrightarrow>
      wu_instance_sm w = UnitStatePublished \<and> \<not> wu_active w"
  using assms unfolding in_maps_def by (blast | iprover | metis)+

text \<open>A unit that needs a step may not be registered.\<close>

lemma unstable_not_registered:
  assumes "in_maps C M" and "map_of (map_cuid_reg_unreg_instance M) k = Some a"
  shows "map_of (map_cuid_registered_instance M) k' \<noteq> Some a"
proof
  assume r: "map_of (map_cuid_registered_instance M) k' = Some a"
  have "k' = k"
    using in_mapsD(3) [OF assms(1), of k a] in_mapsD(3) [OF assms(1), of k' a] assms(2) r by auto
  then show False using in_mapsD(2) [OF assms(1), of k] assms(2) r by auto
qed

lemma map_in_unstable: "in_maps C M \<Longrightarrow> e \<in> set (map_cuid_reg_unreg_instance M) \<Longrightarrow> map_of (map_cuid_reg_unreg_instance M) (fst e) = Some (snd e)"
  by (cases e) (simp add: in_maps_def)

lemma foldl_wbind: "foldl (\<lambda>r e. wbind r (f e)) x es = wbind x (\<lambda>M. foldl (\<lambda>r e. wbind r (f e)) (Ret (), M) es)"
proof (induction es arbitrary: x)
  case Nil
  show ?case by (cases x; cases "fst x") (auto simp: wbind_def)
next
  case (Cons e es)
  show ?case
    by (simp add: Cons.IH [of "wbind x (f e)"] Cons.IH [of "wbind (Ret (), _) (f e)"])
       (cases x; cases "fst x"; simp add: wbind_def)
qed

lemma for_each_Nil: "for_each f [] M = (Ret (), M)"
  by (simp add: for_each_def)

lemma for_each_Cons: "for_each f (e # es) M = wbind (f e M) (for_each f es)"
  unfolding for_each_def using foldl_wbind [of f "f e M" es] by (simp add: wbind_def)

context unit_host
begin

abbreviation fine :: "('u, 'd) control_manager \<Rightarrow> bool" where
  "fine \<equiv> cm_inv (wu_class S) reg_ok found ad an inst"

text \<open>One unit changes by a good step; the maps stay.\<close>

lemma replace_unit:
  assumes inv: "fine M" and w: "work_units M a = Some w"
    and step: "good_step w (action_registry (cm_around M)) w' (action_registry (cm_around M'))"
    and pub: "(\<exists>k. map_of (map_cuid_registered_instance M) k = Some a) \<longrightarrow> wu_instance_sm w' = UnitStatePublished \<and> \<not> wu_active w'"
    and M': "work_units M' = (work_units M)(a \<mapsto> w')" "map_cuid_reg_unreg_instance M' = map_cuid_reg_unreg_instance M"
      "map_cuid_registered_instance M' = map_cuid_registered_instance M" "wu_next M' = wu_next M"
      "queue_submitted_cu M' = queue_submitted_cu M"
  shows "fine M'"
proof -
  let ?D = "action_registry (cm_around M)" and ?D' = "action_registry (cm_around M')"
  have g: "reg_ok ?D'" "unit_fine ?D' w'" "id_of w' = id_of w" "domain_of w' = domain_of w" "wu_mds_channel w' = wu_mds_channel w"
    and others: "\<And>n a. n \<noteq> domain_of w \<Longrightarrow> found ?D' n a = found ?D n a"
    using step by (auto simp: good_step_def same_unit_def)
  from inv have maps: "in_maps (wu_class S) M" and ok: "\<And>b x. work_units M b = Some x \<Longrightarrow> b < wu_next M \<and> unit_fine ?D x"
    and inj: "\<And>b x. work_units M b = Some x \<Longrightarrow> domain_of x = domain_of w \<Longrightarrow> b = a"
    and q: "\<And>u. u \<in> set (queue_submitted_cu M) \<Longrightarrow> silent_unit found inst M u"
    using w unfolding cm_inv_def by blast+
  have "in_maps (wu_class S) M'" unfolding in_maps_def M'
  proof (intro conjI allI impI)
    fix k b assume "map_of (map_cuid_reg_unreg_instance M) k = Some b \<or> map_of (map_cuid_registered_instance M) k = Some b"
    then obtain x where "work_units M b = Some x" "id_of x = k" "wu_mds_channel x" using in_mapsD(3) [OF maps] by blast
    then show "\<exists>w. ((work_units M)(a \<mapsto> w')) b = Some w \<and> id_of w = k \<and> wu_mds_channel w"
      using w g(3,5) by (cases "b = a") auto
  next
    fix k b x assume "map_of (map_cuid_registered_instance M) k = Some b" "((work_units M)(a \<mapsto> w')) b = Some x"
    then show "wu_instance_sm x = UnitStatePublished" "\<not> wu_active x"
      using pub in_mapsD(4) [OF maps, of k b x] by (cases "b = a"; auto)+
  qed (use in_mapsD(1,2) [OF maps] in auto)
  moreover have "unit_fine ?D' x" if x: "work_units M b = Some x" and b: "b \<noteq> a" for b x
  proof -
    have "domain_of x \<noteq> domain_of w" using inj [OF x] b by blast
    then have "found ?D' (domain_of x) = found ?D (domain_of x)" using others by (intro ext) blast
    then show ?thesis using ok [OF x] by (simp add: unit_ok_def)
  qed
  moreover have "silent_unit found inst M' u" if u: "u \<in> set (queue_submitted_cu M)" for u
  proof -
    have s: "silent_unit found inst M u" by (rule q [OF u])
    then have "inst u \<noteq> domain_of w" using w unfolding silent_unit_def by metis
    then show ?thesis using s w others g(4) unfolding silent_unit_def by (auto simp: M')
  qed
  ultimately show ?thesis using inv w g unfolding cm_inv_def M' by (auto split: if_splits dest: ok)
qed

lemma submit_fine:
  assumes "fine M" and "silent_unit found inst M u" and "inst u \<notin> inst ` set (queue_submitted_cu M)"
  shows "fine (submitControlUnit u M)"
  using assms by (auto simp: cm_inv_def in_maps_def silent_unit_def submitControlUnit_def)

lemma step_fine:
  assumes inv: "fine M" and e: "e \<in> set (map_cuid_reg_unreg_instance M)" and run: "step_one S e M = (Ret (), M')"
  shows "fine M'"
proof -
  have maps: "in_maps (wu_class S) M" and reg: "reg_ok (action_registry (cm_around M))" using inv by (simp_all add: cm_inv_def)
  have k: "map_of (map_cuid_reg_unreg_instance M) (fst e) = Some (snd e)" by (rule map_in_unstable [OF maps e])
  then obtain w where w: "work_units M (snd e) = Some w" using maps unfolding in_maps_def by blast
  have ok: "unit_fine (action_registry (cm_around M)) w" using inv w by (simp add: cm_inv_def)
  show ?thesis
  proof (cases "smNeedToSchedule w")
    case True
    obtain w' E' where s: "scheduleSM S w (cm_around M) = (Ret (), w', E')" "M' = M\<lparr>work_units := (work_units M)(snd e \<mapsto> w'), cm_around := E'\<rparr>"
      using run w True by (auto simp: step_one_def split: prod.splits)
    have "good_step w (action_registry (cm_around M)) w' (action_registry (cm_around M'))"
      using schedule_good [OF reg ok True s(1)] by (simp add: s(2))
    then show ?thesis
      by (rule replace_unit [OF inv w]) (use unstable_not_registered [OF maps k] in \<open>auto simp: s(2)\<close>)
  next
    case False
    then show ?thesis using run w inv by (simp add: step_one_def)
  qed
qed

lemma migrate_fine:
  assumes inv: "fine M" and e: "e \<in> set (map_cuid_reg_unreg_instance M)"
  shows "\<exists>M'. migrate_one e M = (Ret (), M') \<and> fine M'"
proof -
  have maps: "in_maps (wu_class S) M" using inv by (simp add: cm_inv_def)
  have k: "map_of (map_cuid_reg_unreg_instance M) (fst e) = Some (snd e)" by (rule map_in_unstable [OF maps e])
  then obtain w where w: "work_units M (snd e) = Some w" "id_of w = fst e" "wu_mds_channel w" using in_mapsD(3) [OF maps] by blast
  have none: "map_of (map_cuid_registered_instance M) (fst e) = None" using in_mapsD(2) [OF maps, of "fst e"] k by simp
  have dist: "distinct (map fst (om_erase (fst e) (map_cuid_reg_unreg_instance M)))"
    using in_mapsD(1) [OF maps] by (simp add: om_erase_def distinct_map_filter)
  note two = in_mapsD(2) [OF maps] and unit = in_mapsD(3) [OF maps]
  show ?thesis
  proof (cases "smNeedToSchedule w")
    case True
    then show ?thesis using w inv by (simp add: migrate_one_def)
  next
    case False
    show ?thesis
    proof (cases "wu_instance_sm w = UnitStatePublished")
      case True
      let ?M = "M\<lparr>map_cuid_reg_unreg_instance := om_erase (fst e) (map_cuid_reg_unreg_instance M),
          map_cuid_registered_instance := om_insert (fst e) (snd e) (map_cuid_registered_instance M)\<rparr>"
      have "in_maps (wu_class S) ?M" unfolding in_maps_def
      proof (intro conjI allI impI)
        show "distinct (map fst (map_cuid_reg_unreg_instance ?M))" using dist by simp
        fix k' show "map_of (map_cuid_reg_unreg_instance ?M) k' = None \<or> map_of (map_cuid_registered_instance ?M) k' = None"
          using two [of k'] none by (auto simp: map_of_om_erase map_of_om_insert)
      next
        fix k' a assume "map_of (map_cuid_reg_unreg_instance ?M) k' = Some a \<or> map_of (map_cuid_registered_instance ?M) k' = Some a"
        then show "\<exists>w. work_units ?M a = Some w \<and> id_of w = k' \<and> wu_mds_channel w"
          using unit [of k' a] w none by (auto simp: map_of_om_erase map_of_om_insert split: if_splits)
      next
        fix k' a x assume "map_of (map_cuid_registered_instance ?M) k' = Some a" "work_units ?M a = Some x"
        then show "wu_instance_sm x = UnitStatePublished" "\<not> wu_active x"
          using in_mapsD(4) [OF maps, of k' a x] w none True False
          by (auto simp: map_of_om_insert smNeedToSchedule_def split: if_splits)
      qed
      then have "fine ?M" using inv by (simp add: cm_inv_def silent_unit_def)
      then show ?thesis using w False True by (simp add: migrate_one_def)
    next
      case other: False
      let ?M = "M\<lparr>map_cuid_reg_unreg_instance := om_erase (fst e) (map_cuid_reg_unreg_instance M),
          work_units := (work_units M)(snd e := None)\<rparr>"
      have ne: "a \<noteq> snd e" if "map_of (map_cuid_reg_unreg_instance ?M) k' = Some a \<or> map_of (map_cuid_registered_instance ?M) k' = Some a" for k' a
        using that unit [of k' a] w unstable_not_registered [OF maps k, of k'] by (auto simp: map_of_om_erase split: if_splits)
      have "in_maps (wu_class S) ?M" unfolding in_maps_def
      proof (intro conjI allI impI)
        show "distinct (map fst (map_cuid_reg_unreg_instance ?M))" using dist by simp
        fix k' show "map_of (map_cuid_reg_unreg_instance ?M) k' = None \<or> map_of (map_cuid_registered_instance ?M) k' = None"
          using two [of k'] by (auto simp: map_of_om_erase)
      next
        fix k' a assume m: "map_of (map_cuid_reg_unreg_instance ?M) k' = Some a \<or> map_of (map_cuid_registered_instance ?M) k' = Some a"
        then show "\<exists>w. work_units ?M a = Some w \<and> id_of w = k' \<and> wu_mds_channel w"
          using unit [of k' a] ne [OF m] by (auto simp: map_of_om_erase split: if_splits)
      next
        fix k' a x assume "map_of (map_cuid_registered_instance ?M) k' = Some a" "work_units ?M a = Some x"
        then show "wu_instance_sm x = UnitStatePublished" "\<not> wu_active x"
          using in_mapsD(4) [OF maps, of k' a x] by (auto split: if_splits)
      qed
      then have "fine ?M" using inv unfolding cm_inv_def silent_unit_def by (simp split: if_splits)
      then show ?thesis using w False other by (simp add: migrate_one_def)
    qed
  qed
qed

lemma take_fine:
  assumes inv: "fine M"
  shows "\<exists>M'. take_submitted S M = (Ret (), M') \<and> fine M'"
proof (cases "queue_submitted_cu M")
  case Nil
  then show ?thesis using inv by (simp add: take_submitted_def)
next
  case (Cons u q)
  let ?D = "action_registry (cm_around M)"
  have maps: "in_maps (wu_class S) M" and reg: "reg_ok ?D" and s: "silent_unit found inst M u" using inv Cons by (simp_all add: cm_inv_def)
  have silent: "found ?D (inst u) a = None" for a using s by (simp add: silent_unit_def)
  let ?w = "\<lparr>mds_registration_message = new_CDataWrapper, wu_instance_sm = UnitStateStartPublishing, wu_active = False,
      wu_mds_channel = False, device_event_channel = False, work_unit_instance = u\<rparr>"
  obtain w where run: "scheduleSM S (new_WorkUnitManagement u) (cm_around M) = (Ret (), w, cm_around M)" "turnOn S w = (Ret (), ?w)"
    using start_good(1) [OF reg silent] by blast
  let ?k = "getCUID (wu_class S) u"
  let ?M1 = "M\<lparr>queue_submitted_cu := q\<rparr>"
  have fine1: "fine ?M1" using inv Cons by (simp add: cm_inv_def in_maps_def silent_unit_def)
  show ?thesis
  proof (cases "map_of (map_cuid_reg_unreg_instance M) ?k \<noteq> None \<or> map_of (map_cuid_registered_instance M) ?k \<noteq> None")
    case True
    then show ?thesis using Cons run fine1 by (simp add: take_submitted_def Let_def)
  next
    case False
    let ?w1 = "?w\<lparr>wu_mds_channel := True\<rparr>"
    let ?M2 = "?M1\<lparr>map_cuid_reg_unreg_instance := om_insert ?k (wu_next M) (map_cuid_reg_unreg_instance M),
        work_units := (work_units M)(wu_next M \<mapsto> ?w1), wu_next := Suc (wu_next M)\<rparr>"
    have T: "take_submitted S M = (Ret (), ?M2)" using Cons run False by (simp add: take_submitted_def Let_def)
    have below: "a < wu_next M" if "work_units M a = Some x" for a x using inv that unfolding cm_inv_def by blast
    have mem: "map_of (map_cuid_reg_unreg_instance M) k = Some a \<or> map_of (map_cuid_registered_instance M) k = Some a \<Longrightarrow> a \<noteq> wu_next M" for k a
      using in_mapsD(3) [OF maps, of k a] below by fastforce
    have "in_maps (wu_class S) ?M2" unfolding in_maps_def
    proof (intro conjI allI impI)
      have "?k \<notin> fst ` set (map_cuid_reg_unreg_instance M)" using False by (simp add: map_of_eq_None_iff)
      then show "distinct (map fst (map_cuid_reg_unreg_instance ?M2))"
        using False in_mapsD(1) [OF maps] distinct_insort_key [of fst "(?k, wu_next M)" "map_cuid_reg_unreg_instance M"]
        by (simp add: om_insert_def distinct_map inj_on_def)
      fix k show "map_of (map_cuid_reg_unreg_instance ?M2) k = None \<or> map_of (map_cuid_registered_instance ?M2) k = None"
        using in_mapsD(2) [OF maps, of k] False by (auto simp: map_of_om_insert)
    next
      fix k a assume "map_of (map_cuid_reg_unreg_instance ?M2) k = Some a \<or> map_of (map_cuid_registered_instance ?M2) k = Some a"
      then show "\<exists>w. work_units ?M2 a = Some w \<and> id_of w = k \<and> wu_mds_channel w"
        using in_mapsD(3) [OF maps, of k a] mem [of k a] by (auto simp: map_of_om_insert split: if_splits)
    next
      fix k a x assume a: "map_of (map_cuid_registered_instance ?M2) k = Some a" "work_units ?M2 a = Some x"
      then show "wu_instance_sm x = UnitStatePublished" "\<not> wu_active x"
        using in_mapsD(4) [OF maps, of k a x] mem [of k a] by (auto split: if_splits)
    qed
    then have "fine ?M2" unfolding cm_inv_def
    proof (intro conjI allI impI ballI)
      fix a x assume "work_units ?M2 a = Some x"
      then show "a < wu_next ?M2" "unit_fine (action_registry (cm_around ?M2)) x"
        using inv start_good(2) [OF reg silent] below [of a] unfolding cm_inv_def by (auto simp: less_Suc_eq split: if_splits)
    next
      have new: "domain_of x \<noteq> inst u" if "work_units M a = Some x" for a x using s that unfolding silent_unit_def by blast
      have old: "a = b" if "work_units M a = Some x" "work_units M b = Some y" "domain_of x = domain_of y" for a b x y
        using inv that unfolding cm_inv_def by blast
      fix a b x y assume "work_units ?M2 a = Some x" "work_units ?M2 b = Some y" "domain_of x = domain_of y"
      then show "a = b" using new [of a x] new [of b y] old [of a x b y] by (auto split: if_splits)
    next
      fix v assume v: "v \<in> set (queue_submitted_cu ?M2)"
      then have "silent_unit found inst M v" "inst u \<notin> inst ` set q" using inv Cons by (auto simp: cm_inv_def)
      moreover have "inst v \<in> inst ` set q" using v by simp
      ultimately have "silent_unit found inst M v" "inst v \<noteq> inst u" by metis+
      then show "silent_unit found inst ?M2 v" unfolding silent_unit_def by auto
    qed (use inv Cons reg in \<open>auto simp: cm_inv_def\<close>)
    then show ?thesis using T by blast
  qed
qed

lemma ack_fine:
  assumes inv: "fine M" and run: "workUnitRegistrationACK S msg M = (r, M')"
  shows "fine M' \<and> r \<noteq> Fault"
proof -
  have maps: "in_maps (wu_class S) M" and reg: "reg_ok (action_registry (cm_around M))" using inv by (simp_all add: cm_inv_def)
  consider "M' = M \<and> r \<noteq> Fault" | k a d where "map_of (map_cuid_reg_unreg_instance M) k = Some a" "ack_unit S a d M = (r, M')"
    using run by (auto simp: workUnitRegistrationACK_def split: option.splits if_splits)
  then show ?thesis
  proof cases
    case 1
    then show ?thesis using inv by simp
  next
    case 2
    obtain w where w: "work_units M a = Some w" using in_mapsD(3) [OF maps, of k a] 2(1) by blast
    have ok: "unit_fine (action_registry (cm_around M)) w" using inv w by (simp add: cm_inv_def)
    obtain r1 w1 where m: "manageACKPack S d w = (r1, w1)" by fastforce
    have g: "good_step w (action_registry (cm_around M)) w1 (action_registry (cm_around M))" "r1 \<noteq> Fault"
      using ack_good [OF reg ok m] by blast+
    have r: "M' = M\<lparr>work_units := (work_units M)(a \<mapsto> w1)\<rparr>" "r \<noteq> Fault"
      using 2(2) w m g(2) by (auto simp: ack_unit_def split: outcome.splits)
    show ?thesis unfolding r(1)
      by (intro conjI r(2) replace_unit [OF inv w, of w1])
         (use g(1) unstable_not_registered [OF maps 2(1)] in auto)
  qed
qed

text \<open>A registered unit is always unloaded.\<close>

lemma unload_fine:
  assumes inv: "fine M" and k: "map_of (map_cuid_registered_instance M) k = Some a"
  shows "\<exists>M'. unload_unit S k a M = (Ret (), M') \<and> fine M'
    \<and> map_of (map_cuid_reg_unreg_instance M') k = Some a \<and> map_of (map_cuid_registered_instance M') k = None"
proof -
  have maps: "in_maps (wu_class S) M" and reg: "reg_ok (action_registry (cm_around M))" using inv by (simp_all add: cm_inv_def)
  obtain w where w: "work_units M a = Some w" "id_of w = k" "wu_mds_channel w" using in_mapsD(3) [OF maps, of k a] k by blast
  have pub: "wu_instance_sm w = UnitStatePublished" "\<not> wu_active w" using in_mapsD(4) [OF maps k w(1)] by auto
  have none: "map_of (map_cuid_reg_unreg_instance M) k = None" using in_mapsD(2) [OF maps, of k] k by simp
  have ok: "unit_fine (action_registry (cm_around M)) w" using inv w by (simp add: cm_inv_def)
  let ?w = "w\<lparr>wu_instance_sm := UnitStateStartUnpublishing\<rparr>"
  note u = unload_good [OF reg ok pub]
  let ?M1 = "M\<lparr>map_cuid_reg_unreg_instance := om_insert k a (map_cuid_reg_unreg_instance M),
      map_cuid_registered_instance := om_erase k (map_cuid_registered_instance M)\<rparr>"
  let ?M' = "M\<lparr>map_cuid_reg_unreg_instance := om_insert k a (map_cuid_reg_unreg_instance M), work_units := (work_units M)(a \<mapsto> ?w),
      map_cuid_registered_instance := om_erase k (map_cuid_registered_instance M)\<rparr>"
  have "in_maps (wu_class S) ?M1" unfolding in_maps_def
  proof (intro conjI allI impI)
    have "k \<notin> fst ` set (map_cuid_reg_unreg_instance M)" using none by (simp add: map_of_eq_None_iff)
    then show "distinct (map fst (map_cuid_reg_unreg_instance ?M1))"
      using none in_mapsD(1) [OF maps] distinct_insort_key [of fst "(k, a)" "map_cuid_reg_unreg_instance M"]
      by (simp add: om_insert_def distinct_map inj_on_def)
    fix k' show "map_of (map_cuid_reg_unreg_instance ?M1) k' = None \<or> map_of (map_cuid_registered_instance ?M1) k' = None"
      using in_mapsD(2) [OF maps, of k'] by (auto simp: map_of_om_insert map_of_om_erase)
  next
    fix k' b assume "map_of (map_cuid_reg_unreg_instance ?M1) k' = Some b \<or> map_of (map_cuid_registered_instance ?M1) k' = Some b"
    then show "\<exists>w. work_units ?M1 b = Some w \<and> id_of w = k' \<and> wu_mds_channel w"
      using in_mapsD(3) [OF maps, of k' b] w by (auto simp: map_of_om_insert map_of_om_erase split: if_splits)
  next
    fix k' b x assume "map_of (map_cuid_registered_instance ?M1) k' = Some b" "work_units ?M1 b = Some x"
    then show "wu_instance_sm x = UnitStatePublished" "\<not> wu_active x"
      using in_mapsD(4) [OF maps, of k' b x] by (auto simp: map_of_om_erase split: if_splits)
  qed
  then have inv1: "fine ?M1" and maps1: "in_maps (wu_class S) ?M1" using inv by (simp_all add: cm_inv_def silent_unit_def)
  have "map_of (map_cuid_reg_unreg_instance ?M1) k = Some a" using none by (simp add: map_of_om_insert)
  note not_reg = unstable_not_registered [OF maps1 this]
  have "fine ?M'"
    by (rule replace_unit [OF inv1, of a w ?w]) (use w u(2) not_reg in auto)
  moreover have "unload_unit S k a M = (Ret (), ?M')" using w u(1) by (simp add: unload_unit_def Let_def)
  ultimately show ?thesis using none by (intro exI [of _ ?M']) (simp add: map_of_om_insert map_of_om_erase)
qed

lemma change_fine:
  assumes inv: "fine M" and w: "work_units M a = Some w" and v: "same_unit (wu_class S) inst (work_unit_instance w) v"
    "getDeclareActionInstance (wu_class S) v = getDeclareActionInstance (wu_class S) (work_unit_instance w)"
  shows "fine (M\<lparr>work_units := (work_units M)(a \<mapsto> w\<lparr>work_unit_instance := v\<rparr>)\<rparr>)"
proof (rule replace_unit [OF inv w, of "w\<lparr>work_unit_instance := v\<rparr>"])
  show "good_step w (action_registry (cm_around M)) (w\<lparr>work_unit_instance := v\<rparr>)
      (action_registry (cm_around (M\<lparr>work_units := (work_units M)(a \<mapsto> w\<lparr>work_unit_instance := v\<rparr>)\<rparr>)))"
  proof -
    have "unit_fine (action_registry (cm_around M)) w" "reg_ok (action_registry (cm_around M))" using inv w by (simp_all add: cm_inv_def)
    moreover have "unit_actions (wu_class S) (w\<lparr>work_unit_instance := v\<rparr>) = unit_actions (wu_class S) w"
        "listening (w\<lparr>work_unit_instance := v\<rparr>) = listening w" "inst v = domain_of w"
      using v by (simp_all add: unit_actions_def listening_def same_unit_def)
    ultimately show ?thesis using v(1) unfolding good_step_def unit_ok_def by simp
  qed
  show "(\<exists>k. map_of (map_cuid_registered_instance M) k = Some a) \<longrightarrow>
      wu_instance_sm (w\<lparr>work_unit_instance := v\<rparr>) = UnitStatePublished \<and> \<not> wu_active (w\<lparr>work_unit_instance := v\<rparr>)"
    using inv w in_mapsD(4) [of "wu_class S" M _ a w] by (auto simp: cm_inv_def)
qed simp_all

lemma take_all_fine: "fine M \<Longrightarrow> \<exists>M'. take_all S n M = (Ret (), M') \<and> fine M'"
proof (induction n arbitrary: M)
  case (Suc n)
  obtain M1 where "take_submitted S M = (Ret (), M1)" "fine M1" using take_fine [OF Suc.prems] by blast
  then show ?case using Suc.IH [of M1] by (simp add: wbind_def)
qed simp

lemma migrate_keeps:
  assumes "migrate_one e M = (Ret (), M')" and "e' \<in> set (map_cuid_reg_unreg_instance M)" and "fst e' \<noteq> fst e"
  shows "e' \<in> set (map_cuid_reg_unreg_instance M')"
  using assms by (auto simp: migrate_one_def om_erase_def split: option.splits if_splits)

lemma migrate_all_fine:
  assumes "fine M" and "distinct (map fst es)" and "set es \<subseteq> set (map_cuid_reg_unreg_instance M)"
  shows "\<exists>M'. for_each migrate_one es M = (Ret (), M') \<and> fine M'"
  using assms
proof (induction es arbitrary: M)
  case (Cons e es)
  obtain M1 where M1: "migrate_one e M = (Ret (), M1)" "fine M1" using migrate_fine [OF Cons.prems(1), of e] Cons.prems(3) by auto
  have "set es \<subseteq> set (map_cuid_reg_unreg_instance M1)"
  proof
    fix e' assume e': "e' \<in> set es"
    then have "fst e' \<noteq> fst e" using Cons.prems(2) by (metis distinct.simps(2) image_eqI list.simps(9) set_map)
    moreover have "e' \<in> set (map_cuid_reg_unreg_instance M)" using Cons.prems(3) e' by (meson list.set_intros(2) subsetD)
    ultimately show "e' \<in> set (map_cuid_reg_unreg_instance M1)" using migrate_keeps [OF M1(1)] by blast
  qed
  then show ?case using Cons.IH [OF M1(2)] Cons.prems(2) M1(1) by (simp add: for_each_Cons wbind_def)
qed (simp add: for_each_Nil)

lemma steps_all_fine:
  assumes "fine M" and "set es \<subseteq> set (map_cuid_reg_unreg_instance M)" and "for_each (step_one S) es M = (Ret (), M')"
  shows "fine M'"
  using assms
proof (induction es arbitrary: M)
  case (Cons e es)
  obtain M1 where M1: "step_one S e M = (Ret (), M1)" "for_each (step_one S) es M1 = (Ret (), M')"
    using Cons.prems(3) by (auto simp: for_each_Cons wbind_def split: prod.splits outcome.splits)
  have "map_cuid_reg_unreg_instance M1 = map_cuid_reg_unreg_instance M"
    using M1(1) by (auto simp: step_one_def split: option.splits prod.splits if_splits)
  moreover have "fine M1" by (rule step_fine [OF Cons.prems(1) _ M1(1)]) (use Cons.prems(2) in simp)
  ultimately show ?case using Cons.IH [of M1] Cons.prems(2) M1(2) by simp
qed (simp add: for_each_Nil)

lemma iteration_fine:
  assumes inv: "fine M" and run: "manageControlUnit S M = (Ret (), M')"
  shows "fine M'"
proof -
  obtain M1 where M1: "take_all S (length (queue_submitted_cu M)) M = (Ret (), M1)" "fine M1" using take_all_fine [OF inv] by blast
  have "distinct (map fst (map_cuid_reg_unreg_instance M1))" using M1(2) in_mapsD(1) by (auto simp: cm_inv_def)
  then obtain M2 where M2: "migrateStableAndUnstableSMCUInstance M1 = (Ret (), M2)" "fine M2"
    using migrate_all_fine [OF M1(2), of "map_cuid_reg_unreg_instance M1"] by (auto simp: migrateStableAndUnstableSMCUInstance_def)
  show ?thesis
  proof (cases "map_cuid_reg_unreg_instance M2 = []")
    case True
    then show ?thesis using run M1(1) M2 by (simp add: manageControlUnit_def wbind_def)
  next
    case False
    then have "for_each (step_one S) (map_cuid_reg_unreg_instance M2) M2 = (Ret (), M')"
      using run M1(1) M2 by (simp add: manageControlUnit_def makeSMSteps_def wbind_def)
    then show ?thesis using steps_all_fine [OF M2(2)] by blast
  qed
qed

end

section \<open>Reachable managers\<close>

text \<open>
  The manager's thread, the remote requests and the units' own changes in any order. A new unit has a domain of
  its own: \<open>control_unit_instance\<close> is a fresh UUID.
\<close>

definition fresh_unit :: "('d \<Rightarrow> string \<Rightarrow> string \<Rightarrow> nat option) \<Rightarrow> ('u \<Rightarrow> string) \<Rightarrow> ('u, 'd) control_manager \<Rightarrow> 'u \<Rightarrow> bool" where
  "fresh_unit found inst M u \<longleftrightarrow> silent_unit found inst M u \<and> inst u \<notin> inst ` set (queue_submitted_cu M)"

inductive cm_reach ::
  "('u, 'd) wu_system \<Rightarrow> ('d \<Rightarrow> bool) \<Rightarrow> ('d \<Rightarrow> string \<Rightarrow> string \<Rightarrow> nat option) \<Rightarrow> ('u \<Rightarrow> string) \<Rightarrow> ('u, 'd) control_manager \<Rightarrow> bool"
  for S reg_ok found inst where
  empty_manager: "queue_submitted_cu M = [] \<Longrightarrow> map_cuid_reg_unreg_instance M = [] \<Longrightarrow> map_cuid_registered_instance M = [] \<Longrightarrow>
    work_units M = (\<lambda>_. None) \<Longrightarrow> reg_ok (action_registry (cm_around M)) \<Longrightarrow> cm_reach S reg_ok found inst M"
| unit_submitted: "cm_reach S reg_ok found inst M \<Longrightarrow> fresh_unit found inst M u \<Longrightarrow> cm_reach S reg_ok found inst (submitControlUnit u M)"
| unit_loaded: "cm_reach S reg_ok found inst M \<Longrightarrow> loadControlUnit S msg M = (r, M') \<Longrightarrow>
    (\<And>u. M' = submitControlUnit u M \<Longrightarrow> fresh_unit found inst M u) \<Longrightarrow> cm_reach S reg_ok found inst M'"
| thread_iteration: "cm_reach S reg_ok found inst M \<Longrightarrow> manageControlUnit S M = (Ret (), M') \<Longrightarrow> cm_reach S reg_ok found inst M'"
| unload_request: "cm_reach S reg_ok found inst M \<Longrightarrow> unloadControlUnit S msg M = (r, M') \<Longrightarrow> cm_reach S reg_ok found inst M'"
| server_ack: "cm_reach S reg_ok found inst M \<Longrightarrow> workUnitRegistrationACK S msg M = (r, M') \<Longrightarrow> cm_reach S reg_ok found inst M'"
| unit_changes: "cm_reach S reg_ok found inst M \<Longrightarrow> work_units M a = Some w \<Longrightarrow>
    same_unit (wu_class S) inst (work_unit_instance w) v \<Longrightarrow>
    getDeclareActionInstance (wu_class S) v = getDeclareActionInstance (wu_class S) (work_unit_instance w) \<Longrightarrow>
    cm_reach S reg_ok found inst (M\<lparr>work_units := (work_units M)(a \<mapsto> w\<lparr>work_unit_instance := v\<rparr>)\<rparr>)"

context unit_host
begin

lemma reach_fine: "cm_reach S reg_ok found inst M \<Longrightarrow> fine M"
proof (induction rule: cm_reach.induct)
  case (empty_manager M)
  then show ?case by (simp add: cm_inv_def in_maps_def)
next
  case (unit_submitted M u)
  then show ?case by (simp add: submit_fine fresh_unit_def)
next
  case (unit_loaded M msg r M')
  then show ?case by (cases "instance_to_load msg M") (auto simp: loadControlUnit_def submit_fine fresh_unit_def)
next
  case (thread_iteration M M')
  then show ?case by (simp add: iteration_fine)
next
  case (unload_request M msg r M')
  then show ?case using unload_fine [of M]
    by (fastforce simp: unloadControlUnit_def split: outcome.splits option.splits)
next
  case (server_ack M msg r M')
  then show ?case using ack_fine by blast
next
  case (unit_changes M a w v)
  then show ?case by (simp add: change_fine)
qed

end

end
