(* ===== verification/Published_Units.thy ===== *)
theory Published_Units
  imports Control_Life
begin

text \<open>
  The dispatcher of remote calls meets the interface of the registry, so that the life of the units can be
  told in terms of the calls they answer.
\<close>

section \<open>The dispatcher as a registry\<close>

definition rpc_registry :: "rpc_dispatcher registry" where
  "rpc_registry = \<lparr>reg_add = registerAction, reg_remove = deregisterAction\<rparr>"

definition rpc_ok :: "(nat \<Rightarrow> string) \<Rightarrow> (nat \<Rightarrow> string) \<Rightarrow> rpc_dispatcher \<Rightarrow> bool" where
  "rpc_ok ad an D \<longleftrightarrow> maps_ok D \<and> (\<forall>p. actionDomain (descriptors D p) = ad p \<and> actionName (descriptors D p) = an p)"

lemma register_one_rpc:
  assumes "rpc_ok ad an D"
  shows "rpc_ok ad an (register_one p D)"
    and "lookup (register_one p D) n a = (if n = ad p \<and> a = an p \<and> lookup D n a = None then Some p else lookup D n a)"
proof -
  have m: "maps_ok D" and f: "dom_of D q = ad q" "name_of D q = an q" for q using assms by (simp_all add: rpc_ok_def)
  note s = register_one_spec [OF m, where p = p]
  show "rpc_ok ad an (register_one p D)" using s(1,3) f by (simp add: rpc_ok_def)
  show "lookup (register_one p D) n a = (if n = ad p \<and> a = an p \<and> lookup D n a = None then Some p else lookup D n a)"
    using s(6) [of n a] by (simp add: f)
qed

lemma rpc_ok_das [simp]: "rpc_ok ad an (D\<lparr>das_map := x\<rparr>) = rpc_ok ad an D"
  by (simp add: rpc_ok_def maps_ok_def)

lemma schedule_one_rpc:
  assumes "rpc_ok ad an D"
  shows "rpc_ok ad an (schedule_one p D) \<and> lookup (schedule_one p D) = lookup D"
proof -
  obtain i D1 where g: "getDomainActionsFromName (dom_of D p) D = (i, D1)" by fastforce
  have m: "maps_ok D" using assms by (simp add: rpc_ok_def)
  note s = getDomain_spec [OF m g]
  have "rpc_ok ad an D1" using assms s(1,6) by (simp add: rpc_ok_def)
  then show ?thesis using assms s(4) by (simp add: schedule_one_def g Let_def split: option.split)
qed

lemma registerAction_rpc:
  assumes "rpc_ok ad an D"
  shows "rpc_ok ad an (registerAction ds D)
    \<and> lookup (registerAction ds D) n a = (case lookup D n a of Some q \<Rightarrow> Some q | None \<Rightarrow> find (\<lambda>p. ad p = n \<and> an p = a) ds)"
proof -
  have r: "rpc_ok ad an (fold register_one ds D)
    \<and> lookup (fold register_one ds D) n a = (case lookup D n a of Some q \<Rightarrow> Some q | None \<Rightarrow> find (\<lambda>p. ad p = n \<and> an p = a) ds)"
    using assms
  proof (induction ds arbitrary: D)
    case (Cons p ds)
    note s = register_one_rpc [OF Cons.prems, where p = p]
    from Cons.IH [OF s(1)] show ?case by (auto simp: s(2) split: option.splits)
  qed (simp split: option.split)
  have "rpc_ok ad an (fold schedule_one es D') \<and> lookup (fold schedule_one es D') = lookup D'" if "rpc_ok ad an D'" for es D'
    using that
  proof (induction es arbitrary: D')
    case (Cons p es)
    then show ?case using schedule_one_rpc [OF Cons.prems, of p] by simp
  qed simp
  with r show ?thesis by (simp add: registerAction_def abstract_registerAction_def)
qed

lemma deregister_one_rpc:
  assumes "rpc_ok ad an D"
  shows "rpc_ok ad an (deregister_one p D)"
    and "lookup (deregister_one p D) (ad p) (an p) = None"
    and "lookup D n a = None \<Longrightarrow> lookup (deregister_one p D) n a = None"
    and "n \<noteq> ad p \<Longrightarrow> lookup (deregister_one p D) n a = lookup D n a"
proof -
  let ?D' = "deregister_one p D"
  have m: "maps_ok D" and f: "dom_of D q = ad q" "name_of D q = an q" for q using assms by (simp_all add: rpc_ok_def)
  obtain i D1 where g: "getDomainActionsFromName (dom_of D p) D = (i, D1)" by fastforce
  note s = getDomain_spec [OF m g]
  define d where "d = (domain_objects D1 i)\<lparr>actionDescriptionsMap := AList.delete (name_of D p) (actionDescriptionsMap (domain_objects D1 i))\<rparr>"
  have D': "?D' = D1\<lparr>descriptors := (descriptors D)(p := setEnabled False (descriptors D p)), domain_objects := (domain_objects D1)(i := d),
      actionDomainExecutorMap := (if registeredActions d = 0 then (actionDomainExecutorMap D1)(dom_of D p := None) else actionDomainExecutorMap D1)\<rparr>"
    using s(3,6) by (simp add: deregister_one_def g removeActionDescriptor_def d_def)
  have u: "actionDomainExecutorMap D1 k = Some i \<Longrightarrow> k = dom_of D p" for k using s(1,3) unfolding maps_ok_def by blast
  have "maps_ok ?D'" using s(1,3,6) u by (auto simp: D' maps_ok_def setEnabled_def d_def delete_conv split: if_splits)
  then show "rpc_ok ad an ?D'" using assms by (simp add: rpc_ok_def D' setEnabled_def)
  have e: "map_of (actionDescriptionsMap d) = (map_of (actionDescriptionsMap (domain_objects D1 i)))(name_of D p := None)" by (simp add: d_def delete_conv')
  have here: "lookup ?D' (ad p) a = (if registeredActions d = 0 then None else map_of (actionDescriptionsMap d) a)" for a
    using s(2) by (simp add: D' lookup_def f)
  have old: "lookup D (ad p) a = map_of (actionDescriptionsMap (domain_objects D1 i)) a" for a
    unfolding s(4) [symmetric] using s(2) by (simp add: lookup_def f)
  show "lookup ?D' (ad p) (an p) = None" using here [of "an p"] e by (simp add: f)
  show other: "n \<noteq> ad p \<Longrightarrow> lookup ?D' n a = lookup D n a"
    unfolding s(4) [symmetric] using u [of n] by (cases "actionDomainExecutorMap D1 n") (auto simp: D' lookup_def f)
  show "lookup D n a = None \<Longrightarrow> lookup ?D' n a = None"
    using other here [of a] e old [of a] by (cases "n = ad p") auto
qed

lemma unschedule_rpc: "rpc_ok ad an D \<Longrightarrow> rpc_ok ad an (fold unschedule_one es D) \<and> lookup (fold unschedule_one es D) = lookup D"
  by (simp add: fold_unschedule_one)

lemma deregisterAction_rpc:
  assumes "rpc_ok ad an D"
  shows "rpc_ok ad an (deregisterAction ds D)
    \<and> (p \<in> set ds \<longrightarrow> lookup (deregisterAction ds D) (ad p) (an p) = None)
    \<and> (lookup D n a = None \<longrightarrow> lookup (deregisterAction ds D) n a = None)
    \<and> (n \<notin> ad ` set ds \<longrightarrow> lookup (deregisterAction ds D) n a = lookup D n a)"
proof -
  have "rpc_ok ad an (fold deregister_one ds D)
    \<and> (p \<in> set ds \<longrightarrow> lookup (fold deregister_one ds D) (ad p) (an p) = None)
    \<and> (lookup D n a = None \<longrightarrow> lookup (fold deregister_one ds D) n a = None)
    \<and> (n \<notin> ad ` set ds \<longrightarrow> lookup (fold deregister_one ds D) n a = lookup D n a)" for n a
    using assms
  proof (induction ds arbitrary: D n a)
    case (Cons q ds)
    note s = deregister_one_rpc [OF Cons.prems, where p = q]
    show ?case
    proof (intro conjI impI)
      assume "p \<in> set (q # ds)"
      then show "lookup (fold deregister_one (q # ds) D) (ad p) (an p) = None"
        using Cons.IH [OF s(1), of "ad p" "an p"] s(2) by (cases "p = q") auto
    qed (use Cons.IH [OF s(1), of n a] s(3) [of n a] s(4) [of n a] in auto)
  qed simp
  then show ?thesis
    using unschedule_rpc [of ad an "fold deregister_one ds D" ds] by (simp add: deregisterAction_def abstract_deregisterAction_def)
qed

interpretation rpc: action_table rpc_registry "rpc_ok ad an" lookup ad an for ad an
proof unfold_locales
  fix D ds n a p assume ok: "rpc_ok ad an D"
  note add = registerAction_rpc [OF ok] and rem = deregisterAction_rpc [OF ok]
  show "rpc_ok ad an (reg_add rpc_registry ds D)" using add by (simp add: rpc_registry_def)
  show "lookup (reg_add rpc_registry ds D) n a
      = (case lookup D n a of Some q \<Rightarrow> Some q | None \<Rightarrow> find (\<lambda>p. ad p = n \<and> an p = a) ds)"
    using add [of ds n a] by (simp add: rpc_registry_def)
  show "rpc_ok ad an (reg_remove rpc_registry ds D)" using rem by (simp add: rpc_registry_def)
  show "p \<in> set ds \<Longrightarrow> lookup (reg_remove rpc_registry ds D) (ad p) (an p) = None" using rem by (simp add: rpc_registry_def)
  show "lookup D n a = None \<Longrightarrow> lookup (reg_remove rpc_registry ds D) n a = None" using rem [of ds undefined n a] by (simp add: rpc_registry_def)
  show "n \<notin> ad ` set ds \<Longrightarrow> lookup (reg_remove rpc_registry ds D) n a = lookup D n a" using rem [of ds undefined n a] by (simp add: rpc_registry_def)
qed

lemma rpc_host:
  assumes "msm_rows (wu_pe S)" and "unit_kind (wu_class S) ad inst" and "wu_registry S = rpc_registry"
  shows "unit_host S (rpc_ok ad an) lookup ad an inst"
  using assms rpc.action_table_axioms [of ad an] by (simp add: unit_host_def)

section \<open>Properties\<close>

text \<open>
  C4. A unit can be called exactly while it is published. Take any history of the manager: units submitted or
  loaded, iterations of its thread, requests to unload, acknowledgements of the metadata server, accepted or
  not, and changes of the units themselves. A registered unit is not among the unstable ones, exists under its
  identifier, is published, and every action it declares is found by the dispatcher in the unit's domain, under
  the action's name; a request to unload it succeeds and moves it back to the unstable units. No action is found
  in the domain of a unit that is not published yet, or has been unpublished.
\<close>

theorem published_units_answer:
  assumes S: "msm_rows (wu_pe S)" "unit_kind (wu_class S) ad inst" "wu_registry S = rpc_registry"
    and M: "cm_reach S (rpc_ok ad an) lookup inst M"
  shows "(\<forall>k a. map_of (map_cuid_registered_instance M) k = Some a \<longrightarrow>
      map_of (map_cuid_reg_unreg_instance M) k = None
      \<and> (\<exists>w. work_units M a = Some w \<and> getCUID (wu_class S) (work_unit_instance w) = k \<and> wu_instance_sm w = UnitStatePublished
          \<and> (\<forall>p \<in> set (unit_actions (wu_class S) w). \<exists>q \<in> set (unit_actions (wu_class S) w).
               an q = an p \<and> lookup (action_registry (cm_around M)) (inst (work_unit_instance w)) (an p) = Some q))
      \<and> (\<exists>M'. unload_unit S k a M = (Ret (), M') \<and> map_of (map_cuid_reg_unreg_instance M') k = Some a
          \<and> map_of (map_cuid_registered_instance M') k = None))
    \<and> (\<forall>b x act. work_units M b = Some x \<longrightarrow> wu_instance_sm x \<notin> {UnitStatePublished, UnitStateStartUnpublishing} \<longrightarrow>
      lookup (action_registry (cm_around M)) (inst (work_unit_instance x)) act = None)"
proof -
  note host = rpc_host [OF S, where an = an]
  have inv: "cm_inv (wu_class S) (rpc_ok ad an) lookup ad an inst M" by (rule unit_host.reach_fine [OF host M])
  then have maps: "in_maps (wu_class S) M" by (simp add: cm_inv_def)
  have ok: "unit_ok (wu_class S) lookup ad an inst (action_registry (cm_around M)) w" if "work_units M c = Some w" for c w
    using inv that by (simp add: cm_inv_def)
  show ?thesis
  proof (intro conjI allI impI)
    fix k a assume k: "map_of (map_cuid_registered_instance M) k = Some a"
    obtain w where w: "work_units M a = Some w" "getCUID (wu_class S) (work_unit_instance w) = k" using in_mapsD(3) [OF maps, of k a] k by blast
    have pub: "wu_instance_sm w = UnitStatePublished" "\<not> wu_active w" using in_mapsD(4) [OF maps k w(1)] by auto
    have "\<exists>q \<in> set (unit_actions (wu_class S) w). an q = an p \<and> lookup (action_registry (cm_around M)) (inst (work_unit_instance w)) (an p) = Some q"
      if p: "p \<in> set (unit_actions (wu_class S) w)" for p
    proof -
      obtain q where "find (\<lambda>q. an q = an p) (unit_actions (wu_class S) w) = Some q" using p by (fastforce simp: find_None_iff)
      moreover from this have "q \<in> set (unit_actions (wu_class S) w) \<and> an q = an p" by (auto simp: find_Some_iff)
      ultimately show ?thesis using ok [OF w(1)] pub by (auto simp: unit_ok_def listening_def)
    qed
    with w pub show "\<exists>w. work_units M a = Some w \<and> getCUID (wu_class S) (work_unit_instance w) = k \<and> wu_instance_sm w = UnitStatePublished
        \<and> (\<forall>p \<in> set (unit_actions (wu_class S) w). \<exists>q \<in> set (unit_actions (wu_class S) w).
             an q = an p \<and> lookup (action_registry (cm_around M)) (inst (work_unit_instance w)) (an p) = Some q)" by blast
    show "map_of (map_cuid_reg_unreg_instance M) k = None" using in_mapsD(2) [OF maps, of k] k by simp
    show "\<exists>M'. unload_unit S k a M = (Ret (), M') \<and> map_of (map_cuid_reg_unreg_instance M') k = Some a
        \<and> map_of (map_cuid_registered_instance M') k = None" using unit_host.unload_fine [OF host inv k] by blast
  next
    fix b x act assume "work_units M b = Some x" "wu_instance_sm x \<notin> {UnitStatePublished, UnitStateStartUnpublishing}"
    then show "lookup (action_registry (cm_around M)) (inst (work_unit_instance x)) act = None"
      using ok [of b x] by (simp add: unit_ok_def listening_def)
  qed
qed

definition example_class :: "(string \<times> nat list list) unit_class" where
  "example_class =
     \<lparr>getCUID = fst, getDeviceID = fst, set_control_key = (\<lambda>_ u. u),
      defineActionAndDataset = (\<lambda>msg u. (Ret (), msg, (fst u, [[0, 1]]))), getDeclareActionInstance = snd,
      unit__stop = (\<lambda>_ u. (Ret (), u)), unit__deinit = (\<lambda>_ u. (Ret (), u)), undefineActionAndDataset = (\<lambda>u. (Ret (), u)),
      unit_serviceState = (\<lambda>_. 0)\<rparr>"

definition example_names :: "nat \<Rightarrow> string" where
  "example_names p = (if p = 0 then ''init'' else ''start'')"

definition example_system :: "(string \<times> nat list list, rpc_dispatcher) wu_system" where
  "example_system = \<lparr>wu_pe = lookup_event, wu_class = example_class, wu_registry = rpc_registry, local_address = '''', mds_answer = (\<lambda>_. 0)\<rparr>"

definition example_dispatcher :: rpc_dispatcher where
  "example_dispatcher = new_dispatcher (\<lambda>p. new_ActionDescriptor ''dom'' (example_names p))"

definition example_manager :: "(string \<times> nat list list, rpc_dispatcher) control_manager" where
  "example_manager =
     \<lparr>use_unit_server = False, unit_server_alias = '''', unit_server_key = '''', unit_server_sm = US_Unpublished, timer_on = False,
      thread_run = False, threads_started = 0, queue_submitted_cu = [], map_cuid_reg_unreg_instance = [], map_cuid_registered_instance = [],
      map_cu_alias_instancer = [], work_units = (\<lambda>_. None), wu_next = 0, cm_around = \<lparr>action_registry = example_dispatcher, mds_sent = []\<rparr>\<rparr>"

definition example_ack :: data_wrapper where
  "example_ack = addInt32Value MDS_REGISTER_UNIT_SERVER_RESULT 5 (addStringValue DEVICE_ID_key ''cu'' new_CDataWrapper)"

lemma example_kind: "unit_kind example_class (\<lambda>_. ''dom'') (\<lambda>_. ''dom'')"
  by unfold_locales (auto simp: example_class_def same_unit_def)

definition example_state :: "unit_state \<Rightarrow> bool \<Rightarrow> data_wrapper list \<Rightarrow> (string \<times> nat list list, rpc_dispatcher) control_manager" where
  "example_state st act sent = example_manager\<lparr>map_cuid_reg_unreg_instance := [(''cu'', 0)],
     work_units := [0 \<mapsto> \<lparr>mds_registration_message = new_CDataWrapper, wu_instance_sm = st, wu_active = act, wu_mds_channel = True,
       device_event_channel = True, work_unit_instance = (''cu'', [[0, 1]])\<rparr>], wu_next := 1,
     cm_around := \<lparr>action_registry = example_dispatcher, mds_sent = sent\<rparr>\<rparr>"

lemmas example_defs = example_system_def example_class_def example_manager_def lookup_event_def wu_transition_table_def row_at_def
  manageControlUnit_def migrateStableAndUnstableSMCUInstance_def makeSMSteps_def for_each_def wbind_def migrate_one_def step_one_def
  smNeedToSchedule_def scheduleSM_def fire_def take_submitted_def turnOn_def new_WorkUnitManagement_def om_insert_def om_erase_def Let_def

lemma example_published:
  "manageControlUnit example_system (submitControlUnit (''cu'', []) example_manager) = (Ret (), example_state UnitStatePublishing True [])"
  by (simp add: example_defs submitControlUnit_def example_state_def)

lemma example_sent: "\<exists>sent. manageControlUnit example_system (example_state UnitStatePublishing True []) = (Ret (), example_state UnitStatePublishing True sent)"
  by (intro exI [of _ "[addStringValue CS_CM_CU_INSTANCE_NET_ADDRESS '''' new_CDataWrapper]"])
     (simp add: example_defs example_state_def sendConfPackToMDS_def getBSONData_def setSerializedData_def new_CDataWrapper_def)

lemma example_acknowledged:
  "workUnitRegistrationACK example_system (Some example_ack) (example_state UnitStatePublishing True sent) = (Ret (), example_state UnitStatePublished True sent)"
  by (simp add: example_defs example_state_def workUnitRegistrationACK_def ack_unit_def manageACKPack_def example_ack_def hasKey_def
      getStringValue_def getInt32Value_def addStringValue_def addInt32Value_def DEVICE_ID_key_def MDS_REGISTER_UNIT_SERVER_RESULT_def
      EC_MDS_UNIT_SERV_REGISTRATION_OK_def)

definition example_around :: "data_wrapper list \<Rightarrow> rpc_dispatcher surroundings" where
  "example_around sent = \<lparr>action_registry = registerAction [0, 1] example_dispatcher, mds_sent = sent\<rparr>"

lemma example_answering:
  "manageControlUnit example_system (example_state UnitStatePublished True sent)
     = (Ret (), (example_state UnitStatePublished False sent)\<lparr>cm_around := example_around sent\<rparr>)"
  by (simp add: example_defs example_state_def rpc_registry_def example_around_def)

definition example_final :: "data_wrapper list \<Rightarrow> (string \<times> nat list list, rpc_dispatcher) control_manager" where
  "example_final sent = (example_state UnitStatePublished False sent)\<lparr>cm_around := example_around sent,
     map_cuid_reg_unreg_instance := [], map_cuid_registered_instance := [(''cu'', 0)]\<rparr>"

lemma example_registered:
  "manageControlUnit example_system ((example_state UnitStatePublished False sent)\<lparr>cm_around := example_around sent\<rparr>) = (Ret (), example_final sent)"
  by (simp add: example_defs example_state_def example_final_def)

lemma example_reached: "\<exists>sent. cm_reach example_system (rpc_ok (\<lambda>_. ''dom'') example_names) lookup (\<lambda>_. ''dom'') (example_final sent)"
proof -
  let ?R = "cm_reach example_system (rpc_ok (\<lambda>_. ''dom'') example_names) lookup (\<lambda>_. ''dom'')"
  have "rpc_ok (\<lambda>_. ''dom'') example_names example_dispatcher"
    by (simp add: rpc_ok_def maps_ok_def example_dispatcher_def new_dispatcher_def new_ActionDescriptor_def)
  then have "?R example_manager" by (intro cm_reach.empty_manager) (simp_all add: example_manager_def)
  moreover have "fresh_unit lookup (\<lambda>_. ''dom'') example_manager (''cu'', [])"
    by (simp add: fresh_unit_def silent_unit_def example_manager_def example_dispatcher_def new_dispatcher_def lookup_def)
  ultimately have "?R (submitControlUnit (''cu'', []) example_manager)" by (rule cm_reach.unit_submitted)
  then have s: "?R (example_state UnitStatePublishing True [])" using example_published by (rule cm_reach.thread_iteration)
  obtain sent where "manageControlUnit example_system (example_state UnitStatePublishing True []) = (Ret (), example_state UnitStatePublishing True sent)"
    using example_sent by blast
  with s have "?R (example_state UnitStatePublishing True sent)" by (rule cm_reach.thread_iteration)
  then have "?R (example_state UnitStatePublished True sent)" using example_acknowledged by (rule cm_reach.server_ack)
  then have "?R ((example_state UnitStatePublished False sent)\<lparr>cm_around := example_around sent\<rparr>)" using example_answering by (rule cm_reach.thread_iteration)
  then have "?R (example_final sent)" using example_registered by (rule cm_reach.thread_iteration)
  then show ?thesis by blast
qed

theorem published_units_answer_witness:
  "\<exists>M. cm_reach example_system (rpc_ok (\<lambda>_. ''dom'') example_names) lookup (\<lambda>_. ''dom'') M
     \<and> lookup (action_registry (cm_around M)) ''dom'' ''start'' = Some 1 \<and> fst (unload_unit example_system ''cu'' 0 M) = Ret ()"
proof -
  obtain sent where r: "cm_reach example_system (rpc_ok (\<lambda>_. ''dom'') example_names) lookup (\<lambda>_. ''dom'') (example_final sent)"
    using example_reached by blast
  let ?M = "example_final sent"
  have "msm_rows (wu_pe example_system)" "unit_kind (wu_class example_system) (\<lambda>_. ''dom'') (\<lambda>_. ''dom'')" "wu_registry example_system = rpc_registry"
    using table_rows.msm_rows_axioms example_kind by (simp_all add: example_system_def)
  note published_units_answer [OF this r]
  moreover have "map_of (map_cuid_registered_instance ?M) ''cu'' = Some 0" by (simp add: example_final_def)
  moreover have "wu_class example_system = example_class" by (simp add: example_system_def)
  ultimately have k: "\<exists>w. work_units ?M 0 = Some w \<and> (\<forall>p \<in> set (unit_actions example_class w). \<exists>q \<in> set (unit_actions example_class w).
      example_names q = example_names p \<and> lookup (action_registry (cm_around ?M)) ''dom'' (example_names p) = Some q)"
    and u: "\<exists>M'. unload_unit example_system ''cu'' 0 ?M = (Ret (), M')"
    by metis+
  from k have "lookup (action_registry (cm_around ?M)) ''dom'' ''start'' = Some 1"
    by (auto simp: example_final_def example_state_def example_manager_def unit_actions_def example_class_def example_names_def split: if_splits)
  with r u show ?thesis by auto
qed

end
