(* ===== verification/Entity_DB.thy ===== *)
theory Entity_DB
  imports Data_Wrapper "HOL-Library.Multiset"
begin

text \<open>
  The database of entities (\<open>data/entity_db/sqlite_impl/SQLiteEntityDB.*\<close>, \<open>data/entity/Entity.*\<close>): entities
  named by a key and a value, their properties and the relation of parents and children, in tables of SQLite.
  The tables are lists of rows and every prepared statement is a function on them; the statements succeed. The
  order of the rows of a select without \<open>order by\<close> is the engine's, a parameter. A name is copied into 256
  bytes, without a test of its length. Names hold no null byte; the overloads for doubles are left out.
\<close>

section \<open>Calls that change a state\<close>

type_synonym ('a, 's) sact = "'s \<Rightarrow> 'a outcome \<times> 's"

definition sreturn :: "'a \<Rightarrow> ('a, 's) sact" where
  "sreturn a s = (Ret a, s)"

definition sthrow :: "cexception \<Rightarrow> ('a, 's) sact" where
  "sthrow ex s = (Throw ex, s)"

definition sfault :: "('a, 's) sact" where
  "sfault s = (Fault, s)"

definition sbind :: "('a, 's) sact \<Rightarrow> ('a \<Rightarrow> ('b, 's) sact) \<Rightarrow> ('b, 's) sact" where
  "sbind m f s = (case m s of (Ret a, s1) \<Rightarrow> f a s1 | (Throw ex, s1) \<Rightarrow> (Throw ex, s1) | (Fault, s1) \<Rightarrow> (Fault, s1))"

definition sget :: "('s \<Rightarrow> 'a) \<Rightarrow> ('a, 's) sact" where
  "sget f s = (Ret (f s), s)"

definition smodify :: "('s \<Rightarrow> 's) \<Rightarrow> (unit, 's) sact" where
  "smodify f s = (Ret (), f s)"

fun smap :: "('a \<Rightarrow> ('b, 's) sact) \<Rightarrow> 'a list \<Rightarrow> ('b list, 's) sact" where
  "smap f [] = sreturn []"
| "smap f (x # xs) = sbind (f x) (\<lambda>y. sbind (smap f xs) (\<lambda>ys. sreturn (y # ys)))"

fun sfor :: "('a \<Rightarrow> (unit, 's) sact) \<Rightarrow> 'a list \<Rightarrow> (unit, 's) sact" where
  "sfor f [] = sreturn ()"
| "sfor f (x # xs) = sbind (f x) (\<lambda>_. sfor f xs)"

lemmas sact_defs = sreturn_def sthrow_def sfault_def sget_def smodify_def

lemma sbind_Ret: "m s = (Ret a, s1) \<Longrightarrow> sbind m f s = f a s1"
  by (simp add: sbind_def)

lemma sbind_simps [simp]:
  "sbind (sreturn a) f s = f a s" "sbind (sget g) h s = h (g s) s" "sbind (smodify u) k s = k () (u s)"
  "sbind (sthrow ex) f s = (Throw ex, s)" "sbind sfault f s = (Fault, s)"
  by (simp_all add: sbind_def sact_defs)

section \<open>Tables\<close>

datatype key_value = KEY_NUM_VALUE u64 | KEY_DOUBLE_VALUE u64 | KEY_STR_VALUE string

record property_row =
  prop_id :: nat
  prop_entity :: nat
  prop_key :: nat
  prop_value :: key_value

record entity_db =
  seq_key :: nat
  seq_entity :: nat
  seq_property :: nat
  key_rows :: "(nat \<times> string) list"
  entity_rows :: "(nat \<times> nat \<times> key_value) list"
  property_rows :: "property_row list"
  entity_group :: "(nat \<times> nat) list"

text \<open>
  The engine. \<open>row_order\<close> orders the identifiers a select gives. \<open>stale_zero\<close>: the bytes behind the end of an
  empty name, which were never written, are zero. \<open>time_stamp\<close> is what the clock says at a call,
  \<open>double_text\<close> how a double is printed.
\<close>

record sql_engine =
  row_order :: "nat list \<Rightarrow> nat list"
  stale_zero :: bool
  time_stamp :: u64
  double_text :: "u64 \<Rightarrow> string"

locale sql_rows =
  fixes E :: sql_engine
  assumes row_order_mset: "mset (row_order E xs) = mset xs"

text \<open>\<open>LIKE\<close> of SQL: \<open>%\<close> is any text, \<open>_\<close> any character, letters of ASCII are compared without their case.\<close>

definition fold_case :: "char \<Rightarrow> char" where
  "fold_case c = (if 65 \<le> (of_char c :: nat) \<and> (of_char c :: nat) \<le> 90 then char_of (of_char c + 32 :: nat) else c)"

fun sql_like :: "string \<Rightarrow> string \<Rightarrow> bool" where
  "sql_like [] s = (s = [])"
| "sql_like (p # ps) [] = (p = CHR ''%'' \<and> sql_like ps [])"
| "sql_like (p # ps) (c # cs) =
     (if p = CHR ''%'' then sql_like ps (c # cs) \<or> sql_like (p # ps) cs
      else (p = CHR ''_'' \<or> fold_case p = fold_case c) \<and> sql_like ps cs)"

fun str_matches :: "string \<Rightarrow> key_value \<Rightarrow> bool" where
  "str_matches s (KEY_STR_VALUE t) = sql_like s t"
| "str_matches s _ = False"

text \<open>The condition on a value column: text is matched, numbers are compared.\<close>

fun value_matches :: "key_value \<Rightarrow> key_value \<Rightarrow> bool" where
  "value_matches (KEY_STR_VALUE s) w = str_matches s w"
| "value_matches v w = (w = v)"

section \<open>Statements\<close>

definition initDB :: "entity_db" where
  "initDB = \<lparr>seq_key = 0, seq_entity = 0, seq_property = 0, key_rows = [], entity_rows = [], property_rows = [], entity_group = []\<rparr>"

definition getIDForKey :: "string \<Rightarrow> (nat, entity_db) sact" where
  "getIDForKey newKey db =
     (case find (\<lambda>r. snd r = newKey) (key_rows db) of
        Some r \<Rightarrow> (Ret (fst r), db)
      | None \<Rightarrow> let i = seq_key db + 1 in (Ret i, db\<lparr>seq_key := i, key_rows := key_rows db @ [(i, newKey)]\<rparr>))"

text \<open>
  An entity is searched by its key alone when the first eight bytes of its value are zero: for the number 0, and
  for an empty name if the bytes behind it happen to be.
\<close>

definition only_key_id :: "sql_engine \<Rightarrow> key_value \<Rightarrow> bool" where
  "only_key_id E v = (case v of KEY_NUM_VALUE n \<Rightarrow> n = 0 | KEY_DOUBLE_VALUE d \<Rightarrow> d = 0 | KEY_STR_VALUE s \<Rightarrow> s = '''' \<and> stale_zero E)"

definition select_entities :: "sql_engine \<Rightarrow> (nat \<Rightarrow> nat \<Rightarrow> key_value \<Rightarrow> bool) \<Rightarrow> entity_db \<Rightarrow> nat list" where
  "select_entities E P db = row_order E (map fst (filter (\<lambda>(i, k, v). P i k v) (entity_rows db)))"

definition searchEntityByKeyAndValue :: "sql_engine \<Rightarrow> nat \<Rightarrow> key_value \<Rightarrow> entity_db \<Rightarrow> nat list option" where
  "searchEntityByKeyAndValue E key v db =
     (if only_key_id E v then Some (select_entities E (\<lambda>_ k _. k = key) db)
      else case v of
        KEY_DOUBLE_VALUE _ \<Rightarrow> None
      | _ \<Rightarrow> Some (select_entities E (\<lambda>_ k w. k = key \<and> value_matches v w) db))"

text \<open>The entity found if there is exactly one, otherwise a new one; none for a double.\<close>

definition getIDForEntity :: "sql_engine \<Rightarrow> nat \<Rightarrow> key_value \<Rightarrow> entity_db \<Rightarrow> nat option \<times> entity_db" where
  "getIDForEntity E key v db =
     (case searchEntityByKeyAndValue E key v db of
        None \<Rightarrow> (None, db)
      | Some [i] \<Rightarrow> (Some i, db)
      | Some _ \<Rightarrow>
          (case v of
             KEY_DOUBLE_VALUE _ \<Rightarrow> (None, db)
           | _ \<Rightarrow> let i = seq_entity db + 1 in (Some i, db\<lparr>seq_entity := i, entity_rows := entity_rows db @ [(i, key, v)]\<rparr>)))"

definition attachEntityChildToEntityParent :: "nat \<Rightarrow> nat \<Rightarrow> entity_db \<Rightarrow> entity_db" where
  "attachEntityChildToEntityParent p c db =
     (if (p, c) \<in> set (entity_group db) then db else db\<lparr>entity_group := entity_group db @ [(p, c)]\<rparr>)"

definition removeEntityChildFromEntityParent :: "nat \<Rightarrow> nat \<Rightarrow> entity_db \<Rightarrow> entity_db" where
  "removeEntityChildFromEntityParent p c db = db\<lparr>entity_group := filter (\<lambda>g. g \<noteq> (p, c)) (entity_group db)\<rparr>"

definition removeAllEntityChild :: "nat \<Rightarrow> entity_db \<Rightarrow> entity_db" where
  "removeAllEntityChild p db = db\<lparr>entity_group := filter (\<lambda>g. fst g \<noteq> p) (entity_group db)\<rparr>"

definition checkParentChildJoined :: "nat \<Rightarrow> nat \<Rightarrow> entity_db \<Rightarrow> bool" where
  "checkParentChildJoined p c db = (length (filter (\<lambda>g. g = (p, c)) (entity_group db)) = 1)"

definition getAllChildEntity :: "sql_engine \<Rightarrow> nat \<Rightarrow> entity_db \<Rightarrow> nat list" where
  "getAllChildEntity E p db = row_order E (map snd (filter (\<lambda>g. fst g = p) (entity_group db)))"

definition getEntityKeyInfoByID :: "nat \<Rightarrow> entity_db \<Rightarrow> (nat \<times> key_value) option" where
  "getEntityKeyInfoByID i db = map_of (entity_rows db) i"

definition searchEntityByParentIDAndKeyID :: "sql_engine \<Rightarrow> nat \<Rightarrow> nat \<Rightarrow> entity_db \<Rightarrow> nat list" where
  "searchEntityByParentIDAndKeyID E p key db = select_entities E (\<lambda>i k _. k = key \<and> (p, i) \<in> set (entity_group db)) db"

definition searchEntityByParentIDAndKeyValue :: "sql_engine \<Rightarrow> nat \<Rightarrow> nat \<Rightarrow> key_value \<Rightarrow> entity_db \<Rightarrow> nat list" where
  "searchEntityByParentIDAndKeyValue E p key v db =
     select_entities E (\<lambda>i k w. k = key \<and> value_matches v w \<and> (p, i) \<in> set (entity_group db)) db"

definition searchEntityByParentAndPropertyIDAndKeyValue :: "sql_engine \<Rightarrow> nat \<Rightarrow> nat \<Rightarrow> key_value \<Rightarrow> entity_db \<Rightarrow> nat list" where
  "searchEntityByParentAndPropertyIDAndKeyValue E p key v db =
     select_entities E (\<lambda>i _ _. (p, i) \<in> set (entity_group db)
       \<and> (\<exists>r \<in> set (property_rows db). prop_entity r = i \<and> prop_key r = key \<and> value_matches v (prop_value r))) db"

definition addNewPropertyForEntity :: "nat \<Rightarrow> nat \<Rightarrow> key_value \<Rightarrow> entity_db \<Rightarrow> entity_db" where
  "addNewPropertyForEntity e key v db =
     (let i = seq_property db + 1 in
      db\<lparr>seq_property := i, property_rows := property_rows db @ [\<lparr>prop_id = i, prop_entity = e, prop_key = key, prop_value = v\<rparr>]\<rparr>)"

text \<open>Without keys all properties are given.\<close>

definition searchPropertyForEntity :: "sql_engine \<Rightarrow> nat \<Rightarrow> nat list \<Rightarrow> entity_db \<Rightarrow> property_row list" where
  "searchPropertyForEntity E e keys db =
     (let rs = filter (\<lambda>r. prop_entity r = e \<and> (keys = [] \<or> prop_key r \<in> set keys)) (property_rows db)
      in List.map_filter (\<lambda>i. find (\<lambda>r. prop_id r = i) rs) (row_order E (map prop_id rs)))"

definition deleteProperty :: "nat \<Rightarrow> entity_db \<Rightarrow> entity_db" where
  "deleteProperty i db = db\<lparr>property_rows := filter (\<lambda>r. prop_id r \<noteq> i) (property_rows db)\<rparr>"

definition deleteAllPropertyForEntity :: "nat \<Rightarrow> entity_db \<Rightarrow> entity_db" where
  "deleteAllPropertyForEntity e db = db\<lparr>property_rows := filter (\<lambda>r. prop_entity r \<noteq> e) (property_rows db)\<rparr>"

text \<open>
  An update writes the column of the new value's type and leaves the type of the row: a value of another type is
  not seen. A deleted entity leaves its properties behind, as foreign keys are not enforced unless asked for.
\<close>

fun same_type :: "key_value \<Rightarrow> key_value \<Rightarrow> bool" where
  "same_type (KEY_NUM_VALUE _) (KEY_NUM_VALUE _) = True"
| "same_type (KEY_DOUBLE_VALUE _) (KEY_DOUBLE_VALUE _) = True"
| "same_type (KEY_STR_VALUE _) (KEY_STR_VALUE _) = True"
| "same_type _ _ = False"

definition updatePropertyForEntity :: "nat \<Rightarrow> nat \<Rightarrow> key_value \<Rightarrow> entity_db \<Rightarrow> entity_db" where
  "updatePropertyForEntity i key v db =
     db\<lparr>property_rows := map (\<lambda>r. if prop_id r = i then r\<lparr>prop_key := key, prop_value := (if same_type (prop_value r) v then v else prop_value r)\<rparr> else r)
       (property_rows db)\<rparr>"

definition deleteEntity :: "nat \<Rightarrow> entity_db \<Rightarrow> entity_db" where
  "deleteEntity i db = db\<lparr>entity_rows := filter (\<lambda>e. fst e \<noteq> i) (entity_rows db)\<rparr>"

definition searchEntityByPropertyKeyAndValue :: "sql_engine \<Rightarrow> nat \<Rightarrow> key_value \<Rightarrow> entity_db \<Rightarrow> nat list" where
  "searchEntityByPropertyKeyAndValue E key v db =
     row_order E (remdups (map prop_entity (filter (\<lambda>r. prop_key r = key \<and> value_matches v (prop_value r)) (property_rows db))))"

section \<open>Entities\<close>

text \<open>
  An object for an entity: its identifier in the tables, and the key and value it was asked for, which need not
  be those of the row.
\<close>

record entity =
  entityID :: nat
  entity_key :: nat
  entity_value :: key_value

text \<open>A name that does not fit into its 256 bytes overruns them.\<close>

definition str_value :: "string \<Rightarrow> (key_value, 's) sact" where
  "str_value s = (if length s < 256 then sreturn (KEY_STR_VALUE s) else sfault)"

text \<open>If no identifier comes back, that of the new object is not initialised.\<close>

definition getNewEntityInstance :: "sql_engine \<Rightarrow> nat \<Rightarrow> key_value \<Rightarrow> (entity, entity_db) sact" where
  "getNewEntityInstance E key v db =
     (case getIDForEntity E key v db of
        (None, db1) \<Rightarrow> (Fault, db1)
      | (Some i, db1) \<Rightarrow> (Ret \<lparr>entityID = i, entity_key = key, entity_value = v\<rparr>, db1))"

text \<open>Every identifier found is turned into an object by a new search for the name of its row.\<close>

definition entity_at :: "sql_engine \<Rightarrow> nat \<Rightarrow> (entity, entity_db) sact" where
  "entity_at E i =
     sbind (sget (getEntityKeyInfoByID i)) (\<lambda>r. case r of None \<Rightarrow> sfault | Some (k, v) \<Rightarrow> getNewEntityInstance E k v)"

definition getChildsWithKeyID :: "sql_engine \<Rightarrow> entity \<Rightarrow> nat \<Rightarrow> (entity list, entity_db) sact" where
  "getChildsWithKeyID E e key = sbind (sget (searchEntityByParentIDAndKeyID E (entityID e) key)) (smap (entity_at E))"

definition getChildsWithKeyInfo :: "sql_engine \<Rightarrow> entity \<Rightarrow> nat \<Rightarrow> key_value \<Rightarrow> (entity list, entity_db) sact" where
  "getChildsWithKeyInfo E e key v = sbind (sget (searchEntityByParentIDAndKeyValue E (entityID e) key v)) (smap (entity_at E))"

definition getChildWithPropertyKeyIDandValue :: "sql_engine \<Rightarrow> entity \<Rightarrow> nat \<Rightarrow> key_value \<Rightarrow> (entity list, entity_db) sact" where
  "getChildWithPropertyKeyIDandValue E e key v =
     sbind (sget (searchEntityByParentAndPropertyIDAndKeyValue E (entityID e) key v)) (smap (entity_at E))"

definition getAllChild :: "sql_engine \<Rightarrow> entity \<Rightarrow> (entity list, entity_db) sact" where
  "getAllChild E e = sbind (sget (getAllChildEntity E (entityID e))) (smap (entity_at E))"

definition getHasChildByKeyInfo :: "sql_engine \<Rightarrow> entity \<Rightarrow> nat \<Rightarrow> key_value \<Rightarrow> entity_db \<Rightarrow> bool" where
  "getHasChildByKeyInfo E e key v db = (searchEntityByParentIDAndKeyValue E (entityID e) key v db \<noteq> [])"

definition addProperty_str :: "entity \<Rightarrow> nat \<Rightarrow> string \<Rightarrow> (unit, entity_db) sact" where
  "addProperty_str e key s = sbind (str_value s) (\<lambda>v. smodify (addNewPropertyForEntity (entityID e) key v))"

definition addProperty_num :: "entity \<Rightarrow> nat \<Rightarrow> u64 \<Rightarrow> (unit, entity_db) sact" where
  "addProperty_num e key n = smodify (addNewPropertyForEntity (entityID e) key (KEY_NUM_VALUE n))"

definition addChild :: "entity \<Rightarrow> entity \<Rightarrow> (unit, entity_db) sact" where
  "addChild e c = smodify (attachEntityChildToEntityParent (entityID e) (entityID c))"

end
