(* ===== verification/Dataset_Schema.thy ===== *)
theory Dataset_Schema
  imports Entity_DB Attribute_Cache
begin

text \<open>
  The description of the dataset of a device (\<open>data/CUSchemaDB.*\<close>, \<open>data/DatasetDB.*\<close>): an entity for the
  device, one for each attribute, which is a child of the device's and is named after both, and properties for
  what is known of the attribute. Every function that needs an entity asks the database for it by name.
\<close>

section \<open>Keys\<close>

definition DS_DEVICE_ID :: string where "DS_DEVICE_ID = ''ds_attr_dom''"
definition DS_ATTRIBUTE_NAME :: string where "DS_ATTRIBUTE_NAME = ''ds_attr_name''"
definition DS_DESCRIPTION :: string where "DS_DESCRIPTION = ''ds_desc''"
definition DS_TIMESTAMP :: string where "DS_TIMESTAMP = ''ds_timestamp''"
definition DS_ATTRIBUTE_DESCRIPTION :: string where "DS_ATTRIBUTE_DESCRIPTION = ''ds_attr_desc''"
definition DS_ATTRIBUTE_TYPE :: string where "DS_ATTRIBUTE_TYPE = ''ds_attr_type''"
definition DS_ATTRIBUTE_DIRECTION :: string where "DS_ATTRIBUTE_DIRECTION = ''ds_attr_dir''"
definition DS_MAX_RANGE :: string where "DS_MAX_RANGE = ''ds_max_range''"
definition DS_MIN_RANGE :: string where "DS_MIN_RANGE = ''ds_min_range''"
definition DS_DEFAULT_VALUE :: string where "DS_DEFAULT_VALUE = ''ds_default_value''"
definition DS_VALUE_MAX_SIZE :: string where "DS_VALUE_MAX_SIZE = ''ds_max_size''"
definition CS_DM_LD_SERVER_ADDRESS :: string where "CS_DM_LD_SERVER_ADDRESS = ''cs|dm|ld|server_address''"

lemmas ds_keys = DS_DEVICE_ID_def DS_ATTRIBUTE_NAME_def DS_DESCRIPTION_def DS_TIMESTAMP_def DS_ATTRIBUTE_DESCRIPTION_def
  DS_ATTRIBUTE_TYPE_def DS_ATTRIBUTE_DIRECTION_def DS_MAX_RANGE_def DS_MIN_RANGE_def DS_DEFAULT_VALUE_def DS_VALUE_MAX_SIZE_def
  CS_DM_LD_SERVER_ADDRESS_def

record schema_db =
  sdb :: entity_db
  deviceEntityMap :: "(string \<times> entity) list"
  mapDatasetKeyForID :: "(string \<times> nat) list"

text \<open>The same call on the database inside.\<close>

definition on_db :: "('a, entity_db) sact \<Rightarrow> ('a, schema_db) sact" where
  "on_db m s = (case m (sdb s) of (r, db) \<Rightarrow> (r, s\<lparr>sdb := db\<rparr>))"

definition key_of :: "string \<Rightarrow> schema_db \<Rightarrow> nat" where
  "key_of k s = (case map_of (mapDatasetKeyForID s) k of Some i \<Rightarrow> i | None \<Rightarrow> 0)"

definition make_key :: "string \<Rightarrow> schema_db \<Rightarrow> schema_db" where
  "make_key k s =
     (case getIDForKey k (sdb s) of
        (Ret i, db) \<Rightarrow> s\<lparr>sdb := db, mapDatasetKeyForID := map_insert k i (mapDatasetKeyForID s)\<rparr>
      | (_, db) \<Rightarrow> s\<lparr>sdb := db\<rparr>)"

definition new_CUSchemaDB :: schema_db where
  "new_CUSchemaDB =
     fold make_key
       [DS_DEVICE_ID, DS_ATTRIBUTE_NAME, DS_DESCRIPTION, DS_TIMESTAMP, DS_ATTRIBUTE_DESCRIPTION, DS_ATTRIBUTE_TYPE,
        DS_ATTRIBUTE_DIRECTION, DS_MAX_RANGE, DS_MIN_RANGE, DS_DEFAULT_VALUE, DS_VALUE_MAX_SIZE, CS_DM_LD_SERVER_ADDRESS]
       \<lparr>sdb = initDB, deviceEntityMap = [], mapDatasetKeyForID = []\<rparr>"

section \<open>Properties of an entity\<close>

text \<open>
  The walk over the properties of a key: those with another value are deleted until one with the value is found.
\<close>

fun unique_loop :: "key_value \<Rightarrow> property_row list \<Rightarrow> (bool, entity_db) sact" where
  "unique_loop v [] = sreturn False"
| "unique_loop v (r # rs) =
     (if prop_value r = v then sreturn True else sbind (smodify (deleteProperty (prop_id r))) (\<lambda>_. unique_loop v rs))"

definition already_there :: "sql_engine \<Rightarrow> entity \<Rightarrow> nat \<Rightarrow> key_value \<Rightarrow> bool \<Rightarrow> (bool, entity_db) sact" where
  "already_there E e key v checkValueForUnicity =
     sbind (sget (searchPropertyForEntity E (entityID e) [key])) (\<lambda>rows.
     if rows = [] then sreturn False else if checkValueForUnicity then unique_loop v rows else sreturn True)"

definition addUniqueAttributeProperty_str :: "sql_engine \<Rightarrow> entity \<Rightarrow> nat \<Rightarrow> string \<Rightarrow> (unit, entity_db) sact" where
  "addUniqueAttributeProperty_str E e key s =
     sbind (already_there E e key (KEY_STR_VALUE s) True) (\<lambda>found. if found then sreturn () else addProperty_str e key s)"

definition addUniqueAttributeProperty_num :: "sql_engine \<Rightarrow> entity \<Rightarrow> nat \<Rightarrow> u64 \<Rightarrow> bool \<Rightarrow> (unit, entity_db) sact" where
  "addUniqueAttributeProperty_num E e key n check =
     sbind (already_there E e key (KEY_NUM_VALUE n) check) (\<lambda>found. if found then sreturn () else addProperty_num e key n)"

definition clearAllAttributeForProperty :: "sql_engine \<Rightarrow> entity \<Rightarrow> nat \<Rightarrow> (unit, entity_db) sact" where
  "clearAllAttributeForProperty E e key =
     sbind (sget (searchPropertyForEntity E (entityID e) [key])) (sfor (\<lambda>r. smodify (deleteProperty (prop_id r))))"

section \<open>Devices and attributes\<close>

definition composeAttributeName :: "string \<Rightarrow> string \<Rightarrow> string" where
  "composeAttributeName deviceID attributeName = deviceID @ '':'' @ attributeName"

definition entity_name :: "entity \<Rightarrow> string" where
  "entity_name e = (case entity_value e of KEY_STR_VALUE s \<Rightarrow> s | _ \<Rightarrow> '''')"

definition addDeviceId :: "sql_engine \<Rightarrow> string \<Rightarrow> (unit, schema_db) sact" where
  "addDeviceId E deviceID =
     sbind (sget (\<lambda>s. map_of (deviceEntityMap s) deviceID)) (\<lambda>r.
     if r \<noteq> None then sreturn ()
     else
       sbind (sget (key_of DS_DEVICE_ID)) (\<lambda>kd. sbind (sget (key_of DS_TIMESTAMP)) (\<lambda>kt.
       sbind (str_value deviceID) (\<lambda>v.
       sbind (on_db (getNewEntityInstance E kd v)) (\<lambda>dsEntity.
       sbind (smodify (\<lambda>s. s\<lparr>deviceEntityMap := map_insert deviceID dsEntity (deviceEntityMap s)\<rparr>)) (\<lambda>_.
       on_db (addUniqueAttributeProperty_num E dsEntity kt (time_stamp E) False)))))))"

definition getDeviceEntity :: "sql_engine \<Rightarrow> string \<Rightarrow> (entity, schema_db) sact" where
  "getDeviceEntity E deviceID =
     sbind (addDeviceId E deviceID) (\<lambda>_.
     sbind (sget (\<lambda>s. map_of (deviceEntityMap s) deviceID)) (\<lambda>r. case r of None \<Rightarrow> sfault | Some e \<Rightarrow> sreturn e))"

definition getDatasetElement :: "sql_engine \<Rightarrow> entity \<Rightarrow> string \<Rightarrow> (entity option, schema_db) sact" where
  "getDatasetElement E device attributeName =
     sbind (sget (key_of DS_ATTRIBUTE_NAME)) (\<lambda>kn.
     sbind (str_value (composeAttributeName (entity_name device) attributeName)) (\<lambda>v.
     sbind (sget (\<lambda>s. getHasChildByKeyInfo E device kn v (sdb s))) (\<lambda>alreadyAdded.
     if alreadyAdded then
       sbind (on_db (getChildsWithKeyInfo E device kn v)) (\<lambda>childs. sreturn (case childs of [] \<Rightarrow> None | c # _ \<Rightarrow> Some c))
     else
       sbind (on_db (getNewEntityInstance E kn v)) (\<lambda>elementDst.
       sbind (on_db (addChild device elementDst)) (\<lambda>_. sreturn (Some elementDst))))))"

text \<open>The types by their number in the source.\<close>

definition data_type_of :: "u64 \<Rightarrow> data_type option" where
  "data_type_of n =
     (if n = 0 then Some TYPE_INT32 else if n = 1 then Some TYPE_INT64 else if n = 2 then Some TYPE_DOUBLE
      else if n = 3 then Some TYPE_STRING else if n = 4 then Some TYPE_BYTEARRAY else if n = 5 then Some TYPE_BOOLEAN else None)"

definition typeMaxDimension :: "u64 \<Rightarrow> u32 \<Rightarrow> u32 outcome" where
  "typeMaxDimension ty maxDimension =
     (case data_type_of ty of
        None \<Rightarrow> Throw (CException 2 ''unmanaged type'' ''CUSchemaDB::addAttributeToDataSet'')
      | Some TYPE_STRING \<Rightarrow>
          if maxDimension = 0 then Throw (CException 1 ''for string type need to be specified the max value'' ''CUSchemaDB::addAttributeToDataSet'')
          else Ret maxDimension
      | Some TYPE_BYTEARRAY \<Rightarrow>
          if maxDimension = 0 then Throw (CException 1 ''for byte array type need to be specified the max value'' ''CUSchemaDB::addAttributeToDataSet'')
          else Ret maxDimension
      | Some t \<Rightarrow> Ret (size_of_type t 0))"

definition joinChild :: "entity \<Rightarrow> entity \<Rightarrow> (unit, entity_db) sact" where
  "joinChild device e =
     sbind (sget (checkParentChildJoined (entityID device) (entityID e))) (\<lambda>isChild. if isChild then sreturn () else addChild device e)"

definition addAttributeToDataSet :: "sql_engine \<Rightarrow> string \<Rightarrow> string \<Rightarrow> string \<Rightarrow> u64 \<Rightarrow> u64 \<Rightarrow> u32 \<Rightarrow> (unit, schema_db) sact" where
  "addAttributeToDataSet E attributeDeviceID attributeName attributeDescription attributeType attributeDirection maxDimension =
     (case typeMaxDimension attributeType maxDimension of
        Throw ex \<Rightarrow> sthrow ex
      | Fault \<Rightarrow> sfault
      | Ret dim \<Rightarrow>
          sbind (getDeviceEntity E attributeDeviceID) (\<lambda>device.
          sbind (sget (\<lambda>s. s)) (\<lambda>s.
          sbind (str_value (composeAttributeName attributeDeviceID attributeName)) (\<lambda>v.
          sbind (on_db (getNewEntityInstance E (key_of DS_ATTRIBUTE_NAME s) v)) (\<lambda>elementDst.
          sbind (on_db (addUniqueAttributeProperty_str E elementDst (key_of DS_ATTRIBUTE_DESCRIPTION s) attributeDescription)) (\<lambda>_.
          sbind (on_db (addUniqueAttributeProperty_num E elementDst (key_of DS_ATTRIBUTE_TYPE s) attributeType True)) (\<lambda>_.
          sbind (on_db (addUniqueAttributeProperty_num E elementDst (key_of DS_ATTRIBUTE_DIRECTION s) attributeDirection True)) (\<lambda>_.
          sbind (on_db (addUniqueAttributeProperty_num E elementDst (key_of DS_VALUE_MAX_SIZE s) (ucast dim) True)) (\<lambda>_.
          on_db (joinChild device elementDst))))))))))"

section \<open>Descriptions in documents\<close>

definition lift_outcome :: "'a outcome \<Rightarrow> ('a, 's) sact" where
  "lift_outcome r s = (r, s)"

definition copy_str :: "sql_engine \<Rightarrow> entity \<Rightarrow> string \<Rightarrow> data_wrapper \<Rightarrow> (unit, schema_db) sact" where
  "copy_str E e key d =
     (if hasKey key d
      then sbind (lift_outcome (string_param key d)) (\<lambda>x. sbind (sget (key_of key)) (\<lambda>k. on_db (addUniqueAttributeProperty_str E e k x)))
      else sreturn ())"

definition copy_num :: "sql_engine \<Rightarrow> entity \<Rightarrow> string \<Rightarrow> data_wrapper \<Rightarrow> (unit, schema_db) sact" where
  "copy_num E e key d =
     (if hasKey key d
      then sbind (sget (key_of key)) (\<lambda>k. on_db (addUniqueAttributeProperty_num E e k (scast (getInt32Value key d)) True))
      else sreturn ())"

definition describe_element :: "sql_engine \<Rightarrow> entity \<Rightarrow> data_wrapper \<Rightarrow> (unit, schema_db) sact" where
  "describe_element E deviceEntity d =
     (if \<not> hasKey DS_ATTRIBUTE_NAME d then sreturn ()
      else
        sbind (lift_outcome (string_param DS_ATTRIBUTE_NAME d)) (\<lambda>attrName.
        sbind (getDatasetElement E deviceEntity attrName) (\<lambda>r.
        case r of
          None \<Rightarrow> sfault
        | Some e \<Rightarrow>
            sbind (copy_str E e DS_ATTRIBUTE_DESCRIPTION d) (\<lambda>_.
            sbind (copy_num E e DS_ATTRIBUTE_TYPE d) (\<lambda>_.
            sbind (copy_num E e DS_ATTRIBUTE_DIRECTION d) (\<lambda>_.
            sbind (copy_str E e DS_MAX_RANGE d) (\<lambda>_.
            sbind (copy_str E e DS_MIN_RANGE d) (\<lambda>_.
            sbind (copy_str E e DS_DEFAULT_VALUE d) (\<lambda>_.
            copy_num E e DS_VALUE_MAX_SIZE d)))))))))"

definition element_document :: "bson_value \<Rightarrow> data_wrapper outcome" where
  "element_document v = (case v of B_object d \<Rightarrow> Ret (setSerializedData d new_CDataWrapper) | _ \<Rightarrow> Throw bson_assertion)"

definition vector_param :: "string \<Rightarrow> data_wrapper \<Rightarrow> bson_value list outcome" where
  "vector_param key d = (case getVectorValue key d of None \<Rightarrow> Throw bson_assertion | Some vs \<Rightarrow> Ret vs)"

definition add_server :: "entity \<Rightarrow> bson_value \<Rightarrow> (unit, schema_db) sact" where
  "add_server deviceEntity v =
     (case v of
        B_string x \<Rightarrow> sbind (sget (key_of CS_DM_LD_SERVER_ADDRESS)) (\<lambda>k. on_db (addProperty_str deviceEntity k x))
      | _ \<Rightarrow> sthrow bson_assertion)"

definition addAttributeToDataSetFromDataWrapper :: "sql_engine \<Rightarrow> data_wrapper \<Rightarrow> (unit, schema_db) sact" where
  "addAttributeToDataSetFromDataWrapper E d =
     (if \<not> hasKey DS_DEVICE_ID d then sreturn ()
      else
        sbind (lift_outcome (string_param DS_DEVICE_ID d)) (\<lambda>attributeDeviceID.
        sbind (getDeviceEntity E attributeDeviceID) (\<lambda>deviceEntity.
        sbind (if hasKey DS_DESCRIPTION d
               then sbind (lift_outcome (vector_param DS_DESCRIPTION d))
                      (sfor (\<lambda>v. sbind (lift_outcome (element_document v)) (describe_element E deviceEntity)))
               else sreturn ()) (\<lambda>_.
        if hasKey CS_DM_LD_SERVER_ADDRESS d
        then sbind (sget (key_of CS_DM_LD_SERVER_ADDRESS)) (\<lambda>k.
             sbind (on_db (clearAllAttributeForProperty E deviceEntity k)) (\<lambda>_.
             sbind (lift_outcome (vector_param CS_DM_LD_SERVER_ADDRESS d)) (sfor (add_server deviceEntity))))
        else sreturn ()))))"

text \<open>
  The fields of one attribute, from its properties. The properties of a key are all text or all numbers, so that
  the union is read as it was written. \<open>substr\<close> past the end of the name throws.
\<close>

definition num_of :: "key_value \<Rightarrow> u64" where
  "num_of v = (case v of KEY_NUM_VALUE n \<Rightarrow> n | KEY_DOUBLE_VALUE n \<Rightarrow> n | KEY_STR_VALUE _ \<Rightarrow> 0)"

definition str_of :: "key_value \<Rightarrow> string" where
  "str_of v = (case v of KEY_STR_VALUE x \<Rightarrow> x | _ \<Rightarrow> '''')"

definition out_of_range :: cexception where
  "out_of_range = CException 0 ''basic_string::substr'' ''std''"

definition decompose :: "string \<Rightarrow> string \<Rightarrow> string outcome" where
  "decompose dID attr = (if length dID + 1 \<le> length attr then Ret (drop (length dID + 1) attr) else Throw out_of_range)"

definition attribute_field :: "schema_db \<Rightarrow> property_row \<Rightarrow> data_wrapper \<Rightarrow> data_wrapper" where
  "attribute_field s r d =
     (let k = prop_key r; v = prop_value r in
      if k = key_of DS_ATTRIBUTE_DESCRIPTION s then addStringValue DS_ATTRIBUTE_DESCRIPTION (str_of v) d
      else if k = key_of DS_ATTRIBUTE_DIRECTION s then addInt32Value DS_ATTRIBUTE_DIRECTION (ucast (num_of v)) d
      else if k = key_of DS_MAX_RANGE s then addStringValue DS_MAX_RANGE (str_of v) d
      else if k = key_of DS_MIN_RANGE s then addStringValue DS_MIN_RANGE (str_of v) d
      else if k = key_of DS_DEFAULT_VALUE s then addStringValue DS_DEFAULT_VALUE (str_of v) d
      else if k = key_of DS_VALUE_MAX_SIZE s then addInt32Value DS_VALUE_MAX_SIZE (ucast (num_of v)) d
      else if k = key_of DS_ATTRIBUTE_TYPE s then addInt32Value DS_ATTRIBUTE_TYPE (ucast (num_of v)) d
      else d)"

definition fillCDataWrapperDSAtribute :: "schema_db \<Rightarrow> entity \<Rightarrow> entity \<Rightarrow> property_row list \<Rightarrow> data_wrapper outcome" where
  "fillCDataWrapperDSAtribute s deviceIDEntity attrEntity attrProperty =
     obind (decompose (entity_name deviceIDEntity) (entity_name attrEntity)) (\<lambda>attrDecomposed.
     Ret (fold (attribute_field s) attrProperty (addStringValue DS_ATTRIBUTE_NAME attrDecomposed new_CDataWrapper)))"

fun fill_attributes :: "sql_engine \<Rightarrow> schema_db \<Rightarrow> entity \<Rightarrow> entity list \<Rightarrow> data_wrapper \<Rightarrow> data_wrapper outcome" where
  "fill_attributes E s deviceEntity [] d = Ret d"
| "fill_attributes E s deviceEntity (a # as) d =
     (let attrProperty = searchPropertyForEntity E (entityID a) [] (sdb s) in
      if attrProperty = [] then fill_attributes E s deviceEntity as d
      else obind (fillCDataWrapperDSAtribute s deviceEntity a attrProperty) (\<lambda>el.
           fill_attributes E s deviceEntity as (append_to_array (B_object (getBSONData el)) d)))"

definition fill_description :: "sql_engine \<Rightarrow> entity \<Rightarrow> data_wrapper \<Rightarrow> (data_wrapper, schema_db) sact" where
  "fill_description E deviceEntity d =
     sbind (sget (\<lambda>s. (key_of DS_ATTRIBUTE_NAME s,
                       searchPropertyForEntity E (entityID deviceEntity) [key_of DS_TIMESTAMP s] (sdb s)))) (\<lambda>(kn, ts).
     let d = addStringValue DS_DEVICE_ID (entity_name deviceEntity) d;
         d = (case ts of [] \<Rightarrow> d | r # _ \<Rightarrow> addInt64Value DS_TIMESTAMP (num_of (prop_value r)) d) in
     sbind (on_db (getChildsWithKeyID E deviceEntity kn)) (\<lambda>attributes.
     sbind (sget (\<lambda>s. s)) (\<lambda>s.
     sbind (lift_outcome (fill_attributes E s deviceEntity attributes d)) (\<lambda>d.
     let d = finalizeArrayForKey DS_DESCRIPTION d;
         servers = searchPropertyForEntity E (entityID deviceEntity) [key_of CS_DM_LD_SERVER_ADDRESS s] (sdb s);
         d = fold (\<lambda>r. append_to_array (B_string (str_of (prop_value r)))) servers d in
     sreturn (finalizeArrayForKey CS_DM_LD_SERVER_ADDRESS d)))))"

definition fillDataWrapperWithDataSetDescription :: "sql_engine \<Rightarrow> string \<Rightarrow> data_wrapper \<Rightarrow> (data_wrapper, schema_db) sact" where
  "fillDataWrapperWithDataSetDescription E deviceID d =
     sbind (sget (\<lambda>s. map_of (deviceEntityMap s) deviceID)) (\<lambda>r. case r of None \<Rightarrow> sreturn d | Some e \<Rightarrow> fill_description E e d)"

definition fill_all_devices :: "sql_engine \<Rightarrow> data_wrapper \<Rightarrow> (data_wrapper, schema_db) sact" where
  "fill_all_devices E d =
     sbind (sget deviceEntityMap) (\<lambda>devices.
     if devices = [] then sreturn d
     else sbind (smap (\<lambda>x. fill_description E (snd x) new_CDataWrapper) (sort_key fst devices)) (\<lambda>ds.
          sreturn (finalizeArrayForKey DS_DESCRIPTION (fold (\<lambda>x. append_to_array (B_object (getBSONData x))) ds d))))"

section \<open>Asking for attributes\<close>

record range_value_info =
  maxSize :: u32
  maxRange :: string
  minRange :: string
  defaultValue :: string
  valueType :: u64

definition reset_RangeValueInfo :: range_value_info where
  "reset_RangeValueInfo = \<lparr>maxSize = 0, maxRange = '''', minRange = '''', defaultValue = '''', valueType = 0\<rparr>"

definition getAllDeviceId :: "schema_db \<Rightarrow> string list" where
  "getAllDeviceId s = sort (map fst (deviceEntityMap s))"

definition deviceIsPresent :: "string \<Rightarrow> schema_db \<Rightarrow> bool" where
  "deviceIsPresent deviceID s = (map_of (deviceEntityMap s) deviceID \<noteq> None)"

text \<open>The names without a direction are searched under the key of the direction, which no entity has.\<close>

definition all_attribute_names :: "sql_engine \<Rightarrow> string \<Rightarrow> (string list, schema_db) sact" where
  "all_attribute_names E deviceID =
     sbind (getDeviceEntity E deviceID) (\<lambda>deviceEntity.
     sbind (sget (key_of DS_ATTRIBUTE_DIRECTION)) (\<lambda>k.
     sbind (on_db (getChildsWithKeyID E deviceEntity k)) (\<lambda>es. sreturn (map entity_name es))))"

definition getDeviceDatasetAttributesName :: "sql_engine \<Rightarrow> string \<Rightarrow> u64 \<Rightarrow> (string list, schema_db) sact" where
  "getDeviceDatasetAttributesName E deviceID directionType =
     sbind (getDeviceEntity E deviceID) (\<lambda>deviceEntity.
     sbind (sget (key_of DS_ATTRIBUTE_DIRECTION)) (\<lambda>k.
     sbind (on_db (getChildWithPropertyKeyIDandValue E deviceEntity k (KEY_NUM_VALUE directionType)))
       (smap (\<lambda>e. lift_outcome (decompose deviceID (entity_name e))))))"

definition getDeviceAttributeDescription :: "sql_engine \<Rightarrow> string \<Rightarrow> string \<Rightarrow> string \<Rightarrow> (string, schema_db) sact" where
  "getDeviceAttributeDescription E deviceID attributesName attributeDescription =
     sbind (getDeviceEntity E deviceID) (\<lambda>deviceEntity.
     sbind (getDatasetElement E deviceEntity attributesName) (\<lambda>r.
     case r of
       None \<Rightarrow> sreturn attributeDescription
     | Some e \<Rightarrow>
         sbind (sget (\<lambda>s. searchPropertyForEntity E (entityID e) [key_of DS_ATTRIBUTE_DESCRIPTION s] (sdb s))) (\<lambda>rows.
         sreturn (case rows of [] \<Rightarrow> attributeDescription | r # _ \<Rightarrow> str_of (prop_value r)))))"

text \<open>A number as text, as the default value is when it was stored as one.\<close>

definition signed_text :: "u64 \<Rightarrow> string" where
  "signed_text n = (if sint n < 0 then ''-'' @ decimal (nat (- sint n)) else decimal (nat (sint n)))"

definition range_field :: "sql_engine \<Rightarrow> schema_db \<Rightarrow> property_row \<Rightarrow> range_value_info \<Rightarrow> range_value_info" where
  "range_field E s r info =
     (let k = prop_key r; v = prop_value r in
      if k = key_of DS_VALUE_MAX_SIZE s then info\<lparr>maxSize := ucast (num_of v)\<rparr>
      else if k = key_of DS_MAX_RANGE s then info\<lparr>maxRange := str_of v\<rparr>
      else if k = key_of DS_MIN_RANGE s then info\<lparr>minRange := str_of v\<rparr>
      else if k = key_of DS_ATTRIBUTE_TYPE s then info\<lparr>valueType := num_of v\<rparr>
      else if k = key_of DS_DEFAULT_VALUE s
      then info\<lparr>defaultValue := (case v of KEY_STR_VALUE x \<Rightarrow> x | KEY_NUM_VALUE n \<Rightarrow> signed_text n | KEY_DOUBLE_VALUE n \<Rightarrow> double_text E n)\<rparr>
      else info)"

definition range_keys :: "schema_db \<Rightarrow> nat list" where
  "range_keys s = map (\<lambda>k. key_of k s) [DS_MAX_RANGE, DS_MIN_RANGE, DS_DEFAULT_VALUE, DS_ATTRIBUTE_TYPE, DS_VALUE_MAX_SIZE]"

definition getDeviceAttributeRangeValueInfo ::
  "sql_engine \<Rightarrow> string \<Rightarrow> string \<Rightarrow> range_value_info \<Rightarrow> (int \<times> range_value_info, schema_db) sact" where
  "getDeviceAttributeRangeValueInfo E deviceID attributesName info =
     sbind (str_value (composeAttributeName deviceID attributesName)) (\<lambda>v.
     sbind (getDeviceEntity E deviceID) (\<lambda>deviceEntity.
     sbind (sget (key_of DS_ATTRIBUTE_NAME)) (\<lambda>kn.
     sbind (on_db (getChildsWithKeyInfo E deviceEntity kn v)) (\<lambda>es.
     case es of
       [] \<Rightarrow> sreturn (1, info)
     | e # _ \<Rightarrow>
         sbind (sget (\<lambda>s. (s, searchPropertyForEntity E (entityID e) (range_keys s) (sdb s)))) (\<lambda>(s, rows).
         if rows = [] then sreturn (1, info) else sreturn (0, fold (range_field E s) rows info))))))"

definition setDeviceAttributeRangeValueInfo :: "sql_engine \<Rightarrow> string \<Rightarrow> string \<Rightarrow> range_value_info \<Rightarrow> (unit, schema_db) sact" where
  "setDeviceAttributeRangeValueInfo E deviceID attributesName info =
     sbind (getDeviceEntity E deviceID) (\<lambda>deviceEntity.
     sbind (getDatasetElement E deviceEntity attributesName) (\<lambda>r.
     case r of
       None \<Rightarrow> sfault
     | Some e \<Rightarrow>
         sbind (sget (\<lambda>s. (key_of DS_MAX_RANGE s, key_of DS_MIN_RANGE s, key_of DS_DEFAULT_VALUE s))) (\<lambda>(kx, kn, kd).
         sbind (on_db (addUniqueAttributeProperty_str E e kx (maxRange info))) (\<lambda>_.
         sbind (on_db (addUniqueAttributeProperty_str E e kn (minRange info))) (\<lambda>_.
         on_db (addUniqueAttributeProperty_str E e kd (defaultValue info)))))))"

definition getDeviceAttributeDirection :: "sql_engine \<Rightarrow> string \<Rightarrow> string \<Rightarrow> (u64 option, schema_db) sact" where
  "getDeviceAttributeDirection E deviceID attributesName =
     sbind (getDeviceEntity E deviceID) (\<lambda>deviceEntity.
     sbind (getDatasetElement E deviceEntity attributesName) (\<lambda>r.
     case r of
       None \<Rightarrow> sfault
     | Some e \<Rightarrow>
         sbind (sget (\<lambda>s. searchPropertyForEntity E (entityID e) [key_of DS_ATTRIBUTE_DIRECTION s] (sdb s))) (\<lambda>rows.
         sreturn (case rows of [] \<Rightarrow> None | r # _ \<Rightarrow> Some (num_of (prop_value r))))))"

section \<open>The dataset of one device\<close>

record dataset_db =
  ds_schema :: schema_db
  ds_deviceID :: string

definition on_schema :: "('a, schema_db) sact \<Rightarrow> ('a, dataset_db) sact" where
  "on_schema m D = (case m (ds_schema D) of (r, s) \<Rightarrow> (r, D\<lparr>ds_schema := s\<rparr>))"

definition new_DatasetDB :: dataset_db where
  "new_DatasetDB = \<lparr>ds_schema = new_CUSchemaDB, ds_deviceID = ''''\<rparr>"

definition setDeviceID :: "string \<Rightarrow> dataset_db \<Rightarrow> dataset_db" where
  "setDeviceID d D = D\<lparr>ds_deviceID := d\<rparr>"

definition dataset_addFromDataWrapper :: "sql_engine \<Rightarrow> data_wrapper \<Rightarrow> (unit, dataset_db) sact" where
  "dataset_addFromDataWrapper E d =
     (if \<not> hasKey DS_DEVICE_ID d then sreturn ()
      else
        sbind (lift_outcome (string_param DS_DEVICE_ID d)) (\<lambda>dev.
        sbind (sget ds_deviceID) (\<lambda>own.
        if own = '''' then sbind (smodify (setDeviceID dev)) (\<lambda>_. on_schema (addAttributeToDataSetFromDataWrapper E d))
        else if own \<noteq> dev then sreturn ()
        else on_schema (addAttributeToDataSetFromDataWrapper E d))))"

definition dataset_fill :: "sql_engine \<Rightarrow> data_wrapper \<Rightarrow> (data_wrapper, dataset_db) sact" where
  "dataset_fill E d = sbind (sget ds_deviceID) (\<lambda>dev. on_schema (fillDataWrapperWithDataSetDescription E dev d))"

definition dataset_addAttribute :: "sql_engine \<Rightarrow> string \<Rightarrow> string \<Rightarrow> u64 \<Rightarrow> u64 \<Rightarrow> u32 \<Rightarrow> (unit, dataset_db) sact" where
  "dataset_addAttribute E attributeName attributeDescription ty dir sz =
     sbind (sget ds_deviceID) (\<lambda>dev. on_schema (addAttributeToDataSet E dev attributeName attributeDescription ty dir sz))"

definition getDatasetAttributesName :: "sql_engine \<Rightarrow> u64 \<Rightarrow> (string list, dataset_db) sact" where
  "getDatasetAttributesName E dir = sbind (sget ds_deviceID) (\<lambda>dev. on_schema (getDeviceDatasetAttributesName E dev dir))"

definition getAttributeDescription :: "sql_engine \<Rightarrow> string \<Rightarrow> string \<Rightarrow> (string, dataset_db) sact" where
  "getAttributeDescription E name desc = sbind (sget ds_deviceID) (\<lambda>dev. on_schema (getDeviceAttributeDescription E dev name desc))"

definition getAttributeRangeValueInfo :: "sql_engine \<Rightarrow> string \<Rightarrow> range_value_info \<Rightarrow> (int \<times> range_value_info, dataset_db) sact" where
  "getAttributeRangeValueInfo E name info = sbind (sget ds_deviceID) (\<lambda>dev. on_schema (getDeviceAttributeRangeValueInfo E dev name info))"

definition setAttributeRangeValueInfo :: "sql_engine \<Rightarrow> string \<Rightarrow> range_value_info \<Rightarrow> (unit, dataset_db) sact" where
  "setAttributeRangeValueInfo E name info = sbind (sget ds_deviceID) (\<lambda>dev. on_schema (setDeviceAttributeRangeValueInfo E dev name info))"

definition getAttributeDirection :: "sql_engine \<Rightarrow> string \<Rightarrow> (u64 option, dataset_db) sact" where
  "getAttributeDirection E name = sbind (sget ds_deviceID) (\<lambda>dev. on_schema (getDeviceAttributeDirection E dev name))"

end
