(* ===== verification/Dataset_Tables.thy ===== *)
theory Dataset_Tables
  imports Dataset_Schema
begin

text \<open>
  The tables of the entity database seen as a map from names to properties. The view is exact as long as the
  names in use are told apart by \<open>LIKE\<close>.
\<close>

section \<open>Names\<close>

definition names_ok :: "string set \<Rightarrow> bool" where
  "names_ok N \<longleftrightarrow> (\<forall>x \<in> N. x \<noteq> '''' \<and> length x < 256) \<and> (\<forall>x \<in> N. \<forall>y \<in> N. sql_like x y \<longrightarrow> x = y)"

lemma like_percent: "sql_like ps s \<Longrightarrow> sql_like (CHR ''%'' # ps) s"
  by (cases s) auto

lemma like_self: "sql_like x x"
  by (induction x) (auto intro: like_percent)

text \<open>Names without wildcards are told apart when they differ in more than the case of letters.\<close>

lemma like_plain: "CHR ''%'' \<notin> set x \<Longrightarrow> CHR ''_'' \<notin> set x \<Longrightarrow> sql_like x y \<longleftrightarrow> map fold_case x = map fold_case y"
proof (induction x arbitrary: y)
  case (Cons c x)
  then show ?case by (cases y) auto
qed auto

definition db_ok :: "string set \<Rightarrow> entity_db \<Rightarrow> bool" where
  "db_ok N db \<longleftrightarrow> distinct (map fst (entity_rows db)) \<and> distinct (map snd (entity_rows db))
     \<and> (\<forall>e \<in> set (entity_rows db). fst e \<le> seq_entity db \<and> (\<exists>x \<in> N. snd (snd e) = KEY_STR_VALUE x))
     \<and> distinct (map prop_id (property_rows db))
     \<and> (\<forall>r \<in> set (property_rows db). prop_id r \<le> seq_property db \<and> prop_entity r \<le> seq_entity db)
     \<and> distinct (entity_group db) \<and> (\<forall>g \<in> set (entity_group db). fst g \<le> seq_entity db \<and> snd g \<le> seq_entity db)"

definition name_id :: "entity_db \<Rightarrow> nat \<Rightarrow> string \<Rightarrow> nat option" where
  "name_id db k x = map_of (map prod.swap (entity_rows db)) (k, KEY_STR_VALUE x)"

lemma name_id_row:
  assumes "db_ok N db"
  shows "name_id db k x = Some i \<longleftrightarrow> (i, k, KEY_STR_VALUE x) \<in> set (entity_rows db)"
proof -
  have "distinct (map fst (map prod.swap (entity_rows db)))" using assms by (simp add: db_ok_def comp_def)
  then have "name_id db k x = Some i \<longleftrightarrow> ((k, KEY_STR_VALUE x), i) \<in> set (map prod.swap (entity_rows db))"
    unfolding name_id_def by (rule map_of_eq_Some_iff)
  then show ?thesis by force
qed

lemma name_id_None:
  assumes "db_ok N db"
  shows "name_id db k x = None \<longleftrightarrow> (\<forall>i. (i, k, KEY_STR_VALUE x) \<notin> set (entity_rows db))"
  using name_id_row [OF assms, of k x] by (metis option.exhaust option.distinct(1))

lemma filter_distinct_single: "distinct (map f xs) \<Longrightarrow> x \<in> set xs \<Longrightarrow> filter (\<lambda>y. f y = f x) xs = [x]"
proof (induction xs)
  case (Cons z xs)
  then show ?case by (auto simp: filter_empty_conv image_iff)
qed simp

lemma short_mset: "mset xs = mset ys \<Longrightarrow> length ys \<le> 1 \<Longrightarrow> xs = ys"
  by (cases ys) (auto simp: mset_single_iff)

context sql_rows
begin

lemma row_order_single [simp]: "row_order E [i] = [i]" "row_order E [] = []"
  using row_order_mset [of "[i]"] row_order_mset [of "[]"] by (simp_all add: mset_single_iff)

lemma row_order_set [simp]: "set (row_order E xs) = set xs"
  using row_order_mset [of xs] by (metis set_mset_mset)

lemma row_order_distinct [simp]: "distinct (row_order E xs) = distinct xs"
  using row_order_mset [of xs] by (metis mset_eq_imp_distinct_iff)

lemma matching_rows:
  assumes ok: "db_ok N db" "names_ok N" and x: "x \<in> N"
  shows "filter (\<lambda>(i, k', w). k' = k \<and> value_matches (KEY_STR_VALUE x) w \<and> Q i) (entity_rows db)
    = (case name_id db k x of None \<Rightarrow> [] | Some i \<Rightarrow> if Q i then [(i, k, KEY_STR_VALUE x)] else [])"
proof -
  have like: "str_matches x (snd (snd e)) \<longleftrightarrow> snd (snd e) = KEY_STR_VALUE x" if e: "e \<in> set (entity_rows db)" for e
  proof -
    obtain y where "y \<in> N" "snd (snd e) = KEY_STR_VALUE y" using ok(1) e by (auto simp: db_ok_def)
    then show ?thesis using ok(2) x like_self by (auto simp: names_ok_def)
  qed
  have f: "filter (\<lambda>(i, k', w). k' = k \<and> value_matches (KEY_STR_VALUE x) w \<and> Q i) (entity_rows db)
      = filter (\<lambda>e. Q (fst e)) (filter (\<lambda>e. snd e = (k, KEY_STR_VALUE x)) (entity_rows db))"
    unfolding filter_filter by (rule filter_cong) (use like in \<open>auto simp: like_self\<close>)
  have "filter (\<lambda>e. snd e = (k, KEY_STR_VALUE x)) (entity_rows db) = (case name_id db k x of None \<Rightarrow> [] | Some i \<Rightarrow> [(i, k, KEY_STR_VALUE x)])"
  proof (cases "name_id db k x")
    case None
    then have "\<forall>i. (i, k, KEY_STR_VALUE x) \<notin> set (entity_rows db)" using name_id_None [OF ok(1)] by blast
    then have "filter (\<lambda>e. snd e = (k, KEY_STR_VALUE x)) (entity_rows db) = []" by (auto simp: filter_empty_conv)
    then show ?thesis using None by simp
  next
    case (Some i)
    then have "(i, k, KEY_STR_VALUE x) \<in> set (entity_rows db)" using name_id_row [OF ok(1)] by blast
    then show ?thesis using Some filter_distinct_single [of snd "entity_rows db" "(i, k, KEY_STR_VALUE x)"] ok(1) by (simp add: db_ok_def)
  qed
  then show ?thesis unfolding f by (simp split: option.split)
qed

lemma search_name:
  assumes "db_ok N db" "names_ok N" "x \<in> N"
  shows "searchEntityByKeyAndValue E k (KEY_STR_VALUE x) db = Some (case name_id db k x of None \<Rightarrow> [] | Some i \<Rightarrow> [i])"
  using assms(2,3) matching_rows [OF assms, of k "\<lambda>_. True"]
  by (auto simp: searchEntityByKeyAndValue_def only_key_id_def select_entities_def names_ok_def split: option.split)

lemma search_child:
  assumes "db_ok N db" "names_ok N" "x \<in> N"
  shows "searchEntityByParentIDAndKeyValue E p k (KEY_STR_VALUE x) db
    = (case name_id db k x of None \<Rightarrow> [] | Some i \<Rightarrow> if (p, i) \<in> set (entity_group db) then [i] else [])"
  using matching_rows [OF assms, of k "\<lambda>i. (p, i) \<in> set (entity_group db)"]
  by (auto simp: searchEntityByParentIDAndKeyValue_def select_entities_def split: option.split)

text \<open>Asking for an entity by a name in use: the one that is there, otherwise a new one.\<close>

definition with_entity :: "nat \<Rightarrow> string \<Rightarrow> entity_db \<Rightarrow> entity_db" where
  "with_entity k x db = (if name_id db k x = None
     then db\<lparr>seq_entity := seq_entity db + 1, entity_rows := entity_rows db @ [(seq_entity db + 1, k, KEY_STR_VALUE x)]\<rparr> else db)"

lemma new_entity:
  assumes "db_ok N db" "names_ok N" "x \<in> N"
  shows "getNewEntityInstance E k (KEY_STR_VALUE x) db
    = (Ret \<lparr>entityID = (case name_id db k x of None \<Rightarrow> seq_entity db + 1 | Some i \<Rightarrow> i), entity_key = k, entity_value = KEY_STR_VALUE x\<rparr>,
       with_entity k x db)"
  using search_name [OF assms, of k] by (cases "name_id db k x") (simp_all add: getNewEntityInstance_def getIDForEntity_def with_entity_def Let_def)

lemma with_entity_ok: "db_ok N db \<Longrightarrow> x \<in> N \<Longrightarrow> db_ok N (with_entity k x db)"
  using name_id_None [of N db k x] by (fastforce simp: with_entity_def db_ok_def)

lemma name_id_with_entity:
  "name_id (with_entity k x db) k' y = (if k' = k \<and> y = x \<and> name_id db k x = None then Some (seq_entity db + 1) else name_id db k' y)"
  by (auto simp: with_entity_def name_id_def map_add_def split: option.split)

lemma with_entity_sel [simp]:
  "property_rows (with_entity k x db) = property_rows db" "entity_group (with_entity k x db) = entity_group db"
  "seq_property (with_entity k x db) = seq_property db"
  by (simp_all add: with_entity_def)

lemma entity_at_row:
  assumes "db_ok N db" "names_ok N" "name_id db k x = Some i" "x \<in> N"
  shows "entity_at E i db = (Ret \<lparr>entityID = i, entity_key = k, entity_value = KEY_STR_VALUE x\<rparr>, db)"
proof -
  have "(i, k, KEY_STR_VALUE x) \<in> set (entity_rows db)" using assms(3) name_id_row [OF assms(1)] by blast
  then have "map_of (entity_rows db) i = Some (k, KEY_STR_VALUE x)" using assms(1) by (simp add: db_ok_def)
  then show ?thesis using new_entity [OF assms(1,2,4), of k] assms(3)
    by (simp add: entity_at_def getEntityKeyInfoByID_def with_entity_def)
qed

lemma children_at:
  assumes "db_ok N db" "names_ok N" and "\<And>i. i \<in> set is \<Longrightarrow> \<exists>x \<in> N. name_id db k x = Some i"
  shows "\<exists>es. smap (entity_at E) is db = (Ret es, db) \<and> map entityID es = is
    \<and> (\<forall>e \<in> set es. \<exists>x \<in> N. entity_value e = KEY_STR_VALUE x \<and> name_id db k x = Some (entityID e))"
  using assms(3)
proof (induction "is")
  case (Cons i "is")
  obtain x where x: "x \<in> N" "name_id db k x = Some i" using Cons.prems [of i] by auto
  obtain es where "smap (entity_at E) is db = (Ret es, db)" "map entityID es = is"
    "\<forall>e \<in> set es. \<exists>x \<in> N. entity_value e = KEY_STR_VALUE x \<and> name_id db k x = Some (entityID e)"
    using Cons by force
  then show ?case using entity_at_row [OF assms(1,2) x(2,1)] x
    by (intro exI [of _ "\<lparr>entityID = i, entity_key = k, entity_value = KEY_STR_VALUE x\<rparr> # es"]) (auto simp: sbind_Ret sreturn_def)
qed (simp add: sreturn_def)

section \<open>Properties\<close>

lemma search_properties:
  assumes "db_ok N db"
  shows "mset (searchPropertyForEntity E e ks db) = mset (filter (\<lambda>r. prop_entity r = e \<and> (ks = [] \<or> prop_key r \<in> set ks)) (property_rows db))"
proof -
  let ?rs = "filter (\<lambda>r. prop_entity r = e \<and> (ks = [] \<or> prop_key r \<in> set ks)) (property_rows db)"
  let ?f = "\<lambda>i. find (\<lambda>r. prop_id r = i) ?rs"
  have d: "distinct (map prop_id ?rs)" using assms by (auto simp: db_ok_def distinct_map_filter)
  have all: "?f (prop_id r) = Some r" if "r \<in> set ?rs" for r by (rule find_keys_distinct [OF d that])
  have "mset (List.map_filter ?f (row_order E (map prop_id ?rs))) = mset (List.map_filter ?f (map prop_id ?rs))"
    by (simp add: List.map_filter_def row_order_mset)
  also have "List.map_filter ?f (map prop_id ?rs) = ?rs"
  proof -
    have "List.map_filter ?f (map prop_id xs) = xs" if "set xs \<subseteq> set ?rs" for xs
      using that by (induction xs) (use all in \<open>auto simp: List.map_filter_simps\<close>)
    then show ?thesis by blast
  qed
  finally show ?thesis by (simp add: searchPropertyForEntity_def Let_def)
qed

end

text \<open>The value of a property; a key other than the one of the servers has one value at most.\<close>

definition rows_of :: "entity_db \<Rightarrow> nat \<Rightarrow> nat \<Rightarrow> property_row list" where
  "rows_of db e k = filter (\<lambda>r. prop_entity r = e \<and> prop_key r = k) (property_rows db)"

definition prop_at :: "entity_db \<Rightarrow> nat \<Rightarrow> nat \<Rightarrow> key_value option" where
  "prop_at db e k = (case rows_of db e k of [] \<Rightarrow> None | r # _ \<Rightarrow> Some (prop_value r))"

definition one_each :: "entity_db \<Rightarrow> bool" where
  "one_each db \<longleftrightarrow> (\<forall>e k. k \<noteq> 12 \<longrightarrow> length (rows_of db e k) \<le> 1)"

lemma rows_of_cases:
  assumes "one_each db" and "k \<noteq> 12"
  obtains "rows_of db e k = []" "prop_at db e k = None"
  | r where "rows_of db e k = [r]" "prop_at db e k = Some (prop_value r)" "r \<in> set (property_rows db)" "prop_entity r = e" "prop_key r = k"
proof (cases "rows_of db e k")
  case Nil
  then show ?thesis using that(1) by (simp add: prop_at_def)
next
  case (Cons r rs)
  have "length (rows_of db e k) \<le> 1" using assms by (simp add: one_each_def)
  then have r: "rows_of db e k = [r]" using Cons by simp
  then have "r \<in> set (rows_of db e k)" by simp
  then show ?thesis using r that(2) [of r] by (simp add: prop_at_def rows_of_def)
qed

text \<open>What setting a property changes.\<close>

definition sets_prop :: "string set \<Rightarrow> nat \<Rightarrow> nat \<Rightarrow> key_value \<Rightarrow> entity_db \<Rightarrow> entity_db \<Rightarrow> bool" where
  "sets_prop N e k v db db' \<longleftrightarrow> db_ok N db' \<and> one_each db' \<and> entity_rows db' = entity_rows db \<and> entity_group db' = entity_group db
     \<and> seq_entity db' = seq_entity db
     \<and> (\<forall>e' k'. k' \<noteq> 12 \<longrightarrow> prop_at db' e' k' = (if e' = e \<and> k' = k then Some v else prop_at db e' k'))"

lemma name_id_cong: "entity_rows db' = entity_rows db \<Longrightarrow> name_id db' = name_id db"
  by (simp add: name_id_def fun_eq_iff)

lemma add_property_sets:
  assumes "db_ok N db" "one_each db" "k \<noteq> 12" "rows_of db e k = []" "e \<le> seq_entity db"
  shows "sets_prop N e k v db (addNewPropertyForEntity e k v db)"
proof -
  let ?r = "\<lparr>prop_id = seq_property db + 1, prop_entity = e, prop_key = k, prop_value = v\<rparr>"
  have rows: "rows_of (addNewPropertyForEntity e k v db) e' k' = rows_of db e' k' @ (if e' = e \<and> k' = k then [?r] else [])" for e' k'
    by (auto simp: rows_of_def addNewPropertyForEntity_def Let_def)
  have "db_ok N (addNewPropertyForEntity e k v db)" using assms(1,5) by (fastforce simp: db_ok_def addNewPropertyForEntity_def Let_def)
  moreover have "one_each (addNewPropertyForEntity e k v db)" using assms(2,4) by (auto simp: one_each_def rows)
  moreover have "prop_at (addNewPropertyForEntity e k v db) e' k' = (if e' = e \<and> k' = k then Some v else prop_at db e' k')" for e' k'
    using assms(4) by (simp add: prop_at_def rows)
  ultimately show ?thesis by (simp add: sets_prop_def) (simp add: addNewPropertyForEntity_def Let_def)
qed

lemma delete_property:
  assumes "db_ok N db" "one_each db" "r \<in> set (property_rows db)" "prop_entity r = e" "prop_key r = k" "k \<noteq> 12"
  shows "db_ok N (deleteProperty (prop_id r) db)" "one_each (deleteProperty (prop_id r) db)" "rows_of (deleteProperty (prop_id r) db) e k = []"
    and "e' \<noteq> e \<or> k' \<noteq> k \<Longrightarrow> rows_of (deleteProperty (prop_id r) db) e' k' = rows_of db e' k'"
proof -
  have f: "rows_of (deleteProperty (prop_id r) db) e' k' = filter (\<lambda>q. prop_id q \<noteq> prop_id r) (rows_of db e' k')" for e' k'
    by (simp add: rows_of_def deleteProperty_def conj_commute)
  show "db_ok N (deleteProperty (prop_id r) db)" using assms(1) by (auto simp: db_ok_def deleteProperty_def distinct_map_filter)
  have "length (rows_of (deleteProperty (prop_id r) db) e' k') \<le> length (rows_of db e' k')" for e' k' by (simp add: f)
  then show "one_each (deleteProperty (prop_id r) db)" using assms(2) unfolding one_each_def by (meson order_trans)
  have "r \<in> set (rows_of db e k)" using assms(3-5) by (simp add: rows_of_def)
  then have "rows_of db e k = [r]" by (cases rule: rows_of_cases [OF assms(2,6), of e]) simp_all
  then show "rows_of (deleteProperty (prop_id r) db) e k = []" by (simp add: f)
  have inj: "q = r" if "q \<in> set (property_rows db)" "prop_id q = prop_id r" for q
    using assms(1,3) that by (auto simp: db_ok_def distinct_map inj_on_def)
  show "rows_of (deleteProperty (prop_id r) db) e' k' = rows_of db e' k'" if "e' \<noteq> e \<or> k' \<noteq> k"
    unfolding f using inj that assms(4,5) by (intro filter_True) (auto simp: rows_of_def)
qed

context sql_rows
begin

lemma search_one:
  assumes "db_ok N db" "one_each db" "k \<noteq> 12"
  shows "searchPropertyForEntity E e [k] db = rows_of db e k"
proof -
  have "mset (searchPropertyForEntity E e [k] db) = mset (rows_of db e k)" using search_properties [OF assms(1), of e "[k]"] by (simp add: rows_of_def)
  then show ?thesis using assms(2,3) by (intro short_mset) (simp_all add: one_each_def)
qed

lemma already_there_run:
  assumes "db_ok N db" "one_each db" "k \<noteq> 12" "entityID e \<le> seq_entity db"
  shows "\<exists>b db1. already_there E e k v True db = (Ret b, db1)
    \<and> sets_prop N (entityID e) k v db (if b then db1 else addNewPropertyForEntity (entityID e) k v db1)"
proof (cases rule: rows_of_cases [OF assms(2,3), of "entityID e"])
  case 1
  then show ?thesis using add_property_sets [OF assms(1-3) _ assms(4)] by (auto simp: already_there_def search_one [OF assms(1-3)] sreturn_def)
next
  case (2 r)
  show ?thesis
  proof (cases "prop_value r = v")
    case True
    then show ?thesis using 2 assms(1,2) by (auto simp: already_there_def search_one [OF assms(1-3)] sreturn_def sets_prop_def)
  next
    case False
    let ?db = "deleteProperty (prop_id r) db"
    note d = delete_property [OF assms(1,2) 2(3-5) assms(3)]
    have "seq_entity ?db = seq_entity db" "entity_rows ?db = entity_rows db" "entity_group ?db = entity_group db"
      by (simp_all add: deleteProperty_def)
    moreover have "prop_at ?db e' k' = prop_at db e' k'" if "\<not> (e' = entityID e \<and> k' = k)" for e' k'
      using d(4) [of e' k'] that by (simp add: prop_at_def)
    moreover have "sets_prop N (entityID e) k v ?db (addNewPropertyForEntity (entityID e) k v ?db)"
      by (rule add_property_sets [OF d(1,2) assms(3) d(3)]) (use assms(4) in \<open>simp add: deleteProperty_def\<close>)
    ultimately have "sets_prop N (entityID e) k v db (addNewPropertyForEntity (entityID e) k v ?db)" by (simp add: sets_prop_def)
    then show ?thesis using 2 False by (auto simp: already_there_def search_one [OF assms(1-3)] sreturn_def)
  qed
qed

lemma addUnique_num:
  assumes "db_ok N db" "one_each db" "k \<noteq> 12" "entityID e \<le> seq_entity db"
  shows "\<exists>db'. addUniqueAttributeProperty_num E e k n True db = (Ret (), db') \<and> sets_prop N (entityID e) k (KEY_NUM_VALUE n) db db'"
  using already_there_run [OF assms, of "KEY_NUM_VALUE n"]
  by (auto simp: addUniqueAttributeProperty_num_def sbind_Ret addProperty_num_def smodify_def sreturn_def)

lemma addUnique_str:
  assumes "db_ok N db" "one_each db" "k \<noteq> 12" "entityID e \<le> seq_entity db" "length x < 256"
  shows "\<exists>db'. addUniqueAttributeProperty_str E e k x db = (Ret (), db') \<and> sets_prop N (entityID e) k (KEY_STR_VALUE x) db db'"
  using already_there_run [OF assms(1-4), of "KEY_STR_VALUE x"] assms(5)
  by (auto simp: addUniqueAttributeProperty_str_def sbind_Ret addProperty_str_def str_value_def smodify_def sreturn_def)

end

end
