(* ===== verification/Dataset_Description.thy ===== *)
theory Dataset_Description
  imports Dataset_Tables
begin

text \<open>
  The description of a dataset refines a map from the names of attributes to their properties. The functions of
  \<open>CUSchemaDB\<close> act on the map, whatever order the engine gives rows in, as long as the names in use are told
  apart. Names that are not told apart share one description.
\<close>

section \<open>The abstract dataset\<close>

type_synonym attribute_map = "string \<Rightarrow> (nat \<Rightarrow> key_value option) option"

definition key_table :: "(string \<times> nat) list" where
  "key_table =
     [(DS_DEVICE_ID, 1), (DS_ATTRIBUTE_NAME, 2), (DS_DESCRIPTION, 3), (DS_TIMESTAMP, 4), (DS_ATTRIBUTE_DESCRIPTION, 5),
      (DS_ATTRIBUTE_TYPE, 6), (DS_ATTRIBUTE_DIRECTION, 7), (DS_MAX_RANGE, 8), (DS_MIN_RANGE, 9), (DS_DEFAULT_VALUE, 10),
      (DS_VALUE_MAX_SIZE, 11), (CS_DM_LD_SERVER_ADDRESS, 12)]"

lemma keys:
  assumes "mapDatasetKeyForID s = key_table"
  shows "key_of DS_DEVICE_ID s = 1" "key_of DS_ATTRIBUTE_NAME s = 2" "key_of DS_TIMESTAMP s = 4" "key_of DS_ATTRIBUTE_DESCRIPTION s = 5"
    "key_of DS_ATTRIBUTE_TYPE s = 6" "key_of DS_ATTRIBUTE_DIRECTION s = 7" "key_of DS_MAX_RANGE s = 8" "key_of DS_MIN_RANGE s = 9"
    "key_of DS_DEFAULT_VALUE s = 10" "key_of DS_VALUE_MAX_SIZE s = 11" "key_of CS_DM_LD_SERVER_ADDRESS s = 12"
  using assms by (simp_all add: key_of_def key_table_def ds_keys)

abbreviation attr_id :: "string \<Rightarrow> entity_db \<Rightarrow> string \<Rightarrow> nat option" where
  "attr_id d db n \<equiv> name_id db 2 (composeAttributeName d n)"

definition attrs_ok :: "string \<Rightarrow> attribute_map \<Rightarrow> entity_db \<Rightarrow> nat \<Rightarrow> bool" where
  "attrs_ok d A db i \<longleftrightarrow> (\<forall>c. (i, c) \<in> set (entity_group db) \<longleftrightarrow> (\<exists>n. A n \<noteq> None \<and> attr_id d db n = Some c))
     \<and> (\<forall>n. A n = None \<longleftrightarrow> attr_id d db n = None)
     \<and> (\<forall>n f c k. A n = Some f \<longrightarrow> attr_id d db n = Some c \<longrightarrow> k \<noteq> 12 \<longrightarrow> prop_at db c k = f k)"

definition tables :: "string set \<Rightarrow> string \<Rightarrow> attribute_map \<Rightarrow> entity_db \<Rightarrow> nat \<Rightarrow> bool" where
  "tables N d A db i \<longleftrightarrow> db_ok N db \<and> one_each db \<and> name_id db 1 d = Some i \<and> attrs_ok d A db i"

definition device_object :: "string \<Rightarrow> nat \<Rightarrow> entity" where
  "device_object d i = \<lparr>entityID = i, entity_key = 1, entity_value = KEY_STR_VALUE d\<rparr>"

definition attr_object :: "string \<Rightarrow> string \<Rightarrow> nat \<Rightarrow> entity" where
  "attr_object d n c = \<lparr>entityID = c, entity_key = 2, entity_value = KEY_STR_VALUE (composeAttributeName d n)\<rparr>"

definition known :: "string set \<Rightarrow> string \<Rightarrow> attribute_map \<Rightarrow> schema_db \<Rightarrow> nat \<Rightarrow> bool" where
  "known N d A s i \<longleftrightarrow> mapDatasetKeyForID s = key_table \<and> map_of (deviceEntityMap s) d = Some (device_object d i) \<and> tables N d A (sdb s) i"

definition unknown :: "string set \<Rightarrow> string \<Rightarrow> schema_db \<Rightarrow> bool" where
  "unknown N d s \<longleftrightarrow> mapDatasetKeyForID s = key_table \<and> map_of (deviceEntityMap s) d = None \<and> db_ok N (sdb s) \<and> one_each (sdb s)
     \<and> name_id (sdb s) 1 d = None \<and> (\<forall>n. attr_id d (sdb s) n = None)"

definition describes :: "string set \<Rightarrow> string \<Rightarrow> attribute_map \<Rightarrow> schema_db \<Rightarrow> bool" where
  "describes N d A s \<longleftrightarrow> (\<exists>i. known N d A s i) \<or> (unknown N d s \<and> A = Map.empty)"

lemma new_describes: "describes N d Map.empty new_CUSchemaDB"
proof -
  have new: "new_CUSchemaDB = \<lparr>sdb = initDB\<lparr>seq_key := 12, key_rows := map prod.swap key_table\<rparr>, deviceEntityMap = [], mapDatasetKeyForID = key_table\<rparr>"
    by (simp add: new_CUSchemaDB_def make_key_def getIDForKey_def initDB_def key_table_def map_insert_def ds_keys Let_def)
  show ?thesis unfolding new by (simp add: describes_def unknown_def db_ok_def one_each_def rows_of_def name_id_def initDB_def)
qed

lemma map_of_map_insert: "map_of (map_insert k v m) x = (if x = k \<and> map_of m k = None then Some v else map_of m x)"
  by (auto simp: map_insert_def map_add_def split: option.split)

lemma compose_eq: "composeAttributeName d m = composeAttributeName d n \<longleftrightarrow> m = n"
  by (simp add: composeAttributeName_def)

lemma name_id_inj:
  assumes "db_ok N db" "name_id db k x = Some c" "name_id db k' y = Some c"
  shows "k' = k \<and> y = x"
proof -
  have "(c, k, KEY_STR_VALUE x) \<in> set (entity_rows db)" "(c, k', KEY_STR_VALUE y) \<in> set (entity_rows db)"
    using assms name_id_row [OF assms(1)] by blast+
  moreover have "distinct (map fst (entity_rows db))" using assms(1) by (simp add: db_ok_def)
  ultimately have "(k, KEY_STR_VALUE x) = (k', KEY_STR_VALUE y)" by (metis map_of_is_SomeI option.inject)
  then show ?thesis by simp
qed

lemma name_id_below: "db_ok N db \<Longrightarrow> name_id db k x = Some c \<Longrightarrow> c \<le> seq_entity db"
  using name_id_row [of N db k x c] by (auto simp: db_ok_def)

lemma on_db_Ret: "m (sdb s) = (r, db) \<Longrightarrow> on_db m s = (r, s\<lparr>sdb := db\<rparr>)"
  by (simp add: on_db_def)

section \<open>An attribute under construction\<close>

text \<open>The entity \<open>c\<close> of attribute \<open>n\<close> exists with the properties \<open>f\<close>; it need not be a child of the device yet.\<close>

definition building ::
  "string set \<Rightarrow> string \<Rightarrow> attribute_map \<Rightarrow> entity_db \<Rightarrow> nat \<Rightarrow> string \<Rightarrow> nat \<Rightarrow> (nat \<Rightarrow> key_value option) \<Rightarrow> bool" where
  "building N d A db i n c f \<longleftrightarrow> db_ok N db \<and> one_each db \<and> name_id db 1 d = Some i \<and> attr_id d db n = Some c
     \<and> (\<forall>k. k \<noteq> 12 \<longrightarrow> prop_at db c k = f k)
     \<and> (\<forall>c'. (i, c') \<in> set (entity_group db) \<longleftrightarrow> (\<exists>m. A m \<noteq> None \<and> attr_id d db m = Some c'))
     \<and> (\<forall>m. m \<noteq> n \<longrightarrow> (A m = None \<longleftrightarrow> attr_id d db m = None))
     \<and> (\<forall>m g c' k. m \<noteq> n \<longrightarrow> A m = Some g \<longrightarrow> attr_id d db m = Some c' \<longrightarrow> k \<noteq> 12 \<longrightarrow> prop_at db c' k = g k)"

definition old_props :: "attribute_map \<Rightarrow> string \<Rightarrow> nat \<Rightarrow> key_value option" where
  "old_props A n = (case A n of None \<Rightarrow> (\<lambda>_. None) | Some f \<Rightarrow> f)"

lemma building_set:
  assumes b: "building N d A db i n c f" and p: "sets_prop N c k v db db'" and "k \<noteq> 12"
  shows "building N d A db' i n c (f(k := Some v))"
proof -
  have ids: "name_id db' = name_id db" using p by (intro name_id_cong) (simp add: sets_prop_def)
  have "c' \<noteq> c" if "m \<noteq> n" "attr_id d db m = Some c'" for m c'
    using b name_id_inj [of N db 2 "composeAttributeName d n" c 2 "composeAttributeName d m"] that by (auto simp: building_def compose_eq)
  with b p show ?thesis unfolding building_def ids by (auto simp: sets_prop_def)
qed

context sql_rows
begin

lemma building_start:
  assumes t: "tables N d A db i" and n: "composeAttributeName d n \<in> N"
  shows "\<exists>c. (case attr_id d db n of None \<Rightarrow> seq_entity db + 1 | Some i \<Rightarrow> i) = c
    \<and> building N d A (with_entity 2 (composeAttributeName d n) db) i n c (old_props A n)"
proof -
  let ?x = "composeAttributeName d n" and ?db = "with_entity 2 (composeAttributeName d n) db"
  have ok: "db_ok N db" "one_each db" "name_id db 1 d = Some i" "attrs_ok d A db i" using t by (simp_all add: tables_def)
  have ids: "attr_id d ?db m = (if m = n \<and> attr_id d db n = None then Some (seq_entity db + 1) else attr_id d db m)" for m
    by (simp add: name_id_with_entity compose_eq)
  have rows: "rows_of ?db e k = rows_of db e k" "prop_at ?db e k = prop_at db e k" for e k by (simp_all add: rows_of_def prop_at_def)
  have none: "prop_at db (seq_entity db + 1) k = None" for k
  proof -
    have "rows_of db (seq_entity db + 1) k = []" using ok(1) by (auto simp: rows_of_def db_ok_def filter_empty_conv)
    then show ?thesis by (simp add: prop_at_def)
  qed
  have n_old: "A n = None \<longleftrightarrow> attr_id d db n = None" using ok(4) by (simp add: attrs_ok_def)
  have "A m \<noteq> None \<and> attr_id d ?db m = Some c' \<longleftrightarrow> A m \<noteq> None \<and> attr_id d db m = Some c'" for m c' using n_old by (auto simp: ids)
  then have grp: "(i, c') \<in> set (entity_group db) \<longleftrightarrow> (\<exists>m. A m \<noteq> None \<and> attr_id d ?db m = Some c')" for c'
    using ok(4) by (simp only: attrs_ok_def)
  have "building N d A ?db i n (case attr_id d db n of None \<Rightarrow> seq_entity db + 1 | Some i \<Rightarrow> i) (old_props A n)"
    unfolding building_def
  proof (intro conjI)
    show "db_ok N ?db" by (rule with_entity_ok [OF ok(1) n])
    show "one_each ?db" using ok(2) by (simp add: one_each_def rows)
    show "name_id ?db 1 d = Some i" using ok(3) by (simp add: name_id_with_entity)
    show "\<forall>k. k \<noteq> 12 \<longrightarrow> prop_at ?db (case attr_id d db n of None \<Rightarrow> seq_entity db + 1 | Some i \<Rightarrow> i) k = old_props A n k"
    proof (cases "A n")
      case None
      then show ?thesis using n_old none by (simp add: rows old_props_def)
    next
      case (Some g)
      then show ?thesis using n_old ok(4) by (auto simp: rows old_props_def attrs_ok_def)
    qed
    show "\<forall>c'. (i, c') \<in> set (entity_group ?db) \<longleftrightarrow> (\<exists>m. A m \<noteq> None \<and> attr_id d ?db m = Some c')" using grp by simp
  qed (use ok(4) in \<open>auto simp: ids rows attrs_ok_def split: option.split\<close>)
  then show ?thesis by blast
qed

lemma building_done:
  assumes b: "building N d A db i n c f"
  shows "tables N d (A(n \<mapsto> f)) (attachEntityChildToEntityParent i c db) i"
proof -
  let ?db = "attachEntityChildToEntityParent i c db"
  have same: "entity_rows ?db = entity_rows db" "property_rows ?db = property_rows db" "seq_entity ?db = seq_entity db" "seq_property ?db = seq_property db"
    by (simp_all add: attachEntityChildToEntityParent_def)
  then have ids: "name_id ?db = name_id db" "prop_at ?db = prop_at db" "one_each ?db = one_each db"
    by (simp_all add: name_id_def prop_at_def rows_of_def one_each_def fun_eq_iff)
  have below: "i \<le> seq_entity db" "c \<le> seq_entity db" using b name_id_below [of N db] by (auto simp: building_def)
  have "db_ok N ?db" using b below by (auto simp: building_def db_ok_def attachEntityChildToEntityParent_def)
  moreover have "set (entity_group ?db) = insert (i, c) (set (entity_group db))" by (auto simp: attachEntityChildToEntityParent_def)
  moreover have "(\<exists>m. (A(n \<mapsto> f)) m \<noteq> None \<and> attr_id d db m = Some c') \<longleftrightarrow> c' = c \<or> (\<exists>m. A m \<noteq> None \<and> attr_id d db m = Some c')" for c'
  proof -
    have "attr_id d db n = Some c" using b by (simp add: building_def)
    then show ?thesis by (metis fun_upd_apply option.inject option.distinct(1))
  qed
  ultimately show ?thesis using b unfolding tables_def attrs_ok_def ids building_def by auto
qed

lemma join_is_attach: "db_ok N db \<Longrightarrow> joinChild e e' db = (Ret (), attachEntityChildToEntityParent (entityID e) (entityID e') db)"
proof -
  assume ok: "db_ok N db"
  have "checkParentChildJoined (entityID e) (entityID e') db \<longleftrightarrow> (entityID e, entityID e') \<in> set (entity_group db)"
  proof (cases "(entityID e, entityID e') \<in> set (entity_group db)")
    case True
    then have "filter (\<lambda>g. g = (entityID e, entityID e')) (entity_group db) = [(entityID e, entityID e')]"
      using filter_distinct_single [of "\<lambda>x. x" "entity_group db"] ok by (simp add: db_ok_def)
    then show ?thesis using True by (simp add: checkParentChildJoined_def)
  next
    case False
    then have "filter (\<lambda>g. g = (entityID e, entityID e')) (entity_group db) = []" by (auto simp: filter_empty_conv)
    then show ?thesis using False by (simp add: checkParentChildJoined_def)
  qed
  then show ?thesis by (simp add: joinChild_def addChild_def sact_defs attachEntityChildToEntityParent_def)
qed

end

section \<open>The functions on the abstract dataset\<close>

context sql_rows
begin

lemma device_found:
  assumes D: "describes N d A s" and N: "names_ok N" "d \<in> N"
  shows "\<exists>i s'. getDeviceEntity E d s = (Ret (device_object d i), s') \<and> known N d A s' i \<and> ((\<exists>j. known N d A s j) \<longrightarrow> s' = s)"
proof (cases "\<exists>i. known N d A s i")
  case True
  then obtain i where k: "known N d A s i" by blast
  then have "getDeviceEntity E d s = (Ret (device_object d i), s)"
    by (simp add: getDeviceEntity_def addDeviceId_def known_def sbind_def sact_defs)
  then show ?thesis using k by blast
next
  case False
  then have u: "unknown N d s" and A: "A = Map.empty" using D by (auto simp: describes_def)
  let ?i = "seq_entity (sdb s) + 1" and ?db1 = "with_entity 1 d (sdb s)"
  let ?db2 = "addNewPropertyForEntity ?i 4 (KEY_NUM_VALUE (time_stamp E)) ?db1"
  let ?s = "s\<lparr>sdb := ?db2, deviceEntityMap := map_insert d (device_object d ?i) (deviceEntityMap s)\<rparr>"
  have ok: "db_ok N (sdb s)" "one_each (sdb s)" "name_id (sdb s) 1 d = None" using u by (simp_all add: unknown_def)
  have ok1: "db_ok N ?db1" by (rule with_entity_ok [OF ok(1) N(2)])
  have rows1: "rows_of ?db1 e k = rows_of (sdb s) e k" for e k by (simp add: rows_of_def)
  then have one1: "one_each ?db1" using ok(2) by (simp add: one_each_def)
  have none: "rows_of ?db1 ?i k = []" for k using ok(1) by (auto simp: rows1 rows_of_def db_ok_def filter_empty_conv)
  have p: "sets_prop N ?i 4 (KEY_NUM_VALUE (time_stamp E)) ?db1 ?db2"
    by (rule add_property_sets [OF ok1 one1 _ none]) (simp_all add: with_entity_def ok(3)[simplified])
  have new: "getNewEntityInstance E 1 (KEY_STR_VALUE d) (sdb s) = (Ret (device_object d ?i), ?db1)"
    using new_entity [OF ok(1) N, of 1] ok(3) by (simp add: device_object_def)
  have len: "length d < 256" using N by (simp add: names_ok_def)
  have add: "addUniqueAttributeProperty_num E (device_object d ?i) 4 (time_stamp E) False ?db1 = (Ret (), ?db2)"
    using search_one [OF ok1 one1, of 4 ?i] none [of 4]
    by (simp add: addUniqueAttributeProperty_num_def already_there_def device_object_def addProperty_num_def sbind_def sact_defs)
  have "addDeviceId E d s = (Ret (), ?s)"
    using u new add len keys [of s] by (simp add: addDeviceId_def unknown_def str_value_def on_db_def sbind_def sact_defs)
  then have run: "getDeviceEntity E d s = (Ret (device_object d ?i), ?s)"
    using u by (simp add: getDeviceEntity_def unknown_def map_of_map_insert sbind_def sact_defs)
  have ids: "name_id ?db2 = name_id ?db1" using p by (intro name_id_cong) (simp add: sets_prop_def)
  have "(?i, c) \<notin> set (entity_group ?db2)" for c using p ok(1) by (auto simp: sets_prop_def db_ok_def)
  then have "attrs_ok d A ?db2 ?i"
    using u unfolding attrs_ok_def ids by (simp add: A unknown_def name_id_with_entity)
  moreover have "name_id ?db2 1 d = Some ?i" unfolding ids using ok(3) by (simp add: name_id_with_entity)
  ultimately have "tables N d A ?db2 ?i" using p unfolding tables_def sets_prop_def by blast
  then have "known N d A ?s ?i" using u by (simp add: known_def unknown_def map_of_map_insert)
  then show ?thesis using run False by blast
qed

lemma attribute_added:
  assumes D: "describes N d A s" and N: "names_ok N" "d \<in> N" "composeAttributeName d n \<in> N"
    and dim: "typeMaxDimension ty sz = Ret dim" and desc: "length desc < 256"
  shows "\<exists>s'. addAttributeToDataSet E d n desc ty dir sz s = (Ret (), s')
    \<and> describes N d (A(n \<mapsto> (old_props A n)(5 \<mapsto> KEY_STR_VALUE desc, 6 \<mapsto> KEY_NUM_VALUE ty, 7 \<mapsto> KEY_NUM_VALUE dir, 11 \<mapsto> KEY_NUM_VALUE (ucast dim)))) s'"
proof -
  obtain i s0 where dev: "getDeviceEntity E d s = (Ret (device_object d i), s0)" "known N d A s0 i" using device_found [OF D N(1,2)] by blast
  then have t: "tables N d A (sdb s0) i" and k: "mapDatasetKeyForID s0 = key_table" by (simp_all add: known_def)
  then have ok: "db_ok N (sdb s0)" by (simp add: tables_def)
  let ?x = "composeAttributeName d n" and ?db0 = "with_entity 2 (composeAttributeName d n) (sdb s0)"
  obtain c where c: "(case attr_id d (sdb s0) n of None \<Rightarrow> seq_entity (sdb s0) + 1 | Some i \<Rightarrow> i) = c"
      and b0: "building N d A ?db0 i n c (old_props A n)" using building_start [OF t N(3)] by blast
  have new: "getNewEntityInstance E 2 (KEY_STR_VALUE ?x) (sdb s0) = (Ret (attr_object d n c), ?db0)"
    using new_entity [OF ok N(1,3), of 2] c by (simp add: attr_object_def)
  have use: "db_ok N db \<and> one_each db \<and> entityID (attr_object d n c) = c \<and> c \<le> seq_entity db" if "building N d A db i n c f" for db f
    using that name_id_below [of N db 2 ?x c] by (simp add: building_def attr_object_def)
  obtain db1 where p1: "addUniqueAttributeProperty_str E (attr_object d n c) 5 desc ?db0 = (Ret (), db1)" "sets_prop N c 5 (KEY_STR_VALUE desc) ?db0 db1"
    using addUnique_str [of N ?db0 5 "attr_object d n c" desc] use [OF b0] desc by auto
  have b1: "building N d A db1 i n c ((old_props A n)(5 \<mapsto> KEY_STR_VALUE desc))" by (rule building_set [OF b0 p1(2)]) simp
  obtain db2 where p2: "addUniqueAttributeProperty_num E (attr_object d n c) 6 ty True db1 = (Ret (), db2)" "sets_prop N c 6 (KEY_NUM_VALUE ty) db1 db2"
    using addUnique_num [of N db1 6 "attr_object d n c" ty] use [OF b1] by auto
  have b2: "building N d A db2 i n c ((old_props A n)(5 \<mapsto> KEY_STR_VALUE desc, 6 \<mapsto> KEY_NUM_VALUE ty))" by (rule building_set [OF b1 p2(2)]) simp
  obtain db3 where p3: "addUniqueAttributeProperty_num E (attr_object d n c) 7 dir True db2 = (Ret (), db3)" "sets_prop N c 7 (KEY_NUM_VALUE dir) db2 db3"
    using addUnique_num [of N db2 7 "attr_object d n c" dir] use [OF b2] by auto
  have b3: "building N d A db3 i n c ((old_props A n)(5 \<mapsto> KEY_STR_VALUE desc, 6 \<mapsto> KEY_NUM_VALUE ty, 7 \<mapsto> KEY_NUM_VALUE dir))"
    by (rule building_set [OF b2 p3(2)]) simp
  obtain db4 where p4: "addUniqueAttributeProperty_num E (attr_object d n c) 11 (ucast dim) True db3 = (Ret (), db4)"
      "sets_prop N c 11 (KEY_NUM_VALUE (ucast dim)) db3 db4"
    using addUnique_num [of N db3 11 "attr_object d n c" "ucast dim"] use [OF b3] by auto
  note b4 = building_set [OF b3 p4(2), simplified]
  have join: "joinChild (device_object d i) (attr_object d n c) db4 = (Ret (), attachEntityChildToEntityParent i c db4)"
    using join_is_attach [of N db4 "device_object d i" "attr_object d n c"] use [OF b4] by (simp add: device_object_def attr_object_def)
  have len: "length ?x < 256" using N by (simp add: names_ok_def)
  let ?s = "s0\<lparr>sdb := attachEntityChildToEntityParent i c db4\<rparr>"
  have "addAttributeToDataSet E d n desc ty dir sz s = (Ret (), ?s)"
    using dim len dev(1) keys [OF k] new p1(1) p2(1) p3(1) p4(1) join
    by (simp add: addAttributeToDataSet_def str_value_def on_db_def sbind_def sact_defs)
  moreover have "known N d (A(n \<mapsto> (old_props A n)(5 \<mapsto> KEY_STR_VALUE desc, 6 \<mapsto> KEY_NUM_VALUE ty, 7 \<mapsto> KEY_NUM_VALUE dir,
      11 \<mapsto> KEY_NUM_VALUE (ucast dim)))) ?s i"
    using building_done [OF b4] dev(2) by (simp add: known_def)
  ultimately show ?thesis by (auto simp: describes_def)
qed

end

end
