(* ===== verification/Dataset_Answers.thy ===== *)
theory Dataset_Answers
  imports Dataset_Description
begin

text \<open>
  What the dataset answers: the names of a direction, type, size, range, direction and description of an
  attribute are those of the abstract dataset.
\<close>

context sql_rows
begin

lemma known_describes: "known N d A s i \<Longrightarrow> describes N d A s"
  by (auto simp: describes_def)

lemma device_known: "names_ok N \<Longrightarrow> d \<in> N \<Longrightarrow> known N d A s i \<Longrightarrow> getDeviceEntity E d s = (Ret (device_object d i), s)"
  by (simp add: getDeviceEntity_def addDeviceId_def known_def sbind_def sact_defs)

lemma knownD:
  assumes "known N d A s i"
  shows "db_ok N (sdb s)" "one_each (sdb s)" "mapDatasetKeyForID s = key_table" "attrs_ok d A (sdb s) i" "name_id (sdb s) 1 d = Some i"
  using assms by (simp_all add: known_def tables_def)

lemma attribute_id:
  assumes "known N d A s i" and "A n = Some f"
  obtains c where "attr_id d (sdb s) n = Some c" "(i, c) \<in> set (entity_group (sdb s))" "\<And>k. k \<noteq> 12 \<Longrightarrow> prop_at (sdb s) c k = f k"
proof -
  have a: "attrs_ok d A (sdb s) i" using assms(1) by (rule knownD)
  then have "A n = None \<longleftrightarrow> attr_id d (sdb s) n = None" unfolding attrs_ok_def by blast
  then have "attr_id d (sdb s) n \<noteq> None" using assms(2) by simp
  then obtain c where c: "attr_id d (sdb s) n = Some c" by blast
  then show ?thesis using that [of c] a assms(2) unfolding attrs_ok_def by blast
qed

text \<open>The entity of an attribute, made when there is none.\<close>

lemma element_found:
  assumes k: "known N d A s i" and N: "names_ok N" "composeAttributeName d n \<in> N"
  shows "\<exists>c s'. getDatasetElement E (device_object d i) n s = (Ret (Some (attr_object d n c)), s') \<and> attr_id d (sdb s') n = Some c
    \<and> known N d (A(n \<mapsto> old_props A n)) s' i \<and> (A n \<noteq> None \<longrightarrow> s' = s)"
proof -
  let ?x = "composeAttributeName d n" and ?db = "sdb s"
  note ok = knownD [OF k]
  have name: "entity_name (device_object d i) = d" "entityID (device_object d i) = i" by (simp_all add: entity_name_def device_object_def)
  have len: "length ?x < 256" using N by (simp add: names_ok_def)
  note child = search_child [OF ok(1) N, of i 2]
  show ?thesis
  proof (cases "A n")
    case (Some f)
    obtain c where c: "attr_id d ?db n = Some c" "(i, c) \<in> set (entity_group ?db)" by (rule attribute_id [OF k Some])
    have "smap (entity_at E) [c] ?db = (Ret [attr_object d n c], ?db)"
      using entity_at_row [OF ok(1) N(1) c(1) N(2)] by (simp add: sbind_def sreturn_def attr_object_def)
    then have "getDatasetElement E (device_object d i) n s = (Ret (Some (attr_object d n c)), s)"
      using child c len keys(2) [OF ok(3)]
      by (simp add: getDatasetElement_def name str_value_def getHasChildByKeyInfo_def getChildsWithKeyInfo_def on_db_def sbind_def sact_defs)
    moreover have "A(n \<mapsto> old_props A n) = A" using Some by (simp add: old_props_def fun_upd_idem)
    ultimately show ?thesis using c k by auto
  next
    case None
    have t: "tables N d A ?db i" using k by (simp add: known_def)
    have id: "attr_id d ?db n = None" using None ok(4) by (simp add: attrs_ok_def)
    let ?db1 = "with_entity 2 ?x ?db" and ?c = "seq_entity ?db + 1"
    have b: "building N d A ?db1 i n ?c (old_props A n)" using building_start [OF t N(2)] id by simp
    let ?s = "s\<lparr>sdb := attachEntityChildToEntityParent i ?c ?db1\<rparr>"
    have "getDatasetElement E (device_object d i) n s = (Ret (Some (attr_object d n ?c)), ?s)"
      using child id len keys(2) [OF ok(3)] new_entity [OF ok(1) N, of 2]
      by (simp add: getDatasetElement_def name str_value_def getHasChildByKeyInfo_def on_db_def sbind_def sact_defs addChild_def attr_object_def)
    moreover have "known N d (A(n \<mapsto> old_props A n)) ?s i" using building_done [OF b] k by (simp add: known_def)
    moreover have "attr_id d (sdb ?s) n = Some ?c"
      using b by (simp add: building_def attachEntityChildToEntityParent_def name_id_def)
    ultimately show ?thesis using None by blast
  qed
qed

lemma direction_answer:
  assumes k: "known N d A s i" and N: "names_ok N" "d \<in> N" "composeAttributeName d n \<in> N" and A: "A n = Some f"
  shows "getDeviceAttributeDirection E d n s = (Ret (map_option num_of (f 7)), s)"
proof -
  note ok = knownD [OF k]
  obtain c where c: "getDatasetElement E (device_object d i) n s = (Ret (Some (attr_object d n c)), s)" "attr_id d (sdb s) n = Some c"
    using element_found [OF k N(1,3)] A by auto
  obtain c' where c': "attr_id d (sdb s) n = Some c'" "\<And>k. k \<noteq> 12 \<Longrightarrow> prop_at (sdb s) c' k = f k" by (rule attribute_id [OF k A]) blast
  then have "prop_at (sdb s) c 7 = f 7" using c by simp
  then have "(case rows_of (sdb s) c 7 of [] \<Rightarrow> None | r # _ \<Rightarrow> Some (num_of (prop_value r))) = map_option num_of (f 7)"
    by (cases "rows_of (sdb s) c 7") (simp_all add: prop_at_def, metis option.simps(9))
  then show ?thesis using c(1) search_one [OF ok(1,2), of 7 c] keys(6) [OF ok(3)] device_known [OF N(1,2) k]
    by (simp add: getDeviceAttributeDirection_def sbind_def sact_defs attr_object_def)
qed

lemma description_answer:
  assumes k: "known N d A s i" and N: "names_ok N" "d \<in> N" "composeAttributeName d n \<in> N" and A: "A n = Some f" "f 5 = Some (KEY_STR_VALUE x)"
  shows "getDeviceAttributeDescription E d n y s = (Ret x, s)"
proof -
  note ok = knownD [OF k]
  obtain c where c: "getDatasetElement E (device_object d i) n s = (Ret (Some (attr_object d n c)), s)" "attr_id d (sdb s) n = Some c"
    using element_found [OF k N(1,3)] A by auto
  obtain c' where "attr_id d (sdb s) n = Some c'" "\<And>k. k \<noteq> 12 \<Longrightarrow> prop_at (sdb s) c' k = f k" by (rule attribute_id [OF k A(1)]) blast
  then have "prop_at (sdb s) c 5 = Some (KEY_STR_VALUE x)" using c A by simp
  then have "(case rows_of (sdb s) c 5 of [] \<Rightarrow> y | r # _ \<Rightarrow> str_of (prop_value r)) = x"
    by (cases "rows_of (sdb s) c 5") (simp_all add: prop_at_def str_of_def)
  then show ?thesis using c(1) search_one [OF ok(1,2), of 5 c] keys(4) [OF ok(3)] device_known [OF N(1,2) k]
    by (simp add: getDeviceAttributeDescription_def sbind_def sact_defs attr_object_def)
qed

end

section \<open>Ranges\<close>

definition range_result :: "sql_engine \<Rightarrow> (nat \<Rightarrow> key_value option) \<Rightarrow> range_value_info \<Rightarrow> range_value_info" where
  "range_result E f info =
     \<lparr>maxSize = (case f 11 of None \<Rightarrow> maxSize info | Some v \<Rightarrow> ucast (num_of v)),
      maxRange = (case f 8 of None \<Rightarrow> maxRange info | Some v \<Rightarrow> str_of v),
      minRange = (case f 9 of None \<Rightarrow> minRange info | Some v \<Rightarrow> str_of v),
      defaultValue = (case f 10 of None \<Rightarrow> defaultValue info
        | Some v \<Rightarrow> (case v of KEY_STR_VALUE x \<Rightarrow> x | KEY_NUM_VALUE n \<Rightarrow> signed_text n | KEY_DOUBLE_VALUE n \<Rightarrow> double_text E n)),
      valueType = (case f 6 of None \<Rightarrow> valueType info | Some v \<Rightarrow> num_of v)\<rparr>"

definition row_value :: "property_row list \<Rightarrow> nat \<Rightarrow> key_value option" where
  "row_value rs k = map_option prop_value (find (\<lambda>r. prop_key r = k) rs)"

lemma count_map: "count (mset (map f xs)) k = length (filter (\<lambda>r. f r = k) xs)"
  by (induction xs) auto

lemma fold_range:
  assumes "mapDatasetKeyForID s = key_table" and "distinct (map prop_key rs)"
  shows "fold (range_field E s) rs info = range_result E (row_value rs) info"
  using assms(2)
proof (induction rs arbitrary: info)
  case (Cons r rs)
  have none: "row_value rs (prop_key r) = None" using Cons.prems by (simp add: row_value_def find_key_None)
  have "row_value (r # rs) k = (if k = prop_key r then Some (prop_value r) else row_value rs k)" for k by (simp add: row_value_def)
  then have "range_result E (row_value rs) (range_field E s r info) = range_result E (row_value (r # rs)) info"
    using none by (auto simp: range_result_def range_field_def keys [OF assms(1)] Let_def cong: option.case_cong)
  then show ?case using Cons by simp
qed (simp add: range_result_def row_value_def)

context sql_rows
begin

lemma search_distinct_keys:
  assumes "db_ok N db" "one_each db" "12 \<notin> set ks" "ks \<noteq> []"
  shows "distinct (map prop_key (searchPropertyForEntity E c ks db))"
    and "k \<in> set ks \<Longrightarrow> row_value (searchPropertyForEntity E c ks db) k = prop_at db c k"
proof -
  let ?rs = "searchPropertyForEntity E c ks db"
  have m: "mset ?rs = mset (filter (\<lambda>r. prop_entity r = c \<and> prop_key r \<in> set ks) (property_rows db))"
    using search_properties [OF assms(1), of c ks] assms(4) by simp
  have of_key: "mset (filter (\<lambda>r. prop_key r = k) ?rs) = mset (rows_of db c k)" if k: "k \<in> set ks" for k
  proof -
    have "mset (filter (\<lambda>r. prop_key r = k) ?rs) = mset (filter (\<lambda>r. prop_key r = k) (filter (\<lambda>r. prop_entity r = c \<and> prop_key r \<in> set ks) (property_rows db)))"
      by (simp only: mset_filter m)
    also have "filter (\<lambda>r. prop_key r = k) (filter (\<lambda>r. prop_entity r = c \<and> prop_key r \<in> set ks) (property_rows db)) = rows_of db c k"
      unfolding rows_of_def filter_filter by (rule filter_cong) (use k in auto)
    finally show ?thesis .
  qed
  have single: "filter (\<lambda>r. prop_key r = k) ?rs = rows_of db c k" if k: "k \<in> set ks" for k
  proof -
    have "k \<noteq> 12" using assms(3) k by auto
    then have "length (rows_of db c k) \<le> 1" using assms(2) by (simp add: one_each_def)
    then show ?thesis by (rule short_mset [OF of_key [OF k]])
  qed
  have in_ks: "prop_key r \<in> set ks" if "r \<in> set ?rs" for r
  proof -
    have "r \<in># mset ?rs" using that by simp
    then show ?thesis unfolding m by simp
  qed
  have "count (mset (map prop_key ?rs)) k \<le> 1" for k
  proof (cases "k \<in> set ks")
    case True
    then have "k \<noteq> 12" using assms(3) by auto
    then have "length (rows_of db c k) \<le> 1" using assms(2) by (simp add: one_each_def)
    moreover have "count (mset (map prop_key ?rs)) k = length (filter (\<lambda>r. prop_key r = k) ?rs)" by (rule count_map)
    ultimately show ?thesis using single [OF True] by simp
  next
    case False
    then have "filter (\<lambda>r. prop_key r = k) ?rs = []" using in_ks by (auto simp: filter_empty_conv)
    then show ?thesis unfolding count_map by simp
  qed
  then show "distinct (map prop_key ?rs)" by (metis count_mset distinct_count_atmost_1 le_antisym One_nat_def Suc_leI count_greater_zero_iff set_mset_mset count_mset_0_iff)
  show "row_value ?rs k = prop_at db c k" if k: "k \<in> set ks"
  proof -
    have "find (\<lambda>r. prop_key r = k) xs = (case filter (\<lambda>r. prop_key r = k) xs of [] \<Rightarrow> None | r # _ \<Rightarrow> Some r)" for xs :: "property_row list"
      by (induction xs) auto
    then show ?thesis using single [OF k] by (simp add: row_value_def prop_at_def split: list.split)
  qed
qed

lemma range_answer:
  assumes k: "known N d A s i" and N: "names_ok N" "d \<in> N" "composeAttributeName d n \<in> N" and A: "A n = Some f" "f 6 \<noteq> None"
  shows "getDeviceAttributeRangeValueInfo E d n info s = (Ret (0, range_result E f info), s)"
proof -
  let ?x = "composeAttributeName d n" and ?db = "sdb s" and ?ks = "[8, 9, 10, 6, 11] :: nat list"
  note ok = knownD [OF k]
  have len: "length ?x < 256" using N by (simp add: names_ok_def)
  obtain c where c: "attr_id d ?db n = Some c" "(i, c) \<in> set (entity_group ?db)" "\<And>k. k \<noteq> 12 \<Longrightarrow> prop_at ?db c k = f k"
    by (rule attribute_id [OF k A(1)]) blast
  have kids: "getChildsWithKeyInfo E (device_object d i) 2 (KEY_STR_VALUE ?x) ?db = (Ret [attr_object d n c], ?db)"
    using search_child [OF ok(1) N(1,3), of i 2] c entity_at_row [OF ok(1) N(1) c(1) N(3)]
    by (simp add: getChildsWithKeyInfo_def device_object_def attr_object_def sbind_def sact_defs)
  let ?rs = "searchPropertyForEntity E c ?ks ?db"
  note sd = search_distinct_keys [OF ok(1,2), where ks = ?ks and c = c]
  have "row_value ?rs 6 \<noteq> None" using sd(2) [where k = 6] c(3) [of 6] A(2) by simp
  then have ne: "?rs \<noteq> []" by (auto simp: row_value_def)
  have "fold (range_field E s) ?rs info = range_result E (row_value ?rs) info" by (rule fold_range [OF ok(3) sd(1)]) simp_all
  also have "\<dots> = range_result E f info" using sd(2) c(3) by (simp add: range_result_def)
  finally have "fold (range_field E s) ?rs info = range_result E f info" .
  moreover have "range_keys s = ?ks" by (simp add: range_keys_def keys [OF ok(3)])
  ultimately show ?thesis using ne kids len keys(2) [OF ok(3)] device_known [OF N(1,2) k]
    by (simp add: getDeviceAttributeRangeValueInfo_def str_value_def on_db_def sbind_def sact_defs attr_object_def)
qed

text \<open>The names of the attributes of one direction.\<close>

lemma smap_decompose:
  assumes "\<forall>e \<in> set es. \<exists>n. entity_name e = composeAttributeName d n \<and> P n (entityID e)"
  shows "\<exists>ns. smap (\<lambda>e. lift_outcome (decompose d (entity_name e))) es s = (Ret ns, s) \<and> list_all2 (\<lambda>n e. entity_name e = composeAttributeName d n \<and> P n (entityID e)) ns es"
  using assms
proof (induction es)
  case (Cons e es)
  obtain n where n: "entity_name e = composeAttributeName d n" "P n (entityID e)" using Cons.prems by auto
  obtain ns where "smap (\<lambda>e. lift_outcome (decompose d (entity_name e))) es s = (Ret ns, s)"
    "list_all2 (\<lambda>n e. entity_name e = composeAttributeName d n \<and> P n (entityID e)) ns es" using Cons by auto
  moreover have "lift_outcome (decompose d (entity_name e)) s = (Ret n, s)" using n by (simp add: lift_outcome_def decompose_def composeAttributeName_def)
  ultimately show ?case using n by (intro exI [of _ "n # ns"]) (simp add: sbind_def sreturn_def)
qed (simp add: sreturn_def)

lemma value_row:
  assumes "one_each db" "k \<noteq> 12"
  shows "(\<exists>r \<in> set (property_rows db). prop_entity r = c \<and> prop_key r = k \<and> value_matches (KEY_NUM_VALUE x) (prop_value r))
    \<longleftrightarrow> prop_at db c k = Some (KEY_NUM_VALUE x)"
proof -
  have "(\<exists>r \<in> set (property_rows db). prop_entity r = c \<and> prop_key r = k \<and> value_matches (KEY_NUM_VALUE x) (prop_value r))
    \<longleftrightarrow> (\<exists>r \<in> set (rows_of db c k). prop_value r = KEY_NUM_VALUE x)" by (auto simp: rows_of_def)
  then show ?thesis by (cases rule: rows_of_cases [OF assms, of c]) simp_all
qed

lemma names_answer:
  assumes k: "known N d A s i" and N: "names_ok N" "d \<in> N" "\<And>n. A n \<noteq> None \<Longrightarrow> composeAttributeName d n \<in> N"
  shows "\<exists>ns. getDeviceDatasetAttributesName E d dir s = (Ret ns, s) \<and> distinct ns
    \<and> set ns = {n. \<exists>f. A n = Some f \<and> f 7 = Some (KEY_NUM_VALUE dir)}"
proof -
  let ?db = "sdb s" and ?v = "KEY_NUM_VALUE dir"
  note ok = knownD [OF k]
  let ?is = "searchEntityByParentAndPropertyIDAndKeyValue E i 7 ?v ?db"
  have dist: "distinct ?is" using ok(1) by (simp add: searchEntityByParentAndPropertyIDAndKeyValue_def select_entities_def db_ok_def distinct_map_filter)
  have child: "(i, c) \<in> set (entity_group ?db) \<longleftrightarrow> (\<exists>n. A n \<noteq> None \<and> attr_id d ?db n = Some c)" for c
    using ok(4) unfolding attrs_ok_def by (elim conjE) (erule spec)
  have row: "c \<in> fst ` set (entity_rows ?db)" if "attr_id d ?db n = Some c" for n c using that name_id_row [OF ok(1)] by force
  have ids: "c \<in> set ?is \<longleftrightarrow> (\<exists>n. A n \<noteq> None \<and> attr_id d ?db n = Some c) \<and> prop_at ?db c 7 = Some ?v" for c
  proof -
    have "?is = row_order E (map fst (filter (\<lambda>(c, _, _). (i, c) \<in> set (entity_group ?db) \<and> prop_at ?db c 7 = Some ?v) (entity_rows ?db)))"
      using value_row [OF ok(2), where k = 7 and x = dir]
      by (simp only: searchEntityByParentAndPropertyIDAndKeyValue_def select_entities_def numeral_eq_iff num.simps) simp
    then have "c \<in> set ?is \<longleftrightarrow> c \<in> fst ` set (entity_rows ?db) \<and> (i, c) \<in> set (entity_group ?db) \<and> prop_at ?db c 7 = Some ?v"
      by force
    then show ?thesis unfolding child using row by blast
  qed
  have "\<exists>x \<in> N. name_id ?db 2 x = Some c" if "c \<in> set ?is" for c using that N(3) unfolding ids by blast
  from children_at [OF ok(1) N(1) this] obtain es where es: "smap (entity_at E) ?is ?db = (Ret es, ?db)" "map entityID es = ?is"
    "\<forall>e \<in> set es. \<exists>x \<in> N. entity_value e = KEY_STR_VALUE x \<and> name_id ?db 2 x = Some (entityID e)" by blast
  let ?P = "\<lambda>n c. attr_id d ?db n = Some c \<and> (\<exists>f. A n = Some f \<and> f 7 = Some ?v)"
  have "\<exists>n. entity_name e = composeAttributeName d n \<and> ?P n (entityID e)" if e: "e \<in> set es" for e
  proof -
    obtain x where x: "entity_name e = x" "name_id ?db 2 x = Some (entityID e)" using es(3) e by (auto simp: entity_name_def)
    have "entityID e \<in> set ?is" using es(2) e by (metis image_eqI list.set_map)
    then obtain n f where n: "A n = Some f" "attr_id d ?db n = Some (entityID e)" "prop_at ?db (entityID e) 7 = Some ?v" unfolding ids by blast
    obtain c where "attr_id d ?db n = Some c" "\<And>k. k \<noteq> 12 \<Longrightarrow> prop_at ?db c k = f k" by (rule attribute_id [OF k n(1)]) blast
    then have "f 7 = Some ?v" using n(2,3) by simp
    then show ?thesis using n x name_id_inj [OF ok(1) x(2) n(2)] by (intro exI [of _ n]) auto
  qed
  then obtain ns where ns: "smap (\<lambda>e. lift_outcome (decompose d (entity_name e))) es s = (Ret ns, s)"
    "list_all2 (\<lambda>n e. entity_name e = composeAttributeName d n \<and> ?P n (entityID e)) ns es" using smap_decompose [of es d ?P s] by blast
  have "getDeviceDatasetAttributesName E d dir s = (Ret ns, s)"
    using ns(1) es(1) device_known [OF N(1,2) k] keys(6) [OF ok(3)]
    by (simp add: getDeviceDatasetAttributesName_def getChildWithPropertyKeyIDandValue_def on_db_def sbind_def sact_defs device_object_def)
  moreover have "map (\<lambda>n. attr_id d ?db n) ns = map Some ?is"
    unfolding es(2) [symmetric] using ns(2) by (induction rule: list_all2_induct) auto
  then have "distinct (map (\<lambda>n. attr_id d ?db n) ns)" using dist by (simp add: distinct_map)
  then have "distinct ns" by (simp only: distinct_map)
  moreover have "set ns = {n. \<exists>f. A n = Some f \<and> f 7 = Some ?v}"
  proof (intro equalityI subsetI)
    fix n assume "n \<in> set ns"
    then show "n \<in> {n. \<exists>f. A n = Some f \<and> f 7 = Some ?v}" using ns(2) by (auto simp: list_all2_conv_all_nth in_set_conv_nth)
  next
    fix n assume "n \<in> {n. \<exists>f. A n = Some f \<and> f 7 = Some ?v}"
    then obtain f where f: "A n = Some f" "f 7 = Some ?v" by blast
    obtain c where c: "attr_id d ?db n = Some c" "\<And>k. k \<noteq> 12 \<Longrightarrow> prop_at ?db c k = f k" by (rule attribute_id [OF k f(1)]) blast
    then have "Some c \<in> set (map Some ?is)" using f ids [of c] by auto
    then obtain m where m: "m \<in> set ns" "attr_id d ?db m = Some c" using \<open>map (\<lambda>n. attr_id d ?db n) ns = map Some ?is\<close> by (metis (no_types, lifting) image_iff list.set_map)
    then show "n \<in> set ns" using name_id_inj [OF ok(1) c(1) m(2)] by (simp add: compose_eq)
  qed
  ultimately show ?thesis by blast
qed

lemma range_set:
  assumes k: "known N d A s i" and N: "names_ok N" "d \<in> N" "composeAttributeName d n \<in> N"
    and len: "length (maxRange info) < 256" "length (minRange info) < 256" "length (defaultValue info) < 256"
  shows "\<exists>s'. setDeviceAttributeRangeValueInfo E d n info s = (Ret (), s')
    \<and> known N d (A(n \<mapsto> (old_props A n)(8 \<mapsto> KEY_STR_VALUE (maxRange info), 9 \<mapsto> KEY_STR_VALUE (minRange info), 10 \<mapsto> KEY_STR_VALUE (defaultValue info)))) s' i"
proof -
  obtain c s0 where el: "getDatasetElement E (device_object d i) n s = (Ret (Some (attr_object d n c)), s0)" "attr_id d (sdb s0) n = Some c"
    "known N d (A(n \<mapsto> old_props A n)) s0 i" using element_found [OF k N(1,3)] by blast
  let ?A = "A(n \<mapsto> old_props A n)"
  note ok = knownD [OF el(3)]
  have b0: "building N d ?A (sdb s0) i n c (old_props A n)"
    using building_start [of N d ?A "sdb s0" i n] el(2,3) N(3) by (auto simp: known_def with_entity_def old_props_def)
  have use: "db_ok N db \<and> one_each db \<and> entityID (attr_object d n c) = c \<and> c \<le> seq_entity db" if "building N d ?A db i n c f" for db f
    using that name_id_below [of N db 2 "composeAttributeName d n" c] by (simp add: building_def attr_object_def)
  obtain db1 where p1: "addUniqueAttributeProperty_str E (attr_object d n c) 8 (maxRange info) (sdb s0) = (Ret (), db1)"
      "sets_prop N c 8 (KEY_STR_VALUE (maxRange info)) (sdb s0) db1"
    using addUnique_str [of N "sdb s0" 8 "attr_object d n c" "maxRange info"] use [OF b0] len by auto
  note b1 = building_set [OF b0 p1(2), simplified]
  obtain db2 where p2: "addUniqueAttributeProperty_str E (attr_object d n c) 9 (minRange info) db1 = (Ret (), db2)"
      "sets_prop N c 9 (KEY_STR_VALUE (minRange info)) db1 db2"
    using addUnique_str [of N db1 9 "attr_object d n c" "minRange info"] use [OF b1] len by auto
  note b2 = building_set [OF b1 p2(2), simplified]
  obtain db3 where p3: "addUniqueAttributeProperty_str E (attr_object d n c) 10 (defaultValue info) db2 = (Ret (), db3)"
      "sets_prop N c 10 (KEY_STR_VALUE (defaultValue info)) db2 db3"
    using addUnique_str [of N db2 10 "attr_object d n c" "defaultValue info"] use [OF b2] len by auto
  note b3 = building_set [OF b2 p3(2), simplified]
  have "(i, c) \<in> set (entity_group db3)" using b3 unfolding building_def by (metis fun_upd_same option.distinct(1))
  then have "attachEntityChildToEntityParent i c db3 = db3" by (simp add: attachEntityChildToEntityParent_def)
  then have t: "tables N d (A(n \<mapsto> (old_props A n)(8 \<mapsto> KEY_STR_VALUE (maxRange info), 9 \<mapsto> KEY_STR_VALUE (minRange info),
      10 \<mapsto> KEY_STR_VALUE (defaultValue info)))) db3 i" using building_done [OF b3] by simp
  have "setDeviceAttributeRangeValueInfo E d n info s = (Ret (), s0\<lparr>sdb := db3\<rparr>)"
    using el(1) p1(1) p2(1) p3(1) keys [OF ok(3)] device_known [OF N(1,2) k]
    by (simp add: setDeviceAttributeRangeValueInfo_def on_db_def sbind_def sact_defs)
  then show ?thesis using t el(3) by (auto simp: known_def)
qed

end

section \<open>The dataset refines a map\<close>

record attribute_def =
  def_name :: string
  def_description :: string
  def_type :: u64
  def_direction :: u64
  def_size :: u32

datatype dataset_op = Op_attribute attribute_def | Op_range string range_value_info

text \<open>What a call of the user means for the map.\<close>

fun apply_op :: "dataset_op \<Rightarrow> attribute_map \<Rightarrow> attribute_map" where
  "apply_op (Op_attribute a) A =
     A(def_name a \<mapsto> (old_props A (def_name a))
        (5 \<mapsto> KEY_STR_VALUE (def_description a), 6 \<mapsto> KEY_NUM_VALUE (def_type a), 7 \<mapsto> KEY_NUM_VALUE (def_direction a),
         11 \<mapsto> KEY_NUM_VALUE (case typeMaxDimension (def_type a) (def_size a) of Ret n \<Rightarrow> ucast n | _ \<Rightarrow> 0)))"
| "apply_op (Op_range n info) A =
     A(n \<mapsto> (old_props A n)
        (8 \<mapsto> KEY_STR_VALUE (maxRange info), 9 \<mapsto> KEY_STR_VALUE (minRange info), 10 \<mapsto> KEY_STR_VALUE (defaultValue info)))"

fun run_op :: "sql_engine \<Rightarrow> dataset_op \<Rightarrow> (unit, dataset_db) sact" where
  "run_op E (Op_attribute a) = dataset_addAttribute E (def_name a) (def_description a) (def_type a) (def_direction a) (def_size a)"
| "run_op E (Op_range n info) = setAttributeRangeValueInfo E n info"

text \<open>A call with a name in use, texts that fit and, for texts and byte arrays, a size.\<close>

fun op_ok :: "string set \<Rightarrow> string \<Rightarrow> dataset_op \<Rightarrow> bool" where
  "op_ok N d (Op_attribute a) =
     (composeAttributeName d (def_name a) \<in> N \<and> length (def_description a) < 256 \<and> (\<exists>n. typeMaxDimension (def_type a) (def_size a) = Ret n))"
| "op_ok N d (Op_range n info) =
     (composeAttributeName d n \<in> N \<and> length (maxRange info) < 256 \<and> length (minRange info) < 256 \<and> length (defaultValue info) < 256)"

context sql_rows
begin

lemma op_refines:
  assumes D: "describes N d A (ds_schema D)" "ds_deviceID D = d" and N: "names_ok N" "d \<in> N" and op: "op_ok N d op"
  shows "\<exists>D'. run_op E op D = (Ret (), D') \<and> describes N d (apply_op op A) (ds_schema D') \<and> ds_deviceID D' = d"
proof (cases op)
  case (Op_attribute a)
  then obtain n where n: "typeMaxDimension (def_type a) (def_size a) = Ret n" "composeAttributeName d (def_name a) \<in> N" "length (def_description a) < 256"
    using op by auto
  obtain s' where "addAttributeToDataSet E d (def_name a) (def_description a) (def_type a) (def_direction a) (def_size a) (ds_schema D) = (Ret (), s')"
      "describes N d (apply_op op A) s'"
    using attribute_added [OF D(1) N n(2,1,3), of "def_direction a"] n(1) Op_attribute by auto
  then show ?thesis using D(2) Op_attribute by (simp add: dataset_addAttribute_def on_schema_def)
next
  case (Op_range n info)
  obtain i s0 where dev: "getDeviceEntity E d (ds_schema D) = (Ret (device_object d i), s0)" "known N d A s0 i" using device_found [OF D(1) N] by blast
  have "composeAttributeName d n \<in> N" "length (maxRange info) < 256" "length (minRange info) < 256" "length (defaultValue info) < 256" using op Op_range by auto
  then obtain s' where s': "setDeviceAttributeRangeValueInfo E d n info s0 = (Ret (), s')" "known N d (apply_op op A) s' i"
    using range_set [OF dev(2) N, of n info] Op_range by auto
  have "setDeviceAttributeRangeValueInfo E d n info (ds_schema D) = setDeviceAttributeRangeValueInfo E d n info s0"
    using dev(1) device_known [OF N dev(2)] by (simp add: setDeviceAttributeRangeValueInfo_def sbind_def)
  then show ?thesis using s' D(2) Op_range known_describes by (simp add: setAttributeRangeValueInfo_def on_schema_def)
qed

lemma ops_refine:
  assumes "describes N d A (ds_schema D)" "ds_deviceID D = d" and N: "names_ok N" "d \<in> N" and "\<forall>op \<in> set ops. op_ok N d op"
  shows "\<exists>D'. sfor (run_op E) ops D = (Ret (), D') \<and> describes N d (fold apply_op ops A) (ds_schema D') \<and> ds_deviceID D' = d"
  using assms(1,2,5)
proof (induction ops arbitrary: A D)
  case (Cons op ops)
  obtain D1 where D1: "run_op E op D = (Ret (), D1)" "describes N d (apply_op op A) (ds_schema D1)" "ds_deviceID D1 = d"
    using op_refines [OF Cons.prems(1,2) N, of op] Cons.prems(3) by auto
  then show ?case using Cons.IH [OF D1(2,3)] Cons.prems(3) by (simp add: sbind_def)
qed (auto simp: sreturn_def)

lemma fold_apply_names: "fold apply_op ops A n \<noteq> None \<Longrightarrow> \<forall>op \<in> set ops. op_ok N d op \<Longrightarrow> (\<And>n. A n \<noteq> None \<Longrightarrow> composeAttributeName d n \<in> N) \<Longrightarrow>
  composeAttributeName d n \<in> N"
proof (induction ops arbitrary: A)
  case (Cons op ops)
  have "composeAttributeName d m \<in> N" if "apply_op op A m \<noteq> None" for m
    using that Cons.prems(2,3) by (cases op) (auto split: if_splits)
  then show ?case using Cons by simp
qed simp

end

definition insertion_order :: sql_engine where
  "insertion_order = \<lparr>row_order = (\<lambda>is. is), stale_zero = True, time_stamp = 0, double_text = (\<lambda>_. '''')\<rparr>"

interpretation insertion: sql_rows insertion_order
  by unfold_locales (simp add: insertion_order_def)

section \<open>Properties\<close>

text \<open>
  C7. The dataset of a device is a map from names to attributes. After any sequence of definitions of attributes
  and settings of ranges, whatever order the database gives its rows in, the dataset answers from the map that
  these calls build: for a direction the names of the attributes that have it, each once; for a name its type
  and size, and its range and default value once they are set; its direction and its description. The later of
  two definitions of a name counts. The names of the device and of its attributes must be told apart by \<open>LIKE\<close>
  and fit into 255 characters, and a text or byte array needs a size.
\<close>

theorem dataset_refines_map:
  assumes E: "sql_rows E" and N: "names_ok N" "d \<in> N" and ops: "\<forall>op \<in> set ops. op_ok N d op" and A: "A = fold apply_op ops Map.empty"
  shows "\<exists>D. sfor (run_op E) ops (setDeviceID d new_DatasetDB) = (Ret (), D)
    \<and> (\<forall>dir. \<exists>ns D'. getDatasetAttributesName E dir D = (Ret ns, D') \<and> distinct ns \<and> set ns = {n. \<exists>f. A n = Some f \<and> f 7 = Some (KEY_NUM_VALUE dir)})
    \<and> (\<forall>n f info. A n = Some f \<longrightarrow> f 6 \<noteq> None \<longrightarrow> getAttributeRangeValueInfo E n info D = (Ret (0, range_result E f info), D))
    \<and> (\<forall>n f. A n = Some f \<longrightarrow> getAttributeDirection E n D = (Ret (map_option num_of (f 7)), D))
    \<and> (\<forall>n f x y. A n = Some f \<longrightarrow> f 5 = Some (KEY_STR_VALUE x) \<longrightarrow> getAttributeDescription E n y D = (Ret x, D))"
proof -
  have new: "describes N d Map.empty (ds_schema (setDeviceID d new_DatasetDB))" "ds_deviceID (setDeviceID d new_DatasetDB) = d"
    by (simp_all add: setDeviceID_def new_DatasetDB_def new_describes)
  obtain D where D: "sfor (run_op E) ops (setDeviceID d new_DatasetDB) = (Ret (), D)" "describes N d A (ds_schema D)" "ds_deviceID D = d"
    using sql_rows.ops_refine [OF E new N ops] A by blast
  have names: "composeAttributeName d n \<in> N" if "A n \<noteq> None" for n
    using sql_rows.fold_apply_names [OF E, of ops Map.empty n N d] that ops by (simp add: A)
  have known: "\<exists>i. known N d A (ds_schema D) i" if "A n \<noteq> None" for n using D(2) that by (auto simp: describes_def)
  have same: "D\<lparr>ds_schema := ds_schema D\<rparr> = D" by simp
  show ?thesis
  proof (intro exI [of _ D] conjI allI impI)
    show "sfor (run_op E) ops (setDeviceID d new_DatasetDB) = (Ret (), D)" by (rule D(1))
  next
    fix dir
    obtain i s0 where dev: "getDeviceEntity E d (ds_schema D) = (Ret (device_object d i), s0)" "known N d A s0 i"
      using sql_rows.device_found [OF E D(2) N] by blast
    obtain ns where ns: "getDeviceDatasetAttributesName E d dir s0 = (Ret ns, s0)" "distinct ns"
      "set ns = {n. \<exists>f. A n = Some f \<and> f 7 = Some (KEY_NUM_VALUE dir)}" using sql_rows.names_answer [OF E dev(2) N names] by blast
    have "getDeviceDatasetAttributesName E d dir (ds_schema D) = getDeviceDatasetAttributesName E d dir s0"
      using dev(1) sql_rows.device_known [OF E N dev(2)] by (simp add: getDeviceDatasetAttributesName_def sbind_def)
    then show "\<exists>ns D'. getDatasetAttributesName E dir D = (Ret ns, D') \<and> distinct ns \<and> set ns = {n. \<exists>f. A n = Some f \<and> f 7 = Some (KEY_NUM_VALUE dir)}"
      using ns D(3) by (simp add: getDatasetAttributesName_def on_schema_def)
  next
    fix n f info assume f: "A n = Some f" "f 6 \<noteq> None"
    then have nm: "composeAttributeName d n \<in> N" using names [of n] by simp
    obtain i where kn: "known N d A (ds_schema D) i" using known [of n] f by auto
    show "getAttributeRangeValueInfo E n info D = (Ret (0, range_result E f info), D)"
      using sql_rows.range_answer [OF E kn N nm f] D(3) by (simp add: getAttributeRangeValueInfo_def on_schema_def)
  next
    fix n f assume f: "A n = Some f"
    then have nm: "composeAttributeName d n \<in> N" using names [of n] by simp
    obtain i where kn: "known N d A (ds_schema D) i" using known [of n] f by auto
    show "getAttributeDirection E n D = (Ret (map_option num_of (f 7)), D)"
      using sql_rows.direction_answer [OF E kn N nm f] D(3) by (simp add: getAttributeDirection_def on_schema_def)
  next
    fix n f x y assume f: "A n = Some f" "f 5 = Some (KEY_STR_VALUE x)"
    then have nm: "composeAttributeName d n \<in> N" using names [of n] by simp
    obtain i where kn: "known N d A (ds_schema D) i" using known [of n] f by auto
    show "getAttributeDescription E n y D = (Ret x, D)"
      using sql_rows.description_answer [OF E kn N nm f] D(3) by (simp add: getAttributeDescription_def on_schema_def)
  qed
qed

definition example_names_used :: "string set" where
  "example_names_used = {''dev'', ''dev:volt'', ''dev:label''}"

definition example_ops :: "dataset_op list" where
  "example_ops =
     [Op_attribute \<lparr>def_name = ''volt'', def_description = ''voltage'', def_type = 0, def_direction = 0, def_size = 0\<rparr>,
      Op_attribute \<lparr>def_name = ''label'', def_description = ''text'', def_type = 3, def_direction = 1, def_size = 32\<rparr>,
      Op_range ''volt'' \<lparr>maxSize = 0, maxRange = ''10'', minRange = ''0'', defaultValue = ''5'', valueType = 0\<rparr>]"

lemma example_names_ok: "names_ok example_names_used"
  by code_simp

lemma example_map:
  "fold apply_op example_ops Map.empty ''volt'' = Some [5 \<mapsto> KEY_STR_VALUE ''voltage'', 6 \<mapsto> KEY_NUM_VALUE 0, 7 \<mapsto> KEY_NUM_VALUE 0,
     11 \<mapsto> KEY_NUM_VALUE 4, 8 \<mapsto> KEY_STR_VALUE ''10'', 9 \<mapsto> KEY_STR_VALUE ''0'', 10 \<mapsto> KEY_STR_VALUE ''5'']"
  "{n. \<exists>f. fold apply_op example_ops Map.empty n = Some f \<and> f 7 = Some (KEY_NUM_VALUE 1)} = {''label''}"
  by (auto simp: example_ops_def old_props_def typeMaxDimension_def data_type_of_def size_of_type_def)

theorem dataset_refines_map_witness:
  "\<exists>D. sfor (run_op insertion_order) example_ops (setDeviceID ''dev'' new_DatasetDB) = (Ret (), D)
     \<and> getAttributeRangeValueInfo insertion_order ''volt'' reset_RangeValueInfo D
         = (Ret (0, \<lparr>maxSize = 4, maxRange = ''10'', minRange = ''0'', defaultValue = ''5'', valueType = 0\<rparr>), D)
     \<and> (\<exists>ns D'. getDatasetAttributesName insertion_order 1 D = (Ret ns, D') \<and> set ns = {''label''})"
proof -
  have ops: "\<forall>op \<in> set example_ops. op_ok example_names_used ''dev'' op"
    by (simp add: example_ops_def example_names_used_def composeAttributeName_def typeMaxDimension_def data_type_of_def)
  have "''dev'' \<in> example_names_used" by (simp add: example_names_used_def)
  from dataset_refines_map [OF insertion.sql_rows_axioms example_names_ok this ops HOL.refl] obtain D where
    D: "sfor (run_op insertion_order) example_ops (setDeviceID ''dev'' new_DatasetDB) = (Ret (), D)"
    "\<exists>ns D'. getDatasetAttributesName insertion_order 1 D = (Ret ns, D') \<and> distinct ns
       \<and> set ns = {n. \<exists>f. fold apply_op example_ops Map.empty n = Some f \<and> f 7 = Some (KEY_NUM_VALUE 1)}"
    "\<forall>n f info. fold apply_op example_ops Map.empty n = Some f \<longrightarrow> f 6 \<noteq> None \<longrightarrow>
       getAttributeRangeValueInfo insertion_order n info D = (Ret (0, range_result insertion_order f info), D)" by blast
  have "getAttributeRangeValueInfo insertion_order ''volt'' reset_RangeValueInfo D
      = (Ret (0, \<lparr>maxSize = 4, maxRange = ''10'', minRange = ''0'', defaultValue = ''5'', valueType = 0\<rparr>), D)"
    using D(3) [rule_format, OF example_map(1), of reset_RangeValueInfo] by (simp add: range_result_def num_of_def str_of_def)
  then show ?thesis using D(1,2) example_map(2) by auto
qed

text \<open>
  Names that \<open>LIKE\<close> does not tell apart share one description: after \<open>axb\<close>, an input of type \<open>int32\<close>, the
  attribute \<open>a_b\<close> is defined, a text of 8 bytes in output. The dataset knows one attribute, \<open>axb\<close>, now a text in
  output.
\<close>

definition similar_ops :: "dataset_op list" where
  "similar_ops =
     [Op_attribute \<lparr>def_name = ''axb'', def_description = ''first'', def_type = 0, def_direction = 0, def_size = 0\<rparr>,
      Op_attribute \<lparr>def_name = ''a_b'', def_description = ''second'', def_type = 3, def_direction = 1, def_size = 8\<rparr>]"

lemma similar_names_share:
  "(case sfor (run_op insertion_order) similar_ops (setDeviceID ''dev'' new_DatasetDB) of
      (r, D) \<Rightarrow> r = Ret () \<and> fst (getDatasetAttributesName insertion_order 0 D) = Ret []
        \<and> fst (getDatasetAttributesName insertion_order 1 D) = Ret [''axb'']
        \<and> fst (getAttributeRangeValueInfo insertion_order ''axb'' reset_RangeValueInfo D)
            = Ret (0, \<lparr>maxSize = 8, maxRange = '''', minRange = '''', defaultValue = '''', valueType = 3\<rparr>))"
  by code_simp

text \<open>The names of all attributes are searched under a key that no entity has: the answer is empty.\<close>

lemma all_names_empty:
  "(case sfor (run_op insertion_order) example_ops (setDeviceID ''dev'' new_DatasetDB) of
      (r, D) \<Rightarrow> fst (all_attribute_names insertion_order ''dev'' (ds_schema D)) = Ret [])"
  by code_simp

end
