(* ===== verification/Spec2Isabelle.thy ===== *)
theory Spec2Isabelle
  imports Service_Lifecycle Processing_Queue Wait_Semaphore Circular_Buffer Buffer_System
    Cache_Tracker Fast_Hash Key_Value_Hash Memory_Pool Attribute_Cache Event_Descriptor Direct_IO_Dispatch
    Batch_Executor Rpc_Channel Mongo_Connection Query_Server Driver_Messages Published_Units Dataset_Answers
begin

text \<open>
  A verification of the core of the !CHAOS framework, a control system for accelerators and large
  experiments. Its library \<open>chaos/common\<close> is used by the control-unit toolkit, the user-interface toolkit
  and the data service. This development models the parts of the library with logic of their own, from
  the services' life cycle up to the caches, the command sandbox, the remote calls and the direct I/O
  transport, the managers of drivers and units of the control-unit toolkit, and the storage and query side of
  the data service, and proves what each part promises to its
  users. File names below are relative to \<open>src/chaos/common\<close>, those of the toolkit to
  \<open>src/chaos/cu_toolkit\<close> and those of the data service to \<open>src/ChaosDataService\<close>.

  \<^bold>\<open>Conventions.\<close> A C++ call ends in one of three ways (\<open>Chaos_Prelude\<close>): it returns, it throws a
  \<open>CException\<close>, or it runs into undefined behaviour such as a null or dangling pointer (\<open>Fault\<close>, in the
  caching theories \<open>None\<close> or \<open>Faulted\<close>). Machine integers are words of their width; heap objects live in
  maps from addresses, and a freed object is gone from the map, so that a use after free is a fault of the
  model. Threads are steps of a relation, atomic between taking and releasing a lock. Library code is a
  parameter: the back end of the Boost state machine (locale \<open>msm_backend\<close>), the choice of
  \<open>std::priority_queue\<close> among elements of equal priority (\<open>heap_top\<close>), the address of a new object
  (\<open>state_allocator\<close>), the order in which SQLite gives rows (\<open>sql_rows\<close>), the rows of a state machine table
  (\<open>msm_rows\<close>), clocks, the handlers a user installs, the parser of BSON documents, the outcomes of
  ZeroMQ calls and the byte order of the host. Interfaces between components are locales too: \<open>block_index\<close>
  between the virtual files and the database, \<open>channel_protocol\<close> between channels and dispatcher,
  \<open>action_table\<close> and \<open>unit_kind\<close> between the control manager, the dispatcher and the units it runs. Every
  locale is interpreted on an executable instance.

  \<^bold>\<open>Base.\<close>
  \<^item> \<open>Service_Lifecycle\<close>: \<open>utility/InizializableService.*\<close>, \<open>StartableService.*\<close>, \<open>SetupStateManager.h\<close>. The
    state machines and the static functions that guard the four hooks of a service. Hooks are called in a
    legal order only; a failed start is not rolled back.
  \<^item> \<open>Processing_Queue\<close>: \<open>pqueue/CObjectProcessingQueue.h\<close>, \<open>CObjectProcessingPriorityQueue.h\<close>,
    \<open>thread/TemplatedConcurrentQueue.h\<close>. Producers, workers and the thread that shuts the queue down as a
    step relation: every element is handed out once and in order; joining the workers can finish,
    waiting for the queue to drain hangs.
  \<^item> \<open>Wait_Semaphore\<close>: the semaphores of \<open>thread\<close> on which callers wait for answers.
  \<^item> \<open>Circular_Buffer\<close>, \<open>Memory_Pool\<close>: \<open>utility/SingleBufferCircularBuffer.h\<close>, \<open>pool/CPoolMemory.h\<close>.
  \<^item> \<open>Fast_Hash\<close>, \<open>Key_Value_Hash\<close>: \<open>data/cache/FastHash.cpp\<close> and \<open>utility/TemplatedKeyValueHash.h\<close>. The
    hash does not depend on the alignment of the key, and the table refines a finite map.

  \<^bold>\<open>Caching.\<close> \<open>Common_Buffer\<close> is the queue of \<open>caching_system/common_buffer\<close>, \<open>Buffer_Reader\<close> its readers,
  \<open>Buffer_Collector\<close> the collector and the destructor, \<open>Buffer_System\<close> the interleavings of one writer, one
  collector and any number of readers and smart pointers: no interleaving faults, a live pointer keeps its
  data, a reader sees a run of what was written. \<open>Cache_Tracker\<close> has the sub-buffers of a device
  (\<open>caching_system/caching_thread\<close>). \<open>Attribute_Cache\<close> is the shared cache of attribute values
  (\<open>data/cache/AttributesSetting.*\<close>).

  \<^bold>\<open>Transport.\<close> \<open>Wire_Format\<close> has the byte orders of \<open>utility/endianess.h\<close> and raw memory.
  \<open>Event_Descriptor\<close> builds and reads the event packs of \<open>event\<close> byte by byte. \<open>Direct_IO_Pack\<close>,
  \<open>Direct_IO_Channels\<close>, \<open>Direct_IO_System\<close> and \<open>Direct_IO_Dispatch\<close> follow a request of \<open>direct_io\<close> from the
  channel of the client over the two or three frames of a ZeroMQ message to the dispatcher, the endpoint,
  the channel of the server and its handler: what is sent arrives, and answers come back as they were given.

  \<^bold>\<open>Batch commands.\<close> \<open>Batch_Command\<close> is the command object of \<open>batch_command\<close> with its features and running
  property; what a user's handler does is the list of calls it makes on the command and how it ends.
  \<open>Batch_Sandbox\<close> has the checker, which decides what becomes of the next submission, and the scheduler,
  which runs the current command. \<open>Batch_Lifecycle\<close> lets them interleave with requests from outside and
  proves the invariant of the pointers; \<open>Batch_Behaviour\<close> draws the consequences: no fault under the locks,
  a legal order of events, the decisions of the table, and the defects at the edges. \<open>Batch_Executor\<close> adds
  the history of command states, which reports the truth whatever is capped or flushed, and submission.

  \<^bold>\<open>Remote calls.\<close> \<open>Data_Wrapper\<close> is \<open>data/CDataWrapper.cpp\<close>: a document is the list of its fields in
  order, and the first field of a name is the one that is read. \<open>Rpc_Dispatch\<close> has the actions, their domains
  and the dispatcher with one scheduler per domain (\<open>action\<close>, \<open>dispatcher\<close>); what an action does is a
  parameter. \<open>Rpc_Registry\<close> shows that the tables follow the requests. \<open>Rpc_Channel\<close> is the message channel of
  \<open>message\<close> with the pending requests of \<open>Wait_Semaphore\<close>: a request that is dispatched comes back with the
  result of its action, and two ways in which an answer is lost.

  \<^bold>\<open>Dataset descriptions.\<close> \<open>Entity_DB\<close> is \<open>data/entity_db\<close> and \<open>data/entity\<close>: tables of entities and properties
  with the statements the code sends to SQLite, \<open>LIKE\<close> included; the engine's choice of row order is a
  parameter. \<open>Dataset_Schema\<close> is \<open>data/CUSchemaDB.*\<close> and \<open>data/DatasetDB.*\<close>. \<open>Dataset_Tables\<close> and
  \<open>Dataset_Description\<close> relate the tables to a map from attribute names to their type, direction, size,
  range and description, and \<open>Dataset_Answers\<close> shows that every question is answered from that map as
  long as the names are told apart by \<open>LIKE\<close>, and what happens when they are not.

  \<^bold>\<open>Control-unit toolkit.\<close>
  \<^item> \<open>Driver_Manager\<close>: \<open>driver_manager\<close>. Drivers are shared by key between the accessors of many units; each has
    a queue of messages and a thread. \<open>Driver_Sharing\<close>: a driver lives exactly as long as an accessor to it,
    for every history of requests. \<open>Driver_Messages\<close>: a sent message is executed and its sender gets the
    answer; also where identifiers of answers and priorities do not do what their names say.
  \<^item> \<open>Work_Unit\<close>, \<open>Control_Manager\<close>: \<open>ControlManager/WorkUnitManagement.*\<close> and \<open>ControlManager.*\<close>. A unit is
    taken from the queue of submissions, published to the metadata server by its own state machine, and registered
    with the dispatcher; remote requests load and unload units. The metadata server's answers, the factories of
    units and the units themselves are parameters. \<open>Unit_Lifecycle\<close> states the interfaces of registry and
    unit, \<open>Control_Life\<close> the invariant of the two maps under every interleaving, and \<open>Published_Units\<close>
    interprets the interface on the dispatcher of \<open>Rpc_Dispatch\<close>: a registered unit answers every action it
    declares, an unpublished one none.

  \<^bold>\<open>Storage of the data service.\<close>
  \<^item> \<open>Storage_Driver\<close>, \<open>Storage_Views\<close>: \<open>vfs/DataBlock.h\<close> and the POSIX driver over an explicit file system; which
    calls the system refuses is part of the state. \<open>Storage_Views\<close> says what a block holds.
  \<^item> \<open>Vfs_File\<close>, \<open>Vfs_Stage\<close>, \<open>Vfs_Data\<close>: the logical files, the stage area and the data area of \<open>vfs\<close>.
    They call the block index through the locale \<open>block_index\<close> of \<open>Vfs_Behaviour\<close>. \<open>Stage_Files\<close>, \<open>Stage_Reading\<close> and
    \<open>Data_Files\<close> show that packs are kept in order and read back, also across block changes.
  \<^item> \<open>Stage_Scan\<close>, \<open>Pack_Scan\<close>, \<open>Index_Location\<close>: the scanner that moves packs from the stage area to the data
    area and enters them in the index: it ends, every pack is in the file of its device; where the location
    in the index is right and where it is not.
  \<^item> \<open>Mongo_Driver\<close>, \<open>Mongo_Index\<close>, \<open>Mongo_Connection\<close>: \<open>db_system/MongoDBDriver.cpp\<close> and the connection manager. A pool
    of database connections is a parameter of the driver, and the client library the parameter from which
    \<open>Mongo_Connection\<close> builds one, with its failing over between servers. \<open>Mongo_Server\<close> and \<open>Query_Server\<close> are
    a small server on which the hypotheses about the database hold.
  \<^item> \<open>Vfs_Query\<close>, \<open>Query_Engine\<close>: the cursor over the index, the cache of block fetchers and the engine that
    answers data queries. \<open>Query_Reading\<close>, \<open>Query_Paging\<close> and \<open>Query_Answer\<close> follow a query from its first page to
    its last message: the client gets every pack of the time range once, page by page.

  \<^bold>\<open>Fuel.\<close> Loops over linked structures (\<open>clear_loop\<close>, \<open>mark_loop\<close>, \<open>destroy_loop\<close>, \<open>find_node\<close> and the
  jumps of the readers) take fuel; running out of it is a result of its own, and the theorems show that the
  number of elements of the structure is enough. The scanner takes one round per pack of the block and one
  more, a query three steps per page and two more; the call of the connection manager runs until it succeeds
  or meets an error it does not retry, and its bound is monotone: a result is the result for every larger
  bound. \<open>checkNextCommand\<close> counts the iterations of a loop that runs
  until the service stops, and the theorem on stopping speaks about every number of them.

  \<^bold>\<open>Not modelled.\<close> Vendored code (\<open>bson\<close>, SQLite, memcached's slabs, \<open>FastDelegate.h\<close>) and what only forwards
  to it; socket set-up, logging, option parsing and plug-in loading; the Java MDS; examples and bindings.
  Of the executor, the broadcast of the service calls to its sandboxes; of the toolkit, the base classes
  of units that a user extends (the manager sees them through \<open>unit_kind\<close>) and the handler of output data,
  which pushes documents to the live and history channels; of the data service, the workers and
  the cache drivers, which pass packs on between the parts modelled here.
\<close>

end
